(* ===== verification/Prelude.thy ===== *)
theory Prelude
  imports Main "HOL-Library.Word"
begin

text \<open>
  Shared vocabulary of the development: machine integers at the widths the Rust sources use, the
  byte-order conversions (\<^verbatim>\<open>to_le_bytes\<close>), the \<^verbatim>\<open>sort\<close>-then-\<^verbatim>\<open>dedup\<close> idiom that every set-like
  structure of the toolchain relies on, the \<^verbatim>\<open>?\<close> operator on results, and the generic lemmas
  about them that the component theories use.

  A Rust \<^verbatim>\<open>uN\<close> is an \<open>N word\<close>.  A Rust \<^verbatim>\<open>iN\<close> is an \<open>N word\<close> too, read through \<open>sint\<close> where its
  sign matters; \<^verbatim>\<open>as\<close> casts are \<open>ucast\<close> and \<open>scast\<close>.
\<close>

unbundle bit_operations_syntax

type_synonym u8 = "8 word"
type_synonym u16 = "16 word"
type_synonym u32 = "32 word"
type_synonym u64 = "64 word"
type_synonym i8 = "8 word"
type_synonym i32 = "32 word"
type_synonym i64 = "64 word"

named_theorems byte_simps \<open>byte order conversions and their inverses\<close>
named_theorems set_simps \<open>sets denoted by canonical lists\<close>

section \<open>Canonical sorted lists\<close>

text \<open>\<^verbatim>\<open>v.sort(); v.dedup();\<close> on a vector of totally ordered elements.\<close>

definition sort_dedup :: "'a::linorder list \<Rightarrow> 'a list" where
  "sort_dedup xs = remdups_adj (sort xs)"

text \<open>The canonical form the idiom establishes: strictly increasing.\<close>

abbreviation canonical :: "'a::linorder list \<Rightarrow> bool" where
  "canonical xs \<equiv> sorted_wrt (<) xs"

lemma set_sort_dedup [simp, set_simps]: "set (sort_dedup xs) = set xs"
  by (simp add: sort_dedup_def)

lemma canonical_remdups_adj: "sorted xs \<Longrightarrow> canonical (remdups_adj xs)"
proof (induction xs rule: remdups_adj.induct)
  case (3 x y xs)
  show ?case
  proof (cases "x = y")
    case True
    with 3 show ?thesis by simp
  next
    case False
    with "3.prems" have "\<forall>z \<in> set (y # xs). x < z" by force
    moreover have "canonical (remdups_adj (y # xs))"
      using 3 False by simp
    ultimately show ?thesis using False by simp
  qed
qed simp_all

lemma canonical_sort_dedup [simp, intro]: "canonical (sort_dedup xs)"
  by (simp add: sort_dedup_def canonical_remdups_adj)

lemma canonical_set_eq:
  assumes "canonical xs" "canonical ys" "set xs = set ys"
  shows "xs = ys"
  using assms by (metis sorted_distinct_set_unique strict_sorted_iff)

lemma sort_dedup_canonical [simp]: "canonical xs \<Longrightarrow> sort_dedup xs = xs"
  by (rule canonical_set_eq) auto

lemma sort_dedup_cong: "set xs = set ys \<Longrightarrow> sort_dedup xs = sort_dedup ys"
  by (rule canonical_set_eq) auto

lemma canonical_filter: "canonical xs \<Longrightarrow> canonical (filter P xs)"
  by (induction xs) auto

lemma canonical_distinct: "canonical xs \<Longrightarrow> distinct xs"
  by (simp add: strict_sorted_iff)

lemma remdups_adj_canonical: "canonical xs \<Longrightarrow> remdups_adj xs = xs"
  by (simp add: canonical_distinct remdups_adj_distinct)

section \<open>Little-endian bytes\<close>

definition le_bytes16 :: "u16 \<Rightarrow> u8 list" where
  "le_bytes16 w = [ucast w, ucast (drop_bit 8 w)]"

definition le_bytes32 :: "u32 \<Rightarrow> u8 list" where
  "le_bytes32 w = [ucast w, ucast (drop_bit 8 w), ucast (drop_bit 16 w), ucast (drop_bit 24 w)]"

definition le_bytes64 :: "u64 \<Rightarrow> u8 list" where
  "le_bytes64 w = le_bytes32 (ucast w) @ le_bytes32 (ucast (drop_bit 32 w))"

text \<open>Readers that split a little-endian field off the front of a byte list.\<close>

fun take_le16 :: "u8 list \<Rightarrow> (u16 \<times> u8 list) option" where
  "take_le16 (a # b # r) = Some (ucast a OR push_bit 8 (ucast b), r)"
| "take_le16 _ = None"

fun take_le32 :: "u8 list \<Rightarrow> (u32 \<times> u8 list) option" where
  "take_le32 (a # b # c # d # r) =
     Some (ucast a OR push_bit 8 (ucast b) OR push_bit 16 (ucast c) OR push_bit 24 (ucast d), r)"
| "take_le32 _ = None"

definition take_le64 :: "u8 list \<Rightarrow> (u64 \<times> u8 list) option" where
  "take_le64 bs =
     (case take_le32 bs of
        None \<Rightarrow> None
      | Some (lo, r) \<Rightarrow>
          (case take_le32 r of
             None \<Rightarrow> None
           | Some (hi, r') \<Rightarrow> Some (ucast lo OR push_bit 32 (ucast hi), r')))"

lemma length_le_bytes [simp]:
  "length (le_bytes16 w) = 2" "length (le_bytes32 x) = 4" "length (le_bytes64 y) = 8"
  by (simp_all add: le_bytes16_def le_bytes32_def le_bytes64_def)

lemma take_le16_bytes [byte_simps]: "take_le16 (le_bytes16 w @ r) = Some (w, r)"
proof -
  have "ucast (ucast w :: u8) OR push_bit 8 (ucast (ucast (drop_bit 8 w) :: u8)) = w"
    by (rule bit_eqI) (auto simp: bit_simps)
  then show ?thesis by (simp add: le_bytes16_def)
qed

lemma take_le32_bytes [byte_simps]: "take_le32 (le_bytes32 w @ r) = Some (w, r)"
proof -
  have "ucast (ucast w :: u8) OR push_bit 8 (ucast (ucast (drop_bit 8 w) :: u8))
      OR push_bit 16 (ucast (ucast (drop_bit 16 w) :: u8))
      OR push_bit 24 (ucast (ucast (drop_bit 24 w) :: u8)) = w" (is "?l = w")
  proof (rule bit_word_eqI)
    fix n
    assume "n < LENGTH(32)"
    then show "bit ?l n = bit w n"
      by (cases "24 \<le> n"; cases "16 \<le> n") (auto simp: bit_simps)
  qed
  then show ?thesis by (simp add: le_bytes32_def)
qed

lemma take_le64_bytes [byte_simps]: "take_le64 (le_bytes64 w @ r) = Some (w, r)"
proof -
  have "ucast (ucast w :: u32) OR push_bit 32 (ucast (ucast (drop_bit 32 w) :: u32)) = w"
    by (rule bit_eqI) (auto simp: bit_simps)
  then show ?thesis by (simp add: le_bytes64_def take_le64_def byte_simps)
qed

section \<open>Signed narrowing\<close>

text \<open>
  A signed value in the range of a narrower type survives the \<^verbatim>\<open>as\<close> cast to that type followed by
  sign extension: what \<^verbatim>\<open>(-128..=127).contains(&x)\<close> buys before \<^verbatim>\<open>x as i8\<close>.
\<close>

lemma scast_ucast_signed:
  fixes w :: "'a::len word"
  assumes len: "LENGTH('b::len) \<le> LENGTH('a)"
    and lo: "- (2 ^ (LENGTH('b) - 1)) \<le> sint w" and hi: "sint w < 2 ^ (LENGTH('b) - 1)"
  shows "scast (ucast w :: 'b word) = w"
proof (rule signed_word_eqI [where ?'a = int])
  have narrow: "(ucast w :: 'b word) = scast w"
    using len by (metis down_cast_same is_down)
  have "sint (scast w :: 'b word) = sint w"
    using lo hi by (simp add: signed_scast_eq signed_take_bit_int_eq_self)
  then show "sint (scast (ucast w :: 'b word) :: 'a word) = sint w"
    using len by (simp add: narrow sint_up_scast is_up)
qed

lemma scast_ucast_i8 [byte_simps]:
  "- 128 \<le> sint (w :: i32) \<Longrightarrow> sint w \<le> 127 \<Longrightarrow> scast (ucast w :: i8) = w"
  by (rule scast_ucast_signed) simp_all

lemma scast_ucast_i32 [byte_simps]:
  "- 2147483648 \<le> sint (w :: i64) \<Longrightarrow> sint w \<le> 2147483647 \<Longrightarrow> scast (ucast w :: i32) = w"
  by (rule scast_ucast_signed) simp_all

section \<open>Association of results: the question-mark operator\<close>

text \<open>
  \<^verbatim>\<open>r?\<close> in a function that threads a mutable buffer: on an error the function returns at once, and
  the buffer keeps what was written to it before.
\<close>

definition try_op :: "('e + 'a) \<Rightarrow> 's \<Rightarrow> ('a \<Rightarrow> ('e + 'b) \<times> 's) \<Rightarrow> ('e + 'b) \<times> 's" where
  "try_op r s k = (case r of Inl e \<Rightarrow> (Inl e, s) | Inr x \<Rightarrow> k x)"

lemma try_op_simps [simp]:
  "try_op (Inl e) s k = (Inl e, s)"
  "try_op (Inr x) s k = k x"
  by (simp_all add: try_op_def)

lemma try_op_eq_Inr:
  "try_op r s k = (Inr y, s') \<longleftrightarrow> (\<exists>x. r = Inr x \<and> k x = (Inr y, s'))"
  by (cases r) auto

lemma try_op_eq_Inl:
  "try_op r s k = (Inl e, s') \<longleftrightarrow> (r = Inl e \<and> s' = s) \<or> (\<exists>x. r = Inr x \<and> k x = (Inl e, s'))"
  by (cases r) auto

end
