(* ===== verification/Machine.thy ===== *)
theory Machine
  imports Prelude
begin

text \<open>
  The instruction payload of the IR, \<^verbatim>\<open>crates/paideia-as-runtime/src/instruction/\<close>: register ids,
  scales, segment prefixes, operands, mnemonics and the \<^verbatim>\<open>Instruction\<close> record that the encoder
  consumes.  Constructors carry a short prefix where the Rust name is taken in HOL
  (\<open>M_Add\<close> for \<^verbatim>\<open>Mnemonic::Add\<close>, \<open>C_Eq\<close> for \<^verbatim>\<open>Cond::Eq\<close>).
\<close>

datatype instr_mode = Mode64 | Mode32

datatype int_width = W8 | W16 | W32 | W64

definition from_bits :: "u16 \<Rightarrow> int_width option" where
  "from_bits bits =
     (if bits = 8 then Some W8
      else if bits = 16 then Some W16
      else if bits = 32 then Some W32
      else if bits = 64 then Some W64
      else None)"

fun estimated_size :: "int_width \<Rightarrow> u32" where
  "estimated_size W8 = 3"
| "estimated_size W16 = 4"
| "estimated_size W32 = 5"
| "estimated_size W64 = 10"

datatype ir_cond =
  C_Eq | C_Ne | C_Lt | C_Le | C_Gt | C_Ge | C_Below | C_BelowOrEqual | C_Above | C_AboveOrEqual
| C_Zero | C_NonZero | C_Sign | C_NotSign | C_Overflow | C_NotOverflow | C_Parity | C_NotParity

type_synonym reg_id = u8

datatype scale = X1 | X2 | X4 | X8

fun scale_factor :: "scale \<Rightarrow> u32" where
  "scale_factor X1 = 1"
| "scale_factor X2 = 2"
| "scale_factor X4 = 4"
| "scale_factor X8 = 8"

definition scale_from_factor :: "u32 \<Rightarrow> scale option" where
  "scale_from_factor f =
     (if f = 1 then Some X1
      else if f = 2 then Some X2
      else if f = 4 then Some X4
      else if f = 8 then Some X8
      else None)"

datatype seg_reg = Es | Cs | Ss | Ds | Fs | Gs

fun seg_reg_id :: "seg_reg \<Rightarrow> u8" where
  "seg_reg_id Es = 0"
| "seg_reg_id Cs = 1"
| "seg_reg_id Ss = 2"
| "seg_reg_id Ds = 3"
| "seg_reg_id Fs = 4"
| "seg_reg_id Gs = 5"

datatype seg_prefix = SegFs | SegGs

fun seg_prefix_byte :: "seg_prefix \<Rightarrow> u8" where
  "seg_prefix_byte SegFs = 0x64"
| "seg_prefix_byte SegGs = 0x65"

datatype operand =
  Reg reg_id
| SegReg seg_reg
| Imm64 i64
| MemSib reg_id "reg_id option" scale i32
| MemDisp i32
| MemRipRel i32
| MemRipRelSym string i32
| MemSeg seg_prefix operand
| SymbolRef string i32
| LabelRef string i32
| Var string
| MemSymIndexed string i32 reg_id scale
| MemDispIndexed i32 reg_id scale

text \<open>
  \<^verbatim>\<open>Mnemonic\<close> has 140 variants.  They are grouped by the mnemonic families of the encoder's
  sub-modules, one datatype per family; \<open>mnemonic\<close> is their disjoint union and an abbreviation
  \<open>M_<variant>\<close> names each variant as the Rust enum does.
\<close>

datatype data_mnemonic =
  D_Mov | D_Add | D_Sub | D_Cmp | D_Test | D_Lea | D_Movzx | D_Movsx | D_Not | D_Bswap
  | D_Bswap32 | D_MovSized int_width | D_CmpSized int_width | D_Shl | D_Shr | D_Sar
  | D_Rol int_width | D_Ror int_width | D_Imul | D_Mul | D_And | D_Or | D_Xor | D_Div | D_Idiv
  | D_Inc | D_Dec | D_Xchg | D_Movnti int_width | D_Adc int_width | D_Sbb int_width

datatype flow_mnemonic =
  F_Jcc ir_cond | F_Setcc ir_cond | F_Jmp | F_Call | F_Ret | F_FarJmp | F_Push | F_Pop
  | F_Pushfq | F_Popfq | F_Int3 | F_Int | F_Iret | F_Iretq | F_Sysret | F_Syscall

datatype bits_mnemonic =
  B_Popcnt int_width | B_Crc32 int_width | B_Bsf int_width | B_Bsr int_width
  | B_Tzcnt int_width | B_Bt int_width | B_Bts int_width | B_Btr int_width | B_Btc int_width

datatype lock_mnemonic =
  L_LockCmpxchg | L_LockCmpxchg32 | L_LockCmpxchg16b | L_LockXadd int_width
  | L_LockAdd int_width | L_LockSub int_width | L_LockInc int_width | L_LockBts int_width
  | L_LockBtr int_width | L_LockBtc int_width | L_LockAnd int_width | L_LockOr int_width
  | L_LockXor int_width

datatype simd_mnemonic =
  V_Vpxor | V_Vpcmpeqb | V_Vpmovmskb | V_Vmovdqu bool | V_MovSd | V_MovSs | V_AddSd | V_AddSs
  | V_SubSd | V_SubSs | V_MulSd | V_MulSs | V_DivSd | V_DivSs | V_Sqrtsd | V_Sqrtss | V_Ucomisd
  | V_Ucomiss | V_Comisd | V_Comiss | V_Cvtsi2sd | V_Cvtsi2ss | V_Cvttsd2si | V_Cvttss2si
  | V_MovdBitcast bool | V_MovqBitcast bool

datatype sys_mnemonic =
  S_Lgdt | S_Lidt | S_MovCr bool | S_MovDr bool | S_Wrmsr | S_Rdmsr | S_In u8 | S_Out u8
  | S_Swapgs | S_Cpuid | S_Cli | S_Cld | S_Sti | S_Std | S_Hlt | S_Ud2 | S_Nop | S_Endbr64
  | S_Endbr32 | S_Invlpg | S_Invpcid | S_Rdtsc | S_Ltr

datatype cache_mnemonic =
  K_RepMovsb | K_RepStosq | K_RepStosb | K_RepMovsq | K_Mfence | K_Sfence | K_Lfence | K_Pause
  | K_Wbinvd | K_Invd | K_Fxsave | K_Fxrstor | K_Xsaveopt | K_Xrstor | K_Xgetbv | K_Xsetbv
  | K_Clflush | K_Clflushopt | K_Prefetchnta | K_Prefetcht0 | K_Prefetcht1 | K_Prefetcht2

datatype mnemonic =
  DataMn data_mnemonic | FlowMn flow_mnemonic | BitsMn bits_mnemonic | LockMn lock_mnemonic
  | SimdMn simd_mnemonic | SysMn sys_mnemonic | CacheMn cache_mnemonic

abbreviation M_Mov where "M_Mov \<equiv> DataMn D_Mov"
abbreviation M_Add where "M_Add \<equiv> DataMn D_Add"
abbreviation M_Sub where "M_Sub \<equiv> DataMn D_Sub"
abbreviation M_Cmp where "M_Cmp \<equiv> DataMn D_Cmp"
abbreviation M_Test where "M_Test \<equiv> DataMn D_Test"
abbreviation M_Lea where "M_Lea \<equiv> DataMn D_Lea"
abbreviation M_Movzx where "M_Movzx \<equiv> DataMn D_Movzx"
abbreviation M_Movsx where "M_Movsx \<equiv> DataMn D_Movsx"
abbreviation M_Not where "M_Not \<equiv> DataMn D_Not"
abbreviation M_Bswap where "M_Bswap \<equiv> DataMn D_Bswap"
abbreviation M_Bswap32 where "M_Bswap32 \<equiv> DataMn D_Bswap32"
abbreviation M_MovSized where "M_MovSized x \<equiv> DataMn (D_MovSized x)"
abbreviation M_CmpSized where "M_CmpSized x \<equiv> DataMn (D_CmpSized x)"
abbreviation M_Shl where "M_Shl \<equiv> DataMn D_Shl"
abbreviation M_Shr where "M_Shr \<equiv> DataMn D_Shr"
abbreviation M_Sar where "M_Sar \<equiv> DataMn D_Sar"
abbreviation M_Rol where "M_Rol x \<equiv> DataMn (D_Rol x)"
abbreviation M_Ror where "M_Ror x \<equiv> DataMn (D_Ror x)"
abbreviation M_Imul where "M_Imul \<equiv> DataMn D_Imul"
abbreviation M_Mul where "M_Mul \<equiv> DataMn D_Mul"
abbreviation M_And where "M_And \<equiv> DataMn D_And"
abbreviation M_Or where "M_Or \<equiv> DataMn D_Or"
abbreviation M_Xor where "M_Xor \<equiv> DataMn D_Xor"
abbreviation M_Div where "M_Div \<equiv> DataMn D_Div"
abbreviation M_Idiv where "M_Idiv \<equiv> DataMn D_Idiv"
abbreviation M_Inc where "M_Inc \<equiv> DataMn D_Inc"
abbreviation M_Dec where "M_Dec \<equiv> DataMn D_Dec"
abbreviation M_Xchg where "M_Xchg \<equiv> DataMn D_Xchg"
abbreviation M_Movnti where "M_Movnti x \<equiv> DataMn (D_Movnti x)"
abbreviation M_Adc where "M_Adc x \<equiv> DataMn (D_Adc x)"
abbreviation M_Sbb where "M_Sbb x \<equiv> DataMn (D_Sbb x)"
abbreviation M_Jcc where "M_Jcc x \<equiv> FlowMn (F_Jcc x)"
abbreviation M_Setcc where "M_Setcc x \<equiv> FlowMn (F_Setcc x)"
abbreviation M_Jmp where "M_Jmp \<equiv> FlowMn F_Jmp"
abbreviation M_Call where "M_Call \<equiv> FlowMn F_Call"
abbreviation M_Ret where "M_Ret \<equiv> FlowMn F_Ret"
abbreviation M_FarJmp where "M_FarJmp \<equiv> FlowMn F_FarJmp"
abbreviation M_Push where "M_Push \<equiv> FlowMn F_Push"
abbreviation M_Pop where "M_Pop \<equiv> FlowMn F_Pop"
abbreviation M_Pushfq where "M_Pushfq \<equiv> FlowMn F_Pushfq"
abbreviation M_Popfq where "M_Popfq \<equiv> FlowMn F_Popfq"
abbreviation M_Int3 where "M_Int3 \<equiv> FlowMn F_Int3"
abbreviation M_Int where "M_Int \<equiv> FlowMn F_Int"
abbreviation M_Iret where "M_Iret \<equiv> FlowMn F_Iret"
abbreviation M_Iretq where "M_Iretq \<equiv> FlowMn F_Iretq"
abbreviation M_Sysret where "M_Sysret \<equiv> FlowMn F_Sysret"
abbreviation M_Syscall where "M_Syscall \<equiv> FlowMn F_Syscall"
abbreviation M_Popcnt where "M_Popcnt x \<equiv> BitsMn (B_Popcnt x)"
abbreviation M_Crc32 where "M_Crc32 x \<equiv> BitsMn (B_Crc32 x)"
abbreviation M_Bsf where "M_Bsf x \<equiv> BitsMn (B_Bsf x)"
abbreviation M_Bsr where "M_Bsr x \<equiv> BitsMn (B_Bsr x)"
abbreviation M_Tzcnt where "M_Tzcnt x \<equiv> BitsMn (B_Tzcnt x)"
abbreviation M_Bt where "M_Bt x \<equiv> BitsMn (B_Bt x)"
abbreviation M_Bts where "M_Bts x \<equiv> BitsMn (B_Bts x)"
abbreviation M_Btr where "M_Btr x \<equiv> BitsMn (B_Btr x)"
abbreviation M_Btc where "M_Btc x \<equiv> BitsMn (B_Btc x)"
abbreviation M_LockCmpxchg where "M_LockCmpxchg \<equiv> LockMn L_LockCmpxchg"
abbreviation M_LockCmpxchg32 where "M_LockCmpxchg32 \<equiv> LockMn L_LockCmpxchg32"
abbreviation M_LockCmpxchg16b where "M_LockCmpxchg16b \<equiv> LockMn L_LockCmpxchg16b"
abbreviation M_LockXadd where "M_LockXadd x \<equiv> LockMn (L_LockXadd x)"
abbreviation M_LockAdd where "M_LockAdd x \<equiv> LockMn (L_LockAdd x)"
abbreviation M_LockSub where "M_LockSub x \<equiv> LockMn (L_LockSub x)"
abbreviation M_LockInc where "M_LockInc x \<equiv> LockMn (L_LockInc x)"
abbreviation M_LockBts where "M_LockBts x \<equiv> LockMn (L_LockBts x)"
abbreviation M_LockBtr where "M_LockBtr x \<equiv> LockMn (L_LockBtr x)"
abbreviation M_LockBtc where "M_LockBtc x \<equiv> LockMn (L_LockBtc x)"
abbreviation M_LockAnd where "M_LockAnd x \<equiv> LockMn (L_LockAnd x)"
abbreviation M_LockOr where "M_LockOr x \<equiv> LockMn (L_LockOr x)"
abbreviation M_LockXor where "M_LockXor x \<equiv> LockMn (L_LockXor x)"
abbreviation M_Vpxor where "M_Vpxor \<equiv> SimdMn V_Vpxor"
abbreviation M_Vpcmpeqb where "M_Vpcmpeqb \<equiv> SimdMn V_Vpcmpeqb"
abbreviation M_Vpmovmskb where "M_Vpmovmskb \<equiv> SimdMn V_Vpmovmskb"
abbreviation M_Vmovdqu where "M_Vmovdqu x \<equiv> SimdMn (V_Vmovdqu x)"
abbreviation M_MovSd where "M_MovSd \<equiv> SimdMn V_MovSd"
abbreviation M_MovSs where "M_MovSs \<equiv> SimdMn V_MovSs"
abbreviation M_AddSd where "M_AddSd \<equiv> SimdMn V_AddSd"
abbreviation M_AddSs where "M_AddSs \<equiv> SimdMn V_AddSs"
abbreviation M_SubSd where "M_SubSd \<equiv> SimdMn V_SubSd"
abbreviation M_SubSs where "M_SubSs \<equiv> SimdMn V_SubSs"
abbreviation M_MulSd where "M_MulSd \<equiv> SimdMn V_MulSd"
abbreviation M_MulSs where "M_MulSs \<equiv> SimdMn V_MulSs"
abbreviation M_DivSd where "M_DivSd \<equiv> SimdMn V_DivSd"
abbreviation M_DivSs where "M_DivSs \<equiv> SimdMn V_DivSs"
abbreviation M_Sqrtsd where "M_Sqrtsd \<equiv> SimdMn V_Sqrtsd"
abbreviation M_Sqrtss where "M_Sqrtss \<equiv> SimdMn V_Sqrtss"
abbreviation M_Ucomisd where "M_Ucomisd \<equiv> SimdMn V_Ucomisd"
abbreviation M_Ucomiss where "M_Ucomiss \<equiv> SimdMn V_Ucomiss"
abbreviation M_Comisd where "M_Comisd \<equiv> SimdMn V_Comisd"
abbreviation M_Comiss where "M_Comiss \<equiv> SimdMn V_Comiss"
abbreviation M_Cvtsi2sd where "M_Cvtsi2sd \<equiv> SimdMn V_Cvtsi2sd"
abbreviation M_Cvtsi2ss where "M_Cvtsi2ss \<equiv> SimdMn V_Cvtsi2ss"
abbreviation M_Cvttsd2si where "M_Cvttsd2si \<equiv> SimdMn V_Cvttsd2si"
abbreviation M_Cvttss2si where "M_Cvttss2si \<equiv> SimdMn V_Cvttss2si"
abbreviation M_MovdBitcast where "M_MovdBitcast x \<equiv> SimdMn (V_MovdBitcast x)"
abbreviation M_MovqBitcast where "M_MovqBitcast x \<equiv> SimdMn (V_MovqBitcast x)"
abbreviation M_RepMovsb where "M_RepMovsb \<equiv> CacheMn K_RepMovsb"
abbreviation M_Lgdt where "M_Lgdt \<equiv> SysMn S_Lgdt"
abbreviation M_Lidt where "M_Lidt \<equiv> SysMn S_Lidt"
abbreviation M_MovCr where "M_MovCr x \<equiv> SysMn (S_MovCr x)"
abbreviation M_MovDr where "M_MovDr x \<equiv> SysMn (S_MovDr x)"
abbreviation M_Wrmsr where "M_Wrmsr \<equiv> SysMn S_Wrmsr"
abbreviation M_Rdmsr where "M_Rdmsr \<equiv> SysMn S_Rdmsr"
abbreviation M_In where "M_In x \<equiv> SysMn (S_In x)"
abbreviation M_Out where "M_Out x \<equiv> SysMn (S_Out x)"
abbreviation M_Swapgs where "M_Swapgs \<equiv> SysMn S_Swapgs"
abbreviation M_Cpuid where "M_Cpuid \<equiv> SysMn S_Cpuid"
abbreviation M_Cli where "M_Cli \<equiv> SysMn S_Cli"
abbreviation M_Cld where "M_Cld \<equiv> SysMn S_Cld"
abbreviation M_Sti where "M_Sti \<equiv> SysMn S_Sti"
abbreviation M_Std where "M_Std \<equiv> SysMn S_Std"
abbreviation M_Hlt where "M_Hlt \<equiv> SysMn S_Hlt"
abbreviation M_Ud2 where "M_Ud2 \<equiv> SysMn S_Ud2"
abbreviation M_Nop where "M_Nop \<equiv> SysMn S_Nop"
abbreviation M_Endbr64 where "M_Endbr64 \<equiv> SysMn S_Endbr64"
abbreviation M_Endbr32 where "M_Endbr32 \<equiv> SysMn S_Endbr32"
abbreviation M_RepStosq where "M_RepStosq \<equiv> CacheMn K_RepStosq"
abbreviation M_RepStosb where "M_RepStosb \<equiv> CacheMn K_RepStosb"
abbreviation M_RepMovsq where "M_RepMovsq \<equiv> CacheMn K_RepMovsq"
abbreviation M_Invlpg where "M_Invlpg \<equiv> SysMn S_Invlpg"
abbreviation M_Invpcid where "M_Invpcid \<equiv> SysMn S_Invpcid"
abbreviation M_Rdtsc where "M_Rdtsc \<equiv> SysMn S_Rdtsc"
abbreviation M_Ltr where "M_Ltr \<equiv> SysMn S_Ltr"
abbreviation M_Mfence where "M_Mfence \<equiv> CacheMn K_Mfence"
abbreviation M_Sfence where "M_Sfence \<equiv> CacheMn K_Sfence"
abbreviation M_Lfence where "M_Lfence \<equiv> CacheMn K_Lfence"
abbreviation M_Pause where "M_Pause \<equiv> CacheMn K_Pause"
abbreviation M_Wbinvd where "M_Wbinvd \<equiv> CacheMn K_Wbinvd"
abbreviation M_Invd where "M_Invd \<equiv> CacheMn K_Invd"
abbreviation M_Fxsave where "M_Fxsave \<equiv> CacheMn K_Fxsave"
abbreviation M_Fxrstor where "M_Fxrstor \<equiv> CacheMn K_Fxrstor"
abbreviation M_Xsaveopt where "M_Xsaveopt \<equiv> CacheMn K_Xsaveopt"
abbreviation M_Xrstor where "M_Xrstor \<equiv> CacheMn K_Xrstor"
abbreviation M_Xgetbv where "M_Xgetbv \<equiv> CacheMn K_Xgetbv"
abbreviation M_Xsetbv where "M_Xsetbv \<equiv> CacheMn K_Xsetbv"
abbreviation M_Clflush where "M_Clflush \<equiv> CacheMn K_Clflush"
abbreviation M_Clflushopt where "M_Clflushopt \<equiv> CacheMn K_Clflushopt"
abbreviation M_Prefetchnta where "M_Prefetchnta \<equiv> CacheMn K_Prefetchnta"
abbreviation M_Prefetcht0 where "M_Prefetcht0 \<equiv> CacheMn K_Prefetcht0"
abbreviation M_Prefetcht1 where "M_Prefetcht1 \<equiv> CacheMn K_Prefetcht1"
abbreviation M_Prefetcht2 where "M_Prefetcht2 \<equiv> CacheMn K_Prefetcht2"

record encoding_hint =
  hint_opcode :: u16
  hint_operand_size :: u8

record instruction =
  mnemonic_of :: mnemonic
  operands :: "operand list"
  encoding_hint_of :: "encoding_hint option"
  byte_offset_in_text :: "u32 option"
  mode :: instr_mode
  emission_order :: u32

lemma scale_from_factor_inverse: "scale_from_factor (scale_factor s) = Some s"
  by (cases s) (simp_all add: scale_from_factor_def)

end
