(* ===== verification/Encoder_Core.thy ===== *)
theory Encoder_Core
  imports Machine
begin

text \<open>
  \<^verbatim>\<open>crates/paideia-as-encoder/src/encode/types.rs\<close>: the encoder's register and condition types, the
  \<^verbatim>\<open>CodeBuffer\<close> every encoder appends to, the REX helper and the two helpers that emit the
  ModR/M, SIB and displacement bytes of a memory operand.

  A method that takes \<^verbatim>\<open>&mut CodeBuffer\<close> is a function from the old buffer to the new one.
\<close>

section \<open>Registers, conditions, buffer\<close>

datatype reg64 =
  Rax | Rcx | Rdx | Rbx | Rsp | Rbp | Rsi | Rdi | R8 | R9 | R10 | R11 | R12 | R13 | R14 | R15

fun reg64_id :: "reg64 \<Rightarrow> u8" where
  "reg64_id Rax = 0"
| "reg64_id Rcx = 1"
| "reg64_id Rdx = 2"
| "reg64_id Rbx = 3"
| "reg64_id Rsp = 4"
| "reg64_id Rbp = 5"
| "reg64_id Rsi = 6"
| "reg64_id Rdi = 7"
| "reg64_id R8 = 8"
| "reg64_id R9 = 9"
| "reg64_id R10 = 10"
| "reg64_id R11 = 11"
| "reg64_id R12 = 12"
| "reg64_id R13 = 13"
| "reg64_id R14 = 14"
| "reg64_id R15 = 15"

datatype reg32 =
  Eax | Ecx | Edx | Ebx | Esp | Ebp | Esi | Edi | R8d | R9d | R10d | R11d | R12d | R13d | R14d | R15d

fun reg32_id :: "reg32 \<Rightarrow> u8" where
  "reg32_id Eax = 0"
| "reg32_id Ecx = 1"
| "reg32_id Edx = 2"
| "reg32_id Ebx = 3"
| "reg32_id Esp = 4"
| "reg32_id Ebp = 5"
| "reg32_id Esi = 6"
| "reg32_id Edi = 7"
| "reg32_id R8d = 8"
| "reg32_id R9d = 9"
| "reg32_id R10d = 10"
| "reg32_id R11d = 11"
| "reg32_id R12d = 12"
| "reg32_id R13d = 13"
| "reg32_id R14d = 14"
| "reg32_id R15d = 15"

datatype cond =
  J_Eq | J_Neq | J_Lt | J_Ge | J_Le | J_Gt | J_Below | J_BelowOrEqual | J_Above
| J_AboveOrEqual | J_Sign | J_NotSign | J_Overflow | J_NotOverflow | J_Parity | J_NotParity

fun cond_byte :: "cond \<Rightarrow> u8" where
  "cond_byte J_Eq = 0x84"
| "cond_byte J_Neq = 0x85"
| "cond_byte J_Lt = 0x8C"
| "cond_byte J_Ge = 0x8D"
| "cond_byte J_Le = 0x8E"
| "cond_byte J_Gt = 0x8F"
| "cond_byte J_Below = 0x82"
| "cond_byte J_BelowOrEqual = 0x86"
| "cond_byte J_Above = 0x87"
| "cond_byte J_AboveOrEqual = 0x83"
| "cond_byte J_Sign = 0x88"
| "cond_byte J_NotSign = 0x89"
| "cond_byte J_Overflow = 0x80"
| "cond_byte J_NotOverflow = 0x81"
| "cond_byte J_Parity = 0x8A"
| "cond_byte J_NotParity = 0x8B"

record code_buffer =
  bytes :: "u8 list"

definition new_buffer :: code_buffer where
  "new_buffer = \<lparr>bytes = []\<rparr>"

text \<open>\<^verbatim>\<open>buf.bytes.push(b)\<close> and \<^verbatim>\<open>buf.bytes.extend(bs)\<close>.\<close>

definition push_byte :: "code_buffer \<Rightarrow> u8 \<Rightarrow> code_buffer" where
  "push_byte buf b = buf\<lparr>bytes := bytes buf @ [b]\<rparr>"

definition extend_buf :: "code_buffer \<Rightarrow> u8 list \<Rightarrow> code_buffer" where
  "extend_buf buf bs = buf\<lparr>bytes := bytes buf @ bs\<rparr>"

section \<open>REX, ModR/M, SIB, displacement\<close>

definition rex :: "bool \<Rightarrow> bool \<Rightarrow> bool \<Rightarrow> bool \<Rightarrow> u8" where
  "rex w r x b =
     0x40 OR push_bit 3 (of_bool w) OR push_bit 2 (of_bool r) OR push_bit 1 (of_bool x) OR of_bool b"

definition rex_w :: u8 where
  "rex_w = rex True False False False"

text \<open>
  The choice of addressing mode both helpers make: no displacement byte, a sign-extended byte, or
  four bytes.  A base whose low three bits are 101 has no form without a displacement.
\<close>

definition emit_mem_base_disp :: "code_buffer \<Rightarrow> u8 \<Rightarrow> u8 \<Rightarrow> i32 \<Rightarrow> code_buffer" where
  "emit_mem_base_disp buf reg_field base_id disp =
     (let base_low = base_id AND 7;
          reg_low = reg_field AND 7;
          sib_escape = (base_low = 4);
          bp_escape = (base_low = 5);
          (mod_bits, disp_len) =
            (if disp = 0 \<and> \<not> bp_escape then (0x00 :: u8, 0 :: nat)
             else if - 128 \<le> sint disp \<and> sint disp \<le> 127 then (0x40, 1)
             else (0x80, 4));
          buf = (if sib_escape
                 then push_byte (push_byte buf ((mod_bits OR push_bit 3 reg_low) OR 4))
                        ((push_bit 6 0 OR push_bit 3 4) OR base_low)
                 else push_byte buf ((mod_bits OR push_bit 3 reg_low) OR base_low))
      in if disp_len = 0 then buf
         else if disp_len = 1 then push_byte buf (ucast disp)
         else extend_buf buf (le_bytes32 disp))"

definition emit_mem_sib_disp :: "code_buffer \<Rightarrow> u8 \<Rightarrow> u8 \<Rightarrow> u8 \<Rightarrow> u8 \<Rightarrow> i32 \<Rightarrow> code_buffer" where
  "emit_mem_sib_disp buf reg_field base_id index_id scale_bits disp =
     (let base_low = base_id AND 7;
          bp_escape = (base_low = 5);
          (mod_bits, disp_len) =
            (if disp = 0 \<and> \<not> bp_escape then (0x00 :: u8, 0 :: nat)
             else if - 128 \<le> sint disp \<and> sint disp \<le> 127 then (0x40, 1)
             else (0x80, 4));
          buf = push_byte buf ((mod_bits OR push_bit 3 (reg_field AND 7)) OR 4);
          buf = push_byte buf ((push_bit 6 (scale_bits AND 3) OR push_bit 3 (index_id AND 7)) OR base_low)
      in if disp_len = 0 then buf
         else if disp_len = 1 then push_byte buf (ucast disp)
         else extend_buf buf (le_bytes32 disp))"

end
