(* ===== verification/Encode_Types.thy ===== *)
theory Encode_Types
  imports Encoder_Core
begin

text \<open>
  \<^verbatim>\<open>crates/paideia-as-encoder/src/encode_instruction/types.rs\<close> and \<^verbatim>\<open>common.rs\<close>: errors, statistics,
  relocation sites, label fixups, the output of an encoder, and the conversions from the IR's
  register ids, scales and conditions.

  An encoder of the Rust code returns \<^verbatim>\<open>Result<EncodeOutput, EncodeError>\<close> or panics; \<open>failure\<close> has a
  constructor for each.  The encoders take the buffer (and the statistics where the Rust code
  takes them) and return the result together with the new buffer.
\<close>

datatype encode_error =
  OperandCount mnemonic nat nat
| OperandShape mnemonic
| InvalidOperand string
| Unsupported string

datatype failure = Error encode_error | Panic string

record encode_stats =
  tightened :: nat
  total :: nat

definition new_stats :: encode_stats where
  "new_stats = \<lparr>tightened = 0, total = 0\<rparr>"

definition record_tightening :: "encode_stats \<Rightarrow> encode_stats" where
  "record_tightening st = st\<lparr>tightened := tightened st + 1\<rparr>"

definition record_instruction :: "encode_stats \<Rightarrow> encode_stats" where
  "record_instruction st = st\<lparr>total := total st + 1\<rparr>"

datatype reloc_kind = PcRel32 | Plt32 | Abs32 | Abs64

record reloc_site =
  reloc_offset :: u32
  reloc_symbol :: string
  reloc_kind_of :: reloc_kind
  reloc_addend :: i32

record label_fixup =
  fixup_offset :: u32
  label_name :: string
  fixup_addend :: i32
  instruction_size :: u32

record encode_output =
  reloc_sites :: "reloc_site list"
  label_fixups :: "label_fixup list"

definition new_output :: encode_output where
  "new_output = \<lparr>reloc_sites = [], label_fixups = []\<rparr>"

definition add_reloc :: "encode_output \<Rightarrow> reloc_site \<Rightarrow> encode_output" where
  "add_reloc out site = out\<lparr>reloc_sites := reloc_sites out @ [site]\<rparr>"

definition add_label_fixup :: "encode_output \<Rightarrow> label_fixup \<Rightarrow> encode_output" where
  "add_label_fixup out fixup = out\<lparr>label_fixups := label_fixups out @ [fixup]\<rparr>"

type_synonym enc_result = "(failure + encode_output) \<times> code_buffer"
type_synonym enc_stats_result = "(failure + encode_output) \<times> code_buffer \<times> encode_stats"

section \<open>Shared conversions\<close>

definition can_shorten_add_to_32bit :: "bool \<Rightarrow> bool" where
  "can_shorten_add_to_32bit high_bits_used = (\<not> high_bits_used)"

definition can_use_rel8 :: "i64 \<Rightarrow> bool" where
  "can_use_rel8 displacement \<longleftrightarrow> - 128 \<le> sint displacement \<and> sint displacement \<le> 127"

definition reg64_from :: "reg_id \<Rightarrow> failure + reg64" where
  "reg64_from rid =
     (if rid = 0 then Inr Rax else if rid = 1 then Inr Rcx else if rid = 2 then Inr Rdx
      else if rid = 3 then Inr Rbx else if rid = 4 then Inr Rsp else if rid = 5 then Inr Rbp
      else if rid = 6 then Inr Rsi else if rid = 7 then Inr Rdi else if rid = 8 then Inr R8
      else if rid = 9 then Inr R9 else if rid = 10 then Inr R10 else if rid = 11 then Inr R11
      else if rid = 12 then Inr R12 else if rid = 13 then Inr R13 else if rid = 14 then Inr R14
      else if rid = 15 then Inr R15
      else Inl (Error (Unsupported ''invalid register id'')))"

definition reg32_from :: "reg_id \<Rightarrow> failure + reg32" where
  "reg32_from rid =
     (if rid = 0 then Inr Eax else if rid = 1 then Inr Ecx else if rid = 2 then Inr Edx
      else if rid = 3 then Inr Ebx else if rid = 4 then Inr Esp else if rid = 5 then Inr Ebp
      else if rid = 6 then Inr Esi else if rid = 7 then Inr Edi else if rid = 8 then Inr R8d
      else if rid = 9 then Inr R9d else if rid = 10 then Inr R10d else if rid = 11 then Inr R11d
      else if rid = 12 then Inr R12d else if rid = 13 then Inr R13d else if rid = 14 then Inr R14d
      else if rid = 15 then Inr R15d
      else Inl (Error (Unsupported ''invalid register id'')))"

fun cond_from :: "ir_cond \<Rightarrow> failure + cond" where
  "cond_from C_Eq = Inr J_Eq"
| "cond_from C_Ne = Inr J_Neq"
| "cond_from C_Lt = Inr J_Lt"
| "cond_from C_Ge = Inr J_Ge"
| "cond_from C_Le = Inr J_Le"
| "cond_from C_Gt = Inr J_Gt"
| "cond_from C_Below = Inr J_Below"
| "cond_from C_BelowOrEqual = Inr J_BelowOrEqual"
| "cond_from C_Above = Inr J_Above"
| "cond_from C_AboveOrEqual = Inr J_AboveOrEqual"
| "cond_from C_Zero = Inr J_Eq"
| "cond_from C_NonZero = Inr J_Neq"
| "cond_from C_Sign = Inr J_Sign"
| "cond_from C_NotSign = Inr J_NotSign"
| "cond_from C_Overflow = Inr J_Overflow"
| "cond_from C_NotOverflow = Inr J_NotOverflow"
| "cond_from C_Parity = Inr J_Parity"
| "cond_from C_NotParity = Inr J_NotParity"

text \<open>The first \<^verbatim>\<open>MemSeg\<close> operand and its position.\<close>

fun find_mem_seg_from :: "nat \<Rightarrow> operand list \<Rightarrow> (nat \<times> seg_prefix) option" where
  "find_mem_seg_from i [] = None"
| "find_mem_seg_from i (MemSeg seg inner # ops) = Some (i, seg)"
| "find_mem_seg_from i (op # ops) = find_mem_seg_from (i + 1) ops"

definition find_mem_seg :: "operand list \<Rightarrow> (nat \<times> seg_prefix) option" where
  "find_mem_seg ops = find_mem_seg_from 0 ops"

fun sib_scale_bits :: "scale \<Rightarrow> u8" where
  "sib_scale_bits X1 = 0"
| "sib_scale_bits X2 = 1"
| "sib_scale_bits X4 = 2"
| "sib_scale_bits X8 = 3"

definition resolve_reg8 :: "reg_id \<Rightarrow> u8 \<times> bool" where
  "resolve_reg8 rid =
     (if rid \<le> 3 then (rid, False)
      else if rid = 33 then (4, True)
      else if rid = 34 then (5, True)
      else if rid = 35 then (6, True)
      else if rid = 36 then (7, True)
      else if 8 \<le> rid \<and> rid \<le> 15 then (rid, False)
      else (rid, False))"

section \<open>Facts\<close>

lemma record_tightening_neq [simp]: "record_tightening st \<noteq> st"
proof
  assume "record_tightening st = st"
  then have "tightened (record_tightening st) = tightened st" by simp
  then show False by (simp add: record_tightening_def)
qed

lemma reg64_from_id [simp]: "reg64_from (reg64_id r) = Inr r"
  by (cases r) (simp_all add: reg64_from_def)

lemma reg64_from_Inr: "reg64_from r = Inr x \<longleftrightarrow> r = reg64_id x"
proof
  show "reg64_from r = Inr x \<Longrightarrow> r = reg64_id x"
    by (auto simp: reg64_from_def split: if_splits)
qed simp

lemma reg64_from_cases:
  obtains (ok) x where "reg64_from r = Inr x" "r = reg64_id x"
  | (bad) "reg64_from r = Inl (Error (Unsupported ''invalid register id''))" "16 \<le> unat r"
proof (cases "reg64_from r")
  case (Inr x)
  then show ?thesis using ok by (simp add: reg64_from_Inr)
next
  case (Inl e)
  have "\<not> 16 \<le> unat r \<Longrightarrow> \<exists>x. reg64_from r = Inr x"
  proof -
    assume "\<not> 16 \<le> unat r"
    then have "unat r \<in> {..<16}" by simp
    also have "{..<16 :: nat} = {0, 1, 2, 3, 4, 5, 6, 7, 8, 9, 10, 11, 12, 13, 14, 15}"
      by code_simp
    finally have "r \<in> {0, 1, 2, 3, 4, 5, 6, 7, 8, 9, 10, 11, 12, 13, 14, 15}"
      by (simp add: word_eq_iff_unsigned [where 'a = nat])
    then show "\<exists>x. reg64_from r = Inr x" by (auto simp: reg64_from_def)
  qed
  moreover have "e = Error (Unsupported ''invalid register id'')"
    using Inl by (auto simp: reg64_from_def split: if_splits)
  ultimately show ?thesis using bad Inl by fastforce
qed

lemma reg32_from_Inr: "reg32_from r = Inr x \<longleftrightarrow> r = reg32_id x"
proof
  show "reg32_from r = Inr x \<Longrightarrow> r = reg32_id x"
    by (auto simp: reg32_from_def split: if_splits)
  show "r = reg32_id x \<Longrightarrow> reg32_from r = Inr x"
    by (cases x) (simp_all add: reg32_from_def)
qed

lemma sib_scale_bits_factor: "2 ^ (unat (sib_scale_bits s) mod 4) = unat (scale_factor s)"
  by (cases s) simp_all

lemma find_mem_seg_from_Some:
  "find_mem_seg_from i ops = Some (j, seg) \<Longrightarrow>
     i \<le> j \<and> j < i + length ops \<and> (\<exists>inner. ops ! (j - i) = MemSeg seg inner)"
proof (induction i ops rule: find_mem_seg_from.induct)
  case (2 i seg' inner ops)
  then show ?case by auto
qed (auto simp: nth_Cons' split: nat.splits)

end
