(* ===== verification/X86_Decode.thy ===== *)
theory X86_Decode
  imports Machine
begin

text \<open>
  The reference against which the encoder is judged: a decoder for the part of the x86-64 machine
  code that the toolchain emits, written from the instruction formats and the opcode map of the
  Intel SDM (volume 2: legacy prefixes, REX, opcode, ModR/M, SIB, displacement, immediate).  It
  shares no definition with the encoder: \<open>decode\<close> reads one instruction off the front of a byte
  list and returns its operation, operand width and operands.

  Registers are numbered 0 to 15 as in the SDM.  \<open>A_Mem b i d\<close> is the address
  \<open>base + index * factor + disp\<close>, \<open>A_Rip d\<close> the RIP-relative one.
\<close>

section \<open>Decoded instructions\<close>

datatype opn =
  I_ADD | I_OR | I_ADC | I_SBB | I_AND | I_SUB | I_XOR | I_CMP | I_MOV | I_TEST | I_LEA | I_XCHG
| I_NOT | I_NEG | I_MUL | I_IMUL | I_DIV | I_IDIV | I_INC | I_DEC
| I_ROL | I_ROR | I_SHL | I_SHR | I_SAR

datatype opn2 =
  I_PUSH | I_POP | I_CALL | I_JMP | I_RET | I_JCC nat | I_SETCC nat | I_PUSHF | I_POPF | I_INT3
| I_BSF | I_BSR | I_TZCNT | I_POPCNT | I_BT | I_BTS | I_BTR | I_BTC | I_BSWAP
| I_XADD | I_CMPXCHG | I_CMPXCHG8B | I_CRC32 | I_LTR | I_MOVNTI
| I_MOVZX8 | I_MOVZX16 | I_MOVSX8 | I_MOVSX16 | I_MOVSXD

datatype arg =
  A_Reg nat
| A_Low8 nat
| A_High8 nat
| A_Seg nat
| A_Mem "nat option" "(nat \<times> nat) option" i32
| A_Rip i32
| A_Imm int
| A_Rel int
| A_Cl

text \<open>
  \<open>I_MOVZX8\<close> to \<open>I_MOVSXD\<close> name the widening moves by their source width; \<open>I_CMPXCHG8B\<close> at operand
  width 64 is CMPXCHG16B.
\<close>

text \<open>A decoded instruction: LOCK prefix, segment override, operation, operand width, operands.\<close>

datatype insn = Insn bool "u8 option" "opn + opn2" int_width "arg list"

section \<open>Prefixes\<close>

record prefixes =
  p_lock :: bool
  p_rep :: bool
  p_repne :: bool
  p_opsz :: bool
  p_seg :: "u8 option"

definition no_prefix :: prefixes where
  "no_prefix = \<lparr>p_lock = False, p_rep = False, p_repne = False, p_opsz = False, p_seg = None\<rparr>"

fun legacy :: "prefixes \<Rightarrow> u8 list \<Rightarrow> prefixes \<times> u8 list" where
  "legacy p [] = (p, [])"
| "legacy p (b # bs) =
     (if b = 0xF0 then legacy (p\<lparr>p_lock := True\<rparr>) bs
      else if b = 0xF3 then legacy (p\<lparr>p_rep := True\<rparr>) bs
      else if b = 0xF2 then legacy (p\<lparr>p_repne := True\<rparr>) bs
      else if b = 0x66 then legacy (p\<lparr>p_opsz := True\<rparr>) bs
      else if b = 0x64 \<or> b = 0x65 then legacy (p\<lparr>p_seg := Some b\<rparr>) bs
      else (p, b # bs))"

record rex_bits =
  r_present :: bool
  r_w :: bool
  r_r :: bool
  r_x :: bool
  r_b :: bool

definition no_rex :: rex_bits where
  "no_rex = \<lparr>r_present = False, r_w = False, r_r = False, r_x = False, r_b = False\<rparr>"

definition rex_of :: "u8 \<Rightarrow> rex_bits" where
  "rex_of b = \<lparr>r_present = True, r_w = bit b 3, r_r = bit b 2, r_x = bit b 1, r_b = bit b 0\<rparr>"

fun take_rex :: "u8 list \<Rightarrow> rex_bits \<times> u8 list" where
  "take_rex [] = (no_rex, [])"
| "take_rex (b # bs) = (if b AND 0xF0 = 0x40 then (rex_of b, bs) else (no_rex, b # bs))"

section \<open>ModR/M and SIB\<close>

definition take_disp8 :: "u8 list \<Rightarrow> (i32 \<times> u8 list) option" where
  "take_disp8 bs = (case bs of [] \<Rightarrow> None | b # r \<Rightarrow> Some (scast b, r))"

text \<open>The displacement of mode \<open>md\<close> (0, 1 or 2); \<open>none32\<close>: mode 0 carries a 32-bit displacement.\<close>

definition take_disp :: "nat \<Rightarrow> bool \<Rightarrow> u8 list \<Rightarrow> (i32 \<times> u8 list) option" where
  "take_disp md none32 bs =
     (if md = 0 then (if none32 then take_le32 bs else Some (0, bs))
      else if md = 1 then take_disp8 bs
      else take_le32 bs)"

definition take_sib :: "rex_bits \<Rightarrow> nat \<Rightarrow> u8 list \<Rightarrow> (arg \<times> u8 list) option" where
  "take_sib rx md bs =
     (case bs of
        [] \<Rightarrow> None
      | s # r \<Rightarrow>
          (let sc = unat s div 64;
               ix = unat s div 8 mod 8 + 8 * of_bool (r_x rx);
               bl = unat s mod 8;
               nobase = (bl = 5 \<and> md = 0)
           in case take_disp md nobase r of
                None \<Rightarrow> None
              | Some (d, r') \<Rightarrow>
                  Some (A_Mem (if nobase then None else Some (bl + 8 * of_bool (r_b rx)))
                          (if ix = 4 then None else Some (ix, 2 ^ sc)) d, r')))"

text \<open>ModR/M: the register field (extended by REX.R), the r/m operand, the rest.\<close>

definition take_modrm :: "rex_bits \<Rightarrow> u8 list \<Rightarrow> (nat \<times> arg \<times> u8 list) option" where
  "take_modrm rx bs =
     (case bs of
        [] \<Rightarrow> None
      | m # r \<Rightarrow>
          (let md = unat m div 64;
               reg = unat m div 8 mod 8 + 8 * of_bool (r_r rx);
               rm = unat m mod 8
           in if md = 3 then Some (reg, A_Reg (rm + 8 * of_bool (r_b rx)), r)
              else if rm = 4 then map_option (\<lambda>(a, r'). (reg, a, r')) (take_sib rx md r)
              else if rm = 5 \<and> md = 0 then
                map_option (\<lambda>(d, r'). (reg, A_Rip d, r')) (take_le32 r)
              else map_option (\<lambda>(d, r'). (reg, A_Mem (Some (rm + 8 * of_bool (r_b rx))) None d, r'))
                     (take_disp md False r)))"

section \<open>Opcode map\<close>

text \<open>Operand encodings of the SDM (the column Op/En) and the operand-size classes.\<close>

datatype enc =
  E_MR | E_RM | E_MI8 | E_MIz | E_M | E_MI8u | E_MC | E_Opc | E_OI | E_I8 | E_Iz | E_RMI8 | E_RMIz | E_Rel8 | E_Rel32 | E_ZO | E_SegRM
| E_M1 | E_RMb | E_AI8 | E_AIz

datatype opsize = SzOp | Sz8 | Sz16 | Sz64

definition alu_op :: "nat \<Rightarrow> opn" where
  "alu_op n = [I_ADD, I_OR, I_ADC, I_SBB, I_AND, I_SUB, I_XOR, I_CMP] ! (n mod 8)"

text \<open>One-byte opcodes; the third argument is the \<open>/digit\<close> of group opcodes.\<close>

definition sdm1 :: "u8 \<Rightarrow> nat \<Rightarrow> ((opn + opn2) \<times> enc \<times> opsize) option" where
  "sdm1 op d =
     (if unat op < 64 \<and> unat op mod 8 = 0 then Some (Inl (alu_op (unat op div 8)), E_MR, Sz8)
      else if unat op < 64 \<and> unat op mod 8 = 4 then Some (Inl (alu_op (unat op div 8)), E_AI8, Sz8)
      else if unat op < 64 \<and> unat op mod 8 = 5 then Some (Inl (alu_op (unat op div 8)), E_AIz, SzOp)
      else if unat op < 64 \<and> unat op mod 8 = 1 then Some (Inl (alu_op (unat op div 8)), E_MR, SzOp)
      else if unat op < 64 \<and> unat op mod 8 = 3 then Some (Inl (alu_op (unat op div 8)), E_RM, SzOp)
      else if op AND 0xF8 = 0x50 then Some (Inr I_PUSH, E_Opc, Sz64)
      else if op AND 0xF8 = 0x58 then Some (Inr I_POP, E_Opc, Sz64)
      else if op = 0x63 then Some (Inr I_MOVSXD, E_RM, SzOp)
      else if op = 0x68 then Some (Inr I_PUSH, E_Iz, Sz64)
      else if op = 0x69 then Some (Inl I_IMUL, E_RMIz, SzOp)
      else if op = 0x6A then Some (Inr I_PUSH, E_I8, Sz64)
      else if op = 0x6B then Some (Inl I_IMUL, E_RMI8, SzOp)
      else if op AND 0xF0 = 0x70 then Some (Inr (I_JCC (unat op mod 16)), E_Rel8, Sz64)
      else if op = 0x80 then Some (Inl (alu_op d), E_MI8, Sz8)
      else if op = 0x81 then Some (Inl (alu_op d), E_MIz, SzOp)
      else if op = 0x83 then Some (Inl (alu_op d), E_MI8, SzOp)
      else if op = 0x85 then Some (Inl I_TEST, E_MR, SzOp)
      else if op = 0x87 then Some (Inl I_XCHG, E_MR, SzOp)
      else if op = 0x88 then Some (Inl I_MOV, E_MR, Sz8)
      else if op = 0x89 then Some (Inl I_MOV, E_MR, SzOp)
      else if op = 0x8A then Some (Inl I_MOV, E_RM, Sz8)
      else if op = 0x8B then Some (Inl I_MOV, E_RM, SzOp)
      else if op = 0x8D then Some (Inl I_LEA, E_RM, SzOp)
      else if op = 0x8E then Some (Inl I_MOV, E_SegRM, SzOp)
      else if op = 0x9C then Some (Inr I_PUSHF, E_ZO, Sz64)
      else if op = 0x9D then Some (Inr I_POPF, E_ZO, Sz64)
      else if op = 0xA9 then Some (Inl I_TEST, E_AIz, SzOp)
      else if op AND 0xF8 = 0xB0 then Some (Inl I_MOV, E_OI, Sz8)
      else if op AND 0xF8 = 0xB8 then Some (Inl I_MOV, E_OI, SzOp)
      else if op = 0xC1 \<and> d = 0 then Some (Inl I_ROL, E_MI8u, SzOp)
      else if op = 0xC1 \<and> d = 1 then Some (Inl I_ROR, E_MI8u, SzOp)
      else if op = 0xC1 \<and> d = 4 then Some (Inl I_SHL, E_MI8u, SzOp)
      else if op = 0xC1 \<and> d = 5 then Some (Inl I_SHR, E_MI8u, SzOp)
      else if op = 0xC1 \<and> d = 7 then Some (Inl I_SAR, E_MI8u, SzOp)
      else if op = 0xC3 then Some (Inr I_RET, E_ZO, Sz64)
      else if op = 0xC6 \<and> d = 0 then Some (Inl I_MOV, E_MI8, Sz8)
      else if op = 0xC7 \<and> d = 0 then Some (Inl I_MOV, E_MIz, SzOp)
      else if op = 0xCC then Some (Inr I_INT3, E_ZO, Sz64)
      else if op = 0xD1 \<and> d = 0 then Some (Inl I_ROL, E_M1, SzOp)
      else if op = 0xD1 \<and> d = 1 then Some (Inl I_ROR, E_M1, SzOp)
      else if op = 0xD3 \<and> d = 0 then Some (Inl I_ROL, E_MC, SzOp)
      else if op = 0xD3 \<and> d = 1 then Some (Inl I_ROR, E_MC, SzOp)
      else if op = 0xD3 \<and> d = 4 then Some (Inl I_SHL, E_MC, SzOp)
      else if op = 0xD3 \<and> d = 5 then Some (Inl I_SHR, E_MC, SzOp)
      else if op = 0xD3 \<and> d = 7 then Some (Inl I_SAR, E_MC, SzOp)
      else if op = 0xE8 then Some (Inr I_CALL, E_Rel32, Sz64)
      else if op = 0xE9 then Some (Inr I_JMP, E_Rel32, Sz64)
      else if op = 0xEB then Some (Inr I_JMP, E_Rel8, Sz64)
      else if op = 0xF7 \<and> d = 0 then Some (Inl I_TEST, E_MIz, SzOp)
      else if op = 0xF7 \<and> d = 2 then Some (Inl I_NOT, E_M, SzOp)
      else if op = 0xF7 \<and> d = 3 then Some (Inl I_NEG, E_M, SzOp)
      else if op = 0xF7 \<and> d = 4 then Some (Inl I_MUL, E_M, SzOp)
      else if op = 0xF7 \<and> d = 6 then Some (Inl I_DIV, E_M, SzOp)
      else if op = 0xF7 \<and> d = 7 then Some (Inl I_IDIV, E_M, SzOp)
      else if op = 0xFF \<and> d = 0 then Some (Inl I_INC, E_M, SzOp)
      else if op = 0xFF \<and> d = 1 then Some (Inl I_DEC, E_M, SzOp)
      else if op = 0xFF \<and> d = 2 then Some (Inr I_CALL, E_M, Sz64)
      else if op = 0xFF \<and> d = 4 then Some (Inr I_JMP, E_M, Sz64)
      else None)"

text \<open>Two-byte opcodes \<open>0F xx\<close>; the first argument is whether an F3 prefix is present.\<close>

definition sdm0F :: "bool \<Rightarrow> u8 \<Rightarrow> nat \<Rightarrow> ((opn + opn2) \<times> enc \<times> opsize) option" where
  "sdm0F rep op d =
     (if op = 0x00 \<and> d = 3 then Some (Inr I_LTR, E_M, Sz16)
      else if op AND 0xF0 = 0x80 then Some (Inr (I_JCC (unat op mod 16)), E_Rel32, Sz64)
      else if op AND 0xF0 = 0x90 then Some (Inr (I_SETCC (unat op mod 16)), E_M, Sz8)
      else if op = 0xA3 then Some (Inr I_BT, E_MR, SzOp)
      else if op = 0xAB then Some (Inr I_BTS, E_MR, SzOp)
      else if op = 0xAF then Some (Inl I_IMUL, E_RM, SzOp)
      else if op = 0xB1 then Some (Inr I_CMPXCHG, E_MR, SzOp)
      else if op = 0xB3 then Some (Inr I_BTR, E_MR, SzOp)
      else if op = 0xB6 then Some (Inr I_MOVZX8, E_RMb, SzOp)
      else if op = 0xB7 then Some (Inr I_MOVZX16, E_RM, SzOp)
      else if op = 0xB8 \<and> rep then Some (Inr I_POPCNT, E_RM, SzOp)
      else if op = 0xBA \<and> d = 4 then Some (Inr I_BT, E_MI8u, SzOp)
      else if op = 0xBA \<and> d = 5 then Some (Inr I_BTS, E_MI8u, SzOp)
      else if op = 0xBA \<and> d = 6 then Some (Inr I_BTR, E_MI8u, SzOp)
      else if op = 0xBA \<and> d = 7 then Some (Inr I_BTC, E_MI8u, SzOp)
      else if op = 0xBB then Some (Inr I_BTC, E_MR, SzOp)
      else if op = 0xBC then Some (Inr (if rep then I_TZCNT else I_BSF), E_RM, SzOp)
      else if op = 0xBD \<and> \<not> rep then Some (Inr I_BSR, E_RM, SzOp)
      else if op = 0xBE then Some (Inr I_MOVSX8, E_RMb, SzOp)
      else if op = 0xBF then Some (Inr I_MOVSX16, E_RM, SzOp)
      else if op = 0xC1 then Some (Inr I_XADD, E_MR, SzOp)
      else if op = 0xC3 then Some (Inr I_MOVNTI, E_MR, SzOp)
      else if op = 0xC7 \<and> d = 1 then Some (Inr I_CMPXCHG8B, E_M, SzOp)
      else if op AND 0xF8 = 0xC8 then Some (Inr I_BSWAP, E_Opc, SzOp)
      else None)"

text \<open>Three-byte opcodes \<open>0F 38 xx\<close>; the first argument is whether an F2 prefix is present.\<close>

definition sdm0F38 :: "bool \<Rightarrow> u8 \<Rightarrow> ((opn + opn2) \<times> enc \<times> opsize) option" where
  "sdm0F38 repne op = (if op = 0xF1 \<and> repne then Some (Inr I_CRC32, E_RM, SzOp) else None)"

section \<open>Operands and the decoder\<close>

definition width_of :: "prefixes \<Rightarrow> rex_bits \<Rightarrow> opsize \<Rightarrow> int_width" where
  "width_of p rx sz =
     (case sz of
        Sz8 \<Rightarrow> W8
      | Sz16 \<Rightarrow> W16
      | Sz64 \<Rightarrow> W64
      | SzOp \<Rightarrow> if r_w rx then W64 else if p_opsz p then W16 else W32)"

text \<open>Byte registers 4 to 7 are AH, CH, DH, BH unless a REX prefix is present.\<close>

definition reg_arg :: "rex_bits \<Rightarrow> int_width \<Rightarrow> nat \<Rightarrow> arg" where
  "reg_arg rx w n =
     (if w = W8 then (if \<not> r_present rx \<and> 4 \<le> n then A_High8 (n - 4) else A_Low8 n) else A_Reg n)"

definition rm_arg :: "rex_bits \<Rightarrow> int_width \<Rightarrow> arg \<Rightarrow> arg" where
  "rm_arg rx w a = (case a of A_Reg n \<Rightarrow> reg_arg rx w n | _ \<Rightarrow> a)"

text \<open>Immediates: \<open>imm8\<close> and \<open>imm32\<close> are sign-extended, the immediate of B8+r is a full one.\<close>

definition take_imm8 :: "u8 list \<Rightarrow> (int \<times> u8 list) option" where
  "take_imm8 bs = (case bs of [] \<Rightarrow> None | b # r \<Rightarrow> Some (sint b, r))"

definition take_imm8u :: "u8 list \<Rightarrow> (int \<times> u8 list) option" where
  "take_imm8u bs = (case bs of [] \<Rightarrow> None | b # r \<Rightarrow> Some (uint b, r))"

definition take_immz :: "int_width \<Rightarrow> u8 list \<Rightarrow> (int \<times> u8 list) option" where
  "take_immz w bs =
     (if w = W16 then map_option (\<lambda>(i, r). (sint i, r)) (take_le16 bs)
      else map_option (\<lambda>(i, r). (sint i, r)) (take_le32 bs))"

definition take_immo :: "int_width \<Rightarrow> u8 list \<Rightarrow> (int \<times> u8 list) option" where
  "take_immo w bs =
     (case w of
        W8 \<Rightarrow> take_imm8u bs
      | W16 \<Rightarrow> map_option (\<lambda>(i, r). (uint i, r)) (take_le16 bs)
      | W32 \<Rightarrow> map_option (\<lambda>(i, r). (uint i, r)) (take_le32 bs)
      | W64 \<Rightarrow> map_option (\<lambda>(i, r). (uint i, r)) (take_le64 bs))"

definition imm_after :: "(u8 list \<Rightarrow> (int \<times> u8 list) option) \<Rightarrow> arg list \<Rightarrow> u8 list \<Rightarrow>
    (arg list \<times> u8 list) option" where
  "imm_after rd as bs = map_option (\<lambda>(i, r). (as @ [A_Imm i], r)) (rd bs)"

definition take_args :: "rex_bits \<Rightarrow> int_width \<Rightarrow> enc \<Rightarrow> u8 \<Rightarrow> u8 list \<Rightarrow>
    (arg list \<times> u8 list) option" where
  "take_args rx w e op bs =
     (let rmf = (\<lambda>k. case take_modrm rx bs of
                       None \<Rightarrow> None
                     | Some (reg, a, r) \<Rightarrow> k (reg_arg rx w reg) (rm_arg rx w a) reg r);
          opreg = reg_arg rx w (unat op mod 8 + 8 * of_bool (r_b rx))
      in case e of
           E_MR \<Rightarrow> rmf (\<lambda>g a n r. Some ([a, g], r))
         | E_RM \<Rightarrow> rmf (\<lambda>g a n r. Some ([g, a], r))
         | E_M \<Rightarrow> rmf (\<lambda>g a n r. Some ([a], r))
         | E_MC \<Rightarrow> rmf (\<lambda>g a n r. Some ([a, A_Cl], r))
         | E_M1 \<Rightarrow> rmf (\<lambda>g a n r. Some ([a, A_Imm 1], r))
         | E_RMb \<Rightarrow> (case take_modrm rx bs of
                       None \<Rightarrow> None
                     | Some (reg, a, r) \<Rightarrow> Some ([reg_arg rx w reg, rm_arg rx W8 a], r))
         | E_SegRM \<Rightarrow> rmf (\<lambda>g a n r. Some ([A_Seg n, a], r))
         | E_MI8 \<Rightarrow> rmf (\<lambda>g a n r. imm_after take_imm8 [a] r)
         | E_MI8u \<Rightarrow> rmf (\<lambda>g a n r. imm_after take_imm8u [a] r)
         | E_MIz \<Rightarrow> rmf (\<lambda>g a n r. imm_after (take_immz w) [a] r)
         | E_RMI8 \<Rightarrow> rmf (\<lambda>g a n r. imm_after take_imm8 [g, a] r)
         | E_RMIz \<Rightarrow> rmf (\<lambda>g a n r. imm_after (take_immz w) [g, a] r)
         | E_Opc \<Rightarrow> Some ([opreg], bs)
         | E_OI \<Rightarrow> imm_after (take_immo w) [opreg] bs
         | E_I8 \<Rightarrow> imm_after take_imm8 [] bs
         | E_AI8 \<Rightarrow> imm_after take_imm8 [reg_arg rx w 0] bs
         | E_AIz \<Rightarrow> imm_after (take_immz w) [reg_arg rx w 0] bs
         | E_Iz \<Rightarrow> imm_after (take_immz w) [] bs
         | E_Rel8 \<Rightarrow> map_option (\<lambda>(i, r). ([A_Rel i], r)) (take_imm8 bs)
         | E_Rel32 \<Rightarrow> map_option (\<lambda>(i, r). ([A_Rel i], r)) (take_immz W64 bs)
         | E_ZO \<Rightarrow> Some ([], bs))"

definition digit :: "u8 list \<Rightarrow> nat" where
  "digit bs = (case bs of [] \<Rightarrow> 0 | b # _ \<Rightarrow> unat b div 8 mod 8)"

definition finish :: "prefixes \<Rightarrow> rex_bits \<Rightarrow> ((opn + opn2) \<times> enc \<times> opsize) option \<Rightarrow> u8 \<Rightarrow>
    u8 list \<Rightarrow> (insn \<times> u8 list) option" where
  "finish p rx row op bs =
     (case row of
        None \<Rightarrow> None
      | Some (opr, e, sz) \<Rightarrow>
          (let w = width_of p rx sz
           in map_option (\<lambda>(as, r). (Insn (p_lock p) (p_seg p) opr w as, r)) (take_args rx w e op bs)))"

text \<open>The rest of an instruction, after the legacy prefixes \<open>p\<close> have been seen.\<close>

definition decode_from :: "prefixes \<Rightarrow> u8 list \<Rightarrow> (insn \<times> u8 list) option" where
  "decode_from p0 bs =
     (let (p, bs1) = legacy p0 bs; (rx, bs2) = take_rex bs1
      in case bs2 of
           [] \<Rightarrow> None
         | op # r \<Rightarrow>
             if op = 0x0F
             then (case r of
                     [] \<Rightarrow> None
                   | op2 # r2 \<Rightarrow>
                       if op2 = 0x38
                       then (case r2 of
                               [] \<Rightarrow> None
                             | op3 # r3 \<Rightarrow> finish p rx (sdm0F38 (p_repne p) op3) op3 r3)
                       else finish p rx (sdm0F (p_rep p) op2 (digit r2)) op2 r2)
             else finish p rx (sdm1 op (digit r)) op r)"

definition decode :: "u8 list \<Rightarrow> (insn \<times> u8 list) option" where
  "decode bs = decode_from no_prefix bs"

text \<open>A byte string is the concatenation of the encodings of a list of instructions.\<close>

fun decodes :: "u8 list \<Rightarrow> insn list \<Rightarrow> bool" where
  "decodes bs [] \<longleftrightarrow> bs = []"
| "decodes bs (x # xs) \<longleftrightarrow>
     (case decode bs of None \<Rightarrow> False | Some (y, r) \<Rightarrow> y = x \<and> decodes r xs)"

end
