(* ===== verification/Encoder_Bytes.thy ===== *)
theory Encoder_Bytes
  imports Encoder_Core X86_Decode
begin

text \<open>
  Byte-level facts that connect the encoder's helpers with the reference decoder: what REX, ModR/M
  and SIB bytes built by the encoder decode to.  The central ones are the round trips of
  \<open>emit_mem_base_disp\<close> and \<open>emit_mem_sib_disp\<close>; the simp collection \<open>enc_simps\<close> carries the proofs
  about the individual instruction encoders.
\<close>

named_theorems enc_simps \<open>evaluation of the decoder on the encoders' output\<close>

section \<open>Buffer\<close>

lemma bytes_push_byte [simp]: "bytes (push_byte buf b) = bytes buf @ [b]"
  by (simp add: push_byte_def)

lemma bytes_extend_buf [simp]: "bytes (extend_buf buf bs) = bytes buf @ bs"
  by (simp add: extend_buf_def)

lemma bytes_new_buffer [simp]: "bytes new_buffer = []"
  by (simp add: new_buffer_def)

section \<open>Three-bit fields\<close>

lemma unat_and_7 [enc_simps]: "unat ((x :: u8) AND 7) = unat x mod 8"
proof -
  have "x AND 7 = take_bit 3 x"
    by (simp add: take_bit_eq_mask mask_eq_exp_minus_1)
  then show ?thesis
    by (simp add: take_bit_eq_mod unat_mod_distrib)
qed

lemma unat_and_3: "unat ((x :: u8) AND 3) = unat x mod 4"
proof -
  have "x AND 3 = take_bit 2 x"
    by (simp add: take_bit_eq_mask mask_eq_exp_minus_1)
  then show ?thesis
    by (simp add: take_bit_eq_mod unat_mod_distrib)
qed

lemma drop_bit_3_neq_0 [enc_simps]: "drop_bit 3 (x :: u8) \<noteq> 0 \<longleftrightarrow> 8 \<le> unat x"
proof -
  have "drop_bit 3 x = 0 \<longleftrightarrow> unat (drop_bit 3 x) = 0"
    by (simp add: unat_eq_0)
  also have "unat (drop_bit 3 x) = unat x div 8"
    by (simp only: drop_bit_eq_div) (simp add: unat_div_distrib)
  finally have "drop_bit 3 x = 0 \<longleftrightarrow> unat x < 8" by (simp add: div_eq_0_iff)
  then show ?thesis by linarith
qed

lemma drop_bit_3_eq_0 [enc_simps]: "drop_bit 3 (x :: u8) = 0 \<longleftrightarrow> unat x < 8"
  using drop_bit_3_neq_0 [of x] by linarith

lemma greater_7 [enc_simps]: "7 < (x :: u8) \<longleftrightarrow> \<not> unat x < 8"
  by (auto simp: word_less_nat_alt)

lemma and_7_eq [enc_simps]:
  "(x :: u8) AND 7 = 4 \<longleftrightarrow> unat x mod 8 = 4" "x AND 7 = 5 \<longleftrightarrow> unat x mod 8 = 5"
  by (simp_all add: word_eq_iff_unsigned [where 'a = nat] unat_and_7)

lemma unat_push_bit_3_and_7: "unat (push_bit 3 ((x :: u8) AND 7)) = 8 * (unat x mod 8)"
proof -
  have "push_bit 3 (x AND 7) = (x AND 7) * 8"
    by (simp only: push_bit_eq_mult) simp
  then show ?thesis
    by (simp only: unat_word_ariths unat_and_7) simp
qed

lemma unat_push_bit_6_and_3: "unat (push_bit 6 ((x :: u8) AND 3)) = 64 * (unat x mod 4)"
proof -
  have "push_bit 6 (x AND 3) = (x AND 3) * 64"
    by (simp only: push_bit_eq_mult) simp
  then show ?thesis
    by (simp only: unat_word_ariths unat_and_3) simp
qed

lemma nat_or_multiple:
  assumes "(a :: nat) mod 2 ^ k = 0" "b < 2 ^ k"
  shows "a OR b = a + b"
proof -
  have "a AND b = 0"
  proof (rule bit_eqI)
    fix n
    show "bit (a AND b) n = bit 0 n"
    proof (cases "n < k")
      case True
      have "\<not> bit (take_bit k a) n"
        using assms(1) by (simp add: take_bit_eq_mod)
      then show ?thesis using True by (simp add: bit_simps)
    next
      case False
      have "take_bit k b = b" using assms(2) by (simp add: take_bit_eq_mod)
      then have "\<not> bit b n" using False by (metis bit_take_bit_iff)
      then show ?thesis by (simp add: bit_simps)
    qed
  qed
  then show ?thesis by (simp only: disjunctive_add_eq_or)
qed

text \<open>Setting the low three bits of a byte whose low three bits are clear is an addition.\<close>

lemma unat_or_and_7:
  assumes "(c :: u8) AND 7 = 0"
  shows "unat (c OR (x AND 7)) = unat c + unat x mod 8"
proof -
  have "unat c mod 2 ^ 3 = 0"
    using assms unat_and_7 [of c] by simp
  then have "unat c OR (unat x mod 8) = unat c + unat x mod 8"
    by (rule nat_or_multiple) simp
  then show ?thesis
    by (simp only: unsigned_or_eq unat_and_7)
qed

text \<open>The value of a ModR/M or SIB byte assembled from its three fields.\<close>

lemma unat_fields:
  fixes m r b :: u8
  assumes "unat m mod 64 = 0"
  shows "unat ((m OR push_bit 3 (r AND 7)) OR (b AND 7)) = unat m + 8 * (unat r mod 8) + unat b mod 8"
proof -
  have "unat m OR 8 * (unat r mod 8) = unat m + 8 * (unat r mod 8)"
    by (rule nat_or_multiple [where k = 6]) (use assms in simp_all)
  moreover have "(unat m + 8 * (unat r mod 8)) OR (unat b mod 8) =
      unat m + 8 * (unat r mod 8) + unat b mod 8"
    by (rule nat_or_multiple [where k = 3]) (use assms in \<open>simp_all, presburger\<close>)
  ultimately show ?thesis
    by (simp only: unsigned_or_eq unat_push_bit_3_and_7 unat_and_7)
qed

lemma unat_field_4:
  fixes m r :: u8
  assumes "unat m mod 64 = 0"
  shows "unat ((m OR push_bit 3 (r AND 7)) OR 4) = unat m + 8 * (unat r mod 8) + 4"
  using unat_fields [OF assms, of r 4] by simp

section \<open>REX\<close>

lemma take_rex_rex [enc_simps]:
  "take_rex (rex w r x b # l) = (\<lparr>r_present = True, r_w = w, r_r = r, r_x = x, r_b = b\<rparr>, l)"
  by (cases w; cases r; cases x; cases b) (simp_all add: rex_def rex_of_def)

lemma legacy_rex [enc_simps]: "legacy p (rex w r x b # l) = (p, rex w r x b # l)"
  by (cases w; cases r; cases x; cases b) (simp_all add: rex_def)

text \<open>A register number split over a three-bit field and a REX bit.\<close>

lemma reg_split [enc_simps]:
  "n < 16 \<Longrightarrow> n mod 8 + 8 * of_bool (\<not> n < 8) = (n :: nat)"
  "n < 16 \<Longrightarrow> \<not> n < 8 \<Longrightarrow> n mod 8 + 8 = (n :: nat)"
  by (cases "n < 8") (simp_all add: le_mod_geq)

abbreviation reg_no :: "reg64 \<Rightarrow> nat" where
  "reg_no r \<equiv> unat (reg64_id r)"

lemma reg_no_less [simp, enc_simps]: "reg_no r < 16"
  by (cases r) simp_all

lemma reg_no_eq_4 [enc_simps]: "reg_no r = 4 \<longleftrightarrow> r = Rsp"
  by (cases r) simp_all

lemma reg32_no_less [simp, intro, enc_simps]: "unat (reg32_id r) < 16"
  by (cases r) simp_all

lemma and_7_range [enc_simps]:
  "4 \<le> (x :: u8) AND 7 \<longleftrightarrow> 4 \<le> unat x mod 8" "(x :: u8) AND 7 \<le> 7"
  by (simp_all add: word_le_nat_alt unat_and_7 less_Suc_eq_le [symmetric])

lemma reg_no_inject: "reg_no r = reg_no s \<longleftrightarrow> r = s"
  by (cases r; cases s) simp_all

text \<open>
  The register that an unchecked register id selects: the three-bit field and REX.B carry four bits,
  and every id from 8 on sets REX.B.
\<close>

definition wrap_reg :: "u8 \<Rightarrow> nat" where
  "wrap_reg r = unat r mod 8 + 8 * of_bool (\<not> unat r < 8)"

lemma wrap_reg_small [simp]: "unat r < 16 \<Longrightarrow> wrap_reg r = unat r"
  by (simp add: wrap_reg_def reg_split)

section \<open>Register operands\<close>

lemma fields_nat:
  assumes "(a :: nat) < 8" "b < 8"
  shows "(64 * m + 8 * a + b) div 64 = m" "(64 * m + 8 * a + b) div 8 mod 8 = a"
    "(64 * m + 8 * a + b) mod 8 = b"
proof -
  have low: "64 * m + 8 * a + b = b + (8 * m + a) * 8" by simp
  have q: "(64 * m + 8 * a + b) div 8 = 8 * m + a"
    unfolding low using assms by (subst div_mult_self1) simp_all
  then show "(64 * m + 8 * a + b) div 8 mod 8 = a"
    using assms by (simp add: mult.commute)
  have "(64 * m + 8 * a + b) div 64 = (64 * m + 8 * a + b) div 8 div 8"
    by (simp add: div_mult2_eq [symmetric])
  also have "\<dots> = m"
    unfolding q using assms by (simp add: add.commute [of "8 * m"])
  finally show "(64 * m + 8 * a + b) div 64 = m" .
  show "(64 * m + 8 * a + b) mod 8 = b"
    unfolding low using assms by (subst mod_mult_self1) simp
qed

lemma take_modrm_reg:
  "take_modrm rx (((0xC0 OR push_bit 3 (r AND 7)) OR (b AND 7)) # l) =
     Some (unat r mod 8 + 8 * of_bool (r_r rx), A_Reg (unat b mod 8 + 8 * of_bool (r_b rx)), l)"
proof -
  have "unat ((0xC0 OR push_bit 3 (r AND 7)) OR (b AND 7)) = 64 * 3 + 8 * (unat r mod 8) + unat b mod 8"
    by (subst unat_fields) simp_all
  then show ?thesis
    by (simp only: take_modrm_def list.case Let_def fields_nat mod_less_divisor zero_less_numeral) simp
qed

lemma digit_reg:
  "digit (((0xC0 OR push_bit 3 (r AND 7)) OR (b AND 7)) # l) = unat r mod 8"
proof -
  have "unat ((0xC0 OR push_bit 3 (r AND 7)) OR (b AND 7)) = 64 * 3 + 8 * (unat r mod 8) + unat b mod 8"
    by (subst unat_fields) simp_all
  then show ?thesis
    by (simp only: digit_def list.case fields_nat mod_less_divisor zero_less_numeral)
qed

text \<open>A ModR/M byte with a constant register field, for the opcode groups.\<close>

lemma ext_byte:
  assumes "(c :: u8) AND 7 = 0"
  shows "unat (c OR (b AND 7)) = 64 * (unat c div 8 div 8) + 8 * (unat c div 8 mod 8) + unat b mod 8"
proof -
  have "unat c mod 8 = 0"
    using assms unat_and_7 [of c] by simp
  then have "unat c = 8 * (unat c div 8)"
    using mult_div_mod_eq [of 8 "unat c"] by linarith
  also have "\<dots> = 8 * (8 * (unat c div 8 div 8) + unat c div 8 mod 8)"
    by (simp only: mult_div_mod_eq)
  also have "\<dots> = 64 * (unat c div 8 div 8) + 8 * (unat c div 8 mod 8)"
    by (simp only: distrib_left mult.assoc [symmetric])
  finally show ?thesis using assms by (simp only: unat_or_and_7)
qed

lemma take_modrm_ext:
  assumes "c AND 7 = 0" "unat c div 64 = 3"
  shows "take_modrm rx ((c OR (b AND 7)) # l) =
     Some (unat c div 8 mod 8 + 8 * of_bool (r_r rx), A_Reg (unat b mod 8 + 8 * of_bool (r_b rx)), l)"
proof -
  have "unat c div 8 div 8 = 3" using assms(2) by (simp add: div_mult2_eq [symmetric])
  with ext_byte [OF assms(1)]
  have "unat (c OR (b AND 7)) = 64 * 3 + 8 * (unat c div 8 mod 8) + unat b mod 8" by simp
  then show ?thesis
    by (simp only: take_modrm_def list.case Let_def fields_nat mod_less_divisor zero_less_numeral) simp
qed

lemma digit_ext:
  assumes "c AND 7 = 0"
  shows "digit ((c OR (b AND 7)) # l) = unat c div 8 mod 8"
  using ext_byte [OF assms]
  by (simp only: digit_def list.case fields_nat mod_less_divisor zero_less_numeral)

text \<open>Memory operands assembled without the helpers: base and displacement, no SIB byte.\<close>

lemma take_modrm_mod:
  assumes "unat m mod 64 = 0" "unat b mod 8 \<noteq> 4" "unat m div 64 < 3" "unat m \<noteq> 0 \<or> unat b mod 8 \<noteq> 5"
  shows "take_modrm rx (((m OR push_bit 3 (r AND 7)) OR (b AND 7)) # l) =
     map_option (\<lambda>(d, r'). (unat r mod 8 + 8 * of_bool (r_r rx),
         A_Mem (Some (unat b mod 8 + 8 * of_bool (r_b rx))) None d, r'))
       (take_disp (unat m div 64) False l)"
proof -
  have m: "unat m = 64 * (unat m div 64)" using assms(1) mult_div_mod_eq [of 64 "unat m"] by linarith
  have f: "unat ((m OR push_bit 3 (r AND 7)) OR (b AND 7)) =
      64 * (unat m div 64) + 8 * (unat r mod 8) + unat b mod 8"
    using unat_fields [OF assms(1), of r b] m by linarith
  have "unat m div 64 \<noteq> 0 \<or> unat b mod 8 \<noteq> 5" using assms(4) m by auto
  then show ?thesis
    using assms(2,3)
    by (simp only: take_modrm_def list.case Let_def f fields_nat mod_less_divisor zero_less_numeral)
      auto
qed

lemma take_modrm_mod_0:
  "unat b mod 8 \<noteq> 4 \<Longrightarrow> unat b mod 8 \<noteq> 5 \<Longrightarrow> take_modrm rx ((b AND 7) # l) =
     Some (8 * of_bool (r_r rx), A_Mem (Some (unat b mod 8 + 8 * of_bool (r_b rx))) None 0, l)"
  using take_modrm_mod [of 0 b rx 0 l] by (simp add: take_disp_def)

lemmas take_modrm_mod_1 = take_modrm_mod [of "0x40", simplified]
lemmas take_modrm_mod_2 = take_modrm_mod [of "0x80", simplified]

text \<open>RIP-relative operands, and the absolute form with an index and no base.\<close>

lemma rip_byte: "unat (5 OR push_bit 3 ((r :: u8) AND 7)) = 64 * 0 + 8 * (unat r mod 8) + 5"
  using unat_fields [of 0 r 5] by (simp add: or.commute)

lemma take_modrm_rip:
  "take_modrm rx ((5 OR push_bit 3 (r AND 7)) # l) =
     map_option (\<lambda>(d, r'). (unat r mod 8 + 8 * of_bool (r_r rx), A_Rip d, r')) (take_le32 l)"
proof -
  have 5: "(5 :: nat) < 8" by simp
  show ?thesis
    by (simp only: take_modrm_def list.case Let_def rip_byte fields_nat mod_less_divisor
        zero_less_numeral 5) simp
qed

lemma take_modrm_literal [enc_simps]:
  "take_modrm rx (0x05 # l) =
     map_option (\<lambda>(d, r'). (8 * of_bool (r_r rx), A_Rip d, r')) (take_le32 l)"
  "take_modrm rx (0x15 # l) =
     map_option (\<lambda>(d, r'). (2 + 8 * of_bool (r_r rx), A_Rip d, r')) (take_le32 l)"
  "take_modrm rx (0x24 # l) =
     map_option (\<lambda>(a, r'). (4 + 8 * of_bool (r_r rx), a, r')) (take_sib rx 0 l)"
  "take_modrm rx (0x04 # 0x25 # l) =
     map_option (\<lambda>(d, r'). (8 * of_bool (r_r rx), A_Mem None (if r_x rx then Some (12, 1) else None) d, r'))
       (take_le32 l)"
  "digit (0x04 # l) = 0" "digit (0x05 # l) = 0" "digit (0x15 # l) = 2" "digit (0x24 # l) = 4"
  by (simp_all add: take_modrm_def digit_def take_sib_def take_disp_def option.map_comp comp_def
      case_prod_unfold split: option.splits)

lemma take_sib_no_base:
  "take_sib rx 0 (((push_bit 6 (sc AND 3) OR push_bit 3 (i AND 7)) OR 5) # l) =
     map_option (\<lambda>(d, r'). (A_Mem None
         (let ix = unat i mod 8 + 8 * of_bool (r_x rx)
          in if ix = 4 then None else Some (ix, 2 ^ (unat sc mod 4))) d, r')) (take_le32 l)"
proof -
  have s: "unat (push_bit 6 (sc AND 3)) mod 64 = 0" by (simp only: unat_push_bit_6_and_3) simp
  have g: "unat ((push_bit 6 (sc AND 3) OR push_bit 3 (i AND 7)) OR 5) =
      64 * (unat sc mod 4) + 8 * (unat i mod 8) + 5"
  proof -
    have "(5 :: u8) AND 7 = 5" "unat (5 :: u8) mod 8 = 5" by simp_all
    then show ?thesis using unat_fields [OF s, of i 5] by (simp only: unat_push_bit_6_and_3)
  qed
  have 5: "(5 :: nat) < 8" by simp
  show ?thesis
    by (simp only: take_sib_def list.case Let_def g fields_nat mod_less_divisor zero_less_numeral 5)
      (simp add: take_disp_def split: option.splits)
qed

lemma take_le32_zero [enc_simps]:
  "take_le32 (0 # 0 # 0 # 0 # l) = Some (0, l)"
  by simp

declare take_le32_bytes [enc_simps] or_eq_0_iff [enc_simps]

lemma digit_rip: "digit ((5 OR push_bit 3 (r AND 7)) # l) = unat r mod 8"
proof -
  have "(5 :: nat) < 8" by simp
  then show ?thesis
    by (simp only: digit_def list.case rip_byte fields_nat mod_less_divisor zero_less_numeral)
qed

lemmas modrm_reg_simps [enc_simps] =
  take_modrm_rip [simplified] take_sib_no_base [simplified] digit_rip [simplified]
  take_modrm_reg [simplified] digit_reg [simplified] take_modrm_ext digit_ext

section \<open>Memory operands: base and displacement\<close>

definition base_disp_bytes :: "u8 \<Rightarrow> u8 \<Rightarrow> i32 \<Rightarrow> u8 list" where
  "base_disp_bytes r b d = bytes (emit_mem_base_disp new_buffer r b d)"

lemma bytes_emit_mem_base_disp [enc_simps]:
  "bytes (emit_mem_base_disp buf r b d) = bytes buf @ base_disp_bytes r b d"
  by (simp add: base_disp_bytes_def emit_mem_base_disp_def Let_def split: if_splits)

text \<open>The addressing mode and the displacement bytes that the helpers choose.\<close>

definition disp_mode :: "u8 \<Rightarrow> i32 \<Rightarrow> nat" where
  "disp_mode b d =
     (if d = 0 \<and> unat b mod 8 \<noteq> 5 then 0
      else if - 128 \<le> sint d \<and> sint d \<le> 127 then 1 else 2)"

definition disp_bytes :: "nat \<Rightarrow> i32 \<Rightarrow> u8 list" where
  "disp_bytes md d = (if md = 0 then [] else if md = 1 then [ucast d] else le_bytes32 d)"

lemma take_disp_bytes:
  "take_disp (disp_mode b d) False (disp_bytes (disp_mode b d) d @ l) = Some (d, l)"
  by (auto simp: take_disp_def disp_mode_def disp_bytes_def take_disp8_def byte_simps)

lemma disp_mode_less: "disp_mode b d < 3"
  by (simp add: disp_mode_def)

lemma disp_mode_0: "disp_mode b d = 0 \<Longrightarrow> unat b mod 8 \<noteq> 5"
  by (simp add: disp_mode_def split: if_splits)

lemma base_disp_bytes_eq:
  "base_disp_bytes r b d =
     (let m = (of_nat (64 * disp_mode b d) :: u8)
      in (if unat b mod 8 = 4
          then [(m OR push_bit 3 (r AND 7)) OR 4, (0 OR push_bit 3 (4 AND 7)) OR (b AND 7)]
          else [(m OR push_bit 3 (r AND 7)) OR (b AND 7)]) @ disp_bytes (disp_mode b d) d)"
  by (auto simp: base_disp_bytes_def emit_mem_base_disp_def disp_mode_def disp_bytes_def Let_def
      enc_simps)

lemma unat_mode: "unat (of_nat (64 * disp_mode b d) :: u8) = 64 * disp_mode b d"
  using disp_mode_less [of b d] by (subst unat_of_nat) simp


text \<open>
  The bytes that \<open>emit_mem_base_disp\<close> appends decode to the memory operand it was asked for,
  whatever the base register (the RSP/R12 and RBP/R13 escapes included) and the displacement.
\<close>

lemma take_modrm_base_disp [enc_simps]:
  "take_modrm rx (base_disp_bytes r b d @ l) =
     Some (unat r mod 8 + 8 * of_bool (r_r rx),
           A_Mem (Some (unat b mod 8 + 8 * of_bool (r_b rx))) (if r_x rx \<and> unat b mod 8 = 4 then Some (12, 1) else None) d, l)"
proof -
  let ?md = "disp_mode b d"
  let ?m = "of_nat (64 * ?md) :: u8"
  have md: "?md < 3" by (rule disp_mode_less)
  have m: "unat ?m mod 64 = 0" by (simp only: unat_mode) simp
  show ?thesis
  proof (cases "unat b mod 8 = 4")
    case True
    have f: "unat ((?m OR push_bit 3 (r AND 7)) OR 4) = 64 * ?md + 8 * (unat r mod 8) + 4"
      using unat_field_4 [OF m, of r] by (simp only: unat_mode)
    have g: "unat ((0 OR push_bit 3 (4 AND 7)) OR (b AND 7)) = 64 * 0 + 8 * 4 + 4"
      using unat_fields [of 0 4 b] True by simp
    have sib: "take_sib rx ?md (((0 OR push_bit 3 (4 AND 7)) OR (b AND 7)) # disp_bytes ?md d @ l) =
        Some (A_Mem (Some (4 + 8 * of_bool (r_b rx))) (if r_x rx then Some (12, 1) else None) d, l)"
      by (simp only: take_sib_def list.case Let_def g fields_nat) (simp add: take_disp_bytes)
    have "take_modrm rx (base_disp_bytes r b d @ l) =
        map_option (\<lambda>(a, r'). (unat r mod 8 + 8 * of_bool (r_r rx), a, r'))
          (take_sib rx ?md (((0 OR push_bit 3 (4 AND 7)) OR (b AND 7)) # disp_bytes ?md d @ l))"
      using md by (simp only: base_disp_bytes_eq Let_def True simp_thms if_True append_Cons append_Nil take_modrm_def
          list.case f fields_nat mod_less_divisor zero_less_numeral) simp
    then show ?thesis using True by (simp only: sib) simp
  next
    case False
    have f: "unat ((?m OR push_bit 3 (r AND 7)) OR (b AND 7)) = 64 * ?md + 8 * (unat r mod 8) + unat b mod 8"
      using unat_fields [OF m, of r b] by (simp only: unat_mode)
    show ?thesis
      using md False disp_mode_0 [of b d]
      by (simp only: base_disp_bytes_eq Let_def if_False append_Cons append_Nil take_modrm_def
          list.case f fields_nat mod_less_divisor zero_less_numeral) (auto simp: take_disp_bytes)
  qed
qed

lemma digit_base_disp [enc_simps]: "digit (base_disp_bytes r b d @ l) = unat r mod 8"
proof -
  let ?md = "disp_mode b d"
  have m: "unat (of_nat (64 * ?md) :: u8) mod 64 = 0" by (simp only: unat_mode) simp
  show ?thesis
    by (cases "unat b mod 8 = 4")
      (simp_all only: base_disp_bytes_eq Let_def simp_thms if_True if_False append_Cons append_Nil digit_def
        list.case unat_fields [OF m] unat_field_4 [OF m] unat_mode fields_nat mod_less_divisor
        zero_less_numeral fields_nat(2) [of _ 4, simplified])
qed

section \<open>Memory operands: scaled index\<close>

definition sib_disp_bytes :: "u8 \<Rightarrow> u8 \<Rightarrow> u8 \<Rightarrow> u8 \<Rightarrow> i32 \<Rightarrow> u8 list" where
  "sib_disp_bytes r b i sc d = bytes (emit_mem_sib_disp new_buffer r b i sc d)"

lemma bytes_emit_mem_sib_disp [enc_simps]:
  "bytes (emit_mem_sib_disp buf r b i sc d) = bytes buf @ sib_disp_bytes r b i sc d"
  by (simp add: sib_disp_bytes_def emit_mem_sib_disp_def Let_def split: if_splits)

lemma sib_disp_bytes_eq:
  "sib_disp_bytes r b i sc d =
     [(of_nat (64 * disp_mode b d) OR push_bit 3 (r AND 7)) OR 4,
      (push_bit 6 (sc AND 3) OR push_bit 3 (i AND 7)) OR (b AND 7)] @ disp_bytes (disp_mode b d) d"
  by (auto simp: sib_disp_bytes_def emit_mem_sib_disp_def disp_mode_def disp_bytes_def Let_def enc_simps)

text \<open>
  The same for \<open>emit_mem_sib_disp\<close>.  The index field 100 without REX.X means that there is no index:
  for an index register other than RSP the operand is the one asked for.
\<close>

lemma take_modrm_sib_disp [enc_simps]:
  "take_modrm rx (sib_disp_bytes r b i sc d @ l) =
     Some (unat r mod 8 + 8 * of_bool (r_r rx),
           A_Mem (Some (unat b mod 8 + 8 * of_bool (r_b rx)))
             (let ix = unat i mod 8 + 8 * of_bool (r_x rx)
              in if ix = 4 then None else Some (ix, 2 ^ (unat sc mod 4))) d, l)"
proof -
  let ?md = "disp_mode b d"
  have md: "?md < 3" by (rule disp_mode_less)
  have m: "unat (of_nat (64 * ?md) :: u8) mod 64 = 0" by (simp only: unat_mode) simp
  have f: "unat ((of_nat (64 * ?md) OR push_bit 3 (r AND 7)) OR 4) = 64 * ?md + 8 * (unat r mod 8) + 4"
    using unat_field_4 [OF m, of r] by (simp only: unat_mode)
  have s: "unat (push_bit 6 (sc AND 3)) mod 64 = 0" by (simp only: unat_push_bit_6_and_3) simp
  have g: "unat ((push_bit 6 (sc AND 3) OR push_bit 3 (i AND 7)) OR (b AND 7)) =
      64 * (unat sc mod 4) + 8 * (unat i mod 8) + unat b mod 8"
    using unat_fields [OF s, of i b] by (simp only: unat_push_bit_6_and_3)
  have sib: "take_sib rx ?md (((push_bit 6 (sc AND 3) OR push_bit 3 (i AND 7)) OR (b AND 7)) #
        disp_bytes ?md d @ l) =
      Some (A_Mem (Some (unat b mod 8 + 8 * of_bool (r_b rx)))
             (let ix = unat i mod 8 + 8 * of_bool (r_x rx)
              in if ix = 4 then None else Some (ix, 2 ^ (unat sc mod 4))) d, l)"
  proof -
    have nb: "(unat b mod 8 = 5 \<and> ?md = 0) = False" using disp_mode_0 [of b d] by auto
    show ?thesis
      by (simp only: take_sib_def list.case Let_def g fields_nat mod_less_divisor zero_less_numeral nb
          take_disp_bytes option.case prod.case if_False)
  qed
  have "take_modrm rx (sib_disp_bytes r b i sc d @ l) =
      map_option (\<lambda>(a, r'). (unat r mod 8 + 8 * of_bool (r_r rx), a, r'))
        (take_sib rx ?md (((push_bit 6 (sc AND 3) OR push_bit 3 (i AND 7)) OR (b AND 7)) #
          disp_bytes ?md d @ l))"
    using md by (simp only: sib_disp_bytes_eq Let_def append_Cons append_Nil take_modrm_def
        list.case f fields_nat mod_less_divisor zero_less_numeral) simp
  then show ?thesis by (simp only: sib) simp
qed

lemma digit_sib_disp [enc_simps]: "digit (sib_disp_bytes r b i sc d @ l) = unat r mod 8"
proof -
  let ?md = "disp_mode b d"
  have m: "unat (of_nat (64 * ?md) :: u8) mod 64 = 0" by (simp only: unat_mode) simp
  show ?thesis
    by (simp only: sib_disp_bytes_eq append_Cons append_Nil digit_def list.case unat_field_4 [OF m]
        unat_mode fields_nat mod_less_divisor zero_less_numeral fields_nat(2) [of _ 4, simplified])
qed

section \<open>Decoding by instruction format\<close>

named_theorems fmt_simps \<open>decoder evaluation, one rule per format and opcode row\<close>

lemma decode_from_prefix [fmt_simps]:
  "decode_from p (0xF0 # l) = decode_from (p\<lparr>p_lock := True\<rparr>) l"
  "decode_from p (0xF3 # l) = decode_from (p\<lparr>p_rep := True\<rparr>) l"
  "decode_from p (0xF2 # l) = decode_from (p\<lparr>p_repne := True\<rparr>) l"
  "decode_from p (0x66 # l) = decode_from (p\<lparr>p_opsz := True\<rparr>) l"
  "decode_from p (0x64 # l) = decode_from (p\<lparr>p_seg := Some 0x64\<rparr>) l"
  "decode_from p (0x65 # l) = decode_from (p\<lparr>p_seg := Some 0x65\<rparr>) l"
  by (simp_all add: decode_from_def)

lemma decode_from_rex [fmt_simps]:
  "op \<noteq> 0x38 \<Longrightarrow> decode_from p (rex w r x b # 0x0F # op # l) =
     finish p \<lparr>r_present = True, r_w = w, r_r = r, r_x = x, r_b = b\<rparr> (sdm0F (p_rep p) op (digit l)) op l"
  "decode_from p (rex w r x b # 0x0F # 0x38 # op3 # l) =
     finish p \<lparr>r_present = True, r_w = w, r_r = r, r_x = x, r_b = b\<rparr> (sdm0F38 (p_repne p) op3) op3 l"
  "op \<noteq> 0x0F \<Longrightarrow> decode_from p (rex w r x b # op # l) =
     finish p \<lparr>r_present = True, r_w = w, r_r = r, r_x = x, r_b = b\<rparr> (sdm1 op (digit l)) op l"
  by (simp_all only: decode_from_def Let_def legacy_rex take_rex_rex prod.case list.case simp_thms
      if_True if_False)

lemma decode_from_0F [fmt_simps]:
  "op \<noteq> 0x38 \<Longrightarrow> decode_from p (0x0F # op # l) = finish p no_rex (sdm0F (p_rep p) op (digit l)) op l"
  by (simp add: decode_from_def)

text \<open>An opcode byte that is neither a legacy prefix nor a REX prefix nor the escape.\<close>

definition plain_opcode :: "u8 \<Rightarrow> bool" where
  "plain_opcode op \<longleftrightarrow> op \<notin> {0xF0, 0xF2, 0xF3, 0x66, 0x64, 0x65, 0x0F} \<and> op AND 0xF0 \<noteq> 0x40"

lemma decode_from_plain [fmt_simps]:
  assumes "plain_opcode op"
  shows "decode_from p (op # l) = finish p no_rex (sdm1 op (digit l)) op l"
  using assms by (simp add: decode_from_def plain_opcode_def)

text \<open>The operand part, one rule per operand encoding.\<close>

lemma finish_modrm [fmt_simps]:
  assumes "take_modrm rx l = Some (n, a, r)"
  shows "finish p rx (Some (opr, E_MR, sz)) op l =
      Some (Insn (p_lock p) (p_seg p) opr (width_of p rx sz)
        [rm_arg rx (width_of p rx sz) a, reg_arg rx (width_of p rx sz) n], r)"
    and "finish p rx (Some (opr, E_RM, sz)) op l =
      Some (Insn (p_lock p) (p_seg p) opr (width_of p rx sz)
        [reg_arg rx (width_of p rx sz) n, rm_arg rx (width_of p rx sz) a], r)"
    and "finish p rx (Some (opr, E_M, sz)) op l =
      Some (Insn (p_lock p) (p_seg p) opr (width_of p rx sz) [rm_arg rx (width_of p rx sz) a], r)"
    and "finish p rx (Some (opr, E_MC, sz)) op l =
      Some (Insn (p_lock p) (p_seg p) opr (width_of p rx sz)
        [rm_arg rx (width_of p rx sz) a, A_Cl], r)"
    and "finish p rx (Some (opr, E_M1, sz)) op l =
      Some (Insn (p_lock p) (p_seg p) opr (width_of p rx sz)
        [rm_arg rx (width_of p rx sz) a, A_Imm 1], r)"
    and "finish p rx (Some (opr, E_RMb, sz)) op l =
      Some (Insn (p_lock p) (p_seg p) opr (width_of p rx sz)
        [reg_arg rx (width_of p rx sz) n, rm_arg rx W8 a], r)"
    and "finish p rx (Some (opr, E_SegRM, sz)) op l =
      Some (Insn (p_lock p) (p_seg p) opr (width_of p rx sz)
        [A_Seg n, rm_arg rx (width_of p rx sz) a], r)"
  using assms by (simp_all add: finish_def take_args_def Let_def)

lemma finish_modrm_imm [fmt_simps]:
  assumes "take_modrm rx l = Some (n, a, r)"
  shows "finish p rx (Some (opr, E_MI8, sz)) op l =
      map_option (\<lambda>(i, r'). (Insn (p_lock p) (p_seg p) opr (width_of p rx sz)
        [rm_arg rx (width_of p rx sz) a, A_Imm i], r')) (take_imm8 r)"
    and "finish p rx (Some (opr, E_MI8u, sz)) op l =
      map_option (\<lambda>(i, r'). (Insn (p_lock p) (p_seg p) opr (width_of p rx sz)
        [rm_arg rx (width_of p rx sz) a, A_Imm i], r')) (take_imm8u r)"
    and "finish p rx (Some (opr, E_MIz, sz)) op l =
      map_option (\<lambda>(i, r'). (Insn (p_lock p) (p_seg p) opr (width_of p rx sz)
        [rm_arg rx (width_of p rx sz) a, A_Imm i], r')) (take_immz (width_of p rx sz) r)"
    and "finish p rx (Some (opr, E_RMI8, sz)) op l =
      map_option (\<lambda>(i, r'). (Insn (p_lock p) (p_seg p) opr (width_of p rx sz)
        [reg_arg rx (width_of p rx sz) n, rm_arg rx (width_of p rx sz) a, A_Imm i], r')) (take_imm8 r)"
    and "finish p rx (Some (opr, E_RMIz, sz)) op l =
      map_option (\<lambda>(i, r'). (Insn (p_lock p) (p_seg p) opr (width_of p rx sz)
        [reg_arg rx (width_of p rx sz) n, rm_arg rx (width_of p rx sz) a, A_Imm i], r'))
        (take_immz (width_of p rx sz) r)"
  using assms
  by (simp_all add: finish_def take_args_def Let_def imm_after_def option.map_comp comp_def case_prod_unfold)

lemma finish_noregs [fmt_simps]:
  "finish p rx (Some (opr, E_Opc, sz)) op l =
     Some (Insn (p_lock p) (p_seg p) opr (width_of p rx sz)
       [reg_arg rx (width_of p rx sz) (unat op mod 8 + 8 * of_bool (r_b rx))], l)"
  "finish p rx (Some (opr, E_OI, sz)) op l =
     map_option (\<lambda>(i, r'). (Insn (p_lock p) (p_seg p) opr (width_of p rx sz)
       [reg_arg rx (width_of p rx sz) (unat op mod 8 + 8 * of_bool (r_b rx)), A_Imm i], r'))
       (take_immo (width_of p rx sz) l)"
  "finish p rx (Some (opr, E_I8, sz)) op l =
     map_option (\<lambda>(i, r'). (Insn (p_lock p) (p_seg p) opr (width_of p rx sz) [A_Imm i], r')) (take_imm8 l)"
  "finish p rx (Some (opr, E_Iz, sz)) op l =
     map_option (\<lambda>(i, r'). (Insn (p_lock p) (p_seg p) opr (width_of p rx sz) [A_Imm i], r'))
       (take_immz (width_of p rx sz) l)"
  "finish p rx (Some (opr, E_AI8, sz)) op l =
     map_option (\<lambda>(i, r'). (Insn (p_lock p) (p_seg p) opr (width_of p rx sz)
       [reg_arg rx (width_of p rx sz) 0, A_Imm i], r')) (take_imm8 l)"
  "finish p rx (Some (opr, E_AIz, sz)) op l =
     map_option (\<lambda>(i, r'). (Insn (p_lock p) (p_seg p) opr (width_of p rx sz)
       [reg_arg rx (width_of p rx sz) 0, A_Imm i], r')) (take_immz (width_of p rx sz) l)"
  "finish p rx (Some (opr, E_Rel8, sz)) op l =
     map_option (\<lambda>(i, r'). (Insn (p_lock p) (p_seg p) opr (width_of p rx sz) [A_Rel i], r')) (take_imm8 l)"
  "finish p rx (Some (opr, E_Rel32, sz)) op l =
     map_option (\<lambda>(i, r'). (Insn (p_lock p) (p_seg p) opr (width_of p rx sz) [A_Rel i], r'))
       (take_immz W64 l)"
  "finish p rx (Some (opr, E_ZO, sz)) op l =
     Some (Insn (p_lock p) (p_seg p) opr (width_of p rx sz) [], l)"
  by (simp_all add: finish_def take_args_def Let_def imm_after_def option.map_comp comp_def case_prod_unfold)

text \<open>Immediates the encoder appended.\<close>

lemma take_imm_bytes [fmt_simps]:
  "take_imm8 (b # l) = Some (sint b, l)"
  "take_imm8u (b # l) = Some (uint b, l)"
  "take_immz W64 (le_bytes32 i @ l) = Some (sint i, l)"
  "take_immz W32 (le_bytes32 i @ l) = Some (sint i, l)"
  "take_immz W16 (le_bytes16 h @ l) = Some (sint h, l)"
  "take_immo W64 (le_bytes64 q @ l) = Some (uint q, l)"
  "take_immo W32 (le_bytes32 i @ l) = Some (uint i, l)"
  "take_immo W16 (le_bytes16 h @ l) = Some (uint h, l)"
  "take_immo W8 (b # l) = Some (uint b, l)"
  by (simp_all add: take_imm8_def take_imm8u_def take_immz_def take_immo_def byte_simps)

lemma arg_simps [fmt_simps]:
  "reg_arg rx W64 n = A_Reg n" "reg_arg rx W32 n = A_Reg n" "reg_arg rx W16 n = A_Reg n"
  "rm_arg rx W64 (A_Reg n) = A_Reg n" "rm_arg rx W32 (A_Reg n) = A_Reg n"
  "rm_arg rx W16 (A_Reg n) = A_Reg n"
  "rm_arg rx w (A_Mem b i d) = A_Mem b i d" "rm_arg rx w (A_Rip d) = A_Rip d"
  "width_of p rx Sz8 = W8" "width_of p rx Sz64 = W64"
  "width_of p rx Sz16 = W16"
  "r_w rx \<Longrightarrow> width_of p rx SzOp = W64"
  "\<not> r_w rx \<Longrightarrow> \<not> p_opsz p \<Longrightarrow> width_of p rx SzOp = W32"
  "\<not> r_w rx \<Longrightarrow> p_opsz p \<Longrightarrow> width_of p rx SzOp = W16"
  "rm_arg rx W8 (A_Reg n) = reg_arg rx W8 n"
  "r_present rx \<Longrightarrow> reg_arg rx W8 n = A_Low8 n"
  "n < 4 \<Longrightarrow> reg_arg rx W8 n = A_Low8 n"
  "\<not> r_present rx \<Longrightarrow> 4 \<le> n \<Longrightarrow> reg_arg rx W8 n = A_High8 (n - 4)"
  by (simp_all add: reg_arg_def rm_arg_def width_of_def)

text \<open>The rows of the opcode map that the encoder uses.\<close>

lemma sdm1_rows [fmt_simps]:
  "sdm1 0x01 d = Some (Inl I_ADD, E_MR, SzOp)"
  "sdm1 0x03 d = Some (Inl I_ADD, E_RM, SzOp)"
  "sdm1 0x81 0 = Some (Inl I_ADD, E_MIz, SzOp)"
  "sdm1 0x83 0 = Some (Inl I_ADD, E_MI8, SzOp)"
  "sdm1 0x09 d = Some (Inl I_OR, E_MR, SzOp)"
  "sdm1 0x0B d = Some (Inl I_OR, E_RM, SzOp)"
  "sdm1 0x81 (Suc 0) = Some (Inl I_OR, E_MIz, SzOp)"
  "sdm1 0x83 (Suc 0) = Some (Inl I_OR, E_MI8, SzOp)"
  "sdm1 0x11 d = Some (Inl I_ADC, E_MR, SzOp)"
  "sdm1 0x13 d = Some (Inl I_ADC, E_RM, SzOp)"
  "sdm1 0x81 2 = Some (Inl I_ADC, E_MIz, SzOp)"
  "sdm1 0x83 2 = Some (Inl I_ADC, E_MI8, SzOp)"
  "sdm1 0x19 d = Some (Inl I_SBB, E_MR, SzOp)"
  "sdm1 0x1B d = Some (Inl I_SBB, E_RM, SzOp)"
  "sdm1 0x81 3 = Some (Inl I_SBB, E_MIz, SzOp)"
  "sdm1 0x83 3 = Some (Inl I_SBB, E_MI8, SzOp)"
  "sdm1 0x21 d = Some (Inl I_AND, E_MR, SzOp)"
  "sdm1 0x23 d = Some (Inl I_AND, E_RM, SzOp)"
  "sdm1 0x81 4 = Some (Inl I_AND, E_MIz, SzOp)"
  "sdm1 0x83 4 = Some (Inl I_AND, E_MI8, SzOp)"
  "sdm1 0x29 d = Some (Inl I_SUB, E_MR, SzOp)"
  "sdm1 0x2B d = Some (Inl I_SUB, E_RM, SzOp)"
  "sdm1 0x81 5 = Some (Inl I_SUB, E_MIz, SzOp)"
  "sdm1 0x83 5 = Some (Inl I_SUB, E_MI8, SzOp)"
  "sdm1 0x31 d = Some (Inl I_XOR, E_MR, SzOp)"
  "sdm1 0x33 d = Some (Inl I_XOR, E_RM, SzOp)"
  "sdm1 0x81 6 = Some (Inl I_XOR, E_MIz, SzOp)"
  "sdm1 0x83 6 = Some (Inl I_XOR, E_MI8, SzOp)"
  "sdm1 0x39 d = Some (Inl I_CMP, E_MR, SzOp)"
  "sdm1 0x3B d = Some (Inl I_CMP, E_RM, SzOp)"
  "sdm1 0x81 7 = Some (Inl I_CMP, E_MIz, SzOp)"
  "sdm1 0x83 7 = Some (Inl I_CMP, E_MI8, SzOp)"
  "sdm1 0x63 d = Some (Inr I_MOVSXD, E_RM, SzOp)"
  "sdm1 0xD1 0 = Some (Inl I_ROL, E_M1, SzOp)"
  "sdm1 0xD1 (Suc 0) = Some (Inl I_ROR, E_M1, SzOp)"
  "sdm1 0x68 d = Some (Inr I_PUSH, E_Iz, Sz64)"
  "sdm1 0x69 d = Some (Inl I_IMUL, E_RMIz, SzOp)"
  "sdm1 0x6A d = Some (Inr I_PUSH, E_I8, Sz64)"
  "sdm1 0x6B d = Some (Inl I_IMUL, E_RMI8, SzOp)"
  "sdm1 0x85 d = Some (Inl I_TEST, E_MR, SzOp)"
  "sdm1 0x87 d = Some (Inl I_XCHG, E_MR, SzOp)"
  "sdm1 0x88 d = Some (Inl I_MOV, E_MR, Sz8)"
  "sdm1 0x89 d = Some (Inl I_MOV, E_MR, SzOp)"
  "sdm1 0x8A d = Some (Inl I_MOV, E_RM, Sz8)"
  "sdm1 0x8B d = Some (Inl I_MOV, E_RM, SzOp)"
  "sdm1 0x8D d = Some (Inl I_LEA, E_RM, SzOp)"
  "sdm1 0x8E d = Some (Inl I_MOV, E_SegRM, SzOp)"
  "sdm1 0x9C d = Some (Inr I_PUSHF, E_ZO, Sz64)"
  "sdm1 0x9D d = Some (Inr I_POPF, E_ZO, Sz64)"
  "sdm1 0xA9 d = Some (Inl I_TEST, E_AIz, SzOp)"
  "sdm1 0x38 d = Some (Inl I_CMP, E_MR, Sz8)"
  "sdm1 0x3C d = Some (Inl I_CMP, E_AI8, Sz8)"
  "sdm1 0x3D d = Some (Inl I_CMP, E_AIz, SzOp)"
  "sdm1 0x80 7 = Some (Inl I_CMP, E_MI8, Sz8)"
  "sdm1 0xC3 d = Some (Inr I_RET, E_ZO, Sz64)"
  "sdm1 0xCC d = Some (Inr I_INT3, E_ZO, Sz64)"
  "sdm1 0xE8 d = Some (Inr I_CALL, E_Rel32, Sz64)"
  "sdm1 0xE9 d = Some (Inr I_JMP, E_Rel32, Sz64)"
  "sdm1 0xEB d = Some (Inr I_JMP, E_Rel8, Sz64)"
  "sdm1 0xC6 0 = Some (Inl I_MOV, E_MI8, Sz8)"
  "sdm1 0xC7 0 = Some (Inl I_MOV, E_MIz, SzOp)"
  "sdm1 0xC1 0 = Some (Inl I_ROL, E_MI8u, SzOp)"
  "sdm1 0xC1 (Suc 0) = Some (Inl I_ROR, E_MI8u, SzOp)"
  "sdm1 0xC1 4 = Some (Inl I_SHL, E_MI8u, SzOp)"
  "sdm1 0xC1 5 = Some (Inl I_SHR, E_MI8u, SzOp)"
  "sdm1 0xC1 7 = Some (Inl I_SAR, E_MI8u, SzOp)"
  "sdm1 0xD3 0 = Some (Inl I_ROL, E_MC, SzOp)"
  "sdm1 0xD3 (Suc 0) = Some (Inl I_ROR, E_MC, SzOp)"
  "sdm1 0xD3 4 = Some (Inl I_SHL, E_MC, SzOp)"
  "sdm1 0xD3 5 = Some (Inl I_SHR, E_MC, SzOp)"
  "sdm1 0xD3 7 = Some (Inl I_SAR, E_MC, SzOp)"
  "sdm1 0xF7 0 = Some (Inl I_TEST, E_MIz, SzOp)"
  "sdm1 0xF7 2 = Some (Inl I_NOT, E_M, SzOp)"
  "sdm1 0xF7 3 = Some (Inl I_NEG, E_M, SzOp)"
  "sdm1 0xF7 4 = Some (Inl I_MUL, E_M, SzOp)"
  "sdm1 0xF7 6 = Some (Inl I_DIV, E_M, SzOp)"
  "sdm1 0xF7 7 = Some (Inl I_IDIV, E_M, SzOp)"
  "sdm1 0xFF 0 = Some (Inl I_INC, E_M, SzOp)"
  "sdm1 0xFF (Suc 0) = Some (Inl I_DEC, E_M, SzOp)"
  "sdm1 0xFF 2 = Some (Inr I_CALL, E_M, Sz64)"
  "sdm1 0xFF 4 = Some (Inr I_JMP, E_M, Sz64)"
  by (simp_all add: sdm1_def alu_op_def)

lemma sdm0F_rows [fmt_simps]:
  "sdm0F f 0xA3 d = Some (Inr I_BT, E_MR, SzOp)"
  "sdm0F f 0xAB d = Some (Inr I_BTS, E_MR, SzOp)"
  "sdm0F f 0xAF d = Some (Inl I_IMUL, E_RM, SzOp)"
  "sdm0F f 0xB1 d = Some (Inr I_CMPXCHG, E_MR, SzOp)"
  "sdm0F f 0xB3 d = Some (Inr I_BTR, E_MR, SzOp)"
  "sdm0F f 0xBB d = Some (Inr I_BTC, E_MR, SzOp)"
  "sdm0F f 0xC1 d = Some (Inr I_XADD, E_MR, SzOp)"
  "sdm0F f 0xBA 4 = Some (Inr I_BT, E_MI8u, SzOp)"
  "sdm0F f 0xBA 5 = Some (Inr I_BTS, E_MI8u, SzOp)"
  "sdm0F f 0xBA 6 = Some (Inr I_BTR, E_MI8u, SzOp)"
  "sdm0F f 0xBA 7 = Some (Inr I_BTC, E_MI8u, SzOp)"
  "sdm0F True 0xB8 d = Some (Inr I_POPCNT, E_RM, SzOp)"
  "sdm0F True 0xBC d = Some (Inr I_TZCNT, E_RM, SzOp)"
  "sdm0F False 0xBC d = Some (Inr I_BSF, E_RM, SzOp)"
  "sdm0F False 0xBD d = Some (Inr I_BSR, E_RM, SzOp)"
  "sdm0F f 0x00 3 = Some (Inr I_LTR, E_M, Sz16)"
  "sdm0F f 0xB6 d = Some (Inr I_MOVZX8, E_RMb, SzOp)"
  "sdm0F f 0xB7 d = Some (Inr I_MOVZX16, E_RM, SzOp)"
  "sdm0F f 0xBE d = Some (Inr I_MOVSX8, E_RMb, SzOp)"
  "sdm0F f 0xBF d = Some (Inr I_MOVSX16, E_RM, SzOp)"
  "sdm0F f 0xC3 d = Some (Inr I_MOVNTI, E_MR, SzOp)"
  "sdm0F f 0xC7 (Suc 0) = Some (Inr I_CMPXCHG8B, E_M, SzOp)"
  "sdm0F38 True 0xF1 = Some (Inr I_CRC32, E_RM, SzOp)"
  by (simp_all add: sdm0F_def sdm0F38_def)

lemma plain_opcodes [fmt_simps]:
  "plain_opcode 0x03" "plain_opcode 0x13" "plain_opcode 0x1B" "plain_opcode 0x68" "plain_opcode 0x6A"
  "plain_opcode 0x81" "plain_opcode 0x83" "plain_opcode 0x87" "plain_opcode 0x88" "plain_opcode 0x89"
  "plain_opcode 0x8A" "plain_opcode 0x8B" "plain_opcode 0x8E" "plain_opcode 0x9C" "plain_opcode 0x9D"
  "plain_opcode 0xC1" "plain_opcode 0xC3" "plain_opcode 0xC6" "plain_opcode 0xC7" "plain_opcode 0xCC"
  "plain_opcode 0x38" "plain_opcode 0x39" "plain_opcode 0x3C" "plain_opcode 0x3D" "plain_opcode 0x80"
  "plain_opcode 0xD1" "plain_opcode 0x05" "plain_opcode 0x8D" "plain_opcode 0xD3" "plain_opcode 0xE8" "plain_opcode 0xE9" "plain_opcode 0xEB" "plain_opcode 0xFF"
  "plain_opcode 0x01" "plain_opcode 0x29" "plain_opcode 0x09" "plain_opcode 0x21" "plain_opcode 0x31"
  by (simp_all add: plain_opcode_def)

text \<open>Opcodes that carry a register number or a condition code in their low bits.\<close>

lemma and_7_cases:
  obtains "(r :: u8) AND 7 = 0" | "r AND 7 = 1" | "r AND 7 = 2" | "r AND 7 = 3"
    | "r AND 7 = 4" | "r AND 7 = 5" | "r AND 7 = 6" | "r AND 7 = 7"
proof -
  have "n \<in> {0, 1, 2, 3, 4, 5, 6, 7}" if "n < 8" for n :: nat
    using that by auto
  then have "unat r mod 8 \<in> {0, 1, 2, 3, 4, 5, 6, 7}"
    by (metis mod_less_divisor zero_less_numeral)
  then have "r AND 7 \<in> {0, 1, 2, 3, 4, 5, 6, 7}"
    by (simp add: word_eq_iff_unsigned [where 'a = nat] unat_and_7)
  then show ?thesis using that by blast
qed

lemma opcode_reg_rows [fmt_simps]:
  fixes r :: u8
  shows "sdm1 (0xB8 + (r AND 7)) d = Some (Inl I_MOV, E_OI, SzOp)"
  "sdm1 (0xB0 + (r AND 7)) d = Some (Inl I_MOV, E_OI, Sz8)"
  "sdm0F f (0xC8 OR (r AND 7)) d = Some (Inr I_BSWAP, E_Opc, SzOp)"
  "plain_opcode (0xB8 + (r AND 7))" "plain_opcode (0xB0 + (r AND 7))"
  "0xC8 OR (r AND 7) \<noteq> 0x38" "0xB8 + (r AND 7) \<noteq> 0x0F" "0xB0 + (r AND 7) \<noteq> 0x0F"
  by (cases r rule: and_7_cases; simp add: sdm1_def sdm0F_def plain_opcode_def)+

lemma opcode_reg_field [fmt_simps]:
  fixes r :: u8
  shows "unat (0xB8 + (r AND 7)) mod 8 = unat r mod 8"
  "unat (0xB0 + (r AND 7)) mod 8 = unat r mod 8"
  "unat (0xC8 OR (r AND 7)) mod 8 = unat r mod 8"
  by (cases r rule: and_7_cases; simp add: unat_and_7 [symmetric])+

lemma opcode_push_rows [fmt_simps]:
  "sdm1 0x50 d = Some (Inr I_PUSH, E_Opc, Sz64)" "sdm1 0x51 d = Some (Inr I_PUSH, E_Opc, Sz64)"
  "sdm1 0x52 d = Some (Inr I_PUSH, E_Opc, Sz64)" "sdm1 0x53 d = Some (Inr I_PUSH, E_Opc, Sz64)"
  "sdm1 0x54 d = Some (Inr I_PUSH, E_Opc, Sz64)" "sdm1 0x55 d = Some (Inr I_PUSH, E_Opc, Sz64)"
  "sdm1 0x56 d = Some (Inr I_PUSH, E_Opc, Sz64)" "sdm1 0x57 d = Some (Inr I_PUSH, E_Opc, Sz64)"
  "sdm1 0x58 d = Some (Inr I_POP, E_Opc, Sz64)" "sdm1 0x59 d = Some (Inr I_POP, E_Opc, Sz64)"
  "sdm1 0x5A d = Some (Inr I_POP, E_Opc, Sz64)" "sdm1 0x5B d = Some (Inr I_POP, E_Opc, Sz64)"
  "sdm1 0x5C d = Some (Inr I_POP, E_Opc, Sz64)" "sdm1 0x5D d = Some (Inr I_POP, E_Opc, Sz64)"
  "sdm1 0x5E d = Some (Inr I_POP, E_Opc, Sz64)" "sdm1 0x5F d = Some (Inr I_POP, E_Opc, Sz64)"
  "plain_opcode 0x50" "plain_opcode 0x51" "plain_opcode 0x52" "plain_opcode 0x53"
  "plain_opcode 0x54" "plain_opcode 0x55" "plain_opcode 0x56" "plain_opcode 0x57"
  "plain_opcode 0x58" "plain_opcode 0x59" "plain_opcode 0x5A" "plain_opcode 0x5B"
  "plain_opcode 0x5C" "plain_opcode 0x5D" "plain_opcode 0x5E" "plain_opcode 0x5F"
  by (simp_all add: sdm1_def plain_opcode_def)

text \<open>The SDM condition number (the low four bits of the Jcc and SETcc opcodes) of a condition.\<close>

abbreviation cond_no :: "cond \<Rightarrow> nat" where
  "cond_no c \<equiv> unat (cond_byte c) mod 16"

lemma opcode_cond_rows [fmt_simps]:
  "sdm0F f (cond_byte c) d = Some (Inr (I_JCC (cond_no c)), E_Rel32, Sz64)"
  "sdm0F f (0x90 OR (cond_byte c AND 0x0F)) d = Some (Inr (I_SETCC (cond_no c)), E_M, Sz8)"
  "sdm1 (cond_byte c - 0x10) d = Some (Inr (I_JCC (cond_no c)), E_Rel8, Sz64)"
  "plain_opcode (cond_byte c - 0x10)" "cond_byte c \<noteq> 0x38" "0x90 OR (cond_byte c AND 0x0F) \<noteq> 0x38"
  by (cases c; simp add: sdm0F_def sdm1_def plain_opcode_def)+

lemma decode_from_rex_literal [fmt_simps]:
  "decode_from p (0x40 # l) = decode_from p (rex False False False False # l)"
  "decode_from p (0x41 # l) = decode_from p (rex False False False True # l)"
  "decode_from p (0x42 # l) = decode_from p (rex False False True False # l)"
  "decode_from p (0x43 # l) = decode_from p (rex False False True True # l)"
  "decode_from p (0x44 # l) = decode_from p (rex False True False False # l)"
  "decode_from p (0x45 # l) = decode_from p (rex False True False True # l)"
  "decode_from p (0x46 # l) = decode_from p (rex False True True False # l)"
  "decode_from p (0x47 # l) = decode_from p (rex False True True True # l)"
  "decode_from p (0x48 # l) = decode_from p (rex True False False False # l)"
  "decode_from p (0x49 # l) = decode_from p (rex True False False True # l)"
  "decode_from p (0x4A # l) = decode_from p (rex True False True False # l)"
  "decode_from p (0x4B # l) = decode_from p (rex True False True True # l)"
  "decode_from p (0x4C # l) = decode_from p (rex True True False False # l)"
  "decode_from p (0x4D # l) = decode_from p (rex True True False True # l)"
  "decode_from p (0x4E # l) = decode_from p (rex True True True False # l)"
  "decode_from p (0x4F # l) = decode_from p (rex True True True True # l)"
  by (simp_all add: rex_def)

section \<open>What an encoder appends\<close>

text \<open>
  \<open>code bs is\<close>: the bytes \<open>bs\<close>, whatever follows them, decode to the instructions \<open>is\<close>.
  \<open>emits buf buf' is\<close>: \<open>buf'\<close> is \<open>buf\<close> with such bytes appended.
\<close>

fun code :: "u8 list \<Rightarrow> insn list \<Rightarrow> bool" where
  "code bs [] \<longleftrightarrow> bs = []"
| "code bs (x # xs) \<longleftrightarrow>
     (\<exists>b1 b2. bs = b1 @ b2 \<and> (\<forall>l. decode (b1 @ l) = Some (x, l)) \<and> code b2 xs)"

definition emits :: "code_buffer \<Rightarrow> code_buffer \<Rightarrow> insn list \<Rightarrow> bool" where
  "emits buf buf' is \<longleftrightarrow> (\<exists>bs. bytes buf' = bytes buf @ bs \<and> code bs is)"

named_theorems emits_rules \<open>what each encoder primitive appends\<close>

lemma code_append: "code b1 xs \<Longrightarrow> code b2 ys \<Longrightarrow> code (b1 @ b2) (xs @ ys)"
proof (induction xs arbitrary: b1)
  case (Cons x xs)
  then obtain c1 c2 where c: "b1 = c1 @ c2" "\<forall>l. decode (c1 @ l) = Some (x, l)" "code c2 xs"
    by auto
  then have "code (c2 @ b2) (xs @ ys)" using Cons by blast
  then show ?case using c by (auto simp: append_assoc)
qed simp

lemma code_decodes: "code bs xs \<Longrightarrow> decodes bs xs"
  by (induction xs arbitrary: bs) auto

lemma emits_Cons: "emits a b [x] \<Longrightarrow> emits b c ys \<Longrightarrow> emits a c (x # ys)"
  unfolding emits_def by (metis append_Cons append_Nil append_assoc code_append)

lemma emits_trans: "emits a b xs \<Longrightarrow> emits b c ys \<Longrightarrow> emits a c (xs @ ys)"
  by (auto simp: emits_def intro: code_append)

lemma emits_refl: "emits buf buf []"
  by (simp add: emits_def)

lemma emits_two: "emits a b [x] \<Longrightarrow> emits b c [y] \<Longrightarrow> emits a c [x, y]"
  using emits_trans [of a b "[x]" c "[y]"] by simp

lemma emits_decodes:
  "emits buf buf' is \<Longrightarrow> \<exists>bs. bytes buf' = bytes buf @ bs \<and> decodes bs is"
  by (auto simp: emits_def intro: code_decodes)

text \<open>An encoder's output does not depend on what the buffer holds.\<close>

lemma emits_fresh:
  assumes "bytes (f buf) = bytes buf @ bytes (f new_buffer)"
    and "\<And>l. decode (bytes (f new_buffer) @ l) = Some (i, l)"
  shows "emits buf (f buf) [i]"
proof -
  have "code (bytes (f new_buffer)) [i]" using assms(2) by auto
  then show ?thesis using assms(1) by (auto simp: emits_def)
qed

abbreviation alu64 :: "opn \<Rightarrow> arg list \<Rightarrow> insn" where
  "alu64 op as \<equiv> Insn False None (Inl op) W64 as"

abbreviation alu32 :: "opn \<Rightarrow> arg list \<Rightarrow> insn" where
  "alu32 op as \<equiv> Insn False None (Inl op) W32 as"

abbreviation ctl64 :: "opn2 \<Rightarrow> arg list \<Rightarrow> insn" where
  "ctl64 op as \<equiv> Insn False None (Inr op) W64 as"

abbreviation ctl32 :: "opn2 \<Rightarrow> arg list \<Rightarrow> insn" where
  "ctl32 op as \<equiv> Insn False None (Inr op) W32 as"

abbreviation base_disp :: "reg64 \<Rightarrow> i32 \<Rightarrow> arg" where
  "base_disp b d \<equiv> A_Mem (Some (reg_no b)) None d"

text \<open>The operand that base, index and scale bits select; RSP cannot be an index.\<close>

definition sib_disp :: "reg64 \<Rightarrow> reg64 \<Rightarrow> u8 \<Rightarrow> i32 \<Rightarrow> arg" where
  "sib_disp b x sc d =
     A_Mem (Some (reg_no b)) (if x = Rsp then None else Some (reg_no x, 2 ^ (unat sc mod 4))) d"

text \<open>The byte register that a number selects when REX is emitted for 8 to 15 only.\<close>

definition byte_reg :: "reg64 \<Rightarrow> arg" where
  "byte_reg r =
     (if 4 \<le> reg_no r \<and> reg_no r < 8 then A_High8 (reg_no r - 4) else A_Low8 (reg_no r))"

declare wrap_reg_def [enc_simps] sib_disp_def [enc_simps] byte_reg_def [enc_simps]

lemmas enc_eval = Let_def decode_def fmt_simps enc_simps no_prefix_def no_rex_def

end
