(* ===== verification/Encode_Spec.thy ===== *)
theory Encode_Spec
  imports Encode_Types Encoder_Bytes
begin

text \<open>
  What an instruction of the IR means as machine code, and the contract between the mnemonic
  encoders and their clients.  \<open>operand_arg\<close> reads an IR operand as the machine operand of the
  reference decoder; fields that a relocation or a label fixup patches later are zero.  The locale
  \<open>encoder\<close> is the contract every per-mnemonic encoder is shown to satisfy.
\<close>

fun operand_arg :: "operand \<Rightarrow> arg option" where
  "operand_arg (Reg r) = Some (A_Reg (unat r))"
| "operand_arg (SegReg s) = Some (A_Seg (unat (seg_reg_id s)))"
| "operand_arg (Imm64 i) = Some (A_Imm (sint i))"
| "operand_arg (MemSib b None sc d) = Some (A_Mem (Some (unat b)) None d)"
| "operand_arg (MemSib b (Some i) sc d) =
     Some (A_Mem (Some (unat b)) (Some (unat i, unat (scale_factor sc))) d)"
| "operand_arg (MemDisp d) = Some (A_Mem None None d)"
| "operand_arg (MemRipRel d) = Some (A_Rip d)"
| "operand_arg (MemRipRelSym s a) = Some (A_Rip 0)"
| "operand_arg (MemSeg p opd) = operand_arg opd"
| "operand_arg (SymbolRef s a) = Some (A_Rel 0)"
| "operand_arg (LabelRef s a) = Some (A_Rel 0)"
| "operand_arg (Var v) = None"
| "operand_arg (MemSymIndexed s a i sc) = Some (A_Mem None (Some (unat i, unat (scale_factor sc))) 0)"
| "operand_arg (MemDispIndexed d i sc) = Some (A_Mem None (Some (unat i, unat (scale_factor sc))) d)"

definition asm_args :: "operand list \<Rightarrow> arg list option" where
  "asm_args ops = those (map operand_arg ops)"

lemma asm_args_simps [simp]:
  "asm_args [] = Some []"
  "asm_args (opd # ops) =
     (case operand_arg opd of None \<Rightarrow> None | Some a \<Rightarrow> map_option ((#) a) (asm_args ops))"
  by (simp_all add: asm_args_def split: option.splits)

text \<open>One instruction with the IR's operands in their order.\<close>

definition asm_insn :: "opn + opn2 \<Rightarrow> int_width \<Rightarrow> operand list \<Rightarrow> insn list option" where
  "asm_insn op w ops = map_option (\<lambda>as. [Insn False None op w as]) (asm_args ops)"

definition lock_insn :: "opn + opn2 \<Rightarrow> int_width \<Rightarrow> operand list \<Rightarrow> insn list option" where
  "lock_insn op w ops = map_option (\<lambda>as. [Insn True None op w as]) (asm_args ops)"

definition fits_i32 :: "i64 \<Rightarrow> bool" where
  "fits_i32 imm \<longleftrightarrow> - 2147483648 \<le> sint imm \<and> sint imm \<le> 2147483647"

text \<open>
  A binary ALU instruction whose immediate may need all 64 bits: the architecture has no such form,
  so the immediate goes through the scratch register R11.
\<close>

definition alu_insns :: "opn \<Rightarrow> operand list \<Rightarrow> insn list option" where
  "alu_insns op ops =
     (case ops of
        [Reg d, Imm64 imm] \<Rightarrow>
          if fits_i32 imm then asm_insn (Inl op) W64 ops
          else Some [alu64 I_MOV [A_Reg 11, A_Imm (uint imm)], alu64 op [A_Reg (unat d), A_Reg 11]]
      | _ \<Rightarrow> asm_insn (Inl op) W64 ops)"

text \<open>RSP has no encoding as an index register.\<close>

fun rsp_index :: "operand \<Rightarrow> bool" where
  "rsp_index (MemSib b (Some i) sc d) \<longleftrightarrow> i = 4"
| "rsp_index (MemSeg p opd) \<longleftrightarrow> rsp_index opd"
| "rsp_index _ \<longleftrightarrow> False"

definition no_rsp_index :: "operand list \<Rightarrow> bool" where
  "no_rsp_index ops \<longleftrightarrow> \<not> list_ex rsp_index ops"

lemma no_rsp_index_simps [simp]:
  "no_rsp_index []" "no_rsp_index (opd # ops) \<longleftrightarrow> \<not> rsp_index opd \<and> no_rsp_index ops"
  by (simp_all add: no_rsp_index_def)

section \<open>Immediates\<close>

lemma sint_ucast_fits:
  fixes w :: "'a::len word"
  assumes len: "LENGTH('b::len) \<le> LENGTH('a)"
    and lo: "- (2 ^ (LENGTH('b) - 1)) \<le> sint w" and hi: "sint w < 2 ^ (LENGTH('b) - 1)"
  shows "sint (ucast w :: 'b word) = sint w"
proof -
  have "(ucast w :: 'b word) = scast w"
    using len by (metis down_cast_same is_down)
  then show ?thesis
    using lo hi by (simp add: signed_scast_eq signed_take_bit_int_eq_self)
qed

lemma sint_ucast_i32: "fits_i32 imm \<Longrightarrow> sint (ucast imm :: i32) = sint imm"
  unfolding fits_i32_def by (rule sint_ucast_fits) simp_all

lemma sint_ucast_i32': "\<not> sint imm < - 2147483648 \<Longrightarrow> \<not> 2147483647 < sint (imm :: i64) \<Longrightarrow>
    sint (ucast imm :: i32) = sint imm"
  by (rule sint_ucast_i32) (simp add: fits_i32_def)

lemma sint_ucast_i8:
  "- 128 \<le> sint (imm :: i64) \<Longrightarrow> sint imm \<le> 127 \<Longrightarrow> sint (ucast imm :: i8) = sint imm"
  "- 128 \<le> sint (imm32 :: i32) \<Longrightarrow> sint imm32 \<le> 127 \<Longrightarrow> sint (ucast imm32 :: i8) = sint imm32"
  by (rule sint_ucast_fits; simp)+

lemma fits_i32_i8: "- 128 \<le> sint imm \<Longrightarrow> sint imm \<le> 127 \<Longrightarrow> fits_i32 imm"
  by (simp add: fits_i32_def)

lemma sint_ucast_i16:
  "- 32768 \<le> sint (imm :: i64) \<Longrightarrow> sint imm \<le> 32767 \<Longrightarrow> sint (ucast imm :: u16) = sint imm"
  by (rule sint_ucast_fits) simp_all

text \<open>The round-trip test \<^verbatim>\<open>imm == (imm as i32 as i64)\<close> is the range test.\<close>

lemma round_trip_iff:
  fixes w :: "'a::len word"
  assumes "LENGTH('b::len) \<le> LENGTH('a)"
  shows "w = scast (ucast w :: 'b word) \<longleftrightarrow>
     - (2 ^ (LENGTH('b) - 1)) \<le> sint w \<and> sint w < 2 ^ (LENGTH('b) - 1)"
proof
  assume r: "w = scast (ucast w :: 'b word)"
  have "sint w = sint (ucast w :: 'b word)"
    using assms by (subst r) (simp add: sint_up_scast is_up)
  then show "- (2 ^ (LENGTH('b) - 1)) \<le> sint w \<and> sint w < 2 ^ (LENGTH('b) - 1)"
    using sint_greater_eq [of "ucast w :: 'b word"] sint_less [of "ucast w :: 'b word"] by simp
qed (use assms in \<open>metis scast_ucast_signed\<close>)

lemma round_trip_i8:
  "imm = (scast (ucast (imm :: i64) :: i8) :: i64) \<longleftrightarrow> - 128 \<le> sint imm \<and> sint imm \<le> 127"
  by (subst round_trip_iff) auto

lemma round_trip_i32: "imm = (scast (ucast (imm :: i64) :: i32) :: i64) \<longleftrightarrow> fits_i32 imm"
  unfolding fits_i32_def by (subst round_trip_iff) auto

lemma sint_ucast_i8_i32:
  assumes "sint (ucast imm :: i32) = sint (imm :: i64)"
    "- 128 \<le> sint imm" "sint imm \<le> 127"
  shows "sint (ucast (ucast imm :: i32) :: i8) = sint imm"
  using assms sint_ucast_i8(2) [of "ucast imm"] by simp

lemma sib_disp_arg:
  "i \<noteq> Rsp \<Longrightarrow> sib_disp b i (sib_scale_bits s) d =
     A_Mem (Some (reg_no b)) (Some (reg_no i, unat (scale_factor s))) d"
  by (simp add: sib_disp_def sib_scale_bits_factor)

lemma reg64_id_eq_4 [simp]: "reg64_id r = 4 \<longleftrightarrow> r = Rsp"
  by (cases r) simp_all

lemma emits_eqI: "emits a b xs \<Longrightarrow> xs = ys \<Longrightarrow> emits a b ys"
  by simp

section \<open>The contract of a mnemonic encoder\<close>

text \<open>
  \<open>enc\<close> is an encoder, \<open>spec\<close> the instructions that an operand list asks for, \<open>wf\<close> the operand lists
  for which the encoder is trusted to deliver them.  On success exactly one sequence of
  instructions has been appended, and for a well-formed operand list it is the one asked for; on
  failure the buffer is as before.
\<close>

locale encoder =
  fixes enc :: "instruction \<Rightarrow> code_buffer \<Rightarrow> enc_result"
    and spec :: "operand list \<Rightarrow> insn list option"
    and wf :: "operand list \<Rightarrow> bool"
  assumes sound: "enc inst buf = (Inr out, buf') \<Longrightarrow> wf (operands inst) \<Longrightarrow>
      \<exists>is. spec (operands inst) = Some is \<and> emits buf buf' is"
    and appends: "enc inst buf = (Inr out, buf') \<Longrightarrow> \<exists>is. emits buf buf' is"
    and clean: "enc inst buf = (Inl e, buf') \<Longrightarrow> buf' = buf"
begin

lemma decoded:
  assumes "enc inst buf = (Inr out, buf')" "wf (operands inst)"
  shows "\<exists>is bs. spec (operands inst) = Some is \<and> bytes buf' = bytes buf @ bs \<and> decodes bs is"
  using sound [OF assms] emits_decodes by blast

lemma append_only:
  assumes "enc inst buf = (r, buf')"
  shows "\<exists>bs. bytes buf' = bytes buf @ bs"
proof (cases r)
  case (Inl e)
  then have "buf' = buf" using clean assms by blast
  then show ?thesis by simp
next
  case (Inr out)
  then show ?thesis using appends assms emits_decodes by blast
qed

lemma unspecified:
  assumes "spec (operands inst) = None" "wf (operands inst)"
  shows "\<exists>e. enc inst buf = (Inl e, buf)"
proof (cases "enc inst buf")
  case (Pair r buf')
  then show ?thesis using assms sound clean by (cases r) fastforce+
qed

end

text \<open>
  The form in which the obligations are discharged: the instructions that were appended, and that
  they are the ones asked for when the operands are trusted.
\<close>

definition delivers :: "code_buffer \<Rightarrow> code_buffer \<Rightarrow> insn list option \<Rightarrow> bool \<Rightarrow> bool" where
  "delivers buf buf' asked trusted \<longleftrightarrow> (\<exists>is. emits buf buf' is \<and> (trusted \<longrightarrow> asked = Some is))"

lemma deliversI:
  "emits buf buf' is \<Longrightarrow> (trusted \<Longrightarrow> asked = Some is) \<Longrightarrow> delivers buf buf' asked trusted"
  by (auto simp: delivers_def)

lemma encoderI:
  assumes "\<And>inst buf out buf'. enc inst buf = (Inr out, buf') \<Longrightarrow>
      delivers buf buf' (spec (operands inst)) (trust (operands inst))"
    and "\<And>inst buf e buf'. enc inst buf = (Inl e, buf') \<Longrightarrow> buf' = buf"
  shows "encoder enc spec trust"
  using assms by unfold_locales (auto simp: delivers_def, blast+)

end
