(* ===== verification/Encode_Mov_Arith.thy ===== *)
theory Encode_Mov_Arith
  imports Encoder_Bytes
begin

text \<open>
  \<^verbatim>\<open>crates/paideia-as-encoder/src/encode/mov_arith.rs\<close>: MOV between registers and immediates,
  ADD/SUB/ADC/SBB in register and load direction.  \<open>mov_arith_emits\<close> says what each primitive
  appends: the one instruction that its name promises.
\<close>

definition mov_reg64_imm32 :: "code_buffer \<Rightarrow> reg64 \<Rightarrow> i32 \<Rightarrow> code_buffer" where
  "mov_reg64_imm32 buf dst imm =
   (let reg_id = reg64_id dst;
       rex_byte = rex True False False ((drop_bit 3 reg_id) \<noteq> 0);
       buf = push_byte buf rex_byte;
       buf = push_byte buf 0xC7;
       buf = push_byte buf (0xC0 OR (reg_id AND 7));
       buf = extend_buf buf (le_bytes32 imm)
   in buf)"

definition mov_reg64_imm64 :: "code_buffer \<Rightarrow> reg64 \<Rightarrow> u64 \<Rightarrow> code_buffer" where
  "mov_reg64_imm64 buf dst imm =
   (let reg_id = reg64_id dst;
       rex_byte = rex True False False ((drop_bit 3 reg_id) \<noteq> 0);
       buf = push_byte buf rex_byte;
       buf = push_byte buf (0xB8 + (reg_id AND 7));
       buf = extend_buf buf (le_bytes64 imm)
   in buf)"

definition mov_reg32_imm32 :: "code_buffer \<Rightarrow> reg64 \<Rightarrow> u32 \<Rightarrow> code_buffer" where
  "mov_reg32_imm32 buf dst imm =
   (let reg_id = reg64_id dst;
       buf = (if (drop_bit 3 reg_id) \<noteq> 0 then push_byte buf (rex False False False True)
        else buf);
       buf = push_byte buf (0xB8 + (reg_id AND 7));
       buf = extend_buf buf (le_bytes32 imm)
   in buf)"

definition mov_reg16_imm16 :: "code_buffer \<Rightarrow> reg64 \<Rightarrow> u16 \<Rightarrow> code_buffer" where
  "mov_reg16_imm16 buf dst imm =
   (let reg_id = reg64_id dst;
       buf = push_byte buf 0x66;
       buf = (if (drop_bit 3 reg_id) \<noteq> 0 then push_byte buf (rex False False False True)
        else buf);
       buf = push_byte buf (0xB8 + (reg_id AND 7));
       buf = extend_buf buf (le_bytes16 imm)
   in buf)"

definition mov_reg8_imm8 :: "code_buffer \<Rightarrow> reg64 \<Rightarrow> u8 \<Rightarrow> code_buffer" where
  "mov_reg8_imm8 buf dst imm =
   (let reg_id = reg64_id dst;
       buf = (if (drop_bit 3 reg_id) \<noteq> 0 then push_byte buf (rex False False False True)
        else buf);
       buf = push_byte buf (0xB0 + (reg_id AND 7));
       buf = push_byte buf imm
   in buf)"

definition mov_reg64_reg64 :: "code_buffer \<Rightarrow> reg64 \<Rightarrow> reg64 \<Rightarrow> code_buffer" where
  "mov_reg64_reg64 buf dst src =
   (let dst_id = reg64_id dst;
       src_id = reg64_id src;
       rex_byte = rex True ((drop_bit 3 src_id) \<noteq> 0) False ((drop_bit 3 dst_id) \<noteq> 0);
       buf = push_byte buf rex_byte;
       buf = push_byte buf 0x89;
       buf = push_byte buf ((0xC0 OR (push_bit 3 (src_id AND 7))) OR (dst_id AND 7))
   in buf)"

definition mov_sreg_reg16 :: "code_buffer \<Rightarrow> u8 \<Rightarrow> reg64 \<Rightarrow> code_buffer" where
  "mov_sreg_reg16 buf sreg_id src =
   (let src_id = reg64_id src;
       buf = push_byte buf 0x8E;
       buf = push_byte buf ((0xC0 OR (push_bit 3 (sreg_id AND 7))) OR (src_id AND 7))
   in buf)"

definition mov_mem_rbp_disp_reg64 :: "code_buffer \<Rightarrow> i32 \<Rightarrow> reg64 \<Rightarrow> code_buffer" where
  "mov_mem_rbp_disp_reg64 buf disp src =
   (let src_id = reg64_id src;
       rbp_id = 5;
       rex_byte = rex True ((drop_bit 3 src_id) \<noteq> 0) False False;
       buf = push_byte buf rex_byte;
       buf = push_byte buf 0x89;
       buf = emit_mem_base_disp buf (src_id AND 7) rbp_id disp
   in buf)"

definition mov_reg64_mem_rbp_disp :: "code_buffer \<Rightarrow> reg64 \<Rightarrow> i32 \<Rightarrow> code_buffer" where
  "mov_reg64_mem_rbp_disp buf dst disp =
   (let dst_id = reg64_id dst;
       rbp_id = 5;
       rex_byte = rex True ((drop_bit 3 dst_id) \<noteq> 0) False False;
       buf = push_byte buf rex_byte;
       buf = push_byte buf 0x8B;
       buf = emit_mem_base_disp buf (dst_id AND 7) rbp_id disp
   in buf)"

definition add_reg64_reg64 :: "code_buffer \<Rightarrow> reg64 \<Rightarrow> reg64 \<Rightarrow> code_buffer" where
  "add_reg64_reg64 buf dst src =
   (let dst_id = reg64_id dst;
       src_id = reg64_id src;
       rex_byte = rex True ((drop_bit 3 src_id) \<noteq> 0) False ((drop_bit 3 dst_id) \<noteq> 0);
       buf = push_byte buf rex_byte;
       buf = push_byte buf 0x01;
       buf = push_byte buf ((0xC0 OR (push_bit 3 (src_id AND 7))) OR (dst_id AND 7))
   in buf)"

definition sub_reg64_reg64 :: "code_buffer \<Rightarrow> reg64 \<Rightarrow> reg64 \<Rightarrow> code_buffer" where
  "sub_reg64_reg64 buf dst src =
   (let dst_id = reg64_id dst;
       src_id = reg64_id src;
       rex_byte = rex True ((drop_bit 3 src_id) \<noteq> 0) False ((drop_bit 3 dst_id) \<noteq> 0);
       buf = push_byte buf rex_byte;
       buf = push_byte buf 0x29;
       buf = push_byte buf ((0xC0 OR (push_bit 3 (src_id AND 7))) OR (dst_id AND 7))
   in buf)"

definition add_reg64_mem_base_disp :: "code_buffer \<Rightarrow> reg64 \<Rightarrow> reg64 \<Rightarrow> i32 \<Rightarrow> code_buffer" where
  "add_reg64_mem_base_disp buf dst base disp =
   (let dst_id = reg64_id dst;
       base_id = reg64_id base;
       rex_byte = rex True ((drop_bit 3 dst_id) \<noteq> 0) False ((drop_bit 3 base_id) \<noteq> 0);
       buf = push_byte buf rex_byte;
       buf = push_byte buf 0x03;
       buf = emit_mem_base_disp buf (dst_id AND 7) base_id disp
   in buf)"

definition add_reg64_mem_sib_disp :: "code_buffer \<Rightarrow> reg64 \<Rightarrow> reg64 \<Rightarrow> reg64 \<Rightarrow> u8 \<Rightarrow> i32 \<Rightarrow> code_buffer" where
  "add_reg64_mem_sib_disp buf dst base index scale_bits disp =
   (let dst_id = reg64_id dst;
       base_id = reg64_id base;
       index_id = reg64_id index;
       rex_byte = rex True ((drop_bit 3 dst_id) \<noteq> 0) ((drop_bit 3 index_id) \<noteq> 0) ((drop_bit 3 base_id) \<noteq> 0);
       buf = push_byte buf rex_byte;
       buf = push_byte buf 0x03;
       buf = emit_mem_sib_disp buf (dst_id AND 7) base_id index_id scale_bits disp
   in buf)"

definition sub_reg64_mem_base_disp :: "code_buffer \<Rightarrow> reg64 \<Rightarrow> reg64 \<Rightarrow> i32 \<Rightarrow> code_buffer" where
  "sub_reg64_mem_base_disp buf dst base disp =
   (let dst_id = reg64_id dst;
       base_id = reg64_id base;
       rex_byte = rex True ((drop_bit 3 dst_id) \<noteq> 0) False ((drop_bit 3 base_id) \<noteq> 0);
       buf = push_byte buf rex_byte;
       buf = push_byte buf 0x2B;
       buf = emit_mem_base_disp buf (dst_id AND 7) base_id disp
   in buf)"

definition sub_reg64_mem_sib_disp :: "code_buffer \<Rightarrow> reg64 \<Rightarrow> reg64 \<Rightarrow> reg64 \<Rightarrow> u8 \<Rightarrow> i32 \<Rightarrow> code_buffer" where
  "sub_reg64_mem_sib_disp buf dst base index scale_bits disp =
   (let dst_id = reg64_id dst;
       base_id = reg64_id base;
       index_id = reg64_id index;
       rex_byte = rex True ((drop_bit 3 dst_id) \<noteq> 0) ((drop_bit 3 index_id) \<noteq> 0) ((drop_bit 3 base_id) \<noteq> 0);
       buf = push_byte buf rex_byte;
       buf = push_byte buf 0x2B;
       buf = emit_mem_sib_disp buf (dst_id AND 7) base_id index_id scale_bits disp
   in buf)"

definition adc_reg64_reg64 :: "code_buffer \<Rightarrow> reg64 \<Rightarrow> reg64 \<Rightarrow> code_buffer" where
  "adc_reg64_reg64 buf dst src =
   (let dst_id = reg64_id dst;
       src_id = reg64_id src;
       rex_byte = rex True ((drop_bit 3 dst_id) \<noteq> 0) False ((drop_bit 3 src_id) \<noteq> 0);
       buf = push_byte buf rex_byte;
       buf = push_byte buf 0x13;
       buf = push_byte buf ((0xC0 OR (push_bit 3 (dst_id AND 7))) OR (src_id AND 7))
   in buf)"

definition adc_reg64_mem_base_disp :: "code_buffer \<Rightarrow> reg64 \<Rightarrow> reg64 \<Rightarrow> i32 \<Rightarrow> code_buffer" where
  "adc_reg64_mem_base_disp buf dst base disp =
   (let dst_id = reg64_id dst;
       base_id = reg64_id base;
       rex_byte = rex True ((drop_bit 3 dst_id) \<noteq> 0) False ((drop_bit 3 base_id) \<noteq> 0);
       buf = push_byte buf rex_byte;
       buf = push_byte buf 0x13;
       buf = emit_mem_base_disp buf (dst_id AND 7) base_id disp
   in buf)"

definition sbb_reg64_reg64 :: "code_buffer \<Rightarrow> reg64 \<Rightarrow> reg64 \<Rightarrow> code_buffer" where
  "sbb_reg64_reg64 buf dst src =
   (let dst_id = reg64_id dst;
       src_id = reg64_id src;
       rex_byte = rex True ((drop_bit 3 dst_id) \<noteq> 0) False ((drop_bit 3 src_id) \<noteq> 0);
       buf = push_byte buf rex_byte;
       buf = push_byte buf 0x1B;
       buf = push_byte buf ((0xC0 OR (push_bit 3 (dst_id AND 7))) OR (src_id AND 7))
   in buf)"

definition sbb_reg64_mem_base_disp :: "code_buffer \<Rightarrow> reg64 \<Rightarrow> reg64 \<Rightarrow> i32 \<Rightarrow> code_buffer" where
  "sbb_reg64_mem_base_disp buf dst base disp =
   (let dst_id = reg64_id dst;
       base_id = reg64_id base;
       rex_byte = rex True ((drop_bit 3 dst_id) \<noteq> 0) False ((drop_bit 3 base_id) \<noteq> 0);
       buf = push_byte buf rex_byte;
       buf = push_byte buf 0x1B;
       buf = emit_mem_base_disp buf (dst_id AND 7) base_id disp
   in buf)"

definition adc_reg32_reg32 :: "code_buffer \<Rightarrow> u8 \<Rightarrow> u8 \<Rightarrow> code_buffer" where
  "adc_reg32_reg32 buf dst_id src_id =
   (let buf = (if ((drop_bit 3 dst_id) \<noteq> 0) \<or> ((drop_bit 3 src_id) \<noteq> 0) then (let rex_byte = rex False ((drop_bit 3 dst_id) \<noteq> 0) False ((drop_bit 3 src_id) \<noteq> 0);
             buf = push_byte buf rex_byte
         in buf)
        else buf);
       buf = push_byte buf 0x13;
       buf = push_byte buf ((0xC0 OR (push_bit 3 (dst_id AND 7))) OR (src_id AND 7))
   in buf)"

definition adc_reg32_mem_base_disp :: "code_buffer \<Rightarrow> u8 \<Rightarrow> u8 \<Rightarrow> i32 \<Rightarrow> code_buffer" where
  "adc_reg32_mem_base_disp buf dst_id base_id disp =
   (let buf = (if ((drop_bit 3 dst_id) \<noteq> 0) \<or> ((drop_bit 3 base_id) \<noteq> 0) then (let rex_byte = rex False ((drop_bit 3 dst_id) \<noteq> 0) False ((drop_bit 3 base_id) \<noteq> 0);
             buf = push_byte buf rex_byte
         in buf)
        else buf);
       buf = push_byte buf 0x13;
       buf = emit_mem_base_disp buf (dst_id AND 7) base_id disp
   in buf)"

definition sbb_reg32_reg32 :: "code_buffer \<Rightarrow> u8 \<Rightarrow> u8 \<Rightarrow> code_buffer" where
  "sbb_reg32_reg32 buf dst_id src_id =
   (let buf = (if ((drop_bit 3 dst_id) \<noteq> 0) \<or> ((drop_bit 3 src_id) \<noteq> 0) then (let rex_byte = rex False ((drop_bit 3 dst_id) \<noteq> 0) False ((drop_bit 3 src_id) \<noteq> 0);
             buf = push_byte buf rex_byte
         in buf)
        else buf);
       buf = push_byte buf 0x1B;
       buf = push_byte buf ((0xC0 OR (push_bit 3 (dst_id AND 7))) OR (src_id AND 7))
   in buf)"

definition sbb_reg32_mem_base_disp :: "code_buffer \<Rightarrow> u8 \<Rightarrow> u8 \<Rightarrow> i32 \<Rightarrow> code_buffer" where
  "sbb_reg32_mem_base_disp buf dst_id base_id disp =
   (let buf = (if ((drop_bit 3 dst_id) \<noteq> 0) \<or> ((drop_bit 3 base_id) \<noteq> 0) then (let rex_byte = rex False ((drop_bit 3 dst_id) \<noteq> 0) False ((drop_bit 3 base_id) \<noteq> 0);
             buf = push_byte buf rex_byte
         in buf)
        else buf);
       buf = push_byte buf 0x1B;
       buf = emit_mem_base_disp buf (dst_id AND 7) base_id disp
   in buf)"

lemmas mov_arith_defs =
  mov_reg64_imm32_def mov_reg64_imm64_def mov_reg32_imm32_def mov_reg16_imm16_def
  mov_reg8_imm8_def mov_reg64_reg64_def mov_mem_rbp_disp_reg64_def mov_reg64_mem_rbp_disp_def
  add_reg64_reg64_def sub_reg64_reg64_def add_reg64_mem_base_disp_def add_reg64_mem_sib_disp_def
  sub_reg64_mem_base_disp_def sub_reg64_mem_sib_disp_def adc_reg64_reg64_def
  adc_reg64_mem_base_disp_def sbb_reg64_reg64_def sbb_reg64_mem_base_disp_def adc_reg32_reg32_def
  adc_reg32_mem_base_disp_def sbb_reg32_reg32_def sbb_reg32_mem_base_disp_def

lemma mov_arith_emits [emits_rules]:
  "emits buf (mov_reg64_imm32 buf dst imm32) [alu64 I_MOV [A_Reg (reg_no dst), A_Imm (sint imm32)]]"
  "emits buf (mov_reg64_imm64 buf dst imm64) [alu64 I_MOV [A_Reg (reg_no dst), A_Imm (uint imm64)]]"
  "emits buf (mov_reg32_imm32 buf dst imm32) [alu32 I_MOV [A_Reg (reg_no dst), A_Imm (uint imm32)]]"
  "emits buf (mov_reg16_imm16 buf dst imm16) [Insn False None (Inl I_MOV) W16 [A_Reg (reg_no dst), A_Imm (uint imm16)]]"
  "emits buf (mov_reg8_imm8 buf dst imm8) [Insn False None (Inl I_MOV) W8 [byte_reg dst, A_Imm (uint imm8)]]"
  "emits buf (mov_reg64_reg64 buf dst src) [alu64 I_MOV [A_Reg (reg_no dst), A_Reg (reg_no src)]]"
  "emits buf (mov_mem_rbp_disp_reg64 buf disp src) [alu64 I_MOV [A_Mem (Some 5) None disp, A_Reg (reg_no src)]]"
  "emits buf (mov_reg64_mem_rbp_disp buf dst disp) [alu64 I_MOV [A_Reg (reg_no dst), A_Mem (Some 5) None disp]]"
  "emits buf (add_reg64_reg64 buf dst src) [alu64 I_ADD [A_Reg (reg_no dst), A_Reg (reg_no src)]]"
  "emits buf (sub_reg64_reg64 buf dst src) [alu64 I_SUB [A_Reg (reg_no dst), A_Reg (reg_no src)]]"
  "emits buf (add_reg64_mem_base_disp buf dst base disp) [alu64 I_ADD [A_Reg (reg_no dst), base_disp base disp]]"
  "emits buf (add_reg64_mem_sib_disp buf dst base index scale_bits disp) [alu64 I_ADD [A_Reg (reg_no dst), sib_disp base index scale_bits disp]]"
  "emits buf (sub_reg64_mem_base_disp buf dst base disp) [alu64 I_SUB [A_Reg (reg_no dst), base_disp base disp]]"
  "emits buf (sub_reg64_mem_sib_disp buf dst base index scale_bits disp) [alu64 I_SUB [A_Reg (reg_no dst), sib_disp base index scale_bits disp]]"
  "emits buf (adc_reg64_reg64 buf dst src) [alu64 I_ADC [A_Reg (reg_no dst), A_Reg (reg_no src)]]"
  "emits buf (adc_reg64_mem_base_disp buf dst base disp) [alu64 I_ADC [A_Reg (reg_no dst), base_disp base disp]]"
  "emits buf (sbb_reg64_reg64 buf dst src) [alu64 I_SBB [A_Reg (reg_no dst), A_Reg (reg_no src)]]"
  "emits buf (sbb_reg64_mem_base_disp buf dst base disp) [alu64 I_SBB [A_Reg (reg_no dst), base_disp base disp]]"
  "unat dst_id < 16 \<Longrightarrow> unat src_id < 16 \<Longrightarrow> emits buf (adc_reg32_reg32 buf dst_id src_id) [alu32 I_ADC [A_Reg (unat dst_id), A_Reg (unat src_id)]]"
  "unat dst_id < 16 \<Longrightarrow> unat base_id < 16 \<Longrightarrow> emits buf (adc_reg32_mem_base_disp buf dst_id base_id disp) [alu32 I_ADC [A_Reg (unat dst_id), A_Mem (Some (unat base_id)) None disp]]"
  "unat dst_id < 16 \<Longrightarrow> unat src_id < 16 \<Longrightarrow> emits buf (sbb_reg32_reg32 buf dst_id src_id) [alu32 I_SBB [A_Reg (unat dst_id), A_Reg (unat src_id)]]"
  "unat dst_id < 16 \<Longrightarrow> unat base_id < 16 \<Longrightarrow> emits buf (sbb_reg32_mem_base_disp buf dst_id base_id disp) [alu32 I_SBB [A_Reg (unat dst_id), A_Mem (Some (unat base_id)) None disp]]"
  by (rule emits_fresh; simp add: mov_arith_defs enc_eval)+

end
