(* ===== verification/Encode_Dispatch.thy ===== *)
theory Encode_Dispatch
  imports Encode_Spec Encode_Mov_Arith
begin

text \<open>
  What the per-mnemonic encoders share: the shape of their results, the staging of a 64-bit immediate
  through R11 (\<^verbatim>\<open>crates/paideia-as-encoder/src/imm64_stage.rs\<close>), and the rule collections that their
  correctness proofs use.
\<close>

text \<open>\<^verbatim>\<open>Ok(EncodeOutput::new())\<close>, \<^verbatim>\<open>Err(e)\<close>, and the UTF-8 bytes of the dash in some messages.\<close>

abbreviation ok :: "code_buffer \<Rightarrow> enc_result" where
  "ok buf \<equiv> (Inr new_output, buf)"

abbreviation err :: "encode_error \<Rightarrow> code_buffer \<Rightarrow> enc_result" where
  "err e buf \<equiv> (Inl (Error e), buf)"

definition em_dash :: string where
  "em_dash = [CHR 0xE2, CHR 0x80, CHR 0x94]"

text \<open>\<^verbatim>\<open>operands.iter().any(|op| matches!(op, Operand::Var { .. }))\<close>\<close>

fun is_var :: "operand \<Rightarrow> bool" where
  "is_var (Var v) \<longleftrightarrow> True"
| "is_var _ \<longleftrightarrow> False"

definition var_reached :: "code_buffer \<Rightarrow> enc_result" where
  "var_reached buf =
     (Inl (Panic (''Operand::Var reached encoder '' @ em_dash @ '' resolve_var_operands pass was skipped'')), buf)"

definition stage_imm64_r11 ::
    "code_buffer \<Rightarrow> reg64 \<Rightarrow> u64 \<Rightarrow> string \<Rightarrow> (failure + reg64) \<times> code_buffer" where
  "stage_imm64_r11 buf operand_reg imm collision_msg =
     (if operand_reg = R11 then (Inl (Error (Unsupported collision_msg)), buf)
      else (Inr R11, mov_reg64_imm64 buf R11 imm))"

text \<open>\<^verbatim>\<open>i8::try_from\<close>, \<^verbatim>\<open>i32::try_from\<close> and \<^verbatim>\<open>u8::try_from\<close> on an \<^verbatim>\<open>i64\<close>.\<close>

definition i8_try_from :: "i64 \<Rightarrow> i8 option" where
  "i8_try_from imm = (if - 128 \<le> sint imm \<and> sint imm \<le> 127 then Some (ucast imm) else None)"

definition i32_try_from :: "i64 \<Rightarrow> i32 option" where
  "i32_try_from imm =
     (if - 2147483648 \<le> sint imm \<and> sint imm \<le> 2147483647 then Some (ucast imm) else None)"

definition u8_try_from :: "i64 \<Rightarrow> u8 option" where
  "u8_try_from imm = (if 0 \<le> sint imm \<and> sint imm \<le> 255 then Some (ucast imm) else None)"

text \<open>The instructions after \<open>movabs r11, imm64\<close>.\<close>

lemma staged_emits:
  "emits (mov_reg64_imm64 buf R11 imm) buf' [y] \<Longrightarrow>
     emits buf buf' [alu64 I_MOV [A_Reg 11, A_Imm (uint imm)], y]"
  using emits_two [OF mov_arith_emits(2) [of buf R11 imm]] by simp

lemma staged_deliversI:
  "emits (mov_reg64_imm64 buf R11 imm) buf' [y] \<Longrightarrow>
     (trusted \<Longrightarrow> asked = Some [alu64 I_MOV [A_Reg 11, A_Imm (uint imm)], y]) \<Longrightarrow>
     delivers buf buf' asked trusted"
  using staged_emits deliversI by blast

lemma i8_try_from_Some: "i8_try_from imm = Some i \<Longrightarrow> sint i = sint imm"
  by (auto simp: i8_try_from_def sint_ucast_i8 split: if_splits)

lemma i32_try_from_Some: "i32_try_from imm = Some i \<Longrightarrow> sint i = sint imm"
  by (auto simp: i32_try_from_def sint_ucast_i32 fits_i32_def split: if_splits)

lemma u8_try_from_Some:
  assumes "u8_try_from imm = Some i"
  shows "uint i = sint imm"
proof -
  have r: "0 \<le> sint imm" "sint imm \<le> 255" "i = ucast imm"
    using assms by (auto simp: u8_try_from_def split: if_splits)
  then have "uint imm = sint imm"
    using uint_sint [of imm] by (simp add: take_bit_int_eq_self)
  then show ?thesis
    using r by (simp add: unsigned_ucast_eq take_bit_int_eq_self)
qed

lemmas dispatch_simps = Let_def try_op_eq_Inr try_op_eq_Inl reg64_from_Inr reg32_from_Inr
  stage_imm64_r11_def can_shorten_add_to_32bit_def fits_i32_def [symmetric] var_reached_def

lemmas spec_simps = fits_i32_i8 alu_insns_def asm_insn_def lock_insn_def sint_ucast_i32 sint_ucast_i32' sint_ucast_i8
  sint_ucast_i8_i32 sib_disp_arg i8_try_from_Some i32_try_from_Some u8_try_from_Some

lemmas dispatch_splits = list.splits operand.splits option.splits if_splits prod.splits
  int_width.splits scale.splits

text \<open>Encoders that also count statistics, read as plain encoders.\<close>

definition drop_stats :: "enc_stats_result \<Rightarrow> enc_result" where
  "drop_stats r = (fst r, fst (snd r))"

lemma drop_stats_eq: "drop_stats r = (x, b) \<longleftrightarrow> (\<exists>st. r = (x, b, st))"
  by (cases r) (simp add: drop_stats_def)

end
