(* ===== verification/Encode_Cond_Call.thy ===== *)
theory Encode_Cond_Call
  imports Encode_Mov_Arith
begin

text \<open>
  \<^verbatim>\<open>crates/paideia-as-encoder/src/encode/cond_call.rs\<close>: conditional jumps and sets, ADD/SUB/ADC with
  an immediate, CALL, RET, PUSH, POP, and the record, enum and match helpers.  The helpers that
  panic on a width return an option.
\<close>

definition jcc_rel32 :: "code_buffer \<Rightarrow> cond \<Rightarrow> i32 \<Rightarrow> code_buffer" where
  "jcc_rel32 buf cond rel =
   (let buf = push_byte buf 0x0F;
       buf = push_byte buf (cond_byte cond);
       buf = extend_buf buf (le_bytes32 rel)
   in buf)"

definition jcc_rel8 :: "code_buffer \<Rightarrow> cond \<Rightarrow> i8 \<Rightarrow> code_buffer" where
  "jcc_rel8 buf cond rel =
   (let rel8_opcode = 0x70 + ((cond_byte cond) - 0x80);
       buf = push_byte buf rel8_opcode;
       buf = push_byte buf rel
   in buf)"

definition setcc_reg8 :: "code_buffer \<Rightarrow> cond \<Rightarrow> u8 \<Rightarrow> bool \<Rightarrow> code_buffer" where
  "setcc_reg8 buf cc reg_id needs_rex =
   (let buf = (if (drop_bit 3 reg_id) \<noteq> 0 then push_byte buf (rex False False False True)
        else if needs_rex then push_byte buf 0x40
        else buf);
       buf = push_byte buf 0x0F;
       buf = push_byte buf (0x90 OR ((cond_byte cc) AND 0x0F));
       buf = push_byte buf (0xC0 OR (reg_id AND 7))
   in buf)"

definition add_reg64_imm8 :: "code_buffer \<Rightarrow> reg64 \<Rightarrow> i8 \<Rightarrow> code_buffer" where
  "add_reg64_imm8 buf dst imm =
   (let reg_id = reg64_id dst;
       rex_byte = rex True False False ((drop_bit 3 reg_id) \<noteq> 0);
       buf = push_byte buf rex_byte;
       buf = push_byte buf 0x83;
       buf = push_byte buf (0xC0 OR (reg_id AND 7));
       buf = push_byte buf imm
   in buf)"

definition add_reg64_imm32 :: "code_buffer \<Rightarrow> reg64 \<Rightarrow> i32 \<Rightarrow> code_buffer" where
  "add_reg64_imm32 buf dst imm =
   (let reg_id = reg64_id dst;
       rex_byte = rex True False False ((drop_bit 3 reg_id) \<noteq> 0);
       buf = push_byte buf rex_byte;
       buf = push_byte buf 0x81;
       buf = push_byte buf (0xC0 OR (reg_id AND 7));
       buf = extend_buf buf (le_bytes32 imm)
   in buf)"

definition sub_reg64_imm8 :: "code_buffer \<Rightarrow> reg64 \<Rightarrow> i8 \<Rightarrow> code_buffer" where
  "sub_reg64_imm8 buf dst imm =
   (let reg_id = reg64_id dst;
       rex_byte = rex True False False ((drop_bit 3 reg_id) \<noteq> 0);
       buf = push_byte buf rex_byte;
       buf = push_byte buf 0x83;
       buf = push_byte buf (0xE8 OR (reg_id AND 7));
       buf = push_byte buf imm
   in buf)"

definition sub_reg64_imm32 :: "code_buffer \<Rightarrow> reg64 \<Rightarrow> i32 \<Rightarrow> code_buffer" where
  "sub_reg64_imm32 buf dst imm =
   (let reg_id = reg64_id dst;
       rex_byte = rex True False False ((drop_bit 3 reg_id) \<noteq> 0);
       buf = push_byte buf rex_byte;
       buf = push_byte buf 0x81;
       buf = push_byte buf (0xE8 OR (reg_id AND 7));
       buf = extend_buf buf (le_bytes32 imm)
   in buf)"

definition adc_reg64_imm8 :: "code_buffer \<Rightarrow> reg64 \<Rightarrow> i8 \<Rightarrow> code_buffer" where
  "adc_reg64_imm8 buf dst imm =
   (let reg_id = reg64_id dst;
       rex_byte = rex True False False ((drop_bit 3 reg_id) \<noteq> 0);
       buf = push_byte buf rex_byte;
       buf = push_byte buf 0x83;
       buf = push_byte buf (0xD0 OR (reg_id AND 7));
       buf = push_byte buf imm
   in buf)"

definition adc_reg64_imm32 :: "code_buffer \<Rightarrow> reg64 \<Rightarrow> i32 \<Rightarrow> code_buffer" where
  "adc_reg64_imm32 buf dst imm =
   (let reg_id = reg64_id dst;
       rex_byte = rex True False False ((drop_bit 3 reg_id) \<noteq> 0);
       buf = push_byte buf rex_byte;
       buf = push_byte buf 0x81;
       buf = push_byte buf (0xD0 OR (reg_id AND 7));
       buf = extend_buf buf (le_bytes32 imm)
   in buf)"

definition adc_reg32_imm8 :: "code_buffer \<Rightarrow> u8 \<Rightarrow> i8 \<Rightarrow> code_buffer" where
  "adc_reg32_imm8 buf reg_id imm =
   (let buf = (if (drop_bit 3 reg_id) \<noteq> 0 then push_byte buf (rex False False False True)
        else buf);
       buf = push_byte buf 0x83;
       buf = push_byte buf (0xD0 OR (reg_id AND 7));
       buf = push_byte buf imm
   in buf)"

definition adc_reg32_imm32 :: "code_buffer \<Rightarrow> u8 \<Rightarrow> i32 \<Rightarrow> code_buffer" where
  "adc_reg32_imm32 buf reg_id imm =
   (let buf = (if (drop_bit 3 reg_id) \<noteq> 0 then push_byte buf (rex False False False True)
        else buf);
       buf = push_byte buf 0x81;
       buf = push_byte buf (0xD0 OR (reg_id AND 7));
       buf = extend_buf buf (le_bytes32 imm)
   in buf)"

definition call_rel32 :: "code_buffer \<Rightarrow> i32 \<Rightarrow> code_buffer" where
  "call_rel32 buf rel =
   (let buf = push_byte buf 0xE8;
       buf = extend_buf buf (le_bytes32 rel)
   in buf)"

definition ret :: "code_buffer \<Rightarrow> code_buffer" where
  "ret buf =
   push_byte buf 0xC3"

definition push_reg64 :: "code_buffer \<Rightarrow> reg64 \<Rightarrow> code_buffer" where
  "push_reg64 buf reg =
   (let reg_id = reg64_id reg;
       buf = (if reg_id > 7 then (let buf = push_byte buf 0x41;
             buf = push_byte buf (0x50 + (reg_id AND 7))
         in buf)
        else push_byte buf (0x50 + reg_id))
   in buf)"

definition push_imm8 :: "code_buffer \<Rightarrow> i8 \<Rightarrow> code_buffer" where
  "push_imm8 buf imm =
   (let buf = push_byte buf 0x6A;
       buf = push_byte buf imm
   in buf)"

definition push_imm32 :: "code_buffer \<Rightarrow> i32 \<Rightarrow> code_buffer" where
  "push_imm32 buf imm =
   (let buf = push_byte buf 0x68;
       buf = extend_buf buf (le_bytes32 imm)
   in buf)"

definition pop_reg64 :: "code_buffer \<Rightarrow> reg64 \<Rightarrow> code_buffer" where
  "pop_reg64 buf reg =
   (let reg_id = reg64_id reg;
       buf = (if reg_id > 7 then (let buf = push_byte buf 0x41;
             buf = push_byte buf (0x58 + (reg_id AND 7))
         in buf)
        else push_byte buf (0x58 + reg_id))
   in buf)"

definition emit_indexed_load ::
    "code_buffer \<Rightarrow> reg64 \<Rightarrow> reg64 \<Rightarrow> reg64 \<Rightarrow> u32 \<Rightarrow> bool \<Rightarrow> code_buffer option" where
  "emit_indexed_load buf dest base index width is_signed =
   (let dest_id = reg64_id dest;
       base_id = reg64_id base;
       index_id = reg64_id index;
       rex_r_bit = (if drop_bit 3 dest_id \<noteq> 0 then 0x04 else 0 :: u8);
       rex_x_bit = (if drop_bit 3 index_id \<noteq> 0 then 0x02 else 0);
       rex_b_bit = (if drop_bit 3 base_id \<noteq> 0 then 0x01 else 0);
       rex_byte = ((0x40 OR rex_r_bit) OR rex_x_bit) OR rex_b_bit
   in if width = 1 then
        (let buf = (if rex_byte \<noteq> 0x40 then push_byte buf rex_byte else buf);
             buf = push_byte buf 0x8A
         in Some (emit_mem_sib_disp buf (dest_id AND 7) base_id index_id 0 0))
      else if width = 2 then
        (let buf = push_byte buf 0x66;
             buf = (if rex_byte \<noteq> 0x40 then push_byte buf rex_byte else buf);
             buf = push_byte buf 0x8B
         in Some (emit_mem_sib_disp buf (dest_id AND 7) base_id index_id 1 0))
      else if width = 4 then
        (let buf = (if rex_byte \<noteq> 0x40 then push_byte buf rex_byte else buf);
             buf = push_byte buf 0x8B
         in Some (emit_mem_sib_disp buf (dest_id AND 7) base_id index_id 2 0))
      else if width = 8 then
        (let buf = push_byte buf (((0x48 OR rex_r_bit) OR rex_x_bit) OR rex_b_bit);
             buf = push_byte buf 0x8B
         in Some (emit_mem_sib_disp buf (dest_id AND 7) base_id index_id 3 0))
      else None)"

definition emit_indexed_store ::
    "code_buffer \<Rightarrow> reg64 \<Rightarrow> reg64 \<Rightarrow> reg64 \<Rightarrow> u32 \<Rightarrow> code_buffer option" where
  "emit_indexed_store buf base index src width =
   (let src_id = reg64_id src;
       base_id = reg64_id base;
       index_id = reg64_id index;
       rex_r_bit = (if drop_bit 3 src_id \<noteq> 0 then 0x04 else 0 :: u8);
       rex_x_bit = (if drop_bit 3 index_id \<noteq> 0 then 0x02 else 0);
       rex_b_bit = (if drop_bit 3 base_id \<noteq> 0 then 0x01 else 0);
       rex_byte = ((0x40 OR rex_r_bit) OR rex_x_bit) OR rex_b_bit
   in if width = 1 then
        (let buf = (if rex_byte \<noteq> 0x40 then push_byte buf rex_byte else buf);
             buf = push_byte buf 0x88
         in Some (emit_mem_sib_disp buf (src_id AND 7) base_id index_id 0 0))
      else if width = 2 then
        (let buf = push_byte buf 0x66;
             buf = (if rex_byte \<noteq> 0x40 then push_byte buf rex_byte else buf);
             buf = push_byte buf 0x89
         in Some (emit_mem_sib_disp buf (src_id AND 7) base_id index_id 1 0))
      else if width = 4 then
        (let buf = (if rex_byte \<noteq> 0x40 then push_byte buf rex_byte else buf);
             buf = push_byte buf 0x89
         in Some (emit_mem_sib_disp buf (src_id AND 7) base_id index_id 2 0))
      else if width = 8 then
        (let buf = push_byte buf (((0x48 OR rex_r_bit) OR rex_x_bit) OR rex_b_bit);
             buf = push_byte buf 0x89
         in Some (emit_mem_sib_disp buf (src_id AND 7) base_id index_id 3 0))
      else None)"

text \<open>The store of one field; \<open>None\<close> is the panic on an unsupported width.\<close>

definition emit_field_store :: "code_buffer \<Rightarrow> reg64 \<Rightarrow> i32 \<Rightarrow> reg64 \<Rightarrow> u32 \<Rightarrow> code_buffer option" where
  "emit_field_store buf base offset src width =
   (let base_id = reg64_id base;
       src_id = reg64_id src
   in if width = 8 then
        (let buf = push_byte buf (rex True (drop_bit 3 src_id \<noteq> 0) False (drop_bit 3 base_id \<noteq> 0));
             buf = push_byte buf 0x89
         in if - 128 \<le> sint offset \<and> sint offset \<le> 127 then
              Some (push_byte
                (push_byte buf ((0x40 OR push_bit 3 (src_id AND 7)) OR (base_id AND 7))) (ucast offset))
            else
              Some (extend_buf
                (push_byte buf ((0x80 OR push_bit 3 (src_id AND 7)) OR (base_id AND 7)))
                (le_bytes32 offset)))
      else None)"

fun emit_record_cons :: "code_buffer \<Rightarrow> reg64 \<Rightarrow> (i32 \<times> reg64 \<times> u32) list \<Rightarrow> code_buffer option" where
  "emit_record_cons buf base [] = Some buf"
| "emit_record_cons buf base ((offset, src, width) # stores) =
     (case emit_field_store buf base offset src width of
        None \<Rightarrow> None
      | Some buf \<Rightarrow> emit_record_cons buf base stores)"

definition emit_field_access ::
    "code_buffer \<Rightarrow> reg64 \<Rightarrow> reg64 \<Rightarrow> i32 \<Rightarrow> u32 \<Rightarrow> code_buffer option" where
  "emit_field_access buf dest base offset width =
   (let dest_id = reg64_id dest;
       base_id = reg64_id base
   in if width = 8 then
        (let buf = push_byte buf (rex True (drop_bit 3 dest_id \<noteq> 0) False (drop_bit 3 base_id \<noteq> 0));
             buf = push_byte buf 0x8B
         in if - 128 \<le> sint offset \<and> sint offset \<le> 127 then
              Some (push_byte
                (push_byte buf ((0x40 OR push_bit 3 (dest_id AND 7)) OR (base_id AND 7))) (ucast offset))
            else
              Some (extend_buf
                (push_byte buf ((0x80 OR push_bit 3 (dest_id AND 7)) OR (base_id AND 7)))
                (le_bytes32 offset)))
      else None)"

definition emit_enum_cons ::
    "code_buffer \<Rightarrow> reg64 \<Rightarrow> u64 \<Rightarrow> (i32 \<times> reg64 \<times> u32) list \<Rightarrow> code_buffer option" where
  "emit_enum_cons buf base discriminant payload_stores =
   (let base_id = reg64_id base;
       buf = mov_reg64_imm64 buf Rax discriminant;
       buf = push_byte buf (rex True False False (drop_bit 3 base_id \<noteq> 0));
       buf = push_byte buf 0x89;
       buf = push_byte buf (base_id AND 7)
   in emit_record_cons buf base payload_stores)"

definition emit_enum_discriminant :: "code_buffer \<Rightarrow> reg64 \<Rightarrow> reg64 \<Rightarrow> code_buffer option" where
  "emit_enum_discriminant buf dest base = emit_field_access buf dest base 0 8"

definition emit_match_arm_branch :: "code_buffer \<Rightarrow> reg64 \<Rightarrow> u64 \<Rightarrow> cond \<Rightarrow> nat \<times> code_buffer" where
  "emit_match_arm_branch buf dest expected_variant cond =
   (let dest_id = reg64_id dest;
       buf = push_byte buf (rex True False False (drop_bit 3 dest_id \<noteq> 0));
       buf = push_byte buf 0x81;
       buf = push_byte buf (0xF8 OR (dest_id AND 7));
       buf = extend_buf buf (le_bytes32 (ucast expected_variant));
       patch_offset = length (bytes buf) + 2;
       buf = push_byte buf 0x0F;
       buf = push_byte buf (cond_byte cond);
       buf = extend_buf buf [0, 0, 0, 0]
   in (patch_offset, buf))"

lemmas cond_call_defs =
  jcc_rel32_def jcc_rel8_def add_reg64_imm8_def add_reg64_imm32_def sub_reg64_imm8_def
  sub_reg64_imm32_def adc_reg64_imm8_def adc_reg64_imm32_def adc_reg32_imm8_def
  adc_reg32_imm32_def call_rel32_def ret_def push_imm8_def push_imm32_def

lemma cond_call_emits [emits_rules]:
  "emits buf (jcc_rel32 buf cond rel32) [Insn False None (Inr (I_JCC (cond_no cond))) W64 [A_Rel (sint rel32)]]"
  "emits buf (jcc_rel8 buf cond rel8) [Insn False None (Inr (I_JCC (cond_no cond))) W64 [A_Rel (sint rel8)]]"
  "emits buf (add_reg64_imm8 buf dst imm8) [alu64 I_ADD [A_Reg (reg_no dst), A_Imm (sint imm8)]]"
  "emits buf (add_reg64_imm32 buf dst imm32) [alu64 I_ADD [A_Reg (reg_no dst), A_Imm (sint imm32)]]"
  "emits buf (sub_reg64_imm8 buf dst imm8) [alu64 I_SUB [A_Reg (reg_no dst), A_Imm (sint imm8)]]"
  "emits buf (sub_reg64_imm32 buf dst imm32) [alu64 I_SUB [A_Reg (reg_no dst), A_Imm (sint imm32)]]"
  "emits buf (adc_reg64_imm8 buf dst imm8) [alu64 I_ADC [A_Reg (reg_no dst), A_Imm (sint imm8)]]"
  "emits buf (adc_reg64_imm32 buf dst imm32) [alu64 I_ADC [A_Reg (reg_no dst), A_Imm (sint imm32)]]"
  "unat reg_id < 16 \<Longrightarrow> emits buf (adc_reg32_imm8 buf reg_id imm8) [alu32 I_ADC [A_Reg (unat reg_id), A_Imm (sint imm8)]]"
  "unat reg_id < 16 \<Longrightarrow> emits buf (adc_reg32_imm32 buf reg_id imm32) [alu32 I_ADC [A_Reg (unat reg_id), A_Imm (sint imm32)]]"
  "emits buf (call_rel32 buf rel32) [ctl64 I_CALL [A_Rel (sint rel32)]]"
  "emits buf (ret buf) [ctl64 I_RET []]"
  "emits buf (push_imm8 buf imm8) [ctl64 I_PUSH [A_Imm (sint imm8)]]"
  "emits buf (push_imm32 buf imm32) [ctl64 I_PUSH [A_Imm (sint imm32)]]"
  by (rule emits_fresh; simp add: cond_call_defs enc_eval)+

lemma push_pop_emits [emits_rules]:
  "emits buf (push_reg64 buf reg) [ctl64 I_PUSH [A_Reg (reg_no reg)]]"
  "emits buf (pop_reg64 buf reg) [ctl64 I_POP [A_Reg (reg_no reg)]]"
  by (cases reg; rule emits_fresh; simp add: push_reg64_def pop_reg64_def enc_eval)+

lemma setcc_reg8_emits [emits_rules]:
  "emits buf (setcc_reg8 buf c r needs_rex)
     [Insn False None (Inr (I_SETCC (cond_no c))) W8
       [if \<not> needs_rex \<and> 4 \<le> unat r \<and> unat r < 8 then A_High8 (unat r - 4) else A_Low8 (wrap_reg r)]]"
  by (rule emits_fresh; simp add: setcc_reg8_def enc_eval)

section \<open>Records, enums, match arms\<close>

text \<open>
  A base register whose low three bits are 100 (RSP, R12) has no ModR/M form without a SIB byte, and
  one whose low bits are 101 (RBP, R13) none without a displacement.
\<close>

definition plain_base :: "reg64 \<Rightarrow> bool" where
  "plain_base b \<longleftrightarrow> b \<noteq> Rsp \<and> b \<noteq> R12"

lemma plain_base_iff: "plain_base b \<longleftrightarrow> reg_no b mod 8 \<noteq> 4"
  by (cases b) (simp_all add: plain_base_def)

lemmas mod_simps = take_modrm_mod_0 take_modrm_mod_1 take_modrm_mod_2 take_disp_def take_disp8_def
  byte_simps

lemma emit_field_store_emits:
  assumes "plain_base base" "emit_field_store buf base offset src width = Some buf'"
  shows "emits buf buf' [alu64 I_MOV [base_disp base offset, A_Reg (reg_no src)]]" "width = 8"
proof -
  define f where "f b = the (emit_field_store b base offset src width)" for b
  show w: "width = 8"
    using assms(2) by (simp add: emit_field_store_def Let_def split: if_splits)
  have "emits buf (f buf) [alu64 I_MOV [base_disp base offset, A_Reg (reg_no src)]]"
    using assms(1) w unfolding plain_base_iff
    by (intro emits_fresh; simp add: f_def emit_field_store_def mod_simps enc_eval)
  then show "emits buf buf' [alu64 I_MOV [base_disp base offset, A_Reg (reg_no src)]]"
    using assms(2) by (simp add: f_def)
qed

lemma emit_field_access_emits:
  assumes "plain_base base" "emit_field_access buf dest base offset width = Some buf'"
  shows "emits buf buf' [alu64 I_MOV [A_Reg (reg_no dest), base_disp base offset]]" "width = 8"
proof -
  define f where "f b = the (emit_field_access b dest base offset width)" for b
  show w: "width = 8"
    using assms(2) by (simp add: emit_field_access_def Let_def split: if_splits)
  have "emits buf (f buf) [alu64 I_MOV [A_Reg (reg_no dest), base_disp base offset]]"
    using assms(1) w unfolding plain_base_iff
    by (intro emits_fresh; simp add: f_def emit_field_access_def mod_simps enc_eval)
  then show "emits buf buf' [alu64 I_MOV [A_Reg (reg_no dest), base_disp base offset]]"
    using assms(2) by (simp add: f_def)
qed

text \<open>The instruction that stores one field of a record.\<close>

definition field_store_insn :: "reg64 \<Rightarrow> i32 \<times> reg64 \<times> u32 \<Rightarrow> insn" where
  "field_store_insn base st = alu64 I_MOV [base_disp base (fst st), A_Reg (reg_no (fst (snd st)))]"

lemma emit_record_cons_emits:
  assumes "plain_base base" "emit_record_cons buf base stores = Some buf'"
  shows "emits buf buf' (map (field_store_insn base) stores)"
  using assms(2)
proof (induction stores arbitrary: buf)
  case (Cons st stores)
  obtain offset src width where st: "st = (offset, src, width)" by (cases st)
  obtain b1 where b1: "emit_field_store buf base offset src width = Some b1"
    "emit_record_cons b1 base stores = Some buf'"
    using Cons.prems by (auto simp: st split: option.splits)
  show ?case
    using emits_Cons [OF emit_field_store_emits(1) [OF assms(1) b1(1)] Cons.IH [OF b1(2)]]
    by (simp add: st field_store_insn_def)
qed (simp add: emits_refl)

lemma emit_field_store_None: "emit_field_store buf base offset src width = None \<longleftrightarrow> width \<noteq> 8"
  by (simp add: emit_field_store_def Let_def)

lemma emit_record_cons_panics:
  "emit_record_cons buf base stores = None \<longleftrightarrow> (\<exists>st \<in> set stores. snd (snd st) \<noteq> 8)"
proof (induction stores arbitrary: buf)
  case (Cons st stores)
  obtain offset src width where st: "st = (offset, src, width)" by (cases st)
  show ?case
    using Cons emit_field_store_None [of buf base offset src width]
    by (cases "emit_field_store buf base offset src width") (auto simp: st)
qed simp

lemma emit_enum_cons_emits:
  assumes base: "plain_base base" "base \<noteq> Rbp" "base \<noteq> R13"
    and "emit_enum_cons buf base discriminant stores = Some buf'"
  shows "emits buf buf'
    ([alu64 I_MOV [A_Reg (reg_no Rax), A_Imm (uint discriminant)],
      alu64 I_MOV [base_disp base 0, A_Reg (reg_no Rax)]] @ map (field_store_insn base) stores)"
proof -
  define store where "store b =
      push_byte (push_byte (push_byte b (rex True False False (drop_bit 3 (reg64_id base) \<noteq> 0))) 0x89)
        (reg64_id base AND 7)" for b
  have 5: "reg_no base mod 8 \<noteq> 5" "reg_no base mod 8 \<noteq> 4"
    using base by (cases base; simp add: plain_base_def)+
  have "emits b (store b) [alu64 I_MOV [base_disp base 0, A_Reg (reg_no Rax)]]" for b
    using 5 by (intro emits_fresh; simp add: store_def mod_simps enc_eval)
  moreover have "emit_record_cons (store (mov_reg64_imm64 buf Rax discriminant)) base stores = Some buf'"
    using assms(4) by (simp add: emit_enum_cons_def store_def Let_def)
  ultimately show ?thesis
    using mov_arith_emits(2) emit_record_cons_emits [OF base(1)]
    by (metis append_Cons append_Nil emits_Cons)
qed

text \<open>The match arm: a comparison, then a conditional jump whose displacement is left for patching.\<close>

lemma emit_match_arm_branch_emits:
  assumes "emit_match_arm_branch buf dest variant cond = (off, buf')"
  shows "emits buf buf'
    [alu64 I_CMP [A_Reg (reg_no dest), A_Imm (sint (ucast variant :: i32))],
     ctl64 (I_JCC (cond_no cond)) [A_Rel 0]]"
    and "off + 4 = length (bytes buf')" "take 4 (drop off (bytes buf')) = [0, 0, 0, 0]"
proof -
  define cmp where "cmp b =
      extend_buf (push_byte (push_byte (push_byte b
        (rex True False False (drop_bit 3 (reg64_id dest) \<noteq> 0))) 0x81) (0xF8 OR (reg64_id dest AND 7)))
        (le_bytes32 (ucast variant))" for b
  have 0: "le_bytes32 0 = [0, 0, 0, 0]" by (simp add: le_bytes32_def)
  have buf': "buf' = jcc_rel32 (cmp buf) cond 0" "off = length (bytes (cmp buf)) + 2"
    using assms by (auto simp: emit_match_arm_branch_def cmp_def jcc_rel32_def Let_def 0)
  have "emits buf (cmp buf) [alu64 I_CMP [A_Reg (reg_no dest), A_Imm (sint (ucast variant :: i32))]]"
    by (intro emits_fresh; simp add: cmp_def enc_eval)
  then show "emits buf buf'
    [alu64 I_CMP [A_Reg (reg_no dest), A_Imm (sint (ucast variant :: i32))],
     ctl64 (I_JCC (cond_no cond)) [A_Rel 0]]"
    using emits_two cond_call_emits(1) [of "cmp buf" cond 0] by (simp add: buf')
  show "off + 4 = length (bytes buf')" "take 4 (drop off (bytes buf')) = [0, 0, 0, 0]"
    by (simp_all add: buf' jcc_rel32_def Let_def 0)
qed

section \<open>Indexed loads and stores\<close>

definition indexed_width :: "u32 \<Rightarrow> int_width option" where
  "indexed_width w = (if w = 2 then Some W16 else if w = 4 then Some W32 else if w = 8 then Some W64 else None)"

lemma indexed_emits:
  assumes "indexed_width w = Some iw" "index \<noteq> Rsp"
  shows "\<exists>buf'. emit_indexed_load buf r base index w sg = Some buf' \<and>
      emits buf buf' [Insn False None (Inl I_MOV) iw
        [A_Reg (reg_no r), A_Mem (Some (reg_no base)) (Some (reg_no index, unat w)) 0]]"
    and "\<exists>buf'. emit_indexed_store buf base index r w = Some buf' \<and>
      emits buf buf' [Insn False None (Inl I_MOV) iw
        [A_Mem (Some (reg_no base)) (Some (reg_no index, unat w)) 0, A_Reg (reg_no r)]]"
proof -
  have ld: "emits buf (the (emit_indexed_load buf r base index w sg)) [Insn False None (Inl I_MOV) iw
        [A_Reg (reg_no r), A_Mem (Some (reg_no base)) (Some (reg_no index, unat w)) 0]]"
    using assms
    by (intro emits_fresh; cases "drop_bit 3 (reg64_id r) = 0"; cases "drop_bit 3 (reg64_id index) = 0";
        cases "drop_bit 3 (reg64_id base) = 0")
      (auto simp: emit_indexed_load_def indexed_width_def enc_eval split: if_splits)
  show "\<exists>buf'. emit_indexed_load buf r base index w sg = Some buf' \<and>
      emits buf buf' [Insn False None (Inl I_MOV) iw
        [A_Reg (reg_no r), A_Mem (Some (reg_no base)) (Some (reg_no index, unat w)) 0]]"
    using ld assms by (auto simp: emit_indexed_load_def indexed_width_def Let_def split: if_splits)
  have st: "emits buf (the (emit_indexed_store buf base index r w)) [Insn False None (Inl I_MOV) iw
        [A_Mem (Some (reg_no base)) (Some (reg_no index, unat w)) 0, A_Reg (reg_no r)]]"
    using assms
    by (intro emits_fresh; cases "drop_bit 3 (reg64_id r) = 0"; cases "drop_bit 3 (reg64_id index) = 0";
        cases "drop_bit 3 (reg64_id base) = 0")
      (auto simp: emit_indexed_store_def indexed_width_def enc_eval split: if_splits)
  show "\<exists>buf'. emit_indexed_store buf base index r w = Some buf' \<and>
      emits buf buf' [Insn False None (Inl I_MOV) iw
        [A_Mem (Some (reg_no base)) (Some (reg_no index, unat w)) 0, A_Reg (reg_no r)]]"
    using st assms by (auto simp: emit_indexed_store_def indexed_width_def Let_def split: if_splits)
qed

end
