(* ===== verification/Encode_Arith.thy ===== *)
theory Encode_Arith
  imports Encode_Dispatch Encode_Cond_Call
begin

text \<open>
  \<^verbatim>\<open>crates/paideia-as-encoder/src/encode_instruction/arith.rs\<close>: the encoders of ADD, SUB, ADC and SBB,
  and that they satisfy the encoder contract.
\<close>

definition encode_add :: "instruction \<Rightarrow> code_buffer \<Rightarrow> encode_stats \<Rightarrow> enc_stats_result" where
  "encode_add inst buf stats =
     (case operands inst of
        [Reg dest, Reg src] \<Rightarrow>
          try_op (reg64_from dest) (buf, stats) (\<lambda>d.
          try_op (reg64_from src) (buf, stats) (\<lambda>s.
            (Inr new_output, add_reg64_reg64 buf d s, stats)))
      | [Reg dest, MemSib base None scale disp] \<Rightarrow>
          try_op (reg64_from dest) (buf, stats) (\<lambda>d.
          try_op (reg64_from base) (buf, stats) (\<lambda>b.
            (Inr new_output, add_reg64_mem_base_disp buf d b disp, stats)))
      | [Reg dest, MemSib base (Some index) scale disp] \<Rightarrow>
          (let scale_bits = sib_scale_bits scale
           in try_op (reg64_from dest) (buf, stats) (\<lambda>d.
              try_op (reg64_from base) (buf, stats) (\<lambda>b.
              try_op (reg64_from index) (buf, stats) (\<lambda>i.
                (Inr new_output, add_reg64_mem_sib_disp buf d b i scale_bits disp, stats)))))
      | [Reg dest, Imm64 imm] \<Rightarrow>
          try_op (reg64_from dest) (buf, stats) (\<lambda>dest_reg.
            if can_shorten_add_to_32bit False \<and> - 2147483648 \<le> sint imm \<and> sint imm \<le> 2147483647
            then
              (let imm_i32 = (ucast imm :: i32)
               in if - 128 \<le> sint imm_i32 \<and> sint imm_i32 \<le> 127
                  then (Inr new_output, add_reg64_imm8 buf dest_reg (ucast imm_i32),
                        record_tightening stats)
                  else (Inr new_output, add_reg64_imm32 buf dest_reg imm_i32,
                        record_tightening stats))
            else
              (case stage_imm64_r11 buf dest_reg imm
                      (''add r11, imm64 (out-of-i32-range): scratch-reg r11 collision '' @ em_dash @
                       '' pick a different destination register'') of
                 (r, buf) \<Rightarrow>
                   try_op r (buf, stats) (\<lambda>scratch.
                     (Inr new_output, add_reg64_reg64 buf dest_reg scratch, stats))))
      | _ \<Rightarrow>
          (Inl (Error (Unsupported
             ''add form not supported: expected reg64,reg64, reg64,[mem], or reg64,imm64'')),
           buf, stats))"

definition encode_sub :: "instruction \<Rightarrow> code_buffer \<Rightarrow> encode_stats \<Rightarrow> enc_stats_result" where
  "encode_sub inst buf stats =
     (case operands inst of
        [Reg dest, Reg src] \<Rightarrow>
          try_op (reg64_from dest) (buf, stats) (\<lambda>d.
          try_op (reg64_from src) (buf, stats) (\<lambda>s.
            (Inr new_output, sub_reg64_reg64 buf d s, stats)))
      | [Reg dest, MemSib base None scale disp] \<Rightarrow>
          try_op (reg64_from dest) (buf, stats) (\<lambda>d.
          try_op (reg64_from base) (buf, stats) (\<lambda>b.
            (Inr new_output, sub_reg64_mem_base_disp buf d b disp, stats)))
      | [Reg dest, MemSib base (Some index) scale disp] \<Rightarrow>
          (let scale_bits = sib_scale_bits scale
           in try_op (reg64_from dest) (buf, stats) (\<lambda>d.
              try_op (reg64_from base) (buf, stats) (\<lambda>b.
              try_op (reg64_from index) (buf, stats) (\<lambda>i.
                (Inr new_output, sub_reg64_mem_sib_disp buf d b i scale_bits disp, stats)))))
      | [Reg dest, Imm64 imm] \<Rightarrow>
          try_op (reg64_from dest) (buf, stats) (\<lambda>dest_reg.
            if can_shorten_add_to_32bit False \<and> - 2147483648 \<le> sint imm \<and> sint imm \<le> 2147483647
            then
              (let imm_i32 = (ucast imm :: i32)
               in if - 128 \<le> sint imm_i32 \<and> sint imm_i32 \<le> 127
                  then (Inr new_output, sub_reg64_imm8 buf dest_reg (ucast imm_i32),
                        record_tightening stats)
                  else (Inr new_output, sub_reg64_imm32 buf dest_reg imm_i32,
                        record_tightening stats))
            else
              (case stage_imm64_r11 buf dest_reg imm
                      (''sub r11, imm64 (out-of-i32-range): scratch-reg r11 collision '' @ em_dash @
                       '' pick a different destination register'') of
                 (r, buf) \<Rightarrow>
                   try_op r (buf, stats) (\<lambda>scratch.
                     (Inr new_output, sub_reg64_reg64 buf dest_reg scratch, stats))))
      | _ \<Rightarrow>
          (Inl (Error (Unsupported
             ''sub form not supported: expected reg64,reg64, reg64,[mem], or reg64,imm64'')),
           buf, stats))"

definition encode_adc :: "instruction \<Rightarrow> code_buffer \<Rightarrow> int_width \<Rightarrow> enc_result" where
  "encode_adc inst buf width =
     (if width \<noteq> W32 \<and> width \<noteq> W64 then err (Unsupported ''E0037: adc only supports W32 and W64'') buf
      else case operands inst of
        [Reg dest, Reg src] \<Rightarrow>
          (case width of
             W64 \<Rightarrow>
               try_op (reg64_from dest) buf (\<lambda>d.
               try_op (reg64_from src) buf (\<lambda>s. ok (adc_reg64_reg64 buf d s)))
           | W32 \<Rightarrow>
               try_op (reg32_from dest) buf (\<lambda>d.
               try_op (reg32_from src) buf (\<lambda>s. ok (adc_reg32_reg32 buf (reg32_id d) (reg32_id s))))
           | _ \<Rightarrow> (Inl (Panic ''unreachable''), buf))
      | [Reg dest, MemSib base None scale disp] \<Rightarrow>
          (case width of
             W64 \<Rightarrow>
               try_op (reg64_from dest) buf (\<lambda>d.
               try_op (reg64_from base) buf (\<lambda>b. ok (adc_reg64_mem_base_disp buf d b disp)))
           | W32 \<Rightarrow>
               try_op (reg32_from dest) buf (\<lambda>d.
               try_op (reg32_from base) buf (\<lambda>b.
                 ok (adc_reg32_mem_base_disp buf (reg32_id d) (reg32_id b) disp)))
           | _ \<Rightarrow> (Inl (Panic ''unreachable''), buf))
      | [Reg dest, MemSib base (Some index) scale disp] \<Rightarrow> err (OperandShape (M_Adc width)) buf
      | [Reg dest, Imm64 imm] \<Rightarrow>
          if sint imm < - 2147483648 \<or> sint imm > 2147483647
          then err (Unsupported ''adc: immediate does not fit in i32'') buf
          else
            (let imm_i32 = (ucast imm :: i32)
             in if - 128 \<le> sint imm_i32 \<and> sint imm_i32 \<le> 127
                then
                  (case width of
                     W64 \<Rightarrow>
                       try_op (reg64_from dest) buf (\<lambda>d. ok (adc_reg64_imm8 buf d (ucast imm_i32)))
                   | W32 \<Rightarrow>
                       try_op (reg32_from dest) buf (\<lambda>d.
                         ok (adc_reg32_imm8 buf (reg32_id d) (ucast imm_i32)))
                   | _ \<Rightarrow> (Inl (Panic ''unreachable''), buf))
                else
                  (case width of
                     W64 \<Rightarrow> try_op (reg64_from dest) buf (\<lambda>d. ok (adc_reg64_imm32 buf d imm_i32))
                   | W32 \<Rightarrow>
                       try_op (reg32_from dest) buf (\<lambda>d. ok (adc_reg32_imm32 buf (reg32_id d) imm_i32))
                   | _ \<Rightarrow> (Inl (Panic ''unreachable''), buf)))
      | _ \<Rightarrow> err (OperandShape (M_Adc width)) buf)"

definition encode_sbb :: "instruction \<Rightarrow> code_buffer \<Rightarrow> int_width \<Rightarrow> enc_result" where
  "encode_sbb inst buf width =
     (if width \<noteq> W32 \<and> width \<noteq> W64 then err (Unsupported ''E0038: sbb only supports W32 and W64'') buf
      else case operands inst of
        [Reg dest, Reg src] \<Rightarrow>
          (case width of
             W64 \<Rightarrow>
               try_op (reg64_from dest) buf (\<lambda>d.
               try_op (reg64_from src) buf (\<lambda>s. ok (sbb_reg64_reg64 buf d s)))
           | W32 \<Rightarrow>
               try_op (reg32_from dest) buf (\<lambda>d.
               try_op (reg32_from src) buf (\<lambda>s. ok (sbb_reg32_reg32 buf (reg32_id d) (reg32_id s))))
           | _ \<Rightarrow> (Inl (Panic ''unreachable''), buf))
      | [Reg dest, MemSib base None scale disp] \<Rightarrow>
          (case width of
             W64 \<Rightarrow>
               try_op (reg64_from dest) buf (\<lambda>d.
               try_op (reg64_from base) buf (\<lambda>b. ok (sbb_reg64_mem_base_disp buf d b disp)))
           | W32 \<Rightarrow>
               try_op (reg32_from dest) buf (\<lambda>d.
               try_op (reg32_from base) buf (\<lambda>b.
                 ok (sbb_reg32_mem_base_disp buf (reg32_id d) (reg32_id b) disp)))
           | _ \<Rightarrow> (Inl (Panic ''unreachable''), buf))
      | [Reg dest, MemSib base (Some index) scale disp] \<Rightarrow> err (OperandShape (M_Sbb width)) buf
      | _ \<Rightarrow> err (OperandShape (M_Sbb width)) buf)"

section \<open>The contract\<close>

interpretation add_enc: encoder "(\<lambda>inst buf. drop_stats (encode_add inst buf st))" "alu_insns I_ADD" no_rsp_index for st
  by (rule encoderI; auto split: dispatch_splits simp: encode_add_def drop_stats_eq dispatch_simps spec_simps
      intro!: emits_rules [THEN staged_deliversI] emits_rules [THEN deliversI])

interpretation sub_enc: encoder "(\<lambda>inst buf. drop_stats (encode_sub inst buf st))" "alu_insns I_SUB" no_rsp_index for st
  by (rule encoderI; auto split: dispatch_splits simp: encode_sub_def drop_stats_eq dispatch_simps spec_simps
      intro!: emits_rules [THEN staged_deliversI] emits_rules [THEN deliversI])

interpretation adc_enc: encoder "(\<lambda>inst buf. encode_adc inst buf width)" "asm_insn (Inl I_ADC) width" no_rsp_index for width
  by (cases width; rule encoderI; auto split: dispatch_splits simp: encode_adc_def dispatch_simps spec_simps
      intro!: emits_rules [THEN deliversI])

interpretation sbb_enc: encoder "(\<lambda>inst buf. encode_sbb inst buf width)" "asm_insn (Inl I_SBB) width" no_rsp_index for width
  by (cases width; rule encoderI; auto split: dispatch_splits simp: encode_sbb_def dispatch_simps spec_simps
      intro!: emits_rules [THEN deliversI])

end
