(* ===== verification/Encode_Bit_Ops.thy ===== *)
theory Encode_Bit_Ops
  imports Encoder_Bytes
begin

text \<open>
  \<^verbatim>\<open>crates/paideia-as-encoder/src/encode/bit_ops.rs\<close>: population count, CRC32, bit scans, bit tests and
  their LOCK forms.
\<close>

definition popcnt_reg64_reg64 :: "code_buffer \<Rightarrow> reg64 \<Rightarrow> reg64 \<Rightarrow> code_buffer" where
  "popcnt_reg64_reg64 buf dst src =
   (let dst_id = reg64_id dst;
       src_id = reg64_id src;
       buf = push_byte buf 0xF3;
       rex_byte = rex True ((drop_bit 3 dst_id) \<noteq> 0) False ((drop_bit 3 src_id) \<noteq> 0);
       buf = push_byte buf rex_byte;
       buf = push_byte buf 0x0F;
       buf = push_byte buf 0xB8;
       buf = push_byte buf ((0xC0 OR (push_bit 3 (dst_id AND 7))) OR (src_id AND 7))
   in buf)"

definition popcnt_reg64_mem_base_disp :: "code_buffer \<Rightarrow> reg64 \<Rightarrow> reg64 \<Rightarrow> i32 \<Rightarrow> code_buffer" where
  "popcnt_reg64_mem_base_disp buf dst base disp =
   (let dst_id = reg64_id dst;
       base_id = reg64_id base;
       buf = push_byte buf 0xF3;
       rex_byte = rex True ((drop_bit 3 dst_id) \<noteq> 0) False ((drop_bit 3 base_id) \<noteq> 0);
       buf = push_byte buf rex_byte;
       buf = push_byte buf 0x0F;
       buf = push_byte buf 0xB8;
       buf = emit_mem_base_disp buf (dst_id AND 7) base_id disp
   in buf)"

definition popcnt_reg32_reg32 :: "code_buffer \<Rightarrow> u8 \<Rightarrow> u8 \<Rightarrow> code_buffer" where
  "popcnt_reg32_reg32 buf dst_id src_id =
   (let buf = push_byte buf 0xF3;
       buf = (if ((drop_bit 3 dst_id) \<noteq> 0) \<or> ((drop_bit 3 src_id) \<noteq> 0) then (let rex_byte = rex False ((drop_bit 3 dst_id) \<noteq> 0) False ((drop_bit 3 src_id) \<noteq> 0);
             buf = push_byte buf rex_byte
         in buf)
        else buf);
       buf = push_byte buf 0x0F;
       buf = push_byte buf 0xB8;
       buf = push_byte buf ((0xC0 OR (push_bit 3 (dst_id AND 7))) OR (src_id AND 7))
   in buf)"

definition popcnt_reg32_mem_base_disp :: "code_buffer \<Rightarrow> u8 \<Rightarrow> u8 \<Rightarrow> i32 \<Rightarrow> code_buffer" where
  "popcnt_reg32_mem_base_disp buf dst_id base_id disp =
   (let buf = push_byte buf 0xF3;
       buf = (if ((drop_bit 3 dst_id) \<noteq> 0) \<or> ((drop_bit 3 base_id) \<noteq> 0) then (let rex_byte = rex False ((drop_bit 3 dst_id) \<noteq> 0) False ((drop_bit 3 base_id) \<noteq> 0);
             buf = push_byte buf rex_byte
         in buf)
        else buf);
       buf = push_byte buf 0x0F;
       buf = push_byte buf 0xB8;
       buf = emit_mem_base_disp buf (dst_id AND 7) base_id disp
   in buf)"

definition crc32_reg64_reg64 :: "code_buffer \<Rightarrow> reg64 \<Rightarrow> reg64 \<Rightarrow> code_buffer" where
  "crc32_reg64_reg64 buf dst src =
   (let dst_id = reg64_id dst;
       src_id = reg64_id src;
       buf = push_byte buf 0xF2;
       rex_byte = rex True ((drop_bit 3 dst_id) \<noteq> 0) False ((drop_bit 3 src_id) \<noteq> 0);
       buf = push_byte buf rex_byte;
       buf = push_byte buf 0x0F;
       buf = push_byte buf 0x38;
       buf = push_byte buf 0xF1;
       buf = push_byte buf ((0xC0 OR (push_bit 3 (dst_id AND 7))) OR (src_id AND 7))
   in buf)"

definition crc32_reg64_mem_base_disp :: "code_buffer \<Rightarrow> reg64 \<Rightarrow> reg64 \<Rightarrow> i32 \<Rightarrow> code_buffer" where
  "crc32_reg64_mem_base_disp buf dst base disp =
   (let dst_id = reg64_id dst;
       base_id = reg64_id base;
       buf = push_byte buf 0xF2;
       rex_byte = rex True ((drop_bit 3 dst_id) \<noteq> 0) False ((drop_bit 3 base_id) \<noteq> 0);
       buf = push_byte buf rex_byte;
       buf = push_byte buf 0x0F;
       buf = push_byte buf 0x38;
       buf = push_byte buf 0xF1;
       buf = emit_mem_base_disp buf (dst_id AND 7) base_id disp
   in buf)"

definition bsf_reg64_reg64 :: "code_buffer \<Rightarrow> reg64 \<Rightarrow> reg64 \<Rightarrow> code_buffer" where
  "bsf_reg64_reg64 buf dst src =
   (let dst_id = reg64_id dst;
       src_id = reg64_id src;
       rex_byte = rex True ((drop_bit 3 dst_id) \<noteq> 0) False ((drop_bit 3 src_id) \<noteq> 0);
       buf = push_byte buf rex_byte;
       buf = push_byte buf 0x0F;
       buf = push_byte buf 0xBC;
       buf = push_byte buf ((0xC0 OR (push_bit 3 (dst_id AND 7))) OR (src_id AND 7))
   in buf)"

definition bsf_reg64_mem_base_disp :: "code_buffer \<Rightarrow> reg64 \<Rightarrow> reg64 \<Rightarrow> i32 \<Rightarrow> code_buffer" where
  "bsf_reg64_mem_base_disp buf dst base disp =
   (let dst_id = reg64_id dst;
       base_id = reg64_id base;
       rex_byte = rex True ((drop_bit 3 dst_id) \<noteq> 0) False ((drop_bit 3 base_id) \<noteq> 0);
       buf = push_byte buf rex_byte;
       buf = push_byte buf 0x0F;
       buf = push_byte buf 0xBC;
       buf = emit_mem_base_disp buf (dst_id AND 7) base_id disp
   in buf)"

definition bsr_reg64_reg64 :: "code_buffer \<Rightarrow> reg64 \<Rightarrow> reg64 \<Rightarrow> code_buffer" where
  "bsr_reg64_reg64 buf dst src =
   (let dst_id = reg64_id dst;
       src_id = reg64_id src;
       rex_byte = rex True ((drop_bit 3 dst_id) \<noteq> 0) False ((drop_bit 3 src_id) \<noteq> 0);
       buf = push_byte buf rex_byte;
       buf = push_byte buf 0x0F;
       buf = push_byte buf 0xBD;
       buf = push_byte buf ((0xC0 OR (push_bit 3 (dst_id AND 7))) OR (src_id AND 7))
   in buf)"

definition bsr_reg64_mem_base_disp :: "code_buffer \<Rightarrow> reg64 \<Rightarrow> reg64 \<Rightarrow> i32 \<Rightarrow> code_buffer" where
  "bsr_reg64_mem_base_disp buf dst base disp =
   (let dst_id = reg64_id dst;
       base_id = reg64_id base;
       rex_byte = rex True ((drop_bit 3 dst_id) \<noteq> 0) False ((drop_bit 3 base_id) \<noteq> 0);
       buf = push_byte buf rex_byte;
       buf = push_byte buf 0x0F;
       buf = push_byte buf 0xBD;
       buf = emit_mem_base_disp buf (dst_id AND 7) base_id disp
   in buf)"

definition tzcnt_reg64_reg64 :: "code_buffer \<Rightarrow> reg64 \<Rightarrow> reg64 \<Rightarrow> code_buffer" where
  "tzcnt_reg64_reg64 buf dst src =
   (let dst_id = reg64_id dst;
       src_id = reg64_id src;
       buf = push_byte buf 0xF3;
       rex_byte = rex True ((drop_bit 3 dst_id) \<noteq> 0) False ((drop_bit 3 src_id) \<noteq> 0);
       buf = push_byte buf rex_byte;
       buf = push_byte buf 0x0F;
       buf = push_byte buf 0xBC;
       buf = push_byte buf ((0xC0 OR (push_bit 3 (dst_id AND 7))) OR (src_id AND 7))
   in buf)"

definition tzcnt_reg64_mem_base_disp :: "code_buffer \<Rightarrow> reg64 \<Rightarrow> reg64 \<Rightarrow> i32 \<Rightarrow> code_buffer" where
  "tzcnt_reg64_mem_base_disp buf dst base disp =
   (let dst_id = reg64_id dst;
       base_id = reg64_id base;
       buf = push_byte buf 0xF3;
       rex_byte = rex True ((drop_bit 3 dst_id) \<noteq> 0) False ((drop_bit 3 base_id) \<noteq> 0);
       buf = push_byte buf rex_byte;
       buf = push_byte buf 0x0F;
       buf = push_byte buf 0xBC;
       buf = emit_mem_base_disp buf (dst_id AND 7) base_id disp
   in buf)"

definition bt_reg64_reg64 :: "code_buffer \<Rightarrow> reg64 \<Rightarrow> reg64 \<Rightarrow> code_buffer" where
  "bt_reg64_reg64 buf bitmap index =
   (let bitmap_id = reg64_id bitmap;
       index_id = reg64_id index;
       rex_byte = rex True ((drop_bit 3 index_id) \<noteq> 0) False ((drop_bit 3 bitmap_id) \<noteq> 0);
       buf = push_byte buf rex_byte;
       buf = push_byte buf 0x0F;
       buf = push_byte buf 0xA3;
       buf = push_byte buf ((0xC0 OR (push_bit 3 (index_id AND 7))) OR (bitmap_id AND 7))
   in buf)"

definition bt_mem_base_disp_reg64 :: "code_buffer \<Rightarrow> reg64 \<Rightarrow> i32 \<Rightarrow> reg64 \<Rightarrow> code_buffer" where
  "bt_mem_base_disp_reg64 buf base disp index =
   (let base_id = reg64_id base;
       index_id = reg64_id index;
       rex_byte = rex True ((drop_bit 3 index_id) \<noteq> 0) False ((drop_bit 3 base_id) \<noteq> 0);
       buf = push_byte buf rex_byte;
       buf = push_byte buf 0x0F;
       buf = push_byte buf 0xA3;
       buf = emit_mem_base_disp buf (index_id AND 7) base_id disp
   in buf)"

definition bt_reg32_reg32 :: "code_buffer \<Rightarrow> u8 \<Rightarrow> u8 \<Rightarrow> code_buffer" where
  "bt_reg32_reg32 buf bitmap_id index_id =
   (let buf = (if ((drop_bit 3 bitmap_id) \<noteq> 0) \<or> ((drop_bit 3 index_id) \<noteq> 0) then (let rex_byte = rex False ((drop_bit 3 index_id) \<noteq> 0) False ((drop_bit 3 bitmap_id) \<noteq> 0);
             buf = push_byte buf rex_byte
         in buf)
        else buf);
       buf = push_byte buf 0x0F;
       buf = push_byte buf 0xA3;
       buf = push_byte buf ((0xC0 OR (push_bit 3 (index_id AND 7))) OR (bitmap_id AND 7))
   in buf)"

definition bt_mem_base_disp_reg32 :: "code_buffer \<Rightarrow> u8 \<Rightarrow> i32 \<Rightarrow> u8 \<Rightarrow> code_buffer" where
  "bt_mem_base_disp_reg32 buf base_id disp index_id =
   (let buf = (if ((drop_bit 3 base_id) \<noteq> 0) \<or> ((drop_bit 3 index_id) \<noteq> 0) then (let rex_byte = rex False ((drop_bit 3 index_id) \<noteq> 0) False ((drop_bit 3 base_id) \<noteq> 0);
             buf = push_byte buf rex_byte
         in buf)
        else buf);
       buf = push_byte buf 0x0F;
       buf = push_byte buf 0xA3;
       buf = emit_mem_base_disp buf (index_id AND 7) base_id disp
   in buf)"

definition bts_reg64_reg64 :: "code_buffer \<Rightarrow> reg64 \<Rightarrow> reg64 \<Rightarrow> code_buffer" where
  "bts_reg64_reg64 buf bitmap index =
   (let bitmap_id = reg64_id bitmap;
       index_id = reg64_id index;
       rex_byte = rex True ((drop_bit 3 index_id) \<noteq> 0) False ((drop_bit 3 bitmap_id) \<noteq> 0);
       buf = push_byte buf rex_byte;
       buf = push_byte buf 0x0F;
       buf = push_byte buf 0xAB;
       buf = push_byte buf ((0xC0 OR (push_bit 3 (index_id AND 7))) OR (bitmap_id AND 7))
   in buf)"

definition bts_mem_base_disp_reg64 :: "code_buffer \<Rightarrow> reg64 \<Rightarrow> i32 \<Rightarrow> reg64 \<Rightarrow> code_buffer" where
  "bts_mem_base_disp_reg64 buf base disp index =
   (let base_id = reg64_id base;
       index_id = reg64_id index;
       rex_byte = rex True ((drop_bit 3 index_id) \<noteq> 0) False ((drop_bit 3 base_id) \<noteq> 0);
       buf = push_byte buf rex_byte;
       buf = push_byte buf 0x0F;
       buf = push_byte buf 0xAB;
       buf = emit_mem_base_disp buf (index_id AND 7) base_id disp
   in buf)"

definition bts_reg32_reg32 :: "code_buffer \<Rightarrow> u8 \<Rightarrow> u8 \<Rightarrow> code_buffer" where
  "bts_reg32_reg32 buf bitmap_id index_id =
   (let buf = (if ((drop_bit 3 bitmap_id) \<noteq> 0) \<or> ((drop_bit 3 index_id) \<noteq> 0) then (let rex_byte = rex False ((drop_bit 3 index_id) \<noteq> 0) False ((drop_bit 3 bitmap_id) \<noteq> 0);
             buf = push_byte buf rex_byte
         in buf)
        else buf);
       buf = push_byte buf 0x0F;
       buf = push_byte buf 0xAB;
       buf = push_byte buf ((0xC0 OR (push_bit 3 (index_id AND 7))) OR (bitmap_id AND 7))
   in buf)"

definition bts_mem_base_disp_reg32 :: "code_buffer \<Rightarrow> u8 \<Rightarrow> i32 \<Rightarrow> u8 \<Rightarrow> code_buffer" where
  "bts_mem_base_disp_reg32 buf base_id disp index_id =
   (let buf = (if ((drop_bit 3 base_id) \<noteq> 0) \<or> ((drop_bit 3 index_id) \<noteq> 0) then (let rex_byte = rex False ((drop_bit 3 index_id) \<noteq> 0) False ((drop_bit 3 base_id) \<noteq> 0);
             buf = push_byte buf rex_byte
         in buf)
        else buf);
       buf = push_byte buf 0x0F;
       buf = push_byte buf 0xAB;
       buf = emit_mem_base_disp buf (index_id AND 7) base_id disp
   in buf)"

definition btr_reg64_reg64 :: "code_buffer \<Rightarrow> reg64 \<Rightarrow> reg64 \<Rightarrow> code_buffer" where
  "btr_reg64_reg64 buf bitmap index =
   (let bitmap_id = reg64_id bitmap;
       index_id = reg64_id index;
       rex_byte = rex True ((drop_bit 3 index_id) \<noteq> 0) False ((drop_bit 3 bitmap_id) \<noteq> 0);
       buf = push_byte buf rex_byte;
       buf = push_byte buf 0x0F;
       buf = push_byte buf 0xB3;
       buf = push_byte buf ((0xC0 OR (push_bit 3 (index_id AND 7))) OR (bitmap_id AND 7))
   in buf)"

definition btr_mem_base_disp_reg64 :: "code_buffer \<Rightarrow> reg64 \<Rightarrow> i32 \<Rightarrow> reg64 \<Rightarrow> code_buffer" where
  "btr_mem_base_disp_reg64 buf base disp index =
   (let base_id = reg64_id base;
       index_id = reg64_id index;
       rex_byte = rex True ((drop_bit 3 index_id) \<noteq> 0) False ((drop_bit 3 base_id) \<noteq> 0);
       buf = push_byte buf rex_byte;
       buf = push_byte buf 0x0F;
       buf = push_byte buf 0xB3;
       buf = emit_mem_base_disp buf (index_id AND 7) base_id disp
   in buf)"

definition btr_reg32_reg32 :: "code_buffer \<Rightarrow> u8 \<Rightarrow> u8 \<Rightarrow> code_buffer" where
  "btr_reg32_reg32 buf bitmap_id index_id =
   (let buf = (if ((drop_bit 3 bitmap_id) \<noteq> 0) \<or> ((drop_bit 3 index_id) \<noteq> 0) then (let rex_byte = rex False ((drop_bit 3 index_id) \<noteq> 0) False ((drop_bit 3 bitmap_id) \<noteq> 0);
             buf = push_byte buf rex_byte
         in buf)
        else buf);
       buf = push_byte buf 0x0F;
       buf = push_byte buf 0xB3;
       buf = push_byte buf ((0xC0 OR (push_bit 3 (index_id AND 7))) OR (bitmap_id AND 7))
   in buf)"

definition btr_mem_base_disp_reg32 :: "code_buffer \<Rightarrow> u8 \<Rightarrow> i32 \<Rightarrow> u8 \<Rightarrow> code_buffer" where
  "btr_mem_base_disp_reg32 buf base_id disp index_id =
   (let buf = (if ((drop_bit 3 base_id) \<noteq> 0) \<or> ((drop_bit 3 index_id) \<noteq> 0) then (let rex_byte = rex False ((drop_bit 3 index_id) \<noteq> 0) False ((drop_bit 3 base_id) \<noteq> 0);
             buf = push_byte buf rex_byte
         in buf)
        else buf);
       buf = push_byte buf 0x0F;
       buf = push_byte buf 0xB3;
       buf = emit_mem_base_disp buf (index_id AND 7) base_id disp
   in buf)"

definition btc_reg64_reg64 :: "code_buffer \<Rightarrow> reg64 \<Rightarrow> reg64 \<Rightarrow> code_buffer" where
  "btc_reg64_reg64 buf bitmap index =
   (let bitmap_id = reg64_id bitmap;
       index_id = reg64_id index;
       rex_byte = rex True ((drop_bit 3 index_id) \<noteq> 0) False ((drop_bit 3 bitmap_id) \<noteq> 0);
       buf = push_byte buf rex_byte;
       buf = push_byte buf 0x0F;
       buf = push_byte buf 0xBB;
       buf = push_byte buf ((0xC0 OR (push_bit 3 (index_id AND 7))) OR (bitmap_id AND 7))
   in buf)"

definition btc_mem_base_disp_reg64 :: "code_buffer \<Rightarrow> reg64 \<Rightarrow> i32 \<Rightarrow> reg64 \<Rightarrow> code_buffer" where
  "btc_mem_base_disp_reg64 buf base disp index =
   (let base_id = reg64_id base;
       index_id = reg64_id index;
       rex_byte = rex True ((drop_bit 3 index_id) \<noteq> 0) False ((drop_bit 3 base_id) \<noteq> 0);
       buf = push_byte buf rex_byte;
       buf = push_byte buf 0x0F;
       buf = push_byte buf 0xBB;
       buf = emit_mem_base_disp buf (index_id AND 7) base_id disp
   in buf)"

definition btc_reg32_reg32 :: "code_buffer \<Rightarrow> u8 \<Rightarrow> u8 \<Rightarrow> code_buffer" where
  "btc_reg32_reg32 buf bitmap_id index_id =
   (let buf = (if ((drop_bit 3 bitmap_id) \<noteq> 0) \<or> ((drop_bit 3 index_id) \<noteq> 0) then (let rex_byte = rex False ((drop_bit 3 index_id) \<noteq> 0) False ((drop_bit 3 bitmap_id) \<noteq> 0);
             buf = push_byte buf rex_byte
         in buf)
        else buf);
       buf = push_byte buf 0x0F;
       buf = push_byte buf 0xBB;
       buf = push_byte buf ((0xC0 OR (push_bit 3 (index_id AND 7))) OR (bitmap_id AND 7))
   in buf)"

definition btc_mem_base_disp_reg32 :: "code_buffer \<Rightarrow> u8 \<Rightarrow> i32 \<Rightarrow> u8 \<Rightarrow> code_buffer" where
  "btc_mem_base_disp_reg32 buf base_id disp index_id =
   (let buf = (if ((drop_bit 3 base_id) \<noteq> 0) \<or> ((drop_bit 3 index_id) \<noteq> 0) then (let rex_byte = rex False ((drop_bit 3 index_id) \<noteq> 0) False ((drop_bit 3 base_id) \<noteq> 0);
             buf = push_byte buf rex_byte
         in buf)
        else buf);
       buf = push_byte buf 0x0F;
       buf = push_byte buf 0xBB;
       buf = emit_mem_base_disp buf (index_id AND 7) base_id disp
   in buf)"

definition lock_bts_mem_base_disp_imm8 :: "code_buffer \<Rightarrow> reg64 \<Rightarrow> i32 \<Rightarrow> u8 \<Rightarrow> code_buffer" where
  "lock_bts_mem_base_disp_imm8 buf base disp imm =
   (let buf = push_byte buf 0xF0;
       base_id = reg64_id base;
       rex_byte = rex True False False ((drop_bit 3 base_id) \<noteq> 0);
       buf = push_byte buf rex_byte;
       buf = push_byte buf 0x0F;
       buf = push_byte buf 0xBA;
       buf = emit_mem_base_disp buf 5 base_id disp;
       buf = push_byte buf imm
   in buf)"

definition lock_btr_mem_base_disp_imm8 :: "code_buffer \<Rightarrow> reg64 \<Rightarrow> i32 \<Rightarrow> u8 \<Rightarrow> code_buffer" where
  "lock_btr_mem_base_disp_imm8 buf base disp imm =
   (let buf = push_byte buf 0xF0;
       base_id = reg64_id base;
       rex_byte = rex True False False ((drop_bit 3 base_id) \<noteq> 0);
       buf = push_byte buf rex_byte;
       buf = push_byte buf 0x0F;
       buf = push_byte buf 0xBA;
       buf = emit_mem_base_disp buf 6 base_id disp;
       buf = push_byte buf imm
   in buf)"

definition lock_btc_mem_base_disp_imm8 :: "code_buffer \<Rightarrow> reg64 \<Rightarrow> i32 \<Rightarrow> u8 \<Rightarrow> code_buffer" where
  "lock_btc_mem_base_disp_imm8 buf base disp imm =
   (let buf = push_byte buf 0xF0;
       base_id = reg64_id base;
       rex_byte = rex True False False ((drop_bit 3 base_id) \<noteq> 0);
       buf = push_byte buf rex_byte;
       buf = push_byte buf 0x0F;
       buf = push_byte buf 0xBA;
       buf = emit_mem_base_disp buf 7 base_id disp;
       buf = push_byte buf imm
   in buf)"

definition lock_bts_mem_base_disp_reg64 :: "code_buffer \<Rightarrow> reg64 \<Rightarrow> i32 \<Rightarrow> reg64 \<Rightarrow> code_buffer" where
  "lock_bts_mem_base_disp_reg64 buf base disp index =
   (let buf = push_byte buf 0xF0;
       base_id = reg64_id base;
       index_id = reg64_id index;
       rex_byte = rex True ((drop_bit 3 index_id) \<noteq> 0) False ((drop_bit 3 base_id) \<noteq> 0);
       buf = push_byte buf rex_byte;
       buf = push_byte buf 0x0F;
       buf = push_byte buf 0xAB;
       buf = emit_mem_base_disp buf (index_id AND 7) base_id disp
   in buf)"

definition lock_btr_mem_base_disp_reg64 :: "code_buffer \<Rightarrow> reg64 \<Rightarrow> i32 \<Rightarrow> reg64 \<Rightarrow> code_buffer" where
  "lock_btr_mem_base_disp_reg64 buf base disp index =
   (let buf = push_byte buf 0xF0;
       base_id = reg64_id base;
       index_id = reg64_id index;
       rex_byte = rex True ((drop_bit 3 index_id) \<noteq> 0) False ((drop_bit 3 base_id) \<noteq> 0);
       buf = push_byte buf rex_byte;
       buf = push_byte buf 0x0F;
       buf = push_byte buf 0xB3;
       buf = emit_mem_base_disp buf (index_id AND 7) base_id disp
   in buf)"

definition lock_btc_mem_base_disp_reg64 :: "code_buffer \<Rightarrow> reg64 \<Rightarrow> i32 \<Rightarrow> reg64 \<Rightarrow> code_buffer" where
  "lock_btc_mem_base_disp_reg64 buf base disp index =
   (let buf = push_byte buf 0xF0;
       base_id = reg64_id base;
       index_id = reg64_id index;
       rex_byte = rex True ((drop_bit 3 index_id) \<noteq> 0) False ((drop_bit 3 base_id) \<noteq> 0);
       buf = push_byte buf rex_byte;
       buf = push_byte buf 0x0F;
       buf = push_byte buf 0xBB;
       buf = emit_mem_base_disp buf (index_id AND 7) base_id disp
   in buf)"

lemmas bit_ops_defs =
  popcnt_reg64_reg64_def popcnt_reg64_mem_base_disp_def popcnt_reg32_reg32_def
  popcnt_reg32_mem_base_disp_def crc32_reg64_reg64_def crc32_reg64_mem_base_disp_def
  bsf_reg64_reg64_def bsf_reg64_mem_base_disp_def bsr_reg64_reg64_def bsr_reg64_mem_base_disp_def
  tzcnt_reg64_reg64_def tzcnt_reg64_mem_base_disp_def bt_reg64_reg64_def
  bt_mem_base_disp_reg64_def bt_reg32_reg32_def bt_mem_base_disp_reg32_def bts_reg64_reg64_def
  bts_mem_base_disp_reg64_def bts_reg32_reg32_def bts_mem_base_disp_reg32_def btr_reg64_reg64_def
  btr_mem_base_disp_reg64_def btr_reg32_reg32_def btr_mem_base_disp_reg32_def btc_reg64_reg64_def
  btc_mem_base_disp_reg64_def btc_reg32_reg32_def btc_mem_base_disp_reg32_def
  lock_bts_mem_base_disp_imm8_def lock_bts_mem_base_disp_reg64_def lock_btr_mem_base_disp_imm8_def
  lock_btr_mem_base_disp_reg64_def lock_btc_mem_base_disp_imm8_def
  lock_btc_mem_base_disp_reg64_def

lemma bit_ops_emits [emits_rules]:
  "emits buf (popcnt_reg64_reg64 buf dst src) [ctl64 I_POPCNT [A_Reg (reg_no dst), A_Reg (reg_no src)]]"
  "emits buf (popcnt_reg64_mem_base_disp buf dst base disp) [ctl64 I_POPCNT [A_Reg (reg_no dst), base_disp base disp]]"
  "unat dst_id < 16 \<Longrightarrow> unat src_id < 16 \<Longrightarrow> emits buf (popcnt_reg32_reg32 buf dst_id src_id) [ctl32 I_POPCNT [A_Reg (unat dst_id), A_Reg (unat src_id)]]"
  "unat dst_id < 16 \<Longrightarrow> unat base_id < 16 \<Longrightarrow> emits buf (popcnt_reg32_mem_base_disp buf dst_id base_id disp) [ctl32 I_POPCNT [A_Reg (unat dst_id), A_Mem (Some (unat base_id)) None disp]]"
  "emits buf (crc32_reg64_reg64 buf dst src) [ctl64 I_CRC32 [A_Reg (reg_no dst), A_Reg (reg_no src)]]"
  "emits buf (crc32_reg64_mem_base_disp buf dst base disp) [ctl64 I_CRC32 [A_Reg (reg_no dst), base_disp base disp]]"
  "emits buf (bsf_reg64_reg64 buf dst src) [ctl64 I_BSF [A_Reg (reg_no dst), A_Reg (reg_no src)]]"
  "emits buf (bsf_reg64_mem_base_disp buf dst base disp) [ctl64 I_BSF [A_Reg (reg_no dst), base_disp base disp]]"
  "emits buf (bsr_reg64_reg64 buf dst src) [ctl64 I_BSR [A_Reg (reg_no dst), A_Reg (reg_no src)]]"
  "emits buf (bsr_reg64_mem_base_disp buf dst base disp) [ctl64 I_BSR [A_Reg (reg_no dst), base_disp base disp]]"
  "emits buf (tzcnt_reg64_reg64 buf dst src) [ctl64 I_TZCNT [A_Reg (reg_no dst), A_Reg (reg_no src)]]"
  "emits buf (tzcnt_reg64_mem_base_disp buf dst base disp) [ctl64 I_TZCNT [A_Reg (reg_no dst), base_disp base disp]]"
  "emits buf (bt_reg64_reg64 buf bitmap index) [ctl64 I_BT [A_Reg (reg_no bitmap), A_Reg (reg_no index)]]"
  "emits buf (bt_mem_base_disp_reg64 buf base disp index) [ctl64 I_BT [base_disp base disp, A_Reg (reg_no index)]]"
  "unat bitmap_id < 16 \<Longrightarrow> unat index_id < 16 \<Longrightarrow> emits buf (bt_reg32_reg32 buf bitmap_id index_id) [ctl32 I_BT [A_Reg (unat bitmap_id), A_Reg (unat index_id)]]"
  "unat base_id < 16 \<Longrightarrow> unat index_id < 16 \<Longrightarrow> emits buf (bt_mem_base_disp_reg32 buf base_id disp index_id) [ctl32 I_BT [A_Mem (Some (unat base_id)) None disp, A_Reg (unat index_id)]]"
  "emits buf (bts_reg64_reg64 buf bitmap index) [ctl64 I_BTS [A_Reg (reg_no bitmap), A_Reg (reg_no index)]]"
  "emits buf (bts_mem_base_disp_reg64 buf base disp index) [ctl64 I_BTS [base_disp base disp, A_Reg (reg_no index)]]"
  "unat bitmap_id < 16 \<Longrightarrow> unat index_id < 16 \<Longrightarrow> emits buf (bts_reg32_reg32 buf bitmap_id index_id) [ctl32 I_BTS [A_Reg (unat bitmap_id), A_Reg (unat index_id)]]"
  "unat base_id < 16 \<Longrightarrow> unat index_id < 16 \<Longrightarrow> emits buf (bts_mem_base_disp_reg32 buf base_id disp index_id) [ctl32 I_BTS [A_Mem (Some (unat base_id)) None disp, A_Reg (unat index_id)]]"
  "emits buf (btr_reg64_reg64 buf bitmap index) [ctl64 I_BTR [A_Reg (reg_no bitmap), A_Reg (reg_no index)]]"
  "emits buf (btr_mem_base_disp_reg64 buf base disp index) [ctl64 I_BTR [base_disp base disp, A_Reg (reg_no index)]]"
  "unat bitmap_id < 16 \<Longrightarrow> unat index_id < 16 \<Longrightarrow> emits buf (btr_reg32_reg32 buf bitmap_id index_id) [ctl32 I_BTR [A_Reg (unat bitmap_id), A_Reg (unat index_id)]]"
  "unat base_id < 16 \<Longrightarrow> unat index_id < 16 \<Longrightarrow> emits buf (btr_mem_base_disp_reg32 buf base_id disp index_id) [ctl32 I_BTR [A_Mem (Some (unat base_id)) None disp, A_Reg (unat index_id)]]"
  "emits buf (btc_reg64_reg64 buf bitmap index) [ctl64 I_BTC [A_Reg (reg_no bitmap), A_Reg (reg_no index)]]"
  "emits buf (btc_mem_base_disp_reg64 buf base disp index) [ctl64 I_BTC [base_disp base disp, A_Reg (reg_no index)]]"
  "unat bitmap_id < 16 \<Longrightarrow> unat index_id < 16 \<Longrightarrow> emits buf (btc_reg32_reg32 buf bitmap_id index_id) [ctl32 I_BTC [A_Reg (unat bitmap_id), A_Reg (unat index_id)]]"
  "unat base_id < 16 \<Longrightarrow> unat index_id < 16 \<Longrightarrow> emits buf (btc_mem_base_disp_reg32 buf base_id disp index_id) [ctl32 I_BTC [A_Mem (Some (unat base_id)) None disp, A_Reg (unat index_id)]]"
  "emits buf (lock_bts_mem_base_disp_imm8 buf base disp imm8) [Insn True None (Inr I_BTS) W64 [base_disp base disp, A_Imm (uint imm8)]]"
  "emits buf (lock_bts_mem_base_disp_reg64 buf base disp index) [Insn True None (Inr I_BTS) W64 [base_disp base disp, A_Reg (reg_no index)]]"
  "emits buf (lock_btr_mem_base_disp_imm8 buf base disp imm8) [Insn True None (Inr I_BTR) W64 [base_disp base disp, A_Imm (uint imm8)]]"
  "emits buf (lock_btr_mem_base_disp_reg64 buf base disp index) [Insn True None (Inr I_BTR) W64 [base_disp base disp, A_Reg (reg_no index)]]"
  "emits buf (lock_btc_mem_base_disp_imm8 buf base disp imm8) [Insn True None (Inr I_BTC) W64 [base_disp base disp, A_Imm (uint imm8)]]"
  "emits buf (lock_btc_mem_base_disp_reg64 buf base disp index) [Insn True None (Inr I_BTC) W64 [base_disp base disp, A_Reg (reg_no index)]]"
  by (rule emits_fresh; simp add: bit_ops_defs enc_eval)+

end
