(* ===== verification/Encode_Bits.thy ===== *)
theory Encode_Bits
  imports Encode_Dispatch Encode_Bit_Ops
begin

text \<open>
  \<^verbatim>\<open>crates/paideia-as-encoder/src/encode_instruction/bit_scan.rs\<close> and \<^verbatim>\<open>bit_test.rs\<close>: POPCNT, BSF, BSR,
  TZCNT, CRC32 and the bit tests.
\<close>

definition encode_popcnt :: "instruction \<Rightarrow> code_buffer \<Rightarrow> int_width \<Rightarrow> enc_result" where
  "encode_popcnt inst buf width =
     (if width \<noteq> W32 \<and> width \<noteq> W64 then err (Unsupported ''E0039: popcnt only supports W32 and W64'') buf
      else case operands inst of
        [Reg dest, Reg src] \<Rightarrow>
          (case width of
             W64 \<Rightarrow>
               try_op (reg64_from dest) buf (\<lambda>d.
               try_op (reg64_from src) buf (\<lambda>s. ok (popcnt_reg64_reg64 buf d s)))
           | W32 \<Rightarrow>
               try_op (reg32_from dest) buf (\<lambda>d.
               try_op (reg32_from src) buf (\<lambda>s. ok (popcnt_reg32_reg32 buf (reg32_id d) (reg32_id s))))
           | _ \<Rightarrow> (Inl (Panic ''unreachable''), buf))
      | [Reg dest, MemSib base None scale disp] \<Rightarrow>
          (case width of
             W64 \<Rightarrow>
               try_op (reg64_from dest) buf (\<lambda>d.
               try_op (reg64_from base) buf (\<lambda>b. ok (popcnt_reg64_mem_base_disp buf d b disp)))
           | W32 \<Rightarrow>
               try_op (reg32_from dest) buf (\<lambda>d.
               try_op (reg32_from base) buf (\<lambda>b.
                 ok (popcnt_reg32_mem_base_disp buf (reg32_id d) (reg32_id b) disp)))
           | _ \<Rightarrow> (Inl (Panic ''unreachable''), buf))
      | [Reg dest, MemSib base (Some index) scale disp] \<Rightarrow> err (OperandShape (M_Popcnt width)) buf
      | _ \<Rightarrow> err (OperandShape (M_Popcnt width)) buf)"

definition encode_bsf :: "instruction \<Rightarrow> code_buffer \<Rightarrow> int_width \<Rightarrow> enc_result" where
  "encode_bsf inst buf width =
     (if width \<noteq> W64 then err (Unsupported ''E0050: bsf only supports W64'') buf
      else case operands inst of
        [Reg dest, Reg src] \<Rightarrow>
          try_op (reg64_from dest) buf (\<lambda>d.
          try_op (reg64_from src) buf (\<lambda>s. ok (bsf_reg64_reg64 buf d s)))
      | [Reg dest, MemSib base None scale disp] \<Rightarrow>
          try_op (reg64_from dest) buf (\<lambda>d.
          try_op (reg64_from base) buf (\<lambda>b. ok (bsf_reg64_mem_base_disp buf d b disp)))
      | [Reg dest, MemSib base (Some index) scale disp] \<Rightarrow> err (OperandShape (M_Bsf width)) buf
      | _ \<Rightarrow> err (OperandShape (M_Bsf width)) buf)"

definition encode_bsr :: "instruction \<Rightarrow> code_buffer \<Rightarrow> int_width \<Rightarrow> enc_result" where
  "encode_bsr inst buf width =
     (if width \<noteq> W64 then err (Unsupported ''E0051: bsr only supports W64'') buf
      else case operands inst of
        [Reg dest, Reg src] \<Rightarrow>
          try_op (reg64_from dest) buf (\<lambda>d.
          try_op (reg64_from src) buf (\<lambda>s. ok (bsr_reg64_reg64 buf d s)))
      | [Reg dest, MemSib base None scale disp] \<Rightarrow>
          try_op (reg64_from dest) buf (\<lambda>d.
          try_op (reg64_from base) buf (\<lambda>b. ok (bsr_reg64_mem_base_disp buf d b disp)))
      | [Reg dest, MemSib base (Some index) scale disp] \<Rightarrow> err (OperandShape (M_Bsr width)) buf
      | _ \<Rightarrow> err (OperandShape (M_Bsr width)) buf)"

definition encode_tzcnt :: "instruction \<Rightarrow> code_buffer \<Rightarrow> int_width \<Rightarrow> enc_result" where
  "encode_tzcnt inst buf width =
     (if width \<noteq> W64 then err (Unsupported ''E0052: tzcnt only supports W64'') buf
      else case operands inst of
        [Reg dest, Reg src] \<Rightarrow>
          try_op (reg64_from dest) buf (\<lambda>d.
          try_op (reg64_from src) buf (\<lambda>s. ok (tzcnt_reg64_reg64 buf d s)))
      | [Reg dest, MemSib base None scale disp] \<Rightarrow>
          try_op (reg64_from dest) buf (\<lambda>d.
          try_op (reg64_from base) buf (\<lambda>b. ok (tzcnt_reg64_mem_base_disp buf d b disp)))
      | [Reg dest, MemSib base (Some index) scale disp] \<Rightarrow> err (OperandShape (M_Tzcnt width)) buf
      | _ \<Rightarrow> err (OperandShape (M_Tzcnt width)) buf)"

definition encode_crc32 :: "instruction \<Rightarrow> code_buffer \<Rightarrow> int_width \<Rightarrow> enc_result" where
  "encode_crc32 inst buf width =
     (if width \<noteq> W64 then err (Unsupported ''E0053: crc32 only supports W64'') buf
      else case operands inst of
        [Reg dest, Reg src] \<Rightarrow>
          try_op (reg64_from dest) buf (\<lambda>d.
          try_op (reg64_from src) buf (\<lambda>s. ok (crc32_reg64_reg64 buf d s)))
      | [Reg dest, MemSib base None scale disp] \<Rightarrow>
          try_op (reg64_from dest) buf (\<lambda>d.
          try_op (reg64_from base) buf (\<lambda>b. ok (crc32_reg64_mem_base_disp buf d b disp)))
      | [Reg dest, MemSib base (Some index) scale disp] \<Rightarrow> err (OperandShape (M_Crc32 width)) buf
      | _ \<Rightarrow> err (OperandShape (M_Crc32 width)) buf)"

definition encode_bt :: "instruction \<Rightarrow> code_buffer \<Rightarrow> int_width \<Rightarrow> enc_result" where
  "encode_bt inst buf width =
     (if width \<noteq> W32 \<and> width \<noteq> W64 then err (Unsupported ''E0040: bt only supports W32 and W64'') buf
      else case operands inst of
        [Reg bitmap, Reg index] \<Rightarrow>
          (case width of
             W64 \<Rightarrow>
               try_op (reg64_from bitmap) buf (\<lambda>m.
               try_op (reg64_from index) buf (\<lambda>i. ok (bt_reg64_reg64 buf m i)))
           | W32 \<Rightarrow>
               try_op (reg32_from bitmap) buf (\<lambda>m.
               try_op (reg32_from index) buf (\<lambda>i. ok (bt_reg32_reg32 buf (reg32_id m) (reg32_id i))))
           | _ \<Rightarrow> (Inl (Panic ''unreachable''), buf))
      | [MemSib base None scale disp, Reg index_reg] \<Rightarrow>
          (case width of
             W64 \<Rightarrow>
               try_op (reg64_from base) buf (\<lambda>b.
               try_op (reg64_from index_reg) buf (\<lambda>i. ok (bt_mem_base_disp_reg64 buf b disp i)))
           | W32 \<Rightarrow>
               try_op (reg32_from base) buf (\<lambda>b.
               try_op (reg32_from index_reg) buf (\<lambda>i.
                 ok (bt_mem_base_disp_reg32 buf (reg32_id b) disp (reg32_id i))))
           | _ \<Rightarrow> (Inl (Panic ''unreachable''), buf))
      | [MemSib base (Some index) scale disp, x] \<Rightarrow> err (OperandShape (M_Bt width)) buf
      | _ \<Rightarrow> err (OperandShape (M_Bt width)) buf)"

definition encode_bts :: "instruction \<Rightarrow> code_buffer \<Rightarrow> int_width \<Rightarrow> enc_result" where
  "encode_bts inst buf width =
     (if width \<noteq> W32 \<and> width \<noteq> W64 then err (Unsupported ''E0041: bts only supports W32 and W64'') buf
      else case operands inst of
        [Reg bitmap, Reg index] \<Rightarrow>
          (case width of
             W64 \<Rightarrow>
               try_op (reg64_from bitmap) buf (\<lambda>m.
               try_op (reg64_from index) buf (\<lambda>i. ok (bts_reg64_reg64 buf m i)))
           | W32 \<Rightarrow>
               try_op (reg32_from bitmap) buf (\<lambda>m.
               try_op (reg32_from index) buf (\<lambda>i. ok (bts_reg32_reg32 buf (reg32_id m) (reg32_id i))))
           | _ \<Rightarrow> (Inl (Panic ''unreachable''), buf))
      | [MemSib base None scale disp, Reg index_reg] \<Rightarrow>
          (case width of
             W64 \<Rightarrow>
               try_op (reg64_from base) buf (\<lambda>b.
               try_op (reg64_from index_reg) buf (\<lambda>i. ok (bts_mem_base_disp_reg64 buf b disp i)))
           | W32 \<Rightarrow>
               try_op (reg32_from base) buf (\<lambda>b.
               try_op (reg32_from index_reg) buf (\<lambda>i.
                 ok (bts_mem_base_disp_reg32 buf (reg32_id b) disp (reg32_id i))))
           | _ \<Rightarrow> (Inl (Panic ''unreachable''), buf))
      | [MemSib base (Some index) scale disp, x] \<Rightarrow> err (OperandShape (M_Bts width)) buf
      | _ \<Rightarrow> err (OperandShape (M_Bts width)) buf)"

definition encode_btr :: "instruction \<Rightarrow> code_buffer \<Rightarrow> int_width \<Rightarrow> enc_result" where
  "encode_btr inst buf width =
     (if width \<noteq> W32 \<and> width \<noteq> W64 then err (Unsupported ''E0042: btr only supports W32 and W64'') buf
      else case operands inst of
        [Reg bitmap, Reg index] \<Rightarrow>
          (case width of
             W64 \<Rightarrow>
               try_op (reg64_from bitmap) buf (\<lambda>m.
               try_op (reg64_from index) buf (\<lambda>i. ok (btr_reg64_reg64 buf m i)))
           | W32 \<Rightarrow>
               try_op (reg32_from bitmap) buf (\<lambda>m.
               try_op (reg32_from index) buf (\<lambda>i. ok (btr_reg32_reg32 buf (reg32_id m) (reg32_id i))))
           | _ \<Rightarrow> (Inl (Panic ''unreachable''), buf))
      | [MemSib base None scale disp, Reg index_reg] \<Rightarrow>
          (case width of
             W64 \<Rightarrow>
               try_op (reg64_from base) buf (\<lambda>b.
               try_op (reg64_from index_reg) buf (\<lambda>i. ok (btr_mem_base_disp_reg64 buf b disp i)))
           | W32 \<Rightarrow>
               try_op (reg32_from base) buf (\<lambda>b.
               try_op (reg32_from index_reg) buf (\<lambda>i.
                 ok (btr_mem_base_disp_reg32 buf (reg32_id b) disp (reg32_id i))))
           | _ \<Rightarrow> (Inl (Panic ''unreachable''), buf))
      | [MemSib base (Some index) scale disp, x] \<Rightarrow> err (OperandShape (M_Btr width)) buf
      | _ \<Rightarrow> err (OperandShape (M_Btr width)) buf)"

definition encode_btc :: "instruction \<Rightarrow> code_buffer \<Rightarrow> int_width \<Rightarrow> enc_result" where
  "encode_btc inst buf width =
     (if width \<noteq> W32 \<and> width \<noteq> W64 then err (Unsupported ''E0043: btc only supports W32 and W64'') buf
      else case operands inst of
        [Reg bitmap, Reg index] \<Rightarrow>
          (case width of
             W64 \<Rightarrow>
               try_op (reg64_from bitmap) buf (\<lambda>m.
               try_op (reg64_from index) buf (\<lambda>i. ok (btc_reg64_reg64 buf m i)))
           | W32 \<Rightarrow>
               try_op (reg32_from bitmap) buf (\<lambda>m.
               try_op (reg32_from index) buf (\<lambda>i. ok (btc_reg32_reg32 buf (reg32_id m) (reg32_id i))))
           | _ \<Rightarrow> (Inl (Panic ''unreachable''), buf))
      | [MemSib base None scale disp, Reg index_reg] \<Rightarrow>
          (case width of
             W64 \<Rightarrow>
               try_op (reg64_from base) buf (\<lambda>b.
               try_op (reg64_from index_reg) buf (\<lambda>i. ok (btc_mem_base_disp_reg64 buf b disp i)))
           | W32 \<Rightarrow>
               try_op (reg32_from base) buf (\<lambda>b.
               try_op (reg32_from index_reg) buf (\<lambda>i.
                 ok (btc_mem_base_disp_reg32 buf (reg32_id b) disp (reg32_id i))))
           | _ \<Rightarrow> (Inl (Panic ''unreachable''), buf))
      | [MemSib base (Some index) scale disp, x] \<Rightarrow> err (OperandShape (M_Btc width)) buf
      | _ \<Rightarrow> err (OperandShape (M_Btc width)) buf)"

section \<open>The contract\<close>

interpretation popcnt_enc: encoder "(\<lambda>inst buf. encode_popcnt inst buf width)" "asm_insn (Inr I_POPCNT) width" no_rsp_index for width
  by (cases width; rule encoderI; auto split: dispatch_splits simp: encode_popcnt_def dispatch_simps spec_simps
      intro!: emits_rules [THEN deliversI])

interpretation bsf_enc: encoder "(\<lambda>inst buf. encode_bsf inst buf width)" "asm_insn (Inr I_BSF) width" no_rsp_index for width
  by (cases width; rule encoderI; auto split: dispatch_splits simp: encode_bsf_def dispatch_simps spec_simps
      intro!: emits_rules [THEN deliversI])

interpretation bsr_enc: encoder "(\<lambda>inst buf. encode_bsr inst buf width)" "asm_insn (Inr I_BSR) width" no_rsp_index for width
  by (cases width; rule encoderI; auto split: dispatch_splits simp: encode_bsr_def dispatch_simps spec_simps
      intro!: emits_rules [THEN deliversI])

interpretation tzcnt_enc: encoder "(\<lambda>inst buf. encode_tzcnt inst buf width)" "asm_insn (Inr I_TZCNT) width" no_rsp_index for width
  by (cases width; rule encoderI; auto split: dispatch_splits simp: encode_tzcnt_def dispatch_simps spec_simps
      intro!: emits_rules [THEN deliversI])

interpretation crc32_enc: encoder "(\<lambda>inst buf. encode_crc32 inst buf width)" "asm_insn (Inr I_CRC32) width" no_rsp_index for width
  by (cases width; rule encoderI; auto split: dispatch_splits simp: encode_crc32_def dispatch_simps spec_simps
      intro!: emits_rules [THEN deliversI])

interpretation bt_enc: encoder "(\<lambda>inst buf. encode_bt inst buf width)" "asm_insn (Inr I_BT) width" no_rsp_index for width
  by (cases width; rule encoderI; auto split: dispatch_splits simp: encode_bt_def dispatch_simps spec_simps
      intro!: emits_rules [THEN deliversI])

interpretation bts_enc: encoder "(\<lambda>inst buf. encode_bts inst buf width)" "asm_insn (Inr I_BTS) width" no_rsp_index for width
  by (cases width; rule encoderI; auto split: dispatch_splits simp: encode_bts_def dispatch_simps spec_simps
      intro!: emits_rules [THEN deliversI])

interpretation btr_enc: encoder "(\<lambda>inst buf. encode_btr inst buf width)" "asm_insn (Inr I_BTR) width" no_rsp_index for width
  by (cases width; rule encoderI; auto split: dispatch_splits simp: encode_btr_def dispatch_simps spec_simps
      intro!: emits_rules [THEN deliversI])

interpretation btc_enc: encoder "(\<lambda>inst buf. encode_btc inst buf width)" "asm_insn (Inr I_BTC) width" no_rsp_index for width
  by (cases width; rule encoderI; auto split: dispatch_splits simp: encode_btc_def dispatch_simps spec_simps
      intro!: emits_rules [THEN deliversI])

end
