(* ===== verification/Encode_Shift_Logical.thy ===== *)
theory Encode_Shift_Logical
  imports Encoder_Bytes
begin

text \<open>
  \<^verbatim>\<open>crates/paideia-as-encoder/src/encode/shift_logical.rs\<close>: shifts, rotates, AND/OR/XOR and IMUL.
\<close>

definition sar_reg64_imm8 :: "code_buffer \<Rightarrow> reg64 \<Rightarrow> u8 \<Rightarrow> code_buffer" where
  "sar_reg64_imm8 buf reg imm =
   (let reg_id = reg64_id reg;
       rex_byte = rex True False False ((drop_bit 3 reg_id) \<noteq> 0);
       buf = push_byte buf rex_byte;
       buf = push_byte buf 0xC1;
       buf = push_byte buf (0xF8 OR (reg_id AND 7));
       buf = push_byte buf imm
   in buf)"

definition rol_reg64_imm8 :: "code_buffer \<Rightarrow> reg64 \<Rightarrow> u8 \<Rightarrow> code_buffer" where
  "rol_reg64_imm8 buf reg imm =
   (let reg_id = reg64_id reg;
       rex_byte = rex True False False ((drop_bit 3 reg_id) \<noteq> 0);
       buf = (if imm = 1 then (let buf = push_byte buf rex_byte;
             buf = push_byte buf 0xD1;
             buf = push_byte buf (0xC0 OR (reg_id AND 7))
         in buf)
        else (let buf = push_byte buf rex_byte;
             buf = push_byte buf 0xC1;
             buf = push_byte buf (0xC0 OR (reg_id AND 7));
             buf = push_byte buf imm
         in buf))
   in buf)"

definition rol_reg64_cl :: "code_buffer \<Rightarrow> reg64 \<Rightarrow> code_buffer" where
  "rol_reg64_cl buf reg =
   (let reg_id = reg64_id reg;
       rex_byte = rex True False False ((drop_bit 3 reg_id) \<noteq> 0);
       buf = push_byte buf rex_byte;
       buf = push_byte buf 0xD3;
       buf = push_byte buf (0xC0 OR (reg_id AND 7))
   in buf)"

definition rol_reg32_imm8 :: "code_buffer \<Rightarrow> u8 \<Rightarrow> u8 \<Rightarrow> code_buffer" where
  "rol_reg32_imm8 buf reg_id imm =
   (if imm = 1 then (let buf = (if (drop_bit 3 reg_id) \<noteq> 0 then push_byte buf (rex False False False True)
              else buf);
             buf = push_byte buf 0xD1;
             buf = push_byte buf (0xC0 OR (reg_id AND 7))
         in buf)
        else (let buf = (if (drop_bit 3 reg_id) \<noteq> 0 then push_byte buf (rex False False False True)
              else buf);
             buf = push_byte buf 0xC1;
             buf = push_byte buf (0xC0 OR (reg_id AND 7));
             buf = push_byte buf imm
         in buf))"

definition rol_reg32_cl :: "code_buffer \<Rightarrow> u8 \<Rightarrow> code_buffer" where
  "rol_reg32_cl buf reg_id =
   (let buf = (if (drop_bit 3 reg_id) \<noteq> 0 then push_byte buf (rex False False False True)
        else buf);
       buf = push_byte buf 0xD3;
       buf = push_byte buf (0xC0 OR (reg_id AND 7))
   in buf)"

definition rol_reg16_imm8 :: "code_buffer \<Rightarrow> u8 \<Rightarrow> u8 \<Rightarrow> code_buffer" where
  "rol_reg16_imm8 buf reg_id imm =
   (if imm = 1 then (let buf = push_byte buf 0x66;
             buf = (if (drop_bit 3 reg_id) \<noteq> 0 then push_byte buf (rex False False False True)
              else buf);
             buf = push_byte buf 0xD1;
             buf = push_byte buf (0xC0 OR (reg_id AND 7))
         in buf)
        else (let buf = push_byte buf 0x66;
             buf = (if (drop_bit 3 reg_id) \<noteq> 0 then push_byte buf (rex False False False True)
              else buf);
             buf = push_byte buf 0xC1;
             buf = push_byte buf (0xC0 OR (reg_id AND 7));
             buf = push_byte buf imm
         in buf))"

definition rol_reg16_cl :: "code_buffer \<Rightarrow> u8 \<Rightarrow> code_buffer" where
  "rol_reg16_cl buf reg_id =
   (let buf = push_byte buf 0x66;
       buf = (if (drop_bit 3 reg_id) \<noteq> 0 then push_byte buf (rex False False False True)
        else buf);
       buf = push_byte buf 0xD3;
       buf = push_byte buf (0xC0 OR (reg_id AND 7))
   in buf)"

definition ror_reg64_imm8 :: "code_buffer \<Rightarrow> reg64 \<Rightarrow> u8 \<Rightarrow> code_buffer" where
  "ror_reg64_imm8 buf reg imm =
   (let reg_id = reg64_id reg;
       rex_byte = rex True False False ((drop_bit 3 reg_id) \<noteq> 0);
       buf = (if imm = 1 then (let buf = push_byte buf rex_byte;
             buf = push_byte buf 0xD1;
             buf = push_byte buf (0xC8 OR (reg_id AND 7))
         in buf)
        else (let buf = push_byte buf rex_byte;
             buf = push_byte buf 0xC1;
             buf = push_byte buf (0xC8 OR (reg_id AND 7));
             buf = push_byte buf imm
         in buf))
   in buf)"

definition ror_reg64_cl :: "code_buffer \<Rightarrow> reg64 \<Rightarrow> code_buffer" where
  "ror_reg64_cl buf reg =
   (let reg_id = reg64_id reg;
       rex_byte = rex True False False ((drop_bit 3 reg_id) \<noteq> 0);
       buf = push_byte buf rex_byte;
       buf = push_byte buf 0xD3;
       buf = push_byte buf (0xC8 OR (reg_id AND 7))
   in buf)"

definition ror_reg32_imm8 :: "code_buffer \<Rightarrow> u8 \<Rightarrow> u8 \<Rightarrow> code_buffer" where
  "ror_reg32_imm8 buf reg_id imm =
   (if imm = 1 then (let buf = (if (drop_bit 3 reg_id) \<noteq> 0 then push_byte buf (rex False False False True)
              else buf);
             buf = push_byte buf 0xD1;
             buf = push_byte buf (0xC8 OR (reg_id AND 7))
         in buf)
        else (let buf = (if (drop_bit 3 reg_id) \<noteq> 0 then push_byte buf (rex False False False True)
              else buf);
             buf = push_byte buf 0xC1;
             buf = push_byte buf (0xC8 OR (reg_id AND 7));
             buf = push_byte buf imm
         in buf))"

definition ror_reg32_cl :: "code_buffer \<Rightarrow> u8 \<Rightarrow> code_buffer" where
  "ror_reg32_cl buf reg_id =
   (let buf = (if (drop_bit 3 reg_id) \<noteq> 0 then push_byte buf (rex False False False True)
        else buf);
       buf = push_byte buf 0xD3;
       buf = push_byte buf (0xC8 OR (reg_id AND 7))
   in buf)"

definition xor_reg64_reg64 :: "code_buffer \<Rightarrow> reg64 \<Rightarrow> reg64 \<Rightarrow> code_buffer" where
  "xor_reg64_reg64 buf dst src =
   (let dst_id = reg64_id dst;
       src_id = reg64_id src;
       rex_byte = rex True ((drop_bit 3 src_id) \<noteq> 0) False ((drop_bit 3 dst_id) \<noteq> 0);
       buf = push_byte buf rex_byte;
       buf = push_byte buf 0x31;
       buf = push_byte buf ((0xC0 OR (push_bit 3 (src_id AND 7))) OR (dst_id AND 7))
   in buf)"

definition or_reg64_imm8 :: "code_buffer \<Rightarrow> reg64 \<Rightarrow> i8 \<Rightarrow> code_buffer" where
  "or_reg64_imm8 buf dst imm =
   (let reg_id = reg64_id dst;
       rex_byte = rex True False False ((drop_bit 3 reg_id) \<noteq> 0);
       buf = push_byte buf rex_byte;
       buf = push_byte buf 0x83;
       buf = push_byte buf (0xC8 OR (reg_id AND 7));
       buf = push_byte buf imm
   in buf)"

definition or_reg64_imm32 :: "code_buffer \<Rightarrow> reg64 \<Rightarrow> i32 \<Rightarrow> code_buffer" where
  "or_reg64_imm32 buf dst imm =
   (let reg_id = reg64_id dst;
       rex_byte = rex True False False ((drop_bit 3 reg_id) \<noteq> 0);
       buf = push_byte buf rex_byte;
       buf = push_byte buf 0x81;
       buf = push_byte buf (0xC8 OR (reg_id AND 7));
       buf = extend_buf buf (le_bytes32 imm)
   in buf)"

definition or_reg32_imm8 :: "code_buffer \<Rightarrow> reg64 \<Rightarrow> i8 \<Rightarrow> code_buffer" where
  "or_reg32_imm8 buf dst imm =
   (let reg_id = reg64_id dst;
       buf = (if (drop_bit 3 reg_id) \<noteq> 0 then push_byte buf (rex False False False True)
        else buf);
       buf = push_byte buf 0x83;
       buf = push_byte buf (0xC8 OR (reg_id AND 7));
       buf = push_byte buf imm
   in buf)"

definition or_reg32_imm32 :: "code_buffer \<Rightarrow> reg64 \<Rightarrow> i32 \<Rightarrow> code_buffer" where
  "or_reg32_imm32 buf dst imm =
   (let reg_id = reg64_id dst;
       buf = (if (drop_bit 3 reg_id) \<noteq> 0 then push_byte buf (rex False False False True)
        else buf);
       buf = push_byte buf 0x81;
       buf = push_byte buf (0xC8 OR (reg_id AND 7));
       buf = extend_buf buf (le_bytes32 imm)
   in buf)"

definition and_reg64_reg64 :: "code_buffer \<Rightarrow> reg64 \<Rightarrow> reg64 \<Rightarrow> code_buffer" where
  "and_reg64_reg64 buf dst src =
   (let dst_id = reg64_id dst;
       src_id = reg64_id src;
       rex_byte = rex True ((drop_bit 3 src_id) \<noteq> 0) False ((drop_bit 3 dst_id) \<noteq> 0);
       buf = push_byte buf rex_byte;
       buf = push_byte buf 0x21;
       buf = push_byte buf ((0xC0 OR (push_bit 3 (src_id AND 7))) OR (dst_id AND 7))
   in buf)"

definition and_reg64_imm8 :: "code_buffer \<Rightarrow> reg64 \<Rightarrow> i8 \<Rightarrow> code_buffer" where
  "and_reg64_imm8 buf dst imm =
   (let reg_id = reg64_id dst;
       rex_byte = rex True False False ((drop_bit 3 reg_id) \<noteq> 0);
       buf = push_byte buf rex_byte;
       buf = push_byte buf 0x83;
       buf = push_byte buf (0xE0 OR (reg_id AND 7));
       buf = push_byte buf imm
   in buf)"

definition and_reg64_imm32 :: "code_buffer \<Rightarrow> reg64 \<Rightarrow> i32 \<Rightarrow> code_buffer" where
  "and_reg64_imm32 buf dst imm =
   (let reg_id = reg64_id dst;
       rex_byte = rex True False False ((drop_bit 3 reg_id) \<noteq> 0);
       buf = push_byte buf rex_byte;
       buf = push_byte buf 0x81;
       buf = push_byte buf (0xE0 OR (reg_id AND 7));
       buf = extend_buf buf (le_bytes32 imm)
   in buf)"

definition or_reg64_reg64 :: "code_buffer \<Rightarrow> reg64 \<Rightarrow> reg64 \<Rightarrow> code_buffer" where
  "or_reg64_reg64 buf dst src =
   (let dst_id = reg64_id dst;
       src_id = reg64_id src;
       rex_byte = rex True ((drop_bit 3 src_id) \<noteq> 0) False ((drop_bit 3 dst_id) \<noteq> 0);
       buf = push_byte buf rex_byte;
       buf = push_byte buf 0x09;
       buf = push_byte buf ((0xC0 OR (push_bit 3 (src_id AND 7))) OR (dst_id AND 7))
   in buf)"

definition xor_reg64_imm8 :: "code_buffer \<Rightarrow> reg64 \<Rightarrow> i8 \<Rightarrow> code_buffer" where
  "xor_reg64_imm8 buf dst imm =
   (let reg_id = reg64_id dst;
       rex_byte = rex True False False ((drop_bit 3 reg_id) \<noteq> 0);
       buf = push_byte buf rex_byte;
       buf = push_byte buf 0x83;
       buf = push_byte buf (0xF0 OR (reg_id AND 7));
       buf = push_byte buf imm
   in buf)"

definition xor_reg64_imm32 :: "code_buffer \<Rightarrow> reg64 \<Rightarrow> i32 \<Rightarrow> code_buffer" where
  "xor_reg64_imm32 buf dst imm =
   (let reg_id = reg64_id dst;
       rex_byte = rex True False False ((drop_bit 3 reg_id) \<noteq> 0);
       buf = push_byte buf rex_byte;
       buf = push_byte buf 0x81;
       buf = push_byte buf (0xF0 OR (reg_id AND 7));
       buf = extend_buf buf (le_bytes32 imm)
   in buf)"

definition imul_reg64_reg64 :: "code_buffer \<Rightarrow> reg64 \<Rightarrow> reg64 \<Rightarrow> code_buffer" where
  "imul_reg64_reg64 buf dst src =
   (let dst_id = reg64_id dst;
       src_id = reg64_id src;
       rex_byte = rex True ((drop_bit 3 dst_id) \<noteq> 0) False ((drop_bit 3 src_id) \<noteq> 0);
       buf = push_byte buf rex_byte;
       buf = push_byte buf 0x0F;
       buf = push_byte buf 0xAF;
       buf = push_byte buf ((0xC0 OR (push_bit 3 (dst_id AND 7))) OR (src_id AND 7))
   in buf)"

definition imul_reg64_reg64_imm8 :: "code_buffer \<Rightarrow> reg64 \<Rightarrow> reg64 \<Rightarrow> i8 \<Rightarrow> code_buffer" where
  "imul_reg64_reg64_imm8 buf dst src imm =
   (let dst_id = reg64_id dst;
       src_id = reg64_id src;
       rex_byte = rex True ((drop_bit 3 dst_id) \<noteq> 0) False ((drop_bit 3 src_id) \<noteq> 0);
       buf = push_byte buf rex_byte;
       buf = push_byte buf 0x6B;
       buf = push_byte buf ((0xC0 OR (push_bit 3 (dst_id AND 7))) OR (src_id AND 7));
       buf = push_byte buf imm
   in buf)"

definition imul_reg64_reg64_imm32 :: "code_buffer \<Rightarrow> reg64 \<Rightarrow> reg64 \<Rightarrow> i32 \<Rightarrow> code_buffer" where
  "imul_reg64_reg64_imm32 buf dst src imm =
   (let dst_id = reg64_id dst;
       src_id = reg64_id src;
       rex_byte = rex True ((drop_bit 3 dst_id) \<noteq> 0) False ((drop_bit 3 src_id) \<noteq> 0);
       buf = push_byte buf rex_byte;
       buf = push_byte buf 0x69;
       buf = push_byte buf ((0xC0 OR (push_bit 3 (dst_id AND 7))) OR (src_id AND 7));
       buf = extend_buf buf (le_bytes32 imm)
   in buf)"

definition and_reg64_mem_reg64_disp :: "code_buffer \<Rightarrow> reg64 \<Rightarrow> reg64 \<Rightarrow> i32 \<Rightarrow> code_buffer" where
  "and_reg64_mem_reg64_disp buf dst base disp =
   (let dst_id = reg64_id dst;
       base_id = reg64_id base;
       rex_byte = rex True ((drop_bit 3 dst_id) \<noteq> 0) False ((drop_bit 3 base_id) \<noteq> 0);
       buf = push_byte buf rex_byte;
       buf = push_byte buf 0x23;
       buf = emit_mem_base_disp buf (dst_id AND 7) base_id disp
   in buf)"

definition or_reg64_mem_reg64_disp :: "code_buffer \<Rightarrow> reg64 \<Rightarrow> reg64 \<Rightarrow> i32 \<Rightarrow> code_buffer" where
  "or_reg64_mem_reg64_disp buf dst base disp =
   (let dst_id = reg64_id dst;
       base_id = reg64_id base;
       rex_byte = rex True ((drop_bit 3 dst_id) \<noteq> 0) False ((drop_bit 3 base_id) \<noteq> 0);
       buf = push_byte buf rex_byte;
       buf = push_byte buf 0x0B;
       buf = emit_mem_base_disp buf (dst_id AND 7) base_id disp
   in buf)"

definition xor_reg64_mem_reg64_disp :: "code_buffer \<Rightarrow> reg64 \<Rightarrow> reg64 \<Rightarrow> i32 \<Rightarrow> code_buffer" where
  "xor_reg64_mem_reg64_disp buf dst base disp =
   (let dst_id = reg64_id dst;
       base_id = reg64_id base;
       rex_byte = rex True ((drop_bit 3 dst_id) \<noteq> 0) False ((drop_bit 3 base_id) \<noteq> 0);
       buf = push_byte buf rex_byte;
       buf = push_byte buf 0x33;
       buf = emit_mem_base_disp buf (dst_id AND 7) base_id disp
   in buf)"

definition imul_reg64_mem_reg64_disp :: "code_buffer \<Rightarrow> reg64 \<Rightarrow> reg64 \<Rightarrow> i32 \<Rightarrow> code_buffer" where
  "imul_reg64_mem_reg64_disp buf dst base disp =
   (let dst_id = reg64_id dst;
       base_id = reg64_id base;
       rex_byte = rex True ((drop_bit 3 dst_id) \<noteq> 0) False ((drop_bit 3 base_id) \<noteq> 0);
       buf = push_byte buf rex_byte;
       buf = push_byte buf 0x0F;
       buf = push_byte buf 0xAF;
       buf = emit_mem_base_disp buf (dst_id AND 7) base_id disp
   in buf)"

lemmas shift_logical_defs =
  sar_reg64_imm8_def rol_reg64_imm8_def rol_reg64_cl_def rol_reg32_imm8_def rol_reg32_cl_def
  rol_reg16_imm8_def rol_reg16_cl_def ror_reg64_imm8_def ror_reg64_cl_def ror_reg32_imm8_def
  ror_reg32_cl_def xor_reg64_reg64_def or_reg64_imm8_def or_reg64_imm32_def or_reg32_imm8_def
  or_reg32_imm32_def and_reg64_reg64_def and_reg64_imm8_def and_reg64_imm32_def or_reg64_reg64_def
  xor_reg64_imm8_def xor_reg64_imm32_def imul_reg64_reg64_def imul_reg64_reg64_imm8_def
  imul_reg64_reg64_imm32_def and_reg64_mem_reg64_disp_def or_reg64_mem_reg64_disp_def
  xor_reg64_mem_reg64_disp_def imul_reg64_mem_reg64_disp_def

lemma shift_logical_emits [emits_rules]:
  "emits buf (sar_reg64_imm8 buf reg imm8) [alu64 I_SAR [A_Reg (reg_no reg), A_Imm (uint imm8)]]"
  "emits buf (rol_reg64_imm8 buf reg imm8) [alu64 I_ROL [A_Reg (reg_no reg), A_Imm (uint imm8)]]"
  "emits buf (rol_reg64_cl buf reg) [alu64 I_ROL [A_Reg (reg_no reg), A_Cl]]"
  "unat reg_id < 16 \<Longrightarrow> emits buf (rol_reg32_imm8 buf reg_id imm8) [alu32 I_ROL [A_Reg (unat reg_id), A_Imm (uint imm8)]]"
  "unat reg_id < 16 \<Longrightarrow> emits buf (rol_reg32_cl buf reg_id) [alu32 I_ROL [A_Reg (unat reg_id), A_Cl]]"
  "emits buf (rol_reg16_imm8 buf reg_id imm8) [Insn False None (Inl I_ROL) W16 [A_Reg (wrap_reg reg_id), A_Imm (uint imm8)]]"
  "emits buf (rol_reg16_cl buf reg_id) [Insn False None (Inl I_ROL) W16 [A_Reg (wrap_reg reg_id), A_Cl]]"
  "emits buf (ror_reg64_imm8 buf reg imm8) [alu64 I_ROR [A_Reg (reg_no reg), A_Imm (uint imm8)]]"
  "emits buf (ror_reg64_cl buf reg) [alu64 I_ROR [A_Reg (reg_no reg), A_Cl]]"
  "unat reg_id < 16 \<Longrightarrow> emits buf (ror_reg32_imm8 buf reg_id imm8) [alu32 I_ROR [A_Reg (unat reg_id), A_Imm (uint imm8)]]"
  "unat reg_id < 16 \<Longrightarrow> emits buf (ror_reg32_cl buf reg_id) [alu32 I_ROR [A_Reg (unat reg_id), A_Cl]]"
  "emits buf (xor_reg64_reg64 buf dst src) [alu64 I_XOR [A_Reg (reg_no dst), A_Reg (reg_no src)]]"
  "emits buf (or_reg64_imm8 buf dst imm8) [alu64 I_OR [A_Reg (reg_no dst), A_Imm (sint imm8)]]"
  "emits buf (or_reg64_imm32 buf dst imm32) [alu64 I_OR [A_Reg (reg_no dst), A_Imm (sint imm32)]]"
  "emits buf (or_reg32_imm8 buf dst imm8) [alu32 I_OR [A_Reg (reg_no dst), A_Imm (sint imm8)]]"
  "emits buf (or_reg32_imm32 buf dst imm32) [alu32 I_OR [A_Reg (reg_no dst), A_Imm (sint imm32)]]"
  "emits buf (and_reg64_reg64 buf dst src) [alu64 I_AND [A_Reg (reg_no dst), A_Reg (reg_no src)]]"
  "emits buf (and_reg64_imm8 buf dst imm8) [alu64 I_AND [A_Reg (reg_no dst), A_Imm (sint imm8)]]"
  "emits buf (and_reg64_imm32 buf dst imm32) [alu64 I_AND [A_Reg (reg_no dst), A_Imm (sint imm32)]]"
  "emits buf (or_reg64_reg64 buf dst src) [alu64 I_OR [A_Reg (reg_no dst), A_Reg (reg_no src)]]"
  "emits buf (xor_reg64_imm8 buf dst imm8) [alu64 I_XOR [A_Reg (reg_no dst), A_Imm (sint imm8)]]"
  "emits buf (xor_reg64_imm32 buf dst imm32) [alu64 I_XOR [A_Reg (reg_no dst), A_Imm (sint imm32)]]"
  "emits buf (imul_reg64_reg64 buf dst src) [alu64 I_IMUL [A_Reg (reg_no dst), A_Reg (reg_no src)]]"
  "emits buf (imul_reg64_reg64_imm8 buf dst src imm8) [alu64 I_IMUL [A_Reg (reg_no dst), A_Reg (reg_no src), A_Imm (sint imm8)]]"
  "emits buf (imul_reg64_reg64_imm32 buf dst src imm32) [alu64 I_IMUL [A_Reg (reg_no dst), A_Reg (reg_no src), A_Imm (sint imm32)]]"
  "emits buf (and_reg64_mem_reg64_disp buf dst base disp) [alu64 I_AND [A_Reg (reg_no dst), base_disp base disp]]"
  "emits buf (or_reg64_mem_reg64_disp buf dst base disp) [alu64 I_OR [A_Reg (reg_no dst), base_disp base disp]]"
  "emits buf (xor_reg64_mem_reg64_disp buf dst base disp) [alu64 I_XOR [A_Reg (reg_no dst), base_disp base disp]]"
  "emits buf (imul_reg64_mem_reg64_disp buf dst base disp) [alu64 I_IMUL [A_Reg (reg_no dst), base_disp base disp]]"
  by (rule emits_fresh; simp add: shift_logical_defs enc_eval)+

end
