(* ===== verification/Encode_Logic.thy ===== *)
theory Encode_Logic
  imports Encode_Dispatch Encode_Shift_Logical
begin

text \<open>
  \<^verbatim>\<open>crates/paideia-as-encoder/src/encode_and_or_xor.rs\<close> and \<^verbatim>\<open>encode_imul.rs\<close>: AND, OR, XOR and IMUL with
  the round-trip guards on their immediates.
\<close>

definition encode_and :: "instruction \<Rightarrow> code_buffer \<Rightarrow> enc_result" where
  "encode_and inst buf =
     (case operands inst of
        [Reg dst, Reg src] \<Rightarrow>
          try_op (reg64_from dst) buf (\<lambda>d.
          try_op (reg64_from src) buf (\<lambda>s. ok (and_reg64_reg64 buf d s)))
      | [Reg dst, Imm64 imm] \<Rightarrow>
          try_op (reg64_from dst) buf (\<lambda>dst_reg.
            if imm = scast (ucast imm :: i8) then ok (and_reg64_imm8 buf dst_reg (ucast imm))
            else if imm = scast (ucast imm :: i32) then ok (and_reg64_imm32 buf dst_reg (ucast imm))
            else
              (case stage_imm64_r11 buf dst_reg imm
                      (''and r11, imm64 (out-of-i32-range): scratch-reg r11 collision '' @ em_dash @
                       '' pick a different destination register'') of
                 (r, buf) \<Rightarrow> try_op r buf (\<lambda>scratch. ok (and_reg64_reg64 buf dst_reg scratch))))
      | [Reg dst, MemSib base None scale disp] \<Rightarrow>
          try_op (reg64_from dst) buf (\<lambda>d.
          try_op (reg64_from base) buf (\<lambda>b. ok (and_reg64_mem_reg64_disp buf d b disp)))
      | _ \<Rightarrow>
          if list_ex is_var (operands inst) then var_reached buf
          else err (Unsupported ''and: unsupported operand shape (mem,mem not encodable on x86)'') buf)"

definition encode_or :: "instruction \<Rightarrow> code_buffer \<Rightarrow> enc_result" where
  "encode_or inst buf =
     (case operands inst of
        [Reg dst, Reg src] \<Rightarrow>
          try_op (reg64_from dst) buf (\<lambda>d.
          try_op (reg64_from src) buf (\<lambda>s. ok (or_reg64_reg64 buf d s)))
      | [Reg dst, Imm64 imm] \<Rightarrow>
          try_op (reg64_from dst) buf (\<lambda>dst_reg.
            if mode inst = Mode32 then
              (if imm = scast (ucast imm :: i8) then ok (or_reg32_imm8 buf dst_reg (ucast imm))
               else if - 2147483648 \<le> sint imm \<and> sint imm \<le> 4294967295
               then ok (or_reg32_imm32 buf dst_reg (ucast imm))
               else err (Unsupported ''or r32, imm: immediate out of 32-bit range'') buf)
            else
            if imm = scast (ucast imm :: i8) then ok (or_reg64_imm8 buf dst_reg (ucast imm))
            else if imm = scast (ucast imm :: i32) then ok (or_reg64_imm32 buf dst_reg (ucast imm))
            else
              (case stage_imm64_r11 buf dst_reg imm
                      (''or r11, imm64 (out-of-i32-range): scratch-reg r11 collision '' @ em_dash @
                       '' pick a different destination register'') of
                 (r, buf) \<Rightarrow> try_op r buf (\<lambda>scratch. ok (or_reg64_reg64 buf dst_reg scratch))))
      | [Reg dst, MemSib base None scale disp] \<Rightarrow>
          try_op (reg64_from dst) buf (\<lambda>d.
          try_op (reg64_from base) buf (\<lambda>b. ok (or_reg64_mem_reg64_disp buf d b disp)))
      | _ \<Rightarrow>
          if list_ex is_var (operands inst) then var_reached buf
          else err (Unsupported ''or: unsupported operand shape (mem,mem not encodable on x86)'') buf)"

definition encode_xor :: "instruction \<Rightarrow> code_buffer \<Rightarrow> enc_result" where
  "encode_xor inst buf =
     (case operands inst of
        [Reg dst, Reg src] \<Rightarrow>
          try_op (reg64_from dst) buf (\<lambda>d.
          try_op (reg64_from src) buf (\<lambda>s. ok (xor_reg64_reg64 buf d s)))
      | [Reg dst, Imm64 imm] \<Rightarrow>
          try_op (reg64_from dst) buf (\<lambda>dst_reg.
            if imm = scast (ucast imm :: i8) then ok (xor_reg64_imm8 buf dst_reg (ucast imm))
            else if imm = scast (ucast imm :: i32) then ok (xor_reg64_imm32 buf dst_reg (ucast imm))
            else
              (case stage_imm64_r11 buf dst_reg imm
                      (''xor r11, imm64 (out-of-i32-range): scratch-reg r11 collision '' @ em_dash @
                       '' pick a different destination register'') of
                 (r, buf) \<Rightarrow> try_op r buf (\<lambda>scratch. ok (xor_reg64_reg64 buf dst_reg scratch))))
      | [Reg dst, MemSib base None scale disp] \<Rightarrow>
          try_op (reg64_from dst) buf (\<lambda>d.
          try_op (reg64_from base) buf (\<lambda>b. ok (xor_reg64_mem_reg64_disp buf d b disp)))
      | _ \<Rightarrow>
          if list_ex is_var (operands inst) then var_reached buf
          else err (Unsupported ''xor: unsupported operand shape (mem,mem not encodable on x86)'') buf)"

definition encode_imul :: "instruction \<Rightarrow> code_buffer \<Rightarrow> enc_result" where
  "encode_imul inst buf =
     (case operands inst of
        [Reg dst, Reg src] \<Rightarrow>
          try_op (reg64_from dst) buf (\<lambda>d.
          try_op (reg64_from src) buf (\<lambda>s. ok (imul_reg64_reg64 buf d s)))
      | [Reg dst, Reg src, Imm64 imm] \<Rightarrow>
          try_op (reg64_from dst) buf (\<lambda>dst_reg.
          try_op (reg64_from src) buf (\<lambda>src_reg.
            if imm = scast (ucast imm :: i8) then ok (imul_reg64_reg64_imm8 buf dst_reg src_reg (ucast imm))
            else if imm = scast (ucast imm :: i32)
            then ok (imul_reg64_reg64_imm32 buf dst_reg src_reg (ucast imm))
            else err (Unsupported
              ''imul r64, r64, imm64: immediate out of range for 32-bit sign extension'') buf))
      | [Reg dst, MemSib base None scale disp] \<Rightarrow>
          try_op (reg64_from dst) buf (\<lambda>d.
          try_op (reg64_from base) buf (\<lambda>b. ok (imul_reg64_mem_reg64_disp buf d b disp)))
      | [MemSib b1 i1 s1 d1, MemSib b2 i2 s2 d2] \<Rightarrow> err (Unsupported ''imul mem,mem'') buf
      | _ \<Rightarrow>
          if list_ex is_var (operands inst) then var_reached buf
          else err (Unsupported ''imul: unsupported operand shape'') buf)"

section \<open>The contract\<close>

text \<open>OR with an immediate in 32-bit mode works on the 32-bit register.\<close>

definition or_insns :: "instr_mode \<Rightarrow> operand list \<Rightarrow> insn list option" where
  "or_insns m ops =
     (case ops of
        [Reg d, Imm64 imm] \<Rightarrow>
          if m = Mode32 then Some [alu32 I_OR [A_Reg (unat d), A_Imm (sint (ucast imm :: i32))]]
          else alu_insns I_OR ops
      | _ \<Rightarrow> alu_insns I_OR ops)"

lemma sint_ucast_i8_via_i32:
  "- 128 \<le> sint (imm :: i64) \<Longrightarrow> sint imm \<le> 127 \<Longrightarrow> sint (ucast imm :: i32) = sint imm"
  by (rule sint_ucast_i32) (simp add: fits_i32_def)

interpretation and_enc: encoder "encode_and" "alu_insns I_AND" no_rsp_index
  by (rule encoderI; auto split: dispatch_splits simp: encode_and_def dispatch_simps spec_simps
      round_trip_i8 round_trip_i32
      intro!: emits_rules [THEN staged_deliversI] emits_rules [THEN deliversI])

interpretation or_enc: encoder "\<lambda>inst buf. encode_or (inst\<lparr>mode := m\<rparr>) buf" "or_insns m" no_rsp_index for m
  by (cases m; rule encoderI; auto split: dispatch_splits simp: encode_or_def dispatch_simps spec_simps
      round_trip_i8 round_trip_i32 or_insns_def sint_ucast_i8_via_i32
      intro!: emits_rules [THEN staged_deliversI] emits_rules [THEN deliversI])

interpretation xor_enc: encoder "encode_xor" "alu_insns I_XOR" no_rsp_index
  by (rule encoderI; auto split: dispatch_splits simp: encode_xor_def dispatch_simps spec_simps
      round_trip_i8 round_trip_i32
      intro!: emits_rules [THEN staged_deliversI] emits_rules [THEN deliversI])

interpretation imul_enc: encoder "encode_imul" "asm_insn (Inl I_IMUL) W64" no_rsp_index
  by (rule encoderI; auto split: dispatch_splits simp: encode_imul_def dispatch_simps spec_simps
      round_trip_i8 round_trip_i32
      intro!: emits_rules [THEN deliversI])

end
