(* ===== verification/Encode_Unary_Special.thy ===== *)
theory Encode_Unary_Special
  imports Encoder_Bytes
begin

text \<open>
  \<^verbatim>\<open>crates/paideia-as-encoder/src/encode/unary_special.rs\<close>: one-operand ALU instructions, LTR, stores
  of immediates, XCHG and the LOCK CMPXCHG forms.
\<close>

definition not_reg64 :: "code_buffer \<Rightarrow> reg64 \<Rightarrow> code_buffer" where
  "not_reg64 buf dst =
   (let reg_id = reg64_id dst;
       rex_byte = rex True False False ((drop_bit 3 reg_id) \<noteq> 0);
       buf = push_byte buf rex_byte;
       buf = push_byte buf 0xF7;
       buf = push_byte buf (0xD0 OR (reg_id AND 7))
   in buf)"

definition inc_reg64 :: "code_buffer \<Rightarrow> reg64 \<Rightarrow> code_buffer" where
  "inc_reg64 buf dst =
   (let reg_id = reg64_id dst;
       rex_byte = rex True False False ((drop_bit 3 reg_id) \<noteq> 0);
       buf = push_byte buf rex_byte;
       buf = push_byte buf 0xFF;
       buf = push_byte buf (0xC0 OR (reg_id AND 7))
   in buf)"

definition dec_reg64 :: "code_buffer \<Rightarrow> reg64 \<Rightarrow> code_buffer" where
  "dec_reg64 buf dst =
   (let reg_id = reg64_id dst;
       rex_byte = rex True False False ((drop_bit 3 reg_id) \<noteq> 0);
       buf = push_byte buf rex_byte;
       buf = push_byte buf 0xFF;
       buf = push_byte buf (0xC8 OR (reg_id AND 7))
   in buf)"

definition bswap_reg64 :: "code_buffer \<Rightarrow> reg64 \<Rightarrow> code_buffer" where
  "bswap_reg64 buf dst =
   (let reg_id = reg64_id dst;
       rex_byte = rex True False False ((drop_bit 3 reg_id) \<noteq> 0);
       buf = push_byte buf rex_byte;
       buf = push_byte buf 0x0F;
       buf = push_byte buf (0xC8 OR (reg_id AND 7))
   in buf)"

definition bswap_reg32 :: "code_buffer \<Rightarrow> reg32 \<Rightarrow> code_buffer" where
  "bswap_reg32 buf dst =
   (let reg_id = reg32_id dst;
       buf = (if (drop_bit 3 reg_id) \<noteq> 0 then push_byte buf (rex False False False True)
        else buf);
       buf = push_byte buf 0x0F;
       buf = push_byte buf (0xC8 OR (reg_id AND 7))
   in buf)"

definition ltr_reg16 :: "code_buffer \<Rightarrow> reg64 \<Rightarrow> code_buffer" where
  "ltr_reg16 buf dst =
   (let reg_id = reg64_id dst;
       buf = (if (drop_bit 3 reg_id) \<noteq> 0 then push_byte buf (rex False False False True)
        else buf);
       buf = push_byte buf 0x0F;
       buf = push_byte buf 0x00;
       buf = push_byte buf (0xD8 OR (reg_id AND 7))
   in buf)"

definition mov_mem_base_disp_imm8 :: "code_buffer \<Rightarrow> reg64 \<Rightarrow> i32 \<Rightarrow> u8 \<Rightarrow> code_buffer" where
  "mov_mem_base_disp_imm8 buf base disp imm =
   (let bid = reg64_id base;
       buf = (if (drop_bit 3 bid) \<noteq> 0 then push_byte buf (rex False False False True)
        else buf);
       buf = push_byte buf 0xC6;
       buf = emit_mem_base_disp buf 0 bid disp;
       buf = push_byte buf imm
   in buf)"

definition mov_mem_base_disp_imm16 :: "code_buffer \<Rightarrow> reg64 \<Rightarrow> i32 \<Rightarrow> u16 \<Rightarrow> code_buffer" where
  "mov_mem_base_disp_imm16 buf base disp imm =
   (let buf = push_byte buf 0x66;
       bid = reg64_id base;
       buf = (if (drop_bit 3 bid) \<noteq> 0 then push_byte buf (rex False False False True)
        else buf);
       buf = push_byte buf 0xC7;
       buf = emit_mem_base_disp buf 0 bid disp;
       buf = extend_buf buf (le_bytes16 imm)
   in buf)"

definition mov_mem_base_disp_imm32 :: "code_buffer \<Rightarrow> reg64 \<Rightarrow> i32 \<Rightarrow> u32 \<Rightarrow> code_buffer" where
  "mov_mem_base_disp_imm32 buf base disp imm =
   (let bid = reg64_id base;
       buf = (if (drop_bit 3 bid) \<noteq> 0 then push_byte buf (rex False False False True)
        else buf);
       buf = push_byte buf 0xC7;
       buf = emit_mem_base_disp buf 0 bid disp;
       buf = extend_buf buf (le_bytes32 imm)
   in buf)"

definition mov_mem_base_disp_imm32_sxt :: "code_buffer \<Rightarrow> reg64 \<Rightarrow> i32 \<Rightarrow> i32 \<Rightarrow> code_buffer" where
  "mov_mem_base_disp_imm32_sxt buf base disp imm =
   (let bid = reg64_id base;
       buf = push_byte buf (rex True False False ((drop_bit 3 bid) \<noteq> 0));
       buf = push_byte buf 0xC7;
       buf = emit_mem_base_disp buf 0 bid disp;
       buf = extend_buf buf (le_bytes32 imm)
   in buf)"

definition mov_mem_sib_disp_imm8 :: "code_buffer \<Rightarrow> reg64 \<Rightarrow> reg64 \<Rightarrow> u8 \<Rightarrow> i32 \<Rightarrow> u8 \<Rightarrow> code_buffer" where
  "mov_mem_sib_disp_imm8 buf base index scale_bits disp imm =
   (let bid = reg64_id base;
       iid = reg64_id index;
       buf = (if (drop_bit 3 (bid OR iid)) \<noteq> 0 then push_byte buf (rex False False ((drop_bit 3 iid) \<noteq> 0) ((drop_bit 3 bid) \<noteq> 0))
        else buf);
       buf = push_byte buf 0xC6;
       buf = emit_mem_sib_disp buf 0 bid iid scale_bits disp;
       buf = push_byte buf imm
   in buf)"

definition mov_mem_sib_disp_imm16 :: "code_buffer \<Rightarrow> reg64 \<Rightarrow> reg64 \<Rightarrow> u8 \<Rightarrow> i32 \<Rightarrow> u16 \<Rightarrow> code_buffer" where
  "mov_mem_sib_disp_imm16 buf base index scale_bits disp imm =
   (let buf = push_byte buf 0x66;
       bid = reg64_id base;
       iid = reg64_id index;
       buf = (if (drop_bit 3 (bid OR iid)) \<noteq> 0 then push_byte buf (rex False False ((drop_bit 3 iid) \<noteq> 0) ((drop_bit 3 bid) \<noteq> 0))
        else buf);
       buf = push_byte buf 0xC7;
       buf = emit_mem_sib_disp buf 0 bid iid scale_bits disp;
       buf = extend_buf buf (le_bytes16 imm)
   in buf)"

definition mov_mem_sib_disp_imm32 :: "code_buffer \<Rightarrow> reg64 \<Rightarrow> reg64 \<Rightarrow> u8 \<Rightarrow> i32 \<Rightarrow> u32 \<Rightarrow> code_buffer" where
  "mov_mem_sib_disp_imm32 buf base index scale_bits disp imm =
   (let bid = reg64_id base;
       iid = reg64_id index;
       buf = (if (drop_bit 3 (bid OR iid)) \<noteq> 0 then push_byte buf (rex False False ((drop_bit 3 iid) \<noteq> 0) ((drop_bit 3 bid) \<noteq> 0))
        else buf);
       buf = push_byte buf 0xC7;
       buf = emit_mem_sib_disp buf 0 bid iid scale_bits disp;
       buf = extend_buf buf (le_bytes32 imm)
   in buf)"

definition mov_mem_sib_disp_imm32_sxt :: "code_buffer \<Rightarrow> reg64 \<Rightarrow> reg64 \<Rightarrow> u8 \<Rightarrow> i32 \<Rightarrow> i32 \<Rightarrow> code_buffer" where
  "mov_mem_sib_disp_imm32_sxt buf base index scale_bits disp imm =
   (let bid = reg64_id base;
       iid = reg64_id index;
       buf = push_byte buf (rex True False ((drop_bit 3 iid) \<noteq> 0) ((drop_bit 3 bid) \<noteq> 0));
       buf = push_byte buf 0xC7;
       buf = emit_mem_sib_disp buf 0 bid iid scale_bits disp;
       buf = extend_buf buf (le_bytes32 imm)
   in buf)"

definition xchg_mem_base_disp_reg64 :: "code_buffer \<Rightarrow> reg64 \<Rightarrow> i32 \<Rightarrow> reg64 \<Rightarrow> code_buffer" where
  "xchg_mem_base_disp_reg64 buf base disp src =
   (let base_id = reg64_id base;
       src_id = reg64_id src;
       rex_byte = rex True ((drop_bit 3 src_id) \<noteq> 0) False ((drop_bit 3 base_id) \<noteq> 0);
       buf = push_byte buf rex_byte;
       buf = push_byte buf 0x87;
       buf = emit_mem_base_disp buf (src_id AND 7) base_id disp
   in buf)"

definition lock_cmpxchg_mem_base_disp_reg64 :: "code_buffer \<Rightarrow> reg64 \<Rightarrow> i32 \<Rightarrow> reg64 \<Rightarrow> code_buffer" where
  "lock_cmpxchg_mem_base_disp_reg64 buf base disp src =
   (let buf = push_byte buf 0xF0;
       base_id = reg64_id base;
       src_id = reg64_id src;
       rex_byte = rex True ((drop_bit 3 src_id) \<noteq> 0) False ((drop_bit 3 base_id) \<noteq> 0);
       buf = push_byte buf rex_byte;
       buf = push_byte buf 0x0F;
       buf = push_byte buf 0xB1;
       buf = emit_mem_base_disp buf (src_id AND 7) base_id disp
   in buf)"

definition lock_cmpxchg_mem_base_disp_reg32 :: "code_buffer \<Rightarrow> reg64 \<Rightarrow> i32 \<Rightarrow> reg64 \<Rightarrow> code_buffer" where
  "lock_cmpxchg_mem_base_disp_reg32 buf base disp src =
   (let buf = push_byte buf 0xF0;
       base_id = reg64_id base;
       src_id = reg64_id src;
       buf = (if ((drop_bit 3 src_id) \<noteq> 0) \<or> ((drop_bit 3 base_id) \<noteq> 0) then push_byte buf (rex False ((drop_bit 3 src_id) \<noteq> 0) False ((drop_bit 3 base_id) \<noteq> 0))
        else buf);
       buf = push_byte buf 0x0F;
       buf = push_byte buf 0xB1;
       buf = emit_mem_base_disp buf (src_id AND 7) base_id disp
   in buf)"

definition lock_cmpxchg16b_mem_base_disp :: "code_buffer \<Rightarrow> reg64 \<Rightarrow> i32 \<Rightarrow> code_buffer" where
  "lock_cmpxchg16b_mem_base_disp buf base disp =
   (let buf = push_byte buf 0xF0;
       base_id = reg64_id base;
       buf = push_byte buf (rex True False False ((drop_bit 3 base_id) \<noteq> 0));
       buf = push_byte buf 0x0F;
       buf = push_byte buf 0xC7;
       buf = emit_mem_base_disp buf 1 base_id disp
   in buf)"

lemmas unary_special_defs =
  not_reg64_def inc_reg64_def dec_reg64_def bswap_reg64_def bswap_reg32_def ltr_reg16_def
  mov_mem_base_disp_imm8_def mov_mem_base_disp_imm16_def mov_mem_base_disp_imm32_def
  mov_mem_base_disp_imm32_sxt_def mov_mem_sib_disp_imm8_def mov_mem_sib_disp_imm16_def
  mov_mem_sib_disp_imm32_def mov_mem_sib_disp_imm32_sxt_def xchg_mem_base_disp_reg64_def
  lock_cmpxchg_mem_base_disp_reg64_def lock_cmpxchg_mem_base_disp_reg32_def
  lock_cmpxchg16b_mem_base_disp_def

lemma unary_special_emits [emits_rules]:
  "emits buf (not_reg64 buf dst) [alu64 I_NOT [A_Reg (reg_no dst)]]"
  "emits buf (inc_reg64 buf dst) [alu64 I_INC [A_Reg (reg_no dst)]]"
  "emits buf (dec_reg64 buf dst) [alu64 I_DEC [A_Reg (reg_no dst)]]"
  "emits buf (bswap_reg64 buf dst) [ctl64 I_BSWAP [A_Reg (reg_no dst)]]"
  "emits buf (bswap_reg32 buf dst32) [ctl32 I_BSWAP [A_Reg (unat (reg32_id dst32))]]"
  "emits buf (ltr_reg16 buf dst) [Insn False None (Inr I_LTR) W16 [A_Reg (reg_no dst)]]"
  "emits buf (mov_mem_base_disp_imm8 buf base disp imm8) [Insn False None (Inl I_MOV) W8 [base_disp base disp, A_Imm (sint imm8)]]"
  "emits buf (mov_mem_base_disp_imm16 buf base disp imm16) [Insn False None (Inl I_MOV) W16 [base_disp base disp, A_Imm (sint imm16)]]"
  "emits buf (mov_mem_base_disp_imm32 buf base disp imm32) [alu32 I_MOV [base_disp base disp, A_Imm (sint imm32)]]"
  "emits buf (mov_mem_base_disp_imm32_sxt buf base disp imm32) [alu64 I_MOV [base_disp base disp, A_Imm (sint imm32)]]"
  "emits buf (mov_mem_sib_disp_imm8 buf base index scale_bits disp imm8) [Insn False None (Inl I_MOV) W8 [sib_disp base index scale_bits disp, A_Imm (sint imm8)]]"
  "emits buf (mov_mem_sib_disp_imm16 buf base index scale_bits disp imm16) [Insn False None (Inl I_MOV) W16 [sib_disp base index scale_bits disp, A_Imm (sint imm16)]]"
  "emits buf (mov_mem_sib_disp_imm32 buf base index scale_bits disp imm32) [alu32 I_MOV [sib_disp base index scale_bits disp, A_Imm (sint imm32)]]"
  "emits buf (mov_mem_sib_disp_imm32_sxt buf base index scale_bits disp imm32) [alu64 I_MOV [sib_disp base index scale_bits disp, A_Imm (sint imm32)]]"
  "emits buf (xchg_mem_base_disp_reg64 buf base disp src) [alu64 I_XCHG [base_disp base disp, A_Reg (reg_no src)]]"
  "emits buf (lock_cmpxchg_mem_base_disp_reg64 buf base disp src) [Insn True None (Inr I_CMPXCHG) W64 [base_disp base disp, A_Reg (reg_no src)]]"
  "emits buf (lock_cmpxchg_mem_base_disp_reg32 buf base disp src) [Insn True None (Inr I_CMPXCHG) W32 [base_disp base disp, A_Reg (reg_no src)]]"
  "emits buf (lock_cmpxchg16b_mem_base_disp buf base disp) [Insn True None (Inr I_CMPXCHG8B) W64 [base_disp base disp]]"
  by (rule emits_fresh; simp add: unary_special_defs enc_eval)+

end
