(* ===== verification/Encode_Simple.thy ===== *)
theory Encode_Simple
  imports Encode_Dispatch Encode_Unary_Special Encode_Cond_Call
begin

text \<open>
  \<^verbatim>\<open>crates/paideia-as-encoder/src/encode_instruction/simple_alu.rs\<close> and \<^verbatim>\<open>stack.rs\<close>: the one-operand
  arithmetic instructions, PUSH, POP and the one-byte instructions.
\<close>

text \<open>The three one-operand arithmetic primitives of \<^verbatim>\<open>encode/cache_widen.rs\<close>.\<close>

definition div_reg64 :: "code_buffer \<Rightarrow> reg64 \<Rightarrow> code_buffer" where
  "div_reg64 buf src =
   (let reg_id = reg64_id src;
       rex_byte = rex True False False ((drop_bit 3 reg_id) \<noteq> 0);
       buf = push_byte buf rex_byte;
       buf = push_byte buf 0xF7;
       buf = push_byte buf (0xF0 OR (reg_id AND 7))
   in buf)"

definition mul_reg64 :: "code_buffer \<Rightarrow> reg64 \<Rightarrow> code_buffer" where
  "mul_reg64 buf src =
   (let reg_id = reg64_id src;
       rex_byte = rex True False False ((drop_bit 3 reg_id) \<noteq> 0);
       buf = push_byte buf rex_byte;
       buf = push_byte buf 0xF7;
       buf = push_byte buf (0xE0 OR (reg_id AND 7))
   in buf)"

definition idiv_reg64 :: "code_buffer \<Rightarrow> reg64 \<Rightarrow> code_buffer" where
  "idiv_reg64 buf src =
   (let reg_id = reg64_id src;
       rex_byte = rex True False False ((drop_bit 3 reg_id) \<noteq> 0);
       buf = push_byte buf rex_byte;
       buf = push_byte buf 0xF7;
       buf = push_byte buf (0xF8 OR (reg_id AND 7))
   in buf)"

lemma div_mul_emits [emits_rules]:
  "emits buf (div_reg64 buf src) [alu64 I_DIV [A_Reg (reg_no src)]]"
  "emits buf (mul_reg64 buf src) [alu64 I_MUL [A_Reg (reg_no src)]]"
  "emits buf (idiv_reg64 buf src) [alu64 I_IDIV [A_Reg (reg_no src)]]"
  by (rule emits_fresh; simp add: div_reg64_def mul_reg64_def idiv_reg64_def enc_eval)+

definition encode_not :: "instruction \<Rightarrow> code_buffer \<Rightarrow> enc_result" where
  "encode_not inst buf =
     (case operands inst of
        [Reg dst] \<Rightarrow> try_op (reg64_from dst) buf (\<lambda>d. ok (not_reg64 buf d))
      | _ \<Rightarrow> err (OperandShape M_Not) buf)"

definition encode_bswap :: "instruction \<Rightarrow> code_buffer \<Rightarrow> enc_result" where
  "encode_bswap inst buf =
     (case operands inst of
        [Reg dst] \<Rightarrow> try_op (reg64_from dst) buf (\<lambda>d. ok (bswap_reg64 buf d))
      | _ \<Rightarrow> err (OperandShape M_Bswap) buf)"

definition encode_bswap32 :: "instruction \<Rightarrow> code_buffer \<Rightarrow> enc_result" where
  "encode_bswap32 inst buf =
     (case operands inst of
        [Reg dst] \<Rightarrow> try_op (reg32_from dst) buf (\<lambda>d. ok (bswap_reg32 buf d))
      | _ \<Rightarrow> err (OperandShape M_Bswap32) buf)"

definition encode_div :: "instruction \<Rightarrow> code_buffer \<Rightarrow> enc_result" where
  "encode_div inst buf =
     (case operands inst of
        [Reg dst] \<Rightarrow> try_op (reg64_from dst) buf (\<lambda>d. ok (div_reg64 buf d))
      | _ \<Rightarrow> err (OperandShape M_Div) buf)"

definition encode_idiv :: "instruction \<Rightarrow> code_buffer \<Rightarrow> enc_result" where
  "encode_idiv inst buf =
     (case operands inst of
        [Reg dst] \<Rightarrow> try_op (reg64_from dst) buf (\<lambda>d. ok (idiv_reg64 buf d))
      | _ \<Rightarrow> err (OperandShape M_Idiv) buf)"

definition encode_mul :: "instruction \<Rightarrow> code_buffer \<Rightarrow> enc_result" where
  "encode_mul inst buf =
     (case operands inst of
        [Reg dst] \<Rightarrow> try_op (reg64_from dst) buf (\<lambda>d. ok (mul_reg64 buf d))
      | _ \<Rightarrow> err (OperandShape M_Mul) buf)"

definition encode_inc :: "instruction \<Rightarrow> code_buffer \<Rightarrow> enc_result" where
  "encode_inc inst buf =
     (case operands inst of
        [Reg dst] \<Rightarrow> try_op (reg64_from dst) buf (\<lambda>d. ok (inc_reg64 buf d))
      | _ \<Rightarrow> err (OperandShape M_Inc) buf)"

definition encode_dec :: "instruction \<Rightarrow> code_buffer \<Rightarrow> enc_result" where
  "encode_dec inst buf =
     (case operands inst of
        [Reg dst] \<Rightarrow> try_op (reg64_from dst) buf (\<lambda>d. ok (dec_reg64 buf d))
      | _ \<Rightarrow> err (OperandShape M_Dec) buf)"

definition encode_ltr :: "instruction \<Rightarrow> code_buffer \<Rightarrow> enc_result" where
  "encode_ltr inst buf =
     (case operands inst of
        [Reg dst] \<Rightarrow> try_op (reg64_from dst) buf (\<lambda>d. ok (ltr_reg16 buf d))
      | _ \<Rightarrow> err (OperandShape M_Ltr) buf)"

definition encode_push :: "instruction \<Rightarrow> code_buffer \<Rightarrow> enc_result" where
  "encode_push inst buf =
     (if mode inst = Mode32 then err (Unsupported ''E0020: push not supported in 32-bit mode'') buf
      else case operands inst of
        [Reg src] \<Rightarrow> try_op (reg64_from src) buf (\<lambda>s. ok (push_reg64 buf s))
      | [Imm64 imm] \<Rightarrow>
          (case i8_try_from imm of
             Some i \<Rightarrow> ok (push_imm8 buf i)
           | None \<Rightarrow>
               (case i32_try_from imm of
                  Some i \<Rightarrow> ok (push_imm32 buf i)
                | None \<Rightarrow> err (OperandShape M_Push) buf))
      | _ \<Rightarrow> err (OperandShape M_Push) buf)"

definition encode_pop :: "instruction \<Rightarrow> code_buffer \<Rightarrow> enc_result" where
  "encode_pop inst buf =
     (if mode inst = Mode32 then err (Unsupported ''E0021: pop r64 not supported in 32-bit mode'') buf
      else case operands inst of
        [Reg dst] \<Rightarrow> try_op (reg64_from dst) buf (\<lambda>d. ok (pop_reg64 buf d))
      | _ \<Rightarrow> err (OperandShape M_Pop) buf)"

definition encode_pushfq :: "instruction \<Rightarrow> code_buffer \<Rightarrow> enc_result" where
  "encode_pushfq inst buf =
     (if operands inst \<noteq> [] then err (OperandShape M_Pushfq) buf else ok (push_byte buf 0x9C))"

definition encode_popfq :: "instruction \<Rightarrow> code_buffer \<Rightarrow> enc_result" where
  "encode_popfq inst buf =
     (if operands inst \<noteq> [] then err (OperandShape M_Popfq) buf else ok (push_byte buf 0x9D))"

definition encode_int3 :: "instruction \<Rightarrow> code_buffer \<Rightarrow> enc_result" where
  "encode_int3 inst buf =
     (if operands inst \<noteq> [] then err (OperandShape M_Int3) buf else ok (push_byte buf 0xCC))"

section \<open>The contract\<close>

lemma one_byte_emits [emits_rules]:
  "emits buf (push_byte buf 0x9C) [ctl64 I_PUSHF []]"
  "emits buf (push_byte buf 0x9D) [ctl64 I_POPF []]"
  "emits buf (push_byte buf 0xCC) [ctl64 I_INT3 []]"
  by (rule emits_fresh; simp add: enc_eval)+

interpretation not_enc: encoder "encode_not" "asm_insn (Inl I_NOT) W64" no_rsp_index
  by (rule encoderI; auto split: dispatch_splits simp: encode_not_def dispatch_simps spec_simps
      intro!: emits_rules [THEN deliversI])

interpretation bswap_enc: encoder "encode_bswap" "asm_insn (Inr I_BSWAP) W64" no_rsp_index
  by (rule encoderI; auto split: dispatch_splits simp: encode_bswap_def dispatch_simps spec_simps
      intro!: emits_rules [THEN deliversI])

interpretation bswap32_enc: encoder "encode_bswap32" "asm_insn (Inr I_BSWAP) W32" no_rsp_index
  by (rule encoderI; auto split: dispatch_splits simp: encode_bswap32_def dispatch_simps spec_simps
      intro!: emits_rules [THEN deliversI])

interpretation div_enc: encoder "encode_div" "asm_insn (Inl I_DIV) W64" no_rsp_index
  by (rule encoderI; auto split: dispatch_splits simp: encode_div_def dispatch_simps spec_simps
      intro!: emits_rules [THEN deliversI])

interpretation idiv_enc: encoder "encode_idiv" "asm_insn (Inl I_IDIV) W64" no_rsp_index
  by (rule encoderI; auto split: dispatch_splits simp: encode_idiv_def dispatch_simps spec_simps
      intro!: emits_rules [THEN deliversI])

interpretation mul_enc: encoder "encode_mul" "asm_insn (Inl I_MUL) W64" no_rsp_index
  by (rule encoderI; auto split: dispatch_splits simp: encode_mul_def dispatch_simps spec_simps
      intro!: emits_rules [THEN deliversI])

interpretation inc_enc: encoder "encode_inc" "asm_insn (Inl I_INC) W64" no_rsp_index
  by (rule encoderI; auto split: dispatch_splits simp: encode_inc_def dispatch_simps spec_simps
      intro!: emits_rules [THEN deliversI])

interpretation dec_enc: encoder "encode_dec" "asm_insn (Inl I_DEC) W64" no_rsp_index
  by (rule encoderI; auto split: dispatch_splits simp: encode_dec_def dispatch_simps spec_simps
      intro!: emits_rules [THEN deliversI])

interpretation ltr_enc: encoder "encode_ltr" "asm_insn (Inr I_LTR) W16" no_rsp_index
  by (rule encoderI; auto split: dispatch_splits simp: encode_ltr_def dispatch_simps spec_simps
      intro!: emits_rules [THEN deliversI])

interpretation push_enc: encoder "encode_push" "asm_insn (Inr I_PUSH) W64" no_rsp_index
  by (rule encoderI; auto split: dispatch_splits simp: encode_push_def dispatch_simps spec_simps
      intro!: emits_rules [THEN deliversI])

interpretation pop_enc: encoder "encode_pop" "asm_insn (Inr I_POP) W64" no_rsp_index
  by (rule encoderI; auto split: dispatch_splits simp: encode_pop_def dispatch_simps spec_simps
      intro!: emits_rules [THEN deliversI])

interpretation pushfq_enc: encoder "encode_pushfq" "asm_insn (Inr I_PUSHF) W64" no_rsp_index
  by (rule encoderI; auto split: dispatch_splits simp: encode_pushfq_def dispatch_simps spec_simps
      intro!: emits_rules [THEN deliversI])

interpretation popfq_enc: encoder "encode_popfq" "asm_insn (Inr I_POPF) W64" no_rsp_index
  by (rule encoderI; auto split: dispatch_splits simp: encode_popfq_def dispatch_simps spec_simps
      intro!: emits_rules [THEN deliversI])

interpretation int3_enc: encoder "encode_int3" "asm_insn (Inr I_INT3) W64" no_rsp_index
  by (rule encoderI; auto split: dispatch_splits simp: encode_int3_def dispatch_simps spec_simps
      intro!: emits_rules [THEN deliversI])

end
