(* ===== verification/Encode_Shifts.thy ===== *)
theory Encode_Shifts
  imports Encode_Dispatch Encode_Shift_Logical
begin

text \<open>
  \<^verbatim>\<open>crates/paideia-as-encoder/src/encode_instruction/shifts.rs\<close>: SHL, SHR, SAR, ROL, ROR.
\<close>

definition encode_shl :: "instruction \<Rightarrow> code_buffer \<Rightarrow> enc_result" where
  "encode_shl inst buf =
     (case operands inst of
        [Reg dst, Imm64 imm] \<Rightarrow>
          try_op (reg64_from dst) buf (\<lambda>d.
            (let dst_id = reg64_id d;
                 rex_byte = rex True False False (drop_bit 3 dst_id \<noteq> 0);
                 buf = push_byte buf rex_byte;
                 buf = push_byte buf 0xC1;
                 buf = push_byte buf (0xE0 OR (dst_id AND 7));
                 buf = push_byte buf (ucast imm)
             in ok buf))
      | [Reg dst, Reg src] \<Rightarrow>
          try_op (reg64_from src) buf (\<lambda>s.
            if s \<noteq> Rcx then err (Unsupported ''shl with variable count requires CL register'') buf
            else
              try_op (reg64_from dst) buf (\<lambda>d.
                (let dst_id = reg64_id d;
                     rex_byte = rex True False False (drop_bit 3 dst_id \<noteq> 0);
                     buf = push_byte buf rex_byte;
                     buf = push_byte buf 0xD3;
                     buf = push_byte buf (0xE0 OR (dst_id AND 7))
                 in ok buf)))
      | _ \<Rightarrow> err (Unsupported ''shl form not supported: expected reg64,imm8 or reg64,cl'') buf)"

definition encode_shr :: "instruction \<Rightarrow> code_buffer \<Rightarrow> enc_result" where
  "encode_shr inst buf =
     (case operands inst of
        [Reg dst, Imm64 imm] \<Rightarrow>
          try_op (reg64_from dst) buf (\<lambda>d.
            (let dst_id = reg64_id d;
                 rex_byte = rex True False False (drop_bit 3 dst_id \<noteq> 0);
                 buf = push_byte buf rex_byte;
                 buf = push_byte buf 0xC1;
                 buf = push_byte buf (0xE8 OR (dst_id AND 7));
                 buf = push_byte buf (ucast imm)
             in ok buf))
      | [Reg dst, Reg src] \<Rightarrow>
          try_op (reg64_from src) buf (\<lambda>s.
            if s \<noteq> Rcx then err (Unsupported ''shr with variable count requires CL register'') buf
            else
              try_op (reg64_from dst) buf (\<lambda>d.
                (let dst_id = reg64_id d;
                     rex_byte = rex True False False (drop_bit 3 dst_id \<noteq> 0);
                     buf = push_byte buf rex_byte;
                     buf = push_byte buf 0xD3;
                     buf = push_byte buf (0xE8 OR (dst_id AND 7))
                 in ok buf)))
      | _ \<Rightarrow> err (Unsupported ''shr form not supported: expected reg64,imm8 or reg64,cl'') buf)"

definition encode_sar :: "instruction \<Rightarrow> code_buffer \<Rightarrow> enc_result" where
  "encode_sar inst buf =
     (case operands inst of
        [Reg dst, Imm64 imm] \<Rightarrow>
          try_op (reg64_from dst) buf (\<lambda>d.
            (let dst_id = reg64_id d;
                 rex_byte = rex True False False (drop_bit 3 dst_id \<noteq> 0);
                 buf = push_byte buf rex_byte;
                 buf = push_byte buf 0xC1;
                 buf = push_byte buf (0xF8 OR (dst_id AND 7));
                 buf = push_byte buf (ucast imm)
             in ok buf))
      | [Reg dst, Reg src] \<Rightarrow>
          try_op (reg64_from src) buf (\<lambda>s.
            if s \<noteq> Rcx then err (Unsupported ''sar with variable count requires CL register'') buf
            else
              try_op (reg64_from dst) buf (\<lambda>d.
                (let dst_id = reg64_id d;
                     rex_byte = rex True False False (drop_bit 3 dst_id \<noteq> 0);
                     buf = push_byte buf rex_byte;
                     buf = push_byte buf 0xD3;
                     buf = push_byte buf (0xF8 OR (dst_id AND 7))
                 in ok buf)))
      | _ \<Rightarrow> err (Unsupported ''sar form not supported: expected reg64,imm8 or reg64,cl'') buf)"

definition encode_rol :: "instruction \<Rightarrow> code_buffer \<Rightarrow> int_width \<Rightarrow> enc_result" where
  "encode_rol inst buf width =
     (case width of
        W64 \<Rightarrow>
          (case operands inst of
             [Reg dst, Imm64 imm] \<Rightarrow>
               try_op (reg64_from dst) buf (\<lambda>dst_reg.
                 case i8_try_from imm of
                   None \<Rightarrow> err (Unsupported ''E0035: rol imm must fit in i8'') buf
                 | Some imm_i8 \<Rightarrow> ok (rol_reg64_imm8 buf dst_reg imm_i8))
           | [Reg dst, Reg src] \<Rightarrow>
               try_op (reg64_from dst) buf (\<lambda>dst_reg.
               try_op (reg64_from src) buf (\<lambda>s.
                 if s \<noteq> Rcx then err (Unsupported ''E0036: rol variable count requires CL'') buf
                 else ok (rol_reg64_cl buf dst_reg)))
           | _ \<Rightarrow> err (OperandShape (M_Rol width)) buf)
      | W32 \<Rightarrow>
          (case operands inst of
             [Reg dst, Imm64 imm] \<Rightarrow>
               try_op (reg32_from dst) buf (\<lambda>d.
                 case i8_try_from imm of
                   None \<Rightarrow> err (Unsupported ''E0035: rol imm must fit in i8'') buf
                 | Some imm_i8 \<Rightarrow> ok (rol_reg32_imm8 buf dst imm_i8))
           | [Reg dst, Reg src] \<Rightarrow>
               try_op (reg32_from dst) buf (\<lambda>d.
               try_op (reg32_from src) buf (\<lambda>s.
                 if s \<noteq> Ecx then err (Unsupported ''E0036: rol variable count requires CL'') buf
                 else ok (rol_reg32_cl buf dst)))
           | _ \<Rightarrow> err (OperandShape (M_Rol width)) buf)
      | W16 \<Rightarrow>
          (case operands inst of
             [Reg dst, Imm64 imm] \<Rightarrow>
               (case i8_try_from imm of
                  None \<Rightarrow> err (Unsupported ''E0035: rol imm must fit in i8'') buf
                | Some imm_i8 \<Rightarrow> ok (rol_reg16_imm8 buf dst imm_i8))
           | [Reg dst, Reg src] \<Rightarrow>
               if src \<noteq> 1 then err (Unsupported ''E0036: rol variable count requires CL'') buf
               else ok (rol_reg16_cl buf dst)
           | _ \<Rightarrow> err (OperandShape (M_Rol width)) buf)
      | _ \<Rightarrow> err (Unsupported ''E0034: rol only supports W16, W32, and W64'') buf)"

definition encode_ror :: "instruction \<Rightarrow> code_buffer \<Rightarrow> int_width \<Rightarrow> enc_result" where
  "encode_ror inst buf width =
     (case width of
        W64 \<Rightarrow>
          (case operands inst of
             [Reg dst, Imm64 imm] \<Rightarrow>
               try_op (reg64_from dst) buf (\<lambda>dst_reg.
                 case i8_try_from imm of
                   None \<Rightarrow> err (Unsupported ''E0035: ror imm must fit in i8'') buf
                 | Some imm_i8 \<Rightarrow> ok (ror_reg64_imm8 buf dst_reg imm_i8))
           | [Reg dst, Reg src] \<Rightarrow>
               try_op (reg64_from dst) buf (\<lambda>dst_reg.
               try_op (reg64_from src) buf (\<lambda>s.
                 if s \<noteq> Rcx then err (Unsupported ''E0036: ror variable count requires CL'') buf
                 else ok (ror_reg64_cl buf dst_reg)))
           | _ \<Rightarrow> err (OperandShape (M_Ror width)) buf)
      | W32 \<Rightarrow>
          (case operands inst of
             [Reg dst, Imm64 imm] \<Rightarrow>
               try_op (reg32_from dst) buf (\<lambda>d.
                 case i8_try_from imm of
                   None \<Rightarrow> err (Unsupported ''E0035: ror imm must fit in i8'') buf
                 | Some imm_i8 \<Rightarrow> ok (ror_reg32_imm8 buf dst imm_i8))
           | [Reg dst, Reg src] \<Rightarrow>
               try_op (reg32_from dst) buf (\<lambda>d.
               try_op (reg32_from src) buf (\<lambda>s.
                 if s \<noteq> Ecx then err (Unsupported ''E0036: ror variable count requires CL'') buf
                 else ok (ror_reg32_cl buf dst)))
           | _ \<Rightarrow> err (OperandShape (M_Ror width)) buf)
      | _ \<Rightarrow> err (Unsupported ''E0034: ror only supports W32 and W64'') buf)"

section \<open>The contract\<close>

text \<open>A shift or rotate: the count is an immediate byte or CL.\<close>

definition shift_insn :: "opn \<Rightarrow> int_width \<Rightarrow> operand list \<Rightarrow> insn list option" where
  "shift_insn op w ops =
     (case ops of
        [Reg d, Reg s] \<Rightarrow> Some [Insn False None (Inl op) w [A_Reg (unat d), A_Cl]]
      | _ \<Rightarrow> asm_insn (Inl op) w ops)"

text \<open>Counts that the count byte can carry, and registers that exist.\<close>

definition shift_wf :: "operand list \<Rightarrow> bool" where
  "shift_wf ops \<longleftrightarrow>
     (case ops of
        [Reg d, Imm64 imm] \<Rightarrow> unat d < 16 \<and> 0 \<le> sint imm \<and> sint imm \<le> 255
      | Reg d # _ \<Rightarrow> unat d < 16
      | _ \<Rightarrow> True)"

lemma shift_bytes_emits [emits_rules]:
  "emits buf (push_byte (push_byte (push_byte (push_byte buf
      (rex True False False (drop_bit 3 (reg64_id d) \<noteq> 0))) 0xC1) (0xE0 OR (reg64_id d AND 7))) imm)
    [alu64 I_SHL [A_Reg (reg_no d), A_Imm (uint imm)]]"
  "emits buf (push_byte (push_byte (push_byte (push_byte buf
      (rex True False False (drop_bit 3 (reg64_id d) \<noteq> 0))) 0xC1) (0xE8 OR (reg64_id d AND 7))) imm)
    [alu64 I_SHR [A_Reg (reg_no d), A_Imm (uint imm)]]"
  "emits buf (push_byte (push_byte (push_byte (push_byte buf
      (rex True False False (drop_bit 3 (reg64_id d) \<noteq> 0))) 0xC1) (0xF8 OR (reg64_id d AND 7))) imm)
    [alu64 I_SAR [A_Reg (reg_no d), A_Imm (uint imm)]]"
  "emits buf (push_byte (push_byte (push_byte buf
      (rex True False False (drop_bit 3 (reg64_id d) \<noteq> 0))) 0xD3) (0xE0 OR (reg64_id d AND 7)))
    [alu64 I_SHL [A_Reg (reg_no d), A_Cl]]"
  "emits buf (push_byte (push_byte (push_byte buf
      (rex True False False (drop_bit 3 (reg64_id d) \<noteq> 0))) 0xD3) (0xE8 OR (reg64_id d AND 7)))
    [alu64 I_SHR [A_Reg (reg_no d), A_Cl]]"
  "emits buf (push_byte (push_byte (push_byte buf
      (rex True False False (drop_bit 3 (reg64_id d) \<noteq> 0))) 0xD3) (0xF8 OR (reg64_id d AND 7)))
    [alu64 I_SAR [A_Reg (reg_no d), A_Cl]]"
  by (rule emits_fresh; simp add: enc_eval)+

lemma uint_ucast_count: "0 \<le> sint (imm :: i64) \<Longrightarrow> sint imm \<le> 255 \<Longrightarrow> uint (ucast imm :: u8) = sint imm"
  by (rule u8_try_from_Some) (simp add: u8_try_from_def)

lemma i8_try_from_uint: "i8_try_from imm = Some i \<Longrightarrow> 0 \<le> sint imm \<Longrightarrow> uint i = sint imm"
  by (auto simp: i8_try_from_def uint_ucast_count split: if_splits)

interpretation shl_enc: encoder "encode_shl" "shift_insn I_SHL W64" shift_wf
  by (rule encoderI; auto split: dispatch_splits simp: encode_shl_def dispatch_simps spec_simps
      shift_insn_def shift_wf_def uint_ucast_count i8_try_from_uint
      intro!: emits_rules [THEN deliversI])

interpretation shr_enc: encoder "encode_shr" "shift_insn I_SHR W64" shift_wf
  by (rule encoderI; auto split: dispatch_splits simp: encode_shr_def dispatch_simps spec_simps
      shift_insn_def shift_wf_def uint_ucast_count i8_try_from_uint
      intro!: emits_rules [THEN deliversI])

interpretation sar_enc: encoder "encode_sar" "shift_insn I_SAR W64" shift_wf
  by (rule encoderI; auto split: dispatch_splits simp: encode_sar_def dispatch_simps spec_simps
      shift_insn_def shift_wf_def uint_ucast_count i8_try_from_uint
      intro!: emits_rules [THEN deliversI])

interpretation rol_enc: encoder "(\<lambda>inst buf. encode_rol inst buf width)" "shift_insn I_ROL width" shift_wf for width
  by (cases width; rule encoderI; auto split: dispatch_splits simp: encode_rol_def dispatch_simps spec_simps
      shift_insn_def shift_wf_def uint_ucast_count i8_try_from_uint
      intro!: emits_rules [THEN deliversI])

interpretation ror_enc: encoder "(\<lambda>inst buf. encode_ror inst buf width)" "shift_insn I_ROR width" shift_wf for width
  by (cases width; rule encoderI; auto split: dispatch_splits simp: encode_ror_def dispatch_simps spec_simps
      shift_insn_def shift_wf_def uint_ucast_count i8_try_from_uint
      intro!: emits_rules [THEN deliversI])

end
