(* ===== verification/Encode_Cmp_Jmp.thy ===== *)
theory Encode_Cmp_Jmp
  imports Encoder_Bytes Encode_Types
begin

text \<open>
  \<^verbatim>\<open>crates/paideia-as-encoder/src/encode/cmp_jmp.rs\<close>: CMP, TEST and the unconditional jumps.
\<close>

definition cmp_mem_reg64_reg64 :: "code_buffer \<Rightarrow> reg64 \<Rightarrow> i32 \<Rightarrow> reg64 \<Rightarrow> code_buffer" where
  "cmp_mem_reg64_reg64 buf base disp src =
   (let base_id = reg64_id base;
       src_id = reg64_id src;
       rex_byte = rex True ((drop_bit 3 src_id) \<noteq> 0) False ((drop_bit 3 base_id) \<noteq> 0);
       buf = push_byte buf rex_byte;
       buf = push_byte buf 0x39;
       buf = emit_mem_base_disp buf (src_id AND 7) base_id disp
   in buf)"

definition cmp_reg64_imm8 :: "code_buffer \<Rightarrow> reg64 \<Rightarrow> i8 \<Rightarrow> code_buffer" where
  "cmp_reg64_imm8 buf dst imm =
   (let reg_id = reg64_id dst;
       rex_byte = rex True False False ((drop_bit 3 reg_id) \<noteq> 0);
       buf = push_byte buf rex_byte;
       buf = push_byte buf 0x83;
       buf = push_byte buf (0xF8 OR (reg_id AND 7));
       buf = push_byte buf imm
   in buf)"

definition cmp_reg64_imm32 :: "code_buffer \<Rightarrow> reg64 \<Rightarrow> i32 \<Rightarrow> code_buffer" where
  "cmp_reg64_imm32 buf dst imm =
   (let reg_id = reg64_id dst;
       rex_byte = rex True False False ((drop_bit 3 reg_id) \<noteq> 0);
       buf = push_byte buf rex_byte;
       buf = push_byte buf 0x81;
       buf = push_byte buf (0xF8 OR (reg_id AND 7));
       buf = extend_buf buf (le_bytes32 imm)
   in buf)"

definition test_reg64_reg64 :: "code_buffer \<Rightarrow> reg64 \<Rightarrow> reg64 \<Rightarrow> code_buffer" where
  "test_reg64_reg64 buf dst src =
   (let dst_id = reg64_id dst;
       src_id = reg64_id src;
       rex_byte = rex True ((drop_bit 3 src_id) \<noteq> 0) False ((drop_bit 3 dst_id) \<noteq> 0);
       buf = push_byte buf rex_byte;
       buf = push_byte buf 0x85;
       buf = push_byte buf ((0xC0 OR (push_bit 3 (src_id AND 7))) OR (dst_id AND 7))
   in buf)"

definition test_reg64_imm32 :: "code_buffer \<Rightarrow> reg64 \<Rightarrow> i32 \<Rightarrow> code_buffer" where
  "test_reg64_imm32 buf dst imm =
   (let reg_id = reg64_id dst;
       buf = (if dst = Rax then (let buf = push_byte buf (rex True False False False);
             buf = push_byte buf 0xA9;
             buf = extend_buf buf (le_bytes32 imm)
         in buf)
        else (let rex_byte = rex True False False ((drop_bit 3 reg_id) \<noteq> 0);
             buf = push_byte buf rex_byte;
             buf = push_byte buf 0xF7;
             buf = push_byte buf (0xC0 OR (reg_id AND 7));
             buf = extend_buf buf (le_bytes32 imm)
         in buf))
   in buf)"

definition jmp_rel8 :: "code_buffer \<Rightarrow> i8 \<Rightarrow> code_buffer" where
  "jmp_rel8 buf rel =
   (let buf = push_byte buf 0xEB;
       buf = push_byte buf rel
   in buf)"

definition jmp_rel32 :: "code_buffer \<Rightarrow> i32 \<Rightarrow> code_buffer" where
  "jmp_rel32 buf rel =
   (let buf = push_byte buf 0xE9;
       buf = extend_buf buf (le_bytes32 rel)
   in buf)"

definition jmp_reg64 :: "code_buffer \<Rightarrow> reg64 \<Rightarrow> code_buffer" where
  "jmp_reg64 buf reg =
   (let id = reg64_id reg;
       buf = (if id > 7 then push_byte buf (rex False False False True)
        else buf);
       buf = push_byte buf 0xFF;
       buf = push_byte buf (0xE0 OR (id AND 7))
   in buf)"

definition jmp_mem_sib_no_base_indexed ::
    "code_buffer \<Rightarrow> reg64 \<Rightarrow> u8 \<Rightarrow> i32 \<Rightarrow> (encode_error + nat) \<times> code_buffer" where
  "jmp_mem_sib_no_base_indexed buf index scale_bits disp32 =
   (let index_id = reg64_id index
   in if index_id = 4 then (Inl (InvalidOperand ''RSP cannot be used as SIB index register''), buf)
      else
        (let (buf, disp_offset) =
               (if drop_bit 3 index_id \<noteq> 0 then (push_byte buf 0x42, 4) else (buf, 3));
             buf = push_byte buf 0xFF;
             buf = push_byte buf 0x24;
             sib = (push_bit 6 (scale_bits AND 3) OR push_bit 3 (index_id AND 7)) OR 5;
             buf = push_byte buf sib;
             buf = extend_buf buf (le_bytes32 disp32)
         in (Inr disp_offset, buf)))"

lemmas cmp_jmp_defs =
  cmp_mem_reg64_reg64_def cmp_reg64_imm8_def cmp_reg64_imm32_def test_reg64_reg64_def
  test_reg64_imm32_def jmp_rel8_def jmp_rel32_def jmp_reg64_def

lemma cmp_jmp_emits [emits_rules]:
  "emits buf (cmp_mem_reg64_reg64 buf base disp src) [alu64 I_CMP [base_disp base disp, A_Reg (reg_no src)]]"
  "emits buf (cmp_reg64_imm8 buf dst imm8) [alu64 I_CMP [A_Reg (reg_no dst), A_Imm (sint imm8)]]"
  "emits buf (cmp_reg64_imm32 buf dst imm32) [alu64 I_CMP [A_Reg (reg_no dst), A_Imm (sint imm32)]]"
  "emits buf (test_reg64_reg64 buf dst src) [alu64 I_TEST [A_Reg (reg_no dst), A_Reg (reg_no src)]]"
  "emits buf (test_reg64_imm32 buf dst imm32) [alu64 I_TEST [A_Reg (reg_no dst), A_Imm (sint imm32)]]"
  "emits buf (jmp_rel8 buf rel8) [ctl64 I_JMP [A_Rel (sint rel8)]]"
  "emits buf (jmp_rel32 buf rel32) [ctl64 I_JMP [A_Rel (sint rel32)]]"
  "emits buf (jmp_reg64 buf reg) [ctl64 I_JMP [A_Reg (reg_no reg)]]"
  by (rule emits_fresh; simp add: cmp_jmp_defs enc_eval)+

lemma jmp_mem_sib_no_base_indexed_emits:
  assumes "jmp_mem_sib_no_base_indexed buf index sc disp = (Inr off, buf')"
  shows "index \<noteq> Rsp"
    and "emits buf buf' [ctl64 I_JMP [A_Mem None (Some (reg_no index, 2 ^ (unat sc mod 4))) disp]]"
    and "length (bytes buf) + off + 4 = length (bytes buf')"
    and "drop (length (bytes buf) + off) (bytes buf') = le_bytes32 disp"
proof -
  show i: "index \<noteq> Rsp"
    using assms by (auto simp: jmp_mem_sib_no_base_indexed_def Let_def)
  then have i4: "reg64_id index \<noteq> 4" by (cases index) simp_all
  define f where "f b = snd (jmp_mem_sib_no_base_indexed b index sc disp)" for b
  have "emits buf (f buf) [ctl64 I_JMP [A_Mem None (Some (reg_no index, 2 ^ (unat sc mod 4))) disp]]"
    using i i4 by (intro emits_fresh; simp add: f_def jmp_mem_sib_no_base_indexed_def enc_eval)
  then show "emits buf buf' [ctl64 I_JMP [A_Mem None (Some (reg_no index, 2 ^ (unat sc mod 4))) disp]]"
    using assms by (simp add: f_def)
  show "length (bytes buf) + off + 4 = length (bytes buf')"
    "drop (length (bytes buf) + off) (bytes buf') = le_bytes32 disp"
    using assms i4 by (auto simp: jmp_mem_sib_no_base_indexed_def Let_def split: if_splits)
qed

end
