(* ===== verification/Encode_Cmp_Test.thy ===== *)
theory Encode_Cmp_Test
  imports Encode_Dispatch Encode_Cmp_Jmp
begin

text \<open>
  \<^verbatim>\<open>crates/paideia-as-encoder/src/encode_instruction/cmp_test.rs\<close>: CMP in the four operand widths, and
  TEST.
\<close>

text \<open>The comparison primitive of \<^verbatim>\<open>encode/cache_widen.rs\<close>.\<close>

definition cmp_reg64_reg64 :: "code_buffer \<Rightarrow> reg64 \<Rightarrow> reg64 \<Rightarrow> code_buffer" where
  "cmp_reg64_reg64 buf dst src =
   (let dst_id = reg64_id dst;
       src_id = reg64_id src;
       rex_byte = rex True ((drop_bit 3 src_id) \<noteq> 0) False ((drop_bit 3 dst_id) \<noteq> 0);
       buf = push_byte buf rex_byte;
       buf = push_byte buf 0x39;
       buf = push_byte buf ((0xC0 OR (push_bit 3 (src_id AND 7))) OR (dst_id AND 7))
   in buf)"

definition encode_cmp :: "instruction \<Rightarrow> code_buffer \<Rightarrow> enc_result" where
  "encode_cmp inst buf =
     (case operands inst of
        [Reg dest, Reg src] \<Rightarrow>
          try_op (reg64_from dest) buf (\<lambda>d.
          try_op (reg64_from src) buf (\<lambda>s. ok (cmp_reg64_reg64 buf d s)))
      | [MemSib base None X1 disp, Reg src] \<Rightarrow>
          try_op (reg64_from base) buf (\<lambda>b.
          try_op (reg64_from src) buf (\<lambda>s. ok (cmp_mem_reg64_reg64 buf b disp s)))
      | [Reg dest, Imm64 imm] \<Rightarrow>
          try_op (reg64_from dest) buf (\<lambda>dest_reg.
            if - 128 \<le> sint imm \<and> sint imm \<le> 127 then ok (cmp_reg64_imm8 buf dest_reg (ucast imm))
            else if - 2147483648 \<le> sint imm \<and> sint imm \<le> 2147483647
            then ok (cmp_reg64_imm32 buf dest_reg (ucast imm))
            else
              (case stage_imm64_r11 buf dest_reg imm
                      (''cmp r11, imm64 (out-of-i32-range): scratch-reg r11 collision '' @ em_dash @
                       '' pick a different register'') of
                 (r, buf) \<Rightarrow> try_op r buf (\<lambda>scratch. ok (cmp_reg64_reg64 buf dest_reg scratch))))
      | _ \<Rightarrow>
          err (Unsupported
            ''cmp form not supported: expected reg64,reg64, reg64,imm64, or [base+disp],reg64'') buf)"

definition encode_cmp_reg8_imm :: "code_buffer \<Rightarrow> u8 \<Rightarrow> i64 \<Rightarrow> enc_result" where
  "encode_cmp_reg8_imm buf dest_reg_id imm =
     (if \<not> (- 128 \<le> sint imm \<and> sint imm \<le> 127)
      then err (Unsupported
        ''cmp_b imm must fit in signed byte; use a smaller value or load into reg first'') buf
      else
        (let imm_i8 = (ucast imm :: i8)
         in if dest_reg_id = 0 then ok (push_byte (push_byte buf 0x3C) imm_i8)
            else
              (let reg_id = dest_reg_id AND 7;
                   buf = (if drop_bit 3 dest_reg_id \<noteq> 0 then push_byte buf 0x41 else buf);
                   buf = push_byte buf 0x80;
                   buf = push_byte buf (0xF8 OR reg_id);
                   buf = push_byte buf imm_i8
               in ok buf)))"

definition encode_cmp_reg16_imm :: "code_buffer \<Rightarrow> u8 \<Rightarrow> i64 \<Rightarrow> enc_result" where
  "encode_cmp_reg16_imm buf dest_reg_id imm =
     (if sint imm < - 32768 \<or> sint imm > 32767
      then err (Unsupported
        ''cmp_w imm must fit in signed 16-bit; use a smaller value or load into reg first'') buf
      else
        (let buf = push_byte buf 0x66;
             reg_low = dest_reg_id AND 7;
             needs_rex_b = (drop_bit 3 dest_reg_id \<noteq> 0)
         in if - 128 \<le> sint imm \<and> sint imm \<le> 127
            then
              (let buf = (if needs_rex_b then push_byte buf 0x41 else buf);
                   buf = push_byte buf 0x83;
                   buf = push_byte buf (0xF8 OR reg_low);
                   buf = push_byte buf (ucast imm)
               in ok buf)
            else if dest_reg_id = 0 then ok (extend_buf (push_byte buf 0x3D) (le_bytes16 (ucast imm)))
            else
              (let buf = (if needs_rex_b then push_byte buf 0x41 else buf);
                   buf = push_byte buf 0x81;
                   buf = push_byte buf (0xF8 OR reg_low);
                   buf = extend_buf buf (le_bytes16 (ucast imm))
               in ok buf)))"

definition encode_cmp_reg32_imm :: "code_buffer \<Rightarrow> u8 \<Rightarrow> i64 \<Rightarrow> enc_result" where
  "encode_cmp_reg32_imm buf dest_reg_id imm =
     (if sint imm < - 2147483648 \<or> sint imm > 2147483647
      then err (Unsupported
        ''cmp_d imm must fit in signed 32-bit; use a smaller value or load into reg first'') buf
      else
        (let reg_low = dest_reg_id AND 7;
             needs_rex_b = (drop_bit 3 dest_reg_id \<noteq> 0)
         in if - 128 \<le> sint imm \<and> sint imm \<le> 127
            then
              (let buf = (if needs_rex_b then push_byte buf 0x41 else buf);
                   buf = push_byte buf 0x83;
                   buf = push_byte buf (0xF8 OR reg_low);
                   buf = push_byte buf (ucast imm)
               in ok buf)
            else if dest_reg_id = 0 then ok (extend_buf (push_byte buf 0x3D) (le_bytes32 (ucast imm)))
            else
              (let buf = (if needs_rex_b then push_byte buf 0x41 else buf);
                   buf = push_byte buf 0x81;
                   buf = push_byte buf (0xF8 OR reg_low);
                   buf = extend_buf buf (le_bytes32 (ucast imm))
               in ok buf)))"

definition encode_cmp_reg8_reg8 :: "code_buffer \<Rightarrow> u8 \<Rightarrow> u8 \<Rightarrow> enc_result" where
  "encode_cmp_reg8_reg8 buf dest_id src_id =
     (let dest_low = dest_id AND 7;
          src_low = src_id AND 7;
          rex_b = (drop_bit 3 dest_id \<noteq> 0);
          rex_r = (drop_bit 3 src_id \<noteq> 0);
          buf = (if rex_b \<or> rex_r
                 then push_byte buf ((0x40 OR (if rex_r then 0x04 else 0)) OR (if rex_b then 0x01 else 0))
                 else buf);
          buf = push_byte buf 0x38;
          buf = push_byte buf ((0xC0 OR push_bit 3 src_low) OR dest_low)
      in ok buf)"

definition encode_cmp_reg16_reg16 :: "code_buffer \<Rightarrow> u8 \<Rightarrow> u8 \<Rightarrow> enc_result" where
  "encode_cmp_reg16_reg16 buf dest_id src_id =
     (let buf = push_byte buf 0x66;
          dest_low = dest_id AND 7;
          src_low = src_id AND 7;
          rex_b = (drop_bit 3 dest_id \<noteq> 0);
          rex_r = (drop_bit 3 src_id \<noteq> 0);
          buf = (if rex_b \<or> rex_r
                 then push_byte buf ((0x40 OR (if rex_r then 0x04 else 0)) OR (if rex_b then 0x01 else 0))
                 else buf);
          buf = push_byte buf 0x39;
          buf = push_byte buf ((0xC0 OR push_bit 3 src_low) OR dest_low)
      in ok buf)"

definition encode_cmp_reg32_reg32 :: "code_buffer \<Rightarrow> u8 \<Rightarrow> u8 \<Rightarrow> enc_result" where
  "encode_cmp_reg32_reg32 buf dest_id src_id =
     (let dest_low = dest_id AND 7;
          src_low = src_id AND 7;
          rex_b = (drop_bit 3 dest_id \<noteq> 0);
          rex_r = (drop_bit 3 src_id \<noteq> 0);
          buf = (if rex_b \<or> rex_r
                 then push_byte buf ((0x40 OR (if rex_r then 0x04 else 0)) OR (if rex_b then 0x01 else 0))
                 else buf);
          buf = push_byte buf 0x39;
          buf = push_byte buf ((0xC0 OR push_bit 3 src_low) OR dest_low)
      in ok buf)"

definition encode_cmp_mem_reg8 :: "code_buffer \<Rightarrow> u8 \<Rightarrow> i32 \<Rightarrow> u8 \<Rightarrow> enc_result" where
  "encode_cmp_mem_reg8 buf base_id disp src_id =
     (let rex_r = (drop_bit 3 src_id \<noteq> 0);
          rex_b = (drop_bit 3 base_id \<noteq> 0);
          buf = (if rex_r \<or> rex_b
                 then push_byte buf ((0x40 OR (if rex_r then 0x04 else 0)) OR (if rex_b then 0x01 else 0))
                 else buf);
          buf = push_byte buf 0x38
      in ok (emit_mem_base_disp buf (src_id AND 7) base_id disp))"

definition encode_cmp_mem_reg16 :: "code_buffer \<Rightarrow> u8 \<Rightarrow> i32 \<Rightarrow> u8 \<Rightarrow> enc_result" where
  "encode_cmp_mem_reg16 buf base_id disp src_id =
     (let buf = push_byte buf 0x66;
          rex_r = (drop_bit 3 src_id \<noteq> 0);
          rex_b = (drop_bit 3 base_id \<noteq> 0);
          buf = (if rex_r \<or> rex_b
                 then push_byte buf ((0x40 OR (if rex_r then 0x04 else 0)) OR (if rex_b then 0x01 else 0))
                 else buf);
          buf = push_byte buf 0x39
      in ok (emit_mem_base_disp buf (src_id AND 7) base_id disp))"

definition encode_cmp_mem_reg32 :: "code_buffer \<Rightarrow> u8 \<Rightarrow> i32 \<Rightarrow> u8 \<Rightarrow> enc_result" where
  "encode_cmp_mem_reg32 buf base_id disp src_id =
     (let rex_r = (drop_bit 3 src_id \<noteq> 0);
          rex_b = (drop_bit 3 base_id \<noteq> 0);
          buf = (if rex_r \<or> rex_b
                 then push_byte buf ((0x40 OR (if rex_r then 0x04 else 0)) OR (if rex_b then 0x01 else 0))
                 else buf);
          buf = push_byte buf 0x39
      in ok (emit_mem_base_disp buf (src_id AND 7) base_id disp))"

definition encode_cmp_sized :: "instruction \<Rightarrow> int_width \<Rightarrow> code_buffer \<Rightarrow> enc_result" where
  "encode_cmp_sized inst width buf =
     (if width = W64 then encode_cmp inst buf
      else case operands inst of
        [Reg dest, Imm64 imm] \<Rightarrow>
          (case width of
             W8 \<Rightarrow> encode_cmp_reg8_imm buf dest imm
           | W16 \<Rightarrow> encode_cmp_reg16_imm buf dest imm
           | _ \<Rightarrow> encode_cmp_reg32_imm buf dest imm)
      | [Reg dest, Reg src] \<Rightarrow>
          (case width of
             W8 \<Rightarrow> encode_cmp_reg8_reg8 buf dest src
           | W16 \<Rightarrow> encode_cmp_reg16_reg16 buf dest src
           | _ \<Rightarrow> encode_cmp_reg32_reg32 buf dest src)
      | [MemSib base None X1 disp, Reg src] \<Rightarrow>
          (case width of
             W8 \<Rightarrow> encode_cmp_mem_reg8 buf base disp src
           | W16 \<Rightarrow> encode_cmp_mem_reg16 buf base disp src
           | _ \<Rightarrow> encode_cmp_mem_reg32 buf base disp src)
      | _ \<Rightarrow> err (OperandShape (M_CmpSized width)) buf)"

definition encode_test :: "instruction \<Rightarrow> code_buffer \<Rightarrow> enc_result" where
  "encode_test inst buf =
     (case operands inst of
        [Reg dest, Reg src] \<Rightarrow>
          try_op (reg64_from dest) buf (\<lambda>d.
          try_op (reg64_from src) buf (\<lambda>s. ok (test_reg64_reg64 buf d s)))
      | [Reg dest, Imm64 imm] \<Rightarrow>
          try_op (reg64_from dest) buf (\<lambda>dest_reg.
            if sint imm < - 2147483648 \<or> sint imm > 2147483647
            then err (Unsupported ''64-bit immediate test not yet supported; use and+cmp workaround'') buf
            else ok (test_reg64_imm32 buf dest_reg (ucast imm)))
      | _ \<Rightarrow> err (Unsupported ''test form not supported: expected reg64,reg64 or reg64,imm32'') buf)"

section \<open>The contract\<close>

lemma cmp_reg64_reg64_emits [emits_rules]:
  "emits buf (cmp_reg64_reg64 buf dst src) [alu64 I_CMP [A_Reg (reg_no dst), A_Reg (reg_no src)]]"
  by (rule emits_fresh; simp add: cmp_reg64_reg64_def enc_eval)

interpretation cmp_enc: encoder "encode_cmp" "alu_insns I_CMP" no_rsp_index
  by (rule encoderI; auto split: dispatch_splits simp: encode_cmp_def dispatch_simps spec_simps
      intro!: emits_rules [THEN staged_deliversI] emits_rules [THEN deliversI])

interpretation test_enc: encoder "encode_test" "asm_insn (Inl I_TEST) W64" no_rsp_index
  by (rule encoderI; auto split: dispatch_splits simp: encode_test_def dispatch_simps spec_simps
      intro!: emits_rules [THEN deliversI])

text \<open>
  The sized comparisons take register ids as they are.  A byte operand without REX reads AH to BH for
  the ids 4 to 7; \<open>byte_wrap\<close> is the operand that an id selects next to another one.
\<close>

definition byte_wrap :: "bool \<Rightarrow> u8 \<Rightarrow> arg" where
  "byte_wrap other_high r =
     (if 4 \<le> unat r \<and> unat r < 8 \<and> \<not> other_high then A_High8 (unat r - 4) else A_Low8 (wrap_reg r))"

abbreviation high :: "u8 \<Rightarrow> bool" where
  "high r \<equiv> \<not> unat r < 8"

lemma word_eq_0_unat: "r = 0 \<longleftrightarrow> unat (r :: u8) = 0"
  by (simp add: unat_eq_0)

lemma snd_result: "f = (Inr out, buf') \<Longrightarrow> emits buf (snd f) is \<Longrightarrow> emits buf buf' is"
  by simp

lemma cmp_reg8_imm_emits:
  assumes "encode_cmp_reg8_imm buf r imm = (Inr out, buf')"
  shows "emits buf buf' [Insn False None (Inl I_CMP) W8 [byte_wrap False r, A_Imm (sint imm)]]"
proof (rule snd_result [OF assms])
  have "- 128 \<le> sint imm" "sint imm \<le> 127"
    using assms by (auto simp: encode_cmp_reg8_imm_def split: if_splits)
  then show "emits buf (snd (encode_cmp_reg8_imm buf r imm))
      [Insn False None (Inl I_CMP) W8 [byte_wrap False r, A_Imm (sint imm)]]"
    by (intro emits_fresh; simp add: encode_cmp_reg8_imm_def byte_wrap_def sint_ucast_i8 enc_eval)
qed

lemma cmp_reg16_imm_emits:
  assumes "encode_cmp_reg16_imm buf r imm = (Inr out, buf')"
  shows "emits buf buf' [Insn False None (Inl I_CMP) W16 [A_Reg (wrap_reg r), A_Imm (sint imm)]]"
proof (rule snd_result [OF assms])
  have "- 32768 \<le> sint imm" "sint imm \<le> 32767"
    using assms by (auto simp: encode_cmp_reg16_imm_def split: if_splits)
  then show "emits buf (snd (encode_cmp_reg16_imm buf r imm))
      [Insn False None (Inl I_CMP) W16 [A_Reg (wrap_reg r), A_Imm (sint imm)]]"
    by (intro emits_fresh; simp add: encode_cmp_reg16_imm_def sint_ucast_i8 sint_ucast_i16 enc_eval)
qed

lemma cmp_reg32_imm_emits:
  assumes "encode_cmp_reg32_imm buf r imm = (Inr out, buf')"
  shows "emits buf buf' [alu32 I_CMP [A_Reg (wrap_reg r), A_Imm (sint imm)]]"
proof (rule snd_result [OF assms])
  have f: "- 2147483648 \<le> sint imm" "sint imm \<le> 2147483647"
    using assms by (auto simp: encode_cmp_reg32_imm_def split: if_splits)
  then have "sint (ucast imm :: i32) = sint imm"
    by (intro sint_ucast_i32) (simp add: fits_i32_def)
  with f show "emits buf (snd (encode_cmp_reg32_imm buf r imm))
      [alu32 I_CMP [A_Reg (wrap_reg r), A_Imm (sint imm)]]"
    by (intro emits_fresh; simp add: encode_cmp_reg32_imm_def sint_ucast_i8 enc_eval)
qed

lemmas cmp_pair_defs = encode_cmp_reg8_reg8_def encode_cmp_reg16_reg16_def encode_cmp_reg32_reg32_def
  encode_cmp_mem_reg8_def encode_cmp_mem_reg16_def encode_cmp_mem_reg32_def

lemma cmp_pair_emits:
  "emits buf (snd (encode_cmp_reg8_reg8 buf d s))
     [Insn False None (Inl I_CMP) W8 [byte_wrap (high s) d, byte_wrap (high d) s]]"
  "emits buf (snd (encode_cmp_reg16_reg16 buf d s))
     [Insn False None (Inl I_CMP) W16 [A_Reg (wrap_reg d), A_Reg (wrap_reg s)]]"
  "emits buf (snd (encode_cmp_reg32_reg32 buf d s)) [alu32 I_CMP [A_Reg (wrap_reg d), A_Reg (wrap_reg s)]]"
  "emits buf (snd (encode_cmp_mem_reg8 buf b disp s))
     [Insn False None (Inl I_CMP) W8 [A_Mem (Some (wrap_reg b)) None disp, byte_wrap (high b) s]]"
  "emits buf (snd (encode_cmp_mem_reg16 buf b disp s))
     [Insn False None (Inl I_CMP) W16 [A_Mem (Some (wrap_reg b)) None disp, A_Reg (wrap_reg s)]]"
  "emits buf (snd (encode_cmp_mem_reg32 buf b disp s))
     [alu32 I_CMP [A_Mem (Some (wrap_reg b)) None disp, A_Reg (wrap_reg s)]]"
  by (rule emits_fresh; simp add: cmp_pair_defs byte_wrap_def enc_eval)+

lemmas cmp_sized_emits = cmp_reg8_imm_emits cmp_reg16_imm_emits cmp_reg32_imm_emits
  snd_result [OF _ cmp_pair_emits(1)] snd_result [OF _ cmp_pair_emits(2)]
  snd_result [OF _ cmp_pair_emits(3)] snd_result [OF _ cmp_pair_emits(4)]
  snd_result [OF _ cmp_pair_emits(5)] snd_result [OF _ cmp_pair_emits(6)]

text \<open>The operands of a comparison of the given width: byte registers are the low bytes.\<close>

fun byte_arg :: "operand \<Rightarrow> arg option" where
  "byte_arg (Reg r) = Some (A_Low8 (unat r))"
| "byte_arg opd = operand_arg opd"

definition cmp_sized_insns :: "int_width \<Rightarrow> operand list \<Rightarrow> insn list option" where
  "cmp_sized_insns w ops =
     (if w = W64 then alu_insns I_CMP ops
      else if w = W8
      then map_option (\<lambda>as. [Insn False None (Inl I_CMP) W8 as]) (those (map byte_arg ops))
      else asm_insn (Inl I_CMP) w ops)"

text \<open>Register ids that exist and, for bytes, do not need a REX prefix to be reached.\<close>

fun sized_reg :: "int_width \<Rightarrow> operand \<Rightarrow> bool" where
  "sized_reg w (Reg r) \<longleftrightarrow> unat r < 16 \<and> (w = W8 \<longrightarrow> \<not> (4 \<le> unat r \<and> unat r < 8))"
| "sized_reg w (MemSib b i sc d) \<longleftrightarrow> unat b < 16"
| "sized_reg w _ \<longleftrightarrow> True"

definition cmp_sized_wf :: "int_width \<Rightarrow> operand list \<Rightarrow> bool" where
  "cmp_sized_wf w ops \<longleftrightarrow> no_rsp_index ops \<and> list_all (sized_reg w) ops"

lemmas cmp_sized_fail_defs = encode_cmp_reg8_imm_def encode_cmp_reg16_imm_def
  encode_cmp_reg32_imm_def cmp_pair_defs

interpretation cmp_sized_enc: encoder "\<lambda>inst buf. encode_cmp_sized inst width buf"
  "cmp_sized_insns width" "cmp_sized_wf width" for width
proof
  fix inst buf out buf'
  assume e: "encode_cmp_sized inst width buf = (Inr out, buf')"
  show "\<exists>is. emits buf buf' is"
  proof (cases "width = W64")
    case True
    then show ?thesis using e cmp_enc.appends by (simp add: encode_cmp_sized_def)
  next
    case False
    then show ?thesis using e
      by (cases width) (auto split: dispatch_splits simp: encode_cmp_sized_def dest!: cmp_sized_emits)
  qed
  assume wf: "cmp_sized_wf width (operands inst)"
  show "\<exists>is. cmp_sized_insns width (operands inst) = Some is \<and> emits buf buf' is"
  proof (cases "width = W64")
    case True
    then show ?thesis using e wf cmp_enc.sound
      by (simp add: encode_cmp_sized_def cmp_sized_insns_def cmp_sized_wf_def)
  next
    case False
    then show ?thesis using e wf
      by (cases width) (auto split: dispatch_splits dest!: cmp_sized_emits
          simp: encode_cmp_sized_def cmp_sized_wf_def cmp_sized_insns_def asm_insn_def byte_wrap_def)
  qed
next
  fix inst buf e buf'
  assume "encode_cmp_sized inst width buf = (Inl e, buf')"
  then show "buf' = buf"
    by (cases "width = W64"; cases width)
      (auto split: dispatch_splits simp: encode_cmp_sized_def cmp_sized_fail_defs Let_def dest: cmp_enc.clean)
qed

end
