(* ===== verification/Encode_Lock_Arith.thy ===== *)
theory Encode_Lock_Arith
  imports Encoder_Bytes
begin

text \<open>
  \<^verbatim>\<open>crates/paideia-as-encoder/src/encode/lock_arith.rs\<close>: LOCK-prefixed read-modify-write instructions.
\<close>

definition lock_xadd_mem_base_disp_reg64 :: "code_buffer \<Rightarrow> reg64 \<Rightarrow> i32 \<Rightarrow> reg64 \<Rightarrow> code_buffer" where
  "lock_xadd_mem_base_disp_reg64 buf base disp src =
   (let buf = push_byte buf 0xF0;
       base_id = reg64_id base;
       src_id = reg64_id src;
       rex_byte = rex True ((drop_bit 3 src_id) \<noteq> 0) False ((drop_bit 3 base_id) \<noteq> 0);
       buf = push_byte buf rex_byte;
       buf = push_byte buf 0x0F;
       buf = push_byte buf 0xC1;
       buf = emit_mem_base_disp buf (src_id AND 7) base_id disp
   in buf)"

definition lock_xadd_mem_base_disp_reg32 :: "code_buffer \<Rightarrow> reg64 \<Rightarrow> i32 \<Rightarrow> reg64 \<Rightarrow> code_buffer" where
  "lock_xadd_mem_base_disp_reg32 buf base disp src =
   (let buf = push_byte buf 0xF0;
       base_id = reg64_id base;
       src_id = reg64_id src;
       buf = (if ((drop_bit 3 src_id) \<noteq> 0) \<or> ((drop_bit 3 base_id) \<noteq> 0) then push_byte buf (rex False ((drop_bit 3 src_id) \<noteq> 0) False ((drop_bit 3 base_id) \<noteq> 0))
        else buf);
       buf = push_byte buf 0x0F;
       buf = push_byte buf 0xC1;
       buf = emit_mem_base_disp buf (src_id AND 7) base_id disp
   in buf)"

definition lock_add_mem_base_disp_imm8 :: "code_buffer \<Rightarrow> reg64 \<Rightarrow> i32 \<Rightarrow> i8 \<Rightarrow> code_buffer" where
  "lock_add_mem_base_disp_imm8 buf base disp imm =
   (let buf = push_byte buf 0xF0;
       base_id = reg64_id base;
       rex_byte = rex True False False ((drop_bit 3 base_id) \<noteq> 0);
       buf = push_byte buf rex_byte;
       buf = push_byte buf 0x83;
       buf = emit_mem_base_disp buf 0 base_id disp;
       buf = push_byte buf imm
   in buf)"

definition lock_add_mem_base_disp_imm32 :: "code_buffer \<Rightarrow> reg64 \<Rightarrow> i32 \<Rightarrow> i32 \<Rightarrow> code_buffer" where
  "lock_add_mem_base_disp_imm32 buf base disp imm =
   (let buf = push_byte buf 0xF0;
       base_id = reg64_id base;
       rex_byte = rex True False False ((drop_bit 3 base_id) \<noteq> 0);
       buf = push_byte buf rex_byte;
       buf = push_byte buf 0x81;
       buf = emit_mem_base_disp buf 0 base_id disp;
       buf = extend_buf buf (le_bytes32 imm)
   in buf)"

definition lock_add_mem_base_disp_reg64 :: "code_buffer \<Rightarrow> reg64 \<Rightarrow> i32 \<Rightarrow> reg64 \<Rightarrow> code_buffer" where
  "lock_add_mem_base_disp_reg64 buf base disp src =
   (let buf = push_byte buf 0xF0;
       base_id = reg64_id base;
       src_id = reg64_id src;
       rex_byte = rex True ((drop_bit 3 src_id) \<noteq> 0) False ((drop_bit 3 base_id) \<noteq> 0);
       buf = push_byte buf rex_byte;
       buf = push_byte buf 0x01;
       buf = emit_mem_base_disp buf (src_id AND 7) base_id disp
   in buf)"

definition lock_add_mem_base_disp_imm8_w32 :: "code_buffer \<Rightarrow> reg64 \<Rightarrow> i32 \<Rightarrow> i8 \<Rightarrow> code_buffer" where
  "lock_add_mem_base_disp_imm8_w32 buf base disp imm =
   (let buf = push_byte buf 0xF0;
       base_id = reg64_id base;
       buf = (if (drop_bit 3 base_id) \<noteq> 0 then push_byte buf (rex False False False True)
        else buf);
       buf = push_byte buf 0x83;
       buf = emit_mem_base_disp buf 0 base_id disp;
       buf = push_byte buf imm
   in buf)"

definition lock_add_mem_base_disp_imm32_w32 :: "code_buffer \<Rightarrow> reg64 \<Rightarrow> i32 \<Rightarrow> i32 \<Rightarrow> code_buffer" where
  "lock_add_mem_base_disp_imm32_w32 buf base disp imm =
   (let buf = push_byte buf 0xF0;
       base_id = reg64_id base;
       buf = (if (drop_bit 3 base_id) \<noteq> 0 then push_byte buf (rex False False False True)
        else buf);
       buf = push_byte buf 0x81;
       buf = emit_mem_base_disp buf 0 base_id disp;
       buf = extend_buf buf (le_bytes32 imm)
   in buf)"

definition lock_add_mem_base_disp_reg32 :: "code_buffer \<Rightarrow> reg64 \<Rightarrow> i32 \<Rightarrow> reg64 \<Rightarrow> code_buffer" where
  "lock_add_mem_base_disp_reg32 buf base disp src =
   (let buf = push_byte buf 0xF0;
       base_id = reg64_id base;
       src_id = reg64_id src;
       buf = (if ((drop_bit 3 src_id) \<noteq> 0) \<or> ((drop_bit 3 base_id) \<noteq> 0) then push_byte buf (rex False ((drop_bit 3 src_id) \<noteq> 0) False ((drop_bit 3 base_id) \<noteq> 0))
        else buf);
       buf = push_byte buf 0x01;
       buf = emit_mem_base_disp buf (src_id AND 7) base_id disp
   in buf)"

definition lock_sub_mem_base_disp_imm8 :: "code_buffer \<Rightarrow> reg64 \<Rightarrow> i32 \<Rightarrow> i8 \<Rightarrow> code_buffer" where
  "lock_sub_mem_base_disp_imm8 buf base disp imm =
   (let buf = push_byte buf 0xF0;
       base_id = reg64_id base;
       rex_byte = rex True False False ((drop_bit 3 base_id) \<noteq> 0);
       buf = push_byte buf rex_byte;
       buf = push_byte buf 0x83;
       buf = emit_mem_base_disp buf 5 base_id disp;
       buf = push_byte buf imm
   in buf)"

definition lock_sub_mem_base_disp_imm32 :: "code_buffer \<Rightarrow> reg64 \<Rightarrow> i32 \<Rightarrow> i32 \<Rightarrow> code_buffer" where
  "lock_sub_mem_base_disp_imm32 buf base disp imm =
   (let buf = push_byte buf 0xF0;
       base_id = reg64_id base;
       rex_byte = rex True False False ((drop_bit 3 base_id) \<noteq> 0);
       buf = push_byte buf rex_byte;
       buf = push_byte buf 0x81;
       buf = emit_mem_base_disp buf 5 base_id disp;
       buf = extend_buf buf (le_bytes32 imm)
   in buf)"

definition lock_sub_mem_base_disp_reg64 :: "code_buffer \<Rightarrow> reg64 \<Rightarrow> i32 \<Rightarrow> reg64 \<Rightarrow> code_buffer" where
  "lock_sub_mem_base_disp_reg64 buf base disp src =
   (let buf = push_byte buf 0xF0;
       base_id = reg64_id base;
       src_id = reg64_id src;
       rex_byte = rex True ((drop_bit 3 src_id) \<noteq> 0) False ((drop_bit 3 base_id) \<noteq> 0);
       buf = push_byte buf rex_byte;
       buf = push_byte buf 0x29;
       buf = emit_mem_base_disp buf (src_id AND 7) base_id disp
   in buf)"

definition lock_sub_mem_base_disp_imm8_w32 :: "code_buffer \<Rightarrow> reg64 \<Rightarrow> i32 \<Rightarrow> i8 \<Rightarrow> code_buffer" where
  "lock_sub_mem_base_disp_imm8_w32 buf base disp imm =
   (let buf = push_byte buf 0xF0;
       base_id = reg64_id base;
       buf = (if (drop_bit 3 base_id) \<noteq> 0 then push_byte buf (rex False False False True)
        else buf);
       buf = push_byte buf 0x83;
       buf = emit_mem_base_disp buf 5 base_id disp;
       buf = push_byte buf imm
   in buf)"

definition lock_sub_mem_base_disp_imm32_w32 :: "code_buffer \<Rightarrow> reg64 \<Rightarrow> i32 \<Rightarrow> i32 \<Rightarrow> code_buffer" where
  "lock_sub_mem_base_disp_imm32_w32 buf base disp imm =
   (let buf = push_byte buf 0xF0;
       base_id = reg64_id base;
       buf = (if (drop_bit 3 base_id) \<noteq> 0 then push_byte buf (rex False False False True)
        else buf);
       buf = push_byte buf 0x81;
       buf = emit_mem_base_disp buf 5 base_id disp;
       buf = extend_buf buf (le_bytes32 imm)
   in buf)"

definition lock_sub_mem_base_disp_reg32 :: "code_buffer \<Rightarrow> reg64 \<Rightarrow> i32 \<Rightarrow> reg64 \<Rightarrow> code_buffer" where
  "lock_sub_mem_base_disp_reg32 buf base disp src =
   (let buf = push_byte buf 0xF0;
       base_id = reg64_id base;
       src_id = reg64_id src;
       buf = (if ((drop_bit 3 src_id) \<noteq> 0) \<or> ((drop_bit 3 base_id) \<noteq> 0) then push_byte buf (rex False ((drop_bit 3 src_id) \<noteq> 0) False ((drop_bit 3 base_id) \<noteq> 0))
        else buf);
       buf = push_byte buf 0x29;
       buf = emit_mem_base_disp buf (src_id AND 7) base_id disp
   in buf)"

definition lock_and_mem_base_disp_reg64 :: "code_buffer \<Rightarrow> reg64 \<Rightarrow> i32 \<Rightarrow> reg64 \<Rightarrow> code_buffer" where
  "lock_and_mem_base_disp_reg64 buf base disp src =
   (let buf = push_byte buf 0xF0;
       base_id = reg64_id base;
       src_id = reg64_id src;
       rex_byte = rex True ((drop_bit 3 src_id) \<noteq> 0) False ((drop_bit 3 base_id) \<noteq> 0);
       buf = push_byte buf rex_byte;
       buf = push_byte buf 0x21;
       buf = emit_mem_base_disp buf (src_id AND 7) base_id disp
   in buf)"

definition lock_or_mem_base_disp_reg64 :: "code_buffer \<Rightarrow> reg64 \<Rightarrow> i32 \<Rightarrow> reg64 \<Rightarrow> code_buffer" where
  "lock_or_mem_base_disp_reg64 buf base disp src =
   (let buf = push_byte buf 0xF0;
       base_id = reg64_id base;
       src_id = reg64_id src;
       rex_byte = rex True ((drop_bit 3 src_id) \<noteq> 0) False ((drop_bit 3 base_id) \<noteq> 0);
       buf = push_byte buf rex_byte;
       buf = push_byte buf 0x09;
       buf = emit_mem_base_disp buf (src_id AND 7) base_id disp
   in buf)"

definition lock_xor_mem_base_disp_reg64 :: "code_buffer \<Rightarrow> reg64 \<Rightarrow> i32 \<Rightarrow> reg64 \<Rightarrow> code_buffer" where
  "lock_xor_mem_base_disp_reg64 buf base disp src =
   (let buf = push_byte buf 0xF0;
       base_id = reg64_id base;
       src_id = reg64_id src;
       rex_byte = rex True ((drop_bit 3 src_id) \<noteq> 0) False ((drop_bit 3 base_id) \<noteq> 0);
       buf = push_byte buf rex_byte;
       buf = push_byte buf 0x31;
       buf = emit_mem_base_disp buf (src_id AND 7) base_id disp
   in buf)"

lemmas lock_arith_defs =
  lock_xadd_mem_base_disp_reg64_def lock_xadd_mem_base_disp_reg32_def
  lock_add_mem_base_disp_imm8_def lock_add_mem_base_disp_imm32_def
  lock_add_mem_base_disp_reg64_def lock_add_mem_base_disp_imm8_w32_def
  lock_add_mem_base_disp_imm32_w32_def lock_add_mem_base_disp_reg32_def
  lock_sub_mem_base_disp_imm8_def lock_sub_mem_base_disp_imm32_def
  lock_sub_mem_base_disp_reg64_def lock_sub_mem_base_disp_imm8_w32_def
  lock_sub_mem_base_disp_imm32_w32_def lock_sub_mem_base_disp_reg32_def
  lock_and_mem_base_disp_reg64_def lock_or_mem_base_disp_reg64_def
  lock_xor_mem_base_disp_reg64_def

lemma lock_arith_emits [emits_rules]:
  "emits buf (lock_xadd_mem_base_disp_reg64 buf base disp src) [Insn True None (Inr I_XADD) W64 [base_disp base disp, A_Reg (reg_no src)]]"
  "emits buf (lock_xadd_mem_base_disp_reg32 buf base disp src) [Insn True None (Inr I_XADD) W32 [base_disp base disp, A_Reg (reg_no src)]]"
  "emits buf (lock_add_mem_base_disp_imm8 buf base disp imm8) [Insn True None (Inl I_ADD) W64 [base_disp base disp, A_Imm (sint imm8)]]"
  "emits buf (lock_add_mem_base_disp_imm32 buf base disp imm32) [Insn True None (Inl I_ADD) W64 [base_disp base disp, A_Imm (sint imm32)]]"
  "emits buf (lock_add_mem_base_disp_reg64 buf base disp src) [Insn True None (Inl I_ADD) W64 [base_disp base disp, A_Reg (reg_no src)]]"
  "emits buf (lock_add_mem_base_disp_imm8_w32 buf base disp imm8) [Insn True None (Inl I_ADD) W32 [base_disp base disp, A_Imm (sint imm8)]]"
  "emits buf (lock_add_mem_base_disp_imm32_w32 buf base disp imm32) [Insn True None (Inl I_ADD) W32 [base_disp base disp, A_Imm (sint imm32)]]"
  "emits buf (lock_add_mem_base_disp_reg32 buf base disp src) [Insn True None (Inl I_ADD) W32 [base_disp base disp, A_Reg (reg_no src)]]"
  "emits buf (lock_sub_mem_base_disp_imm8 buf base disp imm8) [Insn True None (Inl I_SUB) W64 [base_disp base disp, A_Imm (sint imm8)]]"
  "emits buf (lock_sub_mem_base_disp_imm32 buf base disp imm32) [Insn True None (Inl I_SUB) W64 [base_disp base disp, A_Imm (sint imm32)]]"
  "emits buf (lock_sub_mem_base_disp_reg64 buf base disp src) [Insn True None (Inl I_SUB) W64 [base_disp base disp, A_Reg (reg_no src)]]"
  "emits buf (lock_sub_mem_base_disp_imm8_w32 buf base disp imm8) [Insn True None (Inl I_SUB) W32 [base_disp base disp, A_Imm (sint imm8)]]"
  "emits buf (lock_sub_mem_base_disp_imm32_w32 buf base disp imm32) [Insn True None (Inl I_SUB) W32 [base_disp base disp, A_Imm (sint imm32)]]"
  "emits buf (lock_sub_mem_base_disp_reg32 buf base disp src) [Insn True None (Inl I_SUB) W32 [base_disp base disp, A_Reg (reg_no src)]]"
  "emits buf (lock_and_mem_base_disp_reg64 buf base disp src) [Insn True None (Inl I_AND) W64 [base_disp base disp, A_Reg (reg_no src)]]"
  "emits buf (lock_or_mem_base_disp_reg64 buf base disp src) [Insn True None (Inl I_OR) W64 [base_disp base disp, A_Reg (reg_no src)]]"
  "emits buf (lock_xor_mem_base_disp_reg64 buf base disp src) [Insn True None (Inl I_XOR) W64 [base_disp base disp, A_Reg (reg_no src)]]"
  by (rule emits_fresh; simp add: lock_arith_defs enc_eval)+

end
