(* ===== verification/Encode_Atomic.thy ===== *)
theory Encode_Atomic
  imports Encode_Dispatch Encode_Unary_Special Encode_Lock_Arith Encode_Bit_Ops
begin

text \<open>
  \<^verbatim>\<open>crates/paideia-as-encoder/src/encode_instruction/atomic_lock.rs\<close>: XCHG and the LOCK-prefixed
  read-modify-write instructions, with the absolute-address primitives of \<^verbatim>\<open>encode/abs_disp32.rs\<close>.
\<close>

text \<open>
  The LOCK forms on an absolute address of \<^verbatim>\<open>encode/abs_disp32.rs\<close>: they return the offset of the
  displacement field; widths other than 32 and 64 are unreachable (\<open>None\<close>).
\<close>

definition lock_inc_mem_abs_disp32 ::
    "code_buffer \<Rightarrow> int_width \<Rightarrow> i32 \<Rightarrow> (nat \<times> code_buffer) option" where
  "lock_inc_mem_abs_disp32 buf width disp32 =
   (let buf = push_byte buf 0xF0
   in case (case width of
              W64 \<Rightarrow> Some (push_byte buf 0x48, 4)
            | W32 \<Rightarrow> Some (buf, 3)
            | _ \<Rightarrow> None) of
        None \<Rightarrow> None
      | Some (buf, disp_offset) \<Rightarrow>
          (let buf = push_byte buf 0xFF;
               buf = push_byte buf 0x04;
               buf = push_byte buf 0x25;
               buf = extend_buf buf (le_bytes32 disp32)
           in Some (disp_offset, buf)))"

definition lock_add_mem_abs_disp32_imm8 ::
    "code_buffer \<Rightarrow> int_width \<Rightarrow> i32 \<Rightarrow> i8 \<Rightarrow> (nat \<times> code_buffer) option" where
  "lock_add_mem_abs_disp32_imm8 buf width disp32 imm8 =
   (let buf = push_byte buf 0xF0
   in case (case width of
              W64 \<Rightarrow> Some (push_byte buf 0x48, 4)
            | W32 \<Rightarrow> Some (buf, 3)
            | _ \<Rightarrow> None) of
        None \<Rightarrow> None
      | Some (buf, disp_offset) \<Rightarrow>
          (let buf = push_byte buf 0x83;
               buf = push_byte buf 0x04;
               buf = push_byte buf 0x25;
               buf = extend_buf buf (le_bytes32 disp32);
               buf = push_byte buf imm8
           in Some (disp_offset, buf)))"

definition lock_add_mem_abs_disp32_imm32 ::
    "code_buffer \<Rightarrow> int_width \<Rightarrow> i32 \<Rightarrow> i32 \<Rightarrow> (nat \<times> code_buffer) option" where
  "lock_add_mem_abs_disp32_imm32 buf width disp32 imm32 =
   (let buf = push_byte buf 0xF0
   in case (case width of
              W64 \<Rightarrow> Some (push_byte buf 0x48, 4)
            | W32 \<Rightarrow> Some (buf, 3)
            | _ \<Rightarrow> None) of
        None \<Rightarrow> None
      | Some (buf, disp_offset) \<Rightarrow>
          (let buf = push_byte buf 0x81;
               buf = push_byte buf 0x04;
               buf = push_byte buf 0x25;
               buf = extend_buf buf (le_bytes32 disp32);
               buf = extend_buf buf (le_bytes32 imm32)
           in Some (disp_offset, buf)))"

definition encode_xchg_inst :: "instruction \<Rightarrow> code_buffer \<Rightarrow> enc_result" where
  "encode_xchg_inst inst buf =
     (case operands inst of
        [MemSib base None X1 disp, Reg src] \<Rightarrow>
          try_op (reg64_from base) buf (\<lambda>b.
          try_op (reg64_from src) buf (\<lambda>s. ok (xchg_mem_base_disp_reg64 buf b disp s)))
      | _ \<Rightarrow> err (OperandShape M_Xchg) buf)"

definition encode_lock_cmpxchg_inst :: "instruction \<Rightarrow> code_buffer \<Rightarrow> enc_result" where
  "encode_lock_cmpxchg_inst inst buf =
     (case operands inst of
        [MemSib base None X1 disp, Reg src] \<Rightarrow>
          try_op (reg64_from base) buf (\<lambda>b.
          try_op (reg64_from src) buf (\<lambda>s. ok (lock_cmpxchg_mem_base_disp_reg64 buf b disp s)))
      | _ \<Rightarrow> err (OperandShape M_LockCmpxchg) buf)"

definition encode_lock_cmpxchg32_inst :: "instruction \<Rightarrow> code_buffer \<Rightarrow> enc_result" where
  "encode_lock_cmpxchg32_inst inst buf =
     (case operands inst of
        [MemSib base None X1 disp, Reg src] \<Rightarrow>
          try_op (reg64_from base) buf (\<lambda>b.
          try_op (reg64_from src) buf (\<lambda>s. ok (lock_cmpxchg_mem_base_disp_reg32 buf b disp s)))
      | _ \<Rightarrow> err (OperandShape M_LockCmpxchg32) buf)"

definition encode_lock_cmpxchg16b_inst :: "instruction \<Rightarrow> code_buffer \<Rightarrow> enc_result" where
  "encode_lock_cmpxchg16b_inst inst buf =
     (case operands inst of
        [MemSib base None X1 disp] \<Rightarrow>
          try_op (reg64_from base) buf (\<lambda>b. ok (lock_cmpxchg16b_mem_base_disp buf b disp))
      | _ \<Rightarrow> err (OperandShape M_LockCmpxchg16b) buf)"

definition encode_lock_xadd :: "instruction \<Rightarrow> code_buffer \<Rightarrow> int_width \<Rightarrow> enc_result" where
  "encode_lock_xadd inst buf width =
     (case operands inst of
        [MemSib base None X1 disp, Reg src] \<Rightarrow>
          try_op (reg64_from base) buf (\<lambda>base_reg.
          try_op (reg64_from src) buf (\<lambda>src_reg.
            case width of
              W32 \<Rightarrow> ok (lock_xadd_mem_base_disp_reg32 buf base_reg disp src_reg)
            | W64 \<Rightarrow> ok (lock_xadd_mem_base_disp_reg64 buf base_reg disp src_reg)
            | _ \<Rightarrow> err (Unsupported ''E0031: lock_xadd only supports W32 and W64'') buf))
      | _ \<Rightarrow> err (OperandShape (M_LockXadd width)) buf)"

definition encode_lock_add :: "instruction \<Rightarrow> code_buffer \<Rightarrow> int_width \<Rightarrow> enc_result" where
  "encode_lock_add inst buf width =
     (if width \<noteq> W32 \<and> width \<noteq> W64
      then err (Unsupported ''E0032: lock_add only supports W32 and W64'') buf
      else case operands inst of
        [MemSib base None X1 disp, Reg src] \<Rightarrow>
          try_op (reg64_from base) buf (\<lambda>base_reg.
          try_op (reg64_from src) buf (\<lambda>src_reg.
            case width of
              W32 \<Rightarrow> ok (lock_add_mem_base_disp_reg32 buf base_reg disp src_reg)
            | W64 \<Rightarrow> ok (lock_add_mem_base_disp_reg64 buf base_reg disp src_reg)
            | _ \<Rightarrow> (Inl (Panic ''unreachable''), buf)))
      | [MemSib base None X1 disp, Imm64 imm] \<Rightarrow>
          try_op (reg64_from base) buf (\<lambda>base_reg.
            case i8_try_from imm of
              Some imm8 \<Rightarrow>
                (case width of
                   W32 \<Rightarrow> ok (lock_add_mem_base_disp_imm8_w32 buf base_reg disp imm8)
                 | W64 \<Rightarrow> ok (lock_add_mem_base_disp_imm8 buf base_reg disp imm8)
                 | _ \<Rightarrow> (Inl (Panic ''unreachable''), buf))
            | None \<Rightarrow>
                (case i32_try_from imm of
                   Some imm32 \<Rightarrow>
                     (case width of
                        W32 \<Rightarrow> ok (lock_add_mem_base_disp_imm32_w32 buf base_reg disp imm32)
                      | W64 \<Rightarrow> ok (lock_add_mem_base_disp_imm32 buf base_reg disp imm32)
                      | _ \<Rightarrow> (Inl (Panic ''unreachable''), buf))
                 | None \<Rightarrow> err (Unsupported ''E0033: lock_add imm out of i32 range'') buf))
      | [MemDisp disp, Imm64 imm] \<Rightarrow>
          (case i8_try_from imm of
             Some imm8 \<Rightarrow>
               (case lock_add_mem_abs_disp32_imm8 buf width disp imm8 of
                  None \<Rightarrow> (Inl (Panic ''unreachable''), buf)
                | Some (off, buf) \<Rightarrow> ok buf)
           | None \<Rightarrow>
               (case i32_try_from imm of
                  Some imm32 \<Rightarrow>
                    (case lock_add_mem_abs_disp32_imm32 buf width disp imm32 of
                       None \<Rightarrow> (Inl (Panic ''unreachable''), buf)
                     | Some (off, buf) \<Rightarrow> ok buf)
                | None \<Rightarrow> err (Unsupported ''E0033: lock_add imm out of i32 range'') buf))
      | _ \<Rightarrow> err (OperandShape (M_LockAdd width)) buf)"

definition encode_lock_sub :: "instruction \<Rightarrow> code_buffer \<Rightarrow> int_width \<Rightarrow> enc_result" where
  "encode_lock_sub inst buf width =
     (if width \<noteq> W32 \<and> width \<noteq> W64
      then err (Unsupported ''E0032: lock_sub only supports W32 and W64'') buf
      else case operands inst of
        [MemSib base None X1 disp, Reg src] \<Rightarrow>
          try_op (reg64_from base) buf (\<lambda>base_reg.
          try_op (reg64_from src) buf (\<lambda>src_reg.
            case width of
              W32 \<Rightarrow> ok (lock_sub_mem_base_disp_reg32 buf base_reg disp src_reg)
            | W64 \<Rightarrow> ok (lock_sub_mem_base_disp_reg64 buf base_reg disp src_reg)
            | _ \<Rightarrow> (Inl (Panic ''unreachable''), buf)))
      | [MemSib base None X1 disp, Imm64 imm] \<Rightarrow>
          try_op (reg64_from base) buf (\<lambda>base_reg.
            case i8_try_from imm of
              Some imm8 \<Rightarrow>
                (case width of
                   W32 \<Rightarrow> ok (lock_sub_mem_base_disp_imm8_w32 buf base_reg disp imm8)
                 | W64 \<Rightarrow> ok (lock_sub_mem_base_disp_imm8 buf base_reg disp imm8)
                 | _ \<Rightarrow> (Inl (Panic ''unreachable''), buf))
            | None \<Rightarrow>
                (case i32_try_from imm of
                   Some imm32 \<Rightarrow>
                     (case width of
                        W32 \<Rightarrow> ok (lock_sub_mem_base_disp_imm32_w32 buf base_reg disp imm32)
                      | W64 \<Rightarrow> ok (lock_sub_mem_base_disp_imm32 buf base_reg disp imm32)
                      | _ \<Rightarrow> (Inl (Panic ''unreachable''), buf))
                 | None \<Rightarrow> err (Unsupported ''E0033: lock_sub imm out of i32 range'') buf))
      | _ \<Rightarrow> err (OperandShape (M_LockSub width)) buf)"

definition encode_lock_inc :: "instruction \<Rightarrow> code_buffer \<Rightarrow> int_width \<Rightarrow> enc_result" where
  "encode_lock_inc inst buf width =
     (if width \<noteq> W32 \<and> width \<noteq> W64
      then err (Unsupported ''E0034: lock_inc only supports W32 and W64'') buf
      else case operands inst of
        [MemDisp disp] \<Rightarrow>
          (case lock_inc_mem_abs_disp32 buf width disp of
             None \<Rightarrow> (Inl (Panic ''unreachable''), buf)
           | Some (off, buf) \<Rightarrow> ok buf)
      | _ \<Rightarrow> err (OperandShape (M_LockInc width)) buf)"

definition encode_lock_bts :: "instruction \<Rightarrow> code_buffer \<Rightarrow> int_width \<Rightarrow> enc_result" where
  "encode_lock_bts inst buf width =
     (if width \<noteq> W64 then err (Unsupported ''E0044: lock_bts only supports W64'') buf
      else case operands inst of
        [MemSib base None X1 disp, Reg index_reg] \<Rightarrow>
          try_op (reg64_from base) buf (\<lambda>base_reg.
          try_op (reg64_from index_reg) buf (\<lambda>i. ok (lock_bts_mem_base_disp_reg64 buf base_reg disp i)))
      | [MemSib base None X1 disp, Imm64 imm_val] \<Rightarrow>
          try_op (reg64_from base) buf (\<lambda>base_reg.
            case u8_try_from imm_val of
              None \<Rightarrow> err (Unsupported ''E0044: lock_bts imm8 out of u8 range'') buf
            | Some imm \<Rightarrow> ok (lock_bts_mem_base_disp_imm8 buf base_reg disp imm))
      | _ \<Rightarrow> err (OperandShape (M_LockBts width)) buf)"

definition encode_lock_btr :: "instruction \<Rightarrow> code_buffer \<Rightarrow> int_width \<Rightarrow> enc_result" where
  "encode_lock_btr inst buf width =
     (if width \<noteq> W64 then err (Unsupported ''E0045: lock_btr only supports W64'') buf
      else case operands inst of
        [MemSib base None X1 disp, Reg index_reg] \<Rightarrow>
          try_op (reg64_from base) buf (\<lambda>base_reg.
          try_op (reg64_from index_reg) buf (\<lambda>i. ok (lock_btr_mem_base_disp_reg64 buf base_reg disp i)))
      | [MemSib base None X1 disp, Imm64 imm_val] \<Rightarrow>
          try_op (reg64_from base) buf (\<lambda>base_reg.
            case u8_try_from imm_val of
              None \<Rightarrow> err (Unsupported ''E0045: lock_btr imm8 out of u8 range'') buf
            | Some imm \<Rightarrow> ok (lock_btr_mem_base_disp_imm8 buf base_reg disp imm))
      | _ \<Rightarrow> err (OperandShape (M_LockBtr width)) buf)"

definition encode_lock_btc :: "instruction \<Rightarrow> code_buffer \<Rightarrow> int_width \<Rightarrow> enc_result" where
  "encode_lock_btc inst buf width =
     (if width \<noteq> W64 then err (Unsupported ''E0046: lock_btc only supports W64'') buf
      else case operands inst of
        [MemSib base None X1 disp, Reg index_reg] \<Rightarrow>
          try_op (reg64_from base) buf (\<lambda>base_reg.
          try_op (reg64_from index_reg) buf (\<lambda>i. ok (lock_btc_mem_base_disp_reg64 buf base_reg disp i)))
      | [MemSib base None X1 disp, Imm64 imm_val] \<Rightarrow>
          try_op (reg64_from base) buf (\<lambda>base_reg.
            case u8_try_from imm_val of
              None \<Rightarrow> err (Unsupported ''E0046: lock_btc imm8 out of u8 range'') buf
            | Some imm \<Rightarrow> ok (lock_btc_mem_base_disp_imm8 buf base_reg disp imm))
      | _ \<Rightarrow> err (OperandShape (M_LockBtc width)) buf)"

definition encode_lock_and :: "instruction \<Rightarrow> code_buffer \<Rightarrow> int_width \<Rightarrow> enc_result" where
  "encode_lock_and inst buf width =
     (if width \<noteq> W64 then err (Unsupported ''E0047: lock_and only supports W64'') buf
      else case operands inst of
        [MemSib base None X1 disp, Reg src_reg] \<Rightarrow>
          try_op (reg64_from base) buf (\<lambda>base_reg.
          try_op (reg64_from src_reg) buf (\<lambda>s. ok (lock_and_mem_base_disp_reg64 buf base_reg disp s)))
      | _ \<Rightarrow> err (OperandShape (M_LockAnd width)) buf)"

definition encode_lock_or :: "instruction \<Rightarrow> code_buffer \<Rightarrow> int_width \<Rightarrow> enc_result" where
  "encode_lock_or inst buf width =
     (if width \<noteq> W64 then err (Unsupported ''E0048: lock_or only supports W64'') buf
      else case operands inst of
        [MemSib base None X1 disp, Reg src_reg] \<Rightarrow>
          try_op (reg64_from base) buf (\<lambda>base_reg.
          try_op (reg64_from src_reg) buf (\<lambda>s. ok (lock_or_mem_base_disp_reg64 buf base_reg disp s)))
      | _ \<Rightarrow> err (OperandShape (M_LockOr width)) buf)"

definition encode_lock_xor :: "instruction \<Rightarrow> code_buffer \<Rightarrow> int_width \<Rightarrow> enc_result" where
  "encode_lock_xor inst buf width =
     (if width \<noteq> W64 then err (Unsupported ''E0049: lock_xor only supports W64'') buf
      else case operands inst of
        [MemSib base None X1 disp, Reg src_reg] \<Rightarrow>
          try_op (reg64_from base) buf (\<lambda>base_reg.
          try_op (reg64_from src_reg) buf (\<lambda>s. ok (lock_xor_mem_base_disp_reg64 buf base_reg disp s)))
      | _ \<Rightarrow> err (OperandShape (M_LockXor width)) buf)"

section \<open>The contract\<close>

text \<open>
  The absolute forms: the operand is the bare displacement.
\<close>

lemmas abs_defs = lock_inc_mem_abs_disp32_def lock_add_mem_abs_disp32_imm8_def
  lock_add_mem_abs_disp32_imm32_def

lemma lock_abs_emits:
  "w = W32 \<or> w = W64 \<Longrightarrow> emits buf (snd (the (lock_inc_mem_abs_disp32 buf w disp)))
     [Insn True None (Inl I_INC) w [A_Mem None None disp]]"
  "w = W32 \<or> w = W64 \<Longrightarrow> emits buf (snd (the (lock_add_mem_abs_disp32_imm8 buf w disp imm8)))
     [Insn True None (Inl I_ADD) w [A_Mem None None disp, A_Imm (sint imm8)]]"
  "w = W32 \<or> w = W64 \<Longrightarrow> emits buf (snd (the (lock_add_mem_abs_disp32_imm32 buf w disp imm32)))
     [Insn True None (Inl I_ADD) w [A_Mem None None disp, A_Imm (sint imm32)]]"
  by (erule disjE; rule emits_fresh; simp add: abs_defs enc_eval)+

lemma lock_abs_Some:
  assumes "r = Some (off, buf')" "w = W32 \<or> w = W64 \<Longrightarrow> emits buf (snd (the r)) is" "w = W32 \<or> w = W64"
  shows "emits buf buf' is"
  using assms by auto

lemmas lock_abs_rules = lock_abs_Some [OF _ lock_abs_emits(1)] lock_abs_Some [OF _ lock_abs_emits(2)]
  lock_abs_Some [OF _ lock_abs_emits(3)]

text \<open>
  The offset that the three functions return is documented as that of the displacement.  It points
  one byte before it, at the SIB byte; the encoders below discard it.
\<close>

lemma lock_abs_offset:
  assumes "lock_inc_mem_abs_disp32 buf w disp = Some (off, buf') \<or>
    lock_add_mem_abs_disp32_imm8 buf w disp imm8 = Some (off, buf') \<or>
    lock_add_mem_abs_disp32_imm32 buf w disp imm32 = Some (off, buf')"
  shows "bytes buf' ! (length (bytes buf) + off) = 0x25"
    and "take 4 (drop (length (bytes buf) + off + 1) (bytes buf')) = le_bytes32 disp"
  using assms by (cases w; auto simp: abs_defs Let_def nth_append)+

interpretation xchg_inst_enc: encoder "encode_xchg_inst" "asm_insn (Inl I_XCHG) W64" no_rsp_index
  by (rule encoderI; auto split: dispatch_splits simp: encode_xchg_inst_def dispatch_simps spec_simps
      intro!: emits_rules [THEN deliversI])

interpretation lock_cmpxchg_inst_enc: encoder "encode_lock_cmpxchg_inst" "lock_insn (Inr I_CMPXCHG) W64" no_rsp_index
  by (rule encoderI; auto split: dispatch_splits simp: encode_lock_cmpxchg_inst_def dispatch_simps spec_simps
      intro!: emits_rules [THEN deliversI])

interpretation lock_cmpxchg32_inst_enc: encoder "encode_lock_cmpxchg32_inst" "lock_insn (Inr I_CMPXCHG) W32" no_rsp_index
  by (rule encoderI; auto split: dispatch_splits simp: encode_lock_cmpxchg32_inst_def dispatch_simps spec_simps
      intro!: emits_rules [THEN deliversI])

interpretation lock_cmpxchg16b_inst_enc: encoder "encode_lock_cmpxchg16b_inst" "lock_insn (Inr I_CMPXCHG8B) W64" no_rsp_index
  by (rule encoderI; auto split: dispatch_splits simp: encode_lock_cmpxchg16b_inst_def dispatch_simps spec_simps
      intro!: emits_rules [THEN deliversI])

interpretation lock_xadd_enc: encoder "(\<lambda>inst buf. encode_lock_xadd inst buf width)" "lock_insn (Inr I_XADD) width" no_rsp_index for width
  by (cases width; rule encoderI; auto split: dispatch_splits simp: encode_lock_xadd_def dispatch_simps spec_simps
      intro!: emits_rules [THEN deliversI])

interpretation lock_sub_enc: encoder "(\<lambda>inst buf. encode_lock_sub inst buf width)" "lock_insn (Inl I_SUB) width" no_rsp_index for width
  by (cases width; rule encoderI; auto split: dispatch_splits simp: encode_lock_sub_def dispatch_simps spec_simps
      intro!: emits_rules [THEN deliversI])

interpretation lock_bts_enc: encoder "(\<lambda>inst buf. encode_lock_bts inst buf width)" "lock_insn (Inr I_BTS) width" no_rsp_index for width
  by (cases width; rule encoderI; auto split: dispatch_splits simp: encode_lock_bts_def dispatch_simps spec_simps
      intro!: emits_rules [THEN deliversI])

interpretation lock_btr_enc: encoder "(\<lambda>inst buf. encode_lock_btr inst buf width)" "lock_insn (Inr I_BTR) width" no_rsp_index for width
  by (cases width; rule encoderI; auto split: dispatch_splits simp: encode_lock_btr_def dispatch_simps spec_simps
      intro!: emits_rules [THEN deliversI])

interpretation lock_btc_enc: encoder "(\<lambda>inst buf. encode_lock_btc inst buf width)" "lock_insn (Inr I_BTC) width" no_rsp_index for width
  by (cases width; rule encoderI; auto split: dispatch_splits simp: encode_lock_btc_def dispatch_simps spec_simps
      intro!: emits_rules [THEN deliversI])

interpretation lock_and_enc: encoder "(\<lambda>inst buf. encode_lock_and inst buf width)" "lock_insn (Inl I_AND) width" no_rsp_index for width
  by (cases width; rule encoderI; auto split: dispatch_splits simp: encode_lock_and_def dispatch_simps spec_simps
      intro!: emits_rules [THEN deliversI])

interpretation lock_or_enc: encoder "(\<lambda>inst buf. encode_lock_or inst buf width)" "lock_insn (Inl I_OR) width" no_rsp_index for width
  by (cases width; rule encoderI; auto split: dispatch_splits simp: encode_lock_or_def dispatch_simps spec_simps
      intro!: emits_rules [THEN deliversI])

interpretation lock_xor_enc: encoder "(\<lambda>inst buf. encode_lock_xor inst buf width)" "lock_insn (Inl I_XOR) width" no_rsp_index for width
  by (cases width; rule encoderI; auto split: dispatch_splits simp: encode_lock_xor_def dispatch_simps spec_simps
      intro!: emits_rules [THEN deliversI])

interpretation lock_add_enc: encoder "(\<lambda>inst buf. encode_lock_add inst buf width)" "lock_insn (Inl I_ADD) width" no_rsp_index for width
  by (cases width; rule encoderI; auto split: dispatch_splits simp: encode_lock_add_def dispatch_simps spec_simps
      intro!: emits_rules [THEN deliversI]
      elim!: lock_abs_rules [THEN deliversI])

interpretation lock_inc_enc: encoder "(\<lambda>inst buf. encode_lock_inc inst buf width)" "lock_insn (Inl I_INC) width" no_rsp_index for width
  by (cases width; rule encoderI; auto split: dispatch_splits simp: encode_lock_inc_def dispatch_simps spec_simps
      intro!: emits_rules [THEN deliversI]
      elim!: lock_abs_rules [THEN deliversI])

end
