(* ===== verification/Encode_Branch.thy ===== *)
theory Encode_Branch
  imports Encode_Dispatch Encode_Cmp_Jmp Encode_Cond_Call
begin

text \<open>
  \<^verbatim>\<open>crates/paideia-as-encoder/src/encode_instruction/branch.rs\<close>: JCC, SETCC, JMP, CALL and RET, with the
  indirect-call primitives of \<^verbatim>\<open>encode/system.rs\<close>; and the relocation and fixup sites they report.
\<close>

section \<open>Indirect calls\<close>

definition call_reg64 :: "code_buffer \<Rightarrow> reg64 \<Rightarrow> code_buffer" where
  "call_reg64 buf reg =
   (let id = reg64_id reg;
       buf = (if id > 7 then push_byte buf (rex False False False True)
        else buf);
       buf = push_byte buf 0xFF;
       buf = push_byte buf ((0xC0 OR (push_bit 3 2)) OR (id AND 7))
   in buf)"

definition call_mem_base_disp :: "code_buffer \<Rightarrow> reg64 \<Rightarrow> i32 \<Rightarrow> code_buffer" where
  "call_mem_base_disp buf base disp =
   (let bid = reg64_id base;
       buf = (if (drop_bit 3 bid) \<noteq> 0 then push_byte buf (rex False False False True)
        else buf);
       buf = push_byte buf 0xFF;
       buf = emit_mem_base_disp buf 2 bid disp
   in buf)"

definition call_mem_sib_disp :: "code_buffer \<Rightarrow> reg64 \<Rightarrow> reg64 \<Rightarrow> u8 \<Rightarrow> i32 \<Rightarrow> code_buffer" where
  "call_mem_sib_disp buf base index sc disp =
   (let (bid, iid) = (reg64_id base, reg64_id index);
       buf = (if drop_bit 3 (bid OR iid) \<noteq> 0
              then push_byte buf (rex False False (drop_bit 3 iid \<noteq> 0) (drop_bit 3 bid \<noteq> 0))
              else buf);
       buf = push_byte buf 0xFF
   in emit_mem_sib_disp buf 2 bid iid sc disp)"

definition call_mem_rip_rel :: "code_buffer \<Rightarrow> i32 \<Rightarrow> code_buffer" where
  "call_mem_rip_rel buf disp =
   (let buf = push_byte buf 0xFF;
       buf = push_byte buf 0x15;
       buf = extend_buf buf (le_bytes32 disp)
   in buf)"

lemma call_emits [emits_rules]:
  "emits buf (call_reg64 buf reg) [ctl64 I_CALL [A_Reg (reg_no reg)]]"
  "emits buf (call_mem_base_disp buf base disp) [ctl64 I_CALL [base_disp base disp]]"
  "emits buf (call_mem_sib_disp buf base index sc disp) [ctl64 I_CALL [sib_disp base index sc disp]]"
  "emits buf (call_mem_rip_rel buf disp) [ctl64 I_CALL [A_Rip disp]]"
  by (rule emits_fresh; simp add: call_reg64_def call_mem_base_disp_def call_mem_sib_disp_def
      call_mem_rip_rel_def enc_eval)+

section \<open>Encoders\<close>

definition pc32_field_bias :: i32 where
  "pc32_field_bias = - 4"

text \<open>The \<^verbatim>\<open>?\<close> after a primitive that may fail once it holds the buffer.\<close>

definition try_call ::
    "(encode_error + 'a) \<times> code_buffer \<Rightarrow> ('a \<Rightarrow> code_buffer \<Rightarrow> enc_result) \<Rightarrow> enc_result" where
  "try_call p k = (case p of (Inl e, buf) \<Rightarrow> err e buf | (Inr x, buf) \<Rightarrow> k x buf)"

lemma try_call_eq:
  "try_call p k = (Inr out, buf') \<longleftrightarrow> (\<exists>x b. p = (Inr x, b) \<and> k x b = (Inr out, buf'))"
  "try_call p k = (Inl f, buf') \<longleftrightarrow>
     (\<exists>e. p = (Inl e, buf') \<and> f = Error e) \<or> (\<exists>x b. p = (Inr x, b) \<and> k x b = (Inl f, buf'))"
  by (auto simp: try_call_def split: sum.splits prod.splits)

definition encode_jcc ::
    "ir_cond \<Rightarrow> instruction \<Rightarrow> code_buffer \<Rightarrow> encode_stats \<Rightarrow> enc_stats_result" where
  "encode_jcc ir_cond inst buf stats =
     (case operands inst of
        [Imm64 disp] \<Rightarrow>
          try_op (cond_from ir_cond) (buf, stats) (\<lambda>c.
            if can_use_rel8 disp
            then (Inr new_output, jcc_rel8 buf c (ucast disp), record_tightening stats)
            else (Inr new_output, jcc_rel32 buf c (ucast disp), stats))
      | [LabelRef name addend] \<Rightarrow>
          try_op (cond_from ir_cond) (buf, stats) (\<lambda>c.
            (let buf = jcc_rel32 buf c 0;
                 output = add_label_fixup new_output
                   \<lparr>fixup_offset = 2, label_name = name, fixup_addend = addend, instruction_size = 6\<rparr>
             in (Inr output, buf, stats)))
      | _ \<Rightarrow>
          (Inl (Error (Unsupported
             ''jcc form not supported: expected an immediate displacement or a label reference'')),
           buf, stats))"

definition encode_setcc :: "ir_cond \<Rightarrow> instruction \<Rightarrow> code_buffer \<Rightarrow> enc_result" where
  "encode_setcc ir_cond inst buf =
     (case operands inst of
        [Reg dst] \<Rightarrow>
          try_op (cond_from ir_cond) buf (\<lambda>c.
            (let (reg_id, needs_rex) = resolve_reg8 dst
             in ok (setcc_reg8 buf c reg_id needs_rex)))
      | _ \<Rightarrow> err (OperandShape (M_Setcc ir_cond)) buf)"

definition encode_jmp :: "instruction \<Rightarrow> code_buffer \<Rightarrow> enc_result" where
  "encode_jmp inst buf =
     (case operands inst of
        [Imm64 rel] \<Rightarrow> ok (jmp_rel32 buf (ucast rel))
      | [LabelRef name addend] \<Rightarrow>
          (let buf = jmp_rel32 buf 0;
               output = add_label_fixup new_output
                 \<lparr>fixup_offset = 1, label_name = name, fixup_addend = addend, instruction_size = 5\<rparr>
           in (Inr output, buf))
      | [SymbolRef name addend] \<Rightarrow>
          (let buf = push_byte buf 0xE9;
               buf = extend_buf buf [0, 0, 0, 0];
               output = add_reloc new_output
                 \<lparr>reloc_offset = 1, reloc_symbol = name, reloc_kind_of = Plt32,
                  reloc_addend = addend + pc32_field_bias\<rparr>
           in (Inr output, buf))
      | [MemSymIndexed name addend index scale] \<Rightarrow>
          (let scale_bits = sib_scale_bits scale
           in try_op (reg64_from index) buf (\<lambda>index_reg.
              try_call (jmp_mem_sib_no_base_indexed buf index_reg scale_bits 0) (\<lambda>disp_offset buf.
                (let output = add_reloc new_output
                       \<lparr>reloc_offset = of_nat disp_offset, reloc_symbol = name,
                        reloc_kind_of = Abs32, reloc_addend = addend\<rparr>
                 in (Inr output, buf)))))
      | [MemDispIndexed disp index scale] \<Rightarrow>
          (let scale_bits = sib_scale_bits scale
           in try_op (reg64_from index) buf (\<lambda>index_reg.
              try_call (jmp_mem_sib_no_base_indexed buf index_reg scale_bits disp)
                (\<lambda>disp_offset buf. ok buf)))
      | [Reg r] \<Rightarrow> try_op (reg64_from r) buf (\<lambda>reg. ok (jmp_reg64 buf reg))
      | _ \<Rightarrow> err (Unsupported ''jmp operand shape not supported by this encoder'') buf)"

definition encode_call :: "instruction \<Rightarrow> code_buffer \<Rightarrow> enc_result" where
  "encode_call inst buf =
     (case operands inst of
        [Imm64 rel] \<Rightarrow> ok (call_rel32 buf (ucast rel))
      | [SymbolRef name addend] \<Rightarrow>
          (let buf = push_byte buf 0xE8;
               buf = extend_buf buf [0, 0, 0, 0];
               output = add_reloc new_output
                 \<lparr>reloc_offset = 1, reloc_symbol = name, reloc_kind_of = Plt32,
                  reloc_addend = addend + pc32_field_bias\<rparr>
           in (Inr output, buf))
      | [Reg r] \<Rightarrow> try_op (reg64_from r) buf (\<lambda>reg. ok (call_reg64 buf reg))
      | [MemSib base None X1 disp] \<Rightarrow>
          try_op (reg64_from base) buf (\<lambda>b. ok (call_mem_base_disp buf b disp))
      | [MemSib base (Some idx) scale disp] \<Rightarrow>
          (let scale_bits = sib_scale_bits scale
           in try_op (reg64_from base) buf (\<lambda>b.
              try_op (reg64_from idx) buf (\<lambda>i. ok (call_mem_sib_disp buf b i scale_bits disp))))
      | [MemRipRel disp] \<Rightarrow> ok (call_mem_rip_rel buf disp)
      | [MemRipRelSym name addend] \<Rightarrow>
          (let buf = call_mem_rip_rel buf 0;
               output = add_reloc new_output
                 \<lparr>reloc_offset = 2, reloc_symbol = name, reloc_kind_of = PcRel32,
                  reloc_addend = addend + pc32_field_bias\<rparr>
           in (Inr output, buf))
      | _ \<Rightarrow> err (Unsupported ''call operand shape not supported by this encoder'') buf)"

definition encode_ret :: "instruction \<Rightarrow> code_buffer \<Rightarrow> enc_result" where
  "encode_ret inst buf =
     (if operands inst \<noteq> [] then err (OperandCount M_Ret 0 (length (operands inst))) buf
      else ok (ret buf))"

section \<open>The contract\<close>

text \<open>A branch reads an immediate as a displacement from the end of the instruction.\<close>

fun target_arg :: "operand \<Rightarrow> arg option" where
  "target_arg (Imm64 i) = Some (A_Rel (sint i))"
| "target_arg opd = operand_arg opd"

definition branch_insn :: "opn2 \<Rightarrow> operand list \<Rightarrow> insn list option" where
  "branch_insn op ops = map_option (\<lambda>as. [ctl64 op as]) (those (map target_arg ops))"

fun rel_fits :: "operand \<Rightarrow> bool" where
  "rel_fits (Imm64 i) \<longleftrightarrow> fits_i32 i"
| "rel_fits _ \<longleftrightarrow> True"

definition branch_wf :: "operand list \<Rightarrow> bool" where
  "branch_wf ops \<longleftrightarrow> no_rsp_index ops \<and> list_all rel_fits ops"

text \<open>The SDM number of an IR condition.\<close>

definition ir_cond_no :: "ir_cond \<Rightarrow> nat" where
  "ir_cond_no c = (case cond_from c of Inr j \<Rightarrow> cond_no j | Inl e \<Rightarrow> 0)"

lemma cond_from_Inr: "cond_from c = Inr j \<Longrightarrow> ir_cond_no c = cond_no j"
  by (simp add: ir_cond_no_def)

lemma cond_from_ok: "cond_from c \<noteq> Inl e"
  by (cases c) simp_all

text \<open>The condition codes are the SDM's: the table of Jcc and SETcc.\<close>

lemma ir_cond_no_table:
  "map ir_cond_no [C_Overflow, C_NotOverflow, C_Below, C_AboveOrEqual, C_Eq, C_Ne, C_BelowOrEqual,
     C_Above, C_Sign, C_NotSign, C_Parity, C_NotParity, C_Lt, C_Ge, C_Le, C_Gt] = [0..<16]"
  "ir_cond_no C_Zero = ir_cond_no C_Eq" "ir_cond_no C_NonZero = ir_cond_no C_Ne"
  by (simp_all add: ir_cond_no_def upt_rec_numeral upt_conv_Cons)

lemma placeholder: "extend_buf buf [0, 0, 0, 0] = extend_buf buf (le_bytes32 0)"
  by (simp add: le_bytes32_def)

lemma placeholder_emits [emits_rules]:
  "emits buf (extend_buf (push_byte buf 0xE9) [0, 0, 0, 0]) [ctl64 I_JMP [A_Rel 0]]"
  "emits buf (extend_buf (push_byte buf 0xE8) [0, 0, 0, 0]) [ctl64 I_CALL [A_Rel 0]]"
  using cmp_jmp_emits(7) [of buf 0] cond_call_emits(11) [of buf 0]
  by (simp_all add: placeholder jmp_rel32_def call_rel32_def Let_def)

lemma rel8_value: "can_use_rel8 d \<Longrightarrow> sint (ucast d :: i8) = sint d"
  by (simp add: can_use_rel8_def sint_ucast_i8)

lemma jmp_indexed_rules:
  assumes "jmp_mem_sib_no_base_indexed buf index (sib_scale_bits s) disp = (Inr off, buf')"
  shows "emits buf buf' [ctl64 I_JMP [A_Mem None (Some (reg_no index, unat (scale_factor s))) disp]]"
  using jmp_mem_sib_no_base_indexed_emits(2) [OF assms] by (simp add: sib_scale_bits_factor)

lemma jmp_indexed_clean:
  "jmp_mem_sib_no_base_indexed buf index sc disp = (Inl e, buf') \<Longrightarrow> buf' = buf"
  by (auto simp: jmp_mem_sib_no_base_indexed_def Let_def split: if_splits prod.splits)

lemmas branch_simps = branch_insn_def branch_wf_def cond_from_Inr rel8_value try_call_eq

interpretation jcc_enc: encoder "\<lambda>inst buf. drop_stats (encode_jcc c inst buf st)" "branch_insn (I_JCC (ir_cond_no c))" branch_wf for c st
  by (rule encoderI; auto split: dispatch_splits simp: encode_jcc_def dispatch_simps spec_simps
      branch_simps cond_from_ok drop_stats_eq
      intro!: emits_rules [THEN deliversI])

text \<open>
  JCC takes the low 32 bits of an immediate as its displacement, also of one that does not fit.  \<open>low_rel\<close>
  is the operand that the bytes then stand for.
\<close>

fun low_rel :: "operand \<Rightarrow> operand" where
  "low_rel (Imm64 d) = Imm64 (scast (ucast d :: i32))"
| "low_rel opd = opd"

lemma low_rel_id: "map low_rel ops = ops \<longleftrightarrow> list_all rel_fits ops"
proof -
  have "low_rel opd = opd \<longleftrightarrow> rel_fits opd" for opd
    using round_trip_i32 by (cases opd) (auto simp: eq_commute)
  then show ?thesis by (induction ops) simp_all
qed

lemma low_rel_rel8: "can_use_rel8 d \<Longrightarrow> sint (ucast d :: i32) = sint d"
  by (simp add: can_use_rel8_def fits_i32_def sint_ucast_i32)

lemma sint_scast_i64: "sint (scast (w :: i32) :: i64) = sint w"
  by (rule sint_up_scast) (simp add: is_up)

lemma jcc_emits_low:
  assumes "encode_jcc c inst buf st = (Inr out, buf', st')"
  shows "\<exists>is. branch_insn (I_JCC (ir_cond_no c)) (map low_rel (operands inst)) = Some is \<and> emits buf buf' is"
proof -
  have "delivers buf buf' (branch_insn (I_JCC (ir_cond_no c)) (map low_rel (operands inst))) True"
    using assms by (auto split: dispatch_splits simp: encode_jcc_def dispatch_simps spec_simps
      branch_simps cond_from_ok low_rel_rel8 sint_scast_i64 intro!: emits_rules [THEN deliversI])
  then show ?thesis by (auto simp: delivers_def)
qed

interpretation jmp_enc: encoder "encode_jmp" "branch_insn I_JMP" branch_wf
  by (rule encoderI; auto split: dispatch_splits simp: encode_jmp_def dispatch_simps spec_simps
      branch_simps
      intro!: emits_rules [THEN deliversI]
      dest: jmp_indexed_clean elim!: jmp_indexed_rules [THEN deliversI])

interpretation call_enc: encoder "encode_call" "branch_insn I_CALL" branch_wf
  by (rule encoderI; auto split: dispatch_splits simp: encode_call_def dispatch_simps spec_simps
      branch_simps
      intro!: emits_rules [THEN deliversI])

interpretation ret_enc: encoder "encode_ret" "branch_insn I_RET" branch_wf
  by (rule encoderI; auto split: dispatch_splits simp: encode_ret_def dispatch_simps spec_simps
      branch_simps
      intro!: emits_rules [THEN deliversI])

text \<open>
  SETcc names byte registers by the ids 0 to 3 and 8 to 15, and SPL, BPL, SIL, DIL by 33 to 36.
\<close>

definition setcc_reg :: "reg_id \<Rightarrow> nat option" where
  "setcc_reg r =
     (if unat r < 4 \<or> 8 \<le> unat r \<and> unat r < 16 then Some (unat r)
      else if 33 \<le> unat r \<and> unat r \<le> 36 then Some (unat r - 29) else None)"

lemma setcc_known_register:
  assumes "operands inst = [Reg r]" "setcc_reg r = Some n"
  shows "\<exists>buf'. encode_setcc c inst buf = ok buf' \<and>
    emits buf buf' [Insn False None (Inr (I_SETCC (ir_cond_no c))) W8 [A_Low8 n]]"
proof -
  obtain j where j: "cond_from c = Inr j" using cond_from_ok [of c] by (cases "cond_from c") auto
  obtain k nr where k: "resolve_reg8 r = (k, nr)" by (cases "resolve_reg8 r")
  have lt: "x \<le> y \<longleftrightarrow> unat x \<le> unat y" "x = y \<longleftrightarrow> unat x = unat y" for x y :: u8
    by (simp_all add: word_le_nat_alt word_eq_iff_unsigned [where 'a = nat])
  have "unat k = n" "n < 16" "4 \<le> n \<and> n < 8 \<longrightarrow> nr"
    using assms(2) k by (auto simp: setcc_reg_def resolve_reg8_def lt split: if_splits)
  then have "emits buf (setcc_reg8 buf j k nr)
      [Insn False None (Inr (I_SETCC (ir_cond_no c))) W8 [A_Low8 n]]"
    using setcc_reg8_emits [of buf j k nr] cond_from_Inr [OF j] by (auto split: if_splits)
  then show ?thesis using assms(1) j k by (simp add: encode_setcc_def)
qed

section \<open>Relocation and fixup sites\<close>

text \<open>
  A relocation or label fixup of a call or jump names the last four bytes of the instruction, and
  they are zero until they are patched.
\<close>

definition site_ok :: "code_buffer \<Rightarrow> code_buffer \<Rightarrow> u32 \<Rightarrow> bool" where
  "site_ok buf buf' off \<longleftrightarrow>
     length (bytes buf) + unat off + 4 = length (bytes buf') \<and>
     drop (length (bytes buf) + unat off) (bytes buf') = [0, 0, 0, 0]"

lemma le_bytes32_zero: "le_bytes32 0 = [0, 0, 0, 0]"
  by (simp add: le_bytes32_def)

lemma call_sites:
  assumes "encode_call inst buf = (Inr out, buf')" "s \<in> set (reloc_sites out)"
  shows "site_ok buf buf' (reloc_offset s)"
  using assms
  by (auto split: dispatch_splits simp: encode_call_def dispatch_simps new_output_def add_reloc_def
      site_ok_def call_mem_rip_rel_def le_bytes32_zero)

lemma jmp_sites:
  assumes "encode_jmp inst buf = (Inr out, buf')"
  shows "s \<in> set (reloc_sites out) \<Longrightarrow> site_ok buf buf' (reloc_offset s)"
    and "f \<in> set (label_fixups out) \<Longrightarrow> site_ok buf buf' (fixup_offset f) \<and>
      length (bytes buf) + unat (instruction_size f) = length (bytes buf')"
proof -
  have small: "unat (of_nat off :: u32) = off" if "jmp_mem_sib_no_base_indexed buf i sc d = (Inr off, b)"
    for off i sc d b
    using that by (auto simp: jmp_mem_sib_no_base_indexed_def Let_def split: if_splits)
  note idx = jmp_mem_sib_no_base_indexed_emits(3,4) [where disp = 0, unfolded le_bytes32_zero]
  show "s \<in> set (reloc_sites out) \<Longrightarrow> site_ok buf buf' (reloc_offset s)"
    using assms
    by (auto split: dispatch_splits simp: encode_jmp_def dispatch_simps new_output_def add_reloc_def
        add_label_fixup_def site_ok_def le_bytes32_zero try_call_eq small idx)
  show "f \<in> set (label_fixups out) \<Longrightarrow> site_ok buf buf' (fixup_offset f) \<and>
      length (bytes buf) + unat (instruction_size f) = length (bytes buf')"
    using assms
    by (auto split: dispatch_splits simp: encode_jmp_def dispatch_simps new_output_def add_reloc_def
        add_label_fixup_def site_ok_def le_bytes32_zero try_call_eq jmp_rel32_def)
qed

lemma jcc_sites:
  assumes "encode_jcc c inst buf st = (Inr out, buf', st')" "f \<in> set (label_fixups out)"
  shows "site_ok buf buf' (fixup_offset f)"
    and "length (bytes buf) + unat (instruction_size f) = length (bytes buf')"
  using assms
  by (auto split: dispatch_splits simp: encode_jcc_def dispatch_simps new_output_def
      add_label_fixup_def site_ok_def jcc_rel32_def le_bytes32_zero)

end
