(* ===== verification/Encode_Mem_Moves.thy ===== *)
theory Encode_Mem_Moves
  imports Encoder_Bytes
begin

text \<open>
  \<^verbatim>\<open>crates/paideia-as-encoder/src/encode/mem_moves.rs\<close>: loads and stores of the four widths, sign-extending
  loads and non-temporal stores.
\<close>

definition mov_reg64_mem_reg64_disp :: "code_buffer \<Rightarrow> reg64 \<Rightarrow> reg64 \<Rightarrow> i32 \<Rightarrow> code_buffer" where
  "mov_reg64_mem_reg64_disp buf dst base disp =
   (let dst_id = reg64_id dst;
       base_id = reg64_id base;
       rex_byte = rex True ((drop_bit 3 dst_id) \<noteq> 0) False ((drop_bit 3 base_id) \<noteq> 0);
       buf = push_byte buf rex_byte;
       buf = push_byte buf 0x8B;
       buf = emit_mem_base_disp buf (dst_id AND 7) base_id disp
   in buf)"

definition mov_reg8_mem_base_disp :: "code_buffer \<Rightarrow> reg64 \<Rightarrow> reg64 \<Rightarrow> i32 \<Rightarrow> code_buffer" where
  "mov_reg8_mem_base_disp buf dst base disp =
   (let dst_id = reg64_id dst;
       base_id = reg64_id base;
       rex_byte = rex False ((drop_bit 3 dst_id) \<noteq> 0) False ((drop_bit 3 base_id) \<noteq> 0);
       buf = (if ((drop_bit 3 dst_id) \<noteq> 0) \<or> ((drop_bit 3 base_id) \<noteq> 0) then push_byte buf rex_byte
        else buf);
       buf = push_byte buf 0x8A;
       buf = emit_mem_base_disp buf (dst_id AND 7) base_id disp
   in buf)"

definition mov_reg16_mem_base_disp :: "code_buffer \<Rightarrow> reg64 \<Rightarrow> reg64 \<Rightarrow> i32 \<Rightarrow> code_buffer" where
  "mov_reg16_mem_base_disp buf dst base disp =
   (let dst_id = reg64_id dst;
       base_id = reg64_id base;
       buf = push_byte buf 0x66;
       rex_byte = rex False ((drop_bit 3 dst_id) \<noteq> 0) False ((drop_bit 3 base_id) \<noteq> 0);
       buf = (if ((drop_bit 3 dst_id) \<noteq> 0) \<or> ((drop_bit 3 base_id) \<noteq> 0) then push_byte buf rex_byte
        else buf);
       buf = push_byte buf 0x8B;
       buf = emit_mem_base_disp buf (dst_id AND 7) base_id disp
   in buf)"

definition mov_reg32_mem_base_disp :: "code_buffer \<Rightarrow> reg64 \<Rightarrow> reg64 \<Rightarrow> i32 \<Rightarrow> code_buffer" where
  "mov_reg32_mem_base_disp buf dst base disp =
   (let dst_id = reg64_id dst;
       base_id = reg64_id base;
       rex_byte = rex False ((drop_bit 3 dst_id) \<noteq> 0) False ((drop_bit 3 base_id) \<noteq> 0);
       buf = (if ((drop_bit 3 dst_id) \<noteq> 0) \<or> ((drop_bit 3 base_id) \<noteq> 0) then push_byte buf rex_byte
        else buf);
       buf = push_byte buf 0x8B;
       buf = emit_mem_base_disp buf (dst_id AND 7) base_id disp
   in buf)"

definition movsx_reg64_mem_base_disp ::
    "code_buffer \<Rightarrow> reg64 \<Rightarrow> reg64 \<Rightarrow> i32 \<Rightarrow> u8 \<Rightarrow> code_buffer" where
  "movsx_reg64_mem_base_disp buf dst base disp src_width =
   (let dst_id = reg64_id dst;
       base_id = reg64_id base;
       buf = push_byte buf (rex True (drop_bit 3 dst_id \<noteq> 0) False (drop_bit 3 base_id \<noteq> 0))
   in if src_width = 1 then
        emit_mem_base_disp (push_byte (push_byte buf 0x0F) 0xBE) (dst_id AND 7) base_id disp
      else if src_width = 2 then
        emit_mem_base_disp (push_byte (push_byte buf 0x0F) 0xBF) (dst_id AND 7) base_id disp
      else if src_width = 4 then
        emit_mem_base_disp (push_byte buf 0x63) (dst_id AND 7) base_id disp
      else buf)"

definition mov_reg_mem_sib_disp_sized ::
    "code_buffer \<Rightarrow> int_width \<Rightarrow> reg64 \<Rightarrow> reg64 \<Rightarrow> reg64 \<Rightarrow> u8 \<Rightarrow> i32 \<Rightarrow> code_buffer" where
  "mov_reg_mem_sib_disp_sized buf width dst base index scale_bits disp =
   (let dst_id = reg64_id dst;
       base_id = reg64_id base;
       index_id = reg64_id index;
       rex_byte = rex (width = W64) (drop_bit 3 dst_id \<noteq> 0) (drop_bit 3 index_id \<noteq> 0)
                    (drop_bit 3 base_id \<noteq> 0);
       needs_rex = (drop_bit 3 dst_id \<noteq> 0 \<or> drop_bit 3 base_id \<noteq> 0 \<or> drop_bit 3 index_id \<noteq> 0);
       buf = (case width of
                W8 \<Rightarrow> push_byte (if needs_rex then push_byte buf rex_byte else buf) 0x8A
              | W16 \<Rightarrow>
                  (let buf = push_byte buf 0x66
                   in push_byte (if needs_rex then push_byte buf rex_byte else buf) 0x8B)
              | W32 \<Rightarrow> push_byte (if needs_rex then push_byte buf rex_byte else buf) 0x8B
              | W64 \<Rightarrow> push_byte (push_byte buf rex_byte) 0x8B)
   in emit_mem_sib_disp buf (dst_id AND 7) base_id index_id scale_bits disp)"

definition mov_mem_reg64_disp_reg64 :: "code_buffer \<Rightarrow> reg64 \<Rightarrow> i32 \<Rightarrow> reg64 \<Rightarrow> code_buffer" where
  "mov_mem_reg64_disp_reg64 buf base disp src =
   (let base_id = reg64_id base;
       src_id = reg64_id src;
       rex_byte = rex True ((drop_bit 3 src_id) \<noteq> 0) False ((drop_bit 3 base_id) \<noteq> 0);
       buf = push_byte buf rex_byte;
       buf = push_byte buf 0x89;
       buf = emit_mem_base_disp buf (src_id AND 7) base_id disp
   in buf)"

definition mov_mem_base_disp_reg8 :: "code_buffer \<Rightarrow> reg64 \<Rightarrow> i32 \<Rightarrow> reg64 \<Rightarrow> code_buffer" where
  "mov_mem_base_disp_reg8 buf base disp src =
   (let base_id = reg64_id base;
       src_id = reg64_id src;
       src_low = src_id AND 7;
       requires_rex_for_byte_reg = (4 \<le> src_low \<and> src_low \<le> 7);
       rex_byte = rex False (drop_bit 3 src_id \<noteq> 0) False (drop_bit 3 base_id \<noteq> 0);
       buf = (if drop_bit 3 src_id \<noteq> 0 \<or> drop_bit 3 base_id \<noteq> 0 \<or> requires_rex_for_byte_reg
              then push_byte buf rex_byte else buf);
       buf = push_byte buf 0x88;
       buf = emit_mem_base_disp buf src_low base_id disp
   in buf)"

definition mov_mem_base_disp_reg16 :: "code_buffer \<Rightarrow> reg64 \<Rightarrow> i32 \<Rightarrow> reg64 \<Rightarrow> code_buffer" where
  "mov_mem_base_disp_reg16 buf base disp src =
   (let base_id = reg64_id base;
       src_id = reg64_id src;
       buf = push_byte buf 0x66;
       rex_byte = rex False ((drop_bit 3 src_id) \<noteq> 0) False ((drop_bit 3 base_id) \<noteq> 0);
       buf = (if ((drop_bit 3 src_id) \<noteq> 0) \<or> ((drop_bit 3 base_id) \<noteq> 0) then push_byte buf rex_byte
        else buf);
       buf = push_byte buf 0x89;
       buf = emit_mem_base_disp buf (src_id AND 7) base_id disp
   in buf)"

definition mov_mem_base_disp_reg32 :: "code_buffer \<Rightarrow> reg64 \<Rightarrow> i32 \<Rightarrow> reg64 \<Rightarrow> code_buffer" where
  "mov_mem_base_disp_reg32 buf base disp src =
   (let base_id = reg64_id base;
       src_id = reg64_id src;
       rex_byte = rex False ((drop_bit 3 src_id) \<noteq> 0) False ((drop_bit 3 base_id) \<noteq> 0);
       buf = (if ((drop_bit 3 src_id) \<noteq> 0) \<or> ((drop_bit 3 base_id) \<noteq> 0) then push_byte buf rex_byte
        else buf);
       buf = push_byte buf 0x89;
       buf = emit_mem_base_disp buf (src_id AND 7) base_id disp
   in buf)"

definition mov_mem_sib_disp_reg8 ::
    "code_buffer \<Rightarrow> reg64 \<Rightarrow> reg64 \<Rightarrow> u8 \<Rightarrow> i32 \<Rightarrow> reg64 \<Rightarrow> code_buffer" where
  "mov_mem_sib_disp_reg8 buf base index scale_bits disp src =
   (let base_id = reg64_id base;
       index_id = reg64_id index;
       src_id = reg64_id src;
       src_low = src_id AND 7;
       requires_rex_for_byte_reg = (4 \<le> src_low \<and> src_low \<le> 7);
       rex_byte = rex False (drop_bit 3 src_id \<noteq> 0) (drop_bit 3 index_id \<noteq> 0)
                    (drop_bit 3 base_id \<noteq> 0);
       buf = (if drop_bit 3 src_id \<noteq> 0 \<or> drop_bit 3 index_id \<noteq> 0 \<or> drop_bit 3 base_id \<noteq> 0 \<or>
                 requires_rex_for_byte_reg
              then push_byte buf rex_byte else buf);
       buf = push_byte buf 0x88;
       buf = emit_mem_sib_disp buf src_low base_id index_id scale_bits disp
   in buf)"

definition mov_mem_sib_disp_reg16 :: "code_buffer \<Rightarrow> reg64 \<Rightarrow> reg64 \<Rightarrow> u8 \<Rightarrow> i32 \<Rightarrow> reg64 \<Rightarrow> code_buffer" where
  "mov_mem_sib_disp_reg16 buf base index scale_bits disp src =
   (let base_id = reg64_id base;
       index_id = reg64_id index;
       src_id = reg64_id src;
       buf = push_byte buf 0x66;
       rex_byte = rex False ((drop_bit 3 src_id) \<noteq> 0) ((drop_bit 3 index_id) \<noteq> 0) ((drop_bit 3 base_id) \<noteq> 0);
       buf = (if (((drop_bit 3 src_id) \<noteq> 0) \<or> ((drop_bit 3 index_id) \<noteq> 0)) \<or> ((drop_bit 3 base_id) \<noteq> 0) then push_byte buf rex_byte
        else buf);
       buf = push_byte buf 0x89;
       buf = emit_mem_sib_disp buf (src_id AND 7) base_id index_id scale_bits disp
   in buf)"

definition mov_mem_sib_disp_reg32 :: "code_buffer \<Rightarrow> reg64 \<Rightarrow> reg64 \<Rightarrow> u8 \<Rightarrow> i32 \<Rightarrow> reg64 \<Rightarrow> code_buffer" where
  "mov_mem_sib_disp_reg32 buf base index scale_bits disp src =
   (let base_id = reg64_id base;
       index_id = reg64_id index;
       src_id = reg64_id src;
       rex_byte = rex False ((drop_bit 3 src_id) \<noteq> 0) ((drop_bit 3 index_id) \<noteq> 0) ((drop_bit 3 base_id) \<noteq> 0);
       buf = (if (((drop_bit 3 src_id) \<noteq> 0) \<or> ((drop_bit 3 index_id) \<noteq> 0)) \<or> ((drop_bit 3 base_id) \<noteq> 0) then push_byte buf rex_byte
        else buf);
       buf = push_byte buf 0x89;
       buf = emit_mem_sib_disp buf (src_id AND 7) base_id index_id scale_bits disp
   in buf)"

definition mov_reg64_mem_sib_disp :: "code_buffer \<Rightarrow> reg64 \<Rightarrow> reg64 \<Rightarrow> reg64 \<Rightarrow> u8 \<Rightarrow> i32 \<Rightarrow> code_buffer" where
  "mov_reg64_mem_sib_disp buf dst base index scale_bits disp =
   (let dst_id = reg64_id dst;
       base_id = reg64_id base;
       index_id = reg64_id index;
       rex_byte = rex True ((drop_bit 3 dst_id) \<noteq> 0) ((drop_bit 3 index_id) \<noteq> 0) ((drop_bit 3 base_id) \<noteq> 0);
       buf = push_byte buf rex_byte;
       buf = push_byte buf 0x8B;
       buf = emit_mem_sib_disp buf (dst_id AND 7) base_id index_id scale_bits disp
   in buf)"

definition mov_mem_sib_disp_reg64 :: "code_buffer \<Rightarrow> reg64 \<Rightarrow> reg64 \<Rightarrow> u8 \<Rightarrow> i32 \<Rightarrow> reg64 \<Rightarrow> code_buffer" where
  "mov_mem_sib_disp_reg64 buf base index scale_bits disp src =
   (let base_id = reg64_id base;
       index_id = reg64_id index;
       src_id = reg64_id src;
       rex_byte = rex True ((drop_bit 3 src_id) \<noteq> 0) ((drop_bit 3 index_id) \<noteq> 0) ((drop_bit 3 base_id) \<noteq> 0);
       buf = push_byte buf rex_byte;
       buf = push_byte buf 0x89;
       buf = emit_mem_sib_disp buf (src_id AND 7) base_id index_id scale_bits disp
   in buf)"

definition movnti_mem_base_disp_reg32 :: "code_buffer \<Rightarrow> reg64 \<Rightarrow> i32 \<Rightarrow> reg64 \<Rightarrow> code_buffer" where
  "movnti_mem_base_disp_reg32 buf base disp src =
   (let base_id = reg64_id base;
       src_id = reg64_id src;
       buf = (if ((drop_bit 3 src_id) \<noteq> 0) \<or> ((drop_bit 3 base_id) \<noteq> 0) then push_byte buf (rex False ((drop_bit 3 src_id) \<noteq> 0) False ((drop_bit 3 base_id) \<noteq> 0))
        else buf);
       buf = push_byte buf 0x0F;
       buf = push_byte buf 0xC3;
       buf = emit_mem_base_disp buf (src_id AND 7) base_id disp
   in buf)"

definition movnti_mem_base_disp_reg64 :: "code_buffer \<Rightarrow> reg64 \<Rightarrow> i32 \<Rightarrow> reg64 \<Rightarrow> code_buffer" where
  "movnti_mem_base_disp_reg64 buf base disp src =
   (let base_id = reg64_id base;
       src_id = reg64_id src;
       rex_byte = rex True ((drop_bit 3 src_id) \<noteq> 0) False ((drop_bit 3 base_id) \<noteq> 0);
       buf = push_byte buf rex_byte;
       buf = push_byte buf 0x0F;
       buf = push_byte buf 0xC3;
       buf = emit_mem_base_disp buf (src_id AND 7) base_id disp
   in buf)"

definition movnti_mem_sib_disp_reg32 :: "code_buffer \<Rightarrow> reg64 \<Rightarrow> reg64 \<Rightarrow> u8 \<Rightarrow> i32 \<Rightarrow> reg64 \<Rightarrow> code_buffer" where
  "movnti_mem_sib_disp_reg32 buf base index scale_bits disp src =
   (let base_id = reg64_id base;
       index_id = reg64_id index;
       src_id = reg64_id src;
       buf = (if (((drop_bit 3 src_id) \<noteq> 0) \<or> ((drop_bit 3 index_id) \<noteq> 0)) \<or> ((drop_bit 3 base_id) \<noteq> 0) then push_byte buf (rex False ((drop_bit 3 src_id) \<noteq> 0) ((drop_bit 3 index_id) \<noteq> 0) ((drop_bit 3 base_id) \<noteq> 0))
        else buf);
       buf = push_byte buf 0x0F;
       buf = push_byte buf 0xC3;
       buf = emit_mem_sib_disp buf (src_id AND 7) base_id index_id scale_bits disp
   in buf)"

definition movnti_mem_sib_disp_reg64 :: "code_buffer \<Rightarrow> reg64 \<Rightarrow> reg64 \<Rightarrow> u8 \<Rightarrow> i32 \<Rightarrow> reg64 \<Rightarrow> code_buffer" where
  "movnti_mem_sib_disp_reg64 buf base index scale_bits disp src =
   (let base_id = reg64_id base;
       index_id = reg64_id index;
       src_id = reg64_id src;
       rex_byte = rex True ((drop_bit 3 src_id) \<noteq> 0) ((drop_bit 3 index_id) \<noteq> 0) ((drop_bit 3 base_id) \<noteq> 0);
       buf = push_byte buf rex_byte;
       buf = push_byte buf 0x0F;
       buf = push_byte buf 0xC3;
       buf = emit_mem_sib_disp buf (src_id AND 7) base_id index_id scale_bits disp
   in buf)"

lemmas mem_moves_defs =
  mov_reg64_mem_reg64_disp_def mov_reg8_mem_base_disp_def mov_reg16_mem_base_disp_def
  mov_reg32_mem_base_disp_def mov_mem_reg64_disp_reg64_def mov_mem_base_disp_reg8_def
  mov_mem_base_disp_reg16_def mov_mem_base_disp_reg32_def mov_mem_sib_disp_reg8_def
  mov_mem_sib_disp_reg16_def mov_mem_sib_disp_reg32_def mov_reg64_mem_sib_disp_def
  mov_mem_sib_disp_reg64_def movnti_mem_base_disp_reg32_def movnti_mem_base_disp_reg64_def
  movnti_mem_sib_disp_reg32_def movnti_mem_sib_disp_reg64_def

lemma mem_moves_emits [emits_rules]:
  "emits buf (mov_reg64_mem_reg64_disp buf dst base disp) [alu64 I_MOV [A_Reg (reg_no dst), base_disp base disp]]"
  "emits buf (mov_reg8_mem_base_disp buf dst base disp) [Insn False None (Inl I_MOV) W8 [if 4 \<le> reg_no dst \<and> reg_no dst < 8 \<and> reg_no base < 8 then A_High8 (reg_no dst - 4) else A_Low8 (reg_no dst), base_disp base disp]]"
  "emits buf (mov_reg16_mem_base_disp buf dst base disp) [Insn False None (Inl I_MOV) W16 [A_Reg (reg_no dst), base_disp base disp]]"
  "emits buf (mov_reg32_mem_base_disp buf dst base disp) [alu32 I_MOV [A_Reg (reg_no dst), base_disp base disp]]"
  "emits buf (mov_mem_reg64_disp_reg64 buf base disp src) [alu64 I_MOV [base_disp base disp, A_Reg (reg_no src)]]"
  "emits buf (mov_mem_base_disp_reg8 buf base disp src) [Insn False None (Inl I_MOV) W8 [base_disp base disp, A_Low8 (reg_no src)]]"
  "emits buf (mov_mem_base_disp_reg16 buf base disp src) [Insn False None (Inl I_MOV) W16 [base_disp base disp, A_Reg (reg_no src)]]"
  "emits buf (mov_mem_base_disp_reg32 buf base disp src) [alu32 I_MOV [base_disp base disp, A_Reg (reg_no src)]]"
  "emits buf (mov_mem_sib_disp_reg8 buf base index scale_bits disp src) [Insn False None (Inl I_MOV) W8 [sib_disp base index scale_bits disp, A_Low8 (reg_no src)]]"
  "emits buf (mov_mem_sib_disp_reg16 buf base index scale_bits disp src) [Insn False None (Inl I_MOV) W16 [sib_disp base index scale_bits disp, A_Reg (reg_no src)]]"
  "emits buf (mov_mem_sib_disp_reg32 buf base index scale_bits disp src) [alu32 I_MOV [sib_disp base index scale_bits disp, A_Reg (reg_no src)]]"
  "emits buf (mov_reg64_mem_sib_disp buf dst base index scale_bits disp) [alu64 I_MOV [A_Reg (reg_no dst), sib_disp base index scale_bits disp]]"
  "emits buf (mov_mem_sib_disp_reg64 buf base index scale_bits disp src) [alu64 I_MOV [sib_disp base index scale_bits disp, A_Reg (reg_no src)]]"
  "emits buf (movnti_mem_base_disp_reg32 buf base disp src) [ctl32 I_MOVNTI [base_disp base disp, A_Reg (reg_no src)]]"
  "emits buf (movnti_mem_base_disp_reg64 buf base disp src) [ctl64 I_MOVNTI [base_disp base disp, A_Reg (reg_no src)]]"
  "emits buf (movnti_mem_sib_disp_reg32 buf base index scale_bits disp src) [ctl32 I_MOVNTI [sib_disp base index scale_bits disp, A_Reg (reg_no src)]]"
  "emits buf (movnti_mem_sib_disp_reg64 buf base index scale_bits disp src) [ctl64 I_MOVNTI [sib_disp base index scale_bits disp, A_Reg (reg_no src)]]"
  by (rule emits_fresh; simp add: mem_moves_defs enc_eval)+

lemma movsx_mem_emits [emits_rules]:
  "emits buf (movsx_reg64_mem_base_disp buf dst base disp 1) [ctl64 I_MOVSX8 [A_Reg (reg_no dst), base_disp base disp]]"
  "emits buf (movsx_reg64_mem_base_disp buf dst base disp 2) [ctl64 I_MOVSX16 [A_Reg (reg_no dst), base_disp base disp]]"
  "emits buf (movsx_reg64_mem_base_disp buf dst base disp 4) [ctl64 I_MOVSXD [A_Reg (reg_no dst), base_disp base disp]]"
  by (rule emits_fresh; simp add: movsx_reg64_mem_base_disp_def enc_eval)+

lemma mov_sib_sized_emits [emits_rules]:
  "emits buf (mov_reg_mem_sib_disp_sized buf W64 dst base index sc disp)
     [alu64 I_MOV [A_Reg (reg_no dst), sib_disp base index sc disp]]"
  "emits buf (mov_reg_mem_sib_disp_sized buf W32 dst base index sc disp)
     [alu32 I_MOV [A_Reg (reg_no dst), sib_disp base index sc disp]]"
  "emits buf (mov_reg_mem_sib_disp_sized buf W16 dst base index sc disp)
     [Insn False None (Inl I_MOV) W16 [A_Reg (reg_no dst), sib_disp base index sc disp]]"
  by (rule emits_fresh; simp add: mov_reg_mem_sib_disp_sized_def enc_eval)+

end
