(* ===== verification/Encoder_Properties.thy ===== *)
theory Encoder_Properties
  imports Encode_Arith Encode_Bits Encode_Logic Encode_Simple Encode_Shifts Encode_Cmp_Test
    Encode_Atomic Encode_Branch Encode_Mem_Moves
begin

text \<open>
  What the encoder promises to its clients, stated over the encoder's own functions and the
  reference decoder of \<open>X86_Decode\<close>.
\<close>

text \<open>An instruction with the given operands, as the witnesses below use it.\<close>

definition inst_of :: "mnemonic \<Rightarrow> operand list \<Rightarrow> instruction" where
  "inst_of mn ops = \<lparr>mnemonic_of = mn, operands = ops, encoding_hint_of = None,
     byte_offset_in_text = None, mode = Mode64, emission_order = 0\<rparr>"

lemma inst_of_simps [simp]: "operands (inst_of mn ops) = ops" "mode (inst_of mn ops) = Mode64"
  "mnemonic_of (inst_of mn ops) = mn"
  by (simp_all add: inst_of_def)

lemma rex_of_rex:
  "rex_of (rex w r x b) = \<lparr>r_present = True, r_w = w, r_r = r, r_x = x, r_b = b\<rparr>"
  by (cases w; cases r; cases x; cases b) (simp_all add: rex_def rex_of_def)

lemma reg_split_le: "n < 16 \<Longrightarrow> n mod 8 + 8 * of_bool (8 \<le> n) = (n :: nat)"
  by (cases "n < 8") (simp_all add: le_mod_geq)

text \<open>
  C4: The ModR/M, SIB and displacement bytes that \<open>emit_mem_base_disp\<close> appends are read back, under the
  REX prefix for the two registers, as exactly that register field, base register and
  displacement, whatever bytes follow.
\<close>

theorem base_disp_round_trip:
  assumes "unat r < 16" "unat b < 16"
  shows "\<exists>bs. bytes (emit_mem_base_disp buf r b d) = bytes buf @ bs \<and>
    take_modrm (rex_of (rex w (8 \<le> unat r) False (8 \<le> unat b))) (bs @ l) =
      Some (unat r, A_Mem (Some (unat b)) None d, l)"
  using assms by (intro exI [of _ "base_disp_bytes r b d"]) 
    (simp add: bytes_emit_mem_base_disp take_modrm_base_disp rex_of_rex reg_split_le)

theorem base_disp_round_trip_witness:
  "\<exists>bs. bytes (emit_mem_base_disp new_buffer 9 13 0) = bytes new_buffer @ bs \<and>
     take_modrm (rex_of (rex True True False True)) (bs @ [0xC3]) =
       Some (9, A_Mem (Some 13) None 0, [0xC3])"
  using base_disp_round_trip [of 9 13 new_buffer 0 True "[0xC3]"] by simp

text \<open>
  C5: The same for \<open>emit_mem_sib_disp\<close>: base, index, scale and displacement are read back, for every index
  register but RSP, which the architecture cannot encode as an index.
\<close>

theorem sib_disp_round_trip:
  assumes "unat r < 16" "unat b < 16" "unat i < 16" "i \<noteq> 4"
  shows "\<exists>bs. bytes (emit_mem_sib_disp buf r b i (sib_scale_bits s) d) = bytes buf @ bs \<and>
    take_modrm (rex_of (rex w (8 \<le> unat r) (8 \<le> unat i) (8 \<le> unat b))) (bs @ l) =
      Some (unat r, A_Mem (Some (unat b)) (Some (unat i, unat (scale_factor s))) d, l)"
proof -
  have "unat i \<noteq> 4"
    using assms(4) by (simp add: word_eq_iff_unsigned [where 'a = nat])
  then show ?thesis
    using assms(1-3) by (intro exI [of _ "sib_disp_bytes r b i (sib_scale_bits s) d"])
      (simp add: bytes_emit_mem_sib_disp take_modrm_sib_disp rex_of_rex reg_split_le sib_scale_bits_factor
        Let_def)
qed

theorem sib_disp_round_trip_witness:
  "\<exists>bs. bytes (emit_mem_sib_disp new_buffer 0 5 12 (sib_scale_bits X8) 0x1000) = bytes new_buffer @ bs \<and>
     take_modrm (rex_of (rex True False True False)) (bs @ []) =
       Some (0, A_Mem (Some 5) (Some (12, 8)) 0x1000, [])"
  using sib_disp_round_trip [of 0 5 12 new_buffer X8 "0x1000" True "[]"] by simp

text \<open>
  C3: An addition that is encoded, with operands none of which has RSP as the index of a memory address, is the
  one asked for: the bytes appended decode to exactly ADD with the operands of the instruction, or, when the
  immediate does not fit in 32 bits, to a move of the immediate into R11 followed by ADD of R11.  RSP as an
  index, which the architecture cannot express, is outside of this: the encoder accepts \<^verbatim>\<open>add rax, [rbx + rsp + 8]\<close>
  and encodes the address without the index.
\<close>

theorem add_decoded:
  assumes "encode_add inst buf st = (Inr out, buf', st')" "no_rsp_index (operands inst)"
  shows "\<exists>is bs. alu_insns I_ADD (operands inst) = Some is \<and> bytes buf' = bytes buf @ bs \<and> decodes bs is"
  by (rule add_enc.decoded [of inst buf st out]) (simp_all add: assms drop_stats_def)

theorem add_decoded_witness:
  "\<exists>is bs. alu_insns I_ADD [Reg 9, Imm64 0x123456789] = Some is \<and>
     bytes (fst (snd (encode_add (inst_of M_Add [Reg 9, Imm64 0x123456789]) new_buffer new_stats))) = bs \<and>
     decodes bs is"
  using add_decoded [of "inst_of M_Add [Reg 9, Imm64 0x123456789]" new_buffer new_stats new_output
      "fst (snd (encode_add (inst_of M_Add [Reg 9, Imm64 0x123456789]) new_buffer new_stats))"
      "snd (snd (encode_add (inst_of M_Add [Reg 9, Imm64 0x123456789]) new_buffer new_stats))"]
  by (simp add: encode_add_def reg64_from_def stage_imm64_r11_def can_shorten_add_to_32bit_def)

text \<open>The bytes for \<^verbatim>\<open>add rax, [rbx + rsp + 8]\<close> decode to \<^verbatim>\<open>add rax, [rbx + 8]\<close>.\<close>

lemma add_rsp_index_dropped:
  "fst (encode_add (inst_of M_Add [Reg 0, MemSib 3 (Some 4) X1 8]) new_buffer new_stats) = Inr new_output \<and>
   decode (bytes (fst (snd (encode_add (inst_of M_Add [Reg 0, MemSib 3 (Some 4) X1 8]) new_buffer new_stats)))) =
     Some (alu64 I_ADD [A_Reg 0, A_Mem (Some 3) None 8], [])"
  by code_simp

text \<open>
  A comparison at any width that is encoded is the one asked for, for register operands that
  exist at that width without a REX prefix.
\<close>

theorem cmp_sized_decoded:
  assumes "encode_cmp_sized inst w buf = (Inr out, buf')" "cmp_sized_wf w (operands inst)"
  shows "\<exists>is bs. cmp_sized_insns w (operands inst) = Some is \<and> bytes buf' = bytes buf @ bs \<and> decodes bs is"
  by (rule cmp_sized_enc.decoded [OF assms])

theorem cmp_sized_decoded_witness:
  "\<exists>is bs. cmp_sized_insns W64 [Reg 3, Imm64 5] = Some is \<and>
     bytes (snd (encode_cmp_sized (inst_of M_Cmp [Reg 3, Imm64 5]) W64 new_buffer)) = bs \<and> decodes bs is"
  using cmp_sized_decoded [of "inst_of M_Cmp [Reg 3, Imm64 5]" W64 new_buffer new_output
      "snd (encode_cmp_sized (inst_of M_Cmp [Reg 3, Imm64 5]) W64 new_buffer)"]
  by (simp add: encode_cmp_sized_def encode_cmp_def reg64_from_def cmp_sized_wf_def)

text \<open>
  A shift or rotate by a constant that fits in the count byte, or by CL, of an existing register is
  encoded as exactly that instruction; when the encoder fails, the buffer is as before.
\<close>

theorem rol_decoded:
  assumes "encode_rol inst buf w = (r, buf')" "shift_wf (operands inst)"
  shows "case r of
      Inr out \<Rightarrow> \<exists>is bs. shift_insn I_ROL w (operands inst) = Some is \<and> bytes buf' = bytes buf @ bs \<and> decodes bs is
    | Inl e \<Rightarrow> buf' = buf"
  using assms rol_enc.decoded [of inst buf w _ buf'] rol_enc.clean [of inst buf w _ buf'] by (cases r) simp_all

theorem rol_decoded_witness:
  "\<exists>is bs. shift_insn I_ROL W64 [Reg 9, Imm64 3] = Some is \<and>
     bytes (snd (encode_rol (inst_of M_Nop [Reg 9, Imm64 3]) new_buffer W64)) = bs \<and> decodes bs is"
  using rol_decoded [of "inst_of M_Nop [Reg 9, Imm64 3]" new_buffer W64 "Inr new_output"
      "snd (encode_rol (inst_of M_Nop [Reg 9, Imm64 3]) new_buffer W64)"]
  by (simp add: encode_rol_def reg64_from_def shift_wf_def i8_try_from_def)

text \<open>
  A locked addition to memory is encoded with the LOCK prefix as that instruction at the given
  width, for every memory operand the architecture can express.
\<close>

theorem lock_add_decoded:
  assumes "encode_lock_add inst buf w = (Inr out, buf')" "no_rsp_index (operands inst)"
  shows "\<exists>is bs. lock_insn (Inl I_ADD) w (operands inst) = Some is \<and> bytes buf' = bytes buf @ bs \<and> decodes bs is"
  by (rule lock_add_enc.decoded [OF assms])

theorem lock_add_decoded_witness:
  "\<exists>is bs. lock_insn (Inl I_ADD) W64 [MemSib 3 None X1 16, Reg 9] = Some is \<and>
     bytes (snd (encode_lock_add (inst_of M_Nop [MemSib 3 None X1 16, Reg 9]) new_buffer W64)) = bs \<and> decodes bs is"
  using lock_add_decoded [of "inst_of M_Nop [MemSib 3 None X1 16, Reg 9]" new_buffer W64 new_output
      "snd (encode_lock_add (inst_of M_Nop [MemSib 3 None X1 16, Reg 9]) new_buffer W64)"]
  by (simp add: encode_lock_add_def reg64_from_def)

text \<open>The condition codes of the architecture manual.\<close>

fun sdm_condition :: "ir_cond \<Rightarrow> nat" where
  "sdm_condition C_Overflow = 0"
| "sdm_condition C_NotOverflow = 1"
| "sdm_condition C_Below = 2"
| "sdm_condition C_AboveOrEqual = 3"
| "sdm_condition C_Eq = 4"
| "sdm_condition C_Zero = 4"
| "sdm_condition C_Ne = 5"
| "sdm_condition C_NonZero = 5"
| "sdm_condition C_BelowOrEqual = 6"
| "sdm_condition C_Above = 7"
| "sdm_condition C_Sign = 8"
| "sdm_condition C_NotSign = 9"
| "sdm_condition C_Parity = 10"
| "sdm_condition C_NotParity = 11"
| "sdm_condition C_Lt = 12"
| "sdm_condition C_Ge = 13"
| "sdm_condition C_Le = 14"
| "sdm_condition C_Gt = 15"

lemma ir_cond_no_sdm: "ir_cond_no c = sdm_condition c"
  by (cases c) (simp_all add: ir_cond_no_def)

text \<open>
  C11: A conditional jump that is encoded is encoded with the condition code of the architecture's table for the
  condition asked for.  Its displacement is the sign-extended low half of the immediate: exactly the
  displacement asked for when that fits in 32 bits, and only then; a larger one is cut without an error.  For a
  label the displacement is zero, and the field that the label fixup names is the last four bytes of the
  instruction.
\<close>

theorem jcc_decoded:
  assumes "encode_jcc c inst buf st = (Inr out, buf', st')"
  shows "(\<exists>is bs. branch_insn (I_JCC (sdm_condition c)) (map low_rel (operands inst)) = Some is \<and>
        bytes buf' = bytes buf @ bs \<and> decodes bs is) \<and>
    (map low_rel (operands inst) = operands inst \<longleftrightarrow> list_all rel_fits (operands inst)) \<and>
    (\<forall>f \<in> set (label_fixups out). site_ok buf buf' (fixup_offset f) \<and>
      length (bytes buf) + unat (instruction_size f) = length (bytes buf'))"
proof -
  obtain "is" where "branch_insn (I_JCC (sdm_condition c)) (map low_rel (operands inst)) = Some is" "emits buf buf' is"
    using jcc_emits_low [OF assms] by (auto simp: ir_cond_no_sdm)
  then show ?thesis using emits_decodes low_rel_id jcc_sites [OF assms] by blast
qed

theorem jcc_decoded_witness:
  "\<exists>is bs. branch_insn (I_JCC 12) [LabelRef ''loop'' 0] = Some is \<and>
     bytes (fst (snd (encode_jcc C_Lt (inst_of M_Nop [LabelRef ''loop'' 0]) new_buffer new_stats))) = bs \<and> decodes bs is"
proof -
  let ?r = "encode_jcc C_Lt (inst_of M_Nop [LabelRef ''loop'' 0]) new_buffer new_stats"
  obtain out where "?r = (Inr out, fst (snd ?r), snd (snd ?r))"
    by (simp add: encode_jcc_def)
  from jcc_decoded [OF this] show ?thesis by simp
qed

text \<open>
  C12: Every relocation that a call or a jump records names the last four bytes of the instruction just
  emitted, and they are zero until they are patched.
\<close>

theorem call_jmp_relocations:
  assumes "encode_call inst buf = (Inr out, buf') \<or> encode_jmp inst buf = (Inr out, buf')"
    and "s \<in> set (reloc_sites out)"
  shows "site_ok buf buf' (reloc_offset s)"
  using assms call_sites jmp_sites(1) by blast

theorem call_jmp_relocations_witness:
  "site_ok new_buffer (snd (encode_call (inst_of M_Nop [SymbolRef ''f'' 0]) new_buffer))
     (reloc_offset (hd (reloc_sites (projr (fst (encode_call (inst_of M_Nop [SymbolRef ''f'' 0]) new_buffer))))))"
proof -
  let ?r = "encode_call (inst_of M_Nop [SymbolRef ''f'' 0]) new_buffer"
  have "?r = (Inr (projr (fst ?r)), snd ?r)" "reloc_sites (projr (fst ?r)) \<noteq> []"
    by (simp_all add: encode_call_def add_reloc_def)
  then show ?thesis using call_jmp_relocations [OF disjI1] by (metis list.set_sel(1))
qed

end
