(* ===== verification/Interner.thy ===== *)
theory Interner
  imports Prelude
begin

text \<open>
  The contract of the toolchain's hash-consing tables, and what the three of them
  (\<^verbatim>\<open>TypeInterner\<close>, \<^verbatim>\<open>CapSetInterner\<close>, \<^verbatim>\<open>EffectInterner\<close>) share: a vector of values and a hash map from a value
  to its id, where the id of position \<open>k\<close> is \<open>k + off\<close> as a \<^verbatim>\<open>u32\<close>.
\<close>

section \<open>The contract\<close>

text \<open>
  \<open>intern\<close> returns \<open>None\<close> where the code panics; \<open>get\<close> returns \<open>None\<close> where indexing panics; \<open>room\<close> is the
  condition under which there is an id left.
\<close>

locale interner =
  fixes intern :: "'s \<Rightarrow> 'a \<Rightarrow> ('i \<times> 's) option"
    and get :: "'s \<Rightarrow> 'i \<Rightarrow> 'a option"
    and inv :: "'s \<Rightarrow> bool"
    and room :: "'s \<Rightarrow> bool"
  assumes intern_returns: "inv s \<Longrightarrow> room s \<Longrightarrow> \<exists>i s'. intern s x = Some (i, s')"
    and intern_inv: "inv s \<Longrightarrow> room s \<Longrightarrow> intern s x = Some (i, s') \<Longrightarrow> inv s'"
    and intern_get: "inv s \<Longrightarrow> room s \<Longrightarrow> intern s x = Some (i, s') \<Longrightarrow> get s' i = Some x"
    and intern_keeps: "inv s \<Longrightarrow> room s \<Longrightarrow> intern s x = Some (i, s') \<Longrightarrow>
      get s j = Some y \<Longrightarrow> get s' j = Some y"
    and intern_known: "inv s \<Longrightarrow> get s i = Some x \<Longrightarrow> intern s x = Some (i, s)"
begin

text \<open>No value has two ids.\<close>

lemma get_inject: "inv s \<Longrightarrow> get s i = Some x \<Longrightarrow> get s j = Some x \<Longrightarrow> i = j"
  using intern_known [of s i x] intern_known [of s j x] by simp

text \<open>Interning again changes nothing.\<close>

lemma intern_again:
  "inv s \<Longrightarrow> room s \<Longrightarrow> intern s x = Some (i, s') \<Longrightarrow> intern s' x = Some (i, s')"
  by (rule intern_known [OF intern_inv intern_get])

text \<open>Identity of ids is equality of values, whatever was interned in between.\<close>

lemma ids_equal_iff:
  assumes "inv s" "room s" "intern s x = Some (i, s1)" "room s1" "intern s1 y = Some (j, s2)"
  shows "i = j \<longleftrightarrow> x = y"
proof
  have s1: "inv s1" and x: "get s1 i = Some x"
    using intern_inv intern_get assms(1-3) by blast+
  have "get s2 i = Some x" "get s2 j = Some y"
    using intern_keeps [OF s1 assms(4,5) x] intern_get [OF s1 assms(4,5)] by blast+
  then show "i = j \<Longrightarrow> x = y" by simp
  show "x = y \<Longrightarrow> i = j" using intern_known [OF s1 x] assms(5) by simp
qed

end

section \<open>Vector and index\<close>

definition nth_opt :: "'a list \<Rightarrow> nat \<Rightarrow> 'a option" where
  "nth_opt vs k = (if k < length vs then Some (vs ! k) else None)"

lemma nth_opt_Some: "nth_opt vs k = Some x \<longleftrightarrow> k < length vs \<and> vs ! k = x"
  by (auto simp: nth_opt_def)

lemma nth_opt_append: "nth_opt vs k = Some x \<Longrightarrow> nth_opt (vs @ [y]) k = Some x"
  by (auto simp: nth_opt_def nth_append split: if_splits)

lemma nth_opt_last [simp]: "nth_opt (vs @ [y]) (length vs) = Some y"
  by (simp add: nth_opt_def)

text \<open>The map sends exactly the stored values to their ids, and the ids have not wrapped.\<close>

definition table_inv :: "nat \<Rightarrow> 'a list \<Rightarrow> ('a \<rightharpoonup> u32) \<Rightarrow> bool" where
  "table_inv off vs m \<longleftrightarrow> length vs + off \<le> 2 ^ 32 \<and> distinct vs \<and>
     (\<forall>x i. m x = Some i \<longleftrightarrow> (\<exists>k. nth_opt vs k = Some x \<and> i = of_nat (k + off)))"

lemma table_id:
  assumes "table_inv off vs m" "k < length vs"
  shows "unat (of_nat (k + off) :: u32) = k + off"
  using assms by (simp only: unat_of_nat) (simp add: table_inv_def)

lemma table_known: "table_inv off vs m \<Longrightarrow> nth_opt vs k = Some x \<Longrightarrow> m x = Some (of_nat (k + off))"
  by (auto simp: table_inv_def)

lemma table_lookup:
  assumes "table_inv off vs m" "m x = Some i"
  shows "off \<le> unat i" "nth_opt vs (unat i - off) = Some x"
proof -
  obtain k where k: "nth_opt vs k = Some x" "i = of_nat (k + off)"
    using assms by (auto simp: table_inv_def)
  then have "unat i = k + off" using table_id [OF assms(1), of k] by (simp add: nth_opt_Some)
  then show "off \<le> unat i" "nth_opt vs (unat i - off) = Some x" using k by simp_all
qed

lemma table_new:
  assumes "table_inv off vs m" "m x = None" "length vs + off < 2 ^ 32"
  shows "table_inv off (vs @ [x]) (m(x \<mapsto> of_nat (length vs + off)))"
proof -
  have x: "x \<notin> set vs"
    using assms(1,2) by (metis in_set_conv_nth nth_opt_Some option.distinct(1) table_known)
  have "nth_opt (vs @ [x]) k = Some y \<longleftrightarrow> nth_opt vs k = Some y \<or> k = length vs \<and> y = x" for k y
    by (auto simp: nth_opt_def nth_append)
  moreover have "nth_opt vs k \<noteq> Some x" for k
    using x by (auto simp: nth_opt_Some)
  ultimately show ?thesis
    using assms x unfolding table_inv_def by (auto split: if_splits)
qed

section \<open>Tables with a seeded first value\<close>

text \<open>
  \<^verbatim>\<open>CapSetInterner\<close> and \<^verbatim>\<open>EffectInterner\<close>: ids are positions, the value at position 0 is there from the
  start, and the id of a new value is the vector's length cast to \<^verbatim>\<open>u32\<close>.
\<close>

definition seeded_inv :: "'a \<Rightarrow> 'a list \<Rightarrow> ('a \<rightharpoonup> u32) \<Rightarrow> bool" where
  "seeded_inv seed vs m \<longleftrightarrow> table_inv 0 vs m \<and> nth_opt vs 0 = Some seed"

lemma seeded_inv_new: "seeded_inv seed [seed] [seed \<mapsto> 0]"
  by (auto simp: seeded_inv_def table_inv_def nth_opt_def split: if_splits)

locale seeded_table =
  fixes vals :: "'s \<Rightarrow> 'a list"
    and index :: "'s \<Rightarrow> 'a \<rightharpoonup> u32"
    and intern :: "'s \<Rightarrow> 'a \<Rightarrow> u32 \<times> 's"
    and get :: "'s \<Rightarrow> u32 \<Rightarrow> 'a option"
    and seed :: 'a
  assumes intern_old: "index s x = Some i \<Longrightarrow> intern s x = (i, s)"
    and intern_new: "index s x = None \<Longrightarrow>
      \<exists>s'. intern s x = (of_nat (length (vals s)), s') \<and> vals s' = vals s @ [x] \<and>
        index s' = (index s)(x \<mapsto> of_nat (length (vals s)))"
    and get_nth: "get s i = nth_opt (vals s) (unat i)"
begin

lemma intern_cases:
  assumes "intern s x = (i, s')"
  obtains "index s x = Some i" "s' = s"
  | "index s x = None" "i = of_nat (length (vals s))" "vals s' = vals s @ [x]"
    "index s' = (index s)(x \<mapsto> i)"
  using assms intern_old [of s x] intern_new [of s x] by (cases "index s x") auto

text \<open>At \<^verbatim>\<open>2^32\<close> values the cast wraps and a new value gets the seed's id.\<close>

lemma intern_wraps: "length (vals s) = 2 ^ 32 \<Longrightarrow> index s x = None \<Longrightarrow> fst (intern s x) = 0"
proof -
  assume "length (vals s) = 2 ^ 32" "index s x = None"
  moreover from this(1) have "(of_nat (length (vals s)) :: u32) = 0" by simp
  ultimately show ?thesis using intern_new [of s x] by auto
qed

end

sublocale seeded_table \<subseteq> interner "\<lambda>s x. Some (intern s x)" get
    "\<lambda>s. seeded_inv seed (vals s) (index s)" "\<lambda>s. length (vals s) < 2 ^ 32"
proof
  fix s x i s' j y
  assume inv: "seeded_inv seed (vals s) (index s)"
  show "\<exists>i s'. Some (intern s x) = Some (i, s')" by (cases "intern s x") simp
  show "get s i = Some x \<Longrightarrow> Some (intern s x) = Some (i, s)"
    using inv table_known [of 0 "vals s" "index s" "unat i" x] intern_old [of s x]
    by (simp add: seeded_inv_def get_nth)
  assume room: "length (vals s) < 2 ^ 32" and "Some (intern s x) = Some (i, s')"
  then have e: "intern s x = (i, s')" by simp
  have len: "unat (of_nat (length (vals s)) :: u32) = length (vals s)"
    using room by (simp add: unat_of_nat)
  show "seeded_inv seed (vals s') (index s')"
    using e inv room table_new [of 0 "vals s" "index s" x]
    by (cases rule: intern_cases) (auto simp: seeded_inv_def nth_opt_append)
  show "get s' i = Some x"
    using e inv len table_lookup [of 0 "vals s" "index s" x]
    by (cases rule: intern_cases) (auto simp: seeded_inv_def get_nth)
  show "get s j = Some y \<Longrightarrow> get s' j = Some y"
    using e by (cases rule: intern_cases) (simp_all add: get_nth nth_opt_append)
qed

end
