(* ===== verification/Cap_Sets.thy ===== *)
theory Cap_Sets
  imports Interner
begin

text \<open>
  \<^verbatim>\<open>crates/paideia-as-types/src/cap_set.rs\<close>: capability sets, kept as sorted duplicate-free vectors, and
  the table that assigns them ids.  A \<^verbatim>\<open>CapId\<close> is its \<^verbatim>\<open>u32\<close>.
\<close>

section \<open>Sets as canonical vectors\<close>

text \<open>
  What a structure promises that stores a set in canonical form: \<open>make\<close> builds it from an arbitrary
  vector, \<open>elems\<close> is the stored vector, \<open>rest\<close> whatever else the structure holds.
\<close>

locale canonical_set =
  fixes make :: "'a::linorder list \<Rightarrow> 's"
    and elems :: "'s \<Rightarrow> 'a list"
    and rest :: "'s \<Rightarrow> 'r"
  assumes elems_make: "elems (make xs) = sort_dedup xs"
    and rest_make: "rest (make xs) = rest (make ys)"
    and extensional: "elems s = elems t \<Longrightarrow> rest s = rest t \<Longrightarrow> s = t"
begin

lemma make_canonical: "canonical (elems (make xs))"
  by (simp add: elems_make)

lemma set_make: "set (elems (make xs)) = set xs"
  by (simp add: elems_make)

text \<open>Equality of the structures is equality of the sets: order and multiplicity do not matter.\<close>

lemma make_eq_iff: "make xs = make ys \<longleftrightarrow> set xs = set ys"
proof
  show "make xs = make ys \<Longrightarrow> set xs = set ys"
    using set_make by metis
  show "set xs = set ys \<Longrightarrow> make xs = make ys"
    by (rule extensional) (simp_all add: elems_make rest_make [of xs ys] cong: sort_dedup_cong)
qed

lemma set_eq_iff:
  assumes "canonical (elems s)" "canonical (elems t)" "rest s = rest t"
  shows "s = t \<longleftrightarrow> set (elems s) = set (elems t)"
  using assms canonical_set_eq extensional by blast

end

type_synonym cap_id = u32

record cap_set =
  caps :: "cap_id list"

definition cap_id_new :: "u32 \<Rightarrow> cap_id option" where
  "cap_id_new n = (if n = 0 then None else Some n)"

definition cap_empty :: cap_set where
  "cap_empty = \<lparr>caps = []\<rparr>"

definition cap_from_ids :: "cap_id list \<Rightarrow> cap_set" where
  "cap_from_ids cs = \<lparr>caps = sort_dedup cs\<rparr>"

definition cap_is_empty :: "cap_set \<Rightarrow> bool" where
  "cap_is_empty s \<longleftrightarrow> caps s = []"

definition cap_is_subset_of :: "cap_set \<Rightarrow> cap_set \<Rightarrow> bool" where
  "cap_is_subset_of s t \<longleftrightarrow> list_all (\<lambda>c. c \<in> set (caps t)) (caps s)"

definition cap_union :: "cap_set \<Rightarrow> cap_set \<Rightarrow> cap_set" where
  "cap_union s t = \<lparr>caps = sort_dedup (caps s @ caps t)\<rparr>"

definition cap_intersection :: "cap_set \<Rightarrow> cap_set \<Rightarrow> cap_set" where
  "cap_intersection s t = \<lparr>caps = remdups_adj (filter (\<lambda>c. c \<in> set (caps t)) (caps s))\<rparr>"

definition missing_caps :: "cap_set \<Rightarrow> cap_set \<Rightarrow> cap_id list" where
  "missing_caps s available = filter (\<lambda>c. c \<notin> set (caps available)) (caps s)"

interpretation cap_set: canonical_set cap_from_ids caps "\<lambda>_. ()"
  by unfold_locales (simp_all add: cap_from_ids_def)

abbreviation cap_wf :: "cap_set \<Rightarrow> bool" where
  "cap_wf s \<equiv> canonical (caps s)"

lemma cap_wf_ops:
  "cap_wf cap_empty" "cap_wf (cap_from_ids cs)" "cap_wf (cap_union s t)"
  "cap_wf s \<Longrightarrow> cap_wf (cap_intersection s t)"
  by (simp_all add: cap_empty_def cap_from_ids_def cap_union_def cap_intersection_def
      canonical_filter remdups_adj_canonical)

lemma set_cap_ops [set_simps]:
  "set (caps cap_empty) = {}" "set (caps (cap_from_ids cs)) = set cs"
  "set (caps (cap_union s t)) = set (caps s) \<union> set (caps t)"
  "set (caps (cap_intersection s t)) = set (caps s) \<inter> set (caps t)"
  "set (missing_caps s t) = set (caps s) - set (caps t)"
  by (auto simp: cap_empty_def cap_from_ids_def cap_union_def cap_intersection_def missing_caps_def)

lemma cap_is_subset_of_iff [set_simps]: "cap_is_subset_of s t \<longleftrightarrow> set (caps s) \<subseteq> set (caps t)"
  by (auto simp: cap_is_subset_of_def list_all_iff)

lemma cap_eq_iff: "cap_wf s \<Longrightarrow> cap_wf t \<Longrightarrow> s = t \<longleftrightarrow> set (caps s) = set (caps t)"
  by (rule cap_set.set_eq_iff) simp_all

section \<open>The capability-set table\<close>

record cap_set_interner =
  sets :: "cap_set list"
  sets_by_value :: "cap_set \<rightharpoonup> u32"

definition cap_interner_new :: cap_set_interner where
  "cap_interner_new = \<lparr>sets = [cap_empty], sets_by_value = [cap_empty \<mapsto> 0]\<rparr>"

definition cap_intern :: "cap_set_interner \<Rightarrow> cap_set \<Rightarrow> u32 \<times> cap_set_interner" where
  "cap_intern tab s =
     (case sets_by_value tab s of
        Some i \<Rightarrow> (i, tab)
      | None \<Rightarrow>
          (let i = of_nat (length (sets tab));
               tab = tab\<lparr>sets_by_value := (sets_by_value tab)(s \<mapsto> i)\<rparr>;
               tab = tab\<lparr>sets := sets tab @ [s]\<rparr>
           in (i, tab)))"

definition cap_get :: "cap_set_interner \<Rightarrow> u32 \<Rightarrow> cap_set option" where
  "cap_get tab i = nth_opt (sets tab) (unat i)"

interpretation cap_interner: seeded_table sets sets_by_value cap_intern cap_get cap_empty
  by unfold_locales (simp_all add: cap_intern_def cap_get_def Let_def)

lemma cap_interner_new_inv:
  "seeded_inv cap_empty (sets cap_interner_new) (sets_by_value cap_interner_new)"
  by (simp add: cap_interner_new_def seeded_inv_new)

end
