(* ===== verification/Types.thy ===== *)
theory Types
  imports Interner
begin

text \<open>
  \<^verbatim>\<open>crates/paideia-as-types/src/types.rs\<close>, \<^verbatim>\<open>kinds.rs\<close> and \<^verbatim>\<open>intern.rs\<close>: the structure of types, their kinds,
  and the table of interned types.  Components of a type are ids into the table.  An id is a
  \<^verbatim>\<open>NonZeroU32\<close>, written as its \<^verbatim>\<open>u32\<close>.
\<close>

section \<open>Types\<close>

type_synonym type_id = u32
type_synonym symbol = u32

datatype hr_kind = Star | Arrow hr_kind hr_kind

datatype enum_payload =
  P_Unit
| P_Tuple "type_id list"
| P_Record "(symbol \<times> type_id) list"

datatype ty =
  T_Unit | T_Bool | T_Char
| T_UInt u16 | T_SInt u16 | T_Float u16
| T_Top | T_Bot
| T_Fn "type_id list" type_id u32 u32
| T_Tuple "type_id list"
| T_Named u32 "type_id list"
| T_Var u32 hr_kind
| T_Term
| T_Ptr type_id bool
| T_Ref type_id bool u32
| T_Record "(symbol \<times> type_id) list"
| T_Enum "(symbol \<times> enum_payload) list"
| T_Str
| T_Vec type_id u32

text \<open>\<^verbatim>\<open>TypeId::new\<close> and \<^verbatim>\<open>TypeId::index\<close>.\<close>

definition type_id_new :: "u32 \<Rightarrow> type_id option" where
  "type_id_new n = (if n = 0 then None else Some n)"

definition type_index :: "type_id \<Rightarrow> nat" where
  "type_index i = unat (i - 1)"

definition size_width_sentinel :: u16 where
  "size_width_sentinel = 0xFFFF"

datatype lin_class = Ordered | Linear | Affine | Unrestricted

fun type_kind :: "type_id \<Rightarrow> ty \<Rightarrow> lin_class" where
  "type_kind i (T_Named n args) = (if n = 1 then Linear else Unrestricted)"
| "type_kind i _ = Unrestricted"

fun hr_arity :: "hr_kind \<Rightarrow> nat" where
  "hr_arity Star = 0"
| "hr_arity (Arrow a r) = 1 + hr_arity r"

definition is_star :: "hr_kind \<Rightarrow> bool" where
  "is_star k \<longleftrightarrow> k = Star"

lemma is_star_arity: "is_star k \<longleftrightarrow> hr_arity k = 0"
  by (cases k) (simp_all add: is_star_def)

section \<open>The table of types\<close>

record type_interner =
  types :: "ty list"
  by_value :: "ty \<rightharpoonup> type_id"
  cached_unit :: "type_id option"
  cached_bool :: "type_id option"
  cached_char :: "type_id option"
  cached_top :: "type_id option"
  cached_bot :: "type_id option"
  cached_term :: "type_id option"
  cached_str :: "type_id option"

definition new_types :: type_interner where
  "new_types =
     \<lparr>types = [], by_value = Map.empty, cached_unit = None, cached_bool = None, cached_char = None,
      cached_top = None, cached_bot = None, cached_term = None, cached_str = None\<rparr>"

text \<open>\<open>None\<close> is the panic of \<^verbatim>\<open>expect("type id overflow")\<close>.\<close>

definition intern :: "type_interner \<Rightarrow> ty \<Rightarrow> (type_id \<times> type_interner) option" where
  "intern tab t =
     (case by_value tab t of
        Some i \<Rightarrow> Some (i, tab)
      | None \<Rightarrow>
          (case type_id_new (of_nat (length (types tab) + 1)) of
             None \<Rightarrow> None
           | Some i \<Rightarrow>
               (let tab = tab\<lparr>types := types tab @ [t]\<rparr>;
                    tab = tab\<lparr>by_value := (by_value tab)(t \<mapsto> i)\<rparr>
                in Some (i, tab))))"

text \<open>\<open>None\<close> is the panic of an index out of bounds; 0 is not an id.\<close>

definition get :: "type_interner \<Rightarrow> type_id \<Rightarrow> ty option" where
  "get tab i = (if i = 0 then None else nth_opt (types tab) (type_index i))"

definition unit_ty :: "type_interner \<Rightarrow> (type_id \<times> type_interner) option" where
  "unit_ty tab =
     (case cached_unit tab of
        Some i \<Rightarrow> Some (i, tab)
      | None \<Rightarrow>
          (case intern tab T_Unit of
             None \<Rightarrow> None
           | Some (i, tab) \<Rightarrow> Some (i, tab\<lparr>cached_unit := Some i\<rparr>)))"

definition bool_ty :: "type_interner \<Rightarrow> (type_id \<times> type_interner) option" where
  "bool_ty tab =
     (case cached_bool tab of
        Some i \<Rightarrow> Some (i, tab)
      | None \<Rightarrow>
          (case intern tab T_Bool of
             None \<Rightarrow> None
           | Some (i, tab) \<Rightarrow> Some (i, tab\<lparr>cached_bool := Some i\<rparr>)))"

definition char_ty :: "type_interner \<Rightarrow> (type_id \<times> type_interner) option" where
  "char_ty tab =
     (case cached_char tab of
        Some i \<Rightarrow> Some (i, tab)
      | None \<Rightarrow>
          (case intern tab T_Char of
             None \<Rightarrow> None
           | Some (i, tab) \<Rightarrow> Some (i, tab\<lparr>cached_char := Some i\<rparr>)))"

definition top_ty :: "type_interner \<Rightarrow> (type_id \<times> type_interner) option" where
  "top_ty tab =
     (case cached_top tab of
        Some i \<Rightarrow> Some (i, tab)
      | None \<Rightarrow>
          (case intern tab T_Top of
             None \<Rightarrow> None
           | Some (i, tab) \<Rightarrow> Some (i, tab\<lparr>cached_top := Some i\<rparr>)))"

definition bot_ty :: "type_interner \<Rightarrow> (type_id \<times> type_interner) option" where
  "bot_ty tab =
     (case cached_bot tab of
        Some i \<Rightarrow> Some (i, tab)
      | None \<Rightarrow>
          (case intern tab T_Bot of
             None \<Rightarrow> None
           | Some (i, tab) \<Rightarrow> Some (i, tab\<lparr>cached_bot := Some i\<rparr>)))"

definition term_ty :: "type_interner \<Rightarrow> (type_id \<times> type_interner) option" where
  "term_ty tab =
     (case cached_term tab of
        Some i \<Rightarrow> Some (i, tab)
      | None \<Rightarrow>
          (case intern tab T_Term of
             None \<Rightarrow> None
           | Some (i, tab) \<Rightarrow> Some (i, tab\<lparr>cached_term := Some i\<rparr>)))"

definition str_ty :: "type_interner \<Rightarrow> (type_id \<times> type_interner) option" where
  "str_ty tab =
     (case cached_str tab of
        Some i \<Rightarrow> Some (i, tab)
      | None \<Rightarrow>
          (case intern tab T_Str of
             None \<Rightarrow> None
           | Some (i, tab) \<Rightarrow> Some (i, tab\<lparr>cached_str := Some i\<rparr>)))"

definition uint_ty :: "type_interner \<Rightarrow> u16 \<Rightarrow> (type_id \<times> type_interner) option" where
  "uint_ty tab bits = intern tab (T_UInt bits)"

definition sint_ty :: "type_interner \<Rightarrow> u16 \<Rightarrow> (type_id \<times> type_interner) option" where
  "sint_ty tab bits = intern tab (T_SInt bits)"

definition float_ty :: "type_interner \<Rightarrow> u16 \<Rightarrow> (type_id \<times> type_interner) option" where
  "float_ty tab bits = intern tab (T_Float bits)"

definition kind_of :: "type_interner \<Rightarrow> type_id \<Rightarrow> lin_class option" where
  "kind_of tab i = map_option (type_kind i) (get tab i)"

section \<open>Invariant\<close>

text \<open>The table proper, and caches that name the types they are for.\<close>

definition cache_ok :: "type_interner \<Rightarrow> type_id option \<Rightarrow> ty \<Rightarrow> bool" where
  "cache_ok tab c t \<longleftrightarrow> (case c of None \<Rightarrow> True | Some i \<Rightarrow> get tab i = Some t)"

definition types_inv :: "type_interner \<Rightarrow> bool" where
  "types_inv tab \<longleftrightarrow> table_inv 1 (types tab) (by_value tab) \<and>
     cache_ok tab (cached_unit tab) T_Unit \<and> cache_ok tab (cached_bool tab) T_Bool \<and>
     cache_ok tab (cached_char tab) T_Char \<and> cache_ok tab (cached_top tab) T_Top \<and>
     cache_ok tab (cached_bot tab) T_Bot \<and> cache_ok tab (cached_term tab) T_Term \<and>
     cache_ok tab (cached_str tab) T_Str"

text \<open>There is an id left.\<close>

definition types_room :: "type_interner \<Rightarrow> bool" where
  "types_room tab \<longleftrightarrow> length (types tab) + 1 < 2 ^ 32"

lemma get_Some_iff:
  "get tab i = Some t \<longleftrightarrow> 0 < unat i \<and> nth_opt (types tab) (unat i - 1) = Some t"
  by (auto simp: get_def type_index_def unat_gt_0 unat_minus_one)

lemma types_inv_table: "types_inv tab \<Longrightarrow> table_inv 1 (types tab) (by_value tab)"
  by (simp add: types_inv_def)

lemma new_types_inv: "types_inv new_types"
  by (simp add: types_inv_def new_types_def table_inv_def cache_ok_def nth_opt_def)

lemma fresh_room:
  assumes "types_inv tab" "(of_nat (length (types tab) + 1) :: u32) \<noteq> 0"
  shows "types_room tab"
proof (rule ccontr)
  assume "\<not> types_room tab"
  then have "length (types tab) + 1 = 2 ^ 32"
    using types_inv_table [OF assms(1)] by (simp add: types_room_def table_inv_def)
  then have "(of_nat (length (types tab) + 1) :: u32) = of_nat (2 ^ 32)" by (rule arg_cong)
  then show False using assms(2) by simp
qed

lemma intern_get_keeps:
  assumes "intern tab t = Some (i, tab')" "get tab j = Some u"
  shows "get tab' j = Some u"
  using assms
  by (auto simp: intern_def get_def Let_def nth_opt_append split: option.splits if_splits)

lemma cache_ok_keeps: "intern tab t = Some (i, tab') \<Longrightarrow> cache_ok tab c u \<Longrightarrow> cache_ok tab' c u"
  using intern_get_keeps by (auto simp: cache_ok_def split: option.splits)

lemma intern_caches:
  assumes "intern tab t = Some (i, tab')"
  shows "cached_unit tab' = cached_unit tab" "cached_bool tab' = cached_bool tab"
    "cached_char tab' = cached_char tab" "cached_top tab' = cached_top tab"
    "cached_bot tab' = cached_bot tab" "cached_term tab' = cached_term tab"
    "cached_str tab' = cached_str tab"
  using assms by (auto simp: intern_def Let_def split: option.splits)

lemma intern_table:
  assumes "types_inv tab" "intern tab t = Some (i, tab')"
  shows "table_inv 1 (types tab') (by_value tab')" "by_value tab' t = Some i"
proof -
  have "table_inv 1 (types tab') (by_value tab') \<and> by_value tab' t = Some i"
  proof (cases "by_value tab t")
    case None
    then have i: "i = of_nat (length (types tab) + 1)" "i \<noteq> 0"
      and tab': "tab' = tab\<lparr>types := types tab @ [t], by_value := (by_value tab)(t \<mapsto> i)\<rparr>"
      using assms(2) by (auto simp: intern_def type_id_new_def Let_def split: if_splits)
    then have "length (types tab) + 1 < 2 ^ 32"
      using fresh_room [OF assms(1)] by (simp add: types_room_def)
    then show ?thesis
      using tab' i(1) table_new [OF types_inv_table [OF assms(1)] None] by simp
  next
    case (Some j)
    then show ?thesis
      using assms(2) types_inv_table [OF assms(1)] by (simp add: intern_def)
  qed
  then show "table_inv 1 (types tab') (by_value tab')" "by_value tab' t = Some i" by simp_all
qed

lemma intern_types_inv: "types_inv tab \<Longrightarrow> intern tab t = Some (i, tab') \<Longrightarrow> types_inv tab'"
  using intern_table [of tab t i tab'] cache_ok_keeps [of tab t i tab']
  by (simp add: types_inv_def intern_caches)

lemma intern_get_new: "types_inv tab \<Longrightarrow> intern tab t = Some (i, tab') \<Longrightarrow> get tab' i = Some t"
  using table_lookup [OF intern_table] by (auto simp: get_Some_iff Suc_le_eq)

interpretation type_interner: interner intern get types_inv types_room
proof
  fix tab t i
  assume inv: "types_inv tab"
  show "get tab i = Some t \<Longrightarrow> intern tab t = Some (i, tab)"
    using table_known [OF types_inv_table [OF inv], of "unat i - 1" t]
    by (auto simp: intern_def get_Some_iff)
  assume "types_room tab"
  then have "unat (of_nat (length (types tab) + 1) :: u32) = length (types tab) + 1"
    by (simp only: unat_of_nat) (simp add: types_room_def)
  then have "(of_nat (length (types tab) + 1) :: u32) \<noteq> 0"
    by (metis add_is_0 unat_0 zero_neq_one)
  then show "\<exists>i tab'. intern tab t = Some (i, tab')"
    by (auto simp: intern_def type_id_new_def Let_def split: option.splits)
qed (blast intro: intern_types_inv intern_get_new intern_get_keeps)+

section \<open>Cached types\<close>

text \<open>Every cached constructor returns an id of its type, whether or not its cache is set.\<close>

lemma cache_hit:
  assumes "types_inv tab"
  shows "cached_unit tab = Some i \<Longrightarrow> get tab i = Some T_Unit"
    and "cached_bool tab = Some i \<Longrightarrow> get tab i = Some T_Bool"
    and "cached_char tab = Some i \<Longrightarrow> get tab i = Some T_Char"
    and "cached_top tab = Some i \<Longrightarrow> get tab i = Some T_Top"
    and "cached_bot tab = Some i \<Longrightarrow> get tab i = Some T_Bot"
    and "cached_term tab = Some i \<Longrightarrow> get tab i = Some T_Term"
    and "cached_str tab = Some i \<Longrightarrow> get tab i = Some T_Str"
  using assms by (simp_all add: types_inv_def cache_ok_def)

lemma get_set_cache [simp]:
  "get (tab\<lparr>cached_unit := c\<rparr>) i = get tab i"
  "get (tab\<lparr>cached_bool := c\<rparr>) i = get tab i"
  "get (tab\<lparr>cached_char := c\<rparr>) i = get tab i"
  "get (tab\<lparr>cached_top := c\<rparr>) i = get tab i"
  "get (tab\<lparr>cached_bot := c\<rparr>) i = get tab i"
  "get (tab\<lparr>cached_term := c\<rparr>) i = get tab i"
  "get (tab\<lparr>cached_str := c\<rparr>) i = get tab i"
  by (simp_all add: get_def)

lemma cache_set:
  assumes "types_inv tab"
  shows "get tab i = Some T_Unit \<Longrightarrow> types_inv (tab\<lparr>cached_unit := Some i\<rparr>)"
    and "get tab i = Some T_Bool \<Longrightarrow> types_inv (tab\<lparr>cached_bool := Some i\<rparr>)"
    and "get tab i = Some T_Char \<Longrightarrow> types_inv (tab\<lparr>cached_char := Some i\<rparr>)"
    and "get tab i = Some T_Top \<Longrightarrow> types_inv (tab\<lparr>cached_top := Some i\<rparr>)"
    and "get tab i = Some T_Bot \<Longrightarrow> types_inv (tab\<lparr>cached_bot := Some i\<rparr>)"
    and "get tab i = Some T_Term \<Longrightarrow> types_inv (tab\<lparr>cached_term := Some i\<rparr>)"
    and "get tab i = Some T_Str \<Longrightarrow> types_inv (tab\<lparr>cached_str := Some i\<rparr>)"
  using assms by (simp_all add: types_inv_def cache_ok_def cong: option.case_cong)

lemma cached_ops:
  assumes "types_inv tab"
  shows "unit_ty tab = Some (i, tab') \<Longrightarrow> get tab' i = Some T_Unit \<and> types_inv tab'"
    and "bool_ty tab = Some (i, tab') \<Longrightarrow> get tab' i = Some T_Bool \<and> types_inv tab'"
    and "char_ty tab = Some (i, tab') \<Longrightarrow> get tab' i = Some T_Char \<and> types_inv tab'"
    and "top_ty tab = Some (i, tab') \<Longrightarrow> get tab' i = Some T_Top \<and> types_inv tab'"
    and "bot_ty tab = Some (i, tab') \<Longrightarrow> get tab' i = Some T_Bot \<and> types_inv tab'"
    and "term_ty tab = Some (i, tab') \<Longrightarrow> get tab' i = Some T_Term \<and> types_inv tab'"
    and "str_ty tab = Some (i, tab') \<Longrightarrow> get tab' i = Some T_Str \<and> types_inv tab'"
  using cache_hit [OF assms] intern_get_new [OF assms] intern_types_inv [OF assms] cache_set assms
  unfolding unit_ty_def bool_ty_def char_ty_def top_ty_def bot_ty_def term_ty_def str_ty_def
  by (auto split: option.splits)

section \<open>Tables whose ids point backwards\<close>

text \<open>The ids in a payload, and tables in which the ids that \<open>ids\<close> selects of a type are smaller than the type's.\<close>

fun payload_ids :: "enum_payload \<Rightarrow> type_id set" where
  "payload_ids P_Unit = {}"
| "payload_ids (P_Tuple ts) = set ts"
| "payload_ids (P_Record fs) = snd ` set fs"

definition points_back :: "(ty \<Rightarrow> type_id set) \<Rightarrow> type_interner \<Rightarrow> bool" where
  "points_back ids tab \<longleftrightarrow>
     (\<forall>i t. get tab i = Some t \<longrightarrow> (\<forall>c \<in> ids t. c < i \<and> (\<exists>u. get tab c = Some u)))"

lemma new_types_points_back: "points_back ids new_types"
  by (simp add: points_back_def new_types_def get_def nth_opt_def)

text \<open>
  Building types from known ids keeps a table so: a new type gets a larger id than its components.
\<close>

lemma intern_points_back:
  assumes inv: "types_inv tab" and "points_back ids tab" and e: "intern tab t = Some (i, tab')"
    and known: "\<And>c. c \<in> ids t \<Longrightarrow> \<exists>u. get tab c = Some u"
  shows "points_back ids tab'"
  unfolding points_back_def
proof (intro allI impI ballI)
  fix j u c
  assume j: "get tab' j = Some u" and c: "c \<in> ids u"
  show "c < j \<and> (\<exists>v. get tab' c = Some v)"
  proof (cases "\<exists>w. get tab j = Some w")
    case True
    then have "get tab j = Some u" using intern_get_keeps [OF e] j by fastforce
    then show ?thesis using assms(2) c intern_get_keeps [OF e] unfolding points_back_def by blast
  next
    case False
    have len: "length (types tab) \<le> unat j - 1" "0 < unat j"
      using False j by (auto simp: get_Some_iff nth_opt_def not_less split: if_splits)
    have "types tab' = types tab \<or> types tab' = types tab @ [t]"
      using e by (auto simp: intern_def Let_def split: option.splits)
    then have "u = t" using j len by (auto simp: get_Some_iff nth_opt_Some nth_append split: if_splits)
    then obtain v where v: "get tab c = Some v" using known c by blast
    then have "c < j" using len by (auto simp: get_Some_iff nth_opt_Some word_less_nat_alt)
    then show ?thesis using intern_get_keeps [OF e v] by blast
  qed
qed

lemma points_back_fuel:
  assumes "points_back ids tab" "get tab i = Some t" "c \<in> ids t" "unat i \<le> Suc fuel"
  obtains u where "get tab c = Some u" "unat c \<le> fuel"
proof -
  have "c < i" "\<exists>u. get tab c = Some u" using assms(1-3) unfolding points_back_def by blast+
  then show ?thesis using that assms(4) by (fastforce simp: word_less_nat_alt)
qed

text \<open>The same by a walk over the entries, as concrete tables are checked.\<close>

fun all_back :: "(ty \<Rightarrow> type_id set) \<Rightarrow> nat \<Rightarrow> ty list \<Rightarrow> bool" where
  "all_back ids k [] = True"
| "all_back ids k (t # ts) \<longleftrightarrow> (\<forall>c \<in> ids t. c \<noteq> 0 \<and> unat c \<le> k) \<and> all_back ids (Suc k) ts"

lemma all_back_nth:
  "all_back ids k ts \<Longrightarrow> n < length ts \<Longrightarrow> c \<in> ids (ts ! n) \<Longrightarrow> c \<noteq> 0 \<and> unat c \<le> k + n"
proof (induction ts arbitrary: k n)
  case (Cons t ts)
  then show ?case by (cases n) fastforce+
qed simp

lemma all_back_points:
  assumes "all_back ids 0 (types tab)"
  shows "points_back ids tab"
  unfolding points_back_def
proof (intro allI impI ballI)
  fix i t c
  assume i: "get tab i = Some t" and "c \<in> ids t"
  then have "c \<noteq> 0 \<and> unat c \<le> unat i - 1" "unat i - 1 < length (types tab)" "0 < unat i"
    using all_back_nth [OF assms, of "unat i - 1" c] by (auto simp: get_Some_iff nth_opt_Some)
  moreover from this(1) have "0 < unat c" by (simp add: unat_gt_0)
  ultimately have "0 < unat c" "unat c < unat i" "unat c - 1 < length (types tab)" by linarith+
  then show "c < i \<and> (\<exists>u. get tab c = Some u)"
    by (simp add: get_Some_iff nth_opt_Some word_less_nat_alt)
qed

text \<open>A table of types given by a list, as repeated interning builds it.\<close>

definition table_of :: "ty list \<Rightarrow> type_interner" where
  "table_of ts = new_types\<lparr>types := ts\<rparr>"

lemma get_table_of: "get (table_of ts) i = (if i = 0 then None else nth_opt ts (unat (i - 1)))"
  by (simp add: get_def table_of_def type_index_def)

lemma types_table_of [simp]: "types (table_of ts) = ts"
  by (simp add: table_of_def)

end
