(* ===== verification/Layout.thy ===== *)
theory Layout
  imports Types
begin

text \<open>
  \<^verbatim>\<open>crates/paideia-as-types/src/layout.rs\<close>: size and alignment of types.  The Rust function \<^verbatim>\<open>layout_of\<close>
  follows the ids of record fields and enum payloads through the table; here its recursion is bounded
  by fuel, and \<open>Unbounded\<close> is the result when the fuel runs out.  \<open>BadId\<close> is the panic of an unknown
  id.  The additions are the plain ones of the source: they wrap, as in the release profile of the
  workspace, and a size is therefore the size of the reference layout modulo \<open>2 ^ 64\<close>.
\<close>

section \<open>Layouts\<close>

record layout =
  size_of :: u64
  alignment :: u64

datatype layout_error = BadId type_id | Unbounded

type_synonym layout_result = "layout_error + layout"

definition new_layout :: "u64 \<Rightarrow> u64 \<Rightarrow> layout" where
  "new_layout sz al = \<lparr>size_of = sz, alignment = al\<rparr>"

definition bit_width :: "type_interner \<Rightarrow> type_id \<Rightarrow> u16 option option" where
  "bit_width tab t =
     (case get tab t of
        None \<Rightarrow> None
      | Some (T_UInt n) \<Rightarrow> Some (Some (if n = 0xFFFF then 64 else n))
      | Some (T_SInt n) \<Rightarrow> Some (Some (if n = 0xFFFF then 64 else n))
      | Some _ \<Rightarrow> Some None)"

definition align_up :: "u64 \<Rightarrow> u64 \<Rightarrow> u64" where
  "align_up offset align = (if align = 0 then offset else (offset + align - 1) AND NOT (align - 1))"

text \<open>One field of a record or tuple: pad to its alignment, add its size, keep the larger alignment.\<close>

definition place :: "u64 \<times> u64 \<Rightarrow> layout \<Rightarrow> u64 \<times> u64" where
  "place acc l =
     (let (offset, max_align) = acc;
          padding = (alignment l - (offset mod alignment l)) mod alignment l;
          offset = offset + padding;
          offset = offset + size_of l
      in (offset, if alignment l > max_align then alignment l else max_align))"

text \<open>The loop over the fields; \<open>lay\<close> is the layout of a field's type.\<close>

fun place_all :: "(type_id \<Rightarrow> layout_result) \<Rightarrow> type_id list \<Rightarrow> u64 \<times> u64 \<Rightarrow> layout_error + u64 \<times> u64" where
  "place_all lay [] acc = Inr acc"
| "place_all lay (t # ts) acc =
     (case lay t of Inl e \<Rightarrow> Inl e | Inr l \<Rightarrow> place_all lay ts (place acc l))"

text \<open>The body that \<^verbatim>\<open>layout_of_record\<close> and \<^verbatim>\<open>layout_of_tuple_payload\<close> both have.\<close>

definition layout_of_fields :: "(type_id \<Rightarrow> layout_result) \<Rightarrow> type_id list \<Rightarrow> layout_result" where
  "layout_of_fields lay ts =
     (if ts = [] then Inr (new_layout 0 1)
      else case place_all lay ts (0, 1) of
        Inl e \<Rightarrow> Inl e
      | Inr (offset, max_align) \<Rightarrow>
          (let tail_padding = (max_align - (offset mod max_align)) mod max_align
           in Inr (new_layout (offset + tail_padding) max_align)))"

definition layout_of_record :: "(type_id \<Rightarrow> layout_result) \<Rightarrow> (symbol \<times> type_id) list \<Rightarrow> layout_result" where
  "layout_of_record lay fs = layout_of_fields lay (map snd fs)"

definition layout_of_tuple_payload :: "(type_id \<Rightarrow> layout_result) \<Rightarrow> type_id list \<Rightarrow> layout_result" where
  "layout_of_tuple_payload lay ts = layout_of_fields lay ts"

definition layout_of_record_payload ::
    "(type_id \<Rightarrow> layout_result) \<Rightarrow> (symbol \<times> type_id) list \<Rightarrow> layout_result" where
  "layout_of_record_payload lay fs = layout_of_record lay fs"

fun layout_of_payload :: "(type_id \<Rightarrow> layout_result) \<Rightarrow> enum_payload \<Rightarrow> layout_result" where
  "layout_of_payload lay P_Unit = Inr (new_layout 0 1)"
| "layout_of_payload lay (P_Tuple ts) = layout_of_tuple_payload lay ts"
| "layout_of_payload lay (P_Record fs) = layout_of_record_payload lay fs"

fun max_payload :: "(type_id \<Rightarrow> layout_result) \<Rightarrow> (symbol \<times> enum_payload) list \<Rightarrow> u64 \<times> u64 \<Rightarrow>
    layout_error + u64 \<times> u64" where
  "max_payload lay [] acc = Inr acc"
| "max_payload lay ((_, p) # vs) (sz, al) =
     (case layout_of_payload lay p of
        Inl e \<Rightarrow> Inl e
      | Inr l \<Rightarrow>
          max_payload lay vs
            (if size_of l > sz then size_of l else sz, if alignment l > al then alignment l else al))"

definition layout_of_enum ::
    "(type_id \<Rightarrow> layout_result) \<Rightarrow> (symbol \<times> enum_payload) list \<Rightarrow> layout_result" where
  "layout_of_enum lay variants =
     (case max_payload lay variants (0, 1) of
        Inl e \<Rightarrow> Inl e
      | Inr (max_size, max_align) \<Rightarrow>
          (let discriminant_size = 8;
               discriminant_align = 8;
               payload_offset = align_up discriminant_size max_align;
               body_end = payload_offset + max_size;
               total_align = max discriminant_align max_align
           in Inr (new_layout (align_up body_end total_align) total_align)))"

text \<open>The integer widths; every other width is laid out as 64 bits.\<close>

definition int_layout :: "u16 \<Rightarrow> layout" where
  "int_layout n =
     (if n = 16 then new_layout 2 2
      else if n = 32 then new_layout 4 4
      else if n = 64 \<or> n = 0xFFFF then new_layout 8 8
      else if n = 128 then new_layout 16 16
      else if n = 8 then new_layout 1 1
      else new_layout 8 8)"

primrec layout_of :: "nat \<Rightarrow> type_interner \<Rightarrow> type_id \<Rightarrow> layout_result" where
  "layout_of 0 tab t = Inl Unbounded"
| "layout_of (Suc fuel) tab t =
     (case get tab t of
        None \<Rightarrow> Inl (BadId t)
      | Some ty \<Rightarrow>
          (case ty of
             T_Unit \<Rightarrow> Inr (new_layout 0 1)
           | T_Bool \<Rightarrow> Inr (new_layout 1 1)
           | T_Char \<Rightarrow> Inr (new_layout 4 4)
           | T_UInt n \<Rightarrow> Inr (int_layout n)
           | T_SInt n \<Rightarrow> Inr (int_layout n)
           | T_Float n \<Rightarrow> Inr (if n = 32 then new_layout 4 4 else new_layout 8 8)
           | T_Ptr p m \<Rightarrow> Inr (new_layout 8 8)
           | T_Str \<Rightarrow> Inr (new_layout 16 8)
           | T_Record fs \<Rightarrow> layout_of_record (layout_of fuel tab) fs
           | T_Enum variants \<Rightarrow> layout_of_enum (layout_of fuel tab) variants
           | _ \<Rightarrow> Inr (new_layout 8 8)))"

section \<open>Rounding up\<close>

definition round_up :: "nat \<Rightarrow> nat \<Rightarrow> nat" where
  "round_up n a = (n + a - 1) div a * a"

lemma round_up_eq: "0 < a \<Longrightarrow> round_up n a = n + (a - n mod a) mod a"
proof -
  assume a: "0 < a"
  define q r where "q = n div a" and "r = n mod a"
  have n: "n = q * a + r" and r: "r < a" using a by (simp_all add: q_def r_def)
  show ?thesis
  proof (cases "r = 0")
    case True
    then have "(n + a - 1) div a = q"
      using n a by (intro div_nat_eqI) (simp_all add: algebra_simps)
    then show ?thesis using True n by (simp add: round_up_def flip: r_def)
  next
    case False
    have "(n + a - 1) div a = q + 1"
      using n r False by (intro div_nat_eqI) (simp_all add: algebra_simps)
    moreover have "(a - r) mod a = a - r" using r False by simp
    ultimately show ?thesis using n r by (simp add: round_up_def flip: r_def)
  qed
qed

text \<open>It is the least multiple that is large enough.\<close>

lemma round_up_least:
  assumes "0 < a"
  shows "n \<le> round_up n a" "a dvd round_up n a" "n \<le> m \<Longrightarrow> a dvd m \<Longrightarrow> round_up n a \<le> m"
proof -
  show "n \<le> round_up n a" by (simp add: round_up_eq [OF assms])
  show "a dvd round_up n a" by (simp add: round_up_def)
  assume "n \<le> m" "a dvd m"
  then obtain k where "m = k * a" by (metis dvd_div_mult_self)
  with \<open>n \<le> m\<close> assms have "(n + a - 1) div a < k + 1"
    by (intro less_mult_imp_div_less) simp
  then show "round_up n a \<le> m" using \<open>m = k * a\<close> by (simp add: round_up_def)
qed

section \<open>Well-formed layouts\<close>

definition good_align :: "u64 \<Rightarrow> bool" where
  "good_align a \<longleftrightarrow> a \<in> {1, 2, 4, 8, 16}"

definition good_layout :: "layout \<Rightarrow> bool" where
  "good_layout l \<longleftrightarrow> good_align (alignment l) \<and> unat (alignment l) dvd unat (size_of l)"

lemma good_align_unat: "good_align a \<Longrightarrow> unat a \<in> {1, 2, 4, 8, 16}"
  by (auto simp: good_align_def)

lemma good_align_pos: "good_align a \<Longrightarrow> 0 < unat a"
  by (auto simp: good_align_def)

lemma good_align_max: "good_align a \<Longrightarrow> good_align b \<Longrightarrow> good_align (max a b)"
  by (simp add: max_def)

lemma padding_unat:
  assumes "good_align a"
  shows "unat ((a - (off mod a)) mod a) = (unat a - unat off mod unat a) mod unat a"
proof -
  have "off mod a \<le> a"
    using good_align_pos [OF assms] by (simp add: word_le_nat_alt unat_mod less_imp_le)
  then show ?thesis by (simp add: unat_mod unat_sub)
qed

text \<open>Rounding up commutes with wrapping at a multiple of the alignment.\<close>

lemma round_up_shift:
  assumes "0 < a" "a dvd M"
  shows "round_up (n + k * M) a = round_up n a + k * M"
proof -
  obtain q where M: "M = q * a" using assms(2) by (metis dvd_div_mult_self)
  have "n + k * M + a - 1 = (n + a - 1) + (k * q) * a" using assms(1) by (simp add: M)
  then have "(n + k * M + a - 1) div a = (n + a - 1) div a + k * q" using assms(1) by (simp only: div_mult_self1)
  then show ?thesis by (simp add: round_up_def M algebra_simps)
qed

lemma good_align_dvd_64: "good_align a \<Longrightarrow> unat a dvd 2 ^ 64"
  using good_align_unat by fastforce

lemma of_nat_64_multiple: "(of_nat (k * 2 ^ 64) :: u64) = 0"
  by (simp add: word_of_nat_eq_0_iff del: of_nat_mult of_nat_power)

lemma unat_of_nat_64: "unat (of_nat n :: u64) = n mod 2 ^ 64"
  by (simp add: unat_of_nat)

lemma max_if: "(if a < b then b else a) = max a (b :: u64)"
  by (auto simp: max_def)

lemma of_nat_round_up:
  assumes "good_align a"
  shows "(of_nat (round_up (unat (of_nat n :: u64)) (unat a)) :: u64) = of_nat (round_up n (unat a))"
proof -
  define m k :: nat where "m = n mod 2 ^ 64" and "k = n div 2 ^ 64"
  have "n = m + k * 2 ^ 64" unfolding m_def k_def by simp
  then have "round_up n (unat a) = round_up m (unat a) + k * 2 ^ 64"
    using round_up_shift [OF good_align_pos [OF assms] good_align_dvd_64 [OF assms]] by simp
  moreover have "(of_nat (k * 2 ^ 64) :: u64) = 0"
    by (rule of_nat_64_multiple)
  moreover have "unat (of_nat n :: u64) = m" by (simp add: unat_of_nat m_def)
  ultimately show ?thesis by simp
qed

lemma and_not_mask: "x AND NOT (2 ^ k - 1) = (push_bit k (drop_bit k x) :: u64)"
proof -
  have "x AND NOT (mask k) = (push_bit k (drop_bit k x) :: u64)"
    by (rule bit_eqI) (auto simp: bit_simps)
  then show ?thesis by (simp add: mask_eq_exp_minus_1)
qed

text \<open>The bit trick of \<^verbatim>\<open>align_up\<close> rounds up, for the alignments that occur.\<close>

lemma align_up_eq:
  assumes "good_align a"
  shows "align_up off a = of_nat (round_up (unat off) (unat a))"
proof -
  obtain k where k: "a = 2 ^ k" "k \<le> 4"
    using assms by (auto simp: good_align_def intro: that [of 0] that [of 1] that [of 2] that [of 3] that [of 4])
  then have "k \<in> {0, 1, 2, 3, 4}" by auto
  then have ua: "unat a = 2 ^ k" using k(1) by auto
  define n m c :: nat where "n = unat off + unat a - 1" and "m = n mod 2 ^ 64" and "c = n div 2 ^ 64"
  have "(of_nat n :: u64) = off + a - 1"
    using good_align_pos [OF assms] by (simp add: n_def of_nat_diff)
  then have m: "unat (off + a - 1) = m" by (metis m_def unat_of_nat_64)
  have "drop_bit k (off + a - 1) = (of_nat (unat (drop_bit k (off + a - 1))) :: u64)" by simp
  also have "unat (drop_bit k (off + a - 1)) = m div 2 ^ k"
    by (subst unsigned_drop_bit_eq) (simp add: m drop_bit_eq_div take_bit_eq_mod m_def)
  finally have "align_up off a = of_nat (m div 2 ^ k * 2 ^ k)"
    using k good_align_pos [OF assms] by (auto simp: align_up_def and_not_mask push_bit_eq_mult)
  moreover have "n div 2 ^ k * 2 ^ k = m div 2 ^ k * 2 ^ k + c * 2 ^ 64"
  proof -
    obtain q :: nat where q: "(2 :: nat) ^ 64 = q * 2 ^ k"
      using good_align_dvd_64 [OF assms] ua by (metis dvd_div_mult_self)
    have "n = m + (c * q) * 2 ^ k" using q by (simp add: m_def c_def mult.assoc flip: q)
    then have "n div 2 ^ k = c * q + m div 2 ^ k" by (simp only: div_mult_self1 power_not_zero zero_neq_numeral not_False_eq_True)
    then show ?thesis using q by (simp add: algebra_simps)
  qed
  moreover have "(of_nat (c * 2 ^ 64) :: u64) = 0"
    by (rule of_nat_64_multiple)
  ultimately have "align_up off a = of_nat (n div 2 ^ k * 2 ^ k)" by (simp only: of_nat_add add_0_right)
  then show ?thesis by (simp only: round_up_def ua n_def)
qed

section \<open>Records and tuples\<close>

text \<open>The reference: natural numbers, fields one after the other, each at a multiple of its alignment.\<close>

fun span :: "layout list \<Rightarrow> nat \<Rightarrow> nat" where
  "span [] off = off"
| "span (l # ls) off = span ls (round_up off (unat (alignment l)) + unat (size_of l))"

definition max_alignment :: "u64 \<Rightarrow> layout list \<Rightarrow> u64" where
  "max_alignment m ls = fold (\<lambda>l m. max m (alignment l)) ls m"

lemma max_alignment_simps [simp]:
  "max_alignment m [] = m" "max_alignment m (l # ls) = max_alignment (max m (alignment l)) ls"
  by (simp_all add: max_alignment_def)

lemma pad_eq:
  assumes "good_align a"
  shows "of_nat n + (a - (of_nat n mod a)) mod a = (of_nat (round_up n (unat a)) :: u64)"
proof -
  let ?off = "of_nat n :: u64"
  have "unat ?off + unat ((a - (?off mod a)) mod a) = round_up (unat ?off) (unat a)"
    using padding_unat [OF assms] round_up_eq [OF good_align_pos [OF assms]] by simp
  from arg_cong [OF this, of "of_nat :: nat \<Rightarrow> u64"] show ?thesis
    using of_nat_round_up [OF assms] by simp
qed

lemma place_eq:
  assumes "good_layout l"
  shows "place (of_nat n, m) l =
    (of_nat (round_up n (unat (alignment l)) + unat (size_of l)), max m (alignment l))"
  using pad_eq [of "alignment l" n] assms by (simp add: place_def Let_def good_layout_def max_if)

lemma place_all_eq:
  assumes "\<And>t. t \<in> set ts \<Longrightarrow> lay t = Inr (l t) \<and> good_layout (l t)"
  shows "place_all lay ts (of_nat n, m) = Inr (of_nat (span (map l ts) n), max_alignment m (map l ts))"
  using assms by (induction ts arbitrary: n m) (simp_all add: place_eq del: of_nat_add)

lemma max_alignment_good:
  "good_align m \<Longrightarrow> list_all good_layout ls \<Longrightarrow> good_align (max_alignment m ls)"
  by (induction ls arbitrary: m) (simp_all add: good_align_max good_layout_def)

lemma max_alignment_ge: "m \<le> max_alignment m ls" "l \<in> set ls \<Longrightarrow> alignment l \<le> max_alignment m ls"
proof -
  have *: "m \<le> max_alignment m ls" for m ls
    by (induction ls arbitrary: m) (simp, metis max.bounded_iff max_alignment_simps(2))
  then show "m \<le> max_alignment m ls" .
  show "l \<in> set ls \<Longrightarrow> alignment l \<le> max_alignment m ls"
    by (induction ls arbitrary: m) (use * in \<open>auto intro: order_trans [OF max.cobounded2]\<close>)
qed

text \<open>A record is laid out as the reference says, modulo \<open>2 ^ 64\<close>.\<close>

definition reference_size :: "layout list \<Rightarrow> nat" where
  "reference_size ls = round_up (span ls 0) (unat (max_alignment 1 ls))"

lemma layout_of_fields_eq:
  assumes "\<And>t. t \<in> set ts \<Longrightarrow> lay t = Inr (l t) \<and> good_layout (l t)"
  shows "layout_of_fields lay ts =
    Inr (new_layout (of_nat (reference_size (map l ts))) (max_alignment 1 (map l ts)))"
proof -
  have "good_align (max_alignment 1 (map l ts))"
    using assms by (intro max_alignment_good) (simp_all add: good_align_def list_all_iff)
  then show ?thesis
    using place_all_eq [of ts lay l 0 1, OF assms] pad_eq
    by (auto simp: layout_of_fields_def reference_size_def round_up_def Let_def)
qed

section \<open>Results that can occur\<close>

text \<open>A well-formed layout: no panic and no unbounded recursion.\<close>

definition fine :: "layout_result \<Rightarrow> bool" where
  "fine r \<longleftrightarrow> (case r of Inl e \<Rightarrow> False | Inr l \<Rightarrow> good_layout l)"

lemma fine_simps [simp]: "\<not> fine (Inl e)" "fine (Inr l) \<longleftrightarrow> good_layout l"
  by (simp_all add: fine_def)

lemma fine_layout: "fine r \<Longrightarrow> r = Inr (projr r) \<and> good_layout (projr r)"
  by (cases r) auto

lemma good_rounded:
  assumes "good_align a"
  shows "good_layout (new_layout (of_nat (round_up n (unat a))) a)"
  using assms round_up_least(2) [OF good_align_pos [OF assms]] good_align_dvd_64 [OF assms]
  by (simp add: good_layout_def new_layout_def unat_of_nat dvd_mod)

lemma layout_of_fields_fine:
  assumes "\<And>t. t \<in> set ts \<Longrightarrow> fine (lay t)"
  shows "fine (layout_of_fields lay ts)"
proof -
  have l: "lay t = Inr (projr (lay t)) \<and> good_layout (projr (lay t))" if "t \<in> set ts" for t
    by (rule fine_layout [OF assms [OF that]])
  then have "good_align (max_alignment 1 (map (\<lambda>t. projr (lay t)) ts))"
    by (intro max_alignment_good) (simp_all add: good_align_def list_all_iff)
  then show ?thesis
    using good_rounded by (simp add: layout_of_fields_eq [of ts lay "\<lambda>t. projr (lay t)", OF l] reference_size_def)
qed

lemma layout_of_payload_fine:
  "(\<And>t. t \<in> payload_ids p \<Longrightarrow> fine (lay t)) \<Longrightarrow> fine (layout_of_payload lay p)"
  by (cases p) (auto simp: layout_of_tuple_payload_def layout_of_record_payload_def
      layout_of_record_def good_layout_def new_layout_def good_align_def intro!: layout_of_fields_fine)

section \<open>Enums\<close>

text \<open>The loop finds the largest payload and the strictest alignment.\<close>

definition max_size :: "u64 \<Rightarrow> layout list \<Rightarrow> u64" where
  "max_size m ls = fold (\<lambda>l m. max m (size_of l)) ls m"

lemma max_size_simps [simp]:
  "max_size m [] = m" "max_size m (l # ls) = max_size (max m (size_of l)) ls"
  by (simp_all add: max_size_def)

lemma max_size_ge: "m \<le> max_size m ls" "l \<in> set ls \<Longrightarrow> size_of l \<le> max_size m ls"
proof -
  have *: "m \<le> max_size m ls" for m ls
    by (induction ls arbitrary: m) (simp, metis max.bounded_iff max_size_simps(2))
  then show "m \<le> max_size m ls" .
  show "l \<in> set ls \<Longrightarrow> size_of l \<le> max_size m ls"
    by (induction ls arbitrary: m) (use * in \<open>auto intro: order_trans [OF max.cobounded2]\<close>)
qed

lemma max_payload_eq:
  assumes "\<And>n p. (n, p) \<in> set vs \<Longrightarrow> layout_of_payload lay p = Inr (q p)"
  shows "max_payload lay vs (sz, al) =
    Inr (max_size sz (map (\<lambda>v. q (snd v)) vs), max_alignment al (map (\<lambda>v. q (snd v)) vs))"
  using assms
proof (induction vs arbitrary: sz al)
  case (Cons v vs)
  obtain n p where v: "v = (n, p)" by (cases v)
  have "max_payload lay (v # vs) (sz, al) = max_payload lay vs (max sz (size_of (q p)), max al (alignment (q p)))"
    using Cons.prems [of n p] by (simp add: v max_if)
  also have "\<dots> = Inr (max_size (max sz (size_of (q p))) (map (\<lambda>v. q (snd v)) vs),
      max_alignment (max al (alignment (q p))) (map (\<lambda>v. q (snd v)) vs))"
    by (rule Cons.IH) (rule Cons.prems, rule list.set_intros(2))
  finally show ?case by (simp add: v)
qed simp

text \<open>The reference: the payload at the first multiple of its alignment after the tag of eight bytes.\<close>

definition payload_offset :: "layout list \<Rightarrow> nat" where
  "payload_offset qs = round_up 8 (unat (max_alignment 1 qs))"

definition enum_reference_size :: "layout list \<Rightarrow> nat" where
  "enum_reference_size qs =
     round_up (payload_offset qs + unat (max_size 0 qs)) (unat (max 8 (max_alignment 1 qs)))"

lemma layout_of_enum_eq:
  assumes "\<And>n p. (n, p) \<in> set vs \<Longrightarrow> layout_of_payload lay p = Inr (q p) \<and> good_layout (q p)"
  shows "layout_of_enum lay vs =
    Inr (new_layout (of_nat (enum_reference_size (map (\<lambda>v. q (snd v)) vs)))
      (max 8 (max_alignment 1 (map (\<lambda>v. q (snd v)) vs))))"
proof -
  let ?qs = "map (\<lambda>v. q (snd v)) vs"
  have al: "good_align (max_alignment 1 ?qs)"
    using assms by (intro max_alignment_good) (auto simp: good_align_def list_all_iff)
  then have m: "good_align (max 8 (max_alignment 1 ?qs))"
    by (intro good_align_max) (simp_all add: good_align_def)
  have "align_up 8 (max_alignment 1 ?qs) = of_nat (payload_offset ?qs)"
    using align_up_eq [OF al, of 8] by (simp add: payload_offset_def)
  then have "align_up 8 (max_alignment 1 ?qs) + max_size 0 ?qs = of_nat (payload_offset ?qs + unat (max_size 0 ?qs))"
    by simp
  then have "align_up (align_up 8 (max_alignment 1 ?qs) + max_size 0 ?qs) (max 8 (max_alignment 1 ?qs)) =
    of_nat (enum_reference_size ?qs)"
    using of_nat_round_up [OF m] by (simp only: align_up_eq [OF m] enum_reference_size_def)
  moreover have "max_payload lay vs (0, 1) = Inr (max_size 0 ?qs, max_alignment 1 ?qs)"
    by (rule max_payload_eq) (use assms in blast)
  ultimately show ?thesis by (simp add: layout_of_enum_def Let_def)
qed

lemma layout_of_enum_fine:
  assumes "\<And>n p t. (n, p) \<in> set vs \<Longrightarrow> t \<in> payload_ids p \<Longrightarrow> fine (lay t)"
  shows "fine (layout_of_enum lay vs)"
proof -
  let ?q = "\<lambda>p. projr (layout_of_payload lay p)"
  have q: "layout_of_payload lay p = Inr (?q p) \<and> good_layout (?q p)" if "(n, p) \<in> set vs" for n p
    by (rule fine_layout [OF layout_of_payload_fine]) (rule assms [OF that])
  then have "good_align (max_alignment 1 (map (\<lambda>v. ?q (snd v)) vs))"
    by (intro max_alignment_good) (force simp: good_align_def list_all_iff)+
  then have "good_align (max 8 (max_alignment 1 (map (\<lambda>v. ?q (snd v)) vs)))"
    by (intro good_align_max) (simp_all add: good_align_def)
  then show ?thesis
    using good_rounded layout_of_enum_eq [of vs lay ?q, OF q] by (simp add: enum_reference_size_def)
qed

lemma good_align_dvd:
  assumes "good_align a" "good_align b" "a \<le> b"
  shows "unat a dvd unat b"
  using good_align_unat [OF assms(1)] good_align_unat [OF assms(2)] assms(3)
  by (auto simp: word_le_nat_alt)

text \<open>
  The payload of every variant fits behind the discriminant at an offset its alignment allows.
\<close>

lemma payload_fits:
  assumes "\<And>l. l \<in> set qs \<Longrightarrow> good_layout l" "l \<in> set qs"
  shows "8 \<le> payload_offset qs" "unat (alignment l) dvd payload_offset qs"
    and "payload_offset qs + unat (size_of l) \<le> enum_reference_size qs"
    and "alignment l \<le> max 8 (max_alignment 1 qs)"
proof -
  have al: "good_align (max_alignment 1 qs)"
    using assms(1) by (intro max_alignment_good) (auto simp: good_align_def list_all_iff)
  then have m: "good_align (max 8 (max_alignment 1 qs))"
    by (intro good_align_max) (simp_all add: good_align_def)
  show "8 \<le> payload_offset qs" "alignment l \<le> max 8 (max_alignment 1 qs)"
    using round_up_least(1) [OF good_align_pos [OF al]] max_alignment_ge(2) [OF assms(2)]
    by (simp_all add: payload_offset_def max.coboundedI2)
  have "unat (alignment l) dvd unat (max_alignment 1 qs)"
    using good_align_dvd al assms max_alignment_ge(2) [OF assms(2)] by (simp add: good_layout_def)
  then show "unat (alignment l) dvd payload_offset qs"
    using round_up_least(2) [OF good_align_pos [OF al]] dvd_trans unfolding payload_offset_def by blast
  have "unat (size_of l) \<le> unat (max_size 0 qs)"
    using max_size_ge(2) [OF assms(2)] by (simp add: word_le_nat_alt)
  then show "payload_offset qs + unat (size_of l) \<le> enum_reference_size qs"
    using round_up_least(1) [OF good_align_pos [OF m], of "payload_offset qs + unat (max_size 0 qs)"]
    by (simp add: enum_reference_size_def)
qed

section \<open>Layout of every type of a table\<close>

text \<open>The ids that \<open>layout_of\<close> follows, and tables in which they point backwards.\<close>

fun layout_ids :: "ty \<Rightarrow> type_id set" where
  "layout_ids (T_Record fs) = snd ` set fs"
| "layout_ids (T_Enum vs) = (\<Union>v \<in> set vs. payload_ids (snd v))"
| "layout_ids _ = {}"

abbreviation backward :: "type_interner \<Rightarrow> bool" where
  "backward \<equiv> points_back layout_ids"

lemma layout_of_fine:
  assumes "backward tab" "get tab t = Some ty" "unat t \<le> fuel"
  shows "fine (layout_of fuel tab t)"
  using assms(2,3)
proof (induction fuel arbitrary: t ty)
  case 0
  then show ?case by (simp add: get_Some_iff)
next
  case (Suc fuel)
  have IH: "fine (layout_of fuel tab c)" if "c \<in> layout_ids ty" for c
    using points_back_fuel [OF assms(1) Suc.prems(1) that Suc.prems(2)] Suc.IH by metis
  have small: "good_layout (new_layout s a)" if "(s, a) \<in> {(0, 1), (1, 1), (2, 2), (4, 4), (8, 8), (16, 16), (16, 8)}" for s a
    using that by (auto simp: good_layout_def new_layout_def good_align_def)
  show ?case
  proof (cases ty)
    case (T_Record fs)
    then show ?thesis
      using Suc.prems(1) IH by (simp add: layout_of_record_def) (rule layout_of_fields_fine, auto)
  next
    case (T_Enum vs)
    then have "fine (layout_of_enum (layout_of fuel tab) vs)"
      using IH by (intro layout_of_enum_fine) force
    then show ?thesis using Suc.prems(1) T_Enum by simp
  qed (simp_all add: Suc.prems(1) small int_layout_def)
qed

text \<open>More fuel does not change a result.\<close>

lemma layout_of_fields_cong:
  assumes "\<And>t. t \<in> set ts \<Longrightarrow> lay t = lay' t"
  shows "layout_of_fields lay ts = layout_of_fields lay' ts"
proof -
  have "place_all lay ts acc = place_all lay' ts acc" for acc
    using assms by (induction ts arbitrary: acc) (auto split: sum.splits)
  then show ?thesis by (simp add: layout_of_fields_def)
qed

lemma layout_of_enum_cong:
  assumes "\<And>n p t. (n, p) \<in> set vs \<Longrightarrow> t \<in> payload_ids p \<Longrightarrow> lay t = lay' t"
  shows "layout_of_enum lay vs = layout_of_enum lay' vs"
proof -
  have pay: "layout_of_payload lay p = layout_of_payload lay' p"
    if "\<And>t. t \<in> payload_ids p \<Longrightarrow> lay t = lay' t" for p
    using that by (cases p) (auto simp: layout_of_tuple_payload_def layout_of_record_payload_def
        layout_of_record_def intro!: layout_of_fields_cong)
  have "max_payload lay vs acc = max_payload lay' vs acc" for acc
    using assms
  proof (induction vs arbitrary: acc)
    case (Cons v vs)
    obtain n p where v: "v = (n, p)" by (cases v)
    have "layout_of_payload lay p = layout_of_payload lay' p"
      using Cons.prems v by (intro pay) auto
    moreover have "max_payload lay vs acc = max_payload lay' vs acc" for acc
      by (rule Cons.IH) (rule Cons.prems, rule list.set_intros(2))
    ultimately show ?case using v by (cases acc) (simp split: sum.splits)
  qed simp
  then show ?thesis by (simp add: layout_of_enum_def)
qed

lemma layout_of_fuel:
  assumes "backward tab" "get tab t = Some ty" "unat t \<le> fuel" "fuel \<le> fuel'"
  shows "layout_of fuel' tab t = layout_of fuel tab t"
  using assms(2-4)
proof (induction fuel arbitrary: t ty fuel')
  case 0
  then show ?case by (simp add: get_Some_iff)
next
  case (Suc fuel)
  then obtain more where more: "fuel' = Suc more" "fuel \<le> more" by (cases fuel') auto
  have IH: "layout_of more tab c = layout_of fuel tab c" if "c \<in> layout_ids ty" for c
    using points_back_fuel [OF assms(1) Suc.prems(1) that Suc.prems(2)] Suc.IH more(2) by metis
  have "layout_of_fields (layout_of more tab) (map snd fs) = layout_of_fields (layout_of fuel tab) (map snd fs)"
    if "ty = T_Record fs" for fs
    using IH that by (intro layout_of_fields_cong) auto
  moreover have "layout_of_enum (layout_of more tab) vs = layout_of_enum (layout_of fuel tab) vs"
    if "ty = T_Enum vs" for vs
    using IH that by (intro layout_of_enum_cong) force
  ultimately show ?case
    using Suc.prems(1) more(1) by (cases ty) (simp_all add: layout_of_record_def)
qed

end
