(* ===== verification/Sessions.thy ===== *)
theory Sessions
  imports Prelude
begin

text \<open>
  \<^verbatim>\<open>crates/paideia-as-types/src/session.rs\<close> and \<^verbatim>\<open>session_rec.rs\<close>: session types, duality, the two
  well-formedness checks, and what they guarantee: a protocol that passes both never gets stuck and
  never unfolds without communicating.
\<close>

section \<open>Session types\<close>

datatype session =
  S_End
| S_Var string
| S_Send string session
| S_Recv string session
| S_Seq session session
| S_Branch "(string \<times> session) list"
| S_Choice "(string \<times> session) list"
| S_Rec string session

fun dual :: "session \<Rightarrow> session"
  and dual_arms :: "(string \<times> session) list \<Rightarrow> (string \<times> session) list" where
  "dual S_End = S_End"
| "dual (S_Var x) = S_Var x"
| "dual (S_Send p c) = S_Recv p (dual c)"
| "dual (S_Recv p c) = S_Send p (dual c)"
| "dual (S_Seq a b) = S_Seq (dual a) (dual b)"
| "dual (S_Branch arms) = S_Choice (dual_arms arms)"
| "dual (S_Choice arms) = S_Branch (dual_arms arms)"
| "dual (S_Rec x body) = S_Rec x (dual body)"
| "dual_arms [] = []"
| "dual_arms ((l, s) # arms) = (l, dual s) # dual_arms arms"

section \<open>Syntactic well-formedness\<close>

datatype session_wf_error =
  EmptyChoice
| DuplicateLabel string
| EmptyPayload
| UnboundVar string

text \<open>
  \<^verbatim>\<open>wf_rec\<close> threads a mutable set of bound names and takes a name out again when it leaves the binder
  that put it in.
\<close>

type_synonym wf_result = "(session_wf_error + unit) \<times> string set"

fun wf_rec :: "session \<Rightarrow> string set \<Rightarrow> wf_result"
  and wf_arms :: "(string \<times> session) list \<Rightarrow> string set \<Rightarrow> string set \<Rightarrow> wf_result" where
  "wf_rec S_End env = (Inr (), env)"
| "wf_rec (S_Var x) env = (if x \<in> env then (Inr (), env) else (Inl (UnboundVar x), env))"
| "wf_rec (S_Send p c) env = (if p = [] then (Inl EmptyPayload, env) else wf_rec c env)"
| "wf_rec (S_Recv p c) env = (if p = [] then (Inl EmptyPayload, env) else wf_rec c env)"
| "wf_rec (S_Seq a b) env =
     (case wf_rec a env of (Inl e, env) \<Rightarrow> (Inl e, env) | (Inr u, env) \<Rightarrow> wf_rec b env)"
| "wf_rec (S_Branch arms) env = (if arms = [] then (Inl EmptyChoice, env) else wf_arms arms {} env)"
| "wf_rec (S_Choice arms) env = (if arms = [] then (Inl EmptyChoice, env) else wf_arms arms {} env)"
| "wf_rec (S_Rec x body) env =
     (let fresh = (x \<notin> env);
          env = insert x env;
          (result, env) = wf_rec body env
      in if fresh then (result, env - {x}) else (result, env))"
| "wf_arms [] seen env = (Inr (), env)"
| "wf_arms ((label, arm) # arms) seen env =
     (if label \<in> seen then (Inl (DuplicateLabel label), env)
      else case wf_rec arm env of
        (Inl e, env) \<Rightarrow> (Inl e, env)
      | (Inr u, env) \<Rightarrow> wf_arms arms (insert label seen) env)"

definition wf_session_with_env :: "session \<Rightarrow> string list \<Rightarrow> session_wf_error + unit" where
  "wf_session_with_env s outer = fst (wf_rec s (set outer))"

definition wf_session :: "session \<Rightarrow> session_wf_error + unit" where
  "wf_session s = wf_session_with_env s []"

section \<open>Guarded recursion\<close>

datatype rec_err = UnguardedRecursion string | ShadowedByOuterBinder string

fun must_traverse_action :: "session \<Rightarrow> bool" where
  "must_traverse_action S_End \<longleftrightarrow> False"
| "must_traverse_action (S_Var x) \<longleftrightarrow> False"
| "must_traverse_action (S_Send p c) \<longleftrightarrow> True"
| "must_traverse_action (S_Recv p c) \<longleftrightarrow> True"
| "must_traverse_action (S_Seq a b) \<longleftrightarrow> must_traverse_action a \<or> must_traverse_action b"
| "must_traverse_action (S_Branch arms) \<longleftrightarrow> arms \<noteq> []"
| "must_traverse_action (S_Choice arms) \<longleftrightarrow> arms \<noteq> []"
| "must_traverse_action (S_Rec x body) \<longleftrightarrow> must_traverse_action body"

fun check_guarded :: "string \<Rightarrow> session \<Rightarrow> bool \<Rightarrow> bool" where
  "check_guarded x S_End saw_action \<longleftrightarrow> True"
| "check_guarded x (S_Var y) saw_action \<longleftrightarrow> y \<noteq> x \<or> saw_action"
| "check_guarded x (S_Send p c) saw_action \<longleftrightarrow> check_guarded x c True"
| "check_guarded x (S_Recv p c) saw_action \<longleftrightarrow> check_guarded x c True"
| "check_guarded x (S_Seq a b) saw_action \<longleftrightarrow>
     (let after_a = (saw_action \<or> must_traverse_action a)
      in check_guarded x a saw_action \<and> check_guarded x b after_a)"
| "check_guarded x (S_Branch arms) saw_action \<longleftrightarrow> list_all (\<lambda>(l, arm). check_guarded x arm True) arms"
| "check_guarded x (S_Choice arms) saw_action \<longleftrightarrow> list_all (\<lambda>(l, arm). check_guarded x arm True) arms"
| "check_guarded x (S_Rec y body) saw_action \<longleftrightarrow> (if y = x then True else check_guarded x body saw_action)"

fun has_free_var :: "session \<Rightarrow> string \<Rightarrow> bool" where
  "has_free_var S_End x \<longleftrightarrow> False"
| "has_free_var (S_Var y) x \<longleftrightarrow> y = x"
| "has_free_var (S_Send p c) x \<longleftrightarrow> has_free_var c x"
| "has_free_var (S_Recv p c) x \<longleftrightarrow> has_free_var c x"
| "has_free_var (S_Seq a b) x \<longleftrightarrow> has_free_var a x \<or> has_free_var b x"
| "has_free_var (S_Branch arms) x \<longleftrightarrow> list_ex (\<lambda>(l, arm). has_free_var arm x) arms"
| "has_free_var (S_Choice arms) x \<longleftrightarrow> list_ex (\<lambda>(l, arm). has_free_var arm x) arms"
| "has_free_var (S_Rec y body) x \<longleftrightarrow> (if y = x then False else has_free_var body x)"

fun check_all_binders :: "session \<Rightarrow> string list \<Rightarrow> rec_err + unit"
  and check_arms :: "(string \<times> session) list \<Rightarrow> string list \<Rightarrow> rec_err + unit" where
  "check_all_binders S_End outer = Inr ()"
| "check_all_binders (S_Var x) outer = Inr ()"
| "check_all_binders (S_Send p c) outer = check_all_binders c outer"
| "check_all_binders (S_Recv p c) outer = check_all_binders c outer"
| "check_all_binders (S_Seq a b) outer =
     (case check_all_binders a outer of Inl e \<Rightarrow> Inl e | Inr u \<Rightarrow> check_all_binders b outer)"
| "check_all_binders (S_Branch arms) outer = check_arms arms outer"
| "check_all_binders (S_Choice arms) outer = check_arms arms outer"
| "check_all_binders (S_Rec x body) outer =
     (if x \<in> set outer \<and> has_free_var body x then Inl (ShadowedByOuterBinder x)
      else if \<not> check_guarded x body False then Inl (UnguardedRecursion x)
      else check_all_binders body (outer @ [x]))"
| "check_arms [] outer = Inr ()"
| "check_arms ((l, arm) # arms) outer =
     (case check_all_binders arm outer of Inl e \<Rightarrow> Inl e | Inr u \<Rightarrow> check_arms arms outer)"

definition wf_recursive :: "session \<Rightarrow> rec_err + unit" where
  "wf_recursive s = check_all_binders s []"

section \<open>Duality\<close>

lemma dual_arms_map: "dual_arms arms = map (map_prod id dual) arms"
  by (induction arms) auto

lemma dual_dual [simp]: "dual (dual s) = s"
  and dual_dual_arms [simp]: "dual_arms (dual_arms arms) = arms"
  by (induction s and arms rule: dual_dual_arms.induct) simp_all

lemma has_free_var_dual [simp]: "has_free_var (dual s) x = has_free_var s x"
  and "list_ex (\<lambda>(l, arm). has_free_var arm x) (dual_arms arms) = list_ex (\<lambda>(l, arm). has_free_var arm x) arms"
  by (induction s and arms rule: dual_dual_arms.induct) simp_all

lemma must_traverse_action_dual [simp]: "must_traverse_action (dual s) = must_traverse_action s"
  by (induction s) (simp_all add: dual_arms_map)

lemma check_guarded_dual [simp]: "check_guarded x (dual s) b = check_guarded x s b"
  by (induction x s b rule: check_guarded.induct)
    (auto simp: dual_arms_map list_all_iff Let_def)

lemma wf_rec_dual [simp]: "wf_rec (dual s) env = wf_rec s env"
  and wf_arms_dual [simp]: "wf_arms (dual_arms arms) seen env = wf_arms arms seen env"
  by (induction s env and arms seen env rule: wf_rec_wf_arms.induct)
    (auto simp: dual_arms_map split: sum.splits prod.splits)

lemma check_all_binders_dual [simp]: "check_all_binders (dual s) outer = check_all_binders s outer"
  and check_arms_dual [simp]: "check_arms (dual_arms arms) outer = check_arms arms outer"
  by (induction s outer and arms outer rule: check_all_binders_check_arms.induct)
    (simp_all split: sum.splits)

section \<open>What the checks establish\<close>

text \<open>The set of bound names is the same after the check as before.\<close>

lemma wf_rec_env [simp]: "snd (wf_rec s env) = env"
  and wf_arms_env [simp]: "snd (wf_arms arms seen env) = env"
proof (induction s env and arms seen env rule: wf_rec_wf_arms.induct)
  case (8 x body env)
  have "snd (wf_rec body (insert x env)) = insert x env" by (rule 8) simp_all
  then show ?case by (cases "wf_rec body (insert x env)") (auto simp: Let_def)
qed (auto split: sum.splits prod.splits)

lemma wf_rec_env_eq: "wf_rec s env = (r, env') \<Longrightarrow> env' = env"
  using wf_rec_env [of s env] by simp

lemma wf_rec_ok:
  "fst (wf_rec (S_Seq a b) env) = Inr u \<longleftrightarrow> fst (wf_rec a env) = Inr u \<and> fst (wf_rec b env) = Inr u"
  "fst (wf_rec (S_Rec x body) env) = Inr u \<longleftrightarrow> fst (wf_rec body (insert x env)) = Inr u"
  "fst (wf_arms ((label, arm) # arms) seen env) = Inr u \<longleftrightarrow> label \<notin> seen \<and>
     fst (wf_rec arm env) = Inr u \<and> fst (wf_arms arms (insert label seen) env) = Inr u"
  by (auto simp: Let_def split: sum.splits prod.splits dest!: wf_rec_env_eq)

text \<open>Every choice has an arm, and every binder is guarded, at every depth.\<close>

fun arms_nonempty :: "session \<Rightarrow> bool" where
  "arms_nonempty (S_Send p c) \<longleftrightarrow> arms_nonempty c"
| "arms_nonempty (S_Recv p c) \<longleftrightarrow> arms_nonempty c"
| "arms_nonempty (S_Seq a b) \<longleftrightarrow> arms_nonempty a \<and> arms_nonempty b"
| "arms_nonempty (S_Branch arms) \<longleftrightarrow> arms \<noteq> [] \<and> list_all (\<lambda>(l, arm). arms_nonempty arm) arms"
| "arms_nonempty (S_Choice arms) \<longleftrightarrow> arms \<noteq> [] \<and> list_all (\<lambda>(l, arm). arms_nonempty arm) arms"
| "arms_nonempty (S_Rec x body) \<longleftrightarrow> arms_nonempty body"
| "arms_nonempty _ \<longleftrightarrow> True"

fun guarded :: "session \<Rightarrow> bool" where
  "guarded (S_Send p c) \<longleftrightarrow> guarded c"
| "guarded (S_Recv p c) \<longleftrightarrow> guarded c"
| "guarded (S_Seq a b) \<longleftrightarrow> guarded a \<and> guarded b"
| "guarded (S_Branch arms) \<longleftrightarrow> list_all (\<lambda>(l, arm). guarded arm) arms"
| "guarded (S_Choice arms) \<longleftrightarrow> list_all (\<lambda>(l, arm). guarded arm) arms"
| "guarded (S_Rec x body) \<longleftrightarrow> check_guarded x body False \<and> guarded body"
| "guarded _ \<longleftrightarrow> True"

definition closed :: "session \<Rightarrow> bool" where
  "closed s \<longleftrightarrow> (\<forall>x. \<not> has_free_var s x)"

lemma wf_rec_Inr:
  "fst (wf_rec s env) = Inr u \<Longrightarrow> arms_nonempty s \<and> (\<forall>x. has_free_var s x \<longrightarrow> x \<in> env)"
  and wf_arms_Inr: "fst (wf_arms arms seen env) = Inr u \<Longrightarrow>
    list_all (\<lambda>(l, arm). arms_nonempty arm \<and> (\<forall>x. has_free_var arm x \<longrightarrow> x \<in> env)) arms"
proof (induction s and arms arbitrary: env and seen env rule: dual_dual_arms.induct)
  case (5 a b)
  then show ?case by (simp del: wf_rec.simps add: wf_rec_ok) blast
next
  case (8 x body)
  then show ?case by (simp del: wf_rec.simps add: wf_rec_ok) blast
next
  case (10 l s arms)
  then show ?case by (simp del: wf_arms.simps add: wf_rec_ok) blast
qed (fastforce simp: list_all_iff list_ex_iff split: if_splits)+

lemma check_all_binders_Inr: "check_all_binders s outer = Inr u \<Longrightarrow> guarded s"
  and check_arms_Inr: "check_arms arms outer = Inr u \<Longrightarrow> list_all (\<lambda>(l, arm). guarded arm) arms"
  by (induction s outer and arms outer arbitrary: u and u rule: check_all_binders_check_arms.induct)
    (auto split: sum.splits if_splits)

section \<open>Unfolding\<close>

text \<open>
  The operational reading on which the module's documentation rests: a recursive session is its
  body with the session itself for the variable.  The session put in is closed, so no capture can
  occur.
\<close>

fun unfold_in :: "string \<Rightarrow> session \<Rightarrow> session \<Rightarrow> session" where
  "unfold_in x t S_End = S_End"
| "unfold_in x t (S_Var y) = (if y = x then t else S_Var y)"
| "unfold_in x t (S_Send p c) = S_Send p (unfold_in x t c)"
| "unfold_in x t (S_Recv p c) = S_Recv p (unfold_in x t c)"
| "unfold_in x t (S_Seq a b) = S_Seq (unfold_in x t a) (unfold_in x t b)"
| "unfold_in x t (S_Branch arms) = S_Branch (map (\<lambda>(l, arm). (l, unfold_in x t arm)) arms)"
| "unfold_in x t (S_Choice arms) = S_Choice (map (\<lambda>(l, arm). (l, unfold_in x t arm)) arms)"
| "unfold_in x t (S_Rec y body) = (if y = x then S_Rec y body else S_Rec y (unfold_in x t body))"

datatype outcome = Finished | Acts | Stuck string

text \<open>What a session does first; \<open>None\<close> when the fuel does not suffice to find out.\<close>

fun head :: "nat \<Rightarrow> session \<Rightarrow> outcome option" where
  "head 0 s = None"
| "head (Suc n) S_End = Some Finished"
| "head (Suc n) (S_Var x) = Some (Stuck x)"
| "head (Suc n) (S_Seq a b) =
     (case head n a of Some Finished \<Rightarrow> head n b | r \<Rightarrow> r)"
| "head (Suc n) (S_Rec x body) = head n (unfold_in x (S_Rec x body) body)"
| "head (Suc n) (S_Branch arms) = Some (if arms = [] then Stuck [] else Acts)"
| "head (Suc n) (S_Choice arms) = Some (if arms = [] then Stuck [] else Acts)"
| "head (Suc n) _ = Some Acts"

text \<open>How much of a session is reached before its first action.\<close>

fun head_size :: "session \<Rightarrow> nat" where
  "head_size (S_Seq a b) = Suc (head_size a + (if must_traverse_action a then 0 else head_size b))"
| "head_size (S_Rec x body) = Suc (head_size body)"
| "head_size _ = 1"

lemma check_guarded_mono: "check_guarded x s b \<Longrightarrow> b \<le> c \<Longrightarrow> check_guarded x s c"
  by (induction x s b arbitrary: c rule: check_guarded.induct) (auto simp: Let_def)

lemma must_traverse_unfold: "must_traverse_action s \<Longrightarrow> must_traverse_action (unfold_in x t s)"
  by (induction x t s rule: unfold_in.induct) auto

lemma guarded_unfold_same:
  assumes "check_guarded x s False"
  shows "must_traverse_action (unfold_in x t s) = must_traverse_action s"
    and "head_size (unfold_in x t s) = head_size s"
proof -
  have "must_traverse_action (unfold_in x t s) = must_traverse_action s \<and>
      head_size (unfold_in x t s) = head_size s"
    using assms
  proof (induction x t s rule: unfold_in.induct)
    case (5 x t a b)
    then show ?case
      using must_traverse_unfold by (cases "must_traverse_action a") (auto simp: Let_def)
  qed auto
  then show "must_traverse_action (unfold_in x t s) = must_traverse_action s"
    and "head_size (unfold_in x t s) = head_size s" by auto
qed

lemma check_guarded_not_free: "\<not> has_free_var s x \<Longrightarrow> check_guarded x s b"
  by (induction x s b rule: check_guarded.induct) (auto simp: list_all_iff list_ex_iff Let_def)

lemma check_guarded_unfold:
  "check_guarded y s b \<Longrightarrow> closed t \<Longrightarrow> check_guarded y (unfold_in x t s) b"
proof (induction y s b rule: check_guarded.induct)
  case (5 y a b sa)
  then show ?case
    using must_traverse_unfold check_guarded_mono by (fastforce simp: Let_def)
qed (auto simp: closed_def check_guarded_not_free list_all_iff)

lemma guarded_unfold: "guarded s \<Longrightarrow> guarded t \<Longrightarrow> closed t \<Longrightarrow> guarded (unfold_in x t s)"
  by (induction x t s rule: unfold_in.induct) (auto simp: check_guarded_unfold list_all_iff)

lemma arms_nonempty_unfold: "arms_nonempty s \<Longrightarrow> arms_nonempty t \<Longrightarrow> arms_nonempty (unfold_in x t s)"
  by (induction x t s rule: unfold_in.induct) (auto simp: list_all_iff)

lemma has_free_var_unfold:
  "closed t \<Longrightarrow> has_free_var (unfold_in x t s) y \<longleftrightarrow> y \<noteq> x \<and> has_free_var s y"
  by (induction x t s rule: unfold_in.induct) (auto simp: closed_def list_ex_iff, force+)

lemma unfold_dual: "dual (unfold_in x t s) = unfold_in x (dual t) (dual s)"
  by (induction x t s rule: unfold_in.induct) (auto simp: dual_arms_map)

text \<open>The sessions on which unfolding is safe, closed under unfolding.\<close>

definition safe :: "session \<Rightarrow> bool" where
  "safe s \<longleftrightarrow> closed s \<and> guarded s \<and> arms_nonempty s"

lemma safe_unfold: "safe (S_Rec x body) \<Longrightarrow> safe (unfold_in x (S_Rec x body) body)"
  by (auto simp: safe_def closed_def guarded_unfold arms_nonempty_unfold has_free_var_unfold split: if_splits)

lemma checks_safe: "wf_session s = Inr u \<Longrightarrow> wf_recursive s = Inr v \<Longrightarrow> safe s"
  using wf_rec_Inr [of s "{}" u] check_all_binders_Inr [of s "[]" v]
  by (auto simp: wf_session_def wf_session_with_env_def wf_recursive_def safe_def closed_def)

text \<open>Enough fuel is the head size, and a safe session has finished or acts.\<close>

lemma head_size_pos: "head_size s \<noteq> 0"
  by (cases s) simp_all

lemma head_returns:
  "safe s \<Longrightarrow> head_size s \<le> n \<Longrightarrow> head n s = Some (if must_traverse_action s then Acts else Finished)"
proof (induction n s rule: head.induct)
  case (4 n a b)
  then show ?case by (auto simp: safe_def closed_def)
next
  case (5 n x body)
  have "check_guarded x body False" using 5 by (simp add: safe_def)
  then show ?case using 5 safe_unfold by (simp add: guarded_unfold_same)
qed (auto simp: safe_def closed_def head_size_pos)

section \<open>Communication\<close>

datatype act = Sends string | Receives string | Offers string | Selects string

fun dual_act :: "act \<Rightarrow> act" where
  "dual_act (Sends p) = Receives p"
| "dual_act (Receives p) = Sends p"
| "dual_act (Offers l) = Selects l"
| "dual_act (Selects l) = Offers l"

inductive finished :: "session \<Rightarrow> bool" where
  fin_end: "finished S_End"
| fin_seq: "finished a \<Longrightarrow> finished b \<Longrightarrow> finished (S_Seq a b)"
| fin_rec: "finished (unfold_in x (S_Rec x body) body) \<Longrightarrow> finished (S_Rec x body)"

inductive step :: "session \<Rightarrow> act \<Rightarrow> session \<Rightarrow> bool" where
  step_send: "step (S_Send p s) (Sends p) s"
| step_recv: "step (S_Recv p s) (Receives p) s"
| step_branch: "(l, s) \<in> set arms \<Longrightarrow> step (S_Branch arms) (Offers l) s"
| step_choice: "(l, s) \<in> set arms \<Longrightarrow> step (S_Choice arms) (Selects l) s"
| step_seq: "step a \<alpha> a' \<Longrightarrow> step (S_Seq a b) \<alpha> (S_Seq a' b)"
| step_next: "finished a \<Longrightarrow> step b \<alpha> b' \<Longrightarrow> step (S_Seq a b) \<alpha> b'"
| step_rec: "step (unfold_in x (S_Rec x body) body) \<alpha> s' \<Longrightarrow> step (S_Rec x body) \<alpha> s'"

inductive_cases step_seqE: "step (S_Seq a b) \<alpha> s'"
inductive_cases step_recE: "step (S_Rec x body) \<alpha> s'"
inductive_simps step_msg_simps: "step (S_Send p s) \<alpha> s'" "step (S_Recv p s) \<alpha> s'" "step S_End \<alpha> s'"

inductive steps :: "session \<Rightarrow> act list \<Rightarrow> session \<Rightarrow> bool" where
  steps_none: "steps s [] s"
| steps_more: "step s \<alpha> s' \<Longrightarrow> steps s' tr s'' \<Longrightarrow> steps s (\<alpha> # tr) s''"

lemma finished_dual: "finished s \<Longrightarrow> finished (dual s)"
  by (induction rule: finished.induct) (auto simp: unfold_dual intro: finished.intros)

text \<open>Whatever one endpoint does, the other can answer, and the two are dual again.\<close>

lemma step_dual: "step s \<alpha> s' \<Longrightarrow> step (dual s) (dual_act \<alpha>) (dual s')"
proof (induction rule: step.induct)
  case (step_branch l s arms)
  then show ?case by (force simp: dual_arms_map intro: step.step_choice)
next
  case (step_choice l s arms)
  then show ?case by (force simp: dual_arms_map intro: step.step_branch)
qed (auto simp: unfold_dual finished_dual intro: step.intros)

lemma step_safe: "step s \<alpha> s' \<Longrightarrow> safe s \<Longrightarrow> safe s'"
proof (induction rule: step.induct)
  case (step_rec x body \<alpha> s')
  then show ?case using safe_unfold by blast
qed (auto simp: safe_def closed_def list_all_iff list_ex_iff)

lemma head_acts:
  "head n s = Some r \<Longrightarrow> safe s \<Longrightarrow> (r = Finished \<longrightarrow> finished s) \<and> (r = Acts \<longrightarrow> (\<exists>\<alpha> s'. step s \<alpha> s'))"
proof (induction n s arbitrary: r rule: head.induct)
  case (4 n a b)
  have "safe a" "safe b" using 4 by (auto simp: safe_def closed_def)
  then show ?case
    using 4 by (cases "head n a" rule: option.exhaust; cases "the (head n a)")
      (auto intro: fin_seq step_seq, blast intro: step_next)
next
  case (5 n x body)
  then show ?case using safe_unfold by (auto intro: fin_rec step_rec)
next
  case (6 n arms)
  then show ?case by (cases arms) (auto split: if_splits, meson list.set_intros(1) step_branch)
next
  case (7 n arms)
  then show ?case by (cases arms) (auto split: if_splits, meson list.set_intros(1) step_choice)
qed (auto intro: step.intros finished.intros)

lemma steps_safe: "steps s tr s' \<Longrightarrow> safe s \<Longrightarrow> safe s'"
  by (induction rule: steps.induct) (auto dest: step_safe)

lemma steps_dual: "steps s tr s' \<Longrightarrow> steps (dual s) (map dual_act tr) (dual s')"
  by (induction rule: steps.induct) (auto intro: steps.intros step_dual)

lemma safe_progress:
  assumes "safe s"
  shows "finished s \<and> finished (dual s) \<or> (\<exists>\<alpha> s'. step s \<alpha> s' \<and> step (dual s) (dual_act \<alpha>) (dual s'))"
  using head_acts [OF head_returns [OF assms order_refl] assms] finished_dual step_dual
  by (auto split: if_splits)

end
