(* ===== verification/Row_Records.thy ===== *)
theory Row_Records
  imports Prelude
begin

text \<open>
  \<^verbatim>\<open>crates/paideia-as-types/src/row_subtype.rs\<close>: records with an optional row variable, their canonical
  form, lookup, and the linear-time subtype test.  Field names, types and row variables are their
  \<^verbatim>\<open>u32\<close> ids.
\<close>

section \<open>Records\<close>

type_synonym field = "u32 \<times> u32"

record row_record =
  row_fields :: "field list"
  row_tail :: "u32 option"

text \<open>\<^verbatim>\<open>dedup_by_key\<close>: of consecutive elements with equal keys the first stays.\<close>

fun dedup_key :: "field list \<Rightarrow> field list" where
  "dedup_key [] = []"
| "dedup_key [x] = [x]"
| "dedup_key (x # y # xs) = (if fst x = fst y then dedup_key (x # xs) else x # dedup_key (y # xs))"

definition row_new :: "field list \<Rightarrow> u32 option \<Rightarrow> row_record" where
  "row_new fs tail = (let fs = sort_key fst fs; fs = dedup_key fs in \<lparr>row_fields = fs, row_tail = tail\<rparr>)"

definition row_closed :: "field list \<Rightarrow> row_record" where
  "row_closed fs = row_new fs None"

definition row_open :: "field list \<Rightarrow> u32 \<Rightarrow> row_record" where
  "row_open fs tail = row_new fs (Some tail)"

definition row_arity :: "row_record \<Rightarrow> nat" where
  "row_arity r = length (row_fields r)"

definition row_is_empty :: "row_record \<Rightarrow> bool" where
  "row_is_empty r \<longleftrightarrow> row_fields r = [] \<and> row_tail r = None"

text \<open>\<^verbatim>\<open>slice::binary_search_by_key\<close>: the remaining window starts at \<open>base\<close> and has \<open>size\<close> elements.\<close>

function search_from :: "field list \<Rightarrow> u32 \<Rightarrow> nat \<Rightarrow> nat \<Rightarrow> nat" where
  "search_from fs k base n =
     (if n \<le> 1 then base
      else (let half = n div 2;
                mid = base + half
            in search_from fs k (if fst (fs ! mid) > k then base else mid) (n - half)))"
  by pat_completeness auto
termination by (relation "measure (\<lambda>(fs, k, base, n). n)") auto

definition binary_search :: "field list \<Rightarrow> u32 \<Rightarrow> nat option" where
  "binary_search fs k =
     (if fs = [] then None
      else (let i = search_from fs k 0 (length fs) in if fst (fs ! i) = k then Some i else None))"

definition field_type :: "row_record \<Rightarrow> u32 \<Rightarrow> u32 option" where
  "field_type r k = map_option (\<lambda>i. snd (row_fields r ! i)) (binary_search (row_fields r) k)"

text \<open>The two-pointer merge of \<^verbatim>\<open>sub_record\<close>.\<close>

function skip_to :: "field list \<Rightarrow> u32 \<Rightarrow> nat \<Rightarrow> nat" where
  "skip_to fs rid i = (if i < length fs \<and> fst (fs ! i) < rid then skip_to fs rid (i + 1) else i)"
  by pat_completeness auto
termination by (relation "measure (\<lambda>(fs, rid, i). length fs - i)") auto

declare search_from.simps [simp del] skip_to.simps [simp del]

fun sub_fields :: "field list \<Rightarrow> field list \<Rightarrow> nat \<Rightarrow> bool" where
  "sub_fields fs [] i = True"
| "sub_fields fs ((rid, rty) # rs) i =
     (let i = skip_to fs rid i
      in if i \<ge> length fs \<or> fst (fs ! i) \<noteq> rid then False
         else if snd (fs ! i) \<noteq> rty then False
         else sub_fields fs rs i)"

definition sub_record :: "row_record \<Rightarrow> row_record \<Rightarrow> bool" where
  "sub_record t1 t2 =
     (if \<not> sub_fields (row_fields t1) (row_fields t2) 0 then False
      else case (row_tail t1, row_tail t2) of
        (None, None) \<Rightarrow> True
      | (Some a, Some b) \<Rightarrow> a = b
      | _ \<Rightarrow> False)"

section \<open>Canonical form\<close>

abbreviation keyed :: "field list \<Rightarrow> bool" where
  "keyed fs \<equiv> canonical (map fst fs)"

lemma dedup_key_keyed: "sorted (map fst fs) \<Longrightarrow> keyed (dedup_key fs) \<and> fst ` set (dedup_key fs) = fst ` set fs"
proof (induction fs rule: dedup_key.induct)
  case (3 x y xs)
  show ?case
  proof (cases "fst x = fst y")
    case True
    with 3 show ?thesis by simp
  next
    case False
    then have IH: "keyed (dedup_key (y # xs))" "fst ` set (dedup_key (y # xs)) = fst ` set (y # xs)"
      using 3 by simp_all
    have "\<forall>k \<in> fst ` set (y # xs). fst x < k" using 3(3) False by force
    then show ?thesis using IH False by (auto simp flip: IH(2))
  qed
qed simp_all

lemma row_tail_new [simp]: "row_tail (row_new fs t) = t"
  by (simp add: row_new_def)

lemma row_new_keyed: "keyed (row_fields (row_new fs tail))"
  using dedup_key_keyed [of "sort_key fst fs"] by (simp add: row_new_def)

text \<open>The first occurrence of a field wins.\<close>

lemma map_of_dedup_key: "sorted (map fst fs) \<Longrightarrow> map_of (dedup_key fs) = map_of fs"
  by (induction fs rule: dedup_key.induct) (auto simp: fun_eq_iff)

lemma map_of_insort_key:
  "map_of (insort_key fst x fs) = (map_of fs)(fst x \<mapsto> snd x)"
proof (induction fs)
  case (Cons y fs)
  then show ?case by (cases y; cases x) (auto simp: fun_eq_iff)
qed (cases x, simp)

lemma map_of_sort_key: "map_of (sort_key fst fs) = map_of (fs :: field list)"
  by (induction fs) (auto simp: map_of_insort_key)

lemma map_of_row_new: "map_of (row_fields (row_new fs tail)) = map_of fs"
  by (simp add: row_new_def map_of_dedup_key map_of_sort_key)

section \<open>Lookup\<close>

lemma keyed_nth_less: "keyed fs \<Longrightarrow> i < j \<Longrightarrow> j < length fs \<Longrightarrow> fst (fs ! i) < fst (fs ! j)"
  using sorted_wrt_nth_less [of "(<)" "map fst fs" i j] by simp

lemma keyed_nth_inject:
  "keyed fs \<Longrightarrow> i < length fs \<Longrightarrow> j < length fs \<Longrightarrow> fst (fs ! i) = fst (fs ! j) \<Longrightarrow> i = j"
  using keyed_nth_less by (metis linorder_neqE_nat less_irrefl)

text \<open>The window never loses the position of the key.\<close>

lemma search_from_finds:
  assumes "keyed fs" "base + n \<le> length fs" "base \<le> i" "i < base + n" "fst (fs ! i) = k"
  shows "search_from fs k base n = i"
  using assms(2-4)
proof (induction n arbitrary: base rule: less_induct)
  case (less n)
  show ?case
  proof (cases "n \<le> 1")
    case True
    then show ?thesis using less.prems by (simp add: search_from.simps)
  next
    case False
    define half where "half = n div 2"
    have h: "0 < half" "half < n" "half \<le> n - half" using False by (auto simp: half_def)
    have mid: "fst (fs ! (base + half)) > k \<longleftrightarrow> i < base + half"
      using keyed_nth_less [OF assms(1), of i "base + half"] keyed_nth_less [OF assms(1), of "base + half" i]
        assms(5) less.prems h by (cases i "base + half" rule: linorder_cases) auto
    have "search_from fs k (if fst (fs ! (base + half)) > k then base else base + half) (n - half) = i"
      using less.prems h mid by (intro less.IH) auto
    then show ?thesis
      using False unfolding half_def by (subst search_from.simps) (simp add: Let_def split: if_splits)
  qed
qed

lemma search_from_bound: "0 < n \<Longrightarrow> base \<le> search_from fs k base n \<and> search_from fs k base n < base + n"
proof (induction n arbitrary: base rule: less_induct)
  case (less n)
  show ?case
  proof (cases "n \<le> 1")
    case True
    then show ?thesis using less.prems by (simp add: search_from.simps)
  next
    case False
    define b where "b = (if fst (fs ! (base + n div 2)) > k then base else base + n div 2)"
    have "b \<le> search_from fs k b (n - n div 2) \<and> search_from fs k b (n - n div 2) < b + (n - n div 2)"
      using False by (intro less.IH) auto
    moreover have "base \<le> b" "b + (n - n div 2) \<le> base + n" by (auto simp: b_def)
    moreover have "search_from fs k base n = search_from fs k b (n - n div 2)"
      using False by (subst search_from.simps) (simp add: b_def Let_def)
    ultimately show ?thesis by simp
  qed
qed

lemma binary_search_map_of:
  assumes "keyed fs"
  shows "map_option (\<lambda>i. snd (fs ! i)) (binary_search fs k) = map_of fs k"
proof (cases "k \<in> fst ` set fs")
  case True
  then obtain i where i: "i < length fs" "fst (fs ! i) = k" by (metis imageE in_set_conv_nth)
  then have "search_from fs k 0 (length fs) = i" by (intro search_from_finds [OF assms]) auto
  moreover have "map_of fs k = Some (snd (fs ! i))"
    using i assms canonical_distinct by (metis map_of_is_SomeI nth_mem prod.collapse)
  ultimately show ?thesis using i by (auto simp: binary_search_def)
next
  case False
  then have "fs = [] \<or> fst (fs ! search_from fs k 0 (length fs)) \<noteq> k"
    using search_from_bound [of "length fs" 0 fs k] by (metis add_0 image_eqI length_greater_0_conv nth_mem)
  moreover have "map_of fs k = None" using False by (simp add: map_of_eq_None_iff)
  ultimately show ?thesis by (auto simp: binary_search_def)
qed

text \<open>Lookup in a canonical record finds what was given first for the field.\<close>

lemma field_type_map_of: "keyed (row_fields r) \<Longrightarrow> field_type r k = map_of (row_fields r) k"
  by (simp add: field_type_def binary_search_map_of)

section \<open>Subtyping\<close>

lemma skip_to_spec:
  "i \<le> length fs \<Longrightarrow> i \<le> skip_to fs rid i \<and> skip_to fs rid i \<le> length fs \<and>
     (\<forall>j. i \<le> j \<longrightarrow> j < skip_to fs rid i \<longrightarrow> fst (fs ! j) < rid) \<and>
     (skip_to fs rid i < length fs \<longrightarrow> rid \<le> fst (fs ! skip_to fs rid i))"
proof (induction fs rid i rule: skip_to.induct)
  case (1 fs rid i)
  show ?case
  proof (cases "i < length fs \<and> fst (fs ! i) < rid")
    case True
    define m where "m = skip_to fs rid (i + 1)"
    have m: "skip_to fs rid i = m" using True by (subst skip_to.simps) (simp add: m_def)
    have IH: "i + 1 \<le> m" "m \<le> length fs" "\<And>j. i + 1 \<le> j \<Longrightarrow> j < m \<Longrightarrow> fst (fs ! j) < rid"
      "m < length fs \<Longrightarrow> rid \<le> fst (fs ! m)"
      using 1(1) True by (auto simp: m_def)
    have "fst (fs ! j) < rid" if "i \<le> j" "j < m" for j
      using IH(3) [of j] True that by (cases "j = i") auto
    then show ?thesis using IH m by auto
  next
    case False
    then have "skip_to fs rid i = i" by (subst skip_to.simps) auto
    then show ?thesis using 1 False by auto
  qed
qed

text \<open>The merge decides inclusion of the field sets.\<close>

lemma sub_fields_iff:
  assumes "keyed fs" "keyed rs" "i \<le> length fs" "\<forall>j < i. \<forall>r \<in> set rs. fst (fs ! j) < fst r"
  shows "sub_fields fs rs i \<longleftrightarrow> set rs \<subseteq> set fs"
  using assms(2-4)
proof (induction rs arbitrary: i)
  case (Cons r rs)
  obtain rid rty where r: "r = (rid, rty)" by (cases r)
  define m where "m = skip_to fs rid i"
  have m: "i \<le> m" "m \<le> length fs" "\<And>j. i \<le> j \<Longrightarrow> j < m \<Longrightarrow> fst (fs ! j) < rid"
    "m < length fs \<Longrightarrow> rid \<le> fst (fs ! m)"
    using skip_to_spec [OF Cons.prems(2), of rid] by (auto simp: m_def)
  have before: "\<forall>j < m. fst (fs ! j) < rid"
    using m(3) Cons.prems(3) r by (metis fst_conv le_less_linear list.set_intros(1))
  have here: "r \<in> set fs \<longleftrightarrow> m < length fs \<and> fs ! m = r"
  proof
    assume "r \<in> set fs"
    then obtain j where j: "j < length fs" "fs ! j = r" by (metis in_set_conv_nth)
    then have "m \<le> j" using before r by (metis fst_conv less_irrefl not_le)
    moreover have "\<not> m < j"
      using keyed_nth_less [OF assms(1), of m j] m(4) j r by auto
    ultimately show "m < length fs \<and> fs ! m = r" using j by simp
  qed (metis nth_mem)
  have "\<forall>j < m. \<forall>q \<in> set rs. fst (fs ! j) < fst q"
    using before Cons.prems(1) r by (auto dest: less_trans)
  then have IH: "sub_fields fs rs m \<longleftrightarrow> set rs \<subseteq> set fs"
    using Cons.prems(1) m(2) by (intro Cons.IH) simp_all
  have "sub_fields fs (r # rs) i \<longleftrightarrow> m < length fs \<and> fs ! m = r \<and> sub_fields fs rs m"
    by (auto simp: r m_def prod_eq_iff Let_def)
  then show ?case using IH here by auto
qed simp

lemma sub_record_iff:
  assumes "keyed (row_fields t1)" "keyed (row_fields t2)"
  shows "sub_record t1 t2 \<longleftrightarrow> set (row_fields t2) \<subseteq> set (row_fields t1) \<and> row_tail t1 = row_tail t2"
  using sub_fields_iff [OF assms, of 0] by (auto simp: sub_record_def split: option.splits)

end
