(* ===== verification/Unify.thy ===== *)
theory Unify
  imports Types
begin

text \<open>
  \<^verbatim>\<open>crates/paideia-as-types/src/subst.rs\<close> and \<^verbatim>\<open>unify.rs\<close>: substitutions, the occurs check, and unification of
  interned types.  The recursive functions take fuel; \<open>None\<close> means that they do not return (the fuel
  ran out, or an id is unknown and indexing panics).  The texts inside \<^verbatim>\<open>KindMismatch\<close> and
  \<^verbatim>\<open>OccursCheck\<close> are left out.
\<close>

section \<open>Substitutions\<close>

type_synonym ty_var = u32

record subst =
  bindings :: "ty_var \<rightharpoonup> type_id"

definition subst_new :: subst where
  "subst_new = \<lparr>bindings = Map.empty\<rparr>"

definition subst_get :: "subst \<Rightarrow> ty_var \<Rightarrow> type_id option" where
  "subst_get sub v = bindings sub v"

definition subst_insert :: "subst \<Rightarrow> ty_var \<Rightarrow> type_id \<Rightarrow> subst" where
  "subst_insert sub v t = sub\<lparr>bindings := (bindings sub)(v \<mapsto> t)\<rparr>"

text \<open>\<^verbatim>\<open>iter().any(f)\<close>, \<^verbatim>\<open>iter().map(f).collect()\<close> with a threaded table.\<close>

fun any_opt :: "('a \<Rightarrow> bool option) \<Rightarrow> 'a list \<Rightarrow> bool option" where
  "any_opt f [] = Some False"
| "any_opt f (x # xs) =
     (case f x of None \<Rightarrow> None | Some b \<Rightarrow> if b then Some True else any_opt f xs)"

fun map_state :: "('s \<Rightarrow> 'a \<Rightarrow> ('b \<times> 's) option) \<Rightarrow> 's \<Rightarrow> 'a list \<Rightarrow> ('b list \<times> 's) option" where
  "map_state f s [] = Some ([], s)"
| "map_state f s (x # xs) =
     (case f s x of
        None \<Rightarrow> None
      | Some (y, s) \<Rightarrow> (case map_state f s xs of None \<Rightarrow> None | Some (ys, s) \<Rightarrow> Some (y # ys, s)))"

primrec occurs_in :: "nat \<Rightarrow> subst \<Rightarrow> ty_var \<Rightarrow> type_interner \<Rightarrow> type_id \<Rightarrow> bool option" where
  "occurs_in 0 sub v tab t = None"
| "occurs_in (Suc fuel) sub v tab t =
     (case get tab t of
        None \<Rightarrow> None
      | Some (T_Var name k) \<Rightarrow>
          if name = v then Some True
          else (case subst_get sub v of
                  Some target \<Rightarrow> occurs_in fuel sub v tab target
                | None \<Rightarrow> Some False)
      | Some (T_Tuple xs) \<Rightarrow> any_opt (occurs_in fuel sub v tab) xs
      | Some (T_Fn params ret effects cs) \<Rightarrow>
          (case any_opt (occurs_in fuel sub v tab) params of
             None \<Rightarrow> None
           | Some b \<Rightarrow> if b then Some True else occurs_in fuel sub v tab ret)
      | Some (T_Named n args) \<Rightarrow> any_opt (occurs_in fuel sub v tab) args
      | Some _ \<Rightarrow> Some False)"

primrec subst_apply :: "nat \<Rightarrow> subst \<Rightarrow> type_interner \<Rightarrow> type_id \<Rightarrow> (type_id \<times> type_interner) option" where
  "subst_apply 0 sub tab t = None"
| "subst_apply (Suc fuel) sub tab t =
     (case get tab t of
        None \<Rightarrow> None
      | Some (T_Var name k) \<Rightarrow>
          if name = 0 then None
          else (case subst_get sub name of
                  Some target \<Rightarrow> subst_apply fuel sub tab target
                | None \<Rightarrow> Some (t, tab))
      | Some (T_Tuple xs) \<Rightarrow>
          (case map_state (subst_apply fuel sub) tab xs of
             None \<Rightarrow> None
           | Some (xs, tab) \<Rightarrow> intern tab (T_Tuple xs))
      | Some (T_Fn params ret effects cs) \<Rightarrow>
          (case map_state (subst_apply fuel sub) tab params of
             None \<Rightarrow> None
           | Some (params, tab) \<Rightarrow>
               (case subst_apply fuel sub tab ret of
                  None \<Rightarrow> None
                | Some (ret, tab) \<Rightarrow> intern tab (T_Fn params ret effects cs)))
      | Some (T_Named n args) \<Rightarrow>
          (case map_state (subst_apply fuel sub) tab args of
             None \<Rightarrow> None
           | Some (args, tab) \<Rightarrow> intern tab (T_Named n args))
      | Some _ \<Rightarrow> Some (t, tab))"

section \<open>Unification\<close>

datatype unify_error = KindMismatch | OccursCheck ty_var | ArityMismatch

fun unify_code :: "unify_error \<Rightarrow> nat" where
  "unify_code KindMismatch = 504"
| "unify_code (OccursCheck v) = 503"
| "unify_code ArityMismatch = 500"

text \<open>A result and the substitution as it was left.\<close>

type_synonym unify_result = "((unify_error + unit) \<times> subst) option"

definition bind :: "nat \<Rightarrow> type_interner \<Rightarrow> subst \<Rightarrow> u32 \<Rightarrow> hr_kind \<Rightarrow> type_id \<Rightarrow> ty \<Rightarrow> unify_result" where
  "bind fuel tab sub var_name var_kind t_id t_view =
     (let check =
        (if var_name = 0 then None
         else (case occurs_in fuel sub var_name tab t_id of
                 None \<Rightarrow> None
               | Some b \<Rightarrow>
                   if b then Some (Inl (OccursCheck var_name), sub)
                   else Some (Inr (), subst_insert sub var_name t_id)))
      in case t_view of
           T_Var other_name other_kind \<Rightarrow>
             if other_name = var_name then Some (Inr (), sub)
             else if var_kind \<noteq> other_kind then Some (Inl KindMismatch, sub)
             else check
         | _ \<Rightarrow> check)"

text \<open>The loops over pairs of components, which stop at the first error.\<close>

fun unify_pairs :: "(subst \<Rightarrow> 'a \<Rightarrow> 'a \<Rightarrow> unify_result) \<Rightarrow> subst \<Rightarrow> ('a \<times> 'a) list \<Rightarrow> unify_result" where
  "unify_pairs u sub [] = Some (Inr (), sub)"
| "unify_pairs u sub ((x, y) # ps) =
     (case u sub x y of
        None \<Rightarrow> None
      | Some (Inl e, sub) \<Rightarrow> Some (Inl e, sub)
      | Some (Inr _, sub) \<Rightarrow> unify_pairs u sub ps)"

definition unify_named ::
    "(subst \<Rightarrow> 'a \<Rightarrow> 'a \<Rightarrow> unify_result) \<Rightarrow> subst \<Rightarrow> u32 \<times> 'a \<Rightarrow> u32 \<times> 'a \<Rightarrow> unify_result" where
  "unify_named u sub x y =
     (if fst x \<noteq> fst y then Some (Inl KindMismatch, sub) else u sub (snd x) (snd y))"

definition unify_lists ::
    "(subst \<Rightarrow> 'a \<Rightarrow> 'a \<Rightarrow> unify_result) \<Rightarrow> subst \<Rightarrow> 'a list \<Rightarrow> 'a list \<Rightarrow> unify_result" where
  "unify_lists u sub xs ys =
     (if length xs \<noteq> length ys then Some (Inl ArityMismatch, sub) else unify_pairs u sub (zip xs ys))"

fun unify_payload ::
    "(subst \<Rightarrow> type_id \<Rightarrow> type_id \<Rightarrow> unify_result) \<Rightarrow> subst \<Rightarrow> enum_payload \<Rightarrow> enum_payload \<Rightarrow> unify_result" where
  "unify_payload u sub P_Unit P_Unit = Some (Inr (), sub)"
| "unify_payload u sub (P_Tuple t1) (P_Tuple t2) = unify_lists u sub t1 t2"
| "unify_payload u sub (P_Record f1) (P_Record f2) = unify_lists (unify_named u) sub f1 f2"
| "unify_payload u sub p1 p2 = Some (Inl KindMismatch, sub)"

text \<open>The match on two types neither of which is a variable; \<open>u\<close> unifies two ids.\<close>

definition unify_types :: "(subst \<Rightarrow> type_id \<Rightarrow> type_id \<Rightarrow> unify_result) \<Rightarrow> subst \<Rightarrow> ty \<Rightarrow> ty \<Rightarrow> unify_result" where
  "unify_types u sub ta tb =
    (case ta of
       T_Unit \<Rightarrow> (case tb of T_Unit \<Rightarrow> Some (Inr (), sub) | _ \<Rightarrow> Some (Inl KindMismatch, sub))
     | T_Bool \<Rightarrow> (case tb of T_Bool \<Rightarrow> Some (Inr (), sub) | _ \<Rightarrow> Some (Inl KindMismatch, sub))
     | T_Char \<Rightarrow> (case tb of T_Char \<Rightarrow> Some (Inr (), sub) | _ \<Rightarrow> Some (Inl KindMismatch, sub))
     | T_Top \<Rightarrow> (case tb of T_Top \<Rightarrow> Some (Inr (), sub) | _ \<Rightarrow> Some (Inl KindMismatch, sub))
     | T_Bot \<Rightarrow> (case tb of T_Bot \<Rightarrow> Some (Inr (), sub) | _ \<Rightarrow> Some (Inl KindMismatch, sub))
     | T_Term \<Rightarrow> (case tb of T_Term \<Rightarrow> Some (Inr (), sub) | _ \<Rightarrow> Some (Inl KindMismatch, sub))
     | T_UInt b1 \<Rightarrow>
         (case tb of T_UInt b2 \<Rightarrow> if b1 = b2 then Some (Inr (), sub) else Some (Inl KindMismatch, sub)
          | _ \<Rightarrow> Some (Inl KindMismatch, sub))
     | T_SInt b1 \<Rightarrow>
         (case tb of T_SInt b2 \<Rightarrow> if b1 = b2 then Some (Inr (), sub) else Some (Inl KindMismatch, sub)
          | _ \<Rightarrow> Some (Inl KindMismatch, sub))
     | T_Float b1 \<Rightarrow>
         (case tb of T_Float b2 \<Rightarrow> if b1 = b2 then Some (Inr (), sub) else Some (Inl KindMismatch, sub)
          | _ \<Rightarrow> Some (Inl KindMismatch, sub))
     | T_Tuple xs \<Rightarrow> (case tb of T_Tuple ys \<Rightarrow> unify_lists u sub xs ys | _ \<Rightarrow> Some (Inl KindMismatch, sub))
     | T_Fn p1 r1 e1 c1 \<Rightarrow>
         (case tb of
            T_Fn p2 r2 e2 c2 \<Rightarrow>
              (case unify_lists u sub p1 p2 of
                 None \<Rightarrow> None
               | Some (Inl e, sub) \<Rightarrow> Some (Inl e, sub)
               | Some (Inr _, sub) \<Rightarrow> u sub r1 r2)
          | _ \<Rightarrow> Some (Inl KindMismatch, sub))
     | T_Named n1 a1 \<Rightarrow>
         (case tb of
            T_Named n2 a2 \<Rightarrow>
              if n1 = n2 \<and> length a1 = length a2 then unify_pairs u sub (zip a1 a2) else Some (Inl KindMismatch, sub)
          | _ \<Rightarrow> Some (Inl KindMismatch, sub))
     | T_Ptr p1 m1 \<Rightarrow>
         (case tb of T_Ptr p2 m2 \<Rightarrow> if m1 \<noteq> m2 then Some (Inl KindMismatch, sub) else u sub p1 p2
          | _ \<Rightarrow> Some (Inl KindMismatch, sub))
     | T_Ref p1 m1 l1 \<Rightarrow>
         (case tb of T_Ref p2 m2 l2 \<Rightarrow> if m1 \<noteq> m2 then Some (Inl KindMismatch, sub) else u sub p1 p2
          | _ \<Rightarrow> Some (Inl KindMismatch, sub))
     | T_Record f1 \<Rightarrow>
         (case tb of T_Record f2 \<Rightarrow> unify_lists (unify_named u) sub f1 f2 | _ \<Rightarrow> Some (Inl KindMismatch, sub))
     | T_Enum v1 \<Rightarrow>
         (case tb of T_Enum v2 \<Rightarrow> unify_lists (unify_named (unify_payload u)) sub v1 v2
          | _ \<Rightarrow> Some (Inl KindMismatch, sub))
     | _ \<Rightarrow> Some (Inl KindMismatch, sub))"

primrec unify :: "nat \<Rightarrow> type_interner \<Rightarrow> subst \<Rightarrow> type_id \<Rightarrow> type_id \<Rightarrow> unify_result" where
  "unify 0 tab sub a b = None"
| "unify (Suc fuel) tab sub a b =
     (case get tab a of
        None \<Rightarrow> None
      | Some ta \<Rightarrow>
          (case get tab b of
             None \<Rightarrow> None
           | Some tb \<Rightarrow>
               (case ta of
                  T_Var name k \<Rightarrow> bind fuel tab sub name k b tb
                | _ \<Rightarrow>
                    (case tb of
                       T_Var name k \<Rightarrow> bind fuel tab sub name k a ta
                     | _ \<Rightarrow> unify_types (unify fuel tab) sub ta tb))))"

section \<open>Unification without variables\<close>

text \<open>The ids that \<open>unify\<close> and \<open>occurs_in\<close> follow.\<close>

fun unify_ids :: "ty \<Rightarrow> type_id set" where
  "unify_ids (T_Tuple xs) = set xs"
| "unify_ids (T_Fn ps r e c) = insert r (set ps)"
| "unify_ids (T_Named n as) = set as"
| "unify_ids (T_Ptr p m) = {p}"
| "unify_ids (T_Ref p m l) = {p}"
| "unify_ids (T_Record fs) = snd ` set fs"
| "unify_ids (T_Enum vs) = (\<Union>v \<in> set vs. payload_ids (snd v))"
| "unify_ids _ = {}"

text \<open>
  Types on which unification is equality: no variable, neither of the two constructors the match has no
  case for, and the components it skips (effects, capabilities, lifetimes) all alike.
\<close>

fun plain :: "ty \<Rightarrow> bool" where
  "plain (T_Var n k) = False"
| "plain T_Str = False"
| "plain (T_Vec t n) = False"
| "plain (T_Fn ps r e c) \<longleftrightarrow> e = 0 \<and> c = 0"
| "plain (T_Ref t m l) \<longleftrightarrow> l = 0"
| "plain _ = True"

text \<open>\<open>u\<close> decides equality on the pairs of \<open>A\<close> and \<open>B\<close>, without changing the substitution.\<close>

definition decides :: "(subst \<Rightarrow> 'a \<Rightarrow> 'a \<Rightarrow> unify_result) \<Rightarrow> 'a set \<Rightarrow> 'a set \<Rightarrow> bool" where
  "decides u A B \<longleftrightarrow>
     (\<forall>x \<in> A. \<forall>y \<in> B. \<forall>sub. \<exists>r. u sub x y = Some (r, sub) \<and> (r = Inr () \<longleftrightarrow> x = y))"

lemma decidesD:
  assumes "decides u A B" "x \<in> A" "y \<in> B"
  obtains e where "u sub x y = Some (if x = y then Inr () else Inl e, sub)"
proof -
  obtain r where "u sub x y = Some (r, sub)" "r = Inr () \<longleftrightarrow> x = y"
    using assms unfolding decides_def by blast
  then show ?thesis by (cases r) (auto intro: that)
qed

lemma unify_pairs_decides:
  assumes "decides u (set xs) (set ys)" "length xs = length ys"
  shows "\<exists>r. unify_pairs u sub (zip xs ys) = Some (r, sub) \<and> (r = Inr () \<longleftrightarrow> xs = ys)"
  using assms(2,1)
proof (induction xs ys rule: list_induct2)
  case (Cons x xs y ys)
  have "decides u (set xs) (set ys)" using Cons.prems by (simp add: decides_def)
  moreover obtain e where "u sub x y = Some (if x = y then Inr () else Inl e, sub)"
    using decidesD [OF Cons.prems, of x y] by auto
  ultimately show ?case using Cons.IH by auto
qed simp

lemma unify_lists_decides:
  assumes "decides u (set xs) (set ys)"
  shows "\<exists>r. unify_lists u sub xs ys = Some (r, sub) \<and> (r = Inr () \<longleftrightarrow> xs = ys)"
  using unify_pairs_decides [OF assms] by (auto simp: unify_lists_def)

lemma unify_named_decides:
  assumes "decides u (snd ` A) (snd ` B)"
  shows "decides (unify_named u) A B"
  using assms by (auto simp: decides_def unify_named_def prod_eq_iff)

lemma unify_payload_decides:
  assumes "decides u (payload_ids p) (payload_ids q)"
  shows "\<exists>r. unify_payload u sub p q = Some (r, sub) \<and> (r = Inr () \<longleftrightarrow> p = q)"
  using assms unify_lists_decides unify_lists_decides [OF unify_named_decides]
  by (cases p; cases q) auto

lemma unify_variants_decide:
  assumes "decides u (\<Union>v \<in> set vs. payload_ids (snd v)) (\<Union>v \<in> set ws. payload_ids (snd v))"
  shows "\<exists>r. unify_lists (unify_named (unify_payload u)) sub vs ws = Some (r, sub) \<and> (r = Inr () \<longleftrightarrow> vs = ws)"
proof -
  have "decides u (payload_ids (snd v)) (payload_ids (snd w))" if "v \<in> set vs" "w \<in> set ws" for v w
    using assms that unfolding decides_def by blast
  then have "decides (unify_payload u) (snd ` set vs) (snd ` set ws)"
    using unify_payload_decides unfolding decides_def [of "unify_payload u"] by blast
  then show ?thesis by (rule unify_lists_decides [OF unify_named_decides])
qed

lemma unify_types_decide:
  assumes "plain ta" "plain tb" and dec: "decides u (unify_ids ta) (unify_ids tb)"
  shows "\<exists>r. unify_types u sub ta tb = Some (r, sub) \<and> (r = Inr () \<longleftrightarrow> ta = tb)"
proof (cases ta)
  case (T_Tuple xs)
  then show ?thesis using unify_lists_decides dec by (cases tb) (auto simp: unify_types_def)
next
  case (T_Fn p1 r1 e1 c1)
  show ?thesis
  proof (cases tb)
    case fn: (T_Fn p2 r2 e2 c2)
    have "decides u (set p1) (set p2)" using dec T_Fn fn by (auto simp: decides_def)
    then obtain r where "unify_lists u sub p1 p2 = Some (r, sub)" "r = Inr () \<longleftrightarrow> p1 = p2"
      using unify_lists_decides by blast
    moreover obtain e where "u sub r1 r2 = Some (if r1 = r2 then Inr () else Inl e, sub)"
      using dec T_Fn fn by (auto elim: decidesD [of u _ _ r1 r2])
    ultimately show ?thesis using assms(1,2) T_Fn fn by (cases r) (auto simp: unify_types_def)
  qed (simp_all add: T_Fn unify_types_def)
next
  case (T_Named n xs)
  then show ?thesis using unify_pairs_decides dec by (cases tb) (auto simp: unify_types_def)
next
  case (T_Ptr p m)
  then show ?thesis using dec by (cases tb) (auto simp: unify_types_def decides_def)
next
  case (T_Ref p m l)
  then show ?thesis using dec assms(1,2) by (cases tb) (auto simp: unify_types_def decides_def)
next
  case (T_Record fs)
  then show ?thesis using unify_lists_decides [OF unify_named_decides] dec
    by (cases tb) (auto simp: unify_types_def)
next
  case (T_Enum vs)
  then show ?thesis using unify_variants_decide dec by (cases tb) (auto simp: unify_types_def)
qed (use assms(1) in \<open>cases tb; auto simp: unify_types_def\<close>)+

text \<open>
  On tables of plain types, unification returns, changes nothing, and is equality of ids: hash-consing
  makes structural equality an equality of numbers, and the algorithm agrees with it.
\<close>

lemma unify_plain:
  assumes inv: "types_inv tab" and bk: "points_back unify_ids tab" and pl_all: "list_all plain (types tab)"
    and "get tab a = Some ta" "get tab b = Some tb" "unat a \<le> fuel"
  shows "\<exists>r. unify fuel tab sub a b = Some (r, sub) \<and> (r = Inr () \<longleftrightarrow> a = b)"
  using assms(4-6)
proof (induction fuel arbitrary: a b ta tb sub)
  case 0
  then show ?case by (simp add: get_Some_iff)
next
  case (Suc fuel)
  have pl: "plain t" if "get tab i = Some t" for i t
    using that pl_all by (auto simp: get_def nth_opt_Some list_all_iff split: if_splits)
  have "decides (unify fuel tab) (unify_ids ta) (unify_ids tb)"
    unfolding decides_def
  proof (intro ballI allI)
    fix x y sub
    assume "x \<in> unify_ids ta" and y: "y \<in> unify_ids tb"
    then obtain u where "get tab x = Some u" "unat x \<le> fuel"
      using points_back_fuel [OF bk Suc.prems(1) _ Suc.prems(3)] by metis
    moreover obtain v where "get tab y = Some v"
      using bk Suc.prems(2) y unfolding points_back_def by blast
    ultimately show "\<exists>r. unify fuel tab sub x y = Some (r, sub) \<and> (r = Inr () \<longleftrightarrow> x = y)"
      using Suc.IH by blast
  qed
  then obtain r where r: "unify_types (unify fuel tab) sub ta tb = Some (r, sub)" "r = Inr () \<longleftrightarrow> ta = tb"
    using unify_types_decide pl Suc.prems(1,2) by blast
  have "unify (Suc fuel) tab sub a b = unify_types (unify fuel tab) sub ta tb"
    using pl [OF Suc.prems(1)] pl [OF Suc.prems(2)] Suc.prems(1,2) by (cases ta; cases tb) simp_all
  moreover have "ta = tb \<longleftrightarrow> a = b"
    using type_interner.get_inject [OF inv] Suc.prems(1,2) by auto
  ultimately show ?case using r by auto
qed

section \<open>The occurs check\<close>

text \<open>The types that contain a variable anywhere: \<open>component_ids\<close> are all the types a type is made of.\<close>

fun component_ids :: "ty \<Rightarrow> type_id set" where
  "component_ids (T_Tuple xs) = set xs"
| "component_ids (T_Fn ps r e c) = insert r (set ps)"
| "component_ids (T_Named n as) = set as"
| "component_ids (T_Ptr p m) = {p}"
| "component_ids (T_Ref p m l) = {p}"
| "component_ids (T_Record fs) = snd ` set fs"
| "component_ids (T_Enum vs) = (\<Union>v \<in> set vs. payload_ids (snd v))"
| "component_ids (T_Vec t n) = {t}"
| "component_ids _ = {}"

inductive contains_var :: "type_interner \<Rightarrow> ty_var \<Rightarrow> type_id \<Rightarrow> bool" for tab v where
  here: "get tab i = Some (T_Var v k) \<Longrightarrow> contains_var tab v i"
| below: "get tab i = Some t \<Longrightarrow> c \<in> component_ids t \<Longrightarrow> contains_var tab v c \<Longrightarrow> contains_var tab v i"

lemma contains_var_iff:
  "get tab i = Some t \<Longrightarrow>
   contains_var tab v i \<longleftrightarrow> (\<exists>k. t = T_Var v k) \<or> (\<exists>c \<in> component_ids t. contains_var tab v c)"
  by (subst contains_var.simps) auto

text \<open>
  The types below which the check looks, or which have nothing below them: it does not look into
  pointers, references, records, enums and vectors.
\<close>

fun searched :: "ty \<Rightarrow> bool" where
  "searched (T_Ptr p m) = False"
| "searched (T_Ref p m l) = False"
| "searched (T_Record fs) = False"
| "searched (T_Enum vs) = False"
| "searched (T_Vec t n) = False"
| "searched _ = True"

lemma any_opt_iff:
  "(\<And>x. x \<in> set xs \<Longrightarrow> f x = Some (p x)) \<Longrightarrow> any_opt f xs = Some (\<exists>x \<in> set xs. p x)"
  by (induction xs) auto

text \<open>For a variable that is not bound yet the check returns, and finds the variable where it occurs.\<close>

lemma occurs_in_iff:
  assumes bk: "points_back component_ids tab" and "bindings sub v = None" and all: "list_all searched (types tab)"
    and "get tab i = Some t" "unat i \<le> fuel"
  shows "occurs_in fuel sub v tab i = Some (contains_var tab v i)"
  using assms(4,5)
proof (induction fuel arbitrary: i t)
  case 0
  then show ?case by (simp add: get_Some_iff)
next
  case (Suc fuel)
  have searched: "searched t"
    using Suc.prems(1) all by (auto simp: get_def nth_opt_Some list_all_iff split: if_splits)
  have IH: "occurs_in fuel sub v tab c = Some (contains_var tab v c)" if "c \<in> component_ids t" for c
    using points_back_fuel [OF bk Suc.prems(1) that Suc.prems(2)] Suc.IH by metis
  have any: "any_opt (occurs_in fuel sub v tab) xs = Some (\<exists>c \<in> set xs. contains_var tab v c)"
    if "set xs \<subseteq> component_ids t" for xs
    using that IH by (intro any_opt_iff) auto
  note here = Suc.prems(1) assms(2) contains_var_iff [OF Suc.prems(1)] searched
  show ?case
  proof (cases t)
    case (T_Fn ps r e c)
    then have "set ps \<subseteq> component_ids t" "r \<in> component_ids t" by auto
    from any [OF this(1)] IH [OF this(2)] show ?thesis using T_Fn here by auto
  qed (use any here in \<open>auto simp: subst_get_def\<close>)
qed

lemma bind_unbound:
  assumes "points_back component_ids tab" "bindings sub v = None" "v \<noteq> 0" "list_all searched (types tab)"
    and "get tab i = Some t" "unat i \<le> fuel" "\<And>n k. t \<noteq> T_Var n k"
  shows "bind fuel tab sub v k i t =
    Some (if contains_var tab v i then (Inl (OccursCheck v), sub) else (Inr (), subst_insert sub v i))"
  using occurs_in_iff [OF assms(1,2,4-6)] assms(3,7) by (cases t) (auto simp: bind_def)

section \<open>Where the algorithm departs from unification\<close>

text \<open>A string type does not unify with itself, nor does a vector type.\<close>

lemma unify_str_str:
  "get tab a = Some T_Str \<Longrightarrow> unify (Suc fuel) tab sub a a = Some (Inl KindMismatch, sub)"
  "get tab a = Some (T_Vec t n) \<Longrightarrow> unify (Suc fuel) tab sub a a = Some (Inl KindMismatch, sub)"
  by (simp_all add: unify_types_def)

text \<open>
  A variable is bound again without looking at its earlier binding: the pair of a variable with
  itself unifies with the pair of two different types.
\<close>

lemma unify_rebinds:
  "unify (Suc (Suc (Suc fuel))) (table_of [T_Bool, T_Unit, T_Var 1 Star, T_Tuple [3, 3], T_Tuple [1, 2]]) subst_new 4 5 =
     Some (Inr (), subst_insert (subst_insert subst_new 1 1) 1 2)"
  by (simp add: get_table_of nth_opt_def unify_types_def unify_lists_def bind_def subst_new_def
      subst_get_def)

text \<open>A unification that fails may leave bindings behind.\<close>

lemma unify_fails_changed:
  "unify (Suc (Suc (Suc fuel))) (table_of [T_Bool, T_Unit, T_Var 1 Star, T_Tuple [3, 1], T_Tuple [1, 2]]) subst_new 4 5 =
     Some (Inl KindMismatch, subst_insert subst_new 1 1)"
  by (simp add: get_table_of nth_opt_def unify_types_def unify_lists_def bind_def subst_new_def
      subst_get_def)

text \<open>
  The occurs check does not look into pointers, references, records, enums and vectors: a variable is
  bound to a pointer to itself.
\<close>

lemma occurs_check_misses:
  assumes "get tab a = Some (T_Var v k)" "v \<noteq> 0" "get tab b = Some t" "\<not> searched t"
  shows "unify (Suc (Suc fuel)) tab sub a b = Some (Inr (), subst_insert sub v b)"
  using assms by (cases t) (simp_all add: bind_def)

lemma infinite_type_bound:
  "unify (Suc (Suc fuel)) (table_of [T_Var 1 Star, T_Ptr 1 False]) subst_new 1 2 = Some (Inr (), subst_insert subst_new 1 2)"
  by (rule occurs_check_misses [where t = "T_Ptr 1 False" and k = Star]) (simp_all add: get_table_of nth_opt_def)

text \<open>
  The occurs check follows the binding of the variable looked for, at every other variable it meets:
  when that binding is a tuple that starts with another variable, it never returns.
\<close>

lemma occurs_in_diverges:
  assumes "get tab j = Some (T_Var u k)" "u \<noteq> v" "bindings sub v = Some i" "get tab i = Some (T_Tuple (j # js))"
  shows "occurs_in fuel sub v tab j = None \<and> occurs_in fuel sub v tab i = None"
  by (induction fuel) (simp_all add: assms subst_get_def)

text \<open>Tables and substitutions in which every id that can be looked up is known, so that no lookup panics.\<close>

definition ids_known :: "type_interner \<Rightarrow> subst \<Rightarrow> bool" where
  "ids_known tab sub \<longleftrightarrow>
     (\<forall>t \<in> set (types tab). \<forall>c \<in> component_ids t. get tab c \<noteq> None) \<and>
     (\<forall>i \<in> ran (bindings sub). get tab i \<noteq> None)"

end
