(* ===== verification/Types_Properties.thy ===== *)
theory Types_Properties
  imports Cap_Sets Layout Sessions Row_Records Unify
begin

text \<open>
  What the type layer promises to the elaborator: identity of interned types and capability sets,
  layouts, session protocols, record subtyping and unification.
\<close>

text \<open>
  C23: Two types interned one after the other, with whatever was in the table before, get the same id
  exactly when they are the same type.
\<close>

theorem type_ids_equal_iff:
  assumes "types_inv tab" "types_room tab" "intern tab t = Some (i, tab1)"
    and "types_room tab1" "intern tab1 u = Some (j, tab2)"
  shows "(i = j \<longleftrightarrow> t = u) \<and> types_inv tab2 \<and> get tab2 i = Some t \<and> get tab2 j = Some u"
proof -
  have one: "types_inv tab1" "get tab1 i = Some t"
    using type_interner.intern_inv type_interner.intern_get assms(1-3) by blast+
  then show ?thesis
    using type_interner.ids_equal_iff [OF assms] type_interner.intern_keeps [OF one(1) assms(4,5) one(2)]
      type_interner.intern_inv [OF one(1) assms(4,5)] type_interner.intern_get [OF one(1) assms(4,5)] by blast
qed

theorem type_ids_equal_iff_witness:
  "let (i, tab1) = the (intern new_types (T_UInt 64)); (j, tab2) = the (intern tab1 (T_Tuple [i]))
   in i \<noteq> j \<and> get tab2 i = Some (T_UInt 64) \<and> get tab2 j = Some (T_Tuple [i])"
proof -
  have "types_room new_types" "intern new_types (T_UInt 64) =
      Some (1, new_types\<lparr>types := [T_UInt 64], by_value := [T_UInt 64 \<mapsto> 1]\<rparr>)"
    by (simp_all add: types_room_def new_types_def intern_def type_id_new_def)
  moreover have "types_room (new_types\<lparr>types := [T_UInt 64], by_value := [T_UInt 64 \<mapsto> 1]\<rparr>)"
    "intern (new_types\<lparr>types := [T_UInt 64], by_value := [T_UInt 64 \<mapsto> 1]\<rparr>) (T_Tuple [1]) =
      Some (2, new_types\<lparr>types := [T_UInt 64, T_Tuple [1]], by_value := [T_UInt 64 \<mapsto> 1, T_Tuple [1] \<mapsto> 2]\<rparr>)"
    by (simp_all add: types_room_def new_types_def intern_def type_id_new_def)
  ultimately show ?thesis
    using type_ids_equal_iff [OF new_types_inv] by (auto simp: Let_def)
qed

text \<open>
  C26: Capability sets in canonical form are the finite sets they list: union and intersection keep the form and
  compute the set operation they are named after, two sets are equal exactly when they list the same
  capabilities, the subset test decides inclusion, and the missing capabilities are those of the set difference,
  in order and each once.
\<close>

theorem cap_sets_refine:
  assumes "cap_wf s" "cap_wf t"
  shows "cap_wf (cap_union s t) \<and> set (caps (cap_union s t)) = set (caps s) \<union> set (caps t) \<and>
    cap_wf (cap_intersection s t) \<and> set (caps (cap_intersection s t)) = set (caps s) \<inter> set (caps t) \<and>
    (s = t \<longleftrightarrow> set (caps s) = set (caps t)) \<and>
    (cap_is_subset_of s t \<longleftrightarrow> set (caps s) \<subseteq> set (caps t)) \<and>
    (cap_is_subset_of s t \<longleftrightarrow> cap_union s t = t) \<and>
    set (missing_caps s t) = set (caps s) - set (caps t) \<and> canonical (missing_caps s t) \<and>
    (missing_caps s t = [] \<longleftrightarrow> cap_is_subset_of s t)"
proof -
  have "cap_is_subset_of s t \<longleftrightarrow> cap_union s t = t"
    using cap_eq_iff [OF cap_wf_ops(3) assms(2)] by (auto simp: set_simps)
  moreover have "missing_caps s t = [] \<longleftrightarrow> cap_is_subset_of s t"
    by (auto simp: missing_caps_def filter_empty_conv set_simps)
  moreover have "canonical (missing_caps s t)"
    using assms(1) by (simp add: missing_caps_def sorted_wrt_filter)
  ultimately show ?thesis by (simp add: cap_wf_ops cap_eq_iff set_simps assms)
qed

theorem cap_sets_refine_witness:
  "cap_wf (cap_from_ids [3, 1, 3]) \<and> cap_wf (cap_from_ids [2]) \<and>
   set (caps (cap_union (cap_from_ids [3, 1, 3]) (cap_from_ids [2]))) = {1, 2, 3}"
  using cap_sets_refine [OF cap_wf_ops(2) cap_wf_ops(2), of "[3, 1, 3]" "[2]"]
  by (auto simp: cap_wf_ops set_simps)

text \<open>
  C19: Layout terminates and is well formed: in a table whose record and enum types refer to
  earlier entries, with as much fuel as the id, the result is the same for any more fuel; it is no panic of
  an unknown id, but a layout, with an alignment of 1, 2, 4, 8 or 16 that divides the size.  Sizes are those of
  the release profile, where additions wrap at 64 bits.
\<close>

theorem layout_total:
  assumes "backward tab" "get tab t = Some ty" "unat t \<le> fuel"
  shows "layout_of fuel tab t = layout_of (unat t) tab t \<and>
    (\<exists>l. layout_of fuel tab t = Inr l \<and> alignment l \<in> {1, 2, 4, 8, 16} \<and> unat (alignment l) dvd unat (size_of l))"
  using layout_of_fuel [OF assms(1,2) order_refl assms(3)] layout_of_fine [OF assms]
  by (auto simp: fine_def good_layout_def good_align_def split: sum.splits)

theorem layout_total_witness:
  "\<exists>l. layout_of (Suc (Suc 0)) (table_of [T_UInt 32, T_Record [(7, 1)]]) 2 = Inr l \<and> unat (alignment l) dvd unat (size_of l)"
proof -
  let ?tab = "table_of [T_UInt 32, T_Record [(7, 1)]]"
  have "backward ?tab"
    by (rule all_back_points) simp
  moreover have "get ?tab 2 = Some (T_Record [(7, 1)])" by (simp add: get_table_of nth_opt_def)
  moreover have "unat (2 :: type_id) \<le> Suc (Suc 0)" by simp
  ultimately show ?thesis
    using layout_total [of ?tab 2 "T_Record [(7, 1)]" "Suc (Suc 0)"] by blast
qed

text \<open>
  C20: The layout of a sequence of fields is, modulo \<open>2 ^ 64\<close>, the reference layout over the natural numbers: each
  field at the next multiple of its alignment, the total rounded up to the largest alignment.  So it is the
  reference layout exactly when the total fits in 64 bits; a larger total wraps without a report (release
  profile).  The layouts of the fields are assumed well formed: an alignment of at most 16 that divides the size.
\<close>

theorem fields_layout_reference:
  assumes "\<And>t. t \<in> set ts \<Longrightarrow> lay t = Inr (l t) \<and> good_layout (l t)"
  shows "layout_of_fields lay ts =
      Inr (new_layout (of_nat (reference_size (map l ts))) (max_alignment 1 (map l ts))) \<and>
    (unat (of_nat (reference_size (map l ts)) :: u64) = reference_size (map l ts) \<longleftrightarrow>
      reference_size (map l ts) < 2 ^ 64)"
  using layout_of_fields_eq [of ts lay l, OF assms] by (auto simp: unat_of_nat_64)

theorem fields_layout_reference_witness:
  "layout_of_fields (\<lambda>t. Inr (if t = 1 then new_layout 1 1 else new_layout 8 8)) [1, 2, 1] = Inr (new_layout 24 8)"
  using fields_layout_reference [of "[1, 2, 1]" "\<lambda>t. Inr (if t = 1 then new_layout 1 1 else new_layout 8 8)"
      "\<lambda>t. if t = 1 then new_layout 1 1 else new_layout 8 8"]
  by (simp add: good_layout_def good_align_def new_layout_def reference_size_def round_up_def)

text \<open>
  C21: An enum whose payloads have well-formed layouts gets the size of the reference layout modulo \<open>2 ^ 64\<close>: tag,
  payload area at the next multiple of the largest payload alignment, total rounded up.  In the reference layout every
  variant's payload fits behind the 8-byte tag, at an offset that suits the payload's alignment, and the enum is
  aligned at least as the payload.  The computed size is that of the reference exactly when the reference fits in 64
  bits; a larger one wraps without a report (release profile), and the payloads then need not fit.
\<close>

theorem enum_payload_fits:
  assumes "\<And>n p. (n, p) \<in> set vs \<Longrightarrow> layout_of_payload lay p = Inr (q p) \<and> good_layout (q p)"
  shows "\<exists>l ref off. layout_of_enum lay vs = Inr l \<and>
    ref = enum_reference_size (map (\<lambda>v. q (snd v)) vs) \<and> off = payload_offset (map (\<lambda>v. q (snd v)) vs) \<and>
    size_of l = of_nat ref \<and> (unat (size_of l) = ref \<longleftrightarrow> ref < 2 ^ 64) \<and>
    (\<forall>(n, p) \<in> set vs. 8 \<le> off \<and> unat (alignment (q p)) dvd off \<and> off + unat (size_of (q p)) \<le> ref \<and>
       alignment (q p) \<le> alignment l)"
proof -
  let ?qs = "map (\<lambda>v. q (snd v)) vs"
  have good: "good_layout l" if "l \<in> set ?qs" for l using that assms by fastforce
  have "8 \<le> payload_offset ?qs \<and> unat (alignment (q p)) dvd payload_offset ?qs \<and>
    payload_offset ?qs + unat (size_of (q p)) \<le> enum_reference_size ?qs \<and> alignment (q p) \<le> max 8 (max_alignment 1 ?qs)"
    if "(n, p) \<in> set vs" for n p
  proof -
    have "q p \<in> set ?qs" using that by force
    then show ?thesis using payload_fits [of ?qs "q p"] good by blast
  qed
  moreover have "layout_of_enum lay vs = Inr (new_layout (of_nat (enum_reference_size ?qs)) (max 8 (max_alignment 1 ?qs)))"
    by (rule layout_of_enum_eq [of vs lay q, OF assms])
  moreover have "unat (of_nat (enum_reference_size ?qs) :: u64) = enum_reference_size ?qs \<longleftrightarrow> enum_reference_size ?qs < 2 ^ 64"
    by (auto simp: unat_of_nat_64)
  ultimately show ?thesis by (auto simp: new_layout_def)
qed

theorem enum_payload_fits_witness:
  "\<exists>l off. layout_of_enum (\<lambda>t. Inr (new_layout 16 16)) [(1, P_Unit), (2, P_Tuple [5])] = Inr l \<and> unat (size_of l) = 32 \<and>
     8 \<le> off \<and> (16::nat) dvd off \<and> off + 16 \<le> unat (size_of l)"
proof -
  let ?lay = "\<lambda>t. Inr (new_layout 16 16)" and ?vs = "[(1, P_Unit), (2, P_Tuple [5])] :: (symbol \<times> enum_payload) list"
  let ?q = "\<lambda>p. if p = P_Unit then new_layout 0 1 else new_layout 16 16"
  have q: "layout_of_payload ?lay p = Inr (?q p) \<and> good_layout (?q p)" if "(n, p) \<in> set ?vs" for n p
    using that by (auto simp: layout_of_tuple_payload_def layout_of_fields_def place_def new_layout_def Let_def
        good_layout_def good_align_def)
  have ref: "enum_reference_size (map (\<lambda>v. ?q (snd v)) ?vs) = 32"
    by (simp add: enum_reference_size_def payload_offset_def new_layout_def round_up_def max_def)
  obtain l off where l: "layout_of_enum ?lay ?vs = Inr l" "unat (size_of l) = 32 \<longleftrightarrow> (32 :: nat) < 2 ^ 64"
    and p: "\<forall>(n, p) \<in> set ?vs. 8 \<le> off \<and> unat (alignment (?q p)) dvd off \<and> off + unat (size_of (?q p)) \<le> 32"
    using enum_payload_fits [where vs = ?vs and lay = ?lay and q = ?q, OF q] unfolding ref by fastforce
  have size: "unat (size_of l) = 32" using l(2) by simp
  moreover have "8 \<le> off \<and> (16 :: nat) dvd off \<and> off + 16 \<le> 32" using p by (simp add: new_layout_def)
  ultimately show ?thesis using l(1) by auto
qed

text \<open>Two fields of \<open>2 ^ 63\<close> bytes make a record of size zero.\<close>

lemma record_size_wraps:
  "layout_of_fields (\<lambda>t. Inr (new_layout (2 ^ 63) 8)) [1, 2] = Inr (new_layout 0 8)"
  by (simp add: layout_of_fields_def place_def new_layout_def Let_def)

text \<open>
  C28: Duality is an involution, and neither well-formedness check distinguishes a session from its
  dual.
\<close>

theorem duality:
  "dual (dual s) = s \<and> wf_session (dual s) = wf_session s \<and> wf_recursive (dual s) = wf_recursive s"
  by (simp add: dual_dual wf_session_def wf_session_with_env_def wf_rec_dual wf_recursive_def check_all_binders_dual)

text \<open>
  C17: A session that passes both checks never gets stuck: in every state reached, either both endpoints
  have finished, or one can act and the other answer it, after which they are dual again.
\<close>

theorem session_progress:
  assumes "wf_session s = Inr u" "wf_recursive s = Inr v" "steps s tr s'"
  shows "steps (dual s) (map dual_act tr) (dual s') \<and>
    (finished s' \<and> finished (dual s') \<or>
     (\<exists>\<alpha> s''. step s' \<alpha> s'' \<and> step (dual s') (dual_act \<alpha>) (dual s'')))"
  using steps_dual [OF assms(3)] safe_progress [OF steps_safe [OF assms(3) checks_safe [OF assms(1,2)]]] by blast

theorem session_progress_witness:
  "steps (dual (S_Rec ''X'' (S_Send ''u64'' (S_Var ''X'')))) [Receives ''u64'']
     (dual (S_Rec ''X'' (S_Send ''u64'' (S_Var ''X''))))"
proof -
  let ?s = "S_Rec ''X'' (S_Send ''u64'' (S_Var ''X''))"
  have "wf_session ?s = Inr ()" "wf_recursive ?s = Inr ()"
    by (simp_all add: wf_session_def wf_session_with_env_def wf_recursive_def)
  moreover have "steps ?s [Sends ''u64''] ?s"
    by (rule steps_more [OF step_rec steps_none]) (simp add: step_msg_simps)
  ultimately show ?thesis using session_progress [of ?s "()" "()" "[Sends ''u64'']" ?s] by simp
qed

text \<open>
  C22: Records built from any list of fields: the binary search finds exactly the first type given for
  a field, and the linear merge decides inclusion of the field maps together with equality of the tails.
\<close>

theorem record_lookup_and_subtyping:
  "field_type (row_new fs v) k = map_of fs k \<and>
   (sub_record (row_new fs v) (row_new gs w) \<longleftrightarrow> map_of gs \<subseteq>\<^sub>m map_of fs \<and> v = w)"
proof -
  have sets: "(x \<in> set (row_fields (row_new hs t))) = (map_of hs (fst x) = Some (snd x))" for x hs t
    using map_of_eq_Some_iff [OF canonical_distinct [OF row_new_keyed], of hs t "fst x" "snd x"]
    by (simp add: map_of_row_new)
  have "set (row_fields (row_new gs w)) \<subseteq> set (row_fields (row_new fs v)) \<longleftrightarrow> map_of gs \<subseteq>\<^sub>m map_of fs"
    by (auto simp: subset_iff sets map_le_def dom_def)
  then show ?thesis
    by (simp add: field_type_map_of [OF row_new_keyed] map_of_row_new sub_record_iff row_new_keyed row_tail_new)
qed

text \<open>
  C18: On tables without variables, strings and vectors, whose functions and references carry no effects,
  capabilities or lifetimes, and whose types refer to earlier entries only (so they are acyclic, as the tables
  that interning known ids builds), unification returns with as much fuel as the id, leaves the substitution
  alone, and succeeds exactly on equal ids.
\<close>

theorem unify_decides_equality:
  assumes "types_inv tab" "points_back unify_ids tab" "list_all plain (types tab)"
    and "get tab a = Some ta" "get tab b = Some tb" "unat a \<le> fuel"
  shows "\<exists>r. unify fuel tab sub a b = Some (r, sub) \<and> (r = Inr () \<longleftrightarrow> a = b)"
  by (rule unify_plain [OF assms])

theorem unify_decides_equality_witness:
  "\<exists>r. unify 3 (new_types\<lparr>types := [T_UInt 8, T_Tuple [1]], by_value := [T_UInt 8 \<mapsto> 1, T_Tuple [1] \<mapsto> 2]\<rparr>) subst_new 2 1 =
     Some (r, subst_new) \<and> r \<noteq> Inr ()"
proof -
  let ?tab = "new_types\<lparr>types := [T_UInt 8, T_Tuple [1]], by_value := [T_UInt 8 \<mapsto> 1, T_Tuple [1] \<mapsto> 2]\<rparr>"
  have "types_inv ?tab"
    using intern_types_inv [OF intern_types_inv [OF new_types_inv], of "T_UInt 8" 1 _ "T_Tuple [1]" 2]
    by (simp add: new_types_def intern_def type_id_new_def)
  moreover have "points_back unify_ids ?tab" by (rule all_back_points) simp
  ultimately show ?thesis
    using unify_decides_equality [of ?tab 2 "T_Tuple [1]" 1 "T_UInt 8" 3 subst_new]
    by (auto simp: get_def nth_opt_def type_index_def)
qed



text \<open>
  C25: Take two different variables of the same kind, the first one bound to a tuple whose first component is a
  variable other than the first one, in a table in which every id is known.  Unifying the two variables never
  returns, whatever the fuel: the occurs check follows the binding of the first variable, meets the component of
  the tuple, and follows the same binding again.  As every id is known, this is no panic of a lookup.
\<close>

theorem unify_diverges:
  assumes "ids_known tab sub" "get tab a = Some (T_Var v k)" "get tab b = Some (T_Var w k)" "v \<noteq> w" "v \<noteq> 0"
    and "bindings sub v = Some i" "get tab i = Some (T_Tuple (j # js))" "get tab j = Some (T_Var u k')" "u \<noteq> v"
  shows "unify fuel tab sub a b = None"
proof (cases fuel)
  case (Suc n)
  have "occurs_in n sub v tab b = None"
    using occurs_in_diverges [OF assms(8,9,6,7)] assms(3,4,6) by (cases n) (simp_all add: subst_get_def)
  then show ?thesis using Suc assms(2-5) by (simp add: bind_def)
qed simp

theorem unify_diverges_witness:
  "unify 1000 (table_of [T_Var 1 Star, T_Var 2 Star, T_Tuple [2]]) (subst_insert subst_new 1 3) 1 2 = None"
proof -
  let ?tab = "table_of [T_Var 1 Star, T_Var 2 Star, T_Tuple [2]]" and ?sub = "subst_insert subst_new 1 3"
  have g: "get ?tab 1 = Some (T_Var 1 Star)" "get ?tab 2 = Some (T_Var 2 Star)" "get ?tab 3 = Some (T_Tuple [2])"
    by (simp_all add: get_table_of nth_opt_def)
  have "ids_known ?tab ?sub"
    using g by (simp add: ids_known_def table_of_def subst_insert_def subst_new_def)
  with g show ?thesis
    by (intro unify_diverges [of ?tab ?sub 1 1 Star 2 2 3 2 "[]" 2 Star 1000])
      (simp_all add: subst_insert_def subst_new_def)
qed

end
