(* ===== verification/Effect_Rows.thy ===== *)
theory Effect_Rows
  imports Cap_Sets
begin

text \<open>
  \<^verbatim>\<open>crates/paideia-as-effects/src/row.rs\<close> and \<^verbatim>\<open>intern.rs\<close>: effect rows, a canonical vector of effects and
  an optional row variable, and the table that assigns them ids and allocates fresh variables.
  \<^verbatim>\<open>EffectId\<close> and \<^verbatim>\<open>RowVarId\<close> are \<^verbatim>\<open>NonZeroU32\<close>, written as their \<^verbatim>\<open>u32\<close>.
\<close>

section \<open>Rows\<close>

type_synonym effect_id = u32
type_synonym row_var_id = u32

definition effect_id_new :: "u32 \<Rightarrow> effect_id option" where
  "effect_id_new n = (if n = 0 then None else Some n)"

definition row_var_id_new :: "u32 \<Rightarrow> row_var_id option" where
  "row_var_id_new n = (if n = 0 then None else Some n)"

record effect_row =
  fixed_effects :: "effect_id list"
  tail :: "row_var_id option"

definition effect_row_empty :: effect_row where
  "effect_row_empty = \<lparr>fixed_effects = [], tail = None\<rparr>"

definition effect_from_ids :: "effect_id list \<Rightarrow> row_var_id option \<Rightarrow> effect_row" where
  "effect_from_ids ids t = \<lparr>fixed_effects = sort_dedup ids, tail = t\<rparr>"

definition effect_is_empty :: "effect_row \<Rightarrow> bool" where
  "effect_is_empty r \<longleftrightarrow> fixed_effects r = [] \<and> tail r = None"

definition effect_is_closed :: "effect_row \<Rightarrow> bool" where
  "effect_is_closed r \<longleftrightarrow> tail r = None"

definition effect_is_subset_of :: "effect_row \<Rightarrow> effect_row \<Rightarrow> bool" where
  "effect_is_subset_of r q \<longleftrightarrow> list_all (\<lambda>e. e \<in> set (fixed_effects q)) (fixed_effects r)"

definition effect_union :: "effect_row \<Rightarrow> effect_row \<Rightarrow> effect_row" where
  "effect_union r q =
     \<lparr>fixed_effects = sort_dedup (fixed_effects r @ fixed_effects q),
      tail = (case tail r of Some v \<Rightarrow> Some v | None \<Rightarrow> tail q)\<rparr>"

interpretation effect_row: canonical_set "\<lambda>ids. effect_from_ids ids t" fixed_effects tail for t
  by unfold_locales (simp_all add: effect_from_ids_def)

abbreviation effect_wf :: "effect_row \<Rightarrow> bool" where
  "effect_wf r \<equiv> canonical (fixed_effects r)"

lemma tail_from_ids [simp]: "tail (effect_from_ids ids t) = t"
  by (simp add: effect_from_ids_def)

lemma effect_wf_ops [simp, intro]:
  "effect_wf effect_row_empty" "effect_wf (effect_from_ids ids t)" "effect_wf (effect_union r q)"
  by (simp_all add: effect_row_empty_def effect_from_ids_def effect_union_def)

lemma set_effect_ops [set_simps]:
  "set (fixed_effects effect_row_empty) = {}"
  "set (fixed_effects (effect_from_ids ids t)) = set ids"
  "set (fixed_effects (effect_union r q)) = set (fixed_effects r) \<union> set (fixed_effects q)"
  by (simp_all add: effect_row_empty_def effect_from_ids_def effect_union_def)

lemma effect_is_subset_of_iff [set_simps]:
  "effect_is_subset_of r q \<longleftrightarrow> set (fixed_effects r) \<subseteq> set (fixed_effects q)"
  by (auto simp: effect_is_subset_of_def list_all_iff)

lemma effect_row_eqI:
  "effect_wf r \<Longrightarrow> effect_wf q \<Longrightarrow> set (fixed_effects r) = set (fixed_effects q) \<Longrightarrow> tail r = tail q \<Longrightarrow> r = q"
  by (simp add: effect_row.set_eq_iff)

lemma from_ids_wf: "effect_wf r \<Longrightarrow> effect_from_ids (fixed_effects r) (tail r) = r"
  by (rule effect_row_eqI) (simp_all add: set_simps)

lemma effect_union_assoc: "effect_union (effect_union r q) p = effect_union r (effect_union q p)"
  by (rule effect_row_eqI) (auto simp: set_simps effect_union_def split: option.splits)

lemma effect_union_subset:
  "effect_is_subset_of r (effect_union r q)" "effect_is_subset_of q (effect_union r q)"
  by (simp_all add: set_simps)

section \<open>The table of rows\<close>

record effect_interner =
  rows :: "effect_row list"
  rows_by_value :: "effect_row \<rightharpoonup> u32"
  next_fresh_row_var :: u32

definition effect_interner_new :: effect_interner where
  "effect_interner_new =
     \<lparr>rows = [effect_row_empty], rows_by_value = [effect_row_empty \<mapsto> 0], next_fresh_row_var = 1\<rparr>"

definition effect_intern :: "effect_interner \<Rightarrow> effect_row \<Rightarrow> u32 \<times> effect_interner" where
  "effect_intern tab r =
     (case rows_by_value tab r of
        Some i \<Rightarrow> (i, tab)
      | None \<Rightarrow>
          (let i = of_nat (length (rows tab));
               tab = tab\<lparr>rows_by_value := (rows_by_value tab)(r \<mapsto> i)\<rparr>;
               tab = tab\<lparr>rows := rows tab @ [r]\<rparr>
           in (i, tab)))"

definition effect_get :: "effect_interner \<Rightarrow> u32 \<Rightarrow> effect_row option" where
  "effect_get tab i = nth_opt (rows tab) (unat i)"

definition effect_len :: "effect_interner \<Rightarrow> nat" where
  "effect_len tab = length (rows tab)"

interpretation effect_interner: seeded_table rows rows_by_value effect_intern effect_get effect_row_empty
  by unfold_locales (simp_all add: effect_intern_def effect_get_def Let_def)

lemma effect_interner_new_inv:
  "seeded_inv effect_row_empty (rows effect_interner_new) (rows_by_value effect_interner_new)"
  by (simp add: effect_interner_new_def seeded_inv_new)

section \<open>Fresh row variables\<close>

text \<open>
  \<open>None\<close> is a panic: of the first \<^verbatim>\<open>expect\<close>, or of the second (or of the addition, where overflow is
  checked) when the counter is at the largest \<^verbatim>\<open>u32\<close>.
\<close>

definition fresh_row_var :: "effect_interner \<Rightarrow> (row_var_id \<times> effect_interner) option" where
  "fresh_row_var tab =
     (case row_var_id_new (next_fresh_row_var tab) of
        None \<Rightarrow> None
      | Some i \<Rightarrow>
          (if next_fresh_row_var tab + 1 = 0 then None
           else Some (i, tab\<lparr>next_fresh_row_var := next_fresh_row_var tab + 1\<rparr>)))"

definition fresh_row_var_count :: "effect_interner \<Rightarrow> u32" where
  "fresh_row_var_count tab = next_fresh_row_var tab - 1"

text \<open>A run of allocations.\<close>

fun fresh_row_vars :: "nat \<Rightarrow> effect_interner \<Rightarrow> (row_var_id list \<times> effect_interner) option" where
  "fresh_row_vars 0 tab = Some ([], tab)"
| "fresh_row_vars (Suc n) tab =
     (case fresh_row_var tab of
        None \<Rightarrow> None
      | Some (v, tab) \<Rightarrow>
          (case fresh_row_vars n tab of None \<Rightarrow> None | Some (vs, tab) \<Rightarrow> Some (v # vs, tab)))"

lemma fresh_row_vars_eq:
  assumes "fresh_row_vars n tab = Some (vs, tab')"
  shows "map unat vs = [unat (next_fresh_row_var tab) ..< unat (next_fresh_row_var tab) + n] \<and>
    unat (next_fresh_row_var tab') = unat (next_fresh_row_var tab) + n"
  using assms
proof (induction n arbitrary: tab vs tab')
  case (Suc n)
  obtain v tab1 ws where one: "fresh_row_var tab = Some (v, tab1)"
    and more: "fresh_row_vars n tab1 = Some (ws, tab')" "vs = v # ws"
    using Suc.prems by (auto split: option.splits)
  have v: "v = next_fresh_row_var tab" "next_fresh_row_var tab + 1 \<noteq> 0"
    "next_fresh_row_var tab1 = next_fresh_row_var tab + 1"
    using one by (auto simp: fresh_row_var_def row_var_id_new_def split: if_splits)
  then have "unat (next_fresh_row_var tab1) = Suc (unat (next_fresh_row_var tab))"
    by (simp add: unatSuc add.commute)
  then show ?case using Suc.IH [OF more(1)] more(2) v(1) by (simp add: upt_rec)
qed simp

lemma fresh_row_vars_returns:
  assumes "0 < unat (next_fresh_row_var tab)" "unat (next_fresh_row_var tab) + n < 2 ^ 32"
  shows "\<exists>vs tab'. fresh_row_vars n tab = Some (vs, tab')"
  using assms
proof (induction n arbitrary: tab)
  case (Suc n)
  have "unat (next_fresh_row_var tab + 1) = unat (next_fresh_row_var tab) + 1"
    using Suc.prems(2) by (simp add: unat_word_ariths)
  moreover from this have "next_fresh_row_var tab + 1 \<noteq> 0" by (metis add_is_0 unat_0 zero_neq_one)
  ultimately show ?case
    using Suc.IH [of "tab\<lparr>next_fresh_row_var := next_fresh_row_var tab + 1\<rparr>"] Suc.prems
    by (auto simp: fresh_row_var_def row_var_id_new_def)
qed simp

lemma fresh_row_vars_rows: "fresh_row_vars n tab = Some (vs, tab') \<Longrightarrow> rows tab' = rows tab"
  by (induction n arbitrary: tab vs)
    (auto simp: fresh_row_var_def split: option.splits if_splits)

end
