(* ===== verification/Effect_Unify.thy ===== *)
theory Effect_Unify
  imports Effect_Rows "HOL-Library.Finite_Map"
begin

text \<open>
  \<^verbatim>\<open>crates/paideia-as-effects/src/unify.rs\<close>: substitutions of row variables, how they are applied and
  composed, and the unifier of effect rows.  The text rendering of row differences (\<^verbatim>\<open>RowDiff\<close>) is not
  modelled.
\<close>

section \<open>Substitutions\<close>

type_synonym substitution = "(row_var_id, effect_row) fmap"

definition substitution_new :: substitution where
  "substitution_new = fmempty"

definition substitution_bind :: "substitution \<Rightarrow> row_var_id \<Rightarrow> effect_row \<Rightarrow> substitution" where
  "substitution_bind s v r = fmupd v r s"

text \<open>The loop of \<^verbatim>\<open>apply\<close>: it stops at a closed row, at an unbound variable, and at one already seen.\<close>

function apply_from ::
    "substitution \<Rightarrow> effect_id list \<Rightarrow> row_var_id option \<Rightarrow> row_var_id fset \<Rightarrow> effect_id list \<times> row_var_id option" where
  "apply_from s fs None seen = (fs, None)"
| "apply_from s fs (Some v) seen =
     (if v |\<in>| seen then (fs, Some v)
      else
        (case fmlookup s v of
           Some bound \<Rightarrow> apply_from s (fs @ fixed_effects bound) (tail bound) (finsert v seen)
         | None \<Rightarrow> (fs, Some v)))"
  by pat_completeness auto

termination
proof (relation "measure (\<lambda>(s, fs, t, seen). fcard (fmdom s |-| seen))")
  fix s :: substitution and fs :: "effect_id list" and v seen bound
  assume "v |\<notin>| seen" "fmlookup s v = Some bound"
  then have "v |\<in>| fmdom s |-| seen" "v |\<notin>| fmdom s |-| finsert v seen"
    by (simp_all add: fmlookup_dom_iff)
  then have "fmdom s |-| finsert v seen |\<subset>| fmdom s |-| seen" by (metis finsertI2 fminusE fminusI fsubsetI pfsubsetI)
  then show "((s, fs @ fixed_effects bound, tail bound, finsert v seen), s, fs, Some v, seen)
      \<in> measure (\<lambda>(s, fs, t, seen). fcard (fmdom s |-| seen))"
    by (simp add: pfsubset_fcard_mono)
qed simp

definition substitution_apply :: "substitution \<Rightarrow> effect_row \<Rightarrow> effect_row" where
  "substitution_apply s r =
     (let (fs, t) = apply_from s (fixed_effects r) (tail r) {||} in effect_from_ids fs t)"

text \<open>The bindings of \<open>prior\<close>, rewritten, and those of \<open>s\<close> for the variables \<open>prior\<close> leaves out.\<close>

definition substitution_compose :: "substitution \<Rightarrow> substitution \<Rightarrow> substitution" where
  "substitution_compose s prior = fmadd s (fmmap (substitution_apply s) prior)"

section \<open>Walks\<close>

text \<open>The variables a run of the loop goes through, from one tail to another, and the effects it collects.\<close>

fun walk :: "substitution \<Rightarrow> row_var_id option \<Rightarrow> row_var_id list \<Rightarrow> row_var_id option \<Rightarrow> bool" where
  "walk s t [] u \<longleftrightarrow> t = u"
| "walk s t (v # vs) u \<longleftrightarrow> t = Some v \<and> (\<exists>r. fmlookup s v = Some r \<and> walk s (tail r) vs u)"

definition effects_at :: "substitution \<Rightarrow> row_var_id \<Rightarrow> effect_id list" where
  "effects_at s v = (case fmlookup s v of Some r \<Rightarrow> fixed_effects r | None \<Rightarrow> [])"

definition collected :: "substitution \<Rightarrow> row_var_id list \<Rightarrow> effect_id list" where
  "collected s vs = concat (map (effects_at s) vs)"

lemma collected_simps [simp]:
  "collected s [] = []" "collected s (v # vs) = effects_at s v @ collected s vs"
  "collected s (vs @ ws) = collected s vs @ collected s ws"
  by (simp_all add: collected_def)

lemma walk_append: "walk s t (vs @ ws) u \<longleftrightarrow> (\<exists>x. walk s t vs x \<and> walk s x ws u)"
  by (induction vs arbitrary: t) auto

text \<open>The loop runs along a walk of variables not seen before.\<close>

lemma apply_from_walk:
  "walk s t vs u \<Longrightarrow> distinct vs \<Longrightarrow> \<forall>v \<in> set vs. v |\<notin>| seen \<Longrightarrow>
   apply_from s fs t seen = apply_from s (fs @ collected s vs) u (seen |\<union>| fset_of_list vs)"
proof (induction vs arbitrary: t fs seen)
  case (Cons v vs)
  then obtain r where "t = Some v" "fmlookup s v = Some r" "walk s (tail r) vs u" by auto
  then show ?case
    using Cons.prems Cons.IH [of "tail r" "finsert v seen" "fs @ fixed_effects r"]
    by (auto simp: effects_at_def)
qed simp

text \<open>Where the loop stops.\<close>

definition stops :: "substitution \<Rightarrow> row_var_id option \<Rightarrow> row_var_id fset \<Rightarrow> bool" where
  "stops s t seen \<longleftrightarrow> (case t of None \<Rightarrow> True | Some v \<Rightarrow> v |\<in>| seen \<or> fmlookup s v = None)"

lemma apply_from_stops: "stops s t seen \<Longrightarrow> apply_from s fs t seen = (fs, t)"
  by (cases t) (auto simp: stops_def)

text \<open>Every run is a walk to where it stops.\<close>

lemma apply_from_run:
  obtains vs u where "walk s t vs u" "distinct vs" "\<forall>v \<in> set vs. v |\<notin>| seen"
    "stops s u (seen |\<union>| fset_of_list vs)" "apply_from s fs t seen = (fs @ collected s vs, u)"
proof (induction s fs t seen arbitrary: thesis rule: apply_from.induct)
  case (1 s fs seen)
  show ?case by (rule 1 [of "[]" None]) (simp_all add: stops_def)
next
  case (2 s fs v seen)
  show ?case
  proof (cases "v |\<in>| seen \<or> fmlookup s v = None")
    case True
    then show ?thesis by (intro "2.prems" [of "[]" "Some v"]) (auto simp: stops_def)
  next
    case False
    then obtain r where r: "v |\<notin>| seen" "fmlookup s v = Some r" by blast
    obtain vs u where "walk s (tail r) vs u" "distinct vs" "\<forall>w \<in> set vs. w |\<notin>| finsert v seen"
      "stops s u (finsert v seen |\<union>| fset_of_list vs)"
      "apply_from s (fs @ fixed_effects r) (tail r) (finsert v seen) = (fs @ fixed_effects r @ collected s vs, u)"
      using "2.IH" [OF r] by (metis append_assoc)
    then show ?thesis
      using r by (intro "2.prems" [of "v # vs" u]) (auto simp: effects_at_def)
  qed
qed

lemma substitution_apply_run:
  obtains vs u where "walk s (tail r) vs u" "distinct vs" "stops s u (fset_of_list vs)"
    "substitution_apply s r = effect_from_ids (fixed_effects r @ collected s vs) u"
proof -
  obtain vs u where "walk s (tail r) vs u" "distinct vs" "stops s u ({||} |\<union>| fset_of_list vs)"
    "apply_from s (fixed_effects r) (tail r) {||} = (fixed_effects r @ collected s vs, u)"
    by (rule apply_from_run)
  then show ?thesis by (intro that [of vs u]) (simp_all add: substitution_apply_def)
qed

lemma apply_wf [simp]: "effect_wf (substitution_apply s r)"
  by (simp add: substitution_apply_def split: prod.split)

text \<open>Effects are only ever added.\<close>

lemma apply_subset: "effect_is_subset_of r (substitution_apply s r)"
  by (rule substitution_apply_run [of s r]) (simp add: set_simps)

lemma apply_unbound:
  assumes "effect_wf r" "stops s (tail r) {||}"
  shows "substitution_apply s r = r"
  using assms by (simp add: substitution_apply_def apply_from_stops from_ids_wf)

text \<open>The effects a row starts with are only carried along.\<close>

lemma apply_from_base:
  "apply_from s (es @ fs) t seen = (let (gs, u) = apply_from s fs t seen in (es @ gs, u))"
  by (induction s fs t seen rule: apply_from.induct) (simp_all split: option.split)

lemma apply_cong:
  assumes "set (fixed_effects r) = set (fixed_effects q)" "tail r = tail q"
  shows "substitution_apply s r = substitution_apply s q"
proof -
  obtain gs u where "apply_from s [] (tail q) {||} = (gs, u)" by fastforce
  then show ?thesis
    using apply_from_base [of s _ "[]" "tail q" "{||}"] assms
    by (intro effect_row_eqI) (simp_all add: substitution_apply_def set_simps)
qed

section \<open>Applying twice\<close>

text \<open>A walk that stops on one of its own variables goes round when it is started there.\<close>

lemma walk_round:
  assumes "walk s t vs (Some v)" "v \<in> set vs"
  obtains ws where "walk s (Some v) ws (Some v)" "set ws \<subseteq> set vs" "v \<in> set ws" "distinct vs \<longrightarrow> distinct ws"
proof -
  obtain xs ys where vs: "vs = xs @ v # ys" using assms(2) by (auto simp: in_set_conv_decomp)
  then have "walk s (Some v) (v # ys) (Some v)" using assms(1) by (auto simp: walk_append)
  then show ?thesis by (rule that) (auto simp: vs)
qed

lemma collected_mono: "set vs \<subseteq> set ws \<Longrightarrow> set (collected s vs) \<subseteq> set (collected s ws)"
  by (auto simp: collected_def)

text \<open>Whatever the bindings, cycles included, a second application changes nothing.\<close>

lemma apply_idempotent: "substitution_apply s (substitution_apply s r) = substitution_apply s r"
proof (rule substitution_apply_run [of s r])
  fix vs u
  assume w: "walk s (tail r) vs u" "distinct vs" and st: "stops s u (fset_of_list vs)"
    and r: "substitution_apply s r = effect_from_ids (fixed_effects r @ collected s vs) u"
  show ?thesis
  proof (cases "stops s u {||}")
    case True
    then show ?thesis using r by (intro apply_unbound) simp_all
  next
    case False
    then obtain v where v: "u = Some v" "v \<in> set vs"
      using st by (auto simp: stops_def fset_of_list_elem split: option.splits)
    obtain ws where ws: "walk s (Some v) ws (Some v)" "set ws \<subseteq> set vs" "v \<in> set ws" "distinct ws"
      using walk_round w v by metis
    let ?q = "substitution_apply s r"
    have "apply_from s (fixed_effects ?q) u {||} = (fixed_effects ?q @ collected s ws, u)"
      using apply_from_walk [OF ws(1,4), of "{||}"] ws(3) v(1)
      by (simp add: apply_from_stops stops_def fset_of_list_elem)
    then have "substitution_apply s ?q = effect_from_ids (fixed_effects ?q @ collected s ws) u"
      using r by (simp add: substitution_apply_def)
    also have "\<dots> = ?q"
      using collected_mono [OF ws(2)] r by (intro effect_row_eqI) (auto simp: set_simps)
    finally show ?thesis .
  qed
qed

section \<open>Composition\<close>

lemma compose_lookup:
  "fmlookup (substitution_compose s p) v =
     (case fmlookup p v of Some r \<Rightarrow> Some (substitution_apply s r) | None \<Rightarrow> fmlookup s v)"
  by (auto simp: substitution_compose_def split: option.splits)

text \<open>
  The two substitutions bind different variables, and the bindings of the later one do not lead back
  to the variables of the earlier one.
\<close>

definition layered :: "substitution \<Rightarrow> substitution \<Rightarrow> bool" where
  "layered s p \<longleftrightarrow>
     (\<forall>v r. fmlookup s v = Some r \<longrightarrow>
        fmlookup p v = None \<and> (\<forall>w. tail r = Some w \<longrightarrow> fmlookup p w = None))"

text \<open>A tail that the earlier substitution leaves alone.\<close>

abbreviation outside :: "substitution \<Rightarrow> row_var_id option \<Rightarrow> bool" where
  "outside p t \<equiv> stops p t {||}"

lemma outside_simps [simp]:
  "outside p None" "outside p (Some v) \<longleftrightarrow> fmlookup p v = None"
  by (simp_all add: stops_def)

lemma layered_walk:
  "layered s p \<Longrightarrow> walk s t vs u \<Longrightarrow> outside p t \<Longrightarrow>
   walk (substitution_compose s p) t vs u \<and> collected (substitution_compose s p) vs = collected s vs \<and> outside p u"
proof (induction vs arbitrary: t)
  case (Cons v vs)
  then obtain r where r: "t = Some v" "fmlookup s v = Some r" "walk s (tail r) vs u" by auto
  have "outside p (tail r)"
    using Cons.prems(1) r(2) by (cases "tail r") (auto simp: layered_def)
  then show ?case
    using Cons.IH [OF Cons.prems(1) r(3)] Cons.prems(3) r by (simp add: compose_lookup effects_at_def)
qed simp

text \<open>Outside the earlier substitution the composition does what the later one does.\<close>

lemma compose_outside:
  assumes "layered s p" "outside p t" "\<forall>v. v |\<in>| seen \<longrightarrow> fmlookup p v \<noteq> None"
  shows "apply_from (substitution_compose s p) fs t seen = apply_from s fs t {||}"
proof -
  let ?c = "substitution_compose s p"
  obtain vs u where w: "walk s t vs u" "distinct vs" and st: "stops s u ({||} |\<union>| fset_of_list vs)"
    and r: "apply_from s fs t {||} = (fs @ collected s vs, u)"
    by (rule apply_from_run)
  note c = layered_walk [OF assms(1) w(1) assms(2)]
  have "fmlookup s v \<noteq> None" if "v \<in> set vs" for v
    using w(1) that by (auto simp: in_set_conv_decomp walk_append)
  then have new: "v |\<notin>| seen" if "v \<in> set vs" for v
    using assms(1,3) that unfolding layered_def by blast
  have "stops ?c u (seen |\<union>| fset_of_list vs)"
    using st c by (auto simp: stops_def compose_lookup split: option.splits)
  then show ?thesis
    using apply_from_walk [of ?c t vs u seen fs] c w(2) new r by (simp add: apply_from_stops)
qed

text \<open>Inside it, a binding that stays inside is not changed.\<close>

lemma compose_inside:
  assumes "layered s p" "\<forall>v r. fmlookup p v = Some r \<longrightarrow> effect_wf r"
    and "fmlookup p v = Some r" "tail r = Some w" "fmlookup p w \<noteq> None"
  shows "fmlookup (substitution_compose s p) v = Some r"
proof -
  have "fmlookup s w = None" using assms(1,5) by (cases "fmlookup s w") (auto simp: layered_def)
  then have "substitution_apply s r = r"
    using assms(2-4) by (intro apply_unbound) simp_all
  then show ?thesis using assms(3) by (simp add: compose_lookup)
qed

lemma walk_last: "walk s t (vs @ [v]) u \<Longrightarrow> \<exists>r. fmlookup s v = Some r \<and> tail r = u"
  by (auto simp: walk_append)

lemma compose_walk:
  assumes "layered s p" "\<forall>v r. fmlookup p v = Some r \<longrightarrow> effect_wf r"
    and "walk p t vs (Some w)" "fmlookup p w \<noteq> None"
  shows "walk (substitution_compose s p) t vs (Some w) \<and>
    collected (substitution_compose s p) vs = collected p vs"
  using assms(3)
proof (induction vs arbitrary: t)
  case (Cons v vs)
  then obtain r where r: "t = Some v" "fmlookup p v = Some r" "walk p (tail r) vs (Some w)" by auto
  then obtain x where "tail r = Some x" "fmlookup p x \<noteq> None"
    using assms(4) by (cases vs) auto
  then have "fmlookup (substitution_compose s p) v = Some r"
    by (rule compose_inside [OF assms(1,2) r(2)])
  then show ?case using Cons.IH [OF r(3)] r by (simp add: effects_at_def)
qed simp

text \<open>The case of a chain that leaves the earlier substitution at its last variable.\<close>

lemma compose_leaves:
  assumes lay: "layered s p" and canon: "\<forall>v r. fmlookup p v = Some r \<longrightarrow> effect_wf r"
    and w: "walk p (tail r) (ws @ [v]) u" "distinct (ws @ [v])" and u: "outside p u"
  shows "substitution_apply (substitution_compose s p) r =
    substitution_apply s (effect_from_ids (fixed_effects r @ collected p (ws @ [v])) u)"
    (is "_ = substitution_apply s ?q")
proof -
  let ?c = "substitution_compose s p" and ?vs = "ws @ [v]"
  obtain b where b: "fmlookup p v = Some b" "tail b = u" and ws: "walk p (tail r) ws (Some v)"
    using w(1) by (auto simp: walk_append)
  have c: "walk ?c (tail r) ws (Some v)" "collected ?c ws = collected p ws"
    using compose_walk [OF lay canon ws] b(1) by auto
  have cv: "fmlookup ?c v = Some (substitution_apply s b)" using b(1) by (simp add: compose_lookup)
  obtain gs x where g: "apply_from s [] u {||} = (gs, x)" by fastforce
  have app: "substitution_apply s y = effect_from_ids (fixed_effects y @ gs) x" if "tail y = u" for y
    using apply_from_base [of s "fixed_effects y" "[]" u "{||}"] g that by (simp add: substitution_apply_def)
  have x: "outside p x"
    using apply_from_run [of s u "{||}" "[]"] layered_walk [OF lay _ u] g by (metis prod.inject)
  have bound: "fmlookup p y \<noteq> None" if "y \<in> set ?vs" for y
    using w(1) that by (auto simp: in_set_conv_decomp walk_append)
  have "apply_from ?c (fixed_effects r) (tail r) {||} =
      apply_from ?c (fixed_effects r @ collected ?c ?vs) x (fset_of_list ?vs)"
    using apply_from_walk [of ?c "tail r" ?vs x "{||}"] w(2) c(1) cv app [OF b(2)] by (auto simp: walk_append)
  also have "\<dots> = apply_from s (fixed_effects r @ collected ?c ?vs) x {||}"
    using bound by (intro compose_outside [OF lay x]) (auto simp: fset_of_list_elem)
  finally have "substitution_apply ?c r =
      substitution_apply s \<lparr>fixed_effects = fixed_effects r @ collected ?c ?vs, tail = x\<rparr>"
    by (simp add: substitution_apply_def)
  also have "\<dots> = substitution_apply s (substitution_apply s ?q)"
    using c(2) cv b app [OF b(2)] app [of ?q]
    by (intro apply_cong) (auto simp: set_simps effects_at_def)
  finally show ?thesis by (simp add: apply_idempotent)
qed

text \<open>\<open>(s \<circ> p)(r) = s(p(r))\<close> for layered substitutions.\<close>

lemma compose_apply:
  assumes lay: "layered s p" and canon: "\<forall>v r. fmlookup p v = Some r \<longrightarrow> effect_wf r"
  shows "substitution_apply (substitution_compose s p) r = substitution_apply s (substitution_apply p r)"
proof (rule substitution_apply_run [of p r])
  fix vs u
  let ?c = "substitution_compose s p"
  assume w: "walk p (tail r) vs u" "distinct vs" and st: "stops p u (fset_of_list vs)"
    and q: "substitution_apply p r = effect_from_ids (fixed_effects r @ collected p vs) u"
  show ?thesis
  proof (cases "outside p u")
    case False
    then obtain v where v: "u = Some v" "fmlookup p v \<noteq> None" "v \<in> set vs"
      using st by (cases u) (auto simp: stops_def fset_of_list_elem)
    then have "fmlookup s v = None" using lay by (cases "fmlookup s v") (auto simp: layered_def)
    then have "substitution_apply s (substitution_apply p r) = substitution_apply p r"
      using q v(1) by (intro apply_unbound) simp_all
    moreover have "walk ?c (tail r) vs u \<and> collected ?c vs = collected p vs"
      using compose_walk [OF lay canon] w(1) v by blast
    then have "apply_from ?c (fixed_effects r) (tail r) {||} = (fixed_effects r @ collected p vs, u)"
      using apply_from_walk [of ?c "tail r" vs u "{||}"] w(2) v
      by (simp add: apply_from_stops stops_def fset_of_list_elem)
    ultimately show ?thesis using q by (simp add: substitution_apply_def)
  next
    case True
    show ?thesis
    proof (cases vs rule: rev_cases)
      case Nil
      then have "substitution_apply s r = substitution_apply s (substitution_apply p r)"
        using w(1) q by (intro apply_cong) (simp_all add: set_simps)
      then show ?thesis
        using compose_outside [OF lay True, of "{||}"] w(1) Nil by (simp add: substitution_apply_def)
    next
      case (snoc ws v)
      then show ?thesis using compose_leaves [OF lay canon _ _ True] w q by simp
    qed
  qed
qed

section \<open>Unification\<close>

datatype row_error = Mismatch

definition effect_unify :: "effect_row \<Rightarrow> effect_row \<Rightarrow> row_error + substitution" where
  "effect_unify a b =
     (let extras_a_only = filter (\<lambda>e. e \<notin> set (fixed_effects b)) (fixed_effects a);
          extras_b_only = filter (\<lambda>e. e \<notin> set (fixed_effects a)) (fixed_effects b);
          s = substitution_new;
          bind_b = (\<lambda>s.
            if extras_a_only \<noteq> [] then
              (case tail b of
                 Some v \<Rightarrow> Inr (substitution_bind s v (effect_from_ids extras_a_only (tail a)))
               | None \<Rightarrow> Inl Mismatch)
            else Inr s)
      in if extras_b_only \<noteq> [] then
           (case tail a of
              Some v \<Rightarrow> bind_b (substitution_bind s v (effect_from_ids extras_b_only (tail b)))
            | None \<Rightarrow> Inl Mismatch)
         else bind_b s)"

text \<open>What a row stands for when its variable stands for a set of effects.\<close>

definition denotes :: "(row_var_id \<Rightarrow> effect_id set) \<Rightarrow> effect_row \<Rightarrow> effect_id set" where
  "denotes val r = set (fixed_effects r) \<union> (case tail r of None \<Rightarrow> {} | Some v \<Rightarrow> val v)"

lemma effect_unify_ok_iff:
  "(\<exists>s. effect_unify a b = Inr s) \<longleftrightarrow>
     (tail a = None \<longrightarrow> effect_is_subset_of b a) \<and> (tail b = None \<longrightarrow> effect_is_subset_of a b)"
  by (auto simp: effect_unify_def Let_def set_simps filter_empty_conv subset_iff split: option.splits)

text \<open>The unifier succeeds exactly when the two rows have a common instance.\<close>

lemma effect_unify_complete:
  "(\<exists>s. effect_unify a b = Inr s) \<longleftrightarrow> (\<exists>val. denotes val a = denotes val b)"
proof
  assume "\<exists>s. effect_unify a b = Inr s"
  then have "denotes (\<lambda>_. set (fixed_effects a) \<union> set (fixed_effects b)) a =
      denotes (\<lambda>_. set (fixed_effects a) \<union> set (fixed_effects b)) b"
    unfolding effect_unify_ok_iff by (auto simp: denotes_def set_simps split: option.splits)
  then show "\<exists>val. denotes val a = denotes val b" by blast
next
  assume "\<exists>val. denotes val a = denotes val b"
  then show "\<exists>s. effect_unify a b = Inr s"
    unfolding effect_unify_ok_iff by (auto simp: denotes_def set_simps split: option.splits)
qed

lemma effect_unify_closed:
  assumes "effect_wf a" "effect_wf b" "effect_is_closed a" "effect_is_closed b"
  shows "effect_unify a b = (if a = b then Inr substitution_new else Inl Mismatch)"
proof -
  have "a = b \<longleftrightarrow> set (fixed_effects a) = set (fixed_effects b)"
    using assms by (intro effect_row.set_eq_iff) (simp_all add: effect_is_closed_def)
  then show ?thesis
    using assms by (auto simp: effect_unify_def Let_def effect_is_closed_def filter_empty_conv)
qed

text \<open>One row's effects are among the other's: its tail takes up the rest.\<close>

lemma unify_one_sided:
  assumes "effect_wf b" "tail a = Some v" "set (fixed_effects a) \<subseteq> set (fixed_effects b)"
    and s: "fmlookup s v = Some (effect_from_ids (filter (\<lambda>e. e \<notin> set (fixed_effects a)) (fixed_effects b)) (tail b))"
      "\<And>w. w \<noteq> v \<Longrightarrow> fmlookup s w = None"
  shows "substitution_apply s a = b" "substitution_apply s b = b"
proof -
  have "tail b = None \<or> tail b = Some v \<or> (\<exists>w. tail b = Some w \<and> w \<noteq> v \<and> fmlookup s w = None)"
    using s(2) by (metis option.exhaust)
  then show "substitution_apply s a = b" "substitution_apply s b = b"
    using assms by (auto simp: substitution_apply_def intro!: effect_row_eqI) (auto simp: set_simps)
qed

text \<open>Both rows have effects of their own: the tails are bound to each other.\<close>

lemma unify_two_sided:
  assumes "\<not> effect_is_subset_of a b" "\<not> effect_is_subset_of b a" and ok: "effect_unify a b = Inr s"
  shows "substitution_apply s a \<noteq> substitution_apply s b"
proof -
  let ?ea = "filter (\<lambda>e. e \<notin> set (fixed_effects b)) (fixed_effects a)"
  let ?eb = "filter (\<lambda>e. e \<notin> set (fixed_effects a)) (fixed_effects b)"
  have ne: "?ea \<noteq> []" "?eb \<noteq> []"
    using assms(1,2) by (auto simp: effect_is_subset_of_iff filter_empty_conv)
  then obtain v w where t: "tail a = Some v" "tail b = Some w"
    and s: "s = fmupd w (effect_from_ids ?ea (Some v)) (fmupd v (effect_from_ids ?eb (Some w)) fmempty)"
    using ok by (auto simp: effect_unify_def Let_def substitution_bind_def substitution_new_def
        simp del: filter_empty_conv split: option.splits if_splits)
  show ?thesis
  proof (cases "v = w")
    case True
    then have "set (fixed_effects (substitution_apply s a)) = set (fixed_effects a)"
      "set (fixed_effects (substitution_apply s b)) = set (fixed_effects a) \<union> set (fixed_effects b)"
      using t by (auto simp: s substitution_apply_def set_simps)
    then show ?thesis using assms(2) by (auto simp: effect_is_subset_of_iff)
  next
    case False
    then have "tail (substitution_apply s a) = Some v" "tail (substitution_apply s b) = Some w"
      using t by (simp_all add: s substitution_apply_def)
    then show ?thesis using False by auto
  qed
qed

lemma effect_unify_same:
  "set (fixed_effects a) = set (fixed_effects b) \<Longrightarrow> effect_unify a b = Inr fmempty"
  by (simp add: effect_unify_def substitution_new_def filter_empty_conv Let_def)

lemma effect_unify_left:
  assumes "set (fixed_effects a) \<subset> set (fixed_effects b)" "effect_unify a b = Inr s"
  obtains v where "tail a = Some v"
    "s = fmupd v (effect_from_ids (filter (\<lambda>e. e \<notin> set (fixed_effects a)) (fixed_effects b)) (tail b)) fmempty"
  using assms by (auto simp: effect_unify_def substitution_new_def substitution_bind_def Let_def
      filter_empty_conv split: option.splits if_splits)

lemma effect_unify_right:
  assumes "set (fixed_effects b) \<subset> set (fixed_effects a)" "effect_unify a b = Inr s"
  obtains v where "tail b = Some v"
    "s = fmupd v (effect_from_ids (filter (\<lambda>e. e \<notin> set (fixed_effects b)) (fixed_effects a)) (tail a)) fmempty"
  using assms by (auto simp: effect_unify_def substitution_new_def substitution_bind_def Let_def
      filter_empty_conv split: option.splits if_splits)

text \<open>
  The substitution makes the rows equal exactly when not both rows have effects of their own, and rows
  with the same effects have the same tail.
\<close>

lemma effect_unify_sound:
  assumes canon: "effect_wf a" "effect_wf b" and ok: "effect_unify a b = Inr s"
  shows "substitution_apply s a = substitution_apply s b \<longleftrightarrow>
    (effect_is_subset_of a b \<or> effect_is_subset_of b a) \<and>
    (set (fixed_effects a) = set (fixed_effects b) \<longrightarrow> tail a = tail b)"
proof -
  consider (same) "set (fixed_effects a) = set (fixed_effects b)"
    | (left) "set (fixed_effects a) \<subset> set (fixed_effects b)"
    | (right) "set (fixed_effects b) \<subset> set (fixed_effects a)"
    | (both) "\<not> effect_is_subset_of a b" "\<not> effect_is_subset_of b a"
    by (auto simp: effect_is_subset_of_iff)
  then show ?thesis
  proof cases
    case same
    then have "s = fmempty" using ok effect_unify_same by simp
    then have "substitution_apply s a = a" "substitution_apply s b = b"
      using canon by (auto intro!: apply_unbound simp: stops_def split: option.splits)
    then show ?thesis using same canon effect_row_eqI by (auto simp: effect_is_subset_of_iff)
  next
    case left
    then obtain v where "tail a = Some v"
      "s = fmupd v (effect_from_ids (filter (\<lambda>e. e \<notin> set (fixed_effects a)) (fixed_effects b)) (tail b)) fmempty"
      using ok by (rule effect_unify_left)
    then show ?thesis
      using unify_one_sided [OF canon(2), of a v s] left by (auto simp: effect_is_subset_of_iff)
  next
    case right
    then obtain v where "tail b = Some v"
      "s = fmupd v (effect_from_ids (filter (\<lambda>e. e \<notin> set (fixed_effects b)) (fixed_effects a)) (tail a)) fmempty"
      using ok by (rule effect_unify_right)
    then show ?thesis
      using unify_one_sided [OF canon(1), of b v s] right by (auto simp: effect_is_subset_of_iff)
  next
    case both
    then show ?thesis using unify_two_sided ok by blast
  qed
qed

end
