(* ===== verification/Effect_Registry.thy ===== *)
theory Effect_Registry
  imports Effect_Rows "HOL-Library.Finite_Map" "HOL-Library.List_Lexorder" "HOL-Library.Char_ord"
begin

text \<open>
  \<^verbatim>\<open>crates/paideia-as-effects/src/registry.rs\<close>, \<^verbatim>\<open>effect_cap_binding.rs\<close> and \<^verbatim>\<open>capabilities.rs\<close>: declared
  effects and their operations, the capability each root effect requires, and the built-in
  capabilities.  Of a diagnostic the effect's name, the differing operation names and the position are
  kept; its wording is not.
\<close>

section \<open>State\<close>

type_synonym signature_id = u32

record span =
  span_file :: u32
  byte_start :: u32
  byte_len :: u32

record operation =
  effect :: effect_id
  signature :: signature_id
  op_decl_span :: span

record effect_registry =
  effect_ids :: "(string, effect_id) fmap"
  effect_names :: "(effect_id, string) fmap"
  operations :: "(string, operation) fmap"
  effect_op_names :: "(effect_id, string fset) fmap"
  next_id :: u32

datatype registry_diag = RedeclMismatch string "string list" span

definition registry_new :: effect_registry where
  "registry_new =
     \<lparr>effect_ids = fmempty, effect_names = fmempty, operations = fmempty, effect_op_names = fmempty, next_id = 0\<rparr>"

section \<open>Operations\<close>

text \<open>\<open>None\<close> is the panic of \<^verbatim>\<open>next_id += 1\<close> or of the \<^verbatim>\<open>expect\<close> after it, when the counter wraps.\<close>

definition intern_effect :: "effect_registry \<Rightarrow> string \<Rightarrow> (effect_id \<times> effect_registry) option" where
  "intern_effect reg name =
     (case fmlookup (effect_ids reg) name of
        Some i \<Rightarrow> Some (i, reg)
      | None \<Rightarrow>
          (let reg = reg\<lparr>next_id := next_id reg + 1\<rparr>
           in case effect_id_new (next_id reg) of
                None \<Rightarrow> None
              | Some i \<Rightarrow>
                  (let reg = reg\<lparr>effect_ids := fmupd name i (effect_ids reg)\<rparr>;
                       reg = reg\<lparr>effect_names := fmupd i name (effect_names reg)\<rparr>;
                       reg = reg\<lparr>effect_op_names := fmupd i {||} (effect_op_names reg)\<rparr>
                   in Some (i, reg))))"

definition op_path :: "string \<Rightarrow> string \<Rightarrow> string" where
  "op_path name op_name = name @ ''.'' @ op_name"

definition add_op :: "string \<Rightarrow> effect_id \<Rightarrow> string \<times> signature_id \<times> span \<Rightarrow> effect_registry \<Rightarrow> effect_registry" where
  "add_op name i op reg =
     (case op of (op_name, sig, sp) \<Rightarrow>
        reg\<lparr>operations :=
          fmupd (op_path name op_name) \<lparr>effect = i, signature = sig, op_decl_span = sp\<rparr> (operations reg)\<rparr>)"

definition declare_effect ::
    "effect_registry \<Rightarrow> string \<Rightarrow> (string \<times> signature_id \<times> span) list \<Rightarrow> span \<Rightarrow>
     (registry_diag list \<times> effect_registry) option" where
  "declare_effect reg name ops decl_span =
     (case intern_effect reg name of
        None \<Rightarrow> None
      | Some (i, reg) \<Rightarrow>
          (let new_names = fset_of_list (map fst ops);
               existing = (case fmlookup (effect_op_names reg) i of Some ns \<Rightarrow> ns | None \<Rightarrow> {||});
               diags =
                 (if existing \<noteq> {||} \<and> existing \<noteq> new_names
                  then [RedeclMismatch name
                          (sorted_list_of_fset ((existing |-| new_names) |\<union>| (new_names |-| existing))) decl_span]
                  else []);
               reg = reg\<lparr>effect_op_names := fmupd i new_names (effect_op_names reg)\<rparr>
           in Some (diags, fold (add_op name i) ops reg)))"

definition lookup_op :: "effect_registry \<Rightarrow> string \<Rightarrow> operation option" where
  "lookup_op reg path = fmlookup (operations reg) path"

definition lookup_effect :: "effect_registry \<Rightarrow> string \<Rightarrow> effect_id option" where
  "lookup_effect reg name = fmlookup (effect_ids reg) name"

definition registered_effects :: "effect_registry \<Rightarrow> (effect_id \<times> string) list" where
  "registered_effects reg =
     map (\<lambda>i. (i, the (fmlookup (effect_names reg) i))) (sorted_list_of_fset (fmdom (effect_names reg)))"

definition sentinel_span :: span where
  "sentinel_span = \<lparr>span_file = 0xFFFFFFFF, byte_start = 0, byte_len = 0\<rparr>"

definition register_macro_effects :: "effect_registry \<Rightarrow> effect_registry option" where
  "register_macro_effects reg =
     (case declare_effect reg ''Diag'' [(''emit'', 0, sentinel_span)] sentinel_span of
        None \<Rightarrow> None
      | Some (_, reg) \<Rightarrow>
          (case declare_effect reg ''Elab'' [(''elab'', 0, sentinel_span)] sentinel_span of
             None \<Rightarrow> None
           | Some (_, reg) \<Rightarrow>
               (case declare_effect reg ''FreshName'' [(''fresh'', 0, sentinel_span)] sentinel_span of
                  None \<Rightarrow> None
                | Some (_, reg) \<Rightarrow> Some reg)))"

text \<open>\<open>None\<close> is the panic of one of the three \<^verbatim>\<open>expect\<close>s.\<close>

definition macro_effect_row :: "effect_registry \<Rightarrow> effect_row option" where
  "macro_effect_row reg =
     (case lookup_effect reg ''Diag'' of
        None \<Rightarrow> None
      | Some d \<Rightarrow>
          (case lookup_effect reg ''Elab'' of
             None \<Rightarrow> None
           | Some e \<Rightarrow>
               (case lookup_effect reg ''FreshName'' of
                  None \<Rightarrow> None
                | Some f \<Rightarrow> Some (effect_from_ids [d, e, f] None))))"

section \<open>Invariant\<close>

text \<open>The two maps are inverse to each other, every id handed out is between 1 and the counter.\<close>

definition registry_inv :: "effect_registry \<Rightarrow> bool" where
  "registry_inv reg \<longleftrightarrow>
     (\<forall>n i. fmlookup (effect_ids reg) n = Some i \<longleftrightarrow> fmlookup (effect_names reg) i = Some n) \<and>
     (\<forall>i n. fmlookup (effect_names reg) i = Some n \<longrightarrow> 0 < i \<and> i \<le> next_id reg)"

definition registry_room :: "effect_registry \<Rightarrow> bool" where
  "registry_room reg \<longleftrightarrow> next_id reg + 1 \<noteq> 0"

lemma registry_new_inv: "registry_inv registry_new"
  by (simp add: registry_inv_def registry_new_def)

lemma registry_fresh:
  assumes "registry_inv reg" "registry_room reg"
  shows "fmlookup (effect_names reg) (next_id reg + 1) = None"
proof (rule ccontr)
  assume "fmlookup (effect_names reg) (next_id reg + 1) \<noteq> None"
  then have "next_id reg + 1 \<le> next_id reg" using assms(1) by (auto simp: registry_inv_def)
  moreover have "next_id reg < next_id reg + 1"
    using assms(2) by (simp add: registry_room_def word_less_nat_alt unatSuc add.commute)
  ultimately show False by simp
qed

lemma intern_effect_inv:
  assumes inv: "registry_inv reg" and e: "intern_effect reg name = Some (i, reg')"
  shows "registry_inv reg'"
proof (cases "fmlookup (effect_ids reg) name")
  case None
  then have i: "i = next_id reg + 1" "i \<noteq> 0"
    and reg': "effect_ids reg' = fmupd name i (effect_ids reg)"
      "effect_names reg' = fmupd i name (effect_names reg)" "next_id reg' = i"
    using e by (auto simp: intern_effect_def effect_id_new_def Let_def split: if_splits)
  then have fresh: "fmlookup (effect_names reg) i = None"
    using registry_fresh [OF inv] by (simp add: registry_room_def)
  have le: "next_id reg \<le> i" using i by (simp add: word_le_nat_alt unatSuc add.commute)
  have "fmlookup (effect_names reg) k \<noteq> Some name" for k
    using inv None by (metis option.distinct(1) registry_inv_def)
  then show ?thesis
    using inv i fresh None le unfolding registry_inv_def reg'
    by (auto simp: word_gt_0 dest: order_trans)
qed (use assms in \<open>simp add: intern_effect_def\<close>)

interpretation effects: interner intern_effect "\<lambda>reg i. fmlookup (effect_names reg) i" registry_inv registry_room
proof
  fix reg name i reg' j n
  assume inv: "registry_inv reg"
  show "fmlookup (effect_names reg) i = Some name \<Longrightarrow> intern_effect reg name = Some (i, reg)"
    using inv by (metis (no_types, lifting) intern_effect_def option.simps(5) registry_inv_def)
  assume room: "registry_room reg"
  show "\<exists>i reg'. intern_effect reg name = Some (i, reg')"
    using room by (auto simp: registry_room_def intern_effect_def effect_id_new_def Let_def split: option.split)
  assume e: "intern_effect reg name = Some (i, reg')"
  show "registry_inv reg'" by (rule intern_effect_inv [OF inv e])
  show "fmlookup (effect_names reg') i = Some name"
    using e inv by (auto simp: intern_effect_def effect_id_new_def Let_def registry_inv_def
        split: option.splits if_splits)
  show "fmlookup (effect_names reg) j = Some n \<Longrightarrow> fmlookup (effect_names reg') j = Some n"
    using e registry_fresh [OF inv room]
    by (auto simp: intern_effect_def effect_id_new_def Let_def split: option.splits if_splits)
qed

section \<open>Declarations\<close>

lemma op_path_same [simp]: "op_path name m = op_path name n \<longleftrightarrow> m = n"
  by (simp add: op_path_def)

text \<open>Paths of effects without a dot in their names do not collide.\<close>

lemma op_path_eq_iff:
  assumes "CHR ''.'' \<notin> set name" "CHR ''.'' \<notin> set name'"
  shows "op_path name m = op_path name' n \<longleftrightarrow> name = name' \<and> m = n"
proof
  assume e: "op_path name m = op_path name' n"
  have "takeWhile (\<lambda>c. c \<noteq> CHR ''.'') (op_path nm op) = nm" if "CHR ''.'' \<notin> set nm" for nm op
    using that by (auto simp: op_path_def takeWhile_append)
  then have "name = name'" using e assms by metis
  then show "name = name' \<and> m = n" using e by simp
qed simp

definition op_record :: "effect_id \<Rightarrow> signature_id \<times> span \<Rightarrow> operation" where
  "op_record i x = \<lparr>effect = i, signature = fst x, op_decl_span = snd x\<rparr>"

text \<open>The last triple for a name wins; everything else is left alone.\<close>

lemma fold_add_op:
  "fmlookup (operations (fold (add_op name i) ops reg)) (op_path name n) =
     (case map_of (rev ops) n of
        Some x \<Rightarrow> Some (op_record i x)
      | None \<Rightarrow> fmlookup (operations reg) (op_path name n))"
  "(\<forall>n. path \<noteq> op_path name n) \<Longrightarrow>
   fmlookup (operations (fold (add_op name i) ops reg)) path = fmlookup (operations reg) path"
  by (induction ops arbitrary: reg)
    (auto simp: add_op_def op_record_def map_add_def split: option.splits prod.splits)

lemma fold_add_op_rest [simp]:
  "effect_ids (fold (add_op name i) ops reg) = effect_ids reg"
  "effect_names (fold (add_op name i) ops reg) = effect_names reg"
  "effect_op_names (fold (add_op name i) ops reg) = effect_op_names reg"
  "next_id (fold (add_op name i) ops reg) = next_id reg"
  by (induction ops arbitrary: reg) (simp_all add: add_op_def split: prod.split)

lemma intern_effect_operations [simp]:
  "intern_effect reg name = Some (i, reg') \<Longrightarrow> operations reg' = operations reg"
  by (auto simp: intern_effect_def Let_def split: option.splits)

text \<open>An effect that stands declared with the given operations.\<close>

definition declared :: "effect_registry \<Rightarrow> string \<Rightarrow> (string \<times> signature_id \<times> span) list \<Rightarrow> bool" where
  "declared reg name ops \<longleftrightarrow>
     (\<exists>i. fmlookup (effect_ids reg) name = Some i \<and>
        fmlookup (effect_op_names reg) i = Some (fset_of_list (map fst ops)) \<and>
        (\<forall>n x. map_of (rev ops) n = Some x \<longrightarrow> fmlookup (operations reg) (op_path name n) = Some (op_record i x)))"

lemma declare_effect_inv:
  "registry_inv reg \<Longrightarrow> declare_effect reg name ops sp = Some (ds, reg') \<Longrightarrow> registry_inv reg'"
  using intern_effect_inv [of reg name]
  by (auto simp: declare_effect_def Let_def registry_inv_def split: option.splits)

lemma declare_effect_declares:
  assumes inv: "registry_inv reg" and e: "declare_effect reg name ops sp = Some (ds, reg')"
  shows "declared reg' name ops"
proof -
  obtain i reg1 where one: "intern_effect reg name = Some (i, reg1)"
    and reg': "reg' = fold (add_op name i) ops
      (reg1\<lparr>effect_op_names := fmupd i (fset_of_list (map fst ops)) (effect_op_names reg1)\<rparr>)"
    using e by (auto simp: declare_effect_def Let_def split: option.splits)
  have "fmlookup (effect_ids reg1) name = Some i"
    using one by (auto simp: intern_effect_def Let_def split: option.splits)
  then show ?thesis by (auto simp: declared_def reg' fold_add_op)
qed

text \<open>Declaring it again, with the same operations, is silent and changes nothing.\<close>

lemma declare_effect_again:
  assumes "declared reg name ops"
  shows "declare_effect reg name ops sp = Some ([], reg)"
proof -
  obtain i where i: "fmlookup (effect_ids reg) name = Some i"
    "fmlookup (effect_op_names reg) i = Some (fset_of_list (map fst ops))"
    and ops: "\<And>n x. map_of (rev ops) n = Some x \<Longrightarrow> fmlookup (operations reg) (op_path name n) = Some (op_record i x)"
    using assms by (auto simp: declared_def)
  have "fmlookup (operations (fold (add_op name i) ops reg)) path = fmlookup (operations reg) path" for path
    using fold_add_op(1) [of name i ops reg] fold_add_op(2) [of path name i ops reg] ops
    by (cases "\<exists>n. path = op_path name n") (auto split: option.split)
  then have "operations (fold (add_op name i) ops reg) = operations reg"
    by (rule fmap_ext)
  then have "fold (add_op name i) ops reg = reg" by (intro effect_registry.equality) simp_all
  moreover have "fmupd i (fset_of_list (map fst ops)) (effect_op_names reg) = effect_op_names reg"
    using i(2) by (intro fmap_ext) auto
  ultimately show ?thesis
    using i by (simp add: declare_effect_def intern_effect_def Let_def)
qed

text \<open>A declaration leaves the other effects as they stand declared.\<close>

lemma declare_effect_other:
  assumes inv: "registry_inv reg" and "declared reg name ops" "name \<noteq> name'"
    and nodot: "CHR ''.'' \<notin> set name" "CHR ''.'' \<notin> set name'"
    and e: "declare_effect reg name' ops' sp = Some (ds, reg')"
  shows "declared reg' name ops"
proof -
  obtain i where i: "fmlookup (effect_ids reg) name = Some i"
    "fmlookup (effect_op_names reg) i = Some (fset_of_list (map fst ops))"
    and ops: "\<And>n x. map_of (rev ops) n = Some x \<Longrightarrow> fmlookup (operations reg) (op_path name n) = Some (op_record i x)"
    using assms(2) by (auto simp: declared_def)
  obtain j reg1 where one: "intern_effect reg name' = Some (j, reg1)"
    and reg': "reg' = fold (add_op name' j) ops'
      (reg1\<lparr>effect_op_names := fmupd j (fset_of_list (map fst ops')) (effect_op_names reg1)\<rparr>)"
    using e by (auto simp: declare_effect_def Let_def split: option.splits)
  have nm: "fmlookup (effect_names reg) i = Some name" "i \<le> next_id reg" using inv i(1) by (auto simp: registry_inv_def)
  have "i \<noteq> j \<and> fmlookup (effect_ids reg1) name = Some i \<and>
      fmlookup (effect_op_names reg1) i = Some (fset_of_list (map fst ops))"
  proof (cases "fmlookup (effect_ids reg) name'")
    case None
    then have j: "j = next_id reg + 1" "registry_room reg"
      and reg1: "effect_ids reg1 = fmupd name' j (effect_ids reg)"
        "effect_op_names reg1 = fmupd j {||} (effect_op_names reg)"
      using one by (auto simp: intern_effect_def effect_id_new_def registry_room_def Let_def split: if_splits)
    have "i \<noteq> j" using registry_fresh [OF inv j(2)] nm(1) j(1) by auto
    then show ?thesis using i assms(3) by (simp add: reg1)
  next
    case (Some k)
    then have "k = j" "reg1 = reg" using one by (simp_all add: intern_effect_def)
    then show ?thesis using Some i inv nm(1) assms(3) by (auto simp: registry_inv_def)
  qed
  moreover have "fmlookup (operations reg') (op_path name n) = fmlookup (operations reg) (op_path name n)" for n
    using fold_add_op(2) [of "op_path name n" name'] op_path_eq_iff [OF nodot] assms(3) one
    by (simp add: reg')
  ultimately show ?thesis using ops by (auto simp: declared_def reg')
qed

text \<open>An operation that a re-declaration leaves out can still be looked up.\<close>

lemma redeclare_keeps:
  assumes "declare_effect reg name ops sp = Some (ds, reg')" "n \<notin> fst ` set ops"
  shows "lookup_op reg' (op_path name n) = lookup_op reg (op_path name n)"
proof -
  have "map_of (rev ops) n = None" using assms(2) by (simp add: map_of_eq_None_iff)
  then show ?thesis
    using assms(1) by (auto simp: declare_effect_def Let_def lookup_op_def fold_add_op split: option.splits)
qed

section \<open>Macro effects\<close>

lemma register_macro_effects_twice:
  assumes inv: "registry_inv reg" and e: "register_macro_effects reg = Some reg'"
  shows "register_macro_effects reg' = Some reg'"
    "\<exists>d el f. macro_effect_row reg' = Some (effect_from_ids [d, el, f] None) \<and>
       lookup_effect reg' ''Diag'' = Some d \<and> lookup_effect reg' ''Elab'' = Some el \<and>
       lookup_effect reg' ''FreshName'' = Some f \<and> distinct [d, el, f]"
proof -
  obtain d1 r1 d2 r2 d3 where
    one: "declare_effect reg ''Diag'' [(''emit'', 0, sentinel_span)] sentinel_span = Some (d1, r1)" and
    two: "declare_effect r1 ''Elab'' [(''elab'', 0, sentinel_span)] sentinel_span = Some (d2, r2)" and
    three: "declare_effect r2 ''FreshName'' [(''fresh'', 0, sentinel_span)] sentinel_span = Some (d3, reg')"
    using e by (auto simp: register_macro_effects_def split: option.splits)
  note inv1 = declare_effect_inv [OF inv one]
  note inv2 = declare_effect_inv [OF inv1 two]
  have d: "declared reg' ''Diag'' [(''emit'', 0, sentinel_span)]"
    using declare_effect_other [OF inv2 declare_effect_other [OF inv1 declare_effect_declares [OF inv one] _ _ _ two] _ _ _ three]
    by simp
  have el: "declared reg' ''Elab'' [(''elab'', 0, sentinel_span)]"
    using declare_effect_other [OF inv2 declare_effect_declares [OF inv1 two] _ _ _ three] by simp
  have f: "declared reg' ''FreshName'' [(''fresh'', 0, sentinel_span)]"
    by (rule declare_effect_declares [OF inv2 three])
  show "register_macro_effects reg' = Some reg'"
    using declare_effect_again [OF d] declare_effect_again [OF el] declare_effect_again [OF f]
    by (simp add: register_macro_effects_def)
  obtain i j k where ids: "fmlookup (effect_ids reg') ''Diag'' = Some i"
    "fmlookup (effect_ids reg') ''Elab'' = Some j" "fmlookup (effect_ids reg') ''FreshName'' = Some k"
    using d el f by (auto simp: declared_def)
  then have "fmlookup (effect_names reg') i = Some ''Diag''" "fmlookup (effect_names reg') j = Some ''Elab''"
    "fmlookup (effect_names reg') k = Some ''FreshName''"
    using declare_effect_inv [OF inv2 three] by (auto simp: registry_inv_def)
  then have "distinct [i, j, k]" by auto
  then show "\<exists>d el f. macro_effect_row reg' = Some (effect_from_ids [d, el, f] None) \<and>
      lookup_effect reg' ''Diag'' = Some d \<and> lookup_effect reg' ''Elab'' = Some el \<and>
      lookup_effect reg' ''FreshName'' = Some f \<and> distinct [d, el, f]"
    using ids by (intro exI [of _ i] exI [of _ j] exI [of _ k]) (simp add: macro_effect_row_def lookup_effect_def)
qed

section \<open>Capabilities of root effects\<close>

text \<open>\<^verbatim>\<open>BINDINGS\<close>: effect and required capability.\<close>

definition bindings_table :: "(string \<times> string) list" where
  "bindings_table =
     [(''RawMem'', ''paideia.raw_mem''), (''Mmio'', ''paideia.mmio''), (''MmioRead'', ''paideia.mmio''),
      (''MmioWrite'', ''paideia.mmio''), (''mmio_read'', ''paideia.mmio''), (''mmio_write'', ''paideia.mmio''),
      (''PortIo'', ''paideia.port_io'')]"

definition required_cap_for_effect :: "string \<Rightarrow> string option" where
  "required_cap_for_effect e = map_option snd (find (\<lambda>b. fst b = e) bindings_table)"

definition effects_requiring_cap :: "string \<Rightarrow> string list" where
  "effects_requiring_cap c = map fst (filter (\<lambda>b. snd b = c) bindings_table)"

definition builtin_capabilities :: "string list" where
  "builtin_capabilities = [''paideia.raw_mem'', ''paideia.io'', ''paideia.mmio'']"

definition is_builtin_capability :: "string \<Rightarrow> bool" where
  "is_builtin_capability name \<longleftrightarrow> name \<in> set builtin_capabilities"

fun position_from :: "nat \<Rightarrow> ('a \<Rightarrow> bool) \<Rightarrow> 'a list \<Rightarrow> nat option" where
  "position_from k P [] = None"
| "position_from k P (x # xs) = (if P x then Some k else position_from (Suc k) P xs)"

definition builtin_capability_index :: "string \<Rightarrow> nat option" where
  "builtin_capability_index name = position_from 0 (\<lambda>c. c = name) builtin_capabilities"

lemma find_map_of: "map_option snd (find (\<lambda>b. fst b = k) xs) = map_of xs k"
  by (induction xs) auto

text \<open>The two queries are inverse to each other.\<close>

lemma required_cap_iff: "required_cap_for_effect e = Some c \<longleftrightarrow> e \<in> set (effects_requiring_cap c)"
proof -
  have "distinct (map fst bindings_table)" by (simp add: bindings_table_def)
  then show ?thesis
    by (auto simp: required_cap_for_effect_def effects_requiring_cap_def find_map_of image_iff)
qed

lemma builtin_index_iff: "is_builtin_capability name \<longleftrightarrow> (\<exists>k. builtin_capability_index name = Some k \<and> k < 3)"
  by (auto simp: is_builtin_capability_def builtin_capability_index_def builtin_capabilities_def)

text \<open>Port I/O requires a capability that is not built in; the others' are.\<close>

lemma required_cap_builtin:
  "required_cap_for_effect e = Some c \<Longrightarrow> is_builtin_capability c \<longleftrightarrow> e \<noteq> ''PortIo''"
  by (auto simp: required_cap_for_effect_def bindings_table_def is_builtin_capability_def
      builtin_capabilities_def split: if_splits)

end
