(* ===== verification/Effects_Properties.thy ===== *)
theory Effects_Properties
  imports Effect_Unify Effect_Registry
begin

text \<open>
  What the effect layer promises: identity of interned rows, fresh variables, substitution, the row
  unifier, and the registry of declared effects.
\<close>

text \<open>
  C13: The row unifier succeeds exactly when the two rows have a common instance, that is, when some
  assignment of effect sets to row variables makes them the same set of effects.
\<close>

theorem row_unify_complete:
  "(\<exists>s. effect_unify a b = Inr s) \<longleftrightarrow> (\<exists>val. denotes val a = denotes val b)"
  by (rule effect_unify_complete)

text \<open>
  C14: The substitution of a successful row unification makes the two rows equal exactly when one row's
  effects include the other's, and rows with the same effects have the same tail.  (In the two other
  cases the returned substitution is not a unifier.)
\<close>

theorem row_unify_sound:
  assumes "effect_wf a" "effect_wf b" "effect_unify a b = Inr s"
  shows "substitution_apply s a = substitution_apply s b \<longleftrightarrow>
    (effect_is_subset_of a b \<or> effect_is_subset_of b a) \<and>
    (set (fixed_effects a) = set (fixed_effects b) \<longrightarrow> tail a = tail b)"
  by (rule effect_unify_sound [OF assms])

theorem row_unify_sound_witness:
  "substitution_apply (fmupd 9 (effect_from_ids [2] None) fmempty) (effect_from_ids [1] (Some 9)) =
   substitution_apply (fmupd 9 (effect_from_ids [2] None) fmempty) (effect_from_ids [1, 2] None)"
proof -
  have "effect_unify (effect_from_ids [1] (Some 9)) (effect_from_ids [1, 2] None) =
      Inr (fmupd 9 (effect_from_ids [2] None) fmempty)"
    by (simp add: effect_unify_def effect_from_ids_def sort_dedup_def substitution_bind_def substitution_new_def)
  from row_unify_sound [OF _ _ this] show ?thesis by (simp add: set_simps)
qed

text \<open>
  C16: Applying a substitution ends whatever its bindings, cyclic ones included, only adds effects, and
  applying it a second time changes nothing.
\<close>

theorem apply_twice:
  "substitution_apply s (substitution_apply s r) = substitution_apply s r \<and>
   effect_wf (substitution_apply s r) \<and> effect_is_subset_of r (substitution_apply s r)"
  by (simp add: apply_idempotent apply_subset)

text \<open>
  C15: Composition is composition: applying the composed substitution is applying the first and then the
  second, for substitutions that bind different variables and where the second does not lead back to
  the variables of the first.
\<close>

theorem compose_is_composition:
  assumes "layered s p" "\<forall>v r. fmlookup p v = Some r \<longrightarrow> effect_wf r"
  shows "substitution_apply (substitution_compose s p) r = substitution_apply s (substitution_apply p r)"
  by (rule compose_apply [OF assms])

theorem compose_is_composition_witness:
  "substitution_apply (substitution_compose (fmupd 2 (effect_from_ids [6] None) fmempty)
       (fmupd 1 (effect_from_ids [5] (Some 2)) fmempty)) (effect_from_ids [4] (Some 1)) =
   effect_from_ids [4, 5, 6] None"
proof -
  let ?s = "fmupd 2 (effect_from_ids [6] None) fmempty" and ?p = "fmupd 1 (effect_from_ids [5] (Some 2)) fmempty"
  have "layered ?s ?p" "\<forall>v r. fmlookup ?p v = Some r \<longrightarrow> effect_wf r"
    by (auto simp: layered_def split: if_splits)
  from compose_is_composition [OF this, of "effect_from_ids [4] (Some 1)"]
  show ?thesis
    by (simp add: substitution_apply_def effect_from_ids_def sort_dedup_def)
qed

text \<open>Without that condition the law does not hold.\<close>

lemma compose_not_layered:
  "\<exists>s p r. substitution_apply (substitution_compose s p) r \<noteq> substitution_apply s (substitution_apply p r)"
proof -
  let ?s = "fmupd 2 (effect_from_ids [] (Some 3)) fmempty"
  let ?p = "fmupd 1 (effect_from_ids [] (Some 2)) (fmupd 3 (effect_from_ids [6] None) fmempty)"
  have "tail (substitution_apply (substitution_compose ?s ?p) (effect_from_ids [] (Some 1))) = None"
    "tail (substitution_apply ?s (substitution_apply ?p (effect_from_ids [] (Some 1)))) = Some 3"
    by (simp_all add: substitution_apply_def substitution_compose_def)
  then show ?thesis by (metis option.distinct(1))
qed

text \<open>
  C27: Any number of fresh row variables in a row are the consecutive numbers from the counter on, so no
  two are equal, and allocation only fails when the 32-bit counter is exhausted.
\<close>

theorem fresh_row_vars_distinct:
  assumes "0 < unat (next_fresh_row_var tab)" "unat (next_fresh_row_var tab) + n < 2 ^ 32"
  shows "\<exists>vs tab'. fresh_row_vars n tab = Some (vs, tab') \<and> distinct vs \<and>
    map unat vs = [unat (next_fresh_row_var tab) ..< unat (next_fresh_row_var tab) + n] \<and>
    rows tab' = rows tab"
proof -
  obtain vs tab' where e: "fresh_row_vars n tab = Some (vs, tab')"
    using fresh_row_vars_returns [OF assms] by blast
  then have m: "map unat vs = [unat (next_fresh_row_var tab) ..< unat (next_fresh_row_var tab) + n]"
    using fresh_row_vars_eq by blast
  then have "distinct vs" by (metis distinct_map distinct_upt)
  then show ?thesis using e m fresh_row_vars_rows [OF e] by blast
qed

theorem fresh_row_vars_distinct_witness:
  "\<exists>vs tab'. fresh_row_vars 3 effect_interner_new = Some (vs, tab') \<and> distinct vs \<and> map unat vs = [1 ..< 4]"
  using fresh_row_vars_distinct [of effect_interner_new 3]
  by (auto simp: effect_interner_new_def)

text \<open>
  A declared effect is looked up with exactly the operations it was declared with (the last
  signature given for a name), and declaring it again is silent and changes nothing.
\<close>

theorem declare_then_lookup:
  assumes "registry_inv reg" "declare_effect reg name ops sp = Some (ds, reg')"
  shows "registry_inv reg' \<and> declare_effect reg' name ops sp' = Some ([], reg') \<and>
    (\<exists>i. lookup_effect reg' name = Some i \<and>
       (\<forall>n x. map_of (rev ops) n = Some x \<longrightarrow> lookup_op reg' (op_path name n) = Some (op_record i x)))"
  using declare_effect_inv [OF assms] declare_effect_again [OF declare_effect_declares [OF assms]]
    declare_effect_declares [OF assms]
  by (auto simp: declared_def lookup_effect_def lookup_op_def)

theorem declare_then_lookup_witness:
  "\<exists>i ds reg'. declare_effect registry_new ''Io'' [(''port_read'', 7, sentinel_span)] sentinel_span = Some (ds, reg') \<and>
     lookup_op reg' ''Io.port_read'' = Some (op_record i (7, sentinel_span))"
proof -
  obtain ds reg' where e: "declare_effect registry_new ''Io'' [(''port_read'', 7, sentinel_span)] sentinel_span = Some (ds, reg')"
    by (simp add: declare_effect_def intern_effect_def registry_new_def effect_id_new_def Let_def)
  then show ?thesis
    using declare_then_lookup [OF registry_new_inv e, of sentinel_span] by (auto simp: op_path_def)
qed

text \<open>
  Registering the macro effects twice is registering them once, and the macro row then holds exactly
  the three effects, which are different.
\<close>

theorem macro_effects_registered:
  assumes "registry_inv reg" "register_macro_effects reg = Some reg'"
  shows "register_macro_effects reg' = Some reg' \<and>
    (\<exists>d el f. lookup_effect reg' ''Diag'' = Some d \<and> lookup_effect reg' ''Elab'' = Some el \<and>
       lookup_effect reg' ''FreshName'' = Some f \<and> distinct [d, el, f] \<and>
       macro_effect_row reg' = Some (effect_from_ids [d, el, f] None))"
  using register_macro_effects_twice [OF assms] by blast

theorem macro_effects_registered_witness:
  "\<exists>reg'. register_macro_effects registry_new = Some reg' \<and> register_macro_effects reg' = Some reg'"
proof -
  obtain reg' where e: "register_macro_effects registry_new = Some reg'"
    by (simp add: register_macro_effects_def declare_effect_def intern_effect_def registry_new_def
        effect_id_new_def add_op_def Let_def)
  then show ?thesis using macro_effects_registered [OF registry_new_inv e] by blast
qed

end
