(* ===== verification/Pax_Codec.thy ===== *)
theory Pax_Codec
  imports Interner
begin

text \<open>
  Fixed-layout binary records: writing fields into a zeroed array and reading them back
  (\<^verbatim>\<open>copy_from_slice\<close>, \<^verbatim>\<open>from_le_bytes\<close>), and the contract of an entry type that is stored in tables.
\<close>

section \<open>Fields of a byte array\<close>

text \<open>\<^verbatim>\<open>bytes[off..off + xs.len()].copy_from_slice(xs)\<close> and \<^verbatim>\<open>&bytes[off..off + n]\<close>, in range.\<close>

definition put :: "u8 list \<Rightarrow> nat \<Rightarrow> u8 list \<Rightarrow> u8 list" where
  "put bs off xs = take off bs @ xs @ drop (off + length xs) bs"

definition slice :: "nat \<Rightarrow> nat \<Rightarrow> u8 list \<Rightarrow> u8 list" where
  "slice off n bs = take n (drop off bs)"

definition from_le16 :: "u8 list \<Rightarrow> u16" where
  "from_le16 bs = (case take_le16 bs of Some (w, r) \<Rightarrow> w | None \<Rightarrow> 0)"

definition from_le32 :: "u8 list \<Rightarrow> u32" where
  "from_le32 bs = (case take_le32 bs of Some (w, r) \<Rightarrow> w | None \<Rightarrow> 0)"

definition from_le64 :: "u8 list \<Rightarrow> u64" where
  "from_le64 bs = (case take_le64 bs of Some (w, r) \<Rightarrow> w | None \<Rightarrow> 0)"

definition u16_at :: "u8 list \<Rightarrow> nat \<Rightarrow> u16" where
  "u16_at bs off = from_le16 (slice off 2 bs)"

definition u32_at :: "u8 list \<Rightarrow> nat \<Rightarrow> u32" where
  "u32_at bs off = from_le32 (slice off 4 bs)"

definition u64_at :: "u8 list \<Rightarrow> nat \<Rightarrow> u64" where
  "u64_at bs off = from_le64 (slice off 8 bs)"

named_theorems field_simps \<open>reading fields back\<close>

lemma from_le_bytes [field_simps]:
  "from_le16 (le_bytes16 a) = a" "from_le32 (le_bytes32 b) = b" "from_le64 (le_bytes64 c) = c"
  using take_le16_bytes [of a "[]"] take_le32_bytes [of b "[]"] take_le64_bytes [of c "[]"]
  by (simp_all add: from_le16_def from_le32_def from_le64_def)

lemma length_put [field_simps]: "off + length xs \<le> length bs \<Longrightarrow> length (put bs off xs) = length bs"
  by (simp add: put_def)

lemma length_slice [simp]: "length (slice off n bs) = min n (length bs - off)"
  by (simp add: slice_def min.commute)

lemma slice_put_same:
  "off + length xs \<le> length bs \<Longrightarrow> n = length xs \<Longrightarrow> slice off n (put bs off xs) = xs"
  by (simp add: slice_def put_def)

lemma slice_put_other:
  assumes "off' + length xs \<le> length bs" "off + n \<le> off' \<or> off' + length xs \<le> off"
  shows "slice off n (put bs off' xs) = slice off n bs"
  using assms(2)
proof
  assume "off + n \<le> off'"
  then show ?thesis using assms(1) by (simp add: slice_def put_def take_drop)
next
  assume "off' + length xs \<le> off"
  then show ?thesis using assms(1) by (simp add: slice_def put_def)
qed

lemma slice_append [field_simps]: "off + n \<le> length bs \<Longrightarrow> slice off n (bs @ r) = slice off n bs"
  by (simp add: slice_def)

lemma slice_all [field_simps]: "length bs = n \<Longrightarrow> slice 0 n bs = bs"
  by (simp add: slice_def)

lemma u_at_append [field_simps]:
  "off + 2 \<le> length bs \<Longrightarrow> u16_at (bs @ r) off = u16_at bs off"
  "off + 4 \<le> length bs \<Longrightarrow> u32_at (bs @ r) off = u32_at bs off"
  "off + 8 \<le> length bs \<Longrightarrow> u64_at (bs @ r) off = u64_at bs off"
  by (simp_all add: u16_at_def u32_at_def u64_at_def slice_append)

lemma u_at_put [field_simps]:
  "off + 2 \<le> length bs \<Longrightarrow> u16_at (put bs off (le_bytes16 a)) off = a"
  "off + 4 \<le> length bs \<Longrightarrow> u32_at (put bs off (le_bytes32 b)) off = b"
  "off + 8 \<le> length bs \<Longrightarrow> u64_at (put bs off (le_bytes64 c)) off = c"
  by (simp_all add: u16_at_def u32_at_def u64_at_def slice_put_same from_le_bytes)

lemma u_at_put_other [field_simps]:
  "off' + length xs \<le> length bs \<Longrightarrow> off + 2 \<le> off' \<or> off' + length xs \<le> off \<Longrightarrow>
     u16_at (put bs off' xs) off = u16_at bs off"
  "off' + length xs \<le> length bs \<Longrightarrow> off + 4 \<le> off' \<or> off' + length xs \<le> off \<Longrightarrow>
     u32_at (put bs off' xs) off = u32_at bs off"
  "off' + length xs \<le> length bs \<Longrightarrow> off + 8 \<le> off' \<or> off' + length xs \<le> off \<Longrightarrow>
     u64_at (put bs off' xs) off = u64_at bs off"
  by (simp_all add: u16_at_def u32_at_def u64_at_def slice_put_other)

section \<open>Tables of entries\<close>

text \<open>
  The loops that every section type has: the entries one after the other; and \<open>count\<close> entries of size
  \<open>n\<close> read back, stopping at the first that is not valid.
\<close>

definition table_to_bytes :: "('a \<Rightarrow> u8 list) \<Rightarrow> 'a list \<Rightarrow> u8 list" where
  "table_to_bytes enc es = concat (map enc es)"

definition read_entries :: "(u8 list \<Rightarrow> 'a option) \<Rightarrow> nat \<Rightarrow> nat \<Rightarrow> u8 list \<Rightarrow> 'a list option" where
  "read_entries dec n count bs = those (map (\<lambda>i. dec (slice (i * n) n bs)) [0..<count])"

definition table_from_bytes :: "(u8 list \<Rightarrow> 'a option) \<Rightarrow> nat \<Rightarrow> u8 list \<Rightarrow> 'a list option" where
  "table_from_bytes dec n bs =
     (if length bs mod n \<noteq> 0 then None else read_entries dec n (length bs div n) bs)"

lemma those_map_Some: "(\<And>x. x \<in> set xs \<Longrightarrow> f x = Some (g x)) \<Longrightarrow> those (map f xs) = Some (map g xs)"
  by (induction xs) auto

text \<open>
  The contract of an entry type: \<open>enc\<close> writes exactly \<open>n\<close> bytes, \<open>dec\<close> reads an entry that is \<open>ok\<close> back
  from them and rejects anything shorter.
\<close>

locale entry_codec =
  fixes enc :: "'a \<Rightarrow> u8 list"
    and dec :: "u8 list \<Rightarrow> 'a option"
    and n :: nat
    and valid :: "'a \<Rightarrow> bool"
  assumes size_pos: "0 < n"
    and enc_length: "length (enc x) = n"
    and dec_enc: "valid x \<Longrightarrow> dec (enc x) = Some x"
    and dec_short: "length bs < n \<Longrightarrow> dec bs = None"
begin

lemma enc_inject: "valid x \<Longrightarrow> valid y \<Longrightarrow> enc x = enc y \<longleftrightarrow> x = y"
  using dec_enc by (metis option.inject)

lemma table_length: "length (table_to_bytes enc es) = length es * n"
  by (induction es) (simp_all add: table_to_bytes_def enc_length)

lemma table_slice:
  "i < length es \<Longrightarrow> slice (i * n) n (table_to_bytes enc es @ r) = enc (es ! i)"
proof (induction es arbitrary: i)
  case (Cons e es)
  show ?case
  proof (cases i)
    case (Suc j)
    then have "slice (i * n) n (table_to_bytes enc (e # es) @ r) = slice (j * n) n (table_to_bytes enc es @ r)"
      by (simp add: slice_def table_to_bytes_def enc_length)
    then show ?thesis using Cons Suc by simp
  qed (simp add: slice_def table_to_bytes_def enc_length)
qed simp

lemma read_entries_table:
  assumes "list_all valid es"
  shows "read_entries dec n (length es) (table_to_bytes enc es @ r) = Some es"
proof -
  have "dec (slice (i * n) n (table_to_bytes enc es @ r)) = Some (es ! i)" if "i \<in> set [0..<length es]" for i
    using that assms table_slice [of i es r] by (simp add: dec_enc list_all_length)
  then have "read_entries dec n (length es) (table_to_bytes enc es @ r) = Some (map ((!) es) [0..<length es])"
    unfolding read_entries_def by (rule those_map_Some)
  then show ?thesis by (simp add: map_nth)
qed

text \<open>Tables are read back as they were written.\<close>

lemma table_round_trip: "list_all valid es \<Longrightarrow> table_from_bytes dec n (table_to_bytes enc es) = Some es"
  using read_entries_table [of es "[]"] size_pos by (simp add: table_from_bytes_def table_length)

text \<open>Concatenation of tables is concatenation of their bytes.\<close>

lemma table_append: "table_to_bytes enc (es @ fs) = table_to_bytes enc es @ table_to_bytes enc fs"
  by (simp add: table_to_bytes_def)

text \<open>A table that ends in the middle of an entry is rejected.\<close>

lemma table_truncated: "length bs mod n \<noteq> 0 \<Longrightarrow> table_from_bytes dec n bs = None"
  by (simp add: table_from_bytes_def)

end

section \<open>Entries of varying size\<close>

text \<open>
  A decoder that also returns how many bytes it consumed, and the loop that reads entries until the
  bytes are used up.  The fuel is the number of bytes: every entry consumes at least one.
\<close>

fun read_stream :: "(u8 list \<Rightarrow> ('a \<times> nat) option) \<Rightarrow> nat \<Rightarrow> u8 list \<Rightarrow> 'a list option" where
  "read_stream dec fuel [] = Some []"
| "read_stream dec 0 bs = None"
| "read_stream dec (Suc fuel) bs =
     (case dec bs of
        None \<Rightarrow> None
      | Some (e, used) \<Rightarrow> map_option ((#) e) (read_stream dec fuel (drop used bs)))"

locale stream_codec =
  fixes enc :: "'a \<Rightarrow> u8 list"
    and dec :: "u8 list \<Rightarrow> ('a \<times> nat) option"
    and valid :: "'a \<Rightarrow> bool"
  assumes dec_enc: "valid x \<Longrightarrow> dec (enc x @ r) = Some (x, length (enc x))"
    and enc_pos: "enc x \<noteq> []"
    and dec_used: "dec bs = Some (x, k) \<Longrightarrow> 0 < k \<and> k \<le> length bs"
begin

lemma stream_round_trip:
  "list_all valid es \<Longrightarrow> length (table_to_bytes enc es) \<le> fuel \<Longrightarrow>
   read_stream dec fuel (table_to_bytes enc es) = Some es"
proof (induction es arbitrary: fuel)
  case (Cons e es)
  obtain b bs where e: "enc e = b # bs" using enc_pos by (cases "enc e") auto
  obtain k where k: "fuel = Suc k" using Cons.prems(2) e by (cases fuel) (auto simp: table_to_bytes_def)
  have "read_stream dec k (table_to_bytes enc es) = Some es"
    using Cons k e by (simp add: table_to_bytes_def)
  moreover have "dec (table_to_bytes enc (e # es)) = Some (e, length (enc e))"
    using dec_enc Cons.prems(1) by (simp add: table_to_bytes_def)
  ultimately show ?case using k e by (simp add: table_to_bytes_def)
qed (simp add: table_to_bytes_def)

text \<open>The loop ends: more fuel than bytes does not change the result.\<close>

lemma stream_fuel: "length bs \<le> fuel \<Longrightarrow> read_stream dec fuel bs = read_stream dec (length bs) bs"
proof (induction "length bs" arbitrary: bs fuel rule: less_induct)
  case less
  show ?case
  proof (cases bs)
    case (Cons b cs)
    then obtain k where k: "fuel = Suc k" using less.prems by (cases fuel) auto
    show ?thesis
    proof (cases "dec bs")
      case (Some a)
      obtain e used where a: "a = (e, used)" by (cases a)
      have u: "0 < used" "used \<le> length bs" using dec_used Some a by auto
      have IH: "read_stream dec m (drop used bs) = read_stream dec (length (drop used bs)) (drop used bs)"
        if "length (drop used bs) \<le> m" for m
        using u Cons that by (intro less.hyps) auto
      have "read_stream dec k (drop used bs) = read_stream dec (length cs) (drop used bs)"
        using IH [of k] IH [of "length cs"] k Cons less.prems u by simp
      moreover have "read_stream dec (Suc m) bs = map_option ((#) e) (read_stream dec m (drop used bs))" for m
        using Some a Cons by simp
      ultimately show ?thesis using k Cons by (metis length_Cons)
    qed (use Cons k in simp)
  qed simp
qed

end

section \<open>UTF-8\<close>

text \<open>\<^verbatim>\<open>std::str::from_utf8\<close>: the well-formed byte sequences of the Unicode standard.\<close>

abbreviation cont_byte :: "u8 \<Rightarrow> bool" where
  "cont_byte b \<equiv> 0x80 \<le> b \<and> b \<le> 0xBF"

fun utf8_valid :: "u8 list \<Rightarrow> bool" where
  "utf8_valid [] = True"
| "utf8_valid (a # r) =
     (if a \<le> 0x7F then utf8_valid r
      else if 0xC2 \<le> a \<and> a \<le> 0xDF then
        (case r of b # r' \<Rightarrow> cont_byte b \<and> utf8_valid r' | _ \<Rightarrow> False)
      else if 0xE0 \<le> a \<and> a \<le> 0xEF then
        (case r of
           b # c # r' \<Rightarrow>
             cont_byte b \<and> (a = 0xE0 \<longrightarrow> 0xA0 \<le> b) \<and> (a = 0xED \<longrightarrow> b \<le> 0x9F) \<and> cont_byte c \<and> utf8_valid r'
         | _ \<Rightarrow> False)
      else if 0xF0 \<le> a \<and> a \<le> 0xF4 then
        (case r of
           b # c # d # r' \<Rightarrow>
             cont_byte b \<and> (a = 0xF0 \<longrightarrow> 0x90 \<le> b) \<and> (a = 0xF4 \<longrightarrow> b \<le> 0x8F) \<and> cont_byte c \<and> cont_byte d \<and>
             utf8_valid r'
         | _ \<Rightarrow> False)
      else False)"

lemma utf8_ascii: "list_all (\<lambda>b. b \<le> 0x7F) bs \<Longrightarrow> utf8_valid bs"
  by (induction bs) simp_all

end
