(* ===== verification/Pax_Format.thy ===== *)
theory Pax_Format
  imports Pax_Codec
begin

text \<open>
  \<^verbatim>\<open>crates/paideia-as-emitter-pax/src\<close>: the PAX header (\<^verbatim>\<open>header.rs\<close>), the section table (\<^verbatim>\<open>section.rs\<close>), the
  content hash and signature field (\<^verbatim>\<open>hash.rs\<close>, \<^verbatim>\<open>sign.rs\<close>), and the two sections with entries of
  varying size (\<^verbatim>\<open>effects.rs\<close>, \<^verbatim>\<open>opt_passes.rs\<close>).  A \<^verbatim>\<open>String\<close> is the list of its UTF-8 bytes.  BLAKE3 is a
  parameter.
\<close>

section \<open>Header\<close>

definition pax_magic :: "u8 list" where
  "pax_magic = [0x50, 0x41, 0x58, 0]"

definition pax_format_version :: u16 where
  "pax_format_version = 1"

datatype architecture = X86_64

fun architecture_code :: "architecture \<Rightarrow> u16" where
  "architecture_code X86_64 = 1"

definition architecture_from :: "u16 \<Rightarrow> architecture option" where
  "architecture_from n = (if n = 1 then Some X86_64 else None)"

datatype header_flag = HF_None | HF_Relocatable | HF_Executable | HF_HasDebugInfo

fun header_flag_code :: "header_flag \<Rightarrow> u64" where
  "header_flag_code HF_None = 0"
| "header_flag_code HF_Relocatable = 1"
| "header_flag_code HF_Executable = 2"
| "header_flag_code HF_HasDebugInfo = 4"

record pax_header =
  magic :: "u8 list"
  format_version :: u16
  architecture_of :: architecture
  header_flags :: u64
  section_table_offset :: u64
  section_count :: u32
  header_reserved :: u32
  content_hash :: "u8 list"
  signature_hash :: "u8 list"

text \<open>The arrays of the struct have fixed lengths.\<close>

definition header_wf :: "pax_header \<Rightarrow> bool" where
  "header_wf h \<longleftrightarrow> length (magic h) = 4 \<and> length (content_hash h) = 32 \<and> length (signature_hash h) = 32"

definition header_new :: "architecture \<Rightarrow> pax_header" where
  "header_new a =
     \<lparr>magic = pax_magic, format_version = pax_format_version, architecture_of = a,
      header_flags = header_flag_code HF_None, section_table_offset = 0, section_count = 0,
      header_reserved = 0, content_hash = replicate 32 0, signature_hash = replicate 32 0\<rparr>"

definition header_to_bytes :: "pax_header \<Rightarrow> u8 list" where
  "header_to_bytes h =
     (let bytes = replicate 96 0;
          bytes = put bytes 0 (magic h);
          bytes = put bytes 4 (le_bytes16 (format_version h));
          bytes = put bytes 6 (le_bytes16 (architecture_code (architecture_of h)));
          bytes = put bytes 8 (le_bytes64 (header_flags h));
          bytes = put bytes 16 (le_bytes64 (section_table_offset h));
          bytes = put bytes 24 (le_bytes32 (section_count h));
          bytes = put bytes 28 (le_bytes32 (header_reserved h));
          bytes = put bytes 32 (content_hash h);
          bytes = put bytes 64 (signature_hash h)
      in bytes)"

definition header_from_bytes :: "u8 list \<Rightarrow> pax_header option" where
  "header_from_bytes bytes =
     (if length bytes < 96 then None
      else if slice 0 4 bytes \<noteq> pax_magic then None
      else
        (case architecture_from (u16_at bytes 6) of
           None \<Rightarrow> None
         | Some a \<Rightarrow>
             Some \<lparr>magic = slice 0 4 bytes,
               format_version = u16_at bytes 4,
               architecture_of = a,
               header_flags = u64_at bytes 8,
               section_table_offset = u64_at bytes 16,
               section_count = u32_at bytes 24,
               header_reserved = u32_at bytes 28,
               content_hash = slice 32 32 bytes,
               signature_hash = slice 64 32 bytes\<rparr>))"

lemma architecture_from_code [field_simps]: "architecture_from (architecture_code a) = Some a"
  by (cases a) (simp add: architecture_from_def)

lemma header_new_wf: "header_wf (header_new a)"
  by (simp add: header_wf_def header_new_def pax_magic_def)

lemma length_header [simp]: "header_wf h \<Longrightarrow> length (header_to_bytes h) = 96"
  by (simp add: header_wf_def header_to_bytes_def field_simps Let_def)

lemma header_round_trip:
  assumes "header_wf h" "magic h = pax_magic"
  shows "header_from_bytes (header_to_bytes h @ r) = Some h"
proof -
  have len: "length (header_to_bytes h @ r) = 96 + length r" using assms by simp
  have *: "slice 0 4 (header_to_bytes h) = magic h" "slice 32 32 (header_to_bytes h) = content_hash h"
    "slice 64 32 (header_to_bytes h) = signature_hash h" "u16_at (header_to_bytes h) 4 = format_version h"
    "u16_at (header_to_bytes h) 6 = architecture_code (architecture_of h)"
    "u64_at (header_to_bytes h) 8 = header_flags h" "u64_at (header_to_bytes h) 16 = section_table_offset h"
    "u32_at (header_to_bytes h) 24 = section_count h" "u32_at (header_to_bytes h) 28 = header_reserved h"
    using assms(1)
    by (simp_all add: header_wf_def header_to_bytes_def field_simps slice_put_same slice_put_other Let_def)
  show ?thesis using assms len by (simp add: header_from_bytes_def field_simps *)
qed

section \<open>Section table\<close>

datatype section_type =
  Sec_Code
| Sec_RoData
| Sec_Data
| Sec_Bss
| Sec_Caps
| Sec_Effects
| Sec_Unsafe
| Sec_OptPasses
| Sec_Linearity
| Sec_Functors
| Sec_Symtab
| Sec_Relocs
| Sec_Imports
| Sec_Exports

fun section_type_code :: "section_type \<Rightarrow> u32" where
  "section_type_code Sec_Code = 0x01"
| "section_type_code Sec_RoData = 0x02"
| "section_type_code Sec_Data = 0x03"
| "section_type_code Sec_Bss = 0x04"
| "section_type_code Sec_Caps = 0x10"
| "section_type_code Sec_Effects = 0x11"
| "section_type_code Sec_Unsafe = 0x12"
| "section_type_code Sec_OptPasses = 0x13"
| "section_type_code Sec_Linearity = 0x14"
| "section_type_code Sec_Functors = 0x15"
| "section_type_code Sec_Symtab = 0x20"
| "section_type_code Sec_Relocs = 0x21"
| "section_type_code Sec_Imports = 0x22"
| "section_type_code Sec_Exports = 0x23"

definition section_type_from :: "u32 \<Rightarrow> section_type option" where
  "section_type_from n =
     (if n = 0x01 then Some Sec_Code
      else if n = 0x02 then Some Sec_RoData
      else if n = 0x03 then Some Sec_Data
      else if n = 0x04 then Some Sec_Bss
      else if n = 0x10 then Some Sec_Caps
      else if n = 0x11 then Some Sec_Effects
      else if n = 0x12 then Some Sec_Unsafe
      else if n = 0x13 then Some Sec_OptPasses
      else if n = 0x14 then Some Sec_Linearity
      else if n = 0x15 then Some Sec_Functors
      else if n = 0x20 then Some Sec_Symtab
      else if n = 0x21 then Some Sec_Relocs
      else if n = 0x22 then Some Sec_Imports
      else if n = 0x23 then Some Sec_Exports
      else None)"

lemma section_type_from_code [field_simps]: "section_type_from (section_type_code x) = Some x"
  by (cases x) (simp_all add: section_type_from_def)

datatype section_flag = SF_None | SF_Executable | SF_Writable | SF_BssNoContent

fun section_flag_code :: "section_flag \<Rightarrow> u32" where
  "section_flag_code SF_None = 0"
| "section_flag_code SF_Executable = 1"
| "section_flag_code SF_Writable = 2"
| "section_flag_code SF_BssNoContent = 4"

record pax_section =
  sec_ty :: section_type
  sec_flags :: u32
  content_offset :: u64
  content_size :: u64
  virtual_address :: u64
  sec_alignment :: u64
  sec_name :: "u8 list"

definition section_code :: "u64 \<Rightarrow> u64 \<Rightarrow> pax_section" where
  "section_code off sz =
     \<lparr>sec_ty = Sec_Code, sec_flags = section_flag_code SF_Executable, content_offset = off, content_size = sz,
      virtual_address = 0, sec_alignment = 16, sec_name = [0x2E, 0x63, 0x6F, 0x64, 0x65]\<rparr>"

definition section_rodata :: "u64 \<Rightarrow> u64 \<Rightarrow> pax_section" where
  "section_rodata off sz =
     \<lparr>sec_ty = Sec_RoData, sec_flags = section_flag_code SF_None, content_offset = off, content_size = sz,
      virtual_address = 0, sec_alignment = 8, sec_name = [0x2E, 0x72, 0x6F, 0x64, 0x61, 0x74, 0x61]\<rparr>"

definition section_data :: "u64 \<Rightarrow> u64 \<Rightarrow> pax_section" where
  "section_data off sz =
     \<lparr>sec_ty = Sec_Data, sec_flags = section_flag_code SF_Writable, content_offset = off, content_size = sz,
      virtual_address = 0, sec_alignment = 8, sec_name = [0x2E, 0x64, 0x61, 0x74, 0x61]\<rparr>"

definition section_bss :: "u64 \<Rightarrow> pax_section" where
  "section_bss sz =
     \<lparr>sec_ty = Sec_Bss, sec_flags = section_flag_code SF_Writable OR section_flag_code SF_BssNoContent,
      content_offset = 0, content_size = sz, virtual_address = 0, sec_alignment = 8,
      sec_name = [0x2E, 0x62, 0x73, 0x73]\<rparr>"

definition section_to_bytes :: "pax_section \<Rightarrow> u8 list" where
  "section_to_bytes s =
     (let bytes = replicate 64 0;
          bytes = put bytes 0 (le_bytes32 (section_type_code (sec_ty s)));
          bytes = put bytes 4 (le_bytes32 (sec_flags s));
          bytes = put bytes 8 (le_bytes64 (content_offset s));
          bytes = put bytes 16 (le_bytes64 (content_size s));
          bytes = put bytes 24 (le_bytes64 (virtual_address s));
          bytes = put bytes 32 (le_bytes64 (sec_alignment s));
          name_len = min (length (sec_name s)) 23;
          bytes = put bytes 40 (take name_len (sec_name s));
          bytes = put bytes (40 + name_len) [0]
      in bytes)"

text \<open>\<^verbatim>\<open>CStr::from_bytes_until_nul\<close> and, when there is no NUL, all 24 bytes; then the UTF-8 check.\<close>

definition name_of_bytes :: "u8 list \<Rightarrow> u8 list option" where
  "name_of_bytes bs =
     (let s = (if 0 \<in> set bs then takeWhile (\<lambda>b. b \<noteq> 0) bs else bs)
      in if utf8_valid s then Some s else None)"

definition section_from_bytes :: "u8 list \<Rightarrow> pax_section option" where
  "section_from_bytes bytes =
     (if length bytes < 64 then None
      else
        (case section_type_from (u32_at bytes 0) of
           None \<Rightarrow> None
         | Some t \<Rightarrow>
             (case name_of_bytes (slice 40 24 bytes) of
                None \<Rightarrow> None
              | Some name \<Rightarrow>
                  Some \<lparr>sec_ty = t, sec_flags = u32_at bytes 4, content_offset = u64_at bytes 8,
                    content_size = u64_at bytes 16, virtual_address = u64_at bytes 24,
                    sec_alignment = u64_at bytes 32, sec_name = name\<rparr>)))"

text \<open>Names that the descriptor can hold.\<close>

definition name_fits :: "u8 list \<Rightarrow> bool" where
  "name_fits name \<longleftrightarrow> length name \<le> 23 \<and> 0 \<notin> set name \<and> utf8_valid name"

abbreviation section_ok :: "pax_section \<Rightarrow> bool" where
  "section_ok s \<equiv> name_fits (sec_name s)"

lemma put_name:
  "length name \<le> 23 \<Longrightarrow>
   slice 40 24 (put (put bs 40 name) (40 + length name) [0]) = name @ 0 # drop (Suc (length name)) (slice 40 24 bs)"
  if "length bs = 64"
  using that by (simp add: put_def slice_def drop_take add.commute)

lemma name_of_bytes_nul:
  "0 \<notin> set name \<Longrightarrow> name_of_bytes (name @ 0 # r) = (if utf8_valid name then Some name else None)"
  by (subst name_of_bytes_def, subst takeWhile_append2) (auto simp: Let_def)

lemma section_name_field:
  fixes s :: pax_section
  defines "stored \<equiv> take 23 (sec_name s)"
  shows "\<exists>r. slice 40 24 (section_to_bytes s) = stored @ 0 # r"
proof -
  have "take (min (length (sec_name s)) 23) (sec_name s) = stored" "min (length (sec_name s)) 23 = length stored"
    "length stored \<le> 23"
    by (auto simp: stored_def min_def)
  then show ?thesis by (auto simp: section_to_bytes_def Let_def put_name field_simps)
qed

interpretation sections: entry_codec section_to_bytes section_from_bytes 64 section_ok
proof
  fix s :: pax_section
  show len: "length (section_to_bytes s) = 64"
    by (simp add: section_to_bytes_def field_simps Let_def)
  assume fits: "name_fits (sec_name s)"
  then have m: "min (length (sec_name s)) 23 = length (sec_name s)" "length (sec_name s) \<le> 23"
    by (simp_all add: name_fits_def)
  have stored: "take 23 (sec_name s) = sec_name s" using m by simp
  have "u32_at (section_to_bytes s) 0 = section_type_code (sec_ty s)" "u32_at (section_to_bytes s) 4 = sec_flags s"
    "u64_at (section_to_bytes s) 8 = content_offset s" "u64_at (section_to_bytes s) 16 = content_size s"
    "u64_at (section_to_bytes s) 24 = virtual_address s" "u64_at (section_to_bytes s) 32 = sec_alignment s"
    using m by (simp_all add: section_to_bytes_def field_simps Let_def)
  moreover have "name_of_bytes (slice 40 24 (section_to_bytes s)) = Some (sec_name s)"
    using section_name_field [of s] fits by (auto simp: stored name_of_bytes_nul name_fits_def)
  ultimately show "section_from_bytes (section_to_bytes s) = Some s"
    using len by (simp add: section_from_bytes_def field_simps)
qed (simp_all add: section_from_bytes_def)

definition section_table_to_bytes :: "pax_section list \<Rightarrow> u8 list" where
  "section_table_to_bytes = table_to_bytes section_to_bytes"

definition section_table_from_bytes :: "u8 list \<Rightarrow> u32 \<Rightarrow> pax_section list option" where
  "section_table_from_bytes bytes count =
     (if length bytes < unat count * 64 then None else read_entries section_from_bytes 64 (unat count) bytes)"

lemma section_table_round_trip:
  assumes "list_all section_ok ss" "length ss < 2 ^ 32"
  shows "section_table_from_bytes (section_table_to_bytes ss @ r) (of_nat (length ss)) = Some ss"
proof -
  have "unat (of_nat (length ss) :: u32) = length ss" using assms(2) by (simp add: unat_of_nat)
  then show ?thesis
    using sections.read_entries_table [OF assms(1)] sections.table_length [of ss]
    by (simp add: section_table_from_bytes_def section_table_to_bytes_def)
qed

text \<open>
  A name is cut after 23 bytes.  Inside a character that leaves bytes which are not UTF-8, and the
  descriptor cannot be read back at all: eight copies of a three-byte character.
\<close>

lemma section_name_cut:
  defines "euros \<equiv> [0xE2, 0x82, 0xAC, 0xE2, 0x82, 0xAC, 0xE2, 0x82, 0xAC, 0xE2, 0x82, 0xAC, 0xE2, 0x82, 0xAC, 0xE2, 0x82, 0xAC,
    0xE2, 0x82, 0xAC, 0xE2, 0x82, 0xAC] :: u8 list"
  shows "utf8_valid euros"
    "section_from_bytes (section_to_bytes (section_code 0 0 \<lparr>sec_name := euros\<rparr>)) = None"
proof -
  let ?s = "section_code 0 0 \<lparr>sec_name := euros\<rparr>"
  show "utf8_valid euros" by (simp add: euros_def)
  have "0 \<notin> set (take 23 (sec_name ?s))" "\<not> utf8_valid (take 23 (sec_name ?s))"
    by (simp_all add: euros_def)
  then have "name_of_bytes (slice 40 24 (section_to_bytes ?s)) = None"
    using section_name_field [of ?s] by (auto simp: name_of_bytes_nul)
  then show "section_from_bytes (section_to_bytes ?s) = None"
    by (simp add: section_from_bytes_def split: option.split)
qed

section \<open>Content hash and signature\<close>

text \<open>The hashed bytes: the header with its two hash fields zeroed, the section table, the contents.\<close>

definition canonical_content :: "pax_header \<Rightarrow> pax_section list \<Rightarrow> u8 list" where
  "canonical_content h table =
     (let hdr_bytes = header_to_bytes h;
          hdr_bytes = put hdr_bytes 32 (replicate 32 0);
          hdr_bytes = put hdr_bytes 64 (replicate 32 0)
      in hdr_bytes @ section_table_to_bytes table)"

definition compute_content_hash ::
    "(u8 list \<Rightarrow> u8 list) \<Rightarrow> pax_header \<Rightarrow> pax_section list \<Rightarrow> u8 list list \<Rightarrow> u8 list" where
  "compute_content_hash blake3 h table contents =
     (let c = canonical_content h table; c = fold (\<lambda>content c. c @ content) contents c in blake3 c)"

definition pax_message_to_sign ::
    "(u8 list \<Rightarrow> u8 list) \<Rightarrow> pax_header \<Rightarrow> pax_section list \<Rightarrow> u8 list list \<Rightarrow> u8 list" where
  "pax_message_to_sign blake3 h table contents = compute_content_hash blake3 h table contents"

definition embed_signature_hash :: "(u8 list \<Rightarrow> u8 list) \<Rightarrow> pax_header \<Rightarrow> u8 list \<Rightarrow> pax_header" where
  "embed_signature_hash blake3 h sig = h\<lparr>signature_hash := blake3 sig\<rparr>"

definition header_signature_hash_matches :: "(u8 list \<Rightarrow> u8 list) \<Rightarrow> pax_header \<Rightarrow> u8 list \<Rightarrow> bool" where
  "header_signature_hash_matches blake3 h sig \<longleftrightarrow> signature_hash h = blake3 sig"

lemma take_put: "m \<le> off \<Longrightarrow> off \<le> length bs \<Longrightarrow> take m (put bs off xs) = take m bs"
  by (simp add: put_def)

text \<open>The hash covers neither itself nor the signature field.\<close>

lemma canonical_header:
  assumes "header_wf h" "length ch = 32" "length sg = 32"
  shows "canonical_content (h\<lparr>content_hash := ch, signature_hash := sg\<rparr>) table = canonical_content h table"
proof -
  let ?b = "\<lambda>h. put (put (header_to_bytes h) 32 (replicate 32 0)) 64 (replicate 32 0)"
  have cut: "take 32 (header_to_bytes (h\<lparr>content_hash := ch, signature_hash := sg\<rparr>)) = take 32 (header_to_bytes h)"
    using assms by (simp add: header_to_bytes_def header_wf_def Let_def take_put field_simps)
  have b: "?b g = take 32 (header_to_bytes g) @ replicate 64 0" if "header_wf g" for g
    using that by (simp add: put_def flip: replicate_add)
  have "header_wf (h\<lparr>content_hash := ch, signature_hash := sg\<rparr>)" using assms by (simp add: header_wf_def)
  then show ?thesis using b [of h] b [of "h\<lparr>content_hash := ch, signature_hash := sg\<rparr>"] assms(1) cut
    by (simp add: canonical_content_def Let_def)
qed

lemma fold_append: "fold (\<lambda>x acc. acc @ x) xs acc = acc @ concat xs"
  by (induction xs arbitrary: acc) simp_all

section \<open>Effect rows\<close>

record effect_row_entry =
  er_symbol_id :: u64
  er_fixed :: "u32 list"
  er_row_var :: "u32 option"

definition effect_entry_to_bytes :: "effect_row_entry \<Rightarrow> u8 list" where
  "effect_entry_to_bytes e =
     le_bytes64 (er_symbol_id e) @ le_bytes32 (of_nat (length (er_fixed e))) @
     le_bytes32 (case er_row_var e of Some v \<Rightarrow> v | None \<Rightarrow> 0) @ concat (map le_bytes32 (er_fixed e))"

definition effect_entry_from_bytes :: "u8 list \<Rightarrow> (effect_row_entry \<times> nat) option" where
  "effect_entry_from_bytes bytes =
     (if length bytes < 16 then None
      else
        (let fixed_count = unat (u32_at bytes 8);
             row_var_id_val = u32_at bytes 12;
             total_size = 16 + fixed_count * 4
         in if length bytes < total_size then None
            else
              Some (\<lparr>er_symbol_id = u64_at bytes 0,
                     er_fixed = map (\<lambda>i. u32_at bytes (16 + i * 4)) [0..<fixed_count],
                     er_row_var = (if row_var_id_val = 0 then None else Some row_var_id_val)\<rparr>, total_size)))"

definition effect_entry_ok :: "effect_row_entry \<Rightarrow> bool" where
  "effect_entry_ok e \<longleftrightarrow> length (er_fixed e) < 2 ^ 32 \<and> er_row_var e \<noteq> Some 0"

lemma u_at_skip [field_simps]:
  "length xs \<le> off \<Longrightarrow> u32_at (xs @ bs) off = u32_at bs (off - length xs)"
  "length xs \<le> off \<Longrightarrow> u64_at (xs @ bs) off = u64_at bs (off - length xs)"
  by (simp_all add: u32_at_def u64_at_def slice_def)

lemma u_at_front [field_simps]:
  "u32_at (le_bytes32 a @ bs) 0 = a" "u64_at (le_bytes64 b @ bs) 0 = b"
  by (simp_all add: u32_at_def u64_at_def slice_def from_le_bytes)

lemma words_at:
  "i < length ws \<Longrightarrow> u32_at (concat (map le_bytes32 ws) @ r) (i * 4) = ws ! i"
proof (induction ws arbitrary: i)
  case (Cons w ws)
  then show ?case by (cases i) (simp_all add: field_simps)
qed simp

lemma length_words [simp]: "length (concat (map le_bytes32 ws)) = length ws * 4"
  by (induction ws) simp_all

lemma length_effect_entry: "length (effect_entry_to_bytes e) = 16 + length (er_fixed e) * 4"
  by (simp add: effect_entry_to_bytes_def)

lemma effect_entry_round_trip:
  assumes "effect_entry_ok e"
  shows "effect_entry_from_bytes (effect_entry_to_bytes e @ r) = Some (e, length (effect_entry_to_bytes e))"
proof -
  let ?b = "effect_entry_to_bytes e @ r"
  have n: "unat (of_nat (length (er_fixed e)) :: u32) = length (er_fixed e)"
    using assms by (simp add: effect_entry_ok_def unat_of_nat)
  have "u32_at ?b (16 + i * 4) = er_fixed e ! i" if "i < length (er_fixed e)" for i
    using words_at [OF that, of r] by (simp add: effect_entry_to_bytes_def field_simps)
  then have "map (\<lambda>i. u32_at ?b (16 + i * 4)) [0..<length (er_fixed e)] = er_fixed e"
    by (intro nth_equalityI) simp_all
  moreover have "u64_at ?b 0 = er_symbol_id e" "u32_at ?b 8 = of_nat (length (er_fixed e))"
    "u32_at ?b 12 = (case er_row_var e of Some v \<Rightarrow> v | None \<Rightarrow> 0)"
    by (simp_all add: effect_entry_to_bytes_def field_simps)
  ultimately show ?thesis
    using assms n by (auto simp: effect_entry_from_bytes_def Let_def length_effect_entry effect_entry_ok_def
        split: option.splits)
qed

interpretation effect_entries: stream_codec effect_entry_to_bytes effect_entry_from_bytes effect_entry_ok
proof
  fix e r
  show "effect_entry_ok e \<Longrightarrow>
      effect_entry_from_bytes (effect_entry_to_bytes e @ r) = Some (e, length (effect_entry_to_bytes e))"
    by (rule effect_entry_round_trip)
  show "effect_entry_to_bytes e \<noteq> []"
    using length_effect_entry [of e] by (metis add_is_0 list.size(3) zero_neq_numeral)
qed (auto simp: effect_entry_from_bytes_def Let_def split: if_splits)

definition effects_to_bytes :: "effect_row_entry list \<Rightarrow> u8 list" where
  "effects_to_bytes = table_to_bytes effect_entry_to_bytes"

definition effects_from_bytes :: "u8 list \<Rightarrow> effect_row_entry list option" where
  "effects_from_bytes bytes = read_stream effect_entry_from_bytes (length bytes) bytes"

section \<open>Optimisation records\<close>

record opt_pass_record =
  pass_name :: "u8 list"
  function_id :: u32
  rewrite_count :: u32

definition opt_pass_to_bytes :: "opt_pass_record \<Rightarrow> u8 list" where
  "opt_pass_to_bytes e =
     le_bytes32 (of_nat (length (pass_name e))) @ pass_name e @ le_bytes64 (ucast (function_id e)) @
     le_bytes32 (rewrite_count e)"

definition opt_pass_from_bytes :: "u8 list \<Rightarrow> (opt_pass_record \<times> nat) option" where
  "opt_pass_from_bytes bytes =
     (if length bytes < 16 then None
      else
        (let pass_name_len = unat (u32_at bytes 0);
             total_len = 4 + pass_name_len + 8 + 4
         in if length bytes < total_len then None
            else if \<not> utf8_valid (slice 4 pass_name_len bytes) then None
            else
              (let offset_func_id = 4 + pass_name_len;
                   function_id_u64 = u64_at bytes offset_func_id
               in if (ucast function_id_u64 :: u32) = 0 then None
                  else
                    (let offset_rewrite = offset_func_id + 8
                     in Some (\<lparr>pass_name = slice 4 pass_name_len bytes, function_id = ucast function_id_u64,
                               rewrite_count = u32_at bytes offset_rewrite\<rparr>, total_len)))))"

definition opt_pass_ok :: "opt_pass_record \<Rightarrow> bool" where
  "opt_pass_ok e \<longleftrightarrow> length (pass_name e) < 2 ^ 32 \<and> utf8_valid (pass_name e) \<and> function_id e \<noteq> 0"

lemma length_opt_pass: "length (opt_pass_to_bytes e) = 16 + length (pass_name e)"
  by (simp add: opt_pass_to_bytes_def)

lemma opt_pass_round_trip:
  assumes "opt_pass_ok e"
  shows "opt_pass_from_bytes (opt_pass_to_bytes e @ r) = Some (e, length (opt_pass_to_bytes e))"
proof -
  let ?b = "opt_pass_to_bytes e @ r"
  have n: "unat (of_nat (length (pass_name e)) :: u32) = length (pass_name e)"
    using assms by (simp add: opt_pass_ok_def unat_of_nat)
  have "u32_at ?b 0 = of_nat (length (pass_name e))" "slice 4 (length (pass_name e)) ?b = pass_name e"
    "u64_at ?b (4 + length (pass_name e)) = ucast (function_id e)"
    "u32_at ?b (4 + length (pass_name e) + 8) = rewrite_count e"
    by (simp_all add: opt_pass_to_bytes_def field_simps slice_def)
  moreover have "(ucast (ucast (function_id e) :: u64) :: u32) = function_id e"
    by (rule bit_eqI) (simp add: bit_simps)
  ultimately show ?thesis
    using assms n by (simp add: opt_pass_from_bytes_def Let_def length_opt_pass opt_pass_ok_def)
qed

interpretation opt_passes: stream_codec opt_pass_to_bytes opt_pass_from_bytes opt_pass_ok
proof
  fix e r
  show "opt_pass_ok e \<Longrightarrow> opt_pass_from_bytes (opt_pass_to_bytes e @ r) = Some (e, length (opt_pass_to_bytes e))"
    by (rule opt_pass_round_trip)
  show "opt_pass_to_bytes e \<noteq> []"
    using length_opt_pass [of e] by (metis add_is_0 list.size(3) zero_neq_numeral)
qed (auto simp: opt_pass_from_bytes_def Let_def split: if_splits)

definition opt_passes_to_bytes :: "opt_pass_record list \<Rightarrow> u8 list" where
  "opt_passes_to_bytes = table_to_bytes opt_pass_to_bytes"

definition opt_passes_from_bytes :: "u8 list \<Rightarrow> opt_pass_record list option" where
  "opt_passes_from_bytes bytes = read_stream opt_pass_from_bytes (length bytes) bytes"

end
