(* ===== verification/Pax_Tables.thy ===== *)
theory Pax_Tables
  imports Pax_Codec
begin

text \<open>
  \<^verbatim>\<open>crates/paideia-as-emitter-pax/src\<close>: the entry types of the PAX sections (\<^verbatim>\<open>symtab.rs\<close>, \<^verbatim>\<open>relocs.rs\<close>,
  \<^verbatim>\<open>caps.rs\<close>, \<^verbatim>\<open>imports.rs\<close>, \<^verbatim>\<open>functors.rs\<close>, \<^verbatim>\<open>audit.rs\<close>) with their byte layouts.  Each is shown to meet the
  contract \<open>entry_codec\<close>; a section is its list of entries.
\<close>

section \<open>Symbols\<close>

datatype sym_binding = Sym_Local | Sym_Global | Sym_Weak

fun sym_binding_code :: "sym_binding \<Rightarrow> u32" where
  "sym_binding_code Sym_Local = 0"
| "sym_binding_code Sym_Global = 1"
| "sym_binding_code Sym_Weak = 2"

definition sym_binding_from :: "u32 \<Rightarrow> sym_binding option" where
  "sym_binding_from n =
     (if n = 0 then Some Sym_Local
      else if n = 1 then Some Sym_Global
      else if n = 2 then Some Sym_Weak
      else None)"

lemma sym_binding_from_code [field_simps]: "sym_binding_from (sym_binding_code x) = Some x"
  by (cases x) (simp_all add: sym_binding_from_def)

datatype sym_visibility = Vis_Default | Vis_Hidden

fun sym_visibility_code :: "sym_visibility \<Rightarrow> u32" where
  "sym_visibility_code Vis_Default = 0"
| "sym_visibility_code Vis_Hidden = 1"

definition sym_visibility_from :: "u32 \<Rightarrow> sym_visibility option" where
  "sym_visibility_from n =
     (if n = 0 then Some Vis_Default
      else if n = 1 then Some Vis_Hidden
      else None)"

lemma sym_visibility_from_code [field_simps]: "sym_visibility_from (sym_visibility_code x) = Some x"
  by (cases x) (simp_all add: sym_visibility_from_def)

record sym_entry =
  sym_value :: u64
  sym_size :: u64
  sym_section :: u32
  sym_binding_of :: sym_binding
  sym_visibility_of :: sym_visibility
  sym_name_offset :: u64
  sym_hash :: u64

definition sym_to_bytes :: "sym_entry \<Rightarrow> u8 list" where
  "sym_to_bytes e =
     (let bytes = replicate 48 0;
          bytes = put bytes 0 (le_bytes64 (sym_value e));
          bytes = put bytes 8 (le_bytes64 (sym_size e));
          bytes = put bytes 16 (le_bytes32 (sym_section e));
          bytes = put bytes 20 (le_bytes32 (sym_binding_code (sym_binding_of e)));
          bytes = put bytes 24 (le_bytes32 (sym_visibility_code (sym_visibility_of e)));
          bytes = put bytes 32 (le_bytes64 (sym_name_offset e));
          bytes = put bytes 40 (le_bytes64 (sym_hash e))
      in bytes)"

definition sym_from_bytes :: "u8 list \<Rightarrow> sym_entry option" where
  "sym_from_bytes bytes =
     (if length bytes < 48 then None
      else
        (case sym_binding_from (u32_at bytes 20) of
           None \<Rightarrow> None
         | Some v_sym_binding_of \<Rightarrow>
             (case sym_visibility_from (u32_at bytes 24) of
                None \<Rightarrow> None
              | Some v_sym_visibility_of \<Rightarrow>
                  Some \<lparr>sym_value = u64_at bytes 0,
                    sym_size = u64_at bytes 8,
                    sym_section = u32_at bytes 16,
                    sym_binding_of = v_sym_binding_of,
                    sym_visibility_of = v_sym_visibility_of,
                    sym_name_offset = u64_at bytes 32,
                    sym_hash = u64_at bytes 40\<rparr>)))"

interpretation sym: entry_codec sym_to_bytes sym_from_bytes 48 "\<lambda>_. True"
  by unfold_locales (auto simp: sym_to_bytes_def sym_from_bytes_def field_simps Let_def)

definition symtab_to_bytes :: "sym_entry list \<Rightarrow> u8 list" where
  "symtab_to_bytes = table_to_bytes sym_to_bytes"

definition symtab_from_bytes :: "u8 list \<Rightarrow> sym_entry list option" where
  "symtab_from_bytes = table_from_bytes sym_from_bytes 48"

section \<open>Relocations\<close>

datatype pax_reloc_kind = Rel_Abs64 | Rel_Pc32 | Rel_GotPc32 | Rel_PltPc32 | Rel_CapBind

fun pax_reloc_kind_code :: "pax_reloc_kind \<Rightarrow> u32" where
  "pax_reloc_kind_code Rel_Abs64 = 1"
| "pax_reloc_kind_code Rel_Pc32 = 2"
| "pax_reloc_kind_code Rel_GotPc32 = 3"
| "pax_reloc_kind_code Rel_PltPc32 = 4"
| "pax_reloc_kind_code Rel_CapBind = 0x100"

definition pax_reloc_kind_from :: "u32 \<Rightarrow> pax_reloc_kind option" where
  "pax_reloc_kind_from n =
     (if n = 1 then Some Rel_Abs64
      else if n = 2 then Some Rel_Pc32
      else if n = 3 then Some Rel_GotPc32
      else if n = 4 then Some Rel_PltPc32
      else if n = 0x100 then Some Rel_CapBind
      else None)"

lemma pax_reloc_kind_from_code [field_simps]: "pax_reloc_kind_from (pax_reloc_kind_code x) = Some x"
  by (cases x) (simp_all add: pax_reloc_kind_from_def)

record reloc_entry =
  rel_offset :: u64
  rel_symbol :: u64
  rel_kind :: pax_reloc_kind
  rel_addend :: i64

text \<open>The addend is written and read in two halves.\<close>

definition reloc_to_bytes :: "reloc_entry \<Rightarrow> u8 list" where
  "reloc_to_bytes e =
     (let bytes = replicate 32 0;
          bytes = put bytes 0 (le_bytes64 (rel_offset e));
          bytes = put bytes 8 (le_bytes64 (rel_symbol e));
          bytes = put bytes 16 (le_bytes32 (pax_reloc_kind_code (rel_kind e)));
          addend_bytes = le_bytes64 (rel_addend e);
          bytes = put bytes 20 (slice 0 4 addend_bytes);
          bytes = put bytes 24 (slice 4 4 addend_bytes)
      in bytes)"

definition reloc_from_bytes :: "u8 list \<Rightarrow> reloc_entry option" where
  "reloc_from_bytes bytes =
     (if length bytes < 32 then None
      else
        (case pax_reloc_kind_from (u32_at bytes 16) of
           None \<Rightarrow> None
         | Some kind \<Rightarrow>
             (let addend_bytes = replicate 8 0;
                  addend_bytes = put addend_bytes 0 (slice 20 4 bytes);
                  addend_bytes = put addend_bytes 4 (slice 24 4 bytes)
              in Some \<lparr>rel_offset = u64_at bytes 0, rel_symbol = u64_at bytes 8, rel_kind = kind,
                   rel_addend = from_le64 addend_bytes\<rparr>)))"

lemma put_halves: "length bs = 8 \<Longrightarrow> put (put (replicate 8 0) 0 (slice 0 4 bs)) 4 (slice 4 4 bs) = bs"
  by (simp add: put_def slice_def)

lemma slice_put_field [field_simps]:
  "off + length xs \<le> length bs \<Longrightarrow> n = length xs \<Longrightarrow> slice off n (put bs off xs) = xs"
  "off' + length xs \<le> length bs \<Longrightarrow> off + n \<le> off' \<or> off' + length xs \<le> off \<Longrightarrow>
     slice off n (put bs off' xs) = slice off n bs"
  by (simp_all add: slice_put_same slice_put_other)

interpretation reloc: entry_codec reloc_to_bytes reloc_from_bytes 32 "\<lambda>_. True"
  by unfold_locales (auto simp: reloc_to_bytes_def reloc_from_bytes_def field_simps Let_def put_halves)

definition relocs_to_bytes :: "reloc_entry list \<Rightarrow> u8 list" where
  "relocs_to_bytes = table_to_bytes reloc_to_bytes"

definition relocs_from_bytes :: "u8 list \<Rightarrow> reloc_entry list option" where
  "relocs_from_bytes = table_from_bytes reloc_from_bytes 32"

section \<open>Capabilities\<close>

datatype site_kind = Site_FunctionParam | Site_StructField | Site_LocalLet

fun site_kind_code :: "site_kind \<Rightarrow> u32" where
  "site_kind_code Site_FunctionParam = 1"
| "site_kind_code Site_StructField = 2"
| "site_kind_code Site_LocalLet = 3"

definition site_kind_from :: "u32 \<Rightarrow> site_kind option" where
  "site_kind_from n =
     (if n = 1 then Some Site_FunctionParam
      else if n = 2 then Some Site_StructField
      else if n = 3 then Some Site_LocalLet
      else None)"

lemma site_kind_from_code [field_simps]: "site_kind_from (site_kind_code x) = Some x"
  by (cases x) (simp_all add: site_kind_from_def)

datatype pax_lin_class = Pax_Linear | Pax_Affine | Pax_Ordered | Pax_Unrestricted

fun pax_lin_class_code :: "pax_lin_class \<Rightarrow> u32" where
  "pax_lin_class_code Pax_Linear = 1"
| "pax_lin_class_code Pax_Affine = 2"
| "pax_lin_class_code Pax_Ordered = 3"
| "pax_lin_class_code Pax_Unrestricted = 4"

definition pax_lin_class_from :: "u32 \<Rightarrow> pax_lin_class option" where
  "pax_lin_class_from n =
     (if n = 1 then Some Pax_Linear
      else if n = 2 then Some Pax_Affine
      else if n = 3 then Some Pax_Ordered
      else if n = 4 then Some Pax_Unrestricted
      else None)"

lemma pax_lin_class_from_code [field_simps]: "pax_lin_class_from (pax_lin_class_code x) = Some x"
  by (cases x) (simp_all add: pax_lin_class_from_def)

datatype cap_kind = Cap_MmioMem | Cap_IpcChannel | Cap_Fs | Cap_Net | Cap_Other

fun cap_kind_code :: "cap_kind \<Rightarrow> u32" where
  "cap_kind_code Cap_MmioMem = 1"
| "cap_kind_code Cap_IpcChannel = 2"
| "cap_kind_code Cap_Fs = 3"
| "cap_kind_code Cap_Net = 4"
| "cap_kind_code Cap_Other = 0xFF"

definition cap_kind_from :: "u32 \<Rightarrow> cap_kind option" where
  "cap_kind_from n =
     (if n = 1 then Some Cap_MmioMem
      else if n = 2 then Some Cap_IpcChannel
      else if n = 3 then Some Cap_Fs
      else if n = 4 then Some Cap_Net
      else if n = 0xFF then Some Cap_Other
      else None)"

lemma cap_kind_from_code [field_simps]: "cap_kind_from (cap_kind_code x) = Some x"
  by (cases x) (simp_all add: cap_kind_from_def)

record cap_entry =
  ce_site_kind :: site_kind
  ce_class :: pax_lin_class
  ce_location_id :: u64
  ce_lam_tag :: u32
  ce_cap_kind :: cap_kind
  ce_name_hash :: u64

definition cap_entry_to_bytes :: "cap_entry \<Rightarrow> u8 list" where
  "cap_entry_to_bytes e =
     (let bytes = replicate 32 0;
          bytes = put bytes 0 (le_bytes32 (site_kind_code (ce_site_kind e)));
          bytes = put bytes 4 (le_bytes32 (pax_lin_class_code (ce_class e)));
          bytes = put bytes 8 (le_bytes64 (ce_location_id e));
          bytes = put bytes 16 (le_bytes32 (ce_lam_tag e));
          bytes = put bytes 20 (le_bytes32 (cap_kind_code (ce_cap_kind e)));
          bytes = put bytes 24 (le_bytes64 (ce_name_hash e))
      in bytes)"

definition cap_entry_from_bytes :: "u8 list \<Rightarrow> cap_entry option" where
  "cap_entry_from_bytes bytes =
     (if length bytes < 32 then None
      else
        (case site_kind_from (u32_at bytes 0) of
           None \<Rightarrow> None
         | Some v_ce_site_kind \<Rightarrow>
             (case pax_lin_class_from (u32_at bytes 4) of
                None \<Rightarrow> None
              | Some v_ce_class \<Rightarrow>
                  (case cap_kind_from (u32_at bytes 20) of
                     None \<Rightarrow> None
                   | Some v_ce_cap_kind \<Rightarrow>
                       Some \<lparr>ce_site_kind = v_ce_site_kind,
                         ce_class = v_ce_class,
                         ce_location_id = u64_at bytes 8,
                         ce_lam_tag = u32_at bytes 16,
                         ce_cap_kind = v_ce_cap_kind,
                         ce_name_hash = u64_at bytes 24\<rparr>))))"

interpretation caps_codec: entry_codec cap_entry_to_bytes cap_entry_from_bytes 32 "\<lambda>_. True"
  by unfold_locales (auto simp: cap_entry_to_bytes_def cap_entry_from_bytes_def field_simps Let_def)

definition caps_section_to_bytes :: "cap_entry list \<Rightarrow> u8 list" where
  "caps_section_to_bytes = table_to_bytes cap_entry_to_bytes"

definition caps_section_from_bytes :: "u8 list \<Rightarrow> cap_entry list option" where
  "caps_section_from_bytes = table_from_bytes cap_entry_from_bytes 32"

text \<open>The first eight bytes of the BLAKE3 hash of the name.\<close>

definition hash_name :: "(u8 list \<Rightarrow> u8 list) \<Rightarrow> u8 list \<Rightarrow> u64" where
  "hash_name blake3 name = from_le64 (slice 0 8 (blake3 name))"

definition cap_entry_new ::
    "(u8 list \<Rightarrow> u8 list) \<Rightarrow> site_kind \<Rightarrow> pax_lin_class \<Rightarrow> u64 \<Rightarrow> u32 \<Rightarrow> cap_kind \<Rightarrow> u8 list \<Rightarrow> cap_entry" where
  "cap_entry_new blake3 site cls loc tag kind name =
     \<lparr>ce_site_kind = site, ce_class = cls, ce_location_id = loc, ce_lam_tag = tag, ce_cap_kind = kind,
      ce_name_hash = hash_name blake3 name\<rparr>"

section \<open>Imports and exports\<close>

record cap_descriptor =
  cd_name_offset :: u64
  cd_hash :: u64
  cd_kind :: cap_kind
  cd_lin_class :: pax_lin_class
  cd_flags :: u64

definition cap_desc_to_bytes :: "cap_descriptor \<Rightarrow> u8 list" where
  "cap_desc_to_bytes e =
     (let bytes = replicate 32 0;
          bytes = put bytes 0 (le_bytes64 (cd_name_offset e));
          bytes = put bytes 8 (le_bytes64 (cd_hash e));
          bytes = put bytes 16 (le_bytes32 (cap_kind_code (cd_kind e)));
          bytes = put bytes 20 (le_bytes32 (pax_lin_class_code (cd_lin_class e)));
          bytes = put bytes 24 (le_bytes64 (cd_flags e))
      in bytes)"

definition cap_desc_from_bytes :: "u8 list \<Rightarrow> cap_descriptor option" where
  "cap_desc_from_bytes bytes =
     (if length bytes < 32 then None
      else
        (case cap_kind_from (u32_at bytes 16) of
           None \<Rightarrow> None
         | Some v_cd_kind \<Rightarrow>
             (case pax_lin_class_from (u32_at bytes 20) of
                None \<Rightarrow> None
              | Some v_cd_lin_class \<Rightarrow>
                  Some \<lparr>cd_name_offset = u64_at bytes 0,
                    cd_hash = u64_at bytes 8,
                    cd_kind = v_cd_kind,
                    cd_lin_class = v_cd_lin_class,
                    cd_flags = u64_at bytes 24\<rparr>)))"

definition cap_is_optional :: "cap_descriptor \<Rightarrow> bool" where
  "cap_is_optional d \<longleftrightarrow> cd_flags d AND 0x01 \<noteq> 0"

definition cap_is_deprecated :: "cap_descriptor \<Rightarrow> bool" where
  "cap_is_deprecated d \<longleftrightarrow> cd_flags d AND 0x02 \<noteq> 0"

interpretation cap_desc: entry_codec cap_desc_to_bytes cap_desc_from_bytes 32 "\<lambda>_. True"
  by unfold_locales (auto simp: cap_desc_to_bytes_def cap_desc_from_bytes_def field_simps Let_def)

definition imports_to_bytes :: "cap_descriptor list \<Rightarrow> u8 list" where
  "imports_to_bytes = table_to_bytes cap_desc_to_bytes"

definition imports_from_bytes :: "u8 list \<Rightarrow> cap_descriptor list option" where
  "imports_from_bytes = table_from_bytes cap_desc_from_bytes 32"

definition exports_to_bytes :: "cap_descriptor list \<Rightarrow> u8 list" where
  "exports_to_bytes = table_to_bytes cap_desc_to_bytes"

definition exports_from_bytes :: "u8 list \<Rightarrow> cap_descriptor list option" where
  "exports_from_bytes = table_from_bytes cap_desc_from_bytes 32"

section \<open>Functors\<close>

record functor_entry =
  fe_symbol_id :: u64
  fe_param_hash :: u64
  fe_result_hash :: u64
  fe_closure_offset :: u64
  fe_closure_size :: u32
  fe_flags :: u32

definition functor_to_bytes :: "functor_entry \<Rightarrow> u8 list" where
  "functor_to_bytes e =
     (let bytes = replicate 40 0;
          bytes = put bytes 0 (le_bytes64 (fe_symbol_id e));
          bytes = put bytes 8 (le_bytes64 (fe_param_hash e));
          bytes = put bytes 16 (le_bytes64 (fe_result_hash e));
          bytes = put bytes 24 (le_bytes64 (fe_closure_offset e));
          bytes = put bytes 32 (le_bytes32 (fe_closure_size e));
          bytes = put bytes 36 (le_bytes32 (fe_flags e))
      in bytes)"

definition functor_from_bytes :: "u8 list \<Rightarrow> functor_entry option" where
  "functor_from_bytes bytes =
     (if length bytes < 40 then None
      else
        Some \<lparr>fe_symbol_id = u64_at bytes 0,
          fe_param_hash = u64_at bytes 8,
          fe_result_hash = u64_at bytes 16,
          fe_closure_offset = u64_at bytes 24,
          fe_closure_size = u32_at bytes 32,
          fe_flags = u32_at bytes 36\<rparr>)"

interpretation functor_codec: entry_codec functor_to_bytes functor_from_bytes 40 "\<lambda>_. True"
  by unfold_locales (auto simp: functor_to_bytes_def functor_from_bytes_def field_simps Let_def)

definition functors_to_bytes :: "functor_entry list \<Rightarrow> u8 list" where
  "functors_to_bytes = table_to_bytes functor_to_bytes"

definition functors_from_bytes :: "u8 list \<Rightarrow> functor_entry list option" where
  "functors_from_bytes = table_from_bytes functor_from_bytes 40"

section \<open>Audit sections\<close>

record unsafe_entry =
  ue_symbol_id :: u64
  ue_span_start :: u64
  ue_span_len :: u64
  ue_block_hash :: u64
  ue_justification_hash :: u64

definition unsafe_to_bytes :: "unsafe_entry \<Rightarrow> u8 list" where
  "unsafe_to_bytes e =
     (let bytes = replicate 40 0;
          bytes = put bytes 0 (le_bytes64 (ue_symbol_id e));
          bytes = put bytes 8 (le_bytes64 (ue_span_start e));
          bytes = put bytes 16 (le_bytes64 (ue_span_len e));
          bytes = put bytes 24 (le_bytes64 (ue_block_hash e));
          bytes = put bytes 32 (le_bytes64 (ue_justification_hash e))
      in bytes)"

definition unsafe_from_bytes :: "u8 list \<Rightarrow> unsafe_entry option" where
  "unsafe_from_bytes bytes =
     (if length bytes < 40 then None
      else
        Some \<lparr>ue_symbol_id = u64_at bytes 0,
          ue_span_start = u64_at bytes 8,
          ue_span_len = u64_at bytes 16,
          ue_block_hash = u64_at bytes 24,
          ue_justification_hash = u64_at bytes 32\<rparr>)"

interpretation unsafe: entry_codec unsafe_to_bytes unsafe_from_bytes 40 "\<lambda>_. True"
  by unfold_locales (auto simp: unsafe_to_bytes_def unsafe_from_bytes_def field_simps Let_def)

definition unsafe_section_to_bytes :: "unsafe_entry list \<Rightarrow> u8 list" where
  "unsafe_section_to_bytes = table_to_bytes unsafe_to_bytes"

definition unsafe_section_from_bytes :: "u8 list \<Rightarrow> unsafe_entry list option" where
  "unsafe_section_from_bytes = table_from_bytes unsafe_from_bytes 40"

datatype pass_id = Pass_Peephole | Pass_Anf | Pass_Dse | Pass_ConstFold | Pass_EffectRewrite | Pass_Other

fun pass_id_code :: "pass_id \<Rightarrow> u32" where
  "pass_id_code Pass_Peephole = 1"
| "pass_id_code Pass_Anf = 2"
| "pass_id_code Pass_Dse = 3"
| "pass_id_code Pass_ConstFold = 4"
| "pass_id_code Pass_EffectRewrite = 5"
| "pass_id_code Pass_Other = 0xFFFFFFFF"

definition pass_id_from :: "u32 \<Rightarrow> pass_id option" where
  "pass_id_from n =
     (if n = 1 then Some Pass_Peephole
      else if n = 2 then Some Pass_Anf
      else if n = 3 then Some Pass_Dse
      else if n = 4 then Some Pass_ConstFold
      else if n = 5 then Some Pass_EffectRewrite
      else if n = 0xFFFFFFFF then Some Pass_Other
      else None)"

lemma pass_id_from_code [field_simps]: "pass_id_from (pass_id_code x) = Some x"
  by (cases x) (simp_all add: pass_id_from_def)

record opt_entry =
  oe_symbol_id :: u64
  oe_pass :: pass_id
  oe_iterations :: u32
  oe_delta :: i64
  oe_pre_hash :: u64

definition opt_to_bytes :: "opt_entry \<Rightarrow> u8 list" where
  "opt_to_bytes e =
     (let bytes = replicate 32 0;
          bytes = put bytes 0 (le_bytes64 (oe_symbol_id e));
          bytes = put bytes 8 (le_bytes32 (pass_id_code (oe_pass e)));
          bytes = put bytes 12 (le_bytes32 (oe_iterations e));
          bytes = put bytes 16 (le_bytes64 (oe_delta e));
          bytes = put bytes 24 (le_bytes64 (oe_pre_hash e))
      in bytes)"

definition opt_from_bytes :: "u8 list \<Rightarrow> opt_entry option" where
  "opt_from_bytes bytes =
     (if length bytes < 32 then None
      else
        (case pass_id_from (u32_at bytes 8) of
           None \<Rightarrow> None
         | Some v_oe_pass \<Rightarrow>
             Some \<lparr>oe_symbol_id = u64_at bytes 0,
               oe_pass = v_oe_pass,
               oe_iterations = u32_at bytes 12,
               oe_delta = u64_at bytes 16,
               oe_pre_hash = u64_at bytes 24\<rparr>))"

interpretation opt: entry_codec opt_to_bytes opt_from_bytes 32 "\<lambda>_. True"
  by unfold_locales (auto simp: opt_to_bytes_def opt_from_bytes_def field_simps Let_def)

definition opt_section_to_bytes :: "opt_entry list \<Rightarrow> u8 list" where
  "opt_section_to_bytes = table_to_bytes opt_to_bytes"

definition opt_section_from_bytes :: "u8 list \<Rightarrow> opt_entry list option" where
  "opt_section_from_bytes = table_from_bytes opt_from_bytes 32"

record lin_entry =
  le_symbol_id :: u64
  le_binding_id :: u64
  le_class :: u32
  le_uses :: u32
  le_chain_hash :: u64

definition lin_to_bytes :: "lin_entry \<Rightarrow> u8 list" where
  "lin_to_bytes e =
     (let bytes = replicate 32 0;
          bytes = put bytes 0 (le_bytes64 (le_symbol_id e));
          bytes = put bytes 8 (le_bytes64 (le_binding_id e));
          bytes = put bytes 16 (le_bytes32 (le_class e));
          bytes = put bytes 20 (le_bytes32 (le_uses e));
          bytes = put bytes 24 (le_bytes64 (le_chain_hash e))
      in bytes)"

definition lin_from_bytes :: "u8 list \<Rightarrow> lin_entry option" where
  "lin_from_bytes bytes =
     (if length bytes < 32 then None
      else
        Some \<lparr>le_symbol_id = u64_at bytes 0,
          le_binding_id = u64_at bytes 8,
          le_class = u32_at bytes 16,
          le_uses = u32_at bytes 20,
          le_chain_hash = u64_at bytes 24\<rparr>)"

interpretation lin: entry_codec lin_to_bytes lin_from_bytes 32 "\<lambda>_. True"
  by unfold_locales (auto simp: lin_to_bytes_def lin_from_bytes_def field_simps Let_def)

definition lin_section_to_bytes :: "lin_entry list \<Rightarrow> u8 list" where
  "lin_section_to_bytes = table_to_bytes lin_to_bytes"

definition lin_section_from_bytes :: "u8 list \<Rightarrow> lin_entry list option" where
  "lin_section_from_bytes = table_from_bytes lin_from_bytes 32"

end
