(* ===== verification/Linker.thy ===== *)
theory Linker
  imports Pax_Format Pax_Tables "HOL-Library.Monad_Syntax"
begin

text \<open>
  \<^verbatim>\<open>crates/paideia-as-linker/src\<close>: the four phases parse, resolve, relocate and emit (\<^verbatim>\<open>parse.rs\<close>,
  \<^verbatim>\<open>resolve.rs\<close>, \<^verbatim>\<open>relocate.rs\<close>, \<^verbatim>\<open>emit.rs\<close>) and the driver (\<^verbatim>\<open>lib.rs\<close>).  A panic of the code is the outer
  \<open>None\<close>; errors the code reports are values.  Machine arithmetic wraps as in the release profile.  The
  files are a function from paths to the result of reading them; BLAKE3 is a parameter.
\<close>

section \<open>Parse\<close>

type_synonym path = string

datatype parse_error =
  PE_Io string
| PE_NotPax
| PE_UnsupportedVersion u16
| PE_TruncatedHeader
| PE_TruncatedSectionTable

record parsed_pax =
  pax_path :: path
  parsed_header :: pax_header
  section_table :: "pax_section list"
  pax_bytes :: "u8 list"

text \<open>\<^verbatim>\<open>&bytes[start..end]\<close>: panics when the range is reversed or too long.\<close>

definition slice_range :: "nat \<Rightarrow> nat \<Rightarrow> u8 list \<Rightarrow> u8 list option" where
  "slice_range start stop bs =
     (if start \<le> stop \<and> stop \<le> length bs then Some (slice start (stop - start) bs) else None)"

definition section_content :: "parsed_pax \<Rightarrow> pax_section \<Rightarrow> u8 list option" where
  "section_content pax section =
     (if content_size section = 0 then Some []
      else
        (let start = content_offset section;
             stop = start + content_size section
         in slice_range (unat start) (min (unat stop) (length (pax_bytes pax))) (pax_bytes pax)))"

definition parse_bytes :: "path \<Rightarrow> u8 list \<Rightarrow> (parse_error + parsed_pax) option" where
  "parse_bytes path bytes =
     (if length bytes < 96 then Some (Inl PE_TruncatedHeader)
      else
        (case header_from_bytes bytes of
           None \<Rightarrow> Some (Inl PE_NotPax)
         | Some header \<Rightarrow>
             (if format_version header \<noteq> pax_format_version
              then Some (Inl (PE_UnsupportedVersion (format_version header)))
              else if section_count header = 0
              then Some (Inr \<lparr>pax_path = path, parsed_header = header, section_table = [], pax_bytes = bytes\<rparr>)
              else
                (case slice_range (unat (section_table_offset header)) (length bytes) bytes of
                   None \<Rightarrow> None
                 | Some table_bytes \<Rightarrow>
                     (case section_table_from_bytes table_bytes (section_count header) of
                        None \<Rightarrow> Some (Inl PE_TruncatedSectionTable)
                      | Some table \<Rightarrow>
                          Some (Inr \<lparr>pax_path = path, parsed_header = header, section_table = table,
                                     pax_bytes = bytes\<rparr>))))))"

definition parse_pax :: "(path \<Rightarrow> string + u8 list) \<Rightarrow> path \<Rightarrow> (parse_error + parsed_pax) option" where
  "parse_pax fs path =
     (case fs path of
        Inl e \<Rightarrow> Some (Inl (PE_Io e))
      | Inr bytes \<Rightarrow> parse_bytes path bytes)"

fun parse_inputs :: "(path \<Rightarrow> string + u8 list) \<Rightarrow> path list \<Rightarrow> (parse_error + parsed_pax list) option" where
  "parse_inputs fs [] = Some (Inr [])"
| "parse_inputs fs (p # ps) =
     (case parse_pax fs p of
        None \<Rightarrow> None
      | Some (Inl e) \<Rightarrow> Some (Inl e)
      | Some (Inr pax) \<Rightarrow>
          (case parse_inputs fs ps of
             None \<Rightarrow> None
           | Some (Inl e) \<Rightarrow> Some (Inl e)
           | Some (Inr paxs) \<Rightarrow> Some (Inr (pax # paxs))))"

section \<open>Resolve\<close>

record global_symbol_table =
  by_hash :: "u64 \<rightharpoonup> nat \<times> u64"
  bindings :: "u64 \<rightharpoonup> sym_binding"

record resolved_pax =
  rp_index :: nat
  rp_path :: path
  symbol_mapping :: "u64 \<rightharpoonup> u64"

record resolved_link =
  rl_pax_files :: "resolved_pax list"
  rl_symbols :: global_symbol_table
  rl_capabilities :: "u64 \<rightharpoonup> nat"

text \<open>The two diagnostics of the phase, with the path and the hash of their message.\<close>

datatype link_diag = B1700 path u64 | B1701 path u64

definition undefined_section :: u32 where
  "undefined_section = 0xFFFFFFFF"

definition find_section_content_by_type :: "parsed_pax \<Rightarrow> section_type \<Rightarrow> u8 list option option" where
  "find_section_content_by_type pax ty =
     (case find (\<lambda>s. sec_ty s = ty) (section_table pax) of
        None \<Rightarrow> Some None
      | Some s \<Rightarrow> map_option Some (section_content pax s))"

text \<open>
  \<^verbatim>\<open>if let Some(bytes) = find_section_content_by_type(..) && let Some(table) = T::from_bytes(bytes)\<close>: the
  entries that the loops run over, none when the section is absent or not readable.
\<close>

definition section_entries ::
    "(u8 list \<Rightarrow> 'a list option) \<Rightarrow> section_type \<Rightarrow> parsed_pax \<Rightarrow> 'a list option" where
  "section_entries from_bytes ty pax =
     (case find_section_content_by_type pax ty of
        None \<Rightarrow> None
      | Some None \<Rightarrow> Some []
      | Some (Some bs) \<Rightarrow> (case from_bytes bs of None \<Rightarrow> Some [] | Some es \<Rightarrow> Some es))"

abbreviation symbols_of :: "parsed_pax \<Rightarrow> sym_entry list option" where
  "symbols_of \<equiv> section_entries symtab_from_bytes Sec_Symtab"

abbreviation exports_of :: "parsed_pax \<Rightarrow> cap_descriptor list option" where
  "exports_of \<equiv> section_entries exports_from_bytes Sec_Exports"

abbreviation imports_of :: "parsed_pax \<Rightarrow> cap_descriptor list option" where
  "imports_of \<equiv> section_entries imports_from_bytes Sec_Imports"

abbreviation relocs_of :: "parsed_pax \<Rightarrow> reloc_entry list option" where
  "relocs_of \<equiv> section_entries relocs_from_bytes Sec_Relocs"

definition record_symbol :: "nat \<Rightarrow> u64 \<Rightarrow> sym_entry \<Rightarrow> global_symbol_table \<Rightarrow> global_symbol_table" where
  "record_symbol pax_index local_idx entry g =
     g\<lparr>by_hash := (by_hash g)(sym_hash entry \<mapsto> (pax_index, local_idx)),
       bindings := (bindings g)(sym_hash entry \<mapsto> sym_binding_of entry)\<rparr>"

definition index_symbol :: "nat \<Rightarrow> nat \<times> sym_entry \<Rightarrow> global_symbol_table \<Rightarrow> global_symbol_table" where
  "index_symbol pax_index = (\<lambda>(local_idx, entry) g.
     if sym_section entry \<noteq> undefined_section then
       (case bindings g (sym_hash entry) of
          None \<Rightarrow> record_symbol pax_index (of_nat local_idx) entry g
        | Some Sym_Weak \<Rightarrow>
            if sym_binding_of entry \<noteq> Sym_Weak then record_symbol pax_index (of_nat local_idx) entry g else g
        | Some _ \<Rightarrow>
            if sym_binding_of entry = Sym_Global \<and> bindings g (sym_hash entry) = Some Sym_Weak
            then record_symbol pax_index (of_nat local_idx) entry g else g)
     else g)"

definition empty_symbols :: global_symbol_table where
  "empty_symbols = \<lparr>by_hash = Map.empty, bindings = Map.empty\<rparr>"

definition index_symbols :: "sym_entry list list \<Rightarrow> global_symbol_table" where
  "index_symbols tabs =
     fold (\<lambda>(pax_index, es). fold (index_symbol pax_index) (enumerate 0 es)) (enumerate 0 tabs) empty_symbols"

definition index_exports :: "cap_descriptor list list \<Rightarrow> u64 \<rightharpoonup> nat" where
  "index_exports exps =
     fold (\<lambda>(pax_index, caps) m. fold (\<lambda>cap m. m(cd_hash cap \<mapsto> pax_index)) caps m) (enumerate 0 exps) Map.empty"

definition check_symbols :: "global_symbol_table \<Rightarrow> (path \<times> sym_entry list) list \<Rightarrow> link_diag list" where
  "check_symbols g tabs =
     concat (map (\<lambda>(path, es).
       map (\<lambda>e. B1700 path (sym_hash e))
         (filter (\<lambda>e. sym_section e = undefined_section \<and> by_hash g (sym_hash e) = None) es)) tabs)"

definition check_imports :: "(u64 \<rightharpoonup> nat) \<Rightarrow> (path \<times> cap_descriptor list) list \<Rightarrow> link_diag list" where
  "check_imports provided imps =
     concat (map (\<lambda>(path, caps).
       map (\<lambda>c. B1701 path (cd_hash c)) (filter (\<lambda>c. provided (cd_hash c) = None) caps)) imps)"

definition map_symbols :: "sym_entry list \<Rightarrow> u64 \<rightharpoonup> u64" where
  "map_symbols es = fold (\<lambda>(local_idx, e) m. m(of_nat local_idx \<mapsto> sym_hash e)) (enumerate 0 es) Map.empty"

text \<open>The diagnostics that went to the sink, and the link unless there were any.\<close>

definition resolve_inputs :: "parsed_pax list \<Rightarrow> (link_diag list \<times> resolved_link option) option" where
  "resolve_inputs inputs =
     do {
       tabs \<leftarrow> those (map symbols_of inputs);
       exps \<leftarrow> those (map exports_of inputs);
       imps \<leftarrow> those (map imports_of inputs);
       let g = index_symbols tabs;
       let provided = index_exports exps;
       let diags = check_symbols g (zip (map pax_path inputs) tabs) @
                   check_imports provided (zip (map pax_path inputs) imps);
       let pax_files = map (\<lambda>(i, path, es). \<lparr>rp_index = i, rp_path = path, symbol_mapping = map_symbols es\<rparr>)
                         (enumerate 0 (zip (map pax_path inputs) tabs));
       Some (diags, if diags \<noteq> [] then None
                    else Some \<lparr>rl_pax_files = pax_files, rl_symbols = g, rl_capabilities = provided\<rparr>)
     }"

section \<open>Relocate\<close>

record relocated_pax =
  rel_index :: nat
  section_contents :: "u8 list list"

definition reloc_value :: "resolved_pax \<Rightarrow> reloc_entry \<Rightarrow> u64" where
  "reloc_value rp r =
     (let symbol_id = (case symbol_mapping rp (rel_symbol r) of Some h \<Rightarrow> h | None \<Rightarrow> rel_symbol r)
      in symbol_id + rel_addend r)"

definition apply_reloc :: "resolved_pax \<Rightarrow> reloc_entry \<Rightarrow> u8 list list \<Rightarrow> u8 list list option" where
  "apply_reloc rp r sections =
     (case rel_kind r of
        Rel_Abs64 \<Rightarrow>
          (case sections of
             [] \<Rightarrow> Some sections
           | section # rest \<Rightarrow>
               (let offset = rel_offset r
                in if length section < unat (offset + 8) then Some sections
                   else if unat (offset + 8) < unat offset then None
                   else Some (put section (unat offset) (le_bytes64 (reloc_value rp r)) # rest)))
      | _ \<Rightarrow> Some sections)"

fun apply_relocs :: "resolved_pax \<Rightarrow> reloc_entry list \<Rightarrow> u8 list list \<Rightarrow> u8 list list option" where
  "apply_relocs rp [] sections = Some sections"
| "apply_relocs rp (r # rs) sections =
     (case apply_reloc rp r sections of None \<Rightarrow> None | Some sections' \<Rightarrow> apply_relocs rp rs sections')"

definition relocate_one :: "nat \<Rightarrow> parsed_pax \<Rightarrow> resolved_pax \<Rightarrow> relocated_pax option" where
  "relocate_one i pax rp =
     do {
       contents \<leftarrow> those (map (section_content pax) (section_table pax));
       relocs \<leftarrow> relocs_of pax;
       contents \<leftarrow> apply_relocs rp relocs contents;
       Some \<lparr>rel_index = i, section_contents = contents\<rparr>
     }"

definition relocate_inputs :: "parsed_pax list \<Rightarrow> resolved_link \<Rightarrow> relocated_pax list option" where
  "relocate_inputs inputs resolved =
     (if length (rl_pax_files resolved) < length inputs then None
      else those (map (\<lambda>(i, pax). relocate_one i pax (rl_pax_files resolved ! i)) (enumerate 0 inputs)))"

section \<open>Emit\<close>

definition emit_minimal_pax :: "(u8 list \<Rightarrow> u8 list) \<Rightarrow> u8 list" where
  "emit_minimal_pax blake3 =
     (let header = header_new X86_64;
          header = header\<lparr>header_flags := header_flags header OR header_flag_code HF_Executable,
                          section_table_offset := 96, section_count := 0\<rparr>;
          header = header\<lparr>content_hash := compute_content_hash blake3 header [] []\<rparr>
      in header_to_bytes header @ section_table_to_bytes [])"

text \<open>\<open>merged[idx].extend_from_slice(content)\<close> for the indices that \<open>merged\<close> has.\<close>

fun merge_contents :: "u8 list list \<Rightarrow> u8 list list \<Rightarrow> u8 list list" where
  "merge_contents (m # ms) (c # cs) = (m @ c) # merge_contents ms cs"
| "merge_contents ms _ = ms"

definition emit_final_pax ::
    "(u8 list \<Rightarrow> u8 list) \<Rightarrow> parsed_pax list \<Rightarrow> relocated_pax list \<Rightarrow> u8 list option" where
  "emit_final_pax blake3 inputs relocated =
     (case inputs of
        [] \<Rightarrow> Some (emit_minimal_pax blake3)
      | first_input # _ \<Rightarrow>
          (case relocated of
             [] \<Rightarrow> None
           | first_relocated # others \<Rightarrow>
               (let header = parsed_header first_input;
                    table = section_table first_input;
                    header = header\<lparr>header_flags := header_flags header OR header_flag_code HF_Executable\<rparr>;
                    merged = replicate (length table) [];
                    merged = merge_contents merged (section_contents first_relocated);
                    merged = fold (\<lambda>r m. merge_contents m (section_contents r)) others merged;
                    hash = compute_content_hash blake3 header table merged;
                    header = header\<lparr>content_hash := hash\<rparr>;
                    result = header_to_bytes header;
                    offset = of_nat (length result);
                    header = header\<lparr>section_table_offset := offset\<rparr>;
                    result = result @ section_table_to_bytes table;
                    result = fold (\<lambda>content r. r @ content) merged result;
                    hdr = header\<lparr>section_table_offset := offset, content_hash := hash\<rparr>
                in Some (put result 0 (header_to_bytes hdr)))))"

section \<open>The driver\<close>

datatype link_error = LE_Parse parse_error | LE_Resolve nat | LE_Io string

text \<open>
  \<^verbatim>\<open>link\<close>: the bytes handed to \<^verbatim>\<open>std::fs::write\<close> on success; \<open>wr\<close> is the result of that call, an error message
  or success.
\<close>

definition link ::
    "(u8 list \<Rightarrow> u8 list) \<Rightarrow> (path \<Rightarrow> string + u8 list) \<Rightarrow> (path \<Rightarrow> u8 list \<Rightarrow> string option) \<Rightarrow>
     path list \<Rightarrow> path \<Rightarrow> (link_error + u8 list) option" where
  "link blake3 fs wr input_paths output_path =
     (case parse_inputs fs input_paths of
        None \<Rightarrow> None
      | Some (Inl e) \<Rightarrow> Some (Inl (LE_Parse e))
      | Some (Inr inputs) \<Rightarrow>
          (case resolve_inputs inputs of
             None \<Rightarrow> None
           | Some (diags, None) \<Rightarrow> Some (Inl (LE_Resolve (length diags)))
           | Some (diags, Some resolved) \<Rightarrow>
               (case relocate_inputs inputs resolved of
                  None \<Rightarrow> None
                | Some relocated \<Rightarrow>
                    (case emit_final_pax blake3 inputs relocated of
                       None \<Rightarrow> None
                     | Some bytes \<Rightarrow>
                         (case wr output_path bytes of
                            Some e \<Rightarrow> Some (Inl (LE_Io e))
                          | None \<Rightarrow> Some (Inr bytes))))))"

lemma those_length: "those xs = Some ys \<Longrightarrow> length ys = length xs"
  by (induction xs arbitrary: ys) (auto split: option.splits)

end
