(* ===== verification/Linker_Resolve.thy ===== *)
theory Linker_Resolve
  imports Linker
begin

text \<open>
  What the resolve phase computes: which definition the symbol index keeps (\<open>kept_def\<close>), the capability
  index, the diagnostics and when the phase succeeds.
\<close>

section \<open>Symbol resolution\<close>

text \<open>
  The definition that the code keeps: of the definitions of a hash in input order, the first that is
  not weak, and the first of all when every one is weak.  That a strong definition wins over a weak one is
  the documented rule; that the first of several strong ones wins, and that a local one counts as strong, is
  the code's.
\<close>

type_synonym sym_def = "nat \<times> u64 \<times> sym_entry"

definition symbol_defs :: "sym_entry list list \<Rightarrow> sym_def list" where
  "symbol_defs tabs =
     filter (\<lambda>(i, j, e). sym_section e \<noteq> undefined_section)
       (concat (map (\<lambda>(i, es). map (\<lambda>(j, e). (i, of_nat j, e)) (enumerate 0 es)) (enumerate 0 tabs)))"

definition def_binding :: "sym_def \<Rightarrow> sym_binding" where
  "def_binding = (\<lambda>(i, j, e). sym_binding_of e)"

definition def_hash :: "sym_def \<Rightarrow> u64" where
  "def_hash = (\<lambda>(i, j, e). sym_hash e)"

definition def_pos :: "sym_def \<Rightarrow> nat \<times> u64" where
  "def_pos = (\<lambda>(i, j, e). (i, j))"

definition kept_def :: "sym_def list \<Rightarrow> u64 \<Rightarrow> sym_def option" where
  "kept_def ds h =
     (case find (\<lambda>d. def_hash d = h \<and> def_binding d \<noteq> Sym_Weak) ds of
        Some d \<Rightarrow> Some d
      | None \<Rightarrow> find (\<lambda>d. def_hash d = h) ds)"

lemma find_append: "find P (xs @ ys) = (case find P xs of Some x \<Rightarrow> Some x | None \<Rightarrow> find P ys)"
  by (induction xs) auto

lemma find_set: "find P xs = Some x \<Longrightarrow> x \<in> set xs \<and> P x"
  by (auto simp: find_Some_iff)

lemma find_None_ball: "find P xs = None \<longleftrightarrow> (\<forall>x\<in>set xs. \<not> P x)"
  by (induction xs) auto

lemma kept_def_snoc:
  "kept_def (ds @ [d]) h =
     (if def_hash d \<noteq> h then kept_def ds h
      else case kept_def ds h of
          None \<Rightarrow> Some d
        | Some w \<Rightarrow> if def_binding w = Sym_Weak \<and> def_binding d \<noteq> Sym_Weak then Some d else Some w)"
proof -
  let ?s = "\<lambda>d. def_hash d = h \<and> def_binding d \<noteq> Sym_Weak" and ?w = "\<lambda>d. def_hash d = h"
  have strong: "def_binding w \<noteq> Sym_Weak" if "find ?s ds = Some w" for w
    using find_set [OF that] by simp
  have weak: "def_binding w = Sym_Weak" if "find ?s ds = None" "find ?w ds = Some w" for w
    using find_set [OF that(2)] that(1) by (auto simp: find_None_ball)
  show ?thesis
  proof (cases "find ?s ds")
    case None
    then show ?thesis using weak by (cases "find ?w ds") (simp_all add: kept_def_def find_append)
  next
    case (Some w)
    then show ?thesis using strong by (simp add: kept_def_def find_append)
  qed
qed

definition index_def :: "sym_def \<Rightarrow> global_symbol_table \<Rightarrow> global_symbol_table" where
  "index_def = (\<lambda>(i, j, e) g.
     if bindings g (sym_hash e) = None \<or> bindings g (sym_hash e) = Some Sym_Weak \<and> sym_binding_of e \<noteq> Sym_Weak
     then record_symbol i j e g else g)"

lemma index_symbol_def':
  "index_symbol i (j, e) g = (if sym_section e \<noteq> undefined_section then index_def (i, of_nat j, e) g else g)"
  by (auto simp: index_symbol_def index_def_def split: option.split sym_binding.split)

lemma fold_index_symbol:
  "fold (index_symbol i) js g =
   fold index_def (filter (\<lambda>(i, j, e). sym_section e \<noteq> undefined_section)
     (map (\<lambda>(j, e). (i, of_nat j, e)) js)) g"
  by (induction js arbitrary: g) (auto simp: index_symbol_def')

lemma index_symbols_defs: "index_symbols tabs = fold index_def (symbol_defs tabs) empty_symbols"
proof -
  have "fold (\<lambda>(i, es). fold (index_symbol i) (enumerate 0 es)) ts g =
      fold index_def (filter (\<lambda>(i, j, e). sym_section e \<noteq> undefined_section)
        (concat (map (\<lambda>(i, es). map (\<lambda>(j, e). (i, of_nat j, e)) (enumerate 0 es)) ts))) g" for ts g
    by (induction ts arbitrary: g) (auto simp: fold_index_symbol)
  then show ?thesis by (simp add: index_symbols_def symbol_defs_def)
qed

lemma index_def_kept:
  "by_hash (fold index_def ds empty_symbols) h = map_option def_pos (kept_def ds h) \<and>
   bindings (fold index_def ds empty_symbols) h = map_option def_binding (kept_def ds h)"
proof (induction ds arbitrary: h rule: rev_induct)
  case Nil
  then show ?case by (simp add: empty_symbols_def kept_def_def)
next
  case (snoc d ds)
  obtain i j e where d: "d = (i, j, e)" by (cases d)
  have b: "bindings (fold index_def ds empty_symbols) (sym_hash e) = map_option def_binding (kept_def ds (sym_hash e))"
    using snoc by blast
  have "by_hash (index_def d g) h = (if sym_hash e = h \<and> (bindings g h = None \<or>
        bindings g h = Some Sym_Weak \<and> sym_binding_of e \<noteq> Sym_Weak) then Some (i, j) else by_hash g h)"
    "bindings (index_def d g) h = (if sym_hash e = h \<and> (bindings g h = None \<or>
        bindings g h = Some Sym_Weak \<and> sym_binding_of e \<noteq> Sym_Weak) then Some (sym_binding_of e) else bindings g h)"
    for g by (auto simp: d index_def_def record_symbol_def)
  then show ?case using snoc [of h] b
    by (auto simp: kept_def_snoc d def_hash_def def_pos_def def_binding_def split: option.splits)
qed

text \<open>The index is the function \<open>kept_def\<close> on the definitions of all inputs.\<close>

lemma index_symbols_kept:
  "by_hash (index_symbols tabs) h = map_option def_pos (kept_def (symbol_defs tabs) h)"
  "bindings (index_symbols tabs) h = map_option def_binding (kept_def (symbol_defs tabs) h)"
  using index_def_kept [of "symbol_defs tabs" h] by (simp_all add: index_symbols_defs)

lemma kept_def_None: "kept_def ds h = None \<longleftrightarrow> (\<forall>d\<in>set ds. def_hash d \<noteq> h)"
proof (cases "find (\<lambda>d. def_hash d = h \<and> def_binding d \<noteq> Sym_Weak) ds")
  case None
  then show ?thesis unfolding kept_def_def None by (simp add: find_None_ball)
next
  case (Some w)
  then show ?thesis using find_set [OF Some] by (auto simp: kept_def_def)
qed

text \<open>The documented rule: a global definition wins over weak ones.\<close>

lemma kept_def_global:
  assumes "g \<in> set ds" "def_hash g = h" "def_binding g = Sym_Global"
    and "\<And>d. d \<in> set ds \<Longrightarrow> def_hash d = h \<Longrightarrow> d = g \<or> def_binding d = Sym_Weak"
  shows "kept_def ds h = Some g"
proof (cases "find (\<lambda>d. def_hash d = h \<and> def_binding d \<noteq> Sym_Weak) ds")
  case None
  then show ?thesis using assms(1-3) by (auto simp: find_None_ball)
next
  case (Some w)
  then have "w = g" using find_set [OF Some] assms(4) by blast
  with Some show ?thesis by (simp add: kept_def_def)
qed

lemma set_enumerate: "(i, x) \<in> set (enumerate 0 xs) \<longleftrightarrow> i < length xs \<and> xs ! i = x"
  by (auto simp: in_set_enumerate_eq)

lemma set_symbol_defs:
  "(i, j, e) \<in> set (symbol_defs tabs) \<longleftrightarrow>
     sym_section e \<noteq> undefined_section \<and>
     (\<exists>k. i < length tabs \<and> k < length (tabs ! i) \<and> j = of_nat k \<and> e = tabs ! i ! k)"
proof -
  have "(i, j, e) \<in> set (symbol_defs tabs) \<longleftrightarrow> sym_section e \<noteq> undefined_section \<and>
      (\<exists>es. (i, es) \<in> set (enumerate 0 tabs) \<and> (\<exists>k. (k, e) \<in> set (enumerate 0 es) \<and> j = of_nat k))"
    by (auto simp: symbol_defs_def Bex_def image_iff)
  then show ?thesis by (auto simp: set_enumerate)
qed

lemma symbol_defs_hash:
  "(\<exists>d\<in>set (symbol_defs tabs). def_hash d = h) \<longleftrightarrow>
   (\<exists>es\<in>set tabs. \<exists>e\<in>set es. sym_section e \<noteq> undefined_section \<and> sym_hash e = h)"
proof -
  have "(\<exists>d\<in>set (symbol_defs tabs). def_hash d = h) \<longleftrightarrow>
      (\<exists>i j e. (i, j, e) \<in> set (symbol_defs tabs) \<and> sym_hash e = h)"
    by (simp add: def_hash_def Bex_def)
  also have "\<dots> \<longleftrightarrow> (\<exists>i k. i < length tabs \<and> k < length (tabs ! i) \<and>
      sym_section (tabs ! i ! k) \<noteq> undefined_section \<and> sym_hash (tabs ! i ! k) = h)"
    unfolding set_symbol_defs by blast
  also have "\<dots> \<longleftrightarrow> (\<exists>es\<in>set tabs. \<exists>e\<in>set es. sym_section e \<noteq> undefined_section \<and> sym_hash e = h)"
    by (simp add: Bex_def in_set_conv_nth) blast
  finally show ?thesis .
qed

lemma index_symbols_None:
  "by_hash (index_symbols tabs) h = None \<longleftrightarrow>
   \<not> (\<exists>es\<in>set tabs. \<exists>e\<in>set es. sym_section e \<noteq> undefined_section \<and> sym_hash e = h)"
  by (simp add: index_symbols_kept kept_def_None flip: symbol_defs_hash)

section \<open>Capability resolution\<close>

lemma fold_exports:
  "fold (\<lambda>cap m. m(cd_hash cap \<mapsto> i)) caps m = (\<lambda>h. if h \<in> cd_hash ` set caps then Some i else m h)"
  by (induction caps arbitrary: m) auto

text \<open>The last input that exports a capability provides it.\<close>

lemma index_exports_last:
  "index_exports (exps @ [caps]) h =
     (if h \<in> cd_hash ` set caps then Some (length exps) else index_exports exps h)"
  by (simp add: index_exports_def enumerate_append_eq fold_exports)

lemma index_exports_None: "index_exports exps h = None \<longleftrightarrow> (\<forall>caps\<in>set exps. h \<notin> cd_hash ` set caps)"
proof (induction exps rule: rev_induct)
  case Nil
  then show ?case by (simp add: index_exports_def)
next
  case (snoc caps exps)
  then show ?case by (auto simp: index_exports_last)
qed

section \<open>The result of the phase\<close>

text \<open>Some input defines the hash, with whatever binding; and the same with a binding that other units can see.\<close>

definition symbol_defined :: "sym_entry list list \<Rightarrow> u64 \<Rightarrow> bool" where
  "symbol_defined tabs h \<longleftrightarrow> (\<exists>ds\<in>set tabs. \<exists>d\<in>set ds. sym_section d \<noteq> undefined_section \<and> sym_hash d = h)"

definition symbol_exported :: "sym_entry list list \<Rightarrow> u64 \<Rightarrow> bool" where
  "symbol_exported tabs h \<longleftrightarrow>
     (\<exists>ds\<in>set tabs. \<exists>d\<in>set ds. sym_section d \<noteq> undefined_section \<and> sym_binding_of d \<noteq> Sym_Local \<and> sym_hash d = h)"

definition capability_exported :: "cap_descriptor list list \<Rightarrow> u64 \<Rightarrow> bool" where
  "capability_exported exps h \<longleftrightarrow> (\<exists>xs\<in>set exps. \<exists>x\<in>set xs. cd_hash x = h)"

definition all_symbols_defined :: "sym_entry list list \<Rightarrow> bool" where
  "all_symbols_defined tabs \<longleftrightarrow>
     (\<forall>es\<in>set tabs. \<forall>e\<in>set es. sym_section e = undefined_section \<longrightarrow> symbol_defined tabs (sym_hash e))"

definition all_symbols_exported :: "sym_entry list list \<Rightarrow> bool" where
  "all_symbols_exported tabs \<longleftrightarrow>
     (\<forall>es\<in>set tabs. \<forall>e\<in>set es. sym_section e = undefined_section \<longrightarrow> symbol_exported tabs (sym_hash e))"

definition all_imports_exported :: "cap_descriptor list list \<Rightarrow> cap_descriptor list list \<Rightarrow> bool" where
  "all_imports_exported imps exps \<longleftrightarrow> (\<forall>caps\<in>set imps. \<forall>c\<in>set caps. capability_exported exps (cd_hash c))"

definition without_locals :: "sym_entry list list \<Rightarrow> bool" where
  "without_locals tabs \<longleftrightarrow>
     (\<forall>es\<in>set tabs. \<forall>e\<in>set es. sym_section e \<noteq> undefined_section \<longrightarrow> sym_binding_of e \<noteq> Sym_Local)"

lemma symbol_exported_defined: "symbol_exported tabs h \<Longrightarrow> symbol_defined tabs h"
  by (auto simp: symbol_exported_def symbol_defined_def)

lemma without_locals_exported: "without_locals tabs \<Longrightarrow> symbol_exported tabs h = symbol_defined tabs h"
  by (auto simp: without_locals_def symbol_exported_def symbol_defined_def)

lemma by_hash_defined: "by_hash (index_symbols tabs) h = None \<longleftrightarrow> \<not> symbol_defined tabs h"
  by (simp add: index_symbols_None symbol_defined_def)

lemma index_exports_exported: "index_exports exps h = None \<longleftrightarrow> \<not> capability_exported exps h"
  by (auto simp: index_exports_None capability_exported_def)

text \<open>The diagnostics, one for each symbol without a definition and each capability without an export.\<close>

definition missing_symbols :: "path list \<Rightarrow> sym_entry list list \<Rightarrow> link_diag set" where
  "missing_symbols paths tabs =
     {B1700 (paths ! i) (sym_hash e) | i e.
        i < length tabs \<and> e \<in> set (tabs ! i) \<and> sym_section e = undefined_section \<and> \<not> symbol_defined tabs (sym_hash e)}"

definition missing_capabilities :: "path list \<Rightarrow> cap_descriptor list list \<Rightarrow> cap_descriptor list list \<Rightarrow> link_diag set" where
  "missing_capabilities paths imps exps =
     {B1701 (paths ! i) (cd_hash c) | i c. i < length imps \<and> c \<in> set (imps ! i) \<and> \<not> capability_exported exps (cd_hash c)}"

lemma set_check_symbols:
  "length paths = length tabs \<Longrightarrow> set (check_symbols (index_symbols tabs) (zip paths tabs)) = missing_symbols paths tabs"
  unfolding check_symbols_def missing_symbols_def by_hash_defined by (fastforce simp: set_zip)

lemma set_check_imports:
  "length paths = length imps \<Longrightarrow> set (check_imports (index_exports exps) (zip paths imps)) = missing_capabilities paths imps exps"
  unfolding check_imports_def missing_capabilities_def index_exports_exported by (fastforce simp: set_zip)

lemma missing_symbols_empty: "missing_symbols paths tabs = {} \<longleftrightarrow> all_symbols_defined tabs"
  unfolding missing_symbols_def all_symbols_defined_def all_set_conv_all_nth [of tabs] by blast

lemma missing_capabilities_empty: "missing_capabilities paths imps exps = {} \<longleftrightarrow> all_imports_exported imps exps"
  unfolding missing_capabilities_def all_imports_exported_def all_set_conv_all_nth [of imps] by blast

lemma resolve_inputs_result:
  assumes "those (map symbols_of inputs) = Some tabs" "those (map exports_of inputs) = Some exps"
    "those (map imports_of inputs) = Some imps"
  obtains diags r where "resolve_inputs inputs = Some (diags, r)" "r \<noteq> None \<longleftrightarrow> diags = []"
    "set diags = missing_symbols (map pax_path inputs) tabs \<union> missing_capabilities (map pax_path inputs) imps exps"
proof -
  note len = those_length [OF assms(1)] those_length [OF assms(3)]
  let ?d1 = "check_symbols (index_symbols tabs) (zip (map pax_path inputs) tabs)"
  let ?d2 = "check_imports (index_exports exps) (zip (map pax_path inputs) imps)"
  have "set (?d1 @ ?d2) = missing_symbols (map pax_path inputs) tabs \<union> missing_capabilities (map pax_path inputs) imps exps"
    using len by (simp add: set_check_symbols set_check_imports)
  then show thesis
    using assms that [of "?d1 @ ?d2"] by (simp add: resolve_inputs_def Let_def)
qed

lemma resolve_inputs_complete:
  assumes "those (map symbols_of inputs) = Some tabs" "those (map exports_of inputs) = Some exps"
    "those (map imports_of inputs) = Some imps" "resolve_inputs inputs = Some (diags, r)"
  shows "diags = [] \<longleftrightarrow> all_symbols_defined tabs \<and> all_imports_exported imps exps"
  using resolve_inputs_result [OF assms(1-3)] assms(4)
  by (metis Un_empty missing_capabilities_empty missing_symbols_empty option.inject prod.inject set_empty)

lemma resolve_inputs_ok:
  assumes "those (map symbols_of inputs) = Some tabs" "those (map exports_of inputs) = Some exps"
    "those (map imports_of inputs) = Some imps" "all_symbols_defined tabs" "all_imports_exported imps exps"
  shows "resolve_inputs inputs = Some ([], Some
    \<lparr>rl_pax_files = map (\<lambda>(i, path, es). \<lparr>rp_index = i, rp_path = path, symbol_mapping = map_symbols es\<rparr>)
       (enumerate 0 (zip (map pax_path inputs) tabs)),
     rl_symbols = index_symbols tabs, rl_capabilities = index_exports exps\<rparr>)"
proof -
  obtain diags r where r: "resolve_inputs inputs = Some (diags, r)" "r \<noteq> None \<longleftrightarrow> diags = []"
    using resolve_inputs_result [OF assms(1-3)] by metis
  then have "diags = []" using resolve_inputs_complete [OF assms(1-3)] assms(4,5) by blast
  with r obtain r' where "resolve_inputs inputs = Some ([], Some r')" by blast
  then show ?thesis using assms(1-3) by (simp add: resolve_inputs_def Let_def split: if_splits)
qed

end
