(* ===== verification/Linker_Relocate.thy ===== *)
theory Linker_Relocate
  imports Linker
begin

text \<open>
  What the relocate phase does to the code section: a sequence of eight-byte patches.
\<close>

section \<open>Relocation\<close>

text \<open>A relocation that is applied: an \<open>Abs64\<close> whose eight bytes lie in the section.\<close>

definition reloc_applies :: "nat \<Rightarrow> reloc_entry \<Rightarrow> bool" where
  "reloc_applies n r \<longleftrightarrow> rel_kind r = Rel_Abs64 \<and> unat (rel_offset r) + 8 \<le> n"

text \<open>
  A relocation on which the code panics: the end of its eight bytes wraps around to a position in the
  section, so the test for the bounds lets it through and the slice is reversed.
\<close>

definition reloc_panics :: "nat \<Rightarrow> reloc_entry \<Rightarrow> bool" where
  "reloc_panics n r \<longleftrightarrow>
     rel_kind r = Rel_Abs64 \<and> 2 ^ 64 \<le> unat (rel_offset r) + 8 \<and> unat (rel_offset r) + 8 - 2 ^ 64 \<le> n"

lemma unat_add8: "unat (w :: u64) + 8 < 2 ^ 64 \<Longrightarrow> unat (w + 8) = unat w + 8"
  by (subst unat_add_lem [THEN iffD1]) simp_all

lemma unat_add8_wrap:
  assumes "2 ^ 64 \<le> unat (w :: u64) + 8"
  shows "unat (w + 8) = unat w + 8 - 2 ^ 64"
proof -
  have "unat (w + 8) = (unat w + 8) mod 2 ^ 64" by (simp add: unat_word_ariths)
  moreover have "unat w < 2 ^ 64" using unsigned_less [of w] by simp
  ultimately show ?thesis using assms by (simp add: mod_if)
qed

lemma apply_reloc_cases:
  "apply_reloc rp r (code # rest) =
    (if reloc_panics (length code) r then None
     else Some ((if reloc_applies (length code) r then put code (unat (rel_offset r)) (le_bytes64 (reloc_value rp r))
                 else code) # rest))"
proof (cases "unat (rel_offset r) + 8 < 2 ^ 64")
  case True
  then have "\<not> reloc_panics (length code) r" by (simp add: reloc_panics_def)
  then show ?thesis using unat_add8 [OF True]
    by (simp add: apply_reloc_def reloc_applies_def Let_def split: pax_reloc_kind.split)
next
  case False
  then have w: "2 ^ 64 \<le> unat (rel_offset r) + 8" by (rule leI)
  have "unat (rel_offset r + 8) = unat (rel_offset r) + 8 - 2 ^ 64" by (rule unat_add8_wrap [OF w])
  moreover from this w have "unat (rel_offset r + 8) < unat (rel_offset r)" using unsigned_less [of "rel_offset r"] by simp
  moreover have "unat (rel_offset r) + 8 \<le> length code \<Longrightarrow> unat (rel_offset r + 8) \<le> length code"
    using calculation(2) by simp
  ultimately show ?thesis using w
    by (auto simp: apply_reloc_def reloc_panics_def reloc_applies_def Let_def split: pax_reloc_kind.split)
qed

fun patch :: "resolved_pax \<Rightarrow> reloc_entry list \<Rightarrow> u8 list \<Rightarrow> u8 list" where
  "patch rp [] code = code"
| "patch rp (r # rs) code =
     patch rp rs
       (if reloc_applies (length code) r then put code (unat (rel_offset r)) (le_bytes64 (reloc_value rp r)) else code)"

lemma length_patch [simp]: "length (patch rp rs code) = length code"
proof (induction rs arbitrary: code)
  case (Cons r rs)
  then show ?case by (simp add: reloc_applies_def length_put)
qed simp

lemma apply_relocs_patch:
  "apply_relocs rp rs (code # rest) =
     (if \<exists>r\<in>set rs. reloc_panics (length code) r then None else Some (patch rp rs code # rest))"
proof (induction rs arbitrary: code)
  case (Cons r rs)
  have "length (put code (unat (rel_offset r)) (le_bytes64 (reloc_value rp r))) = length code"
    if "reloc_applies (length code) r"
    using that by (simp add: reloc_applies_def length_put)
  then show ?case using Cons by (simp add: apply_reloc_cases)
qed simp

lemma apply_relocs_empty: "apply_relocs rp rs [] = Some []"
  by (induction rs) (simp_all add: apply_reloc_def split: pax_reloc_kind.split)

definition in_patch :: "nat \<Rightarrow> reloc_entry \<Rightarrow> bool" where
  "in_patch k r \<longleftrightarrow> unat (rel_offset r) \<le> k \<and> k < unat (rel_offset r) + 8"

lemma nth_put_other:
  "off + length xs \<le> length bs \<Longrightarrow> \<not> (off \<le> k \<and> k < off + length xs) \<Longrightarrow> k < length bs \<Longrightarrow> put bs off xs ! k = bs ! k"
  by (auto simp: put_def nth_append)

text \<open>Bytes outside every applied relocation keep their value.\<close>

lemma patch_outside:
  "k < length code \<Longrightarrow> (\<And>r. r \<in> set rs \<Longrightarrow> reloc_applies (length code) r \<Longrightarrow> \<not> in_patch k r) \<Longrightarrow>
   patch rp rs code ! k = code ! k"
proof (induction rs arbitrary: code)
  case (Cons r rs)
  let ?c = "if reloc_applies (length code) r then put code (unat (rel_offset r)) (le_bytes64 (reloc_value rp r)) else code"
  have len: "length ?c = length code" by (simp add: reloc_applies_def length_put)
  have "?c ! k = code ! k"
    using Cons.prems(1) Cons.prems(2) [of r] by (auto simp: reloc_applies_def in_patch_def nth_put_other)
  moreover have "patch rp rs ?c ! k = ?c ! k"
    using Cons.prems len by (intro Cons.IH) auto
  ultimately show ?case by simp
qed simp

lemma u64_at_patch_later:
  assumes "off + 8 \<le> length code"
    and "\<And>r. r \<in> set rs \<Longrightarrow> reloc_applies (length code) r \<Longrightarrow> off + 8 \<le> unat (rel_offset r) \<or> unat (rel_offset r) + 8 \<le> off"
  shows "u64_at (patch rp rs code) off = u64_at code off"
proof -
  have "slice off 8 (patch rp rs code) = slice off 8 code"
  proof (rule nth_equalityI)
    fix i assume "i < length (slice off 8 (patch rp rs code))"
    then have i: "i < 8" "off + i < length code" using assms(1) by auto
    have "patch rp rs code ! (off + i) = code ! (off + i)"
    proof (intro patch_outside)
      fix r assume "r \<in> set rs" "reloc_applies (length code) r"
      then show "\<not> in_patch (off + i) r" using assms(2) [of r] i(1) by (auto simp: in_patch_def)
    qed (use i in simp)
    then show "slice off 8 (patch rp rs code) ! i = slice off 8 code ! i"
      using i assms(1) by (simp add: slice_def)
  qed simp
  then show ?thesis by (simp add: u64_at_def)
qed

text \<open>A relocation that no later one overlaps holds its value in the result.\<close>

lemma patch_value:
  assumes "reloc_applies (length code) r"
    and "\<And>r'. r' \<in> set rs2 \<Longrightarrow> reloc_applies (length code) r' \<Longrightarrow>
      unat (rel_offset r) + 8 \<le> unat (rel_offset r') \<or> unat (rel_offset r') + 8 \<le> unat (rel_offset r)"
  shows "u64_at (patch rp (rs1 @ r # rs2) code) (unat (rel_offset r)) = reloc_value rp r"
proof -
  have app: "patch rp (xs @ ys) c = patch rp ys (patch rp xs c)" for xs ys c
    by (induction xs arbitrary: c) simp_all
  let ?c = "put (patch rp rs1 code) (unat (rel_offset r)) (le_bytes64 (reloc_value rp r))"
  have len: "length ?c = length code" using assms(1) by (simp add: reloc_applies_def length_put)
  have "patch rp (rs1 @ r # rs2) code = patch rp rs2 ?c" using assms(1) by (simp add: app)
  moreover have "u64_at (patch rp rs2 ?c) (unat (rel_offset r)) = u64_at ?c (unat (rel_offset r))"
    using assms len by (intro u64_at_patch_later) (auto simp: reloc_applies_def)
  moreover have "u64_at ?c (unat (rel_offset r)) = reloc_value rp r"
    using assms(1) by (simp add: reloc_applies_def u_at_put)
  ultimately show ?thesis by simp
qed

end
