(* ===== verification/Linker_Emit.thy ===== *)
theory Linker_Emit
  imports Linker_Relocate
begin

text \<open>
  What the emit phase writes: its layout, that it can be parsed again, where the section contents are
  found and what the stored hash covers.
\<close>

section \<open>Parsed files\<close>

lemma header_from_bytes_wf:
  assumes "header_from_bytes bs = Some h"
  shows "header_wf h" "magic h = pax_magic"
  using assms by (auto simp: header_from_bytes_def header_wf_def pax_magic_def split: if_splits option.splits)

lemma section_table_from_bytes_length: "section_table_from_bytes bs n = Some ss \<Longrightarrow> length ss = unat n"
  by (auto simp: section_table_from_bytes_def read_entries_def split: if_splits dest!: those_length)

text \<open>The invariant of a parsed file.\<close>

definition pax_wf :: "parsed_pax \<Rightarrow> bool" where
  "pax_wf pax \<longleftrightarrow>
     header_wf (parsed_header pax) \<and> magic (parsed_header pax) = pax_magic \<and>
     format_version (parsed_header pax) = pax_format_version \<and>
     length (section_table pax) = unat (section_count (parsed_header pax))"

lemma parse_bytes_wf: "parse_bytes path bs = Some (Inr pax) \<Longrightarrow> pax_wf pax \<and> pax_path pax = path \<and> pax_bytes pax = bs"
  by (auto simp: parse_bytes_def pax_wf_def header_from_bytes_wf section_table_from_bytes_length
      split: if_splits option.splits)

text \<open>
  What the parser looks at, in terms of the bytes of the file: the start of a PAX file for a known
  architecture, the place and length of the section table, and its descriptors.
\<close>

definition recognised :: "u8 list \<Rightarrow> bool" where
  "recognised bs \<longleftrightarrow> 96 \<le> length bs \<and> take 4 bs = [0x50, 0x41, 0x58, 0] \<and> u16_at bs 6 = 1"

definition table_start :: "u8 list \<Rightarrow> nat" where
  "table_start bs = unat (u64_at bs 16)"

definition table_count :: "u8 list \<Rightarrow> nat" where
  "table_count bs = unat (u32_at bs 24)"

definition descriptor :: "u8 list \<Rightarrow> nat \<Rightarrow> pax_section option" where
  "descriptor bs i = section_from_bytes (slice (table_start bs + i * 64) 64 bs)"

definition table_readable :: "u8 list \<Rightarrow> bool" where
  "table_readable bs \<longleftrightarrow>
     table_start bs + table_count bs * 64 \<le> length bs \<and> (\<forall>i < table_count bs. descriptor bs i \<noteq> None)"

lemma header_from_bytes_fields:
  assumes "96 \<le> length bs"
  shows "header_from_bytes bs = None \<longleftrightarrow> \<not> recognised bs"
    and "header_from_bytes bs = Some h \<Longrightarrow>
      format_version h = u16_at bs 4 \<and> section_table_offset h = u64_at bs 16 \<and> section_count h = u32_at bs 24"
  using assms
  by (auto simp: header_from_bytes_def recognised_def slice_def pax_magic_def architecture_from_def
      split: if_splits)

lemma those_None: "those xs = None \<longleftrightarrow> None \<in> set xs"
  by (induction xs) (auto split: option.splits)

lemma those_nth: "those xs = Some ys \<Longrightarrow> i < length xs \<Longrightarrow> xs ! i = Some (ys ! i)"
proof (induction xs arbitrary: ys i)
  case (Cons x xs)
  then show ?case by (cases i) (auto split: option.splits)
qed simp

text \<open>A tail of the file and the same place counted from the front.\<close>

lemma slice_slice: "slice a n (slice off (length bs - off) bs) = slice (off + a) n bs"
  by (simp add: slice_def add.commute)

lemma table_from_bytes_None:
  assumes "table_start bs \<le> length bs"
  shows "section_table_from_bytes (slice (table_start bs) (length bs - table_start bs) bs) (u32_at bs 24) = None \<longleftrightarrow>
    \<not> table_readable bs"
proof -
  have "None \<in> set (map (descriptor bs) [0..<table_count bs]) \<longleftrightarrow> (\<exists>i < table_count bs. descriptor bs i = None)"
    unfolding set_map set_upt image_iff by (metis atLeast0LessThan lessThan_iff)
  then show ?thesis using assms
    by (auto simp: section_table_from_bytes_def read_entries_def those_None slice_slice table_readable_def
        table_count_def simp flip: descriptor_def)
qed

lemma table_from_bytes_nth:
  assumes "section_table_from_bytes (slice (table_start bs) (length bs - table_start bs) bs) (u32_at bs 24) = Some ss"
    and "i < table_count bs"
  shows "descriptor bs i = Some (ss ! i)"
  using assms
  by (auto simp: section_table_from_bytes_def read_entries_def slice_slice descriptor_def table_count_def
      split: if_splits dest!: those_nth [of _ _ i])

lemma parse_bytes_header:
  assumes "\<not> length bs < 96"
  shows "header_from_bytes bs = None \<Longrightarrow> parse_bytes path bs = Some (Inl PE_NotPax)"
    and "header_from_bytes bs = Some h \<Longrightarrow> parse_bytes path bs =
     (if u16_at bs 4 \<noteq> pax_format_version then Some (Inl (PE_UnsupportedVersion (u16_at bs 4)))
      else if table_count bs = 0
      then Some (Inr \<lparr>pax_path = path, parsed_header = h, section_table = [], pax_bytes = bs\<rparr>)
      else if length bs < table_start bs then None
      else case section_table_from_bytes (slice (table_start bs) (length bs - table_start bs) bs) (u32_at bs 24) of
          None \<Rightarrow> Some (Inl PE_TruncatedSectionTable)
        | Some table \<Rightarrow> Some (Inr \<lparr>pax_path = path, parsed_header = h, section_table = table, pax_bytes = bs\<rparr>))"
  using assms header_from_bytes_fields(2) [of bs h]
  by (auto simp: parse_bytes_def slice_range_def table_count_def table_start_def unat_eq_zero split: option.split)

lemma parse_bytes_outcome:
  "parse_bytes path bs =
     (if length bs < 96 then Some (Inl PE_TruncatedHeader)
      else if \<not> recognised bs then Some (Inl PE_NotPax)
      else if u16_at bs 4 \<noteq> pax_format_version then Some (Inl (PE_UnsupportedVersion (u16_at bs 4)))
      else if table_count bs \<noteq> 0 \<and> length bs < table_start bs then None
      else if table_count bs \<noteq> 0 \<and> \<not> table_readable bs then Some (Inl PE_TruncatedSectionTable)
      else Some (Inr \<lparr>pax_path = path, parsed_header = the (header_from_bytes bs),
                      section_table = map (\<lambda>i. the (descriptor bs i)) [0..<table_count bs], pax_bytes = bs\<rparr>))"
proof (cases "length bs < 96")
  case True
  then show ?thesis by (simp add: parse_bytes_def)
next
  case False
  note fields = header_from_bytes_fields [OF leI [OF False]]
  show ?thesis
  proof (cases "header_from_bytes bs")
    case None
    then show ?thesis using False fields(1) parse_bytes_header(1) by simp
  next
    case (Some h)
    let ?t = "section_table_from_bytes (slice (table_start bs) (length bs - table_start bs) bs) (u32_at bs 24)"
    have "ss = map (\<lambda>i. the (descriptor bs i)) [0..<table_count bs]" if "?t = Some ss" for ss
      using that section_table_from_bytes_length [OF that] table_from_bytes_nth [OF that]
      by (intro nth_equalityI) (simp_all add: table_count_def)
    then show ?thesis using Some False fields(1) table_from_bytes_None [of bs]
      unfolding parse_bytes_header(2) [OF False Some] by (cases ?t) auto
  qed
qed

section \<open>Files in canonical layout\<close>

text \<open>Header, section table and contents one after the other.\<close>

definition pax_file :: "pax_header \<Rightarrow> pax_section list \<Rightarrow> u8 list list \<Rightarrow> u8 list" where
  "pax_file h table contents = header_to_bytes h @ section_table_to_bytes table @ concat contents"

lemma section_table_length: "length (section_table_to_bytes ss) = length ss * 64"
  by (simp add: section_table_to_bytes_def sections.table_length)

definition file_header_ok :: "pax_header \<Rightarrow> pax_section list \<Rightarrow> bool" where
  "file_header_ok h table \<longleftrightarrow>
     header_wf h \<and> magic h = pax_magic \<and> format_version h = pax_format_version \<and> section_table_offset h = 96 \<and>
     length table = unat (section_count h)"

lemma pax_file_parses:
  assumes ok: "file_header_ok h table" and names: "list_all section_ok table"
  shows "parse_bytes path (pax_file h table cs) =
    Some (Inr \<lparr>pax_path = path, parsed_header = h, section_table = table, pax_bytes = pax_file h table cs\<rparr>)"
proof -
  let ?f = "pax_file h table cs"
  have hw: "header_wf h" "section_table_offset h = 96" "format_version h = pax_format_version"
    using ok by (simp_all add: file_header_ok_def)
  have h: "header_from_bytes ?f = Some h"
    using header_round_trip [of h] ok by (simp add: file_header_ok_def pax_file_def)
  have len: "96 \<le> length ?f" using hw by (simp add: pax_file_def)
  have count: "of_nat (length table) = section_count h" "length table < 2 ^ 32"
    using ok unsigned_less [of "section_count h"] by (simp_all add: file_header_ok_def)
  from section_table_round_trip [OF names count(2), of "concat cs"]
  have t: "section_table_from_bytes (drop 96 ?f) (section_count h) = Some table"
    using hw count by (simp add: pax_file_def)
  have "table = []" if "section_count h = 0" using that ok by (simp add: file_header_ok_def)
  then show ?thesis using h len t hw by (simp add: parse_bytes_def slice_range_def slice_def)
qed

text \<open>Sections one after the other from \<open>off\<close> on, with the sizes of the given contents.\<close>

fun laid_out :: "nat \<Rightarrow> pax_section list \<Rightarrow> u8 list list \<Rightarrow> bool" where
  "laid_out off [] [] \<longleftrightarrow> True"
| "laid_out off (s # ss) (c # cs) \<longleftrightarrow>
     unat (content_size s) = length c \<and> (c \<noteq> [] \<longrightarrow> unat (content_offset s) = off) \<and>
     off + length c < 2 ^ 64 \<and> laid_out (off + length c) ss cs"
| "laid_out _ _ _ \<longleftrightarrow> False"

lemma laid_out_content:
  "laid_out off ss cs \<Longrightarrow> i < length ss \<Longrightarrow> pax_bytes pax = pre @ concat cs \<Longrightarrow> length pre = off \<Longrightarrow>
   section_content pax (ss ! i) = Some (cs ! i)"
proof (induction off ss cs arbitrary: pre i rule: laid_out.induct)
  case (2 off s ss c cs)
  show ?case
  proof (cases i)
    case 0
    show ?thesis
    proof (cases "c = []")
      case True
      then show ?thesis using 2(2) 0 by (simp add: section_content_def unat_eq_zero)
    next
      case False
      then have s: "unat (content_offset s) = off" "unat (content_size s) = length c" "off + length c < 2 ^ 64"
        using 2(2) by auto
      then have "unat (content_offset s + content_size s) = off + length c"
        by (subst unat_add_lem [THEN iffD1]) simp_all
      moreover have "content_size s \<noteq> 0" using s(2) False by auto
      ultimately show ?thesis
        using 0 2(4,5) s by (simp add: section_content_def slice_range_def slice_def Let_def)
    qed
  next
    case (Suc j)
    have "section_content pax (ss ! j) = Some (cs ! j)"
      using 2(2-5) Suc by (intro "2.IH" [of j "pre @ c"]) auto
    then show ?thesis using Suc by simp
  qed
qed simp_all

lemma laid_out_sizes:
  "laid_out off ss cs \<Longrightarrow> map length ds = map length cs \<Longrightarrow> laid_out off ss ds"
proof (induction off ss cs arbitrary: ds rule: laid_out.induct)
  case (2 off s ss c cs)
  then obtain d ds' where "ds = d # ds'" "length d = length c" "map length ds' = map length cs"
    by (cases ds) auto
  moreover have "laid_out (off + length c) ss ds'" using 2 \<open>map length ds' = map length cs\<close> by simp
  ultimately show ?case using 2(2) by (cases "c = []") auto
qed simp_all

text \<open>A table whose sections follow it in order, as the emitter of PAX files writes them.\<close>

definition contiguous :: "pax_section list \<Rightarrow> u8 list list \<Rightarrow> bool" where
  "contiguous table contents \<longleftrightarrow> laid_out (96 + length table * 64) table contents"

lemma pax_file_contents:
  assumes "header_wf h" "contiguous table cs" "i < length table" "pax_bytes q = pax_file h table cs"
  shows "section_content q (table ! i) = Some (cs ! i)"
  using assms
  by (intro laid_out_content [where pre = "header_to_bytes h @ section_table_to_bytes table"])
    (auto simp: contiguous_def section_table_length pax_file_def)

lemma laid_out_length: "laid_out off ss cs \<Longrightarrow> length cs = length ss"
  by (induction off ss cs rule: laid_out.induct) simp_all

lemma contiguous_length: "contiguous table cs \<Longrightarrow> length cs = length table"
  by (simp add: contiguous_def laid_out_length)

section \<open>The bytes written\<close>

lemma put_front: "length xs = length h \<Longrightarrow> put (h @ r) 0 xs = xs @ r"
  by (simp add: put_def)

definition merged_contents :: "nat \<Rightarrow> relocated_pax list \<Rightarrow> u8 list list" where
  "merged_contents n rs = fold (\<lambda>r m. merge_contents m (section_contents r)) rs (replicate n [])"

definition exec_header :: "parsed_pax \<Rightarrow> pax_header" where
  "exec_header pax =
     (parsed_header pax)\<lparr>header_flags := header_flags (parsed_header pax) OR header_flag_code HF_Executable\<rparr>"

definition linked_header :: "(u8 list \<Rightarrow> u8 list) \<Rightarrow> parsed_pax \<Rightarrow> u8 list list \<Rightarrow> pax_header" where
  "linked_header blake3 pax merged =
     (exec_header pax)
       \<lparr>section_table_offset := 96,
        content_hash := compute_content_hash blake3 (exec_header pax) (section_table pax) merged\<rparr>"

lemma emit_final_pax_file:
  assumes "header_wf (parsed_header pax)" "\<And>x. length (blake3 x) = 32"
  defines "m \<equiv> \<lambda>rs. merged_contents (length (section_table pax)) rs"
  shows "emit_final_pax blake3 (pax # paxs) (r # rs) =
    Some (pax_file (linked_header blake3 pax (m (r # rs))) (section_table pax) (m (r # rs)))"
proof -
  have "header_wf (h\<lparr>content_hash := blake3 x\<rparr>)" "header_wf (h\<lparr>section_table_offset := w, content_hash := blake3 x\<rparr>)"
    if "header_wf h" for h x w
    using that assms(2) by (simp_all add: header_wf_def)
  moreover have "header_wf (exec_header pax)" using assms(1) by (simp add: exec_header_def header_wf_def)
  ultimately show ?thesis
    by (simp add: emit_final_pax_def Let_def fold_append put_front linked_header_def merged_contents_def
        exec_header_def compute_content_hash_def pax_file_def m_def)
qed

lemma linked_header_ok:
  "pax_wf pax \<Longrightarrow> (\<And>x. length (blake3 x) = 32) \<Longrightarrow> file_header_ok (linked_header blake3 pax m) (section_table pax)"
  by (simp add: linked_header_def exec_header_def header_wf_def compute_content_hash_def file_header_ok_def pax_wf_def
      pax_magic_def)

lemma linked_header_wf:
  "header_wf (parsed_header pax) \<Longrightarrow> (\<And>x. length (blake3 x) = 32) \<Longrightarrow> header_wf (linked_header blake3 pax m)"
  by (simp add: linked_header_def exec_header_def header_wf_def compute_content_hash_def)

lemma merge_replicate: "length cs = n \<Longrightarrow> merge_contents (replicate n []) cs = cs"
  by (induction cs arbitrary: n) auto

lemma merged_single: "length (section_contents r) = n \<Longrightarrow> merged_contents n [r] = section_contents r"
  by (simp add: merged_contents_def merge_replicate)

section \<open>The stored hash\<close>

text \<open>
  The hash is computed before the table offset is set.  It is the hash of the file that is written when
  the first input already had its table at offset 96.
\<close>

lemma emitted_hash:
  assumes "header_wf (parsed_header pax)" "\<And>x. length (blake3 x) = 32"
    and "section_table_offset (parsed_header pax) = 96"
  shows "content_hash (linked_header blake3 pax m) =
    compute_content_hash blake3 (linked_header blake3 pax m) (section_table pax) m"
proof -
  let ?e = "exec_header pax"
  have e: "header_wf ?e" "section_table_offset ?e = 96" using assms by (simp_all add: exec_header_def header_wf_def)
  have l: "linked_header blake3 pax m =
      ?e\<lparr>content_hash := compute_content_hash blake3 ?e (section_table pax) m, signature_hash := signature_hash ?e\<rparr>"
    using e(2) by (simp add: linked_header_def)
  have "canonical_content (linked_header blake3 pax m) (section_table pax) = canonical_content ?e (section_table pax)"
    unfolding l using e(1) assms(2)
    by (intro canonical_header) (auto simp: header_wf_def compute_content_hash_def)
  then show ?thesis by (simp add: linked_header_def compute_content_hash_def Let_def)
qed

lemma canonical_offset: "header_wf h \<Longrightarrow> u64_at (canonical_content h t) 16 = section_table_offset h"
proof -
  assume h: "header_wf h"
  then have "u64_at (header_to_bytes h) 16 = section_table_offset h"
    by (simp add: header_wf_def header_to_bytes_def field_simps Let_def)
  then show ?thesis using h by (simp add: canonical_content_def Let_def field_simps)
qed

text \<open>Otherwise the hashed bytes are not those of the file.\<close>

lemma emitted_hash_stale:
  assumes "header_wf (parsed_header pax)" "\<And>x. length (blake3 x) = 32"
    and "section_table_offset (parsed_header pax) \<noteq> 96"
  shows "canonical_content (linked_header blake3 pax m) t @ c \<noteq> canonical_content (exec_header pax) t @ c"
proof
  assume "canonical_content (linked_header blake3 pax m) t @ c = canonical_content (exec_header pax) t @ c"
  then have "u64_at (canonical_content (linked_header blake3 pax m) t) 16 = u64_at (canonical_content (exec_header pax) t) 16"
    by simp
  moreover have "header_wf (exec_header pax)" using assms(1) by (simp add: exec_header_def header_wf_def)
  ultimately show False
    using assms linked_header_wf [OF assms(1,2)] by (simp add: canonical_offset linked_header_def exec_header_def)
qed

end
