(* ===== verification/Linker_Properties.thy ===== *)
theory Linker_Properties
  imports Linker_Resolve Linker_Emit
begin

text \<open>
  The properties of the PAX format and of the linker.
\<close>

section \<open>The format\<close>

text \<open>
  C39: The sections with entries of a fixed size (symbols, relocations, capability sites, imports,
  exports, functors and the three audit sections) are read back as they were written.\<close>

theorem pax_sections_round_trip:
  "symtab_from_bytes (symtab_to_bytes syms) = Some syms \<and>
   relocs_from_bytes (relocs_to_bytes rels) = Some rels \<and>
   caps_section_from_bytes (caps_section_to_bytes caps) = Some caps \<and>
   imports_from_bytes (imports_to_bytes descs) = Some descs \<and>
   exports_from_bytes (exports_to_bytes descs) = Some descs \<and>
   functors_from_bytes (functors_to_bytes funs) = Some funs \<and>
   unsafe_section_from_bytes (unsafe_section_to_bytes us) = Some us \<and>
   opt_section_from_bytes (opt_section_to_bytes opts) = Some opts \<and>
   lin_section_from_bytes (lin_section_to_bytes lins) = Some lins"
  unfolding symtab_from_bytes_def symtab_to_bytes_def relocs_from_bytes_def relocs_to_bytes_def
    caps_section_from_bytes_def caps_section_to_bytes_def imports_from_bytes_def imports_to_bytes_def
    exports_from_bytes_def exports_to_bytes_def functors_from_bytes_def functors_to_bytes_def
    unsafe_section_from_bytes_def unsafe_section_to_bytes_def opt_section_from_bytes_def opt_section_to_bytes_def
    lin_section_from_bytes_def lin_section_to_bytes_def
  by (intro conjI sym.table_round_trip reloc.table_round_trip caps_codec.table_round_trip cap_desc.table_round_trip
      functor_codec.table_round_trip unsafe.table_round_trip opt.table_round_trip lin.table_round_trip)
    (simp_all add: list_all_iff)

text \<open>
  C40: The sections with entries of varying size (effect rows, optimisation records) are read back as they
  were written, as long as no row has the row variable 0 (the code for no variable), no record has the
  function id 0, names are UTF-8, and no row or name has \<open>2^32\<close> elements or more.\<close>

theorem pax_streams_round_trip:
  assumes "list_all effect_entry_ok rows" "list_all opt_pass_ok passes"
  shows "effects_from_bytes (effects_to_bytes rows) = Some rows \<and>
    opt_passes_from_bytes (opt_passes_to_bytes passes) = Some passes"
  using assms effect_entries.stream_round_trip [of rows] opt_passes.stream_round_trip [of passes]
  by (simp add: effects_from_bytes_def effects_to_bytes_def opt_passes_from_bytes_def opt_passes_to_bytes_def)

theorem pax_streams_round_trip_witness:
  "effects_from_bytes (effects_to_bytes [\<lparr>er_symbol_id = 7, er_fixed = [1, 2], er_row_var = Some 5\<rparr>]) =
     Some [\<lparr>er_symbol_id = 7, er_fixed = [1, 2], er_row_var = Some 5\<rparr>] \<and>
   opt_passes_from_bytes (opt_passes_to_bytes [\<lparr>pass_name = [0x61, 0x6E, 0x66], function_id = 3, rewrite_count = 9\<rparr>]) =
     Some [\<lparr>pass_name = [0x61, 0x6E, 0x66], function_id = 3, rewrite_count = 9\<rparr>]"
  by (rule pax_streams_round_trip) (simp_all add: effect_entry_ok_def opt_pass_ok_def)

text \<open>
  C37: Take a header with magic, version and field lengths of the format, table offset 96 and the count of a
  section table; a table whose names have at most 23 bytes, none of them zero, and are UTF-8; and contents of
  the sizes the table gives, whose offsets follow one another behind the table and end below \<open>2^64\<close>.  The file
  made of header, table and contents in that order is parsed to this header and table, and the content of every
  section is found where the table says.  Longer names are cut when they are written and not read back.\<close>

theorem pax_file_round_trip:
  assumes "file_header_ok h table" "list_all section_ok table" "contiguous table contents"
  shows "\<exists>pax. parse_bytes path (pax_file h table contents) = Some (Inr pax) \<and> parsed_header pax = h \<and>
    section_table pax = table \<and> map (section_content pax) table = map Some contents"
proof -
  obtain pax where pax: "parse_bytes path (pax_file h table contents) = Some (Inr pax)" "parsed_header pax = h"
      "section_table pax = table" "pax_bytes pax = pax_file h table contents"
    using pax_file_parses [OF assms(1,2)] by fastforce
  have "map (section_content pax) table = map Some contents"
    using pax_file_contents [OF _ assms(3) _ pax(4)] assms(1) contiguous_length [OF assms(3)]
    by (intro nth_equalityI) (simp_all add: file_header_ok_def)
  then show ?thesis using pax by blast
qed

text \<open>A file with eight bytes of code and two of data.\<close>

definition demo_table :: "pax_section list" where
  "demo_table = [section_code 224 8, section_data 232 2]"

definition demo_header :: pax_header where
  "demo_header = (header_new X86_64)\<lparr>section_table_offset := 96, section_count := 2\<rparr>"

definition demo_contents :: "u8 list list" where
  "demo_contents = [[1, 2, 3, 4, 5, 6, 7, 8], [9, 10]]"

lemma demo_ok:
  "file_header_ok demo_header demo_table" "list_all section_ok demo_table" "contiguous demo_table demo_contents"
  by (simp_all add: demo_header_def demo_table_def demo_contents_def file_header_ok_def header_new_def header_wf_def
      pax_magic_def pax_format_version_def name_fits_def section_code_def section_data_def contiguous_def)

theorem pax_file_round_trip_witness:
  "\<exists>pax. parse_bytes ''a.pax'' (pax_file demo_header demo_table demo_contents) = Some (Inr pax) \<and>
     parsed_header pax = demo_header \<and> section_table pax = demo_table \<and>
     map (section_content pax) demo_table = map Some demo_contents"
  by (rule pax_file_round_trip [OF demo_ok])

section \<open>Parsing\<close>

text \<open>
  C38: Parsing decides on the bytes alone, and each outcome has its exact condition.  A file of fewer than 96
  bytes has a truncated header; a longer one that does not start with the magic or names an architecture other
  than 1 is not PAX; any version but 1 is unsupported; parsing panics exactly when such a file has a section
  count other than 0 and a table offset beyond its end; it reports a truncated table exactly when the offset is
  within the file but the table does not fit behind it or one of its descriptors cannot be read.  Every other file is
  parsed, to a well-formed header and the descriptors in order.\<close>

theorem parse_bytes_typed:
  "(parse_bytes path bytes = Some (Inl PE_TruncatedHeader)) = (length bytes < 96) \<and>
   (parse_bytes path bytes = Some (Inl PE_NotPax)) = (96 \<le> length bytes \<and> \<not> recognised bytes) \<and>
   (parse_bytes path bytes = Some (Inl (PE_UnsupportedVersion v))) = (recognised bytes \<and> u16_at bytes 4 = v \<and> v \<noteq> 1) \<and>
   (parse_bytes path bytes = None) =
     (recognised bytes \<and> u16_at bytes 4 = 1 \<and> table_count bytes \<noteq> 0 \<and> length bytes < table_start bytes) \<and>
   (parse_bytes path bytes = Some (Inl PE_TruncatedSectionTable)) =
     (recognised bytes \<and> u16_at bytes 4 = 1 \<and> table_count bytes \<noteq> 0 \<and> table_start bytes \<le> length bytes \<and>
      \<not> table_readable bytes) \<and>
   (\<exists>pax. parse_bytes path bytes = Some (Inr pax)) =
     (recognised bytes \<and> u16_at bytes 4 = 1 \<and> (table_count bytes = 0 \<or> table_readable bytes)) \<and>
   (case parse_bytes path bytes of
      Some (Inr pax) \<Rightarrow>
        pax_wf pax \<and> pax_path pax = path \<and> pax_bytes pax = bytes \<and>
        map Some (section_table pax) = map (descriptor bytes) [0..<table_count bytes]
    | _ \<Rightarrow> True)"
proof -
  note out = parse_bytes_outcome [of path bytes]
  have long: "recognised bytes \<Longrightarrow> 96 \<le> length bytes" by (simp add: recognised_def)
  have fits: "table_readable bytes \<Longrightarrow> table_start bytes \<le> length bytes" by (simp add: table_readable_def)
  have wf: "pax_wf pax \<and> pax_path pax = path \<and> pax_bytes pax = bytes \<and>
      map Some (section_table pax) = map (descriptor bytes) [0..<table_count bytes]"
    if pax: "parse_bytes path bytes = Some (Inr pax)" for pax
  proof -
    have "section_table pax = map (\<lambda>i. the (descriptor bytes i)) [0..<table_count bytes]"
      and "table_count bytes \<noteq> 0 \<Longrightarrow> table_readable bytes"
      using pax unfolding out by (auto split: if_splits)
    then have "map Some (section_table pax) = map (descriptor bytes) [0..<table_count bytes]"
      by (auto simp: table_readable_def)
    then show ?thesis using parse_bytes_wf [OF pax] by blast
  qed
  have "(parse_bytes path bytes = Some (Inl PE_TruncatedHeader)) = (length bytes < 96)"
    "(parse_bytes path bytes = Some (Inl PE_NotPax)) = (96 \<le> length bytes \<and> \<not> recognised bytes)"
    unfolding out by auto
  moreover have
    "(parse_bytes path bytes = Some (Inl (PE_UnsupportedVersion v))) = (recognised bytes \<and> u16_at bytes 4 = v \<and> v \<noteq> 1)"
    "(parse_bytes path bytes = None) =
     (recognised bytes \<and> u16_at bytes 4 = 1 \<and> table_count bytes \<noteq> 0 \<and> length bytes < table_start bytes)"
    "(parse_bytes path bytes = Some (Inl PE_TruncatedSectionTable)) =
     (recognised bytes \<and> u16_at bytes 4 = 1 \<and> table_count bytes \<noteq> 0 \<and> table_start bytes \<le> length bytes \<and>
      \<not> table_readable bytes)"
    "(\<exists>pax. parse_bytes path bytes = Some (Inr pax)) =
     (recognised bytes \<and> u16_at bytes 4 = 1 \<and> (table_count bytes = 0 \<or> table_readable bytes))"
    unfolding out using long fits by (auto simp: pax_format_version_def)
  moreover have "case parse_bytes path bytes of
      Some (Inr pax) \<Rightarrow>
        pax_wf pax \<and> pax_path pax = path \<and> pax_bytes pax = bytes \<and>
        map Some (section_table pax) = map (descriptor bytes) [0..<table_count bytes]
    | _ \<Rightarrow> True"
    using wf by (simp split: option.split sum.split)
  ultimately show ?thesis by (intro conjI)
qed

section \<open>Resolving\<close>

text \<open>
  C35: The symbol index of the resolve phase, for every hash and all inputs.  It has an entry exactly when some
  input defines the hash.  The documented rule holds: one global definition wins over any number of weak ones,
  wherever it stands.  In general the entry is the position and binding of the first definition in input order
  that is not weak, or of the first weak one when there is no other: of two global definitions the first wins, where
  the design note says the last, and an earlier local definition wins over a global one.\<close>

theorem symbol_index_choice:
  "(by_hash (index_symbols tabs) h = None) = (\<not> symbol_defined tabs h) \<and>
   (\<forall>g \<in> set (symbol_defs tabs).
      def_hash g = h \<and> def_binding g = Sym_Global \<and>
      (\<forall>d \<in> set (symbol_defs tabs). def_hash d = h \<longrightarrow> d = g \<or> def_binding d = Sym_Weak) \<longrightarrow>
      by_hash (index_symbols tabs) h = Some (def_pos g) \<and> bindings (index_symbols tabs) h = Some Sym_Global) \<and>
   by_hash (index_symbols tabs) h = map_option def_pos (kept_def (symbol_defs tabs) h) \<and>
   bindings (index_symbols tabs) h = map_option def_binding (kept_def (symbol_defs tabs) h)"
proof (intro conjI ballI impI)
  fix g
  assume g: "g \<in> set (symbol_defs tabs)" and c: "def_hash g = h \<and> def_binding g = Sym_Global \<and>
      (\<forall>d \<in> set (symbol_defs tabs). def_hash d = h \<longrightarrow> d = g \<or> def_binding d = Sym_Weak)"
  then have "kept_def (symbol_defs tabs) h = Some g" by (intro kept_def_global) blast+
  then show "by_hash (index_symbols tabs) h = Some (def_pos g)" "bindings (index_symbols tabs) h = Some Sym_Global"
    using c by (simp_all add: index_symbols_kept)
qed (rule by_hash_defined index_symbols_kept)+

text \<open>
  C36: When the sections of the inputs can be read, the resolve phase reports B1700 for exactly the undefined
  symbols that no input defines and B1701 for exactly the imported capabilities that no input exports, and
  it returns a link exactly when it reports nothing.  It never rejects inputs whose undefined symbols are all exported,
  that is, defined with a binding other than local, and whose imports are exported; when no input has a local
  definition that is also the condition for success.  In general a local definition of another input satisfies an undefined
  symbol too, although the format documents local symbols as not visible outside their unit.\<close>

theorem resolve_succeeds_iff:
  assumes "those (map symbols_of inputs) = Some tabs" "those (map exports_of inputs) = Some exps"
    "those (map imports_of inputs) = Some imps"
  shows "\<exists>diags r. resolve_inputs inputs = Some (diags, r) \<and> (r = None) = (diags \<noteq> []) \<and>
    set diags = missing_symbols (map pax_path inputs) tabs \<union> missing_capabilities (map pax_path inputs) imps exps \<and>
    (diags = []) = (all_symbols_defined tabs \<and> all_imports_exported imps exps) \<and>
    (all_symbols_exported tabs \<and> all_imports_exported imps exps \<longrightarrow> diags = []) \<and>
    (without_locals tabs \<longrightarrow> (diags = []) = (all_symbols_exported tabs \<and> all_imports_exported imps exps))"
proof -
  obtain diags r where r: "resolve_inputs inputs = Some (diags, r)" "r \<noteq> None \<longleftrightarrow> diags = []"
    "set diags = missing_symbols (map pax_path inputs) tabs \<union> missing_capabilities (map pax_path inputs) imps exps"
    by (rule resolve_inputs_result [OF assms])
  have all: "(diags = []) = (all_symbols_defined tabs \<and> all_imports_exported imps exps)"
    by (rule resolve_inputs_complete [OF assms r(1)])
  have "all_symbols_exported tabs \<Longrightarrow> all_symbols_defined tabs"
    by (auto simp: all_symbols_exported_def all_symbols_defined_def intro: symbol_exported_defined)
  moreover have "without_locals tabs \<Longrightarrow> all_symbols_exported tabs = all_symbols_defined tabs"
    by (simp add: all_symbols_exported_def all_symbols_defined_def without_locals_exported)
  ultimately show ?thesis using r all by (intro exI [of _ diags] exI [of _ r]) auto
qed

text \<open>Two inputs with one symbol each: the first refers to it, the second defines it.\<close>

definition demo_symbol :: "u32 \<Rightarrow> sym_entry" where
  "demo_symbol sec =
     \<lparr>sym_value = 0, sym_size = 16, sym_section = sec, sym_binding_of = Sym_Global, sym_visibility_of = Vis_Default,
      sym_name_offset = 0, sym_hash = 0xABCD\<rparr>"

definition demo_input :: "path \<Rightarrow> sym_entry \<Rightarrow> parsed_pax" where
  "demo_input path e =
     \<lparr>pax_path = path, parsed_header = header_new X86_64,
      section_table = [(section_code 0 48)\<lparr>sec_ty := Sec_Symtab\<rparr>], pax_bytes = symtab_to_bytes [e]\<rparr>"

lemma demo_entries:
  "symbols_of (demo_input p e) = Some [e]" "exports_of (demo_input p e) = Some []" "imports_of (demo_input p e) = Some []"
proof -
  have "length (symtab_to_bytes [e]) = 48" by (simp add: symtab_to_bytes_def sym.table_length)
  moreover have "symtab_from_bytes (symtab_to_bytes [e]) = Some [e]"
    by (simp add: symtab_to_bytes_def symtab_from_bytes_def sym.table_round_trip)
  ultimately show "symbols_of (demo_input p e) = Some [e]"
    by (simp add: section_entries_def find_section_content_by_type_def section_content_def slice_range_def
        demo_input_def section_code_def slice_all)
qed (simp_all add: section_entries_def find_section_content_by_type_def demo_input_def section_code_def)

theorem symbol_index_choice_witness:
  "by_hash (index_symbols [[(demo_symbol 1)\<lparr>sym_binding_of := Sym_Weak\<rparr>], [demo_symbol 1]]) 0xABCD = Some (1, 0) \<and>
   bindings (index_symbols [[(demo_symbol 1)\<lparr>sym_binding_of := Sym_Weak\<rparr>], [demo_symbol 1]]) 0xABCD = Some Sym_Global"
  using symbol_index_choice [of "[[(demo_symbol 1)\<lparr>sym_binding_of := Sym_Weak\<rparr>], [demo_symbol 1]]" "0xABCD"]
  by (simp add: symbol_defs_def demo_symbol_def undefined_section_def def_hash_def def_binding_def def_pos_def
      enumerate_eq_zip)

theorem resolve_succeeds_iff_witness:
  "\<exists>diags r. resolve_inputs [demo_input ''a'' (demo_symbol undefined_section), demo_input ''b'' (demo_symbol 1)] =
      Some (diags, r) \<and> diags = [] \<and> r \<noteq> None"
proof -
  let ?tabs = "[[demo_symbol undefined_section], [demo_symbol 1]]"
  have "all_symbols_exported ?tabs" "all_imports_exported [[], []] [[], []]"
    by (simp_all add: all_symbols_exported_def all_imports_exported_def symbol_exported_def demo_symbol_def
        undefined_section_def)
  then show ?thesis
    using resolve_succeeds_iff [of "[demo_input ''a'' (demo_symbol undefined_section), demo_input ''b'' (demo_symbol 1)]"
        ?tabs "[[], []]" "[[], []]"]
    by (auto simp: demo_entries)
qed

text \<open>An undefined symbol of the first input, answered by a local definition of the second.\<close>

lemma local_satisfies_undefined:
  "\<not> all_symbols_exported [[demo_symbol undefined_section], [(demo_symbol 1)\<lparr>sym_binding_of := Sym_Local\<rparr>]] \<and>
   (\<exists>r. resolve_inputs [demo_input ''a'' (demo_symbol undefined_section),
      demo_input ''b'' ((demo_symbol 1)\<lparr>sym_binding_of := Sym_Local\<rparr>)] = Some ([], Some r))"
proof -
  let ?l = "(demo_symbol 1)\<lparr>sym_binding_of := Sym_Local\<rparr>"
  let ?tabs = "[[demo_symbol undefined_section], [?l]]"
  have "all_symbols_defined ?tabs" "all_imports_exported [[], []] [[], []]"
    by (simp_all add: all_symbols_defined_def all_imports_exported_def symbol_defined_def demo_symbol_def
        undefined_section_def)
  then have "\<exists>r. resolve_inputs [demo_input ''a'' (demo_symbol undefined_section), demo_input ''b'' ?l] = Some ([], Some r)"
    using resolve_inputs_ok [of "[demo_input ''a'' (demo_symbol undefined_section), demo_input ''b'' ?l]" ?tabs "[[], []]" "[[], []]"]
    by (simp add: demo_entries)
  then show ?thesis
    by (simp add: all_symbols_exported_def symbol_exported_def demo_symbol_def undefined_section_def)
qed

section \<open>Relocating\<close>

text \<open>
  C34: Applying a list of relocations to an input's sections panics exactly when it has an Abs64 whose end, offset
  plus 8, wraps around to a position in the code section; there the test for the bounds passes and the slice is
  reversed, although the code means to skip what is out of bounds.  Otherwise only the code section changes, and it
  keeps its length.  A byte outside every applied relocation keeps its value, and an applied relocation that no
  later one overlaps leaves its value, the hash of the symbol's name (or the index itself when the input has no
  such symbol) plus the addend modulo 2^64, at its offset.
  Applied are the Abs64 whose eight bytes lie in the section; relocations of other kinds and those that reach
  beyond its end are skipped.\<close>

theorem relocations_patch_code:
  "(apply_relocs rp rs (code # rest) = None) = (\<exists>r\<in>set rs. reloc_panics (length code) r) \<and>
   (\<forall>sections. apply_relocs rp rs (code # rest) = Some sections \<longrightarrow>
      (\<exists>code'. sections = code' # rest \<and> length code' = length code \<and>
         (\<forall>k < length code. (\<forall>r\<in>set rs. reloc_applies (length code) r \<longrightarrow> \<not> in_patch k r) \<longrightarrow> code' ! k = code ! k) \<and>
         (\<forall>rs1 r rs2. rs = rs1 @ r # rs2 \<and> reloc_applies (length code) r \<and>
            (\<forall>r'\<in>set rs2. reloc_applies (length code) r' \<longrightarrow>
               unat (rel_offset r) + 8 \<le> unat (rel_offset r') \<or> unat (rel_offset r') + 8 \<le> unat (rel_offset r)) \<longrightarrow>
            u64_at code' (unat (rel_offset r)) = reloc_value rp r)))"
proof (intro conjI allI impI)
  show "(apply_relocs rp rs (code # rest) = None) = (\<exists>r\<in>set rs. reloc_panics (length code) r)"
    by (simp add: apply_relocs_patch)
  fix sections
  assume "apply_relocs rp rs (code # rest) = Some sections"
  then have "sections = patch rp rs code # rest" by (simp add: apply_relocs_patch split: if_splits)
  moreover have "u64_at (patch rp rs code) (unat (rel_offset r)) = reloc_value rp r"
    if "rs = rs1 @ r # rs2 \<and> reloc_applies (length code) r \<and>
        (\<forall>r'\<in>set rs2. reloc_applies (length code) r' \<longrightarrow>
           unat (rel_offset r) + 8 \<le> unat (rel_offset r') \<or> unat (rel_offset r') + 8 \<le> unat (rel_offset r))" for rs1 r rs2
    using that patch_value [of code r rs2 rp rs1] by blast
  moreover have "patch rp rs code ! k = code ! k"
    if "k < length code" "\<forall>r\<in>set rs. reloc_applies (length code) r \<longrightarrow> \<not> in_patch k r" for k
    using that by (intro patch_outside) blast+
  ultimately show "\<exists>code'. sections = code' # rest \<and> length code' = length code \<and>
         (\<forall>k < length code. (\<forall>r\<in>set rs. reloc_applies (length code) r \<longrightarrow> \<not> in_patch k r) \<longrightarrow> code' ! k = code ! k) \<and>
         (\<forall>rs1 r rs2. rs = rs1 @ r # rs2 \<and> reloc_applies (length code) r \<and>
            (\<forall>r'\<in>set rs2. reloc_applies (length code) r' \<longrightarrow>
               unat (rel_offset r) + 8 \<le> unat (rel_offset r') \<or> unat (rel_offset r') + 8 \<le> unat (rel_offset r)) \<longrightarrow>
            u64_at code' (unat (rel_offset r)) = reloc_value rp r)"
    by (intro exI [of _ "patch rp rs code"]) simp
qed

definition demo_reloc :: "pax_reloc_kind \<Rightarrow> u64 \<Rightarrow> u64 \<Rightarrow> reloc_entry" where
  "demo_reloc kind off idx = \<lparr>rel_offset = off, rel_symbol = idx, rel_kind = kind, rel_addend = 0xFFFFFFFFFFFFFFFF\<rparr>"

definition demo_resolved :: resolved_pax where
  "demo_resolved = \<lparr>rp_index = 0, rp_path = ''a'', symbol_mapping = [0 \<mapsto> 0xABCD]\<rparr>"

theorem relocations_patch_code_witness:
  "\<exists>code'. apply_relocs demo_resolved [demo_reloc Rel_Pc32 0 0, demo_reloc Rel_Abs64 4 0, demo_reloc Rel_Abs64 9 0]
      [replicate 16 7] = Some [code'] \<and> u64_at code' 4 = 0xABCC \<and> code' ! 3 = 7 \<and>
    apply_relocs demo_resolved [demo_reloc Rel_Abs64 0xFFFFFFFFFFFFFFFF 0] [replicate 16 7] = None"
proof -
  let ?rs = "[demo_reloc Rel_Pc32 0 0, demo_reloc Rel_Abs64 4 0, demo_reloc Rel_Abs64 9 0]"
  have panics: "apply_relocs demo_resolved [demo_reloc Rel_Abs64 0xFFFFFFFFFFFFFFFF 0] [replicate 16 7] = None"
    using relocations_patch_code [of demo_resolved "[demo_reloc Rel_Abs64 0xFFFFFFFFFFFFFFFF 0]" "replicate 16 7" "[]"]
    by (simp add: demo_reloc_def reloc_panics_def)
  have "apply_relocs demo_resolved ?rs [replicate 16 7] \<noteq> None"
    using relocations_patch_code [of demo_resolved ?rs "replicate 16 7" "[]"] by (simp add: demo_reloc_def reloc_panics_def)
  then obtain sections where "apply_relocs demo_resolved ?rs [replicate 16 7] = Some sections" by blast
  with relocations_patch_code [of demo_resolved ?rs "replicate 16 7" "[]"] obtain code' where
    c: "apply_relocs demo_resolved ?rs [replicate 16 7] = Some [code']"
      "\<forall>k < 16. (\<forall>r\<in>set ?rs. reloc_applies 16 r \<longrightarrow> \<not> in_patch k r) \<longrightarrow> code' ! k = replicate 16 7 ! k"
      "\<forall>rs1 r rs2. ?rs = rs1 @ r # rs2 \<and> reloc_applies 16 r \<and>
            (\<forall>r'\<in>set rs2. reloc_applies 16 r' \<longrightarrow>
               unat (rel_offset r) + 8 \<le> unat (rel_offset r') \<or> unat (rel_offset r') + 8 \<le> unat (rel_offset r)) \<longrightarrow>
            u64_at code' (unat (rel_offset r)) = reloc_value demo_resolved r"
    unfolding length_replicate by blast
  have "u64_at code' 4 = 0xABCC"
    using c(3) [rule_format, of "[demo_reloc Rel_Pc32 0 0]" "demo_reloc Rel_Abs64 4 0" "[demo_reloc Rel_Abs64 9 0]"]
    by (simp add: demo_reloc_def demo_resolved_def reloc_applies_def reloc_value_def)
  moreover have "code' ! 3 = 7"
    using c(2) [THEN spec, of 3] by (simp add: demo_reloc_def reloc_applies_def in_patch_def)
  ultimately show ?thesis using c(1) panics by blast
qed

section \<open>Linking\<close>

lemma those_Some: "map f xs = map Some ys \<Longrightarrow> those (map f xs) = Some ys"
  by (induction ys arbitrary: xs) auto

abbreviation file_of :: "path \<Rightarrow> pax_header \<Rightarrow> pax_section list \<Rightarrow> u8 list list \<Rightarrow> parsed_pax" where
  "file_of path h table contents \<equiv>
     \<lparr>pax_path = path, parsed_header = h, section_table = table, pax_bytes = pax_file h table contents\<rparr>"

definition patch_first :: "resolved_pax \<Rightarrow> reloc_entry list \<Rightarrow> u8 list list \<Rightarrow> u8 list list" where
  "patch_first rp rs contents = (case contents of [] \<Rightarrow> [] | c # cs \<Rightarrow> patch rp rs c # cs)"

definition first_panics :: "u8 list list \<Rightarrow> reloc_entry list \<Rightarrow> bool" where
  "first_panics contents rs \<longleftrightarrow> (case contents of [] \<Rightarrow> False | c # cs \<Rightarrow> \<exists>r\<in>set rs. reloc_panics (length c) r)"

lemma apply_relocs_first:
  "apply_relocs rp rs contents = (if first_panics contents rs then None else Some (patch_first rp rs contents))"
  by (cases contents) (simp_all add: patch_first_def first_panics_def apply_relocs_empty apply_relocs_patch)

lemma patch_first_sizes: "map length (patch_first rp rs contents) = map length contents"
  by (cases contents) (simp_all add: patch_first_def)

text \<open>
  C33: Link one file of the following kind: canonical layout (header, section table at offset 96, contents one after
  the other behind it, as the table says), section names of at most 23 non-zero bytes in UTF-8, readable symbol,
  export, import and relocation sections in which every undefined symbol is defined and every imported capability
  exported; BLAKE3 gives 32 bytes.  If a relocation is one on which relocating panics (its end wraps around into the
  first section), so does linking.  Otherwise the bytes handed to the write are a PAX file again: it parses to the same
  section table with the Executable flag set, every section holds the input's content with the relocations applied to
  the first one, and the stored content hash is the hash of that file.  Linking returns these bytes, or the error of the
  write.\<close>

theorem link_single_file:
  assumes input: "fs p = Inr (pax_file h table contents)" and ok: "file_header_ok h table"
    and names: "list_all section_ok table" and lay: "contiguous table contents"
    and syms: "symbols_of (file_of p h table contents) = Some syms" "all_symbols_defined [syms]"
    and caps: "exports_of (file_of p h table contents) = Some exps" "imports_of (file_of p h table contents) = Some imps"
      "all_imports_exported [imps] [exps]"
    and rels: "relocs_of (file_of p h table contents) = Some rels" and hash: "\<forall>x. length (blake3 x) = 32"
  defines "contents' \<equiv> patch_first \<lparr>rp_index = 0, rp_path = p, symbol_mapping = map_symbols syms\<rparr> rels contents"
  shows "if first_panics contents rels then link blake3 fs wr [p] q = None
    else \<exists>out pax. link blake3 fs wr [p] q = Some (case wr q out of None \<Rightarrow> Inr out | Some e \<Rightarrow> Inl (LE_Io e)) \<and>
      parse_bytes q out = Some (Inr pax) \<and>
      section_table pax = table \<and> header_flags (parsed_header pax) = header_flags h OR header_flag_code HF_Executable \<and>
      map (section_content pax) table = map Some contents' \<and>
      content_hash (parsed_header pax) = compute_content_hash blake3 (parsed_header pax) table contents'"
proof -
  let ?in = "file_of p h table contents"
  let ?rp = "\<lparr>rp_index = 0, rp_path = p, symbol_mapping = map_symbols syms\<rparr>"
  let ?r = "\<lparr>rel_index = 0, section_contents = contents'\<rparr>"
  let ?h = "linked_header blake3 ?in contents'"
  have parsed: "parse_inputs fs [p] = Some (Inr [?in])"
    using pax_file_parses [OF ok names] input by (simp add: parse_pax_def)
  obtain rl where resolved: "resolve_inputs [?in] = Some ([], Some rl)" "rl_pax_files rl = [?rp]"
    using resolve_inputs_ok [of "[?in]" "[syms]" "[exps]" "[imps]"] syms caps by simp
  have hw: "header_wf h" using ok by (simp add: file_header_ok_def)
  have "map (section_content ?in) table = map Some contents"
    using pax_file_contents [OF hw lay, where q = ?in] contiguous_length [OF lay]
    by (intro nth_equalityI) simp_all
  then have cs: "those (map (section_content ?in) table) = Some contents" by (rule those_Some)
  have reloc: "relocate_inputs [?in] rl = (if first_panics contents rels then None else Some [?r])"
    using cs rels resolved(2) by (simp add: relocate_inputs_def relocate_one_def apply_relocs_first contents'_def)
  then have panics: "first_panics contents rels \<Longrightarrow> link blake3 fs wr [p] q = None"
    using parsed resolved by (simp add: link_def)
  have sizes: "map length contents' = map length contents" by (simp add: contents'_def patch_first_sizes)
  have lay': "contiguous table contents'" using lay sizes by (auto simp: contiguous_def intro: laid_out_sizes)
  have m: "merged_contents (length table) [?r] = contents'"
    using contiguous_length [OF lay'] by (simp add: merged_single)
  have wf: "pax_wf ?in" using ok by (simp add: pax_wf_def file_header_ok_def)
  have emitted: "emit_final_pax blake3 [?in] [?r] = Some (pax_file ?h table contents')"
    using emit_final_pax_file [of ?in blake3, where paxs = "[]" and rs = "[]"] hw hash m by simp
  have ok': "file_header_ok ?h table" using linked_header_ok [OF wf] hash by simp
  note out = pax_file_parses [OF ok' names, of q contents']
  have "map (section_content (file_of q ?h table contents')) table = map Some contents'"
    using pax_file_contents [OF _ lay', where q = "file_of q ?h table contents'"] ok' contiguous_length [OF lay']
    by (intro nth_equalityI) (simp_all add: file_header_ok_def)
  moreover have "content_hash ?h = compute_content_hash blake3 ?h table contents'"
    using emitted_hash [of ?in blake3 contents'] hw hash ok by (simp add: file_header_ok_def)
  moreover have "header_flags ?h = header_flags h OR header_flag_code HF_Executable"
    by (simp add: linked_header_def exec_header_def)
  moreover have "\<not> first_panics contents rels \<Longrightarrow> link blake3 fs wr [p] q =
      Some (case wr q (pax_file ?h table contents') of None \<Rightarrow> Inr (pax_file ?h table contents') | Some e \<Rightarrow> Inl (LE_Io e))"
    using parsed resolved reloc emitted by (simp add: link_def split: option.split)
  ultimately show ?thesis using out panics by fastforce
qed

text \<open>
  The sections of a file in canonical layout, read as tables; and a file with 16 bytes of code, an undefined and a
  defined symbol of the same name, an imported capability that it exports, and two relocations.
\<close>

lemma entries_at:
  assumes "header_wf h" "contiguous table contents" "find (\<lambda>s. sec_ty s = ty) table = Some (table ! i)" "i < length table"
    and "f (contents ! i) = Some es"
  shows "section_entries f ty (file_of p h table contents) = Some es"
  using pax_file_contents [OF assms(1,2,4), of "file_of p h table contents"] assms(3,5)
  by (simp add: section_entries_def find_section_content_by_type_def)

definition full_symbols :: "sym_entry list" where
  "full_symbols = [demo_symbol undefined_section, demo_symbol 1]"

definition full_caps :: "cap_descriptor list" where
  "full_caps = [\<lparr>cd_name_offset = 0, cd_hash = 0x77, cd_kind = Cap_Fs, cd_lin_class = Pax_Linear, cd_flags = 0\<rparr>]"

definition full_relocs :: "reloc_entry list" where
  "full_relocs = [demo_reloc Rel_Pc32 0 0, demo_reloc Rel_Abs64 4 0]"

definition full_table :: "pax_section list" where
  "full_table =
     [section_code 416 16, (section_data 432 96)\<lparr>sec_ty := Sec_Symtab\<rparr>, (section_data 528 32)\<lparr>sec_ty := Sec_Imports\<rparr>,
      (section_data 560 32)\<lparr>sec_ty := Sec_Exports\<rparr>, (section_data 592 64)\<lparr>sec_ty := Sec_Relocs\<rparr>]"

definition full_contents :: "u8 list list" where
  "full_contents =
     [replicate 16 7, symtab_to_bytes full_symbols, imports_to_bytes full_caps, exports_to_bytes full_caps,
      relocs_to_bytes full_relocs]"

definition full_header :: pax_header where
  "full_header = (header_new X86_64)\<lparr>section_table_offset := 96, section_count := 5\<rparr>"

lemma full_ok:
  "file_header_ok full_header full_table" "list_all section_ok full_table" "contiguous full_table full_contents"
proof -
  have "length (symtab_to_bytes full_symbols) = 96" "length (imports_to_bytes full_caps) = 32"
    "length (exports_to_bytes full_caps) = 32" "length (relocs_to_bytes full_relocs) = 64"
    by (simp_all add: symtab_to_bytes_def imports_to_bytes_def exports_to_bytes_def relocs_to_bytes_def sym.table_length
        cap_desc.table_length reloc.table_length full_symbols_def full_caps_def full_relocs_def)
  then show "contiguous full_table full_contents"
    by (simp add: contiguous_def full_table_def full_contents_def section_code_def section_data_def)
qed (simp_all add: full_header_def full_table_def file_header_ok_def header_new_def header_wf_def
      pax_magic_def pax_format_version_def name_fits_def section_code_def section_data_def)

lemma full_entries:
  "symbols_of (file_of p full_header full_table full_contents) = Some full_symbols"
  "exports_of (file_of p full_header full_table full_contents) = Some full_caps"
  "imports_of (file_of p full_header full_table full_contents) = Some full_caps"
  "relocs_of (file_of p full_header full_table full_contents) = Some full_relocs"
proof -
  have h: "header_wf full_header" using full_ok(1) by (simp add: file_header_ok_def)
  note at = entries_at [OF h full_ok(3)]
  show "symbols_of (file_of p full_header full_table full_contents) = Some full_symbols"
    by (rule at [where i = 1]) (simp_all add: full_table_def full_contents_def section_code_def section_data_def
        symtab_from_bytes_def symtab_to_bytes_def sym.table_round_trip list_all_iff)
  show "imports_of (file_of p full_header full_table full_contents) = Some full_caps"
    by (rule at [where i = 2]) (simp_all add: full_table_def full_contents_def section_code_def section_data_def
        imports_from_bytes_def imports_to_bytes_def cap_desc.table_round_trip list_all_iff)
  show "exports_of (file_of p full_header full_table full_contents) = Some full_caps"
    by (rule at [where i = 3]) (simp_all add: full_table_def full_contents_def section_code_def section_data_def
        exports_from_bytes_def exports_to_bytes_def cap_desc.table_round_trip list_all_iff)
  show "relocs_of (file_of p full_header full_table full_contents) = Some full_relocs"
    by (rule at [where i = 4]) (simp_all add: full_table_def full_contents_def section_code_def section_data_def
        relocs_from_bytes_def relocs_to_bytes_def reloc.table_round_trip list_all_iff)
qed

lemma full_resolved:
  "all_symbols_defined [full_symbols]" "all_imports_exported [full_caps] [full_caps]" "\<not> first_panics full_contents full_relocs"
  by (simp_all add: all_symbols_defined_def all_imports_exported_def symbol_defined_def capability_exported_def
      full_symbols_def full_caps_def demo_symbol_def undefined_section_def first_panics_def full_contents_def
      full_relocs_def demo_reloc_def reloc_panics_def)

text \<open>The code of the output holds the hash of the symbol's name plus the addend, \<open>-1\<close>, at offset 4.\<close>

theorem link_single_file_witness:
  "\<exists>out pax. link (\<lambda>_. replicate 32 0) (\<lambda>_. Inr (pax_file full_header full_table full_contents)) (\<lambda>_ _. None)
      [''a.pax''] ''out.pax'' = Some (Inr out) \<and> parse_bytes ''out.pax'' out = Some (Inr pax) \<and>
    section_table pax = full_table \<and> header_flags (parsed_header pax) = header_flag_code HF_Executable \<and>
    (\<exists>code. section_content pax (hd full_table) = Some code \<and> u64_at code 4 = 0xABCC)"
proof -
  let ?rp = "\<lparr>rp_index = 0, rp_path = ''a.pax'', symbol_mapping = map_symbols full_symbols\<rparr>"
  let ?c = "patch_first ?rp full_relocs full_contents"
  obtain out pax where l: "link (\<lambda>_. replicate 32 0) (\<lambda>_. Inr (pax_file full_header full_table full_contents)) (\<lambda>_ _. None)
      [''a.pax''] ''out.pax'' = Some (Inr out)" "parse_bytes ''out.pax'' out = Some (Inr pax)" "section_table pax = full_table"
      "header_flags (parsed_header pax) = header_flags full_header OR header_flag_code HF_Executable"
      "map (section_content pax) full_table = map Some ?c"
    using link_single_file [where ?blake3.0 = "\<lambda>_. replicate 32 0" and wr = "\<lambda>_ _. None" and p = "''a.pax''"
        and q = "''out.pax''" and fs = "\<lambda>_. Inr (pax_file full_header full_table full_contents)",
        OF refl full_ok full_entries(1) full_resolved(1) full_entries(2,3) full_resolved(2) full_entries(4)]
      full_resolved(3) by auto
  have "u64_at (hd ?c) 4 = 0xABCC"
    using patch_value [of "replicate 16 7" "demo_reloc Rel_Abs64 4 0" "[]" ?rp "[demo_reloc Rel_Pc32 0 0]"]
    by (simp add: patch_first_def full_contents_def full_relocs_def demo_reloc_def reloc_applies_def reloc_value_def
        map_symbols_def full_symbols_def demo_symbol_def enumerate_eq_zip)
  moreover have "section_content pax (hd full_table) = Some (hd ?c)"
    using l(5) by (simp add: full_table_def full_contents_def patch_first_def)
  moreover have "header_flags full_header = 0" by (simp add: full_header_def header_new_def)
  ultimately show ?thesis using l(1-4) by auto
qed

section \<open>Several inputs\<close>

text \<open>
  Contents of several inputs are joined section by section, but the table keeps the offsets and sizes of the
  first input.  With two inputs of two sections each, the entry of the second section then delivers bytes of
  the second input's first section.
\<close>

lemma link_two_stale_table:
  assumes "header_wf h" "contiguous [s, t] [[a], [b]]" "pax_bytes q = pax_file h [s, t] [[a] @ [c], [b] @ [d]]"
  shows "section_content q t = Some [c]"
proof -
  have len: "length (header_to_bytes h @ section_table_to_bytes [s, t]) = 224"
    using assms(1) by (simp add: section_table_length)
  have "content_size t = 1" "unat (content_offset t) = 225"
    using assms(2) by (simp_all add: contiguous_def word_unat_eq_iff)
  moreover have "unat (content_offset t + 1) = 226"
    using calculation(2) by (subst unat_add_lem [THEN iffD1]) simp_all
  moreover have "pax_bytes q = (header_to_bytes h @ section_table_to_bytes [s, t]) @ [a, c, b, d]"
    using assms(3) by (simp add: pax_file_def)
  ultimately show ?thesis using len by (simp add: section_content_def slice_range_def slice_def Let_def)
qed

text \<open>A local definition keeps a later global one of the same hash out of the index.\<close>

lemma local_blocks_global:
  assumes "def_hash l = h" "def_binding l = Sym_Local" "def_hash g = h" "def_binding g = Sym_Global"
  shows "kept_def [l, g] h = Some l"
  using assms by (simp add: kept_def_def)

end
