(* ===== verification/Datalog.thy ===== *)
theory Datalog
  imports Prelude "HOL-Library.AList" "HOL-Library.While_Combinator"
begin

text \<open>
  \<^verbatim>\<open>crates/paideia-as-shell-datalog/src\<close>: the syntax of the shell's Datalog (\<^verbatim>\<open>ast.rs\<close>), the fact database, the
  semi-naive fixpoint and queries (\<^verbatim>\<open>eval.rs\<close>), and the session facts (\<^verbatim>\<open>session_edb.rs\<close>).

  A \<^verbatim>\<open>HashMap\<close> is an association list and a \<^verbatim>\<open>HashSet\<close> a list without duplicates; the order in which the
  code walks them is unspecified, and no theorem depends on it.  A substitution is a partial function.
  Floats are compared by their bit patterns, so a float is its bit pattern.
\<close>

section \<open>Syntax\<close>

datatype dl_value = V_Ident string | V_Str string | V_Num i64 | V_Float u64

datatype dl_term = Var string | Const dl_value | Bound string

record dl_atom =
  predicate :: string
  terms :: "dl_term list"

definition arity :: "dl_atom \<Rightarrow> nat" where
  "arity a = length (terms a)"

fun is_const :: "dl_term \<Rightarrow> bool" where
  "is_const (Const v) = True"
| "is_const _ = False"

definition is_ground :: "dl_atom \<Rightarrow> bool" where
  "is_ground a = list_all is_const (terms a)"

fun const_value :: "dl_term \<Rightarrow> dl_value option" where
  "const_value (Const v) = Some v"
| "const_value _ = None"

definition as_ground :: "dl_atom \<Rightarrow> dl_value list option" where
  "as_ground a = those (map const_value (terms a))"

datatype body_goal = Positive dl_atom | Negative dl_atom

fun goal_atom :: "body_goal \<Rightarrow> dl_atom" where
  "goal_atom (Positive a) = a"
| "goal_atom (Negative a) = a"

fun is_negated :: "body_goal \<Rightarrow> bool" where
  "is_negated (Positive a) = False"
| "is_negated (Negative a) = True"

fun is_positive :: "body_goal \<Rightarrow> bool" where
  "is_positive (Positive a) = True"
| "is_positive (Negative a) = False"

record dl_rule =
  rule_head :: dl_atom
  rule_body :: "body_goal list"

record dl_program =
  rules :: "dl_rule list"
  program_facts :: "dl_atom list"

record dl_query =
  goals :: "dl_atom list"

section \<open>The database\<close>

type_synonym dl_tuple = "dl_value list"
type_synonym dl_key = "string \<times> nat"
type_synonym dl_tables = "(dl_key \<times> dl_tuple list) list"
type_synonym binding = "string \<rightharpoonup> dl_value"

text \<open>\<^verbatim>\<open>tables.get(&key).unwrap_or(&empty)\<close> and \<^verbatim>\<open>tables.entry(key).or_default()\<close>.\<close>

definition relation_of :: "dl_tables \<Rightarrow> dl_key \<Rightarrow> dl_tuple list" where
  "relation_of db k = (case map_of db k of Some s \<Rightarrow> s | None \<Rightarrow> [])"

definition entry_default :: "dl_key \<Rightarrow> dl_tables \<Rightarrow> dl_tables" where
  "entry_default k db = AList.update k (relation_of db k) db"

definition entry_insert :: "dl_key \<Rightarrow> dl_tuple \<Rightarrow> dl_tables \<Rightarrow> dl_tables" where
  "entry_insert k t db = AList.update k (List.insert t (relation_of db k)) db"

definition db_insert :: "string \<Rightarrow> dl_tuple \<Rightarrow> dl_tables \<Rightarrow> dl_tables" where
  "db_insert p t db = entry_insert (p, length t) t db"

definition db_tuples :: "dl_tables \<Rightarrow> string \<Rightarrow> nat \<Rightarrow> dl_tuple list option" where
  "db_tuples db p n = map_of db (p, n)"

definition total_tuple_count :: "dl_tables \<Rightarrow> nat" where
  "total_tuple_count db = sum_list (map (length \<circ> snd) db)"

section \<open>Matching\<close>

fun unify_terms :: "dl_term list \<Rightarrow> dl_value list \<Rightarrow> binding \<Rightarrow> binding option" where
  "unify_terms (t # ts) (v # vs) b =
     (case t of
        Const c \<Rightarrow> if c \<noteq> v then None else unify_terms ts vs b
      | Var name \<Rightarrow>
          (case b name of
             Some existing \<Rightarrow> if existing \<noteq> v then None else unify_terms ts vs b
           | None \<Rightarrow> unify_terms ts vs (b(name \<mapsto> v)))
      | Bound _ \<Rightarrow> None)"
| "unify_terms _ _ b = Some b"

definition unify_atom :: "dl_atom \<Rightarrow> dl_tuple \<Rightarrow> binding \<Rightarrow> binding option" where
  "unify_atom a tuple base =
     (if length (terms a) \<noteq> length tuple then None else unify_terms (terms a) tuple base)"

definition candidates :: "dl_tables \<Rightarrow> dl_atom \<Rightarrow> dl_tuple list" where
  "candidates db a = relation_of db (predicate a, arity a)"

definition extend_with_db :: "dl_atom \<Rightarrow> dl_tables \<Rightarrow> binding list \<Rightarrow> binding list" where
  "extend_with_db a db bs =
     concat (map (\<lambda>b. List.map_filter (\<lambda>t. unify_atom a t b) (candidates db a)) bs)"

definition negation_matches :: "dl_atom \<Rightarrow> dl_tables \<Rightarrow> binding \<Rightarrow> bool" where
  "negation_matches a db b = list_ex (\<lambda>t. unify_atom a t b \<noteq> None) (candidates db a)"

fun ground_terms :: "dl_term list \<Rightarrow> binding \<Rightarrow> dl_value list option" where
  "ground_terms [] b = Some []"
| "ground_terms (t # ts) b =
     (case t of
        Const v \<Rightarrow> map_option ((#) v) (ground_terms ts b)
      | Var name \<Rightarrow> (case b name of Some v \<Rightarrow> map_option ((#) v) (ground_terms ts b) | None \<Rightarrow> None)
      | Bound _ \<Rightarrow> None)"

definition ground_atom :: "dl_atom \<Rightarrow> binding \<Rightarrow> dl_tuple option" where
  "ground_atom a b = ground_terms (terms a) b"

section \<open>One round\<close>

text \<open>
  The two passes over a rule body: positive goals extend the substitutions (the goal at \<open>pivot\<close> is already
  matched), negative goals filter them.  The early exits of the code on an empty list change nothing.
\<close>

definition positive_pass :: "dl_tables \<Rightarrow> nat \<Rightarrow> body_goal list \<Rightarrow> binding list \<Rightarrow> binding list" where
  "positive_pass db pivot body bs =
     fold (\<lambda>(j, goal) bs.
        if j = pivot then bs
        else case goal of Positive a \<Rightarrow> extend_with_db a db bs | Negative a \<Rightarrow> bs) (enumerate 0 body) bs"

definition negative_pass :: "dl_tables \<Rightarrow> body_goal list \<Rightarrow> binding list \<Rightarrow> binding list" where
  "negative_pass db body bs =
     fold (\<lambda>goal bs. case goal of Negative a \<Rightarrow> filter (\<lambda>b. \<not> negation_matches a db b) bs | Positive a \<Rightarrow> bs) body bs"

definition pivot_bindings :: "dl_rule \<Rightarrow> dl_tables \<Rightarrow> nat \<Rightarrow> dl_tuple \<Rightarrow> binding list" where
  "pivot_bindings r db pivot tuple =
     (case unify_atom (goal_atom (rule_body r ! pivot)) tuple Map.empty of
        None \<Rightarrow> []
      | Some base \<Rightarrow> negative_pass db (rule_body r) (positive_pass db pivot (rule_body r) [base]))"

definition add_head :: "dl_rule \<Rightarrow> dl_tables \<Rightarrow> binding \<Rightarrow> dl_tables \<Rightarrow> dl_tables" where
  "add_head r db b delta_new =
     (case ground_atom (rule_head r) b of
        None \<Rightarrow> delta_new
      | Some t \<Rightarrow>
          (let key = (predicate (rule_head r), arity (rule_head r))
           in if t \<in> set (relation_of db key) then delta_new else entry_insert key t delta_new))"

definition positive_positions :: "dl_rule \<Rightarrow> nat list" where
  "positive_positions r = filter (\<lambda>i. is_positive (rule_body r ! i)) [0..<length (rule_body r)]"

definition derive_round :: "dl_rule \<Rightarrow> dl_tables \<Rightarrow> dl_tables \<Rightarrow> dl_tables \<Rightarrow> dl_tables" where
  "derive_round r db delta_prev delta_new =
     fold (\<lambda>pivot dn.
       fold (\<lambda>tuple dn. fold (add_head r db) (pivot_bindings r db pivot tuple) dn)
         (candidates delta_prev (goal_atom (rule_body r ! pivot))) dn)
       (positive_positions r) delta_new"

section \<open>The fixpoint\<close>

definition fresh_only :: "dl_tables \<Rightarrow> dl_tables \<Rightarrow> dl_tables" where
  "fresh_only db delta =
     map (\<lambda>(k, s). (k, case map_of db k of Some existing \<Rightarrow> filter (\<lambda>t. t \<notin> set existing) s | None \<Rightarrow> s)) delta"

definition merge_delta :: "dl_tables \<Rightarrow> dl_tables \<Rightarrow> dl_tables" where
  "merge_delta delta db = fold (\<lambda>(k, s) db. fold (entry_insert k) s (entry_default k db)) delta db"

text \<open>A tick of the progress sink: iteration, new tuples, all tuples.\<close>

type_synonym tick = "nat \<times> nat \<times> nat"

record fixpoint_state =
  fs_db :: dl_tables
  fs_delta :: dl_tables
  fs_iter :: nat
  fs_ticks :: "tick list"
  fs_done :: bool

definition seminaive_step :: "dl_rule list \<Rightarrow> fixpoint_state \<Rightarrow> fixpoint_state" where
  "seminaive_step rs s =
     (let db = fs_db s;
          delta_new = fold (\<lambda>r dn. derive_round r db (fs_delta s) dn) rs [];
          delta_new = fresh_only db delta_new;
          delta_count = total_tuple_count delta_new;
          db = merge_delta delta_new db;
          iter_count = fs_iter s + 1
      in \<lparr>fs_db = db, fs_delta = delta_new, fs_iter = iter_count,
          fs_ticks = fs_ticks s @ [(iter_count, delta_count, total_tuple_count db)],
          fs_done = (delta_count = 0)\<rparr>)"

definition seminaive_fixpoint :: "dl_rule list \<Rightarrow> dl_tables \<Rightarrow> tick list \<Rightarrow> (dl_tables \<times> tick list) option" where
  "seminaive_fixpoint rs db ticks =
     map_option (\<lambda>s. (fs_db s, fs_ticks s))
       (while_option (\<lambda>s. \<not> fs_done s) (seminaive_step rs)
          \<lparr>fs_db = db, fs_delta = db, fs_iter = 0, fs_ticks = ticks, fs_done = False\<rparr>)"

section \<open>Queries\<close>

definition eval_goal :: "dl_tables \<Rightarrow> dl_atom \<Rightarrow> binding list \<Rightarrow> binding list" where
  "eval_goal db goal results = extend_with_db goal db results"

fun reject_bound_terms :: "dl_term list \<Rightarrow> string option" where
  "reject_bound_terms [] = None"
| "reject_bound_terms (Bound n # ts) = Some n"
| "reject_bound_terms (t # ts) = reject_bound_terms ts"

datatype eval_error = UnresolvedPipelineValue string dl_atom | UnstratifiedNegation "string list"

definition reject_bound :: "dl_atom \<Rightarrow> eval_error option" where
  "reject_bound a = map_option (\<lambda>n. UnresolvedPipelineValue n a) (reject_bound_terms (terms a))"

fun reject_all :: "dl_atom list \<Rightarrow> eval_error option" where
  "reject_all [] = None"
| "reject_all (a # as) = (case reject_bound a of Some e \<Rightarrow> Some e | None \<Rightarrow> reject_all as)"

definition run_goals :: "dl_tables \<Rightarrow> dl_query \<Rightarrow> eval_error + binding list" where
  "run_goals db q =
     (case reject_all (goals q) of
        Some e \<Rightarrow> Inl e
      | None \<Rightarrow>
          if goals q = [] then Inr [Map.empty]
          else Inr (fold (eval_goal db) (goals q) [Map.empty]))"

definition enumerate_body :: "dl_tables \<Rightarrow> body_goal list \<Rightarrow> binding list" where
  "enumerate_body db gs = negative_pass db gs (positive_pass db (length gs) gs [Map.empty])"

section \<open>Session facts\<close>

datatype assert_result = Added | AlreadyPresent
datatype retract_result = Removed | NotFound

definition session_assert :: "string \<Rightarrow> dl_tuple \<Rightarrow> dl_tables \<Rightarrow> assert_result \<times> dl_tables" where
  "session_assert p args s =
     (let key = (p, length args)
      in (if args \<in> set (relation_of s key) then AlreadyPresent else Added, entry_insert key args s))"

definition session_retract :: "string \<Rightarrow> dl_tuple \<Rightarrow> dl_tables \<Rightarrow> retract_result \<times> dl_tables" where
  "session_retract p args s =
     (case map_of s (p, length args) of
        Some ts \<Rightarrow>
          (if args \<in> set ts then (Removed, AList.update (p, length args) (removeAll args ts) s)
           else (NotFound, s))
      | None \<Rightarrow> (NotFound, s))"

definition session_clear :: "dl_tables \<Rightarrow> dl_tables" where
  "session_clear s = []"

definition session_is_empty :: "dl_tables \<Rightarrow> bool" where
  "session_is_empty s = list_all (\<lambda>(k, ts). ts = []) s"

definition merge_into :: "dl_tables \<Rightarrow> dl_tables \<Rightarrow> dl_tables" where
  "merge_into session base = fold (\<lambda>((p, n), ts) db. fold (db_insert p) ts db) session base"

definition snapshot :: "dl_tables \<Rightarrow> dl_tables" where
  "snapshot session = merge_into session []"

end
