(* ===== verification/Datalog_Matching.thy ===== *)
theory Datalog_Matching
  imports Datalog
begin

text \<open>
  What matching, joining and the tables compute, in terms of ground instances: \<open>facts_of\<close> is the set of facts
  a database holds, \<open>inst\<close> a ground instance of an atom, \<open>agrees\<close> the substitutions that extend a binding.
\<close>

section \<open>Facts of a database\<close>

type_synonym fact = "string \<times> dl_tuple"

definition facts_of :: "dl_tables \<Rightarrow> fact set" where
  "facts_of db = {(p, t). t \<in> set (relation_of db (p, length t))}"

text \<open>The invariant of tables: the tuples of a relation have its arity, relations are stored once.\<close>

definition tables_wf :: "dl_tables \<Rightarrow> bool" where
  "tables_wf db \<longleftrightarrow> distinct (map fst db) \<and> (\<forall>(k, s) \<in> set db. distinct s \<and> (\<forall>t\<in>set s. length t = snd k))"

lemma tables_wf_Nil [simp]: "tables_wf []"
  by (simp add: tables_wf_def)

lemma facts_of_Nil [simp]: "facts_of [] = {}"
  by (simp add: facts_of_def relation_of_def)

lemma tables_wf_relation: "tables_wf db \<Longrightarrow> t \<in> set (relation_of db k) \<Longrightarrow> length t = snd k"
  by (auto simp: tables_wf_def relation_of_def dest!: map_of_SomeD split: option.splits)

lemma tables_wf_distinct: "tables_wf db \<Longrightarrow> distinct (relation_of db k)"
  by (auto simp: tables_wf_def relation_of_def dest!: map_of_SomeD split: option.splits)

lemma in_relation: "tables_wf db \<Longrightarrow> t \<in> set (relation_of db (p, n)) \<longleftrightarrow> length t = n \<and> (p, t) \<in> facts_of db"
  using tables_wf_relation [of db t "(p, n)"] by (auto simp: facts_of_def)

lemma relation_of_update: "relation_of (AList.update k s db) k' = (if k' = k then s else relation_of db k')"
  by (simp add: relation_of_def update_conv')

lemma tables_wf_update:
  assumes "tables_wf db" "distinct s" "\<forall>t\<in>set s. length t = snd k"
  shows "tables_wf (AList.update k s db)"
proof -
  have d: "distinct (map fst (AList.update k s db))" using assms(1) by (simp add: tables_wf_def distinct_update)
  have "distinct s' \<and> (\<forall>t\<in>set s'. length t = snd k')" if "(k', s') \<in> set (AList.update k s db)" for k' s'
  proof -
    have "map_of (AList.update k s db) k' = Some s'" using that d by simp
    then have "k' = k \<and> s' = s \<or> (k', s') \<in> set db"
      by (auto simp: update_conv' dest: map_of_SomeD split: if_splits)
    then show ?thesis using assms by (auto simp: tables_wf_def)
  qed
  then show ?thesis using d by (auto simp: tables_wf_def)
qed

lemma entry_insert_wf: "tables_wf db \<Longrightarrow> length t = snd k \<Longrightarrow> tables_wf (entry_insert k t db)"
  unfolding entry_insert_def
  by (intro tables_wf_update) (auto simp: tables_wf_distinct dest: tables_wf_relation)

lemma facts_entry_insert: "length t = n \<Longrightarrow> facts_of (entry_insert (p, n) t db) = insert (p, t) (facts_of db)"
  by (auto simp: facts_of_def entry_insert_def relation_of_update)

lemma entry_default_wf: "tables_wf db \<Longrightarrow> tables_wf (entry_default k db)"
  unfolding entry_default_def
  by (intro tables_wf_update) (auto simp: tables_wf_distinct dest: tables_wf_relation)

lemma facts_entry_default [simp]: "facts_of (entry_default k db) = facts_of db"
  by (auto simp: facts_of_def entry_default_def relation_of_update)

lemma db_insert_facts [simp]: "facts_of (db_insert p t db) = insert (p, t) (facts_of db)"
  by (simp add: db_insert_def facts_entry_insert)

lemma db_insert_wf: "tables_wf db \<Longrightarrow> tables_wf (db_insert p t db)"
  by (simp add: db_insert_def entry_insert_wf)

section \<open>Ground instances\<close>

fun inst_term :: "(string \<Rightarrow> dl_value) \<Rightarrow> dl_term \<Rightarrow> dl_value" where
  "inst_term \<sigma> (Var x) = \<sigma> x"
| "inst_term \<sigma> (Const v) = v"
| "inst_term \<sigma> (Bound x) = \<sigma> x"

definition inst :: "(string \<Rightarrow> dl_value) \<Rightarrow> dl_atom \<Rightarrow> fact" where
  "inst \<sigma> a = (predicate a, map (inst_term \<sigma>) (terms a))"

fun term_vars :: "dl_term \<Rightarrow> string set" where
  "term_vars (Var x) = {x}"
| "term_vars _ = {}"

definition vars :: "dl_atom \<Rightarrow> string set" where
  "vars a = (\<Union>t\<in>set (terms a). term_vars t)"

fun no_bound_term :: "dl_term \<Rightarrow> bool" where
  "no_bound_term (Bound x) = False"
| "no_bound_term _ = True"

definition no_bound :: "dl_atom \<Rightarrow> bool" where
  "no_bound a = list_all no_bound_term (terms a)"

definition agrees :: "binding \<Rightarrow> (string \<Rightarrow> dl_value) \<Rightarrow> bool" where
  "agrees b \<sigma> \<longleftrightarrow> (\<forall>x v. b x = Some v \<longrightarrow> \<sigma> x = v)"

lemma agrees_empty [simp]: "agrees Map.empty \<sigma>"
  by (simp add: agrees_def)

lemma agrees_le: "b \<subseteq>\<^sub>m b' \<Longrightarrow> agrees b' \<sigma> \<Longrightarrow> agrees b \<sigma>"
  by (auto simp: agrees_def map_le_def dom_def)

definition fill :: "binding \<Rightarrow> string \<Rightarrow> dl_value" where
  "fill b x = (case b x of Some v \<Rightarrow> v | None \<Rightarrow> V_Num 0)"

lemma agrees_fill [simp]: "agrees b (fill b)"
  by (simp add: agrees_def fill_def)

lemma inst_cong: "(\<And>x. x \<in> vars a \<Longrightarrow> \<sigma> x = \<tau> x) \<Longrightarrow> no_bound a \<Longrightarrow> inst \<sigma> a = inst \<tau> a"
proof -
  assume *: "\<And>x. x \<in> vars a \<Longrightarrow> \<sigma> x = \<tau> x" "no_bound a"
  have "inst_term \<sigma> t = inst_term \<tau> t" if "t \<in> set (terms a)" for t
    using * that by (cases t) (force simp: vars_def no_bound_def list_all_iff)+
  then show ?thesis by (simp add: inst_def)
qed

section \<open>Unification with a tuple\<close>

lemma unify_terms_sound:
  "unify_terms ts vs b = Some b' \<Longrightarrow> length ts = length vs \<Longrightarrow>
   list_all no_bound_term ts \<and> b \<subseteq>\<^sub>m b' \<and> dom b' = dom b \<union> (\<Union>t\<in>set ts. term_vars t) \<and>
   (\<forall>\<sigma>. agrees b' \<sigma> \<longrightarrow> map (inst_term \<sigma>) ts = vs)"
proof (induction ts arbitrary: vs b)
  case (Cons t ts)
  then obtain v ws where vs: "vs = v # ws" and len: "length ts = length ws" by (cases vs) auto
  show ?case
  proof (cases t)
    case (Var x)
    show ?thesis
    proof (cases "b x")
      case None
      then have u: "unify_terms ts ws (b(x \<mapsto> v)) = Some b'" using Cons.prems Var vs by simp
      note IH = Cons.IH [OF u len]
      then have "b' x = Some v" "b \<subseteq>\<^sub>m b'" using None by (auto simp: map_le_def dom_def)
      then show ?thesis using IH Var vs by (auto simp: agrees_def)
    next
      case (Some w)
      then have w: "w = v" and u: "unify_terms ts ws b = Some b'" using Cons.prems Var vs by (auto split: if_splits)
      note IH = Cons.IH [OF u len]
      then have "b' x = Some v" using Some w by (auto simp: map_le_def dom_def)
      then show ?thesis using IH Var vs Some by (auto simp: agrees_def)
    qed
  next
    case (Const c)
    then have "c = v" and u: "unify_terms ts ws b = Some b'" using Cons.prems vs by (auto split: if_splits)
    then show ?thesis using Cons.IH [OF u len] Const vs by simp
  qed (use Cons vs in simp)
qed simp

lemma unify_terms_complete:
  "agrees b \<sigma> \<Longrightarrow> list_all no_bound_term ts \<Longrightarrow>
   \<exists>b'. unify_terms ts (map (inst_term \<sigma>) ts) b = Some b' \<and> agrees b' \<sigma>"
proof (induction ts arbitrary: b)
  case (Cons t ts)
  then have nb: "list_all no_bound_term ts" "no_bound_term t" by simp_all
  show ?case
  proof (cases t)
    case (Var x)
    show ?thesis
    proof (cases "b x")
      case None
      have "agrees (b(x \<mapsto> \<sigma> x)) \<sigma>" using Cons.prems(1) by (simp add: agrees_def)
      then show ?thesis using Cons.IH nb Var None by simp
    next
      case (Some w)
      then have "w = \<sigma> x" using Cons.prems(1) by (simp add: agrees_def)
      then show ?thesis using Cons.IH [OF Cons.prems(1) nb(1)] Var Some by simp
    qed
  qed (use Cons nb in simp_all)
qed simp

lemma unify_atom_sound:
  assumes "unify_atom a t b = Some b'"
  shows "b \<subseteq>\<^sub>m b'" "dom b' = dom b \<union> vars a" "\<And>\<sigma>. agrees b' \<sigma> \<Longrightarrow> inst \<sigma> a = (predicate a, t)" "no_bound a"
  using assms unify_terms_sound [of "terms a" t b b']
  by (auto simp: unify_atom_def vars_def inst_def no_bound_def split: if_splits)

lemma unify_atom_complete:
  assumes "agrees b \<sigma>" "no_bound a" "inst \<sigma> a = (p, t)"
  obtains b' where "unify_atom a t b = Some b'" "agrees b' \<sigma>"
  using assms unify_terms_complete [of b \<sigma> "terms a"] by (auto simp: unify_atom_def inst_def no_bound_def)

lemma in_candidates: "tables_wf db \<Longrightarrow> t \<in> set (candidates db a) \<longleftrightarrow> length t = arity a \<and> (predicate a, t) \<in> facts_of db"
  by (simp add: candidates_def in_relation)

section \<open>Joins\<close>

lemma set_map_filter: "set (List.map_filter f xs) = {y. \<exists>x\<in>set xs. f x = Some y}"
  by (induction xs) (auto simp: List.map_filter_simps split: option.splits)

lemma extend_sound:
  assumes "tables_wf db" "b' \<in> set (extend_with_db a db bs)"
  obtains b where "b \<in> set bs" "b \<subseteq>\<^sub>m b'" "dom b' = dom b \<union> vars a" "\<And>\<sigma>. agrees b' \<sigma> \<Longrightarrow> inst \<sigma> a \<in> facts_of db"
proof -
  obtain b t where bt: "b \<in> set bs" "t \<in> set (candidates db a)" "unify_atom a t b = Some b'"
    using assms(2) by (auto simp: extend_with_db_def set_map_filter)
  then show thesis using that [of b] unify_atom_sound [OF bt(3)] in_candidates [OF assms(1), of t a] by auto
qed

lemma extend_complete:
  assumes "tables_wf db" "b \<in> set bs" "agrees b \<sigma>" "no_bound a" "inst \<sigma> a \<in> facts_of db"
  obtains b' where "b' \<in> set (extend_with_db a db bs)" "agrees b' \<sigma>"
proof -
  obtain t where t: "inst \<sigma> a = (predicate a, t)" by (simp add: inst_def)
  obtain b' where b': "unify_atom a t b = Some b'" "agrees b' \<sigma>"
    using unify_atom_complete [OF assms(3,4) t] .
  have "t \<in> set (candidates db a)"
    using assms(1,5) t b'(1) by (auto simp: in_candidates arity_def unify_atom_def split: if_splits)
  then show thesis using that [of b'] b' assms(2) by (auto simp: extend_with_db_def set_map_filter)
qed

text \<open>Joining a list of atoms, one after the other.\<close>

definition join :: "dl_tables \<Rightarrow> dl_atom list \<Rightarrow> binding list \<Rightarrow> binding list" where
  "join db as bs = fold (\<lambda>a. extend_with_db a db) as bs"

lemma join_sound:
  assumes "tables_wf db" "b' \<in> set (join db as bs)"
  shows "\<exists>b\<in>set bs. b \<subseteq>\<^sub>m b' \<and> dom b' = dom b \<union> (\<Union>a\<in>set as. vars a) \<and>
    (\<forall>\<sigma>. agrees b' \<sigma> \<longrightarrow> (\<forall>a\<in>set as. inst \<sigma> a \<in> facts_of db))"
  using assms(2)
proof (induction as arbitrary: bs)
  case (Cons a as)
  then obtain c where c: "c \<in> set (extend_with_db a db bs)" "c \<subseteq>\<^sub>m b'" "dom b' = dom c \<union> (\<Union>a\<in>set as. vars a)"
      "\<And>\<sigma>. agrees b' \<sigma> \<Longrightarrow> \<forall>a\<in>set as. inst \<sigma> a \<in> facts_of db"
    using Cons.IH [of "extend_with_db a db bs"] by (force simp: join_def)
  obtain b where b: "b \<in> set bs" "b \<subseteq>\<^sub>m c" "dom c = dom b \<union> vars a" "\<And>\<sigma>. agrees c \<sigma> \<Longrightarrow> inst \<sigma> a \<in> facts_of db"
    using extend_sound [OF assms(1) c(1)] by blast
  have "b \<subseteq>\<^sub>m b'" using b(2) c(2) by (rule map_le_trans)
  moreover have "dom b' = dom b \<union> (\<Union>a\<in>set (a # as). vars a)" using b(3) c(3) by auto
  moreover have "\<forall>x\<in>set (a # as). inst \<sigma> x \<in> facts_of db" if "agrees b' \<sigma>" for \<sigma>
    using b(4) [OF agrees_le [OF c(2) that]] c(4) [OF that] by simp
  ultimately show ?case using b(1) by blast
qed (auto simp: join_def intro: map_le_refl)

lemma join_complete:
  assumes "tables_wf db" "b \<in> set bs" "agrees b \<sigma>" "\<forall>a\<in>set as. no_bound a \<and> inst \<sigma> a \<in> facts_of db"
  shows "\<exists>b'\<in>set (join db as bs). agrees b' \<sigma>"
  using assms(2-4)
proof (induction as arbitrary: b bs)
  case (Cons a as)
  obtain c where "c \<in> set (extend_with_db a db bs)" "agrees c \<sigma>"
    using extend_complete [OF assms(1) Cons.prems(1,2), of a] Cons.prems(3) by auto
  then show ?case using Cons.IH [of c "extend_with_db a db bs"] Cons.prems(3) by (simp add: join_def)
qed (auto simp: join_def)

section \<open>Negation and heads\<close>

lemma negation_matches_iff:
  assumes "tables_wf db" "no_bound a"
  shows "negation_matches a db b \<longleftrightarrow> (\<exists>\<sigma>. agrees b \<sigma> \<and> inst \<sigma> a \<in> facts_of db)"
proof
  assume "negation_matches a db b"
  then obtain t b' where t: "t \<in> set (candidates db a)" "unify_atom a t b = Some b'"
    by (auto simp: negation_matches_def list_ex_iff)
  have "agrees b (fill b')" "inst (fill b') a = (predicate a, t)"
    using unify_atom_sound(1,3) [OF t(2)] agrees_le by auto
  then show "\<exists>\<sigma>. agrees b \<sigma> \<and> inst \<sigma> a \<in> facts_of db"
    using t(1) assms(1) in_candidates by auto
next
  assume "\<exists>\<sigma>. agrees b \<sigma> \<and> inst \<sigma> a \<in> facts_of db"
  then obtain \<sigma> where s: "agrees b \<sigma>" "inst \<sigma> a \<in> facts_of db" by blast
  obtain b' where "b' \<in> set (extend_with_db a db [b])"
    using extend_complete [OF assms(1) _ s(1) assms(2) s(2), of "[b]"] by auto
  then show "negation_matches a db b"
    by (auto simp: extend_with_db_def set_map_filter negation_matches_def list_ex_iff)
qed

lemma ground_terms_Some:
  "ground_terms ts b = Some vs \<Longrightarrow> (\<Union>t\<in>set ts. term_vars t) \<subseteq> dom b \<and> list_all no_bound_term ts \<and> length vs = length ts \<and>
     (\<forall>\<sigma>. agrees b \<sigma> \<longrightarrow> map (inst_term \<sigma>) ts = vs)"
proof (induction ts arbitrary: vs)
  case (Cons t ts)
  then obtain ws where ws: "ground_terms ts b = Some ws" by (auto split: dl_term.splits option.splits)
  show ?case using Cons.IH [OF ws] Cons.prems ws by (auto simp: agrees_def split: dl_term.splits option.splits)
qed simp

lemma ground_terms_total:
  "(\<Union>t\<in>set ts. term_vars t) \<subseteq> dom b \<Longrightarrow> list_all no_bound_term ts \<Longrightarrow> ground_terms ts b \<noteq> None"
  by (induction ts) (auto split: dl_term.splits option.splits)

lemma ground_atom_Some:
  assumes "ground_atom a b = Some t"
  shows "vars a \<subseteq> dom b" "no_bound a" "\<And>\<sigma>. agrees b \<sigma> \<Longrightarrow> inst \<sigma> a = (predicate a, t)" "length t = arity a"
  using ground_terms_Some [of "terms a" b t] assms by (auto simp: ground_atom_def vars_def no_bound_def inst_def arity_def)

lemma ground_atom_total:
  assumes "vars a \<subseteq> dom b" "no_bound a"
  obtains t where "ground_atom a b = Some t"
  using ground_terms_total [of "terms a" b] assms by (auto simp: ground_atom_def vars_def no_bound_def)

end
