(* ===== verification/Datalog_Fixpoint.thy ===== *)
theory Datalog_Fixpoint
  imports Datalog_Matching
begin

text \<open>
  The semi-naive loop computes the least fixed point of the operator that fires every rule once, and it ends.
\<close>

section \<open>What the engine derives\<close>

definition pos_atoms :: "dl_rule \<Rightarrow> dl_atom list" where
  "pos_atoms r = map goal_atom (filter is_positive (rule_body r))"

definition neg_atoms :: "dl_rule \<Rightarrow> dl_atom list" where
  "neg_atoms r = map goal_atom (filter is_negated (rule_body r))"

definition pos_vars :: "dl_rule \<Rightarrow> string set" where
  "pos_vars r = (\<Union>a\<in>set (pos_atoms r). vars a)"

definition rule_no_bound :: "dl_rule \<Rightarrow> bool" where
  "rule_no_bound r \<longleftrightarrow> no_bound (rule_head r) \<and> list_all (\<lambda>g. no_bound (goal_atom g)) (rule_body r)"

text \<open>
  A rule fires under \<open>\<sigma>\<close> when its positive goals hold in \<open>I\<close>, no instance of a negative goal that agrees with \<open>\<sigma>\<close> on
  the variables of the positive goals holds in \<open>N\<close>, and the positive goals bind the variables of the head.  A rule without a positive goal never fires.
\<close>

definition fires :: "fact set \<Rightarrow> fact set \<Rightarrow> dl_rule \<Rightarrow> (string \<Rightarrow> dl_value) \<Rightarrow> bool" where
  "fires N I r \<sigma> \<longleftrightarrow>
     (\<forall>a\<in>set (pos_atoms r). inst \<sigma> a \<in> I) \<and>
     (\<forall>a\<in>set (neg_atoms r). \<forall>\<tau>. (\<forall>x\<in>pos_vars r. \<tau> x = \<sigma> x) \<longrightarrow> inst \<tau> a \<notin> N) \<and>
     vars (rule_head r) \<subseteq> pos_vars r"

definition derivations :: "dl_rule list \<Rightarrow> fact set \<Rightarrow> fact set \<Rightarrow> fact set" where
  "derivations rs N I = {inst \<sigma> (rule_head r) | r \<sigma>. r \<in> set rs \<and> pos_atoms r \<noteq> [] \<and> fires N I r \<sigma>}"

definition least_model :: "dl_rule list \<Rightarrow> fact set \<Rightarrow> fact set" where
  "least_model rs B = lfp (\<lambda>I. B \<union> derivations rs B I)"

lemma fires_mono: "fires N I r \<sigma> \<Longrightarrow> I \<subseteq> J \<Longrightarrow> fires N J r \<sigma>"
  by (auto simp: fires_def)

lemma derivations_mono: "I \<subseteq> J \<Longrightarrow> derivations rs N I \<subseteq> derivations rs N J"
  unfolding derivations_def using fires_mono by blast

lemma mono_step: "mono (\<lambda>I. B \<union> derivations rs N I)"
  by (intro monoI Un_mono derivations_mono) simp_all

lemma least_model_unfold: "least_model rs B = B \<union> derivations rs B (least_model rs B)"
  unfolding least_model_def by (rule lfp_unfold [OF mono_step])

lemma least_model_least: "B \<subseteq> I \<Longrightarrow> derivations rs B I \<subseteq> I \<Longrightarrow> least_model rs B \<subseteq> I"
  unfolding least_model_def by (intro lfp_lowerbound) simp

section \<open>The two passes over a body\<close>

definition other_goals :: "nat \<Rightarrow> body_goal list \<Rightarrow> dl_atom list" where
  "other_goals pivot body =
     map (goal_atom \<circ> snd) (filter (\<lambda>(j, g). j \<noteq> pivot \<and> is_positive g) (enumerate 0 body))"

lemma positive_pass_join: "positive_pass db pivot body bs = join db (other_goals pivot body) bs"
proof -
  have "fold (\<lambda>(j, goal) bs. if j = pivot then bs
          else case goal of Positive a \<Rightarrow> extend_with_db a db bs | Negative a \<Rightarrow> bs) xs bs =
      join db (map (goal_atom \<circ> snd) (filter (\<lambda>(j, g). j \<noteq> pivot \<and> is_positive g) xs)) bs" for xs
  proof (induction xs arbitrary: bs)
    case (Cons x xs)
    obtain j g where "x = (j, g)" by (cases x)
    then show ?case using Cons by (cases g) (simp_all add: join_def)
  qed (simp add: join_def)
  then show ?thesis by (simp add: positive_pass_def other_goals_def)
qed

lemma set_enumerate0: "set (enumerate 0 xs) = {(i, xs ! i) | i. i < length xs}"
  by (auto simp: in_set_enumerate_eq)

lemma set_other_goals:
  "set (other_goals pivot body) = {goal_atom (body ! j) | j. j < length body \<and> j \<noteq> pivot \<and> is_positive (body ! j)}"
  by (auto simp: other_goals_def set_enumerate0 image_iff)

lemma set_pos_atoms: "set (pos_atoms r) = {goal_atom (rule_body r ! j) | j. j < length (rule_body r) \<and> is_positive (rule_body r ! j)}"
  by (auto simp: pos_atoms_def in_set_conv_nth image_iff)

lemma pivot_atoms:
  assumes "p < length (rule_body r)" "is_positive (rule_body r ! p)"
  shows "set (pos_atoms r) = insert (goal_atom (rule_body r ! p)) (set (other_goals p (rule_body r)))"
  using assms by (auto simp: set_pos_atoms set_other_goals)

lemma negative_pass_filter:
  "negative_pass db body bs = filter (\<lambda>b. \<forall>a\<in>set (map goal_atom (filter is_negated body)). \<not> negation_matches a db b) bs"
  unfolding negative_pass_def
  by (induction body arbitrary: bs) (auto split: body_goal.split simp: conj_commute intro: filter_cong)

section \<open>One round\<close>

lemma agrees_on_dom: "agrees b \<sigma> \<Longrightarrow> agrees b \<tau> \<longleftrightarrow> (\<forall>x\<in>dom b. \<tau> x = \<sigma> x)"
  by (force simp: agrees_def dom_def)

lemma pivot_bindings_sound:
  assumes wf: "tables_wf db" and nb: "rule_no_bound r"
    and p: "p < length (rule_body r)" "is_positive (rule_body r ! p)"
    and t: "(predicate (goal_atom (rule_body r ! p)), t) \<in> facts_of db"
    and b: "b \<in> set (pivot_bindings r db p t)"
  shows "dom b = pos_vars r \<and> (\<forall>\<sigma>. agrees b \<sigma> \<longrightarrow>
    (\<forall>a\<in>set (pos_atoms r). inst \<sigma> a \<in> facts_of db) \<and> inst \<sigma> (goal_atom (rule_body r ! p)) = (predicate (goal_atom (rule_body r ! p)), t) \<and>
    (\<forall>a\<in>set (neg_atoms r). \<forall>\<tau>. (\<forall>x\<in>pos_vars r. \<tau> x = \<sigma> x) \<longrightarrow> inst \<tau> a \<notin> facts_of db))"
proof -
  let ?a = "goal_atom (rule_body r ! p)"
  obtain base where base: "unify_atom ?a t Map.empty = Some base"
      "b \<in> set (negative_pass db (rule_body r) (positive_pass db p (rule_body r) [base]))"
    using b by (cases "unify_atom ?a t Map.empty") (auto simp: pivot_bindings_def)
  have join: "b \<in> set (positive_pass db p (rule_body r) [base])"
    and neg: "\<forall>a\<in>set (neg_atoms r). \<not> negation_matches a db b"
    using base(2) by (auto simp: negative_pass_filter neg_atoms_def)
  have j: "base \<subseteq>\<^sub>m b" "dom b = dom base \<union> (\<Union>a\<in>set (other_goals p (rule_body r)). vars a)"
    "\<forall>\<sigma>. agrees b \<sigma> \<longrightarrow> (\<forall>a\<in>set (other_goals p (rule_body r)). inst \<sigma> a \<in> facts_of db)"
    using join_sound [OF wf join [unfolded positive_pass_join]] by auto
  have "dom b = pos_vars r"
    using j(2) unify_atom_sound(2) [OF base(1)] by (simp add: pos_vars_def pivot_atoms [OF p])
  moreover have "inst \<sigma> ?a = (predicate ?a, t)" if "agrees b \<sigma>" for \<sigma>
    using unify_atom_sound(3) [OF base(1)] agrees_le [OF j(1) that] by blast
  moreover have "inst \<tau> a \<notin> facts_of db"
    if "agrees b \<sigma>" "a \<in> set (neg_atoms r)" "\<forall>x\<in>pos_vars r. \<tau> x = \<sigma> x" for \<sigma> \<tau> a
  proof -
    have "no_bound a" using that(2) nb by (auto simp: rule_no_bound_def neg_atoms_def list_all_iff)
    moreover have "agrees b \<tau>" using that \<open>dom b = pos_vars r\<close> agrees_on_dom by blast
    ultimately show ?thesis using neg that(2) negation_matches_iff [OF wf] by blast
  qed
  ultimately show ?thesis using j(3) t by (auto simp: pivot_atoms [OF p])
qed

lemma pivot_bindings_complete:
  assumes wf: "tables_wf db" and nb: "rule_no_bound r"
    and p: "p < length (rule_body r)" "is_positive (rule_body r ! p)"
    and f: "fires (facts_of db) (facts_of db) r \<sigma>"
  defines "t \<equiv> snd (inst \<sigma> (goal_atom (rule_body r ! p)))"
  shows "\<exists>b\<in>set (pivot_bindings r db p t). agrees b \<sigma>"
proof -
  let ?a = "goal_atom (rule_body r ! p)"
  have nbs: "no_bound a" if "a \<in> set (pos_atoms r)" for a
    using that nb by (auto simp: rule_no_bound_def pos_atoms_def list_all_iff)
  have t: "inst \<sigma> ?a = (predicate ?a, t)" by (simp add: t_def inst_def)
  have a: "?a \<in> set (pos_atoms r)" by (simp add: pivot_atoms [OF p])
  obtain base where base: "unify_atom ?a t Map.empty = Some base" "agrees base \<sigma>"
    using unify_atom_complete [OF agrees_empty nbs [OF a] t] .
  have "\<forall>a\<in>set (other_goals p (rule_body r)). no_bound a \<and> inst \<sigma> a \<in> facts_of db"
    using f nbs by (auto simp: fires_def pivot_atoms [OF p])
  then obtain b where b: "b \<in> set (positive_pass db p (rule_body r) [base])" "agrees b \<sigma>"
    using join_complete [OF wf, of base "[base]" \<sigma>] base(2) by (auto simp: positive_pass_join)
  have dom: "dom b = pos_vars r"
    using join_sound [OF wf b(1) [unfolded positive_pass_join]] unify_atom_sound(2) [OF base(1)]
    by (auto simp: pos_vars_def pivot_atoms [OF p])
  have "\<not> negation_matches a db b" if "a \<in> set (neg_atoms r)" for a
  proof -
    have "no_bound a" using that nb by (auto simp: rule_no_bound_def neg_atoms_def list_all_iff)
    then show ?thesis
      using f that dom b(2) agrees_on_dom negation_matches_iff [OF wf] unfolding fires_def by metis
  qed
  then have "b \<in> set (pivot_bindings r db p t)"
    using base(1) b(1) by (auto simp: pivot_bindings_def negative_pass_filter neg_atoms_def)
  then show ?thesis using b(2) by blast
qed

lemma add_head_facts:
  assumes "tables_wf db" "tables_wf dn"
  shows "tables_wf (add_head r db b dn) \<and>
    facts_of (add_head r db b dn) = facts_of dn \<union>
      {(predicate (rule_head r), t) | t. ground_atom (rule_head r) b = Some t \<and> (predicate (rule_head r), t) \<notin> facts_of db}"
proof (cases "ground_atom (rule_head r) b")
  case None
  then show ?thesis using assms by (simp add: add_head_def)
next
  case (Some t)
  then have len: "length t = arity (rule_head r)" by (rule ground_atom_Some(4))
  show ?thesis
    using Some assms len in_relation [OF assms(1), of t "predicate (rule_head r)" "arity (rule_head r)"]
    by (auto simp: add_head_def Let_def facts_entry_insert entry_insert_wf)
qed

text \<open>A fold of steps that each add a set of facts.\<close>

lemma fold_adds:
  assumes "\<And>x d. x \<in> set xs \<Longrightarrow> tables_wf d \<Longrightarrow> tables_wf (f x d) \<and> facts_of (f x d) = facts_of d \<union> A x"
    and "tables_wf d"
  shows "tables_wf (fold f xs d) \<and> facts_of (fold f xs d) = facts_of d \<union> (\<Union>x\<in>set xs. A x)"
  using assms by (induction xs arbitrary: d) auto

definition pivot_facts :: "dl_rule \<Rightarrow> dl_tables \<Rightarrow> nat \<Rightarrow> dl_tuple \<Rightarrow> fact set" where
  "pivot_facts r db p t = (\<Union>b\<in>set (pivot_bindings r db p t).
     {(predicate (rule_head r), h) | h. ground_atom (rule_head r) b = Some h \<and> (predicate (rule_head r), h) \<notin> facts_of db})"

lemma derive_round_adds:
  assumes "tables_wf db" "tables_wf dn"
  shows "tables_wf (derive_round r db dprev dn) \<and>
    facts_of (derive_round r db dprev dn) = facts_of dn \<union>
      (\<Union>p\<in>set (positive_positions r). \<Union>t\<in>set (candidates dprev (goal_atom (rule_body r ! p))). pivot_facts r db p t)"
  unfolding derive_round_def pivot_facts_def
  by (intro fold_adds conjI add_head_facts assms)

lemma in_positive_positions: "p \<in> set (positive_positions r) \<longleftrightarrow> p < length (rule_body r) \<and> is_positive (rule_body r ! p)"
  by (auto simp: positive_positions_def)

text \<open>One rule derives the new heads of those instances that use a fact of the last round.\<close>

lemma derive_round_facts:
  assumes wf: "tables_wf db" "tables_wf dprev" "tables_wf dn" and nb: "rule_no_bound r" and sub: "facts_of dprev \<subseteq> facts_of db"
  shows "facts_of (derive_round r db dprev dn) = facts_of dn \<union>
    ({inst \<sigma> (rule_head r) | \<sigma>. fires (facts_of db) (facts_of db) r \<sigma> \<and> (\<exists>a\<in>set (pos_atoms r). inst \<sigma> a \<in> facts_of dprev)} - facts_of db)"
    (is "_ = _ \<union> (?H - _)")
proof -
  let ?P = "\<Union>p\<in>set (positive_positions r). \<Union>t\<in>set (candidates dprev (goal_atom (rule_body r ! p))). pivot_facts r db p t"
  have "?P \<subseteq> ?H - facts_of db"
  proof
    fix f assume "f \<in> ?P"
    then obtain p t b h where p: "p < length (rule_body r)" "is_positive (rule_body r ! p)"
      and t: "t \<in> set (candidates dprev (goal_atom (rule_body r ! p)))" and b: "b \<in> set (pivot_bindings r db p t)"
      and h: "ground_atom (rule_head r) b = Some h" "f = (predicate (rule_head r), h)" "f \<notin> facts_of db"
      by (auto simp: pivot_facts_def in_positive_positions)
    let ?a = "goal_atom (rule_body r ! p)"
    have tp: "(predicate ?a, t) \<in> facts_of dprev" using t wf(2) by (simp add: in_candidates)
    then have tdb: "(predicate ?a, t) \<in> facts_of db" using sub by blast
    note s = pivot_bindings_sound [OF wf(1) nb p tdb b]
    have "\<forall>a\<in>set (pos_atoms r). inst (fill b) a \<in> facts_of db"
      "\<forall>a\<in>set (neg_atoms r). \<forall>\<tau>. (\<forall>x\<in>pos_vars r. \<tau> x = fill b x) \<longrightarrow> inst \<tau> a \<notin> facts_of db"
      using s agrees_fill by blast+
    then have "fires (facts_of db) (facts_of db) r (fill b)"
      using s ground_atom_Some(1) [OF h(1)] by (simp add: fires_def)
    moreover have "inst (fill b) (rule_head r) = f" using ground_atom_Some(3) [OF h(1)] h(2) by simp
    moreover have "inst (fill b) ?a \<in> facts_of dprev" using s tp by simp
    moreover have "?a \<in> set (pos_atoms r)" by (simp add: pivot_atoms [OF p])
    ultimately show "f \<in> ?H - facts_of db" using h(3) by blast
  qed
  moreover have "?H - facts_of db \<subseteq> ?P"
  proof
    fix f assume "f \<in> ?H - facts_of db"
    then obtain \<sigma> a where f: "f = inst \<sigma> (rule_head r)" "f \<notin> facts_of db" and fires: "fires (facts_of db) (facts_of db) r \<sigma>"
      and a: "a \<in> set (pos_atoms r)" "inst \<sigma> a \<in> facts_of dprev" by blast
    obtain p where p: "p < length (rule_body r)" "is_positive (rule_body r ! p)" "a = goal_atom (rule_body r ! p)"
      using a(1) by (auto simp: set_pos_atoms)
    let ?t = "snd (inst \<sigma> (goal_atom (rule_body r ! p)))"
    obtain b where b: "b \<in> set (pivot_bindings r db p ?t)" "agrees b \<sigma>"
      using pivot_bindings_complete [OF wf(1) nb p(1,2) fires] by blast
    have tp: "(predicate a, ?t) \<in> facts_of dprev" using a(2) p(3) by (simp add: inst_def)
    then have "(predicate (goal_atom (rule_body r ! p)), ?t) \<in> facts_of db" using sub p(3) by blast
    then have "dom b = pos_vars r" using pivot_bindings_sound [OF wf(1) nb p(1,2) _ b(1)] by blast
    then obtain h where h: "ground_atom (rule_head r) b = Some h"
      using ground_atom_total [of "rule_head r" b] fires nb by (auto simp: fires_def rule_no_bound_def)
    have "f = (predicate (rule_head r), h)" using ground_atom_Some(3) [OF h b(2)] f(1) by simp
    then have "f \<in> pivot_facts r db p ?t" using b(1) h f(2) by (auto simp: pivot_facts_def)
    moreover have "?t \<in> set (candidates dprev (goal_atom (rule_body r ! p)))"
      using tp p(3) wf(2) by (simp add: in_candidates) (simp add: inst_def arity_def)
    ultimately show "f \<in> ?P" using p(1,2) by (auto simp: in_positive_positions)
  qed
  ultimately have "?P = ?H - facts_of db" by (rule subset_antisym)
  then show ?thesis using derive_round_adds [OF wf(1,3), of r dprev] by simp
qed

lemma derive_round_wf: "tables_wf db \<Longrightarrow> tables_wf dn \<Longrightarrow> tables_wf (derive_round r db dprev dn)"
  using derive_round_adds by blast

definition round_facts :: "dl_rule list \<Rightarrow> dl_tables \<Rightarrow> dl_tables \<Rightarrow> fact set" where
  "round_facts rs db dprev =
     {inst \<sigma> (rule_head r) | r \<sigma>. r \<in> set rs \<and> fires (facts_of db) (facts_of db) r \<sigma> \<and>
        (\<exists>a\<in>set (pos_atoms r). inst \<sigma> a \<in> facts_of dprev)} - facts_of db"

lemma derive_rounds:
  assumes wf: "tables_wf db" "tables_wf dprev" and nb: "list_all rule_no_bound rs" and sub: "facts_of dprev \<subseteq> facts_of db"
  defines "dn \<equiv> fold (\<lambda>r dn. derive_round r db dprev dn) rs []"
  shows "tables_wf dn \<and> facts_of dn = round_facts rs db dprev"
proof -
  let ?A = "\<lambda>r. {inst \<sigma> (rule_head r) | \<sigma>. fires (facts_of db) (facts_of db) r \<sigma> \<and>
      (\<exists>a\<in>set (pos_atoms r). inst \<sigma> a \<in> facts_of dprev)} - facts_of db"
  have "tables_wf dn \<and> facts_of dn = facts_of [] \<union> (\<Union>r\<in>set rs. ?A r)"
    unfolding dn_def using nb
    by (intro fold_adds conjI derive_round_wf derive_round_facts wf sub) (simp_all add: list_all_iff)
  then show ?thesis by (auto simp: round_facts_def)
qed

section \<open>Merging\<close>

lemma facts_mem: "tables_wf db \<Longrightarrow> (p, t) \<in> facts_of db \<longleftrightarrow> (\<exists>s. map_of db (p, length t) = Some s \<and> t \<in> set s)"
  by (cases "map_of db (p, length t)") (simp_all add: facts_of_def relation_of_def)

lemma fresh_only_facts:
  assumes "tables_wf db" "tables_wf d"
  shows "tables_wf (fresh_only db d)" "facts_of (fresh_only db d) = facts_of d - facts_of db"
proof -
  let ?f = "\<lambda>k s. case map_of db k of Some e \<Rightarrow> filter (\<lambda>t. t \<notin> set e) s | None \<Rightarrow> s"
  have keys: "map fst (fresh_only db d) = map fst d" by (induction d) (auto simp: fresh_only_def)
  show wf: "tables_wf (fresh_only db d)"
  proof -
    have "distinct s \<and> (\<forall>t\<in>set s. length t = snd k)" if "(k, s) \<in> set (fresh_only db d)" for k s
      using that assms(2) by (auto simp: tables_wf_def fresh_only_def split: option.splits)
    then show ?thesis using assms(2) keys by (auto simp: tables_wf_def simp del: map_eq_conv)
  qed
  have "map_of (fresh_only db d) k = map_option (?f k) (map_of d k)" for k
    by (cases "map_of db k"; induction d) (auto simp: fresh_only_def)
  then show "facts_of (fresh_only db d) = facts_of d - facts_of db"
    using assms by (intro set_eqI) (auto simp: facts_of_def relation_of_def split: option.split)
qed

lemma merge_delta_facts:
  assumes "tables_wf db" "tables_wf d"
  shows "tables_wf (merge_delta d db)" "facts_of (merge_delta d db) = facts_of db \<union> facts_of d"
proof -
  have step: "tables_wf (fold (entry_insert k) s db) \<and> facts_of (fold (entry_insert k) s db) = facts_of db \<union> (\<Union>t\<in>set s. {(fst k, t)})"
    if "tables_wf db" "\<forall>t\<in>set s. length t = snd k" for k s db
    using that by (intro fold_adds) (auto simp: entry_insert_wf facts_entry_insert [of _ "snd k" "fst k", simplified])
  have "tables_wf (merge_delta d db) \<and> facts_of (merge_delta d db) = facts_of db \<union> (\<Union>(k, s)\<in>set d. \<Union>t\<in>set s. {(fst k, t)})"
    unfolding merge_delta_def
  proof (intro fold_adds assms(1))
    fix x d' assume x: "x \<in> set d" and d': "tables_wf d'"
    obtain k s where ks: "x = (k, s)" by (cases x)
    have "\<forall>t\<in>set s. length t = snd k" using assms(2) x ks by (auto simp: tables_wf_def)
    then show "tables_wf ((\<lambda>(k, s) db. fold (entry_insert k) s (entry_default k db)) x d') \<and>
        facts_of ((\<lambda>(k, s) db. fold (entry_insert k) s (entry_default k db)) x d') =
        facts_of d' \<union> (case x of (k, s) \<Rightarrow> \<Union>t\<in>set s. {(fst k, t)})"
      using step [OF entry_default_wf [OF d']] ks by simp
  qed
  moreover have "(\<Union>(k, s)\<in>set d. \<Union>t\<in>set s. {(fst k, t)}) = facts_of d"
  proof -
    have mem: "(p, t) \<in> facts_of d \<longleftrightarrow> (\<exists>s. ((p, length t), s) \<in> set d \<and> t \<in> set s)" for p t
      using assms(2) facts_mem [OF assms(2)] by (simp add: tables_wf_def)
    have "((p, n), s) \<in> set d \<and> t \<in> set s \<longrightarrow> length t = n" for p n s t
      using assms(2) by (auto simp: tables_wf_def)
    then have "(p, t) \<in> (\<Union>(k, s)\<in>set d. \<Union>t\<in>set s. {(fst k, t)}) \<longleftrightarrow> (\<exists>s. ((p, length t), s) \<in> set d \<and> t \<in> set s)" for p t
      by (auto simp: Bex_def)
    then show ?thesis using mem by (intro set_eqI) (simp add: split_paired_all)
  qed
  ultimately show "tables_wf (merge_delta d db)" "facts_of (merge_delta d db) = facts_of db \<union> facts_of d" by auto
qed

lemma total_tuple_count_zero: "tables_wf d \<Longrightarrow> total_tuple_count d = 0 \<longleftrightarrow> facts_of d = {}"
proof -
  assume wf: "tables_wf d"
  have zero: "total_tuple_count d = 0 \<longleftrightarrow> (\<forall>(k, s)\<in>set d. s = [])"
    by (induction d) (auto simp: total_tuple_count_def)
  have mem: "(p, t) \<in> facts_of d \<longleftrightarrow> (\<exists>s. ((p, length t), s) \<in> set d \<and> t \<in> set s)" for p t
    using wf facts_mem [OF wf] by (simp add: tables_wf_def)
  show ?thesis
  proof
    assume "total_tuple_count d = 0"
    then show "facts_of d = {}" using zero mem by fastforce
  next
    assume empty: "facts_of d = {}"
    have "s = []" if "((p, n), s) \<in> set d" for p n s
    proof (cases s)
      case (Cons t ts)
      then have "length t = n" using wf that by (auto simp: tables_wf_def)
      then show ?thesis using mem [of p t] empty that Cons by auto
    qed
    then show "total_tuple_count d = 0" using zero by fastforce
  qed
qed

section \<open>Negation within a stratum\<close>

text \<open>No rule of the stratum derives a predicate that a rule of the stratum negates.\<close>

definition negation_closed :: "dl_rule list \<Rightarrow> bool" where
  "negation_closed rs \<longleftrightarrow>
     (\<forall>r\<in>set rs. \<forall>a\<in>set (neg_atoms r). \<forall>r'\<in>set rs. predicate a \<noteq> predicate (rule_head r'))"

lemma least_model_base:
  "(p, t) \<in> least_model rs B \<Longrightarrow> \<forall>r\<in>set rs. p \<noteq> predicate (rule_head r) \<Longrightarrow> (p, t) \<in> B"
  by (subst (asm) least_model_unfold) (auto simp: derivations_def inst_def)

lemma base_least_model: "B \<subseteq> least_model rs B"
  by (subst least_model_unfold) simp

lemma fires_negation:
  assumes "negation_closed rs" "r \<in> set rs" "B \<subseteq> M" "M \<subseteq> least_model rs B"
  shows "fires M I r \<sigma> \<longleftrightarrow> fires B I r \<sigma>"
proof -
  have "inst \<tau> a \<in> M \<longleftrightarrow> inst \<tau> a \<in> B" if "a \<in> set (neg_atoms r)" for \<tau> a
    using assms that least_model_base [of "predicate a" "snd (inst \<tau> a)" rs B]
    by (auto simp: negation_closed_def inst_def)
  then show ?thesis by (auto simp: fires_def)
qed

section \<open>The loop\<close>

definition fixpoint_inv :: "dl_rule list \<Rightarrow> fact set \<Rightarrow> fixpoint_state \<Rightarrow> bool" where
  "fixpoint_inv rs B s \<longleftrightarrow>
     tables_wf (fs_db s) \<and> tables_wf (fs_delta s) \<and> facts_of (fs_delta s) \<subseteq> facts_of (fs_db s) \<and>
     B \<subseteq> facts_of (fs_db s) \<and> facts_of (fs_db s) \<subseteq> least_model rs B \<and>
     (\<forall>r\<in>set rs. \<forall>\<sigma>. pos_atoms r \<noteq> [] \<longrightarrow> fires B (facts_of (fs_db s)) r \<sigma> \<longrightarrow>
        (\<forall>a\<in>set (pos_atoms r). inst \<sigma> a \<notin> facts_of (fs_delta s)) \<longrightarrow> inst \<sigma> (rule_head r) \<in> facts_of (fs_db s)) \<and>
     (fs_done s \<longrightarrow> facts_of (fs_delta s) = {})"

lemma fixpoint_inv_init:
  "tables_wf db \<Longrightarrow> fixpoint_inv rs (facts_of db) \<lparr>fs_db = db, fs_delta = db, fs_iter = n, fs_ticks = ts, fs_done = False\<rparr>"
  using base_least_model by (fastforce simp: fixpoint_inv_def fires_def neq_Nil_conv)

lemma seminaive_step_facts:
  assumes inv: "fixpoint_inv rs B s" and nb: "list_all rule_no_bound rs"
  defines "F \<equiv> round_facts rs (fs_db s) (fs_delta s)"
  shows "tables_wf (fs_db (seminaive_step rs s))" "tables_wf (fs_delta (seminaive_step rs s))"
    "facts_of (fs_delta (seminaive_step rs s)) = F" "facts_of (fs_db (seminaive_step rs s)) = facts_of (fs_db s) \<union> F"
    "fs_done (seminaive_step rs s) \<longleftrightarrow> F = {}"
proof -
  let ?dn = "fold (\<lambda>r dn. derive_round r (fs_db s) (fs_delta s) dn) rs []"
  let ?fresh = "fresh_only (fs_db s) ?dn"
  have wf: "tables_wf (fs_db s)" "tables_wf (fs_delta s)" "facts_of (fs_delta s) \<subseteq> facts_of (fs_db s)"
    using inv by (simp_all add: fixpoint_inv_def)
  have dn: "tables_wf ?dn" "facts_of ?dn = F" using derive_rounds [OF wf(1,2) nb wf(3)] by (simp_all add: F_def)
  have fresh: "tables_wf ?fresh" "facts_of ?fresh = F"
    using fresh_only_facts [OF wf(1) dn(1)] dn(2) by (auto simp: F_def round_facts_def)
  show "tables_wf (fs_db (seminaive_step rs s))" "tables_wf (fs_delta (seminaive_step rs s))"
    "facts_of (fs_delta (seminaive_step rs s)) = F" "facts_of (fs_db (seminaive_step rs s)) = facts_of (fs_db s) \<union> F"
    "fs_done (seminaive_step rs s) \<longleftrightarrow> F = {}"
    using fresh merge_delta_facts [OF wf(1) fresh(1)] total_tuple_count_zero [OF fresh(1)]
    by (simp_all add: seminaive_step_def Let_def)
qed

lemma fixpoint_inv_step:
  assumes inv: "fixpoint_inv rs B s" and nb: "list_all rule_no_bound rs" and neg: "negation_closed rs"
  shows "fixpoint_inv rs B (seminaive_step rs s)"
proof -
  let ?db = "facts_of (fs_db s)" and ?F = "round_facts rs (fs_db s) (fs_delta s)"
  note step = seminaive_step_facts [OF inv nb]
  have sub: "B \<subseteq> ?db" "?db \<subseteq> least_model rs B" using inv by (simp_all add: fixpoint_inv_def)
  note cong = fires_negation [OF neg _ sub]
  have "?F \<subseteq> derivations rs B ?db"
    using cong by (force simp: round_facts_def derivations_def)
  also have "\<dots> \<subseteq> least_model rs B"
    using derivations_mono [OF sub(2)] by (subst least_model_unfold) blast
  finally have F: "?F \<subseteq> least_model rs B" .
  have "inst \<sigma> (rule_head r) \<in> ?db \<union> ?F"
    if r: "r \<in> set rs" "pos_atoms r \<noteq> []" "fires B (?db \<union> ?F) r \<sigma>" "\<forall>a\<in>set (pos_atoms r). inst \<sigma> a \<notin> ?F" for r \<sigma>
  proof -
    have f: "fires B ?db r \<sigma>" using r(3,4) by (auto simp: fires_def)
    show ?thesis
    proof (cases "\<exists>a\<in>set (pos_atoms r). inst \<sigma> a \<in> facts_of (fs_delta s)")
      case True
      then have "fires ?db ?db r \<sigma>" using f r(1) cong by blast
      then show ?thesis using True r(1) unfolding round_facts_def by blast
    next
      case False
      then show ?thesis using f r inv by (auto simp: fixpoint_inv_def)
    qed
  qed
  then show ?thesis using step sub F by (auto simp: fixpoint_inv_def)
qed

lemma fixpoint_inv_done:
  assumes "fixpoint_inv rs B s" "fs_done s"
  shows "facts_of (fs_db s) = least_model rs B"
proof
  show "least_model rs B \<subseteq> facts_of (fs_db s)"
    using assms by (intro least_model_least) (auto simp: fixpoint_inv_def derivations_def)
qed (use assms in \<open>simp add: fixpoint_inv_def\<close>)

section \<open>Termination\<close>

definition const_values :: "dl_rule list \<Rightarrow> dl_value set" where
  "const_values rs = {v. \<exists>r\<in>set rs. Const v \<in> set (terms (rule_head r))}"

text \<open>The facts that can be built from the predicates, arities and values at hand.\<close>

definition universe :: "dl_rule list \<Rightarrow> fact set \<Rightarrow> fact set" where
  "universe rs B =
     (fst ` B \<union> (predicate \<circ> rule_head) ` set rs) \<times>
     {t. set t \<subseteq> (\<Union>f\<in>B. set (snd f)) \<union> const_values rs \<and>
         length t \<in> (length \<circ> snd) ` B \<union> (arity \<circ> rule_head) ` set rs}"

lemma finite_const_values: "finite (const_values rs)"
proof -
  have "const_values rs = (\<Union>r\<in>set rs. {v. Const v \<in> set (terms (rule_head r))})" by (auto simp: const_values_def)
  moreover have "finite {v. Const v \<in> set ts}" for ts
    by (rule finite_subset [of _ "the ` const_value ` set ts"]) (auto simp: image_iff, force)
  ultimately show ?thesis by simp
qed

lemma finite_universe: "finite B \<Longrightarrow> finite (universe rs B)"
proof -
  assume B: "finite B"
  let ?L = "(length \<circ> snd) ` B \<union> (arity \<circ> rule_head) ` set rs" and ?V = "(\<Union>f\<in>B. set (snd f)) \<union> const_values rs"
  have fin: "finite ?L" "finite ?V" using B by (simp_all add: finite_const_values)
  have "{t. set t \<subseteq> ?V \<and> length t \<in> ?L} = (\<Union>n\<in>?L. {t. set t \<subseteq> ?V \<and> length t = n})" by auto
  moreover have "finite (\<Union>n\<in>?L. {t. set t \<subseteq> ?V \<and> length t = n})"
    by (intro finite_UN_I fin(1) finite_lists_length_eq fin(2))
  ultimately have "finite {t. set t \<subseteq> ?V \<and> length t \<in> ?L}" by (simp only:)
  then show ?thesis unfolding universe_def using B by (intro finite_cartesian_product) simp_all
qed

lemma least_model_universe:
  assumes "list_all rule_no_bound rs"
  shows "least_model rs B \<subseteq> universe rs B"
proof (rule least_model_least)
  show "B \<subseteq> universe rs B" by (auto simp: universe_def image_iff) force+
  show "derivations rs B (universe rs B) \<subseteq> universe rs B"
  proof
    fix f assume "f \<in> derivations rs B (universe rs B)"
    then obtain r \<sigma> where r: "r \<in> set rs" "fires B (universe rs B) r \<sigma>" "f = inst \<sigma> (rule_head r)"
      by (auto simp: derivations_def)
    let ?V = "(\<Union>f\<in>B. set (snd f)) \<union> const_values rs"
    have "inst_term \<sigma> t \<in> ?V" if t: "t \<in> set (terms (rule_head r))" for t
    proof (cases t)
      case (Var x)
      then have "x \<in> pos_vars r" using r(2) t by (force simp: fires_def vars_def)
      then obtain a u where a: "a \<in> set (pos_atoms r)" and u: "u \<in> set (terms a)" "x \<in> term_vars u"
        by (auto simp: pos_vars_def vars_def)
      have "u = Var x" using u(2) by (cases u) simp_all
      then have "\<sigma> x \<in> set (snd (inst \<sigma> a))" using u(1) by (force simp: inst_def)
      moreover have "inst \<sigma> a \<in> universe rs B" using r(2) a by (simp add: fires_def)
      ultimately show ?thesis using Var by (auto simp: universe_def)
    next
      case (Const v)
      then show ?thesis using r(1) t by (auto simp: const_values_def)
    next
      case (Bound x)
      have "no_bound_term t" using assms r(1) t by (simp add: list_all_iff rule_no_bound_def no_bound_def)
      then show ?thesis using Bound by simp
    qed
    then show "f \<in> universe rs B" using r(1,3) by (auto simp: universe_def inst_def arity_def)
  qed
qed

lemma finite_facts: "finite (facts_of db)"
proof -
  have "f \<in> (\<Union>e\<in>set db. Pair (fst (fst e)) ` set (snd e))" if f: "f \<in> facts_of db" for f
  proof -
    obtain p t where pt: "f = (p, t)" by (cases f)
    then obtain s where "map_of db (p, length t) = Some s" "t \<in> set s"
      using f by (cases "map_of db (p, length t)") (simp_all add: facts_of_def relation_of_def)
    then show ?thesis using pt by (force dest: map_of_SomeD)
  qed
  then have "facts_of db \<subseteq> (\<Union>e\<in>set db. Pair (fst (fst e)) ` set (snd e))" by blast
  then show ?thesis by (rule finite_subset) simp
qed

text \<open>The loop returns, and what it returns is the least model.\<close>

lemma seminaive_fixpoint_correct:
  assumes wf: "tables_wf db" and nb: "list_all rule_no_bound rs" and neg: "negation_closed rs"
  shows "\<exists>db' ticks'. seminaive_fixpoint rs db ticks = Some (db', ticks') \<and> tables_wf db' \<and>
    facts_of db' = least_model rs (facts_of db)"
proof -
  let ?B = "facts_of db" and ?init = "\<lparr>fs_db = db, fs_delta = db, fs_iter = 0, fs_ticks = ticks, fs_done = False\<rparr>"
  let ?m = "\<lambda>s. 2 * card (least_model rs ?B - facts_of (fs_db s)) + (if fs_done s then 0 else 1)"
  have fin: "finite (least_model rs ?B)"
    using least_model_universe [OF nb] finite_universe [OF finite_facts] by (rule finite_subset)
  have inv: "fixpoint_inv rs ?B s \<Longrightarrow> fixpoint_inv rs ?B (seminaive_step rs s)" for s
    using fixpoint_inv_step [OF _ nb neg] .
  have less: "?m (seminaive_step rs s) < ?m s" if s: "fixpoint_inv rs ?B s" "\<not> fs_done s" for s
  proof -
    let ?F = "round_facts rs (fs_db s) (fs_delta s)"
    note step = seminaive_step_facts [OF s(1) nb]
    have "facts_of (fs_db (seminaive_step rs s)) \<subseteq> least_model rs ?B"
      using inv [OF s(1)] by (simp add: fixpoint_inv_def)
    then have F: "?F \<subseteq> least_model rs ?B" "?F \<inter> facts_of (fs_db s) = {}"
      unfolding step(4) by blast (auto simp: round_facts_def)
    show ?thesis
    proof (cases "?F = {}")
      case True
      then show ?thesis using step s(2) by simp
    next
      case False
      then have "card (least_model rs ?B - (facts_of (fs_db s) \<union> ?F)) < card (least_model rs ?B - facts_of (fs_db s))"
        using F fin by (intro psubset_card_mono) auto
      then show ?thesis using step s(2) by simp
    qed
  qed
  have init: "fixpoint_inv rs ?B ?init" by (rule fixpoint_inv_init [OF wf])
  obtain s where s: "while_option (\<lambda>s. \<not> fs_done s) (seminaive_step rs) ?init = Some s"
    using measure_while_option_Some [of "fixpoint_inv rs ?B" "\<lambda>s. \<not> fs_done s" "seminaive_step rs" ?m ?init] inv less init
    by blast
  have "fixpoint_inv rs (facts_of db) s"
    by (rule while_option_rule [where P = "fixpoint_inv rs ?B", OF _ s init]) (rule inv)
  moreover have "fs_done s" using while_option_stop [OF s] by simp
  ultimately have "facts_of (fs_db s) = least_model rs ?B \<and> tables_wf (fs_db s)"
    by (simp add: fixpoint_inv_done) (simp add: fixpoint_inv_def)
  then show ?thesis using s by (simp add: seminaive_fixpoint_def)
qed

end
