(* ===== verification/Datalog_Strata.thy ===== *)
theory Datalog_Strata
  imports Datalog "HOL-Library.List_Lexorder" "HOL-Library.Char_ord"
begin

text \<open>
  \<^verbatim>\<open>crates/paideia-as-shell-datalog/src/stratification.rs\<close>: the stratifier (dependency graph, Tarjan's algorithm
  with an explicit stack, the lift of strata over the components), and the stratum-by-stratum evaluation of
  \<^verbatim>\<open>eval.rs\<close>.  Vectors used as stacks are lists with the top first.
\<close>

section \<open>Dependency graph\<close>

type_synonym dl_edge = "string \<times> string \<times> bool"

definition rule_edges :: "dl_rule \<Rightarrow> dl_edge list" where
  "rule_edges r = map (\<lambda>g. (predicate (goal_atom g), predicate (rule_head r), is_negated g)) (rule_body r)"

definition program_edges :: "dl_program \<Rightarrow> dl_edge list" where
  "program_edges p = concat (map rule_edges (rules p))"

definition program_preds :: "dl_program \<Rightarrow> string list" where
  "program_preds p =
     map predicate (program_facts p) @
     concat (map (\<lambda>r. predicate (rule_head r) # map (predicate \<circ> goal_atom) (rule_body r)) (rules p))"

definition pred_list :: "dl_program \<Rightarrow> string list" where
  "pred_list p = sort (remdups (program_preds p))"

definition pred_index :: "string list \<Rightarrow> string \<Rightarrow> nat" where
  "pred_index ps q = length (takeWhile (\<lambda>p. p \<noteq> q) ps)"

type_synonym adjacency = "(nat \<times> bool) list list"

definition build_adj :: "string list \<Rightarrow> dl_edge list \<Rightarrow> adjacency" where
  "build_adj ps es =
     fold (\<lambda>(src, tgt, neg) adj. adj[pred_index ps src := adj ! pred_index ps src @ [(pred_index ps tgt, neg)]])
       es (replicate (length ps) [])"

section \<open>Components\<close>

record tarjan =
  index_counter :: nat
  node_stack :: "nat list"
  on_stack :: "bool list"
  indices :: "nat option list"
  lowlinks :: "nat list"
  sccs :: "nat list list"
  frames :: "(nat \<times> nat) list"

definition tarjan_init :: "nat \<Rightarrow> tarjan" where
  "tarjan_init n =
     \<lparr>index_counter = 0, node_stack = [], on_stack = replicate n False, indices = replicate n None,
      lowlinks = replicate n 0, sccs = [], frames = []\<rparr>"

definition tarjan_visit :: "nat \<Rightarrow> tarjan \<Rightarrow> tarjan" where
  "tarjan_visit w s =
     s\<lparr>indices := (indices s)[w := Some (index_counter s)], lowlinks := (lowlinks s)[w := index_counter s],
       index_counter := index_counter s + 1, node_stack := w # node_stack s, on_stack := (on_stack s)[w := True],
       frames := (w, 0) # frames s\<rparr>"

text \<open>The loop that pops a component; the code panics on an empty stack, which does not occur.\<close>

fun pop_scc :: "nat \<Rightarrow> nat list \<Rightarrow> bool list \<Rightarrow> nat list \<Rightarrow> nat list \<times> nat list \<times> bool list" where
  "pop_scc v [] on scc = (scc, [], on)"
| "pop_scc v (w # st) on scc =
     (if w = v then (scc @ [w], st, on[w := False]) else pop_scc v st (on[w := False]) (scc @ [w]))"

fun index_of :: "nat option \<Rightarrow> nat" where
  "index_of (Some i) = i"
| "index_of None = 0"

definition lower :: "nat \<Rightarrow> nat \<Rightarrow> nat list \<Rightarrow> nat list" where
  "lower v l low = (if l < low ! v then low[v := l] else low)"

definition tarjan_step :: "adjacency \<Rightarrow> tarjan \<Rightarrow> tarjan" where
  "tarjan_step adj s =
     (case frames s of
        [] \<Rightarrow> s
      | (v, next_child) # fs \<Rightarrow>
          if next_child < length (adj ! v) then
            (let w = fst (adj ! v ! next_child);
                 s = s\<lparr>frames := (v, next_child + 1) # fs\<rparr>
             in if indices s ! w = None then tarjan_visit w s
                else if on_stack s ! w then s\<lparr>lowlinks := lower v (index_of (indices s ! w)) (lowlinks s)\<rparr>
                else s)
          else
            (let v_lowlink = lowlinks s ! v;
                 v_index = index_of (indices s ! v);
                 s = s\<lparr>frames := fs,
                       lowlinks := (case fs of [] \<Rightarrow> lowlinks s | (p, _) # _ \<Rightarrow> lower p v_lowlink (lowlinks s))\<rparr>
             in if v_lowlink = v_index then
                  (case pop_scc v (node_stack s) (on_stack s) [] of
                     (scc, st, on) \<Rightarrow> s\<lparr>node_stack := st, on_stack := on, sccs := sccs s @ [scc]\<rparr>)
                else s))"

definition tarjan_start :: "adjacency \<Rightarrow> nat \<Rightarrow> tarjan \<Rightarrow> tarjan option" where
  "tarjan_start adj start s =
     (if indices s ! start \<noteq> None then Some s
      else while_option (\<lambda>s. frames s \<noteq> []) (tarjan_step adj) (tarjan_visit start s))"

fun tarjan_from :: "adjacency \<Rightarrow> nat list \<Rightarrow> tarjan \<Rightarrow> tarjan option" where
  "tarjan_from adj [] s = Some s"
| "tarjan_from adj (v # vs) s =
     (case tarjan_start adj v s of None \<Rightarrow> None | Some s' \<Rightarrow> tarjan_from adj vs s')"

definition tarjan_sccs :: "nat \<Rightarrow> adjacency \<Rightarrow> nat list list option" where
  "tarjan_sccs n adj = map_option sccs (tarjan_from adj [0..<n] (tarjan_init n))"

section \<open>Strata\<close>

definition scc_of :: "nat \<Rightarrow> nat list list \<Rightarrow> nat list" where
  "scc_of n cs =
     fold (\<lambda>(i, scc) m. fold (\<lambda>node m. m[node := i]) scc m) (enumerate 0 cs) (replicate n 0)"

text \<open>The first component with a negated edge inside.\<close>

definition negative_scc :: "adjacency \<Rightarrow> nat list \<Rightarrow> bool" where
  "negative_scc adj scc =
     list_ex (\<lambda>node. list_ex (\<lambda>(target, negated).
        negated \<and> target \<in> set scc \<and> (1 < length scc \<or> length scc = 1 \<and> target = node)) (adj ! node)) scc"

definition add_scc_edge :: "nat list \<Rightarrow> nat \<Rightarrow> nat \<times> bool \<Rightarrow> ((nat \<times> nat) \<times> bool) list \<Rightarrow> ((nat \<times> nat) \<times> bool) list" where
  "add_scc_edge so u = (\<lambda>(v, negated) es.
     let su = so ! u; sv = so ! v
     in if su = sv then es
        else
          (let old = (case map_of es (su, sv) of Some b \<Rightarrow> b | None \<Rightarrow> False)
           in AList.update (su, sv) (if negated then True else old) es))"

definition scc_edges :: "nat list \<Rightarrow> adjacency \<Rightarrow> ((nat \<times> nat) \<times> bool) list" where
  "scc_edges so adj = fold (\<lambda>(u, adj_u). fold (add_scc_edge so u) adj_u) (enumerate 0 adj) []"

definition relax :: "(nat \<times> nat) \<times> bool \<Rightarrow> nat list \<times> bool \<Rightarrow> nat list \<times> bool" where
  "relax = (\<lambda>((su, sv), negated) (stratum, changed).
     let candidate = stratum ! su + (if negated then 1 else 0)
     in if stratum ! sv < candidate then (stratum[sv := candidate], True) else (stratum, changed))"

fun relax_passes :: "nat \<Rightarrow> ((nat \<times> nat) \<times> bool) list \<Rightarrow> nat list \<Rightarrow> nat list" where
  "relax_passes 0 es stratum = stratum"
| "relax_passes (Suc k) es stratum =
     (case fold relax es (stratum, False) of
        (stratum', changed) \<Rightarrow> if changed then relax_passes k es stratum' else stratum')"

datatype stratification_error = CycleThroughNegation "string list"

definition compute_strata :: "dl_program \<Rightarrow> (stratification_error + (string \<rightharpoonup> nat)) option" where
  "compute_strata p =
     (let ps = pred_list p;
          n = length ps;
          adj = build_adj ps (program_edges p)
      in case tarjan_sccs n adj of
           None \<Rightarrow> None
         | Some cs \<Rightarrow>
             (let so = scc_of n cs
              in case find (negative_scc adj) cs of
                   Some scc \<Rightarrow> Some (Inl (CycleThroughNegation (sort (map ((!) ps) scc))))
                 | None \<Rightarrow>
                     (let stratum = relax_passes (length cs) (scc_edges so adj) (replicate (length cs) 0)
                      in Some (Inr (map_of (map (\<lambda>(i, q). (q, stratum ! (so ! i))) (enumerate 0 ps)))))))"

section \<open>Evaluation\<close>

definition program_atoms :: "dl_program \<Rightarrow> dl_atom list" where
  "program_atoms p =
     program_facts p @ concat (map (\<lambda>r. rule_head r # map goal_atom (rule_body r)) (rules p))"

definition stratum_of :: "(string \<rightharpoonup> nat) \<Rightarrow> dl_rule \<Rightarrow> nat" where
  "stratum_of strata r = (case strata (predicate (rule_head r)) of Some s \<Rightarrow> s | None \<Rightarrow> 0)"

text \<open>The rules grouped by stratum, in ascending order.\<close>

definition rules_by_stratum :: "(string \<rightharpoonup> nat) \<Rightarrow> dl_rule list \<Rightarrow> dl_rule list list" where
  "rules_by_stratum strata rs =
     map (\<lambda>s. filter (\<lambda>r. stratum_of strata r = s) rs) (sort (remdups (map (stratum_of strata) rs)))"

text \<open>\<^verbatim>\<open>as_ground().expect(..)\<close>: \<open>None\<close> is the panic on a fact that is not ground.\<close>

fun seed_facts :: "dl_atom list \<Rightarrow> dl_tables \<Rightarrow> dl_tables option" where
  "seed_facts [] db = Some db"
| "seed_facts (a # as) db =
     (case as_ground a of None \<Rightarrow> None | Some t \<Rightarrow> seed_facts as (db_insert (predicate a) t db))"

fun run_strata :: "dl_rule list list \<Rightarrow> dl_tables \<Rightarrow> tick list \<Rightarrow> (dl_tables \<times> tick list) option" where
  "run_strata [] db ticks = Some (db, ticks)"
| "run_strata (rs # rss) db ticks =
     (case seminaive_fixpoint rs db ticks of
        None \<Rightarrow> None
      | Some (db', ticks') \<Rightarrow> run_strata rss db' ticks')"

definition emit_seed_tick :: "dl_tables \<Rightarrow> tick list \<Rightarrow> tick list" where
  "emit_seed_tick db ticks =
     (let total = total_tuple_count db in if 0 < total then ticks @ [(1, 0, total)] else ticks)"

text \<open>
  \<^verbatim>\<open>evaluate_stratified_with_session\<close>; \<^verbatim>\<open>evaluate_stratified\<close> is the case without session facts.  The outer
  \<open>None\<close> is a panic or a loop that does not end.
\<close>

definition evaluate_with_session ::
    "dl_program \<Rightarrow> dl_tables \<Rightarrow> tick list \<Rightarrow> (eval_error + dl_tables \<times> tick list) option" where
  "evaluate_with_session p session ticks =
     (case reject_all (program_atoms p) of
        Some e \<Rightarrow> Some (Inl e)
      | None \<Rightarrow>
          (case compute_strata p of
             None \<Rightarrow> None
           | Some (Inl (CycleThroughNegation cycle)) \<Rightarrow> Some (Inl (UnstratifiedNegation cycle))
           | Some (Inr strata) \<Rightarrow>
               (case seed_facts (program_facts p) [] of
                  None \<Rightarrow> None
                | Some db \<Rightarrow>
                    (let db = merge_into session db
                     in if rules p = [] then Some (Inr (db, emit_seed_tick db ticks))
                        else map_option Inr (run_strata (rules_by_stratum strata (rules p)) db ticks)))))"

definition evaluate_stratified :: "dl_program \<Rightarrow> tick list \<Rightarrow> (eval_error + dl_tables \<times> tick list) option" where
  "evaluate_stratified p ticks = evaluate_with_session p [] ticks"

end
