(* ===== verification/Datalog_Tarjan.thy ===== *)
theory Datalog_Tarjan
  imports Datalog_Strata
begin

text \<open>
  The invariant of the component search, \<^verbatim>\<open>tarjan_sccs\<close> of \<^verbatim>\<open>stratification.rs\<close>: the emitted components are
  disjoint and every edge that leaves one leads to an earlier one; and the measure that each step decreases.
\<close>

section \<open>The invariant\<close>

definition adj_ok :: "nat \<Rightarrow> adjacency \<Rightarrow> bool" where
  "adj_ok n adj \<longleftrightarrow> length adj = n \<and> (\<forall>u<n. \<forall>e\<in>set (adj ! u). fst e < n)"

definition idx :: "tarjan \<Rightarrow> nat \<Rightarrow> nat" where
  "idx s v = index_of (indices s ! v)"

definition emitted :: "tarjan \<Rightarrow> nat set" where
  "emitted s = set (concat (sccs s))"

lemma idx_update [simp]:
  "idx (s\<lparr>frames := f\<rparr>) = idx s" "idx (s\<lparr>lowlinks := l\<rparr>) = idx s" "idx (s\<lparr>node_stack := st\<rparr>) = idx s"
  "idx (s\<lparr>on_stack := os\<rparr>) = idx s" "idx (s\<lparr>sccs := cs\<rparr>) = idx s"
  by (simp_all add: idx_def fun_eq_iff)

lemma emitted_update [simp]:
  "emitted (s\<lparr>frames := f\<rparr>) = emitted s" "emitted (s\<lparr>lowlinks := l\<rparr>) = emitted s"
  "emitted (s\<lparr>node_stack := st\<rparr>) = emitted s" "emitted (s\<lparr>on_stack := os\<rparr>) = emitted s"
  "emitted (s\<lparr>sccs := cs\<rparr>) = set (concat cs)"
  by (simp_all add: emitted_def)

definition explored_ok :: "tarjan \<Rightarrow> nat \<Rightarrow> nat \<Rightarrow> bool" where
  "explored_ok s l w \<longleftrightarrow> w \<in> emitted s \<or> w \<in> set (node_stack s) \<and> l \<le> idx s w"

text \<open>
  The stack is cut by the nodes of the frames.  The nodes above a frame's node belong to it: their edges,
  and those of the frame's node that have been looked at, lead to emitted nodes or to nodes of the stack
  with an index not below the frame's low link, which is the index of a node at or below the frame's.
\<close>

definition segment_ok :: "adjacency \<Rightarrow> tarjan \<Rightarrow> nat \<Rightarrow> nat \<Rightarrow> nat list \<Rightarrow> nat list \<Rightarrow> bool" where
  "segment_ok adj s v c A R \<longleftrightarrow>
     (\<forall>x\<in>set A. \<forall>e\<in>set (adj ! x). explored_ok s (lowlinks s ! v) (fst e)) \<and>
     (\<forall>e\<in>set (take c (adj ! v)). explored_ok s (lowlinks s ! v) (fst e)) \<and>
     (\<exists>u\<in>set (v # R). lowlinks s ! v = idx s u)"

inductive chain :: "adjacency \<Rightarrow> tarjan \<Rightarrow> (nat \<times> nat) list \<Rightarrow> nat list \<Rightarrow> bool" for adj s where
  chain_Nil: "chain adj s [] []"
| chain_Cons: "chain adj s fs R \<Longrightarrow> segment_ok adj s v c A R \<Longrightarrow> chain adj s ((v, c) # fs) (A @ v # R)"

inductive_cases chain_NilE: "chain adj s [] S"
inductive_cases chain_ConsE: "chain adj s ((v, c) # fs) S"

definition stack_ordered :: "tarjan \<Rightarrow> bool" where
  "stack_ordered s \<longleftrightarrow> sorted_wrt (\<lambda>a b. idx s b < idx s a) (node_stack s)"

definition topological :: "adjacency \<Rightarrow> nat list list \<Rightarrow> bool" where
  "topological adj cs \<longleftrightarrow>
     (\<forall>i<length cs. \<forall>x\<in>set (cs ! i). \<forall>e\<in>set (adj ! x). \<exists>j\<le>i. fst e \<in> set (cs ! j))"

definition tarjan_inv :: "adjacency \<Rightarrow> nat \<Rightarrow> tarjan \<Rightarrow> bool" where
  "tarjan_inv adj n s \<longleftrightarrow>
     length (on_stack s) = n \<and> length (indices s) = n \<and> length (lowlinks s) = n \<and>
     distinct (node_stack s @ concat (sccs s)) \<and>
     (\<forall>v. v \<in> set (node_stack s) \<or> v \<in> emitted s \<longleftrightarrow> v < n \<and> indices s ! v \<noteq> None) \<and>
     (\<forall>v<n. on_stack s ! v \<longleftrightarrow> v \<in> set (node_stack s)) \<and>
     stack_ordered s \<and> (\<forall>v\<in>set (node_stack s). idx s v < index_counter s) \<and>
     chain adj s (frames s) (node_stack s) \<and> topological adj (sccs s)"

lemma tarjan_invD:
  assumes "tarjan_inv adj n s"
  shows "length (on_stack s) = n" "length (indices s) = n" "length (lowlinks s) = n"
    and "distinct (node_stack s)" "distinct (concat (sccs s))" "set (node_stack s) \<inter> emitted s = {}"
    and "\<And>v. v \<in> set (node_stack s) \<or> v \<in> emitted s \<longleftrightarrow> v < n \<and> indices s ! v \<noteq> None"
    and "\<And>v. v < n \<Longrightarrow> on_stack s ! v \<longleftrightarrow> v \<in> set (node_stack s)"
    and "stack_ordered s" "\<And>v. v \<in> set (node_stack s) \<Longrightarrow> idx s v < index_counter s"
    and "chain adj s (frames s) (node_stack s)" "topological adj (sccs s)"
  using assms by (auto simp: tarjan_inv_def emitted_def)

lemma tarjan_invI:
  assumes "length (on_stack s) = n" "length (indices s) = n" "length (lowlinks s) = n"
    and "distinct (node_stack s)" "distinct (concat (sccs s))" "set (node_stack s) \<inter> emitted s = {}"
    and "\<And>v. v \<in> set (node_stack s) \<or> v \<in> emitted s \<longleftrightarrow> v < n \<and> indices s ! v \<noteq> None"
    and "\<And>v. v < n \<Longrightarrow> on_stack s ! v \<longleftrightarrow> v \<in> set (node_stack s)"
    and "stack_ordered s" "\<And>v. v \<in> set (node_stack s) \<Longrightarrow> idx s v < index_counter s"
    and "chain adj s (frames s) (node_stack s)" "topological adj (sccs s)"
  shows "tarjan_inv adj n s"
  using assms by (simp add: tarjan_inv_def emitted_def)

section \<open>Preservation\<close>

lemma chain_subset: "chain adj s fs S \<Longrightarrow> fst ` set fs \<subseteq> set S"
  by (induction rule: chain.induct) auto

lemma explored_ok_mono:
  assumes "emitted s \<subseteq> emitted s'" "set (node_stack s) \<subseteq> set (node_stack s') \<union> emitted s'"
    and "\<And>x. x \<in> set (node_stack s) \<Longrightarrow> idx s' x = idx s x"
  shows "explored_ok s l w \<Longrightarrow> l' \<le> l \<Longrightarrow> explored_ok s' l' w"
  using assms by (auto simp: explored_ok_def)

lemma chain_mono:
  assumes "chain adj s fs R" "set R \<subseteq> set (node_stack s)"
    and mono: "emitted s \<subseteq> emitted s'" "set (node_stack s) \<subseteq> set (node_stack s') \<union> emitted s'"
      "\<And>x. x \<in> set (node_stack s) \<Longrightarrow> idx s' x = idx s x"
    and "\<And>v. v \<in> fst ` set fs \<Longrightarrow> lowlinks s' ! v = lowlinks s ! v"
  shows "chain adj s' fs R"
  using assms(1,2,6)
proof (induction rule: chain.induct)
  case (chain_Cons fs R v c A)
  have low: "lowlinks s' ! v = lowlinks s ! v" using chain_Cons.prems by simp
  have "explored_ok s' (lowlinks s ! v) w" if "explored_ok s (lowlinks s ! v) w" for w
    using explored_ok_mono [OF mono that] by simp
  moreover have "idx s' u = idx s u" if "u \<in> set (v # R)" for u
    using that chain_Cons.prems(1) mono(3) by auto
  ultimately have "segment_ok adj s' v c A R"
    using chain_Cons.hyps(2) unfolding segment_ok_def low by (metis)
  then show ?case using chain_Cons by (intro chain.chain_Cons) auto
qed (rule chain_Nil)

lemma visit_inv:
  assumes inv: "tarjan_inv adj n s" and w: "w < n" "indices s ! w = None"
  shows "tarjan_inv adj n (tarjan_visit w s)"
proof (rule tarjan_invI)
  let ?s = "tarjan_visit w s"
  note I = tarjan_invD [OF inv]
  have new: "w \<notin> set (node_stack s)" "w \<notin> emitted s" using I(7) [of w] w by auto
  have i: "idx ?s w = index_counter s" "\<And>x. x \<noteq> w \<Longrightarrow> idx ?s x = idx s x"
    using I w by (simp_all add: idx_def tarjan_visit_def)
  have keep: "\<And>x. x \<in> set (node_stack s) \<Longrightarrow> idx ?s x = idx s x" using i(2) new(1) by metis
  have e: "emitted ?s = emitted s" by (simp add: emitted_def tarjan_visit_def)
  have f: "frames ?s = (w, 0) # frames s" "node_stack ?s = w # node_stack s" "sccs ?s = sccs s"
    by (simp_all add: tarjan_visit_def)
  show "length (on_stack ?s) = n" "length (indices ?s) = n" "length (lowlinks ?s) = n" "topological adj (sccs ?s)"
    "distinct (node_stack ?s)" "distinct (concat (sccs ?s))" "set (node_stack ?s) \<inter> emitted ?s = {}"
    using I new by (simp_all add: tarjan_visit_def emitted_def)
  show "v \<in> set (node_stack ?s) \<or> v \<in> emitted ?s \<longleftrightarrow> v < n \<and> indices ?s ! v \<noteq> None" for v
    using I(2) I(7) [of v] w e by (cases "v = w") (simp_all add: tarjan_visit_def)
  show "on_stack ?s ! v \<longleftrightarrow> v \<in> set (node_stack ?s)" if "v < n" for v
    using I(1) I(8) [OF that] w by (cases "v = w") (simp_all add: tarjan_visit_def)
  have "sorted_wrt (\<lambda>a b. idx ?s b < idx ?s a) (node_stack s)"
    using I(9) keep unfolding stack_ordered_def by (auto intro: sorted_wrt_mono_rel [rotated])
  then show "stack_ordered ?s" using I(10) i(1) keep f by (simp add: stack_ordered_def)
  show "idx ?s v < index_counter ?s" if "v \<in> set (node_stack ?s)" for v
    using that I(10) [of v] i keep f by (cases "v = w") (auto simp: tarjan_visit_def)
  have "chain adj ?s (frames s) (node_stack s)"
  proof (rule chain_mono)
    show "lowlinks ?s ! v = lowlinks s ! v" if "v \<in> fst ` set (frames s)" for v
    proof -
      have "v \<noteq> w" using that chain_subset [OF I(11)] new by blast
      then show ?thesis by (simp add: tarjan_visit_def)
    qed
  qed (use I keep e f in auto)
  moreover have "segment_ok adj ?s w 0 [] (node_stack s)"
    using I w i by (simp add: segment_ok_def tarjan_visit_def)
  ultimately show "chain adj ?s (frames ?s) (node_stack ?s)"
    using chain_Cons [of adj ?s "frames s" "node_stack s" w 0 "[]"] f by simp
qed


text \<open>On an ordered stack, what has a smaller index lies further down.\<close>

lemma ordered_append:
  assumes "sorted_wrt (\<lambda>a b. idx s b < idx s a) (A @ v # R)"
  shows "x \<in> set A \<Longrightarrow> idx s v < idx s x" "x \<in> set R \<Longrightarrow> idx s x < idx s v"
    "u \<in> set (A @ v # R) \<Longrightarrow> idx s u \<le> idx s v \<Longrightarrow> u \<in> set (v # R)"
    "u \<in> set (A @ v # R) \<Longrightarrow> idx s v \<le> idx s u \<Longrightarrow> u \<in> set (A @ [v])"
  using assms by (force simp: sorted_wrt_append)+

lemma take_edges:
  "c < length xs \<Longrightarrow> set (take (Suc c) xs) = insert (xs ! c) (set (take c xs))"
  by (simp add: take_Suc_conv_app_nth)

text \<open>An edge that leads to a visited node: the top frame advances.\<close>

lemma advance_inv:
  assumes inv: "tarjan_inv adj n s" and fr: "frames s = (v, c) # fs" and c: "c < length (adj ! v)"
    and low: "low' = lowlinks s \<or> low' = (lowlinks s)[v := idx s w] \<and> idx s w < lowlinks s ! v \<and> w \<in> set (node_stack s)"
    and w: "w = fst (adj ! v ! c)" "w \<in> emitted s \<or> w \<in> set (node_stack s) \<and> low' ! v \<le> idx s w"
  shows "tarjan_inv adj n (s\<lparr>frames := (v, c + 1) # fs, lowlinks := low'\<rparr>)"
proof (rule tarjan_invI)
  let ?s = "s\<lparr>frames := (v, c + 1) # fs, lowlinks := low'\<rparr>"
  note I = tarjan_invD [OF inv]
  have same: "idx ?s = idx s" "emitted ?s = emitted s" by (simp_all add: idx_def emitted_def fun_eq_iff)
  obtain A R where S: "node_stack s = A @ v # R" and R: "chain adj s fs R" and seg: "segment_ok adj s v c A R"
    using I(11) fr by (auto elim: chain_ConsE)
  have v: "v < n" "v \<notin> set A" "v \<notin> set R" using I(4) I(7) [of v] S by auto
  have low_le: "low' ! v \<le> lowlinks s ! v" using low I(3) v(1) by auto
  have ord: "sorted_wrt (\<lambda>a b. idx s b < idx s a) (A @ v # R)" using I(9) S by (simp add: stack_ordered_def)
  show "chain adj ?s (frames ?s) (node_stack ?s)"
  proof -
    have "chain adj ?s fs R"
    proof (rule chain_mono [OF R])
      show "lowlinks ?s ! x = lowlinks s ! x" if "x \<in> fst ` set fs" for x
      proof -
        have "x \<noteq> v" using that chain_subset [OF R] v(3) by blast
        then show ?thesis using low by auto
      qed
    qed (use S same in auto)
    moreover have "segment_ok adj ?s v (c + 1) A R"
    proof -
      have mono: "explored_ok s l x \<Longrightarrow> l' \<le> l \<Longrightarrow> explored_ok ?s l' x" for l l' x
        by (rule explored_ok_mono) (simp_all add: same)
      have "explored_ok ?s (low' ! v) (fst e)" if "e \<in> set (take (Suc c) (adj ! v))" for e
        using that seg w mono low_le c by (auto simp: take_edges segment_ok_def explored_ok_def same)
      moreover have "explored_ok ?s (low' ! v) (fst e)" if "x \<in> set A" "e \<in> set (adj ! x)" for x e
      proof -
        have "explored_ok s (lowlinks s ! v) (fst e)" using that seg by (simp add: segment_ok_def)
        then show ?thesis using mono low_le by blast
      qed
      moreover have "\<exists>u\<in>set (v # R). low' ! v = idx s u"
      proof (cases "low' = lowlinks s")
        case True
        then show ?thesis using seg by (simp add: segment_ok_def)
      next
        case False
        then have l: "low' ! v = idx s w" "idx s w < lowlinks s ! v" "w \<in> set (node_stack s)"
          using low I(3) v(1) by auto
        obtain u where "u \<in> set (v # R)" "lowlinks s ! v = idx s u" using seg by (auto simp: segment_ok_def)
        then have "idx s w \<le> idx s v" using l(2) ordered_append(2) [OF ord, of u] by auto
        then have "w \<in> set (v # R)" using ordered_append(3) [OF ord] l(3) S by auto
        then show ?thesis using l(1) by blast
      qed
      ultimately show ?thesis by (simp add: segment_ok_def same)
    qed
    ultimately show ?thesis using chain_Cons [of adj ?s fs R v "c + 1" A] S by simp
  qed
  show "stack_ordered ?s" using I(9) by (simp add: stack_ordered_def same)
qed (use tarjan_invD [OF inv] low in \<open>auto simp: idx_def emitted_def\<close>)


text \<open>The top frame is finished and not a root: its segment joins that of the frame below.\<close>

lemma lower_nth: "p < length low \<Longrightarrow> lower p l low ! x = (if x = p then min l (low ! p) else low ! x)"
  by (auto simp: lower_def min_def)

lemma merge_segments:
  assumes ord: "sorted_wrt (\<lambda>a b. idx s b < idx s a) (A @ v # A' @ p # R')"
    and seg: "segment_ok adj s v c A (A' @ p # R')" "segment_ok adj s p c' A' R'" and c: "length (adj ! v) \<le> c"
    and same: "idx s' = idx s" "emitted s' = emitted s" "node_stack s' = node_stack s"
    and low: "lowlinks s' ! p = min (lowlinks s ! v) (lowlinks s ! p)"
  shows "segment_ok adj s' p c' (A @ v # A') R'"
proof -
  let ?l = "min (lowlinks s ! v) (lowlinks s ! p)"
  have mono: "explored_ok s l x \<Longrightarrow> ?l \<le> l \<Longrightarrow> explored_ok s' ?l x" for l x
    using explored_ok_mono [of s s'] same by simp
  have all: "take c (adj ! v) = adj ! v" using c by simp
  have "explored_ok s' ?l (fst e)" if "x \<in> set (A @ v # A')" "e \<in> set (adj ! x)" for x e
  proof -
    have "explored_ok s (lowlinks s ! v) (fst e) \<or> explored_ok s (lowlinks s ! p) (fst e)"
      using that seg all by (auto simp: segment_ok_def)
    then show ?thesis using mono by (auto simp: min.coboundedI1)
  qed
  moreover have "explored_ok s' ?l (fst e)" if "e \<in> set (take c' (adj ! p))" for e
    using that seg(2) mono by (auto simp: segment_ok_def)
  moreover have "\<exists>u\<in>set (p # R'). ?l = idx s u"
  proof (cases "lowlinks s ! v < lowlinks s ! p")
    case True
    obtain u where u: "u \<in> set (v # A' @ p # R')" "lowlinks s ! v = idx s u" using seg(1) by (auto simp: segment_ok_def)
    obtain u' where u': "u' \<in> set (p # R')" "lowlinks s ! p = idx s u'" using seg(2) by (auto simp: segment_ok_def)
    have ord': "sorted_wrt (\<lambda>a b. idx s b < idx s a) ((A @ v # A') @ p # R')" using ord by simp
    have "idx s u \<le> idx s p" using True u(2) u' ordered_append(2) [OF ord', of u'] by auto
    then have "u \<in> set (p # R')" using ordered_append(3) [OF ord', of u] u(1) by auto
    then show ?thesis using True u(2) by (auto simp: min_def)
  next
    case False
    then show ?thesis using seg(2) by (auto simp: segment_ok_def min_def)
  qed
  ultimately show ?thesis by (simp add: segment_ok_def low same)
qed

lemma finish_inv:
  assumes inv: "tarjan_inv adj n s" and fr: "frames s = (v, c) # fs" and c: "length (adj ! v) \<le> c"
    and root: "lowlinks s ! v \<noteq> idx s v"
  defines "low' \<equiv> (case fs of [] \<Rightarrow> lowlinks s | (p, _) # _ \<Rightarrow> lower p (lowlinks s ! v) (lowlinks s))"
  shows "tarjan_inv adj n (s\<lparr>frames := fs, lowlinks := low'\<rparr>)"
proof (rule tarjan_invI)
  let ?s = "s\<lparr>frames := fs, lowlinks := low'\<rparr>"
  note I = tarjan_invD [OF inv]
  have same: "idx ?s = idx s" "emitted ?s = emitted s" "node_stack ?s = node_stack s"
    by (simp_all add: idx_def emitted_def fun_eq_iff)
  obtain A R where S: "node_stack s = A @ v # R" and R: "chain adj s fs R" and seg: "segment_ok adj s v c A R"
    using I(11) fr by (auto elim: chain_ConsE)
  have "fs \<noteq> []" using R seg root by (auto simp: segment_ok_def elim: chain_NilE)
  then obtain p cp fs' where fs: "fs = (p, cp) # fs'" by (cases fs) auto
  obtain A' R' where R': "R = A' @ p # R'" "chain adj s fs' R'" "segment_ok adj s p cp A' R'"
    using R fs by (auto elim: chain_ConsE)
  have p: "p < n" "p \<notin> set R'" using I(4) I(7) [of p] S R'(1) by auto
  have low: "low' = lower p (lowlinks s ! v) (lowlinks s)" by (simp add: low'_def fs)
  have "chain adj ?s fs' R'"
  proof (rule chain_mono [OF R'(2)])
    show "lowlinks ?s ! x = lowlinks s ! x" if "x \<in> fst ` set fs'" for x
    proof -
      have "x \<noteq> p" using that chain_subset [OF R'(2)] p(2) by blast
      then show ?thesis using p(1) I(3) by (simp add: low lower_nth)
    qed
  qed (use S R'(1) same in auto)
  moreover have "segment_ok adj ?s p cp (A @ v # A') R'"
    using I(9) seg R'(3) c p(1) I(3) S R'(1)
    by (intro merge_segments [where s = s and c = c]) (simp_all add: same stack_ordered_def low lower_nth)
  ultimately show "chain adj ?s (frames ?s) (node_stack ?s)"
    using chain_Cons [of adj ?s fs' R' p cp "A @ v # A'"] S R'(1) fs by simp
  show "stack_ordered ?s" using I(9) by (simp add: stack_ordered_def same)
  show "length (lowlinks ?s) = n" using I(3) by (simp add: low lower_def)
qed (use tarjan_invD [OF inv] in \<open>auto simp: idx_def emitted_def\<close>)

text \<open>The top frame is a root: its segment becomes a component.\<close>

lemma pop_scc_append:
  "v \<notin> set A \<Longrightarrow> pop_scc v (A @ v # R) on acc = (acc @ A @ [v], R, fold (\<lambda>w on. on[w := False]) (A @ [v]) on)"
  by (induction A arbitrary: on acc) auto

lemma clear_nth: "x < length on \<Longrightarrow> fold (\<lambda>w on. on[w := False]) ws on ! x \<longleftrightarrow> on ! x \<and> x \<notin> set ws"
proof (induction ws arbitrary: on)
  case (Cons a ws)
  then show ?case by (cases "a = x") simp_all
qed simp

lemma clear_length [simp]: "length (fold (\<lambda>w on. on[w := False]) ws on) = length on"
  by (induction ws arbitrary: on) auto

lemma topological_snoc:
  assumes "topological adj cs" "\<And>x e. x \<in> set c \<Longrightarrow> e \<in> set (adj ! x) \<Longrightarrow> fst e \<in> set (concat cs) \<or> fst e \<in> set c"
  shows "topological adj (cs @ [c])"
  unfolding topological_def
proof (intro allI impI ballI)
  fix i x e assume i: "i < length (cs @ [c])" and x: "x \<in> set ((cs @ [c]) ! i)" and e: "e \<in> set (adj ! x)"
  show "\<exists>j\<le>i. fst e \<in> set ((cs @ [c]) ! j)"
  proof (cases "i < length cs")
    case True
    then have "\<exists>j\<le>i. fst e \<in> set (cs ! j)" using assms(1) x e by (simp add: topological_def nth_append)
    then show ?thesis using True by (auto simp: nth_append intro: le_less_trans)
  next
    case False
    then have "i = length cs" using i by simp
    moreover from this have "fst e \<in> set (concat cs) \<or> fst e \<in> set c" using assms(2) x e by simp
    ultimately show ?thesis
    proof (elim disjE)
      assume "fst e \<in> set (concat cs)"
      then obtain j where "j < length cs" "fst e \<in> set (cs ! j)" by (auto simp: in_set_conv_nth [of _ cs])
      then show ?thesis using \<open>i = length cs\<close> by (auto simp: nth_append intro!: exI [of _ j])
    next
      assume "fst e \<in> set c"
      then show ?thesis using \<open>i = length cs\<close> by (auto intro!: exI [of _ i])
    qed
  qed
qed

lemma root_inv:
  assumes inv: "tarjan_inv adj n s" and fr: "frames s = (v, c) # fs" and c: "length (adj ! v) \<le> c"
    and root: "lowlinks s ! v = idx s v"
    and pop: "pop_scc v (node_stack s) (on_stack s) [] = (scc, st, on)"
  defines "low' \<equiv> (case fs of [] \<Rightarrow> lowlinks s | (p, _) # _ \<Rightarrow> lower p (lowlinks s ! v) (lowlinks s))"
  shows "tarjan_inv adj n (s\<lparr>frames := fs, lowlinks := low', node_stack := st, on_stack := on, sccs := sccs s @ [scc]\<rparr>)"
proof (rule tarjan_invI)
  let ?s = "s\<lparr>frames := fs, lowlinks := low', node_stack := st, on_stack := on, sccs := sccs s @ [scc]\<rparr>"
  note I = tarjan_invD [OF inv]
  obtain A R where S: "node_stack s = A @ v # R" and R: "chain adj s fs R" and seg: "segment_ok adj s v c A R"
    using I(11) fr by (auto elim: chain_ConsE)
  have v: "v < n" "v \<notin> set A" "v \<notin> set R" using I(4) I(7) [of v] S by auto
  have ord: "sorted_wrt (\<lambda>a b. idx s b < idx s a) (A @ v # R)" using I(9) S by (simp add: stack_ordered_def)
  have scc: "scc = A @ [v]" "st = R" "on = fold (\<lambda>w on. on[w := False]) (A @ [v]) (on_stack s)"
    using pop unfolding S pop_scc_append [OF v(2)] by auto
  have idx: "idx ?s = idx s" and em: "emitted ?s = emitted s \<union> set (A @ [v])"
    by (simp_all add: scc) (simp add: emitted_def)
  have low: "low' = lowlinks s"
  proof (cases fs)
    case (Cons f fs')
    obtain p cp where f: "f = (p, cp)" by (cases f)
    obtain A' R' where R': "R = A' @ p # R'" "segment_ok adj s p cp A' R'"
      using R Cons f by (auto elim: chain_ConsE)
    then obtain u where "u \<in> set R" "lowlinks s ! p = idx s u" by (auto simp: segment_ok_def)
    then have "lowlinks s ! p < lowlinks s ! v" using root ordered_append(2) [OF ord] by simp
    then show ?thesis by (simp add: low'_def Cons f lower_def)
  qed (simp add: low'_def)
  have "chain adj ?s fs R" by (rule chain_mono [OF R]) (use S scc em idx low in auto)
  then show "chain adj ?s (frames ?s) (node_stack ?s)" by (simp add: scc)
  show "topological adj (sccs ?s)"
  proof -
    have "fst e \<in> emitted s \<or> fst e \<in> set (A @ [v])" if "x \<in> set (A @ [v])" "e \<in> set (adj ! x)" for x e
    proof -
      have "take c (adj ! v) = adj ! v" using c by simp
      then have "explored_ok s (idx s v) (fst e)" using that seg root by (auto simp: segment_ok_def)
      then show ?thesis using ordered_append(4) [OF ord, of "fst e"] S by (auto simp: explored_ok_def)
    qed
    then have "topological adj (sccs s @ [A @ [v]])" by (intro topological_snoc [OF I(12)]) (simp add: emitted_def)
    then show ?thesis by (simp add: scc)
  qed
  show "stack_ordered ?s" using ord by (simp add: stack_ordered_def idx scc sorted_wrt_append)
  show "on_stack ?s ! x \<longleftrightarrow> x \<in> set (node_stack ?s)" if "x < n" for x
    using I(1) I(8) [OF that] that S I(4) by (simp add: scc clear_nth del: fold_append) (auto simp: clear_nth)
  show "x \<in> set (node_stack ?s) \<or> x \<in> emitted ?s \<longleftrightarrow> x < n \<and> indices ?s ! x \<noteq> None" for x
    using I(7) [of x] S em by (auto simp: scc)
  show "set (node_stack ?s) \<inter> emitted ?s = {}" using I(4,6) S em by (auto simp: scc)
  show "distinct (concat (sccs ?s))" using I(4,5,6) S by (auto simp: scc emitted_def)
  show "length (on_stack ?s) = n" using I(1) by (simp add: scc)
  show "distinct (node_stack ?s)" using I(4) S by (simp add: scc)
  show "idx ?s x < index_counter ?s" if "x \<in> set (node_stack ?s)" for x
    using that I(10) S by (simp add: scc idx)
qed (use tarjan_invD(1-3) [OF inv] in \<open>auto simp: low'_def lower_def split: list.splits\<close>)


text \<open>An edge that leads to a new node: the frame advances and the node is visited.\<close>

lemma visit_child_inv:
  assumes inv: "tarjan_inv adj n s" and fr: "frames s = (v, c) # fs" and c: "c < length (adj ! v)"
    and w: "w = fst (adj ! v ! c)" "w < n" "indices s ! w = None"
  shows "tarjan_inv adj n (tarjan_visit w (s\<lparr>frames := (v, c + 1) # fs\<rparr>))"
proof -
  let ?t = "tarjan_visit w s" and ?s = "tarjan_visit w (s\<lparr>frames := (v, c + 1) # fs\<rparr>)"
  have s: "?s = ?t\<lparr>frames := (w, 0) # (v, c + 1) # fs\<rparr>" by (simp add: tarjan_visit_def)
  have t: "tarjan_inv adj n ?t" by (rule visit_inv [OF inv w(2,3)])
  note I = tarjan_invD [OF t]
  have S: "frames ?t = (w, 0) # (v, c) # fs" "node_stack ?t = w # node_stack s" by (simp_all add: tarjan_visit_def fr)
  have new: "w \<notin> set (node_stack s)" using I(4) S by simp
  obtain A0 R0 where A0: "node_stack ?t = A0 @ w # R0" "chain adj ?t ((v, c) # fs) R0" "segment_ok adj ?t w 0 A0 R0"
    using I(11) unfolding S(1) by (rule chain_ConsE)
  have "A0 = [] \<and> R0 = node_stack s" using A0(1) new unfolding S(2) by (auto simp: Cons_eq_append_conv)
  then have ch: "chain adj ?t ((v, c) # fs) (node_stack s)" and sw: "segment_ok adj ?t w 0 [] (node_stack s)"
    using A0(2,3) by simp_all
  obtain A R where R: "node_stack s = A @ v # R" "chain adj ?t fs R" "segment_ok adj ?t v c A R"
    using ch by (auto elim: chain_ConsE)
  obtain u where u: "u \<in> set (v # R)" "lowlinks ?t ! v = idx ?t u" using R(3) by (auto simp: segment_ok_def)
  have "idx ?t u < idx ?t w" using I(9) S u(1) R(1) by (auto simp: stack_ordered_def)
  then have "explored_ok ?t (lowlinks ?t ! v) w" using S u(2) by (simp add: explored_ok_def)
  then have seg: "segment_ok adj ?t v (c + 1) A R" using R(3) w(1) c by (auto simp: segment_ok_def take_edges)
  have "chain adj ?t ((v, c + 1) # fs) (node_stack s)" using chain_Cons [OF R(2) seg] R(1) by simp
  then have "chain adj ?t ((w, 0) # (v, c + 1) # fs) (node_stack ?t)"
    using chain_Cons [OF _ sw] S(2) by simp
  then have "chain adj (?t\<lparr>frames := (w, 0) # (v, c + 1) # fs\<rparr>) ((w, 0) # (v, c + 1) # fs) (node_stack ?t)"
    by (rule chain_mono) simp_all
  then show ?thesis
    using t unfolding s by (simp add: tarjan_inv_def stack_ordered_def)
qed

section \<open>The search\<close>

lemma root_step:
  assumes "frames s = (v, c) # fs" "length (adj ! v) \<le> c" "lowlinks s ! v = idx s v"
    and "pop_scc v (node_stack s) (on_stack s) [] = (scc, st, on)"
  shows "tarjan_step adj s = s\<lparr>frames := fs,
    lowlinks := case fs of [] \<Rightarrow> lowlinks s | (p, _) # _ \<Rightarrow> lower p (lowlinks s ! v) (lowlinks s),
    node_stack := st, on_stack := on, sccs := sccs s @ [scc]\<rparr>"
  using assms by (cases fs) (simp_all add: tarjan_step_def Let_def idx_def split: prod.split)

lemma step_inv:
  assumes adj: "adj_ok n adj" and inv: "tarjan_inv adj n s"
  shows "tarjan_inv adj n (tarjan_step adj s)"
proof (cases "frames s")
  case Nil
  then show ?thesis using inv by (simp add: tarjan_step_def)
next
  case (Cons f fs)
  obtain v c where f: "frames s = (v, c) # fs" using Cons by (cases f) simp
  note I = tarjan_invD [OF inv]
  have v: "v \<in> set (node_stack s)" using chain_subset [OF I(11)] f by auto
  then have vn: "v < n" using I(7) by blast
  show ?thesis
  proof (cases "c < length (adj ! v)")
    case True
    let ?w = "fst (adj ! v ! c)"
    have w: "?w < n" using adj vn True by (auto simp: adj_ok_def)
    show ?thesis
    proof (cases "indices s ! ?w")
      case None
      then show ?thesis using visit_child_inv [OF inv f True refl w] f True by (simp add: tarjan_step_def Let_def)
    next
      case (Some i)
      then have vis: "?w \<in> set (node_stack s) \<or> ?w \<in> emitted s" using I(7) w by blast
      have on: "on_stack s ! ?w \<longleftrightarrow> ?w \<in> set (node_stack s)" using I(8) w by blast
      have "tarjan_step adj s = s\<lparr>frames := (v, c + 1) # fs,
          lowlinks := if ?w \<in> set (node_stack s) then lower v (idx s ?w) (lowlinks s) else lowlinks s\<rparr>"
        using f True Some on by (simp add: tarjan_step_def Let_def idx_def)
      also have "tarjan_inv adj n \<dots>"
        using vis I(3) vn by (intro advance_inv [OF inv f True _ refl]) (auto simp: lower_def)
      finally show ?thesis .
    qed
  next
    case False
    then have c: "length (adj ! v) \<le> c" by simp
    show ?thesis
    proof (cases "lowlinks s ! v = idx s v")
      case True
      obtain scc st on where p: "pop_scc v (node_stack s) (on_stack s) [] = (scc, st, on)"
        by (cases "pop_scc v (node_stack s) (on_stack s) []")
      show ?thesis using root_inv [OF inv f c True p] root_step [OF f c True p] by simp
    next
      case False
      then show ?thesis using finish_inv [OF inv f c False] f c by (simp add: tarjan_step_def Let_def idx_def)
    qed
  qed
qed


text \<open>Every step visits a node, looks at an edge or removes a frame.\<close>

definition work :: "adjacency \<Rightarrow> nat \<Rightarrow> tarjan \<Rightarrow> nat" where
  "work adj n s =
     (\<Sum>v | v < n \<and> indices s ! v = None. length (adj ! v) + 2) +
     sum_list (map (\<lambda>(v, c). length (adj ! v) - c + 1) (frames s))"

lemma work_visit:
  assumes "w < n" "indices s ! w = None" "length (indices s) = n"
  shows "work adj n (tarjan_visit w s) + 1 = work adj n s"
proof -
  let ?U = "{v. v < n \<and> indices s ! v = None}"
  have "{v. v < n \<and> indices (tarjan_visit w s) ! v = None} = ?U - {w}"
    using assms by (auto simp: tarjan_visit_def nth_list_update)
  moreover have "(\<Sum>v\<in>?U. length (adj ! v) + 2) = (length (adj ! w) + 2) + (\<Sum>v\<in>?U - {w}. length (adj ! v) + 2)"
    using assms by (intro sum.remove) auto
  ultimately show ?thesis by (simp add: work_def) (simp add: tarjan_visit_def)
qed

lemma step_work:
  assumes inv: "tarjan_inv adj n s" and adj: "adj_ok n adj" and fr: "frames s \<noteq> []"
  shows "work adj n (tarjan_step adj s) < work adj n s"
proof -
  obtain v c fs where f: "frames s = (v, c) # fs" using fr by (cases "frames s") auto
  note I = tarjan_invD [OF inv]
  have v: "v < n" using chain_subset [OF I(11)] I(7) [of v] f by auto
  show ?thesis
  proof (cases "c < length (adj ! v)")
    case True
    let ?w = "fst (adj ! v ! c)" and ?s = "s\<lparr>frames := (v, c + 1) # fs\<rparr>"
    have w: "?w < n" using adj v True by (auto simp: adj_ok_def)
    have less: "work adj n ?s < work adj n s" using f True by (simp add: work_def)
    show ?thesis
    proof (cases "indices s ! ?w")
      case None
      then have "work adj n (tarjan_visit ?w ?s) + 1 = work adj n ?s" using w I(2) by (intro work_visit) simp_all
      then show ?thesis using less None f True by (simp add: tarjan_step_def Let_def)
    next
      case (Some i)
      then show ?thesis using less f True by (simp add: tarjan_step_def Let_def work_def)
    qed
  next
    case False
    then show ?thesis using f by (simp add: tarjan_step_def Let_def work_def split: prod.split)
  qed
qed

end
