(* ===== verification/Datalog_Components.thy ===== *)
theory Datalog_Components
  imports Datalog_Tarjan
begin

text \<open>
  The components found by the search are strongly connected.
\<close>

section \<open>Reachability\<close>

definition edge_rel :: "adjacency \<Rightarrow> (nat \<times> nat) set" where
  "edge_rel adj = {(u, w). w \<in> fst ` set (adj ! u)}"

abbreviation reaches :: "adjacency \<Rightarrow> nat \<Rightarrow> nat \<Rightarrow> bool" where
  "reaches adj u w \<equiv> (u, w) \<in> (edge_rel adj)\<^sup>*"

definition strongly_connected :: "adjacency \<Rightarrow> nat list \<Rightarrow> bool" where
  "strongly_connected adj c \<longleftrightarrow> (\<forall>x\<in>set c. \<forall>y\<in>set c. reaches adj x y)"

definition reach_inv :: "adjacency \<Rightarrow> tarjan \<Rightarrow> bool" where
  "reach_inv adj s \<longleftrightarrow>
     (\<forall>v\<in>fst ` set (frames s). \<forall>x\<in>set (node_stack s). idx s v \<le> idx s x \<longrightarrow> reaches adj v x) \<and>
     (\<forall>x\<in>set (node_stack s). x \<notin> fst ` set (frames s) \<longrightarrow>
        (\<exists>y\<in>set (node_stack s). idx s y < idx s x \<and> reaches adj x y)) \<and>
     (\<forall>v\<in>fst ` set (frames s). \<exists>u\<in>set (node_stack s). lowlinks s ! v = idx s u \<and> reaches adj v u) \<and>
     (\<forall>c\<in>set (sccs s). strongly_connected adj c)"

lemma reach_invD:
  assumes "reach_inv adj s"
  shows "\<And>v x. v \<in> fst ` set (frames s) \<Longrightarrow> x \<in> set (node_stack s) \<Longrightarrow> idx s v \<le> idx s x \<Longrightarrow> reaches adj v x"
    and "\<And>x. x \<in> set (node_stack s) \<Longrightarrow> x \<notin> fst ` set (frames s) \<Longrightarrow>
      \<exists>y\<in>set (node_stack s). idx s y < idx s x \<and> reaches adj x y"
    and "\<And>v. v \<in> fst ` set (frames s) \<Longrightarrow> \<exists>u\<in>set (node_stack s). lowlinks s ! v = idx s u \<and> reaches adj v u"
    and "\<And>c. c \<in> set (sccs s) \<Longrightarrow> strongly_connected adj c"
  using assms unfolding reach_inv_def by blast+

lemma reach_invI:
  assumes "\<And>v x. v \<in> fst ` set (frames s) \<Longrightarrow> x \<in> set (node_stack s) \<Longrightarrow> idx s v \<le> idx s x \<Longrightarrow> reaches adj v x"
    and "\<And>x. x \<in> set (node_stack s) \<Longrightarrow> x \<notin> fst ` set (frames s) \<Longrightarrow>
      \<exists>y\<in>set (node_stack s). idx s y < idx s x \<and> reaches adj x y"
    and "\<And>v. v \<in> fst ` set (frames s) \<Longrightarrow> \<exists>u\<in>set (node_stack s). lowlinks s ! v = idx s u \<and> reaches adj v u"
    and "\<And>c. c \<in> set (sccs s) \<Longrightarrow> strongly_connected adj c"
  shows "reach_inv adj s"
  using assms unfolding reach_inv_def by blast

lemma edge_reaches: "e \<in> set (adj ! v) \<Longrightarrow> reaches adj v (fst e)"
  by (auto simp: edge_rel_def)

lemma chain_low:
  assumes "chain adj s fs S" "sorted_wrt (\<lambda>a b. idx s b < idx s a) S" "v \<in> fst ` set fs"
  shows "lowlinks s ! v \<le> idx s v"
  using assms
proof (induction rule: chain.induct)
  case (chain_Cons fs R w c A)
  have "sorted_wrt (\<lambda>a b. idx s b < idx s a) R" using chain_Cons.prems by (simp add: sorted_wrt_append)
  moreover have "lowlinks s ! w \<le> idx s w"
    using chain_Cons.hyps(2) ordered_append(2) [OF chain_Cons.prems(1)]
    by (auto simp: segment_ok_def intro: less_imp_le)
  ultimately show ?case using chain_Cons by auto
qed simp

lemma closed_reaches:
  assumes "reaches adj x y" "x \<in> X" "\<And>u e. u \<in> X \<Longrightarrow> e \<in> set (adj ! u) \<Longrightarrow> fst e \<in> X"
  shows "y \<in> X"
  using assms(1,2) by (induction rule: rtrancl_induct) (use assms(3) in \<open>auto simp: edge_rel_def\<close>)

section \<open>Preservation\<close>

lemma visit_reach:
  assumes inv: "tarjan_inv adj n s" "reach_inv adj s" and w: "w < n" "indices s ! w = None"
    and parent: "\<And>v. v \<in> fst ` set (frames s) \<Longrightarrow> reaches adj v w"
  shows "reach_inv adj (tarjan_visit w s)"
proof -
  let ?s = "tarjan_visit w s"
  note I = tarjan_invD [OF inv(1)] and R = reach_invD [OF inv(2)]
  have new: "w \<notin> set (node_stack s)" using I(7) [of w] w by auto
  have fr: "fst ` set (frames s) \<subseteq> set (node_stack s)" by (rule chain_subset [OF I(11)])
  have i: "idx ?s w = index_counter s" "\<And>x. x \<noteq> w \<Longrightarrow> idx ?s x = idx s x"
    using I w by (simp_all add: idx_def tarjan_visit_def)
  have keep: "\<And>x. x \<in> set (node_stack s) \<Longrightarrow> idx ?s x = idx s x" using i(2) new by metis
  have low: "lowlinks ?s ! w = index_counter s" "\<And>x. x \<noteq> w \<Longrightarrow> lowlinks ?s ! x = lowlinks s ! x"
    using I(3) w(1) by (simp_all add: tarjan_visit_def)
  have f: "frames ?s = (w, 0) # frames s" "node_stack ?s = w # node_stack s" "sccs ?s = sccs s"
    by (simp_all add: tarjan_visit_def)
  show ?thesis
  proof (rule reach_invI)
    show "reaches adj v x" if "v \<in> fst ` set (frames ?s)" "x \<in> set (node_stack ?s)" "idx ?s v \<le> idx ?s x" for v x
    proof (cases "v = w")
      case True
      have "x = w" using that True i(1) keep I(10) f(2) by force
      then show ?thesis using True by simp
    next
      case False
      then have v: "v \<in> fst ` set (frames s)" using that f(1) by auto
      then have "idx ?s v = idx s v" using keep fr by blast
      then show ?thesis using v that(2,3) parent keep [of x] R(1) [OF v, of x] f(2) by (cases "x = w") simp_all
    qed
    show "\<exists>y\<in>set (node_stack ?s). idx ?s y < idx ?s x \<and> reaches adj x y"
      if "x \<in> set (node_stack ?s)" "x \<notin> fst ` set (frames ?s)" for x
      using that R(2) [of x] keep f by auto
    show "\<exists>u\<in>set (node_stack ?s). lowlinks ?s ! v = idx ?s u \<and> reaches adj v u" if "v \<in> fst ` set (frames ?s)" for v
    proof (cases "v = w")
      case True
      then show ?thesis using low i f(2) by auto
    next
      case False
      then show ?thesis using that R(3) [of v] keep low f by auto
    qed
    show "strongly_connected adj c" if "c \<in> set (sccs ?s)" for c using that R(4) f(3) by simp
  qed
qed

lemma advance_reach:
  assumes inv: "tarjan_inv adj n s" "reach_inv adj s" and fr: "frames s = (v, c) # fs" and c: "c < length (adj ! v)"
    and low: "low' = lowlinks s \<or> low' = (lowlinks s)[v := idx s (fst (adj ! v ! c))] \<and> fst (adj ! v ! c) \<in> set (node_stack s)"
  shows "reach_inv adj (s\<lparr>frames := (v, c + 1) # fs, lowlinks := low'\<rparr>)"
proof -
  let ?s = "s\<lparr>frames := (v, c + 1) # fs, lowlinks := low'\<rparr>"
  note I = tarjan_invD [OF inv(1)] and R = reach_invD [OF inv(2)]
  have f: "fst ` set (frames ?s) = fst ` set (frames s)" using fr by simp
  have v: "v < length (lowlinks s)" using chain_subset [OF I(11)] I(3) I(7) [of v] fr by auto
  have "\<exists>u\<in>set (node_stack s). low' ! x = idx s u \<and> reaches adj x u" if "x \<in> fst ` set (frames s)" for x
  proof (cases "x = v \<and> low' \<noteq> lowlinks s")
    case True
    then show ?thesis using low v edge_reaches [OF nth_mem [OF c]] by auto
  next
    case False
    then have "low' ! x = lowlinks s ! x" using low by auto
    then show ?thesis using R(3) [OF that] by simp
  qed
  then show ?thesis using R fr by (intro reach_invI) (simp_all add: f)
qed

lemma finish_reach:
  assumes inv: "tarjan_inv adj n s" "reach_inv adj s" and fr: "frames s = (v, c) # fs"
    and root: "lowlinks s ! v \<noteq> idx s v"
  defines "low' \<equiv> (case fs of [] \<Rightarrow> lowlinks s | (p, _) # _ \<Rightarrow> lower p (lowlinks s ! v) (lowlinks s))"
  shows "reach_inv adj (s\<lparr>frames := fs, lowlinks := low'\<rparr>)"
proof -
  let ?s = "s\<lparr>frames := fs, lowlinks := low'\<rparr>"
  note I = tarjan_invD [OF inv(1)] and R = reach_invD [OF inv(2)]
  have ord: "sorted_wrt (\<lambda>a b. idx s b < idx s a) (node_stack s)" using I(9) by (simp add: stack_ordered_def)
  have v: "v \<in> fst ` set (frames s)" using fr by simp
  obtain u where u: "u \<in> set (node_stack s)" "lowlinks s ! v = idx s u" "reaches adj v u" using R(3) [OF v] by auto
  have less: "idx s u < idx s v" using chain_low [OF I(11) ord v] root u(2) by simp
  have low: "\<exists>u\<in>set (node_stack s). low' ! x = idx s u \<and> reaches adj x u" if x: "x \<in> fst ` set fs" for x
  proof (cases "low' ! x = lowlinks s ! x")
    case True
    then show ?thesis using R(3) [of x] x fr by simp
  next
    case False
    then obtain p cp fs' where fs: "fs = (p, cp) # fs'" by (cases fs) (auto simp: low'_def)
    then have "low' ! x = (if x = p then min (lowlinks s ! v) (lowlinks s ! p) else lowlinks s ! x)"
      using I(3) I(7) [of p] chain_subset [OF I(11)] fr by (simp add: low'_def lower_nth)
    then have l: "low' ! x = lowlinks s ! v" using False by (auto simp: min_def split: if_splits)
    obtain A R1 where S: "node_stack s = A @ v # R1" and ch: "chain adj s fs R1" using I(11) fr by (auto elim: chain_ConsE)
    have "x \<in> set R1" using chain_subset [OF ch] x by auto
    then have "idx s x \<le> idx s v" using ordered_append(2) [of s A v R1 x] ord S by simp
    then have "reaches adj x v" using R(1) [of x v] x fr S by simp
    then show ?thesis using u l by (auto intro: rtrancl_trans)
  qed
  show ?thesis
  proof (rule reach_invI)
    show "\<exists>y\<in>set (node_stack ?s). idx ?s y < idx ?s x \<and> reaches adj x y"
      if "x \<in> set (node_stack ?s)" "x \<notin> fst ` set (frames ?s)" for x
      using that u less R(2) [of x] fr by (cases "x = v") auto
  qed (use R low fr in auto)
qed

lemma root_connected:
  assumes inv: "tarjan_inv adj n s" "reach_inv adj s" and fr: "frames s = (v, c) # fs" and c: "length (adj ! v) \<le> c"
    and root: "lowlinks s ! v = idx s v" and S: "node_stack s = A @ v # R1"
  shows "strongly_connected adj (A @ [v])"
proof -
  note I = tarjan_invD [OF inv(1)] and R = reach_invD [OF inv(2)]
  have ord: "sorted_wrt (\<lambda>a b. idx s b < idx s a) (A @ v # R1)" using I(9) S by (simp add: stack_ordered_def)
  obtain A' R' where S': "node_stack s = A' @ v # R'" and R1: "chain adj s fs R'" and seg: "segment_ok adj s v c A' R'"
    using I(11) fr by (auto elim: chain_ConsE)
  have v: "v \<notin> set A" "v \<notin> set R1" using I(4) S by auto
  have v': "v \<notin> set A'" "v \<notin> set R'" using I(4) S' by auto
  have "A' = A \<and> R' = R1" using S S' v v' by (metis append_Cons_eq_iff)
  then have seg: "segment_ok adj s v c A R1" and ch: "chain adj s fs R1" using seg R1 by auto
  let ?X = "set A \<union> {v} \<union> emitted s"
  have closed: "fst e \<in> ?X" if x: "x \<in> ?X" and e: "e \<in> set (adj ! x)" for x e
  proof (cases "x \<in> emitted s")
    case True
    then obtain i where "i < length (sccs s)" "x \<in> set (sccs s ! i)" by (auto simp: emitted_def in_set_conv_nth [of _ "sccs s"])
    then obtain j where "j \<le> i" "i < length (sccs s)" "fst e \<in> set (sccs s ! j)" using I(12) e unfolding topological_def by blast
    then show ?thesis by (auto simp: emitted_def intro!: bexI [of _ "sccs s ! j"])
  next
    case False
    have "take c (adj ! v) = adj ! v" using c by simp
    then have "explored_ok s (idx s v) (fst e)" using x e False seg root by (auto simp: segment_ok_def)
    then show ?thesis using ordered_append(4) [OF ord, of "fst e"] S by (auto simp: explored_ok_def)
  qed
  have back_to: "reaches adj x v" if "x \<in> set (A @ [v])" for x
    using that
  proof (induction "idx s x" arbitrary: x rule: less_induct)
    case less
    show ?case
    proof (cases "x = v")
      case False
      then have x: "x \<in> set A" using less.prems by simp
      have "x \<notin> fst ` set (frames s)" using x False chain_subset [OF ch] fr I(4) S by auto
      then obtain y where y: "y \<in> set (node_stack s)" "idx s y < idx s x" "reaches adj x y" using R(2) [of x] x S by auto
      have "y \<in> ?X" by (rule closed_reaches [OF y(3)]) (use x closed in blast)+
      then have "y \<in> set (A @ [v])" using I(6) y(1) by auto
      then show ?thesis using less.hyps [OF y(2)] y(3) by (auto intro: rtrancl_trans)
    qed simp
  qed
  have "reaches adj v x" if "x \<in> set (A @ [v])" for x
    using that R(1) [of v x] fr S ordered_append(1) [OF ord, of x] by (auto intro: less_imp_le)
  then show ?thesis using back_to by (auto simp: strongly_connected_def intro: rtrancl_trans)
qed

lemma root_reach:
  assumes inv: "tarjan_inv adj n s" "reach_inv adj s" and fr: "frames s = (v, c) # fs" and c: "length (adj ! v) \<le> c"
    and root: "lowlinks s ! v = idx s v"
    and pop: "pop_scc v (node_stack s) (on_stack s) [] = (scc, st, on)"
  defines "low' \<equiv> (case fs of [] \<Rightarrow> lowlinks s | (p, _) # _ \<Rightarrow> lower p (lowlinks s ! v) (lowlinks s))"
  shows "reach_inv adj (s\<lparr>frames := fs, lowlinks := low', node_stack := st, on_stack := on, sccs := sccs s @ [scc]\<rparr>)"
proof -
  let ?s = "s\<lparr>frames := fs, lowlinks := low', node_stack := st, on_stack := on, sccs := sccs s @ [scc]\<rparr>"
  note I = tarjan_invD [OF inv(1)] and R = reach_invD [OF inv(2)]
  obtain A R1 where S: "node_stack s = A @ v # R1" and ch: "chain adj s fs R1" using I(11) fr by (auto elim: chain_ConsE)
  have v: "v \<notin> set A" using I(4) S by simp
  have ord: "sorted_wrt (\<lambda>a b. idx s b < idx s a) (A @ v # R1)" using I(9) S by (simp add: stack_ordered_def)
  have scc: "scc = A @ [v]" "st = R1" using pop unfolding S pop_scc_append [OF v] by auto
  have below: "y \<in> set R1" if "y \<in> set (node_stack s)" "idx s y \<le> idx s x" "x \<in> set R1" for x y
    using that ordered_append(2) [OF ord, of x] ordered_append(3) [OF ord, of y] S by auto
  have lows: "lowlinks s ! p \<le> idx s p" if "p \<in> fst ` set fs" for p
    using chain_low [OF ch _ that] ord by (simp add: sorted_wrt_append)
  have fs: "fst ` set fs \<subseteq> set R1" by (rule chain_subset [OF ch])
  have low: "low' = lowlinks s"
  proof (cases fs)
    case (Cons f fs')
    obtain p cp where f: "f = (p, cp)" by (cases f)
    have "idx s p < idx s v" using fs ordered_append(2) [OF ord, of p] Cons f by auto
    then have "lowlinks s ! p \<le> lowlinks s ! v" using lows [of p] Cons f root by simp
    then show ?thesis by (simp add: low'_def Cons f lower_def)
  qed (simp add: low'_def)
  show ?thesis
  proof (rule reach_invI)
    show "reaches adj p x" if "p \<in> fst ` set (frames ?s)" "x \<in> set (node_stack ?s)" "idx ?s p \<le> idx ?s x" for p x
      using that R(1) [of p x] fr S scc by simp
    show "\<exists>y\<in>set (node_stack ?s). idx ?s y < idx ?s x \<and> reaches adj x y"
      if "x \<in> set (node_stack ?s)" "x \<notin> fst ` set (frames ?s)" for x
    proof -
      have x: "x \<in> set R1" "x \<noteq> v" "x \<notin> fst ` set (frames s)" "x \<in> set (node_stack s)"
        using that scc I(4) S fr by auto
      obtain y where "y \<in> set (node_stack s)" "idx s y < idx s x" "reaches adj x y" using R(2) [OF x(4,3)] by auto
      then show ?thesis using below [of y x] x(1) scc by auto
    qed
    show "\<exists>u\<in>set (node_stack ?s). lowlinks ?s ! p = idx ?s u \<and> reaches adj p u" if "p \<in> fst ` set (frames ?s)" for p
    proof -
      have p: "p \<in> fst ` set fs" using that by simp
      then obtain u where "u \<in> set (node_stack s)" "lowlinks s ! p = idx s u" "reaches adj p u" using R(3) [of p] fr by auto
      then show ?thesis using below [of u p] lows [OF p] p fs low scc by auto
    qed
    show "strongly_connected adj c" if "c \<in> set (sccs ?s)" for c
      using that R(4) root_connected [OF inv fr c root S] scc by auto
  qed
qed

lemma visit_child_reach:
  assumes inv: "tarjan_inv adj n s" "reach_inv adj s" and fr: "frames s = (v, c) # fs" and c: "c < length (adj ! v)"
    and w: "fst (adj ! v ! c) < n" "indices s ! fst (adj ! v ! c) = None"
  shows "reach_inv adj (tarjan_visit (fst (adj ! v ! c)) (s\<lparr>frames := (v, c + 1) # fs\<rparr>))"
proof -
  let ?w = "fst (adj ! v ! c)"
  note I = tarjan_invD [OF inv(1)] and R = reach_invD [OF inv(2)]
  obtain A R1 where S: "node_stack s = A @ v # R1" and ch: "chain adj s fs R1" using I(11) fr by (auto elim: chain_ConsE)
  have ord: "sorted_wrt (\<lambda>a b. idx s b < idx s a) (A @ v # R1)" using I(9) S by (simp add: stack_ordered_def)
  have vw: "reaches adj v ?w" by (rule edge_reaches [OF nth_mem [OF c]])
  have "reaches adj p ?w" if p: "p \<in> fst ` set (frames s)" for p
  proof -
    have "p = v \<or> p \<in> set R1" using p fr chain_subset [OF ch] by auto
    then have "idx s p \<le> idx s v" using ordered_append(2) [OF ord, of p] by auto
    then have "reaches adj p v" using R(1) [OF p] S by simp
    then show ?thesis using vw by (rule rtrancl_trans)
  qed
  then have "reach_inv adj (tarjan_visit ?w s)" using w by (intro visit_reach [OF inv])
  then show ?thesis using fr by (auto simp: reach_inv_def tarjan_visit_def idx_def)
qed

lemma step_reach:
  assumes adj: "adj_ok n adj" and inv: "tarjan_inv adj n s" "reach_inv adj s"
  shows "reach_inv adj (tarjan_step adj s)"
proof (cases "frames s")
  case Nil
  then show ?thesis using inv by (simp add: tarjan_step_def)
next
  case (Cons f fs)
  obtain v c where f: "frames s = (v, c) # fs" using Cons by (cases f) simp
  note I = tarjan_invD [OF inv(1)]
  have vn: "v < n" using chain_subset [OF I(11)] I(7) [of v] f by auto
  show ?thesis
  proof (cases "c < length (adj ! v)")
    case True
    let ?w = "fst (adj ! v ! c)"
    have w: "?w < n" using adj vn True by (auto simp: adj_ok_def)
    show ?thesis
    proof (cases "indices s ! ?w")
      case None
      then show ?thesis using visit_child_reach [OF inv f True w] f True by (simp add: tarjan_step_def Let_def)
    next
      case (Some i)
      have "tarjan_step adj s = s\<lparr>frames := (v, c + 1) # fs,
          lowlinks := if on_stack s ! ?w then lower v (idx s ?w) (lowlinks s) else lowlinks s\<rparr>"
        using f True Some by (simp add: tarjan_step_def Let_def idx_def)
      also have "reach_inv adj \<dots>"
        using I(8) [OF w] by (intro advance_reach [OF inv f True]) (auto simp: lower_def)
      finally show ?thesis .
    qed
  next
    case False
    then have c: "length (adj ! v) \<le> c" by simp
    show ?thesis
    proof (cases "lowlinks s ! v = idx s v")
      case True
      obtain scc st on where p: "pop_scc v (node_stack s) (on_stack s) [] = (scc, st, on)"
        by (cases "pop_scc v (node_stack s) (on_stack s) []")
      show ?thesis using root_reach [OF inv f c True p] root_step [OF f c True p] by simp
    next
      case False
      then show ?thesis using finish_reach [OF inv f False] f c by (simp add: tarjan_step_def Let_def idx_def)
    qed
  qed
qed

section \<open>The search\<close>

text \<open>Between the starts of the outer loop no frame is left.\<close>

lemma update_Some: "xs ! u = Some y \<Longrightarrow> \<exists>y. xs[i := Some c] ! u = Some y"
  by (cases "i < length xs"; cases "u = i") (simp_all add: list_update_beyond)

lemma tarjan_start_inv:
  assumes adj: "adj_ok n adj" and inv: "tarjan_inv adj n s" "reach_inv adj s" and idle: "frames s = []" and v: "v < n"
  shows "\<exists>s'. tarjan_start adj v s = Some s' \<and> tarjan_inv adj n s' \<and> reach_inv adj s' \<and> frames s' = [] \<and> indices s' ! v \<noteq> None \<and>
    (\<forall>u<n. indices s ! u \<noteq> None \<longrightarrow> indices s' ! u \<noteq> None)"
proof (cases "indices s ! v = None")
  case False
  then show ?thesis using inv idle by (simp add: tarjan_start_def)
next
  case True
  let ?P = "\<lambda>t. tarjan_inv adj n t \<and> reach_inv adj t \<and> (\<forall>u<n. u = v \<or> indices s ! u \<noteq> None \<longrightarrow> indices t ! u \<noteq> None)"
  have init: "?P (tarjan_visit v s)"
    using visit_inv [OF inv(1) v True] visit_reach [OF inv v True] idle tarjan_invD(2) [OF inv(1)] v by (auto simp: tarjan_visit_def nth_list_update)
  have keep: "indices t ! u \<noteq> None \<Longrightarrow> indices (tarjan_step adj t) ! u \<noteq> None" for t u
    by (auto simp: tarjan_step_def Let_def tarjan_visit_def update_Some split: list.splits prod.splits if_splits)
  have step: "?P t \<Longrightarrow> ?P (tarjan_step adj t)" for t using step_inv [OF adj] step_reach [OF adj] keep by blast
  obtain s' where s': "while_option (\<lambda>s. frames s \<noteq> []) (tarjan_step adj) (tarjan_visit v s) = Some s'"
    using measure_while_option_Some [of ?P "\<lambda>s. frames s \<noteq> []" "tarjan_step adj" "work adj n" "tarjan_visit v s"]
      step step_work [OF _ adj] init by blast
  have "?P s'" by (rule while_option_rule [where P = ?P, OF _ s' init]) (rule step)
  moreover have "frames s' = []" using while_option_stop [OF s'] by simp
  ultimately show ?thesis using s' True v by (simp add: tarjan_start_def)
qed

lemma tarjan_from_inv:
  assumes "adj_ok n adj" "tarjan_inv adj n s" "reach_inv adj s" "frames s = []" "\<forall>v\<in>set vs. v < n"
  shows "\<exists>s'. tarjan_from adj vs s = Some s' \<and> tarjan_inv adj n s' \<and> reach_inv adj s' \<and> frames s' = [] \<and>
    (\<forall>u<n. u \<in> set vs \<or> indices s ! u \<noteq> None \<longrightarrow> indices s' ! u \<noteq> None)"
  using assms(2-5)
proof (induction vs arbitrary: s)
  case (Cons v vs)
  obtain t where t: "tarjan_start adj v s = Some t" "tarjan_inv adj n t" "reach_inv adj t" "frames t = []" "indices t ! v \<noteq> None"
      "\<forall>u<n. indices s ! u \<noteq> None \<longrightarrow> indices t ! u \<noteq> None"
    using tarjan_start_inv [OF assms(1) Cons.prems(1-3), of v] Cons.prems(4) by auto
  then show ?case using Cons.IH [OF t(2-4)] Cons.prems(4) by fastforce
qed simp

lemma tarjan_init_inv: "tarjan_inv adj n (tarjan_init n)" "reach_inv adj (tarjan_init n)"
  by (auto simp: tarjan_inv_def reach_inv_def tarjan_init_def emitted_def stack_ordered_def topological_def
      intro: chain_Nil)

text \<open>The result: a partition of the nodes into strongly connected components, no edge leading to a later one.\<close>

lemma tarjan_sccs_correct:
  assumes "adj_ok n adj"
  shows "\<exists>cs. tarjan_sccs n adj = Some cs \<and> distinct (concat cs) \<and> set (concat cs) = {..<n} \<and>
    topological adj cs \<and> (\<forall>c\<in>set cs. strongly_connected adj c)"
proof -
  obtain s where s: "tarjan_from adj [0..<n] (tarjan_init n) = Some s" "tarjan_inv adj n s" "reach_inv adj s"
      "frames s = []" "\<forall>u<n. indices s ! u \<noteq> None"
    using tarjan_from_inv [OF assms tarjan_init_inv, of "[0..<n]"] by (auto simp: tarjan_init_def)
  note I = tarjan_invD [OF s(2)]
  have "node_stack s = []" using I(11) s(4) by (auto elim: chain_NilE)
  then have "emitted s = {..<n}" using I(7) s(5) by auto
  then show ?thesis using s(1) I(5,12) reach_invD(4) [OF s(3)] by (simp add: tarjan_sccs_def emitted_def)
qed

end
