(* ===== verification/Datalog_Lift.thy ===== *)
theory Datalog_Lift
  imports Datalog_Components
begin

text \<open>
  \<^verbatim>\<open>compute_strata\<close> returns the least stratification of a program, or reports a cycle through negation exactly when
  there is none.
\<close>

section \<open>Stratifications\<close>

definition stratifies :: "(string \<Rightarrow> nat) \<Rightarrow> dl_program \<Rightarrow> bool" where
  "stratifies l p \<longleftrightarrow>
     (\<forall>r\<in>set (rules p). \<forall>g\<in>set (rule_body r).
        l (predicate (goal_atom g)) + (if is_negated g then 1 else 0) \<le> l (predicate (rule_head r)))"

lemma stratifies_edges:
  "stratifies l p \<longleftrightarrow> (\<forall>(src, tgt, neg)\<in>set (program_edges p). l src + (if neg then 1 else 0) \<le> l tgt)"
  by (simp add: stratifies_def program_edges_def rule_edges_def)

section \<open>The graph\<close>

lemma pred_index_nth: "q \<in> set ps \<Longrightarrow> pred_index ps q < length ps \<and> ps ! pred_index ps q = q"
  unfolding pred_index_def by (induction ps) auto

lemma edges_in_preds:
  "(src, tgt, neg) \<in> set (program_edges p) \<Longrightarrow> src \<in> set (pred_list p) \<and> tgt \<in> set (pred_list p)"
  by (auto simp: program_edges_def rule_edges_def pred_list_def program_preds_def)

lemma build_adj_snoc:
  "build_adj ps (es @ [(src, tgt, neg)]) =
     (build_adj ps es)[pred_index ps src := build_adj ps es ! pred_index ps src @ [(pred_index ps tgt, neg)]]"
  by (simp add: build_adj_def)

lemma length_build_adj [simp]: "length (build_adj ps es) = length ps"
  by (induction es rule: rev_induct) (simp_all add: build_adj_snoc split_paired_all, simp add: build_adj_def)

lemma build_adj_edges:
  assumes "u < length ps"
  shows "set (build_adj ps es ! u) = {(pred_index ps tgt, neg) | src tgt neg. (src, tgt, neg) \<in> set es \<and> pred_index ps src = u}"
proof (induction es rule: rev_induct)
  case Nil
  then show ?case using assms by (simp add: build_adj_def)
next
  case (snoc e es)
  obtain src tgt neg where "e = (src, tgt, neg)" by (cases e)
  then show ?case using snoc assms by (cases "pred_index ps src = u") (auto simp: build_adj_snoc)
qed

lemma program_adj_ok: "adj_ok (length (pred_list p)) (build_adj (pred_list p) (program_edges p))"
  using edges_in_preds [of _ _ _ p] by (auto simp: adj_ok_def build_adj_edges dest!: pred_index_nth)

section \<open>The component of a node\<close>

lemma fold_assign_nth:
  "x < length m \<Longrightarrow> fold (\<lambda>node m. m[node := i]) ns m ! x = (if x \<in> set ns then i else m ! x)"
  by (induction ns arbitrary: m) (auto simp: nth_list_update)

lemma fold_assign_length [simp]: "length (fold (\<lambda>node m. m[node := i]) ns m) = length m"
  by (induction ns arbitrary: m) auto

lemma scc_of_snoc: "scc_of n (cs @ [c]) = fold (\<lambda>node m. m[node := length cs]) c (scc_of n cs)"
  by (simp add: scc_of_def enumerate_append_eq)

lemma length_scc_of [simp]: "length (scc_of n cs) = n"
  by (induction cs rule: rev_induct) (simp_all add: scc_of_snoc, simp add: scc_of_def)

lemma scc_of_nth:
  assumes "distinct (concat cs)" "i < length cs" "x \<in> set (cs ! i)" "x < n"
  shows "scc_of n cs ! x = i"
  using assms
proof (induction cs rule: rev_induct)
  case (snoc c cs)
  show ?case
  proof (cases "i < length cs")
    case True
    then have "x \<in> set (concat cs)" using snoc.prems(3) by (auto simp: nth_append)
    then have "x \<notin> set c" using snoc.prems(1) by auto
    then show ?thesis using True snoc by (simp add: scc_of_snoc fold_assign_nth nth_append)
  next
    case False
    then have "i = length cs" using snoc.prems(2) by simp
    then show ?thesis using snoc.prems by (simp add: scc_of_snoc fold_assign_nth)
  qed
qed simp

lemma component_of:
  assumes "set (concat cs) = {..<n}" "distinct (concat cs)" "x < n"
  shows "scc_of n cs ! x < length cs" "x \<in> set (cs ! (scc_of n cs ! x))"
proof -
  have "x \<in> set (concat cs)" using assms(1,3) by simp
  then obtain i where "i < length cs" "x \<in> set (cs ! i)" by (auto simp: in_set_conv_nth [of _ cs])
  then show "scc_of n cs ! x < length cs" "x \<in> set (cs ! (scc_of n cs ! x))"
    using scc_of_nth [OF assms(2) _ _ assms(3)] by simp_all
qed

section \<open>Edges between components\<close>

definition edge_list :: "adjacency \<Rightarrow> (nat \<times> nat \<times> bool) list" where
  "edge_list adj = concat (map (\<lambda>(u, es). map (Pair u) es) (enumerate 0 adj))"

lemma set_edge_list: "set (edge_list adj) = {(u, v, neg). u < length adj \<and> (v, neg) \<in> set (adj ! u)}"
proof -
  have "set (edge_list adj) = (\<Union>(u, es)\<in>set (enumerate 0 adj). Pair u ` set es)" by (auto simp: edge_list_def)
  also have "\<dots> = (\<Union>u\<in>{..<length adj}. Pair u ` set (adj ! u))" by (force simp: in_set_enumerate_eq)
  finally show ?thesis by auto
qed

lemma scc_edges_list: "scc_edges so adj = fold (\<lambda>(u, e). add_scc_edge so u e) (edge_list adj) []"
proof -
  have "fold (\<lambda>(u, es). fold (add_scc_edge so u) es) xs a =
      fold (\<lambda>(u, e). add_scc_edge so u e) (concat (map (\<lambda>(u, es). map (Pair u) es) xs)) a" for xs a
    by (induction xs arbitrary: a) (auto simp: fold_map comp_def)
  then show ?thesis by (simp add: scc_edges_def edge_list_def)
qed

definition edges_summarise :: "nat list \<Rightarrow> (nat \<times> nat \<times> bool) set \<Rightarrow> ((nat \<times> nat) \<times> bool) list \<Rightarrow> bool" where
  "edges_summarise so E ses \<longleftrightarrow> distinct (map fst ses) \<and>
     (\<forall>su sv b. map_of ses (su, sv) = Some b \<longleftrightarrow>
        su \<noteq> sv \<and> (\<exists>u v neg. (u, v, neg) \<in> E \<and> so ! u = su \<and> so ! v = sv) \<and>
        (b \<longleftrightarrow> (\<exists>u v. (u, v, True) \<in> E \<and> so ! u = su \<and> so ! v = sv)))"

lemma edges_summarise_None:
  assumes "edges_summarise so E ses" "su \<noteq> sv" "map_of ses (su, sv) = None" "(u, v, neg) \<in> E" "so ! u = su"
  shows "so ! v \<noteq> sv"
  using assms unfolding edges_summarise_def by (metis option.distinct(1))

lemma add_scc_edge_summarise:
  assumes "edges_summarise so E ses"
  shows "edges_summarise so (insert (u, v, neg) E) (add_scc_edge so u (v, neg) ses)"
proof (cases "so ! u = so ! v")
  case True
  then show ?thesis using assms by (auto simp: add_scc_edge_def edges_summarise_def)
next
  case False
  note S = assms [unfolded edges_summarise_def]
  let ?k = "(so ! u, so ! v)"
  have upd: "map_of (add_scc_edge so u (v, neg) ses) =
      (map_of ses)(?k \<mapsto> neg \<or> map_of ses ?k = Some True)"
    using False by (cases "map_of ses ?k") (simp_all add: add_scc_edge_def Let_def update_conv')
  have d0: "distinct (map fst ses)" and m: "\<And>su sv b. map_of ses (su, sv) = Some b \<longleftrightarrow>
        su \<noteq> sv \<and> (\<exists>u v neg. (u, v, neg) \<in> E \<and> so ! u = su \<and> so ! v = sv) \<and>
        (b \<longleftrightarrow> (\<exists>u v. (u, v, True) \<in> E \<and> so ! u = su \<and> so ! v = sv))"
    using S by blast+
  have old: "map_of ses ?k = Some True \<longleftrightarrow> (\<exists>u' v'. (u', v', True) \<in> E \<and> so ! u' = so ! u \<and> so ! v' = so ! v)"
    unfolding m using False by blast
  have d: "distinct (map fst (add_scc_edge so u (v, neg) ses))"
    using d0 False by (simp add: add_scc_edge_def Let_def distinct_update)
  show ?thesis
    unfolding edges_summarise_def
  proof (intro conjI d allI)
    fix su sv b
    show "map_of (add_scc_edge so u (v, neg) ses) (su, sv) = Some b \<longleftrightarrow>
        su \<noteq> sv \<and> (\<exists>u' v' neg'. (u', v', neg') \<in> insert (u, v, neg) E \<and> so ! u' = su \<and> so ! v' = sv) \<and>
        (b \<longleftrightarrow> (\<exists>u' v'. (u', v', True) \<in> insert (u, v, neg) E \<and> so ! u' = su \<and> so ! v' = sv))"
    proof (cases "(su, sv) = ?k")
      case True
      then have k: "su = so ! u" "sv = so ! v" by simp_all
      show ?thesis unfolding upd k using False old by auto
    next
      case neq: False
      then have "map_of (add_scc_edge so u (v, neg) ses) (su, sv) = map_of ses (su, sv)" unfolding upd by (rule fun_upd_other)
      then show ?thesis using neq m [of su sv b] by auto
    qed
  qed
qed

lemma scc_edges_summarise:
  "edges_summarise so {(u, v, neg). u < length adj \<and> (v, neg) \<in> set (adj ! u)} (scc_edges so adj)"
proof -
  have "edges_summarise so (set es) (fold (\<lambda>(u, e). add_scc_edge so u e) es [])" for es
  proof (induction es rule: rev_induct)
    case (snoc e es)
    obtain u v neg where "e = (u, v, neg)" by (cases e)
    then show ?case using add_scc_edge_summarise [OF snoc] by simp
  qed (simp add: edges_summarise_def)
  from this [of "edge_list adj"] show ?thesis unfolding scc_edges_list set_edge_list .
qed

lemma scc_edges_target:
  assumes "u < length adj" "(v, neg) \<in> set (adj ! u)" "so ! u \<noteq> so ! v"
  shows "\<exists>b. ((so ! u, so ! v), b) \<in> set (scc_edges so adj) \<and> (neg \<longrightarrow> b)"
proof -
  let ?b = "\<exists>x y. x < length adj \<and> (y, True) \<in> set (adj ! x) \<and> so ! x = so ! u \<and> so ! y = so ! v"
  note S = scc_edges_summarise [of so adj, unfolded edges_summarise_def, THEN conjunct2, rule_format, of "so ! u" "so ! v" ?b]
  have "map_of (scc_edges so adj) (so ! u, so ! v) = Some ?b" unfolding S using assms by auto
  moreover have ?b if neg using assms that by (intro exI [of _ u] exI [of _ v]) simp
  ultimately show ?thesis by (blast dest: map_of_SomeD)
qed

lemma scc_edges_source:
  assumes "((su, sv), b) \<in> set (scc_edges so adj)"
  shows "\<exists>u v. u < length adj \<and> (v, b) \<in> set (adj ! u) \<and> so ! u = su \<and> so ! v = sv \<and> su \<noteq> sv"
proof -
  note S = scc_edges_summarise [of so adj, unfolded edges_summarise_def]
  have "map_of (scc_edges so adj) (su, sv) = Some b" using S [THEN conjunct1] assms by simp
  from S [THEN conjunct2, rule_format, THEN iffD1, OF this]
  obtain u v neg where e: "u < length adj" "(v, neg) \<in> set (adj ! u)" "so ! u = su" "so ! v = sv" "su \<noteq> sv"
    and b: "b \<longleftrightarrow> (\<exists>u v. u < length adj \<and> (v, True) \<in> set (adj ! u) \<and> so ! u = su \<and> so ! v = sv)" by auto
  show ?thesis
  proof (cases b)
    case True
    obtain x y where "x < length adj" "(y, True) \<in> set (adj ! x)" "so ! x = su" "so ! y = sv"
      using iffD1 [OF b True] by (elim exE conjE)
    then show ?thesis using True e(5) by auto
  next
    case False
    have b if neg by (rule iffD2 [OF b], intro exI [of _ u] exI [of _ v]) (use e that in simp)
    then have "neg = b" using False by auto
    then show ?thesis using e by blast
  qed
qed

section \<open>Relaxation\<close>

text \<open>An inequality between strata, and the constraints on the components from \<open>m\<close> on.\<close>

fun edge_holds :: "nat list \<Rightarrow> (nat \<times> nat) \<times> bool \<Rightarrow> bool" where
  "edge_holds st ((su, sv), neg) \<longleftrightarrow> st ! su + (if neg then 1 else 0) \<le> st ! sv"

definition holds_from :: "((nat \<times> nat) \<times> bool) list \<Rightarrow> nat \<Rightarrow> nat list \<Rightarrow> bool" where
  "holds_from es m st \<longleftrightarrow> (\<forall>e\<in>set es. m \<le> snd (fst e) \<longrightarrow> edge_holds st e)"

definition dag_edges :: "nat \<Rightarrow> ((nat \<times> nat) \<times> bool) list \<Rightarrow> bool" where
  "dag_edges n es \<longleftrightarrow> (\<forall>((su, sv), neg)\<in>set es. sv < su \<and> su < n)"

lemma nth_update_if: "xs[i := v] ! x = (if x = i \<and> i < length xs then v else xs ! x)"
  by (cases "x = i"; cases "i < length xs") (simp_all add: list_update_beyond)

lemma relax_length: "length (fst (relax e s)) = length (fst s)"
  by (cases s; cases e) (auto simp: relax_def Let_def split: prod.splits)

lemma relax_mono: "x < length (fst s) \<Longrightarrow> fst s ! x \<le> fst (relax e s) ! x"
  by (cases s; cases e) (auto simp: relax_def Let_def nth_update_if split: prod.splits)

lemma fold_relax_length: "length (fst (fold relax es s)) = length (fst s)"
  by (induction es arbitrary: s) (simp_all add: relax_length)

lemma fold_relax_mono: "x < length (fst s) \<Longrightarrow> fst s ! x \<le> fst (fold relax es s) ! x"
proof (induction es arbitrary: s)
  case (Cons e es)
  then show ?case using le_trans [OF relax_mono [of x s e] Cons.IH [of "relax e s"]] by (simp add: relax_length)
qed simp

lemma relax_keeps:
  assumes "dag_edges n es" "e \<in> set es" "holds_from es m (fst s)"
  shows "holds_from es m (fst (relax e s))" "m \<le> x \<Longrightarrow> fst (relax e s) ! x = fst s ! x"
proof -
  obtain su sv neg where e: "e = ((su, sv), neg)" by (cases e) auto
  obtain st c where s: "s = (st, c)" by (cases s)
  have same: "fst (relax e s) ! x = st ! x" if "m \<le> x" for x
    using assms(2,3) that e s by (auto simp: relax_def Let_def holds_from_def nth_update_if)
  then show "m \<le> x \<Longrightarrow> fst (relax e s) ! x = fst s ! x" using s by simp
  show "holds_from es m (fst (relax e s))"
    unfolding holds_from_def
  proof (intro ballI impI)
    fix e' assume e': "e' \<in> set es" "m \<le> snd (fst e')"
    obtain su' sv' neg' where eq: "e' = ((su', sv'), neg')" by (cases e') auto
    have "sv' < su'" using assms(1) e'(1) eq by (auto simp: dag_edges_def)
    then show "edge_holds (fst (relax e s)) e'" using assms(3) e' eq same s by (auto simp: holds_from_def)
  qed
qed

lemma fold_relax_keeps:
  assumes "dag_edges n es" "set xs \<subseteq> set es" "holds_from es m (fst s)"
  shows "holds_from es m (fst (fold relax xs s)) \<and> (\<forall>x\<ge>m. fst (fold relax xs s) ! x = fst s ! x)"
  using assms(2,3)
proof (induction xs arbitrary: s)
  case (Cons e xs)
  then show ?case using Cons.IH [of "relax e s"] relax_keeps [OF assms(1), of e m s] by simp
qed simp

lemma relax_pass:
  assumes dag: "dag_edges n es" and st: "length st = n" and inv: "holds_from es (Suc m) st"
  shows "holds_from es m (fst (fold relax es (st, c)))"
  unfolding holds_from_def
proof (intro ballI impI)
  fix e assume e: "e \<in> set es" "m \<le> snd (fst e)"
  obtain su sv neg where eq: "e = ((su, sv), neg)" by (cases e) auto
  obtain xs ys where split: "es = xs @ e # ys" using e(1) by (auto simp: in_set_conv_decomp)
  have su: "sv < su" "su < n" using dag e(1) eq by (auto simp: dag_edges_def)
  let ?s1 = "fold relax xs (st, c)"
  let ?s2 = "relax e ?s1"
  have s1: "holds_from es (Suc m) (fst ?s1)" using fold_relax_keeps [OF dag, of xs "Suc m" "(st, c)"] inv split by auto
  have s2: "holds_from es (Suc m) (fst ?s2)" "\<And>x. Suc m \<le> x \<Longrightarrow> fst ?s2 ! x = fst ?s1 ! x"
    using relax_keeps [OF dag e(1) s1] by auto
  have len: "length (fst ?s1) = n" "length (fst ?s2) = n" by (simp_all add: relax_length fold_relax_length st)
  have "edge_holds (fst ?s2) e"
    using su eq len by (cases ?s1) (auto simp: relax_def Let_def nth_update_if)
  moreover have "set ys \<subseteq> set es" "Suc m \<le> su" using split su(1) e(2) eq by auto
  then have "fst (fold relax ys ?s2) ! su = fst ?s2 ! su"
    using fold_relax_keeps [OF dag, of ys "Suc m" ?s2] s2(1) by blast
  moreover have "fst ?s2 ! sv \<le> fst (fold relax ys ?s2) ! sv"
    using su len by (intro fold_relax_mono) simp
  ultimately show "edge_holds (fst (fold relax es (st, c))) e" using split eq by simp
qed

lemma relax_unchanged:
  "fold relax es (st, c) = (st', False) \<Longrightarrow> \<not> c \<and> st' = st \<and> (\<forall>e\<in>set es. edge_holds st e)"
proof (induction es arbitrary: st c)
  case (Cons e es)
  obtain su sv neg where e: "e = ((su, sv), neg)" by (cases e) auto
  show ?case
  proof (cases "edge_holds st e")
    case True
    then have "relax e (st, c) = (st, c)" using e by (auto simp: relax_def Let_def)
    then show ?thesis using Cons.IH [of st c] Cons.prems True by simp
  next
    case False
    then obtain st1 where "relax e (st, c) = (st1, True)" using e by (auto simp: relax_def Let_def)
    then show ?thesis using Cons.IH [of st1 True] Cons.prems by simp
  qed
qed simp

text \<open>As many passes as there are components are enough, in whatever order a pass walks the edges.\<close>

lemma relax_passes_hold:
  assumes dag: "dag_edges n es"
  shows "length st = n \<Longrightarrow> holds_from es k st \<Longrightarrow> holds_from es 0 (relax_passes k es st)"
proof (induction k arbitrary: st)
  case (Suc k)
  obtain st' c where p: "fold relax es (st, False) = (st', c)" by (cases "fold relax es (st, False)")
  show ?case
  proof (cases c)
    case True
    have "holds_from es k st'" using relax_pass [OF dag Suc.prems, of False] p by simp
    moreover have "length st' = n" using fold_relax_length [of es "(st, False)"] Suc.prems(1) p by simp
    ultimately show ?thesis using Suc.IH p True by simp
  next
    case False
    then show ?thesis using relax_unchanged [of es st False st'] p by (simp add: holds_from_def)
  qed
qed simp

lemma relax_below:
  assumes "\<forall>((su, sv), neg)\<in>set es. l su + (if neg then 1 else 0) \<le> l sv" "e \<in> set es"
    and "\<forall>x<length (fst s). fst s ! x \<le> l x" "dag_edges (length (fst s)) es"
  shows "\<forall>x<length (fst (relax e s)). fst (relax e s) ! x \<le> l x"
proof -
  obtain su sv neg where e: "e = ((su, sv), neg)" by (cases e) auto
  have "l su + (if neg then 1 else 0) \<le> l sv" "fst s ! su \<le> l su" using assms e by (auto simp: dag_edges_def)
  then have "fst s ! su + (if neg then 1 else 0) \<le> l sv" by simp
  then show ?thesis using assms(3) e by (cases s) (auto simp: relax_def Let_def nth_update_if)
qed

lemma fold_relax_below:
  assumes l: "\<forall>((su, sv), neg)\<in>set es. l su + (if neg then 1 else 0) \<le> l sv"
  shows "set xs \<subseteq> set es \<Longrightarrow> \<forall>x<length (fst s). fst s ! x \<le> l x \<Longrightarrow> dag_edges (length (fst s)) es \<Longrightarrow>
    \<forall>x<length (fst s). fst (fold relax xs s) ! x \<le> l x"
proof (induction xs arbitrary: s)
  case (Cons e xs)
  then show ?case using Cons.IH [of "relax e s"] relax_below [OF l, of e s] by (simp add: relax_length)
qed simp

lemma relax_passes_below:
  assumes l: "\<forall>((su, sv), neg)\<in>set es. l su + (if neg then 1 else 0) \<le> l sv"
  shows "\<forall>x<length st. st ! x \<le> l x \<Longrightarrow> dag_edges (length st) es \<Longrightarrow> \<forall>x<length st. relax_passes k es st ! x \<le> l x"
proof (induction k arbitrary: st)
  case (Suc k)
  obtain st' c where p: "fold relax es (st, False) = (st', c)" by (cases "fold relax es (st, False)")
  have "length st' = length st" using fold_relax_length [of es "(st, False)"] p by simp
  moreover have "\<forall>x<length st. st' ! x \<le> l x" using fold_relax_below [OF l, of es "(st, False)"] Suc.prems p by simp
  ultimately show ?case using Suc.IH [of st'] Suc.prems(2) p by simp
qed simp

section \<open>The result of \<^verbatim>\<open>compute_strata\<close>\<close>

lemma strata_lookup:
  "map_of (map (\<lambda>(i, q). (q, f i)) (enumerate k ps)) q = (if q \<in> set ps then Some (f (k + pred_index ps q)) else None)"
  by (induction ps arbitrary: k) (auto simp: pred_index_def)

lemma edge_index:
  assumes "(src, tgt, neg) \<in> set (program_edges p)"
  shows "pred_index (pred_list p) src < length (pred_list p)" "pred_index (pred_list p) tgt < length (pred_list p)"
    "(pred_index (pred_list p) tgt, neg) \<in> set (build_adj (pred_list p) (program_edges p) ! pred_index (pred_list p) src)"
  using assms edges_in_preds [OF assms] pred_index_nth [of src "pred_list p"] pred_index_nth [of tgt "pred_list p"]
  by (auto simp: build_adj_edges)

lemma adj_stratified:
  assumes "stratifies l p" "u < length (pred_list p)" "(v, neg) \<in> set (build_adj (pred_list p) (program_edges p) ! u)"
  shows "l (pred_list p ! u) + (if neg then 1 else 0) \<le> l (pred_list p ! v)"
proof -
  obtain src tgt where e: "(src, tgt, neg) \<in> set (program_edges p)" "u = pred_index (pred_list p) src" "v = pred_index (pred_list p) tgt"
    using assms(2,3) by (auto simp: build_adj_edges)
  then show ?thesis
    using assms(1) edges_in_preds [OF e(1)] pred_index_nth [of src "pred_list p"] pred_index_nth [of tgt "pred_list p"]
    by (auto simp: stratifies_edges)
qed

lemma reaches_stratified:
  assumes l: "stratifies l p" and adj: "adj = build_adj (pred_list p) (program_edges p)"
    and r: "reaches adj u v" "u < length (pred_list p)"
  shows "v < length (pred_list p) \<and> l (pred_list p ! u) \<le> l (pred_list p ! v)"
  using r(1)
proof (induction rule: rtrancl_induct)
  case (step v w)
  then obtain neg where e: "(w, neg) \<in> set (adj ! v)" and v: "v < length (pred_list p)" by (auto simp: edge_rel_def)
  have "w < length (pred_list p)" using program_adj_ok [of p] v e by (force simp: adj_ok_def adj)
  then show ?case using adj_stratified [OF l v, of w neg] e step.IH adj by simp
qed (use r(2) in simp)

text \<open>The data that \<^verbatim>\<open>compute_strata\<close> works on, and what is known of them.\<close>

definition components_ok :: "dl_program \<Rightarrow> nat list list \<Rightarrow> bool" where
  "components_ok p cs \<longleftrightarrow> distinct (concat cs) \<and> set (concat cs) = {..<length (pred_list p)} \<and>
     topological (build_adj (pred_list p) (program_edges p)) cs \<and>
     (\<forall>c\<in>set cs. strongly_connected (build_adj (pred_list p) (program_edges p)) c)"

lemma components_found:
  "\<exists>cs. tarjan_sccs (length (pred_list p)) (build_adj (pred_list p) (program_edges p)) = Some cs \<and> components_ok p cs"
  using tarjan_sccs_correct [OF program_adj_ok] by (simp add: components_ok_def)

lemma same_component_level:
  assumes "components_ok p cs" "stratifies l p" "c \<in> set cs" "x \<in> set c" "y \<in> set c"
  shows "l (pred_list p ! x) = l (pred_list p ! y)"
proof -
  have "x < length (pred_list p)" "y < length (pred_list p)" using assms by (auto simp: components_ok_def set_eq_iff)
  then show ?thesis using assms reaches_stratified [OF assms(2) refl]
    by (auto simp: components_ok_def strongly_connected_def intro!: antisym)
qed

lemma negative_scc_unstratified:
  assumes ok: "components_ok p cs" and c: "c \<in> set cs" "negative_scc (build_adj (pred_list p) (program_edges p)) c"
  shows "\<not> stratifies l p"
proof
  assume l: "stratifies l p"
  obtain u v where e: "u \<in> set c" "v \<in> set c" "(v, True) \<in> set (build_adj (pred_list p) (program_edges p) ! u)"
    using c(2) by (auto simp: negative_scc_def list_ex_iff)
  have "u < length (pred_list p)" using ok c(1) e(1) by (auto simp: components_ok_def set_eq_iff)
  then show False using adj_stratified [OF l _ e(3)] same_component_level [OF ok l c(1) e(1,2)] by simp
qed

lemma positive_inside:
  assumes "\<not> negative_scc adj c" "u \<in> set c" "v \<in> set c" "(v, neg) \<in> set (adj ! u)"
  shows "\<not> neg"
proof
  assume neg
  then have "\<not> (1 < length c \<or> length c = 1 \<and> v = u)" using assms by (force simp: negative_scc_def list_ex_iff)
  then show False using assms(2,3) by (cases c) auto
qed

lemma scc_edges_dag:
  assumes ok: "components_ok p cs"
  shows "dag_edges (length cs) (scc_edges (scc_of (length (pred_list p)) cs) (build_adj (pred_list p) (program_edges p)))"
    (is "dag_edges _ (scc_edges ?so ?adj)")
  unfolding dag_edges_def
proof clarify
  fix su sv b assume "((su, sv), b) \<in> set (scc_edges ?so ?adj)"
  then obtain u v where e: "u < length (pred_list p)" "(v, b) \<in> set (?adj ! u)" "?so ! u = su" "?so ! v = sv" "su \<noteq> sv"
    by (auto dest!: scc_edges_source)
  note P = ok [unfolded components_ok_def]
  have u: "su < length cs" "u \<in> set (cs ! su)" using component_of [of cs _ u] P e by auto
  have "\<exists>j. j \<le> su \<and> fst (v, b) \<in> set (cs ! j)" using P u e(2) unfolding topological_def by blast
  then obtain j where j: "j \<le> su" "v \<in> set (cs ! j)" by auto
  have "v < length (pred_list p)" using P j u(1) nth_mem [of j cs] by (auto simp: set_eq_iff)
  then have "?so ! v = j" using scc_of_nth [of cs j v] P j u(1) by simp
  then show "sv < su \<and> su < length cs" using e j(1) u(1) by simp
qed

definition result_level :: "dl_program \<Rightarrow> nat list list \<Rightarrow> string \<Rightarrow> nat" where
  "result_level p cs q =
     (let so = scc_of (length (pred_list p)) cs
      in relax_passes (length cs) (scc_edges so (build_adj (pred_list p) (program_edges p))) (replicate (length cs) 0) !
           (so ! pred_index (pred_list p) q))"

lemma result_stratifies:
  assumes ok: "components_ok p cs" and pos: "\<forall>c\<in>set cs. \<not> negative_scc (build_adj (pred_list p) (program_edges p)) c"
  shows "stratifies (result_level p cs) p"
  unfolding stratifies_edges
proof clarify
  fix src tgt neg assume edge: "(src, tgt, neg) \<in> set (program_edges p)"
  let ?adj = "build_adj (pred_list p) (program_edges p)" and ?so = "scc_of (length (pred_list p)) cs"
  let ?u = "pred_index (pred_list p) src" and ?v = "pred_index (pred_list p) tgt" and ?es = "scc_edges ?so ?adj"
  let ?st = "relax_passes (length cs) ?es (replicate (length cs) 0)"
  note P = ok [unfolded components_ok_def] and e = edge_index [OF edge]
  have c: "?so ! ?u < length cs" "?u \<in> set (cs ! (?so ! ?u))" "?v \<in> set (cs ! (?so ! ?v))"
    using component_of [of cs _ ?u] component_of [of cs _ ?v] P e by simp_all
  have all: "holds_from ?es 0 ?st"
    using scc_edges_dag [OF ok] by (intro relax_passes_hold) (auto simp: holds_from_def dag_edges_def)
  have "?st ! (?so ! ?u) + (if neg then 1 else 0) \<le> ?st ! (?so ! ?v)"
  proof (cases "?so ! ?u = ?so ! ?v")
    case True
    then have "\<not> neg"
      using positive_inside [of ?adj "cs ! (?so ! ?u)" ?u ?v neg] pos c e by auto
    then show ?thesis using True by simp
  next
    case False
    obtain b where b: "((?so ! ?u, ?so ! ?v), b) \<in> set ?es" "neg \<longrightarrow> b"
      using scc_edges_target [OF _ e(3) False] e(1) by auto
    then have "edge_holds ?st ((?so ! ?u, ?so ! ?v), b)" using all unfolding holds_from_def by blast
    then show ?thesis using b(2) by (auto split: if_splits)
  qed
  then show "result_level p cs src + (if neg then 1 else 0) \<le> result_level p cs tgt" by (simp add: result_level_def Let_def)
qed

lemma result_least:
  assumes ok: "components_ok p cs" and l: "stratifies l p" and q: "q \<in> set (pred_list p)"
  shows "result_level p cs q \<le> l q"
proof -
  let ?adj = "build_adj (pred_list p) (program_edges p)" and ?so = "scc_of (length (pred_list p)) cs"
  let ?es = "scc_edges ?so ?adj" and ?l = "\<lambda>c. l (pred_list p ! hd (cs ! c))"
  note P = ok [unfolded components_ok_def]
  have level: "?l (?so ! u) = l (pred_list p ! u)" "?so ! u < length cs" if u: "u < length (pred_list p)" for u
  proof -
    have c: "?so ! u < length cs" "u \<in> set (cs ! (?so ! u))" using component_of [of cs _ u] P u by auto
    then have "hd (cs ! (?so ! u)) \<in> set (cs ! (?so ! u))" by (intro hd_in_set) auto
    then show "?l (?so ! u) = l (pred_list p ! u)" "?so ! u < length cs"
      using c same_component_level [OF ok l nth_mem [OF c(1)]] by blast+
  qed
  have "\<forall>((su, sv), neg)\<in>set ?es. ?l su + (if neg then 1 else 0) \<le> ?l sv"
  proof clarify
    fix su sv b assume "((su, sv), b) \<in> set ?es"
    then obtain u v where e: "u < length (pred_list p)" "(v, b) \<in> set (?adj ! u)" "?so ! u = su" "?so ! v = sv"
      by (auto dest!: scc_edges_source)
    have "v < length (pred_list p)" using program_adj_ok [of p] e(1,2) by (force simp: adj_ok_def)
    then show "?l su + (if b then 1 else 0) \<le> ?l sv"
      using adj_stratified [OF l e(1,2)] level(1) [of u] level(1) [of v] e(1) unfolding e(3,4) by simp
  qed
  then have "\<forall>x<length cs. relax_passes (length cs) ?es (replicate (length cs) 0) ! x \<le> ?l x"
    using relax_passes_below [where es = ?es and l = ?l and st = "replicate (length cs) 0"] scc_edges_dag [OF ok] by simp
  then have "result_level p cs q \<le> ?l (?so ! pred_index (pred_list p) q)"
    using level(2) pred_index_nth [OF q] by (simp add: result_level_def Let_def)
  then show ?thesis using level(1) pred_index_nth [OF q] by simp
qed

lemma compute_strata_cases:
  obtains cs c where "components_ok p cs" "c \<in> set cs" "negative_scc (build_adj (pred_list p) (program_edges p)) c"
      "compute_strata p = Some (Inl (CycleThroughNegation (sort (map ((!) (pred_list p)) c))))"
  | cs where "components_ok p cs" "\<forall>c\<in>set cs. \<not> negative_scc (build_adj (pred_list p) (program_edges p)) c"
      "compute_strata p = Some (Inr (\<lambda>q. if q \<in> set (pred_list p) then Some (result_level p cs q) else None))"
proof -
  let ?adj = "build_adj (pred_list p) (program_edges p)"
  obtain cs where cs: "tarjan_sccs (length (pred_list p)) ?adj = Some cs" "components_ok p cs" using components_found by blast
  show thesis
  proof (cases "find (negative_scc ?adj) cs")
    case None
    then have "\<forall>c\<in>set cs. \<not> negative_scc ?adj c" by (simp add: find_None_iff)
    moreover have "compute_strata p = Some (Inr (\<lambda>q. if q \<in> set (pred_list p) then Some (result_level p cs q) else None))"
      using cs(1) None by (simp add: compute_strata_def Let_def strata_lookup result_level_def fun_eq_iff)
    ultimately show ?thesis using that(2) cs(2) by blast
  next
    case (Some c)
    then have "c \<in> set cs" "negative_scc ?adj c" by (auto simp: find_Some_iff)
    moreover have "compute_strata p = Some (Inl (CycleThroughNegation (sort (map ((!) (pred_list p)) c))))"
      using cs(1) Some by (simp add: compute_strata_def Let_def)
    ultimately show ?thesis using that(1) cs(2) by blast
  qed
qed

end
