(* ===== verification/Datalog_Stable.thy ===== *)
theory Datalog_Stable
  imports Datalog_Fixpoint Datalog_Lift
begin

text \<open>
  The evaluation stratum by stratum ends in the only engine model (a stable model in which rules are read as the engine reads them) of the program over its facts and those of the
  session.
\<close>

section \<open>Stable models\<close>

definition reduct_model :: "dl_rule list \<Rightarrow> fact set \<Rightarrow> fact set \<Rightarrow> fact set" where
  "reduct_model rs B N = lfp (\<lambda>I. B \<union> derivations rs N I)"

definition engine_model :: "dl_rule list \<Rightarrow> fact set \<Rightarrow> fact set \<Rightarrow> bool" where
  "engine_model rs B M \<longleftrightarrow> M = reduct_model rs B M"

definition level_ok :: "(string \<Rightarrow> nat) \<Rightarrow> dl_rule \<Rightarrow> bool" where
  "level_ok l r \<longleftrightarrow>
     (\<forall>a\<in>set (pos_atoms r). l (predicate a) \<le> l (predicate (rule_head r))) \<and>
     (\<forall>a\<in>set (neg_atoms r). l (predicate a) < l (predicate (rule_head r)))"

lemma goal_cases: "is_negated g \<longleftrightarrow> \<not> is_positive g"
  by (cases g) simp_all

lemma stratifies_level: "stratifies l p \<Longrightarrow> r \<in> set (rules p) \<Longrightarrow> level_ok l r"
  by (fastforce simp: stratifies_def level_ok_def pos_atoms_def neg_atoms_def goal_cases)

lemma inst_predicate [simp]: "fst (inst \<sigma> a) = predicate a"
  by (simp add: inst_def)

text \<open>What is derived up to a level depends on the negated facts below it only.\<close>

lemma reduct_model_agree:
  assumes l: "\<forall>r\<in>set rs. level_ok l r" and N: "\<And>f. l (fst f) < k \<Longrightarrow> f \<in> N \<longleftrightarrow> f \<in> N'"
    and f: "f \<in> reduct_model rs B N" "l (fst f) \<le> k"
  shows "f \<in> reduct_model rs B N'"
proof -
  let ?M = "reduct_model rs B N'"
  have unfold: "?M = B \<union> derivations rs N' ?M" unfolding reduct_model_def by (rule lfp_unfold [OF mono_step])
  have "reduct_model rs B N \<subseteq> {f. l (fst f) \<le> k \<longrightarrow> f \<in> ?M}" (is "_ \<subseteq> ?S")
    unfolding reduct_model_def [of rs B N]
  proof (rule lfp_lowerbound, clarify)
    fix q t assume q: "(q, t) \<in> B \<union> derivations rs N ?S" "l (fst (q, t)) \<le> k"
    show "(q, t) \<in> ?M"
    proof (cases "(q, t) \<in> B")
      case True
      then show ?thesis using unfold by blast
    next
      case False
      then obtain r \<sigma> where r: "r \<in> set rs" "pos_atoms r \<noteq> []" "fires N ?S r \<sigma>" "(q, t) = inst \<sigma> (rule_head r)"
        using q(1) by (auto simp: derivations_def)
      have h: "l (predicate (rule_head r)) \<le> k" using q(2) r(4) by (simp add: inst_def)
      note lr = l [rule_format, OF r(1), unfolded level_ok_def]
      have "\<forall>a\<in>set (pos_atoms r). inst \<sigma> a \<in> ?M"
      proof
        fix a assume a: "a \<in> set (pos_atoms r)"
        then have "l (predicate a) \<le> k" using lr h by fastforce
        then show "inst \<sigma> a \<in> ?M" using r(3) a by (simp add: fires_def)
      qed
      moreover have "\<forall>a\<in>set (neg_atoms r). \<forall>\<tau>. (\<forall>x\<in>pos_vars r. \<tau> x = \<sigma> x) \<longrightarrow> inst \<tau> a \<notin> N'"
      proof (intro ballI allI impI)
        fix a \<tau> assume a: "a \<in> set (neg_atoms r)" "\<forall>x\<in>pos_vars r. \<tau> x = \<sigma> x"
        then have "l (predicate a) < k" using lr h by fastforce
        then show "inst \<tau> a \<notin> N'" using N [of "inst \<tau> a"] r(3) a by (simp add: fires_def)
      qed
      ultimately have "fires N' ?M r \<sigma>" using r(3) by (simp add: fires_def)
      then have "(q, t) \<in> derivations rs N' ?M" using r by (auto simp: derivations_def)
      then show ?thesis using unfold by blast
    qed
  qed
  then show ?thesis using f by blast
qed

lemma engine_model_unique:
  assumes l: "\<forall>r\<in>set rs. level_ok l r" and M: "engine_model rs B M" and N: "engine_model rs B N"
  shows "M = N"
proof -
  have agree: "\<forall>f. l (fst f) < k \<longrightarrow> (f \<in> M \<longleftrightarrow> f \<in> N)" for k
  proof (induction k)
    case (Suc k)
    show ?case
    proof (intro allI impI)
      fix f :: fact assume f: "l (fst f) < Suc k"
      have "f \<in> reduct_model rs B N" if "f \<in> reduct_model rs B M"
        by (rule reduct_model_agree [OF l _ that, of k]) (use Suc f in auto)
      moreover have "f \<in> reduct_model rs B M" if "f \<in> reduct_model rs B N"
        by (rule reduct_model_agree [OF l _ that, of k]) (use Suc f in auto)
      ultimately show "f \<in> M \<longleftrightarrow> f \<in> N" using M N unfolding engine_model_def by blast
    qed
  qed simp
  show ?thesis using agree [of "Suc (l (fst _))"] by blast
qed

section \<open>Stratum by stratum\<close>

definition level_rules :: "(string \<Rightarrow> nat) \<Rightarrow> dl_rule list \<Rightarrow> nat \<Rightarrow> dl_rule list" where
  "level_rules l rs s = filter (\<lambda>r. l (predicate (rule_head r)) = s) rs"

definition strata_model :: "(string \<Rightarrow> nat) \<Rightarrow> dl_rule list \<Rightarrow> nat list \<Rightarrow> fact set \<Rightarrow> fact set" where
  "strata_model l rs ss B = fold (\<lambda>s. least_model (level_rules l rs s)) ss B"

lemma strata_model_simps [simp]:
  "strata_model l rs [] B = B"
  "strata_model l rs (s # ss) B = strata_model l rs ss (least_model (level_rules l rs s) B)"
  by (simp_all add: strata_model_def)

lemma strata_model_base: "B \<subseteq> strata_model l rs ss B"
proof (induction ss arbitrary: B)
  case (Cons s ss)
  then show ?case using base_least_model [of B "level_rules l rs s"] by fastforce
qed simp

text \<open>A stratum adds facts of its own level only.\<close>

lemma strata_model_other:
  "f \<in> strata_model l rs ss B \<Longrightarrow> l (fst f) \<notin> set ss \<Longrightarrow> f \<in> B"
proof (induction ss arbitrary: B)
  case (Cons s ss)
  have "f \<in> least_model (level_rules l rs s) B" using Cons.IH Cons.prems by simp
  moreover have "\<forall>r\<in>set (level_rules l rs s). fst f \<noteq> predicate (rule_head r)" using Cons.prems(2) by (auto simp: level_rules_def)
  ultimately show ?case using least_model_base [of "fst f" "snd f" "level_rules l rs s" B] by simp
qed simp

lemma strata_model_closed:
  assumes l: "\<forall>r\<in>set rs. level_ok l r"
  shows "sorted_wrt (<) ss \<Longrightarrow> r \<in> set rs \<Longrightarrow> l (predicate (rule_head r)) \<in> set ss \<Longrightarrow> pos_atoms r \<noteq> [] \<Longrightarrow>
    fires (strata_model l rs ss B) (strata_model l rs ss B) r \<sigma> \<Longrightarrow> inst \<sigma> (rule_head r) \<in> strata_model l rs ss B"
proof (induction ss arbitrary: B)
  case (Cons s ss)
  let ?M1 = "least_model (level_rules l rs s) B"
  let ?M = "strata_model l rs ss ?M1"
  show ?case
  proof (cases "l (predicate (rule_head r)) = s")
    case True
    have "inst \<sigma> a \<in> ?M1" if a: "a \<in> set (pos_atoms r)" for a
    proof (rule strata_model_other)
      show "inst \<sigma> a \<in> ?M" using Cons.prems(5) a by (simp add: fires_def)
      have "l (predicate a) \<le> s" using l Cons.prems(2) a True by (auto simp: level_ok_def)
      then show "l (fst (inst \<sigma> a)) \<notin> set ss" using Cons.prems(1) by auto
    qed
    moreover have "B \<subseteq> ?M" using base_least_model strata_model_base by blast
    ultimately have "fires B ?M1 r \<sigma>" using Cons.prems(5) by (auto simp: fires_def)
    then have "inst \<sigma> (rule_head r) \<in> derivations (level_rules l rs s) B ?M1"
      using Cons.prems(2,4) True by (auto simp: derivations_def level_rules_def)
    then have "inst \<sigma> (rule_head r) \<in> ?M1" by (subst least_model_unfold) blast
    then show ?thesis using subsetD [OF strata_model_base] by simp
  next
    case False
    then show ?thesis using Cons by simp
  qed
qed simp

lemma strata_model_least:
  assumes l: "\<forall>r\<in>set rs. level_ok l r"
  shows "sorted_wrt (<) ss \<Longrightarrow> B \<subseteq> X \<Longrightarrow> derivations rs (strata_model l rs ss B) X \<subseteq> X \<Longrightarrow> strata_model l rs ss B \<subseteq> X"
proof (induction ss arbitrary: B)
  case (Cons s ss)
  let ?R = "level_rules l rs s"
  let ?M1 = "least_model ?R B"
  have "derivations ?R B X \<subseteq> derivations rs (strata_model l rs (s # ss) B) X"
  proof
    fix f assume "f \<in> derivations ?R B X"
    then obtain r \<sigma> where r: "r \<in> set rs" "l (predicate (rule_head r)) = s" "pos_atoms r \<noteq> []" "fires B X r \<sigma>"
        "f = inst \<sigma> (rule_head r)" by (auto simp: derivations_def level_rules_def)
    have "inst \<tau> a \<notin> strata_model l rs (s # ss) B" if a: "a \<in> set (neg_atoms r)" "\<forall>x\<in>pos_vars r. \<tau> x = \<sigma> x" for a \<tau>
    proof
      assume "inst \<tau> a \<in> strata_model l rs (s # ss) B"
      moreover have "l (predicate a) < s" using l r(1,2) a(1) by (auto simp: level_ok_def)
      then have "l (fst (inst \<tau> a)) \<notin> set (s # ss)" using Cons.prems(1) by auto
      ultimately have "inst \<tau> a \<in> B" by (rule strata_model_other)
      then show False using r(4) a by (auto simp: fires_def)
    qed
    then have "fires (strata_model l rs (s # ss) B) X r \<sigma>" using r(4) by (auto simp: fires_def)
    then show "f \<in> derivations rs (strata_model l rs (s # ss) B) X" using r by (auto simp: derivations_def)
  qed
  then have "?M1 \<subseteq> X" using Cons.prems(2,3) by (intro least_model_least) auto
  then show ?case using Cons.IH [of ?M1] Cons.prems by simp
qed simp

lemma strata_model_stable:
  assumes l: "\<forall>r\<in>set rs. level_ok l r" and ss: "sorted_wrt (<) ss" "\<forall>r\<in>set rs. l (predicate (rule_head r)) \<in> set ss"
  shows "engine_model rs B (strata_model l rs ss B)"
proof -
  let ?M = "strata_model l rs ss B"
  have "reduct_model rs B ?M \<subseteq> ?M"
    unfolding reduct_model_def
  proof (rule lfp_lowerbound)
    have "derivations rs ?M ?M \<subseteq> ?M" using strata_model_closed [OF l ss(1)] ss(2) by (auto simp: derivations_def)
    then show "B \<union> derivations rs ?M ?M \<subseteq> ?M" using strata_model_base by simp
  qed
  moreover have "?M \<subseteq> reduct_model rs B ?M"
  proof (rule strata_model_least [OF l ss(1)])
    have "reduct_model rs B ?M = B \<union> derivations rs ?M (reduct_model rs B ?M)"
      unfolding reduct_model_def by (rule lfp_unfold [OF mono_step])
    then show "B \<subseteq> reduct_model rs B ?M" "derivations rs ?M (reduct_model rs B ?M) \<subseteq> reduct_model rs B ?M" by blast+
  qed
  ultimately show ?thesis unfolding engine_model_def by (rule antisym [rotated])
qed

section \<open>Evaluation\<close>

definition ground_facts :: "dl_atom list \<Rightarrow> fact set" where
  "ground_facts as = {(predicate a, t) | a t. a \<in> set as \<and> as_ground a = Some t}"

lemma those_consts: "list_all is_const ts \<Longrightarrow> \<exists>vs. those (map const_value ts) = Some vs"
proof (induction ts)
  case (Cons t ts)
  then show ?case by (cases t) auto
qed simp

lemma ground_as_ground: "is_ground a \<Longrightarrow> \<exists>t. as_ground a = Some t"
  by (simp add: is_ground_def as_ground_def those_consts)

lemma seed_facts_facts:
  assumes "list_all is_ground as" "tables_wf db"
  shows "\<exists>db'. seed_facts as db = Some db' \<and> tables_wf db' \<and> facts_of db' = facts_of db \<union> ground_facts as"
  using assms
proof (induction as arbitrary: db)
  case (Cons a as)
  obtain t where t: "as_ground a = Some t" using Cons.prems(1) ground_as_ground by auto
  have "ground_facts (a # as) = insert (predicate a, t) (ground_facts as)" using t by (auto simp: ground_facts_def)
  then show ?case using Cons.IH [of "db_insert (predicate a) t db"] Cons.prems t by (auto simp: db_insert_wf)
qed (simp add: ground_facts_def)

lemma fold_db_insert:
  "tables_wf db \<Longrightarrow> tables_wf (fold (db_insert p) ts db) \<and> facts_of (fold (db_insert p) ts db) = facts_of db \<union> Pair p ` set ts"
  by (induction ts arbitrary: db) (auto simp: db_insert_wf)

lemma facts_of_entries: "tables_wf db \<Longrightarrow> facts_of db = (\<Union>((p, n), ts)\<in>set db. Pair p ` set ts)"
proof -
  assume wf: "tables_wf db"
  have "(p, t) \<in> facts_of db \<longleftrightarrow> (\<exists>n ts. ((p, n), ts) \<in> set db \<and> t \<in> set ts)" for p t
  proof
    assume "(p, t) \<in> facts_of db"
    then show "\<exists>n ts. ((p, n), ts) \<in> set db \<and> t \<in> set ts" unfolding facts_mem [OF wf] by (blast dest: map_of_SomeD)
  next
    assume "\<exists>n ts. ((p, n), ts) \<in> set db \<and> t \<in> set ts"
    then obtain n ts where e: "((p, n), ts) \<in> set db" "t \<in> set ts" by blast
    then have "map_of db (p, n) = Some ts" "length t = n" using wf by (auto simp: tables_wf_def)
    then show "(p, t) \<in> facts_of db" unfolding facts_mem [OF wf] using e(2) by auto
  qed
  then show ?thesis by fastforce
qed

lemma merge_into_facts:
  assumes "tables_wf session" "tables_wf db"
  shows "tables_wf (merge_into session db) \<and> facts_of (merge_into session db) = facts_of db \<union> facts_of session"
proof -
  have "tables_wf (fold (\<lambda>((p, n), ts) db. fold (db_insert p) ts db) es db) \<and>
      facts_of (fold (\<lambda>((p, n), ts) db. fold (db_insert p) ts db) es db) = facts_of db \<union> (\<Union>((p, n), ts)\<in>set es. Pair p ` set ts)"
    if "tables_wf db" for es db
    using that
  proof (induction es arbitrary: db)
    case (Cons e es)
    obtain p n ts where e: "e = ((p, n), ts)" by (cases e) auto
    note f = fold_db_insert [OF Cons.prems, of p ts]
    show ?case using Cons.IH [OF conjunct1 [OF f]] conjunct2 [OF f] e by auto
  qed simp
  from this [OF assms(2), of session] show ?thesis using facts_of_entries [OF assms(1)] by (simp add: merge_into_def)
qed

lemma reject_bound_terms_iff: "reject_bound_terms ts = None \<longleftrightarrow> list_all no_bound_term ts"
  by (induction ts rule: reject_bound_terms.induct) auto

lemma reject_bound_terms_Some: "reject_bound_terms ts = Some n \<Longrightarrow> Bound n \<in> set ts"
  by (induction ts rule: reject_bound_terms.induct) auto

lemma reject_all_None: "reject_all as = None \<longleftrightarrow> (\<forall>a\<in>set as. no_bound a)"
  by (induction as) (simp_all add: reject_bound_def no_bound_def split: option.split flip: reject_bound_terms_iff)

lemma reject_all_Some:
  "reject_all as = Some e \<Longrightarrow> \<exists>n a. e = UnresolvedPipelineValue n a \<and> a \<in> set as \<and> Bound n \<in> set (terms a)"
  by (induction as) (auto simp: reject_bound_def dest: reject_bound_terms_Some split: option.splits)

lemma run_strata_correct:
  assumes "tables_wf db" "\<forall>rs\<in>set rss. list_all rule_no_bound rs \<and> negation_closed rs"
  shows "\<exists>db' ticks'. run_strata rss db ticks = Some (db', ticks') \<and> tables_wf db' \<and> facts_of db' = fold least_model rss (facts_of db)"
  using assms
proof (induction rss arbitrary: db ticks)
  case (Cons rs rss)
  obtain db' ticks' where s: "seminaive_fixpoint rs db ticks = Some (db', ticks')" "tables_wf db'" "facts_of db' = least_model rs (facts_of db)"
    using seminaive_fixpoint_correct [of db rs ticks] Cons.prems by auto
  then show ?case using Cons.IH [of db' ticks'] Cons.prems(2) by simp
qed simp

definition level_of :: "(string \<rightharpoonup> nat) \<Rightarrow> string \<Rightarrow> nat" where
  "level_of strata q = (case strata q of Some s \<Rightarrow> s | None \<Rightarrow> 0)"

definition stratum_list :: "(string \<rightharpoonup> nat) \<Rightarrow> dl_rule list \<Rightarrow> nat list" where
  "stratum_list strata rs = sort (remdups (map (stratum_of strata) rs))"

lemma rules_by_stratum_levels:
  "rules_by_stratum strata rs = map (level_rules (level_of strata) rs) (stratum_list strata rs)"
  by (simp add: rules_by_stratum_def level_rules_def stratum_list_def stratum_of_def level_of_def)

lemma stratum_list_ok:
  "sorted_wrt (<) (stratum_list strata rs)" "\<forall>r\<in>set rs. level_of strata (predicate (rule_head r)) \<in> set (stratum_list strata rs)"
  by (auto simp: stratum_list_def strict_sorted_iff stratum_of_def level_of_def)

lemma fold_strata: "fold least_model (map (level_rules l rs) ss) B = strata_model l rs ss B"
  by (simp add: strata_model_def fold_map comp_def)

lemma level_rules_negation: "\<forall>r\<in>set rs. level_ok l r \<Longrightarrow> negation_closed (level_rules l rs s)"
  by (fastforce simp: negation_closed_def level_rules_def level_ok_def)

lemma program_atoms_rules: "\<forall>a\<in>set (program_atoms p). no_bound a \<Longrightarrow> list_all rule_no_bound (rules p)"
  by (auto simp: program_atoms_def rule_no_bound_def list_all_iff)

lemma strata_evaluation:
  assumes wf: "tables_wf db" and nb: "list_all rule_no_bound rs" and l: "\<forall>r\<in>set rs. level_ok (level_of strata) r"
  shows "\<exists>db' ticks'. run_strata (rules_by_stratum strata rs) db ticks = Some (db', ticks') \<and> tables_wf db' \<and>
    (\<forall>M. engine_model rs (facts_of db) M \<longleftrightarrow> M = facts_of db')"
proof -
  let ?l = "level_of strata" and ?ss = "stratum_list strata rs"
  have "\<forall>rs'\<in>set (rules_by_stratum strata rs). list_all rule_no_bound rs' \<and> negation_closed rs'"
    using nb level_rules_negation [OF l] by (auto simp: rules_by_stratum_levels list_all_iff) (simp add: level_rules_def)
  then obtain db' ticks' where r: "run_strata (rules_by_stratum strata rs) db ticks = Some (db', ticks')" "tables_wf db'"
      "facts_of db' = strata_model ?l rs ?ss (facts_of db)"
    using run_strata_correct [OF wf, of "rules_by_stratum strata rs" ticks] fold_strata [of ?l rs ?ss]
    unfolding rules_by_stratum_levels by auto
  have "engine_model rs (facts_of db) (facts_of db')"
    unfolding r(3) by (rule strata_model_stable [OF l stratum_list_ok])
  then have "\<forall>M. engine_model rs (facts_of db) M \<longleftrightarrow> M = facts_of db'" using engine_model_unique [OF l] by blast
  then show ?thesis using r(1,2) by blast
qed

lemma result_levels:
  assumes "compute_strata p = Some (Inr strata)"
  shows "\<forall>r\<in>set (rules p). level_ok (level_of strata) r"
proof (rule compute_strata_cases [of p])
  fix cs assume cs: "components_ok p cs" "\<forall>c\<in>set cs. \<not> negative_scc (build_adj (pred_list p) (program_edges p)) c"
    "compute_strata p = Some (Inr (\<lambda>q. if q \<in> set (pred_list p) then Some (result_level p cs q) else None))"
  then have strata: "strata = (\<lambda>q. if q \<in> set (pred_list p) then Some (result_level p cs q) else None)" using assms by simp
  have "stratifies (level_of strata) p"
    using result_stratifies [OF cs(1,2)] edges_in_preds [of _ _ _ p]
    by (fastforce simp: stratifies_edges level_of_def strata)
  then show ?thesis using stratifies_level by blast
qed (use assms in simp_all)

end
