(* ===== verification/Text_Format.thy ===== *)
theory Text_Format
  imports Main
begin

text \<open>
  The formatting of numbers that the sources take from the standard library: hexadecimal digits and
  \<^verbatim>\<open>{}\<close> of a natural number.
\<close>

definition hex_digit :: "nat \<Rightarrow> char" where
  "hex_digit n = ''0123456789abcdef'' ! n"

fun decimal :: "nat \<Rightarrow> string" where
  "decimal n = (if n < 10 then [hex_digit n] else decimal (n div 10) @ [hex_digit (n mod 10)])"

declare decimal.simps [simp del]

end
