(* ===== verification/Datalog_Evaluator.thy ===== *)
theory Datalog_Evaluator
  imports Text_Format Datalog_Strata
begin

text \<open>
  The query entry points of \<^verbatim>\<open>crates/paideia-as-shell-datalog/src/eval.rs\<close> (\<^verbatim>\<open>Evaluator\<close>) and what they call: the
  magic-set rewriting (\<^verbatim>\<open>magic_sets.rs\<close>), the schema check (\<^verbatim>\<open>type_check.rs\<close>), the typed graph
  (\<^verbatim>\<open>typed_graph.rs\<close>) and the fingerprint tags (\<^verbatim>\<open>fingerprint.rs\<close>).  Aggregate queries are not modelled.
\<close>

section \<open>Magic sets\<close>

type_synonym adornment = "bool list"
type_synonym adorned_pred = "string \<times> adornment"

fun var_name :: "dl_term \<Rightarrow> string list" where
  "var_name (Var x) = [x]"
| "var_name _ = []"

definition atom_vars :: "dl_atom \<Rightarrow> string list" where
  "atom_vars a = concat (map var_name (terms a))"

definition select_bound :: "dl_atom \<Rightarrow> adornment \<Rightarrow> dl_term list" where
  "select_bound a adr = map fst (filter snd (zip (terms a) adr))"

definition head_bound :: "dl_atom \<Rightarrow> adornment \<Rightarrow> string list" where
  "head_bound a adr = concat (map var_name (select_bound a adr))"

definition compute_adornment :: "dl_atom \<Rightarrow> string list \<Rightarrow> adornment" where
  "compute_adornment a bound_vars =
     map (\<lambda>t. case t of Const _ \<Rightarrow> True | Var name \<Rightarrow> name \<in> set bound_vars | Bound _ \<Rightarrow> False) (terms a)"

definition magic_pred_name :: "string \<Rightarrow> adornment \<Rightarrow> string" where
  "magic_pred_name pred adr = ''magic_'' @ pred @ ''_'' @ map (\<lambda>b. if b then CHR ''b'' else CHR ''f'') adr"

definition build_magic_atom :: "dl_atom \<Rightarrow> adornment \<Rightarrow> dl_atom option" where
  "build_magic_atom source adr =
     (let args = select_bound source adr
      in if args = [] then None else Some \<lparr>predicate = magic_pred_name (predicate source) adr, terms = args\<rparr>)"

text \<open>The walk over a body: the adorned intensional goals, with the variables bound so far.\<close>

fun propagate_goals :: "string list \<Rightarrow> string list \<Rightarrow> body_goal list \<Rightarrow> adorned_pred list" where
  "propagate_goals idb bound_vars [] = []"
| "propagate_goals idb bound_vars (bi # body) =
     (if \<not> is_positive bi then propagate_goals idb bound_vars body
      else
        (let bi_atom = goal_atom bi;
             beta_i = compute_adornment bi_atom bound_vars
         in (if predicate bi_atom \<in> set idb then [(predicate bi_atom, beta_i)] else []) @
            propagate_goals idb (atom_vars bi_atom @ bound_vars) body))"

definition propagate_sip :: "dl_rule \<Rightarrow> adornment \<Rightarrow> string list \<Rightarrow> adorned_pred list" where
  "propagate_sip r adr idb = propagate_goals idb (head_bound (rule_head r) adr) (rule_body r)"

text \<open>The breadth-first search for the adorned predicates.\<close>

type_synonym adorn_state = "adorned_pred list \<times> adorned_pred list"

definition adorn_step :: "dl_rule list \<Rightarrow> string list \<Rightarrow> adorn_state \<Rightarrow> adorn_state" where
  "adorn_step rs idb = (\<lambda>(adorned, worklist).
     case worklist of
       [] \<Rightarrow> (adorned, worklist)
     | (pred, adr) # wl \<Rightarrow>
         if (pred, adr) \<in> set adorned then (adorned, wl)
         else ((pred, adr) # adorned,
               wl @ concat (map (\<lambda>r. propagate_sip r adr idb)
                 (filter (\<lambda>r. predicate (rule_head r) = pred \<and> length (terms (rule_head r)) = length adr) rs))))"

definition adorn :: "dl_rule list \<Rightarrow> string list \<Rightarrow> adorned_pred \<Rightarrow> adorned_pred list option" where
  "adorn rs idb q = map_option fst (while_option (\<lambda>(adorned, worklist). worklist \<noteq> []) (adorn_step rs idb) ([], [q]))"

text \<open>The supplementary rules and facts of one rule under one adornment of its head.\<close>

fun magic_goals ::
    "string list \<Rightarrow> adorned_pred list \<Rightarrow> dl_atom option \<Rightarrow> string list \<Rightarrow> dl_atom list \<Rightarrow> body_goal list \<Rightarrow>
     dl_rule list \<times> dl_atom list" where
  "magic_goals idb adorned magic_guard bound_vars prev_body [] = ([], [])"
| "magic_goals idb adorned magic_guard bound_vars prev_body (bi # body) =
     (if \<not> is_positive bi then magic_goals idb adorned magic_guard bound_vars prev_body body
      else
        (let bi_atom = goal_atom bi;
             beta_i = compute_adornment bi_atom bound_vars;
             (rs, fs) = magic_goals idb adorned magic_guard (atom_vars bi_atom @ bound_vars) (prev_body @ [bi_atom]) body
         in if predicate bi_atom \<in> set idb \<and> (predicate bi_atom, beta_i) \<in> set adorned then
              (case build_magic_atom bi_atom beta_i of
                 None \<Rightarrow> (rs, fs)
               | Some bi_magic \<Rightarrow>
                   (let mrule_body = (case magic_guard of Some g \<Rightarrow> [Positive g] | None \<Rightarrow> []) @ map Positive prev_body
                    in if mrule_body = [] then (rs, (if is_ground bi_magic then [bi_magic] else []) @ fs)
                       else (\<lparr>rule_head = bi_magic, rule_body = mrule_body\<rparr> # rs, fs)))
            else (rs, fs)))"

definition rewrite_rule :: "string list \<Rightarrow> adorned_pred list \<Rightarrow> dl_rule \<Rightarrow> adornment \<Rightarrow> dl_rule list \<times> dl_atom list" where
  "rewrite_rule idb adorned r adr =
     (let magic_guard = build_magic_atom (rule_head r) adr;
          guarded = \<lparr>rule_head = rule_head r,
                     rule_body = (case magic_guard of Some g \<Rightarrow> [Positive g] | None \<Rightarrow> []) @ rule_body r\<rparr>;
          (rs, fs) = magic_goals idb adorned magic_guard (head_bound (rule_head r) adr) [] (rule_body r)
      in (guarded # rs, fs))"

definition head_adornments :: "adorned_pred list \<Rightarrow> dl_rule \<Rightarrow> adornment list" where
  "head_adornments adorned r =
     map snd (filter (\<lambda>(p, a). p = predicate (rule_head r) \<and> length a = length (terms (rule_head r))) adorned)"

definition rewrite_rules :: "string list \<Rightarrow> adorned_pred list \<Rightarrow> dl_rule list \<Rightarrow> (dl_rule list \<times> dl_atom list) list" where
  "rewrite_rules idb adorned rs = concat (map (\<lambda>r. map (rewrite_rule idb adorned r) (head_adornments adorned r)) rs)"

definition query_adornment :: "dl_atom \<Rightarrow> adornment" where
  "query_adornment a = map is_const (terms a)"

definition query_seed :: "dl_atom \<Rightarrow> dl_atom list" where
  "query_seed q_head =
     (let seed_terms = select_bound q_head (query_adornment q_head);
          seed = \<lparr>predicate = magic_pred_name (predicate q_head) (query_adornment q_head), terms = seed_terms\<rparr>
      in if seed_terms \<noteq> [] \<and> is_ground seed then [seed] else [])"

text \<open>\<^verbatim>\<open>magic_sets::rewrite\<close>; \<open>None\<close> is a search that does not end.\<close>

definition magic_rewrite :: "dl_program \<Rightarrow> dl_query \<Rightarrow> dl_program option" where
  "magic_rewrite p q =
     (case goals q of
        [] \<Rightarrow> Some p
      | q_head # _ \<Rightarrow>
          if \<not> list_ex (\<lambda>b. b) (query_adornment q_head) then Some p
          else
            (let idb = map (predicate \<circ> rule_head) (rules p)
             in case adorn (rules p) idb (predicate q_head, query_adornment q_head) of
                  None \<Rightarrow> None
                | Some adorned \<Rightarrow>
                    (let out = rewrite_rules idb adorned (rules p)
                     in Some \<lparr>rules = concat (map fst out),
                              program_facts = program_facts p @ concat (map snd out) @ query_seed q_head\<rparr>)))"

section \<open>Schema check\<close>

datatype value_type = T_Ident | T_Str | T_Num | T_Float | T_Any

fun type_of_value :: "dl_value \<Rightarrow> value_type" where
  "type_of_value (V_Ident _) = T_Ident"
| "type_of_value (V_Str _) = T_Str"
| "type_of_value (V_Num _) = T_Num"
| "type_of_value (V_Float _) = T_Float"

definition satisfies :: "value_type \<Rightarrow> value_type \<Rightarrow> bool" where
  "satisfies t expected \<longleftrightarrow> expected = T_Any \<or> t = expected"

record predicate_signature =
  sig_predicate :: string
  sig_arity :: nat
  arg_types :: "value_type list"

text \<open>\<^verbatim>\<open>PredicateSignature::new\<close>; \<open>None\<close> is the failed assertion.\<close>

definition new_signature :: "string \<Rightarrow> nat \<Rightarrow> value_type list \<Rightarrow> predicate_signature option" where
  "new_signature p n ts =
     (if length ts = n then Some \<lparr>sig_predicate = p, sig_arity = n, arg_types = ts\<rparr> else None)"

type_synonym schema_registry = "dl_key \<rightharpoonup> predicate_signature"

definition register_signature :: "predicate_signature \<Rightarrow> schema_registry \<Rightarrow> schema_registry" where
  "register_signature sig reg = reg((sig_predicate sig, sig_arity sig) \<mapsto> sig)"

datatype type_error =
    UnknownPredicate string nat
  | ArityMismatch string nat nat
  | TypeMismatch string nat value_type value_type

text \<open>The loop over the slots; \<open>None\<close> is an index outside \<^verbatim>\<open>arg_types\<close>.\<close>

fun check_slots :: "string \<Rightarrow> nat \<Rightarrow> dl_term list \<Rightarrow> value_type list \<Rightarrow> type_error list option" where
  "check_slots p i [] ts = Some []"
| "check_slots p i (t # us) [] = None"
| "check_slots p i (t # us) (expected # ts) =
     (case check_slots p (i + 1) us ts of
        None \<Rightarrow> None
      | Some errs \<Rightarrow>
          Some ((case t of
                   Const v \<Rightarrow>
                     (if satisfies (type_of_value v) expected then []
                      else [TypeMismatch p i expected (type_of_value v)])
                 | _ \<Rightarrow> []) @ errs))"

definition check_atom :: "schema_registry \<Rightarrow> dl_atom \<Rightarrow> type_error list option" where
  "check_atom reg a =
     (case reg (predicate a, arity a) of
        None \<Rightarrow> Some [UnknownPredicate (predicate a) (arity a)]
      | Some sig \<Rightarrow>
          if sig_arity sig \<noteq> arity a then Some [ArityMismatch (predicate a) (sig_arity sig) (arity a)]
          else check_slots (predicate a) 0 (terms a) (arg_types sig))"

fun check_atoms :: "schema_registry \<Rightarrow> dl_atom list \<Rightarrow> type_error list option" where
  "check_atoms reg [] = Some []"
| "check_atoms reg (a # as) =
     (case check_atom reg a of
        None \<Rightarrow> None
      | Some errs \<Rightarrow> map_option ((@) errs) (check_atoms reg as))"

definition check_program :: "schema_registry \<Rightarrow> dl_program \<Rightarrow> type_error list option" where
  "check_program reg p = check_atoms reg (program_atoms p)"

section \<open>Typed graph\<close>

record graph_edge =
  edge_from :: string
  edge_to :: string
  edge_label :: string

record typed_graph =
  graph_nodes :: "string \<rightharpoonup> string"
  graph_edges :: "(string \<times> graph_edge list) list"

definition graph_new :: typed_graph where
  "graph_new = \<lparr>graph_nodes = Map.empty, graph_edges = []\<rparr>"

definition outgoing :: "typed_graph \<Rightarrow> string \<Rightarrow> graph_edge list" where
  "outgoing g src = (case map_of (graph_edges g) src of Some es \<Rightarrow> es | None \<Rightarrow> [])"

definition add_node :: "string \<Rightarrow> string \<Rightarrow> typed_graph \<Rightarrow> typed_graph" where
  "add_node i ty g = g\<lparr>graph_nodes := (graph_nodes g)(i \<mapsto> ty)\<rparr>"

definition add_edge :: "string \<Rightarrow> string \<Rightarrow> string \<Rightarrow> typed_graph \<Rightarrow> typed_graph" where
  "add_edge src tgt label g =
     g\<lparr>graph_edges := AList.update src (outgoing g src @ [\<lparr>edge_from = src, edge_to = tgt, edge_label = label\<rparr>]) (graph_edges g)\<rparr>"

text \<open>A node is its id with its type; edges to ids without a node are dropped.\<close>

definition children_of :: "typed_graph \<Rightarrow> string \<Rightarrow> string \<Rightarrow> (string \<times> string) list" where
  "children_of g i label =
     List.map_filter (\<lambda>e. map_option (Pair (edge_to e)) (graph_nodes g (edge_to e)))
       (filter (\<lambda>e. edge_label e = label) (outgoing g i))"

definition edges_with_label :: "typed_graph \<Rightarrow> string \<Rightarrow> graph_edge list" where
  "edges_with_label g label =
     concat (map (\<lambda>src. filter (\<lambda>e. edge_label e = label) (outgoing g src)) (sort (map fst (graph_edges g))))"

section \<open>Evaluator\<close>

text \<open>The sinks are the lists of what was emitted into them.\<close>

record evaluator =
  next_query_id :: u64
  fingerprints :: "string list"
  progress :: "tick list"
  graph_predicates :: "(string \<times> (typed_graph \<times> string)) list"

definition new_evaluator :: evaluator where
  "new_evaluator = \<lparr>next_query_id = 0, fingerprints = [], progress = [], graph_predicates = []\<rparr>"

text \<open>\<^verbatim>\<open>{:016x}\<close> of a 64-bit value.\<close>

definition hex16 :: "u64 \<Rightarrow> string" where
  "hex16 w = map (\<lambda>i. hex_digit (unat (and (drop_bit (4 * (15 - i)) w) 15))) [0..<16]"

definition format_tag :: "u64 \<Rightarrow> nat \<Rightarrow> string" where
  "format_tag i result_count = ''dlg.'' @ hex16 i @ ''.'' @ decimal result_count"

text \<open>\<^verbatim>\<open>next_query_id\<close> followed by \<^verbatim>\<open>emit_fingerprint\<close>.\<close>

definition emit_fingerprint :: "nat \<Rightarrow> evaluator \<Rightarrow> evaluator" where
  "emit_fingerprint result_count ev =
     ev\<lparr>next_query_id := next_query_id ev + 1,
        fingerprints := fingerprints ev @ [format_tag (next_query_id ev) result_count]\<rparr>"

datatype query_error = EvalFailed eval_error | TypeCheckErrors "type_error list"

type_synonym 'a query_result = "(evaluator \<times> (query_error + 'a)) option"

text \<open>
  The common shape of the entry points: materialise, answer, and on success emit a fingerprint.  A failure leaves
  the counter and the fingerprints as they are; every error of the evaluation precedes its first tick.
\<close>

definition answer_query :: "(eval_error + dl_tables \<times> tick list) option \<Rightarrow> dl_query \<Rightarrow> evaluator \<Rightarrow> binding list query_result" where
  "answer_query materialised q ev =
     (case materialised of
        None \<Rightarrow> None
      | Some (Inl e) \<Rightarrow> Some (ev, Inl (EvalFailed e))
      | Some (Inr (db, ticks)) \<Rightarrow>
          (let ev = ev\<lparr>progress := ticks\<rparr>
           in case run_goals db q of
                Inl e \<Rightarrow> Some (ev, Inl (EvalFailed e))
              | Inr bindings \<Rightarrow> Some (emit_fingerprint (length bindings) ev, Inr bindings)))"

definition run_query :: "dl_program \<Rightarrow> dl_query \<Rightarrow> evaluator \<Rightarrow> binding list query_result" where
  "run_query p q ev = answer_query (evaluate_stratified p (progress ev)) q ev"

definition run_query_typed :: "dl_program \<Rightarrow> dl_query \<Rightarrow> schema_registry \<Rightarrow> evaluator \<Rightarrow> binding list query_result" where
  "run_query_typed p q reg ev =
     (case check_program reg p of
        None \<Rightarrow> None
      | Some es \<Rightarrow>
          (case check_atoms reg (goals q) of
             None \<Rightarrow> None
           | Some es' \<Rightarrow>
               if es @ es' \<noteq> [] then Some (ev, Inl (TypeCheckErrors (es @ es')))
               else run_query p q ev))"

definition materialise :: "(eval_error + dl_tables \<times> tick list) option \<Rightarrow> evaluator \<Rightarrow> dl_tables query_result" where
  "materialise m ev =
     (case m of
        None \<Rightarrow> None
      | Some (Inl e) \<Rightarrow> Some (ev, Inl (EvalFailed e))
      | Some (Inr (db, ticks)) \<Rightarrow> Some (emit_fingerprint (total_tuple_count db) (ev\<lparr>progress := ticks\<rparr>), Inr db))"

definition run_stratified :: "dl_program \<Rightarrow> evaluator \<Rightarrow> dl_tables query_result" where
  "run_stratified p ev = materialise (evaluate_stratified p (progress ev)) ev"

definition run_stratified_with_session :: "dl_program \<Rightarrow> dl_tables \<Rightarrow> evaluator \<Rightarrow> dl_tables query_result" where
  "run_stratified_with_session p session ev = materialise (evaluate_with_session p session (progress ev)) ev"

definition run_query_via_magic_sets :: "dl_program \<Rightarrow> dl_query \<Rightarrow> evaluator \<Rightarrow> binding list query_result" where
  "run_query_via_magic_sets p q ev =
     (case magic_rewrite p q of
        None \<Rightarrow> None
      | Some rewritten \<Rightarrow> answer_query (evaluate_stratified rewritten (progress ev)) q ev)"

definition run_query_with_session :: "dl_program \<Rightarrow> dl_query \<Rightarrow> dl_tables \<Rightarrow> evaluator \<Rightarrow> binding list query_result" where
  "run_query_with_session p q session ev = answer_query (evaluate_with_session p session (progress ev)) q ev"

definition register_graph_predicate :: "string \<Rightarrow> typed_graph \<Rightarrow> string \<Rightarrow> evaluator \<Rightarrow> evaluator" where
  "register_graph_predicate p g label ev = ev\<lparr>graph_predicates := AList.update p (g, label) (graph_predicates ev)\<rparr>"

definition build_graph_session :: "evaluator \<Rightarrow> dl_tables" where
  "build_graph_session ev =
     fold (\<lambda>(p, g, label) session.
        fold (\<lambda>e session. snd (session_assert p [V_Ident (edge_from e), V_Ident (edge_to e)] session))
          (edges_with_label g label) session)
       (graph_predicates ev) []"

definition run_query_with_graph :: "dl_program \<Rightarrow> dl_query \<Rightarrow> evaluator \<Rightarrow> binding list query_result" where
  "run_query_with_graph p q ev = run_query_with_session p q (build_graph_session ev) ev"

end
