(* ===== verification/Datalog_Queries.thy ===== *)
theory Datalog_Queries
  imports Datalog_Stable Datalog_Evaluator
begin

text \<open>
  Queries return exactly the substitutions that satisfy their goals; the session store behaves as a set of facts.
\<close>

section \<open>Answers\<close>

definition goal_vars :: "dl_atom list \<Rightarrow> string set" where
  "goal_vars as = (\<Union>a\<in>set as. vars a)"

definition answers :: "fact set \<Rightarrow> dl_atom list \<Rightarrow> binding set" where
  "answers M as = {b. dom b = goal_vars as \<and> (\<forall>\<sigma>. agrees b \<sigma> \<longrightarrow> (\<forall>a\<in>set as. inst \<sigma> a \<in> M))}"

lemma agrees_same_dom:
  assumes "agrees b \<sigma>" "agrees b' \<sigma>" "dom b = dom b'"
  shows "b = b'"
proof
  fix x
  show "b x = b' x"
  proof (cases "b x")
    case None
    then show ?thesis using assms(3) by (metis domIff)
  next
    case (Some v)
    then obtain v' where "b' x = Some v'" using assms(3) by (auto simp: dom_def set_eq_iff)
    then show ?thesis using Some assms(1,2) by (auto simp: agrees_def)
  qed
qed

lemma join_answers:
  assumes wf: "tables_wf db" and nb: "\<forall>a\<in>set as. no_bound a"
  shows "set (join db as [Map.empty]) = answers (facts_of db) as"
proof (intro equalityI subsetI)
  fix b assume "b \<in> set (join db as [Map.empty])"
  from join_sound [OF wf this] show "b \<in> answers (facts_of db) as" by (auto simp: answers_def goal_vars_def)
next
  fix b assume b: "b \<in> answers (facts_of db) as"
  then have "\<forall>a\<in>set as. no_bound a \<and> inst (fill b) a \<in> facts_of db" using nb by (auto simp: answers_def)
  then obtain b' where b': "b' \<in> set (join db as [Map.empty])" "agrees b' (fill b)"
    using join_complete [OF wf, of Map.empty "[Map.empty]" "fill b" as] by auto
  have "dom b' = dom b" using join_sound [OF wf b'(1)] b by (auto simp: answers_def goal_vars_def)
  then have "b = b'" using agrees_same_dom [OF _ b'(2)] by simp
  then show "b \<in> set (join db as [Map.empty])" using b'(1) by simp
qed

lemma fold_eval_goal: "fold (eval_goal db) as bs = join db as bs"
  by (simp add: join_def eval_goal_def [abs_def])

lemma run_goals_join: "reject_all (goals q) = None \<Longrightarrow> run_goals db q = Inr (join db (goals q) [Map.empty])"
  by (simp add: run_goals_def fold_eval_goal) (simp add: join_def)

lemma run_goals_cases:
  assumes wf: "tables_wf db"
  shows "(\<exists>n a. run_goals db q = Inl (UnresolvedPipelineValue n a) \<and> a \<in> set (goals q) \<and> Bound n \<in> set (terms a)) \<or>
    (\<forall>a\<in>set (goals q). no_bound a) \<and> (\<exists>bs. run_goals db q = Inr bs \<and> set bs = answers (facts_of db) (goals q))"
proof (cases "reject_all (goals q)")
  case None
  then have nb: "\<forall>a\<in>set (goals q). no_bound a" by (simp add: reject_all_None)
  have "run_goals db q = Inr (join db (goals q) [Map.empty])"
    by (rule run_goals_join [OF None])
  then show ?thesis using nb join_answers [OF wf nb] by blast
next
  case (Some e)
  then show ?thesis using reject_all_Some [OF Some] by (auto simp: run_goals_def)
qed

text \<open>No answer is listed twice.\<close>

lemma map_filter_distinct:
  assumes "distinct xs" "\<And>x y z. x \<in> set xs \<Longrightarrow> y \<in> set xs \<Longrightarrow> f x = Some z \<Longrightarrow> f y = Some z \<Longrightarrow> x = y"
  shows "distinct (List.map_filter f xs)"
  using assms
proof (induction xs)
  case (Cons x xs)
  have "distinct (List.map_filter f xs)" using Cons by (simp add: Cons.IH)
  then show ?case using Cons.prems by (auto simp: map_filter_simps set_map_filter split: option.split)
qed (simp add: map_filter_simps)

lemma unify_atom_inj:
  assumes "unify_atom a t b = Some b'" "unify_atom a t' b = Some b'"
  shows "t = t'"
  using unify_atom_sound(3) [OF assms(1), of "fill b'"] unify_atom_sound(3) [OF assms(2), of "fill b'"] by simp

lemma extend_distinct:
  assumes "tables_wf db" "distinct bs" "\<And>b. b \<in> set bs \<Longrightarrow> dom b = D"
  shows "distinct (extend_with_db a db bs)"
  using assms(2,3)
proof (induction bs)
  case (Cons b bs)
  let ?new = "\<lambda>b. List.map_filter (\<lambda>t. unify_atom a t b) (candidates db a)"
  have "distinct (candidates db a)" using tables_wf_distinct [OF assms(1)] by (simp add: candidates_def)
  then have "distinct (?new b)" using unify_atom_inj by (intro map_filter_distinct) blast+
  moreover have "b = c" if "c \<in> set bs" "b' \<in> set (?new b)" "b' \<in> set (?new c)" for c b'
  proof -
    have le: "b \<subseteq>\<^sub>m b'" "c \<subseteq>\<^sub>m b'" using that(2,3) unify_atom_sound(1) by (auto simp: set_map_filter)
    have "dom b = dom c" using Cons.prems(2) that(1) by simp
    with le show ?thesis by (intro ext) (metis domIff map_le_def)
  qed
  ultimately show ?case using Cons by (fastforce simp: extend_with_db_def)
qed (simp add: extend_with_db_def)

lemma join_distinct:
  assumes "tables_wf db"
  shows "distinct bs \<Longrightarrow> (\<And>b. b \<in> set bs \<Longrightarrow> dom b = D) \<Longrightarrow> distinct (join db as bs)"
proof (induction as arbitrary: bs D)
  case (Cons a as)
  have "dom b' = D \<union> vars a" if "b' \<in> set (extend_with_db a db bs)" for b'
    using extend_sound [OF assms that] Cons.prems(2) by metis
  moreover have "distinct (extend_with_db a db bs)" by (rule extend_distinct [OF assms Cons.prems])
  ultimately show ?case using Cons.IH by (simp add: join_def)
qed (simp add: join_def)

lemma run_goals_distinct:
  assumes "tables_wf db" "run_goals db q = Inr bs"
  shows "distinct bs"
proof -
  have "bs = join db (goals q) [Map.empty]"
    using assms(2) run_goals_join [of q db] by (cases "reject_all (goals q)") (simp_all add: run_goals_def)
  then show ?thesis using join_distinct [OF assms(1), of "[Map.empty]" "{}"] by simp
qed

section \<open>Session facts\<close>

lemma session_assert_facts:
  assumes "tables_wf s"
  shows "tables_wf (snd (session_assert p args s))"
    "facts_of (snd (session_assert p args s)) = insert (p, args) (facts_of s)"
    "fst (session_assert p args s) = (if (p, args) \<in> facts_of s then AlreadyPresent else Added)"
  using assms by (simp_all add: session_assert_def Let_def entry_insert_wf facts_entry_insert in_relation)

lemma session_retract_facts:
  assumes "tables_wf s"
  shows "tables_wf (snd (session_retract p args s))"
    "facts_of (snd (session_retract p args s)) = facts_of s - {(p, args)}"
    "fst (session_retract p args s) = (if (p, args) \<in> facts_of s then Removed else NotFound)"
proof -
  let ?k = "(p, length args)"
  have mem: "(p, args) \<in> facts_of s \<longleftrightarrow> (\<exists>ts. map_of s ?k = Some ts \<and> args \<in> set ts)" by (rule facts_mem [OF assms])
  have upd: "tables_wf (AList.update ?k (removeAll args ts) s)"
    "facts_of (AList.update ?k (removeAll args ts) s) = facts_of s - {(p, args)}" if "map_of s ?k = Some ts" for ts
  proof -
    have ts: "relation_of s ?k = ts" using that by (simp add: relation_of_def)
    show "tables_wf (AList.update ?k (removeAll args ts) s)"
      using tables_wf_relation [OF assms, of _ ?k] tables_wf_distinct [OF assms, of ?k] ts
      by (intro tables_wf_update [OF assms]) (auto simp: distinct_removeAll)
    show "facts_of (AList.update ?k (removeAll args ts) s) = facts_of s - {(p, args)}"
      using ts by (auto simp: facts_of_def relation_of_update split: if_splits)
  qed
  show "tables_wf (snd (session_retract p args s))" "facts_of (snd (session_retract p args s)) = facts_of s - {(p, args)}"
    "fst (session_retract p args s) = (if (p, args) \<in> facts_of s then Removed else NotFound)"
    using upd mem assms by (auto simp: session_retract_def split: option.splits)
qed

text \<open>A session is a sequence of assertions and retractions.\<close>

datatype session_op = Assert string dl_tuple | Retract string dl_tuple

fun session_step :: "session_op \<Rightarrow> dl_tables \<Rightarrow> dl_tables" where
  "session_step (Assert p args) s = snd (session_assert p args s)"
| "session_step (Retract p args) s = snd (session_retract p args s)"

fun fact_step :: "session_op \<Rightarrow> fact set \<Rightarrow> fact set" where
  "fact_step (Assert p args) F = insert (p, args) F"
| "fact_step (Retract p args) F = F - {(p, args)}"

lemma session_step_facts:
  "tables_wf s \<Longrightarrow> tables_wf (session_step op s) \<and> facts_of (session_step op s) = fact_step op (facts_of s)"
  by (cases op) (simp_all add: session_assert_facts session_retract_facts)

lemma session_steps_facts:
  "tables_wf s \<Longrightarrow> tables_wf (fold session_step ops s) \<and> facts_of (fold session_step ops s) = fold fact_step ops (facts_of s)"
  by (induction ops arbitrary: s) (simp_all add: session_step_facts)

section \<open>Evaluation\<close>

definition program_ok :: "dl_program \<Rightarrow> bool" where
  "program_ok p \<longleftrightarrow> list_all is_ground (program_facts p) \<and> list_all no_bound (program_atoms p)"

definition extensional :: "dl_program \<Rightarrow> dl_tables \<Rightarrow> fact set" where
  "extensional p session = ground_facts (program_facts p) \<union> facts_of session"

lemma compute_strata_Inr:
  assumes "stratifies l p"
  obtains strata where "compute_strata p = Some (Inr strata)"
  using negative_scc_unstratified assms by (cases rule: compute_strata_cases [of p]) blast+

lemma evaluate_accepts:
  assumes wf: "tables_wf session" and ok: "program_ok p" and l: "stratifies l p"
  shows "\<exists>db ticks'. evaluate_with_session p session ticks = Some (Inr (db, ticks')) \<and> tables_wf db \<and>
    (\<forall>M. engine_model (rules p) (extensional p session) M \<longleftrightarrow> M = facts_of db)"
proof -
  have nb: "\<forall>a\<in>set (program_atoms p). no_bound a" and ground: "list_all is_ground (program_facts p)"
    using ok by (simp_all add: program_ok_def list_all_iff)
  obtain strata where st: "compute_strata p = Some (Inr strata)" using compute_strata_Inr [OF l] .
  obtain db0 where db0: "seed_facts (program_facts p) [] = Some db0" "tables_wf db0" "facts_of db0 = ground_facts (program_facts p)"
    using seed_facts_facts [OF ground tables_wf_Nil] by auto
  let ?db = "merge_into session db0"
  have m: "tables_wf ?db" "facts_of ?db = extensional p session"
    using merge_into_facts [OF wf db0(2)] db0(3) by (simp_all add: extensional_def)
  have rej: "reject_all (program_atoms p) = None" using nb by (simp add: reject_all_None)
  obtain db' ticks' where run: "run_strata (rules_by_stratum strata (rules p)) ?db ticks = Some (db', ticks')" "tables_wf db'"
      "\<forall>M. engine_model (rules p) (facts_of ?db) M \<longleftrightarrow> M = facts_of db'"
    using strata_evaluation [OF m(1) program_atoms_rules [OF nb] result_levels [OF st], of ticks] by blast
  show ?thesis
  proof (cases "rules p = []")
    case True
    then have "db' = ?db" using run(1) by (simp add: rules_by_stratum_def)
    then show ?thesis using True run m rej st db0(1) by (simp add: evaluate_with_session_def Let_def)
  next
    case False
    then show ?thesis using run m rej st db0(1) by (simp add: evaluate_with_session_def Let_def)
  qed
qed

lemma evaluate_rejects_negation:
  assumes "list_all no_bound (program_atoms p)" "\<And>l. \<not> stratifies l p"
  shows "\<exists>cycle. evaluate_with_session p session ticks = Some (Inl (UnstratifiedNegation cycle))"
proof -
  have rej: "reject_all (program_atoms p) = None" using assms(1) by (simp add: reject_all_None list_all_iff)
  from compute_strata_cases [of p] obtain cycle where "compute_strata p = Some (Inl (CycleThroughNegation cycle))"
    using result_stratifies assms(2) by metis
  then show ?thesis using rej by (simp add: evaluate_with_session_def)
qed

lemma evaluate_rejects_bound:
  assumes "\<not> list_all no_bound (program_atoms p)"
  shows "\<exists>n a. evaluate_with_session p session ticks = Some (Inl (UnresolvedPipelineValue n a)) \<and>
    a \<in> set (program_atoms p) \<and> Bound n \<in> set (terms a)"
proof -
  obtain e where "reject_all (program_atoms p) = Some e" using assms by (cases "reject_all (program_atoms p)") (auto simp: reject_all_None list_all_iff)
  then show ?thesis using reject_all_Some by (auto simp: evaluate_with_session_def)
qed

lemma answer_query_success:
  assumes "tables_wf db" "\<forall>a\<in>set (goals q). no_bound a"
  shows "\<exists>bs. run_goals db q = Inr bs \<and> set bs = answers (facts_of db) (goals q) \<and>
    answer_query (Some (Inr (db, ticks))) q ev = Some (emit_fingerprint (length bs) (ev\<lparr>progress := ticks\<rparr>), Inr bs)"
proof -
  have "\<not> (\<exists>n a. a \<in> set (goals q) \<and> Bound n \<in> set (terms a))" using assms(2) by (force simp: no_bound_def list_all_iff)
  then show ?thesis using run_goals_cases [OF assms(1), of q] by (auto simp: answer_query_def)
qed

end
