(* ===== verification/Datalog_Magic.thy ===== *)
theory Datalog_Magic
  imports Datalog_Queries
begin

text \<open>
  Magic-set rewriting keeps the answers of a query with one goal, for programs without negation whose rules are
  safe and whose predicates do not use the reserved prefix.
\<close>

section \<open>The search for adornments\<close>

lemma length_compute_adornment [simp]: "length (compute_adornment a bv) = length (terms a)"
  by (simp add: compute_adornment_def)

lemma propagate_goals_range:
  "(q, adr) \<in> set (propagate_goals idb bv body) \<Longrightarrow> \<exists>g\<in>set body. q = predicate (goal_atom g) \<and> length adr = length (terms (goal_atom g))"
  by (induction idb bv body rule: propagate_goals.induct) (auto simp: Let_def split: if_splits)

lemma length_propagate_goals: "length (propagate_goals idb bv body) \<le> length body"
proof (induction idb bv body rule: propagate_goals.induct)
  case (2 idb bound_vars bi body)
  then show ?case by (cases "is_positive bi") (simp_all add: Let_def le_SucI)
qed simp

definition matching :: "dl_rule list \<Rightarrow> adorned_pred \<Rightarrow> dl_rule list" where
  "matching rs q = filter (\<lambda>r. predicate (rule_head r) = fst q \<and> length (terms (rule_head r)) = length (snd q)) rs"

definition pushes :: "dl_rule list \<Rightarrow> string list \<Rightarrow> adorned_pred \<Rightarrow> adorned_pred list" where
  "pushes rs idb q = concat (map (\<lambda>r. propagate_sip r (snd q) idb) (matching rs q))"

lemma adorn_step_Cons:
  "adorn_step rs idb (A, q # W) = (if q \<in> set A then (A, W) else (q # A, W @ pushes rs idb q))"
  by (cases q) (simp add: adorn_step_def pushes_def matching_def)

definition adorn_universe :: "dl_rule list \<Rightarrow> adorned_pred \<Rightarrow> adorned_pred set" where
  "adorn_universe rs q =
     insert q (\<Union>r\<in>set rs. \<Union>g\<in>set (rule_body r). {predicate (goal_atom g)} \<times> {adr. length adr = length (terms (goal_atom g))})"

lemma finite_adorn_universe: "finite (adorn_universe rs q)"
proof -
  have "finite {adr :: bool list. length adr = n}" for n
    using finite_lists_length_eq [of "UNIV :: bool set" n] by simp
  then show ?thesis by (simp add: adorn_universe_def)
qed

lemma pushes_universe: "set (pushes rs idb q') \<subseteq> adorn_universe rs q"
  by (fastforce simp: pushes_def matching_def propagate_sip_def adorn_universe_def dest: propagate_goals_range)

lemma length_pushes: "length (pushes rs idb q) \<le> sum_list (map (length \<circ> rule_body) rs)"
proof -
  have "length (pushes rs idb q) = sum_list (map (\<lambda>r. length (propagate_sip r (snd q) idb)) (matching rs q))"
    by (simp add: pushes_def length_concat comp_def)
  also have "\<dots> \<le> sum_list (map (length \<circ> rule_body) (matching rs q))"
    by (rule sum_list_mono) (simp add: propagate_sip_def length_propagate_goals)
  also have "\<dots> \<le> sum_list (map (length \<circ> rule_body) rs)"
    by (induction rs) (simp_all add: matching_def le_SucI)
  finally show ?thesis .
qed

definition adorn_inv :: "dl_rule list \<Rightarrow> string list \<Rightarrow> adorned_pred \<Rightarrow> adorn_state \<Rightarrow> bool" where
  "adorn_inv rs idb q = (\<lambda>(A, W).
     set A \<union> set W \<subseteq> adorn_universe rs q \<and> q \<in> set A \<union> set W \<and>
     (\<forall>q'\<in>set A. set (pushes rs idb q') \<subseteq> set A \<union> set W))"

lemma adorn_step_inv:
  assumes "adorn_inv rs idb q s" "snd s \<noteq> []"
  shows "adorn_inv rs idb q (adorn_step rs idb s)"
proof -
  obtain A q' W where s: "s = (A, q' # W)" using assms(2) by (cases s; cases "snd s") auto
  show ?thesis using assms(1) pushes_universe [of rs idb q' q] by (auto simp: s adorn_inv_def adorn_step_Cons)
qed

definition adorn_measure :: "dl_rule list \<Rightarrow> adorned_pred \<Rightarrow> adorn_state \<Rightarrow> nat" where
  "adorn_measure rs q s =
     card (adorn_universe rs q - set (fst s)) * (sum_list (map (length \<circ> rule_body) rs) + 1) + length (snd s)"

lemma adorn_step_measure:
  assumes inv: "adorn_inv rs idb q s" and ne: "snd s \<noteq> []"
  shows "adorn_measure rs q (adorn_step rs idb s) < adorn_measure rs q s"
proof -
  obtain A q' W where s: "s = (A, q' # W)" using ne by (cases s; cases "snd s") auto
  show ?thesis
  proof (cases "q' \<in> set A")
    case True
    then show ?thesis by (simp add: s adorn_step_Cons adorn_measure_def)
  next
    case False
    let ?U = "adorn_universe rs q - set A"
    have "q' \<in> ?U" using inv False by (simp add: s adorn_inv_def)
    then have "card ?U = Suc (card (?U - {q'}))" using finite_adorn_universe [of rs q] by (intro card.remove) auto
    moreover have "adorn_universe rs q - insert q' (set A) = ?U - {q'}" by auto
    moreover have "length (pushes rs idb q') \<le> sum_list (map (length \<circ> rule_body) rs)" by (rule length_pushes)
    ultimately show ?thesis using False by (simp add: s adorn_step_Cons adorn_measure_def)
  qed
qed

lemma adorn_correct:
  "\<exists>A. adorn rs idb q = Some A \<and> q \<in> set A \<and> (\<forall>q'\<in>set A. set (pushes rs idb q') \<subseteq> set A)"
proof -
  let ?b = "\<lambda>(adorned, worklist). (worklist :: adorned_pred list) \<noteq> []" and ?init = "([], [q]) :: adorn_state"
  have b: "?b s \<longleftrightarrow> snd s \<noteq> []" for s :: adorn_state by (cases s) simp
  have init: "adorn_inv rs idb q ?init" by (simp add: adorn_inv_def adorn_universe_def)
  have step: "adorn_inv rs idb q s \<Longrightarrow> ?b s \<Longrightarrow> adorn_inv rs idb q (adorn_step rs idb s)" for s
    using adorn_step_inv unfolding b by blast
  obtain s where s: "while_option ?b (adorn_step rs idb) ?init = Some s"
    using measure_while_option_Some [of "adorn_inv rs idb q" ?b "adorn_step rs idb" "adorn_measure rs q" ?init] step
      adorn_step_measure [of rs idb q] init b by blast
  have "adorn_inv rs idb q s"
    by (rule while_option_rule [where P = "adorn_inv rs idb q", OF _ s init]) (rule step)
  moreover have "snd s = []" using while_option_stop [OF s] b by auto
  ultimately show ?thesis using s by (cases s) (simp add: adorn_def adorn_inv_def)
qed

section \<open>Programs without negation\<close>

definition positive_rule :: "dl_rule \<Rightarrow> bool" where
  "positive_rule r \<longleftrightarrow> list_all is_positive (rule_body r)"

definition safe_rule :: "dl_rule \<Rightarrow> bool" where
  "safe_rule r \<longleftrightarrow> rule_body r \<noteq> [] \<and> vars (rule_head r) \<subseteq> pos_vars r"

lemma positive_atoms:
  assumes "positive_rule r"
  shows "pos_atoms r = map goal_atom (rule_body r)" "neg_atoms r = []"
proof -
  have "filter is_positive (rule_body r) = rule_body r" "filter is_negated (rule_body r) = []"
    using assms by (simp_all add: positive_rule_def list_all_iff filter_id_conv filter_empty_conv goal_cases)
  then show "pos_atoms r = map goal_atom (rule_body r)" "neg_atoms r = []" by (simp_all add: pos_atoms_def neg_atoms_def)
qed

lemma positive_fires:
  "positive_rule r \<Longrightarrow> fires N I r \<sigma> \<longleftrightarrow> (\<forall>g\<in>set (rule_body r). inst \<sigma> (goal_atom g) \<in> I) \<and> vars (rule_head r) \<subseteq> pos_vars r"
  by (simp add: fires_def positive_atoms)

lemma positive_derivations:
  assumes "list_all positive_rule rs"
  shows "derivations rs N I = {inst \<sigma> (rule_head r) | r \<sigma>. r \<in> set rs \<and> rule_body r \<noteq> [] \<and>
    (\<forall>g\<in>set (rule_body r). inst \<sigma> (goal_atom g) \<in> I) \<and> vars (rule_head r) \<subseteq> pos_vars r}"
proof -
  have "pos_atoms r \<noteq> [] \<and> fires N I r \<sigma> \<longleftrightarrow> rule_body r \<noteq> [] \<and>
      (\<forall>g\<in>set (rule_body r). inst \<sigma> (goal_atom g) \<in> I) \<and> vars (rule_head r) \<subseteq> pos_vars r" if "r \<in> set rs" for r \<sigma>
    using assms that by (simp add: list_all_iff positive_fires positive_atoms)
  then show ?thesis unfolding derivations_def by blast
qed

lemma positive_stable:
  assumes "list_all positive_rule rs"
  shows "engine_model rs B M \<longleftrightarrow> M = least_model rs B"
  unfolding engine_model_def reduct_model_def least_model_def positive_derivations [OF assms] ..

lemma positive_stratified: "list_all positive_rule (rules p) \<Longrightarrow> stratifies (\<lambda>_. 0) p"
  by (auto simp: stratifies_def list_all_iff positive_rule_def goal_cases)

section \<open>Bound arguments\<close>

definition select :: "'a list \<Rightarrow> adornment \<Rightarrow> 'a list" where
  "select ts adr = map fst (filter snd (zip ts adr))"

lemma select_map: "select (map f ts) adr = map f (select ts adr)"
  by (simp add: select_def zip_map1 filter_map comp_def case_prod_beta')

lemma select_bound_select: "select_bound a adr = select (terms a) adr"
  by (simp add: select_bound_def select_def)

definition guard_holds :: "fact set \<Rightarrow> fact \<Rightarrow> adornment \<Rightarrow> bool" where
  "guard_holds M f adr \<longleftrightarrow> select (snd f) adr = [] \<or> (magic_pred_name (fst f) adr, select (snd f) adr) \<in> M"

lemma inst_magic:
  assumes "build_magic_atom a adr = Some g"
  shows "inst \<sigma> g = (magic_pred_name (predicate a) adr, select (map (inst_term \<sigma>) (terms a)) adr)"
  using assms by (auto simp: build_magic_atom_def Let_def inst_def select_bound_select select_map split: if_splits)

lemma guard_holds_iff:
  "guard_holds M (inst \<sigma> a) adr \<longleftrightarrow> (case build_magic_atom a adr of None \<Rightarrow> True | Some g \<Rightarrow> inst \<sigma> g \<in> M)"
  by (auto simp: guard_holds_def build_magic_atom_def Let_def inst_def select_bound_select select_map)

lemma select_subset: "set (select ts adr) \<subseteq> set ts"
  by (auto simp: select_def dest: set_zip_leftD)

lemma select_adornment:
  "set (select (terms a) (compute_adornment a bv)) = {t \<in> set (terms a). case t of Const _ \<Rightarrow> True | Var x \<Rightarrow> x \<in> set bv | Bound _ \<Rightarrow> False}"
proof -
  have "set (select ts (map f ts)) = {t \<in> set ts. f t}" for ts :: "dl_term list" and f
    unfolding select_def by (induction ts) auto
  then show ?thesis by (simp add: compute_adornment_def)
qed

lemma vars_head_bound: "set (head_bound a adr) = (\<Union>t\<in>set (select (terms a) adr). term_vars t)"
proof -
  have "set (var_name t) = term_vars t" for t by (cases t) simp_all
  then show ?thesis by (simp add: head_bound_def select_bound_select)
qed

lemma set_atom_vars: "set (atom_vars a) = vars a"
proof -
  have "set (var_name t) = term_vars t" for t by (cases t) simp_all
  then show ?thesis by (simp add: atom_vars_def vars_def)
qed

lemma ground_inst: "is_ground a \<Longrightarrow> as_ground a = Some (snd (inst \<sigma> a))"
proof -
  have "list_all is_const ts \<Longrightarrow> those (map const_value ts) = Some (map (inst_term \<sigma>) ts)" for ts
  proof (induction ts)
    case (Cons t ts)
    then show ?case by (cases t) auto
  qed simp
  then show "is_ground a \<Longrightarrow> as_ground a = Some (snd (inst \<sigma> a))" by (simp add: is_ground_def as_ground_def inst_def)
qed

lemma ground_in_facts: "is_ground a \<Longrightarrow> a \<in> set as \<Longrightarrow> inst \<sigma> a \<in> ground_facts as"
  using ground_inst [of a \<sigma>] by (auto simp: ground_facts_def inst_def)

lemma ground_facts_mono: "set as \<subseteq> set bs \<Longrightarrow> ground_facts as \<subseteq> ground_facts bs"
  by (auto simp: ground_facts_def)

section \<open>Completeness\<close>

text \<open>A set of facts that contains every head of a safe rule instance whose body it contains.\<close>

definition closed_under :: "dl_rule list \<Rightarrow> fact set \<Rightarrow> bool" where
  "closed_under rs M \<longleftrightarrow>
     (\<forall>r\<in>set rs. \<forall>\<sigma>. rule_body r \<noteq> [] \<longrightarrow> (\<forall>g\<in>set (rule_body r). inst \<sigma> (goal_atom g) \<in> M) \<longrightarrow>
        vars (rule_head r) \<subseteq> pos_vars r \<longrightarrow> inst \<sigma> (rule_head r) \<in> M)"

lemma least_model_closed:
  assumes "list_all positive_rule rs"
  shows "closed_under rs (least_model rs B)"
  unfolding closed_under_def
proof (intro ballI allI impI)
  fix r \<sigma> assume "r \<in> set rs" "rule_body r \<noteq> []" "\<forall>g\<in>set (rule_body r). inst \<sigma> (goal_atom g) \<in> least_model rs B"
    "vars (rule_head r) \<subseteq> pos_vars r"
  then have "inst \<sigma> (rule_head r) \<in> derivations rs B (least_model rs B)"
    unfolding positive_derivations [OF assms] by blast
  then show "inst \<sigma> (rule_head r) \<in> least_model rs B" by (subst least_model_unfold) blast
qed

definition guard_atoms :: "dl_atom option \<Rightarrow> dl_atom list" where
  "guard_atoms guard = (case guard of Some g \<Rightarrow> [g] | None \<Rightarrow> [])"

lemma guard_goals: "(case guard of Some g \<Rightarrow> [Positive g] | None \<Rightarrow> []) = map Positive (guard_atoms guard)"
  by (simp add: guard_atoms_def split: option.split)

lemma positive_pos_vars: "pos_vars \<lparr>rule_head = h, rule_body = map Positive as\<rparr> = (\<Union>a\<in>set as. vars a)"
  by (simp add: pos_vars_def pos_atoms_def filter_map comp_def)

text \<open>The magic atom of a goal holds once the goals before it and the guard do.\<close>

lemma supplementary_holds:
  assumes closed: "closed_under rs' M" and hyps: "\<forall>a\<in>set (guard_atoms guard @ prev). inst \<sigma> a \<in> M"
    and bv: "set bv \<subseteq> (\<Union>a\<in>set (guard_atoms guard @ prev). vars a)"
    and magic: "build_magic_atom b (compute_adornment b bv) = Some m"
    and fact: "guard_atoms guard @ prev = [] \<Longrightarrow> is_ground m \<Longrightarrow> inst \<sigma> m \<in> M"
    and rule: "guard_atoms guard @ prev \<noteq> [] \<Longrightarrow> \<lparr>rule_head = m, rule_body = map Positive (guard_atoms guard @ prev)\<rparr> \<in> set rs'"
  shows "inst \<sigma> m \<in> M"
proof -
  have m: "terms m = select (terms b) (compute_adornment b bv)"
    using magic by (auto simp: build_magic_atom_def Let_def select_bound_select split: if_splits)
  have terms_ok: "term_vars t \<subseteq> set bv" if "t \<in> set (terms m)" for t
    using that unfolding m select_adornment by (cases t) auto
  show ?thesis
  proof (cases "guard_atoms guard @ prev = []")
    case True
    have "set bv = {}" using bv True by simp
    then have "is_const t" if "t \<in> set (terms m)" for t
      using that unfolding m select_adornment by (cases t) auto
    then have "is_ground m" by (simp add: is_ground_def list_all_iff)
    then show ?thesis using fact True by blast
  next
    case False
    have "vars m \<subseteq> set bv" using terms_ok by (auto simp: vars_def)
    let ?r = "\<lparr>rule_head = m, rule_body = map Positive (guard_atoms guard @ prev)\<rparr>"
    have "vars (rule_head ?r) \<subseteq> pos_vars ?r"
      using subset_trans [OF \<open>vars m \<subseteq> set bv\<close> bv] unfolding positive_pos_vars by simp
    moreover have "rule_body ?r \<noteq> []" "\<forall>g\<in>set (rule_body ?r). inst \<sigma> (goal_atom g) \<in> M" using hyps False by auto
    ultimately have "inst \<sigma> (rule_head ?r) \<in> M" using closed rule [OF False] unfolding closed_under_def by blast
    then show ?thesis by simp
  qed
qed

lemma magic_goals_complete:
  assumes closed: "closed_under rs' M"
    and out: "magic_goals idb A guard bv prev body = (rs0, fs0)" "set rs0 \<subseteq> set rs'" "ground_facts fs0 \<subseteq> M"
    and hyps: "\<forall>a\<in>set (guard_atoms guard @ prev). inst \<sigma> a \<in> M"
    and bv: "set bv \<subseteq> (\<Union>a\<in>set (guard_atoms guard @ prev). vars a)"
    and push: "set (propagate_goals idb bv body) \<subseteq> set A" and pos: "list_all is_positive body"
    and goal_ok: "\<And>g. g \<in> set body \<Longrightarrow> predicate (goal_atom g) \<notin> set idb \<Longrightarrow> inst \<sigma> (goal_atom g) \<in> M"
      "\<And>g adr. g \<in> set body \<Longrightarrow> (predicate (goal_atom g), adr) \<in> set A \<Longrightarrow> length adr = length (terms (goal_atom g)) \<Longrightarrow>
        guard_holds M (inst \<sigma> (goal_atom g)) adr \<Longrightarrow> inst \<sigma> (goal_atom g) \<in> M"
  shows "\<forall>g\<in>set body. inst \<sigma> (goal_atom g) \<in> M"
  using out hyps bv push pos goal_ok
proof (induction body arbitrary: bv prev rs0 fs0)
  case (Cons g body)
  let ?b = "goal_atom g"
  let ?beta = "compute_adornment ?b bv"
  have g: "is_positive g" using Cons.prems(7) by simp
  obtain rs1 fs1 where rest: "magic_goals idb A guard (atom_vars ?b @ bv) (prev @ [?b]) body = (rs1, fs1)"
    by (cases "magic_goals idb A guard (atom_vars ?b @ bv) (prev @ [?b]) body")
  have sub: "set rs1 \<subseteq> set rs0" "set fs1 \<subseteq> set fs0"
    using Cons.prems(1) g rest by (auto simp: Let_def split: if_splits option.splits)
  have b: "inst \<sigma> ?b \<in> M"
  proof (cases "predicate ?b \<in> set idb")
    case False
    then show ?thesis using Cons.prems(8) by simp
  next
    case True
    then have A: "(predicate ?b, ?beta) \<in> set A" using Cons.prems(6) g by (simp add: Let_def)
    have "guard_holds M (inst \<sigma> ?b) ?beta"
      unfolding guard_holds_iff
    proof (cases "build_magic_atom ?b ?beta")
      case (Some m)
      have "inst \<sigma> m \<in> M"
      proof (rule supplementary_holds [OF closed Cons.prems(4,5) Some])
        show "inst \<sigma> m \<in> M" if e: "guard_atoms guard @ prev = []" and gr: "is_ground m"
        proof -
          have "m \<in> set fs0" using Cons.prems(1) g rest True A Some e gr by (auto simp: Let_def guard_goals)
          then show ?thesis using ground_in_facts [OF gr] Cons.prems(3) by blast
        qed
        show "\<lparr>rule_head = m, rule_body = map Positive (guard_atoms guard @ prev)\<rparr> \<in> set rs'"
          if "guard_atoms guard @ prev \<noteq> []"
          using Cons.prems(1,2) g rest True A Some that by (auto simp: Let_def guard_goals)
      qed
      then show "case build_magic_atom ?b ?beta of None \<Rightarrow> True | Some g \<Rightarrow> inst \<sigma> g \<in> M" using Some by simp
    qed simp
    then show ?thesis using Cons.prems(9) [of g ?beta] A by simp
  qed
  have "\<forall>g\<in>set body. inst \<sigma> (goal_atom g) \<in> M"
  proof (rule Cons.IH [OF rest])
    show "ground_facts fs1 \<subseteq> M" using sub(2) Cons.prems(3) by (auto simp: ground_facts_def)
    show "set (atom_vars ?b @ bv) \<subseteq> (\<Union>a\<in>set (guard_atoms guard @ prev @ [?b]). vars a)"
      using Cons.prems(5) by (auto simp: set_atom_vars)
  qed (use sub b Cons.prems g in \<open>auto simp: Let_def\<close>)
  then show ?case using b by simp
qed simp

section \<open>The rewritten program\<close>

definition magic_name :: "string \<Rightarrow> bool" where
  "magic_name q \<longleftrightarrow> (\<exists>rest. q = ''magic_'' @ rest)"

lemma magic_name_pred [simp]: "magic_name (magic_pred_name q adr)"
  by (simp add: magic_name_def magic_pred_name_def)

lemma magic_name_atom: "build_magic_atom a adr = Some m \<Longrightarrow> magic_name (predicate m)"
  by (auto simp: build_magic_atom_def Let_def split: if_splits)

lemma magic_goals_shape:
  "magic_goals idb A guard bv prev body = (rs, fs) \<Longrightarrow>
   (\<forall>r\<in>set rs. magic_name (predicate (rule_head r)) \<and> positive_rule r) \<and>
   (\<forall>a\<in>set fs. magic_name (predicate a) \<and> is_ground a)"
proof (induction body arbitrary: bv prev rs fs)
  case (Cons g body)
  let ?b = "goal_atom g"
  obtain rs1 fs1 where rest: "magic_goals idb A guard (atom_vars ?b @ bv) (prev @ [?b]) body = (rs1, fs1)"
    by (cases "magic_goals idb A guard (atom_vars ?b @ bv) (prev @ [?b]) body")
  show ?case
  proof (cases "is_positive g")
    case True
    then show ?thesis
      using Cons.prems Cons.IH [OF rest] rest
      by (auto simp: Let_def guard_goals positive_rule_def list_all_iff magic_name_atom split: if_splits option.splits)
  next
    case False
    then show ?thesis using Cons by simp
  qed
qed simp

text \<open>The parts of a rewriting: guarded copies and supplementary rules and facts.\<close>

lemma set_head_adornments:
  "adr \<in> set (head_adornments A r) \<longleftrightarrow> (predicate (rule_head r), adr) \<in> set A \<and> length adr = length (terms (rule_head r))"
  by (force simp: head_adornments_def)

definition guarded_rule :: "dl_rule \<Rightarrow> adornment \<Rightarrow> dl_rule" where
  "guarded_rule r adr =
     \<lparr>rule_head = rule_head r, rule_body = map Positive (guard_atoms (build_magic_atom (rule_head r) adr)) @ rule_body r\<rparr>"

lemma rewrite_rule_eq:
  "rewrite_rule idb A r adr =
     (let (rs, fs) = magic_goals idb A (build_magic_atom (rule_head r) adr) (head_bound (rule_head r) adr) [] (rule_body r)
      in (guarded_rule r adr # rs, fs))"
  by (simp add: rewrite_rule_def guarded_rule_def guard_goals Let_def split: prod.split)

lemma set_rewrite_rules:
  "out \<in> set (rewrite_rules idb A rs) \<longleftrightarrow> (\<exists>r\<in>set rs. \<exists>adr\<in>set (head_adornments A r). out = rewrite_rule idb A r adr)"
  by (auto simp: rewrite_rules_def)

lemma rewritten_rule_cases:
  assumes "r' \<in> set (concat (map fst (rewrite_rules idb A rs)))"
  obtains r adr where "r \<in> set rs" "adr \<in> set (head_adornments A r)" "r' = guarded_rule r adr"
  | "magic_name (predicate (rule_head r'))" "positive_rule r'"
proof -
  obtain out where "out \<in> set (rewrite_rules idb A rs)" "r' \<in> set (fst out)" using assms by auto
  then obtain r adr where r: "r \<in> set rs" "adr \<in> set (head_adornments A r)" "r' \<in> set (fst (rewrite_rule idb A r adr))"
    unfolding set_rewrite_rules by blast
  obtain rs1 fs1 where m: "magic_goals idb A (build_magic_atom (rule_head r) adr) (head_bound (rule_head r) adr) [] (rule_body r) = (rs1, fs1)"
    by (cases "magic_goals idb A (build_magic_atom (rule_head r) adr) (head_bound (rule_head r) adr) [] (rule_body r)")
  show thesis using r that magic_goals_shape [OF m] by (auto simp: rewrite_rule_eq m)
qed

lemma rewritten_facts_shape:
  assumes "a \<in> set (concat (map snd (rewrite_rules idb A rs)))"
  shows "magic_name (predicate a) \<and> is_ground a"
proof -
  obtain out where "out \<in> set (rewrite_rules idb A rs)" "a \<in> set (snd out)" using assms by auto
  then obtain r adr where r: "a \<in> set (snd (rewrite_rule idb A r adr))" unfolding set_rewrite_rules by blast
  obtain rs1 fs1 where m: "magic_goals idb A (build_magic_atom (rule_head r) adr) (head_bound (rule_head r) adr) [] (rule_body r) = (rs1, fs1)"
    by (cases "magic_goals idb A (build_magic_atom (rule_head r) adr) (head_bound (rule_head r) adr) [] (rule_body r)")
  show ?thesis using r magic_goals_shape [OF m] by (auto simp: rewrite_rule_eq m)
qed

lemma rewritten_positive:
  assumes "list_all positive_rule rs"
  shows "list_all positive_rule (concat (map fst (rewrite_rules idb A rs)))"
  unfolding list_all_iff
proof
  fix r' assume "r' \<in> set (concat (map fst (rewrite_rules idb A rs)))"
  then show "positive_rule r'"
    by (rule rewritten_rule_cases) (use assms in \<open>auto simp: guarded_rule_def positive_rule_def list_all_iff\<close>)
qed

lemma pos_vars_guarded: "pos_vars r \<subseteq> pos_vars (guarded_rule r adr)"
  by (auto simp: pos_vars_def pos_atoms_def guarded_rule_def)

section \<open>Soundness\<close>

lemma magic_sound:
  assumes pos: "list_all positive_rule rs" and safe: "list_all safe_rule rs"
    and names: "\<And>r g. r \<in> set rs \<Longrightarrow> g \<in> set (rule_body r) \<Longrightarrow> \<not> magic_name (predicate (goal_atom g))"
    and B': "\<And>f. f \<in> B' \<Longrightarrow> magic_name (fst f) \<or> f \<in> B"
  shows "least_model (concat (map fst (rewrite_rules idb A rs))) B' \<subseteq> {f. magic_name (fst f) \<or> f \<in> least_model rs B}"
    (is "least_model ?rs B' \<subseteq> ?S")
proof (rule least_model_least)
  show "B' \<subseteq> ?S" using B' base_least_model [of B rs] by blast
  show "derivations ?rs B' ?S \<subseteq> ?S"
  proof
    fix f assume "f \<in> derivations ?rs B' ?S"
    then obtain r' \<sigma> where r': "r' \<in> set ?rs" "f = inst \<sigma> (rule_head r')" "\<forall>g\<in>set (rule_body r'). inst \<sigma> (goal_atom g) \<in> ?S"
      unfolding positive_derivations [OF rewritten_positive [OF pos]] by blast
    from r'(1) show "f \<in> ?S"
    proof (rule rewritten_rule_cases)
      fix r adr assume r: "r \<in> set rs" "adr \<in> set (head_adornments A r)" "r' = guarded_rule r adr"
      have body: "\<forall>g\<in>set (rule_body r). inst \<sigma> (goal_atom g) \<in> least_model rs B"
        using r'(3) names [OF r(1)] unfolding r(3) by (auto simp: guarded_rule_def)
      have "safe_rule r" using safe r(1) by (simp add: list_all_iff)
      then have "inst \<sigma> (rule_head r) \<in> least_model rs B"
        using least_model_closed [OF pos, of B] r(1) body by (simp add: closed_under_def safe_rule_def)
      then show ?thesis using r'(2) r(3) by (simp add: guarded_rule_def)
    next
      assume "magic_name (predicate (rule_head r'))"
      then show ?thesis using r'(2) by simp
    qed
  qed
qed

section \<open>Completeness of the rewriting\<close>

lemma magic_complete:
  assumes pos: "list_all positive_rule rs" and idb: "set idb = (predicate \<circ> rule_head) ` set rs"
    and A: "\<And>q. q \<in> set A \<Longrightarrow> set (pushes rs idb q) \<subseteq> set A"
    and B': "B \<subseteq> B'" "ground_facts (concat (map snd (rewrite_rules idb A rs))) \<subseteq> B'"
  defines "M' \<equiv> least_model (concat (map fst (rewrite_rules idb A rs))) B'"
  shows "least_model rs B \<subseteq> {f. (fst f \<notin> set idb \<longrightarrow> f \<in> B) \<and>
    (\<forall>adr. (fst f, adr) \<in> set A \<longrightarrow> length adr = length (snd f) \<longrightarrow> guard_holds M' f adr \<longrightarrow> f \<in> M')}"
    (is "_ \<subseteq> ?S")
proof (rule least_model_least)
  let ?rs = "concat (map fst (rewrite_rules idb A rs))"
  have base: "B' \<subseteq> M'" unfolding M'_def by (rule base_least_model)
  have closed: "closed_under ?rs M'" unfolding M'_def by (rule least_model_closed [OF rewritten_positive [OF pos]])
  show "B \<subseteq> ?S" using base B'(1) by blast
  show "derivations rs B ?S \<subseteq> ?S"
  proof
    fix f assume "f \<in> derivations rs B ?S"
    then obtain r \<sigma> where r: "r \<in> set rs" "f = inst \<sigma> (rule_head r)" "rule_body r \<noteq> []"
        "\<forall>g\<in>set (rule_body r). inst \<sigma> (goal_atom g) \<in> ?S" "vars (rule_head r) \<subseteq> pos_vars r"
      unfolding positive_derivations [OF pos] by blast
    have "f \<in> M'" if adr: "(fst f, adr) \<in> set A" "length adr = length (snd f)" "guard_holds M' f adr" for adr
    proof -
      let ?guard = "build_magic_atom (rule_head r) adr"
      have q: "(predicate (rule_head r), adr) \<in> set A" "length adr = length (terms (rule_head r))"
        using adr(1,2) r(2) by (simp_all add: inst_def)
      then have ha: "adr \<in> set (head_adornments A r)" by (simp add: set_head_adornments)
      obtain rs0 fs0 where m: "magic_goals idb A ?guard (head_bound (rule_head r) adr) [] (rule_body r) = (rs0, fs0)"
        by (cases "magic_goals idb A ?guard (head_bound (rule_head r) adr) [] (rule_body r)")
      have out: "rewrite_rule idb A r adr \<in> set (rewrite_rules idb A rs)" using r(1) ha by (auto simp: set_rewrite_rules)
      have in_rs: "set rs0 \<subseteq> set ?rs" "guarded_rule r adr \<in> set ?rs" and in_fs: "ground_facts fs0 \<subseteq> M'"
      proof -
        show "set rs0 \<subseteq> set ?rs" "guarded_rule r adr \<in> set ?rs" using out by (force simp: rewrite_rule_eq m)+
        have "set fs0 \<subseteq> set (concat (map snd (rewrite_rules idb A rs)))" using out by (force simp: rewrite_rule_eq m)
        then have "ground_facts fs0 \<subseteq> ground_facts (concat (map snd (rewrite_rules idb A rs)))" by (rule ground_facts_mono)
        then show "ground_facts fs0 \<subseteq> M'" using B'(2) base by blast
      qed
      have guard: "\<forall>a\<in>set (guard_atoms ?guard). inst \<sigma> a \<in> M'"
        using adr(3) unfolding r(2) guard_holds_iff by (auto simp: guard_atoms_def split: option.splits)
      have bv: "set (head_bound (rule_head r) adr) \<subseteq> (\<Union>a\<in>set (guard_atoms ?guard). vars a)"
        by (auto simp: vars_head_bound guard_atoms_def build_magic_atom_def Let_def select_bound_select vars_def)
      have push: "set (propagate_goals idb (head_bound (rule_head r) adr) (rule_body r)) \<subseteq> set A"
        using A [OF q(1)] r(1) q(2) by (auto simp: pushes_def matching_def propagate_sip_def)
      have posr: "list_all is_positive (rule_body r)" using pos r(1) by (simp add: list_all_iff positive_rule_def)
      have body: "\<forall>g\<in>set (rule_body r). inst \<sigma> (goal_atom g) \<in> M'"
      proof (rule magic_goals_complete [OF closed m in_rs(1) in_fs])
        show "inst \<sigma> (goal_atom g) \<in> M'" if "g \<in> set (rule_body r)" "predicate (goal_atom g) \<notin> set idb" for g
          using r(4) that base B'(1) by fastforce
        show "inst \<sigma> (goal_atom g) \<in> M'"
          if "g \<in> set (rule_body r)" "(predicate (goal_atom g), adr') \<in> set A" "length adr' = length (terms (goal_atom g))"
            "guard_holds M' (inst \<sigma> (goal_atom g)) adr'" for g adr'
          using r(4) that by (auto simp: inst_def)
      qed (use guard bv push posr in auto)
      have "vars (rule_head (guarded_rule r adr)) \<subseteq> pos_vars (guarded_rule r adr)"
        using subset_trans [OF r(5) pos_vars_guarded [of r adr]] by (simp add: guarded_rule_def)
      moreover have "rule_body (guarded_rule r adr) \<noteq> []" "\<forall>g\<in>set (rule_body (guarded_rule r adr)). inst \<sigma> (goal_atom g) \<in> M'"
        using r(3) guard body by (auto simp: guarded_rule_def)
      ultimately have "inst \<sigma> (rule_head (guarded_rule r adr)) \<in> M'"
        using closed in_rs(2) unfolding closed_under_def by blast
      then show ?thesis using r(2) by (simp add: guarded_rule_def)
    qed
    moreover have "fst f \<in> set idb" using r(1,2) idb by auto
    ultimately show "f \<in> ?S" by blast
  qed
qed

section \<open>The answers\<close>

lemma no_bound_magic: "no_bound a \<Longrightarrow> build_magic_atom a adr = Some m \<Longrightarrow> no_bound m"
  using select_subset [of "terms a" adr]
  by (auto simp: no_bound_def list_all_iff build_magic_atom_def Let_def select_bound_select split: if_splits)

lemma magic_goals_no_bound:
  "magic_goals idb A guard bv prev body = (rs, fs) \<Longrightarrow> \<forall>a\<in>set (guard_atoms guard @ prev). no_bound a \<Longrightarrow>
   \<forall>g\<in>set body. no_bound (goal_atom g) \<Longrightarrow> (\<forall>r\<in>set rs. rule_no_bound r) \<and> (\<forall>a\<in>set fs. no_bound a)"
proof (induction body arbitrary: bv prev rs fs)
  case (Cons g body)
  let ?b = "goal_atom g"
  obtain rs1 fs1 where rest: "magic_goals idb A guard (atom_vars ?b @ bv) (prev @ [?b]) body = (rs1, fs1)"
    by (cases "magic_goals idb A guard (atom_vars ?b @ bv) (prev @ [?b]) body")
  show ?case
  proof (cases "is_positive g")
    case True
    have nb: "\<forall>a\<in>set (guard_atoms guard @ prev @ [?b]). no_bound a" using Cons.prems(2,3) by auto
    have "\<And>m. build_magic_atom ?b (compute_adornment ?b bv) = Some m \<Longrightarrow> no_bound m"
      using no_bound_magic Cons.prems(3) by auto
    then show ?thesis
      using Cons.prems Cons.IH [OF rest nb] rest True
      by (auto simp: Let_def guard_goals rule_no_bound_def list_all_iff split: if_splits option.splits)
  next
    case False
    then show ?thesis using Cons by simp
  qed
qed simp

lemma rewritten_no_bound:
  assumes "list_all rule_no_bound rs"
  shows "list_all rule_no_bound (concat (map fst (rewrite_rules idb A rs)))" "list_all no_bound (concat (map snd (rewrite_rules idb A rs)))"
proof -
  have out: "(\<forall>r'\<in>set (fst out). rule_no_bound r') \<and> (\<forall>a\<in>set (snd out). no_bound a)" if "out \<in> set (rewrite_rules idb A rs)" for out
  proof -
    obtain r adr where r: "r \<in> set rs" "out = rewrite_rule idb A r adr" using \<open>out \<in> _\<close> unfolding set_rewrite_rules by blast
    have nb: "no_bound (rule_head r)" "\<forall>g\<in>set (rule_body r). no_bound (goal_atom g)"
      using assms r(1) by (auto simp: list_all_iff rule_no_bound_def)
    have guard: "\<forall>a\<in>set (guard_atoms (build_magic_atom (rule_head r) adr)). no_bound a"
      using no_bound_magic [OF nb(1)] by (auto simp: guard_atoms_def split: option.splits)
    obtain rs0 fs0 where m: "magic_goals idb A (build_magic_atom (rule_head r) adr) (head_bound (rule_head r) adr) [] (rule_body r) = (rs0, fs0)"
      by (cases "magic_goals idb A (build_magic_atom (rule_head r) adr) (head_bound (rule_head r) adr) [] (rule_body r)")
    have "rule_no_bound (guarded_rule r adr)" using nb guard by (simp add: rule_no_bound_def guarded_rule_def list_all_iff ball_Un)
    moreover have "(\<forall>r\<in>set rs0. rule_no_bound r) \<and> (\<forall>a\<in>set fs0. no_bound a)"
      by (rule magic_goals_no_bound [OF m _ nb(2)]) (use guard in simp)
    ultimately show ?thesis unfolding r(2) rewrite_rule_eq m by simp
  qed
  then show "list_all rule_no_bound (concat (map fst (rewrite_rules idb A rs)))"
    "list_all no_bound (concat (map snd (rewrite_rules idb A rs)))" by (auto simp: list_all_iff)
qed

definition magic_program :: "dl_program \<Rightarrow> adorned_pred list \<Rightarrow> dl_atom \<Rightarrow> dl_program" where
  "magic_program p A g =
     (let out = rewrite_rules (map (predicate \<circ> rule_head) (rules p)) A (rules p)
      in \<lparr>rules = concat (map fst out), program_facts = program_facts p @ concat (map snd out) @ query_seed g\<rparr>)"

lemma magic_rewrite_cases:
  assumes "goals q = [g]"
  obtains "magic_rewrite p q = Some p"
  | A where "magic_rewrite p q = Some (magic_program p A g)" "(predicate g, query_adornment g) \<in> set A"
      "\<And>a. a \<in> set A \<Longrightarrow> set (pushes (rules p) (map (predicate \<circ> rule_head) (rules p)) a) \<subseteq> set A"
proof (cases "list_ex (\<lambda>b. b) (query_adornment g)")
  case True
  obtain A where A: "adorn (rules p) (map (predicate \<circ> rule_head) (rules p)) (predicate g, query_adornment g) = Some A"
      "(predicate g, query_adornment g) \<in> set A"
      "\<forall>a\<in>set A. set (pushes (rules p) (map (predicate \<circ> rule_head) (rules p)) a) \<subseteq> set A"
    using adorn_correct by blast
  have "magic_rewrite p q = Some (magic_program p A g)"
    using assms True A(1) by (simp add: magic_rewrite_def magic_program_def Let_def)
  then show thesis using that(2) A(2,3) by blast
next
  case False
  then show thesis using that(1) assms by (simp add: magic_rewrite_def)
qed

lemma query_seed_terms: "\<forall>t\<in>set (select (terms g) (query_adornment g)). is_const t"
  unfolding select_def query_adornment_def by (induction "terms g") (auto dest: set_zip_leftD simp: set_zip)

lemma query_seed_eq:
  "query_seed g = (if select (terms g) (query_adornment g) = [] then []
     else [\<lparr>predicate = magic_pred_name (predicate g) (query_adornment g), terms = select (terms g) (query_adornment g)\<rparr>])"
  using query_seed_terms [of g] by (simp add: query_seed_def Let_def select_bound_select is_ground_def list_all_iff)

lemma query_seed_guard:
  assumes "ground_facts (query_seed g) \<subseteq> M"
  shows "guard_holds M (inst \<sigma> g) (query_adornment g)"
proof (cases "select (terms g) (query_adornment g) = []")
  case True
  then show ?thesis by (simp add: guard_holds_def inst_def select_map)
next
  case False
  let ?s = "\<lparr>predicate = magic_pred_name (predicate g) (query_adornment g), terms = select (terms g) (query_adornment g)\<rparr>"
  have "is_ground ?s" using query_seed_terms [of g] by (simp add: is_ground_def list_all_iff)
  then have "inst \<sigma> ?s \<in> M" using ground_in_facts [of ?s "query_seed g"] assms False by (auto simp: query_seed_eq)
  then show ?thesis by (simp add: guard_holds_def inst_def select_map)
qed

lemma magic_program_ok:
  assumes ok: "program_ok p" and pos: "list_all positive_rule (rules p)"
  shows "program_ok (magic_program p A g) \<and> list_all positive_rule (rules (magic_program p A g))"
proof -
  let ?idb = "map (predicate \<circ> rule_head) (rules p)"
  have nb: "list_all rule_no_bound (rules p)" "list_all is_ground (program_facts p)" "list_all no_bound (program_facts p)"
    using ok program_atoms_rules [of p] by (auto simp: program_ok_def program_atoms_def list_all_iff)
  have seed: "list_all is_ground (query_seed g)" using query_seed_terms [of g] by (simp add: query_seed_eq is_ground_def list_all_iff)
  have ground_nb: "no_bound a" if "is_ground a" for a
    using that unfolding is_ground_def no_bound_def by (auto simp: list_all_iff elim!: is_const.elims(2) dest!: bspec)
  have facts: "list_all is_ground (program_facts (magic_program p A g))"
    using nb(2) seed rewritten_facts_shape [of _ ?idb A "rules p"] by (auto simp: magic_program_def Let_def list_all_iff)
  have rules: "list_all rule_no_bound (rules (magic_program p A g))"
    using rewritten_no_bound(1) [OF nb(1)] by (simp add: magic_program_def Let_def)
  have "list_all no_bound (program_atoms (magic_program p A g))"
    using facts rules ground_nb by (fastforce simp: program_atoms_def list_all_iff rule_no_bound_def)
  then show ?thesis using facts rewritten_positive [OF pos] by (simp add: program_ok_def magic_program_def Let_def)
qed

lemma magic_program_goal:
  assumes pos: "list_all positive_rule (rules p)" and safe: "list_all safe_rule (rules p)"
    and names: "\<forall>a\<in>set (program_atoms p). \<not> magic_name (predicate a)" "\<not> magic_name (predicate g)"
    and A: "(predicate g, query_adornment g) \<in> set A"
      "\<And>a. a \<in> set A \<Longrightarrow> set (pushes (rules p) (map (predicate \<circ> rule_head) (rules p)) a) \<subseteq> set A"
  defines "p' \<equiv> magic_program p A g"
  shows "inst \<sigma> g \<in> least_model (rules p') (ground_facts (program_facts p')) \<longleftrightarrow>
    inst \<sigma> g \<in> least_model (rules p) (ground_facts (program_facts p))"
proof -
  let ?idb = "map (predicate \<circ> rule_head) (rules p)"
  let ?out = "rewrite_rules ?idb A (rules p)"
  let ?B = "ground_facts (program_facts p)" and ?B' = "ground_facts (program_facts p')"
  have p': "rules p' = concat (map fst ?out)" "program_facts p' = program_facts p @ concat (map snd ?out) @ query_seed g"
    by (simp_all add: p'_def magic_program_def Let_def)
  have sub: "?B \<subseteq> ?B'" "ground_facts (concat (map snd ?out)) \<subseteq> ?B'" "ground_facts (query_seed g) \<subseteq> ?B'"
    unfolding p'(2) by (auto intro!: ground_facts_mono simp del: set_concat)
  let ?M' = "least_model (rules p') ?B'"
  show ?thesis
  proof
    assume "inst \<sigma> g \<in> ?M'"
    moreover have "?M' \<subseteq> {f. magic_name (fst f) \<or> f \<in> least_model (rules p) ?B}"
      unfolding p'(1)
    proof (rule magic_sound [OF pos safe])
      show "\<not> magic_name (predicate (goal_atom h))" if "r \<in> set (rules p)" "h \<in> set (rule_body r)" for r h
        using names(1) that by (force simp: program_atoms_def)
      fix f assume "f \<in> ?B'"
      then obtain a t where a: "a \<in> set (program_facts p')" "as_ground a = Some t" "f = (predicate a, t)" by (auto simp: ground_facts_def)
      then show "magic_name (fst f) \<or> f \<in> ?B"
        using rewritten_facts_shape [of a ?idb A "rules p"] unfolding p'(2)
        by (auto simp: ground_facts_def query_seed_eq split: if_splits)
    qed
    ultimately show "inst \<sigma> g \<in> least_model (rules p) ?B" using names(2) by auto
  next
    assume "inst \<sigma> g \<in> least_model (rules p) ?B"
    moreover have "guard_holds ?M' (inst \<sigma> g) (query_adornment g)"
      using sub(3) base_least_model [of ?B' "rules p'"] by (intro query_seed_guard) blast
    ultimately show "inst \<sigma> g \<in> ?M'"
      using magic_complete [OF pos _ A(2) sub(1,2)] A(1) unfolding p'(1) by (force simp: query_adornment_def inst_def)
  qed
qed

lemma magic_rewrite_answers:
  assumes pos: "list_all positive_rule (rules p)" and safe: "list_all safe_rule (rules p)" and ok: "program_ok p"
    and names: "\<forall>a\<in>set (program_atoms p). \<not> magic_name (predicate a)" "\<not> magic_name (predicate g)"
    and q: "goals q = [g]"
  shows "\<exists>p'. magic_rewrite p q = Some p' \<and> program_ok p' \<and> list_all positive_rule (rules p') \<and>
    answers (least_model (rules p') (ground_facts (program_facts p'))) [g] =
    answers (least_model (rules p) (ground_facts (program_facts p))) [g]"
  using q
proof (cases rule: magic_rewrite_cases [of q g p])
  case 1
  then show ?thesis using ok pos by blast
next
  case (2 A)
  then show ?thesis
    using magic_program_ok [OF ok pos] magic_program_goal [OF pos safe names 2(2,3)] by (auto simp: answers_def)
qed

end
