(* ===== verification/Datalog_Semantics.thy ===== *)
theory Datalog_Semantics
  imports Datalog_Stable
begin

text \<open>
  Stable models as the textbooks define them, over all instances of all rules, and the programs on which
  the engine's reading of a rule agrees with it: those whose rules are range restricted.
\<close>

definition rule_applies :: "fact set \<Rightarrow> fact set \<Rightarrow> dl_rule \<Rightarrow> (string \<Rightarrow> dl_value) \<Rightarrow> bool" where
  "rule_applies N I r \<sigma> \<longleftrightarrow>
     (\<forall>a \<in> set (pos_atoms r). inst \<sigma> a \<in> I) \<and> (\<forall>a \<in> set (neg_atoms r). inst \<sigma> a \<notin> N)"

definition consequences :: "dl_rule list \<Rightarrow> fact set \<Rightarrow> fact set \<Rightarrow> fact set" where
  "consequences rs N I = {inst \<sigma> (rule_head r) | r \<sigma>. r \<in> set rs \<and> rule_applies N I r \<sigma>}"

text \<open>\<open>M\<close> is the least model of the rules in which negation is decided by \<open>M\<close> itself.\<close>

definition stable_model :: "dl_rule list \<Rightarrow> fact set \<Rightarrow> fact set \<Rightarrow> bool" where
  "stable_model rs B M \<longleftrightarrow> M = lfp (\<lambda>I. B \<union> consequences rs M I)"

text \<open>A positive goal, and every variable of the rule in a positive goal.\<close>

definition range_restricted :: "dl_rule \<Rightarrow> bool" where
  "range_restricted r \<longleftrightarrow>
     pos_atoms r \<noteq> [] \<and> vars (rule_head r) \<subseteq> pos_vars r \<and> (\<forall>a \<in> set (neg_atoms r). vars a \<subseteq> pos_vars r)"

lemma range_restricted_fires:
  assumes "range_restricted r" "rule_no_bound r"
  shows "fires N I r \<sigma> \<longleftrightarrow> rule_applies N I r \<sigma>"
proof -
  have "(\<forall>\<tau>. (\<forall>x \<in> pos_vars r. \<tau> x = \<sigma> x) \<longrightarrow> inst \<tau> a \<notin> N) \<longleftrightarrow> inst \<sigma> a \<notin> N" if a: "a \<in> set (neg_atoms r)" for a
  proof -
    have "no_bound a" using assms(2) a by (auto simp: rule_no_bound_def neg_atoms_def list_all_iff)
    moreover have "vars a \<subseteq> pos_vars r" using assms(1) a by (simp add: range_restricted_def)
    ultimately have "inst \<tau> a = inst \<sigma> a" if "\<forall>x \<in> pos_vars r. \<tau> x = \<sigma> x" for \<tau>
      using that by (intro inst_cong) auto
    then show ?thesis by metis
  qed
  then show ?thesis using assms(1) by (simp add: fires_def rule_applies_def range_restricted_def)
qed

lemma range_restricted_derivations:
  assumes "list_all range_restricted rs" "list_all rule_no_bound rs"
  shows "derivations rs N I = consequences rs N I"
proof -
  have "pos_atoms r \<noteq> [] \<and> fires N I r \<sigma> \<longleftrightarrow> rule_applies N I r \<sigma>" if "r \<in> set rs" for r \<sigma>
    using assms that range_restricted_fires by (simp add: list_all_iff range_restricted_def)
  then show ?thesis unfolding derivations_def consequences_def by blast
qed

lemma range_restricted_model:
  assumes "list_all range_restricted rs" "list_all rule_no_bound rs"
  shows "stable_model rs B M \<longleftrightarrow> engine_model rs B M"
  by (simp add: engine_model_def stable_model_def reduct_model_def range_restricted_derivations [OF assms])

end
