(* ===== verification/Datalog_Properties.thy ===== *)
theory Datalog_Properties
  imports Datalog_Magic Datalog_Semantics
begin

text \<open>
  The properties of the Datalog engine, and three programs on which magic-set rewriting changes the answers.
\<close>

section \<open>Stratification\<close>

text \<open>Two nodes of a component reach each other, and only those.\<close>

definition finds_components :: "nat \<Rightarrow> adjacency \<Rightarrow> nat list list \<Rightarrow> bool" where
  "finds_components n adj cs \<longleftrightarrow>
     distinct (concat cs) \<and> set (concat cs) = {..<n} \<and> topological adj cs \<and>
     (\<forall>x<n. \<forall>y<n. (\<exists>c\<in>set cs. x \<in> set c \<and> y \<in> set c) \<longleftrightarrow> reaches adj x y \<and> reaches adj y x)"

lemma topological_reaches:
  assumes top: "topological adj cs" and r: "reaches adj x y" and x: "i < length cs" "x \<in> set (cs ! i)"
  shows "\<exists>j. j \<le> i \<and> y \<in> set (cs ! j)"
  using r
proof (induction rule: rtrancl_induct)
  case base
  then show ?case using x(2) by blast
next
  case (step y z)
  then obtain j where j: "j \<le> i" "y \<in> set (cs ! j)" by blast
  obtain neg where "(z, neg) \<in> set (adj ! y)" using step.hyps(2) by (auto simp: edge_rel_def)
  then obtain k where "k \<le> j" "z \<in> set (cs ! k)"
    using top j x(1) unfolding topological_def by (metis fst_conv le_less_trans)
  then show ?case using j(1) by (meson le_trans)
qed

lemma mutual_same_component:
  assumes d: "distinct (concat cs)" and s: "set (concat cs) = {..<n}" and top: "topological adj cs"
    and x: "x < n" "y < n" "reaches adj x y" "reaches adj y x"
  shows "\<exists>c\<in>set cs. x \<in> set c \<and> y \<in> set c"
proof -
  have ix: "scc_of n cs ! x < length cs" "x \<in> set (cs ! (scc_of n cs ! x))" by (rule component_of [OF s d x(1)])+
  have iy: "scc_of n cs ! y < length cs" "y \<in> set (cs ! (scc_of n cs ! y))" by (rule component_of [OF s d x(2)])+
  obtain j where j: "j \<le> scc_of n cs ! x" "y \<in> set (cs ! j)" using topological_reaches [OF top x(3) ix] by blast
  obtain k where k: "k \<le> scc_of n cs ! y" "x \<in> set (cs ! k)" using topological_reaches [OF top x(4) iy] by blast
  have "scc_of n cs ! y = j" by (rule scc_of_nth [OF d _ j(2) x(2)]) (use j(1) ix(1) in simp)
  moreover have "scc_of n cs ! x = k" by (rule scc_of_nth [OF d _ k(2) x(1)]) (use k(1) iy(1) in simp)
  ultimately have "scc_of n cs ! x = scc_of n cs ! y" using j(1) k(1) by simp
  then have "y \<in> set (cs ! (scc_of n cs ! x))" using iy(2) by simp
  then show ?thesis using ix nth_mem [OF ix(1)] by blast
qed

text \<open>
  C9: The component search returns: its components partition the nodes, two nodes share a component exactly
  when each can be reached from the other, and no edge leads to a later component.\<close>

theorem component_search_correct:
  assumes "adj_ok n adj"
  shows "\<exists>cs. tarjan_sccs n adj = Some cs \<and> finds_components n adj cs"
proof -
  obtain cs where cs: "tarjan_sccs n adj = Some cs" "distinct (concat cs)" "set (concat cs) = {..<n}" "topological adj cs"
      "\<forall>c\<in>set cs. strongly_connected adj c" using tarjan_sccs_correct [OF assms] by blast
  have "(\<exists>c\<in>set cs. x \<in> set c \<and> y \<in> set c) \<longleftrightarrow> reaches adj x y \<and> reaches adj y x" if "x < n" "y < n" for x y
    using mutual_same_component [OF cs(2,3,4) that] cs(5) unfolding strongly_connected_def by blast
  then show ?thesis using cs by (auto simp: finds_components_def)
qed

theorem component_search_correct_witness:
  "\<exists>cs. tarjan_sccs 3 [[(1, False)], [(0, True), (2, False)], []] = Some cs \<and>
     finds_components 3 [[(1, False)], [(0, True), (2, False)], []] cs"
  by (rule component_search_correct) (simp add: adj_ok_def less_Suc_eq numeral_3_eq_3 all_conj_distrib)

text \<open>The specification of a stratifier: the least level map that orders the dependencies of the rules.\<close>

definition least_stratification :: "(string \<rightharpoonup> nat) \<Rightarrow> dl_program \<Rightarrow> bool" where
  "least_stratification strata p \<longleftrightarrow>
     dom strata = set (program_preds p) \<and> stratifies (level_of strata) p \<and>
     (\<forall>l. stratifies l p \<longrightarrow> (\<forall>q\<in>set (program_preds p). level_of strata q \<le> l q))"

lemma negative_scc_nonempty: "negative_scc adj c \<Longrightarrow> c \<noteq> []"
  by (auto simp: negative_scc_def)

text \<open>
  C7: The stratifier always answers.  It reports a cycle through negation, with a non-empty list of predicates,
  exactly when no level map orders the dependencies; otherwise it returns the least one.\<close>

theorem stratification_least:
  "case compute_strata p of
     None \<Rightarrow> False
   | Some (Inl (CycleThroughNegation cycle)) \<Rightarrow> cycle \<noteq> [] \<and> (\<forall>l. \<not> stratifies l p)
   | Some (Inr strata) \<Rightarrow> least_stratification strata p"
proof (rule compute_strata_cases [of p])
  fix cs c assume c: "components_ok p cs" "c \<in> set cs" "negative_scc (build_adj (pred_list p) (program_edges p)) c"
    "compute_strata p = Some (Inl (CycleThroughNegation (sort (map ((!) (pred_list p)) c))))"
  have "length (sort (map ((!) (pred_list p)) c)) \<noteq> 0" using negative_scc_nonempty [OF c(3)] by simp
  then have "sort (map ((!) (pred_list p)) c) \<noteq> []" by (metis length_0_conv)
  then show ?thesis using c(4) negative_scc_unstratified [OF c(1-3)] by simp
next
  fix cs assume cs: "components_ok p cs" "\<forall>c\<in>set cs. \<not> negative_scc (build_adj (pred_list p) (program_edges p)) c"
    "compute_strata p = Some (Inr (\<lambda>q. if q \<in> set (pred_list p) then Some (result_level p cs q) else None))"
  let ?strata = "\<lambda>q. if q \<in> set (pred_list p) then Some (result_level p cs q) else None"
  have "stratifies (level_of ?strata) p"
    using result_stratifies [OF cs(1,2)] edges_in_preds [of _ _ _ p] by (fastforce simp: stratifies_edges level_of_def)
  moreover have "dom ?strata = set (program_preds p)" by (auto simp: pred_list_def split: if_splits)
  moreover have "level_of ?strata q \<le> l q" if "stratifies l p" "q \<in> set (program_preds p)" for l q
    using result_least [OF cs(1) that(1), of q] that(2) by (simp add: level_of_def pred_list_def)
  ultimately have "least_stratification ?strata p" unfolding least_stratification_def by blast
  then show ?thesis using cs(3) by simp
qed

section \<open>Evaluation\<close>

text \<open>
  C6: The evaluation of a program with ground facts over a well-formed session store (each table holds tuples of its
  arity, each once, as asserting and retracting facts keep it) ends.  A program with an unresolved
  pipeline value is refused with the atom and name of one; else a program that cannot be stratified is refused;
  else evaluation returns a database.  If moreover every rule is range restricted (it has a positive goal, and
  every variable of its head and of its negated goals occurs in a positive goal), that database is the only
  stable model of the rules over the facts of program and session.  Rules that are not range restricted are
  outside of that claim: the engine skips a rule without a positive goal.\<close>

theorem evaluation_stable_model:
  assumes "tables_wf session" "list_all is_ground (program_facts p)"
  shows "if \<not> list_all no_bound (program_atoms p) then
       (\<exists>n a. evaluate_with_session p session ticks = Some (Inl (UnresolvedPipelineValue n a)) \<and>
          a \<in> set (program_atoms p) \<and> Bound n \<in> set (terms a))
     else if \<forall>l. \<not> stratifies l p then
       (\<exists>cycle. evaluate_with_session p session ticks = Some (Inl (UnstratifiedNegation cycle)))
     else
       (\<exists>db ticks'. evaluate_with_session p session ticks = Some (Inr (db, ticks')) \<and> tables_wf db \<and>
          (list_all range_restricted (rules p) \<longrightarrow>
           (\<forall>M. stable_model (rules p) (ground_facts (program_facts p) \<union> facts_of session) M \<longleftrightarrow> M = facts_of db)))"
proof (cases "list_all no_bound (program_atoms p)")
  case nb: True
  show ?thesis
  proof (cases "\<forall>l. \<not> stratifies l p")
    case True
    then show ?thesis using nb evaluate_rejects_negation [of p session ticks] by simp
  next
    case False
    then obtain l where "stratifies l p" by blast
    then obtain db ticks' where db: "evaluate_with_session p session ticks = Some (Inr (db, ticks'))" "tables_wf db"
        "\<forall>M. engine_model (rules p) (extensional p session) M \<longleftrightarrow> M = facts_of db"
      using evaluate_accepts [OF assms(1), of p l ticks] assms(2) nb by (auto simp: program_ok_def)
    have "list_all rule_no_bound (rules p)" using nb program_atoms_rules [of p] by (simp add: list_all_iff)
    then have "list_all range_restricted (rules p) \<longrightarrow>
       (\<forall>M. stable_model (rules p) (ground_facts (program_facts p) \<union> facts_of session) M \<longleftrightarrow> M = facts_of db)"
      using db(3) range_restricted_model [of "rules p"] by (simp add: extensional_def)
    then show ?thesis using nb False db(1,2) by auto
  qed
qed (use evaluate_rejects_bound [of p session ticks] in simp)

definition sample_program :: dl_program where
  "sample_program =
     \<lparr>rules = [\<lparr>rule_head = \<lparr>predicate = ''r'', terms = [Var ''X'']\<rparr>,
                rule_body = [Positive \<lparr>predicate = ''e'', terms = [Var ''X'']\<rparr>, Negative \<lparr>predicate = ''s'', terms = [Var ''X'']\<rparr>]\<rparr>,
               \<lparr>rule_head = \<lparr>predicate = ''s'', terms = [Var ''X'']\<rparr>,
                rule_body = [Positive \<lparr>predicate = ''t'', terms = [Var ''X'']\<rparr>]\<rparr>],
      program_facts = [\<lparr>predicate = ''e'', terms = [Const (V_Ident ''a'')]\<rparr>, \<lparr>predicate = ''t'', terms = [Const (V_Ident ''a'')]\<rparr>]\<rparr>"

definition sample_level :: "string \<Rightarrow> nat" where
  "sample_level q = (if q = ''r'' then 1 else 0)"

lemma sample_program_ok: "program_ok sample_program" "stratifies sample_level sample_program"
  by (simp_all add: program_ok_def program_atoms_def sample_program_def is_ground_def no_bound_def stratifies_def sample_level_def)

lemma sample_program_restricted: "list_all range_restricted (rules sample_program)"
  by (simp add: sample_program_def range_restricted_def pos_vars_def pos_atoms_def neg_atoms_def vars_def)

theorem evaluation_stable_model_witness:
  "\<exists>db ticks'. evaluate_with_session sample_program [] [] = Some (Inr (db, ticks')) \<and> tables_wf db \<and>
     (\<forall>M. stable_model (rules sample_program) (ground_facts (program_facts sample_program) \<union> facts_of []) M \<longleftrightarrow> M = facts_of db)"
proof -
  have "\<not> (\<forall>l. \<not> stratifies l sample_program)" using sample_program_ok(2) by blast
  moreover have "list_all is_ground (program_facts sample_program)" "list_all no_bound (program_atoms sample_program)"
    using sample_program_ok(1) by (simp_all add: program_ok_def)
  ultimately show ?thesis using evaluation_stable_model [OF tables_wf_Nil, of sample_program "[]"] sample_program_restricted by (simp only: if_False not_True_eq_False simp_thms)
qed

text \<open>
  C10: Take a program with ground facts and no pipeline values that can be stratified and whose rules are range
  restricted, a well-formed session store, and a query without pipeline values.  The query over the session returns every substitution of its
  variables whose goals hold in the only stable model, each once, and nothing else; it takes one query id and
  emits one fingerprint with the number of answers.\<close>

theorem query_answers_exact:
  assumes "tables_wf session" "program_ok p" "stratifies l p" "list_all range_restricted (rules p)"
    and "list_all no_bound (goals q)"
  shows "\<exists>M bs ticks'.
    (\<forall>N. stable_model (rules p) (ground_facts (program_facts p) \<union> facts_of session) N \<longleftrightarrow> N = M) \<and>
    distinct bs \<and> set bs = answers M (goals q) \<and>
    run_query_with_session p q session ev =
      Some (ev\<lparr>next_query_id := next_query_id ev + 1, progress := ticks',
               fingerprints := fingerprints ev @ [format_tag (next_query_id ev) (length bs)]\<rparr>, Inr bs)"
proof -
  obtain db ticks' where db: "evaluate_with_session p session (progress ev) = Some (Inr (db, ticks'))" "tables_wf db"
      "\<forall>N. engine_model (rules p) (extensional p session) N \<longleftrightarrow> N = facts_of db"
    using evaluate_accepts [OF assms(1-3)] by blast
  have "list_all rule_no_bound (rules p)"
    using assms(2) program_atoms_rules [of p] by (simp add: program_ok_def list_all_iff)
  then have stable: "\<forall>N. stable_model (rules p) (extensional p session) N \<longleftrightarrow> N = facts_of db"
    using db(3) range_restricted_model [OF assms(4)] by blast
  obtain bs where "run_goals db q = Inr bs" "set bs = answers (facts_of db) (goals q)"
      "answer_query (Some (Inr (db, ticks'))) q ev = Some (emit_fingerprint (length bs) (ev\<lparr>progress := ticks'\<rparr>), Inr bs)"
    using answer_query_success [OF db(2), of q ticks' ev] assms(5) by (auto simp: list_all_iff)
  then show ?thesis using db(1) stable run_goals_distinct [OF db(2)]
    by (intro exI [of _ "facts_of db"] exI [of _ bs] exI [of _ ticks'])
      (simp add: run_query_with_session_def extensional_def emit_fingerprint_def)
qed

theorem query_answers_exact_witness:
  "\<exists>M bs ticks'.
    (\<forall>N. stable_model (rules sample_program) (ground_facts (program_facts sample_program) \<union> facts_of []) N \<longleftrightarrow> N = M) \<and>
    distinct bs \<and> set bs = answers M [\<lparr>predicate = ''r'', terms = [Var ''Z'']\<rparr>] \<and>
    run_query_with_session sample_program \<lparr>goals = [\<lparr>predicate = ''r'', terms = [Var ''Z'']\<rparr>]\<rparr> [] new_evaluator =
      Some (new_evaluator\<lparr>next_query_id := next_query_id new_evaluator + 1, progress := ticks',
               fingerprints := fingerprints new_evaluator @ [format_tag (next_query_id new_evaluator) (length bs)]\<rparr>, Inr bs)"
  using query_answers_exact [of "[]" sample_program sample_level "\<lparr>goals = [\<lparr>predicate = ''r'', terms = [Var ''Z'']\<rparr>]\<rparr>" new_evaluator]
    sample_program_ok sample_program_restricted by (simp add: no_bound_def)

text \<open>
  C8: For a program without negation whose rules are safe, whose atoms are free of pipeline values and of the
  prefix \<^verbatim>\<open>magic_\<close>, the rewritten program answers a query of one goal as the program itself does, with the
  same query id and the same fingerprint.\<close>

theorem magic_sets_same_answers:
  assumes "list_all positive_rule (rules p)" "list_all safe_rule (rules p)" "program_ok p"
    and "\<forall>a\<in>set (program_atoms p). \<not> magic_name (predicate a)"
    and "goals q = [g]" "no_bound g" "\<not> magic_name (predicate g)"
  shows "\<exists>bs bs' ev1 ev2. run_query p q ev = Some (ev1, Inr bs) \<and> run_query_via_magic_sets p q ev = Some (ev2, Inr bs') \<and>
    set bs = set bs' \<and> next_query_id ev1 = next_query_id ev2 \<and> fingerprints ev1 = fingerprints ev2"
proof -
  have run: "\<exists>ticks' bs. distinct bs \<and>
      set bs = answers (least_model (rules p') (ground_facts (program_facts p'))) [g] \<and>
      answer_query (evaluate_stratified p' (progress ev)) q ev = Some (emit_fingerprint (length bs) (ev\<lparr>progress := ticks'\<rparr>), Inr bs)"
    if ok: "program_ok p'" and pos: "list_all positive_rule (rules p')" for p'
  proof -
    obtain db ticks' where db: "evaluate_with_session p' [] (progress ev) = Some (Inr (db, ticks'))" "tables_wf db"
        "\<forall>N. engine_model (rules p') (extensional p' []) N \<longleftrightarrow> N = facts_of db"
      using evaluate_accepts [OF tables_wf_Nil ok positive_stratified [OF pos]] by blast
    obtain bs where bs: "run_goals db q = Inr bs" "set bs = answers (facts_of db) (goals q)"
        "answer_query (Some (Inr (db, ticks'))) q ev = Some (emit_fingerprint (length bs) (ev\<lparr>progress := ticks'\<rparr>), Inr bs)"
      using answer_query_success [OF db(2), of q ticks' ev] assms(5,6) by auto
    have "facts_of db = least_model (rules p') (ground_facts (program_facts p'))"
      using db(3) unfolding positive_stable [OF pos] extensional_def by simp
    then show ?thesis using bs db(1) run_goals_distinct [OF db(2) bs(1)] assms(5) by (auto simp: evaluate_stratified_def)
  qed
  obtain p' where p': "magic_rewrite p q = Some p'" "program_ok p'" "list_all positive_rule (rules p')"
      "answers (least_model (rules p') (ground_facts (program_facts p'))) [g] =
       answers (least_model (rules p) (ground_facts (program_facts p))) [g]"
    using magic_rewrite_answers [OF assms(1-4,7,5)] by blast
  obtain t1 bs1 where 1: "distinct bs1" "set bs1 = answers (least_model (rules p) (ground_facts (program_facts p))) [g]"
      "run_query p q ev = Some (emit_fingerprint (length bs1) (ev\<lparr>progress := t1\<rparr>), Inr bs1)"
    using run [OF assms(3,1)] by (auto simp: run_query_def)
  obtain t2 bs2 where 2: "distinct bs2" "set bs2 = answers (least_model (rules p) (ground_facts (program_facts p))) [g]"
      "run_query_via_magic_sets p q ev = Some (emit_fingerprint (length bs2) (ev\<lparr>progress := t2\<rparr>), Inr bs2)"
    using run [OF p'(2,3)] p'(1,4) by (auto simp: run_query_via_magic_sets_def)
  have "length bs1 = length bs2" using 1(1,2) 2(1,2) by (metis distinct_card)
  then show ?thesis using 1 2 by (simp add: emit_fingerprint_def)
qed

definition path_program :: dl_program where
  "path_program =
     \<lparr>rules = [\<lparr>rule_head = \<lparr>predicate = ''p'', terms = [Var ''X'', Var ''Y'']\<rparr>,
                rule_body = [Positive \<lparr>predicate = ''e'', terms = [Var ''X'', Var ''Y'']\<rparr>]\<rparr>,
               \<lparr>rule_head = \<lparr>predicate = ''p'', terms = [Var ''X'', Var ''Z'']\<rparr>,
                rule_body = [Positive \<lparr>predicate = ''e'', terms = [Var ''X'', Var ''Y'']\<rparr>, Positive \<lparr>predicate = ''p'', terms = [Var ''Y'', Var ''Z'']\<rparr>]\<rparr>],
      program_facts = [\<lparr>predicate = ''e'', terms = [Const (V_Ident ''a''), Const (V_Ident ''b'')]\<rparr>,
                       \<lparr>predicate = ''e'', terms = [Const (V_Ident ''b''), Const (V_Ident ''c'')]\<rparr>]\<rparr>"

theorem magic_sets_same_answers_witness:
  "\<exists>bs bs' ev1 ev2.
     run_query path_program \<lparr>goals = [\<lparr>predicate = ''p'', terms = [Const (V_Ident ''a''), Var ''W'']\<rparr>]\<rparr> new_evaluator = Some (ev1, Inr bs) \<and>
     run_query_via_magic_sets path_program \<lparr>goals = [\<lparr>predicate = ''p'', terms = [Const (V_Ident ''a''), Var ''W'']\<rparr>]\<rparr> new_evaluator = Some (ev2, Inr bs') \<and>
     set bs = set bs' \<and> next_query_id ev1 = next_query_id ev2 \<and> fingerprints ev1 = fingerprints ev2"
  by (rule magic_sets_same_answers)
    (auto simp: path_program_def positive_rule_def safe_rule_def program_ok_def program_atoms_def is_ground_def
      no_bound_def magic_name_def vars_def pos_vars_def pos_atoms_def)

text \<open>
  C32: A session is a set of facts: after any sequence of assertions and retractions on a new session it holds
  the facts asserted and not retracted since, and what an assertion or retraction reports is whether the
  fact was there.\<close>

theorem session_refines_facts:
  "facts_of (fold session_step ops []) = fold fact_step ops {} \<and>
   fst (session_assert p args (fold session_step ops [])) =
     (if (p, args) \<in> fold fact_step ops {} then AlreadyPresent else Added) \<and>
   fst (session_retract p args (fold session_step ops [])) =
     (if (p, args) \<in> fold fact_step ops {} then Removed else NotFound)"
  using session_steps_facts [OF tables_wf_Nil, of ops] by (simp add: session_assert_facts session_retract_facts)

section \<open>A rule without a positive goal\<close>

text \<open>
  The rule \<^verbatim>\<open>p(a) => not q(a)\<close> has no variable at all, and its only stable model holds \<^verbatim>\<open>p(a)\<close>; the engine
  skips it.
\<close>

definition negative_program :: dl_program where
  "negative_program =
     \<lparr>rules = [\<lparr>rule_head = \<lparr>predicate = ''p'', terms = [Const (V_Ident ''a'')]\<rparr>,
                rule_body = [Negative \<lparr>predicate = ''q'', terms = [Const (V_Ident ''a'')]\<rparr>]\<rparr>],
      program_facts = []\<rparr>"

lemma negative_rule_skipped:
  "stable_model (rules negative_program) {} {(''p'', [V_Ident ''a''])}"
  "evaluate_with_session negative_program [] [] = Some (Inr ([], [(1, 0, 0)]))"
proof -
  have "consequences (rules negative_program) {(''p'', [V_Ident ''a''])} I = {(''p'', [V_Ident ''a''])}" for I
    by (auto simp: consequences_def rule_applies_def negative_program_def pos_atoms_def neg_atoms_def inst_def)
  then show "stable_model (rules negative_program) {} {(''p'', [V_Ident ''a''])}"
    by (simp add: stable_model_def lfp_const)
  show "evaluate_with_session negative_program [] [] = Some (Inr ([], [(1, 0, 0)]))" by code_simp
qed

section \<open>Where the rewriting changes the answers\<close>

definition answer_count :: "binding list query_result \<Rightarrow> nat option" where
  "answer_count r = (case r of Some (ev, Inr bs) \<Rightarrow> Some (length bs) | _ \<Rightarrow> None)"

text \<open>A negated predicate with rules is not adorned, so its rules are dropped: \<^verbatim>\<open>r(a)\<close> holds after rewriting only.\<close>

lemma magic_drops_negated:
  "answer_count (run_query sample_program \<lparr>goals = [\<lparr>predicate = ''r'', terms = [Const (V_Ident ''a'')]\<rparr>]\<rparr> new_evaluator) = Some 0"
  "answer_count (run_query_via_magic_sets sample_program \<lparr>goals = [\<lparr>predicate = ''r'', terms = [Const (V_Ident ''a'')]\<rparr>]\<rparr> new_evaluator) = Some 1"
  by code_simp+

text \<open>Only the first goal is adorned, so the rules of a second one are dropped.\<close>

lemma magic_drops_second_goal:
  "answer_count (run_query path_program \<lparr>goals = [\<lparr>predicate = ''e'', terms = [Const (V_Ident ''a''), Var ''W'']\<rparr>,
     \<lparr>predicate = ''p'', terms = [Var ''W'', Var ''V'']\<rparr>]\<rparr> new_evaluator) = Some 1"
  "answer_count (run_query_via_magic_sets path_program \<lparr>goals = [\<lparr>predicate = ''e'', terms = [Const (V_Ident ''a''), Var ''W'']\<rparr>,
     \<lparr>predicate = ''p'', terms = [Var ''W'', Var ''V'']\<rparr>]\<rparr> new_evaluator) = Some 0"
  by code_simp+

text \<open>A head variable that the body does not bind makes a rule silent; the guard of the rewriting binds it.\<close>

definition unsafe_program :: dl_program where
  "unsafe_program =
     \<lparr>rules = [\<lparr>rule_head = \<lparr>predicate = ''p'', terms = [Var ''X'', Var ''Y'']\<rparr>,
                rule_body = [Positive \<lparr>predicate = ''q'', terms = [Var ''Y'']\<rparr>]\<rparr>],
      program_facts = [\<lparr>predicate = ''q'', terms = [Const (V_Ident ''b'')]\<rparr>]\<rparr>"

lemma magic_fires_unsafe:
  "answer_count (run_query unsafe_program \<lparr>goals = [\<lparr>predicate = ''p'', terms = [Const (V_Ident ''a''), Var ''Y'']\<rparr>]\<rparr> new_evaluator) = Some 0"
  "answer_count (run_query_via_magic_sets unsafe_program \<lparr>goals = [\<lparr>predicate = ''p'', terms = [Const (V_Ident ''a''), Var ''Y'']\<rparr>]\<rparr> new_evaluator) = Some 1"
  by code_simp+

end
