(* ===== verification/HM_Types.thy ===== *)
theory HM_Types
  imports Prelude Text_Format "HOL-Library.Char_ord" "HOL-Library.List_Lexorder"
begin

text \<open>
  The type language of \<^verbatim>\<open>paideia-as-shell-hm\<close>: monotypes with record rows, effect rows and typed
  values (\<^verbatim>\<open>ty.rs\<close>, \<^verbatim>\<open>effect_row.rs\<close>, \<^verbatim>\<open>typed_value.rs\<close>), their free variables, the passage between a row
  and its map of fields, and the operations on effect rows that need no unification.

  A \<^verbatim>\<open>BTreeMap\<close> is an association list in strictly increasing order of the keys.  The \<^verbatim>\<open>HashMap\<close>s
  of the crate are represented in the same way: the code sorts the keys wherever the order
  of iteration could be seen, except that the type reported by a failed occurs check of a row is
  the first offending one in hash order; here it is the one with the smallest label.
  A type variable is its \<^verbatim>\<open>u32\<close> as a natural number; the counter that makes them is bounded.
\<close>

section \<open>Sorted association lists\<close>

fun map_insert :: "'k::linorder \<Rightarrow> 'v \<Rightarrow> ('k \<times> 'v) list \<Rightarrow> ('k \<times> 'v) list" where
  "map_insert k v [] = [(k, v)]"
| "map_insert k v ((k', v') # m) =
     (if k < k' then (k, v) # (k', v') # m
      else if k = k' then (k, v) # m
      else (k', v') # map_insert k v m)"

text \<open>\<^verbatim>\<open>m.entry(k).or_insert(v)\<close>\<close>

definition or_insert :: "'k::linorder \<Rightarrow> 'v \<Rightarrow> ('k \<times> 'v) list \<Rightarrow> ('k \<times> 'v) list" where
  "or_insert k v m = (if k \<in> fst ` set m then m else map_insert k v m)"

text \<open>The loop \<^verbatim>\<open>for (k, v) in n { m.entry(k).or_insert(v) }\<close>.\<close>

definition or_insert_all :: "('k::linorder \<times> 'v) list \<Rightarrow> ('k \<times> 'v) list \<Rightarrow> ('k \<times> 'v) list" where
  "or_insert_all n m = fold (\<lambda>(k, v). or_insert k v) n m"

abbreviation keys :: "('k \<times> 'v) list \<Rightarrow> 'k set" where
  "keys m \<equiv> fst ` set m"

abbreviation sorted_keys :: "('k::linorder \<times> 'v) list \<Rightarrow> bool" where
  "sorted_keys m \<equiv> canonical (map fst m)"

lemma map_of_map_insert [simp]: "map_of (map_insert k v m) = (map_of m)(k \<mapsto> v)"
  by (induction k v m rule: map_insert.induct) (auto simp: fun_eq_iff)

lemma set_map_insert: "set (map_insert k v m) \<subseteq> insert (k, v) (set m)"
  by (induction k v m rule: map_insert.induct) auto

lemma keys_map_insert [simp]: "keys (map_insert k v m) = insert k (keys m)"
  by (induction k v m rule: map_insert.induct) auto

lemma sorted_map_insert [simp]: "sorted_keys m \<Longrightarrow> sorted_keys (map_insert k v m)"
proof (induction k v m rule: map_insert.induct)
  case (2 k v k' v' m)
  then show ?case
    using keys_map_insert [of k v m] by (auto simp del: keys_map_insert)
qed simp

lemma sorted_keys_distinct: "sorted_keys m \<Longrightarrow> distinct (map fst m)"
  by (rule canonical_distinct)

lemma sorted_keys_ext:
  assumes "sorted_keys m" "sorted_keys n" "map_of m = map_of n"
  shows "m = n"
proof (rule map_sorted_distinct_set_unique [where f = fst])
  have "distinct (map fst m)" "distinct (map fst n)"
    using assms(1,2) by (auto intro: sorted_keys_distinct)
  then show "set m = set n"
    using assms(3) by (metis map_of_inject_set)
  show "inj_on fst (set m \<union> set n)"
    using \<open>set m = set n\<close> \<open>distinct (map fst m)\<close> by (simp add: distinct_map)
qed (use assms in \<open>auto simp: strict_sorted_iff intro: sorted_keys_distinct\<close>)

lemma keys_or_insert [simp]: "keys (or_insert k v m) = insert k (keys m)"
  by (auto simp: or_insert_def)

lemma sorted_or_insert [simp]: "sorted_keys m \<Longrightarrow> sorted_keys (or_insert k v m)"
  by (simp add: or_insert_def)

lemma map_of_or_insert:
  "map_of (or_insert k v m) k' = (case map_of m k' of Some x \<Rightarrow> Some x | None \<Rightarrow> if k = k' then Some v else None)"
  using map_of_eq_None_iff [of m k] by (auto simp: or_insert_def split: option.split)

lemma or_insert_all_simps [simp]:
  "or_insert_all [] m = m"
  "or_insert_all ((k, v) # n) m = or_insert_all n (or_insert k v m)"
  by (simp_all add: or_insert_all_def)

lemma keys_or_insert_all [simp]: "keys (or_insert_all n m) = keys n \<union> keys m"
proof (induction n arbitrary: m)
  case (Cons p n)
  then show ?case by (cases p) simp
qed simp

lemma sorted_or_insert_all [simp]: "sorted_keys m \<Longrightarrow> sorted_keys (or_insert_all n m)"
  by (induction n arbitrary: m) auto

lemma map_of_or_insert_all: "map_of (or_insert_all n m) = map_of n ++ map_of m"
  by (induction n arbitrary: m) (auto simp: map_of_or_insert map_add_def fun_eq_iff split: option.split)

lemma set_or_insert_all: "set (or_insert_all n m) \<subseteq> set n \<union> set m"
proof (induction n arbitrary: m)
  case (Cons p n)
  obtain k v where [simp]: "p = (k, v)" by (cases p)
  have "set (or_insert k v m) \<subseteq> insert (k, v) (set m)"
    using set_map_insert [of k v m] by (auto simp: or_insert_def)
  with Cons [of "or_insert k v m"] show ?case by auto
qed simp

lemma sorted_keys_filter: "sorted_keys m \<Longrightarrow> sorted_keys (filter P m)"
  by (induction m) auto

section \<open>Types\<close>

type_synonym type_var = nat

datatype mono_type =
    Var type_var
  | Con string
  | Arrow mono_type mono_type
  | Record row_type
  | EffectRow effect_row
  | Typed typed_value
and row_type =
    Empty
  | RowVar type_var
  | Extend string mono_type row_type
and effect_row =
    Effect_Row (present: "(string \<times> mono_type) list") (tail: "type_var option")
and typed_value =
    Typed_Value (value_row: row_type) (effect_row: effect_row)

type_synonym row_fields_map = "(string \<times> mono_type) list"

fun free_vars :: "mono_type \<Rightarrow> type_var set"
  and row_free_vars :: "row_type \<Rightarrow> type_var set"
  and values_free_vars :: "row_fields_map \<Rightarrow> type_var set"
  and effect_free_vars :: "effect_row \<Rightarrow> type_var set" where
  "free_vars (Var v) = {v}"
| "free_vars (Con _) = {}"
| "free_vars (Arrow a b) = free_vars a \<union> free_vars b"
| "free_vars (Record row) = row_free_vars row"
| "free_vars (EffectRow row) = effect_free_vars row"
| "free_vars (Typed (Typed_Value r e)) = row_free_vars r \<union> effect_free_vars e"
| "row_free_vars Empty = {}"
| "row_free_vars (RowVar v) = {v}"
| "row_free_vars (Extend _ ty rest) = free_vars ty \<union> row_free_vars rest"
| "values_free_vars [] = {}"
| "values_free_vars ((_, ty) # m) = free_vars ty \<union> values_free_vars m"
| "effect_free_vars (Effect_Row p t) = values_free_vars p \<union> set_option t"

lemmas type_induct = free_vars_row_free_vars_values_free_vars_effect_free_vars.induct
  [case_names Var Con Arrow Record EffectRow Typed Empty RowVar Extend Nil Cons Effect_Row]

text \<open>\<^verbatim>\<open>to_map\<close> keeps the outermost entry of a field.\<close>

fun to_map_loop :: "row_fields_map \<Rightarrow> row_type \<Rightarrow> row_fields_map \<times> type_var option" where
  "to_map_loop fields Empty = (fields, None)"
| "to_map_loop fields (RowVar v) = (fields, Some v)"
| "to_map_loop fields (Extend f ty rest) = to_map_loop (or_insert f ty fields) rest"

definition to_map :: "row_type \<Rightarrow> row_fields_map \<times> type_var option" where
  "to_map row = to_map_loop [] row"

definition from_map :: "row_fields_map \<Rightarrow> type_var option \<Rightarrow> row_type" where
  "from_map fields t =
     fold (\<lambda>(name, ty) acc. Extend name ty acc) (rev fields)
       (case t of Some v \<Rightarrow> RowVar v | None \<Rightarrow> Empty)"

record type_scheme =
  quantified :: "type_var list"
  body :: mono_type

definition scheme_free_vars :: "type_scheme \<Rightarrow> type_var set" where
  "scheme_free_vars s = free_vars (body s) - set (quantified s)"

section \<open>Effect rows and typed values\<close>

definition empty_effect_row :: effect_row where
  "empty_effect_row = Effect_Row [] None"

definition from_labels :: "string list \<Rightarrow> effect_row" where
  "from_labels names = Effect_Row (fold (\<lambda>name m. map_insert name (Con ''Unit'') m) names []) None"

definition empty_typed_value :: typed_value where
  "empty_typed_value = Typed_Value Empty empty_effect_row"

definition of_row :: "row_type \<Rightarrow> typed_value" where
  "of_row row = Typed_Value row empty_effect_row"

definition with_effect :: "row_type \<Rightarrow> effect_row \<Rightarrow> typed_value" where
  "with_effect row effect = Typed_Value row effect"

definition union_effect_rows :: "effect_row \<Rightarrow> effect_row \<Rightarrow> effect_row" where
  "union_effect_rows a b =
     Effect_Row (or_insert_all (present b) (present a))
       (case tail a of Some v \<Rightarrow> Some v | None \<Rightarrow> tail b)"

definition compose_pipeline_effects :: "effect_row list \<Rightarrow> effect_row" where
  "compose_pipeline_effects rows =
     (case rows of
        [] \<Rightarrow> empty_effect_row
      | r # rs \<Rightarrow> fold (\<lambda>row acc. union_effect_rows acc row) rs r)"

definition typed_value_pipe :: "typed_value list \<Rightarrow> typed_value" where
  "typed_value_pipe stages =
     (if stages = [] then empty_typed_value
      else if length stages = 1 then stages ! 0
      else Typed_Value (value_row (stages ! (length stages - 1)))
             (compose_pipeline_effects (map effect_row stages)))"

section \<open>Rows as maps\<close>

fun row_fields :: "row_type \<Rightarrow> row_fields_map" where
  "row_fields (Extend f ty rest) = (f, ty) # row_fields rest"
| "row_fields _ = []"

fun row_tail :: "row_type \<Rightarrow> type_var option" where
  "row_tail (Extend _ _ rest) = row_tail rest"
| "row_tail (RowVar v) = Some v"
| "row_tail Empty = None"

lemma to_map_loop_eq: "to_map_loop m row = (or_insert_all (row_fields row) m, row_tail row)"
  by (induction m row rule: to_map_loop.induct) auto

lemma to_map_eq: "to_map row = (or_insert_all (row_fields row) [], row_tail row)"
  by (simp add: to_map_def to_map_loop_eq)

lemma from_map_simps [simp]:
  "from_map [] t = (case t of Some v \<Rightarrow> RowVar v | None \<Rightarrow> Empty)"
  "from_map ((k, ty) # m) t = Extend k ty (from_map m t)"
  by (simp_all add: from_map_def)

lemma row_parts_from_map [simp]: "row_fields (from_map m t) = m" "row_tail (from_map m t) = t"
  by (induction m) (auto split: option.split)

lemma row_free_vars_parts: "row_free_vars row = values_free_vars (row_fields row) \<union> set_option (row_tail row)"
  by (induction row rule: row_fields.induct) auto

text \<open>Flattening a row that was built from a map gives the map back.\<close>

lemma to_map_from_map: "sorted_keys m \<Longrightarrow> to_map (from_map m t) = (m, t)"
  by (auto simp: to_map_eq map_of_or_insert_all intro!: sorted_keys_ext)

lemma map_of_to_map: "map_of (fst (to_map row)) = map_of (row_fields row)"
  by (simp add: to_map_eq map_of_or_insert_all)

lemma sorted_to_map [simp]: "sorted_keys (fst (to_map row))"
  by (simp add: to_map_eq)

lemma finite_free_vars [simp]:
  "finite (free_vars t)" "finite (row_free_vars r)" "finite (values_free_vars m)" "finite (effect_free_vars e)"
  by (induction t and r and m and e rule: type_induct) auto

lemma values_free_vars_Union: "values_free_vars m = (\<Union>(k, t) \<in> set m. free_vars t)"
  by (induction m) auto

lemma values_free_vars_append [simp]: "values_free_vars (m @ n) = values_free_vars m \<union> values_free_vars n"
  by (auto simp: values_free_vars_Union)

lemma values_free_vars_mono: "set m \<subseteq> set n \<Longrightarrow> values_free_vars m \<subseteq> values_free_vars n"
  by (auto simp: values_free_vars_Union)

end
