(* ===== verification/HM_Unify.thy ===== *)
theory HM_Unify
  imports HM_Types
begin

text \<open>
  Substitutions (\<^verbatim>\<open>subst.rs\<close>) and the unifier (\<^verbatim>\<open>unify.rs\<close>, \<^verbatim>\<open>effect_row.rs\<close>, \<^verbatim>\<open>typed_value.rs\<close>) of
  \<^verbatim>\<open>paideia-as-shell-hm\<close>.

  Applying a substitution follows the binding of a row variable, and then the bindings of the row
  it finds; on a cyclic substitution the code does not return.  The depth of that chase is a
  parameter here, and the value \<open>None\<close> says that it was too small.  The unifier has the depth of its
  recursion as a parameter.  A run ends in \<open>Done\<close> with a result and the counter of
  fresh variables, in \<open>Panic\<close> when the counter overflows, or in \<open>Timeout\<close> when the parameter was too
  small.
\<close>

section \<open>Outcomes\<close>

datatype 'a outcome = Done 'a | Panic | Timeout

type_synonym ('e, 'a) hm = "nat \<Rightarrow> (('e + 'a) \<times> nat) outcome"

definition hm_return :: "'a \<Rightarrow> ('e, 'a) hm" where
  "hm_return x = (\<lambda>n. Done (Inr x, n))"

definition hm_error :: "'e \<Rightarrow> ('e, 'a) hm" where
  "hm_error e = (\<lambda>n. Done (Inl e, n))"

definition hm_lift :: "'a option \<Rightarrow> ('e, 'a) hm" where
  "hm_lift r = (\<lambda>n. case r of Some x \<Rightarrow> Done (Inr x, n) | None \<Rightarrow> Timeout)"

text \<open>The question mark operator.\<close>

definition hm_try :: "('e, 'a) hm \<Rightarrow> ('a \<Rightarrow> ('e, 'b) hm) \<Rightarrow> ('e, 'b) hm" where
  "hm_try m k = (\<lambda>n. case m n of
      Done (Inr x, n') \<Rightarrow> k x n'
    | Done (Inl e, n') \<Rightarrow> Done (Inl e, n')
    | Panic \<Rightarrow> Panic
    | Timeout \<Rightarrow> Timeout)"

text \<open>\<^verbatim>\<open>FreshVarGen::fresh\<close>: the counter is a \<^verbatim>\<open>u32\<close>, and its increment is checked.\<close>

definition u32_max :: int where
  "u32_max = 4294967295"

definition fresh :: "('e, type_var) hm" where
  "fresh = (\<lambda>n. if int n < u32_max then Done (Inr n, n + 1) else Panic)"

section \<open>Substitutions\<close>

type_synonym substitution = "(type_var \<times> mono_type) list"

definition subst_singleton :: "type_var \<Rightarrow> mono_type \<Rightarrow> substitution" where
  "subst_singleton v ty = map_insert v ty []"

function (sequential) subst_apply :: "nat \<Rightarrow> substitution \<Rightarrow> mono_type \<Rightarrow> mono_type option"
  and apply_row :: "nat \<Rightarrow> substitution \<Rightarrow> row_type \<Rightarrow> row_type option"
  and apply_values :: "nat \<Rightarrow> substitution \<Rightarrow> row_fields_map \<Rightarrow> row_fields_map option"
  and apply_effect_row :: "nat \<Rightarrow> substitution \<Rightarrow> effect_row \<Rightarrow> effect_row option" where
  "subst_apply d s (Var v) = Some (case map_of s v of Some t \<Rightarrow> t | None \<Rightarrow> Var v)"
| "subst_apply d s (Con name) = Some (Con name)"
| "subst_apply d s (Arrow a b) =
     (case subst_apply d s a of None \<Rightarrow> None | Some a' \<Rightarrow>
      (case subst_apply d s b of None \<Rightarrow> None | Some b' \<Rightarrow> Some (Arrow a' b')))"
| "subst_apply d s (Record row) = map_option Record (apply_row d s row)"
| "subst_apply d s (EffectRow row) = map_option EffectRow (apply_effect_row d s row)"
| "subst_apply d s (Typed (Typed_Value r e)) =
     (case apply_row d s r of None \<Rightarrow> None | Some r' \<Rightarrow>
      (case apply_effect_row d s e of None \<Rightarrow> None | Some e' \<Rightarrow> Some (Typed (Typed_Value r' e'))))"
| "apply_row d s Empty = Some Empty"
| "apply_row d s (Extend f ty rest) =
     (case subst_apply d s ty of None \<Rightarrow> None | Some ty' \<Rightarrow>
      (case apply_row d s rest of None \<Rightarrow> None | Some rest' \<Rightarrow> Some (Extend f ty' rest')))"
| "apply_row d s (RowVar v) =
     (case map_of s v of
        Some (Record next) \<Rightarrow> (case d of 0 \<Rightarrow> None | Suc d' \<Rightarrow> apply_row d' s next)
      | Some (Var w) \<Rightarrow> Some (RowVar w)
      | _ \<Rightarrow> Some (RowVar v))"
| "apply_values d s [] = Some []"
| "apply_values d s ((k, ty) # m) =
     (case subst_apply d s ty of None \<Rightarrow> None | Some ty' \<Rightarrow>
      (case apply_values d s m of None \<Rightarrow> None | Some m' \<Rightarrow> Some ((k, ty') # m')))"
| "apply_effect_row d s (Effect_Row p t) =
     (case apply_values d s p of None \<Rightarrow> None | Some p' \<Rightarrow>
      (case t of
         None \<Rightarrow> Some (Effect_Row p' None)
       | Some v \<Rightarrow>
           (case map_of s v of
              Some (EffectRow next) \<Rightarrow>
                (case d of 0 \<Rightarrow> None | Suc d' \<Rightarrow>
                  (case apply_effect_row d' s next of
                     None \<Rightarrow> None
                   | Some nested \<Rightarrow> Some (Effect_Row (or_insert_all (present nested) p') (tail nested))))
            | Some (Var w) \<Rightarrow> Some (Effect_Row p' (Some w))
            | _ \<Rightarrow> Some (Effect_Row p' (Some v)))))"
  by pat_completeness auto
termination
  by (relation "inv_image (less_than <*lex*> less_than)
      (case_sum (case_sum (\<lambda>(d, s, t). (d, size t)) (\<lambda>(d, s, r). (d, size r)))
        (case_sum (\<lambda>(d, s, m). (d, size_list (size_prod (\<lambda>_. 0) size) m)) (\<lambda>(d, s, e). (d, size e))))") auto

text \<open>
  \<^verbatim>\<open>compose\<close>: the receiver is applied to the range of the other substitution, then its own bindings
  are written over the result.
\<close>

fun apply_range :: "nat \<Rightarrow> substitution \<Rightarrow> substitution \<Rightarrow> substitution option" where
  "apply_range d s [] = Some []"
| "apply_range d s ((v, ty) # m) =
     (case subst_apply d s ty of None \<Rightarrow> None | Some ty' \<Rightarrow>
      (case apply_range d s m of None \<Rightarrow> None | Some m' \<Rightarrow> Some (map_insert v ty' m')))"

definition subst_compose :: "nat \<Rightarrow> substitution \<Rightarrow> substitution \<Rightarrow> substitution option" where
  "subst_compose d s other =
     map_option (\<lambda>out. fold (\<lambda>(v, ty) m. map_insert v ty m) s out) (apply_range d s other)"

section \<open>Occurs check\<close>

fun occurs_check :: "type_var \<Rightarrow> mono_type \<Rightarrow> bool"
  and occurs_check_row :: "type_var \<Rightarrow> row_type \<Rightarrow> bool"
  and occurs_check_values :: "type_var \<Rightarrow> row_fields_map \<Rightarrow> bool"
  and occurs_check_effect_row :: "type_var \<Rightarrow> effect_row \<Rightarrow> bool" where
  "occurs_check v (Var w) = (w = v)"
| "occurs_check v (Con _) = False"
| "occurs_check v (Arrow a b) = (occurs_check v a \<or> occurs_check v b)"
| "occurs_check v (Record row) = occurs_check_row v row"
| "occurs_check v (EffectRow row) = occurs_check_effect_row v row"
| "occurs_check v (Typed (Typed_Value r e)) = (occurs_check_row v r \<or> occurs_check_effect_row v e)"
| "occurs_check_row v Empty = False"
| "occurs_check_row v (RowVar w) = (w = v)"
| "occurs_check_row v (Extend _ ty rest) = (occurs_check v ty \<or> occurs_check_row v rest)"
| "occurs_check_values v [] = False"
| "occurs_check_values v ((_, ty) # m) = (occurs_check v ty \<or> occurs_check_values v m)"
| "occurs_check_effect_row v (Effect_Row p t) = (t = Some v \<or> occurs_check_values v p)"

section \<open>Errors\<close>

datatype hm_unify_error =
    Mismatch mono_type mono_type
  | OccursCheck type_var mono_type
  | MissingField string string
  | RowMismatch string
  | EffectRowMismatch "string list" "string list"
  | TypedValueMismatch "hm_unify_error option" "hm_unify_error option"

text \<open>How \<^verbatim>\<open>Display\<close> prints a type variable.\<close>

definition show_type_var :: "type_var \<Rightarrow> string" where
  "show_type_var n = (if n < 26 then [char_of (97 + n)] else ''t'' @ decimal n)"

definition smallest_key :: "row_fields_map \<Rightarrow> string" where
  "smallest_key m = Min (set (map fst m))"

definition row_mismatch :: "row_fields_map \<Rightarrow> row_fields_map \<Rightarrow> hm_unify_error" where
  "row_mismatch a_only b_only = EffectRowMismatch (map fst b_only) (map fst a_only)"

section \<open>Unification\<close>

type_synonym 'a unifier = "'a \<Rightarrow> 'a \<Rightarrow> (hm_unify_error, substitution) hm"

definition bind_var :: "type_var \<Rightarrow> mono_type \<Rightarrow> (hm_unify_error, substitution) hm" where
  "bind_var v ty =
     (if occurs_check v ty then hm_error (OccursCheck v ty) else hm_return (subst_singleton v ty))"

text \<open>The fields two rows share, with both types, and those of the first row only.\<close>

definition shared_fields :: "row_fields_map \<Rightarrow> row_fields_map \<Rightarrow> (mono_type \<times> mono_type) list" where
  "shared_fields a b = List.map_filter (\<lambda>(k, ty). map_option (Pair ty) (map_of b k)) a"

definition only_fields :: "row_fields_map \<Rightarrow> row_fields_map \<Rightarrow> row_fields_map" where
  "only_fields a b = filter (\<lambda>(k, ty). k \<notin> keys b) a"

text \<open>The loop over the shared fields, with the substitution found so far.\<close>

fun unify_shared :: "mono_type unifier \<Rightarrow> nat \<Rightarrow> (mono_type \<times> mono_type) list \<Rightarrow> substitution
    \<Rightarrow> (hm_unify_error, substitution) hm" where
  "unify_shared u d [] subst = hm_return subst"
| "unify_shared u d ((ta, tb) # es) subst =
     hm_try (hm_lift (subst_apply d subst ta)) (\<lambda>ta'.
     hm_try (hm_lift (subst_apply d subst tb)) (\<lambda>tb'.
     hm_try (u ta' tb') (\<lambda>s.
     hm_try (hm_lift (subst_compose d s subst)) (\<lambda>subst'.
     unify_shared u d es subst'))))"

text \<open>The loop that runs the occurs check over the types of the extra fields.\<close>

definition check_extras :: "type_var \<Rightarrow> row_fields_map \<Rightarrow> (hm_unify_error, unit) hm" where
  "check_extras v m =
     (case find (\<lambda>(k, ty). occurs_check v ty) m of
        Some (k, ty) \<Rightarrow> hm_error (OccursCheck v ty)
      | None \<Rightarrow> hm_return ())"

definition unify_rows :: "mono_type unifier \<Rightarrow> nat \<Rightarrow> row_type unifier" where
  "unify_rows u d a b =
     (let (a_fields, a_tail) = to_map a;
          (b_fields, b_tail) = to_map b in
      hm_try (unify_shared u d (shared_fields a_fields b_fields) []) (\<lambda>subst.
      hm_try (hm_lift (apply_values d subst (only_fields a_fields b_fields))) (\<lambda>a_only.
      hm_try (hm_lift (apply_values d subst (only_fields b_fields a_fields))) (\<lambda>b_only.
      case (a_tail, b_tail) of
        (None, None) \<Rightarrow>
          if a_only \<noteq> [] then hm_error (MissingField (smallest_key a_only) ''right'')
          else if b_only \<noteq> [] then hm_error (MissingField (smallest_key b_only) ''left'')
          else hm_return subst
      | (Some av, None) \<Rightarrow>
          if a_only \<noteq> [] then hm_error (MissingField (smallest_key a_only) ''right'')
          else hm_try (check_extras av b_only) (\<lambda>_.
            hm_lift (subst_compose d (subst_singleton av (Record (from_map b_only None))) subst))
      | (None, Some bv) \<Rightarrow>
          if b_only \<noteq> [] then hm_error (MissingField (smallest_key b_only) ''left'')
          else hm_try (check_extras bv a_only) (\<lambda>_.
            hm_lift (subst_compose d (subst_singleton bv (Record (from_map a_only None))) subst))
      | (Some av, Some bv) \<Rightarrow>
          if av = bv then
            (if a_only = [] \<and> b_only = [] then hm_return subst
             else hm_error (RowMismatch (''row variable `'' @ show_type_var av @
                    ''` appears on both sides with incompatible extras'')))
          else
            hm_try (check_extras av b_only) (\<lambda>_.
            hm_try (check_extras bv a_only) (\<lambda>_.
            hm_try fresh (\<lambda>r.
            hm_lift (subst_compose d
              (map_insert bv (Record (from_map a_only (Some r)))
                (map_insert av (Record (from_map b_only (Some r))) [])) subst))))))))"

definition unify_effect_rows :: "mono_type unifier \<Rightarrow> nat \<Rightarrow> effect_row unifier" where
  "unify_effect_rows u d a b =
     hm_try (unify_shared u d (shared_fields (present a) (present b)) []) (\<lambda>subst.
     hm_try (hm_lift (apply_values d subst (only_fields (present a) (present b)))) (\<lambda>a_only.
     hm_try (hm_lift (apply_values d subst (only_fields (present b) (present a)))) (\<lambda>b_only.
     case (tail a, tail b) of
       (None, None) \<Rightarrow>
         if a_only \<noteq> [] \<or> b_only \<noteq> [] then hm_error (row_mismatch a_only b_only)
         else hm_return subst
     | (Some av, None) \<Rightarrow>
         if a_only \<noteq> [] then hm_error (row_mismatch a_only b_only)
         else hm_try (check_extras av b_only) (\<lambda>_.
           hm_lift (subst_compose d (subst_singleton av (EffectRow (Effect_Row b_only None))) subst))
     | (None, Some bv) \<Rightarrow>
         if b_only \<noteq> [] then hm_error (row_mismatch a_only b_only)
         else hm_try (check_extras bv a_only) (\<lambda>_.
           hm_lift (subst_compose d (subst_singleton bv (EffectRow (Effect_Row a_only None))) subst))
     | (Some av, Some bv) \<Rightarrow>
         if av = bv then
           (if a_only = [] \<and> b_only = [] then hm_return subst
            else hm_error (row_mismatch a_only b_only))
         else
           hm_try (check_extras av b_only) (\<lambda>_.
           hm_try (check_extras bv a_only) (\<lambda>_.
           hm_try fresh (\<lambda>r.
           hm_lift (subst_compose d
             (map_insert bv (EffectRow (Effect_Row a_only (Some r)))
               (map_insert av (EffectRow (Effect_Row b_only (Some r))) [])) subst)))))))"

text \<open>
  When the value rows do not unify the effect rows are tried all the same, for the sake of the
  diagnostic.
\<close>

definition unify_typed_values_with_fresh :: "mono_type unifier \<Rightarrow> nat \<Rightarrow> typed_value unifier" where
  "unify_typed_values_with_fresh u d a b = (\<lambda>n.
     case unify_rows u d (value_row a) (value_row b) n of
       Done (Inr subst_v, n1) \<Rightarrow>
         hm_try (hm_lift (apply_effect_row d subst_v (effect_row a))) (\<lambda>a_eff.
         hm_try (hm_lift (apply_effect_row d subst_v (effect_row b))) (\<lambda>b_eff n2.
         case unify_effect_rows u d a_eff b_eff n2 of
           Done (Inr subst_e, n3) \<Rightarrow> hm_lift (subst_compose d subst_e subst_v) n3
         | Done (Inl e, n3) \<Rightarrow> Done (Inl (TypedValueMismatch None (Some e)), n3)
         | Panic \<Rightarrow> Panic
         | Timeout \<Rightarrow> Timeout)) n1
     | Done (Inl value_err, n1) \<Rightarrow>
         (case unify_effect_rows u d (effect_row a) (effect_row b) n1 of
            Done (Inr _, n2) \<Rightarrow> Done (Inl (TypedValueMismatch (Some value_err) None), n2)
          | Done (Inl e, n2) \<Rightarrow> Done (Inl (TypedValueMismatch (Some value_err) (Some e)), n2)
          | Panic \<Rightarrow> Panic
          | Timeout \<Rightarrow> Timeout)
     | Panic \<Rightarrow> Panic
     | Timeout \<Rightarrow> Timeout)"

text \<open>One level of \<^verbatim>\<open>unify_with_fresh\<close>, over the unifier for the types below.\<close>

fun unify_step :: "mono_type unifier \<Rightarrow> nat \<Rightarrow> mono_type unifier" where
  "unify_step u d (Var v) (Var w) = (if v = w then hm_return [] else bind_var v (Var w))"
| "unify_step u d (Var v) t = bind_var v t"
| "unify_step u d t (Var v) = bind_var v t"
| "unify_step u d (Con x) (Con y) =
     (if x = y then hm_return [] else hm_error (Mismatch (Con x) (Con y)))"
| "unify_step u d (Arrow a1 a2) (Arrow b1 b2) =
     hm_try (u a1 b1) (\<lambda>s1.
     hm_try (hm_lift (subst_apply d s1 a2)) (\<lambda>a2'.
     hm_try (hm_lift (subst_apply d s1 b2)) (\<lambda>b2'.
     hm_try (u a2' b2') (\<lambda>s2.
     hm_lift (subst_compose d s2 s1)))))"
| "unify_step u d (Record ra) (Record rb) = unify_rows u d ra rb"
| "unify_step u d (EffectRow ea) (EffectRow eb) = unify_effect_rows u d ea eb"
| "unify_step u d (Typed ta) (Typed tb) = unify_typed_values_with_fresh u d ta tb"
| "unify_step u d a b = hm_error (Mismatch a b)"

primrec unify_with_fresh :: "nat \<Rightarrow> mono_type unifier" where
  "unify_with_fresh 0 = (\<lambda>a b n. Timeout)"
| "unify_with_fresh (Suc d) = unify_step (unify_with_fresh d) d"

definition unify_typed_values :: "nat \<Rightarrow> typed_value \<Rightarrow> typed_value \<Rightarrow> ((hm_unify_error + substitution) \<times> nat) outcome" where
  "unify_typed_values d a b = unify_typed_values_with_fresh (unify_with_fresh d) d a b 0"

definition hm_unify :: "nat \<Rightarrow> mono_type \<Rightarrow> mono_type \<Rightarrow> ((hm_unify_error + substitution) \<times> nat) outcome" where
  "hm_unify d a b = unify_with_fresh d a b 0"

end
