(* ===== verification/HM_Infer.thy ===== *)
theory HM_Infer
  imports HM_Unify
begin

text \<open>
  Expressions (\<^verbatim>\<open>expr.rs\<close>), type environments and Algorithm W (\<^verbatim>\<open>infer.rs\<close>), and the adapter that
  attaches a span to its errors (\<^verbatim>\<open>diagnostic.rs\<close>).  The first parameter of \<open>infer\<close> is the depth
  given to the unifier and to the application of substitutions.
\<close>

section \<open>Expressions\<close>

datatype lit = IntLit | StrLit

datatype expr =
    EVar string
  | Lit lit
  | Lam string expr
  | App expr expr
  | Let string expr expr
  | RecordLit "(string \<times> expr) list"
  | Field expr string

definition e_record :: "(string \<times> expr) list \<Rightarrow> expr" where
  "e_record fs = RecordLit (fold (\<lambda>(name, e) m. map_insert name e m) fs [])"

section \<open>Environments\<close>

type_synonym type_env = "(string \<times> type_scheme) list"

definition env_extend :: "string \<Rightarrow> type_scheme \<Rightarrow> type_env \<Rightarrow> type_env" where
  "env_extend name scheme env = map_insert name scheme env"

definition env_lookup :: "type_env \<Rightarrow> string \<Rightarrow> type_scheme option" where
  "env_lookup env name = map_of env name"

definition env_free_vars :: "type_env \<Rightarrow> type_var set" where
  "env_free_vars env = (\<Union>(name, scheme) \<in> set env. scheme_free_vars scheme)"

definition apply_scheme :: "nat \<Rightarrow> substitution \<Rightarrow> type_scheme \<Rightarrow> type_scheme option" where
  "apply_scheme d s scheme =
     (if quantified scheme = []
      then map_option (\<lambda>t. \<lparr>quantified = [], body = t\<rparr>) (subst_apply d s (body scheme))
      else
        (let inner = filter (\<lambda>(v, ty). v \<notin> set (quantified scheme)) s in
         map_option (\<lambda>t. \<lparr>quantified = quantified scheme, body = t\<rparr>) (subst_apply d inner (body scheme))))"

fun apply_env :: "nat \<Rightarrow> substitution \<Rightarrow> type_env \<Rightarrow> type_env option" where
  "apply_env d s [] = Some []"
| "apply_env d s ((name, scheme) # env) =
     (case apply_scheme d s scheme of None \<Rightarrow> None | Some scheme' \<Rightarrow>
      (case apply_env d s env of None \<Rightarrow> None | Some env' \<Rightarrow> Some ((name, scheme') # env')))"

section \<open>Instantiation and generalisation\<close>

fun fresh_renaming :: "type_var list \<Rightarrow> substitution \<Rightarrow> ('e, substitution) hm" where
  "fresh_renaming [] renaming = hm_return renaming"
| "fresh_renaming (q # qs) renaming =
     hm_try fresh (\<lambda>v. fresh_renaming qs (map_insert q (Var v) renaming))"

definition instantiate :: "nat \<Rightarrow> type_scheme \<Rightarrow> ('e, mono_type) hm" where
  "instantiate d scheme =
     (if quantified scheme = [] then hm_return (body scheme)
      else hm_try (fresh_renaming (quantified scheme) []) (\<lambda>renaming.
             hm_lift (subst_apply d renaming (body scheme))))"

text \<open>The set \<^verbatim>\<open>seen\<close> of the walker always holds the variables collected so far.\<close>

definition collect_var :: "type_var set \<Rightarrow> type_var \<Rightarrow> type_var list \<Rightarrow> type_var list" where
  "collect_var env_fv v out = (if v \<notin> env_fv \<and> v \<notin> set out then out @ [v] else out)"

fun collect_free_in_order :: "type_var set \<Rightarrow> mono_type \<Rightarrow> type_var list \<Rightarrow> type_var list"
  and collect_free_in_order_row :: "type_var set \<Rightarrow> row_type \<Rightarrow> type_var list \<Rightarrow> type_var list"
  and collect_free_in_order_values :: "type_var set \<Rightarrow> row_fields_map \<Rightarrow> type_var list \<Rightarrow> type_var list"
  and collect_free_in_order_effect :: "type_var set \<Rightarrow> effect_row \<Rightarrow> type_var list \<Rightarrow> type_var list" where
  "collect_free_in_order fv (Var v) out = collect_var fv v out"
| "collect_free_in_order fv (Con _) out = out"
| "collect_free_in_order fv (Arrow a b) out = collect_free_in_order fv b (collect_free_in_order fv a out)"
| "collect_free_in_order fv (Record row) out = collect_free_in_order_row fv row out"
| "collect_free_in_order fv (EffectRow row) out = collect_free_in_order_effect fv row out"
| "collect_free_in_order fv (Typed (Typed_Value r e)) out =
     collect_free_in_order_effect fv e (collect_free_in_order_row fv r out)"
| "collect_free_in_order_row fv Empty out = out"
| "collect_free_in_order_row fv (RowVar v) out = collect_var fv v out"
| "collect_free_in_order_row fv (Extend _ ty rest) out =
     collect_free_in_order_row fv rest (collect_free_in_order fv ty out)"
| "collect_free_in_order_values fv [] out = out"
| "collect_free_in_order_values fv ((_, ty) # m) out =
     collect_free_in_order_values fv m (collect_free_in_order fv ty out)"
| "collect_free_in_order_effect fv (Effect_Row p t) out =
     (let out' = collect_free_in_order_values fv p out in
      case t of Some v \<Rightarrow> collect_var fv v out' | None \<Rightarrow> out')"

definition generalize :: "type_env \<Rightarrow> mono_type \<Rightarrow> type_scheme" where
  "generalize env ty =
     \<lparr>quantified = collect_free_in_order (env_free_vars env) ty [], body = ty\<rparr>"

section \<open>Algorithm W\<close>

datatype infer_error = UnboundVar string | UnifyError hm_unify_error

definition hm_unify_error_into :: "(hm_unify_error, 'a) hm \<Rightarrow> (infer_error, 'a) hm" where
  "hm_unify_error_into m = (\<lambda>n. case m n of
      Done (Inr x, n') \<Rightarrow> Done (Inr x, n')
    | Done (Inl e, n') \<Rightarrow> Done (Inl (UnifyError e), n')
    | Panic \<Rightarrow> Panic
    | Timeout \<Rightarrow> Timeout)"

fun infer :: "nat \<Rightarrow> type_env \<Rightarrow> expr \<Rightarrow> (infer_error, substitution \<times> mono_type) hm"
  and infer_fields :: "nat \<Rightarrow> (string \<times> expr) list \<Rightarrow> type_env \<Rightarrow> substitution \<Rightarrow> row_fields_map
    \<Rightarrow> (infer_error, substitution \<times> row_fields_map) hm" where
  "infer d env (EVar name) =
     (case env_lookup env name of
        None \<Rightarrow> hm_error (UnboundVar name)
      | Some scheme \<Rightarrow> hm_try (instantiate d scheme) (\<lambda>ty. hm_return ([], ty)))"
| "infer d env (Lit IntLit) = hm_return ([], Con ''Int'')"
| "infer d env (Lit StrLit) = hm_return ([], Con ''Str'')"
| "infer d env (Lam param e) =
     hm_try fresh (\<lambda>a.
     hm_try (infer d (env_extend param \<lparr>quantified = [], body = Var a\<rparr> env) e) (\<lambda>(s1, t1).
     hm_try (hm_lift (subst_apply d s1 (Var a))) (\<lambda>ta.
     hm_return (s1, Arrow ta t1))))"
| "infer d env (App f arg) =
     hm_try (infer d env f) (\<lambda>(s1, tf).
     hm_try (hm_lift (apply_env d s1 env)) (\<lambda>env1.
     hm_try (infer d env1 arg) (\<lambda>(s2, ta).
     hm_try fresh (\<lambda>r.
     hm_try (hm_lift (subst_apply d s2 tf)) (\<lambda>tf'.
     hm_try (hm_unify_error_into (unify_with_fresh d tf' (Arrow ta (Var r)))) (\<lambda>s3.
     hm_try (hm_lift (subst_compose d s2 s1)) (\<lambda>s21.
     hm_try (hm_lift (subst_compose d s3 s21)) (\<lambda>composed.
     hm_try (hm_lift (subst_apply d s3 (Var r))) (\<lambda>result.
     hm_return (composed, result))))))))))"
| "infer d env (Let name val e) =
     hm_try (infer d env val) (\<lambda>(s1, tv).
     hm_try (hm_lift (apply_env d s1 env)) (\<lambda>env1.
     hm_try (infer d (env_extend name (generalize env1 tv) env1) e) (\<lambda>(s2, tb).
     hm_try (hm_lift (subst_compose d s2 s1)) (\<lambda>composed.
     hm_return (composed, tb)))))"
| "infer d env (RecordLit fs) =
     hm_try (infer_fields d fs env [] []) (\<lambda>(subst, typed_fields).
     hm_return (subst, Record (from_map typed_fields None)))"
| "infer d env (Field receiver name) =
     hm_try (infer d env receiver) (\<lambda>(s1, tr).
     hm_try fresh (\<lambda>field_ty.
     hm_try fresh (\<lambda>rest_row.
     hm_try (hm_lift (subst_apply d s1 tr)) (\<lambda>tr'.
     hm_try (hm_unify_error_into
       (unify_with_fresh d tr' (Record (Extend name (Var field_ty) (RowVar rest_row))))) (\<lambda>s2.
     hm_try (hm_lift (subst_compose d s2 s1)) (\<lambda>composed.
     hm_try (hm_lift (subst_apply d s2 (Var field_ty))) (\<lambda>result.
     hm_return (composed, result))))))))"
| "infer_fields d [] env subst typed = hm_return (subst, typed)"
| "infer_fields d ((name, e) # fs) env subst typed =
     hm_try (infer d env e) (\<lambda>(s, t).
     hm_try (hm_lift (subst_compose d s subst)) (\<lambda>subst'.
     hm_try (hm_lift (apply_env d s env)) (\<lambda>env'.
     hm_try (hm_lift (apply_values d s typed)) (\<lambda>typed'.
     infer_fields d fs env' subst' (map_insert name t typed')))))"

section \<open>Spans\<close>

record type_span =
  span_start :: nat
  span_end :: nat

record type_diagnostic =
  diag_error :: infer_error
  diag_span :: "type_span option"
  diag_context :: string

definition infer_with_diagnostic :: "nat \<Rightarrow> type_env \<Rightarrow> expr \<Rightarrow> type_span option \<Rightarrow> string
    \<Rightarrow> (type_diagnostic, substitution \<times> mono_type) hm" where
  "infer_with_diagnostic d env e span ctx = (\<lambda>n. case infer d env e n of
      Done (Inr x, n') \<Rightarrow> Done (Inr x, n')
    | Done (Inl err, n') \<Rightarrow> Done (Inl \<lparr>diag_error = err, diag_span = span, diag_context = ctx\<rparr>, n')
    | Panic \<Rightarrow> Panic
    | Timeout \<Rightarrow> Timeout)"

end
