(* ===== verification/HM_Semantics.thy ===== *)
theory HM_Semantics
  imports HM_Infer "HOL-Library.Finite_Map"
begin

text \<open>
  What types mean: a ground type is a finite tree whose records and effect rows are finite maps, and
  a valuation of the variables gives every type its ground type.  On substitutions that do not
  bind the variables of their own range, and that respect the kinds of variables, the chase of the
  code is ordinary substitution (\<open>sub\<close>).
\<close>

section \<open>Ground types\<close>

datatype gtype =
    GCon string
  | GArrow gtype gtype
  | GRecord "(string, gtype) fmap"
  | GEffect "(string, gtype) fmap"
  | GTyped "(string, gtype) fmap" "(string, gtype) fmap"

type_synonym valuation = "type_var \<Rightarrow> gtype"

fun gfields :: "gtype \<Rightarrow> (string, gtype) fmap" where
  "gfields (GRecord m) = m"
| "gfields (GEffect m) = m"
| "gfields _ = fmempty"

definition tail_val :: "valuation \<Rightarrow> type_var option \<Rightarrow> (string, gtype) fmap" where
  "tail_val \<theta> t = (case t of None \<Rightarrow> fmempty | Some v \<Rightarrow> gfields (\<theta> v))"

lemma tail_val_simps [simp]: "tail_val \<theta> None = fmempty" "tail_val \<theta> (Some v) = gfields (\<theta> v)"
  by (simp_all add: tail_val_def)

fun eval :: "valuation \<Rightarrow> mono_type \<Rightarrow> gtype"
  and eval_row :: "valuation \<Rightarrow> row_type \<Rightarrow> (string, gtype) fmap"
  and eval_values :: "valuation \<Rightarrow> row_fields_map \<Rightarrow> (string, gtype) fmap"
  and eval_effect :: "valuation \<Rightarrow> effect_row \<Rightarrow> (string, gtype) fmap" where
  "eval \<theta> (Var v) = \<theta> v"
| "eval \<theta> (Con c) = GCon c"
| "eval \<theta> (Arrow a b) = GArrow (eval \<theta> a) (eval \<theta> b)"
| "eval \<theta> (Record row) = GRecord (eval_row \<theta> row)"
| "eval \<theta> (EffectRow e) = GEffect (eval_effect \<theta> e)"
| "eval \<theta> (Typed (Typed_Value r e)) = GTyped (eval_row \<theta> r) (eval_effect \<theta> e)"
| "eval_row \<theta> Empty = fmempty"
| "eval_row \<theta> (RowVar v) = gfields (\<theta> v)"
| "eval_row \<theta> (Extend f ty rest) = fmupd f (eval \<theta> ty) (eval_row \<theta> rest)"
| "eval_values \<theta> [] = fmempty"
| "eval_values \<theta> ((k, ty) # m) = fmupd k (eval \<theta> ty) (eval_values \<theta> m)"
| "eval_effect \<theta> (Effect_Row p t) = tail_val \<theta> t ++\<^sub>f eval_values \<theta> p"

lemma eval_row_parts: "eval_row \<theta> row = tail_val \<theta> (row_tail row) ++\<^sub>f eval_values \<theta> (row_fields row)"
  by (induction row rule: row_fields.induct) auto

lemma eval_effect_parts: "eval_effect \<theta> e = tail_val \<theta> (tail e) ++\<^sub>f eval_values \<theta> (present e)"
  by (cases e) simp

lemma lookup_eval_values [simp]: "fmlookup (eval_values \<theta> m) k = map_option (eval \<theta>) (map_of m k)"
  by (induction m) auto

lemma dom_eval_values [simp]: "fmdom' (eval_values \<theta> m) = keys m"
proof (induction m)
  case (Cons p m)
  then show ?case by (cases p) simp
qed simp

lemma eval_values_append: "eval_values \<theta> (m @ n) = eval_values \<theta> n ++\<^sub>f eval_values \<theta> m"
  by (induction m) auto

lemma eval_values_or_insert_all: "eval_values \<theta> (or_insert_all n m) = eval_values \<theta> n ++\<^sub>f eval_values \<theta> m"
  by (rule fmap_ext)
    (auto simp: map_of_or_insert_all map_add_def fmlookup_dom_iff split: option.split)

lemma eval_agree:
  "(\<And>v. v \<in> free_vars t \<Longrightarrow> \<theta> v = \<theta>' v) \<Longrightarrow> eval \<theta> t = eval \<theta>' t"
  "(\<And>v. v \<in> row_free_vars r \<Longrightarrow> \<theta> v = \<theta>' v) \<Longrightarrow> eval_row \<theta> r = eval_row \<theta>' r"
  "(\<And>v. v \<in> values_free_vars m \<Longrightarrow> \<theta> v = \<theta>' v) \<Longrightarrow> eval_values \<theta> m = eval_values \<theta>' m"
  "(\<And>v. v \<in> effect_free_vars e \<Longrightarrow> \<theta> v = \<theta>' v) \<Longrightarrow> eval_effect \<theta> e = eval_effect \<theta>' e"
  by (induction t and r and m and e rule: type_induct) (auto simp: tail_val_def split: option.split)

text \<open>The size of ground types; a field is smaller than the map it stands in.\<close>

definition msum :: "(string, nat) fmap \<Rightarrow> nat" where
  "msum m = (\<Sum>k \<in> fmdom' m. Suc (the (fmlookup m k)))"

primrec gsize :: "gtype \<Rightarrow> nat" where
  "gsize (GCon _) = 1"
| "gsize (GArrow a b) = Suc (gsize a + gsize b)"
| "gsize (GRecord m) = Suc (msum (fmmap gsize m))"
| "gsize (GEffect m) = Suc (msum (fmmap gsize m))"
| "gsize (GTyped m n) = Suc (msum (fmmap gsize m) + msum (fmmap gsize n))"

definition msize :: "(string, gtype) fmap \<Rightarrow> nat" where
  "msize m = msum (fmmap gsize m)"

lemma gsize_simps [simp]:
  "gsize (GRecord m) = Suc (msize m)"
  "gsize (GEffect m) = Suc (msize m)"
  "gsize (GTyped m n) = Suc (msize m + msize n)"
  by (simp_all add: msize_def)

declare gsize.simps(3-5) [simp del]

lemma gsize_field:
  assumes "fmlookup m k = Some g"
  shows "gsize g < msize m"
proof -
  have "k \<in> fmdom' (fmmap gsize m)" "the (fmlookup (fmmap gsize m) k) = gsize g"
    using assms by (auto simp: fmlookup_dom'_iff)
  then have "Suc (gsize g) \<le> msum (fmmap gsize m)"
    unfolding msum_def
    using member_le_sum [of k "fmdom' (fmmap gsize m)" "\<lambda>k. Suc (the (fmlookup (fmmap gsize m) k))"]
    by simp
  then show ?thesis by (simp add: msize_def)
qed

section \<open>Kinds of variables\<close>

datatype vkind = KType | KRow | KEff

type_synonym kinding = "type_var \<Rightarrow> vkind"

fun kinded :: "kinding \<Rightarrow> mono_type \<Rightarrow> bool"
  and kinded_row :: "kinding \<Rightarrow> row_type \<Rightarrow> bool"
  and kinded_values :: "kinding \<Rightarrow> row_fields_map \<Rightarrow> bool"
  and kinded_effect :: "kinding \<Rightarrow> effect_row \<Rightarrow> bool" where
  "kinded K (Var v) = (K v = KType)"
| "kinded K (Con _) = True"
| "kinded K (Arrow a b) = (kinded K a \<and> kinded K b)"
| "kinded K (Record row) = kinded_row K row"
| "kinded K (EffectRow e) = kinded_effect K e"
| "kinded K (Typed (Typed_Value r e)) = (kinded_row K r \<and> kinded_effect K e)"
| "kinded_row K Empty = True"
| "kinded_row K (RowVar v) = (K v = KRow)"
| "kinded_row K (Extend _ ty rest) = (kinded K ty \<and> kinded_row K rest)"
| "kinded_values K [] = True"
| "kinded_values K ((_, ty) # m) = (kinded K ty \<and> kinded_values K m)"
| "kinded_effect K (Effect_Row p t) =
     (kinded_values K p \<and> sorted_keys p \<and> (\<forall>v \<in> set_option t. K v = KEff))"

lemma kinded_values_iff: "kinded_values K m \<longleftrightarrow> (\<forall>(k, ty) \<in> set m. kinded K ty)"
  by (induction m) auto

lemma kinded_row_parts:
  "kinded_row K row \<longleftrightarrow> kinded_values K (row_fields row) \<and> (\<forall>v \<in> set_option (row_tail row). K v = KRow)"
  by (induction row rule: row_fields.induct) auto

lemma kinded_agree:
  "(\<And>v. v \<in> free_vars t \<Longrightarrow> K v = K' v) \<Longrightarrow> kinded K t = kinded K' t"
  "(\<And>v. v \<in> row_free_vars r \<Longrightarrow> K v = K' v) \<Longrightarrow> kinded_row K r = kinded_row K' r"
  "(\<And>v. v \<in> values_free_vars m \<Longrightarrow> K v = K' v) \<Longrightarrow> kinded_values K m = kinded_values K' m"
  "(\<And>v. v \<in> effect_free_vars e \<Longrightarrow> K v = K' v) \<Longrightarrow> kinded_effect K e = kinded_effect K' e"
  by (induction t and r and m and e rule: type_induct) auto

text \<open>What a term contributes when it is bound to a variable of a row kind: fields and a tail.\<close>

fun row_part :: "vkind \<Rightarrow> mono_type \<Rightarrow> (row_fields_map \<times> type_var option) option" where
  "row_part KRow (Record row) = Some (row_fields row, row_tail row)"
| "row_part KEff (EffectRow e) = Some (present e, tail e)"
| "row_part k (Var w) = Some ([], Some w)"
| "row_part k t = None"

lemma row_part_KRow:
  "row_part KRow u = Some (G, rt) \<longleftrightarrow>
     (\<exists>row. u = Record row \<and> G = row_fields row \<and> rt = row_tail row) \<or> (\<exists>w. u = Var w \<and> G = [] \<and> rt = Some w)"
  by (cases u) auto

lemma row_part_KEff:
  "row_part KEff u = Some (G, rt) \<longleftrightarrow>
     u = EffectRow (Effect_Row G rt) \<or> (\<exists>w. u = Var w \<and> G = [] \<and> rt = Some w)"
  by (cases u) (auto intro: effect_row.expand)

definition fits :: "kinding \<Rightarrow> type_var \<Rightarrow> mono_type \<Rightarrow> bool" where
  "fits K v u \<longleftrightarrow>
     (if K v = KType then kinded K u
      else \<exists>G rt. row_part (K v) u = Some (G, rt) \<and> kinded_values K G \<and>
             (K v = KEff \<longrightarrow> sorted_keys G) \<and> (\<forall>w \<in> set_option rt. K w = K v))"

definition fitting :: "kinding \<Rightarrow> (type_var \<rightharpoonup> mono_type) \<Rightarrow> bool" where
  "fitting K \<sigma> \<longleftrightarrow> (\<forall>v u. \<sigma> v = Some u \<longrightarrow> fits K v u)"

lemma fitting_empty [simp]: "fitting K Map.empty"
  by (simp add: fitting_def)

section \<open>Substitution without the chase\<close>

definition row_splice :: "mono_type option \<Rightarrow> type_var \<Rightarrow> row_type" where
  "row_splice u v = (case u of Some (Record next) \<Rightarrow> next | Some (Var w) \<Rightarrow> RowVar w | _ \<Rightarrow> RowVar v)"

definition effect_splice :: "mono_type option \<Rightarrow> type_var \<Rightarrow> row_fields_map \<times> type_var option" where
  "effect_splice u v =
     (case u of Some (EffectRow next) \<Rightarrow> (present next, tail next) | Some (Var w) \<Rightarrow> ([], Some w) | _ \<Rightarrow> ([], Some v))"

fun sub :: "(type_var \<rightharpoonup> mono_type) \<Rightarrow> mono_type \<Rightarrow> mono_type"
  and sub_row :: "(type_var \<rightharpoonup> mono_type) \<Rightarrow> row_type \<Rightarrow> row_type"
  and sub_values :: "(type_var \<rightharpoonup> mono_type) \<Rightarrow> row_fields_map \<Rightarrow> row_fields_map"
  and sub_effect :: "(type_var \<rightharpoonup> mono_type) \<Rightarrow> effect_row \<Rightarrow> effect_row" where
  "sub \<sigma> (Var v) = (case \<sigma> v of Some t \<Rightarrow> t | None \<Rightarrow> Var v)"
| "sub \<sigma> (Con c) = Con c"
| "sub \<sigma> (Arrow a b) = Arrow (sub \<sigma> a) (sub \<sigma> b)"
| "sub \<sigma> (Record row) = Record (sub_row \<sigma> row)"
| "sub \<sigma> (EffectRow e) = EffectRow (sub_effect \<sigma> e)"
| "sub \<sigma> (Typed (Typed_Value r e)) = Typed (Typed_Value (sub_row \<sigma> r) (sub_effect \<sigma> e))"
| "sub_row \<sigma> Empty = Empty"
| "sub_row \<sigma> (RowVar v) = row_splice (\<sigma> v) v"
| "sub_row \<sigma> (Extend f ty rest) = Extend f (sub \<sigma> ty) (sub_row \<sigma> rest)"
| "sub_values \<sigma> [] = []"
| "sub_values \<sigma> ((k, ty) # m) = (k, sub \<sigma> ty) # sub_values \<sigma> m"
| "sub_effect \<sigma> (Effect_Row p t) =
     (case t of
        None \<Rightarrow> Effect_Row (sub_values \<sigma> p) None
      | Some v \<Rightarrow> Effect_Row (or_insert_all (fst (effect_splice (\<sigma> v) v)) (sub_values \<sigma> p))
                   (snd (effect_splice (\<sigma> v) v)))"

lemma sub_values_map: "sub_values \<sigma> m = map (\<lambda>(k, ty). (k, sub \<sigma> ty)) m"
  by (induction m) auto

lemma map_fst_sub_values [simp]: "map fst (sub_values \<sigma> m) = map fst m"
  by (induction m) auto

lemma keys_sub_values [simp]: "keys (sub_values \<sigma> m) = keys m"
  by (metis list.set_map map_fst_sub_values)

lemma sub_values_append [simp]: "sub_values \<sigma> (m @ n) = sub_values \<sigma> m @ sub_values \<sigma> n"
  by (simp add: sub_values_map)

lemma map_of_sub_values: "map_of (sub_values \<sigma> m) = map_option (sub \<sigma>) \<circ> map_of m"
  by (simp add: sub_values_map map_of_map)

lemma or_insert_all_sub_values:
  assumes "sorted_keys m"
  shows "sub_values \<sigma> (or_insert_all n m) = or_insert_all (sub_values \<sigma> n) (sub_values \<sigma> m)"
  using assms
  by (intro sorted_keys_ext)
    (auto simp: map_of_sub_values map_of_or_insert_all map_add_def fun_eq_iff split: option.split)

lemma sub_id:
  "free_vars t \<inter> dom \<sigma> = {} \<Longrightarrow> sub \<sigma> t = t"
  "row_free_vars r \<inter> dom \<sigma> = {} \<Longrightarrow> sub_row \<sigma> r = r"
  "values_free_vars m \<inter> dom \<sigma> = {} \<Longrightarrow> sub_values \<sigma> m = m"
  "effect_free_vars e \<inter> dom \<sigma> = {} \<Longrightarrow> sub_effect \<sigma> e = e"
proof (induction t and r and m and e rule: type_induct)
  case (Effect_Row p t)
  then show ?case
    by (cases t) (auto simp: effect_splice_def Int_Un_distrib2 dom_def or_insert_all_def split: option.splits)
qed (auto simp: row_splice_def Int_Un_distrib2 dom_def split: option.splits)

lemma sub_agree:
  "(\<And>v. v \<in> free_vars t \<Longrightarrow> \<sigma> v = \<tau> v) \<Longrightarrow> sub \<sigma> t = sub \<tau> t"
  "(\<And>v. v \<in> row_free_vars r \<Longrightarrow> \<sigma> v = \<tau> v) \<Longrightarrow> sub_row \<sigma> r = sub_row \<tau> r"
  "(\<And>v. v \<in> values_free_vars m \<Longrightarrow> \<sigma> v = \<tau> v) \<Longrightarrow> sub_values \<sigma> m = sub_values \<tau> m"
  "(\<And>v. v \<in> effect_free_vars e \<Longrightarrow> \<sigma> v = \<tau> v) \<Longrightarrow> sub_effect \<sigma> e = sub_effect \<tau> e"
  by (induction t and r and m and e rule: type_induct) (auto split: option.splits)

end
