(* ===== verification/HM_Substitution.thy ===== *)
theory HM_Substitution
  imports HM_Semantics
begin

text \<open>
  Laws of substitution: its meaning under a valuation, its free variables, composition, and that the
  code computes it.
\<close>

definition star :: "valuation \<Rightarrow> (type_var \<rightharpoonup> mono_type) \<Rightarrow> valuation" where
  "star \<theta> \<sigma> v = (case \<sigma> v of None \<Rightarrow> \<theta> v | Some u \<Rightarrow> eval \<theta> u)"

definition models :: "valuation \<Rightarrow> (type_var \<rightharpoonup> mono_type) \<Rightarrow> bool" where
  "models \<theta> \<sigma> \<longleftrightarrow> (\<forall>v u. \<sigma> v = Some u \<longrightarrow> \<theta> v = eval \<theta> u)"

definition range_vars :: "(type_var \<rightharpoonup> mono_type) \<Rightarrow> type_var set" where
  "range_vars \<sigma> = (\<Union>u \<in> ran \<sigma>. free_vars u)"

definition idem :: "(type_var \<rightharpoonup> mono_type) \<Rightarrow> bool" where
  "idem \<sigma> \<longleftrightarrow> dom \<sigma> \<inter> range_vars \<sigma> = {}"

definition comp_sub :: "(type_var \<rightharpoonup> mono_type) \<Rightarrow> (type_var \<rightharpoonup> mono_type) \<Rightarrow> (type_var \<rightharpoonup> mono_type)" where
  "comp_sub \<tau> \<sigma> v = (case \<sigma> v of Some u \<Rightarrow> Some (sub \<tau> u) | None \<Rightarrow> \<tau> v)"

lemma range_varsI: "\<sigma> v = Some u \<Longrightarrow> w \<in> free_vars u \<Longrightarrow> w \<in> range_vars \<sigma>"
  by (auto simp: range_vars_def intro: ranI)

lemma idemD: "idem \<sigma> \<Longrightarrow> \<sigma> v = Some u \<Longrightarrow> free_vars u \<inter> dom \<sigma> = {}"
  by (auto simp: idem_def dest: range_varsI)

lemma fittingD: "fitting K \<sigma> \<Longrightarrow> \<sigma> v = Some u \<Longrightarrow> fits K v u"
  by (simp add: fitting_def)

lemma fitsE_row:
  assumes "fits K v u" "K v = KRow"
  obtains (row) row where "u = Record row" "kinded_row K row"
    | (var) w where "u = Var w" "K w = KRow"
proof -
  obtain G rt where "row_part KRow u = Some (G, rt)" "kinded_values K G" "\<forall>w \<in> set_option rt. K w = KRow"
    using assms by (auto simp: fits_def)
  then show thesis
    using that by (auto simp: row_part_KRow kinded_row_parts)
qed

lemma fitsE_effect:
  assumes "fits K v u" "K v = KEff"
  obtains (row) p rt where "u = EffectRow (Effect_Row p rt)" "kinded_effect K (Effect_Row p rt)"
    | (var) w where "u = Var w" "K w = KEff"
proof -
  obtain G rt where "row_part KEff u = Some (G, rt)" "kinded_values K G" "sorted_keys G"
    "\<forall>w \<in> set_option rt. K w = KEff"
    using assms by (auto simp: fits_def)
  then show thesis
    using that by (auto simp: row_part_KEff)
qed

lemma fits_row: "K v = KRow \<Longrightarrow> fits K v (Record row) \<longleftrightarrow> kinded_row K row"
  by (auto simp: fits_def kinded_row_parts)

lemma fits_effect: "K v = KEff \<Longrightarrow> fits K v (EffectRow e) \<longleftrightarrow> kinded_effect K e"
  by (cases e) (auto simp: fits_def)

lemma fits_var: "fits K v (Var w) \<longleftrightarrow> K w = K v"
  by (cases "K v") (auto simp: fits_def)

lemma fitsE_type: "fitting K \<sigma> \<Longrightarrow> \<sigma> v = Some u \<Longrightarrow> K v = KType \<Longrightarrow> kinded K u"
  by (auto simp: fitting_def fits_def)

subsection \<open>Meaning\<close>

lemma eval_row_splice:
  assumes "fitting K \<sigma>" "K v = KRow"
  shows "eval_row \<theta> (row_splice (\<sigma> v) v) = gfields (star \<theta> \<sigma> v)"
proof (cases "\<sigma> v")
  case (Some u)
  from fittingD [OF assms(1) Some] assms(2) show ?thesis
    using Some by (cases rule: fitsE_row) (auto simp: row_splice_def star_def)
qed (simp add: row_splice_def star_def)

lemma eval_effect_splice:
  assumes "fitting K \<sigma>" "K v = KEff"
  shows "tail_val \<theta> (snd (effect_splice (\<sigma> v) v)) ++\<^sub>f eval_values \<theta> (fst (effect_splice (\<sigma> v) v))
      = gfields (star \<theta> \<sigma> v)"
proof (cases "\<sigma> v")
  case (Some u)
  from fittingD [OF assms(1) Some] assms(2) show ?thesis
    using Some by (cases rule: fitsE_effect) (auto simp: effect_splice_def star_def)
qed (simp add: effect_splice_def star_def)

lemma eval_sub:
  assumes "fitting K \<sigma>"
  shows "kinded K t \<Longrightarrow> eval \<theta> (sub \<sigma> t) = eval (star \<theta> \<sigma>) t"
    and "kinded_row K r \<Longrightarrow> eval_row \<theta> (sub_row \<sigma> r) = eval_row (star \<theta> \<sigma>) r"
    and "kinded_values K m \<Longrightarrow> eval_values \<theta> (sub_values \<sigma> m) = eval_values (star \<theta> \<sigma>) m"
    and "kinded_effect K e \<Longrightarrow> eval_effect \<theta> (sub_effect \<sigma> e) = eval_effect (star \<theta> \<sigma>) e"
proof (induction t and r and m and e rule: type_induct)
  case (Effect_Row p t)
  show ?case
  proof (cases t)
    case (Some v)
    with Effect_Row eval_effect_splice [OF assms, of v \<theta>] show ?thesis
      by (simp add: eval_values_or_insert_all)
  qed (use Effect_Row in simp)
qed (auto simp: star_def eval_row_splice [OF assms] split: option.splits)

lemma models_star: "models \<theta> \<sigma> \<Longrightarrow> star \<theta> \<sigma> = \<theta>"
  by (auto simp: models_def star_def fun_eq_iff split: option.split)

lemma eval_sub_models:
  assumes "fitting K \<sigma>" "models \<theta> \<sigma>"
  shows "kinded K t \<Longrightarrow> eval \<theta> (sub \<sigma> t) = eval \<theta> t"
    and "kinded_row K r \<Longrightarrow> eval_row \<theta> (sub_row \<sigma> r) = eval_row \<theta> r"
    and "kinded_values K m \<Longrightarrow> eval_values \<theta> (sub_values \<sigma> m) = eval_values \<theta> m"
    and "kinded_effect K e \<Longrightarrow> eval_effect \<theta> (sub_effect \<sigma> e) = eval_effect \<theta> e"
  using eval_sub [OF assms(1)] models_star [OF assms(2)] by auto

lemma star_models: "idem \<sigma> \<Longrightarrow> models (star \<theta> \<sigma>) \<sigma>"
proof (unfold models_def, intro allI impI)
  fix v u
  assume \<sigma>: "idem \<sigma>" "\<sigma> v = Some u"
  then have "eval (star \<theta> \<sigma>) u = eval \<theta> u"
    by (intro eval_agree) (use idemD [OF \<sigma>] in \<open>auto simp: star_def split: option.split\<close>)
  with \<sigma>(2) show "star \<theta> \<sigma> v = eval (star \<theta> \<sigma>) u"
    by (simp add: star_def)
qed

subsection \<open>Kinds and free variables\<close>

lemma kinded_row_splice:
  assumes "fitting K \<sigma>" "K v = KRow"
  shows "kinded_row K (row_splice (\<sigma> v) v)"
proof (cases "\<sigma> v")
  case (Some u)
  from fittingD [OF assms(1) Some] assms(2) show ?thesis
    using Some by (cases rule: fitsE_row) (auto simp: row_splice_def)
qed (use assms in \<open>simp add: row_splice_def\<close>)

lemma kinded_effect_splice:
  assumes "fitting K \<sigma>" "K v = KEff"
  shows "kinded_effect K (Effect_Row (fst (effect_splice (\<sigma> v) v)) (snd (effect_splice (\<sigma> v) v)))"
proof (cases "\<sigma> v")
  case (Some u)
  from fittingD [OF assms(1) Some] assms(2) show ?thesis
    using Some by (cases rule: fitsE_effect) (auto simp: effect_splice_def)
qed (use assms in \<open>simp add: effect_splice_def\<close>)

lemma kinded_values_or_insert_all:
  "kinded_values K n \<Longrightarrow> kinded_values K m \<Longrightarrow> kinded_values K (or_insert_all n m)"
  using set_or_insert_all [of n m] by (auto simp: kinded_values_iff)

lemma kinded_sub:
  assumes "fitting K \<sigma>"
  shows "kinded K t \<Longrightarrow> kinded K (sub \<sigma> t)"
    and "kinded_row K r \<Longrightarrow> kinded_row K (sub_row \<sigma> r)"
    and "kinded_values K m \<Longrightarrow> kinded_values K (sub_values \<sigma> m)"
    and "kinded_effect K e \<Longrightarrow> kinded_effect K (sub_effect \<sigma> e)"
proof (induction t and r and m and e rule: type_induct)
  case (Effect_Row p t)
  show ?case
  proof (cases t)
    case (Some v)
    with Effect_Row kinded_effect_splice [OF assms, of v] show ?thesis
      by (auto simp: kinded_values_or_insert_all)
  qed (use Effect_Row in simp)
qed (auto simp: kinded_row_splice [OF assms] fitsE_type [OF assms] split: option.splits)

definition image_vars :: "(type_var \<rightharpoonup> mono_type) \<Rightarrow> type_var \<Rightarrow> type_var set" where
  "image_vars \<sigma> v = (case \<sigma> v of None \<Rightarrow> {v} | Some u \<Rightarrow> free_vars u)"

lemma row_splice_vars:
  assumes "fitting K \<sigma>" "K v = KRow"
  shows "row_free_vars (row_splice (\<sigma> v) v) = image_vars \<sigma> v"
proof (cases "\<sigma> v")
  case (Some u)
  from fittingD [OF assms(1) Some] assms(2) show ?thesis
    using Some by (cases rule: fitsE_row) (auto simp: row_splice_def image_vars_def)
qed (simp add: row_splice_def image_vars_def)

lemma effect_splice_vars:
  assumes "fitting K \<sigma>" "K v = KEff"
  shows "values_free_vars (fst (effect_splice (\<sigma> v) v)) \<union> set_option (snd (effect_splice (\<sigma> v) v)) = image_vars \<sigma> v"
proof (cases "\<sigma> v")
  case (Some u)
  from fittingD [OF assms(1) Some] assms(2) show ?thesis
    using Some by (cases rule: fitsE_effect) (auto simp: effect_splice_def image_vars_def)
qed (simp add: effect_splice_def image_vars_def)

lemma values_free_vars_or_insert_all:
  "values_free_vars (or_insert_all n m) \<subseteq> values_free_vars n \<union> values_free_vars m"
  using set_or_insert_all [of n m] by (fastforce simp: values_free_vars_Union)

lemma free_vars_sub:
  assumes "fitting K \<sigma>"
  shows "kinded K t \<Longrightarrow> free_vars (sub \<sigma> t) \<subseteq> (\<Union>v \<in> free_vars t. image_vars \<sigma> v)"
    and "kinded_row K r \<Longrightarrow> row_free_vars (sub_row \<sigma> r) \<subseteq> (\<Union>v \<in> row_free_vars r. image_vars \<sigma> v)"
    and "kinded_values K m \<Longrightarrow> values_free_vars (sub_values \<sigma> m) \<subseteq> (\<Union>v \<in> values_free_vars m. image_vars \<sigma> v)"
    and "kinded_effect K e \<Longrightarrow> effect_free_vars (sub_effect \<sigma> e) \<subseteq> (\<Union>v \<in> effect_free_vars e. image_vars \<sigma> v)"
proof (induction t and r and m and e rule: type_induct)
  case (Effect_Row p t)
  show ?case
  proof (cases t)
    case (Some v)
    with Effect_Row have "values_free_vars (sub_values \<sigma> p) \<subseteq> (\<Union>v \<in> values_free_vars p. image_vars \<sigma> v)"
      and "K v = KEff" by auto
    with Some effect_splice_vars [OF assms, of v] show ?thesis
      using values_free_vars_or_insert_all [of "fst (effect_splice (\<sigma> v) v)" "sub_values \<sigma> p"] by auto
  qed (use Effect_Row in auto)
next
  case (RowVar v)
  then show ?case by (simp add: row_splice_vars [OF assms])
qed (auto simp: image_vars_def split: option.splits)

lemma image_vars_subset: "image_vars \<sigma> v \<subseteq> ({v} - dom \<sigma>) \<union> range_vars \<sigma>"
  by (auto simp: image_vars_def intro: range_varsI split: option.split)

lemma Union_image_vars: "(\<Union>v \<in> B. image_vars \<sigma> v) \<subseteq> (B - dom \<sigma>) \<union> range_vars \<sigma>"
  using image_vars_subset [of \<sigma>] by blast

lemma free_vars_sub_subset:
  assumes "fitting K \<sigma>"
  shows "kinded K t \<Longrightarrow> free_vars (sub \<sigma> t) \<subseteq> (free_vars t - dom \<sigma>) \<union> range_vars \<sigma>"
    and "kinded_row K r \<Longrightarrow> row_free_vars (sub_row \<sigma> r) \<subseteq> (row_free_vars r - dom \<sigma>) \<union> range_vars \<sigma>"
    and "kinded_values K m \<Longrightarrow> values_free_vars (sub_values \<sigma> m) \<subseteq> (values_free_vars m - dom \<sigma>) \<union> range_vars \<sigma>"
    and "kinded_effect K e \<Longrightarrow> effect_free_vars (sub_effect \<sigma> e) \<subseteq> (effect_free_vars e - dom \<sigma>) \<union> range_vars \<sigma>"
  using free_vars_sub [OF assms] Union_image_vars [of \<sigma>] by (meson subset_trans)+

subsection \<open>Composition\<close>

lemma or_insert_all_assoc:
  "sorted_keys p \<Longrightarrow> or_insert_all n (or_insert_all m p) = or_insert_all (or_insert_all n m) p"
  by (intro sorted_keys_ext) (auto simp: map_of_or_insert_all)

lemma comp_row_splice:
  assumes "fitting K \<sigma>" "fitting K \<tau>" "K v = KRow"
  shows "row_splice (comp_sub \<tau> \<sigma> v) v = sub_row \<tau> (row_splice (\<sigma> v) v)"
proof (cases "\<sigma> v")
  case (Some u)
  show ?thesis
    using fittingD [OF assms(1) Some] assms(3)
  proof (cases rule: fitsE_row)
    case (var w)
    show ?thesis
    proof (cases "\<tau> w")
      case (Some u')
      from fittingD [OF assms(2) Some] var(2) show ?thesis using var Some \<open>\<sigma> v = Some u\<close>
        by (cases rule: fitsE_row) (auto simp: row_splice_def comp_sub_def)
    qed (use var Some in \<open>simp add: row_splice_def comp_sub_def\<close>)
  qed (use Some in \<open>simp add: row_splice_def comp_sub_def\<close>)
qed (simp add: row_splice_def comp_sub_def)

lemma sub_effect_splice:
  "sub_effect \<tau> (Effect_Row p (Some v)) =
     Effect_Row (or_insert_all (fst (effect_splice (\<tau> v) v)) (sub_values \<tau> p)) (snd (effect_splice (\<tau> v) v))"
  by simp

lemma comp_effect_splice:
  assumes "fitting K \<sigma>" "fitting K \<tau>" "K v = KEff" "sorted_keys p"
  shows "Effect_Row (or_insert_all (fst (effect_splice (comp_sub \<tau> \<sigma> v) v)) (sub_values \<tau> p))
      (snd (effect_splice (comp_sub \<tau> \<sigma> v) v)) =
    sub_effect \<tau> (Effect_Row (or_insert_all (fst (effect_splice (\<sigma> v) v)) p) (snd (effect_splice (\<sigma> v) v)))"
proof (cases "\<sigma> v")
  case (Some u)
  show ?thesis
    using fittingD [OF assms(1) Some] assms(3)
  proof (cases rule: fitsE_effect)
    case (row q rt)
    then show ?thesis
      using Some assms(4)
      by (cases rt)
        (auto simp: effect_splice_def comp_sub_def or_insert_all_sub_values or_insert_all_assoc split: option.split)
  next
    case (var w)
    show ?thesis
    proof (cases "\<tau> w")
      case (Some u')
      from fittingD [OF assms(2) Some] var(2) show ?thesis using var Some \<open>\<sigma> v = Some u\<close>
        by (cases rule: fitsE_effect) (auto simp: effect_splice_def comp_sub_def)
    qed (use var Some in \<open>simp add: effect_splice_def comp_sub_def\<close>)
  qed
qed (simp add: effect_splice_def comp_sub_def)

lemma sub_comp:
  assumes "fitting K \<sigma>" "fitting K \<tau>"
  shows "kinded K t \<Longrightarrow> sub (comp_sub \<tau> \<sigma>) t = sub \<tau> (sub \<sigma> t)"
    and "kinded_row K r \<Longrightarrow> sub_row (comp_sub \<tau> \<sigma>) r = sub_row \<tau> (sub_row \<sigma> r)"
    and "kinded_values K m \<Longrightarrow> sub_values (comp_sub \<tau> \<sigma>) m = sub_values \<tau> (sub_values \<sigma> m)"
    and "kinded_effect K e \<Longrightarrow> sub_effect (comp_sub \<tau> \<sigma>) e = sub_effect \<tau> (sub_effect \<sigma> e)"
proof (induction t and r and m and e rule: type_induct)
  case (Effect_Row p t)
  show ?case
  proof (cases t)
    case (Some v)
    with Effect_Row comp_effect_splice [OF assms, of v "sub_values \<sigma> p"] show ?thesis by simp
  qed (use Effect_Row in simp)
next
  case (Var v)
  then show ?case by (auto simp: comp_sub_def split: option.splits)
qed (auto simp: comp_row_splice [OF assms])

lemma fits_sub:
  assumes "fitting K \<tau>" "fits K v u"
  shows "fits K v (sub \<tau> u)"
proof (cases "K v = KType")
  case True
  with assms show ?thesis by (simp add: fits_def kinded_sub(1) [OF assms(1)])
next
  case False
  then consider "K v = KRow" | "K v = KEff" by (cases "K v") auto
  then show ?thesis
  proof cases
    case 1
    with assms(2) show ?thesis
    proof (cases rule: fitsE_row)
      case (var w)
      then show ?thesis
        using 1 fittingD [OF assms(1), of w] by (cases "\<tau> w") (auto simp: fits_var fits_def)
    qed (use 1 in \<open>auto simp: fits_row kinded_sub [OF assms(1)]\<close>)
  next
    case 2
    with assms(2) show ?thesis
    proof (cases rule: fitsE_effect)
      case (var w)
      then show ?thesis
        using 2 fittingD [OF assms(1), of w] by (cases "\<tau> w") (auto simp: fits_var fits_def)
    qed (use 2 in \<open>auto simp: fits_effect kinded_sub [OF assms(1)] simp del: kinded_effect.simps sub_effect.simps\<close>)
  qed
qed

lemma fitting_comp: "fitting K \<sigma> \<Longrightarrow> fitting K \<tau> \<Longrightarrow> fitting K (comp_sub \<tau> \<sigma>)"
  by (auto simp: fitting_def comp_sub_def fits_sub [of K \<tau>] split: option.splits)

lemma eval_sub_fits:
  assumes "fitting K \<tau>" "fits K v u"
  shows "eval \<theta> (sub \<tau> u) = eval (star \<theta> \<tau>) u"
proof (cases "\<exists>w. u = Var w")
  case True
  then show ?thesis by (auto simp: star_def split: option.split)
next
  case False
  with assms(2) have "kinded K u"
    by (cases "K v") (auto simp: fits_def row_part_KRow row_part_KEff kinded_row_parts)
  then show ?thesis by (rule eval_sub(1) [OF assms(1)])
qed

lemma star_comp:
  assumes "fitting K \<sigma>" "fitting K \<tau>"
  shows "star \<theta> (comp_sub \<tau> \<sigma>) = star (star \<theta> \<tau>) \<sigma>"
proof
  fix v
  show "star \<theta> (comp_sub \<tau> \<sigma>) v = star (star \<theta> \<tau>) \<sigma> v"
    using eval_sub_fits [OF assms(2) fittingD [OF assms(1)], of v _ \<theta>]
    by (auto simp: star_def comp_sub_def split: option.splits)
qed

lemma free_vars_sub_fits:
  assumes "fitting K \<tau>" "fits K v u"
  shows "free_vars (sub \<tau> u) \<subseteq> (\<Union>w \<in> free_vars u. image_vars \<tau> w)"
proof (cases "\<exists>w. u = Var w")
  case True
  then show ?thesis by (auto simp: image_vars_def split: option.split)
next
  case False
  with assms(2) have "kinded K u"
    by (cases "K v") (auto simp: fits_def row_part_KRow row_part_KEff kinded_row_parts)
  then show ?thesis by (rule free_vars_sub(1) [OF assms(1)])
qed

lemma dom_comp_sub [simp]: "dom (comp_sub \<tau> \<sigma>) = dom \<sigma> \<union> dom \<tau>"
  by (auto simp: comp_sub_def dom_def split: option.splits)

lemma range_vars_comp:
  assumes "fitting K \<sigma>" "fitting K \<tau>"
  shows "range_vars (comp_sub \<tau> \<sigma>) \<subseteq> (range_vars \<sigma> - dom \<tau>) \<union> range_vars \<tau>"
proof
  fix w
  assume "w \<in> range_vars (comp_sub \<tau> \<sigma>)"
  then obtain v u where u: "comp_sub \<tau> \<sigma> v = Some u" "w \<in> free_vars u"
    by (auto simp: range_vars_def ran_def)
  show "w \<in> (range_vars \<sigma> - dom \<tau>) \<union> range_vars \<tau>"
  proof (cases "\<sigma> v")
    case None
    with u show ?thesis by (auto simp: comp_sub_def intro: range_varsI)
  next
    case (Some u')
    have "free_vars u' \<subseteq> range_vars \<sigma>"
      using Some by (auto intro: range_varsI)
    then show ?thesis
      using u Some free_vars_sub_fits [OF assms(2) fittingD [OF assms(1) Some]]
        Union_image_vars [of \<tau> "free_vars u'"]
      by (auto simp: comp_sub_def)
  qed
qed

lemma idem_comp:
  assumes "fitting K \<sigma>" "fitting K \<tau>" "idem \<sigma>" "idem \<tau>" "dom \<sigma> \<inter> (dom \<tau> \<union> range_vars \<tau>) = {}"
  shows "idem (comp_sub \<tau> \<sigma>)"
  using range_vars_comp [OF assms(1,2)] assms(3-5) unfolding idem_def dom_comp_sub by blast

section \<open>The code computes it\<close>

lemma apply_id:
  "free_vars t \<inter> dom (map_of s) = {} \<Longrightarrow> subst_apply d s t = Some t"
  "row_free_vars r \<inter> dom (map_of s) = {} \<Longrightarrow> apply_row d s r = Some r"
  "values_free_vars m \<inter> dom (map_of s) = {} \<Longrightarrow> apply_values d s m = Some m"
  "effect_free_vars e \<inter> dom (map_of s) = {} \<Longrightarrow> apply_effect_row d s e = Some e"
proof (induction t and r and m and e rule: type_induct)
  case (Effect_Row p t)
  then show ?case
    by (cases t) (auto simp: Int_Un_distrib2 domIff split: option.splits)
qed (auto simp: Int_Un_distrib2 domIff split: option.splits)

lemma apply_sub:
  assumes "fitting K (map_of s)" "idem (map_of s)"
  shows "kinded K t \<Longrightarrow> subst_apply (Suc d) s t = Some (sub (map_of s) t)"
    and "kinded_row K r \<Longrightarrow> apply_row (Suc d) s r = Some (sub_row (map_of s) r)"
    and "kinded_values K m \<Longrightarrow> apply_values (Suc d) s m = Some (sub_values (map_of s) m)"
    and "kinded_effect K e \<Longrightarrow> apply_effect_row (Suc d) s e = Some (sub_effect (map_of s) e)"
proof (induction t and r and m and e rule: type_induct)
  case (RowVar v)
  show ?case
  proof (cases "map_of s v")
    case (Some u)
    have "K v = KRow" using RowVar by simp
    with fittingD [OF assms(1) Some] show ?thesis
      using Some idemD [OF assms(2) Some] apply_id(2)
      by (cases rule: fitsE_row) (auto simp: row_splice_def)
  qed (simp add: row_splice_def)
next
  case (Effect_Row p t)
  show ?case
  proof (cases t)
    case (Some v)
    have v: "K v = KEff" "apply_values (Suc d) s p = Some (sub_values (map_of s) p)"
      using Effect_Row Some by auto
    show ?thesis
    proof (cases "map_of s v")
      case (Some u)
      from fittingD [OF assms(1) Some] v(1) consider w where "u = Var w" | nx where "u = EffectRow nx"
        by (cases rule: fitsE_effect) auto
      then show ?thesis
        using \<open>t = Some v\<close> v Some idemD [OF assms(2) Some] apply_id(4)
        by cases (auto simp: effect_splice_def)
    qed (use \<open>t = Some v\<close> v in \<open>simp add: effect_splice_def\<close>)
  qed (use Effect_Row in simp)
qed auto

lemma apply_sub_fits:
  assumes "fitting K (map_of s)" "idem (map_of s)" "fits K v u"
  shows "subst_apply (Suc d) s u = Some (sub (map_of s) u)"
proof (cases "\<exists>w. u = Var w")
  case False
  with assms(3) have "kinded K u"
    by (cases "K v") (auto simp: fits_def row_part_KRow row_part_KEff kinded_row_parts)
  then show ?thesis by (rule apply_sub(1) [OF assms(1,2)])
qed auto

lemma apply_range_sub:
  assumes "fitting K (map_of s)" "idem (map_of s)" "\<forall>(v, u) \<in> set m. fits K v u"
  shows "\<exists>out. apply_range (Suc d) s m = Some out \<and> map_of out = map_option (sub (map_of s)) \<circ> map_of m
    \<and> sorted_keys out"
  using assms(3)
proof (induction m)
  case (Cons p m)
  then show ?case
    using apply_sub_fits [OF assms(1,2), of "fst p" "snd p" d] by (cases p) (auto simp: fun_eq_iff)
qed (simp add: fun_eq_iff)

lemma map_of_fold_insert:
  assumes "distinct (map fst s)"
  shows "map_of (fold (\<lambda>(v, ty). map_insert v ty) s out) = map_of out ++ map_of s"
  using assms
proof (induction s arbitrary: out)
  case (Cons p s)
  then show ?case
    by (cases p) (auto simp: fun_eq_iff map_add_def map_of_eq_None_iff [THEN iffD2] split: option.split)
qed simp

lemma sorted_fold_insert: "sorted_keys out \<Longrightarrow> sorted_keys (fold (\<lambda>(v, ty). map_insert v ty) s out)"
  by (induction s arbitrary: out) auto

lemma subst_compose_sub:
  assumes "fitting K (map_of s)" "idem (map_of s)" "fitting K (map_of r)"
    and "sorted_keys s" "sorted_keys r" "dom (map_of s) \<inter> dom (map_of r) = {}"
  shows "\<exists>out. subst_compose (Suc d) s r = Some out \<and> map_of out = comp_sub (map_of s) (map_of r) \<and> sorted_keys out"
proof -
  have "\<forall>(v, u) \<in> set r. fits K v u"
    using assms(3) sorted_keys_distinct [OF assms(5)] by (auto simp: fitting_def)
  from apply_range_sub [OF assms(1,2) this, of d] obtain out where out:
    "apply_range (Suc d) s r = Some out" "map_of out = map_option (sub (map_of s)) \<circ> map_of r" "sorted_keys out"
    by blast
  have "map_of out ++ map_of s = comp_sub (map_of s) (map_of r)"
    using assms(6) by (auto simp: out(2) comp_sub_def map_add_def fun_eq_iff domIff split: option.splits)
  then show ?thesis
    using out map_of_fold_insert [OF sorted_keys_distinct [OF assms(4)]] sorted_fold_insert
    by (auto simp: subst_compose_def)
qed

lemma occurs_check_iff:
  "occurs_check v t \<longleftrightarrow> v \<in> free_vars t"
  "occurs_check_row v r \<longleftrightarrow> v \<in> row_free_vars r"
  "occurs_check_values v m \<longleftrightarrow> v \<in> values_free_vars m"
  "occurs_check_effect_row v e \<longleftrightarrow> v \<in> effect_free_vars e"
  by (induction t and r and m and e rule: type_induct) auto

end
