(* ===== verification/HM_Coherence.thy ===== *)
theory HM_Coherence
  imports HM_Substitution
begin

text \<open>
  Coherent types: every row variable stands behind one fixed list of fields, its front, wherever
  it occurs.  The types Algorithm W handles have this property, and the unifier is correct on
  them; without it the bindings it makes can contradict each other.
\<close>

type_synonym fronts = "type_var \<Rightarrow> row_fields_map"

definition sim :: "row_fields_map \<Rightarrow> row_fields_map \<Rightarrow> bool" where
  "sim fs gs \<longleftrightarrow> (\<forall>\<theta>. eval_values \<theta> fs = eval_values \<theta> gs)"

lemma sim_refl [simp]: "sim fs fs"
  and sim_sym: "sim fs gs \<Longrightarrow> sim gs fs"
  and sim_trans: "sim fs gs \<Longrightarrow> sim gs hs \<Longrightarrow> sim fs hs"
  by (simp_all add: sim_def)

lemma sim_keys: "sim fs gs \<Longrightarrow> keys fs = keys gs"
  by (metis sim_def dom_eval_values)

lemma sim_append: "sim fs fs' \<Longrightarrow> sim gs gs' \<Longrightarrow> sim (fs @ gs) (fs' @ gs')"
  by (simp add: sim_def eval_values_append)

lemma sim_sub_values:
  assumes "fitting K \<sigma>" "kinded_values K fs" "kinded_values K gs" "sim fs gs"
  shows "sim (sub_values \<sigma> fs) (sub_values \<sigma> gs)"
  using assms by (simp add: sim_def eval_sub)

definition fronted :: "kinding \<Rightarrow> fronts \<Rightarrow> vkind \<Rightarrow> row_fields_map \<Rightarrow> type_var option \<Rightarrow> bool" where
  "fronted K F k fs rt \<longleftrightarrow> (\<forall>v \<in> set_option rt. K v = k \<and> sim fs (F v))"

definition coherent :: "kinding \<Rightarrow> fronts \<Rightarrow> vkind \<Rightarrow> row_fields_map \<Rightarrow> type_var option \<Rightarrow> bool" where
  "coherent K F k fs rt \<longleftrightarrow>
     distinct (map fst fs) \<and> (\<forall>v \<in> set_option rt. K v = k \<and> sim fs (F v))"

fun wf_type :: "kinding \<Rightarrow> fronts \<Rightarrow> mono_type \<Rightarrow> bool"
  and wf_row_types :: "kinding \<Rightarrow> fronts \<Rightarrow> row_type \<Rightarrow> bool"
  and wf_values :: "kinding \<Rightarrow> fronts \<Rightarrow> row_fields_map \<Rightarrow> bool"
  and wf_effect :: "kinding \<Rightarrow> fronts \<Rightarrow> effect_row \<Rightarrow> bool" where
  "wf_type K F (Var v) = (K v = KType)"
| "wf_type K F (Con _) = True"
| "wf_type K F (Arrow a b) = (wf_type K F a \<and> wf_type K F b)"
| "wf_type K F (Record r) = (wf_row_types K F r \<and> coherent K F KRow (row_fields r) (row_tail r))"
| "wf_type K F (EffectRow e) = wf_effect K F e"
| "wf_type K F (Typed (Typed_Value r e)) =
     (wf_row_types K F r \<and> coherent K F KRow (row_fields r) (row_tail r) \<and> wf_effect K F e)"
| "wf_row_types K F Empty = True"
| "wf_row_types K F (RowVar v) = True"
| "wf_row_types K F (Extend _ ty rest) = (wf_type K F ty \<and> wf_row_types K F rest)"
| "wf_values K F [] = True"
| "wf_values K F ((_, ty) # m) = (wf_type K F ty \<and> wf_values K F m)"
| "wf_effect K F (Effect_Row p t) = (wf_values K F p \<and> sorted_keys p \<and> coherent K F KEff p t)"

definition wf_row :: "kinding \<Rightarrow> fronts \<Rightarrow> row_type \<Rightarrow> bool" where
  "wf_row K F r \<longleftrightarrow> wf_values K F (row_fields r) \<and> coherent K F KRow (row_fields r) (row_tail r)"

lemma wf_row_types_fields: "wf_row_types K F r = wf_values K F (row_fields r)"
  by (induction r rule: row_fields.induct) auto

lemma wf_record [simp]: "wf_type K F (Record r) = wf_row K F r"
  "wf_type K F (Typed (Typed_Value r e)) = (wf_row K F r \<and> wf_effect K F e)"
  by (auto simp: wf_row_def wf_row_types_fields)

declare wf_type.simps(4,6) [simp del]

lemma coherent_fronted: "coherent K F k fs rt \<longleftrightarrow> distinct (map fst fs) \<and> fronted K F k fs rt"
  by (simp add: coherent_def fronted_def)

lemma wf_values_iff: "wf_values K F m \<longleftrightarrow> (\<forall>(k, ty) \<in> set m. wf_type K F ty)"
  by (induction m) auto

lemma wf_values_append [simp]: "wf_values K F (m @ n) \<longleftrightarrow> wf_values K F m \<and> wf_values K F n"
  by (auto simp: wf_values_iff)

lemma wf_values_subset: "wf_values K F m \<Longrightarrow> set n \<subseteq> set m \<Longrightarrow> wf_values K F n"
  by (auto simp: wf_values_iff)

lemma wf_effect_parts:
  "wf_effect K F e \<longleftrightarrow> wf_values K F (present e) \<and> sorted_keys (present e) \<and> coherent K F KEff (present e) (tail e)"
  by (cases e) simp

lemma wf_kinded_aux:
  "wf_type K F t \<Longrightarrow> kinded K t"
  "wf_row_types K F r \<Longrightarrow> kinded_values K (row_fields r)"
  "wf_values K F m \<Longrightarrow> kinded_values K m"
  "wf_effect K F e \<Longrightarrow> kinded_effect K e"
  by (induction t and r and m and e rule: type_induct)
    (auto simp: wf_row_def wf_row_types_fields coherent_def kinded_row_parts)

lemmas wf_kinded = wf_kinded_aux(1,3,4)

lemma wf_row_kinded: "wf_row K F r \<Longrightarrow> kinded_row K r"
  using wf_kinded(1) [of K F "Record r"] by simp

lemma coherent_agree:
  assumes "\<And>v. v \<in> set_option rt \<Longrightarrow> K' v = K v \<and> (K v \<noteq> KType \<longrightarrow> sim (F v) (F' v))"
    and "coherent K F k fs rt" "k \<noteq> KType"
  shows "coherent K' F' k fs rt"
  using assms by (auto simp: coherent_def intro: sim_trans)

lemma wf_agree_aux:
  assumes "\<And>v. v \<in> V \<Longrightarrow> K' v = K v \<and> (K v \<noteq> KType \<longrightarrow> sim (F v) (F' v))"
  shows "free_vars t \<subseteq> V \<Longrightarrow> wf_type K F t \<Longrightarrow> wf_type K' F' t"
    and "row_free_vars r \<subseteq> V \<Longrightarrow> wf_row_types K F r \<Longrightarrow> wf_row_types K' F' r"
    and "values_free_vars m \<subseteq> V \<Longrightarrow> wf_values K F m \<Longrightarrow> wf_values K' F' m"
    and "effect_free_vars e \<subseteq> V \<Longrightarrow> wf_effect K F e \<Longrightarrow> wf_effect K' F' e"
proof (induction t and r and m and e rule: type_induct)
  case (Record r)
  have "coherent K' F' KRow (row_fields r) (row_tail r)"
    by (rule coherent_agree [of _ _ K F]) (use Record assms in \<open>auto simp: wf_row_def row_free_vars_parts\<close>)
  with Record show ?case by (simp add: wf_row_def wf_row_types_fields)
next
  case (Typed r e)
  have "coherent K' F' KRow (row_fields r) (row_tail r)"
    by (rule coherent_agree [of _ _ K F]) (use Typed assms in \<open>auto simp: wf_row_def row_free_vars_parts\<close>)
  with Typed show ?case by (simp add: wf_row_def wf_row_types_fields)
next
  case (Effect_Row p t)
  have "coherent K' F' KEff p t"
    by (rule coherent_agree [of _ _ K F]) (use Effect_Row assms in auto)
  with Effect_Row show ?case by simp
qed (use assms in auto)

lemmas wf_agree = wf_agree_aux(1,3,4)

subsection \<open>The front of a variable is in every type it occurs in\<close>

text \<open>The value of the front of \<open>v\<close> depends on the variables in \<open>V\<close> only.\<close>

definition front_vars :: "kinding \<Rightarrow> fronts \<Rightarrow> type_var \<Rightarrow> type_var set \<Rightarrow> bool" where
  "front_vars K F v V \<longleftrightarrow>
     (K v \<noteq> KType \<longrightarrow> (\<forall>\<theta> \<theta>'. (\<forall>w \<in> V. \<theta> w = \<theta>' w) \<longrightarrow> eval_values \<theta> (F v) = eval_values \<theta>' (F v)))"

lemma front_varsI: "sim gs (F v) \<Longrightarrow> values_free_vars gs \<subseteq> V \<Longrightarrow> front_vars K F v V"
  unfolding front_vars_def sim_def by (metis eval_agree(3) subsetD)

lemma front_varsD:
  "front_vars K F v V \<Longrightarrow> K v \<noteq> KType \<Longrightarrow> (\<And>w. w \<in> V \<Longrightarrow> \<theta> w = \<theta>' w) \<Longrightarrow> eval_values \<theta> (F v) = eval_values \<theta>' (F v)"
  by (simp add: front_vars_def)

lemma front_vars_type: "K v = KType \<Longrightarrow> front_vars K F v V"
  by (simp add: front_vars_def)

lemma front_vars_mono: "front_vars K F v V \<Longrightarrow> V \<subseteq> W \<Longrightarrow> front_vars K F v W"
  unfolding front_vars_def by (meson subsetD)

lemma front_vars_Int:
  assumes "front_vars K F v V" "front_vars K F v W"
  shows "front_vars K F v (V \<inter> W)"
  unfolding front_vars_def
proof (intro impI allI)
  fix \<theta> \<theta>' :: valuation
  assume k: "K v \<noteq> KType" and agree: "\<forall>w \<in> V \<inter> W. \<theta> w = \<theta>' w"
  have "eval_values \<theta> (F v) = eval_values (\<lambda>w. if w \<in> V then \<theta> w else \<theta>' w) (F v)"
    by (rule front_varsD [OF assms(1) k]) simp
  also have "\<dots> = eval_values \<theta>' (F v)"
    by (rule front_varsD [OF assms(2) k]) (use agree in simp)
  finally show "eval_values \<theta> (F v) = eval_values \<theta>' (F v)" .
qed

lemma wf_front_vars_aux:
  "wf_type K F t \<Longrightarrow> v \<in> free_vars t \<Longrightarrow> front_vars K F v (free_vars t)"
  "wf_row_types K F r \<Longrightarrow> v \<in> values_free_vars (row_fields r) \<Longrightarrow> front_vars K F v (values_free_vars (row_fields r))"
  "wf_values K F m \<Longrightarrow> v \<in> values_free_vars m \<Longrightarrow> front_vars K F v (values_free_vars m)"
  "wf_effect K F e \<Longrightarrow> v \<in> effect_free_vars e \<Longrightarrow> front_vars K F v (effect_free_vars e)"
proof (induction t and r and m and e rule: type_induct)
  case (Var w)
  then show ?case by (simp add: front_vars_type)
next
  case (Record r)
  then show ?case
    by (auto simp: wf_row_def wf_row_types_fields row_free_vars_parts coherent_def
        intro: front_vars_mono front_varsI)
next
  case (Typed r e)
  then show ?case
    by (auto simp: wf_row_def wf_row_types_fields row_free_vars_parts coherent_def
        intro: front_vars_mono front_varsI)
next
  case (Effect_Row p t)
  then show ?case
    by (auto simp: coherent_def intro: front_vars_mono front_varsI)
qed (auto intro: front_vars_mono)

lemmas wf_front_vars = wf_front_vars_aux(1,3,4)

section \<open>Sizes\<close>

definition weight :: "kinding \<Rightarrow> fronts \<Rightarrow> valuation \<Rightarrow> type_var \<Rightarrow> nat" where
  "weight K F \<theta> v = (if K v = KType then gsize (\<theta> v) else msize (gfields (\<theta> v) ++\<^sub>f eval_values \<theta> (F v)))"

lemma values_weight:
  assumes "distinct (map fst m)" "(k, ty) \<in> set m" "w \<le> gsize (eval \<theta> ty)"
  shows "w < msize (x ++\<^sub>f eval_values \<theta> m)"
proof -
  have "fmlookup (x ++\<^sub>f eval_values \<theta> m) k = Some (eval \<theta> ty)"
    using assms by (auto simp: fmlookup_dom_iff)
  from gsize_field [OF this] assms(3) show ?thesis by simp
qed

lemma coherent_weight:
  assumes "coherent K F k fs (Some v)" "k \<noteq> KType"
  shows "weight K F \<theta> v = msize (gfields (\<theta> v) ++\<^sub>f eval_values \<theta> fs)"
  using assms by (auto simp: coherent_def weight_def sim_def)

lemma row_weight:
  assumes "coherent K F k fs rt" "k \<noteq> KType" "v \<in> values_free_vars fs \<union> set_option rt"
    and "v \<in> values_free_vars fs \<Longrightarrow> \<exists>(l, ty) \<in> set fs. weight K F \<theta> v \<le> gsize (eval \<theta> ty)"
  shows "weight K F \<theta> v \<le> msize (tail_val \<theta> rt ++\<^sub>f eval_values \<theta> fs)"
proof (cases "v \<in> values_free_vars fs")
  case True
  with assms(4) obtain l ty where "(l, ty) \<in> set fs" "weight K F \<theta> v \<le> gsize (eval \<theta> ty)" by blast
  from values_weight [OF _ this] assms(1) show ?thesis
    by (simp add: coherent_def less_imp_le)
next
  case False
  with assms show ?thesis using coherent_weight [of K F k fs v \<theta>] by (auto simp: coherent_def)
qed

lemma size_below_aux:
  "wf_type K F t \<Longrightarrow> v \<in> free_vars t \<Longrightarrow> t = Var v \<and> K v = KType \<or> weight K F \<theta> v < gsize (eval \<theta> t)"
  "wf_row_types K F r \<Longrightarrow> v \<in> values_free_vars (row_fields r) \<Longrightarrow>
     \<exists>(k, ty) \<in> set (row_fields r). weight K F \<theta> v \<le> gsize (eval \<theta> ty)"
  "wf_values K F m \<Longrightarrow> v \<in> values_free_vars m \<Longrightarrow> \<exists>(k, ty) \<in> set m. weight K F \<theta> v \<le> gsize (eval \<theta> ty)"
  "wf_effect K F e \<Longrightarrow> v \<in> effect_free_vars e \<Longrightarrow> weight K F \<theta> v \<le> msize (eval_effect \<theta> e)"
proof (induction t and r and m and e rule: type_induct)
  case (Record r)
  then have "weight K F \<theta> v \<le> msize (eval_row \<theta> r)"
    unfolding eval_row_parts
    by (intro row_weight [of K F KRow]) (auto simp: wf_row_def wf_row_types_fields row_free_vars_parts)
  then show ?case by simp
next
  case (Typed r e)
  have "weight K F \<theta> v \<le> msize (eval_row \<theta> r)" if "v \<in> row_free_vars r"
    unfolding eval_row_parts using that Typed
    by (intro row_weight [of K F KRow]) (auto simp: wf_row_def wf_row_types_fields row_free_vars_parts)
  with Typed show ?case by fastforce
next
  case (Effect_Row p t)
  then show ?case
    by (simp, intro row_weight [of K F KEff]) auto
qed (fastforce simp: weight_def)+

lemma size_below:
  "wf_type K F t \<Longrightarrow> v \<in> free_vars t \<Longrightarrow> weight K F \<theta> v \<le> gsize (eval \<theta> t)"
  "wf_type K F t \<Longrightarrow> v \<in> free_vars t \<Longrightarrow> t \<noteq> Var v \<Longrightarrow> weight K F \<theta> v < gsize (eval \<theta> t)"
  using size_below_aux(1) [of K F t v \<theta>] by (auto simp: weight_def)

text \<open>A row variable does not occur in its own front.\<close>

lemma front_acyclic:
  assumes "coherent K F k fs (Some v)" "k \<noteq> KType" "wf_values K F fs"
  shows "v \<notin> values_free_vars fs"
proof
  assume "v \<in> values_free_vars fs"
  define \<theta> :: valuation where "\<theta> = (\<lambda>_. GCon [])"
  from size_below_aux(3) [OF assms(3) \<open>v \<in> values_free_vars fs\<close>] obtain l ty where
    "(l, ty) \<in> set fs" "weight K F \<theta> v \<le> gsize (eval \<theta> ty)" by blast
  from values_weight [OF _ this, of "gfields (\<theta> v)"] show False
    using coherent_weight [OF assms(1,2), of \<theta>] assms(1) by (simp add: coherent_def)
qed

section \<open>Admissible valuations\<close>

text \<open>
  A valuation gives a row variable a record (an effect row variable an effect row) without the
  fields that stand in front of it.
\<close>

fun is_val :: "vkind \<Rightarrow> gtype \<Rightarrow> bool" where
  "is_val KType g = True"
| "is_val KRow g = (\<exists>m. g = GRecord m)"
| "is_val KEff g = (\<exists>m. g = GEffect m)"

definition admissible_at :: "kinding \<Rightarrow> fronts \<Rightarrow> type_var \<Rightarrow> gtype \<Rightarrow> bool" where
  "admissible_at K F v g \<longleftrightarrow>
     is_val (K v) g \<and> (K v \<noteq> KType \<longrightarrow> fmdom' (gfields g) \<inter> keys (F v) = {})"

definition admissible :: "kinding \<Rightarrow> fronts \<Rightarrow> nat \<Rightarrow> valuation \<Rightarrow> bool" where
  "admissible K F f \<theta> \<longleftrightarrow> (\<forall>v < f. admissible_at K F v (\<theta> v))"

lemma is_val_gfields: "is_val k g \<Longrightarrow> is_val k h \<Longrightarrow> k \<noteq> KType \<Longrightarrow> gfields g = gfields h \<Longrightarrow> g = h"
  by (cases k) auto

lemma fmadd_disjoint_inject:
  assumes "x ++\<^sub>f a = y ++\<^sub>f b" "fmdom' a = fmdom' b" "fmdom' x \<inter> fmdom' a = {}" "fmdom' y \<inter> fmdom' a = {}"
  shows "x = y \<and> a = b"
proof -
  have *: "fmlookup (x ++\<^sub>f a) k = fmlookup (y ++\<^sub>f b) k" for k using assms(1) by simp
  have "fmlookup a k = fmlookup b k \<and> fmlookup x k = fmlookup y k" for k
  proof (cases "k \<in> fmdom' a")
    case True
    then have "k |\<in>| fmdom a" "k |\<in>| fmdom b" "k \<notin> fmdom' x" "k \<notin> fmdom' y"
      using assms(2-4) by (auto simp: fmdom'_alt_def)
    with * [of k] show ?thesis by (simp add: fmdom'_notD)
  next
    case False
    then have "k |\<notin>| fmdom a" "k |\<notin>| fmdom b"
      using assms(2) by (auto simp: fmdom'_alt_def)
    with * [of k] show ?thesis by (simp add: fmdom_notD)
  qed
  then show ?thesis by (auto intro: fmap_ext)
qed

text \<open>The ground type of a type determines the values of its variables.\<close>

lemma row_inject:
  assumes "admissible K F f \<theta>" "admissible K F f \<theta>'" "coherent K F k fs rt" "k \<noteq> KType" "set_option rt \<subseteq> {..<f}"
    and "tail_val \<theta> rt ++\<^sub>f eval_values \<theta> fs = tail_val \<theta>' rt ++\<^sub>f eval_values \<theta>' fs"
  shows "eval_values \<theta> fs = eval_values \<theta>' fs \<and> (\<forall>v \<in> set_option rt. \<theta> v = \<theta>' v)"
proof (cases rt)
  case (Some v)
  have v: "K v = k" "keys (F v) = keys fs" "v < f"
    using assms Some sim_keys [of fs "F v"] by (simp_all add: coherent_def)
  then have adm: "admissible_at K F v (\<theta> v)" "admissible_at K F v (\<theta>' v)"
    using assms(1,2) by (auto simp: admissible_def)
  with v assms(4) have "gfields (\<theta> v) = gfields (\<theta>' v) \<and> eval_values \<theta> fs = eval_values \<theta>' fs"
    using assms(6) Some by (intro fmadd_disjoint_inject) (auto simp: admissible_at_def)
  then show ?thesis
    using adm v assms(4) Some is_val_gfields by (auto simp: admissible_at_def)
qed (use assms in simp)

lemma values_inject:
  assumes "eval_values \<theta> ((l, ty) # m) = eval_values \<theta>' ((l, ty) # m)" "l \<notin> keys m"
  shows "eval_values \<theta> m = eval_values \<theta>' m \<and> eval \<theta> ty = eval \<theta>' ty"
proof -
  have *: "fmlookup (eval_values \<theta> ((l, ty) # m)) k = fmlookup (eval_values \<theta>' ((l, ty) # m)) k" for k
    using assms(1) by simp
  have "fmlookup (eval_values \<theta> m) k = fmlookup (eval_values \<theta>' m) k" for k
    using * [of k] assms(2) by (cases "k = l") (simp_all add: map_of_eq_None_iff [THEN iffD2])
  with * [of l] show ?thesis by (auto intro: fmap_ext)
qed

lemma eval_inject_aux:
  assumes adm: "admissible K F f \<theta>" "admissible K F f \<theta>'"
  shows "wf_type K F t \<Longrightarrow> free_vars t \<subseteq> {..<f} \<Longrightarrow> eval \<theta> t = eval \<theta>' t \<Longrightarrow> v \<in> free_vars t \<Longrightarrow> \<theta> v = \<theta>' v"
    and "wf_row_types K F r \<Longrightarrow> values_free_vars (row_fields r) \<subseteq> {..<f} \<Longrightarrow> distinct (map fst (row_fields r)) \<Longrightarrow>
      eval_values \<theta> (row_fields r) = eval_values \<theta>' (row_fields r) \<Longrightarrow> v \<in> values_free_vars (row_fields r) \<Longrightarrow> \<theta> v = \<theta>' v"
    and "wf_values K F m \<Longrightarrow> values_free_vars m \<subseteq> {..<f} \<Longrightarrow> distinct (map fst m) \<Longrightarrow>
      eval_values \<theta> m = eval_values \<theta>' m \<Longrightarrow> v \<in> values_free_vars m \<Longrightarrow> \<theta> v = \<theta>' v"
    and "wf_effect K F e \<Longrightarrow> effect_free_vars e \<subseteq> {..<f} \<Longrightarrow> eval_effect \<theta> e = eval_effect \<theta>' e \<Longrightarrow>
      v \<in> effect_free_vars e \<Longrightarrow> \<theta> v = \<theta>' v"
proof (induction t and r and m and e rule: type_induct)
  case (Record r)
  then have "eval_values \<theta> (row_fields r) = eval_values \<theta>' (row_fields r)"
    "\<forall>v \<in> set_option (row_tail r). \<theta> v = \<theta>' v"
    using row_inject [OF adm, of KRow "row_fields r" "row_tail r"]
    by (auto simp: wf_row_def row_free_vars_parts eval_row_parts)
  with Record show ?case
    by (auto simp: wf_row_def wf_row_types_fields row_free_vars_parts coherent_def)
next
  case (Typed r e)
  then have "eval_values \<theta> (row_fields r) = eval_values \<theta>' (row_fields r)"
    "\<forall>v \<in> set_option (row_tail r). \<theta> v = \<theta>' v"
    using row_inject [OF adm, of KRow "row_fields r" "row_tail r"]
    by (auto simp: wf_row_def row_free_vars_parts eval_row_parts)
  with Typed show ?case
    by (auto simp: wf_row_def wf_row_types_fields row_free_vars_parts coherent_def)
next
  case (Effect_Row p t)
  then have "eval_values \<theta> p = eval_values \<theta>' p" "\<forall>v \<in> set_option t. \<theta> v = \<theta>' v"
    using row_inject [OF adm, of KEff p t] by auto
  with Effect_Row show ?case
    by (auto simp: coherent_def)
next
  case (Extend l ty rest)
  have "eval_values \<theta> (row_fields rest) = eval_values \<theta>' (row_fields rest) \<and> eval \<theta> ty = eval \<theta>' ty"
    using Extend by (intro values_inject [of _ l]) auto
  with Extend show ?case by auto
next
  case (Cons l ty m)
  have "eval_values \<theta> m = eval_values \<theta>' m \<and> eval \<theta> ty = eval \<theta>' ty"
    using Cons by (intro values_inject [of _ l]) auto
  with Cons show ?case by auto
qed auto

lemmas eval_inject = eval_inject_aux(1)

end
