(* ===== verification/HM_Solutions.thy ===== *)
theory HM_Solutions
  imports HM_Coherence
begin

text \<open>
  Substitutions that solve a problem over coherent types: they keep types coherent, every
  valuation that satisfies their equations solves the problem, and every admissible solution of the
  problem extends to one of these.  Such substitutions compose.
\<close>

section \<open>Coherence under substitution\<close>

definition tail_sub :: "vkind \<Rightarrow> (type_var \<rightharpoonup> mono_type) \<Rightarrow> type_var option \<Rightarrow> row_fields_map \<times> type_var option" where
  "tail_sub k \<sigma> rt =
     (case rt of
        None \<Rightarrow> ([], None)
      | Some v \<Rightarrow> (case \<sigma> v of None \<Rightarrow> ([], Some v) | Some u \<Rightarrow> the (row_part k u)))"

lemma row_parts_sub_row:
  assumes "fitting K \<sigma>" "kinded_row K r"
  shows "row_fields (sub_row \<sigma> r) = sub_values \<sigma> (row_fields r) @ fst (tail_sub KRow \<sigma> (row_tail r))"
    and "row_tail (sub_row \<sigma> r) = snd (tail_sub KRow \<sigma> (row_tail r))"
proof -
  have "row_fields (row_splice (\<sigma> v) v) = fst (tail_sub KRow \<sigma> (Some v)) \<and>
      row_tail (row_splice (\<sigma> v) v) = snd (tail_sub KRow \<sigma> (Some v))" if "K v = KRow" for v
  proof (cases "\<sigma> v")
    case (Some u)
    from fittingD [OF assms(1) Some] that show ?thesis
      using Some by (cases rule: fitsE_row) (auto simp: row_splice_def tail_sub_def)
  qed (simp add: row_splice_def tail_sub_def)
  with assms(2) show "row_fields (sub_row \<sigma> r) = sub_values \<sigma> (row_fields r) @ fst (tail_sub KRow \<sigma> (row_tail r))"
    and "row_tail (sub_row \<sigma> r) = snd (tail_sub KRow \<sigma> (row_tail r))"
    by (induction r rule: row_fields.induct) (auto simp: tail_sub_def)
qed

lemma parts_sub_effect:
  assumes "fitting K \<sigma>" "kinded_effect K e"
  shows "present (sub_effect \<sigma> e) = or_insert_all (fst (tail_sub KEff \<sigma> (tail e))) (sub_values \<sigma> (present e))"
    and "tail (sub_effect \<sigma> e) = snd (tail_sub KEff \<sigma> (tail e))"
proof -
  have "effect_splice (\<sigma> v) v = tail_sub KEff \<sigma> (Some v)" if "K v = KEff" for v
  proof (cases "\<sigma> v")
    case (Some u)
    from fittingD [OF assms(1) Some] that show ?thesis
      using Some by (cases rule: fitsE_effect) (auto simp: effect_splice_def tail_sub_def)
  qed (simp add: effect_splice_def tail_sub_def)
  with assms(2) show "present (sub_effect \<sigma> e) = or_insert_all (fst (tail_sub KEff \<sigma> (tail e))) (sub_values \<sigma> (present e))"
    and "tail (sub_effect \<sigma> e) = snd (tail_sub KEff \<sigma> (tail e))"
    by (cases e; cases "tail e"; auto simp: tail_sub_def)+
qed

text \<open>What a binding of a row variable adds to the fields in front of it.\<close>

definition tail_binding :: "kinding \<Rightarrow> fronts \<Rightarrow> vkind \<Rightarrow> row_fields_map \<Rightarrow> mono_type \<Rightarrow> bool" where
  "tail_binding K' F' k fs u \<longleftrightarrow>
     (\<exists>G rt. row_part k u = Some (G, rt) \<and> wf_values K' F' G \<and> distinct (map fst G) \<and>
       (k = KEff \<longrightarrow> sorted_keys G) \<and> keys fs \<inter> keys G = {} \<and> fronted K' F' k (fs @ G) rt)"

definition solved :: "type_var set \<Rightarrow> kinding \<Rightarrow> fronts \<Rightarrow> (type_var \<rightharpoonup> mono_type) \<Rightarrow> kinding \<Rightarrow> fronts \<Rightarrow> bool" where
  "solved S K F \<sigma> K' F' \<longleftrightarrow>
     (\<forall>w \<in> S. K' w = K w \<and> kinded_values K' (F w) \<and>
       (case \<sigma> w of
          None \<Rightarrow> K w \<noteq> KType \<longrightarrow> sim (sub_values \<sigma> (F w)) (F' w)
        | Some u \<Rightarrow> if K w = KType then wf_type K' F' u else tail_binding K' F' (K w) (sub_values \<sigma> (F w)) u))"

lemma solved_kind: "solved S K F \<sigma> K' F' \<Longrightarrow> w \<in> S \<Longrightarrow> K w = K' w"
  by (simp add: solved_def)

lemma solvedD:
  assumes "solved S K F \<sigma> K' F'" "w \<in> S"
  shows "K' w = K w" "kinded_values K' (F w)"
    and "\<sigma> w = None \<Longrightarrow> K w \<noteq> KType \<Longrightarrow> sim (sub_values \<sigma> (F w)) (F' w)"
    and "\<sigma> w = Some u \<Longrightarrow> K w = KType \<Longrightarrow> wf_type K' F' u"
    and "\<sigma> w = Some u \<Longrightarrow> K w \<noteq> KType \<Longrightarrow> tail_binding K' F' (K w) (sub_values \<sigma> (F w)) u"
  using bspec [OF assms(1) [unfolded solved_def] assms(2)] by simp_all

lemma solvedI:
  assumes "\<And>w. w \<in> S \<Longrightarrow> K' w = K w \<and> kinded_values K' (F w)"
    and "\<And>w. w \<in> S \<Longrightarrow> \<sigma> w = None \<Longrightarrow> K w \<noteq> KType \<Longrightarrow> sim (sub_values \<sigma> (F w)) (F' w)"
    and "\<And>w u. w \<in> S \<Longrightarrow> \<sigma> w = Some u \<Longrightarrow> K w = KType \<Longrightarrow> wf_type K' F' u"
    and "\<And>w u. w \<in> S \<Longrightarrow> \<sigma> w = Some u \<Longrightarrow> K w \<noteq> KType \<Longrightarrow> tail_binding K' F' (K w) (sub_values \<sigma> (F w)) u"
  shows "solved S K F \<sigma> K' F'"
  using assms by (simp add: solved_def split: option.split)

lemma fronted_sim: "sim fs gs \<Longrightarrow> fronted K F k fs rt \<Longrightarrow> fronted K F k gs rt"
  by (auto simp: fronted_def intro: sim_trans sim_sym)

lemma tail_sub_fronted:
  assumes "solved S K F \<sigma> K' F'" "fitting K' \<sigma>" "fronted K F k fs rt" "k \<noteq> KType"
    and "set_option rt \<subseteq> S" "kinded_values K' fs" "tail_sub k \<sigma> rt = (G, rt')"
  shows "fronted K' F' k (sub_values \<sigma> fs @ G) rt' \<and> wf_values K' F' G \<and> distinct (map fst G) \<and>
    (k = KEff \<longrightarrow> sorted_keys G) \<and> keys fs \<inter> keys G = {}"
proof (cases rt)
  case None
  with assms(7) show ?thesis by (auto simp: tail_sub_def fronted_def)
next
  case (Some v)
  then have v: "v \<in> S" "K v = k" "sim fs (F v)"
    using assms(3,5) by (auto simp: fronted_def)
  with assms(1) have K': "K' v = K v" "kinded_values K' (F v)" by (auto simp: solved_def)
  then have sim: "sim (sub_values \<sigma> fs) (sub_values \<sigma> (F v))"
    using v(3) assms(6) by (intro sim_sub_values [OF assms(2)])
  show ?thesis
  proof (cases "\<sigma> v")
    case None
    with v assms(1,4) have "sim (sub_values \<sigma> (F v)) (F' v)" by (auto simp: solved_def split: option.splits)
    with None Some assms(7) v K' sim show ?thesis
      by (auto simp: tail_sub_def fronted_def intro: sim_trans)
  next
    case (Some u)
    with v assms(1,4) have "tail_binding K' F' k (sub_values \<sigma> (F v)) u"
      by (auto simp: solved_def split: option.splits if_splits)
    then obtain G' rt'' where G': "row_part k u = Some (G', rt'')" "wf_values K' F' G'" "distinct (map fst G')"
      "k = KEff \<longrightarrow> sorted_keys G'" "keys (F v) \<inter> keys G' = {}"
      "fronted K' F' k (sub_values \<sigma> (F v) @ G') rt''"
      unfolding tail_binding_def keys_sub_values by blast
    have "G' = G" "rt'' = rt'"
      using Some \<open>rt = Some v\<close> assms(7) G'(1) by (simp_all add: tail_sub_def)
    with G' show ?thesis
      using fronted_sim [OF sim_append [OF sim_sym [OF sim] sim_refl] G'(6)] sim_keys [OF v(3)] by simp
  qed
qed

lemma distinct_append_keys:
  "distinct (map fst fs) \<Longrightarrow> distinct (map fst gs) \<Longrightarrow> keys fs \<inter> keys gs = {} \<Longrightarrow> distinct (map fst (fs @ gs))"
  by simp

lemma sim_or_insert_all: "sim (or_insert_all n m) (m @ n)"
  by (simp add: sim_def eval_values_or_insert_all eval_values_append)

lemma wf_row_sub:
  assumes "solved S K F \<sigma> K' F'" "fitting K' \<sigma>" "coherent K F KRow (row_fields r) (row_tail r)"
    and "set_option (row_tail r) \<subseteq> S" "kinded_row K' r" "wf_values K' F' (sub_values \<sigma> (row_fields r))"
  shows "wf_row K' F' (sub_row \<sigma> r)"
proof -
  obtain G rt' where G: "tail_sub KRow \<sigma> (row_tail r) = (G, rt')" by fastforce
  have "fronted K' F' KRow (sub_values \<sigma> (row_fields r) @ G) rt' \<and> wf_values K' F' G \<and> distinct (map fst G) \<and>
      keys (row_fields r) \<inter> keys G = {}"
    using tail_sub_fronted [OF assms(1,2) _ _ assms(4) _ G] assms(3,5)
    by (auto simp: coherent_fronted kinded_row_parts)
  with assms(3,6) show ?thesis
    unfolding wf_row_def row_parts_sub_row [OF assms(2,5)] G coherent_fronted by simp
qed

lemma wf_effect_sub:
  assumes "solved S K F \<sigma> K' F'" "fitting K' \<sigma>" "coherent K F KEff p t" "sorted_keys p"
    and "set_option t \<subseteq> S" "kinded_values K' p" "\<forall>v \<in> set_option t. K' v = KEff" "wf_values K' F' (sub_values \<sigma> p)"
  shows "wf_effect K' F' (sub_effect \<sigma> (Effect_Row p t))"
proof -
  obtain G rt' where G: "tail_sub KEff \<sigma> t = (G, rt')" by fastforce
  have "fronted K' F' KEff (sub_values \<sigma> p @ G) rt' \<and> wf_values K' F' G"
    using tail_sub_fronted [OF assms(1,2) _ _ assms(5) assms(6) G] assms(3)
    by (auto simp: coherent_fronted)
  moreover have "kinded_effect K' (Effect_Row p t)" using assms by simp
  note parts_sub_effect [OF assms(2) this]
  moreover have "sorted_keys (or_insert_all G (sub_values \<sigma> p))" using assms(4) by simp
  moreover have "wf_values K' F' (or_insert_all G (sub_values \<sigma> p))" if "wf_values K' F' G"
    by (rule wf_values_subset [of _ _ "G @ sub_values \<sigma> p"]) (use that assms(8) set_or_insert_all in auto)
  ultimately show ?thesis
    using G fronted_sim [OF sim_sym [OF sim_or_insert_all [of G "sub_values \<sigma> p"]]]
    by (simp add: wf_effect_parts coherent_fronted sorted_keys_distinct)
qed

lemma wf_sub_aux:
  assumes "solved S K F \<sigma> K' F'" "fitting K' \<sigma>"
  shows "wf_type K F t \<Longrightarrow> free_vars t \<subseteq> S \<Longrightarrow> wf_type K' F' (sub \<sigma> t)"
    and "wf_row_types K F r \<Longrightarrow> row_free_vars r \<subseteq> S \<Longrightarrow> wf_values K' F' (sub_values \<sigma> (row_fields r))"
    and "wf_values K F m \<Longrightarrow> values_free_vars m \<subseteq> S \<Longrightarrow> wf_values K' F' (sub_values \<sigma> m)"
    and "wf_effect K F e \<Longrightarrow> effect_free_vars e \<subseteq> S \<Longrightarrow> wf_effect K' F' (sub_effect \<sigma> e)"
proof (induction t and r and m and e rule: type_induct)
  case (Var v)
  then show ?case using assms(1) by (auto simp: solved_def split: option.splits if_splits)
next
  case (Record r)
  have "kinded_row K' r"
    using wf_row_kinded [of K F r] kinded_agree(2) [of r K K'] Record solved_kind [OF assms(1)] by force
  with Record show ?case
    using wf_row_sub [OF assms, of r] by (auto simp: wf_row_def wf_row_types_fields row_free_vars_parts)
next
  case (Typed r e)
  have "kinded_row K' r"
    using wf_row_kinded [of K F r] kinded_agree(2) [of r K K'] Typed solved_kind [OF assms(1)] by force
  with Typed show ?case
    using wf_row_sub [OF assms, of r] by (auto simp: wf_row_def wf_row_types_fields row_free_vars_parts)
next
  case (Effect_Row p t)
  have "kinded_effect K' (Effect_Row p t)"
    using wf_kinded(3) [of K F "Effect_Row p t"] kinded_agree(4) [of "Effect_Row p t" K K'] Effect_Row
      solved_kind [OF assms(1)] by blast
  with Effect_Row show ?case
    using wf_effect_sub [OF assms, of p t] by auto
qed auto

lemmas wf_sub = wf_sub_aux(1,3,4)

end
