(* ===== verification/HM_Mgu.thy ===== *)
theory HM_Mgu
  imports HM_Solutions
begin

text \<open>
  Most general solutions: the specification of the unifier, closed under composition, with the
  bindings the unifier makes as instances.
\<close>

definition context_ok :: "kinding \<Rightarrow> fronts \<Rightarrow> nat \<Rightarrow> bool" where
  "context_ok K F f \<longleftrightarrow> (\<forall>v < f. kinded_values K (F v) \<and> values_free_vars (F v) \<subseteq> {..<f})"

text \<open>
  A refinement of the context: \<open>\<sigma>\<close> binds variables of \<open>V\<close> and new ones, keeps the kinds and
  the labels of the fronts, turns coherent types into coherent ones and admissible valuations into
  admissible ones.
\<close>

definition refines :: "kinding \<Rightarrow> fronts \<Rightarrow> nat \<Rightarrow> type_var set \<Rightarrow> (type_var \<rightharpoonup> mono_type) \<Rightarrow>
    nat \<Rightarrow> kinding \<Rightarrow> fronts \<Rightarrow> bool" where
  "refines K F f V \<sigma> f' K' F' \<longleftrightarrow>
     f \<le> f' \<and> context_ok K' F' f' \<and> (\<forall>w < f. keys (F' w) = keys (F w)) \<and>
     fitting K' \<sigma> \<and> idem \<sigma> \<and> dom \<sigma> \<union> range_vars \<sigma> \<subseteq> V \<union> {f..<f'} \<and>
     solved {..<f} K F \<sigma> K' F' \<and>
     (\<forall>\<theta>. admissible K' F' f' \<theta> \<longrightarrow> admissible K' F' f' (star \<theta> \<sigma>))"

text \<open>A most general solution with fewer variables than the problem.\<close>

definition mgu :: "kinding \<Rightarrow> fronts \<Rightarrow> nat \<Rightarrow> type_var set \<Rightarrow> (valuation \<Rightarrow> bool) \<Rightarrow> (type_var \<rightharpoonup> mono_type) \<Rightarrow>
    nat \<Rightarrow> kinding \<Rightarrow> fronts \<Rightarrow> bool" where
  "mgu K F f V Sol \<sigma> f' K' F' \<longleftrightarrow>
     refines K F f V \<sigma> f' K' F' \<and>
     (\<forall>\<theta>. models \<theta> \<sigma> \<longrightarrow> Sol \<theta>) \<and>
     (\<forall>\<theta>. admissible K F f \<theta> \<longrightarrow> Sol \<theta> \<longrightarrow>
        (\<exists>\<theta>'. admissible K' F' f' \<theta>' \<and> (\<forall>v < f. \<theta>' v = \<theta> v) \<and> models \<theta>' \<sigma>)) \<and>
     (\<sigma> = Map.empty \<and> f' = f \<or>
      card ((V \<union> {f..<f'}) - dom \<sigma>) < card V \<and> card ((V \<union> {f..<f'}) - dom \<sigma>) + f' \<le> card V + f)"

lemma refinesD:
  assumes "refines K F f V \<sigma> f' K' F'"
  shows "f \<le> f'" "context_ok K' F' f'" "\<And>w. w < f \<Longrightarrow> keys (F' w) = keys (F w)"
    and "fitting K' \<sigma>" "idem \<sigma>" "dom \<sigma> \<union> range_vars \<sigma> \<subseteq> V \<union> {f..<f'}"
    and "solved {..<f} K F \<sigma> K' F'" "\<And>w. w < f \<Longrightarrow> K' w = K w"
    and "\<And>\<theta>. admissible K' F' f' \<theta> \<Longrightarrow> admissible K' F' f' (star \<theta> \<sigma>)"
  using assms unfolding refines_def solved_def by simp_all

lemma mguD:
  assumes "mgu K F f V Sol \<sigma> f' K' F'"
  shows "f \<le> f'" "context_ok K' F' f'" "\<And>w. w < f \<Longrightarrow> keys (F' w) = keys (F w)"
    and "fitting K' \<sigma>" "idem \<sigma>" "dom \<sigma> \<union> range_vars \<sigma> \<subseteq> V \<union> {f..<f'}"
    and "solved {..<f} K F \<sigma> K' F'" "\<And>w. w < f \<Longrightarrow> K' w = K w"
    and "\<And>\<theta>. admissible K' F' f' \<theta> \<Longrightarrow> admissible K' F' f' (star \<theta> \<sigma>)"
    and "\<And>\<theta>. models \<theta> \<sigma> \<Longrightarrow> Sol \<theta>"
    and "\<And>\<theta>. admissible K F f \<theta> \<Longrightarrow> Sol \<theta> \<Longrightarrow>
          \<exists>\<theta>'. admissible K' F' f' \<theta>' \<and> (\<forall>v < f. \<theta>' v = \<theta> v) \<and> models \<theta>' \<sigma>"
    and "\<sigma> = Map.empty \<and> f' = f \<or>
      card ((V \<union> {f..<f'}) - dom \<sigma>) < card V \<and> card ((V \<union> {f..<f'}) - dom \<sigma>) + f' \<le> card V + f"
  using assms unfolding mgu_def refines_def solved_def by simp_all

lemma mgu_consequence:
  assumes "mgu K F f V Sol \<sigma> f' K' F'" "\<And>\<theta>. Sol \<theta> \<Longrightarrow> Sol' \<theta>"
    and "\<And>\<theta>. admissible K F f \<theta> \<Longrightarrow> Sol' \<theta> \<Longrightarrow> Sol \<theta>"
  shows "mgu K F f V Sol' \<sigma> f' K' F'"
proof -
  note m = mguD [OF assms(1)]
  have "\<forall>\<theta>. models \<theta> \<sigma> \<longrightarrow> Sol' \<theta>" using m(10) assms(2) by blast
  moreover have "\<forall>\<theta>. admissible K F f \<theta> \<longrightarrow> Sol' \<theta> \<longrightarrow>
        (\<exists>\<theta>'. admissible K' F' f' \<theta>' \<and> (\<forall>v < f. \<theta>' v = \<theta> v) \<and> models \<theta>' \<sigma>)"
    using m(11) assms(3) by blast
  ultimately show ?thesis
    using assms(1) unfolding mgu_def by (elim conjE, intro conjI) assumption+
qed

lemma refines_weaken_vars: "refines K F f V \<sigma> f' K' F' \<Longrightarrow> V \<subseteq> W \<Longrightarrow> refines K F f W \<sigma> f' K' F'"
  unfolding refines_def by blast

lemma mgu_weaken_vars:
  assumes "mgu K F f V Sol \<sigma> f' K' F'" "V \<subseteq> W" "W \<subseteq> {..<f}"
  shows "mgu K F f W Sol \<sigma> f' K' F'"
proof -
  note m = mguD [OF assms(1)]
  have fin: "finite W" using assms(3) finite_subset by blast
  have "card ((W \<union> {f..<f'}) - dom \<sigma>) < card W \<and> card ((W \<union> {f..<f'}) - dom \<sigma>) + f' \<le> card W + f"
    if "\<not> (\<sigma> = Map.empty \<and> f' = f)"
  proof -
    have "(W \<union> {f..<f'}) - dom \<sigma> \<subseteq> (W - V) \<union> ((V \<union> {f..<f'}) - dom \<sigma>)" by blast
    then have "card ((W \<union> {f..<f'}) - dom \<sigma>) \<le> card (W - V) + card ((V \<union> {f..<f'}) - dom \<sigma>)"
      using fin assms(2) by (meson card_Un_le card_mono finite_Diff finite_Un finite_atLeastLessThan finite_subset le_trans)
    moreover have "card (W - V) + card V = card W" using fin assms(2)
      by (metis card_Diff_subset card_mono finite_subset le_add_diff_inverse2)
    ultimately show ?thesis using m(12) that by linarith
  qed
  moreover have "refines K F f W \<sigma> f' K' F'" using assms(1,2) by (auto simp: mgu_def intro: refines_weaken_vars)
  ultimately show ?thesis
    using assms(1) unfolding mgu_def by blast
qed

lemma admissible_agree:
  "admissible K F f \<theta> \<Longrightarrow> (\<And>v. v < f \<Longrightarrow> \<theta>' v = \<theta> v \<and> K' v = K v \<and> keys (F' v) = keys (F v)) \<Longrightarrow> admissible K' F' f \<theta>'"
  by (simp add: admissible_def admissible_at_def)

lemma admissible_less: "admissible K F f' \<theta> \<Longrightarrow> f \<le> f' \<Longrightarrow> admissible K F f \<theta>"
  by (simp add: admissible_def)

lemma mgu_admissible_back:
  assumes "mgu K F f V Sol \<sigma> f' K' F'" "admissible K' F' f' \<theta>"
  shows "admissible K F f \<theta>"
  using admissible_agree [OF admissible_less [OF assms(2) mguD(1) [OF assms(1)]]] mguD(3,8) [OF assms(1)] by simp

lemma fits_agree:
  assumes "fits K v u" "K' v = K v" "\<And>w. w \<in> free_vars u \<Longrightarrow> K' w = K w"
  shows "fits K' v u"
proof (cases "K v")
  case KType
  with assms show ?thesis using kinded_agree(1) [of u K' K] by (auto simp: fits_def)
next
  case KRow
  from assms(1) KRow show ?thesis
  proof (cases rule: fitsE_row)
    case (row r)
    with KRow assms(2,3) show ?thesis using kinded_agree(2) [of r K' K] by (auto simp: fits_row)
  qed (use KRow assms in \<open>auto simp: fits_var\<close>)
next
  case KEff
  from assms(1) KEff show ?thesis
  proof (cases rule: fitsE_effect)
    case (row p rt)
    then show ?thesis
      using KEff assms(2,3) kinded_agree(4) [of "Effect_Row p rt" K' K]
      by (auto simp: fits_effect simp del: kinded_effect.simps)
  qed (use KEff assms in \<open>auto simp: fits_var\<close>)
qed

lemma fitting_agree:
  assumes "fitting K \<sigma>" "dom \<sigma> \<union> range_vars \<sigma> \<subseteq> V" "\<And>v. v \<in> V \<Longrightarrow> K' v = K v"
  shows "fitting K' \<sigma>"
  unfolding fitting_def
proof (intro allI impI)
  fix v u
  assume \<sigma>: "\<sigma> v = Some u"
  have "fits K v u" using assms(1) \<sigma> by (rule fittingD)
  then show "fits K' v u"
  proof (rule fits_agree)
    show "K' v = K v" using assms(2,3) \<sigma> by (auto simp: dom_def)
    show "K' w = K w" if "w \<in> free_vars u" for w
      using range_varsI [of \<sigma> v u w] \<sigma> that assms(2,3) by auto
  qed
qed

subsection \<open>Composition\<close>

lemma card_compose:
  fixes f f1 f2 :: nat
  assumes "finite V" "V2 \<subseteq> (V \<union> {f..<f1}) - D1" "D2 \<subseteq> V2 \<union> {f1..<f2}" "f \<le> f1" "f1 \<le> f2"
    and "D1 \<inter> {f1..<f2} = {}"
    and "card ((V2 \<union> {f1..<f2}) - D2) + n \<le> card V2"
  shows "card ((V \<union> {f..<f2}) - (D1 \<union> D2)) + n \<le> card ((V \<union> {f..<f1}) - D1)"
proof -
  let ?W = "(V \<union> {f..<f1}) - D1"
  have W: "finite ?W" using assms(1) by simp
  then have fin: "finite ?W" "finite V2" using finite_subset [OF assms(2)] by simp_all
  have "(V \<union> {f..<f2}) - (D1 \<union> D2) \<subseteq> (?W - V2) \<union> ((V2 \<union> {f1..<f2}) - D2)"
    using assms(4-6) by auto
  then have "card ((V \<union> {f..<f2}) - (D1 \<union> D2)) \<le> card (?W - V2) + card ((V2 \<union> {f1..<f2}) - D2)"
    using fin by (meson card_Un_le card_mono finite_Diff finite_Un finite_atLeastLessThan le_trans)
  moreover have "card (?W - V2) + card V2 = card ?W"
    using fin assms(2) by (metis card_Diff_subset card_mono le_add_diff_inverse2)
  ultimately show ?thesis using assms(7) by linarith
qed

lemma sim_agree_kinded: "kinded_values K m \<Longrightarrow> values_free_vars m \<subseteq> {..<f} \<Longrightarrow> (\<And>v. v < f \<Longrightarrow> K' v = K v) \<Longrightarrow>
    kinded_values K' m"
  using kinded_agree(3) [of m K K'] by (metis lessThan_iff subsetD)


lemma row_part_sub:
  assumes "fitting K \<tau>" "fits K w u" "K w = k" "k \<noteq> KType" "row_part k u = Some (G, rt)"
    and "tail_sub k \<tau> rt = (G2, rt2)" "k = KEff \<longrightarrow> sorted_keys G2"
  shows "\<exists>G'. row_part k (sub \<tau> u) = Some (G', rt2) \<and> sim G' (sub_values \<tau> G @ G2) \<and>
    set G' \<subseteq> set (sub_values \<tau> G @ G2) \<and> (k = KEff \<longrightarrow> sorted_keys G \<longrightarrow> sorted_keys G') \<and>
    (k = KRow \<longrightarrow> G' = sub_values \<tau> G @ G2)"
proof (cases "\<exists>x. u = Var x")
  case True
  then obtain x where x: "u = Var x" by blast
  then have "K x = k" using assms(2,3) by (simp add: fits_var)
  have G: "G = []" "rt = Some x" using assms(5) x by (cases k; simp)+
  show ?thesis
  proof (cases "\<tau> x")
    case None
    with G x assms(6) show ?thesis by (cases k) (auto simp: tail_sub_def)
  next
    case (Some u')
    have "fits K x u'" using assms(1) Some by (rule fittingD)
    then obtain G3 rt3 where "row_part k u' = Some (G3, rt3)"
      using \<open>K x = k\<close> assms(4) by (auto simp: fits_def)
    with Some G x assms(6,7) show ?thesis by (auto simp: tail_sub_def)
  qed
next
  case False
  consider "k = KRow" | "k = KEff" using assms(4) by (cases k) auto
  then show ?thesis
  proof cases
    case 1
    with False assms(2,3) obtain r where r: "u = Record r" "kinded_row K r"
      by (auto elim: fitsE_row)
    with 1 assms(5,6) show ?thesis
      using row_parts_sub_row [OF assms(1) r(2)] by auto
  next
    case 2
    with False assms(2,3) obtain p t where r: "u = EffectRow (Effect_Row p t)" "kinded_effect K (Effect_Row p t)"
      by (auto elim: fitsE_effect)
    then have Gp: "G = p" "rt = t" using assms(5) 2 by auto
    have "present (sub_effect \<tau> (Effect_Row p t)) = or_insert_all G2 (sub_values \<tau> p)"
      "tail (sub_effect \<tau> (Effect_Row p t)) = rt2"
      using parts_sub_effect [OF assms(1) r(2)] Gp assms(6) 2 by simp_all
    moreover have "sim (or_insert_all G2 (sub_values \<tau> p)) (sub_values \<tau> p @ G2)" by (rule sim_or_insert_all)
    ultimately show ?thesis
      using 2 r Gp set_or_insert_all [of G2 "sub_values \<tau> p"] by (auto simp del: sub_effect.simps)
  qed
qed

lemma tail_binding_sub:
  assumes "solved S K1 F1 \<tau> K2 F2" "fitting K2 \<tau>" "fits K2 w u" "K2 w = k" "k \<noteq> KType"
    and "tail_binding K1 F1 k fs u" "free_vars u \<subseteq> S" "kinded_values K2 fs"
  shows "tail_binding K2 F2 k (sub_values \<tau> fs) (sub \<tau> u)"
proof -
  obtain G rt where G: "row_part k u = Some (G, rt)" "wf_values K1 F1 G" "distinct (map fst G)"
      "k = KEff \<longrightarrow> sorted_keys G" "keys fs \<inter> keys G = {}" "fronted K1 F1 k (fs @ G) rt"
    using assms(6) unfolding tail_binding_def by blast
  obtain G2 rt2 where G2: "tail_sub k \<tau> rt = (G2, rt2)" by fastforce
  have fvG: "values_free_vars G \<subseteq> free_vars u" "set_option rt \<subseteq> free_vars u"
    using G(1) assms(5) by (cases k; auto simp: row_part_KRow row_part_KEff row_free_vars_parts)+
  have "kinded_values K1 G" using G(2) by (rule wf_kinded(2))
  then have kG: "kinded_values K2 G"
    using kinded_agree(3) [of G K1 K2] solved_kind [OF assms(1)] fvG assms(7) by blast
  have kfs: "kinded_values K2 (fs @ G)" using assms(8) kG by (auto simp: kinded_values_iff)
  have rtS: "set_option rt \<subseteq> S" using fvG assms(7) by blast
  note tf = tail_sub_fronted [OF assms(1,2) G(6) assms(5) rtS kfs G2]
  obtain G' where G': "row_part k (sub \<tau> u) = Some (G', rt2)" "sim G' (sub_values \<tau> G @ G2)"
    "set G' \<subseteq> set (sub_values \<tau> G @ G2)" "k = KEff \<longrightarrow> sorted_keys G \<longrightarrow> sorted_keys G'"
    "k = KRow \<longrightarrow> G' = sub_values \<tau> G @ G2"
    using row_part_sub [OF assms(2,3,4,5) G(1) G2] tf by blast
  have dis: "keys (fs @ G) \<inter> keys G2 = {}" "distinct (map fst G2)" using tf by blast+
  have dG': "distinct (map fst G')"
  proof (cases "k = KRow")
    case True
    with G' G(3) dis show ?thesis by (auto simp: image_Un)
  next
    case False
    with assms(5) have "k = KEff" by (cases k) auto
    with G'(4) G(4) show ?thesis by (simp add: sorted_keys_distinct)
  qed
  have keysG': "keys G' = keys G \<union> keys G2" using sim_keys [OF G'(2)] by (simp add: image_Un)
  have "wf_values K2 F2 (sub_values \<tau> G)"
    using wf_sub(2) [OF assms(1,2) G(2)] fvG assms(7) by blast
  moreover have "wf_values K2 F2 G2" using tf by blast
  ultimately have "wf_values K2 F2 (sub_values \<tau> G @ G2)" by simp
  then have "wf_values K2 F2 G'" using G'(3) by (rule wf_values_subset)
  moreover have "fronted K2 F2 k (sub_values \<tau> fs @ G') rt2"
  proof (rule fronted_sim)
    show "fronted K2 F2 k (sub_values \<tau> (fs @ G) @ G2) rt2" using tf by blast
    show "sim (sub_values \<tau> (fs @ G) @ G2) (sub_values \<tau> fs @ G')"
      using sim_append [OF sim_refl sim_sym [OF G'(2)], of "sub_values \<tau> fs"] by simp
  qed
  moreover have "keys fs \<inter> keys G' = {}"
    unfolding keysG' using dis(1) G(5) by (simp add: image_Un Int_Un_distrib Int_Un_distrib2)
  ultimately show ?thesis
    unfolding tail_binding_def keys_sub_values using G'(1,4) dG' G(4) by blast
qed


lemma tail_binding_sim:
  assumes "sim fs fs'" "tail_binding K F k fs u"
  shows "tail_binding K F k fs' u"
proof -
  obtain G rt where G: "row_part k u = Some (G, rt)" "wf_values K F G" "distinct (map fst G)"
      "k = KEff \<longrightarrow> sorted_keys G" "keys fs \<inter> keys G = {}" "fronted K F k (fs @ G) rt"
    using assms(2) unfolding tail_binding_def by blast
  have "fronted K F k (fs' @ G) rt" by (rule fronted_sim [OF sim_append [OF assms(1) sim_refl] G(6)])
  moreover have "keys fs' \<inter> keys G = {}" using G(5) sim_keys [OF assms(1)] by simp
  ultimately show ?thesis unfolding tail_binding_def using G(1-4) by blast
qed

lemma solved_compose:
  assumes "context_ok K F f" "solved {..<f} K F \<sigma> K1 F1" "fitting K1 \<sigma>" "dom \<sigma> \<union> range_vars \<sigma> \<subseteq> {..<f1}" "f \<le> f1"
    and "solved {..<f1} K1 F1 \<tau> K2 F2" "fitting K2 \<tau>"
  shows "solved {..<f} K F (comp_sub \<tau> \<sigma>) K2 F2"
proof -
  have K21: "K2 v = K1 v" if "v < f1" for v using solvedD(1) [OF assms(6), of v] that by simp
  have fit: "fitting K2 \<sigma>" using fitting_agree [OF assms(3,4)] K21 by simp
  have kF: "kinded_values K2 (F w)" if "w < f" for w
  proof (rule sim_agree_kinded)
    show "kinded_values K1 (F w)" using solvedD(2) [OF assms(2), of w] that by simp
    show "values_free_vars (F w) \<subseteq> {..<f1}" using assms(1,5) that by (fastforce simp: context_ok_def)
  qed (rule K21)
  have comp: "sub_values (comp_sub \<tau> \<sigma>) (F w) = sub_values \<tau> (sub_values \<sigma> (F w))" if "w < f" for w
    by (rule sub_comp(3) [OF fit assms(7) kF [OF that]])
  have kS: "kinded_values K2 (sub_values \<sigma> (F w))" if "w < f" for w
    by (rule kinded_sub(3) [OF fit kF [OF that]])
  have simF: "sim (sub_values \<tau> (F1 w)) (sub_values (comp_sub \<tau> \<sigma>) (F w))" if "\<sigma> w = None" "K w \<noteq> KType" "w < f" for w
  proof -
    have "sim (sub_values \<sigma> (F w)) (F1 w)" "kinded_values K2 (F1 w)"
      using solvedD(3) [OF assms(2), of w] solvedD(2) [OF assms(6), of w] that assms(5) by simp_all
    then show ?thesis using sim_sub_values [OF assms(7) _ kS] sim_sym comp that(3) by metis
  qed
  show ?thesis
  proof (rule solvedI)
    fix w
    assume "w \<in> {..<f}"
    then have w: "w < f" "w < f1" using assms(5) by auto
    then have K10: "K1 w = K w" using solvedD(1) [OF assms(2), of w] by simp
    then show "K2 w = K w \<and> kinded_values K2 (F w)" using kF K21 w by simp
    show "sim (sub_values (comp_sub \<tau> \<sigma>) (F w)) (F2 w)" if "comp_sub \<tau> \<sigma> w = None" "K w \<noteq> KType"
    proof -
      have "\<sigma> w = None" "\<tau> w = None" using that by (simp_all add: comp_sub_def split: option.splits)
      then show ?thesis
        using simF [of w] solvedD(3) [OF assms(6), of w] w K10 that sim_sym sim_trans by (metis lessThan_iff)
    qed
    fix u
    assume u: "comp_sub \<tau> \<sigma> w = Some u"
    consider (old) u' where "\<sigma> w = Some u'" "u = sub \<tau> u'" | (new) "\<sigma> w = None" "\<tau> w = Some u"
      using u by (auto simp: comp_sub_def split: option.splits)
    then have "(K w = KType \<longrightarrow> wf_type K2 F2 u) \<and>
        (K w \<noteq> KType \<longrightarrow> tail_binding K2 F2 (K w) (sub_values (comp_sub \<tau> \<sigma>) (F w)) u)"
    proof cases
      case (old u')
      have fvu: "free_vars u' \<subseteq> {..<f1}"
        using old(1) assms(4) range_varsI [of \<sigma> w u'] by blast
      have "K2 w = K w" using K21 w K10 by simp
      then show ?thesis
        using wf_sub(1) [OF assms(6,7), of u'] fvu old w
          tail_binding_sub [OF assms(6,7) fittingD [OF fit old(1)] _ _ _ fvu kS [OF w(1)]]
          solvedD(4,5) [OF assms(2) _ old(1)] comp [OF w(1)] by simp
    next
      case new
      then show ?thesis
        using solvedD(4,5) [OF assms(6) _ new(2)] w K10 tail_binding_sim [OF simF [OF new(1) _ w(1)]] by simp
    qed
    then show "K w = KType \<Longrightarrow> wf_type K2 F2 u"
      and "K w \<noteq> KType \<Longrightarrow> tail_binding K2 F2 (K w) (sub_values (comp_sub \<tau> \<sigma>) (F w)) u"
      by blast+
  qed
qed

lemma models_comp:
  assumes "fitting K \<sigma>" "fitting K \<tau>" "dom \<sigma> \<inter> dom \<tau> = {}"
  shows "models \<theta> (comp_sub \<tau> \<sigma>) \<longleftrightarrow> models \<theta> \<sigma> \<and> models \<theta> \<tau>"
proof -
  have e: "eval \<theta> (sub \<tau> u) = eval \<theta> u" if "models \<theta> \<tau>" "\<sigma> v = Some u" for v u
    using eval_sub_fits [OF assms(2) fittingD [OF assms(1) that(2)]] models_star [OF that(1)] by simp
  show ?thesis
  proof
    assume m: "models \<theta> (comp_sub \<tau> \<sigma>)"
    have t: "models \<theta> \<tau>"
      unfolding models_def
    proof (intro allI impI)
      fix v u
      assume "\<tau> v = Some u"
      moreover from this have "\<sigma> v = None" using assms(3) by (auto simp: dom_def)
      ultimately show "\<theta> v = eval \<theta> u" using m by (simp add: models_def comp_sub_def)
    qed
    have "models \<theta> \<sigma>"
      unfolding models_def
    proof (intro allI impI)
      fix v u
      assume u: "\<sigma> v = Some u"
      then have "comp_sub \<tau> \<sigma> v = Some (sub \<tau> u)" by (simp add: comp_sub_def)
      with m e [OF t u] show "\<theta> v = eval \<theta> u" by (simp add: models_def)
    qed
    with t show "models \<theta> \<sigma> \<and> models \<theta> \<tau>" by simp
  next
    assume m: "models \<theta> \<sigma> \<and> models \<theta> \<tau>"
    show "models \<theta> (comp_sub \<tau> \<sigma>)"
      unfolding models_def
    proof (intro allI impI)
      fix v u
      assume "comp_sub \<tau> \<sigma> v = Some u"
      with m e show "\<theta> v = eval \<theta> u"
        by (cases "\<sigma> v") (auto simp: comp_sub_def models_def)
    qed
  qed
qed

lemma refines_vars:
  assumes "refines K F f V \<sigma> f' K' F'" "V \<subseteq> {..<f}"
  shows "dom \<sigma> \<union> range_vars \<sigma> \<subseteq> {..<f'}"
proof -
  have "V \<union> {f..<f'} \<subseteq> {..<f'}" using assms(2) refinesD(1) [OF assms(1)] by fastforce
  with refinesD(6) [OF assms(1)] show ?thesis by blast
qed

lemma refines_admissible_back:
  assumes "refines K F f V \<sigma> f' K' F'" "admissible K' F' f' \<theta>"
  shows "admissible K F f \<theta>"
  using admissible_agree [OF admissible_less [OF assms(2) refinesD(1) [OF assms(1)]]] refinesD(3,8) [OF assms(1)] by simp

lemma models_agree:
  assumes "models \<theta> \<sigma>" "dom \<sigma> \<union> range_vars \<sigma> \<subseteq> V" "\<And>v. v \<in> V \<Longrightarrow> \<theta>' v = \<theta> v"
  shows "models \<theta>' \<sigma>"
  unfolding models_def
proof (intro allI impI)
  fix v u
  assume u: "\<sigma> v = Some u"
  then have "v \<in> V" "free_vars u \<subseteq> V" using assms(2) range_varsI [of \<sigma> v u] by auto
  then have "eval \<theta>' u = eval \<theta> u" using assms(3) by (intro eval_agree) auto
  with u assms(1,3) \<open>v \<in> V\<close> show "\<theta>' v = eval \<theta>' u" by (simp add: models_def)
qed

lemma refines_parts:
  assumes r: "refines K F f V \<sigma> f1 K1 F1" "refines K1 F1 f1 V2 \<tau> f2 K2 F2"
    and V: "V \<subseteq> {..<f}" "V2 \<subseteq> (V \<union> {f..<f1}) - dom \<sigma>"
  shows "fitting K2 \<sigma>" "dom \<sigma> \<inter> (dom \<tau> \<union> range_vars \<tau>) = {}" "V2 \<subseteq> {..<f1}"
proof -
  note a = refinesD [OF r(1)] and b = refinesD [OF r(2)]
  have vars: "dom \<sigma> \<union> range_vars \<sigma> \<subseteq> {..<f1}" by (rule refines_vars [OF r(1) V(1)])
  show "fitting K2 \<sigma>" using fitting_agree [OF a(4) vars] b(8) by simp
  show "dom \<sigma> \<inter> (dom \<tau> \<union> range_vars \<tau>) = {}" using b(6) V(2) vars by fastforce
  have "V \<union> {f..<f1} \<subseteq> {..<f1}" using V(1) a(1) by fastforce
  then show "V2 \<subseteq> {..<f1}" using V(2) by blast
qed

lemma refines_compose:
  assumes ctx: "context_ok K F f" and V: "V \<subseteq> {..<f}"
    and r: "refines K F f V \<sigma> f1 K1 F1" "refines K1 F1 f1 V2 \<tau> f2 K2 F2"
    and V2: "V2 \<subseteq> (V \<union> {f..<f1}) - dom \<sigma>"
  shows "refines K F f V (comp_sub \<tau> \<sigma>) f2 K2 F2"
proof -
  note a = refinesD [OF r(1)] and b = refinesD [OF r(2)] and p = refines_parts [OF r V V2]
  have vars1: "dom \<sigma> \<union> range_vars \<sigma> \<subseteq> {..<f1}" by (rule refines_vars [OF r(1) V])
  have vars: "dom (comp_sub \<tau> \<sigma>) \<union> range_vars (comp_sub \<tau> \<sigma>) \<subseteq> V \<union> {f..<f2}"
  proof -
    have "V \<union> {f..<f1} \<subseteq> V \<union> {f..<f2}" "V2 \<union> {f1..<f2} \<subseteq> V \<union> {f..<f2}"
      using a(1) b(1) V2 by auto
    moreover have "range_vars (comp_sub \<tau> \<sigma>) \<subseteq> range_vars \<sigma> \<union> range_vars \<tau>"
      using range_vars_comp [OF p(1) b(4)] by blast
    ultimately show ?thesis using a(6) b(6) unfolding dom_comp_sub by blast
  qed
  have adm: "admissible K2 F2 f2 (star \<theta> (comp_sub \<tau> \<sigma>))" if "admissible K2 F2 f2 \<theta>" for \<theta>
  proof -
    let ?\<theta> = "star \<theta> \<tau>"
    have "admissible K2 F2 f2 ?\<theta>" using b(9) that .
    moreover have "admissible K1 F1 f1 (star ?\<theta> \<sigma>)"
      using a(9) refines_admissible_back [OF r(2) calculation] .
    moreover have "star ?\<theta> \<sigma> v = ?\<theta> v" if "\<not> v < f1" for v
      using vars1 that by (auto simp: star_def split: option.split)
    ultimately show ?thesis
      unfolding star_comp [OF p(1) b(4)] admissible_def admissible_at_def
      using b(3,8) by (metis linorder_not_less)
  qed
  show ?thesis
    unfolding refines_def
  proof (intro conjI allI impI)
    show "keys (F2 w) = keys (F w)" if "w < f" for w using a(1,3) b(3) that by simp
    show "idem (comp_sub \<tau> \<sigma>)" by (rule idem_comp [OF p(1) b(4) a(5) b(5) p(2)])
    show "solved {..<f} K F (comp_sub \<tau> \<sigma>) K2 F2"
      by (rule solved_compose [OF ctx a(7,4) vars1 a(1) b(7,4)])
  qed (use a(1) b(1,2) fitting_comp [OF p(1) b(4)] vars adm in \<open>blast | simp\<close>)+
qed

text \<open>The valuations of a refined context that extend \<open>\<theta>\<close> and satisfy the equations of \<open>\<sigma>\<close>.\<close>

definition sols :: "kinding \<Rightarrow> fronts \<Rightarrow> nat \<Rightarrow> (type_var \<rightharpoonup> mono_type) \<Rightarrow> nat \<Rightarrow> valuation \<Rightarrow> valuation set" where
  "sols K' F' f' \<sigma> f \<theta> = {\<theta>'. admissible K' F' f' \<theta>' \<and> (\<forall>v < f. \<theta>' v = \<theta> v) \<and> models \<theta>' \<sigma>}"

lemma sols_compose:
  assumes r: "refines K F f V \<sigma> f1 K1 F1" "refines K1 F1 f1 V2 \<tau> f2 K2 F2"
    and V: "V \<subseteq> {..<f}" "V2 \<subseteq> (V \<union> {f..<f1}) - dom \<sigma>"
  shows "\<theta>2 \<in> sols K2 F2 f2 (comp_sub \<tau> \<sigma>) f \<theta> \<longleftrightarrow> (\<exists>\<theta>1 \<in> sols K1 F1 f1 \<sigma> f \<theta>. \<theta>2 \<in> sols K2 F2 f2 \<tau> f1 \<theta>1)"
proof -
  note p = refines_parts [OF r V]
  have mc: "models \<theta>2 (comp_sub \<tau> \<sigma>) \<longleftrightarrow> models \<theta>2 \<sigma> \<and> models \<theta>2 \<tau>"
    by (rule models_comp [OF p(1) refinesD(4) [OF r(2)]]) (use p(2) in blast)
  show ?thesis
  proof
    assume "\<theta>2 \<in> sols K2 F2 f2 (comp_sub \<tau> \<sigma>) f \<theta>"
    then show "\<exists>\<theta>1 \<in> sols K1 F1 f1 \<sigma> f \<theta>. \<theta>2 \<in> sols K2 F2 f2 \<tau> f1 \<theta>1"
      using mc refines_admissible_back [OF r(2)] by (intro bexI [of _ \<theta>2]) (auto simp: sols_def)
  next
    assume "\<exists>\<theta>1 \<in> sols K1 F1 f1 \<sigma> f \<theta>. \<theta>2 \<in> sols K2 F2 f2 \<tau> f1 \<theta>1"
    then obtain \<theta>1 where \<theta>1: "\<theta>1 \<in> sols K1 F1 f1 \<sigma> f \<theta>" "\<theta>2 \<in> sols K2 F2 f2 \<tau> f1 \<theta>1" by blast
    have "models \<theta>2 \<sigma>"
      by (rule models_agree [OF _ refines_vars [OF r(1) V(1)]]) (use \<theta>1 in \<open>auto simp: sols_def\<close>)
    then show "\<theta>2 \<in> sols K2 F2 f2 (comp_sub \<tau> \<sigma>) f \<theta>"
      using \<theta>1 mc refinesD(1) [OF r(1)] by (auto simp: sols_def)
  qed
qed

lemma mgu_refines: "mgu K F f V Sol \<sigma> f' K' F' \<Longrightarrow> refines K F f V \<sigma> f' K' F'"
  by (simp add: mgu_def)

lemma mgu_sols:
  assumes "mgu K F f V Sol \<sigma> f' K' F'" "admissible K F f \<theta>"
  shows "Sol \<theta> \<Longrightarrow> sols K' F' f' \<sigma> f \<theta> \<noteq> {}" "\<theta>' \<in> sols K' F' f' \<sigma> f \<theta> \<Longrightarrow> Sol \<theta>'"
  using mguD(10,11) [OF assms(1)] assms(2) by (auto simp: sols_def)

lemma mgu_compose:
  assumes ctx: "context_ok K F f" and V: "V \<subseteq> {..<f}"
    and m1: "mgu K F f V Sol1 \<sigma> f1 K1 F1"
    and m2: "mgu K1 F1 f1 V2 Sol2 \<tau> f2 K2 F2"
    and V2: "V2 \<subseteq> (V \<union> {f..<f1}) - dom \<sigma>"
    and Sol2: "\<And>\<theta>. models \<theta> \<sigma> \<Longrightarrow> Sol2 \<theta> = Sol2' \<theta>"
    and loc: "\<And>\<theta> \<theta>'. (\<And>v. v < f \<Longrightarrow> \<theta>' v = \<theta> v) \<Longrightarrow> Sol2' \<theta>' = Sol2' \<theta>"
  shows "mgu K F f V (\<lambda>\<theta>. Sol1 \<theta> \<and> Sol2' \<theta>) (comp_sub \<tau> \<sigma>) f2 K2 F2"
proof -
  note r = mgu_refines [OF m1] mgu_refines [OF m2]
  note a = mguD [OF m1] and b = mguD [OF m2] and p = refines_parts [OF r V V2]
  have fin: "finite V" using V finite_subset by blast
  have disd: "dom \<sigma> \<inter> dom \<tau> = {}" using p(2) by blast
  have sound: "Sol1 \<theta> \<and> Sol2' \<theta>" if "models \<theta> (comp_sub \<tau> \<sigma>)" for \<theta>
    using that models_comp [OF p(1) b(4) disd] a(10) b(10) Sol2 by blast
  have complete: "\<exists>\<theta>'. admissible K2 F2 f2 \<theta>' \<and> (\<forall>v < f. \<theta>' v = \<theta> v) \<and> models \<theta>' (comp_sub \<tau> \<sigma>)"
    if th: "admissible K F f \<theta>" "Sol1 \<theta> \<and> Sol2' \<theta>" for \<theta>
  proof -
    obtain \<theta>1 where \<theta>1: "\<theta>1 \<in> sols K1 F1 f1 \<sigma> f \<theta>" using mgu_sols(1) [OF m1 th(1)] th(2) by blast
    then have adm1: "admissible K1 F1 f1 \<theta>1" "models \<theta>1 \<sigma>" by (auto simp: sols_def)
    have "Sol2' \<theta>1 = Sol2' \<theta>" by (rule loc) (use \<theta>1 in \<open>simp add: sols_def\<close>)
    with Sol2 [OF adm1(2)] th(2) obtain \<theta>2 where "\<theta>2 \<in> sols K2 F2 f2 \<tau> f1 \<theta>1"
      using mgu_sols(1) [OF m2 adm1(1)] by blast
    with \<theta>1 have "\<theta>2 \<in> sols K2 F2 f2 (comp_sub \<tau> \<sigma>) f \<theta>" using sols_compose [OF r V V2] by blast
    then show ?thesis by (auto simp: sols_def)
  qed
  have card: "comp_sub \<tau> \<sigma> = Map.empty \<and> f2 = f \<or>
      card ((V \<union> {f..<f2}) - dom (comp_sub \<tau> \<sigma>)) < card V \<and>
      card ((V \<union> {f..<f2}) - dom (comp_sub \<tau> \<sigma>)) + f2 \<le> card V + f"
  proof (cases "\<tau> = Map.empty \<and> f2 = f1")
    case True
    have "dom (comp_sub \<tau> \<sigma>) = dom \<sigma>" using True by simp
    moreover have "comp_sub \<tau> \<sigma> = Map.empty" if "\<sigma> = Map.empty"
      using that True by (simp add: comp_sub_def fun_eq_iff)
    ultimately show ?thesis using a(12) True by auto
  next
    case False
    then have b12: "card ((V2 \<union> {f1..<f2}) - dom \<tau>) + (f2 - f1) \<le> card V2" using b(1,12) by linarith
    have D1: "dom \<sigma> \<inter> {f1..<f2} = {}" using refines_vars [OF r(1) V] by auto
    have Dt: "dom \<tau> \<subseteq> V2 \<union> {f1..<f2}" using b(6) by blast
    show ?thesis
    proof (cases "\<sigma> = Map.empty \<and> f1 = f")
      case True
      then have "V2 \<subseteq> V" using V2 by auto
      then have "mgu K1 F1 f1 V Sol2 \<tau> f2 K2 F2"
        using mgu_weaken_vars [OF m2 _] V True by blast
      from mguD(12) [OF this] False True show ?thesis by auto
    next
      case f: False
      have "card ((V \<union> {f..<f2}) - (dom \<sigma> \<union> dom \<tau>)) + (f2 - f1) \<le> card ((V \<union> {f..<f1}) - dom \<sigma>)"
        using card_compose [OF fin V2 Dt a(1) b(1) D1 b12] .
      moreover have "card ((V \<union> {f..<f1}) - dom \<sigma>) < card V"
        "card ((V \<union> {f..<f1}) - dom \<sigma>) + f1 \<le> card V + f" using a(12) f by blast+
      ultimately show ?thesis using a(1) b(1) unfolding dom_comp_sub by linarith
    qed
  qed
  show ?thesis
    unfolding mgu_def using refines_compose [OF ctx V r V2] sound complete card by blast
qed

end
