(* ===== verification/HM_Bindings.thy ===== *)
theory HM_Bindings
  imports HM_Mgu
begin

text \<open>The bindings the unifier makes, as most general solutions of the equations they stand for.\<close>

lemma context_okD:
  assumes "context_ok K F f" "v < f"
  shows "kinded_values K (F v)" "values_free_vars (F v) \<subseteq> {..<f}"
  using assms by (auto simp: context_ok_def)

lemma sub_values_empty [simp]: "sub_values Map.empty m = m"
  by (rule sub_id) simp

lemma idem_empty [simp]: "idem Map.empty"
  by (simp add: idem_def)

lemma range_vars_empty [simp]: "range_vars Map.empty = {}"
  by (simp add: range_vars_def)

lemma star_empty [simp]: "star \<theta> Map.empty = \<theta>"
  by (simp add: star_def fun_eq_iff)

lemma models_empty [simp]: "models \<theta> Map.empty"
  by (simp add: models_def)

lemma mgu_trivial:
  assumes "context_ok K F f" "\<And>\<theta>. Sol \<theta>"
  shows "mgu K F f V Sol Map.empty f K F"
proof -
  have "solved {..<f} K F Map.empty K F"
    by (rule solvedI) (use assms(1) in \<open>auto simp: context_ok_def\<close>)
  with assms show ?thesis unfolding mgu_def refines_def by auto
qed

lemma front_stable:
  assumes "fitting K \<sigma>" "front_vars K F w V" "V \<inter> dom \<sigma> = {}" "kinded_values K (F w)" "K w \<noteq> KType"
  shows "sim (F w) (sub_values \<sigma> (F w))"
proof -
  have "eval_values (star \<theta> \<sigma>) (F w) = eval_values \<theta> (F w)" for \<theta>
    by (rule front_varsD [OF assms(2,5)]) (use assms(3) in \<open>auto simp: star_def split: option.split\<close>)
  then show ?thesis using eval_sub(3) [OF assms(1,4)] by (simp add: sim_def)
qed

lemma fronts_stable:
  assumes "context_ok K F f" "fitting K' \<sigma>" "V \<subseteq> {..<f}" "V \<inter> dom \<sigma> = {}"
    and "\<And>w. w < f \<Longrightarrow> K' w = K w" "\<And>w. w < f \<Longrightarrow> F' w = sub_values \<sigma> (F w)"
    and "w \<in> V" "front_vars K F w V"
  shows "K' w = K w \<and> (K w \<noteq> KType \<longrightarrow> sim (F w) (F' w))"
proof -
  have "w < f" using assms(3,7) by auto
  note c = context_okD [OF assms(1) this]
  have "kinded_values K' (F w)" using sim_agree_kinded [OF c] assms(5) by simp
  moreover have "front_vars K' F w V"
    using assms(8) assms(5) [OF \<open>w < f\<close>] by (simp add: front_vars_def)
  ultimately have "sim (F w) (sub_values \<sigma> (F w))" if "K' w \<noteq> KType"
    using front_stable [OF assms(2) _ assms(4)] that by blast
  then show ?thesis using assms(5,6) [OF \<open>w < f\<close>] by simp
qed

lemma wf_values_stable:
  assumes "context_ok K F f" "fitting K' \<sigma>" "wf_values K F m" "values_free_vars m \<subseteq> {..<f}"
    and "values_free_vars m \<inter> dom \<sigma> = {}" "\<And>w. w < f \<Longrightarrow> K' w = K w" "\<And>w. w < f \<Longrightarrow> F' w = sub_values \<sigma> (F w)"
  shows "wf_values K' F' m"
  by (rule wf_agree(2) [OF _ subset_refl assms(3)])
    (rule fronts_stable [OF assms(1,2,4,5,6,7) _ wf_front_vars(2) [OF assms(3)]])

lemma wf_type_stable:
  assumes "context_ok K F f" "fitting K' \<sigma>" "wf_type K F t" "free_vars t \<subseteq> {..<f}"
    and "free_vars t \<inter> dom \<sigma> = {}" "\<And>w. w < f \<Longrightarrow> K' w = K w" "\<And>w. w < f \<Longrightarrow> F' w = sub_values \<sigma> (F w)"
  shows "wf_type K' F' t"
  by (rule wf_agree(1) [OF _ subset_refl assms(3)])
    (rule fronts_stable [OF assms(1,2,4,5,6,7) _ wf_front_vars(1) [OF assms(3)]])

lemma context_ok_sub:
  assumes "context_ok K F f" "fitting K' \<sigma>" "range_vars \<sigma> \<subseteq> {..<f'}" "f \<le> f'"
    and "\<And>w. w < f \<Longrightarrow> K' w = K w" "v < f"
  shows "kinded_values K' (sub_values \<sigma> (F v))" "values_free_vars (sub_values \<sigma> (F v)) \<subseteq> {..<f'}"
proof -
  note c = context_okD [OF assms(1,6)]
  have k: "kinded_values K' (F v)" using sim_agree_kinded [OF c] assms(5) by simp
  then show "kinded_values K' (sub_values \<sigma> (F v))" by (rule kinded_sub(3) [OF assms(2)])
  have "values_free_vars (F v) - dom \<sigma> \<subseteq> {..<f'}" using c(2) assms(4) by auto
  then have "(values_free_vars (F v) - dom \<sigma>) \<union> range_vars \<sigma> \<subseteq> {..<f'}" using assms(3) by (rule Un_least)
  with free_vars_sub_subset(3) [OF assms(2) k] show "values_free_vars (sub_values \<sigma> (F v)) \<subseteq> {..<f'}"
    by (rule order_trans)
qed

subsection \<open>A type variable\<close>

lemma mgu_bind:
  assumes ctx: "context_ok K F f" and v: "K v = KType" "v < f"
    and t: "wf_type K F t" "free_vars t \<subseteq> {..<f}" "v \<notin> free_vars t"
  shows "mgu K F f (insert v (free_vars t)) (\<lambda>\<theta>. \<theta> v = eval \<theta> t) [v \<mapsto> t] f K (\<lambda>w. sub_values [v \<mapsto> t] (F w))"
proof -
  let ?\<sigma> = "[v \<mapsto> t]" and ?F = "\<lambda>w. sub_values [v \<mapsto> t] (F w)"
  have fit: "fitting K ?\<sigma>" using v t wf_kinded(1) by (auto simp: fitting_def fits_def)
  have rv: "range_vars ?\<sigma> = free_vars t" by (simp add: range_vars_def)
  have idem: "idem ?\<sigma>" using t(3) rv by (simp add: idem_def)
  have wft: "wf_type K ?F t" by (rule wf_type_stable [OF ctx fit t(1,2)]) (use t(3) in auto)
  have "solved {..<f} K F ?\<sigma> K ?F"
    by (rule solvedI) (use ctx wft v in \<open>auto simp: context_ok_def split: if_splits\<close>)
  moreover have "context_ok K ?F f"
    using context_ok_sub [OF ctx fit, of f] rv t(2) by (simp add: context_ok_def)
  moreover have "admissible K ?F f (star \<theta> ?\<sigma>)" if "admissible K ?F f \<theta>" for \<theta>
    using that v by (simp add: admissible_def admissible_at_def star_def)
  moreover have "\<theta> v = eval \<theta> t" if "models \<theta> ?\<sigma>" for \<theta> using that by (simp add: models_def)
  moreover have "admissible K ?F f \<theta>" if "admissible K F f \<theta>" for \<theta>
    using that by (simp add: admissible_def admissible_at_def)
  moreover have "models \<theta> ?\<sigma>" if "\<theta> v = eval \<theta> t" for \<theta> using that by (simp add: models_def)
  moreover have "card (insert v (free_vars t) \<union> {f..<f} - dom ?\<sigma>) < card (insert v (free_vars t))"
    using t(3) by simp
  ultimately show ?thesis
    unfolding mgu_def refines_def using fit idem rv by simp blast
qed

subsection \<open>Row variables\<close>

definition mk_row :: "vkind \<Rightarrow> row_fields_map \<Rightarrow> type_var option \<Rightarrow> mono_type" where
  "mk_row k G rt = (if k = KRow then Record (from_map G rt) else EffectRow (Effect_Row G rt))"

definition mk_val :: "vkind \<Rightarrow> (string, gtype) fmap \<Rightarrow> gtype" where
  "mk_val k m = (if k = KRow then GRecord m else GEffect m)"

lemma row_part_mk_row: "k \<noteq> KType \<Longrightarrow> row_part k (mk_row k G rt) = Some (G, rt)"
  by (cases k) (auto simp: mk_row_def)

lemma free_vars_mk_row [simp]: "free_vars (mk_row k G rt) = values_free_vars G \<union> set_option rt"
  by (simp add: mk_row_def row_free_vars_parts)

lemma eval_mk_row: "eval \<theta> (mk_row k G rt) = mk_val k (tail_val \<theta> rt ++\<^sub>f eval_values \<theta> G)"
  by (simp add: mk_row_def mk_val_def eval_row_parts)

lemma gfields_mk_val [simp]: "gfields (mk_val k m) = m"
  by (simp add: mk_val_def)

lemma is_val_mk_val: "k \<noteq> KType \<Longrightarrow> is_val k (mk_val k m)"
  by (cases k) (auto simp: mk_val_def)

lemma is_val_iff: "k \<noteq> KType \<Longrightarrow> is_val k g \<longleftrightarrow> g = mk_val k (gfields g)"
  by (cases k) (auto simp: mk_val_def)

lemma fits_mk_row:
  assumes "K v = k" "k \<noteq> KType" "kinded_values K G" "sorted_keys G" "\<forall>r \<in> set_option rt. K r = k"
  shows "fits K v (mk_row k G rt)"
  using assms by (simp add: fits_def row_part_mk_row)

lemma mgu_close:
  assumes ctx: "context_ok K F f" and a: "K a = k" "k \<noteq> KType" "a < f"
    and G: "wf_values K F G" "sorted_keys G" "values_free_vars G \<subseteq> {..<f}" "a \<notin> values_free_vars G"
    and dis: "keys (F a) \<inter> keys G = {}"
  shows "mgu K F f (insert a (values_free_vars G)) (\<lambda>\<theta>. \<theta> a = eval \<theta> (mk_row k G None))
    [a \<mapsto> mk_row k G None] f K (\<lambda>w. sub_values [a \<mapsto> mk_row k G None] (F w))"
proof -
  let ?\<sigma> = "[a \<mapsto> mk_row k G None]" and ?F = "\<lambda>w. sub_values [a \<mapsto> mk_row k G None] (F w)"
  have fit: "fitting K ?\<sigma>"
    using fits_mk_row [of K a k G None] a G wf_kinded(2) [OF G(1)] by (simp add: fitting_def)
  have rv: "range_vars ?\<sigma> = values_free_vars G" by (simp add: range_vars_def)
  have idem: "idem ?\<sigma>" using G(4) rv by (simp add: idem_def)
  have wfG: "wf_values K ?F G" by (rule wf_values_stable [OF ctx fit G(1,3)]) (use G(4) in auto)
  have tb: "tail_binding K ?F k (?F a) (mk_row k G None)"
    unfolding tail_binding_def keys_sub_values
    using row_part_mk_row [OF a(2)] wfG G(2) dis sorted_keys_distinct [OF G(2)] by (auto simp: fronted_def)
  have "solved {..<f} K F ?\<sigma> K ?F"
    by (rule solvedI) (use ctx tb a in \<open>auto simp: context_ok_def split: if_splits\<close>)
  moreover have "context_ok K ?F f"
    using context_ok_sub [OF ctx fit, of f] rv G(3) by (simp add: context_ok_def)
  moreover have "admissible K ?F f (star \<theta> ?\<sigma>)" if "admissible K ?F f \<theta>" for \<theta>
    using that a dis is_val_mk_val
    by (auto simp: admissible_def admissible_at_def star_def eval_mk_row Int_commute)
  moreover have "\<theta> a = eval \<theta> (mk_row k G None)" if "models \<theta> ?\<sigma>" for \<theta> using that by (simp add: models_def)
  moreover have "admissible K ?F f \<theta>" if "admissible K F f \<theta>" for \<theta>
    using that by (simp add: admissible_def admissible_at_def)
  moreover have "models \<theta> ?\<sigma>" if "\<theta> a = eval \<theta> (mk_row k G None)" for \<theta> using that by (simp add: models_def)
  moreover have "card (insert a (values_free_vars G) \<union> {f..<f} - dom ?\<sigma>) < card (insert a (values_free_vars G))"
    using G(4) by simp
  ultimately show ?thesis
    unfolding mgu_def refines_def using fit idem rv by simp blast
qed


lemma drop_extras:
  assumes "fmdom' (m ++\<^sub>f x) \<inter> A = {}" "fmdom' x = X" "A \<union> X = B \<union> Y"
    and "fmdom' (m ++\<^sub>f y) \<inter> B = {}" "fmdom' y = Y"
  defines "m' \<equiv> fmdrop_set (X \<union> Y) m"
  shows "m' ++\<^sub>f x = m ++\<^sub>f x" "m' ++\<^sub>f y = m ++\<^sub>f y" "fmdom' m' \<inter> (A \<union> X) = {}"
proof -
  have none: "fmlookup m p = None" if "p \<in> A" for p
    using assms(1) that by (metis Un_iff disjoint_iff fmdom'_add fmdom'_notD)
  have none': "fmlookup m p = None" if "p \<in> B" for p
    using assms(4) that by (metis Un_iff disjoint_iff fmdom'_add fmdom'_notD)
  have X: "p |\<in>| fmdom x \<longleftrightarrow> p \<in> X" and Y: "p |\<in>| fmdom y \<longleftrightarrow> p \<in> Y" for p
    using assms(2,5) by (simp_all add: fmdom'_alt_def flip: assms(2,5))
  have YX: "fmlookup m p = None" if "p \<in> Y" "p \<notin> X" for p using assms(3) none that by blast
  have XY: "fmlookup m p = None" if "p \<in> X" "p \<notin> Y" for p using assms(3) none' that by blast
  show "m' ++\<^sub>f x = m ++\<^sub>f x"
    by (rule fmap_ext) (auto simp: m'_def X YX)
  show "m' ++\<^sub>f y = m ++\<^sub>f y"
    by (rule fmap_ext) (auto simp: m'_def Y XY)
  show "fmdom' m' \<inter> (A \<union> X) = {}"
    using none by (auto simp: m'_def fmlookup_dom'_iff)
qed

lemma mgu_link:
  assumes ctx: "context_ok K F f" and k: "k \<noteq> KType"
    and ab: "K a = k" "K b = k" "a < f" "b < f" "a \<noteq> b"
    and GA: "wf_values K F GA" "sorted_keys GA" "values_free_vars GA \<subseteq> {..<f}" "keys (F b) \<inter> keys GA = {}"
    and GB: "wf_values K F GB" "sorted_keys GB" "values_free_vars GB \<subseteq> {..<f}" "keys (F a) \<inter> keys GB = {}"
    and occ: "{a, b} \<inter> (values_free_vars GA \<union> values_free_vars GB) = {}"
    and sim: "sim (F a @ GB) (F b @ GA)"
  defines "\<sigma> \<equiv> [a \<mapsto> mk_row k GB (Some f), b \<mapsto> mk_row k GA (Some f)]"
  shows "\<exists>K' F'. mgu K F f ({a, b} \<union> values_free_vars GA \<union> values_free_vars GB)
    (\<lambda>\<theta>. \<exists>m. \<theta> a = mk_val k (m ++\<^sub>f eval_values \<theta> GB) \<and> \<theta> b = mk_val k (m ++\<^sub>f eval_values \<theta> GA))
    \<sigma> (Suc f) K' F'"
proof -
  define K' where "K' = K(f := k)"
  define F' where "F' = (\<lambda>w. if w = f then sub_values \<sigma> (F a) @ GB else sub_values \<sigma> (F w))"
  let ?V = "{a, b} \<union> values_free_vars GA \<union> values_free_vars GB"
  have dom: "dom \<sigma> = {a, b}" by (auto simp: \<sigma>_def)
  have rv: "range_vars \<sigma> = insert f (values_free_vars GA \<union> values_free_vars GB)"
    using ab by (auto simp: range_vars_def \<sigma>_def)
  have K': "K' w = K w" if "w < f" for w using that by (simp add: K'_def)
  have F': "F' w = sub_values \<sigma> (F w)" if "w < f" for w using that by (simp add: F'_def)
  have kG: "kinded_values K' GA" "kinded_values K' GB"
    using sim_agree_kinded [OF wf_kinded(2) [OF GA(1)] GA(3), of K']
      sim_agree_kinded [OF wf_kinded(2) [OF GB(1)] GB(3), of K'] K' by simp_all
  have fit: "fitting K' \<sigma>"
    using fits_mk_row [of K' a k GB "Some f"] fits_mk_row [of K' b k GA "Some f"] kG k ab GA(2) GB(2) K'
    by (auto simp: fitting_def \<sigma>_def K'_def)
  have idem: "idem \<sigma>" using occ ab by (auto simp: idem_def dom rv)
  have subG: "sub_values \<sigma> GA = GA" "sub_values \<sigma> GB = GB"
    using occ by (intro sub_id; simp add: dom)+
  have wfG: "wf_values K' F' GA" "wf_values K' F' GB"
    using wf_values_stable [OF ctx fit GA(1,3), of F'] wf_values_stable [OF ctx fit GB(1,3), of F'] occ K' F'
    by (auto simp: dom)
  have kF: "kinded_values K' (F w)" if "w < f" for w
    using sim_agree_kinded [OF context_okD [OF ctx that]] K' by simp
  have simf: "sim (sub_values \<sigma> (F b) @ GA) (F' f)"
  proof -
    have "sim (sub_values \<sigma> (F a @ GB)) (sub_values \<sigma> (F b @ GA))"
      by (rule sim_sub_values [OF fit]) (use kF ab kG sim in \<open>auto simp: kinded_values_iff\<close>)
    then show ?thesis using sim_sym by (simp add: F'_def subG)
  qed
  have keysf: "keys (F' f) = keys (F a) \<union> keys GB" "keys (F' f) = keys (F b) \<union> keys GA"
    using sim_keys [OF simf] by (simp_all add: F'_def image_Un)
  have tba: "tail_binding K' F' k (sub_values \<sigma> (F a)) (mk_row k GB (Some f))"
    unfolding tail_binding_def keys_sub_values
    using row_part_mk_row [OF k] wfG(2) GB(2,4) sorted_keys_distinct [OF GB(2)]
    by (intro exI [of _ GB] exI [of _ "Some f"]) (simp add: fronted_def K'_def F'_def)
  have tbb: "tail_binding K' F' k (sub_values \<sigma> (F b)) (mk_row k GA (Some f))"
    unfolding tail_binding_def keys_sub_values
    using row_part_mk_row [OF k] wfG(1) GA(2,4) sorted_keys_distinct [OF GA(2)] simf
    by (intro exI [of _ GA] exI [of _ "Some f"]) (simp add: fronted_def K'_def)
  have solved: "solved {..<f} K F \<sigma> K' F'"
  proof (rule solvedI)
    fix w
    assume w: "w \<in> {..<f}"
    then show "K' w = K w \<and> kinded_values K' (F w)" using K' kF by simp
    show "sim (sub_values \<sigma> (F w)) (F' w)" using w F' by simp
    fix u
    assume "\<sigma> w = Some u"
    then have "w = a \<and> u = mk_row k GB (Some f) \<or> w = b \<and> u = mk_row k GA (Some f)"
      by (auto simp: \<sigma>_def split: if_splits)
    then show "K w = KType \<Longrightarrow> wf_type K' F' u"
      "K w \<noteq> KType \<Longrightarrow> tail_binding K' F' (K w) (sub_values \<sigma> (F w)) u"
      using ab k tba tbb by auto
  qed
  have ctx': "context_ok K' F' (Suc f)"
  proof -
    have r: "range_vars \<sigma> \<subseteq> {..<Suc f}" using rv GA(3) GB(3) by auto
    have "kinded_values K' (F' w) \<and> values_free_vars (F' w) \<subseteq> {..<Suc f}" if "w < f" for w
      using context_ok_sub [OF ctx fit r _ K' that] F' [OF that] by simp
    moreover have "kinded_values K' (F' f) \<and> values_free_vars (F' f) \<subseteq> {..<Suc f}"
      using context_ok_sub [OF ctx fit r _ K' ab(3)] kG(2) GB(3) by (auto simp: F'_def kinded_values_iff)
    ultimately show ?thesis by (auto simp: context_ok_def less_Suc_eq)
  qed
  have adm: "admissible K' F' (Suc f) (star \<theta> \<sigma>)" if th: "admissible K' F' (Suc f) \<theta>" for \<theta>
    unfolding admissible_def
  proof (intro allI impI)
    fix v
    assume v: "v < Suc f"
    have f: "fmdom' (gfields (\<theta> f)) \<inter> keys (F' f) = {}"
      using th k by (auto simp: admissible_def admissible_at_def K'_def)
    consider "v = a" | "v = b" | "v \<notin> {a, b}" by blast
    then show "admissible_at K' F' v (star \<theta> \<sigma> v)"
    proof cases
      case 1
      then show ?thesis
        using ab k GB(4) f keysf(1) K' F' is_val_mk_val [OF k]
        by (auto simp: admissible_at_def star_def \<sigma>_def eval_mk_row)
    next
      case 2
      then show ?thesis
        using ab k GA(4) f keysf(2) K' F' is_val_mk_val [OF k]
        by (auto simp: admissible_at_def star_def \<sigma>_def eval_mk_row)
    next
      case 3
      then have "star \<theta> \<sigma> v = \<theta> v" by (auto simp: star_def \<sigma>_def)
      then show ?thesis using th v by (simp add: admissible_def)
    qed
  qed
  have sound: "\<exists>m. \<theta> a = mk_val k (m ++\<^sub>f eval_values \<theta> GB) \<and> \<theta> b = mk_val k (m ++\<^sub>f eval_values \<theta> GA)"
    if "models \<theta> \<sigma>" for \<theta>
    using that ab(5) by (intro exI [of _ "gfields (\<theta> f)"]) (simp add: models_def \<sigma>_def eval_mk_row)
  have complete: "\<exists>\<theta>'. admissible K' F' (Suc f) \<theta>' \<and> (\<forall>v < f. \<theta>' v = \<theta> v) \<and> models \<theta>' \<sigma>"
    if th: "admissible K F f \<theta>" and m: "\<theta> a = mk_val k (m ++\<^sub>f eval_values \<theta> GB)" "\<theta> b = mk_val k (m ++\<^sub>f eval_values \<theta> GA)"
    for \<theta> m
  proof -
    define m' where "m' = fmdrop_set (keys GB \<union> keys GA) m"
    have "fmdom' (m ++\<^sub>f eval_values \<theta> GB) \<inter> keys (F a) = {}" "fmdom' (m ++\<^sub>f eval_values \<theta> GA) \<inter> keys (F b) = {}"
      using th m ab k by (metis admissible_at_def admissible_def gfields_mk_val)+
    note d = drop_extras [OF this(1) dom_eval_values _ this(2) dom_eval_values, folded m'_def]
    have eq: "keys (F a) \<union> keys GB = keys (F b) \<union> keys GA" using keysf by simp
    define \<theta>' where "\<theta>' = \<theta>(f := mk_val k m')"
    have agree: "eval_values \<theta>' GA = eval_values \<theta> GA" "eval_values \<theta>' GB = eval_values \<theta> GB"
      using GA(3) GB(3) by (auto intro!: eval_agree simp: \<theta>'_def)
    have "models \<theta>' \<sigma>"
      unfolding models_def \<sigma>_def
      using ab m agree d(1,2) [OF eq] by (auto simp: eval_mk_row \<theta>'_def split: if_splits)
    moreover have "admissible K' F' (Suc f) \<theta>'"
      using th k d(3) [OF eq] keysf(1) K' F' is_val_mk_val [OF k, of m']
      by (auto simp: admissible_def admissible_at_def \<theta>'_def less_Suc_eq K'_def)
    ultimately show ?thesis by (intro exI [of _ \<theta>']) (simp add: \<theta>'_def)
  qed
  have card: "card (?V \<union> {f..<Suc f} - dom \<sigma>) < card ?V"
  proof -
    have "f \<notin> ?V" using ab GA(3) GB(3) by auto
    have "?V \<union> {f..<Suc f} - dom \<sigma> = insert f (?V - {a, b})" using ab by (auto simp: dom)
    moreover have "card (insert f (?V - {a, b})) = Suc (card (?V - {a, b}))" using \<open>f \<notin> ?V\<close> by simp
    moreover have "card (?V - {a, b}) + 2 = card ?V"
    proof -
      have "card {a, b} = 2" using ab(5) by simp
      moreover have "card {a, b} \<le> card ?V" by (rule card_mono) auto
      ultimately show ?thesis using card_Diff_subset [of "{a, b}" ?V] by auto
    qed
    ultimately show ?thesis by simp
  qed
  then have card': "card (?V \<union> {f..<Suc f} - dom \<sigma>) + Suc f \<le> card ?V + f" by simp
  have "mgu K F f ?V (\<lambda>\<theta>. \<exists>m. \<theta> a = mk_val k (m ++\<^sub>f eval_values \<theta> GB) \<and> \<theta> b = mk_val k (m ++\<^sub>f eval_values \<theta> GA))
    \<sigma> (Suc f) K' F'"
    unfolding mgu_def refines_def
  proof (intro conjI allI impI)
    show "keys (F' w) = keys (F w)" if "w < f" for w using F' that by simp
    show "dom \<sigma> \<union> range_vars \<sigma> \<subseteq> ?V \<union> {f..<Suc f}" using dom rv by auto
  qed (use ctx' fit idem solved adm sound complete card card' in \<open>blast | simp\<close>)+
  then show ?thesis by blast
qed

end
