(* ===== verification/HM_Runs.thy ===== *)
theory HM_Runs
  imports HM_Bindings
begin

text \<open>
  Runs with enough depth: a family of runs, one for each depth, settles when from some depth on its
  outcome no longer changes and is not a timeout.  What the unifier promises of the outcome it
  settles on is \<open>unifies\<close>.
\<close>

definition settles :: "(nat \<Rightarrow> 'r outcome) \<Rightarrow> 'r outcome \<Rightarrow> bool" where
  "settles g r \<longleftrightarrow> r \<noteq> Timeout \<and> (\<exists>N. \<forall>n \<ge> N. g n = r)"

lemma settlesI: "r \<noteq> Timeout \<Longrightarrow> (\<And>n. n \<ge> N \<Longrightarrow> g n = r) \<Longrightarrow> settles g r"
  by (auto simp: settles_def)

lemma settles_cong: "(\<And>n. n \<ge> N \<Longrightarrow> g n = h n) \<Longrightarrow> settles h r \<Longrightarrow> settles g r"
  unfolding settles_def by (metis le_trans nat_le_linear)

lemma settles_bind:
  assumes "settles g r" "settles h r'" "\<And>n. g n = r \<Longrightarrow> h n = r' \<Longrightarrow> k n = r'"
  shows "settles k r'"
proof -
  obtain N M where "\<forall>n \<ge> N. g n = r" "\<forall>n \<ge> M. h n = r'" using assms(1,2) by (auto simp: settles_def)
  then have "\<And>n. n \<ge> max N M \<Longrightarrow> k n = r'" using assms(3) by simp
  with assms(2) show ?thesis by (intro settlesI [of _ "max N M"]) (auto simp: settles_def)
qed

lemma settles_Suc: "settles (\<lambda>n. g (Suc n)) r \<Longrightarrow> settles g r"
proof -
  assume "settles (\<lambda>n. g (Suc n)) r"
  then obtain N where "r \<noteq> Timeout" "\<forall>n \<ge> N. g (Suc n) = r" by (auto simp: settles_def)
  then have "\<forall>n \<ge> Suc N. g n = r" by (metis Suc_le_D Suc_le_mono)
  with \<open>r \<noteq> Timeout\<close> show ?thesis by (auto simp: settles_def)
qed

lemma settles_done [simp]: "settles (\<lambda>n. Done x) (Done x)" "settles (\<lambda>n. Panic) Panic"
  by (auto simp: settles_def)

lemma settles_try:
  assumes "settles (\<lambda>n. m n f) (Done (Inr x, f'))" "settles (\<lambda>n. k n x f') r"
  shows "settles (\<lambda>n. hm_try (m n) (k n) f) r"
  by (rule settles_bind [OF assms]) (simp add: hm_try_def)

lemma settles_try_error:
  assumes "settles (\<lambda>n. m n f) (Done (Inl e, f'))"
  shows "settles (\<lambda>n. hm_try (m n) (k n) f) (Done (Inl e, f'))"
  by (rule settles_bind [OF assms settles_done(1)]) (simp add: hm_try_def)

lemma settles_try_panic:
  assumes "settles (\<lambda>n. m n f) Panic"
  shows "settles (\<lambda>n. hm_try (m n) (k n) f) Panic"
  by (rule settles_bind [OF assms settles_done(2)]) (simp add: hm_try_def)

lemma settles_lift:
  assumes "\<And>d. g (Suc d) = Some x"
  shows "settles (\<lambda>n. hm_lift (g n) f) (Done (Inr x, f))"
proof (rule settlesI [of _ 1])
  fix n :: nat
  assume "n \<ge> 1"
  then obtain d where "n = Suc d" by (cases n) auto
  then show "hm_lift (g n) f = Done (Inr x, f)" using assms by (simp add: hm_lift_def)
qed simp

lemma settles_lift_try:
  assumes "\<And>d. g (Suc d) = Some x" "settles (\<lambda>n. k n x f) r"
  shows "settles (\<lambda>n. hm_try (hm_lift (g n)) (k n) f) r"
  by (rule settles_try [where m = "\<lambda>n. hm_lift (g n)" and f = f and x = x and f' = f, OF settles_lift [of g x, OF assms(1)]])
    (rule assms(2))

lemma fresh_cases: "fresh f = (Done (Inr f, Suc f) :: (('e + nat) \<times> nat) outcome) \<or> fresh f = (Panic :: (('e + nat) \<times> nat) outcome)"
  by (simp add: fresh_def)

lemma hm_simps [simp]:
  "hm_try (hm_return x) k = k x"
  "hm_try (hm_error e) k = hm_error e"
  "hm_return x f = Done (Inr x, f)"
  "hm_error e f = Done (Inl e, f)"
  by (simp_all add: hm_try_def hm_return_def hm_error_def fun_eq_iff)

section \<open>What the unifier promises\<close>

definition unifies :: "kinding \<Rightarrow> fronts \<Rightarrow> nat \<Rightarrow> type_var set \<Rightarrow> (valuation \<Rightarrow> bool) \<Rightarrow>
    (('e + substitution) \<times> nat) outcome \<Rightarrow> bool" where
  "unifies K F f V Sol r \<longleftrightarrow>
     (case r of
        Timeout \<Rightarrow> False
      | Panic \<Rightarrow> True
      | Done (Inl e, f') \<Rightarrow> f \<le> f' \<and> (\<forall>\<theta>. admissible K F f \<theta> \<longrightarrow> \<not> Sol \<theta>)
      | Done (Inr s, f') \<Rightarrow> sorted_keys s \<and> (\<exists>K' F'. mgu K F f V Sol (map_of s) f' K' F'))"

definition unifier_ok :: "(nat \<Rightarrow> ('e, substitution) hm) \<Rightarrow> kinding \<Rightarrow> fronts \<Rightarrow> nat \<Rightarrow> type_var set \<Rightarrow>
    (valuation \<Rightarrow> bool) \<Rightarrow> bool" where
  "unifier_ok g K F f V Sol \<longleftrightarrow> (\<exists>r. settles (\<lambda>n. g n f) r \<and> unifies K F f V Sol r)"

lemma unifies_simps [simp]:
  "unifies K F f V Sol Panic"
  "unifies K F f V Sol (Done (Inl e, f')) \<longleftrightarrow> f \<le> f' \<and> (\<forall>\<theta>. admissible K F f \<theta> \<longrightarrow> \<not> Sol \<theta>)"
  "unifies K F f V Sol (Done (Inr s, f')) \<longleftrightarrow> sorted_keys s \<and> (\<exists>K' F'. mgu K F f V Sol (map_of s) f' K' F')"
  "\<not> unifies K F f V Sol Timeout"
  by (simp_all add: unifies_def)

lemma unifier_okE:
  assumes "unifier_ok g K F f V Sol"
  obtains (panic) "settles (\<lambda>n. g n f) Panic"
    | (error) e f' where "settles (\<lambda>n. g n f) (Done (Inl e, f'))" "f \<le> f'" "\<And>\<theta>. admissible K F f \<theta> \<Longrightarrow> \<not> Sol \<theta>"
    | (success) s f' K' F' where "settles (\<lambda>n. g n f) (Done (Inr s, f'))" "sorted_keys s"
        "mgu K F f V Sol (map_of s) f' K' F'"
proof -
  obtain r where r: "settles (\<lambda>n. g n f) r" "unifies K F f V Sol r"
    using assms by (auto simp: unifier_ok_def)
  show thesis
  proof (cases r)
    case (Done x)
    obtain y f' where "x = (y, f')" by (cases x)
    with r Done that(2,3) show thesis by (cases y) auto
  qed (use r that(1) in auto)
qed

lemma unifies_consequence:
  assumes "unifies K F f V Sol r" "\<And>\<theta>. Sol \<theta> \<Longrightarrow> Sol' \<theta>"
    and "\<And>\<theta>. admissible K F f \<theta> \<Longrightarrow> Sol' \<theta> \<Longrightarrow> Sol \<theta>"
  shows "unifies K F f V Sol' r"
proof (cases r)
  case (Done x)
  obtain y f' where x: "x = (y, f')" by (cases x)
  show ?thesis
  proof (cases y)
    case (Inl e)
    with assms Done x show ?thesis by auto
  next
    case (Inr s)
    with assms(1) Done x obtain K' F' where m: "sorted_keys s" "mgu K F f V Sol (map_of s) f' K' F'" by auto
    have "mgu K F f V Sol' (map_of s) f' K' F'" by (rule mgu_consequence [OF m(2) assms(2,3)])
    with m(1) Done x Inr show ?thesis by auto
  qed
qed (use assms in auto)

lemma unifies_weaken_vars: "unifies K F f V Sol r \<Longrightarrow> V \<subseteq> W \<Longrightarrow> W \<subseteq> {..<f} \<Longrightarrow> unifies K F f W Sol r"
  by (auto simp: unifies_def mgu_weaken_vars split: outcome.splits prod.splits sum.splits) (metis mgu_weaken_vars)

lemma unifier_ok_consequence:
  assumes "unifier_ok g K F f V Sol" "\<And>\<theta>. Sol \<theta> \<Longrightarrow> Sol' \<theta>"
    and "\<And>\<theta>. admissible K F f \<theta> \<Longrightarrow> Sol' \<theta> \<Longrightarrow> Sol \<theta>"
  shows "unifier_ok g K F f V Sol'"
proof -
  obtain r where "settles (\<lambda>n. g n f) r" "unifies K F f V Sol r" using assms(1) by (auto simp: unifier_ok_def)
  moreover have "unifies K F f V Sol' r" by (rule unifies_consequence [OF calculation(2) assms(2,3)])
  ultimately show ?thesis unfolding unifier_ok_def by blast
qed

lemma unifier_ok_weaken_vars: "unifier_ok g K F f V Sol \<Longrightarrow> V \<subseteq> W \<Longrightarrow> W \<subseteq> {..<f} \<Longrightarrow> unifier_ok g K F f W Sol"
  unfolding unifier_ok_def using unifies_weaken_vars by blast

text \<open>Running one unifier and then, on success, the rest.\<close>

lemma unifier_try:
  assumes "unifier_ok g K F f V Sol1" "\<And>\<theta>. Sol \<theta> \<Longrightarrow> Sol1 \<theta>"
    and "\<And>s f1 K1 F1. sorted_keys s \<Longrightarrow> mgu K F f V Sol1 (map_of s) f1 K1 F1 \<Longrightarrow>
      \<exists>r. settles (\<lambda>n. k n s f1) r \<and> unifies K F f W Sol r"
  shows "unifier_ok (\<lambda>n. hm_try (g n) (k n)) K F f W Sol"
  using assms(1)
proof (cases rule: unifier_okE)
  case panic
  show ?thesis
    unfolding unifier_ok_def using settles_try_panic [where m = g and f = f and k = k, OF panic] by (intro exI [of _ Panic]) simp
next
  case (error e f')
  show ?thesis
    unfolding unifier_ok_def using settles_try_error [where m = g and f = f and k = k, OF error(1)] error(2,3) assms(2)
    by (intro exI [of _ "Done (Inl e, f')"]) auto
next
  case (success s f' K' F')
  with assms(3) obtain r where "settles (\<lambda>n. k n s f') r" "unifies K F f W Sol r" by blast
  with settles_try [where m = g and f = f and k = k, OF success(1)] show ?thesis unfolding unifier_ok_def by blast
qed

text \<open>A second unifier on the refined problem, followed by the composition of the two results.\<close>

lemma compose_settles:
  assumes s: "sorted_keys s" "sorted_keys t" and V: "V \<subseteq> {..<f}"
    and r1: "refines K F f V (map_of s) f1 K1 F1" and r2: "refines K1 F1 f1 V2 (map_of t) f2 K2 F2"
    and V2: "V2 \<subseteq> (V \<union> {f..<f1}) - dom (map_of s)"
  obtains out where "\<And>d. subst_compose (Suc d) t s = Some out" "sorted_keys out"
    "map_of out = comp_sub (map_of t) (map_of s)"
proof -
  note b = refinesD [OF r2] and p = refines_parts [OF r1 r2 V V2]
  have ex: "\<exists>out. subst_compose (Suc d) t s = Some out \<and> map_of out = comp_sub (map_of t) (map_of s) \<and> sorted_keys out" for d
    by (rule subst_compose_sub [OF b(4,5) p(1) s(2,1)]) (use p(2) in blast)
  then obtain out where out: "subst_compose (Suc 0) t s = Some out" "map_of out = comp_sub (map_of t) (map_of s)" "sorted_keys out"
    by blast
  moreover have "subst_compose (Suc d) t s = Some out" for d
    using ex [of d] out sorted_keys_ext by metis
  ultimately show thesis using that by blast
qed

lemma second_fails:
  assumes m1: "mgu K F f V Sol1 \<sigma> f1 K1 F1"
    and fails: "\<And>\<theta>. admissible K1 F1 f1 \<theta> \<Longrightarrow> \<not> Sol2 \<theta>"
    and Sol2: "\<And>\<theta>. models \<theta> \<sigma> \<Longrightarrow> Sol2' \<theta> \<Longrightarrow> Sol2 \<theta>"
    and loc: "\<And>\<theta> \<theta>'. (\<And>v. v < f \<Longrightarrow> \<theta>' v = \<theta> v) \<Longrightarrow> Sol2' \<theta>' = Sol2' \<theta>"
    and adm: "admissible K F f \<theta>"
  shows "\<not> (Sol1 \<theta> \<and> Sol2' \<theta>)"
proof
  assume s: "Sol1 \<theta> \<and> Sol2' \<theta>"
  with mguD(11) [OF m1 adm] obtain \<theta>1 where
    \<theta>1: "admissible K1 F1 f1 \<theta>1" "\<forall>v < f. \<theta>1 v = \<theta> v" "models \<theta>1 \<sigma>" by blast
  have "Sol2' \<theta>1 = Sol2' \<theta>" by (rule loc) (use \<theta>1(2) in simp)
  then have "Sol2 \<theta>1" using Sol2 [OF \<theta>1(3)] s by simp
  with fails [OF \<theta>1(1)] show False by simp
qed

lemma unifies_compose:
  assumes ctx: "context_ok K F f" and V: "V \<subseteq> {..<f}" and s: "sorted_keys s"
    and m1: "mgu K F f V Sol1 (map_of s) f1 K1 F1"
    and V2: "V2 \<subseteq> (V \<union> {f..<f1}) - dom (map_of s)"
    and Sol2: "\<And>\<theta>. models \<theta> (map_of s) \<Longrightarrow> Sol2 \<theta> = Sol2' \<theta>"
    and loc: "\<And>\<theta> \<theta>'. (\<And>v. v < f \<Longrightarrow> \<theta>' v = \<theta> v) \<Longrightarrow> Sol2' \<theta>' = Sol2' \<theta>"
    and u2: "unifier_ok g K1 F1 f1 V2 Sol2"
    and rest: "\<And>out f2 K2 F2. sorted_keys out \<Longrightarrow> mgu K F f V (\<lambda>\<theta>. Sol1 \<theta> \<and> Sol2' \<theta>) (map_of out) f2 K2 F2 \<Longrightarrow>
      \<exists>r. settles (\<lambda>n. k n out f2) r \<and> unifies K F f V Sol r"
    and Sol: "\<And>\<theta>. Sol \<theta> \<Longrightarrow> Sol1 \<theta> \<and> Sol2' \<theta>"
  shows "\<exists>r. settles (\<lambda>n. hm_try (g n) (\<lambda>t. hm_try (hm_lift (subst_compose n t s)) (k n)) f1) r \<and> unifies K F f V Sol r"
  using u2
proof (cases rule: unifier_okE)
  case panic
  show ?thesis
    using settles_try_panic [where m = g and f = f1, OF panic] by (intro exI [of _ Panic]) simp
next
  case (error e f')
  have "\<not> Sol \<theta>" if "admissible K F f \<theta>" for \<theta>
  proof -
    have "\<not> (Sol1 \<theta> \<and> Sol2' \<theta>)"
      by (rule second_fails [OF m1 error(3) _ loc that]) (auto intro: Sol2 [THEN iffD2])
    with Sol show ?thesis by blast
  qed
  moreover have "f \<le> f'" using mguD(1) [OF m1] error(2) by simp
  ultimately show ?thesis
    using settles_try_error [where m = g and f = f1, OF error(1)]
    by (intro exI [of _ "Done (Inl e, f')"]) simp
next
  case (success t f2 K2 F2)
  obtain out where out: "\<And>d. subst_compose (Suc d) t s = Some out" "sorted_keys out"
    "map_of out = comp_sub (map_of t) (map_of s)"
    using compose_settles [OF s success(2) V mgu_refines [OF m1] mgu_refines [OF success(3)] V2] by blast
  have "mgu K F f V (\<lambda>\<theta>. Sol1 \<theta> \<and> Sol2' \<theta>) (map_of out) f2 K2 F2"
    unfolding out(3) by (rule mgu_compose [OF ctx V m1 success(3) V2 Sol2 loc])
  with rest out(2) obtain r where r: "settles (\<lambda>n. k n out f2) r" "unifies K F f V Sol r" by blast
  have "settles (\<lambda>n. hm_try (hm_lift (subst_compose n t s)) (k n) f2) r"
    by (rule settles_lift_try [of "\<lambda>n. subst_compose n t s" out]) (use out(1) r(1) in auto)
  then have "settles (\<lambda>n. hm_try (g n) (\<lambda>t. hm_try (hm_lift (subst_compose n t s)) (k n)) f1) r"
    by (rule settles_try [where m = g and f = f1 and x = t and f' = f2
          and k = "\<lambda>n t. hm_try (hm_lift (subst_compose n t s)) (k n)", OF success(1)])
  with r(2) show ?thesis by blast
qed

lemma hm_try_return: "hm_try m hm_return = m"
  by (auto simp: hm_try_def hm_return_def fun_eq_iff split: outcome.split sum.split prod.split)

text \<open>A binding made after a first problem was solved.\<close>

lemma bind_after:
  assumes ctx: "context_ok K F f" and V: "V \<subseteq> {..<f}" and s: "sorted_keys s" "sorted_keys t"
    and m1: "mgu K F f V Sol1 (map_of s) f1 K1 F1"
    and m2: "mgu K1 F1 f1 V2 Sol2 (map_of t) f2 K2 F2"
    and V2: "V2 \<subseteq> (V \<union> {f..<f1}) - dom (map_of s)"
    and Sol2: "\<And>\<theta>. models \<theta> (map_of s) \<Longrightarrow> Sol2 \<theta> = Sol2' \<theta>"
    and loc: "\<And>\<theta> \<theta>'. (\<And>v. v < f \<Longrightarrow> \<theta>' v = \<theta> v) \<Longrightarrow> Sol2' \<theta>' = Sol2' \<theta>"
    and Sol: "\<And>\<theta>. Sol1 \<theta> \<Longrightarrow> Sol2' \<theta> \<Longrightarrow> Sol \<theta>"
      "\<And>\<theta>. admissible K F f \<theta> \<Longrightarrow> Sol \<theta> \<Longrightarrow> Sol1 \<theta> \<and> Sol2' \<theta>"
  shows "\<exists>r. settles (\<lambda>n. hm_lift (subst_compose n t s) f2) r \<and> unifies K F f V Sol (r :: (('e + substitution) \<times> nat) outcome)"
proof -
  obtain out where out: "\<And>d. subst_compose (Suc d) t s = Some out" "sorted_keys out"
    "map_of out = comp_sub (map_of t) (map_of s)"
    using compose_settles [OF s V mgu_refines [OF m1] mgu_refines [OF m2] V2] by blast
  have "mgu K F f V (\<lambda>\<theta>. Sol1 \<theta> \<and> Sol2' \<theta>) (map_of out) f2 K2 F2"
    unfolding out(3) by (rule mgu_compose [OF ctx V m1 m2 V2 Sol2 loc])
  then have "mgu K F f V Sol (map_of out) f2 K2 F2"
    by (rule mgu_consequence) (use Sol in blast)+
  moreover have "settles (\<lambda>n. hm_lift (subst_compose n t s) f2) (Done (Inr out, f2))"
    by (rule settles_lift [of "\<lambda>n. subst_compose n t s"]) (rule out(1))
  ultimately show ?thesis using out(2) by (intro exI [of _ "Done (Inr out, f2)"]) auto
qed

end
