(* ===== verification/HM_Shared_Fields.thy ===== *)
theory HM_Shared_Fields
  imports HM_Runs
begin

text \<open>
  The fields two rows share and those only one of them has, the code for record rows and for effect
  rows as one function, and the loop over the shared fields: under the assumption that the unifier
  is correct on smaller types, it settles on a most general solution of all their equations.
\<close>

section \<open>The fields of two rows\<close>

lemma shared_fields_set: "set (shared_fields a b) = {(ta, tb). \<exists>k. (k, ta) \<in> set a \<and> map_of b k = Some tb}"
  by (force simp: shared_fields_def List.map_filter_def)

lemma map_of_only_fields: "map_of (only_fields a b) p = (if p \<in> keys b then None else map_of a p)"
proof (induction a)
  case (Cons e a)
  obtain k t where "e = (k, t)" by (cases e)
  with Cons show ?case by (cases "k = p") (simp_all add: only_fields_def split: if_splits)
qed (simp add: only_fields_def)

lemma sorted_only_fields: "sorted_keys a \<Longrightarrow> sorted_keys (only_fields a b)"
  by (simp add: only_fields_def sorted_keys_filter)

lemma keys_only_fields: "keys (only_fields a b) = keys a - keys b"
  by (force simp: only_fields_def)

lemma set_only_fields: "set (only_fields a b) \<subseteq> set a"
  by (simp add: only_fields_def)

definition agree_shared :: "row_fields_map \<Rightarrow> row_fields_map \<Rightarrow> valuation \<Rightarrow> bool" where
  "agree_shared a b \<theta> \<longleftrightarrow> (\<forall>(ta, tb) \<in> set (shared_fields a b). eval \<theta> ta = eval \<theta> tb)"

lemma agree_sharedD:
  assumes "agree_shared a b \<theta>" "map_of a p = Some ta" "map_of b p = Some tb"
  shows "eval \<theta> ta = eval \<theta> tb"
  using assms map_of_SomeD [OF assms(2)] unfolding agree_shared_def shared_fields_set by blast

lemma agree_sharedI:
  assumes "distinct (map fst a)"
    and "\<And>p ta tb. map_of a p = Some ta \<Longrightarrow> map_of b p = Some tb \<Longrightarrow> eval \<theta> ta = eval \<theta> tb"
  shows "agree_shared a b \<theta>"
  using assms by (auto simp: agree_shared_def shared_fields_set)

lemma lookup_row: "fmlookup (x ++\<^sub>f eval_values \<theta> m) p = (case map_of m p of Some t \<Rightarrow> Some (eval \<theta> t) | None \<Rightarrow> fmlookup x p)"
  by (auto simp: fmlookup_dom_iff split: option.split)

lemma solves_shared:
  assumes "x ++\<^sub>f eval_values \<theta> a = y ++\<^sub>f eval_values \<theta> b" "distinct (map fst a)"
  shows "agree_shared a b \<theta>"
proof (rule agree_sharedI [OF assms(2)])
  fix p ta tb
  assume p: "map_of a p = Some ta" "map_of b p = Some tb"
  have "fmlookup (x ++\<^sub>f eval_values \<theta> a) p = fmlookup (y ++\<^sub>f eval_values \<theta> b) p" using assms(1) by simp
  with p show "eval \<theta> ta = eval \<theta> tb" by (simp add: lookup_row del: fmlookup_add)
qed

lemma shared_solves:
  assumes "agree_shared a b \<theta>"
  shows "(m ++\<^sub>f eval_values \<theta> (only_fields b a)) ++\<^sub>f eval_values \<theta> a =
    (m ++\<^sub>f eval_values \<theta> (only_fields a b)) ++\<^sub>f eval_values \<theta> b"
proof (rule fmap_ext)
  fix p
  show "fmlookup ((m ++\<^sub>f eval_values \<theta> (only_fields b a)) ++\<^sub>f eval_values \<theta> a) p =
    fmlookup ((m ++\<^sub>f eval_values \<theta> (only_fields a b)) ++\<^sub>f eval_values \<theta> b) p"
    using agree_sharedD [OF assms, of p] map_of_eq_None_iff [of a p] map_of_eq_None_iff [of b p]
    by (auto simp: lookup_row map_of_only_fields simp del: fmlookup_add split: option.split)
qed

section \<open>Both kinds of rows at once\<close>

text \<open>What is done once the shared fields are unified.\<close>

definition row_tails :: "vkind \<Rightarrow> (row_fields_map \<Rightarrow> row_fields_map \<Rightarrow> hm_unify_error) \<Rightarrow> nat \<Rightarrow> type_var option \<Rightarrow>
    type_var option \<Rightarrow> substitution \<Rightarrow> row_fields_map \<Rightarrow> row_fields_map \<Rightarrow> (hm_unify_error, substitution) hm" where
  "row_tails k E d at bt subst a_only b_only =
     (case (at, bt) of
       (None, None) \<Rightarrow>
         if a_only \<noteq> [] \<or> b_only \<noteq> [] then hm_error (E a_only b_only) else hm_return subst
     | (Some av, None) \<Rightarrow>
         if a_only \<noteq> [] then hm_error (E a_only b_only)
         else hm_try (check_extras av b_only) (\<lambda>_.
           hm_lift (subst_compose d (subst_singleton av (mk_row k b_only None)) subst))
     | (None, Some bv) \<Rightarrow>
         if b_only \<noteq> [] then hm_error (E a_only b_only)
         else hm_try (check_extras bv a_only) (\<lambda>_.
           hm_lift (subst_compose d (subst_singleton bv (mk_row k a_only None)) subst))
     | (Some av, Some bv) \<Rightarrow>
         if av = bv then
           (if a_only = [] \<and> b_only = [] then hm_return subst else hm_error (E a_only b_only))
         else
           hm_try (check_extras av b_only) (\<lambda>_.
           hm_try (check_extras bv a_only) (\<lambda>_.
           hm_try fresh (\<lambda>r.
           hm_lift (subst_compose d
             (map_insert bv (mk_row k a_only (Some r)) (map_insert av (mk_row k b_only (Some r)) [])) subst)))))"

definition row_unify :: "vkind \<Rightarrow> (row_fields_map \<Rightarrow> row_fields_map \<Rightarrow> hm_unify_error) \<Rightarrow> mono_type unifier \<Rightarrow> nat \<Rightarrow>
    row_fields_map \<Rightarrow> type_var option \<Rightarrow> row_fields_map \<Rightarrow> type_var option \<Rightarrow> (hm_unify_error, substitution) hm" where
  "row_unify k E u d a at b bt =
     hm_try (unify_shared u d (shared_fields a b) []) (\<lambda>subst.
     hm_try (hm_lift (apply_values d subst (only_fields a b))) (\<lambda>a_only.
     hm_try (hm_lift (apply_values d subst (only_fields b a))) (\<lambda>b_only.
     row_tails k E d at bt subst a_only b_only)))"

lemma hm_try_eq: "(\<And>x. k x = k' x) \<Longrightarrow> hm_try m k = hm_try m k'"
  by (rule arg_cong [of k k']) (rule ext)

lemma unify_effect_rows_eq:
  "unify_effect_rows u d a b = row_unify KEff row_mismatch u d (present a) (tail a) (present b) (tail b)"
  unfolding unify_effect_rows_def row_unify_def row_tails_def mk_row_def
  by (intro hm_try_eq) (simp split: option.split)

definition row_error :: "type_var option \<Rightarrow> type_var option \<Rightarrow> row_fields_map \<Rightarrow> row_fields_map \<Rightarrow> hm_unify_error" where
  "row_error at bt a_only b_only =
     (case (at, bt) of
        (None, None) \<Rightarrow> if a_only \<noteq> [] then MissingField (smallest_key a_only) ''right''
                        else MissingField (smallest_key b_only) ''left''
      | (Some av, None) \<Rightarrow> MissingField (smallest_key a_only) ''right''
      | (None, Some bv) \<Rightarrow> MissingField (smallest_key b_only) ''left''
      | (Some av, Some bv) \<Rightarrow> RowMismatch (''row variable `'' @ show_type_var av @
                    ''` appears on both sides with incompatible extras''))"

lemma unify_rows_eq:
  "unify_rows u d a b =
     row_unify KRow (row_error (row_tail a) (row_tail b)) u d (fst (to_map a)) (row_tail a) (fst (to_map b)) (row_tail b)"
proof -
  obtain af bf where t: "to_map a = (af, row_tail a)" "to_map b = (bf, row_tail b)"
    by (simp add: to_map_eq)
  show ?thesis
    unfolding unify_rows_def row_unify_def row_tails_def mk_row_def t prod.case Let_def fst_conv
    by (intro hm_try_eq) (simp add: row_error_def split: option.split)
qed

section \<open>The loop over the shared fields\<close>

text \<open>What is known of smaller problems, in the number of variables and then in size.\<close>

definition smaller_ok :: "nat \<Rightarrow> nat \<Rightarrow> bool" where
  "smaller_ok N S \<longleftrightarrow>
     (\<forall>K F f a b. context_ok K F f \<longrightarrow> wf_type K F a \<longrightarrow> wf_type K F b \<longrightarrow> free_vars a \<union> free_vars b \<subseteq> {..<f} \<longrightarrow>
        card (free_vars a \<union> free_vars b) < N \<or> card (free_vars a \<union> free_vars b) \<le> N \<and> size a + size b < S \<longrightarrow>
        unifier_ok (\<lambda>n. unify_with_fresh n a b) K F f (free_vars a \<union> free_vars b) (\<lambda>\<theta>. eval \<theta> a = eval \<theta> b))"

lemma smaller_okD:
  assumes "smaller_ok N S" "context_ok K F f" "wf_type K F a" "wf_type K F b" "free_vars a \<union> free_vars b \<subseteq> {..<f}"
    and "card (free_vars a \<union> free_vars b) < N \<or> card (free_vars a \<union> free_vars b) \<le> N \<and> size a + size b < S"
  shows "unifier_ok (\<lambda>n. unify_with_fresh n a b) K F f (free_vars a \<union> free_vars b) (\<lambda>\<theta>. eval \<theta> a = eval \<theta> b)"
  using assms unfolding smaller_ok_def by blast

text \<open>A type after a problem was solved: its variables, coherence, meaning and what the code computes.\<close>

lemma refined:
  assumes ctx: "context_ok K F f" and m: "mgu K F f V Sol (map_of s) f1 K1 F1" and V: "V \<subseteq> {..<f}"
    and t: "wf_type K F t" "free_vars t \<subseteq> V"
  shows "wf_type K1 F1 (sub (map_of s) t)"
    and "free_vars (sub (map_of s) t) \<subseteq> (V \<union> {f..<f1}) - dom (map_of s)"
    and "models \<theta> (map_of s) \<Longrightarrow> eval \<theta> (sub (map_of s) t) = eval \<theta> t"
    and "subst_apply (Suc d) s t = Some (sub (map_of s) t)"
proof -
  note a = mguD [OF m]
  have "kinded K t" using t(1) by (rule wf_kinded(1))
  then have k: "kinded K1 t" using kinded_agree(1) [of t K K1] a(8) t(2) V by (metis lessThan_iff subsetD)
  show "wf_type K1 F1 (sub (map_of s) t)"
    by (rule wf_sub(1) [OF a(7,4) t(1)]) (use t(2) V in blast)
  have "range_vars (map_of s) \<subseteq> (V \<union> {f..<f1}) - dom (map_of s)" using a(5,6) by (auto simp: idem_def)
  with free_vars_sub_subset(1) [OF a(4) k] t(2)
  show "free_vars (sub (map_of s) t) \<subseteq> (V \<union> {f..<f1}) - dom (map_of s)" by blast
  show "eval \<theta> (sub (map_of s) t) = eval \<theta> t" if "models \<theta> (map_of s)"
    by (rule eval_sub_models(1) [OF a(4) that k])
  show "subst_apply (Suc d) s t = Some (sub (map_of s) t)"
    by (rule apply_sub(1) [OF a(4,5) k])
qed

lemma refined_bound:
  assumes "mgu K F f V Sol \<sigma> f1 K1 F1" "V \<subseteq> {..<f}" "W \<subseteq> (V \<union> {f..<f1}) - dom \<sigma>"
  shows "W \<subseteq> {..<f1}" "card W \<le> card V" "\<sigma> = Map.empty \<or> card W < card V"
proof -
  note a = mguD [OF assms(1)]
  have fin: "finite V" using assms(2) finite_subset by blast
  then have le: "card W \<le> card ((V \<union> {f..<f1}) - dom \<sigma>)" using assms(3) by (intro card_mono) auto
  show "W \<subseteq> {..<f1}" using assms(2,3) a(1) by fastforce
  show lt: "\<sigma> = Map.empty \<or> card W < card V" using a(12) le by auto
  show "card W \<le> card V"
  proof (cases "\<sigma> = Map.empty \<and> f1 = f")
    case True
    then have "W \<subseteq> V" using assms(3) by auto
    then show ?thesis using fin by (rule card_mono [rotated])
  next
    case False
    then show ?thesis using a(12) le by auto
  qed
qed

text \<open>Unifying two refined types and composing the two substitutions.\<close>

lemma second_problem:
  assumes ctx: "context_ok K F f" and V: "V \<subseteq> {..<f}" and IH: "smaller_ok (card V) S"
    and m: "mgu K F f V Sol0 (map_of s) f1 K1 F1" "sorted_keys s"
    and ab: "wf_type K F a" "wf_type K F b" "free_vars a \<subseteq> V" "free_vars b \<subseteq> V" "size a + size b < S"
    and rest: "\<And>out f2 K2 F2. sorted_keys out \<Longrightarrow>
      mgu K F f V (\<lambda>\<theta>. Sol0 \<theta> \<and> eval \<theta> a = eval \<theta> b) (map_of out) f2 K2 F2 \<Longrightarrow>
      \<exists>r. settles (\<lambda>n. k n out f2) r \<and> unifies K F f V Sol r"
    and Sol: "\<And>\<theta>. Sol \<theta> \<Longrightarrow> Sol0 \<theta> \<and> eval \<theta> a = eval \<theta> b"
  shows "\<exists>r. settles (\<lambda>n. hm_try (hm_lift (subst_apply n s a)) (\<lambda>a'. hm_try (hm_lift (subst_apply n s b)) (\<lambda>b'.
      hm_try (unify_with_fresh n a' b') (\<lambda>t. hm_try (hm_lift (subst_compose n t s)) (k n)))) f1) r \<and> unifies K F f V Sol r"
proof -
  let ?\<sigma> = "map_of s"
  note ra = refined [OF ctx m(1) V ab(1,3)] and rb = refined [OF ctx m(1) V ab(2,4)]
  define V2 where "V2 = free_vars (sub ?\<sigma> a) \<union> free_vars (sub ?\<sigma> b)"
  have V2: "V2 \<subseteq> (V \<union> {f..<f1}) - dom ?\<sigma>" using ra(2) rb(2) by (simp add: V2_def)
  note bnd = refined_bound [OF m(1) V V2]
  have "card V2 < card V \<or> card V2 \<le> card V \<and> size (sub ?\<sigma> a) + size (sub ?\<sigma> b) < S"
  proof (cases "?\<sigma> = Map.empty")
    case True
    then have "sub ?\<sigma> a = a" "sub ?\<sigma> b = b" by (auto intro!: sub_id)
    with ab(5) bnd(2) show ?thesis by simp
  qed (use bnd(3) in blast)
  then have u: "unifier_ok (\<lambda>n. unify_with_fresh n (sub ?\<sigma> a) (sub ?\<sigma> b)) K1 F1 f1 V2
      (\<lambda>\<theta>. eval \<theta> (sub ?\<sigma> a) = eval \<theta> (sub ?\<sigma> b))"
    using smaller_okD [OF IH mguD(2) [OF m(1)] ra(1) rb(1)] bnd(1) unfolding V2_def by blast
  have "\<exists>r. settles (\<lambda>n. hm_try (unify_with_fresh n (sub ?\<sigma> a) (sub ?\<sigma> b))
        (\<lambda>t. hm_try (hm_lift (subst_compose n t s)) (k n)) f1) r \<and> unifies K F f V Sol r"
  proof (rule unifies_compose [where Sol2' = "\<lambda>\<theta>. eval \<theta> a = eval \<theta> b", OF ctx V m(2,1) V2 _ _ u])
    show "(eval \<theta> (sub ?\<sigma> a) = eval \<theta> (sub ?\<sigma> b)) = (eval \<theta> a = eval \<theta> b)" if "models \<theta> ?\<sigma>" for \<theta>
      using ra(3) [OF that] rb(3) [OF that] by simp
    show "(eval \<theta>' a = eval \<theta>' b) = (eval \<theta> a = eval \<theta> b)" if "\<And>v. v < f \<Longrightarrow> \<theta>' v = \<theta> v" for \<theta> \<theta>'
      using that ab(3,4) V eval_agree(1) [of a \<theta>' \<theta>] eval_agree(1) [of b \<theta>' \<theta>] by (metis lessThan_iff subsetD)
  qed (fact rest Sol)+
  then obtain r where r: "settles (\<lambda>n. hm_try (unify_with_fresh n (sub ?\<sigma> a) (sub ?\<sigma> b))
        (\<lambda>t. hm_try (hm_lift (subst_compose n t s)) (k n)) f1) r" "unifies K F f V Sol r"
    by blast
  have "settles (\<lambda>n. hm_try (hm_lift (subst_apply n s a)) (\<lambda>a'. hm_try (hm_lift (subst_apply n s b)) (\<lambda>b'.
      hm_try (unify_with_fresh n a' b') (\<lambda>t. hm_try (hm_lift (subst_compose n t s)) (k n)))) f1) r"
    by (rule settles_lift_try [of "\<lambda>n. subst_apply n s a", OF ra(4)],
        rule settles_lift_try [of "\<lambda>n. subst_apply n s b", OF rb(4)]) (rule r(1))
  with r(2) show ?thesis by blast
qed

lemma unify_shared_ok:
  assumes ctx: "context_ok K F f" and V: "V \<subseteq> {..<f}" and IH: "smaller_ok (card V) S"
    and m: "mgu K F f V Sol0 (map_of s) f1 K1 F1" "sorted_keys s"
    and es: "\<forall>(a, b) \<in> set es. wf_type K F a \<and> wf_type K F b \<and> free_vars a \<union> free_vars b \<subseteq> V \<and> size a + size b < S"
  shows "\<exists>r. settles (\<lambda>n. unify_shared (unify_with_fresh n) n es s f1) r \<and>
    unifies K F f V (\<lambda>\<theta>. Sol0 \<theta> \<and> (\<forall>(a, b) \<in> set es. eval \<theta> a = eval \<theta> b)) r"
  using m es
proof (induction es arbitrary: s f1 K1 F1 Sol0)
  case Nil
  then show ?case by (intro exI [of _ "Done (Inr s, f1)"]) auto
next
  case (Cons e es)
  obtain a b where e: "e = (a, b)" by (cases e)
  have ab: "wf_type K F a" "wf_type K F b" "free_vars a \<subseteq> V" "free_vars b \<subseteq> V" "size a + size b < S"
    using Cons.prems(3) e by auto
  have es: "\<forall>(a, b) \<in> set es. wf_type K F a \<and> wf_type K F b \<and> free_vars a \<union> free_vars b \<subseteq> V \<and> size a + size b < S"
    using Cons.prems(3) by simp
  show ?case
    unfolding e unify_shared.simps
  proof (rule second_problem [OF ctx V IH Cons.prems(1,2) ab])
    fix out f2 K2 F2
    assume o: "sorted_keys out" "mgu K F f V (\<lambda>\<theta>. Sol0 \<theta> \<and> eval \<theta> a = eval \<theta> b) (map_of out) f2 K2 F2"
    from Cons.IH [OF o(2,1) es]
    show "\<exists>r. settles (\<lambda>n. unify_shared (unify_with_fresh n) n es out f2) r \<and>
      unifies K F f V (\<lambda>\<theta>. Sol0 \<theta> \<and> (\<forall>(a, b) \<in> set ((a, b) # es). eval \<theta> a = eval \<theta> b)) r"
      by (simp add: conj_assoc)
  qed simp
qed

end
