(* ===== verification/HM_Row_Unify.thy ===== *)
theory HM_Row_Unify
  imports HM_Shared_Fields
begin

text \<open>
  The unifier of rows is correct: it settles on a most general solution if the rows have one and on
  an error if not, for record rows and for effect rows, with open and with closed tails.
\<close>

section \<open>Two rows with unified shared fields\<close>

abbreviation row_vars :: "row_fields_map \<Rightarrow> type_var option \<Rightarrow> type_var set" where
  "row_vars m rt \<equiv> values_free_vars m \<union> set_option rt"

definition row_in :: "kinding \<Rightarrow> fronts \<Rightarrow> nat \<Rightarrow> vkind \<Rightarrow> row_fields_map \<Rightarrow> type_var option \<Rightarrow> bool" where
  "row_in K F f k m rt \<longleftrightarrow> wf_values K F m \<and> sorted_keys m \<and> coherent K F k m rt \<and> row_vars m rt \<subseteq> {..<f}"

definition row_sol :: "row_fields_map \<Rightarrow> type_var option \<Rightarrow> row_fields_map \<Rightarrow> type_var option \<Rightarrow> valuation \<Rightarrow> bool" where
  "row_sol a at b bt \<theta> \<longleftrightarrow> tail_val \<theta> at ++\<^sub>f eval_values \<theta> a = tail_val \<theta> bt ++\<^sub>f eval_values \<theta> b"

lemma row_sol_sym: "row_sol a at b bt \<theta> = row_sol b bt a at \<theta>"
  by (auto simp: row_sol_def)

definition opened :: "kinding \<Rightarrow> fronts \<Rightarrow> nat \<Rightarrow> vkind \<Rightarrow> row_fields_map \<Rightarrow> type_var option \<Rightarrow>
    row_fields_map \<Rightarrow> type_var option \<Rightarrow> substitution \<Rightarrow> nat \<Rightarrow> kinding \<Rightarrow> fronts \<Rightarrow> bool" where
  "opened K F f k a at b bt s f1 K1 F1 \<longleftrightarrow>
     context_ok K F f \<and> k \<noteq> KType \<and> row_in K F f k a at \<and> row_in K F f k b bt \<and> sorted_keys s \<and>
     mgu K F f (row_vars a at \<union> row_vars b bt) (agree_shared a b) (map_of s) f1 K1 F1 \<and>
     (set_option at \<union> set_option bt) \<inter> (dom (map_of s) \<union> range_vars (map_of s)) = {}"

lemma agree_shared_sym:
  assumes "sorted_keys a" "sorted_keys b"
  shows "agree_shared a b \<theta> = agree_shared b a \<theta>"
  using agree_sharedI [of a b \<theta>] agree_sharedI [of b a \<theta>] agree_sharedD [of a b \<theta>] agree_sharedD [of b a \<theta>]
    sorted_keys_distinct [OF assms(1)] sorted_keys_distinct [OF assms(2)] by metis

lemma openedD:
  assumes "opened K F f k a at b bt s f1 K1 F1"
  shows "context_ok K F f" "k \<noteq> KType" "row_in K F f k a at" "row_in K F f k b bt" "sorted_keys s"
    and "mgu K F f (row_vars a at \<union> row_vars b bt) (agree_shared a b) (map_of s) f1 K1 F1"
    and "\<And>v. v \<in> set_option at \<union> set_option bt \<Longrightarrow> v \<notin> dom (map_of s) \<and> v \<notin> range_vars (map_of s)"
    and "row_vars a at \<union> row_vars b bt \<subseteq> {..<f}"
proof -
  show "context_ok K F f" "k \<noteq> KType" "row_in K F f k a at" "row_in K F f k b bt" "sorted_keys s"
    "mgu K F f (row_vars a at \<union> row_vars b bt) (agree_shared a b) (map_of s) f1 K1 F1"
    using assms by (auto simp: opened_def)
  show "v \<notin> dom (map_of s) \<and> v \<notin> range_vars (map_of s)" if "v \<in> set_option at \<union> set_option bt" for v
  proof -
    have "(set_option at \<union> set_option bt) \<inter> (dom (map_of s) \<union> range_vars (map_of s)) = {}"
      using assms by (auto simp: opened_def)
    with that show ?thesis by blast
  qed
  show "row_vars a at \<union> row_vars b bt \<subseteq> {..<f}" using assms by (auto simp: opened_def row_in_def)
qed

lemma opened_swap:
  assumes "opened K F f k a at b bt s f1 K1 F1"
  shows "opened K F f k b bt a at s f1 K1 F1"
proof -
  note o = openedD [OF assms]
  have "agree_shared a b = agree_shared b a"
    using agree_shared_sym [of a b] o(3,4) by (auto simp: row_in_def fun_eq_iff)
  then have "mgu K F f (row_vars b bt \<union> row_vars a at) (agree_shared b a) (map_of s) f1 K1 F1"
    using o(6) by (simp add: Un_commute)
  with assms show ?thesis by (simp add: opened_def Un_commute)
qed

text \<open>The fields of one row only, refined by the solution of the shared fields.\<close>

lemma opened_only:
  assumes "opened K F f k a at b bt s f1 K1 F1"
  defines "bo \<equiv> sub_values (map_of s) (only_fields b a)"
  shows "apply_values (Suc d) s (only_fields b a) = Some bo"
    and "wf_values K1 F1 bo" "sorted_keys bo"
    and "values_free_vars bo \<subseteq> (row_vars a at \<union> row_vars b bt \<union> {f..<f1}) - dom (map_of s)"
    and "values_free_vars bo \<subseteq> {..<f1}"
    and "\<And>\<theta>. models \<theta> (map_of s) \<Longrightarrow> eval_values \<theta> bo = eval_values \<theta> (only_fields b a)"
    and "\<And>\<theta>. eval_values \<theta> bo = eval_values (star \<theta> (map_of s)) (only_fields b a)"
    and "keys bo = keys b - keys a"
    and "\<And>bv. bt = Some bv \<Longrightarrow> bv \<notin> values_free_vars bo"
proof -
  note o = openedD [OF assms(1)]
  note m = mguD [OF o(6)]
  let ?m = "only_fields b a"
  have b: "wf_values K F b" "sorted_keys b" "coherent K F k b bt" using o(4) by (auto simp: row_in_def)
  have wf: "wf_values K F ?m" using wf_values_subset [OF b(1) set_only_fields] .
  have vb: "values_free_vars ?m \<subseteq> values_free_vars b" by (rule values_free_vars_mono [OF set_only_fields])
  then have v: "values_free_vars ?m \<subseteq> {..<f}" using o(8) by blast
  have k: "kinded_values K1 ?m" using sim_agree_kinded [OF wf_kinded(2) [OF wf] v] m(8) by simp
  show "apply_values (Suc d) s ?m = Some bo" unfolding bo_def by (rule apply_sub(3) [OF m(4,5) k])
  show "wf_values K1 F1 bo" unfolding bo_def by (rule wf_sub(2) [OF m(7,4) wf v])
  show "sorted_keys bo" unfolding bo_def using sorted_only_fields [OF b(2)] by simp
  have fv: "values_free_vars bo \<subseteq> (values_free_vars ?m - dom (map_of s)) \<union> range_vars (map_of s)"
    unfolding bo_def by (rule free_vars_sub_subset(3) [OF m(4) k])
  have rv: "range_vars (map_of s) \<subseteq> (row_vars a at \<union> row_vars b bt \<union> {f..<f1}) - dom (map_of s)"
    using m(5,6) by (auto simp: idem_def)
  show *: "values_free_vars bo \<subseteq> (row_vars a at \<union> row_vars b bt \<union> {f..<f1}) - dom (map_of s)"
    using fv rv vb by blast
  have "row_vars a at \<union> row_vars b bt \<union> {f..<f1} \<subseteq> {..<f1}" using o(8) m(1) by fastforce
  with * show "values_free_vars bo \<subseteq> {..<f1}" by blast
  show "eval_values \<theta> bo = eval_values \<theta> ?m" if "models \<theta> (map_of s)" for \<theta>
    unfolding bo_def by (rule eval_sub_models(3) [OF m(4) that k])
  show "eval_values \<theta> bo = eval_values (star \<theta> (map_of s)) ?m" for \<theta>
    unfolding bo_def by (rule eval_sub(3) [OF m(4) k])
  show "keys bo = keys b - keys a" unfolding bo_def by (simp only: keys_sub_values keys_only_fields)
  show "bv \<notin> values_free_vars bo" if "bt = Some bv" for bv
    using front_acyclic [OF b(3) [unfolded that] o(2) b(1)] o(7) [of bv] that fv vb by auto
qed

lemma opened_tail:
  assumes "opened K F f k a (Some av) b bt s f1 K1 F1"
  shows "K1 av = k" "av < f" "av < f1" "keys (F1 av) = keys a"
    and "eval_values \<theta> (F1 av) = eval_values (star \<theta> (map_of s)) a"
proof -
  note o = openedD [OF assms]
  note m = mguD [OF o(6)]
  have a: "wf_values K F a" "K av = k" "sim a (F av)" "av < f" "values_free_vars a \<subseteq> {..<f}"
    using o(3) by (auto simp: row_in_def coherent_def)
  show "av < f" "av < f1" "K1 av = k" using a m(1,8) by auto
  show "keys (F1 av) = keys a" using m(3) [OF a(4)] sim_keys [OF a(3)] by simp
  have "map_of s av = None" using o(7) [of av] by auto
  then have sim: "sim (sub_values (map_of s) (F av)) (F1 av)"
    using solvedD(3) [OF m(7)] a(2,4) o(2) by simp
  have k: "kinded_values K1 (F av)" using solvedD(2) [OF m(7)] a(4) by simp
  have "eval_values \<theta> (F1 av) = eval_values (star \<theta> (map_of s)) (F av)"
    using sim eval_sub(3) [OF m(4) k] by (simp add: sim_def)
  also have "\<dots> = eval_values (star \<theta> (map_of s)) a" using a(3) by (simp add: sim_def)
  finally show "eval_values \<theta> (F1 av) = eval_values (star \<theta> (map_of s)) a" .
qed

section \<open>The occurs check\<close>

lemma opened_occurs:
  assumes o: "opened K F f k a (Some av) b bt s f1 K1 F1"
    and av: "av \<in> values_free_vars (sub_values (map_of s) (only_fields b a))"
    and adm: "admissible K F f \<theta>"
  shows "\<not> row_sol a (Some av) b bt \<theta>"
proof
  assume sol: "row_sol a (Some av) b bt \<theta>"
  note od = openedD [OF o] and oo = opened_only [OF o] and ot = opened_tail [OF o]
  note m = mguD [OF od(6)]
  let ?bo = "sub_values (map_of s) (only_fields b a)"
  have ab: "distinct (map fst a)" "distinct (map fst b)"
    using od(3,4) by (auto simp: row_in_def sorted_keys_distinct)
  have vars: "values_free_vars a \<subseteq> {..<f}" "values_free_vars b \<subseteq> {..<f}" "set_option bt \<subseteq> {..<f}" using od(8) by auto
  have "agree_shared a b \<theta>" using solves_shared [OF sol [unfolded row_sol_def] ab(1)] .
  with m(11) [OF adm] obtain \<theta>1 where \<theta>1: "\<forall>v < f. \<theta>1 v = \<theta> v" "models \<theta>1 (map_of s)" by blast
  have "eval_values \<theta>1 a = eval_values \<theta> a" "eval_values \<theta>1 b = eval_values \<theta> b"
    using vars(1,2) \<theta>1(1) by (auto intro!: eval_agree)
  moreover have "\<theta>1 av = \<theta> av" "tail_val \<theta>1 bt = tail_val \<theta> bt"
    using \<theta>1(1) ot(2) vars(3) by (auto simp: tail_val_def split: option.split)
  ultimately have eq: "gfields (\<theta>1 av) ++\<^sub>f eval_values \<theta>1 a = tail_val \<theta>1 bt ++\<^sub>f eval_values \<theta>1 b"
    using sol by (simp add: row_sol_def)
  have w: "weight K1 F1 \<theta>1 av = msize (tail_val \<theta>1 bt ++\<^sub>f eval_values \<theta>1 b)"
    using ot(1,5) od(2) eq models_star [OF \<theta>1(2)] by (simp add: weight_def)
  from size_below_aux(3) [OF oo(2) av, of \<theta>1] obtain l ty where
    ty: "(l, ty) \<in> set ?bo" "weight K1 F1 \<theta>1 av \<le> gsize (eval \<theta>1 ty)" by blast
  have "map_of ?bo l = Some ty" using sorted_keys_distinct [OF oo(3)] ty(1) by simp
  then have "fmlookup (eval_values \<theta>1 ?bo) l = Some (eval \<theta>1 ty)" by simp
  then have "fmlookup (eval_values \<theta>1 (only_fields b a)) l = Some (eval \<theta>1 ty)" using oo(6) [OF \<theta>1(2)] by simp
  then obtain ty' where "map_of b l = Some ty'" "eval \<theta>1 ty' = eval \<theta>1 ty"
    by (auto simp: map_of_only_fields split: if_splits)
  with ty(2) values_weight [OF ab(2), of l ty' "weight K1 F1 \<theta>1 av" \<theta>1] w show False
    by (auto dest: map_of_SomeD)
qed

lemma check_extras_cases:
  "v \<in> values_free_vars m \<Longrightarrow> \<exists>t. check_extras v m = hm_error (OccursCheck v t)"
  "v \<notin> values_free_vars m \<Longrightarrow> check_extras v m = hm_return ()"
  using find_None_iff [of "\<lambda>(k, ty). occurs_check v ty" m]
  by (auto simp: check_extras_def values_free_vars_Union occurs_check_iff split: option.split)

section \<open>What the solutions are\<close>

lemma closed_needs:
  assumes "row_sol a at b None \<theta>"
  shows "only_fields a b = []"
proof -
  have "keys a \<subseteq> keys b"
  proof
    fix p
    assume "p \<in> keys a"
    then have "fmlookup (tail_val \<theta> at ++\<^sub>f eval_values \<theta> a) p \<noteq> None"
      by (auto simp: lookup_row map_of_eq_None_iff simp del: fmlookup_add split: option.split)
    then have "fmlookup (eval_values \<theta> b) p \<noteq> None"
      using assms by (simp add: row_sol_def del: fmlookup_add lookup_eval_values)
    then show "p \<in> keys b" by (simp add: map_of_eq_None_iff)
  qed
  then have "keys (only_fields a b) = {}" unfolding keys_only_fields by blast
  then show ?thesis by simp
qed

lemma closed_sol:
  assumes "only_fields a b = []" "only_fields b a = []" "agree_shared a b \<theta>"
  shows "row_sol a at b at \<theta>"
  using shared_solves [OF assms(3), of "tail_val \<theta> at"] assms(1,2) by (simp add: row_sol_def)

text \<open>The value of an open tail whose front has other labels.\<close>

lemma tail_lookup:
  assumes "row_sol a at b bt \<theta>" "fmdom' (tail_val \<theta> at) \<inter> keys a = {}" "p \<notin> keys a"
  shows "fmlookup (tail_val \<theta> at) p = (case map_of b p of Some t \<Rightarrow> Some (eval \<theta> t) | None \<Rightarrow> fmlookup (tail_val \<theta> bt) p)"
proof -
  have "fmlookup (tail_val \<theta> at ++\<^sub>f eval_values \<theta> a) p = fmlookup (tail_val \<theta> bt ++\<^sub>f eval_values \<theta> b) p"
    using assms(1) by (simp add: row_sol_def)
  moreover have "map_of a p = None" using assms(3) by (simp add: map_of_eq_None_iff)
  ultimately show ?thesis by (simp add: lookup_row del: fmlookup_add)
qed

lemma tail_value:
  assumes "row_sol a at b bt \<theta>" "fmdom' (tail_val \<theta> at) \<inter> keys a = {}" "fmdom' (tail_val \<theta> bt) \<inter> keys b = {}"
    and m: "m = fmdrop_set (keys a \<union> keys b) (tail_val \<theta> bt)"
  shows "tail_val \<theta> at = m ++\<^sub>f eval_values \<theta> (only_fields b a)"
proof (rule fmap_ext)
  fix p
  show "fmlookup (tail_val \<theta> at) p = fmlookup (m ++\<^sub>f eval_values \<theta> (only_fields b a)) p"
  proof (cases "p \<in> keys a")
    case True
    then have "fmlookup (tail_val \<theta> at) p = None" using assms(2) by (metis disjoint_iff fmdom'_notD)
    with True m show ?thesis by (simp add: lookup_row map_of_only_fields del: fmlookup_add)
  next
    case False
    show ?thesis
    proof (cases "p \<in> keys b")
      case True
      then obtain t where "map_of b p = Some t" by (metis map_of_eq_None_iff not_None_eq)
      with False show ?thesis
        using tail_lookup [OF assms(1,2) False] by (simp add: lookup_row map_of_only_fields del: fmlookup_add)
    next
      case no: False
      then have "map_of b p = None" by (simp only: map_of_eq_None_iff not_False_eq_True)
      with False no show ?thesis
        using tail_lookup [OF assms(1,2) False] m by (simp add: lookup_row map_of_only_fields del: fmlookup_add)
    qed
  qed
qed

lemma row_dom:
  assumes "row_in K F f k a at" "k \<noteq> KType" "admissible K F f \<theta>"
  shows "fmdom' (tail_val \<theta> at) \<inter> keys a = {}"
    and "at = Some av \<Longrightarrow> \<theta> av = mk_val k (gfields (\<theta> av))"
proof -
  have *: "fmdom' (gfields (\<theta> v)) \<inter> keys a = {} \<and> is_val k (\<theta> v)" if "at = Some v" for v
    using assms that sim_keys [of a "F v"]
    by (auto simp: row_in_def coherent_def admissible_def admissible_at_def)
  then show "fmdom' (tail_val \<theta> at) \<inter> keys a = {}" by (cases at) auto
  show "at = Some av \<Longrightarrow> \<theta> av = mk_val k (gfields (\<theta> av))" using * is_val_iff [OF assms(2)] by blast
qed

section \<open>The four cases of the tails\<close>

definition row_finishes :: "kinding \<Rightarrow> fronts \<Rightarrow> nat \<Rightarrow> row_fields_map \<Rightarrow> type_var option \<Rightarrow> row_fields_map \<Rightarrow> type_var option \<Rightarrow>
    (nat \<Rightarrow> (('e + substitution) \<times> nat) outcome) \<Rightarrow> bool" where
  "row_finishes K F f a at b bt g \<longleftrightarrow>
     (\<exists>r. settles g r \<and> unifies K F f (row_vars a at \<union> row_vars b bt) (row_sol a at b bt) r)"

lemma row_finishes_swap: "row_finishes K F f a at b bt g \<Longrightarrow> row_finishes K F f b bt a at g"
proof -
  assume "row_finishes K F f a at b bt g"
  moreover have "row_sol a at b bt = row_sol b bt a at" by (rule ext) (rule row_sol_sym)
  ultimately show ?thesis by (simp add: row_finishes_def Un_commute)
qed

lemma row_fails:
  assumes "opened K F f k a at b bt s f1 K1 F1" "\<And>\<theta>. admissible K F f \<theta> \<Longrightarrow> \<not> row_sol a at b bt \<theta>"
  shows "row_finishes K F f a at b bt (\<lambda>n. hm_error e f1)"
  unfolding row_finishes_def
  using assms(2) mguD(1) [OF openedD(6) [OF assms(1)]] by (intro exI [of _ "Done (Inl e, f1)"]) simp

lemma row_closed:
  assumes "opened K F f k a at b at s f1 K1 F1" "only_fields a b = []" "only_fields b a = []"
  shows "row_finishes K F f a at b at (\<lambda>n. hm_return s f1)"
proof -
  note o = openedD [OF assms(1)]
  have "distinct (map fst a)" using o(3) by (simp add: row_in_def sorted_keys_distinct)
  then have "mgu K F f (row_vars a at \<union> row_vars b at) (row_sol a at b at) (map_of s) f1 K1 F1"
    by (intro mgu_consequence [OF o(6)]) (auto simp: row_sol_def intro: closed_sol [OF assms(2,3), unfolded row_sol_def] solves_shared)
  then show ?thesis
    unfolding row_finishes_def using o(5) by (intro exI [of _ "Done (Inr s, f1)"]) auto
qed

lemma row_close:
  assumes o: "opened K F f k a (Some av) b None s f1 K1 F1" and none: "only_fields a b = []"
    and av: "av \<notin> values_free_vars (sub_values (map_of s) (only_fields b a))"
  shows "row_finishes K F f a (Some av) b None (\<lambda>n. hm_lift (subst_compose n
    (subst_singleton av (mk_row k (sub_values (map_of s) (only_fields b a)) None)) s) f1)"
proof -
  note od = openedD [OF o] and oo = opened_only [OF o] and ot = opened_tail [OF o]
  let ?W = "row_vars a (Some av) \<union> row_vars b None"
  let ?bo = "sub_values (map_of s) (only_fields b a)"
  let ?t = "subst_singleton av (mk_row k ?bo None)"
  have ab: "distinct (map fst a)" using od(3) by (simp add: row_in_def sorted_keys_distinct)
  have vb: "values_free_vars (only_fields b a) \<subseteq> {..<f}"
    using values_free_vars_mono [OF set_only_fields, of b a] od(8) by auto
  have t: "map_of ?t = [av \<mapsto> mk_row k ?bo None]" "sorted_keys ?t" by (simp_all add: subst_singleton_def)
  have close: "mgu K1 F1 f1 (insert av (values_free_vars ?bo)) (\<lambda>\<theta>. \<theta> av = eval \<theta> (mk_row k ?bo None)) (map_of ?t) f1 K1
      (\<lambda>w. sub_values [av \<mapsto> mk_row k ?bo None] (F1 w))"
    unfolding t(1)
    by (rule mgu_close [OF mguD(2) [OF od(6)] ot(1) od(2) ot(3) oo(2,3,5) av]) (use ot(4) oo(8) in auto)
  show ?thesis
    unfolding row_finishes_def
  proof (rule bind_after [where Sol2' = "\<lambda>\<theta>. \<theta> av = mk_val k (eval_values \<theta> (only_fields b a))",
        OF od(1,8,5) t(2) od(6) close])
    show "insert av (values_free_vars ?bo) \<subseteq> ?W \<union> {f..<f1} - dom (map_of s)"
      using oo(4) od(7) [of av] by auto
    show "(\<theta> av = eval \<theta> (mk_row k ?bo None)) = (\<theta> av = mk_val k (eval_values \<theta> (only_fields b a)))"
      if "models \<theta> (map_of s)" for \<theta>
      using oo(6) [OF that] by (simp add: eval_mk_row)
    show "(\<theta>' av = mk_val k (eval_values \<theta>' (only_fields b a))) = (\<theta> av = mk_val k (eval_values \<theta> (only_fields b a)))"
      if th: "\<And>v. v < f \<Longrightarrow> \<theta>' v = \<theta> v" for \<theta> \<theta>'
    proof -
      have "eval_values \<theta>' (only_fields b a) = eval_values \<theta> (only_fields b a)"
        using th vb by (auto intro!: eval_agree)
      then show ?thesis using th ot(2) by simp
    qed
    show "row_sol a (Some av) b None \<theta>"
      if "agree_shared a b \<theta>" "\<theta> av = mk_val k (eval_values \<theta> (only_fields b a))" for \<theta>
      using shared_solves [OF that(1), of fmempty] that(2) none by (simp add: row_sol_def)
    show "agree_shared a b \<theta> \<and> \<theta> av = mk_val k (eval_values \<theta> (only_fields b a))"
      if adm: "admissible K F f \<theta>" and sol: "row_sol a (Some av) b None \<theta>" for \<theta>
    proof
      show "agree_shared a b \<theta>" using solves_shared [OF sol [unfolded row_sol_def] ab] .
      note d = row_dom [OF od(3,2) adm]
      have "gfields (\<theta> av) = eval_values \<theta> (only_fields b a)"
        using tail_value [OF sol d(1) _ refl] by simp
      with d(2) show "\<theta> av = mk_val k (eval_values \<theta> (only_fields b a))" by simp
    qed
  qed
qed

lemma row_link:
  assumes o: "opened K F f k a (Some av) b (Some bv) s f1 K1 F1" and ne: "av \<noteq> bv"
    and av: "av \<notin> values_free_vars (sub_values (map_of s) (only_fields b a))"
    and bv: "bv \<notin> values_free_vars (sub_values (map_of s) (only_fields a b))"
  shows "row_finishes K F f a (Some av) b (Some bv) (\<lambda>n. hm_lift (subst_compose n
    (map_insert bv (mk_row k (sub_values (map_of s) (only_fields a b)) (Some f1))
      (map_insert av (mk_row k (sub_values (map_of s) (only_fields b a)) (Some f1)) [])) s) (Suc f1))"
proof -
  note o' = opened_swap [OF o]
  note od = openedD [OF o]
  note ob = opened_only [OF o] and tb = opened_tail [OF o] and oa = opened_only [OF o'] and ta = opened_tail [OF o']
  let ?W = "row_vars a (Some av) \<union> row_vars b (Some bv)"
  let ?bo = "sub_values (map_of s) (only_fields b a)" and ?ao = "sub_values (map_of s) (only_fields a b)"
  let ?t = "map_insert bv (mk_row k ?ao (Some f1)) (map_insert av (mk_row k ?bo (Some f1)) [])"
  have ab: "distinct (map fst a)" using od(3) by (simp add: row_in_def sorted_keys_distinct)
  have vars: "values_free_vars (only_fields b a) \<subseteq> {..<f}" "values_free_vars (only_fields a b) \<subseteq> {..<f}"
    using values_free_vars_mono [OF set_only_fields, of b a] values_free_vars_mono [OF set_only_fields, of a b] od(8) by auto
  have t: "map_of ?t = [av \<mapsto> mk_row k ?bo (Some f1), bv \<mapsto> mk_row k ?ao (Some f1)]" "sorted_keys ?t"
    using ne by (auto simp: fun_eq_iff)
  have sim: "sim (F1 av @ ?bo) (F1 bv @ ?ao)"
    unfolding sim_def eval_values_append ob(7) oa(7) tb(5) ta(5)
    using shared_solves [OF mguD(10) [OF od(6) star_models [OF mguD(5) [OF od(6)]]], of fmempty] by simp
  have dis: "keys (F1 bv) \<inter> keys ?ao = {}" "keys (F1 av) \<inter> keys ?bo = {}"
    unfolding ta(4) tb(4) oa(8) ob(8) by (simp_all add: Diff_disjoint)
  have occ: "{av, bv} \<inter> (values_free_vars ?ao \<union> values_free_vars ?bo) = {}"
    using av bv oa(9) ob(9) by simp
  note link = mgu_link [OF mguD(2) [OF od(6)] od(2) tb(1) ta(1) tb(3) ta(3) ne oa(2,3,5) dis(1) ob(2,3,5) dis(2) occ sim]
  obtain K2 F2 where link: "mgu K1 F1 f1 ({av, bv} \<union> values_free_vars ?ao \<union> values_free_vars ?bo)
      (\<lambda>\<theta>. \<exists>m. \<theta> av = mk_val k (m ++\<^sub>f eval_values \<theta> ?bo) \<and> \<theta> bv = mk_val k (m ++\<^sub>f eval_values \<theta> ?ao)) (map_of ?t) (Suc f1) K2 F2"
    using link [folded t(1)] by (elim exE) (rule that)
  let ?Sol2 = "\<lambda>\<theta>. \<exists>m. \<theta> av = mk_val k (m ++\<^sub>f eval_values \<theta> (only_fields b a)) \<and>
    \<theta> bv = mk_val k (m ++\<^sub>f eval_values \<theta> (only_fields a b))"
  show ?thesis
    unfolding row_finishes_def
  proof (rule bind_after [where Sol2' = ?Sol2, OF od(1,8,5) t(2) od(6) link])
    show "{av, bv} \<union> values_free_vars ?ao \<union> values_free_vars ?bo \<subseteq> ?W \<union> {f..<f1} - dom (map_of s)"
      using oa(4) ob(4) od(7) [of av] od(7) [of bv] by (auto simp: Un_commute)
    show "(\<exists>m. \<theta> av = mk_val k (m ++\<^sub>f eval_values \<theta> ?bo) \<and> \<theta> bv = mk_val k (m ++\<^sub>f eval_values \<theta> ?ao)) = ?Sol2 \<theta>"
      if "models \<theta> (map_of s)" for \<theta>
      using oa(6) [OF that] ob(6) [OF that] by simp
    show "?Sol2 \<theta>' = ?Sol2 \<theta>" if th: "\<And>v. v < f \<Longrightarrow> \<theta>' v = \<theta> v" for \<theta> \<theta>'
    proof -
      have "eval_values \<theta>' (only_fields b a) = eval_values \<theta> (only_fields b a)"
        "eval_values \<theta>' (only_fields a b) = eval_values \<theta> (only_fields a b)"
        using th vars by (auto intro!: eval_agree)
      then show ?thesis using th ta(2) tb(2) by simp
    qed
    show "row_sol a (Some av) b (Some bv) \<theta>" if "agree_shared a b \<theta>" "?Sol2 \<theta>" for \<theta>
      using shared_solves [OF that(1)] that(2) by (auto simp: row_sol_def)
    show "agree_shared a b \<theta> \<and> ?Sol2 \<theta>"
      if adm: "admissible K F f \<theta>" and sol: "row_sol a (Some av) b (Some bv) \<theta>" for \<theta>
    proof
      show "agree_shared a b \<theta>" using solves_shared [OF sol [unfolded row_sol_def] ab] .
      note da = row_dom [OF od(3,2) adm] and db = row_dom [OF od(4,2) adm]
      let ?m = "fmdrop_set (keys a \<union> keys b) (tail_val \<theta> (Some bv))"
      have m: "?m = fmdrop_set (keys b \<union> keys a) (tail_val \<theta> (Some av))"
        using tail_lookup [OF sol da(1)]
        by (intro fmap_ext) (auto simp: map_of_eq_None_iff [THEN iffD2])
      have "gfields (\<theta> av) = ?m ++\<^sub>f eval_values \<theta> (only_fields b a)"
        using tail_value [OF sol da(1) db(1) refl] by simp
      moreover have "gfields (\<theta> bv) = ?m ++\<^sub>f eval_values \<theta> (only_fields a b)"
        using tail_value [OF sol [unfolded row_sol_sym [of a]] db(1) da(1) m] by simp
      ultimately show "?Sol2 \<theta>" using da(2) db(2) by metis
    qed
  qed
qed

section \<open>The unifier of rows\<close>

lemma row_finishes_lift:
  assumes "\<And>d. g (Suc d) = Some x" "row_finishes K F f a at b bt (\<lambda>n. k n x f1)"
  shows "row_finishes K F f a at b bt (\<lambda>n. hm_try (hm_lift (g n)) (k n) f1)"
  using assms(2) settles_lift_try [of g x k f1, OF assms(1)] unfolding row_finishes_def by blast

lemma row_finishes_check:
  assumes o: "opened K F f k a (Some av) b bt s f1 K1 F1"
    and rest: "av \<notin> values_free_vars (sub_values (map_of s) (only_fields b a)) \<Longrightarrow>
      row_finishes K F f a (Some av) b bt (\<lambda>n. g n f1)"
  shows "row_finishes K F f a (Some av) b bt (\<lambda>n. hm_try (check_extras av (sub_values (map_of s) (only_fields b a))) (\<lambda>_. g n) f1)"
proof (cases "av \<in> values_free_vars (sub_values (map_of s) (only_fields b a))")
  case True
  from check_extras_cases(1) [OF True] obtain e where e: "check_extras av (sub_values (map_of s) (only_fields b a)) =
    hm_error (OccursCheck av e)" by blast
  show ?thesis using row_fails [OF o opened_occurs [OF o True]] unfolding e hm_simps .
next
  case False
  show ?thesis using rest [OF False] unfolding check_extras_cases(2) [OF False] hm_simps .
qed

lemma row_finishes_fresh:
  assumes "row_finishes K F f a at b bt (\<lambda>n. g n f1 (Suc f1))"
  shows "row_finishes K F f a at b bt (\<lambda>n. hm_try fresh (g n) f1)"
proof (cases "int f1 < u32_max")
  case True
  then show ?thesis using assms by (simp add: hm_try_def fresh_def)
next
  case False
  then show ?thesis by (simp add: hm_try_def fresh_def row_finishes_def) (intro exI [of _ Panic], simp)
qed

text \<open>Everything after the shared fields.\<close>

lemma opened_finishes:
  assumes o: "opened K F f k a at b bt s f1 K1 F1"
  shows "row_finishes K F f a at b bt (\<lambda>n. row_tails k E n at bt s
    (sub_values (map_of s) (only_fields a b)) (sub_values (map_of s) (only_fields b a)) f1)"
proof -
  define ao where "ao = sub_values (map_of s) (only_fields a b)"
  define bo where "bo = sub_values (map_of s) (only_fields b a)"
  note o' = opened_swap [OF o]
  have ao: "ao = [] \<longleftrightarrow> only_fields a b = []" and bo: "bo = [] \<longleftrightarrow> only_fields b a = []"
    by (simp_all add: ao_def bo_def sub_values_map)
  have fails: "row_finishes K F f a at b bt (\<lambda>n. hm_error (E ao bo) f1)" if "\<And>\<theta>. \<not> row_sol a at b bt \<theta>"
    by (rule row_fails [OF o]) (rule that)
  have "row_finishes K F f a at b bt (\<lambda>n. row_tails k E n at bt s ao bo f1)"
  proof (cases at)
    case None
    show ?thesis
    proof (cases bt)
      case bt: None
      show ?thesis
      proof (cases "ao \<noteq> [] \<or> bo \<noteq> []")
        case True
        then have "\<not> row_sol a at b bt \<theta>" for \<theta>
          using closed_needs [of a None b \<theta>] closed_needs [of b None a \<theta>] row_sol_sym [of a] ao bo None bt by auto
        with fails True None bt show ?thesis by (simp add: row_tails_def)
      next
        case False
        with row_closed [of K F f k a None b s f1 K1 F1] o ao bo None bt show ?thesis by (simp add: row_tails_def)
      qed
    next
      case (Some bv)
      show ?thesis
      proof (cases "bo = []")
        case False
        then have "\<not> row_sol a at b bt \<theta>" for \<theta>
          using closed_needs [of b bt a \<theta>] row_sol_sym [of a] bo None by auto
        with fails False None Some show ?thesis by (simp add: row_tails_def)
      next
        case True
        have "row_finishes K F f b (Some bv) a None (\<lambda>n. hm_try (check_extras bv ao) (\<lambda>_.
            hm_lift (subst_compose n (subst_singleton bv (mk_row k ao None)) s)) f1)"
          unfolding ao_def
          by (rule row_finishes_check, rule o' [unfolded None Some], rule row_close, rule o' [unfolded None Some])
            (use bo True in simp_all)
        from row_finishes_swap [OF this] True None Some show ?thesis by (simp add: row_tails_def)
      qed
    qed
  next
    case (Some av)
    show ?thesis
    proof (cases bt)
      case None
      show ?thesis
      proof (cases "ao = []")
        case False
        then have "\<not> row_sol a at b bt \<theta>" for \<theta>
          using closed_needs [of a at b \<theta>] ao None by auto
        with fails False None Some show ?thesis by (simp add: row_tails_def)
      next
        case True
        have "row_finishes K F f a (Some av) b None (\<lambda>n. hm_try (check_extras av bo) (\<lambda>_.
            hm_lift (subst_compose n (subst_singleton av (mk_row k bo None)) s)) f1)"
          unfolding bo_def
          by (rule row_finishes_check, rule o [unfolded None Some], rule row_close, rule o [unfolded None Some])
            (use ao True in simp_all)
        with True None Some show ?thesis by (simp add: row_tails_def)
      qed
    next
      case bt: (Some bv)
      show ?thesis
      proof (cases "av = bv")
        case True
        have "sim a b"
          using openedD(3,4) [OF o] Some bt True by (auto simp: row_in_def coherent_def intro: sim_trans sim_sym)
        then have "keys a = keys b" by (rule sim_keys)
        then have "keys (only_fields a b) = {}" "keys (only_fields b a) = {}" by (simp_all add: keys_only_fields)
        then have "only_fields a b = []" "only_fields b a = []" by simp_all
        with row_closed [of K F f k a at b s f1 K1 F1] o ao bo Some bt True show ?thesis by (simp add: row_tails_def)
      next
        case False
        let ?g = "\<lambda>n r. hm_lift (subst_compose n
             (map_insert bv (mk_row k ao (Some r)) (map_insert av (mk_row k bo (Some r)) [])) s)"
        note ov = o [unfolded Some bt] and ov' = o' [unfolded Some bt]
        have "row_finishes K F f a (Some av) b (Some bv) (\<lambda>n. hm_try (check_extras av bo) (\<lambda>_.
           hm_try (check_extras bv ao) (\<lambda>_. hm_try fresh (?g n))) f1)"
          unfolding bo_def
        proof (rule row_finishes_check [OF ov], fold bo_def)
          assume av: "av \<notin> values_free_vars bo"
          have "row_finishes K F f b (Some bv) a (Some av) (\<lambda>n. hm_try (check_extras bv ao) (\<lambda>_. hm_try fresh (?g n)) f1)"
            unfolding ao_def
          proof (rule row_finishes_check [OF ov'], fold ao_def)
            assume bv: "bv \<notin> values_free_vars ao"
            show "row_finishes K F f b (Some bv) a (Some av) (\<lambda>n. hm_try fresh (?g n) f1)"
              by (rule row_finishes_fresh [of _ _ _ _ _ _ _ "\<lambda>n r. ?g n r"], rule row_finishes_swap)
                (use row_link [OF ov False] av bv in \<open>simp add: ao_def bo_def\<close>)
          qed
          then show "row_finishes K F f a (Some av) b (Some bv) (\<lambda>n. hm_try (check_extras bv ao) (\<lambda>_. hm_try fresh (?g n)) f1)"
            by (rule row_finishes_swap)
        qed
        with False Some bt show ?thesis by (simp add: row_tails_def)
      qed
    qed
  qed
  then show ?thesis unfolding ao_def bo_def .
qed

text \<open>Fields that can be made equal do not mention the tails of their own rows.\<close>

definition shared_vars :: "row_fields_map \<Rightarrow> row_fields_map \<Rightarrow> type_var set" where
  "shared_vars a b = (\<Union>(ta, tb) \<in> set (shared_fields a b). free_vars ta \<union> free_vars tb)"

lemma shared_varsE:
  assumes "v \<in> shared_vars a b"
  obtains l ta tb where "(l, ta) \<in> set a" "(l, tb) \<in> set b" "map_of b l = Some tb" "v \<in> free_vars ta \<union> free_vars tb"
  using assms by (auto simp: shared_vars_def shared_fields_set dest: map_of_SomeD)

lemma shared_vars_subset: "shared_vars a b \<subseteq> values_free_vars a \<union> values_free_vars b"
  by (fastforce elim: shared_varsE simp: values_free_vars_Union)

lemma shared_vars_sym:
  assumes "sorted_keys a" "sorted_keys b"
  shows "shared_vars a b = shared_vars b a"
  using sorted_keys_distinct [OF assms(1)] sorted_keys_distinct [OF assms(2)]
  by (fastforce simp: shared_vars_def shared_fields_set)

lemma shared_tail:
  assumes a: "row_in K F f k a (Some av)" and b: "row_in K F f k b bt" and k: "k \<noteq> KType"
    and agree: "agree_shared a b \<theta>"
  shows "av \<notin> shared_vars a b"
proof
  assume "av \<in> shared_vars a b"
  then obtain l ta tb where l: "(l, ta) \<in> set a" "(l, tb) \<in> set b" "map_of b l = Some tb" "av \<in> free_vars ta \<union> free_vars tb"
    by (rule shared_varsE)
  have wf: "wf_values K F a" "wf_values K F b" "coherent K F k a (Some av)" "distinct (map fst a)"
    using a b by (auto simp: row_in_def sorted_keys_distinct)
  have "av \<notin> values_free_vars a" by (rule front_acyclic [OF wf(3) k wf(1)])
  then have "av \<in> free_vars tb" using l(1,4) by (auto simp: values_free_vars_Union)
  moreover have "wf_type K F tb" using wf(2) l(2) by (auto simp: wf_values_iff)
  ultimately have "weight K F \<theta> av \<le> gsize (eval \<theta> tb)" by (intro size_below(1))
  moreover have "eval \<theta> ta = eval \<theta> tb"
    using agree_sharedD [OF agree _ l(3)] l(1) wf(4) by simp
  ultimately have "weight K F \<theta> av < msize (gfields (\<theta> av) ++\<^sub>f eval_values \<theta> a)"
    using values_weight [OF wf(4) l(1)] by simp
  then show False using coherent_weight [OF wf(3) k, of \<theta>] by simp
qed

lemma shared_opened:
  assumes ctx: "context_ok K F f" and k: "k \<noteq> KType" and a: "row_in K F f k a at" and b: "row_in K F f k b bt"
    and s: "sorted_keys s" and m: "mgu K F f (shared_vars a b) (agree_shared a b) (map_of s) f1 K1 F1"
  shows "opened K F f k a at b bt s f1 K1 F1"
proof -
  let ?W = "row_vars a at \<union> row_vars b bt"
  have W: "?W \<subseteq> {..<f}" using a b by (auto simp: row_in_def)
  have sub: "shared_vars a b \<subseteq> ?W" using shared_vars_subset [of a b] by blast
  have ag: "agree_shared a b (star \<theta> (map_of s))" for \<theta>
    using mguD(10) [OF m star_models [OF mguD(5) [OF m]]] .
  have srt: "sorted_keys a" "sorted_keys b" using a b by (auto simp: row_in_def)
  have "v \<notin> shared_vars a b" if "v \<in> set_option at \<union> set_option bt" for v
    using that shared_tail [where av = v, OF _ b k ag] shared_tail [where av = v, OF _ a k] a b ag
      shared_vars_sym [OF srt] agree_shared_sym [OF srt] by auto
  moreover have "v \<notin> {f..<f1}" if "v \<in> set_option at \<union> set_option bt" for v using that W by auto
  ultimately have "(set_option at \<union> set_option bt) \<inter> (dom (map_of s) \<union> range_vars (map_of s)) = {}"
    using mguD(6) [OF m] by blast
  with mgu_weaken_vars [OF m sub W] ctx k a b s show ?thesis unfolding opened_def by blast
qed

lemma smaller_ok_mono: "smaller_ok N S \<Longrightarrow> M \<le> N \<Longrightarrow> smaller_ok M S"
  unfolding smaller_ok_def by (meson le_trans less_le_trans)

theorem row_ok:
  assumes ctx: "context_ok K F f" and k: "k \<noteq> KType" and a: "row_in K F f k a at" and b: "row_in K F f k b bt"
    and IH: "smaller_ok (card (row_vars a at \<union> row_vars b bt)) S"
    and sizes: "\<forall>(ta, tb) \<in> set (shared_fields a b). size ta + size tb < S"
  shows "unifier_ok (\<lambda>n. row_unify k E (unify_with_fresh n) n a at b bt) K F f
    (row_vars a at \<union> row_vars b bt) (row_sol a at b bt)"
  unfolding row_unify_def
proof (rule unifier_try [where V = "shared_vars a b" and ?Sol1.0 = "agree_shared a b"])
  let ?W = "row_vars a at \<union> row_vars b bt"
  have W: "?W \<subseteq> {..<f}" "finite ?W" using a b by (auto simp: row_in_def)
  have sub: "shared_vars a b \<subseteq> ?W" using shared_vars_subset [of a b] by blast
  then have V: "shared_vars a b \<subseteq> {..<f}" using W by blast
  have IH': "smaller_ok (card (shared_vars a b)) S"
    by (rule smaller_ok_mono [OF IH card_mono [OF W(2) sub]])
  have wf: "wf_values K F a" "wf_values K F b" using a b by (auto simp: row_in_def)
  have es: "\<forall>(ta, tb) \<in> set (shared_fields a b). wf_type K F ta \<and> wf_type K F tb \<and>
      free_vars ta \<union> free_vars tb \<subseteq> shared_vars a b \<and> size ta + size tb < S"
  proof (intro ballI, clarify)
    fix ta tb
    assume e: "(ta, tb) \<in> set (shared_fields a b)"
    then obtain l where "(l, ta) \<in> set a" "map_of b l = Some tb" by (auto simp: shared_fields_set)
    then have "wf_type K F ta \<and> wf_type K F tb"
      using wf by (auto simp: wf_values_iff dest: map_of_SomeD)
    then show "wf_type K F ta \<and> wf_type K F tb \<and> free_vars ta \<union> free_vars tb \<subseteq> shared_vars a b \<and> size ta + size tb < S"
      using e sizes by (auto simp: shared_vars_def)
  qed
  have m: "mgu K F f (shared_vars a b) (\<lambda>_. True) (map_of []) f K F"
    using mgu_trivial [OF ctx, of "\<lambda>_. True"] by simp
  have agree: "(\<lambda>\<theta>. True \<and> (\<forall>(ta, tb) \<in> set (shared_fields a b). eval \<theta> ta = eval \<theta> tb)) = agree_shared a b"
    by (simp add: agree_shared_def fun_eq_iff)
  show "unifier_ok (\<lambda>n. unify_shared (unify_with_fresh n) n (shared_fields a b) []) K F f (shared_vars a b) (agree_shared a b)"
    using unify_shared_ok [OF ctx V IH' m _ es] unfolding unifier_ok_def agree by simp
  show "agree_shared a b \<theta>" if "row_sol a at b bt \<theta>" for \<theta>
    using that a by (auto simp: row_sol_def row_in_def intro: solves_shared sorted_keys_distinct)
  fix s f1 K1 F1
  assume s: "sorted_keys s" "mgu K F f (shared_vars a b) (agree_shared a b) (map_of s) f1 K1 F1"
  note o = shared_opened [OF ctx k a b s]
  note ao = opened_only(1) [OF opened_swap [OF o]] and bo = opened_only(1) [OF o]
  note fin = opened_finishes [OF o]
  show "\<exists>r. settles (\<lambda>n. hm_try (hm_lift (apply_values n s (only_fields a b))) (\<lambda>a_only.
     hm_try (hm_lift (apply_values n s (only_fields b a))) (\<lambda>b_only. row_tails k E n at bt s a_only b_only)) f1) r \<and>
     unifies K F f ?W (row_sol a at b bt) r"
    unfolding row_finishes_def [symmetric]
    by (rule row_finishes_lift [of "\<lambda>n. apply_values n s (only_fields a b)", OF ao],
        rule row_finishes_lift [of "\<lambda>n. apply_values n s (only_fields b a)", OF bo], rule fin)
qed

end
