(* ===== verification/HM_Unify_Correct.thy ===== *)
theory HM_Unify_Correct
  imports HM_Row_Unify
begin

text \<open>
  The unifier settles on every pair of coherent types, on a most general solution if there is a
  solution and on an error if there is none.
\<close>

section \<open>Rows of types\<close>

lemma smaller_ok_less: "smaller_ok N S \<Longrightarrow> M < N \<Longrightarrow> smaller_ok M S'"
  unfolding smaller_ok_def by (meson le_less_trans less_trans)

lemma size_row_field: "(l, t) \<in> set (row_fields r) \<Longrightarrow> size t < size r"
  by (induction r rule: row_fields.induct) auto

lemma size_present:
  assumes "(l, t) \<in> set (present e)"
  shows "size t < size e"
proof -
  have "size_prod (\<lambda>_. 0) size (l, t) \<le> size_list (size_prod (\<lambda>_. 0) size) (present e)"
    using assms by (rule size_list_estimation') simp
  then show ?thesis by (cases e) simp
qed

lemma shared_sizes:
  assumes "\<And>l t. (l, t) \<in> set a \<Longrightarrow> size t < m" "\<And>l t. (l, t) \<in> set b \<Longrightarrow> size t < n" "m + n \<le> S"
  shows "\<forall>(ta, tb) \<in> set (shared_fields a b). size ta + size tb < S"
proof (intro ballI, clarify)
  fix ta tb
  assume "(ta, tb) \<in> set (shared_fields a b)"
  then obtain l where "(l, ta) \<in> set a" "(l, tb) \<in> set b" by (auto simp: shared_fields_set dest: map_of_SomeD)
  with assms(1,2) have "size ta < m" "size tb < n" by blast+
  with assms(3) show "size ta + size tb < S" by simp
qed

lemma set_to_map: "set (fst (to_map r)) \<subseteq> set (row_fields r)"
  using set_or_insert_all [of "row_fields r" "[]"] by (simp add: to_map_eq)

lemma sim_to_map: "sim (fst (to_map r)) (row_fields r)"
  using sim_or_insert_all [of "row_fields r" "[]"] by (simp add: to_map_eq)

lemma row_in_record:
  assumes "wf_row K F r" "row_free_vars r \<subseteq> {..<f}"
  shows "row_in K F f KRow (fst (to_map r)) (row_tail r)"
proof -
  have "coherent K F KRow (fst (to_map r)) (row_tail r)"
    using assms(1) sim_to_map [of r] sorted_keys_distinct [OF sorted_to_map [of r]]
    by (auto simp: wf_row_def coherent_def intro: sim_trans)
  moreover have "values_free_vars (fst (to_map r)) \<subseteq> values_free_vars (row_fields r)"
    by (rule values_free_vars_mono [OF set_to_map])
  ultimately show ?thesis
    using assms wf_values_subset [OF _ set_to_map, of K F r]
    by (auto simp: row_in_def wf_row_def row_free_vars_parts)
qed

lemma row_sol_record:
  "row_sol (fst (to_map a)) (row_tail a) (fst (to_map b)) (row_tail b) \<theta> \<longleftrightarrow> eval_row \<theta> a = eval_row \<theta> b"
  using sim_to_map [of a] sim_to_map [of b] by (simp add: row_sol_def eval_row_parts sim_def)

lemma unify_rows_ok:
  assumes ctx: "context_ok K F f" and wf: "wf_row K F a" "wf_row K F b"
    and V: "row_free_vars a \<union> row_free_vars b \<subseteq> {..<f}"
    and IH: "smaller_ok (card (row_free_vars a \<union> row_free_vars b)) S" and size: "size a + size b \<le> S"
  shows "unifier_ok (\<lambda>n. unify_rows (unify_with_fresh n) n a b) K F f (row_free_vars a \<union> row_free_vars b)
    (\<lambda>\<theta>. eval_row \<theta> a = eval_row \<theta> b)"
proof -
  let ?a = "fst (to_map a)" and ?b = "fst (to_map b)"
  let ?W = "row_vars ?a (row_tail a) \<union> row_vars ?b (row_tail b)"
  have sub: "?W \<subseteq> row_free_vars a \<union> row_free_vars b"
    using values_free_vars_mono [OF set_to_map, of a] values_free_vars_mono [OF set_to_map, of b]
    by (auto simp: row_free_vars_parts)
  have IH': "smaller_ok (card ?W) S" by (rule smaller_ok_mono [OF IH card_mono [OF _ sub]]) simp
  have sizes: "\<forall>(ta, tb) \<in> set (shared_fields ?a ?b). size ta + size tb < S"
    by (rule shared_sizes [OF _ _ size]) (use set_to_map size_row_field in blast)+
  have "unifier_ok (\<lambda>n. unify_rows (unify_with_fresh n) n a b) K F f ?W (row_sol ?a (row_tail a) ?b (row_tail b))"
    unfolding unify_rows_eq
    by (rule row_ok [OF ctx _ _ _ IH' sizes]) (use row_in_record wf V in auto)
  then have "unifier_ok (\<lambda>n. unify_rows (unify_with_fresh n) n a b) K F f ?W (\<lambda>\<theta>. eval_row \<theta> a = eval_row \<theta> b)"
    by (rule unifier_ok_consequence) (simp_all add: row_sol_record)
  then show ?thesis using sub V by (rule unifier_ok_weaken_vars)
qed

lemma effect_free_vars_parts: "effect_free_vars e = row_vars (present e) (tail e)"
  by (cases e) simp

lemma unify_effect_rows_ok:
  assumes ctx: "context_ok K F f" and wf: "wf_effect K F a" "wf_effect K F b"
    and V: "effect_free_vars a \<union> effect_free_vars b \<subseteq> {..<f}"
    and IH: "smaller_ok (card (effect_free_vars a \<union> effect_free_vars b)) S" and size: "size a + size b \<le> S"
  shows "unifier_ok (\<lambda>n. unify_effect_rows (unify_with_fresh n) n a b) K F f (effect_free_vars a \<union> effect_free_vars b)
    (\<lambda>\<theta>. eval_effect \<theta> a = eval_effect \<theta> b)"
proof -
  have sizes: "\<forall>(ta, tb) \<in> set (shared_fields (present a) (present b)). size ta + size tb < S"
    by (rule shared_sizes [OF size_present size_present size])
  have in': "row_in K F f KEff (present a) (tail a)" "row_in K F f KEff (present b) (tail b)"
    using wf V by (auto simp: row_in_def wf_effect_parts effect_free_vars_parts)
  have "unifier_ok (\<lambda>n. unify_effect_rows (unify_with_fresh n) n a b) K F f (effect_free_vars a \<union> effect_free_vars b)
      (row_sol (present a) (tail a) (present b) (tail b))"
    unfolding unify_effect_rows_eq effect_free_vars_parts
    by (rule row_ok [OF ctx _ in' _ sizes]) (use IH in \<open>simp_all add: effect_free_vars_parts\<close>)
  then show ?thesis
    by (rule unifier_ok_consequence) (simp_all add: row_sol_def eval_effect_parts)
qed

section \<open>Typed values\<close>

definition hm_map_error :: "('e \<Rightarrow> 'g) \<Rightarrow> ('e, 'a) hm \<Rightarrow> ('g, 'a) hm" where
  "hm_map_error g m = (\<lambda>n. case m n of
      Done (Inr x, n') \<Rightarrow> Done (Inr x, n')
    | Done (Inl e, n') \<Rightarrow> Done (Inl (g e), n')
    | Panic \<Rightarrow> Panic
    | Timeout \<Rightarrow> Timeout)"

lemma settles_map:
  assumes "settles g r" "\<And>n. g n = r \<Longrightarrow> h n = r'" "r' \<noteq> Timeout"
  shows "settles h r'"
  using assms unfolding settles_def by metis

lemma unifier_ok_map_error:
  assumes "unifier_ok g K F f V Sol"
  shows "unifier_ok (\<lambda>n. hm_map_error h (g n)) K F f V Sol"
  using assms
proof (cases rule: unifier_okE)
  case panic
  then have "settles (\<lambda>n. hm_map_error h (g n) f) Panic" by (rule settles_map) (simp_all add: hm_map_error_def)
  then show ?thesis unfolding unifier_ok_def by (intro exI [of _ Panic]) simp
next
  case (error e f')
  from error(1) have "settles (\<lambda>n. hm_map_error h (g n) f) (Done (Inl (h e), f'))"
    by (rule settles_map) (simp_all add: hm_map_error_def)
  with error(2,3) show ?thesis unfolding unifier_ok_def by (intro exI [of _ "Done (Inl (h e), f')"]) simp
next
  case (success s f' K' F')
  from success(1) have "settles (\<lambda>n. hm_map_error h (g n) f) (Done (Inr s, f'))"
    by (rule settles_map) (simp_all add: hm_map_error_def)
  with success(2,3) show ?thesis unfolding unifier_ok_def by (intro exI [of _ "Done (Inr s, f')"]) auto
qed

text \<open>The first result decides whether the second problem is refined or only looked at for its error.\<close>

lemma unify_typed_values_eq:
  "unify_typed_values_with_fresh u d a b n =
     (case unify_rows u d (value_row a) (value_row b) n of
        Done (Inr s, n1) \<Rightarrow>
          hm_try (hm_lift (apply_effect_row d s (effect_row a))) (\<lambda>ea.
          hm_try (hm_lift (apply_effect_row d s (effect_row b))) (\<lambda>eb.
          hm_try (hm_map_error (\<lambda>e. TypedValueMismatch None (Some e)) (unify_effect_rows u d ea eb)) (\<lambda>t.
          hm_try (hm_lift (subst_compose d t s)) hm_return))) n1
      | Done (Inl e, n1) \<Rightarrow>
          hm_try (hm_map_error (\<lambda>e'. TypedValueMismatch (Some e) (Some e')) (unify_effect_rows u d (effect_row a) (effect_row b)))
            (\<lambda>_. hm_error (TypedValueMismatch (Some e) None)) n1
      | Panic \<Rightarrow> Panic
      | Timeout \<Rightarrow> Timeout)"
  by (simp add: unify_typed_values_with_fresh_def hm_try_return hm_map_error_def hm_try_def hm_lift_def hm_error_def
      split: outcome.split prod.split sum.split option.split)

text \<open>The context of a later counter, when the first problem has failed.\<close>

lemma context_later:
  assumes "context_ok K F f" "f \<le> f1"
  defines "K1 \<equiv> \<lambda>v. if v < f then K v else KType" and "F1 \<equiv> \<lambda>v. if v < f then F v else []"
  shows "context_ok K1 F1 f1" "\<And>v. v < f \<Longrightarrow> K1 v = K v \<and> (K v \<noteq> KType \<longrightarrow> sim (F v) (F1 v))"
proof -
  show "context_ok K1 F1 f1"
    unfolding context_ok_def
  proof (intro allI impI)
    fix v
    show "kinded_values K1 (F1 v) \<and> values_free_vars (F1 v) \<subseteq> {..<f1}"
    proof (cases "v < f")
      case True
      with context_okD [OF assms(1) True] sim_agree_kinded [of K "F v" f K1] assms(2) show ?thesis
        by (auto simp: K1_def F1_def)
    qed (simp add: F1_def)
  qed
qed (simp_all add: K1_def F1_def)

text \<open>The run on the effect rows for the sake of the diagnostic ends, and never in success.\<close>

lemma effect_rows_again:
  assumes ctx: "context_ok K F f" and wf: "wf_effect K F a" "wf_effect K F b"
    and V: "effect_free_vars a \<union> effect_free_vars b \<subseteq> {..<f}" and le: "f \<le> f1"
    and IH: "smaller_ok (card (effect_free_vars a \<union> effect_free_vars b)) S" and size: "size a + size b \<le> S"
  shows "\<exists>r. settles (\<lambda>n. hm_try (hm_map_error h (unify_effect_rows (unify_with_fresh n) n a b)) (\<lambda>_. hm_error e :: (_, substitution) hm) f1) r \<and>
    (r = Panic \<or> (\<exists>e f2. r = Done (Inl e, f2) \<and> f1 \<le> f2))"
proof -
  note c = context_later [OF ctx le]
  let ?m = "\<lambda>n. hm_map_error h (unify_effect_rows (unify_with_fresh n) n a b)"
  have wf1: "wf_effect (\<lambda>v. if v < f then K v else KType) (\<lambda>v. if v < f then F v else []) e"
    if "wf_effect K F e" "effect_free_vars e \<subseteq> {..<f}" for e
    by (rule wf_agree(3) [OF _ that(2,1)]) (use c(2) in simp)
  have V1: "effect_free_vars a \<union> effect_free_vars b \<subseteq> {..<f1}"
    using V le by (meson lessThan_subset_iff subset_trans)
  have "unifier_ok ?m (\<lambda>v. if v < f then K v else KType) (\<lambda>v. if v < f then F v else []) f1
      (effect_free_vars a \<union> effect_free_vars b) (\<lambda>\<theta>. eval_effect \<theta> a = eval_effect \<theta> b)"
    using V by (intro unifier_ok_map_error unify_effect_rows_ok [OF c(1) wf1 wf1 V1 IH size] wf) auto
  then show ?thesis
  proof (cases rule: unifier_okE)
    case panic
    from settles_try_panic [where m = ?m and f = f1 and k = "\<lambda>n _. hm_error e", OF this] show ?thesis by blast
  next
    case (error e' f2)
    from settles_try_error [where m = ?m and f = f1 and k = "\<lambda>n _. hm_error e", OF error(1)] error(2) show ?thesis by blast
  next
    case (success s f2 K2 F2)
    have "settles (\<lambda>n. (hm_error e :: (_, substitution) hm) f2) (Done (Inl e, f2))" by simp
    from settles_try [where m = ?m and f = f1 and k = "\<lambda>n _. hm_error e", OF success(1) this] mguD(1) [OF success(3)] show ?thesis by blast
  qed
qed

lemma unify_typed_ok:
  assumes ctx: "context_ok K F f" and wf: "wf_type K F (Typed a)" "wf_type K F (Typed b)"
    and V: "free_vars (Typed a) \<union> free_vars (Typed b) \<subseteq> {..<f}"
    and IH: "smaller_ok (card (free_vars (Typed a) \<union> free_vars (Typed b))) S"
    and size: "size (Typed a) + size (Typed b) \<le> S"
  shows "unifier_ok (\<lambda>n. unify_typed_values_with_fresh (unify_with_fresh n) n a b) K F f
    (free_vars (Typed a) \<union> free_vars (Typed b)) (\<lambda>\<theta>. eval \<theta> (Typed a) = eval \<theta> (Typed b))"
proof -
  obtain ra ea rb eb where ab: "a = Typed_Value ra ea" "b = Typed_Value rb eb" by (metis typed_value.exhaust)
  let ?W = "free_vars (Typed a) \<union> free_vars (Typed b)"
  let ?Sol = "\<lambda>\<theta>. eval \<theta> (Typed a) = eval \<theta> (Typed b)"
  let ?g = "\<lambda>n. unify_typed_values_with_fresh (unify_with_fresh n) n a b"
  have wf': "wf_row K F ra" "wf_row K F rb" "wf_effect K F ea" "wf_effect K F eb" using wf ab by simp_all
  have subs: "row_free_vars ra \<union> row_free_vars rb \<subseteq> ?W" "effect_free_vars ea \<union> effect_free_vars eb \<subseteq> ?W" using ab by auto
  have IHs: "smaller_ok (card (row_free_vars ra \<union> row_free_vars rb)) S"
    "smaller_ok (card (effect_free_vars ea \<union> effect_free_vars eb)) S"
    by (rule smaller_ok_mono [OF IH card_mono [OF _ subs(1)]], simp, rule smaller_ok_mono [OF IH card_mono [OF _ subs(2)]], simp)
  have sizes: "size ra + size rb \<le> S" "size ea + size eb \<le> S" using size ab by simp_all
  have "unifier_ok (\<lambda>n. unify_rows (unify_with_fresh n) n ra rb) K F f (row_free_vars ra \<union> row_free_vars rb)
      (\<lambda>\<theta>. eval_row \<theta> ra = eval_row \<theta> rb)"
    by (rule unify_rows_ok [OF ctx wf'(1,2) _ IHs(1) sizes(1)]) (use subs V in blast)
  then show ?thesis
  proof (cases rule: unifier_okE)
    case panic
    then have "settles (\<lambda>n. ?g n f) Panic"
      by (rule settles_map) (simp_all add: unify_typed_values_eq ab)
    then show ?thesis unfolding unifier_ok_def by (intro exI [of _ Panic]) simp
  next
    case (error e f1)
    let ?h = "\<lambda>n. hm_try (hm_map_error (\<lambda>e'. TypedValueMismatch (Some e) (Some e')) (unify_effect_rows (unify_with_fresh n) n ea eb))
      (\<lambda>_. hm_error (TypedValueMismatch (Some e) None) :: (_, substitution) hm) f1"
    have "\<exists>r. settles ?h r \<and> (r = Panic \<or> (\<exists>e f2. r = Done (Inl e, f2) \<and> f1 \<le> f2))"
      by (rule effect_rows_again [OF ctx wf'(3,4) _ error(2) IHs(2) sizes(2)]) (use subs V in blast)
    then obtain r where r: "settles ?h r" "r = Panic \<or> (\<exists>e f2. r = Done (Inl e, f2) \<and> f1 \<le> f2)" by blast
    have "settles (\<lambda>n. ?g n f) r"
      by (rule settles_bind [OF error(1) r(1)]) (simp add: unify_typed_values_eq ab)
    moreover have "unifies K F f ?W ?Sol r"
      using r(2) error(2,3) ab by (auto simp del: free_vars.simps)
    ultimately show ?thesis unfolding unifier_ok_def by blast
  next
    case (success s f1 K1 F1)
    have m: "mgu K F f ?W (\<lambda>\<theta>. eval_row \<theta> ra = eval_row \<theta> rb) (map_of s) f1 K1 F1"
      by (rule mgu_weaken_vars [OF success(3) subs(1) V])
    note rfa = refined [OF ctx m V, of "EffectRow ea"] and rfb = refined [OF ctx m V, of "EffectRow eb"]
    let ?ea = "sub_effect (map_of s) ea" and ?eb = "sub_effect (map_of s) eb"
    have fv: "effect_free_vars ea \<subseteq> ?W" "effect_free_vars eb \<subseteq> ?W" using subs by auto
    have ra: "wf_effect K1 F1 ?ea" "\<And>\<theta>. models \<theta> (map_of s) \<Longrightarrow> eval_effect \<theta> ?ea = eval_effect \<theta> ea"
      "\<And>d. apply_effect_row (Suc d) s ea = Some ?ea"
      using rfa wf'(3) fv by auto
    have rb: "wf_effect K1 F1 ?eb" "\<And>\<theta>. models \<theta> (map_of s) \<Longrightarrow> eval_effect \<theta> ?eb = eval_effect \<theta> eb"
      "\<And>d. apply_effect_row (Suc d) s eb = Some ?eb"
      using rfb wf'(4) fv by auto
    let ?V2 = "effect_free_vars ?ea \<union> effect_free_vars ?eb"
    have V2: "?V2 \<subseteq> (?W \<union> {f..<f1}) - dom (map_of s)" using rfa(2) rfb(2) wf'(3,4) fv by simp
    note bnd = refined_bound [OF m V V2]
    have "\<exists>S'. smaller_ok (card ?V2) S' \<and> size ?ea + size ?eb \<le> S'"
    proof (cases "map_of s = Map.empty")
      case True
      then have "?ea = ea" "?eb = eb" by (auto intro!: sub_id)
      with IHs(2) sizes(2) show ?thesis by auto
    next
      case False
      then have "card ?V2 < card ?W" using bnd(3) by blast
      then show ?thesis using smaller_ok_less [OF IH] by blast
    qed
    then obtain S' where S': "smaller_ok (card ?V2) S'" "size ?ea + size ?eb \<le> S'" by blast
    let ?m = "\<lambda>n. hm_map_error (\<lambda>e. TypedValueMismatch None (Some e)) (unify_effect_rows (unify_with_fresh n) n ?ea ?eb)"
    have u: "unifier_ok ?m K1 F1 f1 ?V2 (\<lambda>\<theta>. eval_effect \<theta> ?ea = eval_effect \<theta> ?eb)"
      by (intro unifier_ok_map_error unify_effect_rows_ok [OF mguD(2) [OF m] ra(1) rb(1) bnd(1) S'])
    have "\<exists>r. settles (\<lambda>n. hm_try (?m n) (\<lambda>t. hm_try (hm_lift (subst_compose n t s)) hm_return) f1) r \<and> unifies K F f ?W ?Sol r"
    proof (rule unifies_compose [where Sol2' = "\<lambda>\<theta>. eval_effect \<theta> ea = eval_effect \<theta> eb", OF ctx V success(2) m V2 _ _ u])
      show "(eval_effect \<theta> ?ea = eval_effect \<theta> ?eb) = (eval_effect \<theta> ea = eval_effect \<theta> eb)" if "models \<theta> (map_of s)" for \<theta>
        using ra(2) [OF that] rb(2) [OF that] by simp
      show "(eval_effect \<theta>' ea = eval_effect \<theta>' eb) = (eval_effect \<theta> ea = eval_effect \<theta> eb)"
        if th: "\<And>v. v < f \<Longrightarrow> \<theta>' v = \<theta> v" for \<theta> \<theta>'
      proof -
        have "effect_free_vars ea \<subseteq> {..<f}" "effect_free_vars eb \<subseteq> {..<f}" using fv V by blast+
        then have "eval_effect \<theta>' ea = eval_effect \<theta> ea" "eval_effect \<theta>' eb = eval_effect \<theta> eb"
          using th by (auto intro!: eval_agree)
        then show ?thesis by simp
      qed
      show "\<exists>r. settles (\<lambda>n. hm_return out f2) r \<and> unifies K F f ?W ?Sol r"
        if "sorted_keys out" "mgu K F f ?W (\<lambda>\<theta>. eval_row \<theta> ra = eval_row \<theta> rb \<and> eval_effect \<theta> ea = eval_effect \<theta> eb) (map_of out) f2 K2 F2"
        for out f2 K2 F2
        using that ab by (intro exI [of _ "Done (Inr out, f2)"]) auto
    qed (simp add: ab)
    then obtain r where r: "settles (\<lambda>n. hm_try (?m n) (\<lambda>t. hm_try (hm_lift (subst_compose n t s)) hm_return) f1) r"
      "unifies K F f ?W ?Sol r" by blast
    have "settles (\<lambda>n. hm_try (hm_lift (apply_effect_row n s ea)) (\<lambda>ea.
          hm_try (hm_lift (apply_effect_row n s eb)) (\<lambda>eb.
          hm_try (hm_map_error (\<lambda>e. TypedValueMismatch None (Some e)) (unify_effect_rows (unify_with_fresh n) n ea eb)) (\<lambda>t.
          hm_try (hm_lift (subst_compose n t s)) hm_return))) f1) r"
      by (rule settles_lift_try [of "\<lambda>n. apply_effect_row n s ea", OF ra(3)],
        rule settles_lift_try [of "\<lambda>n. apply_effect_row n s eb", OF rb(3)]) (rule r(1))
    then have "settles (\<lambda>n. ?g n f) r"
      by (rule settles_bind [OF success(1)]) (simp add: unify_typed_values_eq ab)
    with r(2) show ?thesis unfolding unifier_ok_def by blast
  qed
qed

section \<open>Types\<close>

lemma bind_var_ok:
  assumes ctx: "context_ok K F f" and v: "K v = KType" "v < f" and t: "wf_type K F t" "free_vars t \<subseteq> {..<f}" "t \<noteq> Var v"
  shows "unifier_ok (\<lambda>n. bind_var v t) K F f (insert v (free_vars t)) (\<lambda>\<theta>. \<theta> v = eval \<theta> t)"
proof (cases "v \<in> free_vars t")
  case True
  then have "bind_var v t = hm_error (OccursCheck v t)" by (simp add: bind_var_def occurs_check_iff)
  moreover have "\<theta> v \<noteq> eval \<theta> t" for \<theta>
    using size_below(2) [OF t(1) True t(3), of \<theta>] v by (auto simp: weight_def)
  ultimately show ?thesis
    unfolding unifier_ok_def by (intro exI [of _ "Done (Inl (OccursCheck v t), f)"]) simp
next
  case False
  then have "bind_var v t = hm_return (subst_singleton v t)" by (simp add: bind_var_def occurs_check_iff)
  moreover have "map_of (subst_singleton v t) = [v \<mapsto> t]" "sorted_keys (subst_singleton v t)" by (simp_all add: subst_singleton_def)
  ultimately show ?thesis
    using mgu_bind [OF ctx v t(1,2) False]
    unfolding unifier_ok_def by (intro exI [of _ "Done (Inr (subst_singleton v t), f)"]) auto
qed

lemma arrow_ok:
  assumes ctx: "context_ok K F f" and wf: "wf_type K F (Arrow a1 a2)" "wf_type K F (Arrow b1 b2)"
    and V: "free_vars (Arrow a1 a2) \<union> free_vars (Arrow b1 b2) \<subseteq> {..<f}"
    and IH: "smaller_ok (card (free_vars (Arrow a1 a2) \<union> free_vars (Arrow b1 b2))) S"
    and size: "size (Arrow a1 a2) + size (Arrow b1 b2) \<le> S"
  shows "unifier_ok (\<lambda>n. unify_step (unify_with_fresh n) n (Arrow a1 a2) (Arrow b1 b2)) K F f
    (free_vars (Arrow a1 a2) \<union> free_vars (Arrow b1 b2)) (\<lambda>\<theta>. eval \<theta> (Arrow a1 a2) = eval \<theta> (Arrow b1 b2))"
  unfolding unify_step.simps
proof (rule unifier_try [where ?Sol1.0 = "\<lambda>\<theta>. eval \<theta> a1 = eval \<theta> b1"])
  let ?W = "free_vars (Arrow a1 a2) \<union> free_vars (Arrow b1 b2)"
  let ?Sol = "\<lambda>\<theta>. eval \<theta> (Arrow a1 a2) = eval \<theta> (Arrow b1 b2)"
  have wfs: "wf_type K F a1" "wf_type K F b1" "wf_type K F a2" "wf_type K F b2" using wf by simp_all
  have sub: "free_vars a1 \<union> free_vars b1 \<subseteq> ?W" "free_vars a2 \<subseteq> ?W" "free_vars b2 \<subseteq> ?W" by auto
  have card: "card (free_vars a1 \<union> free_vars b1) \<le> card ?W" by (rule card_mono [OF _ sub(1)]) simp
  have V1: "free_vars a1 \<union> free_vars b1 \<subseteq> {..<f}" using sub(1) V by (rule subset_trans)
  have "unifier_ok (\<lambda>n. unify_with_fresh n a1 b1) K F f (free_vars a1 \<union> free_vars b1) (\<lambda>\<theta>. eval \<theta> a1 = eval \<theta> b1)"
    by (rule smaller_okD [OF IH ctx wfs(1,2) V1]) (use card size in simp)
  then show "unifier_ok (\<lambda>n. unify_with_fresh n a1 b1) K F f ?W (\<lambda>\<theta>. eval \<theta> a1 = eval \<theta> b1)"
    using sub(1) V by (rule unifier_ok_weaken_vars)
  show "eval \<theta> a1 = eval \<theta> b1" if "?Sol \<theta>" for \<theta> using that by simp
  fix s f1 K1 F1
  assume s: "sorted_keys s" "mgu K F f ?W (\<lambda>\<theta>. eval \<theta> a1 = eval \<theta> b1) (map_of s) f1 K1 F1"
  have "\<exists>r. settles (\<lambda>n. hm_try (hm_lift (subst_apply n s a2)) (\<lambda>a'. hm_try (hm_lift (subst_apply n s b2)) (\<lambda>b'.
      hm_try (unify_with_fresh n a' b') (\<lambda>t. hm_try (hm_lift (subst_compose n t s)) hm_return))) f1) r \<and> unifies K F f ?W ?Sol r"
  proof (rule second_problem [OF ctx V IH s(2,1) wfs(3,4) sub(2,3)])
    show "size a2 + size b2 < S" using size by simp
    show "\<exists>r. settles (\<lambda>n. hm_return out f2) r \<and> unifies K F f ?W ?Sol r"
      if "sorted_keys out" "mgu K F f ?W (\<lambda>\<theta>. eval \<theta> a1 = eval \<theta> b1 \<and> eval \<theta> a2 = eval \<theta> b2) (map_of out) f2 K2 F2"
      for out f2 K2 F2
      using that by (intro exI [of _ "Done (Inr out, f2)"]) auto
  qed simp
  then show "\<exists>r. settles (\<lambda>n. hm_try (hm_lift (subst_apply n s a2)) (\<lambda>a2'. hm_try (hm_lift (subst_apply n s b2)) (\<lambda>b2'.
      hm_try (unify_with_fresh n a2' b2') (\<lambda>s2. hm_lift (subst_compose n s2 s)))) f1) r \<and> unifies K F f ?W ?Sol r"
    by (simp add: hm_try_return)
qed

lemma unifier_ok_return:
  "context_ok K F f \<Longrightarrow> (\<And>\<theta>. Sol \<theta>) \<Longrightarrow> unifier_ok (\<lambda>n. hm_return []) K F f V Sol"
  unfolding unifier_ok_def using mgu_trivial [of K F f Sol V] by (intro exI [of _ "Done (Inr [], f)"]) auto

lemma unifier_ok_error: "(\<And>\<theta>. \<not> Sol \<theta>) \<Longrightarrow> unifier_ok (\<lambda>n. hm_error e) K F f V Sol"
  unfolding unifier_ok_def by (intro exI [of _ "Done (Inl e, f)"]) simp

lemma eval_Typed: "eval \<theta> (Typed t) = GTyped (eval_row \<theta> (value_row t)) (eval_effect \<theta> (effect_row t))"
  by (cases t) simp

lemma unify_step_ok:
  assumes ctx: "context_ok K F f" and wf: "wf_type K F a" "wf_type K F b" and V: "free_vars a \<union> free_vars b \<subseteq> {..<f}"
    and IH: "smaller_ok (card (free_vars a \<union> free_vars b)) (size a + size b)"
  shows "unifier_ok (\<lambda>n. unify_step (unify_with_fresh n) n a b) K F f (free_vars a \<union> free_vars b) (\<lambda>\<theta>. eval \<theta> a = eval \<theta> b)"
proof -
  consider (same) v where "a = Var v" "b = Var v" | (left) v where "a = Var v" "b \<noteq> Var v"
    | (right) v where "b = Var v" "\<forall>w. a \<noteq> Var w" | (other) "\<forall>w. a \<noteq> Var w" "\<forall>w. b \<noteq> Var w" by metis
  then show ?thesis
  proof cases
    case same
    then show ?thesis by (simp add: unifier_ok_return [OF ctx])
  next
    case (left v)
    have "unify_step (unify_with_fresh n) n a b = bind_var v b" for n using left by (cases b) auto
    moreover have "unifier_ok (\<lambda>n. bind_var v b) K F f (insert v (free_vars b)) (\<lambda>\<theta>. \<theta> v = eval \<theta> b)"
      by (rule bind_var_ok [OF ctx]) (use left wf V in auto)
    ultimately show ?thesis using left by simp
  next
    case (right v)
    have "unify_step (unify_with_fresh n) n a b = bind_var v a" for n using right by (cases a) auto
    moreover have "unifier_ok (\<lambda>n. bind_var v a) K F f (insert v (free_vars a)) (\<lambda>\<theta>. \<theta> v = eval \<theta> a)"
      by (rule bind_var_ok [OF ctx]) (use right wf V in auto)
    ultimately show ?thesis using right by (simp add: eq_commute)
  next
    case other
    consider (con) x y where "a = Con x" "b = Con y" | (arrow) a1 a2 b1 b2 where "a = Arrow a1 a2" "b = Arrow b1 b2"
      | (rows) ra rb where "a = Record ra" "b = Record rb" | (effect) ea eb where "a = EffectRow ea" "b = EffectRow eb"
      | (typed) ta tb where "a = Typed ta" "b = Typed tb"
      | (clash) "\<And>\<theta>. eval \<theta> a \<noteq> eval \<theta> b" "\<And>n. unify_step (unify_with_fresh n) n a b = hm_error (Mismatch a b)"
      using other by (cases a; cases b; simp add: eval_Typed)
    then show ?thesis
    proof cases
      case con
      then show ?thesis by (cases "x = y") (simp_all add: unifier_ok_return [OF ctx] unifier_ok_error)
    next
      case arrow
      show ?thesis unfolding arrow
        by (rule arrow_ok [OF ctx _ _ _ IH [unfolded arrow]]) (use wf V arrow in simp_all)
    next
      case rows
      have "unifier_ok (\<lambda>n. unify_rows (unify_with_fresh n) n ra rb) K F f (row_free_vars ra \<union> row_free_vars rb)
        (\<lambda>\<theta>. eval_row \<theta> ra = eval_row \<theta> rb)"
        by (rule unify_rows_ok [where S = "size a + size b", OF ctx]) (use wf V IH rows in auto)
      then show ?thesis using rows by simp
    next
      case effect
      have "unifier_ok (\<lambda>n. unify_effect_rows (unify_with_fresh n) n ea eb) K F f (effect_free_vars ea \<union> effect_free_vars eb)
        (\<lambda>\<theta>. eval_effect \<theta> ea = eval_effect \<theta> eb)"
        by (rule unify_effect_rows_ok [where S = "size a + size b", OF ctx]) (use wf V IH effect in auto)
      then show ?thesis using effect by simp
    next
      case typed
      show ?thesis unfolding typed unify_step.simps
        by (rule unify_typed_ok [OF ctx _ _ _ IH [unfolded typed]]) (use wf V typed in simp_all)
    next
      case clash
      then show ?thesis by (simp add: unifier_ok_error)
    qed
  qed
qed

theorem unify_ok:
  assumes "context_ok K F f" "wf_type K F a" "wf_type K F b" "free_vars a \<union> free_vars b \<subseteq> {..<f}"
  shows "unifier_ok (\<lambda>n. unify_with_fresh n a b) K F f (free_vars a \<union> free_vars b) (\<lambda>\<theta>. eval \<theta> a = eval \<theta> b)"
proof -
  have "\<forall>K F f a b. p = (card (free_vars a \<union> free_vars b), size a + size b) \<longrightarrow> context_ok K F f \<longrightarrow> wf_type K F a \<longrightarrow>
    wf_type K F b \<longrightarrow> free_vars a \<union> free_vars b \<subseteq> {..<f} \<longrightarrow>
    unifier_ok (\<lambda>n. unify_with_fresh n a b) K F f (free_vars a \<union> free_vars b) (\<lambda>\<theta>. eval \<theta> a = eval \<theta> b)" for p
  proof (induction p rule: wf_induct_rule [OF wf_lex_prod [OF wf_less_than wf_less_than]])
    case (1 p)
    show ?case
    proof (intro allI impI)
      fix K :: kinding and F :: fronts and f a b
      assume p: "p = (card (free_vars a \<union> free_vars b), size a + size b)"
        and wf: "context_ok K F f" "wf_type K F a" "wf_type K F b" "free_vars a \<union> free_vars b \<subseteq> {..<f}"
      have IH: "smaller_ok (card (free_vars a \<union> free_vars b)) (size a + size b)"
        unfolding smaller_ok_def
      proof (intro allI impI)
        fix K F f a' b'
        assume wf': "context_ok K F f" "wf_type K F a'" "wf_type K F b'" "free_vars a' \<union> free_vars b' \<subseteq> {..<f}"
          and lt: "card (free_vars a' \<union> free_vars b') < card (free_vars a \<union> free_vars b) \<or>
            card (free_vars a' \<union> free_vars b') \<le> card (free_vars a \<union> free_vars b) \<and> size a' + size b' < size a + size b"
        have "((card (free_vars a' \<union> free_vars b'), size a' + size b'), p) \<in> less_than <*lex*> less_than"
          using lt p by auto
        from 1 [OF this] wf'
        show "unifier_ok (\<lambda>n. unify_with_fresh n a' b') K F f (free_vars a' \<union> free_vars b') (\<lambda>\<theta>. eval \<theta> a' = eval \<theta> b')"
          by blast
      qed
      from unify_step_ok [OF wf IH] obtain r where r: "settles (\<lambda>n. unify_step (unify_with_fresh n) n a b f) r"
        "unifies K F f (free_vars a \<union> free_vars b) (\<lambda>\<theta>. eval \<theta> a = eval \<theta> b) r"
        unfolding unifier_ok_def by blast
      have "settles (\<lambda>n. unify_with_fresh n a b f) r"
        by (rule settles_Suc) (use r(1) in simp)
      with r(2) show "unifier_ok (\<lambda>n. unify_with_fresh n a b) K F f (free_vars a \<union> free_vars b) (\<lambda>\<theta>. eval \<theta> a = eval \<theta> b)"
        unfolding unifier_ok_def by blast
    qed
  qed
  with assms show ?thesis by blast
qed

section \<open>Types without row variables\<close>

text \<open>
  On types whose rows are all closed the unifier keeps to such types and makes no variable, so it leaves
  the counter alone and cannot overflow it.
\<close>

subsection \<open>Closed types\<close>

fun closed_type :: "mono_type \<Rightarrow> bool"
  and closed_row :: "row_type \<Rightarrow> bool"
  and closed_values :: "row_fields_map \<Rightarrow> bool"
  and closed_effect :: "effect_row \<Rightarrow> bool" where
  "closed_type (Var v) = True"
| "closed_type (Con _) = True"
| "closed_type (Arrow a b) = (closed_type a \<and> closed_type b)"
| "closed_type (Record row) = closed_row row"
| "closed_type (EffectRow e) = closed_effect e"
| "closed_type (Typed (Typed_Value r e)) = (closed_row r \<and> closed_effect e)"
| "closed_row Empty = True"
| "closed_row (RowVar v) = False"
| "closed_row (Extend _ ty rest) = (closed_type ty \<and> closed_row rest)"
| "closed_values [] = True"
| "closed_values ((_, ty) # m) = (closed_type ty \<and> closed_values m)"
| "closed_effect (Effect_Row p t) = (closed_values p \<and> t = None)"

lemma closed_values_iff: "closed_values m \<longleftrightarrow> (\<forall>(k, ty) \<in> set m. closed_type ty)"
  by (induction m) auto

lemma closed_row_parts: "closed_row row \<longleftrightarrow> closed_values (row_fields row) \<and> row_tail row = None"
  by (induction row rule: row_fields.induct) auto

lemma kinded_closed:
  "kinded (\<lambda>_. KType) t \<Longrightarrow> closed_type t"
  "kinded_row (\<lambda>_. KType) r \<Longrightarrow> closed_row r"
  "kinded_values (\<lambda>_. KType) m \<Longrightarrow> closed_values m"
  "kinded_effect (\<lambda>_. KType) e \<Longrightarrow> closed_effect e"
proof (induction t and r and m and e rule: type_induct)
  case (Effect_Row p t)
  then show ?case by (cases t) auto
qed auto

lemma closed_map_insert: "closed_type ty \<Longrightarrow> closed_values m \<Longrightarrow> closed_values (map_insert k ty m)"
  using set_map_insert [of k ty m] by (auto simp: closed_values_iff)

lemma closed_or_insert_all: "closed_values p \<Longrightarrow> closed_values m \<Longrightarrow> closed_values (or_insert_all p m)"
proof (induction p arbitrary: m)
  case (Cons e p)
  then show ?case by (cases e) (simp add: or_insert_def closed_map_insert)
qed simp

lemma closed_to_map: "closed_row row \<Longrightarrow> closed_values (fst (to_map row)) \<and> snd (to_map row) = None"
  by (simp add: to_map_eq closed_row_parts closed_or_insert_all)

lemma closed_from_map: "closed_values m \<Longrightarrow> closed_row (from_map m None)"
  by (simp add: closed_row_parts)

subsection \<open>Closed substitutions\<close>

definition closed_subst :: "substitution \<Rightarrow> bool" where
  "closed_subst s \<longleftrightarrow> (\<forall>(v, ty) \<in> set s. closed_type ty)"

lemma closed_subst_simps [simp]: "closed_subst []" "closed_subst ((v, ty) # s) \<longleftrightarrow> closed_type ty \<and> closed_subst s"
  by (simp_all add: closed_subst_def)

lemma closed_apply_option:
  assumes "closed_subst s"
  shows "closed_type t \<Longrightarrow> pred_option closed_type (subst_apply d s t)"
    and "closed_row r \<Longrightarrow> pred_option closed_row (apply_row d s r)"
    and "closed_values m \<Longrightarrow> pred_option closed_values (apply_values d s m)"
    and "closed_effect e \<Longrightarrow> pred_option closed_effect (apply_effect_row d s e)"
proof (induction t and r and m and e rule: type_induct)
  case (Var v)
  have "map_of s v = Some t \<Longrightarrow> closed_type t" for t
    using assms map_of_SomeD [of s v t] by (auto simp: closed_subst_def)
  then show ?case by (simp split: option.split)
next
  case (Arrow a b)
  then show ?case by (cases "subst_apply d s a"; cases "subst_apply d s b") simp_all
next
  case (Record row)
  then show ?case by (cases "apply_row d s row") simp_all
next
  case (EffectRow e)
  then show ?case by (cases "apply_effect_row d s e") simp_all
next
  case (Typed r e)
  then show ?case by (cases "apply_row d s r"; cases "apply_effect_row d s e") simp_all
next
  case (Extend f ty rest)
  then show ?case by (cases "subst_apply d s ty"; cases "apply_row d s rest") simp_all
next
  case (Cons k ty m)
  then show ?case by (cases "subst_apply d s ty"; cases "apply_values d s m") simp_all
next
  case (Effect_Row p t)
  then show ?case by (cases "apply_values d s p") simp_all
qed simp_all

lemma closed_apply:
  assumes "closed_subst s"
  shows "closed_type t \<Longrightarrow> subst_apply d s t = Some t' \<Longrightarrow> closed_type t'"
    and "closed_row r \<Longrightarrow> apply_row d s r = Some r' \<Longrightarrow> closed_row r'"
    and "closed_values m \<Longrightarrow> apply_values d s m = Some m' \<Longrightarrow> closed_values m'"
    and "closed_effect e \<Longrightarrow> apply_effect_row d s e = Some e' \<Longrightarrow> closed_effect e'"
  using closed_apply_option [OF assms] by (metis option.pred_inject(2))+

lemma closed_apply_range:
  "closed_subst s \<Longrightarrow> closed_subst m \<Longrightarrow> apply_range d s m = Some m' \<Longrightarrow> closed_subst m'"
proof (induction m arbitrary: m')
  case (Cons e m)
  obtain v ty where e: "e = (v, ty)" by (cases e)
  obtain ty' m1 where r: "subst_apply d s ty = Some ty'" "apply_range d s m = Some m1" "m' = map_insert v ty' m1"
    using Cons.prems(3) by (cases "subst_apply d s ty"; cases "apply_range d s m") (simp_all add: e)
  have "closed_type ty'" "closed_subst m1"
    using closed_apply(1) [OF Cons.prems(1) _ r(1)] Cons.IH [OF Cons.prems(1) _ r(2)] Cons.prems(2) by (simp_all add: e)
  then show ?case using set_map_insert [of v ty' m1] unfolding r(3) closed_subst_def by auto
qed simp

lemma closed_compose:
  assumes "closed_subst s" "closed_subst m" "subst_compose d s m = Some m'"
  shows "closed_subst m'"
proof -
  have ins: "closed_subst (fold (\<lambda>(v, ty) m. map_insert v ty m) xs m1)" if "closed_subst xs" "closed_subst m1" for xs m1
    using that
  proof (induction xs arbitrary: m1)
    case (Cons e xs)
    have "closed_subst (map_insert (fst e) (snd e) m1)"
      using Cons.prems set_map_insert [of "fst e" "snd e" m1] by (auto simp: closed_subst_def)
    with Cons show ?case by (simp add: case_prod_beta closed_subst_def)
  qed simp
  obtain m1 where "apply_range d s m = Some m1" "m' = fold (\<lambda>(v, ty) m. map_insert v ty m) s m1"
    using assms(3) by (auto simp: subst_compose_def)
  with ins closed_apply_range assms(1,2) show ?thesis by blast
qed

subsection \<open>Quiet runs\<close>

text \<open>A run that neither panics nor moves the counter, and whose result is as asked for.\<close>

definition quiet :: "('a \<Rightarrow> bool) \<Rightarrow> ('e, 'a) hm \<Rightarrow> bool" where
  "quiet Q m \<longleftrightarrow> (\<forall>f. case m f of Done (r, g) \<Rightarrow> g = f \<and> (case r of Inr x \<Rightarrow> Q x | Inl e \<Rightarrow> True) | Panic \<Rightarrow> False | Timeout \<Rightarrow> True)"

lemma quiet_return: "Q x \<Longrightarrow> quiet Q (hm_return x)"
  by (simp add: quiet_def)

lemma quiet_error: "quiet Q (hm_error e)"
  by (simp add: quiet_def)

lemma quiet_lift: "(\<And>x. r = Some x \<Longrightarrow> Q x) \<Longrightarrow> quiet Q (hm_lift r)"
  by (cases r) (simp_all add: quiet_def hm_lift_def)

lemma quiet_try: "quiet Q m \<Longrightarrow> (\<And>x. Q x \<Longrightarrow> quiet R (k x)) \<Longrightarrow> quiet R (hm_try m k)"
  unfolding quiet_def hm_try_def by (fastforce split: outcome.splits sum.splits prod.splits)

lemmas quiet_intros = quiet_return quiet_error quiet_lift quiet_try

lemma quiet_bind_var: "closed_type t \<Longrightarrow> quiet closed_subst (bind_var v t)"
  by (simp add: bind_var_def subst_singleton_def quiet_return quiet_error)

lemma quiet_shared:
  assumes "\<And>a b. closed_type a \<Longrightarrow> closed_type b \<Longrightarrow> quiet closed_subst (u a b)"
  shows "\<forall>(a, b) \<in> set es. closed_type a \<and> closed_type b \<Longrightarrow> closed_subst s \<Longrightarrow> quiet closed_subst (unify_shared u d es s)"
proof (induction es arbitrary: s)
  case (Cons e es)
  obtain a b where e: "e = (a, b)" by (cases e)
  have ab: "closed_type a" "closed_type b" and es: "\<forall>(a, b) \<in> set es. closed_type a \<and> closed_type b"
    using Cons.prems(1) e by auto
  note ap = closed_apply(1) [OF Cons.prems(2)]
  have "quiet closed_subst (hm_try (u a' b') (\<lambda>s'. hm_try (hm_lift (subst_compose d s' s)) (unify_shared u d es)))"
    if "closed_type a'" "closed_type b'" for a' b'
    by (rule quiet_try [OF assms [OF that]], rule quiet_try [OF quiet_lift [where Q = closed_subst]])
      (use Cons.IH [OF es] closed_compose Cons.prems(2) in blast)+
  then show ?case unfolding e unify_shared.simps
    by (intro quiet_try [OF quiet_lift [where Q = closed_type]]) (use ap ab in blast)+
qed (simp add: quiet_return)

lemma closed_shared:
  assumes "closed_values p" "closed_values q"
  shows "\<forall>(a, b) \<in> set (shared_fields p q). closed_type a \<and> closed_type b"
proof -
  have "closed_type b" if "map_of q k = Some b" for k b
    using assms(2) map_of_SomeD [OF that] by (auto simp: closed_values_iff)
  then show ?thesis using assms(1)
    by (auto simp: shared_fields_def closed_values_iff List.map_filter_def split: option.splits)
qed

lemma quiet_any: "quiet (\<lambda>_. True) (hm_lift r)"
  by (rule quiet_lift) simp

lemma quiet_rows:
  assumes "\<And>a b. closed_type a \<Longrightarrow> closed_type b \<Longrightarrow> quiet closed_subst (u a b)" "closed_row a" "closed_row b"
  shows "quiet closed_subst (unify_rows u d a b)"
proof -
  obtain p q where p: "to_map a = (p, None)" "closed_values p" and q: "to_map b = (q, None)" "closed_values q"
    using closed_to_map [OF assms(2)] closed_to_map [OF assms(3)] by (cases "to_map a"; cases "to_map b") auto
  have "quiet closed_subst (unify_shared u d (shared_fields p q) [])"
    by (rule quiet_shared [OF assms(1) closed_shared [OF p(2) q(2)]]) simp_all
  then show ?thesis unfolding unify_rows_def p(1) q(1)
    by (auto intro!: quiet_try [OF _ quiet_try [OF quiet_any quiet_try [OF quiet_any]]] quiet_return quiet_error)
qed

lemma quiet_effects:
  assumes "\<And>a b. closed_type a \<Longrightarrow> closed_type b \<Longrightarrow> quiet closed_subst (u a b)" "closed_effect a" "closed_effect b"
  shows "quiet closed_subst (unify_effect_rows u d a b)"
proof -
  obtain p q where p: "a = Effect_Row p None" "closed_values p" and q: "b = Effect_Row q None" "closed_values q"
    using assms(2,3) by (cases a; cases b) auto
  have "quiet closed_subst (unify_shared u d (shared_fields p q) [])"
    by (rule quiet_shared [OF assms(1) closed_shared [OF p(2) q(2)]]) simp_all
  then show ?thesis unfolding unify_effect_rows_def p(1) q(1)
    by (auto intro!: quiet_try [OF _ quiet_try [OF quiet_any quiet_try [OF quiet_any]]] quiet_return quiet_error)
qed

lemma quiet_handle:
  assumes m: "quiet Q m" and k: "\<And>x. Q x \<Longrightarrow> quiet R (k x)" and h: "\<And>e. quiet R (h e)"
  shows "quiet R (\<lambda>n. case m n of
      Done (Inr x, n1) \<Rightarrow> k x n1
    | Done (Inl e, n1) \<Rightarrow> h e n1
    | Panic \<Rightarrow> Panic
    | Timeout \<Rightarrow> Timeout)"
  unfolding quiet_def
proof
  fix f
  show "case (case m f of Done (Inr x, n1) \<Rightarrow> k x n1 | Done (Inl e, n1) \<Rightarrow> h e n1 | Panic \<Rightarrow> Panic | Timeout \<Rightarrow> Timeout) of
      Done (r, g) \<Rightarrow> g = f \<and> (case r of Inr x \<Rightarrow> R x | Inl e \<Rightarrow> True) | Panic \<Rightarrow> False | Timeout \<Rightarrow> True"
  proof (cases "m f")
    case (Done y)
    obtain x g where y: "y = (x, g)" by (cases y)
    show ?thesis
    proof (cases x)
      case (Inl e)
      then have "g = f" using m Done y by (auto simp: quiet_def dest: spec [of _ f])
      then show ?thesis using h [of e] Done y Inl by (simp add: quiet_def)
    next
      case (Inr z)
      then have "Q z" "g = f" using m Done y by (auto simp: quiet_def dest: spec [of _ f])
      then show ?thesis using k [of z] Done y Inr by (simp add: quiet_def)
    qed
  next
    case Panic
    then show ?thesis using m by (auto simp: quiet_def dest: spec [of _ f])
  qed simp
qed

lemma quiet_failure: "quiet R (\<lambda>n. Done (Inl e, n))"
  by (simp add: quiet_def)

lemma quiet_typed:
  assumes u: "\<And>a b. closed_type a \<Longrightarrow> closed_type b \<Longrightarrow> quiet closed_subst (u a b)"
    and a: "closed_type (Typed a)" and b: "closed_type (Typed b)"
  shows "quiet closed_subst (unify_typed_values_with_fresh u d a b)"
proof -
  obtain ra ea rb eb where ab: "a = Typed_Value ra ea" "b = Typed_Value rb eb" by (cases a; cases b)
  have c: "closed_row ra" "closed_effect ea" "closed_row rb" "closed_effect eb" using a b by (simp_all add: ab)
  have rows: "quiet closed_subst (unify_rows u d ra rb)" and effects: "quiet closed_subst (unify_effect_rows u d ea eb)"
    by (rule quiet_rows quiet_effects; use u c in blast)+
  show ?thesis
    unfolding unify_typed_values_with_fresh_def ab typed_value.sel
  proof (rule quiet_handle [OF rows])
    fix s :: substitution
    assume s: "closed_subst s"
    show "quiet closed_subst
      (hm_try (hm_lift (apply_effect_row d s ea)) (\<lambda>a_eff.
       hm_try (hm_lift (apply_effect_row d s eb)) (\<lambda>b_eff n2.
       case unify_effect_rows u d a_eff b_eff n2 of
         Done (Inr subst_e, n3) \<Rightarrow> hm_lift (subst_compose d subst_e s) n3
       | Done (Inl e, n3) \<Rightarrow> Done (Inl (TypedValueMismatch None (Some e)), n3)
       | Panic \<Rightarrow> Panic
       | Timeout \<Rightarrow> Timeout)))"
    proof (rule quiet_try [OF quiet_lift [where Q = closed_effect]], goal_cases)
      case (2 ea')
      show ?case
      proof (rule quiet_try [OF quiet_lift [where Q = closed_effect]], goal_cases)
        case (2 eb')
        from quiet_effects [of u ea' eb' d, OF u \<open>closed_effect ea'\<close> 2] show ?case
          by (rule quiet_handle) (use closed_compose s in \<open>blast intro: quiet_lift quiet_failure\<close>)+
      qed (use closed_apply(4) [OF s] c in blast)
    qed (use closed_apply(4) [OF s] c in blast)
  qed (rule quiet_handle [OF effects], (rule quiet_failure)+)
qed

lemma quiet_arrow:
  assumes u: "\<And>a b. closed_type a \<Longrightarrow> closed_type b \<Longrightarrow> quiet closed_subst (u a b)"
    and ab: "closed_type (Arrow a1 a2)" "closed_type (Arrow b1 b2)"
  shows "quiet closed_subst (unify_step u d (Arrow a1 a2) (Arrow b1 b2))"
  unfolding unify_step.simps
proof (rule quiet_try [of closed_subst], goal_cases)
  case 1
  then show ?case using u ab by simp
next
  case (2 s)
  note ap = closed_apply(1) [OF 2]
  have "quiet closed_subst (hm_try (u a' b') (\<lambda>s'. hm_lift (subst_compose d s' s)))" if "closed_type a'" "closed_type b'" for a' b'
    by (rule quiet_try [OF u [OF that] quiet_lift]) (use closed_compose 2 in blast)
  then show ?case
    by (intro quiet_try [OF quiet_lift [where Q = closed_type]]) (use ap ab in auto)
qed

lemma quiet_step:
  assumes u: "\<And>a b. closed_type a \<Longrightarrow> closed_type b \<Longrightarrow> quiet closed_subst (u a b)"
    and "closed_type a" "closed_type b"
  shows "quiet closed_subst (unify_step u d a b)"
proof (cases a)
  case (Arrow a1 a2)
  then show ?thesis using assms quiet_arrow [of u a1 a2 _ _ d]
    by (cases b) (simp_all del: unify_step.simps(5) add: quiet_bind_var quiet_error)
qed (cases b; use assms quiet_rows [of u _ _ d] quiet_effects [of u _ _ d] quiet_typed [of u _ _ d]
    in \<open>simp add: quiet_bind_var quiet_error quiet_return\<close>)+

lemma quiet_unify: "closed_type a \<Longrightarrow> closed_type b \<Longrightarrow> quiet closed_subst (unify_with_fresh d a b)"
proof (induction d arbitrary: a b)
  case 0
  then show ?case by (simp add: quiet_def)
next
  case (Suc d)
  then show ?case unfolding unify_with_fresh.simps by (intro quiet_step) blast+
qed

text \<open>So the outcome it settles on is no panic, and the counter is what it was.\<close>

lemma closed_settles:
  assumes "closed_type a" "closed_type b" "settles (\<lambda>n. unify_with_fresh n a b f) r"
  shows "\<exists>x. r = Done (x, f)"
proof -
  obtain n where "unify_with_fresh n a b f = r" "r \<noteq> Timeout" using assms(3) by (auto simp: settles_def)
  moreover from quiet_unify [OF assms(1,2), of n]
  have "case unify_with_fresh n a b f of Done (r, g) \<Rightarrow> g = f | Panic \<Rightarrow> False | Timeout \<Rightarrow> True"
    unfolding quiet_def by (auto split: outcome.splits dest: spec [of _ f])
  ultimately show ?thesis by (cases r) auto
qed

end
