(* ===== verification/HM_Schemes.thy ===== *)
theory HM_Schemes
  imports HM_Unify_Correct
begin

text \<open>
  Type schemes and environments: the set of ground types a scheme stands for, the invariant of the
  environments Algorithm W works with, and that refining an environment keeps both.
\<close>

section \<open>Free variables of refined types\<close>

lemma set_map_insert_new: "k \<notin> keys m \<Longrightarrow> set (map_insert k v m) = insert (k, v) (set m)"
  by (induction k v m rule: map_insert.induct) auto

lemma set_or_insert_all_disjoint:
  "distinct (map fst n) \<Longrightarrow> keys n \<inter> keys m = {} \<Longrightarrow> set (or_insert_all n m) = set n \<union> set m"
proof (induction n arbitrary: m)
  case (Cons p n)
  obtain k v where p: "p = (k, v)" by (cases p)
  have k: "k \<notin> keys m" "k \<notin> keys n" using Cons.prems p by auto
  then have "set (or_insert k v m) = insert (k, v) (set m)" by (simp add: or_insert_def set_map_insert_new)
  moreover have "keys n \<inter> keys (or_insert k v m) = {}" using Cons.prems k p by simp
  ultimately show ?case using Cons p by simp
qed simp

lemma tail_sub_vars:
  assumes "fitting K \<sigma>" "\<forall>v \<in> set_option rt. K v = k" "k \<noteq> KType"
  shows "values_free_vars (fst (tail_sub k \<sigma> rt)) \<union> set_option (snd (tail_sub k \<sigma> rt)) = (\<Union>v \<in> set_option rt. image_vars \<sigma> v)"
proof (cases rt)
  case (Some v)
  show ?thesis
  proof (cases "\<sigma> v")
    case (Some u)
    have "K v = k" using assms(2) \<open>rt = Some v\<close> by simp
    with fittingD [OF assms(1) Some] obtain G rt' where G: "row_part k u = Some (G, rt')"
      using assms(3) by (auto simp: fits_def)
    consider "k = KRow" | "k = KEff" using assms(3) by (cases k) auto
    then have "free_vars u = values_free_vars G \<union> set_option rt'"
      by cases (use G in \<open>auto simp: row_part_KRow row_part_KEff row_free_vars_parts\<close>)
    with G Some \<open>rt = Some v\<close> show ?thesis by (simp add: tail_sub_def image_vars_def)
  qed (use Some in \<open>simp add: tail_sub_def image_vars_def\<close>)
qed (simp add: tail_sub_def)

lemma row_image:
  assumes "solved S K F \<sigma> K' F'" "fitting K' \<sigma>" "wf_row K F r" "row_free_vars r \<subseteq> S"
    and "values_free_vars (sub_values \<sigma> (row_fields r)) = (\<Union>v \<in> values_free_vars (row_fields r). image_vars \<sigma> v)"
  shows "row_free_vars (sub_row \<sigma> r) = (\<Union>v \<in> row_free_vars r. image_vars \<sigma> v)"
proof -
  have k: "kinded_row K' r"
    using wf_row_kinded [OF assms(3)] kinded_agree(2) [of r K K'] assms(4) solved_kind [OF assms(1)] by blast
  then have "\<forall>v \<in> set_option (row_tail r). K' v = KRow" by (simp add: kinded_row_parts)
  from tail_sub_vars [OF assms(2) this] show ?thesis
    by (simp add: row_free_vars_parts row_parts_sub_row [OF assms(2) k] assms(5) Un_assoc UN_Un)
qed

lemma effect_image:
  assumes "solved S K F \<sigma> K' F'" "fitting K' \<sigma>" "wf_effect K F e" "effect_free_vars e \<subseteq> S"
    and "values_free_vars (sub_values \<sigma> (present e)) = (\<Union>v \<in> values_free_vars (present e). image_vars \<sigma> v)"
  shows "effect_free_vars (sub_effect \<sigma> e) = (\<Union>v \<in> effect_free_vars e. image_vars \<sigma> v)"
proof -
  have k: "kinded_effect K' e"
    using wf_kinded(3) [OF assms(3)] kinded_agree(4) [of e K K'] assms(4) solved_kind [OF assms(1)] by blast
  then have kv: "kinded_values K' (present e)" "\<forall>v \<in> set_option (tail e). K' v = KEff" by (cases e; simp)+
  obtain G rt' where G: "tail_sub KEff \<sigma> (tail e) = (G, rt')" by fastforce
  have "fronted K F KEff (present e) (tail e)" "set_option (tail e) \<subseteq> S"
    using assms(3,4) by (auto simp: wf_effect_parts coherent_fronted effect_free_vars_parts)
  note tf = tail_sub_fronted [OF assms(1,2) this(1) _ this(2) kv(1) G]
  have "distinct (map fst G)" "keys G \<inter> keys (sub_values \<sigma> (present e)) = {}"
    using tf unfolding keys_sub_values by blast+
  then have "set (or_insert_all G (sub_values \<sigma> (present e))) = set G \<union> set (sub_values \<sigma> (present e))"
    by (rule set_or_insert_all_disjoint)
  then have "values_free_vars (or_insert_all G (sub_values \<sigma> (present e))) =
      values_free_vars G \<union> values_free_vars (sub_values \<sigma> (present e))"
    by (simp add: values_free_vars_Union)
  with tail_sub_vars [OF assms(2) kv(2)] G show ?thesis
    by (simp add: effect_free_vars_parts parts_sub_effect [OF assms(2) k] assms(5)) blast
qed

lemma image_aux:
  assumes "solved S K F \<sigma> K' F'" "fitting K' \<sigma>"
  shows "wf_type K F t \<Longrightarrow> free_vars t \<subseteq> S \<Longrightarrow> free_vars (sub \<sigma> t) = (\<Union>v \<in> free_vars t. image_vars \<sigma> v)"
    and "wf_row_types K F r \<Longrightarrow> row_free_vars r \<subseteq> S \<Longrightarrow>
      values_free_vars (sub_values \<sigma> (row_fields r)) = (\<Union>v \<in> values_free_vars (row_fields r). image_vars \<sigma> v)"
    and "wf_values K F m \<Longrightarrow> values_free_vars m \<subseteq> S \<Longrightarrow>
      values_free_vars (sub_values \<sigma> m) = (\<Union>v \<in> values_free_vars m. image_vars \<sigma> v)"
    and "wf_effect K F e \<Longrightarrow> effect_free_vars e \<subseteq> S \<Longrightarrow>
      effect_free_vars (sub_effect \<sigma> e) = (\<Union>v \<in> effect_free_vars e. image_vars \<sigma> v)"
proof (induction t and r and m and e rule: type_induct)
  case (Var v)
  then show ?case by (auto simp: image_vars_def split: option.split)
next
  case (Record r)
  with row_image [OF assms, of r] show ?case by (auto simp: wf_row_def wf_row_types_fields)
next
  case (Typed r e)
  with row_image [OF assms, of r] show ?case by (auto simp: wf_row_def wf_row_types_fields)
next
  case (Effect_Row p t)
  with effect_image [OF assms, of "Effect_Row p t"] show ?case by auto
qed auto

lemmas free_vars_image = image_aux(1)

section \<open>Sets of variables closed under fronts\<close>

definition closed :: "kinding \<Rightarrow> fronts \<Rightarrow> type_var set \<Rightarrow> bool" where
  "closed K F V \<longleftrightarrow> (\<forall>v \<in> V. front_vars K F v V)"

lemma closed_Un: "closed K F V \<Longrightarrow> closed K F W \<Longrightarrow> closed K F (V \<union> W)"
  by (auto simp: closed_def intro: front_vars_mono)

lemma closed_Int: "closed K F V \<Longrightarrow> closed K F W \<Longrightarrow> closed K F (V \<inter> W)"
  by (auto simp: closed_def intro: front_vars_Int)

lemma closed_UN: "(\<And>x. x \<in> A \<Longrightarrow> closed K F (V x)) \<Longrightarrow> closed K F (\<Union>x \<in> A. V x)"
  unfolding closed_def by (blast intro: front_vars_mono)

lemma closed_type: "wf_type K F t \<Longrightarrow> closed K F (free_vars t)"
  by (simp add: closed_def wf_front_vars(1))

lemma star_agree: "(\<And>w. w \<in> image_vars \<sigma> v \<Longrightarrow> \<theta> w = \<theta>' w) \<Longrightarrow> star \<theta> \<sigma> v = star \<theta>' \<sigma> v"
  by (auto simp: star_def image_vars_def intro: eval_agree(1) split: option.splits)

lemma closed_image:
  assumes "solved S K F \<sigma> K' F'" "fitting K' \<sigma>" "closed K F V" "V \<subseteq> S"
  shows "closed K' F' (\<Union>v \<in> V. image_vars \<sigma> v)"
  unfolding closed_def
proof
  let ?W = "\<Union>v \<in> V. image_vars \<sigma> v"
  fix v
  assume "v \<in> ?W"
  then obtain w where w: "w \<in> V" "v \<in> image_vars \<sigma> w" by blast
  then have wS: "w \<in> S" using assms(4) by blast
  note sD = solvedD [OF assms(1) wS]
  have dep: "eval_values \<theta> (sub_values \<sigma> (F w)) = eval_values \<theta>' (sub_values \<sigma> (F w))"
    if agree: "\<forall>x \<in> ?W. \<theta> x = \<theta>' x" and k: "K w \<noteq> KType" for \<theta> \<theta>'
  proof -
    have "eval_values (star \<theta> \<sigma>) (F w) = eval_values (star \<theta>' \<sigma>) (F w)"
      by (rule front_varsD [of K F w V]) (use assms(3) w k agree in \<open>auto simp: closed_def intro: star_agree\<close>)
    then show ?thesis by (simp add: eval_sub(3) [OF assms(2) sD(2)])
  qed
  show "front_vars K' F' v ?W"
  proof (cases "\<sigma> w")
    case None
    then have [simp]: "v = w" using w(2) by (simp add: image_vars_def)
    show ?thesis
      unfolding front_vars_def using dep sD(1,3) None by (auto simp: sim_def)
  next
    case (Some u)
    then have v: "v \<in> free_vars u" "free_vars u \<subseteq> ?W" using w by (auto simp: image_vars_def)
    show ?thesis
    proof (cases "K w = KType")
      case True
      then show ?thesis using wf_front_vars(1) [OF sD(4) [OF Some True] v(1)] v(2) by (auto intro: front_vars_mono)
    next
      case False
      obtain G rt where G: "row_part (K w) u = Some (G, rt)" "wf_values K' F' G"
        "fronted K' F' (K w) (sub_values \<sigma> (F w) @ G) rt"
        using sD(5) [OF Some False] by (auto simp: tail_binding_def)
      consider "K w = KRow" | "K w = KEff" using False by (cases "K w") auto
      then have fu: "free_vars u = values_free_vars G \<union> set_option rt"
        by cases (use G(1) in \<open>auto simp: row_part_KRow row_part_KEff row_free_vars_parts\<close>)
      show ?thesis
      proof (cases "v \<in> values_free_vars G")
        case True
        from wf_front_vars(2) [OF G(2) this] show ?thesis by (rule front_vars_mono) (use fu v(2) in blast)
      next
        case no: False
        then have "sim (sub_values \<sigma> (F w) @ G) (F' v)" using fu v(1) G(3) by (auto simp: fronted_def)
        moreover have "eval_values \<theta> G = eval_values \<theta>' G" if "\<forall>x \<in> ?W. \<theta> x = \<theta>' x" for \<theta> \<theta>'
          by (rule eval_agree(3)) (use that fu v(2) in blast)
        ultimately show ?thesis
          unfolding front_vars_def sim_def eval_values_append using dep False by metis
      qed
    qed
  qed
qed

section \<open>Schemes\<close>

definition inst :: "kinding \<Rightarrow> fronts \<Rightarrow> nat \<Rightarrow> type_scheme \<Rightarrow> valuation \<Rightarrow> gtype set" where
  "inst K F f sch \<theta> =
     {eval \<theta>' (body sch) | \<theta>'. admissible K F f \<theta>' \<and> (\<forall>v < f. v \<notin> set (quantified sch) \<longrightarrow> \<theta>' v = \<theta> v)}"

definition scheme_ok :: "kinding \<Rightarrow> fronts \<Rightarrow> nat \<Rightarrow> type_scheme \<Rightarrow> bool" where
  "scheme_ok K F f sch \<longleftrightarrow>
     wf_type K F (body sch) \<and> free_vars (body sch) \<subseteq> {..<f} \<and> set (quantified sch) \<subseteq> {..<f} \<and>
     distinct (quantified sch) \<and> closed K F (scheme_free_vars sch)"

definition env_ok :: "kinding \<Rightarrow> fronts \<Rightarrow> nat \<Rightarrow> type_env \<Rightarrow> bool" where
  "env_ok K F f env \<longleftrightarrow>
     (\<forall>(x, sch) \<in> set env. scheme_ok K F f sch \<and> set (quantified sch) \<inter> env_free_vars env = {})"

definition env_val :: "kinding \<Rightarrow> fronts \<Rightarrow> nat \<Rightarrow> type_env \<Rightarrow> valuation \<Rightarrow> string \<rightharpoonup> gtype set" where
  "env_val K F f env \<theta> = (\<lambda>x. map_option (\<lambda>sch. inst K F f sch \<theta>) (env_lookup env x))"

definition sub_scheme :: "(type_var \<rightharpoonup> mono_type) \<Rightarrow> type_scheme \<Rightarrow> type_scheme" where
  "sub_scheme \<sigma> sch = \<lparr>quantified = quantified sch, body = sub \<sigma> (body sch)\<rparr>"

definition sub_env :: "(type_var \<rightharpoonup> mono_type) \<Rightarrow> type_env \<Rightarrow> type_env" where
  "sub_env \<sigma> env = map (\<lambda>(x, sch). (x, sub_scheme \<sigma> sch)) env"

lemma scheme_okD:
  assumes "scheme_ok K F f sch"
  shows "wf_type K F (body sch)" "free_vars (body sch) \<subseteq> {..<f}" "set (quantified sch) \<subseteq> {..<f}"
    "distinct (quantified sch)" "closed K F (scheme_free_vars sch)"
  using assms by (simp_all add: scheme_ok_def)

lemma env_okD:
  assumes "env_ok K F f env" "(x, sch) \<in> set env"
  shows "scheme_ok K F f sch" "set (quantified sch) \<inter> env_free_vars env = {}" "scheme_free_vars sch \<subseteq> env_free_vars env"
proof -
  show "scheme_ok K F f sch" "set (quantified sch) \<inter> env_free_vars env = {}"
    using bspec [OF assms(1) [unfolded env_ok_def] assms(2)] by simp_all
  show "scheme_free_vars sch \<subseteq> env_free_vars env" using assms(2) by (auto simp: env_free_vars_def)
qed

lemma env_ok_vars:
  assumes "env_ok K F f env"
  shows "env_free_vars env \<subseteq> {..<f}" "closed K F (env_free_vars env)"
proof -
  show "env_free_vars env \<subseteq> {..<f}"
    using assms by (fastforce simp: env_ok_def env_free_vars_def scheme_ok_def scheme_free_vars_def)
  show "closed K F (env_free_vars env)"
    unfolding env_free_vars_def by (rule closed_UN) (use assms in \<open>auto simp: env_ok_def scheme_ok_def\<close>)
qed

text \<open>A scheme whose quantified variables are not touched by the substitution.\<close>

lemma scheme_untouched:
  assumes "refines K F f V \<sigma> f' K' F'" "scheme_ok K F f sch" "set (quantified sch) \<inter> V = {}"
  shows "set (quantified sch) \<inter> (dom \<sigma> \<union> range_vars \<sigma>) = {}"
proof -
  have "set (quantified sch) \<inter> (V \<union> {f..<f'}) = {}" using assms(3) scheme_okD(3) [OF assms(2)] by auto
  with refinesD(6) [OF assms(1)] show ?thesis by blast
qed

lemma image_untouched:
  assumes "Q \<inter> (dom \<sigma> \<union> range_vars \<sigma>) = {}"
  shows "(\<Union>v \<in> V. image_vars \<sigma> v) - Q = (\<Union>v \<in> V - Q. image_vars \<sigma> v)"
proof -
  have inQ: "image_vars \<sigma> v \<subseteq> Q" if "v \<in> Q" for v
  proof -
    have "\<sigma> v = None" using that assms by auto
    then show ?thesis using that by (simp add: image_vars_def)
  qed
  have outQ: "image_vars \<sigma> v \<inter> Q = {}" if "v \<notin> Q" for v
  proof -
    have "image_vars \<sigma> v \<subseteq> {v} \<union> range_vars \<sigma>" using image_vars_subset [of \<sigma> v] by blast
    moreover have "({v} \<union> range_vars \<sigma>) \<inter> Q = {}" using that assms by auto
    ultimately show ?thesis by blast
  qed
  show ?thesis
  proof (intro equalityI subsetI)
    fix w
    assume "w \<in> (\<Union>v \<in> V. image_vars \<sigma> v) - Q"
    then obtain v where v: "v \<in> V" "w \<in> image_vars \<sigma> v" "w \<notin> Q" by blast
    with inQ have "v \<notin> Q" by blast
    with v show "w \<in> (\<Union>v \<in> V - Q. image_vars \<sigma> v)" by blast
  next
    fix w
    assume "w \<in> (\<Union>v \<in> V - Q. image_vars \<sigma> v)"
    then obtain v where "v \<in> V" "v \<notin> Q" "w \<in> image_vars \<sigma> v" by blast
    with outQ show "w \<in> (\<Union>v \<in> V. image_vars \<sigma> v) - Q" by blast
  qed
qed

lemma scheme_ok_sub:
  assumes r: "refines K F f V \<sigma> f' K' F'" and s: "scheme_ok K F f sch"
    and Q: "set (quantified sch) \<inter> V = {}" and V: "V \<subseteq> {..<f}"
  shows "scheme_free_vars (sub_scheme \<sigma> sch) = (\<Union>v \<in> scheme_free_vars sch. image_vars \<sigma> v)"
    and "scheme_ok K' F' f' (sub_scheme \<sigma> sch)"
proof -
  note a = refinesD [OF r] and sd = scheme_okD [OF s]
  have fv: "free_vars (sub \<sigma> (body sch)) = (\<Union>v \<in> free_vars (body sch). image_vars \<sigma> v)"
    by (rule free_vars_image [OF a(7,4) sd(1,2)])
  show free: "scheme_free_vars (sub_scheme \<sigma> sch) = (\<Union>v \<in> scheme_free_vars sch. image_vars \<sigma> v)"
    using fv image_untouched [OF scheme_untouched [OF r s Q]] by (simp add: scheme_free_vars_def sub_scheme_def)
  have "scheme_free_vars sch \<subseteq> {..<f}" using sd(2) by (auto simp: scheme_free_vars_def)
  from closed_image [OF a(7,4) sd(5) this] have "closed K' F' (scheme_free_vars (sub_scheme \<sigma> sch))" by (simp add: free)
  moreover have "wf_type K' F' (sub \<sigma> (body sch))" by (rule wf_sub(1) [OF a(7,4) sd(1,2)])
  moreover have "free_vars (sub \<sigma> (body sch)) \<subseteq> {..<f'}"
    using fv Union_image_vars [of \<sigma> "free_vars (body sch)"] refines_vars [OF r V] sd(2) a(1) by fastforce
  ultimately show "scheme_ok K' F' f' (sub_scheme \<sigma> sch)"
    using sd(3,4) a(1) by (auto simp: scheme_ok_def sub_scheme_def)
qed

text \<open>Refining a scheme keeps the ground types it stands for.\<close>

lemma star_off:
  assumes r: "refines K F f V \<sigma> f' K' F'" and V: "V \<subseteq> {..<f}" and un: "Q \<inter> (dom \<sigma> \<union> range_vars \<sigma>) = {}"
    and \<theta>': "\<theta>' \<in> sols K' F' f' \<sigma> f \<theta>" and agree: "\<And>v. v < f' \<Longrightarrow> v \<notin> Q \<Longrightarrow> \<eta> v = \<theta>' v" and v: "v < f" "v \<notin> Q"
  shows "star \<eta> \<sigma> v = \<theta> v"
proof -
  have th: "\<theta>' v = \<theta> v" "models \<theta>' \<sigma>" using \<theta>' v by (auto simp: sols_def)
  show ?thesis
  proof (cases "\<sigma> v")
    case None
    then show ?thesis using agree [of v] v th(1) refinesD(1) [OF r] by (simp add: star_def)
  next
    case (Some u)
    have "eval \<eta> u = eval \<theta>' u"
    proof (rule eval_agree(1))
      fix w
      assume "w \<in> free_vars u"
      with Some have "w \<in> range_vars \<sigma>" by (rule range_varsI)
      then have "w < f'" "w \<notin> Q" using refines_vars [OF r V] un by auto
      then show "\<eta> w = \<theta>' w" by (rule agree)
    qed
    with Some th show ?thesis by (simp add: star_def models_def)
  qed
qed

lemma inst_sub:
  assumes r: "refines K F f V \<sigma> f' K' F'" and s: "scheme_ok K F f sch" and Q: "set (quantified sch) \<inter> V = {}"
    and V: "V \<subseteq> {..<f}" and \<theta>': "\<theta>' \<in> sols K' F' f' \<sigma> f \<theta>"
  shows "inst K' F' f' (sub_scheme \<sigma> sch) \<theta>' = inst K F f sch \<theta>"
proof -
  note a = refinesD [OF r] and sd = scheme_okD [OF s]
  let ?Q = "set (quantified sch)"
  have un: "?Q \<inter> (dom \<sigma> \<union> range_vars \<sigma>) = {}" by (rule scheme_untouched [OF r s Q])
  have th: "admissible K' F' f' \<theta>'" using \<theta>' by (auto simp: sols_def)
  have k: "kinded K' (body sch)"
    using kinded_agree(1) [of "body sch" K K'] wf_kinded(1) [OF sd(1)] a(8) sd(2) by (metis lessThan_iff subsetD)
  have ev: "eval \<eta> (sub \<sigma> (body sch)) = eval (star \<eta> \<sigma>) (body sch)" for \<eta> by (rule eval_sub(1) [OF a(4) k])
  note off = star_off [OF r V un \<theta>']
  show ?thesis
  proof (intro equalityI subsetI)
    fix g
    assume "g \<in> inst K' F' f' (sub_scheme \<sigma> sch) \<theta>'"
    then obtain \<eta> where \<eta>: "g = eval (star \<eta> \<sigma>) (body sch)" "admissible K' F' f' \<eta>" "\<And>v. v < f' \<Longrightarrow> v \<notin> ?Q \<Longrightarrow> \<eta> v = \<theta>' v"
      by (auto simp: inst_def sub_scheme_def ev)
    have "admissible K F f (star \<eta> \<sigma>)" by (rule refines_admissible_back [OF r a(9) [OF \<eta>(2)]])
    with off [of \<eta>] \<eta>(1,3) show "g \<in> inst K F f sch \<theta>" by (auto simp: inst_def)
  next
    fix g
    assume "g \<in> inst K F f sch \<theta>"
    then obtain \<eta> where \<eta>: "g = eval \<eta> (body sch)" "admissible K F f \<eta>" "\<And>v. v < f \<Longrightarrow> v \<notin> ?Q \<Longrightarrow> \<eta> v = \<theta> v"
      by (auto simp: inst_def)
    define \<eta>' where "\<eta>' = (\<lambda>v. if v \<in> ?Q then \<eta> v else \<theta>' v)"
    have "admissible K' F' f' \<eta>'"
      unfolding admissible_def
    proof (intro allI impI)
      fix v
      assume "v < f'"
      show "admissible_at K' F' v (\<eta>' v)"
      proof (cases "v \<in> ?Q")
        case True
        then have "v < f" using sd(3) by auto
        with \<eta>(2) True a(3,8) show ?thesis by (simp add: admissible_def admissible_at_def \<eta>'_def)
      next
        case False
        with th \<open>v < f'\<close> show ?thesis by (simp add: admissible_def \<eta>'_def)
      qed
    qed
    moreover have "star \<eta>' \<sigma> v = \<eta> v" if "v \<in> free_vars (body sch)" for v
    proof (cases "v \<in> ?Q")
      case True
      then have "\<sigma> v = None" using un by auto
      with True show ?thesis by (simp add: star_def \<eta>'_def)
    next
      case False
      have "v < f" using that sd(2) by auto
      with False show ?thesis using off [of \<eta>' v] \<eta>(3) by (simp add: \<eta>'_def)
    qed
    then have "g = eval \<eta>' (sub \<sigma> (body sch))" unfolding ev \<eta>(1) by (intro eval_agree(1)) simp
    ultimately show "g \<in> inst K' F' f' (sub_scheme \<sigma> sch) \<theta>'"
      by (auto simp: inst_def sub_scheme_def \<eta>'_def)
  qed
qed

section \<open>Environments\<close>

lemma map_of_sub_env: "env_lookup (sub_env \<sigma> env) x = map_option (sub_scheme \<sigma>) (env_lookup env x)"
  by (simp add: env_lookup_def sub_env_def map_of_map)

lemma env_lookup_set: "env_lookup env x = Some sch \<Longrightarrow> (x, sch) \<in> set env"
  by (auto simp: env_lookup_def dest: map_of_SomeD)

lemma env_free_vars_sub:
  assumes r: "refines K F f (env_free_vars env) \<sigma> f' K' F'" and e: "env_ok K F f env"
  shows "env_free_vars (sub_env \<sigma> env) = (\<Union>v \<in> env_free_vars env. image_vars \<sigma> v)"
proof -
  have *: "scheme_free_vars (sub_scheme \<sigma> sch) = (\<Union>v \<in> scheme_free_vars sch. image_vars \<sigma> v)" if "(x, sch) \<in> set env" for x sch
    by (rule scheme_ok_sub(1) [OF r env_okD(1,2) [OF e that] env_ok_vars(1) [OF e]])
  have "env_free_vars (sub_env \<sigma> env) = (\<Union>(x, sch) \<in> set env. scheme_free_vars (sub_scheme \<sigma> sch))"
    by (auto simp: env_free_vars_def sub_env_def)
  also have "\<dots> = (\<Union>(x, sch) \<in> set env. \<Union>v \<in> scheme_free_vars sch. image_vars \<sigma> v)"
    by (rule SUP_cong [OF refl]) (use * in auto)
  finally show ?thesis by (auto simp: env_free_vars_def)
qed

lemma env_free_vars_sub_subset:
  assumes "refines K F f (env_free_vars env) \<sigma> f' K' F'" "env_ok K F f env"
  shows "env_free_vars (sub_env \<sigma> env) \<subseteq> (env_free_vars env \<union> {f..<f'}) - dom \<sigma>"
  using env_free_vars_sub [OF assms] Union_image_vars [of \<sigma> "env_free_vars env"] refinesD(5,6) [OF assms(1)]
  unfolding idem_def by blast

lemma env_ok_sub:
  assumes r: "refines K F f (env_free_vars env) \<sigma> f' K' F'" and e: "env_ok K F f env"
  shows "env_ok K' F' f' (sub_env \<sigma> env)"
  unfolding env_ok_def
proof (intro ballI, clarify)
  fix x sch'
  assume "(x, sch') \<in> set (sub_env \<sigma> env)"
  then obtain sch where s: "(x, sch) \<in> set env" "sch' = sub_scheme \<sigma> sch" by (auto simp: sub_env_def)
  note sd = env_okD [OF e s(1)]
  have "set (quantified sch) \<inter> (env_free_vars env \<union> {f..<f'}) = {}"
    using sd(2) scheme_okD(3) [OF sd(1)] by auto
  then have "set (quantified sch) \<inter> env_free_vars (sub_env \<sigma> env) = {}"
    using env_free_vars_sub_subset [OF assms] by blast
  with s(2) show "scheme_ok K' F' f' sch' \<and> set (quantified sch') \<inter> env_free_vars (sub_env \<sigma> env) = {}"
    using scheme_ok_sub(2) [OF r sd(1,2) env_ok_vars(1) [OF e]] by (simp add: sub_scheme_def)
qed

lemma env_val_sub:
  assumes r: "refines K F f (env_free_vars env) \<sigma> f' K' F'" and e: "env_ok K F f env"
    and \<theta>': "\<theta>' \<in> sols K' F' f' \<sigma> f \<theta>"
  shows "env_val K' F' f' (sub_env \<sigma> env) \<theta>' = env_val K F f env \<theta>"
proof
  fix x
  show "env_val K' F' f' (sub_env \<sigma> env) \<theta>' x = env_val K F f env \<theta> x"
  proof (cases "env_lookup env x")
    case (Some sch)
    note sd = env_okD [OF e env_lookup_set [OF Some]]
    show ?thesis
      using inst_sub [OF r sd(1,2) env_ok_vars(1) [OF e] \<theta>'] Some by (simp add: env_val_def map_of_sub_env)
  qed (simp add: env_val_def map_of_sub_env)
qed

lemma filter_untouched: "dom (map_of s) \<inter> Q = {} \<Longrightarrow> filter (\<lambda>(v, ty). v \<notin> Q) s = s"
  by (induction s) (auto simp: dom_map_of_conv_image_fst)

lemma apply_scheme_sub:
  assumes "refines K F f V (map_of s) f' K' F'" "scheme_ok K F f sch" "set (quantified sch) \<inter> V = {}"
  shows "apply_scheme (Suc d) s sch = Some (sub_scheme (map_of s) sch)"
proof -
  note a = refinesD [OF assms(1)] and sd = scheme_okD [OF assms(2)]
  have "kinded K' (body sch)"
    using kinded_agree(1) [of "body sch" K K'] wf_kinded(1) [OF sd(1)] a(8) sd(2) by (metis lessThan_iff subsetD)
  then have "subst_apply (Suc d) s (body sch) = Some (sub (map_of s) (body sch))" by (rule apply_sub(1) [OF a(4,5)])
  moreover have "filter (\<lambda>(v, ty). v \<notin> set (quantified sch)) s = s"
    by (rule filter_untouched) (use scheme_untouched [OF assms] in blast)
  ultimately show ?thesis by (simp add: apply_scheme_def sub_scheme_def Let_def)
qed

lemma apply_env_sub:
  assumes r: "refines K F f (env_free_vars env) (map_of s) f' K' F'" and e: "env_ok K F f env"
  shows "apply_env (Suc d) s env = Some (sub_env (map_of s) env)"
proof -
  have *: "apply_scheme (Suc d) s sch = Some (sub_scheme (map_of s) sch)" if "(x, sch) \<in> set env" for x sch
    by (rule apply_scheme_sub [OF r env_okD(1,2) [OF e that]])
  have "(\<And>x sch. (x, sch) \<in> set m \<Longrightarrow> apply_scheme (Suc d) s sch = Some (sub_scheme (map_of s) sch)) \<Longrightarrow>
      apply_env (Suc d) s m = Some (sub_env (map_of s) m)" for m
  proof (induction m)
    case (Cons p m)
    obtain x sch where p: "p = (x, sch)" by (cases p)
    have "apply_scheme (Suc d) s sch = Some (sub_scheme (map_of s) sch)" using Cons.prems [of x sch] p by simp
    moreover have "apply_env (Suc d) s m = Some (sub_env (map_of s) m)" by (rule Cons.IH, rule Cons.prems, rule list.set_intros(2))
    ultimately show ?case using p by (simp add: sub_env_def)
  qed (simp add: sub_env_def)
  with * show ?thesis by blast
qed

lemma env_ok_extend:
  assumes e: "env_ok K F f env" and s: "scheme_ok K F f sch" "set (quantified sch) \<inter> env_free_vars env = {}"
    "\<And>q. q \<in> set (quantified sch) \<Longrightarrow> q \<notin> scheme_free_vars sch"
    "\<And>y sch'. (y, sch') \<in> set env \<Longrightarrow> set (quantified sch') \<inter> scheme_free_vars sch = {}"
  shows "env_ok K F f (env_extend x sch env)"
    and "env_free_vars (env_extend x sch env) \<subseteq> env_free_vars env \<union> scheme_free_vars sch"
proof -
  have set: "set (env_extend x sch env) \<subseteq> insert (x, sch) (set env)"
    by (simp add: env_extend_def set_map_insert)
  show fv: "env_free_vars (env_extend x sch env) \<subseteq> env_free_vars env \<union> scheme_free_vars sch"
    using set by (fastforce simp: env_free_vars_def)
  show "env_ok K F f (env_extend x sch env)"
    unfolding env_ok_def
  proof (intro ballI, clarify)
    fix y sch'
    assume "(y, sch') \<in> set (env_extend x sch env)"
    then consider "sch' = sch" | "(y, sch') \<in> set env" using set by blast
    then show "scheme_ok K F f sch' \<and> set (quantified sch') \<inter> env_free_vars (env_extend x sch env) = {}"
    proof cases
      case 1
      then show ?thesis using s(1-3) fv by blast
    next
      case 2
      then show ?thesis using env_okD(1,2) [OF e 2] s(4) [OF 2] fv by blast
    qed
  qed
qed

lemma env_val_extend: "env_val K F f (env_extend x sch env) \<theta> = (env_val K F f env \<theta>)(x \<mapsto> inst K F f sch \<theta>)"
  by (rule ext) (simp add: env_val_def env_extend_def env_lookup_def)

end
