(* ===== verification/HM_Generalize.thy ===== *)
theory HM_Generalize
  imports HM_Schemes
begin

text \<open>
  Instantiation and generalisation: an instance of a scheme is its body with new variables, and
  stands for the same ground types; the scheme made for a \<^verbatim>\<open>let\<close> stands for all ground types of the
  bound expression.
\<close>

section \<open>New variables\<close>

lemma refines_extend:
  assumes "context_ok K F f" "context_ok K' F' f'" "f \<le> f'" "\<And>v. v < f \<Longrightarrow> K' v = K v \<and> F' v = F v"
  shows "refines K F f V Map.empty f' K' F'"
proof -
  have "solved {..<f} K F Map.empty K' F'"
  proof (rule solvedI)
    fix w
    assume w: "w \<in> {..<f}"
    show "K' w = K w \<and> kinded_values K' (F w)"
      using w assms(4) sim_agree_kinded [OF context_okD [OF assms(1)], of w K'] by simp
    show "sim (sub_values Map.empty (F w)) (F' w)" using w assms(4) by simp
  qed simp_all
  with assms(2-4) show ?thesis by (simp add: refines_def)
qed

lemma sols_empty: "\<theta>' \<in> sols K' F' f' Map.empty f \<theta> \<longleftrightarrow> admissible K' F' f' \<theta>' \<and> (\<forall>v < f. \<theta>' v = \<theta> v)"
  by (simp add: sols_def)

section \<open>Instantiation\<close>

fun renamed :: "nat \<Rightarrow> type_var list \<Rightarrow> substitution \<Rightarrow> substitution" where
  "renamed f [] acc = acc"
| "renamed f (q # qs) acc = renamed (Suc f) qs (map_insert q (Var f) acc)"

lemma fresh_renaming_cases:
  "fresh_renaming qs acc f = Done (Inr (renamed f qs acc), f + length qs) \<or> fresh_renaming qs acc f = Panic"
proof (induction qs arbitrary: acc f)
  case (Cons q qs)
  show ?case
    using Cons.IH [of "map_insert q (Var f) acc" "Suc f"] by (auto simp: hm_try_def fresh_def)
qed simp

lemma renamed_other: "v \<notin> set qs \<Longrightarrow> map_of (renamed f qs acc) v = map_of acc v"
  by (induction f qs acc rule: renamed.induct) auto

lemma renamed_nth: "distinct qs \<Longrightarrow> i < length qs \<Longrightarrow> map_of (renamed f qs acc) (qs ! i) = Some (Var (f + i))"
proof (induction f qs acc arbitrary: i rule: renamed.induct)
  case (2 f q qs acc)
  show ?case
  proof (cases i)
    case 0
    then show ?thesis using 2 by (simp add: renamed_other)
  next
    case (Suc j)
    then show ?thesis using 2 by simp
  qed
qed simp

lemma renamed_dom:
  assumes "distinct qs"
  shows "dom (map_of (renamed f qs [])) = set qs"
proof (intro equalityI subsetI)
  fix v
  assume "v \<in> dom (map_of (renamed f qs []))"
  then show "v \<in> set qs" by (rule contrapos_pp) (simp add: renamed_other domIff)
next
  fix v
  assume "v \<in> set qs"
  then obtain i where "i < length qs" "v = qs ! i" by (auto simp: in_set_conv_nth)
  then show "v \<in> dom (map_of (renamed f qs []))" using renamed_nth [OF assms] by auto
qed

lemma renamed_range:
  assumes "distinct qs"
  shows "range_vars (map_of (renamed f qs [])) \<subseteq> {f..<f + length qs}"
proof
  fix v
  assume "v \<in> range_vars (map_of (renamed f qs []))"
  then obtain q u where q: "map_of (renamed f qs []) q = Some u" "v \<in> free_vars u" by (auto simp: range_vars_def ran_def)
  then have "q \<in> set qs" using renamed_dom [OF assms, of f] by auto
  then obtain i where "i < length qs" "q = qs ! i" by (auto simp: in_set_conv_nth)
  with renamed_nth [OF assms this(1), of f] q show "v \<in> {f..<f + length qs}" by auto
qed

definition copy_kind :: "kinding \<Rightarrow> nat \<Rightarrow> type_var list \<Rightarrow> kinding" where
  "copy_kind K f qs v = (if f \<le> v \<and> v < f + length qs then K (qs ! (v - f)) else K v)"

definition copy_front :: "fronts \<Rightarrow> nat \<Rightarrow> type_var list \<Rightarrow> fronts" where
  "copy_front F f qs v =
     (if f \<le> v \<and> v < f + length qs then sub_values (map_of (renamed f qs [])) (F (qs ! (v - f))) else F v)"

lemma copy_old: "v < f \<Longrightarrow> copy_kind K f qs v = K v" "v < f \<Longrightarrow> copy_front F f qs v = F v"
  by (simp_all add: copy_kind_def copy_front_def)

lemma copy_new:
  assumes "i < length qs"
  shows "copy_kind K f qs (f + i) = K (qs ! i)"
    "copy_front F f qs (f + i) = sub_values (map_of (renamed f qs [])) (F (qs ! i))"
  using assms by (simp_all add: copy_kind_def copy_front_def)

lemma below_cases:
  fixes f v n :: nat
  assumes "v < f + n"
  obtains (old) "v < f" | (new) i where "v = f + i" "i < n"
  using assms by (metis add.commute add_less_cancel_left le_Suc_ex linorder_not_less)

lemma renamed_fitting:
  assumes "distinct qs" "set qs \<subseteq> {..<f}"
  shows "fitting (copy_kind K f qs) (map_of (renamed f qs []))"
  unfolding fitting_def
proof (intro allI impI)
  fix q u
  assume q: "map_of (renamed f qs []) q = Some u"
  then have "q \<in> set qs" using renamed_dom [OF assms(1), of f] by auto
  then obtain i where i: "i < length qs" "q = qs ! i" by (auto simp: in_set_conv_nth)
  then have "u = Var (f + i)" using renamed_nth [OF assms(1) i(1), of f] q by simp
  moreover have "q < f" using \<open>q \<in> set qs\<close> assms(2) by auto
  ultimately show "fits (copy_kind K f qs) q u" using copy_old(1) copy_new(1) [OF i(1)] i(2) by (simp add: fits_var)
qed

lemma renamed_context:
  assumes ctx: "context_ok K F f" and qs: "distinct qs" "set qs \<subseteq> {..<f}"
  shows "context_ok (copy_kind K f qs) (copy_front F f qs) (f + length qs)"
  unfolding context_ok_def
proof (intro allI impI)
  let ?K = "copy_kind K f qs" and ?F = "copy_front F f qs" and ?\<rho> = "map_of (renamed f qs [])"
  note fit = renamed_fitting [OF qs, of K]
  have rv: "range_vars ?\<rho> \<subseteq> {..<f + length qs}" using renamed_range [OF qs(1), of f] by auto
  fix v
  assume "v < f + length qs"
  then show "kinded_values ?K (?F v) \<and> values_free_vars (?F v) \<subseteq> {..<f + length qs}"
  proof (cases rule: below_cases)
    case old
    with context_okD [OF ctx old] sim_agree_kinded [of K "F v" f ?K] show ?thesis by (auto simp: copy_old)
  next
    case (new i)
    then have "qs ! i < f" using subsetD [OF qs(2) nth_mem] by simp
    from context_ok_sub [OF ctx fit rv _ copy_old(1) this] new show ?thesis by (simp add: copy_new)
  qed
qed

lemma renamed_solved:
  assumes ctx: "context_ok K F f" and s: "scheme_ok K F f sch"
  defines "qs \<equiv> quantified sch"
  shows "solved (free_vars (body sch)) K F (map_of (renamed f qs [])) (copy_kind K f qs) (copy_front F f qs)"
proof (rule solvedI)
  let ?K = "copy_kind K f qs" and ?F = "copy_front F f qs" and ?\<rho> = "map_of (renamed f qs [])"
  note sd = scheme_okD [OF s]
  have qs: "distinct qs" "set qs \<subseteq> {..<f}" using sd(3,4) by (simp_all add: qs_def)
  note fit = renamed_fitting [OF qs, of K]
  fix w
  assume w: "w \<in> free_vars (body sch)"
  then have wf: "w < f" using sd(2) by auto
  have k: "kinded_values ?K (F w)" using sim_agree_kinded [OF context_okD [OF ctx wf], of ?K] by (simp add: copy_old)
  then show "?K w = K w \<and> kinded_values ?K (F w)" by (simp add: copy_old wf)
  show "sim (sub_values ?\<rho> (F w)) (?F w)" if "?\<rho> w = None" "K w \<noteq> KType"
  proof -
    have "w \<in> scheme_free_vars sch" using that(1) w renamed_dom [OF qs(1), of f] by (auto simp: scheme_free_vars_def qs_def)
    then have "front_vars ?K F w (scheme_free_vars sch)"
      using sd(5) wf by (auto simp: closed_def front_vars_def copy_old)
    moreover have "scheme_free_vars sch \<inter> dom ?\<rho> = {}"
      using renamed_dom [OF qs(1), of f] by (auto simp: scheme_free_vars_def qs_def)
    ultimately have "sim (F w) (sub_values ?\<rho> (F w))"
      using front_stable [where F = F and w = w, OF fit _ _ k] that(2) wf by (simp add: copy_old)
    then show ?thesis using sim_sym wf by (simp add: copy_old)
  qed
  fix u
  assume u: "?\<rho> w = Some u"
  then have "w \<in> set qs" using renamed_dom [OF qs(1), of f] by auto
  then obtain i where i: "i < length qs" "w = qs ! i" by (auto simp: in_set_conv_nth)
  then have u: "u = Var (f + i)" using renamed_nth [OF qs(1) i(1), of f] u by simp
  show "wf_type ?K ?F u" if "K w = KType" using that u i by (simp add: copy_new)
  show "tail_binding ?K ?F (K w) (sub_values ?\<rho> (F w)) u" if "K w \<noteq> KType"
    using that u i by (cases "K w") (auto simp: tail_binding_def fronted_def copy_new)
qed

text \<open>The result of instantiation stands for the ground types of the scheme.\<close>

lemma renamed_inst:
  assumes ctx: "context_ok K F f" and s: "scheme_ok K F f sch" and adm: "admissible K F f \<theta>"
  defines "qs \<equiv> quantified sch"
  shows "inst K F f sch \<theta> = {eval \<theta>' (sub (map_of (renamed f qs [])) (body sch)) | \<theta>'.
    \<theta>' \<in> sols (copy_kind K f qs) (copy_front F f qs) (f + length qs) Map.empty f \<theta>}"
proof -
  let ?K = "copy_kind K f qs" and ?F = "copy_front F f qs" and ?\<rho> = "map_of (renamed f qs [])" and ?f = "f + length qs"
  note sd = scheme_okD [OF s]
  have qs: "distinct qs" "set qs \<subseteq> {..<f}" using sd(3,4) by (simp_all add: qs_def)
  have "kinded ?K (body sch)"
    using kinded_agree(1) [of "body sch" K ?K] wf_kinded(1) [OF sd(1)] sd(2) copy_old(1) by (metis lessThan_iff subsetD)
  then have ev: "eval \<eta> (sub ?\<rho> (body sch)) = eval (star \<eta> ?\<rho>) (body sch)" for \<eta>
    by (rule eval_sub(1) [OF renamed_fitting [OF qs]])
  have starq: "star \<eta> ?\<rho> (qs ! i) = \<eta> (f + i)" if "i < length qs" for \<eta> i
    using renamed_nth [OF qs(1) that] by (simp add: star_def)
  have staro: "star \<eta> ?\<rho> v = \<eta> v" if "v \<notin> set qs" for \<eta> v
    using that renamed_dom [OF qs(1), of f] by (auto simp: star_def split: option.split)
  show ?thesis
  proof (intro equalityI subsetI)
    fix g
    assume "g \<in> inst K F f sch \<theta>"
    then obtain \<eta> where \<eta>: "g = eval \<eta> (body sch)" "admissible K F f \<eta>" "\<And>v. v < f \<Longrightarrow> v \<notin> set qs \<Longrightarrow> \<eta> v = \<theta> v"
      by (auto simp: inst_def qs_def)
    define \<theta>' where "\<theta>' = (\<lambda>v. if v < f then \<theta> v else \<eta> (qs ! (v - f)))"
    have "admissible ?K ?F ?f \<theta>'"
      unfolding admissible_def
    proof (intro allI impI)
      fix v
      assume "v < ?f"
      then show "admissible_at ?K ?F v (\<theta>' v)"
      proof (cases rule: below_cases)
        case old
        with adm show ?thesis by (simp add: admissible_def admissible_at_def copy_old \<theta>'_def)
      next
        case (new i)
        then have "qs ! i < f" using subsetD [OF qs(2) nth_mem] by simp
        with new \<eta>(2) show ?thesis by (simp add: admissible_def admissible_at_def copy_new \<theta>'_def)
      qed
    qed
    then have "\<theta>' \<in> sols ?K ?F ?f Map.empty f \<theta>" by (simp add: sols_empty \<theta>'_def)
    moreover have "star \<theta>' ?\<rho> v = \<eta> v" if "v \<in> free_vars (body sch)" for v
    proof (cases "v \<in> set qs")
      case True
      then obtain i where "i < length qs" "v = qs ! i" by (auto simp: in_set_conv_nth)
      then show ?thesis using starq [of i \<theta>'] by (simp add: \<theta>'_def)
    next
      case False
      moreover have "v < f" using that sd(2) by auto
      ultimately show ?thesis using staro [of v \<theta>'] \<eta>(3) by (simp add: \<theta>'_def)
    qed
    then have "g = eval \<theta>' (sub ?\<rho> (body sch))" unfolding ev \<eta>(1) by (intro eval_agree(1)) simp
    ultimately show "g \<in> {eval \<theta>' (sub ?\<rho> (body sch)) | \<theta>'. \<theta>' \<in> sols ?K ?F ?f Map.empty f \<theta>}" by blast
  next
    fix g
    assume "g \<in> {eval \<theta>' (sub ?\<rho> (body sch)) | \<theta>'. \<theta>' \<in> sols ?K ?F ?f Map.empty f \<theta>}"
    then obtain \<theta>' where \<theta>': "g = eval (star \<theta>' ?\<rho>) (body sch)" "admissible ?K ?F ?f \<theta>'" "\<forall>v < f. \<theta>' v = \<theta> v"
      by (auto simp: sols_empty ev)
    have "admissible K F f (star \<theta>' ?\<rho>)"
      unfolding admissible_def
    proof (intro allI impI)
      fix v
      assume v: "v < f"
      show "admissible_at K F v (star \<theta>' ?\<rho> v)"
      proof (cases "v \<in> set qs")
        case True
        then obtain i where i: "i < length qs" "v = qs ! i" by (auto simp: in_set_conv_nth)
        then have "admissible_at ?K ?F (f + i) (\<theta>' (f + i))" using \<theta>'(2) by (simp add: admissible_def)
        then show ?thesis using starq [OF i(1)] i by (simp add: admissible_at_def copy_new)
      next
        case False
        then show ?thesis using staro [OF False] \<theta>'(3) adm v by (simp add: admissible_def)
      qed
    qed
    with \<theta>' staro show "g \<in> inst K F f sch \<theta>" by (auto simp: inst_def qs_def)
  qed
qed

theorem instantiate_ok:
  assumes ctx: "context_ok K F f" and s: "scheme_ok K F f sch"
  shows "\<exists>r. settles (\<lambda>n. (instantiate n sch :: ('e, mono_type) hm) f) r \<and>
    (r = Panic \<or> (\<exists>t f' K' F'. r = Done (Inr t, f') \<and> refines K F f {} Map.empty f' K' F' \<and> wf_type K' F' t \<and>
       free_vars t \<subseteq> scheme_free_vars sch \<union> {f..<f'} \<and>
       (\<forall>\<theta>. admissible K F f \<theta> \<longrightarrow> inst K F f sch \<theta> = {eval \<theta>' t | \<theta>'. \<theta>' \<in> sols K' F' f' Map.empty f \<theta>})))"
proof -
  define qs where "qs = quantified sch"
  let ?K = "copy_kind K f qs" and ?F = "copy_front F f qs" and ?\<rho> = "map_of (renamed f qs [])" and ?f = "f + length qs"
  let ?t = "sub ?\<rho> (body sch)"
  note sd = scheme_okD [OF s]
  have qs: "distinct qs" "set qs \<subseteq> {..<f}" using sd(3,4) by (simp_all add: qs_def)
  note fit = renamed_fitting [OF qs, of K] and rng = renamed_range [OF qs(1), of f] and dm = renamed_dom [OF qs(1), of f]
  have k: "kinded ?K (body sch)"
    using kinded_agree(1) [of "body sch" K ?K] wf_kinded(1) [OF sd(1)] sd(2) copy_old(1) by (metis lessThan_iff subsetD)
  have idem: "idem ?\<rho>" using rng qs(2) by (fastforce simp: idem_def dm)
  have ref: "refines K F f {} Map.empty ?f ?K ?F"
    by (rule refines_extend [OF ctx renamed_context [OF ctx qs]]) (simp_all add: copy_old)
  have wf: "wf_type ?K ?F ?t" by (rule wf_sub(1) [OF renamed_solved [OF ctx s, folded qs_def] fit sd(1) subset_refl])
  have fv: "free_vars ?t \<subseteq> scheme_free_vars sch \<union> {f..<?f}"
    using free_vars_sub_subset(1) [OF fit k, unfolded dm] rng unfolding scheme_free_vars_def qs_def by blast
  have eq: "inst K F f sch \<theta> = {eval \<theta>' ?t | \<theta>'. \<theta>' \<in> sols ?K ?F ?f Map.empty f \<theta>}" if "admissible K F f \<theta>" for \<theta>
    using renamed_inst [OF ctx s that] by (simp add: qs_def)
  have "\<exists>r. settles (\<lambda>n. (instantiate n sch :: ('e, mono_type) hm) f) r \<and> (r = Panic \<or> r = Done (Inr ?t, ?f))"
  proof (cases "qs = []")
    case True
    then have "?t = body sch" by (simp add: sub_id(1))
    with True show ?thesis
      by (intro exI [of _ "Done (Inr (body sch), f)"]) (simp add: instantiate_def qs_def)
  next
    case False
    then have i: "(instantiate n sch :: ('e, mono_type) hm) = hm_try (fresh_renaming qs []) (\<lambda>renaming. hm_lift (subst_apply n renaming (body sch)))" for n
      by (simp add: instantiate_def qs_def)
    from fresh_renaming_cases [of qs "[]" f] show ?thesis
    proof
      assume f: "fresh_renaming qs [] f = (Done (Inr (renamed f qs []), ?f) :: (('e + substitution) \<times> nat) outcome)"
      have "settles (\<lambda>n. hm_lift (subst_apply n (renamed f qs []) (body sch)) ?f) (Done (Inr ?t, ?f))"
        by (rule settles_lift [of "\<lambda>n. subst_apply n (renamed f qs []) (body sch)"]) (rule apply_sub(1) [OF fit idem k])
      then have "settles (\<lambda>n. (instantiate n sch :: ('e, mono_type) hm) f) (Done (Inr ?t, ?f))"
        unfolding i by (rule settles_map) (simp_all add: hm_try_def f)
      then show ?thesis by blast
    next
      assume f: "fresh_renaming qs [] f = (Panic :: (('e + substitution) \<times> nat) outcome)"
      have "settles (\<lambda>n. (instantiate n sch :: ('e, mono_type) hm) f) Panic" unfolding i by (simp add: hm_try_def f)
      then show ?thesis by blast
    qed
  qed
  with ref wf fv eq show ?thesis by blast
qed

section \<open>Generalisation\<close>

lemma collect_aux:
  "distinct out \<Longrightarrow> distinct (collect_free_in_order V t out) \<and> set (collect_free_in_order V t out) = set out \<union> (free_vars t - V)"
  "distinct out \<Longrightarrow> distinct (collect_free_in_order_row V r out) \<and>
     set (collect_free_in_order_row V r out) = set out \<union> (row_free_vars r - V)"
  "distinct out \<Longrightarrow> distinct (collect_free_in_order_values V m out) \<and>
     set (collect_free_in_order_values V m out) = set out \<union> (values_free_vars m - V)"
  "distinct out \<Longrightarrow> distinct (collect_free_in_order_effect V e out) \<and>
     set (collect_free_in_order_effect V e out) = set out \<union> (effect_free_vars e - V)"
proof (induction t and r and m and e arbitrary: out and out and out and out rule: type_induct)
  case (Effect_Row p t)
  then show ?case by (cases t) (auto simp: Let_def collect_var_def)
qed (auto simp: collect_var_def)

lemma generalize_vars:
  "distinct (quantified (generalize env t))" "set (quantified (generalize env t)) = free_vars t - env_free_vars env"
  "scheme_free_vars (generalize env t) = free_vars t \<inter> env_free_vars env" "body (generalize env t) = t"
  using collect_aux(1) [of "[]" "env_free_vars env" t] by (auto simp: generalize_def scheme_free_vars_def)

text \<open>The value of a variable determines the values of the variables of its binding.\<close>

lemma binding_inject:
  assumes adm: "admissible K F f \<theta>" "admissible K F f \<theta>'" and tb: "tail_binding K F k fs u"
    and vars: "free_vars u \<subseteq> {..<f}" and k: "k \<noteq> KType" and eq: "eval \<theta> u = eval \<theta>' u" and v: "v \<in> free_vars u"
  shows "\<theta> v = \<theta>' v"
proof -
  obtain G rt where G: "row_part k u = Some (G, rt)" "wf_values K F G" "distinct (map fst G)" "fronted K F k (fs @ G) rt"
    using tb by (auto simp: tail_binding_def)
  have kk: "k = KRow \<or> k = KEff" using k by (cases k) auto
  then have fu: "free_vars u = values_free_vars G \<union> set_option rt"
    using G(1) by (auto simp: row_part_KRow row_part_KEff row_free_vars_parts)
  have vs: "admissible_at K F w (\<theta> w)" "admissible_at K F w (\<theta>' w)" "K w = k" "keys (F w) = keys fs \<union> keys G"
    if "w \<in> set_option rt" for w
    using that vars fu adm G(4) sim_keys [of "fs @ G" "F w"]
    by (auto simp: admissible_def fronted_def image_Un)
  consider (var) w where "u = Var w" | (parts) "tail_val \<theta> rt ++\<^sub>f eval_values \<theta> G = tail_val \<theta>' rt ++\<^sub>f eval_values \<theta>' G"
    using kk G(1) eq by (auto simp: row_part_KRow row_part_KEff eval_row_parts)
  then show ?thesis
  proof cases
    case parts
    have "fmdom' (tail_val \<theta> rt) \<inter> keys G = {}" "fmdom' (tail_val \<theta>' rt) \<inter> keys G = {}"
      using vs k by (cases rt; simp add: admissible_at_def; blast)+
    then have "tail_val \<theta> rt = tail_val \<theta>' rt \<and> eval_values \<theta> G = eval_values \<theta>' G"
      by (intro fmadd_disjoint_inject [OF parts]) simp_all
    moreover have "\<theta> w = \<theta>' w" if "w \<in> set_option rt" for w
      using vs [OF that] that k calculation is_val_gfields [of k "\<theta> w" "\<theta>' w"] by (auto simp: admissible_at_def)
    moreover have "\<theta> w = \<theta>' w" if "w \<in> values_free_vars G" for w
      by (rule eval_inject_aux(3) [OF adm G(2) _ G(3) _ that]) (use vars fu calculation in auto)
    ultimately show ?thesis using v fu by blast
  qed (use eq v in simp)
qed

lemma image_inject:
  assumes r: "refines K F f V \<sigma> f' K' F'" and V: "V \<subseteq> {..<f}"
    and \<theta>: "\<theta>1 \<in> sols K' F' f' \<sigma> f \<theta>" "\<theta>2 \<in> sols K' F' f' \<sigma> f \<theta>" and v: "x < f" "v \<in> image_vars \<sigma> x"
  shows "\<theta>1 v = \<theta>2 v"
proof (cases "\<sigma> x")
  case None
  with \<theta> v show ?thesis by (simp add: sols_def image_vars_def)
next
  case (Some u)
  note sD = solvedD [OF refinesD(7) [OF r], of x]
  have adm: "admissible K' F' f' \<theta>1" "admissible K' F' f' \<theta>2" using \<theta> by (auto simp: sols_def)
  have "models \<theta>1 \<sigma>" "models \<theta>2 \<sigma>" "\<theta>1 x = \<theta>2 x" using \<theta> v(1) by (simp_all add: sols_def)
  then have eq: "eval \<theta>1 u = eval \<theta>2 u" using Some unfolding models_def by metis
  have fu: "v \<in> free_vars u" using v(2) Some by (simp add: image_vars_def)
  have "free_vars u \<subseteq> range_vars \<sigma>" using Some by (auto intro: range_varsI)
  then have vars: "free_vars u \<subseteq> {..<f'}" using refines_vars [OF r V] by blast
  show ?thesis
  proof (cases "K x = KType")
    case True
    then show ?thesis using eval_inject [OF adm sD(4) [OF _ Some True] vars eq fu] v(1) by simp
  next
    case False
    then show ?thesis using binding_inject [OF adm sD(5) [OF _ Some False] vars False eq fu] v(1) by simp
  qed
qed

lemma generalize_ok:
  assumes r: "refines K F f (env_free_vars env) \<sigma> f' K' F'" and e: "env_ok K F f env"
    and t: "wf_type K' F' t" "free_vars t \<subseteq> (env_free_vars env \<union> {f..<f'}) - dom \<sigma>"
  defines "env' \<equiv> sub_env \<sigma> env"
  shows "scheme_ok K' F' f' (generalize env' t)"
    and "env_ok K' F' f' (env_extend x (generalize env' t) env')"
    and "env_free_vars (env_extend x (generalize env' t) env') \<subseteq> env_free_vars env'"
proof -
  note g = generalize_vars [of env' t]
  have e': "env_ok K' F' f' env'" unfolding env'_def by (rule env_ok_sub [OF r e])
  have "env_free_vars env \<union> {f..<f'} \<subseteq> {..<f'}" using env_ok_vars(1) [OF e] refinesD(1) [OF r] by fastforce
  then have fv: "free_vars t \<subseteq> {..<f'}" using t(2) by blast
  have "closed K' F' (scheme_free_vars (generalize env' t))"
    unfolding g(3) by (rule closed_Int [OF closed_type [OF t(1)] env_ok_vars(2) [OF e']])
  then show s: "scheme_ok K' F' f' (generalize env' t)"
    unfolding scheme_ok_def using t(1) fv g by auto
  have *: "set (quantified sch') \<inter> scheme_free_vars (generalize env' t) = {}" if "(y, sch') \<in> set env'" for y sch'
    using env_okD(2) [OF e' that] g(3) by blast
  show "env_ok K' F' f' (env_extend x (generalize env' t) env')"
    by (rule env_ok_extend(1) [OF e' s _ _ *]) (use g(2,3) in auto)
  have "env_free_vars (env_extend x (generalize env' t) env') \<subseteq> env_free_vars env' \<union> scheme_free_vars (generalize env' t)"
    by (rule env_ok_extend(2) [OF e' s _ _ *]) (use g(2,3) in auto)
  then show "env_free_vars (env_extend x (generalize env' t) env') \<subseteq> env_free_vars env'" using g(3) by blast
qed

lemma generalize_inst:
  assumes r: "refines K F f (env_free_vars env) \<sigma> f' K' F'" and e: "env_ok K F f env"
    and t: "wf_type K' F' t" "free_vars t \<subseteq> (env_free_vars env \<union> {f..<f'}) - dom \<sigma>"
    and \<theta>1: "\<theta>1 \<in> sols K' F' f' \<sigma> f \<theta>"
  shows "inst K' F' f' (generalize (sub_env \<sigma> env) t) \<theta>1 = {eval \<theta>' t | \<theta>'. \<theta>' \<in> sols K' F' f' \<sigma> f \<theta>}"
proof -
  let ?env = "sub_env \<sigma> env"
  let ?Q = "free_vars t - env_free_vars ?env"
  note g = generalize_vars [of ?env t] and a = refinesD [OF r] and V = env_ok_vars(1) [OF e]
  have free: "env_free_vars ?env = (\<Union>v \<in> env_free_vars env. image_vars \<sigma> v)" by (rule env_free_vars_sub [OF r e])
  have adm1: "admissible K' F' f' \<theta>1" using \<theta>1 by (simp add: sols_def)
  show ?thesis
  proof (intro equalityI subsetI)
    fix h
    assume "h \<in> inst K' F' f' (generalize ?env t) \<theta>1"
    then obtain \<eta> where \<eta>: "h = eval \<eta> t" "admissible K' F' f' \<eta>" "\<And>v. v < f' \<Longrightarrow> v \<notin> ?Q \<Longrightarrow> \<eta> v = \<theta>1 v"
      by (auto simp: inst_def g(2,4))
    have "star \<eta> \<sigma> v = \<theta> v" if v: "v < f" for v
    proof -
      have "image_vars \<sigma> v \<inter> ?Q = {}"
      proof (cases "v \<in> env_free_vars env")
        case True
        then show ?thesis using free by blast
      next
        case False
        then have "\<sigma> v = None" using a(6) v by (auto simp: subset_iff domIff)
        then show ?thesis using t(2) False v by (auto simp: image_vars_def)
      qed
      moreover have "image_vars \<sigma> v \<subseteq> {..<f'}"
        using image_vars_subset [of \<sigma> v] refines_vars [OF r V] v a(1) by fastforce
      ultimately have "star \<eta> \<sigma> v = star \<theta>1 \<sigma> v" by (intro star_agree \<eta>(3)) auto
      also have "\<dots> = \<theta>1 v" using \<theta>1 models_star by (simp add: sols_def)
      finally show ?thesis using \<theta>1 v by (simp add: sols_def)
    qed
    then have "star \<eta> \<sigma> \<in> sols K' F' f' \<sigma> f \<theta>" using a(9) [OF \<eta>(2)] star_models [OF a(5)] by (simp add: sols_def)
    moreover have "h = eval (star \<eta> \<sigma>) t"
      unfolding \<eta>(1) by (rule eval_agree(1)) (use t(2) in \<open>auto simp: star_def split: option.split\<close>)
    ultimately show "h \<in> {eval \<theta>' t | \<theta>'. \<theta>' \<in> sols K' F' f' \<sigma> f \<theta>}" by blast
  next
    fix h
    assume "h \<in> {eval \<theta>' t | \<theta>'. \<theta>' \<in> sols K' F' f' \<sigma> f \<theta>}"
    then obtain \<theta>2 where \<theta>2: "h = eval \<theta>2 t" "\<theta>2 \<in> sols K' F' f' \<sigma> f \<theta>" by blast
    define \<eta> where "\<eta> = (\<lambda>v. if v \<in> ?Q then \<theta>2 v else \<theta>1 v)"
    have "admissible K' F' f' \<eta>"
      using adm1 \<theta>2(2) by (auto simp: admissible_def \<eta>_def sols_def)
    moreover have "h = eval \<eta> t"
      unfolding \<theta>2(1)
    proof (rule eval_agree(1))
      fix v
      assume v: "v \<in> free_vars t"
      show "\<theta>2 v = \<eta> v"
      proof (cases "v \<in> ?Q")
        case False
        then obtain x where "x \<in> env_free_vars env" "v \<in> image_vars \<sigma> x" using v free by blast
        with image_inject [OF r V \<theta>2(2) \<theta>1] V have "\<theta>2 v = \<theta>1 v" by blast
        then show ?thesis using False by (simp add: \<eta>_def)
      qed (simp add: \<eta>_def)
    qed
    ultimately show "h \<in> inst K' F' f' (generalize ?env t) \<theta>1" by (auto simp: inst_def g(2,4) \<eta>_def)
  qed
qed

end
