(* ===== verification/HM_Typing.thy ===== *)
theory HM_Typing
  imports HM_Generalize
begin

text \<open>
  The declarative typing of expressions: the set of ground types of an expression, where a variable
  bound by \<^verbatim>\<open>let\<close> has all types of its expression.  What Algorithm W promises is stated over
  it: the inferred type stands for exactly these types.
\<close>

section \<open>Types of expressions\<close>

fun types :: "(string \<rightharpoonup> gtype set) \<Rightarrow> expr \<Rightarrow> gtype set" where
  "types \<Gamma> (EVar x) = (case \<Gamma> x of None \<Rightarrow> {} | Some T \<Rightarrow> T)"
| "types \<Gamma> (Lit IntLit) = {GCon ''Int''}"
| "types \<Gamma> (Lit StrLit) = {GCon ''Str''}"
| "types \<Gamma> (Lam x e) = {GArrow a b | a b. b \<in> types (\<Gamma>(x \<mapsto> {a})) e}"
| "types \<Gamma> (App e1 e2) = {b. \<exists>a. GArrow a b \<in> types \<Gamma> e1 \<and> a \<in> types \<Gamma> e2}"
| "types \<Gamma> (Let x e1 e2) = (if types \<Gamma> e1 = {} then {} else types (\<Gamma>(x \<mapsto> types \<Gamma> e1)) e2)"
| "types \<Gamma> (RecordLit fs) =
     {GRecord m | m. fmdom' m = keys fs \<and> (\<forall>p \<in> set fs. \<exists>g. fmlookup m (fst p) = Some g \<and> g \<in> types \<Gamma> (snd p))}"
| "types \<Gamma> (Field e l) = {g. \<exists>m. GRecord m \<in> types \<Gamma> e \<and> fmlookup m l = Some g}"

definition field_types :: "(string \<rightharpoonup> gtype set) \<Rightarrow> (string \<times> expr) list \<Rightarrow> (string, gtype) fmap set" where
  "field_types \<Gamma> fs =
     {m. fmdom' m = keys fs \<and> (\<forall>p \<in> set fs. \<exists>g. fmlookup m (fst p) = Some g \<and> g \<in> types \<Gamma> (snd p))}"

text \<open>The labels of a record literal are the keys of a map.\<close>

fun expr_ok :: "expr \<Rightarrow> bool" where
  "expr_ok (EVar x) = True"
| "expr_ok (Lit l) = True"
| "expr_ok (Lam x e) = expr_ok e"
| "expr_ok (App e1 e2) = (expr_ok e1 \<and> expr_ok e2)"
| "expr_ok (Let x e1 e2) = (expr_ok e1 \<and> expr_ok e2)"
| "expr_ok (RecordLit fs) = (sorted_keys fs \<and> (\<forall>p \<in> set fs. expr_ok (snd p)))"
| "expr_ok (Field e l) = expr_ok e"

lemma expr_induct [case_names EVar Lit Lam App Let RecordLit Field]:
  assumes "\<And>x. P (EVar x)" "\<And>l. P (Lit l)" "\<And>x e. P e \<Longrightarrow> P (Lam x e)"
    and "\<And>e1 e2. P e1 \<Longrightarrow> P e2 \<Longrightarrow> P (App e1 e2)" "\<And>x e1 e2. P e1 \<Longrightarrow> P e2 \<Longrightarrow> P (Let x e1 e2)"
    and "\<And>fs. (\<And>l e. (l, e) \<in> set fs \<Longrightarrow> P e) \<Longrightarrow> P (RecordLit fs)" "\<And>e l. P e \<Longrightarrow> P (Field e l)"
  shows "P e"
  using assms by (induction e) (auto simp: snds.simps)

section \<open>What inference promises\<close>

definition principal :: "kinding \<Rightarrow> fronts \<Rightarrow> nat \<Rightarrow> type_env \<Rightarrow> ((string \<rightharpoonup> gtype set) \<Rightarrow> gtype set) \<Rightarrow>
    (type_var \<rightharpoonup> mono_type) \<Rightarrow> mono_type \<Rightarrow> nat \<Rightarrow> kinding \<Rightarrow> fronts \<Rightarrow> bool" where
  "principal K F f env E \<sigma> t f' K' F' \<longleftrightarrow>
     refines K F f (env_free_vars env) \<sigma> f' K' F' \<and> wf_type K' F' t \<and>
     free_vars t \<subseteq> (env_free_vars env \<union> {f..<f'}) - dom \<sigma> \<and>
     (\<forall>\<theta>. admissible K F f \<theta> \<longrightarrow>
        E (env_val K F f env \<theta>) = {eval \<theta>' t | \<theta>'. \<theta>' \<in> sols K' F' f' \<sigma> f \<theta>})"

definition infers :: "kinding \<Rightarrow> fronts \<Rightarrow> nat \<Rightarrow> type_env \<Rightarrow> ((string \<rightharpoonup> gtype set) \<Rightarrow> gtype set) \<Rightarrow>
    (('e + substitution \<times> mono_type) \<times> nat) outcome \<Rightarrow> bool" where
  "infers K F f env E r \<longleftrightarrow>
     (case r of
        Timeout \<Rightarrow> False
      | Panic \<Rightarrow> True
      | Done (Inl e, f') \<Rightarrow> f \<le> f' \<and> (\<forall>\<theta>. admissible K F f \<theta> \<longrightarrow> E (env_val K F f env \<theta>) = {})
      | Done (Inr (s, t), f') \<Rightarrow> sorted_keys s \<and> (\<exists>K' F'. principal K F f env E (map_of s) t f' K' F'))"

definition infer_ok :: "(nat \<Rightarrow> ('e, substitution \<times> mono_type) hm) \<Rightarrow> kinding \<Rightarrow> fronts \<Rightarrow> nat \<Rightarrow> type_env \<Rightarrow>
    ((string \<rightharpoonup> gtype set) \<Rightarrow> gtype set) \<Rightarrow> bool" where
  "infer_ok g K F f env E \<longleftrightarrow> (\<exists>r. settles (\<lambda>n. g n f) r \<and> infers K F f env E r)"

lemma infers_simps [simp]:
  "infers K F f env E Panic"
  "infers K F f env E (Done (Inl e, f')) \<longleftrightarrow> f \<le> f' \<and> (\<forall>\<theta>. admissible K F f \<theta> \<longrightarrow> E (env_val K F f env \<theta>) = {})"
  "infers K F f env E (Done (Inr (s, t), f')) \<longleftrightarrow> sorted_keys s \<and> (\<exists>K' F'. principal K F f env E (map_of s) t f' K' F')"
  "\<not> infers K F f env E Timeout"
  by (simp_all add: infers_def)

lemma principalD:
  assumes "principal K F f env E \<sigma> t f' K' F'"
  shows "refines K F f (env_free_vars env) \<sigma> f' K' F'" "wf_type K' F' t"
    "free_vars t \<subseteq> (env_free_vars env \<union> {f..<f'}) - dom \<sigma>"
    "\<And>\<theta>. admissible K F f \<theta> \<Longrightarrow> E (env_val K F f env \<theta>) = {eval \<theta>' t | \<theta>'. \<theta>' \<in> sols K' F' f' \<sigma> f \<theta>}"
  using assms by (simp_all add: principal_def)

lemma infer_okE:
  assumes "infer_ok g K F f env E"
  obtains (panic) "settles (\<lambda>n. g n f) Panic"
    | (error) e f' where "settles (\<lambda>n. g n f) (Done (Inl e, f'))" "f \<le> f'"
        "\<And>\<theta>. admissible K F f \<theta> \<Longrightarrow> E (env_val K F f env \<theta>) = {}"
    | (success) s t f' K' F' where "settles (\<lambda>n. g n f) (Done (Inr (s, t), f'))" "sorted_keys s"
        "principal K F f env E (map_of s) t f' K' F'"
proof -
  obtain r where r: "settles (\<lambda>n. g n f) r" "infers K F f env E r"
    using assms by (auto simp: infer_ok_def)
  show thesis
  proof (cases r)
    case (Done x)
    obtain y f' where "x = (y, f')" by (cases x)
    with r Done that(2,3) show thesis by (cases y) auto
  qed (use r that(1) in auto)
qed

section \<open>Stages of a run\<close>

text \<open>The environment after some expressions were inferred.\<close>

definition stage :: "kinding \<Rightarrow> fronts \<Rightarrow> nat \<Rightarrow> type_env \<Rightarrow> (type_var \<rightharpoonup> mono_type) \<Rightarrow> nat \<Rightarrow> kinding \<Rightarrow> fronts \<Rightarrow>
    type_env \<Rightarrow> bool" where
  "stage K F f env \<sigma> f1 K1 F1 env1 \<longleftrightarrow>
     refines K F f (env_free_vars env) \<sigma> f1 K1 F1 \<and> env_ok K1 F1 f1 env1 \<and>
     env_free_vars env1 \<subseteq> (env_free_vars env \<union> {f..<f1}) - dom \<sigma> \<and>
     (\<forall>\<theta> \<theta>1. \<theta>1 \<in> sols K1 F1 f1 \<sigma> f \<theta> \<longrightarrow> env_val K1 F1 f1 env1 \<theta>1 = env_val K F f env \<theta>)"

lemma stageD:
  assumes "stage K F f env \<sigma> f1 K1 F1 env1"
  shows "refines K F f (env_free_vars env) \<sigma> f1 K1 F1" "env_ok K1 F1 f1 env1"
    "env_free_vars env1 \<subseteq> (env_free_vars env \<union> {f..<f1}) - dom \<sigma>"
    "\<And>\<theta> \<theta>1. \<theta>1 \<in> sols K1 F1 f1 \<sigma> f \<theta> \<Longrightarrow> env_val K1 F1 f1 env1 \<theta>1 = env_val K F f env \<theta>"
  using assms unfolding stage_def by blast+

lemma inst_agree:
  assumes "\<And>v. v < f \<Longrightarrow> \<theta>' v = \<theta> v"
  shows "inst K F f sch \<theta>' = inst K F f sch \<theta>"
proof -
  have "(\<forall>v < f. v \<notin> set (quantified sch) \<longrightarrow> \<eta> v = \<theta>' v) \<longleftrightarrow> (\<forall>v < f. v \<notin> set (quantified sch) \<longrightarrow> \<eta> v = \<theta> v)" for \<eta>
    by (intro iff_allI imp_cong refl) (simp add: assms)
  then show ?thesis by (simp only: inst_def)
qed

lemma env_val_agree: "(\<And>v. v < f \<Longrightarrow> \<theta>' v = \<theta> v) \<Longrightarrow> env_val K F f env \<theta>' = env_val K F f env \<theta>"
  unfolding env_val_def by (intro ext option.map_cong refl inst_agree) blast

lemma stage_refl:
  assumes "context_ok K F f" "env_ok K F f env"
  shows "stage K F f env Map.empty f K F env"
proof -
  have "refines K F f (env_free_vars env) Map.empty f K F" by (rule refines_extend [OF assms(1,1)]) simp_all
  moreover have "env_val K F f env \<theta>1 = env_val K F f env \<theta>" if "\<theta>1 \<in> sols K F f Map.empty f \<theta>" for \<theta> \<theta>1
    by (rule env_val_agree) (use that in \<open>simp add: sols_empty\<close>)
  ultimately show ?thesis using assms(2) by (simp add: stage_def)
qed

lemma stage_infer:
  assumes ctx: "context_ok K F f" and e: "env_ok K F f env" and s: "stage K F f env \<sigma> f1 K1 F1 env1"
    and r: "refines K1 F1 f1 (env_free_vars env1) \<tau> f2 K2 F2"
  shows "stage K F f env (comp_sub \<tau> \<sigma>) f2 K2 F2 (sub_env \<tau> env1)"
proof -
  note sd = stageD [OF s] and V = env_ok_vars(1) [OF e]
  note c = sols_compose [OF sd(1) r V sd(3)]
  have "env_free_vars (sub_env \<tau> env1) \<subseteq> (env_free_vars env1 \<union> {f1..<f2}) - dom \<tau>"
    by (rule env_free_vars_sub_subset [OF r sd(2)])
  moreover have "dom \<sigma> \<inter> {f1..<f2} = {}" using refines_vars [OF sd(1) V] by auto
  moreover have "{f1..<f2} \<subseteq> {f..<f2}" "{f..<f1} \<subseteq> {f..<f2}" using refinesD(1) [OF sd(1)] refinesD(1) [OF r] by auto
  ultimately have "env_free_vars (sub_env \<tau> env1) \<subseteq> (env_free_vars env \<union> {f..<f2}) - dom (comp_sub \<tau> \<sigma>)"
    using sd(3) unfolding dom_comp_sub by blast
  moreover have "env_val K2 F2 f2 (sub_env \<tau> env1) \<theta>2 = env_val K F f env \<theta>"
    if "\<theta>2 \<in> sols K2 F2 f2 (comp_sub \<tau> \<sigma>) f \<theta>" for \<theta> \<theta>2
    using that c env_val_sub [OF r sd(2)] sd(4) by metis
  ultimately show ?thesis
    unfolding stage_def using refines_compose [OF ctx V sd(1) r sd(3)] env_ok_sub [OF r sd(2)] by blast
qed

lemma refines_later:
  assumes r: "refines K F f V \<sigma> f1 K1 F1" "refines K1 F1 f1 {} Map.empty f2 K2 F2"
    and ctx: "context_ok K F f" and V: "V \<subseteq> {..<f}"
  shows "refines K F f V \<sigma> f2 K2 F2"
    and "\<theta>2 \<in> sols K2 F2 f2 \<sigma> f \<theta> \<longleftrightarrow> (\<exists>\<theta>1 \<in> sols K1 F1 f1 \<sigma> f \<theta>. admissible K2 F2 f2 \<theta>2 \<and> (\<forall>v < f1. \<theta>2 v = \<theta>1 v))"
proof -
  have c: "comp_sub Map.empty \<sigma> = \<sigma>"
    by (auto simp: comp_sub_def fun_eq_iff sub_id(1) split: option.split)
  show "refines K F f V \<sigma> f2 K2 F2" using refines_compose [OF ctx V r] by (simp add: c)
  show "\<theta>2 \<in> sols K2 F2 f2 \<sigma> f \<theta> \<longleftrightarrow> (\<exists>\<theta>1 \<in> sols K1 F1 f1 \<sigma> f \<theta>. admissible K2 F2 f2 \<theta>2 \<and> (\<forall>v < f1. \<theta>2 v = \<theta>1 v))"
    using sols_compose [OF r V, of \<theta>2 \<theta>] by (simp add: c sols_empty)
qed

section \<open>Steps of a run\<close>

abbreviation ends :: "kinding \<Rightarrow> fronts \<Rightarrow> nat \<Rightarrow> type_env \<Rightarrow> ((string \<rightharpoonup> gtype set) \<Rightarrow> gtype set) \<Rightarrow>
    (nat \<Rightarrow> (('e + substitution \<times> mono_type) \<times> nat) outcome) \<Rightarrow> bool" where
  "ends K F f env E g \<equiv> \<exists>r. settles g r \<and> infers K F f env E r"

lemma ends_fresh:
  assumes "ends K F f env E (\<lambda>n. k n f1 (Suc f1))"
  shows "ends K F f env E (\<lambda>n. hm_try fresh (k n) f1)"
proof (cases "int f1 < u32_max")
  case True
  then show ?thesis using assms by (simp add: hm_try_def fresh_def)
next
  case False
  then show ?thesis by (intro exI [of _ Panic]) (simp add: hm_try_def fresh_def)
qed

lemma ends_lift:
  assumes "\<And>d. g (Suc d) = Some x" "ends K F f env E (\<lambda>n. k n x f1)"
  shows "ends K F f env E (\<lambda>n. hm_try (hm_lift (g n)) (k n) f1)"
  using assms(2) settles_lift_try [of g x k f1, OF assms(1)] by blast

text \<open>Inferring a subexpression.\<close>

lemma ends_infer:
  assumes g: "infer_ok g K1 F1 f1 env1 E1" and le: "f \<le> f1"
    and none: "\<And>\<theta>. admissible K F f \<theta> \<Longrightarrow> (\<And>\<theta>1. admissible K1 F1 f1 \<theta>1 \<Longrightarrow> E1 (env_val K1 F1 f1 env1 \<theta>1) = {}) \<Longrightarrow>
      E (env_val K F f env \<theta>) = {}"
    and rest: "\<And>s2 t2 f2 K2 F2. sorted_keys s2 \<Longrightarrow> principal K1 F1 f1 env1 E1 (map_of s2) t2 f2 K2 F2 \<Longrightarrow>
      ends K F f env E (\<lambda>n. k n (s2, t2) f2)"
  shows "ends K F f env E (\<lambda>n. hm_try (g n) (k n) f1)"
  using g
proof (cases rule: infer_okE)
  case panic
  show ?thesis
    using settles_try_panic [where m = g and f = f1 and k = k, OF panic] by (intro exI [of _ Panic]) simp
next
  case (error e f')
  then show ?thesis
    using settles_try_error [where m = g and f = f1 and k = k, OF error(1)] none le
    by (intro exI [of _ "Done (Inl e, f')"]) simp
next
  case (success s2 t2 f2 K2 F2)
  from rest [OF success(2,3)] obtain r where "settles (\<lambda>n. k n (s2, t2) f2) r" "infers K F f env E r" by blast
  with settles_try [where m = g and f = f1 and k = k, OF success(1)] show ?thesis by blast
qed

end
