(* ===== verification/HM_Infer_Correct.thy ===== *)
theory HM_Infer_Correct
  imports HM_Typing
begin

text \<open>
  Algorithm W is correct: on every expression it settles; when it fails the expression has no type,
  and when it succeeds the inferred type stands for exactly the types of the expression.
\<close>

section \<open>Unification inside a run\<close>

lemma comp_sub_empty [simp]: "comp_sub \<sigma> Map.empty = \<sigma>"
  by (simp add: comp_sub_def fun_eq_iff)

lemma hm_unify_error_into_eq: "hm_unify_error_into = hm_map_error UnifyError"
  by (simp add: hm_unify_error_into_def hm_map_error_def fun_eq_iff)

lemma vars_later:
  assumes r: "refines K F f V \<sigma> f1 K1 F1" "refines K1 F1 f1 V2 \<tau> f2 K2 F2"
    and V: "V \<subseteq> {..<f}" "V2 \<subseteq> (V \<union> {f..<f1}) - dom \<sigma>"
  shows "Y \<subseteq> (V2 \<union> {f1..<f2}) - dom \<tau> \<Longrightarrow> Y \<subseteq> (V \<union> {f..<f2}) - dom (comp_sub \<tau> \<sigma>)"
    and "X \<subseteq> (V \<union> {f..<f1}) - dom \<sigma> \<Longrightarrow> (X - dom \<tau>) \<union> range_vars \<tau> \<subseteq> (V \<union> {f..<f2}) - dom (comp_sub \<tau> \<sigma>)"
proof -
  have d: "dom \<sigma> \<inter> {f1..<f2} = {}" using refines_vars [OF r(1) V(1)] by auto
  have s: "{f1..<f2} \<subseteq> {f..<f2}" "{f..<f1} \<subseteq> {f..<f2}" using refinesD(1) [OF r(1)] refinesD(1) [OF r(2)] by auto
  show *: "Y \<subseteq> (V \<union> {f..<f2}) - dom (comp_sub \<tau> \<sigma>)" if "Y \<subseteq> (V2 \<union> {f1..<f2}) - dom \<tau>" for Y
    using that d s V(2) unfolding dom_comp_sub by blast
  have "range_vars \<tau> \<subseteq> (V2 \<union> {f1..<f2}) - dom \<tau>" using refinesD(5,6) [OF r(2)] unfolding idem_def by blast
  from * [OF this] show "(X - dom \<tau>) \<union> range_vars \<tau> \<subseteq> (V \<union> {f..<f2}) - dom (comp_sub \<tau> \<sigma>)"
    if "X \<subseteq> (V \<union> {f..<f1}) - dom \<sigma>"
    using that s unfolding dom_comp_sub by blast
qed

lemma vars_below: "V \<subseteq> {..<f} \<Longrightarrow> f \<le> f' \<Longrightarrow> X \<subseteq> (V \<union> {f..<f'}) - D \<Longrightarrow> X \<subseteq> {..<f'}"
  for f f' :: nat
  by fastforce

lemma ends_unify:
  assumes ctx: "context_ok K F f" and e: "env_ok K F f env" and s: "sorted_keys s"
    and r: "refines K F f (env_free_vars env) (map_of s) f3 K3 F3"
    and ab: "wf_type K3 F3 a" "wf_type K3 F3 b" "free_vars a \<union> free_vars b \<subseteq> (env_free_vars env \<union> {f..<f3}) - dom (map_of s)"
    and x: "K3 x = KType" "x \<in> free_vars a \<union> free_vars b"
    and E: "\<And>\<theta>. admissible K F f \<theta> \<Longrightarrow> E (env_val K F f env \<theta>) =
      {\<theta>3 x | \<theta>3. \<theta>3 \<in> sols K3 F3 f3 (map_of s) f \<theta> \<and> eval \<theta>3 a = eval \<theta>3 b}"
    and k: "\<And>t c f4. (\<And>d. subst_compose (Suc d) t s = Some c) \<Longrightarrow>
      settles (\<lambda>n. k n t f4) (Done (Inr (c, sub (map_of t) (Var x)), f4))"
  shows "ends K F f env E (\<lambda>n. hm_try (hm_unify_error_into (unify_with_fresh n a b)) (k n) f3)"
proof -
  let ?V = "free_vars a \<union> free_vars b" and ?g = "\<lambda>n. hm_map_error UnifyError (unify_with_fresh n a b)"
  note V = env_ok_vars(1) [OF e] and rd = refinesD [OF r]
  have V3: "?V \<subseteq> {..<f3}" by (rule vars_below [OF V rd(1) ab(3)])
  have "unifier_ok ?g K3 F3 f3 ?V (\<lambda>\<theta>. eval \<theta> a = eval \<theta> b)"
    by (rule unifier_ok_map_error [OF unify_ok [OF rd(2) ab(1,2) V3]])
  then have "ends K F f env E (\<lambda>n. hm_try (?g n) (k n) f3)"
  proof (cases rule: unifier_okE)
    case panic
    show ?thesis
      using settles_try_panic [where m = ?g and f = f3 and k = k, OF panic] by (intro exI [of _ Panic]) simp
  next
    case (error err f')
    have "E (env_val K F f env \<theta>) = {}" if "admissible K F f \<theta>" for \<theta>
      unfolding E [OF that] using error(3) by (auto simp: sols_def)
    then show ?thesis
      using settles_try_error [where m = ?g and f = f3 and k = k, OF error(1)] error(2) rd(1)
      by (intro exI [of _ "Done (Inl err, f')"]) simp
  next
    case (success t f4 K4 F4)
    note m = mguD [OF success(3)] and rm = mgu_refines [OF success(3)]
    obtain c where c: "\<And>d. subst_compose (Suc d) t s = Some c" "sorted_keys c" "map_of c = comp_sub (map_of t) (map_of s)"
      using compose_settles [OF s success(2) V r rm ab(3)] by blast
    have x3: "x < f3" using x(2) V3 by auto
    have k4: "kinded K4 (Var x)" using x(1) m(8) [OF x3] by simp
    have wf: "wf_type K4 F4 (sub (map_of t) (Var x))" by (rule wf_sub(1) [OF m(7,4)]) (use x x3 in auto)
    have fv: "free_vars (sub (map_of t) (Var x)) \<subseteq> (env_free_vars env \<union> {f..<f4}) - dom (map_of c)"
    proof -
      have "free_vars (sub (map_of t) (Var x)) \<subseteq> (?V - dom (map_of t)) \<union> range_vars (map_of t)"
        using free_vars_sub_subset(1) [OF m(4) k4] x(2) unfolding free_vars.simps by blast
      also have "\<dots> \<subseteq> (env_free_vars env \<union> {f..<f4}) - dom (map_of c)"
        unfolding c(3) by (rule vars_later(2) [OF r rm V ab(3,3)])
      finally show ?thesis .
    qed
    have "E (env_val K F f env \<theta>) = {eval \<theta>' (sub (map_of t) (Var x)) | \<theta>'. \<theta>' \<in> sols K4 F4 f4 (map_of c) f \<theta>}"
      if adm: "admissible K F f \<theta>" for \<theta>
      unfolding E [OF adm] c(3)
    proof (intro equalityI subsetI)
      fix g
      assume "g \<in> {\<theta>3 x | \<theta>3. \<theta>3 \<in> sols K3 F3 f3 (map_of s) f \<theta> \<and> eval \<theta>3 a = eval \<theta>3 b}"
      then obtain \<theta>3 where \<theta>3: "g = \<theta>3 x" "\<theta>3 \<in> sols K3 F3 f3 (map_of s) f \<theta>" "eval \<theta>3 a = eval \<theta>3 b" by blast
      then have "admissible K3 F3 f3 \<theta>3" by (simp add: sols_def)
      with mgu_sols(1) [OF success(3) this \<theta>3(3)] obtain \<theta>4 where \<theta>4: "\<theta>4 \<in> sols K4 F4 f4 (map_of t) f3 \<theta>3" by blast
      then have "g = eval \<theta>4 (sub (map_of t) (Var x))"
        using eval_sub_models(1) [OF m(4) _ k4, of \<theta>4] \<theta>3(1) x3 by (simp add: sols_def)
      with \<theta>3(2) \<theta>4 show "g \<in> {eval \<theta>' (sub (map_of t) (Var x)) | \<theta>'. \<theta>' \<in> sols K4 F4 f4 (comp_sub (map_of t) (map_of s)) f \<theta>}"
        using sols_compose [OF r rm V ab(3)] by blast
    next
      fix g
      assume "g \<in> {eval \<theta>' (sub (map_of t) (Var x)) | \<theta>'. \<theta>' \<in> sols K4 F4 f4 (comp_sub (map_of t) (map_of s)) f \<theta>}"
      then obtain \<theta>3 \<theta>4 where \<theta>: "g = eval \<theta>4 (sub (map_of t) (Var x))" "\<theta>3 \<in> sols K3 F3 f3 (map_of s) f \<theta>"
        "\<theta>4 \<in> sols K4 F4 f4 (map_of t) f3 \<theta>3"
        using sols_compose [OF r rm V ab(3)] by blast
      have agree: "\<And>v. v < f3 \<Longrightarrow> \<theta>4 v = \<theta>3 v" and mod: "models \<theta>4 (map_of t)" using \<theta>(3) by (auto simp: sols_def)
      have "eval \<theta>4 a = eval \<theta>3 a" "eval \<theta>4 b = eval \<theta>3 b" using agree V3 by (auto intro!: eval_agree(1))
      moreover have "eval \<theta>4 a = eval \<theta>4 b" using m(10) [OF mod] .
      moreover have "g = \<theta>3 x" using eval_sub_models(1) [OF m(4) mod k4] \<theta>(1) agree [OF x3] by simp
      ultimately show "g \<in> {\<theta>3 x | \<theta>3. \<theta>3 \<in> sols K3 F3 f3 (map_of s) f \<theta> \<and> eval \<theta>3 a = eval \<theta>3 b}" using \<theta>(2) by auto
    qed
    with wf fv refines_compose [OF ctx V r rm ab(3)] have "principal K F f env E (map_of c) (sub (map_of t) (Var x)) f4 K4 F4"
      unfolding principal_def c(3) by blast
    moreover have "settles (\<lambda>n. hm_try (?g n) (k n) f3) (Done (Inr (c, sub (map_of t) (Var x)), f4))"
      by (rule settles_try [where m = ?g and f = f3 and k = k, OF success(1) k]) (rule c(1))
    ultimately show ?thesis using c(2) by (intro exI [of _ "Done (Inr (c, sub (map_of t) (Var x)), f4)"]) auto
  qed
  then show ?thesis by (simp add: hm_unify_error_into_eq)
qed

section \<open>Variables, literals and functions\<close>

definition inferable :: "expr \<Rightarrow> bool" where
  "inferable e \<longleftrightarrow> (\<forall>K F f env. context_ok K F f \<longrightarrow> env_ok K F f env \<longrightarrow>
     infer_ok (\<lambda>n. infer n env e) K F f env (\<lambda>\<Gamma>. types \<Gamma> e))"

lemma inferableD:
  "inferable e \<Longrightarrow> context_ok K F f \<Longrightarrow> env_ok K F f env \<Longrightarrow> infer_ok (\<lambda>n. infer n env e) K F f env (\<lambda>\<Gamma>. types \<Gamma> e)"
  by (simp add: inferable_def)

lemma principal_closed:
  assumes "context_ok K F f" "wf_type K F t" "free_vars t = {}" "\<And>\<Gamma>. E \<Gamma> = {eval \<theta>0 t}"
  shows "principal K F f env E Map.empty t f K F"
proof -
  have r: "refines K F f (env_free_vars env) Map.empty f K F" by (rule refines_extend [OF assms(1,1)]) simp_all
  have ev: "eval \<theta> t = eval \<theta>0 t" for \<theta> by (rule eval_agree(1)) (simp add: assms(3))
  have "{eval \<theta>0 t} = {eval \<theta>' t | \<theta>'. \<theta>' \<in> sols K F f Map.empty f \<theta>}" if "admissible K F f \<theta>" for \<theta>
  proof -
    have mem: "\<theta> \<in> sols K F f Map.empty f \<theta>" using that by (simp add: sols_empty)
    show ?thesis
    proof (intro equalityI subsetI)
      fix g
      assume "g \<in> {eval \<theta>0 t}"
      then have "g = eval \<theta> t" using ev [of \<theta>] by simp
      with mem show "g \<in> {eval \<theta>' t | \<theta>'. \<theta>' \<in> sols K F f Map.empty f \<theta>}" by blast
    next
      fix g
      assume "g \<in> {eval \<theta>' t | \<theta>'. \<theta>' \<in> sols K F f Map.empty f \<theta>}"
      then obtain \<theta>' where "g = eval \<theta>' t" by blast
      then show "g \<in> {eval \<theta>0 t}" using ev [of \<theta>'] by simp
    qed
  qed
  with r assms(2-4) show ?thesis by (simp add: principal_def)
qed

lemma infer_lit: "inferable (Lit l)"
  unfolding inferable_def
proof (intro allI impI)
  fix K F f env
  assume ctx: "context_ok K F f"
  let ?t = "case l of IntLit \<Rightarrow> Con ''Int'' | StrLit \<Rightarrow> Con ''Str''"
  have "infer n env (Lit l) f = Done (Inr ([], ?t), f)" for n by (cases l) auto
  moreover have "principal K F f env (\<lambda>\<Gamma>. types \<Gamma> (Lit l)) Map.empty ?t f K F"
    by (rule principal_closed [OF ctx, of _ _ "\<lambda>_. GCon []"]) (cases l; simp)+
  ultimately show "infer_ok (\<lambda>n. infer n env (Lit l)) K F f env (\<lambda>\<Gamma>. types \<Gamma> (Lit l))"
    unfolding infer_ok_def by (intro exI [of _ "Done (Inr ([], ?t), f)"]) auto
qed

lemma infer_var: "inferable (EVar x)"
  unfolding inferable_def
proof (intro allI impI)
  fix K F f env
  assume ctx: "context_ok K F f" and e: "env_ok K F f env"
  show "infer_ok (\<lambda>n. infer n env (EVar x)) K F f env (\<lambda>\<Gamma>. types \<Gamma> (EVar x))"
  proof (cases "env_lookup env x")
    case None
    then show ?thesis
      unfolding infer_ok_def
      by (intro exI [of _ "Done (Inl (UnboundVar x), f)"]) (simp add: env_val_def)
  next
    case (Some sch)
    note sd = env_okD [OF e env_lookup_set [OF Some]]
    obtain r where r: "settles (\<lambda>n. (instantiate n sch :: (infer_error, mono_type) hm) f) r"
      "r = Panic \<or> (\<exists>t f' K' F'. r = Done (Inr t, f') \<and> refines K F f {} Map.empty f' K' F' \<and> wf_type K' F' t \<and>
       free_vars t \<subseteq> scheme_free_vars sch \<union> {f..<f'} \<and>
       (\<forall>\<theta>. admissible K F f \<theta> \<longrightarrow> inst K F f sch \<theta> = {eval \<theta>' t | \<theta>'. \<theta>' \<in> sols K' F' f' Map.empty f \<theta>}))"
      using instantiate_ok [OF ctx sd(1)] by blast
    let ?g = "\<lambda>n. instantiate n sch :: (infer_error, mono_type) hm"
    have i: "infer n env (EVar x) = hm_try (?g n) (\<lambda>ty. hm_return ([], ty))" for n using Some by simp
    from r(2) show ?thesis
    proof
      assume "r = Panic"
      then show ?thesis
        unfolding infer_ok_def i
        using settles_try_panic [where m = ?g and f = f and k = "\<lambda>n ty. hm_return ([], ty)"] r(1) by (intro exI [of _ Panic]) simp
    next
      assume "\<exists>t f' K' F'. r = Done (Inr t, f') \<and> refines K F f {} Map.empty f' K' F' \<and> wf_type K' F' t \<and>
       free_vars t \<subseteq> scheme_free_vars sch \<union> {f..<f'} \<and>
       (\<forall>\<theta>. admissible K F f \<theta> \<longrightarrow> inst K F f sch \<theta> = {eval \<theta>' t | \<theta>'. \<theta>' \<in> sols K' F' f' Map.empty f \<theta>})"
      then obtain t f' K' F' where t: "r = Done (Inr t, f')" "refines K F f {} Map.empty f' K' F'" "wf_type K' F' t"
        "free_vars t \<subseteq> scheme_free_vars sch \<union> {f..<f'}"
        "\<And>\<theta>. admissible K F f \<theta> \<Longrightarrow> inst K F f sch \<theta> = {eval \<theta>' t | \<theta>'. \<theta>' \<in> sols K' F' f' Map.empty f \<theta>}"
        by blast
      have "free_vars t \<subseteq> (env_free_vars env \<union> {f..<f'}) - dom (Map.empty :: type_var \<rightharpoonup> mono_type)" using t(4) sd(3) by auto
      then have "principal K F f env (\<lambda>\<Gamma>. types \<Gamma> (EVar x)) (map_of []) t f' K' F'"
        unfolding principal_def using refines_weaken_vars [OF t(2)] t(3,5) Some by (simp add: env_val_def)
      moreover have "settles (\<lambda>n. infer n env (EVar x) f) (Done (Inr ([], t), f'))"
        unfolding i by (rule settles_try [where m = ?g and f = f and k = "\<lambda>n ty. hm_return ([], ty)", OF r(1) [unfolded t(1)]]) simp
      ultimately show ?thesis unfolding infer_ok_def by (intro exI [of _ "Done (Inr ([], t), f')"]) auto
    qed
  qed
qed

text \<open>One new type variable.\<close>

lemma new_type_var:
  assumes "context_ok K F f"
  shows "context_ok (K(f := KType)) (F(f := [])) (Suc f)"
    and "refines K F f {} Map.empty (Suc f) (K(f := KType)) (F(f := []))"
    and "admissible (K(f := KType)) (F(f := [])) (Suc f) \<theta> \<longleftrightarrow> admissible K F f \<theta>"
proof -
  show c: "context_ok (K(f := KType)) (F(f := [])) (Suc f)"
    unfolding context_ok_def
  proof (intro allI impI)
    fix v
    assume "v < Suc f"
    then show "kinded_values (K(f := KType)) ((F(f := [])) v) \<and> values_free_vars ((F(f := [])) v) \<subseteq> {..<Suc f}"
      using context_okD [OF assms, of v] sim_agree_kinded [of K "F v" f "K(f := KType)"]
      by (cases "v = f") (auto simp: less_Suc_eq)
  qed
  show "refines K F f {} Map.empty (Suc f) (K(f := KType)) (F(f := []))"
    by (rule refines_extend [OF assms c]) simp_all
  show "admissible (K(f := KType)) (F(f := [])) (Suc f) \<theta> \<longleftrightarrow> admissible K F f \<theta>"
    by (auto simp: admissible_def admissible_at_def less_Suc_eq)
qed

lemma env_ok_param:
  fixes x :: string
  assumes ctx: "context_ok K F f" and e: "env_ok K F f env"
  defines "K1 \<equiv> K(f := KType)" and "F1 \<equiv> F(f := [])" and "env1 \<equiv> env_extend x \<lparr>quantified = [], body = Var f\<rparr> env"
  shows "env_ok K1 F1 (Suc f) env1" "env_free_vars env1 \<subseteq> insert f (env_free_vars env)"
    and "\<theta>1 \<in> sols K1 F1 (Suc f) Map.empty f \<theta> \<Longrightarrow>
      env_val K1 F1 (Suc f) env1 \<theta>1 = (env_val K F f env \<theta>)(x \<mapsto> {\<theta>1 f})"
proof -
  let ?sch = "\<lparr>quantified = [], body = Var f\<rparr>"
  note n = new_type_var [OF ctx, folded K1_def F1_def]
  have r: "refines K F f (env_free_vars env) Map.empty (Suc f) K1 F1" by (rule refines_weaken_vars [OF n(2)]) simp
  have sub: "sub_env Map.empty env = env"
    by (auto simp: sub_env_def sub_scheme_def sub_id(1) intro!: map_idI)
  have e1: "env_ok K1 F1 (Suc f) env" using env_ok_sub [OF r e] by (simp add: sub)
  have free: "scheme_free_vars ?sch = {f}" by (simp add: scheme_free_vars_def)
  have s: "scheme_ok K1 F1 (Suc f) ?sch"
    by (auto simp: scheme_ok_def free closed_def front_vars_type K1_def)
  have q: "set (quantified sch') \<inter> scheme_free_vars ?sch = {}" if "(y, sch') \<in> set env" for y sch'
    using scheme_okD(3) [OF env_okD(1) [OF e that]] by (auto simp: free)
  show "env_ok K1 F1 (Suc f) env1"
    unfolding env1_def by (rule env_ok_extend(1) [OF e1 s _ _ q]) simp_all
  show "env_free_vars env1 \<subseteq> insert f (env_free_vars env)"
    using env_ok_extend(2) [where x = x, OF e1 s _ _ q] by (simp add: env1_def free)
  show "env_val K1 F1 (Suc f) env1 \<theta>1 = (env_val K F f env \<theta>)(x \<mapsto> {\<theta>1 f})"
    if \<theta>1: "\<theta>1 \<in> sols K1 F1 (Suc f) Map.empty f \<theta>"
  proof -
    have "inst K1 F1 (Suc f) ?sch \<theta>1 = {\<theta>1 f}"
      using \<theta>1 by (auto simp: inst_def sols_empty intro!: exI [of _ \<theta>1])
    then show ?thesis
      using env_val_sub [OF r e \<theta>1] by (simp add: env1_def env_val_extend sub)
  qed
qed

lemma infer_lam:
  assumes IH: "inferable e"
  shows "inferable (Lam x e)"
  unfolding inferable_def infer_ok_def
proof (intro allI impI)
  fix K F f env
  assume ctx: "context_ok K F f" and e: "env_ok K F f env"
  let ?E = "\<lambda>\<Gamma>. types \<Gamma> (Lam x e)"
  let ?K = "K(f := KType)" and ?F = "F(f := [])" and ?env = "env_extend x \<lparr>quantified = [], body = Var f\<rparr> env"
  note n = new_type_var [OF ctx] and p = env_ok_param [where x = x, OF ctx e]
  let ?g = "\<lambda>n. infer n ?env e" and ?k = "\<lambda>n (s1, t1). hm_try (hm_lift (subst_apply n s1 (Var f))) (\<lambda>ta. hm_return (s1, Arrow ta t1)) ::
    (infer_error, substitution \<times> mono_type) hm"
  have ext: "\<theta>(f := g) \<in> sols ?K ?F (Suc f) Map.empty f \<theta>" if "admissible K F f \<theta>" for \<theta> g
  proof -
    have "admissible K F f (\<theta>(f := g))" using that by (simp add: admissible_def)
    then show ?thesis using n(3) by (simp add: sols_empty)
  qed
  have "ends K F f env ?E (\<lambda>n. hm_try (?g n) (?k n) (Suc f))"
  proof (rule ends_infer [OF inferableD [OF IH n(1) p(1)]])
    fix \<theta>
    assume adm: "admissible K F f \<theta>"
      and none: "\<And>\<theta>1. admissible ?K ?F (Suc f) \<theta>1 \<Longrightarrow> types (env_val ?K ?F (Suc f) ?env \<theta>1) e = {}"
    have "types ((env_val K F f env \<theta>)(x \<mapsto> {g})) e = {}" for g
      using none [of "\<theta>(f := g)"] p(3) [OF ext [OF adm]] ext [OF adm, of g] by (simp add: sols_empty)
    then show "types (env_val K F f env \<theta>) (Lam x e) = {}" by simp
  next
    fix s t f' K' F'
    assume success: "sorted_keys s" "principal ?K ?F (Suc f) ?env (\<lambda>\<Gamma>. types \<Gamma> e) (map_of s) t f' K' F'"
    note pr = principalD [OF success(2)]
    note rd = refinesD [OF pr(1)]
    let ?\<sigma> = "map_of s"
    let ?t = "Arrow (sub ?\<sigma> (Var f)) t"
    have V: "env_free_vars ?env \<union> {Suc f..<f'} \<subseteq> env_free_vars env \<union> {f..<f'}" using p(2) rd(1) by auto
    have f': "f < f'" using rd(1) by simp
    have kf: "kinded K' (Var f)" using rd(8) [of f] by simp
    have ev: "\<theta>' \<in> sols K' F' f' ?\<sigma> (Suc f) \<theta>1 \<Longrightarrow> eval \<theta>' (sub ?\<sigma> (Var f)) = \<theta>1 f" for \<theta>' \<theta>1
      using eval_sub_models(1) [OF rd(4) _ kf, of \<theta>'] by (simp add: sols_def)
    note r0 = refines_weaken_vars [OF n(2) empty_subsetI]
    note V0 = env_ok_vars(1) [OF e]
    have V2: "env_free_vars ?env \<subseteq> (env_free_vars env \<union> {f..<Suc f}) - dom Map.empty" using p(2) by auto
    have r: "refines K F f (env_free_vars env) ?\<sigma> f' K' F'"
      using refines_compose [OF ctx V0 r0 pr(1) V2] by simp
    have sc: "\<theta>' \<in> sols K' F' f' ?\<sigma> f \<theta> \<longleftrightarrow> (\<exists>\<theta>1 \<in> sols ?K ?F (Suc f) Map.empty f \<theta>. \<theta>' \<in> sols K' F' f' ?\<sigma> (Suc f) \<theta>1)" for \<theta> \<theta>'
      using sols_compose [OF r0 pr(1) V0 V2, of \<theta>' \<theta>] by simp
    have "types (env_val K F f env \<theta>) (Lam x e) = {eval \<theta>' ?t | \<theta>'. \<theta>' \<in> sols K' F' f' ?\<sigma> f \<theta>}" if adm: "admissible K F f \<theta>" for \<theta>
    proof -
      have tb: "types ((env_val K F f env \<theta>)(x \<mapsto> {\<theta>1 f})) e = {eval \<theta>' t | \<theta>'. \<theta>' \<in> sols K' F' f' ?\<sigma> (Suc f) \<theta>1}"
        if "\<theta>1 \<in> sols ?K ?F (Suc f) Map.empty f \<theta>" for \<theta>1
        using pr(4) [of \<theta>1] p(3) [OF that] that by (simp add: sols_empty)
      have "types (env_val K F f env \<theta>) (Lam x e) =
          {GArrow (\<theta>1 f) b | \<theta>1 b. \<theta>1 \<in> sols ?K ?F (Suc f) Map.empty f \<theta> \<and> b \<in> types ((env_val K F f env \<theta>)(x \<mapsto> {\<theta>1 f})) e}"
      proof (intro equalityI subsetI)
        fix g
        assume "g \<in> types (env_val K F f env \<theta>) (Lam x e)"
        then obtain a b where "g = GArrow a b" "b \<in> types ((env_val K F f env \<theta>)(x \<mapsto> {a})) e" by auto
        then show "g \<in> {GArrow (\<theta>1 f) b | \<theta>1 b. \<theta>1 \<in> sols ?K ?F (Suc f) Map.empty f \<theta> \<and>
            b \<in> types ((env_val K F f env \<theta>)(x \<mapsto> {\<theta>1 f})) e}"
          using ext [OF adm, of a] by (intro CollectI exI [of _ "\<theta>(f := a)"] exI [of _ b]) simp
      qed auto
      also have "\<dots> = {GArrow (\<theta>1 f) (eval \<theta>' t) | \<theta>1 \<theta>'. \<theta>1 \<in> sols ?K ?F (Suc f) Map.empty f \<theta> \<and> \<theta>' \<in> sols K' F' f' ?\<sigma> (Suc f) \<theta>1}"
        using tb by blast
      also have "\<dots> = {eval \<theta>' ?t | \<theta>'. \<theta>' \<in> sols K' F' f' ?\<sigma> f \<theta>}"
        unfolding sc eval.simps by (rule Collect_cong) (metis ev)
      finally show ?thesis .
    qed
    moreover have "wf_type K' F' (sub ?\<sigma> (Var f))" by (rule wf_sub(1) [OF rd(7,4)]) simp_all
    moreover have "free_vars ?t \<subseteq> (env_free_vars env \<union> {f..<f'}) - dom ?\<sigma>"
    proof -
      have "free_vars (sub ?\<sigma> (Var f)) \<subseteq> ({f} - dom ?\<sigma>) \<union> range_vars ?\<sigma>" using free_vars_sub_subset(1) [OF rd(4) kf] by simp
      moreover have "range_vars ?\<sigma> \<subseteq> (env_free_vars env \<union> {f..<f'}) - dom ?\<sigma>" using rd(5) refinesD(6) [OF r] by (auto simp: idem_def)
      moreover have "free_vars t \<subseteq> (env_free_vars env \<union> {f..<f'}) - dom ?\<sigma>" using pr(3) V by blast
      moreover have "{f} \<subseteq> env_free_vars env \<union> {f..<f'}" using f' by auto
      ultimately show ?thesis unfolding free_vars.simps by blast
    qed
    ultimately have "principal K F f env ?E ?\<sigma> ?t f' K' F'"
      unfolding principal_def using r pr(2) by simp
    moreover have "settles (\<lambda>n. ?k n (s, t) f') (Done (Inr (s, ?t), f'))"
      unfolding prod.case by (rule settles_lift_try [of "\<lambda>n. subst_apply n s (Var f)" "sub ?\<sigma> (Var f)"]) simp_all
    ultimately show "ends K F f env ?E (\<lambda>n. ?k n (s, t) f')"
      using success(1) by (intro exI [of _ "Done (Inr (s, ?t), f')"]) auto
  qed simp
  then show "ends K F f env ?E (\<lambda>n. infer n env (Lam x e) f)"
    using ends_fresh [where k = "\<lambda>n a. hm_try (infer n (env_extend x \<lparr>quantified = [], body = Var a\<rparr> env) e)
      (\<lambda>(s1, t1). hm_try (hm_lift (subst_apply n s1 (Var a))) (\<lambda>ta. hm_return (s1, Arrow ta t1)))"] by simp
qed

section \<open>Application\<close>

lemma wf_later:
  assumes "refines K F f {} Map.empty f' K' F'" "wf_type K F t" "free_vars t \<subseteq> {..<f}"
  shows "wf_type K' F' t"
  using wf_sub(1) [OF refinesD(7,4) [OF assms(1)] assms(2,3)] sub_id(1) [of t Map.empty] by simp

lemma infer_app:
  assumes IH: "inferable e1" "inferable e2"
  shows "inferable (App e1 e2)"
  unfolding inferable_def infer_ok_def
proof (intro allI impI)
  fix K F f env
  assume ctx: "context_ok K F f" and e: "env_ok K F f env"
  let ?E = "\<lambda>\<Gamma>. types \<Gamma> (App e1 e2)"
  note V = env_ok_vars(1) [OF e] and s0 = stage_refl [OF ctx e]
  show "ends K F f env ?E (\<lambda>n. infer n env (App e1 e2) f)"
    unfolding infer.simps
  proof (rule ends_infer [OF inferableD [OF IH(1) ctx e] order_refl])
    show "?E (env_val K F f env \<theta>) = {}"
      if "admissible K F f \<theta>" "\<And>\<theta>1. admissible K F f \<theta>1 \<Longrightarrow> types (env_val K F f env \<theta>1) e1 = {}" for \<theta>
      using that(2) [OF that(1)] by simp
    fix s1 tf f1 K1 F1
    assume s1: "sorted_keys s1" and p1: "principal K F f env (\<lambda>\<Gamma>. types \<Gamma> e1) (map_of s1) tf f1 K1 F1"
    note pr1 = principalD [OF p1]
    note st1 = stage_infer [OF ctx e s0 pr1(1), unfolded comp_sub_empty]
    let ?env1 = "sub_env (map_of s1) env"
    note d1 = stageD [OF st1]
    have tf1: "free_vars tf \<subseteq> {..<f1}" by (rule vars_below [OF V refinesD(1) [OF pr1(1)] pr1(3)])
    show "ends K F f env ?E (\<lambda>n. (case (s1, tf) of (s1, tf) \<Rightarrow>
       hm_try (hm_lift (apply_env n s1 env)) (\<lambda>env1. hm_try (infer n env1 e2) (\<lambda>(s2, ta). hm_try fresh (\<lambda>r.
       hm_try (hm_lift (subst_apply n s2 tf)) (\<lambda>tf'.
       hm_try (hm_unify_error_into (unify_with_fresh n tf' (Arrow ta (Var r)))) (\<lambda>s3.
       hm_try (hm_lift (subst_compose n s2 s1)) (\<lambda>s21. hm_try (hm_lift (subst_compose n s3 s21)) (\<lambda>composed.
       hm_try (hm_lift (subst_apply n s3 (Var r))) (\<lambda>result. hm_return (composed, result)))))))))) f1)"
      unfolding prod.case
    proof (rule ends_lift [of "\<lambda>n. apply_env n s1 env", OF apply_env_sub [OF pr1(1) e]],
        rule ends_infer [OF inferableD [OF IH(2) refinesD(2) [OF d1(1)] d1(2)] refinesD(1) [OF d1(1)]])
      fix \<theta>
      assume adm: "admissible K F f \<theta>" and none: "\<And>\<theta>1. admissible K1 F1 f1 \<theta>1 \<Longrightarrow> types (env_val K1 F1 f1 ?env1 \<theta>1) e2 = {}"
      show "?E (env_val K F f env \<theta>) = {}"
      proof (cases "sols K1 F1 f1 (map_of s1) f \<theta> = {}")
        case True
        then show ?thesis using pr1(4) [OF adm] by simp
      next
        case False
        then obtain \<theta>1 where \<theta>1: "\<theta>1 \<in> sols K1 F1 f1 (map_of s1) f \<theta>" by blast
        then show ?thesis using none [of \<theta>1] d1(4) [OF \<theta>1] by (simp add: sols_def)
      qed
    next
      fix s2 ta f2 K2 F2
      assume s2: "sorted_keys s2" and p2: "principal K1 F1 f1 ?env1 (\<lambda>\<Gamma>. types \<Gamma> e2) (map_of s2) ta f2 K2 F2"
      note pr2 = principalD [OF p2]
      note rd2 = refinesD [OF pr2(1)]
      let ?K3 = "K2(f2 := KType)" and ?F3 = "F2(f2 := [])" and ?tf = "sub (map_of s2) tf"
      obtain s21 where s21: "\<And>d. subst_compose (Suc d) s2 s1 = Some s21" "sorted_keys s21"
        "map_of s21 = comp_sub (map_of s2) (map_of s1)"
        using compose_settles [OF s1 s2 V pr1(1) pr2(1) d1(3)] by blast
      note r2 = refines_compose [OF ctx V pr1(1) pr2(1) d1(3), folded s21(3)]
      note n = new_type_var [OF rd2(2)]
      note r3 = refines_later [OF r2 n(2) ctx V]
      have ktf: "kinded K2 tf"
        using kinded_agree(1) [of tf K1 K2] wf_kinded(1) [OF pr1(2)] rd2(8) tf1 by (metis lessThan_iff subsetD)
      have wtf: "wf_type K2 F2 ?tf" by (rule wf_sub(1) [OF rd2(7,4) pr1(2) tf1])
      have vtf: "free_vars ?tf \<subseteq> (env_free_vars env \<union> {f..<f2}) - dom (map_of s21)"
        using free_vars_sub_subset(1) [OF rd2(4) ktf] vars_later(2) [OF pr1(1) pr2(1) V d1(3) pr1(3)] unfolding s21(3) by blast
      have vta: "free_vars ta \<subseteq> (env_free_vars env \<union> {f..<f2}) - dom (map_of s21)"
        using vars_later(1) [OF pr1(1) pr2(1) V d1(3) pr2(3)] unfolding s21(3) .
      have f2: "f \<le> f2" by (rule refinesD(1) [OF r2])
      have below: "free_vars ?tf \<subseteq> {..<f2}" "free_vars ta \<subseteq> {..<f2}"
        by (rule vars_below [OF V f2 vtf], rule vars_below [OF V f2 vta])
      have sym: "\<theta>2 \<in> sols K2 F2 f2 (map_of s21) f \<theta> \<longleftrightarrow>
          (\<exists>\<theta>1 \<in> sols K1 F1 f1 (map_of s1) f \<theta>. \<theta>2 \<in> sols K2 F2 f2 (map_of s2) f1 \<theta>1)" for \<theta> \<theta>2
        unfolding s21(3) by (rule sols_compose [OF pr1(1) pr2(1) V d1(3)])
      have evtf: "eval \<theta>2 ?tf = eval \<theta>1 tf" if "\<theta>2 \<in> sols K2 F2 f2 (map_of s2) f1 \<theta>1" for \<theta>1 \<theta>2
      proof -
        have "eval \<theta>2 ?tf = eval \<theta>2 tf" by (rule eval_sub_models(1) [OF rd2(4) _ ktf]) (use that in \<open>simp add: sols_def\<close>)
        also have "\<dots> = eval \<theta>1 tf" by (rule eval_agree(1)) (use that tf1 in \<open>auto simp: sols_def\<close>)
        finally show ?thesis .
      qed
      have E: "?E (env_val K F f env \<theta>) = {\<theta>3 f2 | \<theta>3. \<theta>3 \<in> sols ?K3 ?F3 (Suc f2) (map_of s21) f \<theta> \<and>
          eval \<theta>3 ?tf = eval \<theta>3 (Arrow ta (Var f2))}" if adm: "admissible K F f \<theta>" for \<theta>
      proof (intro equalityI subsetI)
        let ?\<Gamma> = "env_val K F f env \<theta>"
        fix g
        assume "g \<in> ?E ?\<Gamma>"
        then obtain a where a: "GArrow a g \<in> types ?\<Gamma> e1" "a \<in> types ?\<Gamma> e2" by auto
        from a(1) obtain \<theta>1 where \<theta>1: "\<theta>1 \<in> sols K1 F1 f1 (map_of s1) f \<theta>" "eval \<theta>1 tf = GArrow a g"
          unfolding pr1(4) [OF adm] by auto
        have "admissible K1 F1 f1 \<theta>1" using \<theta>1(1) by (simp add: sols_def)
        from a(2) obtain \<theta>2 where \<theta>2: "\<theta>2 \<in> sols K2 F2 f2 (map_of s2) f1 \<theta>1" "a = eval \<theta>2 ta"
          unfolding d1(4) [OF \<theta>1(1), symmetric] pr2(4) [OF \<open>admissible K1 F1 f1 \<theta>1\<close>] by auto
        let ?\<theta>3 = "\<theta>2(f2 := g)"
        have "\<theta>2 \<in> sols K2 F2 f2 (map_of s21) f \<theta>" using \<theta>1(1) \<theta>2(1) sym by blast
        moreover have "admissible K2 F2 f2 ?\<theta>3" using calculation by (simp add: sols_def admissible_def)
        ultimately have "?\<theta>3 \<in> sols ?K3 ?F3 (Suc f2) (map_of s21) f \<theta>"
          unfolding r3(2) n(3) by (intro bexI [of _ \<theta>2]) simp_all
        moreover have "eval ?\<theta>3 ?tf = eval \<theta>2 ?tf" "eval ?\<theta>3 ta = eval \<theta>2 ta"
          using below by (auto intro!: eval_agree(1))
        ultimately show "g \<in> {\<theta>3 f2 | \<theta>3. \<theta>3 \<in> sols ?K3 ?F3 (Suc f2) (map_of s21) f \<theta> \<and>
            eval \<theta>3 ?tf = eval \<theta>3 (Arrow ta (Var f2))}"
          using evtf [OF \<theta>2(1)] \<theta>1(2) \<theta>2(2) by (intro CollectI exI [of _ ?\<theta>3]) simp
      next
        let ?\<Gamma> = "env_val K F f env \<theta>"
        fix g
        assume "g \<in> {\<theta>3 f2 | \<theta>3. \<theta>3 \<in> sols ?K3 ?F3 (Suc f2) (map_of s21) f \<theta> \<and>
            eval \<theta>3 ?tf = eval \<theta>3 (Arrow ta (Var f2))}"
        then obtain \<theta>3 where \<theta>3: "g = \<theta>3 f2" "\<theta>3 \<in> sols ?K3 ?F3 (Suc f2) (map_of s21) f \<theta>"
          "eval \<theta>3 ?tf = eval \<theta>3 (Arrow ta (Var f2))" by blast
        from \<theta>3(2) obtain \<theta>2 where \<theta>2: "\<theta>2 \<in> sols K2 F2 f2 (map_of s21) f \<theta>" "\<forall>v < f2. \<theta>3 v = \<theta>2 v"
          unfolding r3(2) by blast
        then obtain \<theta>1 where \<theta>: "\<theta>1 \<in> sols K1 F1 f1 (map_of s1) f \<theta>" "\<theta>2 \<in> sols K2 F2 f2 (map_of s2) f1 \<theta>1"
          "\<forall>v < f2. \<theta>3 v = \<theta>2 v"
          unfolding sym by blast
        have "eval \<theta>3 ?tf = eval \<theta>2 ?tf" "eval \<theta>3 ta = eval \<theta>2 ta"
          using below \<theta>(3) by (auto intro!: eval_agree(1))
        then have "eval \<theta>1 tf = GArrow (eval \<theta>2 ta) g" using evtf [OF \<theta>(2)] \<theta>3(1,3) by simp
        then have "GArrow (eval \<theta>2 ta) g \<in> types ?\<Gamma> e1" unfolding pr1(4) [OF adm] using \<theta>(1) by force
        moreover have "admissible K1 F1 f1 \<theta>1" using \<theta>(1) by (simp add: sols_def)
        then have "eval \<theta>2 ta \<in> types ?\<Gamma> e2"
          unfolding d1(4) [OF \<theta>(1), symmetric] using pr2(4) \<theta>(2) by blast
        ultimately show "g \<in> ?E ?\<Gamma>" by auto
      qed
      show "ends K F f env ?E (\<lambda>n. (case (s2, ta) of (s2, ta) \<Rightarrow> hm_try fresh (\<lambda>r.
       hm_try (hm_lift (subst_apply n s2 tf)) (\<lambda>tf'.
       hm_try (hm_unify_error_into (unify_with_fresh n tf' (Arrow ta (Var r)))) (\<lambda>s3.
       hm_try (hm_lift (subst_compose n s2 s1)) (\<lambda>s21. hm_try (hm_lift (subst_compose n s3 s21)) (\<lambda>composed.
       hm_try (hm_lift (subst_apply n s3 (Var r))) (\<lambda>result. hm_return (composed, result)))))))) f2)"
        unfolding prod.case
      proof (rule ends_fresh, rule ends_lift [of "\<lambda>n. subst_apply n s2 tf", OF apply_sub(1) [OF rd2(4,5) ktf]],
          rule ends_unify [OF ctx e s21(2) r3(1) _ _ _ _ _ E])
        show "wf_type ?K3 ?F3 ?tf" by (rule wf_later [OF n(2) wtf below(1)])
        show "wf_type ?K3 ?F3 (Arrow ta (Var f2))" using wf_later [OF n(2) pr2(2) below(2)] by simp
        show "free_vars ?tf \<union> free_vars (Arrow ta (Var f2)) \<subseteq> (env_free_vars env \<union> {f..<Suc f2}) - dom (map_of s21)"
          using vtf vta f2 refines_vars [OF r2 V] by fastforce
        fix t c f4
        assume c: "\<And>d. subst_compose (Suc d) t s21 = Some c"
        show "settles (\<lambda>n. hm_try (hm_lift (subst_compose n s2 s1)) (\<lambda>s21. hm_try (hm_lift (subst_compose n t s21)) (\<lambda>composed.
         hm_try (hm_lift (subst_apply n t (Var f2))) (\<lambda>result. hm_return (composed, result)))) f4)
         (Done (Inr (c, sub (map_of t) (Var f2)), f4))"
          by (rule settles_lift_try [of "\<lambda>n. subst_compose n s2 s1", OF s21(1)],
              rule settles_lift_try [of "\<lambda>n. subst_compose n t s21", OF c],
              rule settles_lift_try [of "\<lambda>n. subst_apply n t (Var f2)" "sub (map_of t) (Var f2)"]) simp_all
      qed simp_all
    qed
  qed
qed

section \<open>Let\<close>

lemma infer_let:
  assumes IH: "inferable e1" "inferable e2"
  shows "inferable (Let x e1 e2)"
  unfolding inferable_def infer_ok_def
proof (intro allI impI)
  fix K F f env
  assume ctx: "context_ok K F f" and e: "env_ok K F f env"
  let ?E = "\<lambda>\<Gamma>. types \<Gamma> (Let x e1 e2)"
  note V = env_ok_vars(1) [OF e] and s0 = stage_refl [OF ctx e]
  show "ends K F f env ?E (\<lambda>n. infer n env (Let x e1 e2) f)"
    unfolding infer.simps
  proof (rule ends_infer [OF inferableD [OF IH(1) ctx e] order_refl])
    show "?E (env_val K F f env \<theta>) = {}"
      if "admissible K F f \<theta>" "\<And>\<theta>1. admissible K F f \<theta>1 \<Longrightarrow> types (env_val K F f env \<theta>1) e1 = {}" for \<theta>
      using that(2) [OF that(1)] by simp
    fix s1 tv f1 K1 F1
    assume s1: "sorted_keys s1" and p1: "principal K F f env (\<lambda>\<Gamma>. types \<Gamma> e1) (map_of s1) tv f1 K1 F1"
    note pr1 = principalD [OF p1]
    let ?env1 = "sub_env (map_of s1) env"
    let ?env2 = "env_extend x (generalize ?env1 tv) ?env1"
    note gen = generalize_ok [OF pr1(1) e pr1(2,3)]
    have V2: "env_free_vars ?env2 \<subseteq> (env_free_vars env \<union> {f..<f1}) - dom (map_of s1)"
      using gen(3) env_free_vars_sub_subset [OF pr1(1) e] by blast
    have types: "?E (env_val K F f env \<theta>) = types (env_val K1 F1 f1 ?env2 \<theta>1) e2"
      if \<theta>: "admissible K F f \<theta>" "\<theta>1 \<in> sols K1 F1 f1 (map_of s1) f \<theta>" for \<theta> \<theta>1
    proof -
      have "inst K1 F1 f1 (generalize ?env1 tv) \<theta>1 = types (env_val K F f env \<theta>) e1"
        using generalize_inst [OF pr1(1) e pr1(2,3) \<theta>(2)] pr1(4) [OF \<theta>(1)] by simp
      moreover have "types (env_val K F f env \<theta>) e1 \<noteq> {}" using pr1(4) [OF \<theta>(1)] \<theta>(2) by auto
      ultimately show ?thesis
        using env_val_sub [OF pr1(1) e \<theta>(2)] by (simp add: env_val_extend)
    qed
    have empty: "?E (env_val K F f env \<theta>) = {}" if "admissible K F f \<theta>" "sols K1 F1 f1 (map_of s1) f \<theta> = {}" for \<theta>
      using pr1(4) [OF that(1)] that(2) by simp
    show "ends K F f env ?E (\<lambda>n. (case (s1, tv) of (s1, tv) \<Rightarrow> hm_try (hm_lift (apply_env n s1 env)) (\<lambda>env1.
       hm_try (infer n (env_extend x (generalize env1 tv) env1) e2) (\<lambda>(s2, tb).
       hm_try (hm_lift (subst_compose n s2 s1)) (\<lambda>composed. hm_return (composed, tb))))) f1)"
      unfolding prod.case
    proof (rule ends_lift [of "\<lambda>n. apply_env n s1 env", OF apply_env_sub [OF pr1(1) e]],
        rule ends_infer [OF inferableD [OF IH(2) refinesD(2) [OF pr1(1)] gen(2)] refinesD(1) [OF pr1(1)]])
      fix \<theta>
      assume adm: "admissible K F f \<theta>" and none: "\<And>\<theta>1. admissible K1 F1 f1 \<theta>1 \<Longrightarrow> types (env_val K1 F1 f1 ?env2 \<theta>1) e2 = {}"
      show "?E (env_val K F f env \<theta>) = {}"
      proof (cases "sols K1 F1 f1 (map_of s1) f \<theta> = {}")
        case False
        then obtain \<theta>1 where \<theta>1: "\<theta>1 \<in> sols K1 F1 f1 (map_of s1) f \<theta>" by blast
        then show ?thesis using none [of \<theta>1] types [OF adm \<theta>1] by (simp add: sols_def)
      qed (rule empty [OF adm])
    next
      fix s2 tb f2 K2 F2
      assume s2: "sorted_keys s2" and p2: "principal K1 F1 f1 ?env2 (\<lambda>\<Gamma>. types \<Gamma> e2) (map_of s2) tb f2 K2 F2"
      note pr2 = principalD [OF p2]
      obtain c where c: "\<And>d. subst_compose (Suc d) s2 s1 = Some c" "sorted_keys c"
        "map_of c = comp_sub (map_of s2) (map_of s1)"
        using compose_settles [OF s1 s2 V pr1(1) pr2(1) V2] by blast
      have E: "?E (env_val K F f env \<theta>) = {eval \<theta>' tb | \<theta>'. \<theta>' \<in> sols K2 F2 f2 (map_of c) f \<theta>}" if adm: "admissible K F f \<theta>" for \<theta>
      proof -
        have *: "?E (env_val K F f env \<theta>) = {eval \<theta>' tb | \<theta>'. \<theta>' \<in> sols K2 F2 f2 (map_of s2) f1 \<theta>1}"
          if "\<theta>1 \<in> sols K1 F1 f1 (map_of s1) f \<theta>" for \<theta>1
          using types [OF adm that] pr2(4) [of \<theta>1] that by (simp add: sols_def)
        show ?thesis
          unfolding c(3) sols_compose [OF pr1(1) pr2(1) V V2] using * empty [OF adm] by blast
      qed
      have "principal K F f env ?E (map_of c) tb f2 K2 F2"
        unfolding principal_def
        using refines_compose [OF ctx V pr1(1) pr2(1) V2, folded c(3)] pr2(2)
          vars_later(1) [OF pr1(1) pr2(1) V V2 pr2(3), folded c(3)] E by blast
      moreover have "settles (\<lambda>n. hm_try (hm_lift (subst_compose n s2 s1)) (\<lambda>composed. hm_return (composed, tb)) f2)
          (Done (Inr (c, tb), f2) :: ((infer_error + substitution \<times> mono_type) \<times> nat) outcome)"
        by (rule settles_lift_try [of "\<lambda>n. subst_compose n s2 s1", OF c(1)]) simp
      ultimately show "ends K F f env ?E (\<lambda>n. (case (s2, tb) of (s2, tb) \<Rightarrow>
         hm_try (hm_lift (subst_compose n s2 s1)) (\<lambda>composed. hm_return (composed, tb) :: (infer_error, substitution \<times> mono_type) hm)) f2)"
        unfolding prod.case using c(2) by (intro exI [of _ "Done (Inr (c, tb), f2)"]) auto
    qed
  qed
qed

section \<open>Fields of records\<close>

text \<open>A type variable for the field and a row variable for the other fields.\<close>

lemma new_field_vars:
  fixes l :: string
  assumes ctx: "context_ok K F f"
  defines "K' \<equiv> K(f := KType, Suc f := KRow)" and "F' \<equiv> F(f := [], Suc f := [(l, Var f)])"
  shows "context_ok K' F' (Suc (Suc f))" "refines K F f {} Map.empty (Suc (Suc f)) K' F'"
    and "admissible K' F' (Suc (Suc f)) \<theta> \<longleftrightarrow> admissible K F f \<theta> \<and> (\<exists>m. \<theta> (Suc f) = GRecord m \<and> fmlookup m l = None)"
    and "wf_type K' F' (Record (Extend l (Var f) (RowVar (Suc f))))"
proof -
  have old: "K' v = K v \<and> F' v = F v" if "v < f" for v using that by (simp add: K'_def F'_def)
  show c: "context_ok K' F' (Suc (Suc f))"
    unfolding context_ok_def
  proof (intro allI impI)
    fix v
    assume "v < Suc (Suc f)"
    then consider "v < f" | "v = f" | "v = Suc f" by linarith
    then show "kinded_values K' (F' v) \<and> values_free_vars (F' v) \<subseteq> {..<Suc (Suc f)}"
    proof cases
      case 1
      then show ?thesis
        using context_okD [OF ctx 1] sim_agree_kinded [of K "F v" f K'] old by (auto simp: F'_def)
    qed (simp_all add: K'_def F'_def)
  qed
  show "refines K F f {} Map.empty (Suc (Suc f)) K' F'"
    by (rule refines_extend [OF ctx c]) (use old in auto)
  have "admissible K' F' (Suc (Suc f)) \<theta> \<longleftrightarrow> admissible K F f \<theta> \<and> admissible_at K' F' (Suc f) (\<theta> (Suc f))"
    using old by (auto simp: admissible_def admissible_at_def less_Suc_eq K'_def F'_def)
  moreover have "admissible_at K' F' (Suc f) (\<theta> (Suc f)) \<longleftrightarrow> (\<exists>m. \<theta> (Suc f) = GRecord m \<and> fmlookup m l = None)"
    by (auto simp: admissible_at_def K'_def F'_def fmlookup_dom'_iff)
  ultimately show "admissible K' F' (Suc (Suc f)) \<theta> \<longleftrightarrow> admissible K F f \<theta> \<and> (\<exists>m. \<theta> (Suc f) = GRecord m \<and> fmlookup m l = None)"
    by simp
  show "wf_type K' F' (Record (Extend l (Var f) (RowVar (Suc f))))"
    by (simp add: wf_row_def coherent_def K'_def F'_def)
qed

lemma infer_field:
  assumes IH: "inferable e"
  shows "inferable (Field e l)"
  unfolding inferable_def infer_ok_def
proof (intro allI impI)
  fix K F f env
  assume ctx: "context_ok K F f" and e: "env_ok K F f env"
  let ?E = "\<lambda>\<Gamma>. types \<Gamma> (Field e l)"
  note V = env_ok_vars(1) [OF e]
  show "ends K F f env ?E (\<lambda>n. infer n env (Field e l) f)"
    unfolding infer.simps
  proof (rule ends_infer [OF inferableD [OF IH ctx e] order_refl])
    show "?E (env_val K F f env \<theta>) = {}"
      if "admissible K F f \<theta>" "\<And>\<theta>1. admissible K F f \<theta>1 \<Longrightarrow> types (env_val K F f env \<theta>1) e = {}" for \<theta>
      using that(2) [OF that(1)] by simp
    fix s tr f1 K1 F1
    assume s: "sorted_keys s" and p: "principal K F f env (\<lambda>\<Gamma>. types \<Gamma> e) (map_of s) tr f1 K1 F1"
    note pr = principalD [OF p]
    note rd = refinesD [OF pr(1)]
    let ?K = "K1(f1 := KType, Suc f1 := KRow)" and ?F = "F1(f1 := [], Suc f1 := [(l, Var f1)])"
    let ?r = "Record (Extend l (Var f1) (RowVar (Suc f1)))"
    note n = new_field_vars [where l = l, OF rd(2)]
    note r3 = refines_later [OF pr(1) n(2) ctx V]
    have tr1: "free_vars tr \<subseteq> {..<f1}" by (rule vars_below [OF V rd(1) pr(3)])
    have ap: "subst_apply (Suc d) s tr = Some tr" for d by (rule apply_id(1)) (use pr(3) in blast)
    have E: "?E (env_val K F f env \<theta>) = {\<theta>3 f1 | \<theta>3. \<theta>3 \<in> sols ?K ?F (Suc (Suc f1)) (map_of s) f \<theta> \<and>
        eval \<theta>3 tr = eval \<theta>3 ?r}" if adm: "admissible K F f \<theta>" for \<theta>
    proof (intro equalityI subsetI)
      fix g
      assume "g \<in> ?E (env_val K F f env \<theta>)"
      then obtain m where "GRecord m \<in> types (env_val K F f env \<theta>) e" and m: "fmlookup m l = Some g" by auto
      then obtain \<theta>1 where \<theta>1: "\<theta>1 \<in> sols K1 F1 f1 (map_of s) f \<theta>" "eval \<theta>1 tr = GRecord m"
        unfolding pr(4) [OF adm] by auto
      let ?\<theta>3 = "\<theta>1(f1 := g, Suc f1 := GRecord (fmdrop l m))"
      have "admissible K1 F1 f1 ?\<theta>3" using \<theta>1(1) by (simp add: sols_def admissible_def)
      then have "?\<theta>3 \<in> sols ?K ?F (Suc (Suc f1)) (map_of s) f \<theta>"
        unfolding r3(2) n(3) using \<theta>1(1) by (intro bexI [of _ \<theta>1]) simp_all
      moreover have "eval ?\<theta>3 tr = eval \<theta>1 tr" using tr1 by (auto intro!: eval_agree(1))
      moreover have "fmupd l g (fmdrop l m) = m" using m by (intro fmap_ext) auto
      ultimately show "g \<in> {\<theta>3 f1 | \<theta>3. \<theta>3 \<in> sols ?K ?F (Suc (Suc f1)) (map_of s) f \<theta> \<and> eval \<theta>3 tr = eval \<theta>3 ?r}"
        using \<theta>1(2) by (intro CollectI exI [of _ ?\<theta>3]) simp
    next
      fix g
      assume "g \<in> {\<theta>3 f1 | \<theta>3. \<theta>3 \<in> sols ?K ?F (Suc (Suc f1)) (map_of s) f \<theta> \<and> eval \<theta>3 tr = eval \<theta>3 ?r}"
      then obtain \<theta>3 where \<theta>3: "g = \<theta>3 f1" "\<theta>3 \<in> sols ?K ?F (Suc (Suc f1)) (map_of s) f \<theta>" "eval \<theta>3 tr = eval \<theta>3 ?r" by blast
      from \<theta>3(2) obtain \<theta>1 where \<theta>1: "\<theta>1 \<in> sols K1 F1 f1 (map_of s) f \<theta>" "\<forall>v < f1. \<theta>3 v = \<theta>1 v" unfolding r3(2) by blast
      have "eval \<theta>3 tr = eval \<theta>1 tr" using tr1 \<theta>1(2) by (auto intro!: eval_agree(1))
      then have "eval \<theta>3 ?r \<in> types (env_val K F f env \<theta>) e" unfolding pr(4) [OF adm] using \<theta>1(1) \<theta>3(3) by auto
      then show "g \<in> ?E (env_val K F f env \<theta>)" using \<theta>3(1) by auto
    qed
    show "ends K F f env ?E (\<lambda>n. (case (s, tr) of (s1, tr) \<Rightarrow> hm_try fresh (\<lambda>field_ty. hm_try fresh (\<lambda>rest_row.
       hm_try (hm_lift (subst_apply n s1 tr)) (\<lambda>tr'.
       hm_try (hm_unify_error_into (unify_with_fresh n tr' (Record (Extend l (Var field_ty) (RowVar rest_row))))) (\<lambda>s2.
       hm_try (hm_lift (subst_compose n s2 s1)) (\<lambda>composed.
       hm_try (hm_lift (subst_apply n s2 (Var field_ty))) (\<lambda>result. hm_return (composed, result)))))))) f1)"
      unfolding prod.case
    proof (rule ends_fresh, rule ends_fresh, rule ends_lift [of "\<lambda>n. subst_apply n s tr", OF ap],
        rule ends_unify [OF ctx e s r3(1) _ n(4) _ _ _ E])
      show "wf_type ?K ?F tr" by (rule wf_later [OF n(2) pr(2) tr1])
      show "free_vars tr \<union> free_vars ?r \<subseteq> (env_free_vars env \<union> {f..<Suc (Suc f1)}) - dom (map_of s)"
        using pr(3) rd(1) refines_vars [OF pr(1) V] by fastforce
      fix t c f4
      assume c: "\<And>d. subst_compose (Suc d) t s = Some c"
      show "settles (\<lambda>n. hm_try (hm_lift (subst_compose n t s)) (\<lambda>composed.
         hm_try (hm_lift (subst_apply n t (Var f1))) (\<lambda>result. hm_return (composed, result))) f4)
         (Done (Inr (c, sub (map_of t) (Var f1)), f4))"
        by (rule settles_lift_try [of "\<lambda>n. subst_compose n t s", OF c],
            rule settles_lift_try [of "\<lambda>n. subst_apply n t (Var f1)" "sub (map_of t) (Var f1)"]) simp_all
    qed simp_all
  qed
qed

section \<open>Record literals\<close>

lemma field_types_subset:
  assumes "field_types \<Gamma> fs = {}" "set fs \<subseteq> set gs"
  shows "field_types \<Gamma> gs = {}"
proof (rule ccontr)
  assume "field_types \<Gamma> gs \<noteq> {}"
  then obtain m where m: "fmdom' m = keys gs" "\<And>p. p \<in> set gs \<Longrightarrow> \<exists>g. fmlookup m (fst p) = Some g \<and> g \<in> types \<Gamma> (snd p)"
    by (auto simp: field_types_def)
  let ?m = "fmrestrict_set (keys fs) m"
  have "fmdom' ?m = keys fs" using m(1) assms(2) by (auto simp: fmdom'_restrict_set_precise)
  moreover have "\<exists>g. fmlookup ?m (fst p) = Some g \<and> g \<in> types \<Gamma> (snd p)" if "p \<in> set fs" for p
    using m(2) [of p] assms(2) that by auto
  ultimately have "?m \<in> field_types \<Gamma> fs" by (simp add: field_types_def)
  with assms(1) show False by simp
qed

lemma field_types_snoc:
  assumes "l \<notin> keys fs"
  shows "m \<in> field_types \<Gamma> (fs @ [(l, e)]) \<longleftrightarrow> (\<exists>m0 \<in> field_types \<Gamma> fs. \<exists>g \<in> types \<Gamma> e. m = fmupd l g m0)"
proof
  assume "m \<in> field_types \<Gamma> (fs @ [(l, e)])"
  then have m: "fmdom' m = insert l (keys fs)" "\<And>p. p \<in> set fs \<Longrightarrow> \<exists>g. fmlookup m (fst p) = Some g \<and> g \<in> types \<Gamma> (snd p)"
    "\<exists>g. fmlookup m l = Some g \<and> g \<in> types \<Gamma> e"
    by (auto simp: field_types_def)
  from m(3) obtain g where g: "fmlookup m l = Some g" "g \<in> types \<Gamma> e" by blast
  have "fst p \<noteq> l" if "p \<in> set fs" for p using assms that by auto
  then have "fmdrop l m \<in> field_types \<Gamma> fs" using m(1,2) assms by (auto simp: field_types_def)
  moreover have "m = fmupd l g (fmdrop l m)" using g(1) by (intro fmap_ext) auto
  ultimately show "\<exists>m0 \<in> field_types \<Gamma> fs. \<exists>g \<in> types \<Gamma> e. m = fmupd l g m0" using g(2) by blast
next
  assume "\<exists>m0 \<in> field_types \<Gamma> fs. \<exists>g \<in> types \<Gamma> e. m = fmupd l g m0"
  then obtain m0 g where m: "m0 \<in> field_types \<Gamma> fs" "g \<in> types \<Gamma> e" "m = fmupd l g m0" by blast
  have "fst p \<noteq> l" if "p \<in> set fs" for p using assms that by auto
  with m show "m \<in> field_types \<Gamma> (fs @ [(l, e)])" by (auto simp: field_types_def)
qed

lemma eval_values_map_insert: "eval_values \<theta> (map_insert l t m) = fmupd l (eval \<theta> t) (eval_values \<theta> m)"
  by (rule fmap_ext) auto

text \<open>The loop over the fields, with those done so far.\<close>

definition fields_at :: "kinding \<Rightarrow> fronts \<Rightarrow> nat \<Rightarrow> type_env \<Rightarrow> (string \<times> expr) list \<Rightarrow> substitution \<Rightarrow> row_fields_map \<Rightarrow>
    nat \<Rightarrow> kinding \<Rightarrow> fronts \<Rightarrow> type_env \<Rightarrow> bool" where
  "fields_at K F f env done s typed f1 K1 F1 env1 \<longleftrightarrow>
     sorted_keys s \<and> stage K F f env (map_of s) f1 K1 F1 env1 \<and> wf_values K1 F1 typed \<and> sorted_keys typed \<and>
     values_free_vars typed \<subseteq> (env_free_vars env \<union> {f..<f1}) - dom (map_of s) \<and>
     (\<forall>\<theta>. admissible K F f \<theta> \<longrightarrow>
        field_types (env_val K F f env \<theta>) done = {eval_values \<theta>1 typed | \<theta>1. \<theta>1 \<in> sols K1 F1 f1 (map_of s) f \<theta>})"

lemma fields_atD:
  assumes "fields_at K F f env done s typed f1 K1 F1 env1"
  shows "sorted_keys s" "stage K F f env (map_of s) f1 K1 F1 env1" "wf_values K1 F1 typed" "sorted_keys typed"
    "values_free_vars typed \<subseteq> (env_free_vars env \<union> {f..<f1}) - dom (map_of s)"
    "\<And>\<theta>. admissible K F f \<theta> \<Longrightarrow>
       field_types (env_val K F f env \<theta>) done = {eval_values \<theta>1 typed | \<theta>1. \<theta>1 \<in> sols K1 F1 f1 (map_of s) f \<theta>}"
  using assms unfolding fields_at_def by blast+

lemma fields_at_step:
  assumes ctx: "context_ok K F f" and e: "env_ok K F f env" and at: "fields_at K F f env done s typed f1 K1 F1 env1"
    and s2: "sorted_keys s2" and p: "principal K1 F1 f1 env1 (\<lambda>\<Gamma>. types \<Gamma> ex) (map_of s2) t f2 K2 F2" and l: "l \<notin> keys done"
  obtains c where "\<And>d. subst_compose (Suc d) s2 s = Some c" "\<And>d. apply_env (Suc d) s2 env1 = Some (sub_env (map_of s2) env1)"
    "\<And>d. apply_values (Suc d) s2 typed = Some (sub_values (map_of s2) typed)"
    "fields_at K F f env (done @ [(l, ex)]) c (map_insert l t (sub_values (map_of s2) typed)) f2 K2 F2 (sub_env (map_of s2) env1)"
proof -
  note a = fields_atD [OF at] and V = env_ok_vars(1) [OF e] and pr = principalD [OF p]
  note st = stageD [OF a(2)] and rd = refinesD [OF pr(1)]
  obtain c where c: "\<And>d. subst_compose (Suc d) s2 s = Some c" "sorted_keys c" "map_of c = comp_sub (map_of s2) (map_of s)"
    using compose_settles [OF a(1) s2 V st(1) pr(1) st(3)] by blast
  have stage: "stage K F f env (map_of c) f2 K2 F2 (sub_env (map_of s2) env1)"
    unfolding c(3) by (rule stage_infer [OF ctx e a(2) pr(1)])
  have v1: "values_free_vars typed \<subseteq> {..<f1}" by (rule vars_below [OF V refinesD(1) [OF st(1)] a(5)])
  have k: "kinded_values K2 typed" using sim_agree_kinded [OF wf_kinded(2) [OF a(3)] v1] rd(8) by simp
  let ?typed = "sub_values (map_of s2) typed"
  have sub: "set (map_insert l t ?typed) \<subseteq> set ((l, t) # ?typed)" using set_map_insert [of l t ?typed] by simp
  have wf: "wf_values K2 F2 (map_insert l t ?typed)"
    by (rule wf_values_subset [OF _ sub]) (use wf_sub(2) [OF rd(7,4) a(3) v1] pr(2) in simp)
  have "values_free_vars (map_insert l t ?typed) \<subseteq> free_vars t \<union> values_free_vars ?typed"
    using values_free_vars_mono [OF sub] by simp
  moreover have "values_free_vars ?typed \<subseteq> (env_free_vars env \<union> {f..<f2}) - dom (map_of c)"
    using free_vars_sub_subset(3) [OF rd(4) k] vars_later(2) [OF st(1) pr(1) V st(3) a(5)] unfolding c(3) by blast
  moreover have "free_vars t \<subseteq> (env_free_vars env \<union> {f..<f2}) - dom (map_of c)"
    using vars_later(1) [OF st(1) pr(1) V st(3) pr(3)] unfolding c(3) .
  ultimately have vars: "values_free_vars (map_insert l t ?typed) \<subseteq> (env_free_vars env \<union> {f..<f2}) - dom (map_of c)" by blast
  have ev: "eval_values \<theta>2 ?typed = eval_values \<theta>1 typed" if "\<theta>2 \<in> sols K2 F2 f2 (map_of s2) f1 \<theta>1" for \<theta>1 \<theta>2
  proof -
    have "eval_values \<theta>2 ?typed = eval_values \<theta>2 typed"
      by (rule eval_sub_models(3) [OF rd(4) _ k]) (use that in \<open>simp add: sols_def\<close>)
    also have "\<dots> = eval_values \<theta>1 typed" by (rule eval_agree(3)) (use that v1 in \<open>auto simp: sols_def\<close>)
    finally show ?thesis .
  qed
  have E: "field_types (env_val K F f env \<theta>) (done @ [(l, ex)]) =
      {eval_values \<theta>2 (map_insert l t ?typed) | \<theta>2. \<theta>2 \<in> sols K2 F2 f2 (map_of c) f \<theta>}" if adm: "admissible K F f \<theta>" for \<theta>
  proof -
    have tex: "g \<in> types (env_val K F f env \<theta>) ex \<longleftrightarrow> (\<exists>\<theta>2 \<in> sols K2 F2 f2 (map_of s2) f1 \<theta>1. g = eval \<theta>2 t)"
      if "\<theta>1 \<in> sols K1 F1 f1 (map_of s) f \<theta>" for \<theta>1 g
      using pr(4) [of \<theta>1] st(4) [OF that] that by (auto simp: sols_def)
    have "m \<in> field_types (env_val K F f env \<theta>) (done @ [(l, ex)]) \<longleftrightarrow>
        (\<exists>\<theta>1 \<in> sols K1 F1 f1 (map_of s) f \<theta>. \<exists>g \<in> types (env_val K F f env \<theta>) ex. m = fmupd l g (eval_values \<theta>1 typed))" for m
      unfolding field_types_snoc [OF l] a(6) [OF adm] by blast
    then have "m \<in> field_types (env_val K F f env \<theta>) (done @ [(l, ex)]) \<longleftrightarrow>
        (\<exists>\<theta>1 \<in> sols K1 F1 f1 (map_of s) f \<theta>. \<exists>\<theta>2 \<in> sols K2 F2 f2 (map_of s2) f1 \<theta>1.
          m = fmupd l (eval \<theta>2 t) (eval_values \<theta>1 typed))" for m
      using tex by metis
    then show ?thesis
      unfolding c(3) sols_compose [OF st(1) pr(1) V st(3)] eval_values_map_insert
      by (intro set_eqI) (simp only: mem_Collect_eq, metis ev)
  qed
  have "fields_at K F f env (done @ [(l, ex)]) c (map_insert l t ?typed) f2 K2 F2 (sub_env (map_of s2) env1)"
    unfolding fields_at_def using c(2) stage wf a(4) vars E by simp
  then show thesis
    by (rule that [OF c(1) apply_env_sub [OF pr(1) st(2)] apply_sub(3) [OF rd(4,5) k]])
qed

definition fields_end :: "kinding \<Rightarrow> fronts \<Rightarrow> nat \<Rightarrow> type_env \<Rightarrow> (string \<times> expr) list \<Rightarrow>
    ((infer_error + substitution \<times> row_fields_map) \<times> nat) outcome \<Rightarrow> bool" where
  "fields_end K F f env fs r \<longleftrightarrow>
     r = Panic \<or>
     (\<exists>err f'. r = Done (Inl err, f') \<and> f \<le> f' \<and> (\<forall>\<theta>. admissible K F f \<theta> \<longrightarrow> field_types (env_val K F f env \<theta>) fs = {})) \<or>
     (\<exists>s typed f' K' F' env'. r = Done (Inr (s, typed), f') \<and> fields_at K F f env fs s typed f' K' F' env')"

lemma infer_fields_ok:
  assumes ctx: "context_ok K F f" and e: "env_ok K F f env"
    and "fields_at K F f env done s typed f1 K1 F1 env1" "\<And>l e. (l, e) \<in> set fs \<Longrightarrow> inferable e"
    and "distinct (map fst fs)" "keys done \<inter> keys fs = {}"
  shows "\<exists>r. settles (\<lambda>n. infer_fields n fs env1 s typed f1) r \<and> fields_end K F f env (done @ fs) r"
  using assms(3-)
proof (induction fs arbitrary: "done" s typed f1 K1 F1 env1)
  case Nil
  then show ?case by (intro exI [of _ "Done (Inr (s, typed), f1)"]) (auto simp: fields_end_def)
next
  case (Cons p fs)
  obtain l ex where p: "p = (l, ex)" by (cases p)
  note a = fields_atD [OF Cons.prems(1)]
  note st = stageD [OF a(2)]
  have l: "l \<notin> keys done" and ex: "inferable ex" using Cons.prems(2,4) p by auto
  let ?g = "\<lambda>n. infer n env1 ex"
  let ?k = "\<lambda>n (s', t). hm_try (hm_lift (subst_compose n s' s)) (\<lambda>subst'. hm_try (hm_lift (apply_env n s' env1)) (\<lambda>env'.
     hm_try (hm_lift (apply_values n s' typed)) (\<lambda>typed'. infer_fields n fs env' subst' (map_insert l t typed'))))"
  have "\<exists>r. settles (\<lambda>n. hm_try (?g n) (?k n) f1) r \<and> fields_end K F f env (done @ p # fs) r"
    using inferableD [OF ex refinesD(2) [OF st(1)] st(2)]
  proof (cases rule: infer_okE)
    case panic
    show ?thesis
      using settles_try_panic [where m = ?g and f = f1 and k = ?k, OF panic] by (intro exI [of _ Panic]) (simp add: fields_end_def)
  next
    case (error err f')
    have "field_types (env_val K F f env \<theta>) (done @ p # fs) = {}" if adm: "admissible K F f \<theta>" for \<theta>
    proof (cases "sols K1 F1 f1 (map_of s) f \<theta> = {}")
      case True
      then have "field_types (env_val K F f env \<theta>) done = {}" using a(6) [OF adm] by simp
      then show ?thesis by (rule field_types_subset) auto
    next
      case False
      then obtain \<theta>1 where \<theta>1: "\<theta>1 \<in> sols K1 F1 f1 (map_of s) f \<theta>" by blast
      then have "types (env_val K F f env \<theta>) ex = {}" using error(3) [of \<theta>1] st(4) [OF \<theta>1] by (simp add: sols_def)
      then show ?thesis by (auto simp: field_types_def p)
    qed
    moreover have "f \<le> f'" using refinesD(1) [OF st(1)] error(2) by simp
    ultimately show ?thesis
      using settles_try_error [where m = ?g and f = f1 and k = ?k, OF error(1)]
      by (intro exI [of _ "Done (Inl err, f')"]) (simp add: fields_end_def)
  next
    case (success s2 t f2 K2 F2)
    obtain c where c: "\<And>d. subst_compose (Suc d) s2 s = Some c" "\<And>d. apply_env (Suc d) s2 env1 = Some (sub_env (map_of s2) env1)"
      "\<And>d. apply_values (Suc d) s2 typed = Some (sub_values (map_of s2) typed)"
      "fields_at K F f env (done @ [(l, ex)]) c (map_insert l t (sub_values (map_of s2) typed)) f2 K2 F2 (sub_env (map_of s2) env1)"
      using fields_at_step [OF ctx e Cons.prems(1) success(2,3) l] by blast
    have "\<exists>r. settles (\<lambda>n. infer_fields n fs (sub_env (map_of s2) env1) c (map_insert l t (sub_values (map_of s2) typed)) f2) r \<and>
        fields_end K F f env ((done @ [(l, ex)]) @ fs) r"
      by (rule Cons.IH [OF c(4)]) (use Cons.prems(2-4) p in auto)
    then obtain r where r: "settles (\<lambda>n. infer_fields n fs (sub_env (map_of s2) env1) c (map_insert l t (sub_values (map_of s2) typed)) f2) r"
      "fields_end K F f env (done @ p # fs) r" by (auto simp: p)
    have "settles (\<lambda>n. ?k n (s2, t) f2) r"
      unfolding prod.case
      by (rule settles_lift_try [of "\<lambda>n. subst_compose n s2 s", OF c(1)],
          rule settles_lift_try [of "\<lambda>n. apply_env n s2 env1", OF c(2)],
          rule settles_lift_try [of "\<lambda>n. apply_values n s2 typed", OF c(3)]) (rule r(1))
    with settles_try [where m = ?g and f = f1 and k = ?k, OF success(1)] r(2) show ?thesis by blast
  qed
  then show ?case unfolding p infer_fields.simps .
qed

lemma infer_record:
  assumes IH: "\<And>l e. (l, e) \<in> set fs \<Longrightarrow> inferable e" and fs: "sorted_keys fs"
  shows "inferable (RecordLit fs)"
  unfolding inferable_def
proof (intro allI impI)
  fix K F f env
  assume ctx: "context_ok K F f" and e: "env_ok K F f env"
  let ?E = "\<lambda>\<Gamma>. types \<Gamma> (RecordLit fs)"
  have E: "?E \<Gamma> = GRecord ` field_types \<Gamma> fs" for \<Gamma> by (auto simp: field_types_def)
  have at: "fields_at K F f env [] [] [] f K F env"
  proof -
    have "field_types (env_val K F f env \<theta>) [] = {eval_values \<theta>1 [] | \<theta>1. \<theta>1 \<in> sols K F f (map_of []) f \<theta>}"
      if "admissible K F f \<theta>" for \<theta>
    proof -
      have "m = fmempty" if "fmdom' m = {}" for m :: "(string, gtype) fmap"
        by (rule fmap_ext) (use that in \<open>simp add: fmdom'_notD\<close>)
      then have "field_types (env_val K F f env \<theta>) [] = {fmempty}" by (auto simp: field_types_def)
      moreover have "\<theta> \<in> sols K F f Map.empty f \<theta>" using that by (simp add: sols_empty)
      ultimately show ?thesis by auto
    qed
    then show ?thesis using stage_refl [OF ctx e] by (simp add: fields_at_def)
  qed
  have "\<exists>r. settles (\<lambda>n. infer_fields n fs env [] [] f) r \<and> fields_end K F f env ([] @ fs) r"
    by (rule infer_fields_ok [OF ctx e at IH sorted_keys_distinct [OF fs]]) simp_all
  then obtain r where r: "settles (\<lambda>n. infer_fields n fs env [] [] f) r" "fields_end K F f env fs r" by auto
  let ?g = "\<lambda>n. infer_fields n fs env [] []"
  let ?k = "\<lambda>n (subst, typed_fields). hm_return (subst, Record (from_map typed_fields None)) :: (infer_error, substitution \<times> mono_type) hm"
  have i: "infer n env (RecordLit fs) = hm_try (?g n) (?k n)" for n by simp
  from r(2) consider (panic) "r = Panic"
    | (error) err f' where "r = Done (Inl err, f')" "f \<le> f'" "\<forall>\<theta>. admissible K F f \<theta> \<longrightarrow> field_types (env_val K F f env \<theta>) fs = {}"
    | (success) s typed f' K' F' env' where "r = Done (Inr (s, typed), f')" "fields_at K F f env fs s typed f' K' F' env'"
    unfolding fields_end_def by blast
  then show "infer_ok (\<lambda>n. infer n env (RecordLit fs)) K F f env ?E"
  proof cases
    case panic
    then show ?thesis
      unfolding infer_ok_def i using settles_try_panic [where m = ?g and f = f and k = ?k] r(1) by (intro exI [of _ Panic]) simp
  next
    case (error err f')
    then show ?thesis
      unfolding infer_ok_def i using settles_try_error [where m = ?g and f = f and k = ?k] r(1)
      by (intro exI [of _ "Done (Inl err, f')"]) (simp add: E del: types.simps)
  next
    case (success s typed f' K' F' env')
    note a = fields_atD [OF success(2)]
    let ?t = "Record (from_map typed None)"
    have "wf_type K' F' ?t"
      using a(3) sorted_keys_distinct [OF a(4)] by (simp add: wf_row_def coherent_def)
    moreover have "free_vars ?t \<subseteq> (env_free_vars env \<union> {f..<f'}) - dom (map_of s)"
      using a(5) by (simp add: row_free_vars_parts)
    moreover have "?E (env_val K F f env \<theta>) = {eval \<theta>' ?t | \<theta>'. \<theta>' \<in> sols K' F' f' (map_of s) f \<theta>}" if "admissible K F f \<theta>" for \<theta>
      unfolding E a(6) [OF that] by (auto simp: eval_row_parts)
    ultimately have "principal K F f env ?E (map_of s) ?t f' K' F'"
      unfolding principal_def using stageD(1) [OF a(2)] by blast
    moreover have "settles (\<lambda>n. hm_try (?g n) (?k n) f) (Done (Inr (s, ?t), f'))"
      by (rule settles_try [where m = ?g and f = f and k = ?k, OF r(1) [unfolded success(1)]]) simp
    ultimately show ?thesis
      unfolding infer_ok_def i using a(1) by (intro exI [of _ "Done (Inr (s, ?t), f')"]) auto
  qed
qed

section \<open>Every expression\<close>

theorem infer_correct: "expr_ok e \<Longrightarrow> inferable e"
proof (induction e rule: expr_induct)
  case (RecordLit fs)
  then show ?case by (intro infer_record) fastforce+
qed (auto intro: infer_var infer_lit infer_lam infer_app infer_let infer_field)

end
