(* ===== verification/HM_Random.thy ===== *)
theory HM_Random
  imports HM_Unify_Correct HM_Infer_Correct "HOL-Library.Word"
begin

unbundle bit_operations_syntax

text \<open>
  The generators of \<^verbatim>\<open>property.rs\<close>, the property harness of the crate.  The expressions and the types
  they make lie within the reach of the correctness theorems of inference and unification for every seed.
\<close>

type_synonym u64 = "64 word"

definition lcg :: "u64 \<Rightarrow> u64" where
  "lcg seed = seed * 6364136223846793005 + 1442695040888963407"

definition pick_name :: "u64 \<Rightarrow> string" where
  "pick_name seed = [''x'', ''y'', ''z'', ''u'', ''w''] ! (unat seed mod 5)"

fun random_expr :: "nat \<Rightarrow> u64 \<Rightarrow> expr" where
  "random_expr 0 seed = (if seed AND 1 = 0 then Lit IntLit else Lit StrLit)"
| "random_expr (Suc depth) seed =
     (let s1 = lcg seed; s2 = lcg s1 in
      if seed mod 4 = 0 then Lam (pick_name seed) (random_expr depth s1)
      else if seed mod 4 = 1 then App (random_expr depth s1) (random_expr depth s2)
      else if seed mod 4 = 2 then Let (pick_name seed) (random_expr depth s1) (random_expr depth s2)
      else EVar (pick_name seed))"

definition random_var :: "u64 \<Rightarrow> type_var" where
  "random_var seed = unat (ucast seed :: 32 word) mod 8"

fun random_mono :: "nat \<Rightarrow> u64 \<Rightarrow> mono_type" where
  "random_mono 0 seed =
     (if seed mod 3 = 0 then Var (random_var seed)
      else if seed mod 3 = 1 then Con ''Int''
      else Con ''Str'')"
| "random_mono (Suc depth) seed =
     (let s1 = lcg seed; s2 = lcg s1 in
      if seed mod 4 = 0 then Var (random_var seed)
      else if seed mod 4 = 1 then Con (if seed AND 1 = 0 then ''Int'' else ''Str'')
      else if seed mod 4 = 2 then Arrow (random_mono depth s1) (random_mono depth s2)
      else Record (from_map (map_insert (pick_name seed) (random_mono depth s1) []) None))"

lemma random_expr_ok: "expr_ok (random_expr depth seed)"
  by (induction depth seed rule: random_expr.induct) (simp_all add: Let_def)

lemma random_mono_coherent: "wf_type (\<lambda>_. KType) (\<lambda>_. []) (random_mono depth seed)"
  by (induction depth seed rule: random_mono.induct) (simp_all add: Let_def wf_row_def coherent_def)

lemma random_mono_vars: "free_vars (random_mono depth seed) \<subseteq> {..<8}"
  by (induction depth seed rule: random_mono.induct) (auto simp: Let_def random_var_def)

end
