(* ===== verification/HM_Display.thy ===== *)
theory HM_Display
  imports HM_Infer
begin

text \<open>
  The texts of \<^verbatim>\<open>paideia-as-shell-hm\<close>: types, schemes and errors (the \<^verbatim>\<open>Display\<close> instances of \<^verbatim>\<open>ty.rs\<close>,
  \<^verbatim>\<open>unify.rs\<close> and \<^verbatim>\<open>infer.rs\<close>), diagnostics (\<^verbatim>\<open>diagnostic.rs\<close>) and the hover cache (\<^verbatim>\<open>hover.rs\<close>).
  The text of a type shows each field of a row once, in the order of the names, so two rows with the
  same map of fields have the same text; a hover finds the first of the tightest spans.
\<close>

section \<open>Types\<close>

definition join :: "string \<Rightarrow> string list \<Rightarrow> string" where
  "join sep parts =
     (case parts of [] \<Rightarrow> [] | p # ps \<Rightarrow> fold (\<lambda>q acc. acc @ sep @ q) ps p)"

definition tail_text :: "bool \<Rightarrow> type_var option \<Rightarrow> string" where
  "tail_text no_fields t =
     (case t of
        None \<Rightarrow> ''''
      | Some v \<Rightarrow> (if no_fields then ''| '' else '' | '') @ show_type_var v)"

lemma to_map_smaller: "(k, t) \<in> set (fst (to_map r)) \<Longrightarrow> size t < size r"
proof -
  have "(k, t) \<in> set (row_fields r) \<Longrightarrow> size t < size r"
    by (induction r rule: row_fields.induct) auto
  moreover assume "(k, t) \<in> set (fst (to_map r))"
  ultimately show ?thesis
    using set_or_insert_all [of "row_fields r" "[]"] by (auto simp: to_map_eq)
qed

lemma present_smaller: "(k, t) \<in> set (present e) \<Longrightarrow> size t < size e"
proof (cases e)
  case (Effect_Row p rt)
  assume "(k, t) \<in> set (present e)"
  then have "size t < Suc (size_list (size_prod (\<lambda>_. 0) size) p)"
    using size_list_estimation' [of "(k, t)" p "size t" "size_prod (\<lambda>_. 0) size"] Effect_Row by simp
  then show ?thesis using Effect_Row by simp
qed

function show_type :: "mono_type \<Rightarrow> string" where
  "show_type (Var n) = show_type_var n"
| "show_type (Con name) = name"
| "show_type (Arrow a b) = ''('' @ show_type a @ '' -> '' @ show_type b @ '')''"
| "show_type (Record row) =
     ''{'' @ join '', '' (map (\<lambda>(name, ty). name @ '': '' @ show_type ty) (fst (to_map row))) @
     tail_text (fst (to_map row) = []) (snd (to_map row)) @ ''}''"
| "show_type (EffectRow row) =
     ''!{'' @ join '', '' (map (\<lambda>(name, ty). if ty = Con ''Unit'' then name else name @ '': '' @ show_type ty) (present row)) @
     tail_text (present row = []) (tail row) @ ''}''"
| "show_type (Typed tv) =
     ''{'' @ join '', '' (map (\<lambda>(name, ty). name @ '': '' @ show_type ty) (fst (to_map (value_row tv)))) @
     tail_text (fst (to_map (value_row tv)) = []) (snd (to_map (value_row tv))) @
     '' ! '' @
     join '', '' (map (\<lambda>(name, ty). if ty = Con ''Unit'' then name else name @ '': '' @ show_type ty) (present (effect_row tv))) @
     tail_text (present (effect_row tv) = []) (tail (effect_row tv)) @ ''}''"
  by pat_completeness auto
termination
proof (relation "measure size")
  fix tv z k t
  assume "z \<in> set (fst (to_map (value_row tv)))" "(k, t) = z"
  then show "(t, Typed tv) \<in> measure size"
    using to_map_smaller [of k t "value_row tv"] by (cases tv) auto
next
  fix tv z k t
  assume "z \<in> set (present (effect_row tv))" "(k, t) = z"
  then show "(t, Typed tv) \<in> measure size"
    using present_smaller [of k t "effect_row tv"] by (cases tv) auto
qed (auto dest: to_map_smaller present_smaller)

definition show_scheme :: "type_scheme \<Rightarrow> string" where
  "show_scheme s =
     (if quantified s = [] then show_type (body s)
      else ''forall'' @ concat (map (\<lambda>q. '' '' @ show_type_var q) (quantified s)) @ ''. '' @ show_type (body s))"

section \<open>Errors\<close>

fun show_unify_error :: "hm_unify_error \<Rightarrow> string" where
  "show_unify_error (Mismatch a b) =
     ''type mismatch: cannot unify `'' @ show_type a @ ''` with `'' @ show_type b @ ''`''"
| "show_unify_error (OccursCheck v ty) =
     ''occurs check failed: variable `'' @ show_type_var v @ ''` occurs in `'' @ show_type ty @ ''`''"
| "show_unify_error (MissingField field side) =
     ''record field `'' @ field @ ''` missing from '' @ side @ '' side''"
| "show_unify_error (RowMismatch reason) = ''row unification failed: '' @ reason"
| "show_unify_error (EffectRowMismatch missing extra) =
     ''effect row mismatch: missing ['' @ join '', '' missing @ ''], extra ['' @ join '', '' extra @ '']''"
| "show_unify_error (TypedValueMismatch value_err effect_err) =
     ''typed value mismatch:'' @
     (case value_err of Some v \<Rightarrow> '' value: '' @ show_unify_error v @ '';'' | None \<Rightarrow> '''') @
     (case effect_err of Some e \<Rightarrow> '' effect: '' @ show_unify_error e @ '';'' | None \<Rightarrow> '''')"

fun show_infer_error :: "infer_error \<Rightarrow> string" where
  "show_infer_error (UnboundVar name) = ''unbound variable `'' @ name @ ''`''"
| "show_infer_error (UnifyError e) = show_unify_error e"

section \<open>Diagnostics\<close>

definition diagnostic_new :: "infer_error \<Rightarrow> type_diagnostic" where
  "diagnostic_new err = \<lparr>diag_error = err, diag_span = None, diag_context = ''''\<rparr>"

definition with_span :: "type_span \<Rightarrow> type_diagnostic \<Rightarrow> type_diagnostic" where
  "with_span span d = d\<lparr>diag_span := Some span\<rparr>"

definition with_context :: "string \<Rightarrow> type_diagnostic \<Rightarrow> type_diagnostic" where
  "with_context ctx d = d\<lparr>diag_context := ctx\<rparr>"

definition render_diagnostic :: "type_diagnostic \<Rightarrow> string" where
  "render_diagnostic d =
     (let err = show_infer_error (diag_error d) in
      case (diag_span d, diag_context d \<noteq> '''') of
        (Some sp, True) \<Rightarrow>
          ''at '' @ decimal (span_start sp) @ ''..'' @ decimal (span_end sp) @ '': '' @ diag_context d @ '': '' @ err
      | (Some sp, False) \<Rightarrow> ''at '' @ decimal (span_start sp) @ ''..'' @ decimal (span_end sp) @ '': '' @ err
      | (None, True) \<Rightarrow> diag_context d @ '': '' @ err
      | (None, False) \<Rightarrow> err)"

section \<open>Hover\<close>

record hover_entry =
  hover_span :: type_span
  hover_mono :: mono_type
  hover_label :: string

type_synonym type_cache = "hover_entry list"

definition cache_push :: "hover_entry \<Rightarrow> type_cache \<Rightarrow> type_cache" where
  "cache_push entry cache = cache @ [entry]"

text \<open>\<^verbatim>\<open>Iterator::min_by_key\<close> returns the first of several minimal elements.\<close>

definition smaller :: "('a \<Rightarrow> 'k::linorder) \<Rightarrow> 'a \<Rightarrow> 'a \<Rightarrow> 'a" where
  "smaller key y best = (if key y < key best then y else best)"

fun min_by_key :: "('a \<Rightarrow> 'k::linorder) \<Rightarrow> 'a list \<Rightarrow> 'a option" where
  "min_by_key key [] = None"
| "min_by_key key (x # xs) = Some (fold (smaller key) xs x)"

definition covers :: "nat \<Rightarrow> hover_entry \<Rightarrow> bool" where
  "covers pos e \<longleftrightarrow> span_start (hover_span e) \<le> pos \<and> pos < span_end (hover_span e)"

definition span_len :: "hover_entry \<Rightarrow> nat" where
  "span_len e = span_end (hover_span e) - span_start (hover_span e)"

definition hover_at :: "type_cache \<Rightarrow> nat \<Rightarrow> hover_entry option" where
  "hover_at cache pos = min_by_key span_len (filter (covers pos) cache)"

definition render_hover :: "hover_entry \<Rightarrow> string" where
  "render_hover e = hover_label e @ '': '' @ show_type (hover_mono e)"

section \<open>Properties of the texts and of the lookup\<close>

text \<open>The text of a record depends only on its fields and its tail, not on how the row was built.\<close>

lemma show_from_map: "show_type (Record (from_map (fst (to_map r)) (snd (to_map r)))) = show_type (Record r)"
  by (simp add: to_map_from_map)

lemma fold_smaller:
  "\<exists>ys zs. x # xs = ys @ fold (smaller key) xs x # zs \<and>
     (\<forall>y \<in> set ys. key (fold (smaller key) xs x) < key y) \<and>
     (\<forall>z \<in> set zs. key (fold (smaller key) xs x) \<le> key z)"
proof (induction xs rule: rev_induct)
  case (snoc a xs)
  then obtain ys zs where IH: "x # xs = ys @ fold (smaller key) xs x # zs"
    "\<forall>y \<in> set ys. key (fold (smaller key) xs x) < key y" "\<forall>z \<in> set zs. key (fold (smaller key) xs x) \<le> key z" by blast
  show ?case
  proof (cases "key a < key (fold (smaller key) xs x)")
    case True
    then have "\<forall>y \<in> set (x # xs). key a < key y" unfolding IH(1) using IH(2,3) by auto
    with True have "x # xs @ [a] = (x # xs) @ fold (smaller key) (xs @ [a]) x # [] \<and>
      (\<forall>y \<in> set (x # xs). key (fold (smaller key) (xs @ [a]) x) < key y)" by (simp add: smaller_def)
    then show ?thesis by (metis empty_iff empty_set)
  next
    case False
    with IH have "x # xs @ [a] = ys @ fold (smaller key) (xs @ [a]) x # zs @ [a] \<and>
      (\<forall>y \<in> set ys. key (fold (smaller key) (xs @ [a]) x) < key y) \<and>
      (\<forall>z \<in> set (zs @ [a]). key (fold (smaller key) (xs @ [a]) x) \<le> key z)" by (auto simp: smaller_def)
    then show ?thesis by blast
  qed
next
  case Nil
  show ?case by (intro exI [of _ "[]"]) simp
qed

lemma filter_eq_append:
  "filter P xs = ys @ zs \<Longrightarrow> \<exists>us vs. xs = us @ vs \<and> filter P us = ys \<and> filter P vs = zs"
proof (induction ys arbitrary: xs)
  case Nil
  then show ?case by (metis append_Nil filter.simps(1))
next
  case (Cons y ys)
  then obtain us vs where us: "xs = us @ y # vs" "\<forall>u \<in> set us. \<not> P u" "P y" "ys @ zs = filter P vs"
    using filter_eq_ConsD [of P xs y "ys @ zs"] by auto
  obtain us' vs' where vs: "vs = us' @ vs'" "filter P us' = ys" "filter P vs' = zs"
    using Cons.IH [OF us(4) [symmetric]] by blast
  have "xs = (us @ y # us') @ vs'" "filter P (us @ y # us') = y # ys" using us vs by simp_all
  with vs(3) show ?case by blast
qed

lemma min_by_key_first:
  "min_by_key key xs = Some x \<Longrightarrow>
     \<exists>ys zs. xs = ys @ x # zs \<and> (\<forall>y \<in> set ys. key x < key y) \<and> (\<forall>z \<in> set zs. key x \<le> key z)"
  using fold_smaller [of "hd xs" "List.tl xs" key] by (cases xs) auto

text \<open>A hover finds nothing exactly when no span covers the position, and else a covering span that is shorter
  than every covering one entered before it and not longer than any entered after it.\<close>

lemma hover_at_None: "hover_at cache pos = None \<longleftrightarrow> (\<forall>e \<in> set cache. \<not> covers pos e)"
  by (cases "filter (covers pos) cache") (auto simp: hover_at_def filter_empty_conv dest: filter_eq_ConsD)

lemma hover_at_Some:
  assumes "hover_at cache pos = Some e"
  shows "\<exists>before after. cache = before @ e # after \<and> covers pos e \<and>
    (\<forall>x \<in> set before. covers pos x \<longrightarrow> span_len e < span_len x) \<and>
    (\<forall>x \<in> set after. covers pos x \<longrightarrow> span_len e \<le> span_len x)"
proof -
  obtain ys zs where f: "filter (covers pos) cache = ys @ e # zs"
    "\<forall>y \<in> set ys. span_len e < span_len y" "\<forall>z \<in> set zs. span_len e \<le> span_len z"
    using min_by_key_first [OF assms [unfolded hover_at_def]] by blast
  from f(1) obtain us vs where us: "cache = us @ vs" "filter (covers pos) us = ys" "filter (covers pos) vs = e # zs"
    using filter_eq_append by blast
  from us(3) obtain ws as where ws: "vs = ws @ e # as" "\<forall>w \<in> set ws. \<not> covers pos w" "covers pos e" "zs = filter (covers pos) as"
    using filter_eq_ConsD [OF us(3)] by blast
  show ?thesis
  proof (intro exI conjI)
    show "cache = (us @ ws) @ e # as" using us(1) ws(1) by simp
    show "\<forall>x \<in> set (us @ ws). covers pos x \<longrightarrow> span_len e < span_len x" using us(2) f(2) ws(2) by auto
    show "\<forall>x \<in> set as. covers pos x \<longrightarrow> span_len e \<le> span_len x" using ws(4) f(3) by auto
  qed (rule ws(3))
qed

text \<open>
  As the documentation of \<^verbatim>\<open>TypedValueMismatch\<close> says, an error of two typed values names at least one
  side.
\<close>

lemma typed_value_error_names_side:
  "unify_typed_values_with_fresh u d a b n = Done (Inl err, n') \<Longrightarrow>
     \<exists>v e. err = TypedValueMismatch v e \<and> (v \<noteq> None \<or> e \<noteq> None)"
  by (auto simp: unify_typed_values_with_fresh_def hm_try_def hm_lift_def split: outcome.splits sum.splits prod.splits option.splits)

end
