(* ===== verification/HM_Properties.thy ===== *)
theory HM_Properties
  imports HM_Random HM_Display
begin

text \<open>
  The properties of \<^verbatim>\<open>paideia-as-shell-hm\<close>: Algorithm W infers exactly the types of an expression, the
  unifier finds most general solutions on coherent types, and two inputs outside of these on which
  it goes wrong.
\<close>

section \<open>Inference\<close>

definition some_value :: "kinding \<Rightarrow> valuation" where
  "some_value K v = (case K v of KType \<Rightarrow> GCon [] | KRow \<Rightarrow> GRecord fmempty | KEff \<Rightarrow> GEffect fmempty)"

lemma some_value_admissible: "admissible K F f (some_value K)"
  by (simp add: admissible_def admissible_at_def some_value_def split: vkind.split)

lemma principal_empty_env:
  assumes "principal (\<lambda>_. KType) (\<lambda>_. []) 0 [] (\<lambda>\<Gamma>. types \<Gamma> e) \<sigma> t f K F"
  shows "types Map.empty e = {eval \<theta> t | \<theta>. admissible K F f \<theta>}" "wf_type K F t"
proof -
  note p = principalD [OF assms]
  note r = refinesD [OF p(1)]
  have "types Map.empty e = {eval \<theta>' t | \<theta>'. \<theta>' \<in> sols K F f \<sigma> 0 (\<lambda>_. GCon [])}"
    using p(4) [of "\<lambda>_. GCon []"] by (simp add: admissible_def env_val_def env_lookup_def)
  also have "\<dots> = {eval \<theta> t | \<theta>. admissible K F f \<theta>}"
  proof (intro equalityI subsetI)
    fix g
    assume "g \<in> {eval \<theta> t | \<theta>. admissible K F f \<theta>}"
    then obtain \<theta> where \<theta>: "g = eval \<theta> t" "admissible K F f \<theta>" by blast
    have "star \<theta> \<sigma> \<in> sols K F f \<sigma> 0 (\<lambda>_. GCon [])"
      using r(9) [OF \<theta>(2)] star_models [OF r(5)] by (simp add: sols_def)
    moreover have "g = eval (star \<theta> \<sigma>) t"
      unfolding \<theta>(1) by (rule eval_agree(1)) (use p(3) in \<open>auto simp: star_def split: option.split\<close>)
    ultimately show "g \<in> {eval \<theta>' t | \<theta>'. \<theta>' \<in> sols K F f \<sigma> 0 (\<lambda>_. GCon [])}" by blast
  qed (auto simp: sols_def)
  finally show "types Map.empty e = {eval \<theta> t | \<theta>. admissible K F f \<theta>}" .
  show "wf_type K F t" by (rule p(2))
qed

text \<open>
  C1: Algorithm W is sound, complete and principal, and it ends.  On every closed expression the
  run settles, with enough depth for its recursion, on one outcome.  If that is a type, the
  expression has a type, and its types are exactly the ground instances of the inferred one, where
  a row variable stands for fields other than those in front of it; if it is an error, the
  expression has no type.  The only other outcome is the overflow of the counter of variables.
\<close>

theorem infer_exact:
  assumes "expr_ok e"
  shows "\<exists>r. settles (\<lambda>n. infer n [] e 0) r \<and>
    (case r of
       Done (Inr (s, t), f) \<Rightarrow>
         types Map.empty e \<noteq> {} \<and>
         (\<exists>K F. wf_type K F t \<and> types Map.empty e = {eval \<theta> t | \<theta>. admissible K F f \<theta>})
     | Done (Inl err, f) \<Rightarrow> types Map.empty e = {}
     | Panic \<Rightarrow> True
     | Timeout \<Rightarrow> False)"
proof -
  have "infer_ok (\<lambda>n. infer n [] e) (\<lambda>_. KType) (\<lambda>_. []) 0 [] (\<lambda>\<Gamma>. types \<Gamma> e)"
    by (rule inferableD [OF infer_correct [OF assms]]) (simp_all add: context_ok_def env_ok_def)
  then show ?thesis
  proof (cases rule: infer_okE)
    case panic
    then show ?thesis by (intro exI [of _ Panic]) simp
  next
    case (error err f)
    from error(1) error(3) [of "\<lambda>_. GCon []"] show ?thesis
      by (intro exI [of _ "Done (Inl err, f)"]) (simp add: admissible_def env_val_def env_lookup_def)
  next
    case (success s t f K F)
    have "eval (some_value K) t \<in> types Map.empty e"
      using principal_empty_env(1) [OF success(3)] some_value_admissible by blast
    with success(1) principal_empty_env [OF success(3)] show ?thesis
      by (intro exI [of _ "Done (Inr (s, t), f)"]) auto
  qed
qed

definition example_expr :: expr where
  "example_expr = Let ''id'' (Lam ''x'' (EVar ''x''))
     (Lam ''r'' (App (EVar ''id'') (Field (EVar ''r'') ''a'')))"

theorem infer_exact_witness:
  "expr_ok example_expr \<and>
   infer 9 [] example_expr 0 =
     Done (Inr ([(1, Record (Extend ''a'' (Var 5) (RowVar 4))), (2, Var 5), (3, Var 5)],
                Arrow (Record (Extend ''a'' (Var 5) (RowVar 4))) (Var 5)), 6) \<and>
   (\<exists>r. settles (\<lambda>n. infer n [] example_expr 0) r \<and>
     (case r of
        Done (Inr (s, t), f) \<Rightarrow>
          types Map.empty example_expr \<noteq> {} \<and>
          (\<exists>K F. wf_type K F t \<and> types Map.empty example_expr = {eval \<theta> t | \<theta>. admissible K F f \<theta>})
      | Done (Inl err, f) \<Rightarrow> types Map.empty example_expr = {}
      | Panic \<Rightarrow> True
      | Timeout \<Rightarrow> False))"
proof -
  have ok: "expr_ok example_expr" by (simp add: example_expr_def)
  have "infer 9 [] example_expr 0 =
     Done (Inr ([(1, Record (Extend ''a'' (Var 5) (RowVar 4))), (2, Var 5), (3, Var 5)],
                Arrow (Record (Extend ''a'' (Var 5) (RowVar 4))) (Var 5)), 6)"
    by code_simp
  with ok infer_exact [OF ok] show ?thesis by (intro conjI)
qed

section \<open>Unification\<close>

text \<open>
  C2: Let two types be coherent (some kinds and fronts make a context in which both are well-formed: a
  variable has one kind and a row variable stands behind the same fields wherever it occurs), and let the
  counter be beyond every variable of the two types.  Then the unifier ends.  If it reports an error, no
  admissible valuation makes the two types equal.  If it returns a substitution, applying it to the two
  types gives types that mean the same, it is most general, and at most as many variables were made as the
  two types have.  The only other outcome is the overflow of the counter.  With a counter among the
  variables, as the entry point \<^verbatim>\<open>unify\<close> can have it, this fails.
\<close>

theorem unify_most_general:
  assumes "context_ok K F f" "wf_type K F a" "wf_type K F b" "free_vars a \<union> free_vars b \<subseteq> {..<f}"
  shows "\<exists>r. settles (\<lambda>n. unify_with_fresh n a b f) r \<and>
    (case r of
       Done (Inr s, f') \<Rightarrow>
         f \<le> f' \<and> f' \<le> f + card (free_vars a \<union> free_vars b) \<and>
         (\<exists>a' b'. (\<forall>d. subst_apply (Suc d) s a = Some a' \<and> subst_apply (Suc d) s b = Some b') \<and>
            (\<forall>\<theta>. eval \<theta> a' = eval \<theta> b')) \<and>
         (\<forall>\<theta>. admissible K F f \<theta> \<longrightarrow> eval \<theta> a = eval \<theta> b \<longrightarrow>
            (\<exists>\<theta>'. (\<forall>v < f. \<theta>' v = \<theta> v) \<and> (\<forall>v t. map_of s v = Some t \<longrightarrow> \<theta>' v = eval \<theta>' t)))
     | Done (Inl err, f') \<Rightarrow> \<forall>\<theta>. admissible K F f \<theta> \<longrightarrow> eval \<theta> a \<noteq> eval \<theta> b
     | Panic \<Rightarrow> True
     | Timeout \<Rightarrow> False)"
  using unify_ok [OF assms]
proof (cases rule: unifier_okE)
  case panic
  then show ?thesis by (intro exI [of _ Panic]) simp
next
  case (error err f')
  then show ?thesis by (intro exI [of _ "Done (Inl err, f')"]) simp
next
  case (success s f' K' F')
  note m = mguD [OF success(3)]
  let ?a = "sub (map_of s) a" and ?b = "sub (map_of s) b"
  have fa: "free_vars a \<subseteq> free_vars a \<union> free_vars b" and fb: "free_vars b \<subseteq> free_vars a \<union> free_vars b" by auto
  note ra = refined [OF assms(1) success(3) assms(4,2) fa] and rb = refined [OF assms(1) success(3) assms(4,3) fb]
  have kinds: "kinded K' a" "kinded K' b"
    using kinded_agree(1) [of a K K'] kinded_agree(1) [of b K K'] wf_kinded(1) assms m(8) by (metis UnCI lessThan_iff subsetD)+
  have "eval \<theta> ?a = eval \<theta> ?b" for \<theta>
    using m(10) [OF star_models [OF m(5)], of \<theta>] eval_sub(1) [OF m(4)] kinds by simp
  then have "\<exists>a' b'. (\<forall>d. subst_apply (Suc d) s a = Some a' \<and> subst_apply (Suc d) s b = Some b') \<and> (\<forall>\<theta>. eval \<theta> a' = eval \<theta> b')"
    using ra(4) rb(4) by (intro exI [of _ ?a] exI [of _ ?b]) simp
  moreover have "\<exists>\<theta>'. (\<forall>v < f. \<theta>' v = \<theta> v) \<and> (\<forall>v t. map_of s v = Some t \<longrightarrow> \<theta>' v = eval \<theta>' t)"
    if "admissible K F f \<theta>" "eval \<theta> a = eval \<theta> b" for \<theta>
    using m(11) [OF that] by (auto simp: models_def)
  moreover have "f' \<le> f + card (free_vars a \<union> free_vars b)" using m(12) by auto
  ultimately show ?thesis using success(1) m(1) by (intro exI [of _ "Done (Inr s, f')"]) simp
qed

text \<open>The rows \<open>{x: a | r}\<close> and \<open>{y: Int | q}\<close>, with the kinds of their variables and the fields in front of them.\<close>

definition example_row_a :: mono_type where
  "example_row_a = Record (Extend ''x'' (Var 0) (RowVar 1))"

definition example_row_b :: mono_type where
  "example_row_b = Record (Extend ''y'' (Con ''Int'') (RowVar 2))"

definition example_kinds :: kinding where
  "example_kinds v = (if v = 1 \<or> v = 2 then KRow else KType)"

definition example_fronts :: fronts where
  "example_fronts v = (if v = 1 then [(''x'', Var 0)] else if v = 2 then [(''y'', Con ''Int'')] else [])"

theorem unify_most_general_witness:
  "context_ok example_kinds example_fronts 3 \<and>
   wf_type example_kinds example_fronts example_row_a \<and>
   wf_type example_kinds example_fronts example_row_b \<and>
   free_vars example_row_a \<union> free_vars example_row_b \<subseteq> {..<3} \<and>
   unify_with_fresh 5 example_row_a example_row_b 3 =
     Done (Inr [(1, Record (Extend ''y'' (Con ''Int'') (RowVar 3))), (2, Record (Extend ''x'' (Var 0) (RowVar 3)))], 4) \<and>
   (\<exists>r. settles (\<lambda>n. unify_with_fresh n example_row_a example_row_b 3) r \<and>
     (case r of
        Done (Inr s, f') \<Rightarrow>
          (\<exists>a' b'. (\<forall>d. subst_apply (Suc d) s example_row_a = Some a' \<and> subst_apply (Suc d) s example_row_b = Some b') \<and>
             (\<forall>\<theta>. eval \<theta> a' = eval \<theta> b'))
      | Done (Inl err, f') \<Rightarrow> True
      | Panic \<Rightarrow> True
      | Timeout \<Rightarrow> False))"
proof -
  note defs = example_row_a_def example_row_b_def example_kinds_def example_fronts_def
  have ok: "context_ok example_kinds example_fronts 3"
    "wf_type example_kinds example_fronts example_row_a" "wf_type example_kinds example_fronts example_row_b"
    "free_vars example_row_a \<union> free_vars example_row_b \<subseteq> {..<3}"
    by (auto simp: defs context_ok_def coherent_def wf_row_def)
  have run: "unify_with_fresh 5 example_row_a example_row_b 3 =
     Done (Inr [(1, Record (Extend ''y'' (Con ''Int'') (RowVar 3))), (2, Record (Extend ''x'' (Var 0) (RowVar 3)))], 4)"
    by code_simp
  obtain r where "settles (\<lambda>n. unify_with_fresh n example_row_a example_row_b 3) r" and
    "case r of
        Done (Inr s, f') \<Rightarrow>
          (\<exists>a' b'. (\<forall>d. subst_apply (Suc d) s example_row_a = Some a' \<and> subst_apply (Suc d) s example_row_b = Some b') \<and>
             (\<forall>\<theta>. eval \<theta> a' = eval \<theta> b'))
      | Done (Inl err, f') \<Rightarrow> True
      | Panic \<Rightarrow> True
      | Timeout \<Rightarrow> False"
    using unify_most_general [OF ok] by (force split: outcome.splits sum.splits prod.splits)
  with ok run show ?thesis by (intro conjI exI [of _ r])
qed

section \<open>Symmetry on types without row variables\<close>

lemma context_ok_plain: "context_ok (\<lambda>_. KType) (\<lambda>_. []) f"
  by (simp add: context_ok_def)

lemma admissible_plain: "admissible (\<lambda>_. KType) (\<lambda>_. []) f \<theta>"
  by (simp add: admissible_def admissible_at_def)

text \<open>The types without row variables: every variable stands for a type.\<close>

definition plain :: "mono_type \<Rightarrow> bool" where
  "plain t \<longleftrightarrow> wf_type (\<lambda>_. KType) (\<lambda>_. []) t"

lemma plain_closed: "plain t \<Longrightarrow> closed_type t"
  by (auto simp: plain_def intro: kinded_closed(1) wf_kinded(1))

text \<open>What one run on two such types settles on.\<close>

lemma plain_unify:
  assumes a: "plain a" and b: "plain b" and f: "free_vars a \<union> free_vars b \<subseteq> {..<f}" and c: "c \<in> {a, b}"
  obtains (error) e where "settles (\<lambda>n. unify_with_fresh n a b f) (Done (Inl e, f))" "\<And>\<theta>. eval \<theta> a \<noteq> eval \<theta> b"
    | (success) s t where "settles (\<lambda>n. unify_with_fresh n a b f) (Done (Inr s, f))"
        "\<And>d. subst_apply (Suc d) s c = Some t" "range (\<lambda>\<theta>. eval \<theta> t) = {eval \<theta> c | \<theta>. eval \<theta> a = eval \<theta> b}"
proof -
  note ab = a [unfolded plain_def] b [unfolded plain_def]
  note quiet = closed_settles [OF plain_closed [OF a] plain_closed [OF b]]
  from unify_ok [OF context_ok_plain ab f] show thesis
  proof (cases rule: unifier_okE)
    case panic
    then show thesis using quiet by fastforce
  next
    case (error e f')
    then show thesis using that(1) quiet admissible_plain by fastforce
  next
    case (success s f' K' F')
    note m = mguD [OF success(3)]
    let ?t = "sub (map_of s) c"
    have wc: "wf_type (\<lambda>_. KType) (\<lambda>_. []) c" and fc: "free_vars c \<subseteq> free_vars a \<union> free_vars b"
      using ab c by auto
    have k: "kinded K' c"
      using kinded_agree(1) [of c "\<lambda>_. KType" K'] wf_kinded(1) [OF wc] m(8) f fc by (metis lessThan_iff subsetD)
    have "range (\<lambda>\<theta>. eval \<theta> ?t) = {eval \<theta> c | \<theta>. eval \<theta> a = eval \<theta> b}"
    proof (intro equalityI subsetI)
      fix g assume "g \<in> range (\<lambda>\<theta>. eval \<theta> ?t)"
      then obtain \<theta> where "g = eval (star \<theta> (map_of s)) c" using eval_sub(1) [OF m(4) k] by auto
      then show "g \<in> {eval \<theta> c | \<theta>. eval \<theta> a = eval \<theta> b}" using m(10) [OF star_models [OF m(5)]] by blast
    next
      fix g assume "g \<in> {eval \<theta> c | \<theta>. eval \<theta> a = eval \<theta> b}"
      then obtain \<theta> where g: "g = eval \<theta> c" "eval \<theta> a = eval \<theta> b" by blast
      obtain \<theta>' where t: "\<And>v. v < f \<Longrightarrow> \<theta>' v = \<theta> v" "models \<theta>' (map_of s)"
        using m(11) [OF admissible_plain g(2)] by blast
      have "eval \<theta>' c = eval \<theta> c" by (rule eval_agree(1)) (use t(1) f fc in blast)
      then show "g \<in> range (\<lambda>\<theta>. eval \<theta> ?t)" using eval_sub_models(1) [OF m(4) t(2) k] g(1) by (metis rangeI)
    qed
    moreover have "\<And>d. subst_apply (Suc d) s c = Some ?t"
      using refined [OF context_ok_plain success(3) f wc fc] by blast
    moreover have "f' = f" using quiet [OF success(1)] by blast
    ultimately show thesis using that(2) success(1) by blast
  qed
qed

text \<open>
  C29: On types without row variables, which are what the generator of the property harness makes for every
  seed, and with counters beyond their variables, unification is symmetric.  In either order it returns,
  without a panic and without making a variable.  Either both orders fail and the two types have no instance in
  common, or both succeed, and the two substitutions applied to the first type give types with the same ground
  instances: those of the first type under the valuations that make the two types equal.
\<close>

theorem unify_symmetric:
  assumes "plain a" "plain b" "free_vars a \<union> free_vars b \<subseteq> {..<f}" "f \<le> f'"
  shows "(\<exists>e e'. settles (\<lambda>n. unify_with_fresh n a b f) (Done (Inl e, f)) \<and>
       settles (\<lambda>n. unify_with_fresh n b a f') (Done (Inl e', f')) \<and> (\<forall>\<theta>. eval \<theta> a \<noteq> eval \<theta> b)) \<or>
    (\<exists>s s' t t'. settles (\<lambda>n. unify_with_fresh n a b f) (Done (Inr s, f)) \<and>
       settles (\<lambda>n. unify_with_fresh n b a f') (Done (Inr s', f')) \<and>
       (\<forall>d. subst_apply (Suc d) s a = Some t \<and> subst_apply (Suc d) s' a = Some t') \<and>
       range (\<lambda>\<theta>. eval \<theta> t) = range (\<lambda>\<theta>. eval \<theta> t') \<and>
       range (\<lambda>\<theta>. eval \<theta> t) = {eval \<theta> a | \<theta>. eval \<theta> a = eval \<theta> b})"
proof -
  have ba: "free_vars b \<union> free_vars a \<subseteq> {..<f'}" using assms(3,4) by auto
  have in_ab: "a \<in> {a, b}" "a \<in> {b, a}" by simp_all
  have sym: "{eval \<theta> a | \<theta>. eval \<theta> b = eval \<theta> a} = {eval \<theta> a | \<theta>. eval \<theta> a = eval \<theta> b}" by metis
  show ?thesis
  proof (cases rule: plain_unify [OF assms(1,2,3) in_ab(1), case_names ferror fsuccess])
    case (ferror e)
    note no = ferror
    show ?thesis
    proof (cases rule: plain_unify [OF assms(2,1) ba in_ab(2), case_names berror bsuccess])
      case (berror e')
      then show ?thesis using no by blast
    next
      case (bsuccess s' t')
      then have "eval undefined t' \<in> {eval \<theta> a | \<theta>. eval \<theta> b = eval \<theta> a}" by blast
      then obtain \<theta> where "eval \<theta> b = eval \<theta> a" by blast
      from no(2) [of \<theta>] this [symmetric] show ?thesis by blast
    qed
  next
    case (fsuccess s t)
    note yes = fsuccess
    show ?thesis
    proof (cases rule: plain_unify [OF assms(2,1) ba in_ab(2), case_names berror bsuccess])
      case (berror e')
      from yes(3) have "eval undefined t \<in> {eval \<theta> a | \<theta>. eval \<theta> a = eval \<theta> b}" by blast
      then obtain \<theta> where "eval \<theta> a = eval \<theta> b" by blast
      from berror(2) [of \<theta>] this [symmetric] show ?thesis by blast
    next
      case (bsuccess s' t')
      have "range (\<lambda>\<theta>. eval \<theta> t) = range (\<lambda>\<theta>. eval \<theta> t')" using yes(3) bsuccess(3) sym by (simp only:)
      with yes bsuccess(1,2) show ?thesis
        by (intro disjI2 exI [of _ s] exI [of _ s'] exI [of _ t] exI [of _ t'] conjI allI)
    qed
  qed
qed

theorem unify_symmetric_witness:
  "plain (random_mono 1 2) \<and> plain (random_mono 0 3) \<and> free_vars (random_mono 1 2) \<union> free_vars (random_mono 0 3) \<subseteq> {..<8} \<and>
   (\<exists>r r'. settles (\<lambda>n. unify_with_fresh n (random_mono 1 2) (random_mono 0 3) 8) (Done (r, 8)) \<and>
      settles (\<lambda>n. unify_with_fresh n (random_mono 0 3) (random_mono 1 2) 8) (Done (r', 8)))"
proof -
  have ok: "plain (random_mono 1 2)" "plain (random_mono 0 3)"
    "free_vars (random_mono 1 2) \<union> free_vars (random_mono 0 3) \<subseteq> {..<8}"
    using random_mono_vars by (simp_all only: plain_def random_mono_coherent) blast
  with unify_symmetric [OF ok order.refl] show ?thesis by blast
qed

section \<open>Where the unifier goes wrong\<close>

lemma apply_row_cycle:
  assumes "map_of s v = Some (Record (Extend f (Con c) (RowVar v)))"
  shows "apply_row d s (RowVar v) = None"
  by (induction d) (use assms in auto)

text \<open>
  C30: The entry point \<^verbatim>\<open>unify\<close> makes its row variables with a counter of its own, which starts at
  zero.  On \<open>{a: Int | r0}\<close> and \<open>{b: Str | r1}\<close> the new tail is again \<open>r0\<close>: the substitution it returns
  binds \<open>r0\<close> to a row that ends in \<open>r0\<close>, and applying it to either of the two types never returns.
\<close>

theorem unify_private_counter_diverges:
  "\<exists>s. hm_unify 4 (Record (Extend ''a'' (Con ''Int'') (RowVar 0))) (Record (Extend ''b'' (Con ''Str'') (RowVar 1))) =
         Done (Inr s, 1) \<and>
       map_of s 0 = Some (Record (Extend ''b'' (Con ''Str'') (RowVar 0))) \<and>
       (\<forall>d. subst_apply d s (Record (Extend ''a'' (Con ''Int'') (RowVar 0))) = None \<and>
            subst_apply d s (Record (Extend ''b'' (Con ''Str'') (RowVar 1))) = None)"
proof -
  let ?s = "[(0, Record (Extend ''b'' (Con ''Str'') (RowVar 0))), (1, Record (Extend ''a'' (Con ''Int'') (RowVar 0)))] :: substitution"
  have "hm_unify 4 (Record (Extend ''a'' (Con ''Int'') (RowVar 0))) (Record (Extend ''b'' (Con ''Str'') (RowVar 1))) = Done (Inr ?s, 1)"
    by code_simp
  moreover have "apply_row d ?s (RowVar 0) = None" for d
    by (rule apply_row_cycle [where f = "''b''" and c = "''Str''"]) simp
  moreover from this have "apply_row d ?s (RowVar 1) = None" for d
    by (simp split: nat.split)
  ultimately show ?thesis by (intro exI [of _ ?s]) simp
qed

text \<open>
  A binding of the later substitution is written over the one of the earlier, so composing two
  substitutions that bind the same variable does not give their composition.
\<close>

lemma compose_overwrites:
  "\<exists>c. subst_compose d (subst_singleton 0 (Con ''A'')) (subst_singleton 0 (Con ''B'')) = Some c \<and>
     subst_apply d c (Var 0) = Some (Con ''A'') \<and>
     subst_apply d (subst_singleton 0 (Con ''B'')) (Var 0) = Some (Con ''B'') \<and>
     subst_apply d (subst_singleton 0 (Con ''A'')) (Con ''B'') = Some (Con ''B'')"
  by (simp add: subst_compose_def subst_singleton_def)

definition repeated_tail :: mono_type where
  "repeated_tail = Record (Extend ''x'' (Record (Extend ''x'' (Con ''Int'') (RowVar 0))) (RowVar 0))"

definition closed_inner :: mono_type where
  "closed_inner = Record (Extend ''x'' (Record (Extend ''x'' (Con ''Int'') (Extend ''y'' (Con ''Str'') Empty))) (RowVar 1))"

text \<open>
  C31: On types that are not coherent the unifier can return a substitution that is no unifier.  The
  binding found for a row variable inside a shared field is overwritten when the same variable is
  the tail of the row: for \<open>{x: {x: Int | r0} | r0}\<close> and \<open>{x: {x: Int, y: Str} | r1}\<close>, which do have an
  instance in common, the field \<open>y\<close> is lost from the answer.
\<close>

theorem row_tail_binding_lost:
  "\<exists>s a' b'. unify_with_fresh 5 repeated_tail closed_inner 2 = Done (Inr s, 3) \<and>
     subst_apply 5 s repeated_tail = Some a' \<and> subst_apply 5 s closed_inner = Some b' \<and>
     (\<exists>\<theta>. eval \<theta> a' \<noteq> eval \<theta> b') \<and>
     (\<exists>\<theta>. eval \<theta> repeated_tail = eval \<theta> closed_inner)"
proof -
  let ?s = "[(0, Record (RowVar 2)), (1, Record (RowVar 2))] :: substitution"
  let ?a = "Record (Extend ''x'' (Record (Extend ''x'' (Con ''Int'') (RowVar 2))) (RowVar 2))"
  let ?b = "Record (Extend ''x'' (Record (Extend ''x'' (Con ''Int'') (Extend ''y'' (Con ''Str'') Empty))) (RowVar 2))"
  have "unify_with_fresh 5 repeated_tail closed_inner 2 = Done (Inr ?s, 3)"
    "subst_apply 5 ?s repeated_tail = Some ?a" "subst_apply 5 ?s closed_inner = Some ?b"
    by code_simp+
  moreover have "eval (\<lambda>_. GRecord fmempty) ?a \<noteq> eval (\<lambda>_. GRecord fmempty) ?b"
  proof
    assume "eval (\<lambda>_. GRecord fmempty) ?a = eval (\<lambda>_. GRecord fmempty) ?b"
    from arg_cong [OF this, of "\<lambda>g. fmlookup (gfields (the (fmlookup (gfields g) ''x''))) ''y''"]
    show False by simp
  qed
  moreover have "eval (\<lambda>_. GRecord (fmupd ''y'' (GCon ''Str'') fmempty)) repeated_tail =
    eval (\<lambda>_. GRecord (fmupd ''y'' (GCon ''Str'') fmempty)) closed_inner"
    by (auto simp: repeated_tail_def closed_inner_def intro!: fmap_ext)
  ultimately show ?thesis by blast
qed

end
