(* ===== verification/Spec2Isabelle.thy ===== *)
theory Spec2Isabelle
  imports Encoder_Properties Types_Properties Effects_Properties Linker_Properties Datalog_Properties
    HM_Properties
begin

text \<open>
  A verification library for paideia-as, the assembler and toolchain of PaideiaOS.

  \<^bold>\<open>The program.\<close>  Source text is lexed, parsed and elaborated (\<^verbatim>\<open>paideia-as-lexer\<close>, \<^verbatim>\<open>-parser\<close>,
  \<^verbatim>\<open>-elaborator\<close>) against the type and effect structure of \<^verbatim>\<open>paideia-as-types\<close> and
  \<^verbatim>\<open>paideia-as-effects\<close>; the instructions of the intermediate representation are turned into x86-64
  bytes by \<^verbatim>\<open>paideia-as-encoder\<close>, written into PAX object files by \<^verbatim>\<open>paideia-as-emitter-pax\<close> and put
  together by \<^verbatim>\<open>paideia-as-linker\<close>.  Beside the compiler stands the semantic shell; its query language
  is evaluated by \<^verbatim>\<open>paideia-as-shell-datalog\<close>, its expressions are typed by \<^verbatim>\<open>paideia-as-shell-hm\<close>.
  The development models these seven crates.

  \<^bold>\<open>Shared vocabulary.\<close>  \<open>Prelude\<close>: words at the widths of the Rust integers, little-endian bytes,
  the sort-and-dedup idiom, the \<^verbatim>\<open>?\<close> operator on results.  A Rust panic is the value \<open>None\<close> where a
  function can panic, an \<^verbatim>\<open>Err\<close> is \<open>Inl\<close>.

  \<^bold>\<open>Instructions and their bytes\<close> (\<^verbatim>\<open>paideia-as-runtime/src/instruction\<close>, \<^verbatim>\<open>paideia-as-encoder/src/encode\<close>,
  \<^verbatim>\<open>encode_instruction\<close>).  \<open>Machine\<close> holds mnemonics, registers and operands; \<open>Encoder_Core\<close> and the
  theories \<open>Encode_Mov_Arith\<close>, \<open>Encode_Cmp_Jmp\<close>, \<open>Encode_Shift_Logical\<close>, \<open>Encode_Unary_Special\<close>,
  \<open>Encode_Bit_Ops\<close>, \<open>Encode_Lock_Arith\<close>, \<open>Encode_Cond_Call\<close>, \<open>Encode_Mem_Moves\<close> the emission of prefixes,
  ModR/M, SIB, displacements and immediates; \<open>Encode_Types\<close> and \<open>Encode_Dispatch\<close> the buffer with its fixups
  and relocations; \<open>Encode_Arith\<close>, \<open>Encode_Logic\<close>, \<open>Encode_Bits\<close>, \<open>Encode_Simple\<close>, \<open>Encode_Shifts\<close>,
  \<open>Encode_Cmp_Test\<close>, \<open>Encode_Atomic\<close>, \<open>Encode_Branch\<close> the encoder of each mnemonic.  \<open>X86_Decode\<close> is a
  reference decoder written from the architecture's tables; \<open>Encode_Spec\<close> states the contract of an
  encoder as a locale (an accepted instruction appends bytes that decode to that instruction and
  leaves what was there), which the mnemonic theories interpret; \<open>Encoder_Bytes\<close> relates the emitted
  bytes to the decoder.

  \<^bold>\<open>Types\<close> (\<^verbatim>\<open>paideia-as-types\<close>).  \<open>Interner\<close> states hash-consing as a locale, interpreted by the
  type table of \<open>Types\<close>, the capability table of \<open>Cap_Sets\<close> and the tables of effects; \<open>Layout\<close> sizes and
  alignments with the wrapping additions of the release profile, \<open>Sessions\<close> session types with a step relation for two endpoints, \<open>Row_Records\<close> record
  rows with binary search and merge, \<open>Unify\<close> unification over the table.

  \<^bold>\<open>Effects\<close> (\<^verbatim>\<open>paideia-as-effects\<close>).  \<open>Effect_Rows\<close>, \<open>Effect_Unify\<close>, \<open>Effect_Registry\<close>: canonical rows,
  their unifier and substitutions, and the registry of effects with their operations.

  \<^bold>\<open>Object files and linking\<close> (\<^verbatim>\<open>paideia-as-emitter-pax\<close>, \<^verbatim>\<open>paideia-as-linker\<close>).  \<open>Pax_Codec\<close> states a
  codec of fixed-size entries as a locale; \<open>Pax_Format\<close> is the header and section table, \<open>Pax_Tables\<close>
  the entries of every section; \<open>Linker\<close> holds the four phases (parse, resolve, relocate, emit) and their composition \<open>link\<close>;
  \<open>Linker_Resolve\<close>, \<open>Linker_Relocate\<close> and \<open>Linker_Emit\<close> say what the phases compute, panics included.

  \<^bold>\<open>Datalog\<close> (\<^verbatim>\<open>paideia-as-shell-datalog\<close>).  \<open>Datalog\<close> is the program and its stores, \<open>Datalog_Strata\<close> and
  \<open>Datalog_Tarjan\<close> the stratifier, \<open>Datalog_Matching\<close> and \<open>Datalog_Fixpoint\<close> the semi-naive loop,
  \<open>Datalog_Evaluator\<close> and \<open>Datalog_Queries\<close> the entry points, \<open>Datalog_Magic\<close> the magic-set rewriting;
  \<open>Datalog_Components\<close>, \<open>Datalog_Lift\<close> and \<open>Datalog_Stable\<close> prove the component search, the
  stratification and the evaluation against strong connectivity, level maps and the model the engine aims
  at; \<open>Datalog_Semantics\<close> shows that for range-restricted rules this is the stable model of the literature.

  \<^bold>\<open>Type inference of the shell\<close> (\<^verbatim>\<open>paideia-as-shell-hm\<close>).  \<open>HM_Types\<close> holds the types with record rows,
  effect rows and typed values, \<open>HM_Unify\<close> substitutions and the unifier, \<open>HM_Infer\<close> expressions, schemes
  and Algorithm W, \<open>HM_Display\<close> the texts, diagnostics and hover, \<open>HM_Random\<close> the generators of the property
  harness.  The other \<open>HM\<close> theories are its correctness proof: \<open>HM_Semantics\<close> gives types a meaning as ground
  types, where a row is a finite map of fields, \<open>HM_Substitution\<close> and \<open>HM_Solutions\<close> relate applying a
  substitution to that meaning, \<open>HM_Coherence\<close> states the condition under which row unification is
  right (a row variable stands behind the same fields wherever it occurs), \<open>HM_Mgu\<close>, \<open>HM_Bindings\<close>,
  \<open>HM_Runs\<close>, \<open>HM_Shared_Fields\<close>, \<open>HM_Row_Unify\<close> and \<open>HM_Unify_Correct\<close> prove the unifier, the last
  also that it makes no variable on types without row variables, \<open>HM_Schemes\<close>,
  \<open>HM_Generalize\<close>, \<open>HM_Typing\<close> and \<open>HM_Infer_Correct\<close> inference against a set of types defined by
  recursion on the expression.

  \<^bold>\<open>What is shown.\<close>  The theories ending in \<open>_Properties\<close> hold the claims, numbered over the whole
  development.  Encoder: decoding what was emitted gives back the instruction, its memory operand and
  its relocations.  Types and effects: hash-consing gives equal ids exactly to equal types, layouts
  agree modulo \<open>2^64\<close> with a reference layout over the natural numbers, checked sessions do not get stuck, row
  unification succeeds exactly on rows with a common instance.  Where a claim has a side condition (no RSP as an
  index, a displacement of 32 bits, an unbound variable in a table the occurs check searches), inputs
  outside of it are shown to go wrong.  Files: what is written is read back,
  parsing has an exact condition for each outcome, relocation touches only the patched fields and panics
  exactly on an offset whose end wraps around, resolution fails exactly on a symbol that no input defines or a
  capability that none exports, and a linked file is a file again.  Datalog: components are the strongly connected ones, the
  stratification is the least one, evaluation of range-restricted rules computes the only stable model,
  queries return exactly its answers, with and without the magic-set rewriting.  Inference: the unifier returns a most general
  solution of coherent types when the counter is beyond their variables, it is symmetric on types without row
  variables, and Algorithm W returns a type whose instances are exactly the types of
  the expression, or an error when it has none; two theorems give inputs outside that condition on which
  the unifier loops or answers wrongly.

  \<^bold>\<open>Termination.\<close>  Loops of the sources are structural recursion where they walk a list.  The worklist
  loops of the Datalog engine are \<open>while_option\<close> and are proved to return.  Layout takes fuel; the id
  of the type is enough.  Unification over the type table takes fuel because the code can run
  forever on cyclic bindings; that it does is a theorem, as is that it returns on tables
  without variables.  The unifier and the inference of the shell take the depth of their recursion; a run
  \<open>settles\<close> on an outcome when every depth from some point on gives it, and \<open>Timeout\<close> is never such an
  outcome.  \<open>Panic\<close> is the overflow of the 32-bit counter of variables.

  \<^bold>\<open>Not modelled.\<close>  SSE, AVX, string and system instructions of the encoder and the match over all
  mnemonics; the lexer, parser, elaborator and macro system; the arena, ABI and optimisation passes of
  \<^verbatim>\<open>paideia-as-ir\<close>; the ELF, PE and DWARF writers; diagnostics, formatter, documentation, language
  server and command line, which are input and output; the shell crates other than the
  Datalog engine and type inference; cryptographic code and signatures over external packages.
\<close>

end
